(* ===== verification/Prelude.thy ===== *)
theory Prelude
  imports Main "HOL-Library.Multiset"
begin

text \<open>
  The vocabulary shared by the component theories: Rust's unsigned machine integers, its
  \<open>HashMap\<close> with an arbitrary iteration order, the \<open>Result\<close> type, and the
  generic facts about lists, options and maps that carry the component proofs.

  The crate is built with \<open>overflow-checks = false\<close> in the dev profile and with Cargo's
  default (also off) in the release profile, so plain \<open>+\<close> and \<open>*\<close> on an unsigned type
  wrap around. The unsigned types are natural numbers; wherever the source adds or
  multiplies without a check the model writes the reduction modulo the width out, and
  \<open>saturating_*\<close> calls are written as such. \<open>usize\<close> has 64 bits.
\<close>

named_theorems u64_defs \<open>machine integer operations, unfolded\<close>
named_theorems op_defs \<open>component operations, unfolded\<close>

section \<open>Machine integers\<close>

type_synonym u32 = nat
type_synonym u64 = nat
type_synonym u128 = nat
type_synonym usize = nat

definition u64_max :: u64 where
  "u64_max = 2 ^ 64 - 1"

definition u32_max :: u32 where
  "u32_max = 2 ^ 32 - 1"

definition wadd64 :: "u64 \<Rightarrow> u64 \<Rightarrow> u64" where
  [u64_defs]: "wadd64 a b = (a + b) mod 2 ^ 64"

definition wmul64 :: "u64 \<Rightarrow> u64 \<Rightarrow> u64" where
  [u64_defs]: "wmul64 a b = (a * b) mod 2 ^ 64"

definition wsub64 :: "u64 \<Rightarrow> u64 \<Rightarrow> u64" where
  [u64_defs]: "wsub64 a b = (if b \<le> a then a - b else a + 2 ^ 64 - b)"

definition wadd32 :: "u32 \<Rightarrow> u32 \<Rightarrow> u32" where
  [u64_defs]: "wadd32 a b = (a + b) mod 2 ^ 32"

definition sat_add64 :: "u64 \<Rightarrow> u64 \<Rightarrow> u64" where
  [u64_defs]: "sat_add64 a b = min (a + b) u64_max"

definition sat_mul64 :: "u64 \<Rightarrow> u64 \<Rightarrow> u64" where
  [u64_defs]: "sat_mul64 a b = min (a * b) u64_max"

text \<open>Rust's \<open>saturating_sub\<close> on an unsigned type is exactly subtraction on \<open>nat\<close>.\<close>

definition sat_sub :: "nat \<Rightarrow> nat \<Rightarrow> nat" where
  [u64_defs]: "sat_sub a b = a - b"

lemma wadd64_no_overflow: "a + b < 2 ^ 64 \<Longrightarrow> wadd64 a b = a + b"
  by (simp add: wadd64_def)

lemma wadd32_no_overflow: "a + b < 2 ^ 32 \<Longrightarrow> wadd32 a b = a + b"
  by (simp add: wadd32_def)

lemma wmul64_no_overflow: "a * b < 2 ^ 64 \<Longrightarrow> wmul64 a b = a * b"
  by (simp add: wmul64_def)

lemma wadd64_bound: "wadd64 a b < 2 ^ 64"
  by (simp add: wadd64_def)

lemma wmul64_bound: "wmul64 a b < 2 ^ 64"
  by (simp add: wmul64_def)

lemma sat_add64_le: "sat_add64 a b \<le> u64_max"
  by (simp add: sat_add64_def)

lemma sat_mul64_le: "sat_mul64 a b \<le> u64_max"
  by (simp add: sat_mul64_def)

lemma sat_add64_ge: "a \<le> u64_max \<Longrightarrow> a \<le> sat_add64 a b"
  by (simp add: sat_add64_def)

lemma sat_add64_grows: "a < u64_max \<Longrightarrow> 0 < b \<Longrightarrow> a < sat_add64 a b"
  by (simp add: sat_add64_def)

section \<open>Results\<close>

text \<open>\<open>Result<T, E>\<close>: \<open>Inl\<close> is \<open>Err\<close>, \<open>Inr\<close> is \<open>Ok\<close>.\<close>

type_synonym ('e, 'a) result = "'e + 'a"

abbreviation Err :: "'e \<Rightarrow> ('e, 'a) result" where
  "Err \<equiv> Inl"

abbreviation Ok :: "'a \<Rightarrow> ('e, 'a) result" where
  "Ok \<equiv> Inr"

definition is_ok :: "('e, 'a) result \<Rightarrow> bool" where
  "is_ok r = (case r of Inl _ \<Rightarrow> False | Inr _ \<Rightarrow> True)"

lemma is_ok_simps [simp]: "is_ok (Inr x)" "\<not> is_ok (Inl e)"
  by (simp_all add: is_ok_def)

lemma is_ok_iff: "is_ok r \<longleftrightarrow> (\<exists>x. r = Inr x)"
  by (cases r) auto

text \<open>The \<open>?\<close> operator, and \<open>ok_or\<close> on an \<open>Option\<close>.\<close>

definition rbind :: "('e, 'a) result \<Rightarrow> ('a \<Rightarrow> ('e, 'b) result) \<Rightarrow> ('e, 'b) result" where
  "rbind r f = (case r of Inl e \<Rightarrow> Inl e | Inr x \<Rightarrow> f x)"

definition ok_or :: "'e \<Rightarrow> 'a option \<Rightarrow> ('e, 'a) result" where
  "ok_or e x = (case x of None \<Rightarrow> Inl e | Some v \<Rightarrow> Inr v)"

lemma rbind_simps [simp]: "rbind (Inl e) f = Inl e" "rbind (Inr x) f = f x"
  by (simp_all add: rbind_def)

lemma ok_or_simps [simp]: "ok_or e None = Inl e" "ok_or e (Some v) = Inr v"
  by (simp_all add: ok_or_def)

lemma ok_or_Inr [simp]: "ok_or e x = Inr v \<longleftrightarrow> x = Some v"
  by (cases x) auto

lemma rbind_Inr: "rbind r f = Inr y \<longleftrightarrow> (\<exists>x. r = Inr x \<and> f x = Inr y)"
  by (cases r) auto

section \<open>Hash maps and their iteration order\<close>

text \<open>
  A \<open>HashMap<K, V>\<close> is a partial function. Its iteration order is unspecified, so an
  operation that iterates takes the order as an argument, a list of keys;
  \<open>hm_order m ks\<close> says that \<open>ks\<close> lists the keys of \<open>m\<close>, each once.
\<close>

definition hm_order :: "('k \<rightharpoonup> 'v) \<Rightarrow> 'k list \<Rightarrow> bool" where
  "hm_order m ks \<longleftrightarrow> distinct ks \<and> set ks = dom m"

definition hm_values :: "('k \<rightharpoonup> 'v) \<Rightarrow> 'k list \<Rightarrow> 'v list" where
  "hm_values m ks = List.map_filter m ks"

definition hm_remove :: "('k \<rightharpoonup> 'v) \<Rightarrow> 'k \<Rightarrow> ('k \<rightharpoonup> 'v)" where
  "hm_remove m k = m(k := None)"

definition hm_retain :: "('v \<Rightarrow> bool) \<Rightarrow> ('k \<rightharpoonup> 'v) \<Rightarrow> ('k \<rightharpoonup> 'v)" where
  "hm_retain P m = (\<lambda>k. case m k of None \<Rightarrow> None | Some v \<Rightarrow> if P v then Some v else None)"

lemma hm_remove_apply [simp]: "hm_remove m k j = (if j = k then None else m j)"
  by (simp add: hm_remove_def)

lemma dom_hm_remove [simp]: "dom (hm_remove m k) = dom m - {k}"
  by (auto simp: hm_remove_def)

lemma hm_retain_Some [simp]: "hm_retain P m k = Some v \<longleftrightarrow> m k = Some v \<and> P v"
  by (auto simp: hm_retain_def split: option.splits)

lemma hm_retain_None: "hm_retain P m k = None \<longleftrightarrow> (\<forall>v. m k = Some v \<longrightarrow> \<not> P v)"
  by (auto simp: hm_retain_def split: option.splits)

lemma hm_order_member: "hm_order m ks \<Longrightarrow> k \<in> set ks \<longleftrightarrow> m k \<noteq> None"
  by (auto simp: hm_order_def)

lemma hm_order_card: "hm_order m ks \<Longrightarrow> length ks = card (dom m)"
  by (metis hm_order_def distinct_card)

lemma hm_order_finite: "hm_order m ks \<Longrightarrow> finite (dom m)"
  by (metis hm_order_def List.finite_set)

lemma set_hm_values: "hm_order m ks \<Longrightarrow> set (hm_values m ks) = ran m"
  by (force simp: hm_values_def hm_order_def map_filter_def ran_def)

lemma length_hm_values: "hm_order m ks \<Longrightarrow> length (hm_values m ks) = card (dom m)"
proof -
  assume ord: "hm_order m ks"
  then have "filter (\<lambda>k. m k \<noteq> None) ks = ks"
    by (auto simp: hm_order_def filter_id_conv)
  then have "length (hm_values m ks) = length ks"
    by (simp add: hm_values_def map_filter_def)
  with hm_order_card [OF ord] show ?thesis by simp
qed

section \<open>Lists\<close>

lemma take_Suc_snoc: "n < length xs \<Longrightarrow> take (Suc n) xs = take n xs @ [xs ! n]"
  by (simp add: take_Suc_conv_app_nth)

lemma length_filter_take_le: "length (filter P (take n xs)) \<le> n"
  by (rule order_trans [OF length_filter_le]) simp

lemma filter_list_update_count:
  assumes "i < length xs"
  shows "length (filter P (xs[i := y])) + (if P (xs ! i) then 1 else 0)
       = length (filter P xs) + (if P y then 1 else 0)"
  using assms
proof (induction xs arbitrary: i)
  case Nil
  then show ?case by simp
next
  case (Cons x xs)
  show ?case
  proof (cases i)
    case 0
    then show ?thesis by simp
  next
    case (Suc j)
    with Cons.prems have "j < length xs" by simp
    from Cons.IH [OF this] Suc show ?thesis by auto
  qed
qed

end
