(* ===== verification/F64.thy ===== *)
theory F64
  imports Complex_Main Prelude "HOL-Library.Log_Nat"
begin

text \<open>
  IEEE-754 binary64 as Rust's \<open>f64\<close> computes it: finite values are rationals, every
  arithmetic operation is the exact one followed by rounding to nearest, ties to even,
  with gradual underflow and overflow to infinity. The two zeros are identified (the
  sources neither divide by a computed zero nor inspect the sign of one). Everything is
  executable. The facts proved are the ones the clients use: rounding is monotone, keeps
  the sign and is exact on the integers up to \<open>2 ^ 53\<close>.
\<close>

named_theorems f64_defs \<open>float operations, unfolded\<close>

section \<open>Rounding\<close>

text \<open>The exponent of the binade of a positive rational: \<open>2 powi e \<le> x < 2 powi (e + 1)\<close>.\<close>

definition ilog2_rat :: "rat \<Rightarrow> int" where
  "ilog2_rat x = (let (n, d) = quotient_of x; k = bitlen n - bitlen d
     in if 2 powi k \<le> x then k else k - 1)"

text \<open>Round half to even.\<close>

definition rhe :: "rat \<Rightarrow> int" where
  "rhe x = (let f = \<lfloor>x\<rfloor>; r = x - of_int f
     in if r < 1 / 2 then f else if 1 / 2 < r then f + 1 else if even f then f else f + 1)"

text \<open>
  A format has a mantissa of \<open>p\<close> stored bits and the exponent \<open>m\<close> of its smallest subnormal.
  The exponent of the last mantissa bit is \<open>p\<close> below the binade, but never below \<open>m\<close>.
\<close>

definition ulp_exp :: "nat \<Rightarrow> int \<Rightarrow> rat \<Rightarrow> int" where
  "ulp_exp p m x = max (ilog2_rat x - int p) m"

definition round_pos :: "nat \<Rightarrow> int \<Rightarrow> rat \<Rightarrow> rat" where
  "round_pos p m x = of_int (rhe (x / 2 powi ulp_exp p m x)) * 2 powi ulp_exp p m x"

definition round_to :: "nat \<Rightarrow> int \<Rightarrow> rat \<Rightarrow> rat" where
  "round_to p m x = (if x = 0 then 0 else if 0 < x then round_pos p m x else - round_pos p m (- x))"

abbreviation round_rat :: "rat \<Rightarrow> rat" where
  "round_rat \<equiv> round_to 52 (- 1074)"

abbreviation round_rat32 :: "rat \<Rightarrow> rat" where
  "round_rat32 \<equiv> round_to 23 (- 149)"

lemma ilog2_rat_bounds:
  assumes "0 < x"
  shows "2 powi ilog2_rat x \<le> x" and "x < 2 powi (ilog2_rat x + 1)"
proof -
  obtain n d where q: "quotient_of x = (n, d)" by (cases "quotient_of x")
  then have d: "0 < d" and x: "x = of_int n / of_int d"
    by (auto simp: quotient_of_denom_pos quotient_of_div)
  with assms have n: "0 < n"
    by (metis divide_less_0_iff linorder_neqE_linordered_idom of_int_0 of_int_0_less_iff
        div_0 less_asym zero_less_divide_iff)
  have pw: "2 powi (bitlen m - 1) \<le> (of_int m :: rat) \<and> (of_int m :: rat) < 2 powi bitlen m"
    if "0 < m" for m :: int
  proof -
    from bitlen_bounds [OF that] have b: "2 ^ nat (bitlen m - 1) \<le> m" "m < 2 ^ nat (bitlen m)" by auto
    have "1 \<le> bitlen m" using that by (simp add: bitlen_def floorlog_def)
    then have e: "2 powi (bitlen m - 1) = (2 :: rat) ^ nat (bitlen m - 1)"
      "2 powi bitlen m = (2 :: rat) ^ nat (bitlen m)"
      by (simp_all add: power_int_def)
    from b have "(of_int (2 ^ nat (bitlen m - 1)) :: rat) \<le> of_int m"
      "(of_int m :: rat) < of_int (2 ^ nat (bitlen m))"
      by (simp_all only: of_int_le_iff of_int_less_iff)
    with e show ?thesis by simp
  qed
  let ?k = "bitlen n - bitlen d"
  have lo: "2 powi (?k - 1) \<le> x"
  proof -
    have "2 powi (?k - 1) = (2 :: rat) powi (bitlen n - 1) / 2 powi bitlen d"
      by (simp add: power_int_diff)
    also have "\<dots> \<le> of_int n / of_int d"
      using pw [OF n] pw [OF d] d n by (intro frac_le) auto
    finally show ?thesis by (simp add: x)
  qed
  have hi: "x < 2 powi (?k + 1)"
  proof -
    have "of_int n / of_int d < (2 :: rat) powi bitlen n / 2 powi (bitlen d - 1)"
      using pw [OF n] pw [OF d] d n by (intro frac_less) auto
    also have "\<dots> = 2 powi (?k + 1)" by (simp add: power_int_diff power_int_add)
    finally show ?thesis by (simp add: x)
  qed
  show "2 powi ilog2_rat x \<le> x" "x < 2 powi (ilog2_rat x + 1)"
    using lo hi by (auto simp: ilog2_rat_def q Let_def not_le)
qed

lemma rhe_of_int [simp]: "rhe (of_int n) = n"
  by (simp add: rhe_def)

lemma rhe_between: "\<lfloor>x\<rfloor> \<le> rhe x" "rhe x \<le> \<lfloor>x\<rfloor> + 1"
  by (simp_all add: rhe_def Let_def)

lemma rhe_mono: "x \<le> y \<Longrightarrow> rhe x \<le> rhe y"
proof -
  assume le: "x \<le> y"
  show ?thesis
  proof (cases "\<lfloor>x\<rfloor> = \<lfloor>y\<rfloor>")
    case True
    with le show ?thesis by (simp add: rhe_def Let_def)
  next
    case False
    with floor_mono [OF le] have "\<lfloor>x\<rfloor> + 1 \<le> \<lfloor>y\<rfloor>" by simp
    with rhe_between [of x] rhe_between [of y] show ?thesis by linarith
  qed
qed

lemma rhe_ge_int: "of_int n \<le> x \<Longrightarrow> n \<le> rhe x"
  using rhe_mono [of "of_int n" x] by simp

lemma rhe_le_int: "x \<le> of_int n \<Longrightarrow> rhe x \<le> n"
  using rhe_mono [of x "of_int n"] by simp

lemma round_pos_nonneg: "0 < x \<Longrightarrow> 0 \<le> round_pos p m x"
proof -
  assume "0 < x"
  then have "0 \<le> rhe (x / 2 powi ulp_exp p m x)" using rhe_ge_int [of 0] by simp
  then show ?thesis by (simp add: round_pos_def)
qed

text \<open>Across binades: the rounded value never leaves the closed binade (or subnormal range).\<close>

lemma round_pos_le_top:
  assumes "0 < x"
  shows "round_pos p m x \<le> 2 powi (ulp_exp p m x + (int p + 1))"
proof -
  have "x < 2 powi (ilog2_rat x + 1)" using ilog2_rat_bounds assms by simp
  also have "\<dots> \<le> 2 powi (ulp_exp p m x + (int p + 1))"
    by (rule power_int_increasing) (simp_all add: ulp_exp_def)
  also have "\<dots> = of_int (2 ^ Suc p) * 2 powi ulp_exp p m x" by (simp add: power_int_add)
  finally have "x / 2 powi ulp_exp p m x \<le> of_int (2 ^ Suc p)" by (simp add: divide_le_eq)
  then have "rhe (x / 2 powi ulp_exp p m x) \<le> 2 ^ Suc p" by (rule rhe_le_int)
  then have "(of_int (rhe (x / 2 powi ulp_exp p m x)) :: rat) \<le> of_int (2 ^ Suc p)"
    by (simp only: of_int_le_iff)
  then show ?thesis by (simp add: round_pos_def power_int_add mult_right_mono)
qed

lemma round_pos_ge_bottom:
  assumes "0 < x" and "m < ulp_exp p m x"
  shows "2 powi (ulp_exp p m x + int p) \<le> round_pos p m x"
proof -
  from assms(2) have "ulp_exp p m x + int p = ilog2_rat x" by (auto simp: ulp_exp_def)
  then have "of_int (2 ^ p) * 2 powi ulp_exp p m x \<le> x"
    using ilog2_rat_bounds(1) [OF assms(1)] by (simp add: power_int_add mult.commute flip: \<open>_ = ilog2_rat x\<close>)
  then have "of_int (2 ^ p) \<le> x / 2 powi ulp_exp p m x" by (simp add: le_divide_eq)
  then have "2 ^ p \<le> rhe (x / 2 powi ulp_exp p m x)" by (rule rhe_ge_int)
  then have "(of_int (2 ^ p) :: rat) \<le> of_int (rhe (x / 2 powi ulp_exp p m x))"
    by (simp only: of_int_le_iff)
  then show ?thesis by (simp add: round_pos_def power_int_add mult_right_mono)
qed

lemma ilog2_rat_mono:
  assumes "0 < x" and "x \<le> y"
  shows "ilog2_rat x \<le> ilog2_rat y"
proof (rule ccontr)
  assume "\<not> ?thesis"
  then have "(2 :: rat) powi (ilog2_rat y + 1) \<le> 2 powi ilog2_rat x"
    by (intro power_int_increasing) auto
  with ilog2_rat_bounds [of x] ilog2_rat_bounds [of y] assms show False by linarith
qed

lemma round_pos_mono:
  assumes "0 < x" and "x \<le> y"
  shows "round_pos p m x \<le> round_pos p m y"
proof (cases "ulp_exp p m x = ulp_exp p m y")
  case True
  have "x / 2 powi ulp_exp p m y \<le> y / 2 powi ulp_exp p m y" using assms(2) by (simp add: divide_right_mono)
  then have "(of_int (rhe (x / 2 powi ulp_exp p m y)) :: rat) \<le> of_int (rhe (y / 2 powi ulp_exp p m y))"
    by (simp add: rhe_mono)
  with True show ?thesis by (simp add: round_pos_def mult_right_mono)
next
  case False
  with ilog2_rat_mono [OF assms] have lt: "ulp_exp p m x < ulp_exp p m y" by (auto simp: ulp_exp_def)
  moreover have "m \<le> ulp_exp p m x" by (simp add: ulp_exp_def)
  ultimately have "2 powi (ulp_exp p m y + int p) \<le> round_pos p m y"
    using assms by (intro round_pos_ge_bottom) auto
  moreover have "round_pos p m x \<le> 2 powi (ulp_exp p m x + (int p + 1))" using assms by (intro round_pos_le_top)
  moreover have "(2 :: rat) powi (ulp_exp p m x + (int p + 1)) \<le> 2 powi (ulp_exp p m y + int p)"
    using lt by (intro power_int_increasing) auto
  ultimately show ?thesis by linarith
qed

lemma round_to_zero [simp]: "round_to p m 0 = 0"
  by (simp add: round_to_def)

lemma round_to_minus: "round_to p m (- x) = - round_to p m x"
  by (auto simp: round_to_def)

lemma round_to_nonneg: "0 \<le> x \<Longrightarrow> 0 \<le> round_to p m x"
  by (auto simp: round_to_def round_pos_nonneg)

lemma round_to_mono: "x \<le> y \<Longrightarrow> round_to p m x \<le> round_to p m y"
proof -
  assume le: "x \<le> y"
  consider "0 < x" | "x \<le> 0" "0 \<le> y" | "y < 0" by linarith
  then show ?thesis
  proof cases
    case 1
    with le show ?thesis by (simp add: round_to_def round_pos_mono)
  next
    case 2
    with round_to_nonneg [of "- x" p m] round_to_nonneg [of y p m] show ?thesis by (simp add: round_to_minus)
  next
    case 3
    with le round_pos_mono [of "- y" "- x" p m] show ?thesis by (simp add: round_to_def)
  qed
qed

lemma ilog2_rat_unique:
  assumes "2 powi k \<le> x" and "x < 2 powi (k + 1)"
  shows "ilog2_rat x = k"
proof -
  have pos: "0 < x" using assms(1) by (meson less_le_trans zero_less_numeral zero_less_power_int)
  have mono: "i < j + 1" if "(2 :: rat) powi i < 2 powi (j + 1)" for i j
    using that by (meson linorder_not_less one_le_numeral power_int_increasing)
  from ilog2_rat_bounds [OF pos] assms
  have "(2 :: rat) powi ilog2_rat x < 2 powi (k + 1)" "(2 :: rat) powi k < 2 powi (ilog2_rat x + 1)"
    by linarith+
  from this [THEN mono] show ?thesis by simp
qed

lemma round_to_exact_int:
  assumes "0 < x" and "x / 2 powi ulp_exp p m x = of_int k"
  shows "round_to p m x = x"
proof -
  have "round_to p m x = of_int k * 2 powi ulp_exp p m x" using assms by (simp add: round_to_def round_pos_def)
  also have "\<dots> = x" using assms(2) by (simp flip: assms(2))
  finally show ?thesis .
qed

text \<open>Integers up to \<open>2 ^ Suc p\<close> are exact, and rounding is idempotent: its results are representable.\<close>

lemma round_to_scaled_int:
  assumes "0 < k" and "k \<le> 2 ^ Suc p" and "m \<le> q"
  shows "round_to p m (of_int k * 2 powi q) = of_int k * 2 powi q"
proof (cases "k = 2 ^ Suc p")
  case True
  let ?y = "2 powi (q + (int p + 1)) :: rat"
  have "ilog2_rat ?y = q + (int p + 1)" by (rule ilog2_rat_unique) (simp_all add: power_int_add)
  with assms(3) have "ulp_exp p m ?y = q + 1" by (simp add: ulp_exp_def)
  then have "?y / 2 powi ulp_exp p m ?y = of_int (2 ^ p)" by (simp add: power_int_add)
  then have "round_to p m ?y = ?y" by (intro round_to_exact_int) simp_all
  with True show ?thesis by (simp add: power_int_add mult.commute)
next
  case False
  let ?y = "of_int k * 2 powi q :: rat"
  have pos: "0 < ?y" using assms(1) by simp
  have "(of_int k :: rat) < of_int (2 ^ Suc p)" using False assms(2) by (simp only: of_int_less_iff)
  then have "?y < 2 powi (q + (int p + 1))" by (simp add: power_int_add mult.commute)
  with ilog2_rat_bounds(1) [OF pos] have "(2 :: rat) powi ilog2_rat ?y < 2 powi (q + (int p + 1))" by linarith
  then have "ilog2_rat ?y < q + (int p + 1)"
    by (meson linorder_not_less one_le_numeral power_int_increasing)
  then have le: "ulp_exp p m ?y \<le> q" using assms(3) by (simp add: ulp_exp_def)
  have "(2 :: rat) powi q / 2 powi ulp_exp p m ?y = 2 powi (q - ulp_exp p m ?y)" by (simp add: power_int_diff)
  also have "\<dots> = 2 ^ nat (q - ulp_exp p m ?y)" using le by (simp add: power_int_def)
  finally have "?y / 2 powi ulp_exp p m ?y = of_int (k * 2 ^ nat (q - ulp_exp p m ?y))"
    by (simp only: times_divide_eq_right [symmetric]) simp
  with pos show ?thesis by (rule round_to_exact_int)
qed

lemma round_to_exact:
  assumes "n \<le> 2 ^ Suc p" and "m \<le> 0"
  shows "round_to p m (of_nat n) = of_nat n"
proof (cases "n = 0")
  case False
  have "int n \<le> int (2 ^ Suc p)" using assms(1) by (simp only: of_nat_le_iff)
  then have "int n \<le> 2 ^ Suc p" by simp
  from round_to_scaled_int [OF _ this assms(2)] False show ?thesis by simp
qed simp

lemma round_pos_idem:
  assumes "0 < x"
  shows "round_to p m (round_pos p m x) = round_pos p m x"
proof -
  let ?m = "rhe (x / 2 powi ulp_exp p m x)"
  have "of_int ?m * (2 :: rat) powi ulp_exp p m x \<le> of_int (2 ^ Suc p) * 2 powi ulp_exp p m x"
    using round_pos_le_top [OF assms] by (simp add: round_pos_def power_int_add mult.commute)
  then have "(of_int ?m :: rat) \<le> of_int (2 ^ Suc p)"
    by (meson mult_le_cancel_right_pos zero_less_numeral zero_less_power_int)
  then have hi: "?m \<le> 2 ^ Suc p" by (simp only: of_int_le_iff)
  have lo: "0 \<le> ?m" using assms rhe_ge_int [of 0] by simp
  show ?thesis
  proof (cases "?m = 0")
    case True
    then show ?thesis by (simp add: round_pos_def)
  next
    case False
    with lo hi show ?thesis unfolding round_pos_def
      by (intro round_to_scaled_int) (simp_all add: ulp_exp_def)
  qed
qed

lemma round_to_idem [simp]: "round_to p m (round_to p m x) = round_to p m x"
proof -
  consider "x = 0" | "0 < x" | "0 < - x" by linarith
  then show ?thesis
  proof cases
    case 3
    then have "round_to p m x = - round_pos p m (- x)" by (simp add: round_to_def)
    with round_pos_idem [OF 3] show ?thesis by (simp add: round_to_minus)
  qed (simp_all add: round_to_def [of p m x] round_pos_idem)
qed

section \<open>Values and operations\<close>

datatype f64 = F_NaN | F_Inf bool | F_Fin rat

definition f64_of_rat :: "rat \<Rightarrow> f64" where
  "f64_of_rat x = (let y = round_rat x in if 2 ^ 1024 \<le> \<bar>y\<bar> then F_Inf (y < 0) else F_Fin y)"

definition f64_of_u64 :: "nat \<Rightarrow> f64" where
  "f64_of_u64 n = f64_of_rat (of_nat n)"

fun f64_is_finite :: "f64 \<Rightarrow> bool" where
  "f64_is_finite (F_Fin _) = True"
| "f64_is_finite _ = False"

fun f64_lt :: "f64 \<Rightarrow> f64 \<Rightarrow> bool" where
  "f64_lt (F_Fin a) (F_Fin b) = (a < b)"
| "f64_lt (F_Fin _) (F_Inf neg) = (\<not> neg)"
| "f64_lt (F_Inf neg) (F_Fin _) = neg"
| "f64_lt (F_Inf a) (F_Inf b) = (a \<and> \<not> b)"
| "f64_lt _ _ = False"

fun f64_eq :: "f64 \<Rightarrow> f64 \<Rightarrow> bool" where
  "f64_eq F_NaN _ = False"
| "f64_eq _ F_NaN = False"
| "f64_eq a b = (a = b)"

definition f64_le :: "f64 \<Rightarrow> f64 \<Rightarrow> bool" where
  "f64_le a b = (f64_lt a b \<or> f64_eq a b)"

fun f64_neg :: "f64 \<Rightarrow> f64" where
  "f64_neg F_NaN = F_NaN"
| "f64_neg (F_Inf s) = F_Inf (\<not> s)"
| "f64_neg (F_Fin a) = F_Fin (- a)"

fun f64_add :: "f64 \<Rightarrow> f64 \<Rightarrow> f64" where
  "f64_add (F_Fin a) (F_Fin b) = f64_of_rat (a + b)"
| "f64_add (F_Fin _) (F_Inf s) = F_Inf s"
| "f64_add (F_Inf s) (F_Fin _) = F_Inf s"
| "f64_add (F_Inf s) (F_Inf t) = (if s = t then F_Inf s else F_NaN)"
| "f64_add _ _ = F_NaN"

definition f64_sub :: "f64 \<Rightarrow> f64 \<Rightarrow> f64" where
  "f64_sub a b = f64_add a (f64_neg b)"

fun f64_mul :: "f64 \<Rightarrow> f64 \<Rightarrow> f64" where
  "f64_mul (F_Fin a) (F_Fin b) = f64_of_rat (a * b)"
| "f64_mul (F_Fin a) (F_Inf s) = (if a = 0 then F_NaN else F_Inf (s \<noteq> (a < 0)))"
| "f64_mul (F_Inf s) (F_Fin a) = (if a = 0 then F_NaN else F_Inf (s \<noteq> (a < 0)))"
| "f64_mul (F_Inf s) (F_Inf t) = F_Inf (s \<noteq> t)"
| "f64_mul _ _ = F_NaN"

fun f64_div :: "f64 \<Rightarrow> f64 \<Rightarrow> f64" where
  "f64_div (F_Fin a) (F_Fin b) =
     (if b \<noteq> 0 then f64_of_rat (a / b) else if a = 0 then F_NaN else F_Inf (a < 0))"
| "f64_div (F_Fin _) (F_Inf _) = F_Fin 0"
| "f64_div (F_Inf s) (F_Fin b) = F_Inf (s \<noteq> (b < 0))"
| "f64_div _ _ = F_NaN"

text \<open>\<open>x as u64\<close>: truncation towards zero, saturating at both ends, and 0 for a NaN.\<close>

fun f64_to_u64 :: "f64 \<Rightarrow> u64" where
  "f64_to_u64 F_NaN = 0"
| "f64_to_u64 (F_Inf neg) = (if neg then 0 else u64_max)"
| "f64_to_u64 (F_Fin a) = min (nat \<lfloor>a\<rfloor>) u64_max"

definition f64_to_u32 :: "f64 \<Rightarrow> u32" where
  "f64_to_u32 x = min (f64_to_u64 x) u32_max"

text \<open>\<open>f64::min\<close> and \<open>f64::max\<close> return the other argument when one is a NaN.\<close>

definition f64_min :: "f64 \<Rightarrow> f64 \<Rightarrow> f64" where
  "f64_min a b = (if a = F_NaN then b else if b = F_NaN then a else if f64_lt b a then b else a)"

definition f64_max :: "f64 \<Rightarrow> f64 \<Rightarrow> f64" where
  "f64_max a b = (if a = F_NaN then b else if b = F_NaN then a else if f64_lt a b then b else a)"

text \<open>The values a client can reason about: finite and not negative.\<close>

definition f64_nonneg :: "f64 \<Rightarrow> bool" where
  "f64_nonneg x = (f64_is_finite x \<and> \<not> f64_lt x (F_Fin 0))"

text \<open>Non-negative or positive infinity: what sums and products of such values are.\<close>

definition f64_nonneg_ext :: "f64 \<Rightarrow> bool" where
  "f64_nonneg_ext x = (x = F_Inf False \<or> f64_nonneg x)"

lemma f64_nonneg_Fin [simp]: "f64_nonneg (F_Fin a) \<longleftrightarrow> 0 \<le> a"
  by (auto simp: f64_nonneg_def)

lemma f64_nonneg_cases: "f64_nonneg x \<Longrightarrow> \<exists>a. x = F_Fin a \<and> 0 \<le> a"
  by (cases x) (auto simp: f64_nonneg_def)

lemma f64_of_rat_nonneg: "0 \<le> x \<Longrightarrow> f64_nonneg_ext (f64_of_rat x)"
  using round_to_nonneg [of x 52 "- 1074"] by (auto simp: f64_of_rat_def f64_nonneg_ext_def Let_def)

lemma f64_of_u64_exact: "n \<le> 2 ^ 53 \<Longrightarrow> f64_of_u64 n = F_Fin (of_nat n)"
proof -
  assume n: "n \<le> 2 ^ 53"
  have "(of_nat n :: rat) \<le> of_nat (2 ^ 53)" using n by (simp only: of_nat_le_iff)
  also have "\<dots> < 2 ^ 1024" by simp
  finally show ?thesis using round_to_exact [of n 52 "- 1074"] n by (simp add: f64_of_u64_def f64_of_rat_def)
qed

lemma f64_of_u64_nonneg: "f64_nonneg_ext (f64_of_u64 n)"
  by (simp add: f64_of_u64_def f64_of_rat_nonneg)

lemma f64_add_nonneg:
  "f64_nonneg_ext a \<Longrightarrow> f64_nonneg_ext b \<Longrightarrow> f64_nonneg_ext (f64_add a b)"
  by (auto simp: f64_nonneg_ext_def dest!: f64_nonneg_cases)
    (metis add_nonneg_nonneg f64_nonneg_ext_def f64_of_rat_nonneg)

lemma f64_mul_nonneg:
  "f64_nonneg a \<Longrightarrow> f64_nonneg b \<Longrightarrow> f64_nonneg_ext (f64_mul a b)"
  by (auto dest!: f64_nonneg_cases intro!: f64_of_rat_nonneg)

text \<open>
  A representable value is one rounding leaves alone; every operation returns one.
  Adding a non-negative value never makes a representable total smaller.
\<close>

fun f64_repr :: "f64 \<Rightarrow> bool" where
  "f64_repr (F_Fin a) = (round_rat a = a)"
| "f64_repr _ = True"

lemma f64_of_rat_repr [simp]: "f64_repr (f64_of_rat x)"
  by (simp add: f64_of_rat_def Let_def)

lemma f64_add_repr [simp]: "f64_repr (f64_add a b)"
  by (cases "(a, b)" rule: f64_add.cases) auto

lemma f64_mul_repr [simp]: "f64_repr (f64_mul a b)"
  by (cases "(a, b)" rule: f64_mul.cases) auto

lemma f64_add_increases:
  assumes "f64_nonneg_ext a" and "f64_repr a" and "f64_nonneg b"
  shows "f64_le a (f64_add a b)"
proof -
  obtain q where b: "b = F_Fin q" "0 \<le> q" using f64_nonneg_cases [OF assms(3)] by auto
  show ?thesis
  proof (cases a)
    case (F_Fin x)
    with assms have "0 \<le> x" "round_rat x = x" by (simp_all add: f64_nonneg_ext_def)
    moreover have "round_rat x \<le> round_rat (x + q)" using b by (intro round_to_mono) simp
    ultimately show ?thesis using F_Fin b
      by (auto simp: f64_of_rat_def Let_def f64_le_def)
  qed (use assms b in \<open>auto simp: f64_nonneg_ext_def f64_nonneg_def f64_le_def\<close>)
qed

section \<open>Binary32\<close>

text \<open>\<open>f32\<close> has the same special values; only rounding and the overflow threshold differ.\<close>

type_synonym f32 = f64

definition f32_of_rat :: "rat \<Rightarrow> f32" where
  "f32_of_rat x = (let y = round_rat32 x in if 2 ^ 128 \<le> \<bar>y\<bar> then F_Inf (y < 0) else F_Fin y)"

definition f32_of_u64 :: "u64 \<Rightarrow> f32" where
  "f32_of_u64 n = f32_of_rat (of_nat n)"

fun f32_div :: "f32 \<Rightarrow> f32 \<Rightarrow> f32" where
  "f32_div (F_Fin a) (F_Fin b) =
     (if b \<noteq> 0 then f32_of_rat (a / b) else if a = 0 then F_NaN else F_Inf (a < 0))"
| "f32_div (F_Fin _) (F_Inf _) = F_Fin 0"
| "f32_div (F_Inf s) (F_Fin b) = F_Inf (s \<noteq> (b < 0))"
| "f32_div _ _ = F_NaN"

lemma round32_small:
  assumes "0 \<le> x" and "x \<le> of_int k * 2 powi q" and "0 < k" "k \<le> 2 ^ 24" "0 \<le> q"
  shows "0 \<le> round_rat32 x" and "round_rat32 x \<le> of_int k * 2 powi q"
proof -
  show "0 \<le> round_rat32 x" using assms(1) by (rule round_to_nonneg)
  have "round_rat32 (of_int k * 2 powi q) = of_int k * 2 powi q"
    using assms(3-5) by (intro round_to_scaled_int) simp_all
  with round_to_mono [OF assms(2)] show "round_rat32 x \<le> of_int k * 2 powi q" by metis
qed

lemma f32_of_u64_finite:
  assumes "n < 2 ^ 64"
  shows "f32_of_u64 n = F_Fin (round_rat32 (of_nat n))" and "0 \<le> round_rat32 (of_nat n)"
proof -
  have "(of_nat n :: rat) \<le> of_nat (2 ^ 64)" using assms by (simp only: of_nat_le_iff)
  then have "of_nat n \<le> (of_int 1 * 2 powi 64 :: rat)" by (simp add: power_int_def)
  from round32_small [OF _ this] show "0 \<le> round_rat32 (of_nat n)"
    and "f32_of_u64 n = F_Fin (round_rat32 (of_nat n))"
    by (simp_all add: f32_of_u64_def f32_of_rat_def Let_def power_int_def)
qed

text \<open>The ratio of two counters, the first at most the second, lies between 0 and 1.\<close>

lemma f32_ratio:
  assumes "a \<le> b" "0 < b" "b < 2 ^ 64"
  shows "\<exists>q. f32_div (f32_of_u64 a) (f32_of_u64 b) = F_Fin q \<and> 0 \<le> q \<and> q \<le> 1 \<and> (a = b \<longrightarrow> q = 1)"
proof -
  let ?x = "round_rat32 (of_nat a)" and ?y = "round_rat32 (of_nat b)"
  have one: "round_rat32 1 = 1" using round_to_exact [of 1 23 "- 149"] by simp
  have le: "?x \<le> ?y" using assms(1) by (intro round_to_mono) simp
  have "(1 :: rat) \<le> of_nat b" using assms(2) by simp
  from round_to_mono [OF this, of 23 "- 149"] one have y: "1 \<le> ?y" by simp
  have x: "0 \<le> ?x" by (rule round_to_nonneg) simp
  have r: "0 \<le> ?x / ?y" "?x / ?y \<le> 1" using x y le by (simp_all add: divide_le_eq_1)
  from round_to_nonneg [OF r(1), of 23 "- 149"] round_to_mono [OF r(2), of 23 "- 149"] one
  have q: "0 \<le> round_rat32 (?x / ?y)" "round_rat32 (?x / ?y) \<le> 1" by simp_all
  then have "\<not> 2 ^ 128 \<le> \<bar>round_rat32 (?x / ?y)\<bar>" by simp
  then have "f32_of_rat (?x / ?y) = F_Fin (round_rat32 (?x / ?y))" by (simp add: f32_of_rat_def)
  moreover have "f32_of_u64 a = F_Fin ?x" "f32_of_u64 b = F_Fin ?y" using assms by (simp_all add: f32_of_u64_finite)
  ultimately have "f32_div (f32_of_u64 a) (f32_of_u64 b) = F_Fin (round_rat32 (?x / ?y))" using y by simp
  moreover have "a = b \<longrightarrow> round_rat32 (?x / ?y) = 1" using y one by simp
  ultimately show ?thesis using q by blast
qed

section \<open>Intervals\<close>

text \<open>
  \<open>f64_in a b x\<close>: the value is finite and lies between \<open>a\<close> and \<open>b\<close>. When the bounds are exactly
  representable, every operation keeps its result between the exact bounds.
\<close>

definition f64_in :: "rat \<Rightarrow> rat \<Rightarrow> f64 \<Rightarrow> bool" where
  "f64_in a b x = (case x of F_Fin q \<Rightarrow> a \<le> q \<and> q \<le> b | _ \<Rightarrow> False)"

definition f64_exact :: "rat \<Rightarrow> bool" where
  "f64_exact c = (round_rat c = c \<and> \<bar>c\<bar> < 2 ^ 1024)"

lemma f64_in_iff: "f64_in a b x \<longleftrightarrow> (\<exists>q. x = F_Fin q \<and> a \<le> q \<and> q \<le> b)"
  by (cases x) (auto simp: f64_in_def)

lemma f64_in_simps [simp]: "f64_in a b (F_Fin q) \<longleftrightarrow> a \<le> q \<and> q \<le> b" "\<not> f64_in a b F_NaN" "\<not> f64_in a b (F_Inf s)"
  by (simp_all add: f64_in_def)

lemma f64_exact_nat: "n \<le> 2 ^ 53 \<Longrightarrow> f64_exact (of_nat n)"
proof -
  assume n: "n \<le> 2 ^ 53"
  have "(of_nat n :: rat) \<le> of_nat (2 ^ 53)" using n by (simp only: of_nat_le_iff)
  also have "\<dots> < 2 ^ 1024" by simp
  finally show ?thesis using round_to_exact [of n 52 "- 1074"] n by (simp add: f64_exact_def)
qed

lemma f64_exact_simps [simp]: "f64_exact 0" "f64_exact 1" "(numeral k :: nat) \<le> 2 ^ 53 \<Longrightarrow> f64_exact (numeral k)"
  using f64_exact_nat [of 0] f64_exact_nat [of 1] f64_exact_nat [of "numeral k"] by simp_all

lemma f64_exact_minus [simp]: "f64_exact (- c) \<longleftrightarrow> f64_exact c"
  by (simp add: f64_exact_def round_to_minus)

lemma f64_of_rat_in:
  assumes "a \<le> x" "x \<le> b" "f64_exact a" "f64_exact b"
  shows "f64_in a b (f64_of_rat x)"
proof -
  have "a \<le> round_rat x" "round_rat x \<le> b"
    using round_to_mono [OF assms(1), of 52 "- 1074"] round_to_mono [OF assms(2), of 52 "- 1074"] assms(3,4)
    by (simp_all add: f64_exact_def)
  moreover have "\<not> 2 ^ 1024 \<le> \<bar>round_rat x\<bar>" using calculation assms(3,4) by (auto simp: f64_exact_def abs_if split: if_splits)
  ultimately show ?thesis by (simp add: f64_of_rat_def Let_def)
qed

lemma f64_of_rat_exact: "f64_exact c \<Longrightarrow> f64_of_rat c = F_Fin c"
  by (auto simp: f64_exact_def f64_of_rat_def Let_def)

lemma f64_add_in:
  assumes "f64_in a b x" "f64_in c d y" "f64_exact (a + c)" "f64_exact (b + d)"
  shows "f64_in (a + c) (b + d) (f64_add x y)"
proof -
  from assms(1,2) obtain p q where xy: "x = F_Fin p" "y = F_Fin q" "a \<le> p" "p \<le> b" "c \<le> q" "q \<le> d"
    by (auto simp: f64_in_iff)
  have "f64_in (a + c) (b + d) (f64_of_rat (p + q))"
    by (rule f64_of_rat_in) (use xy assms(3,4) in auto)
  with xy show ?thesis by simp
qed

lemma f64_sub_in:
  assumes "f64_in a b x" "f64_in c d y" "f64_exact (a - d)" "f64_exact (b - c)"
  shows "f64_in (a - d) (b - c) (f64_sub x y)"
proof -
  have "f64_in (- d) (- c) (f64_neg y)" using assms(2) by (auto simp: f64_in_iff)
  with f64_add_in [OF assms(1) this] assms(3,4) show ?thesis by (simp add: f64_sub_def)
qed

lemma f64_mul_in:
  assumes "f64_in 0 b x" "f64_in 0 d y" "f64_exact (b * d)"
  shows "f64_in 0 (b * d) (f64_mul x y)"
proof -
  from assms(1,2) obtain p q where xy: "x = F_Fin p" "y = F_Fin q" "0 \<le> p" "p \<le> b" "0 \<le> q" "q \<le> d"
    by (auto simp: f64_in_iff)
  have "f64_in 0 (b * d) (f64_of_rat (p * q))"
    by (rule f64_of_rat_in) (use xy assms(3) in \<open>auto intro: mult_mono\<close>)
  with xy show ?thesis by simp
qed

lemma f64_div_in:
  assumes "f64_in 0 b x" "0 < c" "b / c \<le> d" "f64_exact d"
  shows "f64_in 0 d (f64_div x (F_Fin c))"
proof -
  from assms(1) obtain p where x: "x = F_Fin p" "0 \<le> p" "p \<le> b" by (auto simp: f64_in_iff)
  have "p / c \<le> b / c" using x assms(2) by (simp add: divide_right_mono)
  then have "p / c \<le> d" using assms(3) by linarith
  with f64_of_rat_in [of 0 "p / c" d] x assms(2,4) show ?thesis by simp
qed

lemma f64_in_weaken: "f64_in a b x \<Longrightarrow> c \<le> a \<Longrightarrow> b \<le> d \<Longrightarrow> f64_in c d x"
  by (auto simp: f64_in_iff)

lemma f64_min_in: "f64_in a b x \<Longrightarrow> a \<le> c \<Longrightarrow> f64_in a c (f64_min x (F_Fin c))"
  by (auto simp: f64_in_iff f64_min_def)

text \<open>Clamping to the unit interval works for every value, a NaN included.\<close>

lemma f64_clamp_in: "a \<le> b \<Longrightarrow> f64_in a b (f64_min (f64_max x (F_Fin a)) (F_Fin b))"
  by (cases x) (auto simp: f64_min_def f64_max_def)

lemma f64_of_u64_in:
  assumes "n \<le> k" "k \<le> 2 ^ 53"
  shows "f64_in 0 (of_nat k) (f64_of_u64 n)"
  using f64_of_u64_exact [of n] assms by simp

lemma f64_of_u64_fin:
  assumes "n < 2 ^ 64"
  shows "f64_in 0 (2 ^ 64) (f64_of_u64 n)"
proof -
  have "round_rat (of_int 1 * 2 powi 64) = of_int 1 * 2 powi 64" by (rule round_to_scaled_int) simp_all
  then have e: "f64_exact (2 ^ 64)" by (simp add: f64_exact_def power_int_def)
  have "(of_nat n :: rat) \<le> of_nat (2 ^ 64)" using assms by (simp only: of_nat_le_iff)
  with e show ?thesis unfolding f64_of_u64_def by (intro f64_of_rat_in) simp_all
qed

text \<open>The ratio of two counters, the first at most the second.\<close>

lemma f64_ratio:
  assumes "a \<le> b" "0 < b" "b < 2 ^ 64"
  shows "f64_in 0 1 (f64_div (f64_of_u64 a) (f64_of_u64 b))"
proof -
  have "a < 2 ^ 64" using assms by simp
  then obtain p where p: "f64_of_u64 a = F_Fin p" "0 \<le> p" using f64_of_u64_fin by (auto simp: f64_in_iff)
  obtain q where q: "f64_of_u64 b = F_Fin q" using f64_of_u64_fin [OF assms(3)] by (auto simp: f64_in_iff)
  have pr: "p = round_rat (of_nat a)" "q = round_rat (of_nat b)"
    using p q by (auto simp: f64_of_u64_def f64_of_rat_def Let_def split: if_splits)
  have pq: "p \<le> q" unfolding pr using assms(1) by (intro round_to_mono) simp
  have "round_rat 1 \<le> q" unfolding pr using assms(2) by (intro round_to_mono) simp
  then have "1 \<le> q" using round_to_exact [of 1 52 "- 1074"] by simp
  then show ?thesis
    unfolding p(1) q by (intro f64_div_in [of p]) (use p pq in \<open>simp_all add: divide_le_eq_1\<close>)
qed

text \<open>\<open>f64_desc a b\<close>: in descending order \<open>a\<close> need not come after \<open>b\<close>; a NaN compares with nothing.\<close>

definition f64_desc :: "f64 \<Rightarrow> f64 \<Rightarrow> bool" where
  "f64_desc a b = (\<not> f64_lt a b)"

lemma f64_desc_total: "f64_desc a b \<or> f64_desc b a"
  by (cases "(a, b)" rule: f64_lt.cases) (auto simp: f64_desc_def)

lemma f64_desc_trans: "b \<noteq> F_NaN \<Longrightarrow> f64_desc a b \<Longrightarrow> f64_desc b c \<Longrightarrow> f64_desc a c"
  by (cases a; cases b; cases c) (auto simp: f64_desc_def)

section \<open>Further operations\<close>

fun f64_abs :: "f64 \<Rightarrow> f64" where
  "f64_abs F_NaN = F_NaN"
| "f64_abs (F_Inf _) = F_Inf False"
| "f64_abs (F_Fin a) = F_Fin \<bar>a\<bar>"

text \<open>\<open>f64::clamp\<close> keeps a NaN and panics (\<open>None\<close>) unless the bounds are in order.\<close>

definition f64_clamp :: "f64 \<Rightarrow> f64 \<Rightarrow> f64 \<Rightarrow> f64 option" where
  "f64_clamp x lo hi = (if \<not> f64_le lo hi then None else Some (if f64_lt x lo then lo else if f64_lt hi x then hi else x))"

definition f64_sum :: "f64 list \<Rightarrow> f64" where
  "f64_sum xs = foldl f64_add (F_Fin 0) xs"

text \<open>Durations are nanoseconds; \<open>as_secs_f64\<close> adds the seconds and the fraction.\<close>

definition secs_f64 :: "nat \<Rightarrow> f64" where
  "secs_f64 ns = f64_add (f64_of_u64 (ns div 10 ^ 9)) (f64_div (f64_of_u64 (ns mod 10 ^ 9)) (f64_of_u64 (10 ^ 9)))"

definition as_millis_u64 :: "nat \<Rightarrow> u64" where
  "as_millis_u64 ns = (ns div 10 ^ 6) mod 2 ^ 64"

end
