(* ===== verification/Interfaces.thy ===== *)
theory Interfaces
  imports Prelude
begin

text \<open>
  The contracts several components share, as locales. Each is interpreted on the model's
  own operations in the theory of the component that provides them.

  \<^item> \<open>invariant_machine\<close>: a service whose every operation keeps an invariant, so every
    sequence of calls keeps it.
  \<^item> \<open>progress_machine\<close>: in addition a relation between successive states that is
    reflexive and transitive (a counter that never decreases, a set that never shrinks).
  \<^item> \<open>keyed_service\<close>: a service that keeps one entry per key (a session, a download, a
    connection) and whose calls name the key they act on: a call touches its own entry
    only, and its effect depends on that entry only. What happens to one entry over any
    interleaving of calls is then what the calls for that key alone would do.
  \<^item> \<open>bounded_cache\<close>: a key-value cache that may forget entries but never invents one.
  \<^item> \<open>scored_choice\<close>: picking the first element of a list sorted by descending score.
\<close>

locale invariant_machine =
  fixes step :: "'s \<Rightarrow> 's \<Rightarrow> bool"
    and inv :: "'s \<Rightarrow> bool"
  assumes step_inv: "step s t \<Longrightarrow> inv s \<Longrightarrow> inv t"
begin

lemma run_inv: "step\<^sup>*\<^sup>* s t \<Longrightarrow> inv s \<Longrightarrow> inv t"
  by (induction rule: rtranclp_induct) (auto intro: step_inv)

end

locale progress_machine = invariant_machine step inv
  for step :: "'s \<Rightarrow> 's \<Rightarrow> bool" and inv :: "'s \<Rightarrow> bool" +
  fixes advances :: "'s \<Rightarrow> 's \<Rightarrow> bool"
  assumes advances_refl: "advances s s"
    and advances_trans: "advances s t \<Longrightarrow> advances t u \<Longrightarrow> advances s u"
    and step_advances: "step s t \<Longrightarrow> inv s \<Longrightarrow> advances s t"
begin

lemma run_advances: "step\<^sup>*\<^sup>* s t \<Longrightarrow> inv s \<Longrightarrow> advances s t"
proof (induction rule: rtranclp_induct)
  case base
  show ?case by (rule advances_refl)
next
  case (step t u)
  then have "advances t u" using run_inv step_advances by blast
  with step show ?case using advances_trans by blast
qed

end

locale keyed_service =
  fixes step :: "'s \<Rightarrow> 'c \<Rightarrow> 's"
    and key :: "'c \<Rightarrow> 'k"
    and entry :: "'s \<Rightarrow> 'k \<Rightarrow> 'v"
    and local_step :: "'v \<Rightarrow> 'c \<Rightarrow> 'v"
  assumes step_own: "entry (step s c) (key c) = local_step (entry s (key c)) c"
    and step_other: "k \<noteq> key c \<Longrightarrow> entry (step s c) k = entry s k"
begin

lemma run_local:
  "entry (foldl step s cs) k = foldl local_step (entry s k) (filter (\<lambda>c. key c = k) cs)"
proof (induction cs arbitrary: s)
  case Nil
  then show ?case by simp
next
  case (Cons c cs)
  show ?case
  proof (cases "key c = k")
    case True
    then show ?thesis by (auto simp: Cons.IH step_own)
  next
    case False
    then show ?thesis by (simp add: Cons.IH step_other)
  qed
qed

lemma run_other: "(\<And>c. c \<in> set cs \<Longrightarrow> key c \<noteq> k) \<Longrightarrow> entry (foldl step s cs) k = entry s k"
  by (simp add: run_local filter_False)

text \<open>Two interleavings that agree on the calls for \<open>k\<close> give \<open>k\<close> the same entry.\<close>

lemma run_interleaving:
  assumes "filter (\<lambda>c. key c = k) cs = filter (\<lambda>c. key c = k) ds"
  shows "entry (foldl step s cs) k = entry (foldl step s ds) k"
  by (simp add: run_local assms)

end

section \<open>Caches\<close>

text \<open>
  A cache may drop any entry but the one just stored, and what it holds for a key is what was
  stored for it last. \<open>held\<close> reads it without touching the recency order.
\<close>

locale bounded_cache =
  fixes held :: "'s \<Rightarrow> 'k \<Rightarrow> 'v option"
    and get :: "'k \<Rightarrow> 's \<Rightarrow> 'v option \<times> 's"
    and put :: "'k \<Rightarrow> 'v \<Rightarrow> 's \<Rightarrow> 's"
    and ok :: "'s \<Rightarrow> bool"
    and used :: "'s \<Rightarrow> nat"
    and limit :: "'s \<Rightarrow> nat"
  assumes get_value: "fst (get k s) = held s k"
    and get_held: "held (snd (get k s)) = held s"
    and get_ok: "ok s \<Longrightarrow> ok (snd (get k s))"
    and put_own: "ok s \<Longrightarrow> 0 < limit s \<Longrightarrow> held (put k v s) k = Some v"
    and put_other: "j \<noteq> k \<Longrightarrow> held (put k v s) j = Some w \<Longrightarrow> held s j = Some w"
    and put_origin: "held (put k v s) k = Some w \<Longrightarrow> w = v"
    and put_ok: "ok s \<Longrightarrow> ok (put k v s)"
    and within: "ok s \<Longrightarrow> used s \<le> limit s"
begin

text \<open>A property of all entries survives every operation that stores entries with the property.\<close>

lemma put_all:
  assumes "\<And>j w. held s j = Some w \<Longrightarrow> P j w" and "P k v" and "held (put k v s) j = Some w"
  shows "P j w"
  using assms put_other put_origin by metis

lemma get_all:
  assumes "\<And>j w. held s j = Some w \<Longrightarrow> P j w" and "held (snd (get k s)) j = Some w"
  shows "P j w"
  using assms by (simp add: get_held)

end

section \<open>Sorting by descending score\<close>

text \<open>Rust's \<open>sort_by\<close> is stable, and \<open>|a, b| b.1.cmp(&a.1)\<close> orders by descending score.\<close>

definition sort_desc :: "('a \<Rightarrow> nat) \<Rightarrow> 'a list \<Rightarrow> 'a list" where
  "sort_desc score xs = sort_key (\<lambda>x. - int (score x)) xs"

lemma sort_desc_set [simp]: "set (sort_desc score xs) = set xs"
  by (simp add: sort_desc_def)

lemma sort_desc_mset [simp]: "mset (sort_desc score xs) = mset xs"
  by (simp add: sort_desc_def)

lemma sort_desc_length [simp]: "length (sort_desc score xs) = length xs"
  by (simp add: sort_desc_def)

lemma sort_desc_empty [simp]: "sort_desc score xs = [] \<longleftrightarrow> xs = []"
  by (metis sort_desc_set set_empty)

lemma sort_desc_sorted: "sorted_wrt (\<lambda>a b. score b \<le> score a) (sort_desc score xs)"
proof -
  have "sorted (map (\<lambda>x. - int (score x)) (sort_desc score xs))"
    by (simp add: sort_desc_def)
  then show ?thesis by (simp add: sorted_map)
qed

lemma sort_desc_hd_max:
  assumes "x \<in> set xs"
  shows "score x \<le> score (hd (sort_desc score xs))"
proof -
  from assms have "sort_desc score xs \<noteq> []" "x \<in> set (sort_desc score xs)" by auto
  with sort_desc_sorted [of score xs] show ?thesis
    by (cases "sort_desc score xs") auto
qed

lemma sort_desc_hd_mem: "xs \<noteq> [] \<Longrightarrow> hd (sort_desc score xs) \<in> set xs"
  by (metis sort_desc_empty sort_desc_set hd_in_set)

text \<open>Ties go to the element that comes first in the input.\<close>

lemma sort_desc_stable: "filter (\<lambda>y. score y = k) (sort_desc score xs) = filter (\<lambda>y. score y = k) xs"
proof -
  have "filter (\<lambda>y. - int (score y) = - int k) (sort_key (\<lambda>x. - int (score x)) xs)
      = filter (\<lambda>y. - int (score y) = - int k) xs"
    using sort_key_stable by (metis (full_types))
  then show ?thesis by (simp add: sort_desc_def)
qed

section \<open>Stable sorting with a comparison\<close>

text \<open>
  Rust's \<open>sort_by\<close> is stable; \<open>le a b\<close> says that the comparison of \<open>a\<close> with \<open>b\<close> is not \<open>Greater\<close>. For a
  comparison that is a total preorder the stable sorted arrangement is unique, so insertion
  sort computes it.
\<close>

fun insert_by :: "('a \<Rightarrow> 'a \<Rightarrow> bool) \<Rightarrow> 'a \<Rightarrow> 'a list \<Rightarrow> 'a list" where
  "insert_by le x [] = [x]"
| "insert_by le x (y # ys) = (if le x y then x # y # ys else y # insert_by le x ys)"

definition sort_by :: "('a \<Rightarrow> 'a \<Rightarrow> bool) \<Rightarrow> 'a list \<Rightarrow> 'a list" where
  "sort_by le xs = foldr (insert_by le) xs []"

definition preorder_on_set :: "('a \<Rightarrow> 'a \<Rightarrow> bool) \<Rightarrow> 'a set \<Rightarrow> bool" where
  "preorder_on_set le A \<longleftrightarrow> (\<forall>x \<in> A. \<forall>y \<in> A. le x y \<or> le y x) \<and>
     (\<forall>x \<in> A. \<forall>y \<in> A. \<forall>z \<in> A. le x y \<longrightarrow> le y z \<longrightarrow> le x z)"

lemma preorder_subset: "preorder_on_set le B \<Longrightarrow> A \<subseteq> B \<Longrightarrow> preorder_on_set le A"
  unfolding preorder_on_set_def by blast

lemma preorder_total: "preorder_on_set le A \<Longrightarrow> x \<in> A \<Longrightarrow> y \<in> A \<Longrightarrow> \<not> le x y \<Longrightarrow> le y x"
  unfolding preorder_on_set_def by blast

lemma preorder_trans: "preorder_on_set le A \<Longrightarrow> x \<in> A \<Longrightarrow> y \<in> A \<Longrightarrow> z \<in> A \<Longrightarrow> le x y \<Longrightarrow> le y z \<Longrightarrow> le x z"
  unfolding preorder_on_set_def by blast

lemma insert_by_mset [simp]: "mset (insert_by le x ys) = add_mset x (mset ys)"
  by (induction ys) auto

lemma sort_by_mset [simp]: "mset (sort_by le xs) = mset xs"
  by (induction xs) (simp_all add: sort_by_def)

lemma sort_by_set [simp]: "set (sort_by le xs) = set xs"
  by (metis sort_by_mset set_mset_mset)

lemma sort_by_length [simp]: "length (sort_by le xs) = length xs"
  by (metis sort_by_mset size_mset)

lemma insert_by_sorted:
  assumes "sorted_wrt le ys" "preorder_on_set le (insert x (set ys))"
  shows "sorted_wrt le (insert_by le x ys)"
  using assms
proof (induction ys)
  case (Cons y ys)
  have p: "preorder_on_set le (insert x (set ys))" using Cons.prems(2) by (rule preorder_subset) auto
  have set: "set (insert_by le x ys) = insert x (set ys)" by (metis insert_by_mset set_mset_add_mset_insert set_mset_mset)
  show ?case
  proof (cases "le x y")
    case True
    have "le x z" if "z \<in> set ys" for z
      using preorder_trans [OF Cons.prems(2), of x y z] True that Cons.prems(1) by simp
    with True Cons.prems(1) show ?thesis by simp
  next
    case False
    then have "le y x" using preorder_total [OF Cons.prems(2), of x y] by simp
    with False Cons.IH [OF _ p] Cons.prems(1) set show ?thesis by simp
  qed
qed simp

lemma sort_by_sorted: "preorder_on_set le (set xs) \<Longrightarrow> sorted_wrt le (sort_by le xs)"
proof (induction xs)
  case (Cons x xs)
  have "preorder_on_set le (set xs)" using Cons.prems by (rule preorder_subset) auto
  from insert_by_sorted [OF Cons.IH [OF this], of x] Cons.prems show ?case
    using sort_by_set [of le xs] by (simp add: sort_by_def)
qed (simp add: sort_by_def)

text \<open>Elements the comparison cannot tell apart keep their order.\<close>

lemma insert_by_filter:
  "(P x \<Longrightarrow> (\<And>y. y \<in> set ys \<Longrightarrow> P y \<Longrightarrow> le x y)) \<Longrightarrow> filter P (insert_by le x ys) = (if P x then x # filter P ys else filter P ys)"
  by (induction ys) auto

lemma sort_by_stable:
  assumes "\<And>x y. x \<in> set xs \<Longrightarrow> y \<in> set xs \<Longrightarrow> P x \<Longrightarrow> P y \<Longrightarrow> le x y"
  shows "filter P (sort_by le xs) = filter P xs"
  using assms
proof (induction xs)
  case (Cons x xs)
  have "filter P (sort_by le (x # xs)) = (if P x then x # filter P (sort_by le xs) else filter P (sort_by le xs))"
    using Cons.prems insert_by_filter [of P x "sort_by le xs" le] sort_by_set [of le xs] by (simp add: sort_by_def)
  with Cons show ?case by simp
qed (simp add: sort_by_def)

text \<open>The first \<open>n\<close> elements come before all others.\<close>

lemma sorted_take_le:
  assumes "sorted_wrt le xs" "x \<in> set (take n xs)" "y \<in> set (drop n xs)"
  shows "le x y"
  using assms by (metis append_take_drop_id sorted_wrt_append)

section \<open>Choosing by score\<close>

locale scored_choice =
  fixes score :: "'a \<Rightarrow> nat"
    and pick :: "'a list \<Rightarrow> 'a option"
  assumes pick_empty: "pick [] = None"
    and pick_mem: "pick xs = Some x \<Longrightarrow> x \<in> set xs"
    and pick_some: "xs \<noteq> [] \<Longrightarrow> \<exists>x. pick xs = Some x"
    and pick_max: "pick xs = Some x \<Longrightarrow> y \<in> set xs \<Longrightarrow> score y \<le> score x"
begin

lemma pick_None_iff: "pick xs = None \<longleftrightarrow> xs = []"
  using pick_empty pick_some by fastforce

lemma pick_score_Max:
  assumes "pick xs = Some x"
  shows "score x = Max (score ` set xs)"
  using assms by (intro Max_eqI [symmetric]) (auto intro: pick_max pick_mem)

text \<open>More candidates never give a worse choice.\<close>

lemma pick_mono:
  assumes "pick xs = Some x" and "set xs \<subseteq> set ys"
  shows "\<exists>y. pick ys = Some y \<and> score x \<le> score y"
proof -
  from assms have "x \<in> set ys" using pick_mem by blast
  then have "ys \<noteq> []" by auto
  then obtain y where "pick ys = Some y" using pick_some by blast
  with \<open>x \<in> set ys\<close> show ?thesis using pick_max by blast
qed

end

end
