(* ===== verification/PeerSelection.thy ===== *)
theory PeerSelection
  imports F64 Interfaces
begin

text \<open>
  Scoring peers and choosing among them: \<^verbatim>\<open>src-tauri/src/peer_selection.rs\<close>. The service keeps the
  metrics of each peer and when it was last chosen. Scores are IEEE doubles (theory \<open>F64\<close>);
  decimal literals of the source are their nearest doubles. Clock readings are arguments.

  Shown: the scores of every peer stay in the unit interval and the transfer counters add up,
  whatever calls are made; a selection returns the best eligible peers in descending order of
  score and records exactly them; calls for one peer do not affect another. A defect is a
  theorem: the penalty for a failed transfer or for reported misbehaviour is computed and then
  overwritten, so its severity has no effect.
\<close>

section \<open>Data\<close>

record peer_metrics =
  pm_peer_id :: string
  pm_address :: string
  pm_latency_ms :: "u64 option"
  pm_bandwidth_kbps :: "u64 option"
  pm_reliability_score :: f64
  pm_uptime_score :: f64
  pm_success_rate :: f64
  pm_last_seen :: u64
  pm_transfer_count :: u64
  pm_successful_transfers :: u64
  pm_failed_transfers :: u64
  pm_total_bytes_transferred :: u64
  pm_encryption_support :: bool
  pm_malicious_reports :: u64
  pm_protocols :: "string list"

datatype selection_strategy = FastestFirst | MostReliable | HighestBandwidth | Balanced | EncryptionPreferred | LoadBalanced

record peer_selection_service =
  ps_metrics :: "string \<rightharpoonup> peer_metrics"
  ps_selection_history :: "string \<rightharpoonup> u64"

text \<open>A decimal literal.\<close>

abbreviation lit :: "rat \<Rightarrow> f64" where
  "lit \<equiv> f64_of_rat"

section \<open>The metrics of one peer\<close>

definition new_peer_metrics :: "u64 \<Rightarrow> string \<Rightarrow> string \<Rightarrow> peer_metrics" where
  "new_peer_metrics now peer_id address =
     \<lparr>pm_peer_id = peer_id, pm_address = address, pm_latency_ms = None, pm_bandwidth_kbps = None,
      pm_reliability_score = lit (1 / 2), pm_uptime_score = lit (1 / 2), pm_success_rate = lit (1 / 2),
      pm_last_seen = now, pm_transfer_count = 0, pm_successful_transfers = 0, pm_failed_transfers = 0,
      pm_total_bytes_transferred = 0, pm_encryption_support = False, pm_malicious_reports = 0, pm_protocols = []\<rparr>"

definition latency_score :: "peer_metrics \<Rightarrow> f64" where
  "latency_score m = (case pm_latency_ms m of
     None \<Rightarrow> lit (1 / 2)
   | Some lat \<Rightarrow> f64_div (f64_sub (lit 1000) (f64_of_u64 (min lat 1000))) (lit 1000))"

definition update_scores :: "peer_metrics \<Rightarrow> peer_metrics" where
  "update_scores m =
     (let m1 = (if 0 < pm_transfer_count m
                then m\<lparr>pm_success_rate := f64_div (f64_of_u64 (pm_successful_transfers m)) (f64_of_u64 (pm_transfer_count m))\<rparr>
                else m)
      in m1\<lparr>pm_reliability_score :=
           f64_min (f64_add (f64_add (f64_mul (lit (4 / 10)) (pm_success_rate m1)) (f64_mul (lit (3 / 10)) (latency_score m1)))
                      (f64_mul (lit (3 / 10)) (pm_uptime_score m1)))
                   (lit 1)\<rparr>)"

definition record_successful_transfer :: "u64 \<Rightarrow> u64 \<Rightarrow> u64 \<Rightarrow> peer_metrics \<Rightarrow> peer_metrics" where
  "record_successful_transfer now bytes duration_ms m =
     (let m1 = m\<lparr>pm_transfer_count := wadd64 (pm_transfer_count m) 1,
                 pm_successful_transfers := wadd64 (pm_successful_transfers m) 1,
                 pm_total_bytes_transferred := wadd64 (pm_total_bytes_transferred m) bytes,
                 pm_last_seen := now\<rparr>;
          m2 = (if 0 < duration_ms
                then let bandwidth = wmul64 bytes 8 div duration_ms
                     in m1\<lparr>pm_bandwidth_kbps := Some (case pm_bandwidth_kbps m1 of
                            Some existing \<Rightarrow> wadd64 existing bandwidth div 2
                          | None \<Rightarrow> bandwidth)\<rparr>
                else m1)
      in update_scores m2)"

definition failure_penalty :: "string \<Rightarrow> f64" where
  "failure_penalty error_type =
     (if error_type = ''timeout'' then lit (1 / 10)
      else if error_type = ''connection_refused'' then lit (2 / 10)
      else if error_type = ''encryption_error'' then lit (15 / 100)
      else lit (5 / 100))"

definition record_failed_transfer :: "u64 \<Rightarrow> string \<Rightarrow> peer_metrics \<Rightarrow> peer_metrics" where
  "record_failed_transfer now error_type m =
     (let m1 = m\<lparr>pm_transfer_count := wadd64 (pm_transfer_count m) 1,
                 pm_failed_transfers := wadd64 (pm_failed_transfers m) 1,
                 pm_last_seen := now\<rparr>;
          m2 = m1\<lparr>pm_reliability_score := f64_max (f64_sub (pm_reliability_score m1) (failure_penalty error_type)) (lit 0)\<rparr>
      in update_scores m2)"

definition update_latency :: "u64 \<Rightarrow> u64 \<Rightarrow> peer_metrics \<Rightarrow> peer_metrics" where
  "update_latency now latency_ms m =
     m\<lparr>pm_latency_ms := Some (case pm_latency_ms m of Some existing \<Rightarrow> wadd64 existing latency_ms div 2 | None \<Rightarrow> latency_ms),
       pm_last_seen := now\<rparr>"

definition set_encryption_support :: "bool \<Rightarrow> peer_metrics \<Rightarrow> peer_metrics" where
  "set_encryption_support supported m = m\<lparr>pm_encryption_support := supported\<rparr>"

definition malicious_penalty_for :: "string \<Rightarrow> f64" where
  "malicious_penalty_for severity =
     (if severity = ''minor'' then lit (2 / 10)
      else if severity = ''moderate'' then lit (5 / 10)
      else if severity = ''severe'' then lit (9 / 10)
      else lit (3 / 10))"

definition report_malicious_behavior :: "string \<Rightarrow> peer_metrics \<Rightarrow> peer_metrics" where
  "report_malicious_behavior severity m =
     (let m1 = m\<lparr>pm_malicious_reports := wadd64 (pm_malicious_reports m) 1\<rparr>;
          m2 = m1\<lparr>pm_reliability_score := f64_max (f64_sub (pm_reliability_score m1) (malicious_penalty_for severity)) (lit 0)\<rparr>
      in update_scores m2)"

definition bandwidth_score :: "peer_metrics \<Rightarrow> f64" where
  "bandwidth_score m = (case pm_bandwidth_kbps m of
     None \<Rightarrow> lit 0
   | Some bw \<Rightarrow> f64_min (f64_div (f64_of_u64 bw) (lit 10000)) (lit 1))"

definition age_penalty :: "u64 \<Rightarrow> peer_metrics \<Rightarrow> f64" where
  "age_penalty now m =
     (let age_seconds = sat_sub now (pm_last_seen m)
      in if 300 < age_seconds then f64_mul (f64_of_u64 (age_seconds - 300)) (lit (1 / 10000)) else lit 0)"

definition get_quality_score :: "u64 \<Rightarrow> bool \<Rightarrow> peer_metrics \<Rightarrow> f64" where
  "get_quality_score now prefer_encrypted m =
     (let malicious_penalty = f64_mul (f64_of_u64 (pm_malicious_reports m)) (lit (3 / 10));
          base_score = f64_add (f64_add (f64_add (f64_mul (lit (25 / 100)) (pm_reliability_score m))
                                                 (f64_mul (lit (20 / 100)) (pm_uptime_score m)))
                                        (f64_mul (lit (25 / 100)) (pm_success_rate m)))
                               (f64_mul (lit (20 / 100)) (bandwidth_score m));
          encryption_bonus = (if prefer_encrypted \<and> pm_encryption_support m then lit (1 / 10) else lit 0)
      in f64_min (f64_max (f64_sub (f64_sub (f64_add base_score encryption_bonus) (age_penalty now m)) malicious_penalty) (lit 0)) (lit 1))"

section \<open>The service\<close>

definition new_peer_selection_service :: peer_selection_service where
  "new_peer_selection_service = \<lparr>ps_metrics = Map.empty, ps_selection_history = Map.empty\<rparr>"

definition update_peer_metrics :: "peer_metrics \<Rightarrow> peer_selection_service \<Rightarrow> peer_selection_service" where
  "update_peer_metrics m s = s\<lparr>ps_metrics := (ps_metrics s)(pm_peer_id m \<mapsto> m)\<rparr>"

definition record_transfer_success :: "u64 \<Rightarrow> string \<Rightarrow> u64 \<Rightarrow> u64 \<Rightarrow> peer_selection_service \<Rightarrow> peer_selection_service" where
  "record_transfer_success now peer_id bytes duration_ms s =
     s\<lparr>ps_metrics := (ps_metrics s)(peer_id \<mapsto> record_successful_transfer now bytes duration_ms
        (case ps_metrics s peer_id of Some m \<Rightarrow> m | None \<Rightarrow> new_peer_metrics now peer_id ''unknown''))\<rparr>"

definition record_transfer_failure :: "u64 \<Rightarrow> string \<Rightarrow> string \<Rightarrow> peer_selection_service \<Rightarrow> peer_selection_service" where
  "record_transfer_failure now peer_id err s =
     s\<lparr>ps_metrics := (ps_metrics s)(peer_id \<mapsto> record_failed_transfer now err
        (case ps_metrics s peer_id of Some m \<Rightarrow> m | None \<Rightarrow> new_peer_metrics now peer_id ''unknown''))\<rparr>"

definition update_peer_latency :: "u64 \<Rightarrow> string \<Rightarrow> u64 \<Rightarrow> peer_selection_service \<Rightarrow> peer_selection_service" where
  "update_peer_latency now peer_id latency_ms s =
     s\<lparr>ps_metrics := (ps_metrics s)(peer_id \<mapsto> update_latency now latency_ms
        (case ps_metrics s peer_id of Some m \<Rightarrow> m | None \<Rightarrow> new_peer_metrics now peer_id ''unknown''))\<rparr>"

definition set_peer_encryption_support :: "string \<Rightarrow> bool \<Rightarrow> peer_selection_service \<Rightarrow> peer_selection_service" where
  "set_peer_encryption_support peer_id supported s =
     (case ps_metrics s peer_id of
        None \<Rightarrow> s
      | Some m \<Rightarrow> s\<lparr>ps_metrics := (ps_metrics s)(peer_id \<mapsto> set_encryption_support supported m)\<rparr>)"

definition report_malicious_peer :: "string \<Rightarrow> string \<Rightarrow> peer_selection_service \<Rightarrow> peer_selection_service" where
  "report_malicious_peer peer_id severity s =
     (case ps_metrics s peer_id of
        None \<Rightarrow> s
      | Some m \<Rightarrow> s\<lparr>ps_metrics := (ps_metrics s)(peer_id \<mapsto> report_malicious_behavior severity m)\<rparr>)"

fun selection_score :: "u64 \<Rightarrow> selection_strategy \<Rightarrow> (string \<rightharpoonup> u64) \<Rightarrow> string \<Rightarrow> peer_metrics \<Rightarrow> f64" where
  "selection_score now FastestFirst history peer_id m =
     (case pm_latency_ms m of Some lat \<Rightarrow> f64_sub (lit 1000) (f64_of_u64 (min lat 1000)) | None \<Rightarrow> lit 0)"
| "selection_score now MostReliable history peer_id m = f64_mul (pm_reliability_score m) (lit 1000)"
| "selection_score now HighestBandwidth history peer_id m =
     f64_of_u64 (case pm_bandwidth_kbps m of Some bw \<Rightarrow> bw | None \<Rightarrow> 0)"
| "selection_score now Balanced history peer_id m = f64_mul (get_quality_score now False m) (lit 1000)"
| "selection_score now EncryptionPreferred history peer_id m =
     (let base = f64_mul (get_quality_score now True m) (lit 1000)
      in if pm_encryption_support m then f64_add base (lit 100) else base)"
| "selection_score now LoadBalanced history peer_id m =
     (let base_score = f64_mul (get_quality_score now False m) (lit 1000);
          last_selected = (case history peer_id of Some t \<Rightarrow> t | None \<Rightarrow> 0);
          recency_penalty = (if sat_sub now last_selected < 60 then lit 50 else lit 0)
      in f64_sub base_score recency_penalty)"

definition peer_candidate ::
  "u64 \<Rightarrow> selection_strategy \<Rightarrow> bool \<Rightarrow> peer_selection_service \<Rightarrow> string \<Rightarrow> (string \<times> f64) option" where
  "peer_candidate now strategy require_encryption s peer_id =
     (case ps_metrics s peer_id of
        None \<Rightarrow> None
      | Some m \<Rightarrow> if require_encryption \<and> \<not> pm_encryption_support m then None
                  else Some (peer_id, selection_score now strategy (ps_selection_history s) peer_id m))"

definition select_peers ::
  "u64 \<Rightarrow> string list \<Rightarrow> usize \<Rightarrow> selection_strategy \<Rightarrow> bool \<Rightarrow> peer_selection_service
     \<Rightarrow> string list \<times> peer_selection_service" where
  "select_peers now available_peers cnt strategy require_encryption s =
     (if available_peers = [] \<or> cnt = 0 then ([], s)
      else let candidates = List.map_filter (peer_candidate now strategy require_encryption s) available_peers;
               ranked = sort_by (\<lambda>a b. f64_desc (snd a) (snd b)) candidates;
               selected = map fst (take cnt ranked)
           in (selected, s\<lparr>ps_selection_history := foldl (\<lambda>h p. h(p \<mapsto> now)) (ps_selection_history s) selected\<rparr>))"

definition get_all_metrics :: "string list \<Rightarrow> peer_selection_service \<Rightarrow> peer_metrics list" where
  "get_all_metrics order s = hm_values (ps_metrics s) order"

definition get_peer_metrics :: "string \<Rightarrow> peer_selection_service \<Rightarrow> peer_metrics option" where
  "get_peer_metrics peer_id s = ps_metrics s peer_id"

definition cleanup_inactive_peers :: "u64 \<Rightarrow> u64 \<Rightarrow> peer_selection_service \<Rightarrow> peer_selection_service" where
  "cleanup_inactive_peers now max_age_seconds s =
     s\<lparr>ps_metrics := hm_retain (\<lambda>m. sat_sub now (pm_last_seen m) < max_age_seconds) (ps_metrics s)\<rparr>"

definition recommend_peers_for_file ::
  "u64 \<Rightarrow> string list \<Rightarrow> u64 \<Rightarrow> bool \<Rightarrow> peer_selection_service \<Rightarrow> string list \<times> peer_selection_service" where
  "recommend_peers_for_file now available_peers file_size encryption_required s =
     (let strategy = (if encryption_required then EncryptionPreferred
                      else if 100000000 < file_size then HighestBandwidth else Balanced);
          peer_count = (if 50000000 < file_size then max (min (length available_peers) 5) 1
                        else max (min (length available_peers) 2) 1)
      in select_peers now available_peers peer_count strategy encryption_required s)"

section \<open>Scores stay in the unit interval\<close>

definition metrics_ok :: "peer_metrics \<Rightarrow> bool" where
  "metrics_ok m \<longleftrightarrow> f64_in 0 1 (pm_reliability_score m) \<and> f64_in 0 1 (pm_uptime_score m) \<and> f64_in 0 1 (pm_success_rate m) \<and>
     pm_transfer_count m < 2 ^ 64 \<and> pm_successful_transfers m + pm_failed_transfers m = pm_transfer_count m"

lemma lit_unit: "0 \<le> x \<Longrightarrow> x \<le> 1 \<Longrightarrow> f64_in 0 1 (lit x)"
  by (rule f64_of_rat_in) simp_all

lemma lit_exact [simp]: "lit 0 = F_Fin 0" "lit 1 = F_Fin 1" "(numeral k :: nat) \<le> 2 ^ 53 \<Longrightarrow> lit (numeral k) = F_Fin (numeral k)"
  by (simp_all add: f64_of_rat_exact)

lemma unit_mul: "f64_in 0 1 x \<Longrightarrow> f64_in 0 1 y \<Longrightarrow> f64_in 0 1 (f64_mul x y)"
  using f64_mul_in [of 1 x 1 y] by simp

lemma latency_score_unit: "f64_in 0 1 (latency_score m)"
proof (cases "pm_latency_ms m")
  case None
  then show ?thesis using lit_unit [of "1 / 2"] by (simp add: latency_score_def)
next
  case (Some lat)
  have "f64_in 0 1000 (f64_of_u64 (min lat 1000))" using f64_of_u64_in [of "min lat 1000" 1000] by simp
  then have "f64_in 0 1000 (f64_sub (F_Fin 1000) (f64_of_u64 (min lat 1000)))"
    using f64_sub_in [of 1000 1000 "F_Fin 1000" 0 1000 "f64_of_u64 (min lat 1000)"] by simp
  then have "f64_in 0 1 (f64_div (f64_sub (F_Fin 1000) (f64_of_u64 (min lat 1000))) (F_Fin 1000))"
    by (rule f64_div_in) simp_all
  with Some show ?thesis by (simp add: latency_score_def)
qed

lemma weighted_unit:
  assumes "f64_in 0 1 a" "f64_in 0 1 b" "f64_in 0 1 c"
  shows "f64_in 0 1 (f64_min (f64_add (f64_add (f64_mul (lit (4 / 10)) a) (f64_mul (lit (3 / 10)) b)) (f64_mul (lit (3 / 10)) c)) (lit 1))"
proof -
  have "f64_in 0 2 (f64_add (f64_mul (lit (4 / 10)) a) (f64_mul (lit (3 / 10)) b))"
    using f64_add_in [OF unit_mul unit_mul, OF lit_unit assms(1) lit_unit assms(2)] by simp
  from f64_add_in [OF this unit_mul [OF lit_unit assms(3)], of "3 / 10"]
  have "f64_in 0 3 (f64_add (f64_add (f64_mul (lit (4 / 10)) a) (f64_mul (lit (3 / 10)) b)) (f64_mul (lit (3 / 10)) c))" by simp
  then show ?thesis using f64_min_in [of 0 3 _ 1] by simp
qed

lemma update_scores_ok:
  assumes "f64_in 0 1 (pm_uptime_score m)" "f64_in 0 1 (pm_success_rate m)" "pm_transfer_count m < 2 ^ 64"
    and "pm_successful_transfers m + pm_failed_transfers m = pm_transfer_count m"
  shows "metrics_ok (update_scores m)"
proof -
  let ?m = "if 0 < pm_transfer_count m
    then m\<lparr>pm_success_rate := f64_div (f64_of_u64 (pm_successful_transfers m)) (f64_of_u64 (pm_transfer_count m))\<rparr> else m"
  have rate: "f64_in 0 1 (pm_success_rate ?m)"
    using assms f64_ratio [of "pm_successful_transfers m" "pm_transfer_count m"] by simp
  have "f64_in 0 1 (pm_reliability_score (update_scores m))"
    unfolding update_scores_def Let_def using weighted_unit [OF rate latency_score_unit, of "pm_uptime_score ?m" ?m] assms(1) by simp
  moreover have "pm_success_rate (update_scores m) = pm_success_rate ?m" "pm_uptime_score (update_scores m) = pm_uptime_score m"
    "pm_transfer_count (update_scores m) = pm_transfer_count m"
    "pm_successful_transfers (update_scores m) = pm_successful_transfers m" "pm_failed_transfers (update_scores m) = pm_failed_transfers m"
    by (simp_all add: update_scores_def Let_def)
  ultimately show ?thesis using rate assms unfolding metrics_ok_def by simp
qed

lemma new_peer_metrics_ok: "metrics_ok (new_peer_metrics now p a)"
  using lit_unit [of "1 / 2"] by (simp add: metrics_ok_def new_peer_metrics_def)

lemma record_successful_ok:
  assumes "metrics_ok m" "pm_transfer_count m < u64_max"
  shows "metrics_ok (record_successful_transfer now bytes dur m)"
  using assms unfolding record_successful_transfer_def Let_def
  by (intro update_scores_ok) (auto simp: metrics_ok_def wadd64_def u64_max_def)

lemma record_failed_ok:
  assumes "metrics_ok m" "pm_transfer_count m < u64_max"
  shows "metrics_ok (record_failed_transfer now e m)"
  using assms unfolding record_failed_transfer_def Let_def
  by (intro update_scores_ok) (auto simp: metrics_ok_def wadd64_def u64_max_def)

lemma report_malicious_ok: "metrics_ok m \<Longrightarrow> metrics_ok (report_malicious_behavior sev m)"
  unfolding report_malicious_behavior_def Let_def by (intro update_scores_ok) (auto simp: metrics_ok_def)

lemma update_latency_ok: "metrics_ok m \<Longrightarrow> metrics_ok (update_latency now l m)"
  by (simp add: metrics_ok_def update_latency_def)

lemma set_encryption_ok: "metrics_ok m \<Longrightarrow> metrics_ok (set_encryption_support b m)"
  by (simp add: metrics_ok_def set_encryption_support_def)

lemma quality_score_unit: "f64_in 0 1 (get_quality_score now pref m)"
  unfolding get_quality_score_def Let_def using f64_clamp_in [of 0 1] by simp

lemma selection_score_number:
  assumes "metrics_ok m"
  shows "selection_score now strategy history p m \<noteq> F_NaN"
proof -
  have q: "f64_in 0 1000 (f64_mul (get_quality_score now b m) (F_Fin 1000))" for b
    using f64_mul_in [OF quality_score_unit, of 1000 "F_Fin 1000"] by simp
  have fin: "x \<noteq> F_NaN" if "f64_in a b x" for a b x using that by (auto simp: f64_in_iff)
  show ?thesis
  proof (cases strategy)
    case FastestFirst
    have "f64_in 0 1000 (f64_sub (F_Fin 1000) (f64_of_u64 (min lat 1000)))" for lat
      using f64_sub_in [of 1000 1000 "F_Fin 1000" 0 1000 "f64_of_u64 (min lat 1000)"] f64_of_u64_in [of "min lat 1000" 1000] by simp
    then have "f64_sub (F_Fin 1000) (f64_of_u64 (min lat 1000)) \<noteq> F_NaN" for lat by (rule fin)
    with FastestFirst show ?thesis by (simp split: option.split)
  next
    case MostReliable
    have "f64_in 0 1 (pm_reliability_score m)" using assms by (simp add: metrics_ok_def)
    from f64_mul_in [OF this, of 1000 "F_Fin 1000"] have "f64_in 0 1000 (f64_mul (pm_reliability_score m) (F_Fin 1000))" by simp
    from MostReliable fin [OF this] show ?thesis by simp
  next
    case HighestBandwidth
    then show ?thesis by (simp add: f64_of_u64_def f64_of_rat_def Let_def)
  next
    case Balanced
    with fin [OF q] show ?thesis by simp
  next
    case EncryptionPreferred
    have "f64_in 100 1100 (f64_add (f64_mul (get_quality_score now True m) (F_Fin 1000)) (F_Fin 100))"
      using f64_add_in [OF q, of 100 100 "F_Fin 100"] by simp
    from fin [OF this] fin [OF q] EncryptionPreferred show ?thesis by (simp add: Let_def)
  next
    case LoadBalanced
    have a: "f64_in (- 50) 950 (f64_sub (f64_mul (get_quality_score now False m) (F_Fin 1000)) (F_Fin 50))"
      using f64_sub_in [OF q, of 50 50 "F_Fin 50"] by simp
    have b: "f64_in 0 1000 (f64_sub (f64_mul (get_quality_score now False m) (F_Fin 1000)) (F_Fin 0))"
      using f64_sub_in [OF q, of 0 0 "F_Fin 0"] by simp
    from LoadBalanced fin [OF a] fin [OF b] show ?thesis by (simp add: Let_def)
  qed
qed

section \<open>Calls\<close>

datatype peer_call =
    CallUpdate peer_metrics
  | CallSuccess u64 string u64 u64
  | CallFailure u64 string string
  | CallLatency u64 string u64
  | CallEncryption string bool
  | CallReport string string

fun peer_call_step :: "peer_selection_service \<Rightarrow> peer_call \<Rightarrow> peer_selection_service" where
  "peer_call_step s (CallUpdate m) = update_peer_metrics m s"
| "peer_call_step s (CallSuccess now p bytes dur) = record_transfer_success now p bytes dur s"
| "peer_call_step s (CallFailure now p e) = record_transfer_failure now p e s"
| "peer_call_step s (CallLatency now p l) = update_peer_latency now p l s"
| "peer_call_step s (CallEncryption p b) = set_peer_encryption_support p b s"
| "peer_call_step s (CallReport p sev) = report_malicious_peer p sev s"

fun call_peer :: "peer_call \<Rightarrow> string" where
  "call_peer (CallUpdate m) = pm_peer_id m"
| "call_peer (CallSuccess now p bytes dur) = p"
| "call_peer (CallFailure now p e) = p"
| "call_peer (CallLatency now p l) = p"
| "call_peer (CallEncryption p b) = p"
| "call_peer (CallReport p sev) = p"

abbreviation known_or_new :: "u64 \<Rightarrow> string \<Rightarrow> peer_metrics option \<Rightarrow> peer_metrics" where
  "known_or_new now p e \<equiv> (case e of Some m \<Rightarrow> m | None \<Rightarrow> new_peer_metrics now p ''unknown'')"

fun entry_step :: "peer_metrics option \<Rightarrow> peer_call \<Rightarrow> peer_metrics option" where
  "entry_step e (CallUpdate m) = Some m"
| "entry_step e (CallSuccess now p bytes dur) = Some (record_successful_transfer now bytes dur (known_or_new now p e))"
| "entry_step e (CallFailure now p err) = Some (record_failed_transfer now err (known_or_new now p e))"
| "entry_step e (CallLatency now p l) = Some (update_latency now l (known_or_new now p e))"
| "entry_step e (CallEncryption p b) = map_option (set_encryption_support b) e"
| "entry_step e (CallReport p sev) = map_option (report_malicious_behavior sev) e"

lemmas peer_call_defs = update_peer_metrics_def record_transfer_success_def record_transfer_failure_def update_peer_latency_def
  set_peer_encryption_support_def report_malicious_peer_def

interpretation sel: keyed_service peer_call_step call_peer ps_metrics entry_step
proof
  show "ps_metrics (peer_call_step s c) (call_peer c) = entry_step (ps_metrics s (call_peer c)) c" for s c
    by (cases c) (auto simp: peer_call_defs split: option.split)
  show "ps_metrics (peer_call_step s c) k = ps_metrics s k" if "k \<noteq> call_peer c" for k s c
    using that by (cases c) (auto simp: peer_call_defs split: option.split)
qed

text \<open>
  A call the invariant allows: metrics given from outside have to be in order themselves, and a
  transfer can be counted as long as the 64-bit counter has room.
\<close>

fun call_fits :: "peer_metrics option \<Rightarrow> peer_call \<Rightarrow> bool" where
  "call_fits e (CallUpdate m) = metrics_ok m"
| "call_fits e (CallSuccess now p bytes dur) = (\<forall>m. e = Some m \<longrightarrow> pm_transfer_count m < u64_max)"
| "call_fits e (CallFailure now p err) = (\<forall>m. e = Some m \<longrightarrow> pm_transfer_count m < u64_max)"
| "call_fits e _ = True"

definition entry_ok :: "peer_metrics option \<Rightarrow> bool" where
  "entry_ok e = (\<forall>m. e = Some m \<longrightarrow> metrics_ok m)"

lemma entry_step_ok: "entry_ok e \<Longrightarrow> call_fits e c \<Longrightarrow> entry_ok (entry_step e c)"
proof -
  assume e: "entry_ok e" "call_fits e c"
  have known: "metrics_ok (known_or_new now p e)" for now p
    using e(1) by (auto simp: entry_ok_def new_peer_metrics_ok split: option.split)
  have room: "pm_transfer_count (known_or_new now p e) < u64_max" if "\<forall>m. e = Some m \<longrightarrow> pm_transfer_count m < u64_max" for now p
    using that by (auto simp: new_peer_metrics_def u64_max_def split: option.split)
  show ?thesis using e known room
    by (cases c) (auto simp: entry_ok_def record_successful_ok record_failed_ok update_latency_ok set_encryption_ok report_malicious_ok)
qed

inductive psel_step :: "peer_selection_service \<Rightarrow> peer_selection_service \<Rightarrow> bool" where
  psel_call: "call_fits (ps_metrics s (call_peer c)) c \<Longrightarrow> psel_step s (peer_call_step s c)"
| psel_select: "psel_step s (snd (select_peers now av cnt strategy req s))"
| psel_recommend: "psel_step s (snd (recommend_peers_for_file now av sz req s))"
| psel_cleanup: "psel_step s (cleanup_inactive_peers now age s)"

inductive_cases psel_stepE: "psel_step s t"

definition all_metrics_ok :: "peer_selection_service \<Rightarrow> bool" where
  "all_metrics_ok s = (\<forall>p. entry_ok (ps_metrics s p))"

lemma select_peers_metrics [simp]: "ps_metrics (snd (select_peers now av cnt strategy req s)) = ps_metrics s"
  by (simp add: select_peers_def Let_def)

lemma peer_call_ok:
  assumes "all_metrics_ok s" "call_fits (ps_metrics s (call_peer c)) c"
  shows "all_metrics_ok (peer_call_step s c)"
  unfolding all_metrics_ok_def
proof
  fix p
  show "entry_ok (ps_metrics (peer_call_step s c) p)"
    using assms entry_step_ok [of "ps_metrics s (call_peer c)" c]
    by (cases "p = call_peer c") (auto simp: all_metrics_ok_def sel.step_own sel.step_other)
qed

lemma recommend_metrics [simp]: "ps_metrics (snd (recommend_peers_for_file now av sz req s)) = ps_metrics s"
  by (simp add: recommend_peers_for_file_def Let_def)

interpretation psel: invariant_machine psel_step all_metrics_ok
proof
  fix s t assume "psel_step s t" "all_metrics_ok s"
  then show "all_metrics_ok t"
  proof cases
    case (psel_call c)
    with peer_call_ok \<open>all_metrics_ok s\<close> show ?thesis by simp
  qed (auto simp: all_metrics_ok_def entry_ok_def cleanup_inactive_peers_def)
qed

section \<open>Selection\<close>

lemma map_filter_candidates:
  "map fst (List.map_filter (peer_candidate now strategy req s) av) = filter (\<lambda>p. peer_candidate now strategy req s p \<noteq> None) av"
  by (induction av) (auto simp: List.map_filter_def peer_candidate_def split: option.splits)

lemma candidate_score:
  "c \<in> set (List.map_filter (peer_candidate now strategy req s) av) \<Longrightarrow>
     \<exists>m. ps_metrics s (fst c) = Some m \<and> snd c = selection_score now strategy (ps_selection_history s) (fst c) m \<and>
         (req \<longrightarrow> pm_encryption_support m) \<and> fst c \<in> set av"
  by (auto simp: List.map_filter_def peer_candidate_def split: option.splits if_splits)

lemma history_fold: "foldl (\<lambda>h p. h(p \<mapsto> now)) h ps q = (if q \<in> set ps then Some now else h q)"
  by (induction ps arbitrary: h) auto

definition peer_score :: "u64 \<Rightarrow> selection_strategy \<Rightarrow> peer_selection_service \<Rightarrow> string \<Rightarrow> f64" where
  "peer_score now strategy s p = selection_score now strategy (ps_selection_history s) p (the (ps_metrics s p))"

lemma candidates_preorder:
  assumes "all_metrics_ok s"
  shows "preorder_on_set (\<lambda>a b. f64_desc (snd a) (snd b)) (set (List.map_filter (peer_candidate now strategy req s) av))"
proof -
  have "snd c \<noteq> F_NaN" if "c \<in> set (List.map_filter (peer_candidate now strategy req s) av)" for c
  proof -
    from candidate_score [OF that] obtain m where "ps_metrics s (fst c) = Some m"
      "snd c = selection_score now strategy (ps_selection_history s) (fst c) m" by auto
    moreover from this assms have "metrics_ok m" by (simp add: all_metrics_ok_def entry_ok_def)
    ultimately show ?thesis by (simp add: selection_score_number)
  qed
  then show ?thesis unfolding preorder_on_set_def using f64_desc_total f64_desc_trans by blast
qed

section \<open>Properties\<close>

text \<open>
  Scores are sane: after any sequence of calls (transfers, latency measurements, reports, selections,
  clean-ups) every peer's reliability, uptime and success rate lie between 0 and 1 and its counters of
  successful and failed transfers add up to the number of transfers.
\<close>

theorem peer_scores_sane:
  assumes "psel_step\<^sup>*\<^sup>* new_peer_selection_service s" "ps_metrics s p = Some m"
  shows "f64_in 0 1 (pm_reliability_score m) \<and> f64_in 0 1 (pm_uptime_score m) \<and> f64_in 0 1 (pm_success_rate m) \<and>
    pm_successful_transfers m + pm_failed_transfers m = pm_transfer_count m \<and> f64_in 0 1 (get_quality_score now pref m)"
proof -
  have "all_metrics_ok new_peer_selection_service"
    by (simp add: all_metrics_ok_def entry_ok_def new_peer_selection_service_def)
  from psel.run_inv [OF assms(1) this] assms(2) show ?thesis
    by (auto simp: all_metrics_ok_def entry_ok_def metrics_ok_def quality_score_unit)
qed

theorem peer_scores_sane_witness:
  "f64_in 0 1 (pm_reliability_score (record_failed_transfer 9 ''timeout'' (new_peer_metrics 9 ''p'' ''unknown'')))"
proof -
  let ?s = "peer_call_step new_peer_selection_service (CallFailure 9 ''p'' ''timeout'')"
  have "psel_step new_peer_selection_service ?s"
    by (rule psel_call) (simp add: new_peer_selection_service_def)
  then have "psel_step\<^sup>*\<^sup>* new_peer_selection_service ?s" by (rule r_into_rtranclp)
  from peer_scores_sane [OF this, of "''p''"] show ?thesis
    by (simp add: record_transfer_failure_def new_peer_selection_service_def)
qed

text \<open>
  A selection returns the best eligible peers: as many as asked for or as there are, in descending order
  of their scores, each of them known, offered and able to encrypt when that is required, and none of
  those left out scores higher. Only the selection times of exactly these peers change.
\<close>

theorem select_peers_best:
  assumes "all_metrics_ok s" "select_peers now av cnt strategy req s = (chosen, t)" "av \<noteq> []"
    and "eligible = filter (\<lambda>p. peer_candidate now strategy req s p \<noteq> None) av"
  shows "length chosen = min cnt (length eligible) \<and>
    (\<forall>p \<in> set chosen. p \<in> set av \<and> (\<exists>m. ps_metrics s p = Some m \<and> (req \<longrightarrow> pm_encryption_support m))) \<and>
    sorted_wrt (\<lambda>p q. f64_desc (peer_score now strategy s p) (peer_score now strategy s q)) chosen \<and>
    (\<forall>p \<in> set eligible - set chosen. \<forall>q \<in> set chosen. f64_desc (peer_score now strategy s q) (peer_score now strategy s p)) \<and>
    ps_metrics t = ps_metrics s \<and>
    ps_selection_history t = (\<lambda>p. if p \<in> set chosen then Some now else ps_selection_history s p)"
proof -
  let ?le = "\<lambda>a b :: string \<times> f64. f64_desc (snd a) (snd b)"
  let ?cs = "List.map_filter (peer_candidate now strategy req s) av"
  let ?r = "sort_by ?le ?cs"
  have ch: "chosen = map fst (take cnt ?r)" and t: "ps_metrics t = ps_metrics s"
    "ps_selection_history t = (\<lambda>p. if p \<in> set chosen then Some now else ps_selection_history s p)"
    using assms(2,3) by (auto simp: select_peers_def Let_def history_fold fun_eq_iff split: if_splits)
  have elig: "map fst ?cs = eligible" unfolding assms(4) by (rule map_filter_candidates)
  then have len: "length ?cs = length eligible" by (metis length_map)
  have sorted: "sorted_wrt ?le ?r" by (rule sort_by_sorted [OF candidates_preorder [OF assms(1)]])
  have score: "peer_score now strategy s (fst c) = snd c" if "c \<in> set ?r" for c
    using candidate_score [of c now strategy req s av] that by (auto simp: peer_score_def)
  have "sorted_wrt ?le (take cnt ?r)" using sorted by (rule sorted_wrt_take)
  then have desc: "sorted_wrt (\<lambda>p q. f64_desc (peer_score now strategy s p) (peer_score now strategy s q)) chosen"
    unfolding ch sorted_wrt_map by (rule sorted_wrt_mono_rel [rotated]) (metis score in_set_takeD)
  have rest: "f64_desc (peer_score now strategy s q) (peer_score now strategy s p)"
    if p: "p \<in> set eligible - set chosen" and q: "q \<in> set chosen" for p q
  proof -
    from p have "p \<in> set (map fst ?cs)" by (simp only: elig Diff_iff)
    then obtain c where c: "c \<in> set ?r" "fst c = p" by auto
    with p have "c \<notin> set (take cnt ?r)" by (auto simp: ch)
    moreover have "set ?r = set (take cnt ?r) \<union> set (drop cnt ?r)" by (metis append_take_drop_id set_append)
    ultimately have d: "c \<in> set (drop cnt ?r)" using c(1) by blast
    from q obtain e where e: "e \<in> set (take cnt ?r)" "fst e = q" by (auto simp: ch)
    have "f64_desc (snd e) (snd c)" by (rule sorted_take_le [OF sorted e(1) d])
    then show ?thesis using score [OF c(1)] score [OF in_set_takeD [OF e(1)]] c(2) e(2) by simp
  qed
  have "p \<in> set av \<and> (\<exists>m. ps_metrics s p = Some m \<and> (req \<longrightarrow> pm_encryption_support m))" if "p \<in> set chosen" for p
  proof -
    from that obtain c where "c \<in> set ?cs" "fst c = p" by (auto simp: ch dest: in_set_takeD)
    with candidate_score [of c now strategy req s av] show ?thesis by auto
  qed
  with desc rest t len show ?thesis by (simp add: ch)
qed

theorem select_peers_best_witness:
  "fst (select_peers 9 [''a'', ''b''] 1 HighestBandwidth False
     (update_peer_metrics ((new_peer_metrics 5 ''b'' ''y'')\<lparr>pm_bandwidth_kbps := Some 7\<rparr>)
       (update_peer_metrics (new_peer_metrics 5 ''a'' ''x'') new_peer_selection_service))) \<noteq> []"
proof -
  let ?m = "(new_peer_metrics 5 ''b'' ''y'')\<lparr>pm_bandwidth_kbps := Some 7\<rparr>"
  let ?s = "update_peer_metrics ?m (update_peer_metrics (new_peer_metrics 5 ''a'' ''x'') new_peer_selection_service)"
  let ?run = "select_peers 9 [''a'', ''b''] 1 HighestBandwidth False ?s"
  have "metrics_ok ?m" using new_peer_metrics_ok [of 5 "''b''" "''y''"] by (simp add: metrics_ok_def)
  then have ok: "all_metrics_ok ?s"
    using new_peer_metrics_ok [of 5 "''a''" "''x''"]
    by (auto simp: all_metrics_ok_def entry_ok_def update_peer_metrics_def new_peer_selection_service_def)
  have run: "?run = (fst ?run, snd ?run)" by simp
  have "filter (\<lambda>p. peer_candidate 9 HighestBandwidth False ?s p \<noteq> None) [''a'', ''b''] = [''a'', ''b'']"
    by (simp add: peer_candidate_def update_peer_metrics_def new_peer_metrics_def)
  with select_peers_best [OF ok run _ refl] have "length (fst ?run) = 1" by simp
  then show ?thesis by auto
qed

text \<open>
  The penalty for a failed transfer and for reported misbehaviour has no effect: whatever the kind of the
  error or the severity of the report, the metrics afterwards are the same, because the
  reliability score is recomputed from the success rate, the latency and the uptime.
\<close>

theorem penalty_ignored:
  "report_malicious_behavior severity m = report_malicious_behavior severity' m \<and>
   record_failed_transfer now err m = record_failed_transfer now err' m \<and>
   pm_reliability_score (report_malicious_behavior severity m) = pm_reliability_score (update_scores m)"
  by (simp add: report_malicious_behavior_def record_failed_transfer_def update_scores_def latency_score_def Let_def)

end
