(* ===== verification/ConnectionRetry.thy ===== *)
theory ConnectionRetry
  imports F64 Interfaces
begin

text \<open>
  Retrying connections: \<^verbatim>\<open>src-tauri/src/connection_retry.rs\<close>. A configuration gives the number of
  attempts and the exponential back-off; a tracker records what happened to one connection; the
  manager keeps a tracker per connection; two loops run an operation until it succeeds or the
  attempts are used up. Instants are nanoseconds on a monotonic clock; readings, random numbers and
  the outcomes of the operation are arguments. The precision of \<open>f64::powi\<close> is unspecified, so it
  is a parameter and what is proved holds for every such function. A loop that may run for ever
  is a partial function into \<open>option\<close>. Sleeping between attempts changes no state and is left out.

  Shown: with a limit the loop returns after at most that many attempts, with the first success or
  the last error, and without a limit exactly when some attempt succeeds; the loop with a
  tracker computes the same result; delays are bounded; calls for one connection do not affect
  another. Two defects are theorems: the tracker counts failed attempts twice, and creating
  a tracker can undo what another task recorded in between.
\<close>

section \<open>Configuration\<close>

definition DEFAULT_MAX_RETRIES :: u32 where "DEFAULT_MAX_RETRIES = 5"
definition DEFAULT_INITIAL_DELAY_MS :: u64 where "DEFAULT_INITIAL_DELAY_MS = 500"
definition DEFAULT_MAX_DELAY_MS :: u64 where "DEFAULT_MAX_DELAY_MS = 30000"
definition DEFAULT_HEALTH_CHECK_INTERVAL_SECS :: u64 where "DEFAULT_HEALTH_CHECK_INTERVAL_SECS = 30"
definition DEFAULT_MIN_PEERS_THRESHOLD :: usize where "DEFAULT_MIN_PEERS_THRESHOLD = 3"
definition DEFAULT_RECONNECT_COOLDOWN_SECS :: u64 where "DEFAULT_RECONNECT_COOLDOWN_SECS = 5"

record retry_config =
  rc_max_attempts :: u32
  rc_initial_delay_ms :: u64
  rc_max_delay_ms :: u64
  rc_backoff_multiplier :: f64
  rc_jitter_factor :: f64
  rc_reset_on_success :: bool

definition default_retry_config :: retry_config where
  "default_retry_config = \<lparr>rc_max_attempts = DEFAULT_MAX_RETRIES, rc_initial_delay_ms = DEFAULT_INITIAL_DELAY_MS,
     rc_max_delay_ms = DEFAULT_MAX_DELAY_MS, rc_backoff_multiplier = f64_of_rat 2, rc_jitter_factor = f64_of_rat (1 / 10),
     rc_reset_on_success = True\<rparr>"

definition for_webrtc :: retry_config where
  "for_webrtc = \<lparr>rc_max_attempts = 3, rc_initial_delay_ms = 1000, rc_max_delay_ms = 15000,
     rc_backoff_multiplier = f64_of_rat 2, rc_jitter_factor = f64_of_rat (2 / 10), rc_reset_on_success = True\<rparr>"

definition for_dht_bootstrap :: retry_config where
  "for_dht_bootstrap = \<lparr>rc_max_attempts = 5, rc_initial_delay_ms = 2000, rc_max_delay_ms = 60000,
     rc_backoff_multiplier = f64_of_rat 2, rc_jitter_factor = f64_of_rat (15 / 100), rc_reset_on_success = True\<rparr>"

definition for_dht_peer :: retry_config where
  "for_dht_peer = \<lparr>rc_max_attempts = 3, rc_initial_delay_ms = 500, rc_max_delay_ms = 10000,
     rc_backoff_multiplier = f64_of_rat (3 / 2), rc_jitter_factor = f64_of_rat (1 / 10), rc_reset_on_success = True\<rparr>"

definition aggressive :: retry_config where
  "aggressive = \<lparr>rc_max_attempts = 10, rc_initial_delay_ms = 100, rc_max_delay_ms = 5000,
     rc_backoff_multiplier = f64_of_rat (3 / 2), rc_jitter_factor = f64_of_rat (1 / 10), rc_reset_on_success = True\<rparr>"

text \<open>\<open>attempt as i32\<close> reads the same 32 bits as a signed number.\<close>

definition as_i32 :: "u32 \<Rightarrow> int" where
  "as_i32 n = (if n < 2 ^ 31 then int n else int n - 2 ^ 32)"

definition calculate_delay :: "(f64 \<Rightarrow> int \<Rightarrow> f64) \<Rightarrow> f64 \<Rightarrow> retry_config \<Rightarrow> u32 \<Rightarrow> u64" where
  "calculate_delay fpowi rnd cfg attempt =
     (let base_delay = f64_mul (f64_of_u64 (rc_initial_delay_ms cfg)) (fpowi (rc_backoff_multiplier cfg) (as_i32 attempt));
          capped_delay = f64_min base_delay (f64_of_u64 (rc_max_delay_ms cfg));
          jitter_range = f64_mul capped_delay (rc_jitter_factor cfg);
          jitter = (if f64_lt (F_Fin 0) jitter_range
                    then f64_mul (f64_sub (f64_mul rnd (F_Fin 2)) (F_Fin 1)) jitter_range else F_Fin 0)
      in f64_to_u64 (f64_max (f64_add capped_delay jitter) (F_Fin 0)))"

definition should_retry :: "retry_config \<Rightarrow> u32 \<Rightarrow> bool" where
  "should_retry cfg attempt = (rc_max_attempts cfg = 0 \<or> attempt < rc_max_attempts cfg)"

section \<open>Trackers\<close>

datatype connection_state = Connected | Connecting | Disconnected | Retrying | BackingOff | ConnFailed

record connection_tracker =
  ct_id :: string
  ct_state :: connection_state
  ct_consecutive_failures :: u32
  ct_total_attempts :: u32
  ct_total_successes :: u32
  ct_last_success :: "nat option"
  ct_last_failure :: "nat option"
  ct_last_error :: "string option"
  ct_next_retry_at :: "nat option"
  ct_config :: retry_config
  ct_created_at :: nat

definition new_tracker :: "nat \<Rightarrow> string \<Rightarrow> retry_config \<Rightarrow> connection_tracker" where
  "new_tracker now i cfg = \<lparr>ct_id = i, ct_state = Disconnected, ct_consecutive_failures = 0, ct_total_attempts = 0,
     ct_total_successes = 0, ct_last_success = None, ct_last_failure = None, ct_last_error = None,
     ct_next_retry_at = None, ct_config = cfg, ct_created_at = now\<rparr>"

definition record_success :: "nat \<Rightarrow> connection_tracker \<Rightarrow> connection_tracker" where
  "record_success now t =
     (let t1 = t\<lparr>ct_state := Connected, ct_last_success := Some now, ct_total_successes := wadd32 (ct_total_successes t) 1\<rparr>;
          t2 = (if rc_reset_on_success (ct_config t1) then t1\<lparr>ct_consecutive_failures := 0\<rparr> else t1)
      in t2\<lparr>ct_next_retry_at := None, ct_last_error := None\<rparr>)"

text \<open>\<open>Duration::from_millis\<close> in nanoseconds; the clock is read once for the failure and once for the next attempt.\<close>

definition record_failure ::
  "(f64 \<Rightarrow> int \<Rightarrow> f64) \<Rightarrow> f64 \<Rightarrow> nat \<Rightarrow> nat \<Rightarrow> string \<Rightarrow> connection_tracker \<Rightarrow> connection_tracker" where
  "record_failure fpowi rnd now later err t =
     (let t1 = t\<lparr>ct_consecutive_failures := wadd32 (ct_consecutive_failures t) 1,
                 ct_total_attempts := wadd32 (ct_total_attempts t) 1,
                 ct_last_failure := Some now, ct_last_error := Some err\<rparr>
      in if should_retry (ct_config t1) (ct_consecutive_failures t1)
         then let delay = calculate_delay fpowi rnd (ct_config t1) ((ct_consecutive_failures t1 + (2 ^ 32 - 1)) mod 2 ^ 32)
              in t1\<lparr>ct_next_retry_at := Some (later + delay * 1000000), ct_state := BackingOff\<rparr>
         else t1\<lparr>ct_state := ConnFailed\<rparr>)"

definition is_ready_to_retry :: "nat \<Rightarrow> connection_tracker \<Rightarrow> bool" where
  "is_ready_to_retry now t =
     (case ct_state t of
        BackingOff \<Rightarrow> (case ct_next_retry_at t of Some retry_at \<Rightarrow> retry_at \<le> now | None \<Rightarrow> True)
      | Disconnected \<Rightarrow> True
      | _ \<Rightarrow> False)"

definition start_retry :: "connection_tracker \<Rightarrow> connection_tracker" where
  "start_retry t = t\<lparr>ct_state := Retrying, ct_total_attempts := wadd32 (ct_total_attempts t) 1\<rparr>"

definition reset_tracker :: "connection_tracker \<Rightarrow> connection_tracker" where
  "reset_tracker t = t\<lparr>ct_state := Disconnected, ct_consecutive_failures := 0, ct_next_retry_at := None, ct_last_error := None\<rparr>"

definition time_until_retry :: "nat \<Rightarrow> connection_tracker \<Rightarrow> nat option" where
  "time_until_retry now t = map_option (\<lambda>retry_at. if now < retry_at then retry_at - now else 0) (ct_next_retry_at t)"

section \<open>The manager\<close>

record connection_manager =
  cmg_connections :: "string \<rightharpoonup> connection_tracker"
  cmg_default_config :: retry_config

definition new_connection_manager :: "retry_config \<Rightarrow> connection_manager" where
  "new_connection_manager cfg = \<lparr>cmg_connections = Map.empty, cmg_default_config = cfg\<rparr>"

text \<open>The table is searched under the read lock; when nothing is found a new tracker is inserted under the write lock.\<close>

definition get_or_create_insert :: "nat \<Rightarrow> string \<Rightarrow> connection_manager \<Rightarrow> connection_tracker \<times> connection_manager" where
  "get_or_create_insert now i s =
     (let t = new_tracker now i (cmg_default_config s) in (t, s\<lparr>cmg_connections := (cmg_connections s)(i \<mapsto> t)\<rparr>))"

definition get_or_create :: "nat \<Rightarrow> string \<Rightarrow> connection_manager \<Rightarrow> connection_tracker \<times> connection_manager" where
  "get_or_create now i s =
     (case cmg_connections s i of Some t \<Rightarrow> (t, s) | None \<Rightarrow> get_or_create_insert now i s)"

definition update_tracker :: "connection_tracker \<Rightarrow> connection_manager \<Rightarrow> connection_manager" where
  "update_tracker t s = s\<lparr>cmg_connections := (cmg_connections s)(ct_id t \<mapsto> t)\<rparr>"

definition manager_record_success :: "nat \<Rightarrow> string \<Rightarrow> connection_manager \<Rightarrow> connection_manager" where
  "manager_record_success now i s =
     (case cmg_connections s i of None \<Rightarrow> s
      | Some t \<Rightarrow> s\<lparr>cmg_connections := (cmg_connections s)(i \<mapsto> record_success now t)\<rparr>)"

definition manager_record_failure ::
  "(f64 \<Rightarrow> int \<Rightarrow> f64) \<Rightarrow> f64 \<Rightarrow> nat \<Rightarrow> nat \<Rightarrow> string \<Rightarrow> string \<Rightarrow> connection_manager \<Rightarrow> connection_manager" where
  "manager_record_failure fpowi rnd now later i err s =
     (case cmg_connections s i of None \<Rightarrow> s
      | Some t \<Rightarrow> s\<lparr>cmg_connections := (cmg_connections s)(i \<mapsto> record_failure fpowi rnd now later err t)\<rparr>)"

text \<open>The clock is read again for every connection.\<close>

definition get_ready_to_retry :: "(string \<Rightarrow> nat) \<Rightarrow> string list \<Rightarrow> connection_manager \<Rightarrow> string list" where
  "get_ready_to_retry clock order s =
     filter (\<lambda>i. case cmg_connections s i of Some t \<Rightarrow> is_ready_to_retry (clock i) t | None \<Rightarrow> False) order"

record connection_manager_stats =
  cst_total_connections :: usize
  cst_connected :: usize
  cst_connecting :: usize
  cst_disconnected :: usize
  cst_backing_off :: usize
  cst_failed :: usize
  cst_total_attempts :: u64
  cst_total_successes :: u64

fun count_state :: "connection_manager_stats \<Rightarrow> connection_state \<Rightarrow> connection_manager_stats" where
  "count_state r Connected = r\<lparr>cst_connected := cst_connected r + 1\<rparr>"
| "count_state r Connecting = r\<lparr>cst_connecting := cst_connecting r + 1\<rparr>"
| "count_state r Retrying = r\<lparr>cst_connecting := cst_connecting r + 1\<rparr>"
| "count_state r Disconnected = r\<lparr>cst_disconnected := cst_disconnected r + 1\<rparr>"
| "count_state r BackingOff = r\<lparr>cst_backing_off := cst_backing_off r + 1\<rparr>"
| "count_state r ConnFailed = r\<lparr>cst_failed := cst_failed r + 1\<rparr>"

definition count_tracker :: "connection_manager_stats \<Rightarrow> connection_tracker \<Rightarrow> connection_manager_stats" where
  "count_tracker r t =
     (let r1 = count_state (r\<lparr>cst_total_connections := cst_total_connections r + 1\<rparr>) (ct_state t)
      in r1\<lparr>cst_total_attempts := wadd64 (cst_total_attempts r1) (ct_total_attempts t),
            cst_total_successes := wadd64 (cst_total_successes r1) (ct_total_successes t)\<rparr>)"

definition no_connections :: connection_manager_stats where
  "no_connections = \<lparr>cst_total_connections = 0, cst_connected = 0, cst_connecting = 0, cst_disconnected = 0,
     cst_backing_off = 0, cst_failed = 0, cst_total_attempts = 0, cst_total_successes = 0\<rparr>"

definition manager_get_stats :: "string list \<Rightarrow> connection_manager \<Rightarrow> connection_manager_stats" where
  "manager_get_stats order s = foldl count_tracker no_connections (hm_values (cmg_connections s) order)"

definition remove_connection :: "string \<Rightarrow> connection_manager \<Rightarrow> connection_manager" where
  "remove_connection i s = s\<lparr>cmg_connections := hm_remove (cmg_connections s) i\<rparr>"

definition clear_failed :: "connection_manager \<Rightarrow> connection_manager" where
  "clear_failed s = s\<lparr>cmg_connections := hm_retain (\<lambda>t. ct_state t \<noteq> ConnFailed) (cmg_connections s)\<rparr>"

section \<open>The retry loops\<close>

text \<open>\<open>op k\<close> is the outcome of the \<open>k\<close>-th call of the operation.\<close>

partial_function (option) with_retry_from ::
  "retry_config \<Rightarrow> (nat \<Rightarrow> ('e, 'a) result) \<Rightarrow> nat \<Rightarrow> u32 \<Rightarrow> ('e, 'a) result option" where
  "with_retry_from cfg op k attempt =
     (case op k of
        Inr r \<Rightarrow> Some (Ok r)
      | Inl e \<Rightarrow>
          if \<not> should_retry cfg (wadd32 attempt 1) then Some (Err e)
          else with_retry_from cfg op (Suc k) (wadd32 attempt 1))"

definition with_retry :: "retry_config \<Rightarrow> (nat \<Rightarrow> ('e, 'a) result) \<Rightarrow> ('e, 'a) result option" where
  "with_retry cfg op = with_retry_from cfg op 0 0"

text \<open>The readings of the environment in the \<open>k\<close>-th round: random number and the two clock readings.\<close>

record retry_env =
  re_powi :: "f64 \<Rightarrow> int \<Rightarrow> f64"
  re_rnd :: "nat \<Rightarrow> f64"
  re_now :: "nat \<Rightarrow> nat"
  re_later :: "nat \<Rightarrow> nat"

partial_function (option) with_retry_tracked ::
  "retry_env \<Rightarrow> ('e \<Rightarrow> string) \<Rightarrow> (nat \<Rightarrow> ('e, 'a) result) \<Rightarrow> nat \<Rightarrow> connection_tracker
     \<Rightarrow> (('e, 'a) result \<times> connection_tracker) option" where
  "with_retry_tracked env show_err op k t =
     (case op k of
        Inr r \<Rightarrow> Some (Ok r, record_success (re_now env k) (start_retry t))
      | Inl e \<Rightarrow>
          let t1 = record_failure (re_powi env) (re_rnd env k) (re_now env k) (re_later env k) (show_err e) (start_retry t)
          in if ct_state t1 = ConnFailed then Some (Err e, t1) else with_retry_tracked env show_err op (Suc k) t1)"

section \<open>Health of the DHT connections\<close>

record health_monitor_config =
  hc_check_interval :: nat
  hc_min_healthy_connections :: usize
  hc_auto_recovery :: bool
  hc_recovery_cooldown :: nat

definition default_health_monitor_config :: health_monitor_config where
  "default_health_monitor_config = \<lparr>hc_check_interval = DEFAULT_HEALTH_CHECK_INTERVAL_SECS * 1000000000,
     hc_min_healthy_connections = DEFAULT_MIN_PEERS_THRESHOLD, hc_auto_recovery = True,
     hc_recovery_cooldown = DEFAULT_RECONNECT_COOLDOWN_SECS * 1000000000\<rparr>"

record health_status =
  hs_healthy :: bool
  hs_connected_count :: usize
  hs_min_required :: usize
  hs_last_check :: u64
  hs_recommendation :: "(usize \<times> usize) option"

record dht_health_monitor =
  dm_config :: health_monitor_config
  dm_last_check :: "nat option"
  dm_last_recovery :: "nat option"
  dm_running :: bool

definition new_dht_health_monitor :: "health_monitor_config \<Rightarrow> dht_health_monitor" where
  "new_dht_health_monitor cfg = \<lparr>dm_config = cfg, dm_last_check = None, dm_last_recovery = None, dm_running = False\<rparr>"

definition should_trigger_recovery :: "nat \<Rightarrow> usize \<Rightarrow> dht_health_monitor \<Rightarrow> bool" where
  "should_trigger_recovery now current_peer_count s =
     (if \<not> hc_auto_recovery (dm_config s) then False
      else if hc_min_healthy_connections (dm_config s) \<le> current_peer_count then False
      else case dm_last_recovery s of
             Some prev \<Rightarrow> \<not> sat_sub now prev < hc_recovery_cooldown (dm_config s)
           | None \<Rightarrow> True)"

definition record_recovery_attempt :: "nat \<Rightarrow> dht_health_monitor \<Rightarrow> dht_health_monitor" where
  "record_recovery_attempt now s = s\<lparr>dm_last_recovery := Some now\<rparr>"

definition get_health_status :: "u64 \<Rightarrow> usize \<Rightarrow> dht_health_monitor \<Rightarrow> health_status" where
  "get_health_status unix_now current_peer_count s =
     (let healthy = hc_min_healthy_connections (dm_config s) \<le> current_peer_count
      in \<lparr>hs_healthy = healthy, hs_connected_count = current_peer_count,
          hs_min_required = hc_min_healthy_connections (dm_config s), hs_last_check = unix_now,
          hs_recommendation = (if \<not> healthy then Some (current_peer_count, hc_min_healthy_connections (dm_config s)) else None)\<rparr>)"

section \<open>WebRTC\<close>

record webrtc_retry_context =
  wr_peer_id :: string
  wr_tracker :: connection_tracker
  wr_is_outbound :: bool
  wr_last_offer :: "string option"

definition new_webrtc_retry_context :: "nat \<Rightarrow> string \<Rightarrow> bool \<Rightarrow> webrtc_retry_context" where
  "new_webrtc_retry_context now peer_id is_outbound =
     \<lparr>wr_peer_id = peer_id, wr_tracker = new_tracker now peer_id for_webrtc, wr_is_outbound = is_outbound, wr_last_offer = None\<rparr>"

definition should_reconnect :: "nat \<Rightarrow> webrtc_retry_context \<Rightarrow> bool" where
  "should_reconnect now w = (is_ready_to_retry now (wr_tracker w) \<and> wr_is_outbound w)"

definition record_connected :: "nat \<Rightarrow> webrtc_retry_context \<Rightarrow> webrtc_retry_context" where
  "record_connected now w = w\<lparr>wr_tracker := record_success now (wr_tracker w)\<rparr>"

definition record_failed ::
  "(f64 \<Rightarrow> int \<Rightarrow> f64) \<Rightarrow> f64 \<Rightarrow> nat \<Rightarrow> nat \<Rightarrow> string \<Rightarrow> webrtc_retry_context \<Rightarrow> webrtc_retry_context" where
  "record_failed fpowi rnd now later err w = w\<lparr>wr_tracker := record_failure fpowi rnd now later err (wr_tracker w)\<rparr>"

definition get_retry_delay :: "nat \<Rightarrow> webrtc_retry_context \<Rightarrow> nat option" where
  "get_retry_delay now w = time_until_retry now (wr_tracker w)"

section \<open>Delays\<close>

lemma f64_mul_signed:
  assumes "f64_in (- 1) 1 x" "f64_in 0 b y" "f64_exact b"
  shows "f64_in (- b) b (f64_mul x y)"
proof -
  from assms(1,2) obtain p q where xy: "x = F_Fin p" "y = F_Fin q" "- 1 \<le> p" "p \<le> 1" "0 \<le> q" "q \<le> b"
    by (auto simp: f64_in_iff)
  have "\<bar>p * q\<bar> \<le> 1 * b" unfolding abs_mult by (rule mult_mono) (use xy in auto)
  then have "f64_in (- b) b (f64_of_rat (p * q))" by (intro f64_of_rat_in) (use assms(3) in \<open>auto simp: abs_le_iff\<close>)
  with xy show ?thesis by simp
qed

text \<open>A random number between 0 and 1, stretched to the interval from -1 to 1.\<close>

lemma jitter_sign:
  assumes "f64_in 0 1 rnd"
  shows "f64_in (- 1) 1 (f64_sub (f64_mul rnd (F_Fin 2)) (F_Fin 1))"
proof -
  have "f64_in 0 2 (f64_mul rnd (F_Fin 2))" using f64_mul_in [OF assms, of 2 "F_Fin 2"] by simp
  from f64_sub_in [OF this, of 1 1 "F_Fin 1"] show ?thesis by simp
qed

lemma f64_to_u64_le: "f64_in a (of_nat n) x \<Longrightarrow> f64_to_u64 x \<le> n"
proof -
  assume "f64_in a (of_nat n) x"
  then obtain q where q: "x = F_Fin q" "q \<le> of_nat n" by (auto simp: f64_in_iff)
  then have "\<lfloor>q\<rfloor> \<le> int n" by (simp add: floor_le_iff le_less_trans [OF q(2)])
  then have "nat \<lfloor>q\<rfloor> \<le> n" by linarith
  with q show ?thesis by (simp add: min_le_iff_disj)
qed

text \<open>The capped delay lies between 0 and the maximum unless the base is negative; then there is no jitter and no delay.\<close>

lemma f64_min_cap:
  "f64_in 0 c (f64_min x (F_Fin c)) \<or> f64_lt (f64_min x (F_Fin c)) (F_Fin 0)" if "0 \<le> c"
  using that by (cases x) (auto simp: f64_min_def)

lemma negative_no_jitter:
  assumes "f64_lt x (F_Fin 0)" "f64_in 0 1 j"
  shows "\<not> f64_lt (F_Fin 0) (f64_mul x j)" and "f64_to_u64 (f64_max (f64_add x (F_Fin 0)) (F_Fin 0)) = 0"
proof -
  obtain q where j: "j = F_Fin q" "0 \<le> q" using assms(2) by (auto simp: f64_in_iff)
  show "\<not> f64_lt (F_Fin 0) (f64_mul x j)"
  proof (cases x)
    case (F_Fin p)
    with assms(1) j have "p * q \<le> 0" by (simp add: mult_nonpos_nonneg)
    then have "round_rat (p * q) \<le> 0" using round_to_mono [of "p * q" 0 52 "- 1074"] by simp
    then show ?thesis using F_Fin j by (auto simp: f64_of_rat_def Let_def)
  qed (use assms(1) j in auto)
  show "f64_to_u64 (f64_max (f64_add x (F_Fin 0)) (F_Fin 0)) = 0"
  proof (cases x)
    case (F_Fin p)
    with assms(1) have "round_rat p \<le> 0" using round_to_mono [of p 0 52 "- 1074"] by simp
    with F_Fin show ?thesis by (auto simp: f64_of_rat_def Let_def f64_max_def)
  qed (use assms(1) in \<open>auto simp: f64_max_def\<close>)
qed

lemma f64_max0_in: "f64_in a b x \<Longrightarrow> 0 \<le> b \<Longrightarrow> f64_in 0 b (f64_max x (F_Fin 0))"
  by (auto simp: f64_in_iff f64_max_def)

lemma delay_le:
  assumes "rc_max_delay_ms cfg \<le> 2 ^ 52" "f64_in 0 1 (rc_jitter_factor cfg)" "f64_in 0 1 rnd"
  shows "calculate_delay fpowi rnd cfg attempt \<le> 2 * rc_max_delay_ms cfg"
    and "rc_jitter_factor cfg = F_Fin 0 \<Longrightarrow> calculate_delay fpowi rnd cfg attempt \<le> rc_max_delay_ms cfg"
proof -
  let ?m = "rc_max_delay_ms cfg"
  let ?c = "f64_min (f64_mul (f64_of_u64 (rc_initial_delay_ms cfg)) (fpowi (rc_backoff_multiplier cfg) (as_i32 attempt))) (f64_of_u64 ?m)"
  let ?r = "f64_mul ?c (rc_jitter_factor cfg)"
  let ?j = "if f64_lt (F_Fin 0) ?r then f64_mul (f64_sub (f64_mul rnd (F_Fin 2)) (F_Fin 1)) ?r else F_Fin 0"
  have mx: "f64_of_u64 ?m = F_Fin (of_nat ?m)" using assms(1) by (intro f64_of_u64_exact) simp
  have d: "calculate_delay fpowi rnd cfg attempt = f64_to_u64 (f64_max (f64_add ?c ?j) (F_Fin 0))"
    by (simp add: calculate_delay_def Let_def)
  have e: "f64_exact (of_nat ?m)" using assms(1) by (intro f64_exact_nat) simp
  have e2: "f64_exact (of_nat (2 * ?m))" using assms(1) by (intro f64_exact_nat) simp
  consider "f64_in 0 (of_nat ?m) ?c" | "f64_lt ?c (F_Fin 0)" unfolding mx using f64_min_cap [OF of_nat_0_le_iff] by blast
  then have "calculate_delay fpowi rnd cfg attempt \<le> 2 * ?m \<and>
    (rc_jitter_factor cfg = F_Fin 0 \<longrightarrow> calculate_delay fpowi rnd cfg attempt \<le> ?m)"
  proof cases
    case 1
    from f64_mul_in [OF 1 assms(2)] e have r: "f64_in 0 (of_nat ?m) ?r" by simp
    have j: "f64_in (- of_nat ?m) (of_nat ?m) ?j"
      using f64_mul_signed [OF jitter_sign [OF assms(3)] r e] by simp
    have "f64_in (- of_nat ?m) (of_nat (2 * ?m)) (f64_add ?c ?j)" using f64_add_in [OF 1 j] e e2 by simp
    then have "f64_in 0 (of_nat (2 * ?m)) (f64_max (f64_add ?c ?j) (F_Fin 0))" by (rule f64_max0_in) simp
    then have "calculate_delay fpowi rnd cfg attempt \<le> 2 * ?m" unfolding d by (rule f64_to_u64_le)
    moreover have "calculate_delay fpowi rnd cfg attempt \<le> ?m" if z: "rc_jitter_factor cfg = F_Fin 0"
    proof -
      have "?j = F_Fin 0" using 1 z by (auto simp: f64_in_iff f64_of_rat_def)
      with f64_add_in [OF 1, of 0 0 "F_Fin 0"] e have "f64_in 0 (of_nat ?m) (f64_add ?c ?j)" by simp
      then have "f64_in 0 (of_nat ?m) (f64_max (f64_add ?c ?j) (F_Fin 0))" by (rule f64_max0_in) simp
      then show ?thesis unfolding d by (rule f64_to_u64_le)
    qed
    ultimately show ?thesis by simp
  next
    case 2
    from negative_no_jitter(1) [OF 2 assms(2)] have "?j = F_Fin 0" by simp
    with negative_no_jitter(2) [OF 2 assms(2)] have "calculate_delay fpowi rnd cfg attempt = 0" unfolding d by (simp only:)
    then show ?thesis by simp
  qed
  then show "calculate_delay fpowi rnd cfg attempt \<le> 2 * ?m"
    and "rc_jitter_factor cfg = F_Fin 0 \<Longrightarrow> calculate_delay fpowi rnd cfg attempt \<le> ?m" by auto
qed

section \<open>The loops\<close>

declare with_retry_from.simps [code] with_retry_tracked.simps [code]

lemma retry_limited:
  assumes "0 < rc_max_attempts cfg" "rc_max_attempts cfg < 2 ^ 32" "k < rc_max_attempts cfg"
  shows "\<exists>n. k \<le> n \<and> n < rc_max_attempts cfg \<and> with_retry_from cfg op k k = Some (op n) \<and>
    (\<forall>j. k \<le> j \<and> j < n \<longrightarrow> \<not> is_ok (op j)) \<and> (is_ok (op n) \<or> Suc n = rc_max_attempts cfg)"
  using assms(3)
proof (induction "rc_max_attempts cfg - k" arbitrary: k)
  case (Suc m)
  have suc: "wadd32 k (Suc 0) = Suc k" using Suc.prems assms(2) by (simp add: wadd32_def)
  show ?case
  proof (cases "op k")
    case (Inr r)
    then show ?thesis using Suc.prems by (intro exI [of _ k]) (auto simp: with_retry_from.simps)
  next
    case (Inl e)
    show ?thesis
    proof (cases "Suc k < rc_max_attempts cfg")
      case True
      from Suc.hyps(2) have "m = rc_max_attempts cfg - Suc k" by simp
      from Suc.hyps(1) [OF this True] obtain n where n: "Suc k \<le> n" "n < rc_max_attempts cfg"
        "with_retry_from cfg op (Suc k) (Suc k) = Some (op n)" "\<forall>j. Suc k \<le> j \<and> j < n \<longrightarrow> \<not> is_ok (op j)"
        "is_ok (op n) \<or> Suc n = rc_max_attempts cfg" by auto
      have "with_retry_from cfg op k k = Some (op n)"
        using n(3) Inl True by (simp add: with_retry_from.simps [of cfg op k] suc should_retry_def)
      moreover have "\<not> is_ok (op j)" if "k \<le> j" "j < n" for j
        using that Inl n(4) by (cases "j = k") simp_all
      ultimately show ?thesis using n by (intro exI [of _ n]) simp
    next
      case False
      then show ?thesis using Suc.prems Inl
        by (intro exI [of _ k]) (auto simp: with_retry_from.simps [of cfg op k] suc should_retry_def)
    qed
  qed
qed simp

lemma retry_unlimited_returns:
  assumes "rc_max_attempts cfg = 0" "k \<le> n" "is_ok (op n)"
  shows "\<exists>r. with_retry_from cfg op k a = Some (Ok r)"
  using assms(2)
proof (induction "n - k" arbitrary: k a)
  case 0
  with assms(3) show ?case by (auto simp: is_ok_iff with_retry_from.simps)
next
  case (Suc m)
  from Suc.hyps(1) [of "Suc k"] Suc.hyps(2) Suc.prems assms(1) show ?case
    by (auto simp: with_retry_from.simps [of cfg op k a] should_retry_def split: sum.split)
qed

lemma retry_unlimited_ok:
  assumes "rc_max_attempts cfg = 0" "with_retry_from cfg op k a = Some r"
  shows "\<exists>n. r = op n \<and> is_ok (op n)"
proof (rule with_retry_from.raw_induct [OF _ assms(2), where P = "\<lambda>c p k a r. c = cfg \<longrightarrow> (\<exists>n. r = p n \<and> is_ok (p n))", rule_format, OF _ refl])
  fix f c p k a r
  assume ih: "\<And>c p k a r. f c p k a = Some r \<Longrightarrow> c = cfg \<Longrightarrow> \<exists>n. r = p n \<and> is_ok (p n)"
    and body: "(case p k of Inl e \<Rightarrow> if \<not> should_retry c (wadd32 a 1) then Some (Inl e) else f c p (Suc k) (wadd32 a 1) | Inr r \<Rightarrow> Some (Inr r)) = Some r"
    and c: "c = cfg"
  show "\<exists>n. r = p n \<and> is_ok (p n)"
  proof (cases "p k")
    case (Inl e)
    with body c assms(1) ih [of c p "Suc k" "wadd32 a 1" r] show ?thesis by (simp add: should_retry_def)
  next
    case (Inr x)
    with body show ?thesis by (intro exI [of _ k]) auto
  qed
qed

lemma record_failure_facts:
  assumes "t1 = record_failure fpowi rnd now later err t"
  shows "ct_consecutive_failures t1 = wadd32 (ct_consecutive_failures t) 1" "ct_config t1 = ct_config t"
    "ct_state t1 = ConnFailed \<longleftrightarrow> \<not> should_retry (ct_config t) (wadd32 (ct_consecutive_failures t) 1)"
    "ct_total_attempts t1 = wadd32 (ct_total_attempts t) 1" "ct_total_successes t1 = ct_total_successes t"
  by (simp_all add: assms record_failure_def Let_def)

lemma start_retry_facts [simp]: "ct_consecutive_failures (start_retry t) = ct_consecutive_failures t"
  "ct_config (start_retry t) = ct_config t" "ct_total_attempts (start_retry t) = wadd32 (ct_total_attempts t) 1"
  "ct_total_successes (start_retry t) = ct_total_successes t"
  by (simp_all add: start_retry_def)

lemma tracked_follows:
  assumes "with_retry_from cfg op k a = Some r" "ct_consecutive_failures t = a" "ct_config t = cfg"
  shows "\<exists>t'. with_retry_tracked env sh op k t = Some (r, t')"
proof -
  have "\<forall>t :: connection_tracker. ct_consecutive_failures t = a \<longrightarrow> ct_config t = cfg \<longrightarrow> (\<exists>t'. with_retry_tracked env sh op k t = Some (r, t'))"
  proof (rule with_retry_from.raw_induct [OF _ assms(1),
        where P = "\<lambda>c p k a r. \<forall>t :: connection_tracker. ct_consecutive_failures t = a \<longrightarrow> ct_config t = c \<longrightarrow> (\<exists>t'. with_retry_tracked env sh p k t = Some (r, t'))"],
      intro allI impI)
    fix f c p k a r and t :: connection_tracker
    assume ih: "\<And>c p k a r. f c p k a = Some r \<Longrightarrow>
        \<forall>t :: connection_tracker. ct_consecutive_failures t = a \<longrightarrow> ct_config t = c \<longrightarrow> (\<exists>t'. with_retry_tracked env sh p k t = Some (r, t'))"
      and body: "(case p k of Inl e \<Rightarrow> if \<not> should_retry c (wadd32 a 1) then Some (Inl e) else f c p (Suc k) (wadd32 a 1) | Inr r \<Rightarrow> Some (Inr r)) = Some r"
      and t: "ct_consecutive_failures t = a" "ct_config t = c"
    show "\<exists>t'. with_retry_tracked env sh p k t = Some (r, t')"
    proof (cases "p k")
      case (Inl e)
      let ?t = "record_failure (re_powi env) (re_rnd env k) (re_now env k) (re_later env k) (sh e) (start_retry t)"
      have facts: "ct_consecutive_failures ?t = wadd32 a 1" "ct_config ?t = c"
        "ct_state ?t = ConnFailed \<longleftrightarrow> \<not> should_retry c (wadd32 a 1)"
        using record_failure_facts [OF refl] t by simp_all
      show ?thesis
      proof (cases "should_retry c (wadd32 a 1)")
        case True
        with body Inl have "f c p (Suc k) (wadd32 a 1) = Some r" by simp
        from ih [OF this] facts obtain t' where "with_retry_tracked env sh p (Suc k) ?t = Some (r, t')" by blast
        with Inl True facts show ?thesis by (simp add: with_retry_tracked.simps [of env sh p k t] Let_def)
      next
        case False
        with body Inl have "r = Inl e" by simp
        with Inl False facts(3) show ?thesis by (simp add: with_retry_tracked.simps [of env sh p k t] Let_def)
      qed
    next
      case (Inr x)
      with body have "r = Inr x" by simp
      with Inr show ?thesis by (simp add: with_retry_tracked.simps)
    qed
  qed
  with assms(2,3) show ?thesis by blast
qed

lemma tracked_leads:
  assumes "with_retry_tracked env sh op k t = Some (r, t')"
  shows "with_retry_from (ct_config t) op k (ct_consecutive_failures t) = Some r"
proof -
  have "with_retry_from (ct_config t) op k (ct_consecutive_failures t) = Some (fst (r, t'))"
  proof (rule with_retry_tracked.raw_induct [OF _ assms,
        where P = "\<lambda>env sh p k t res. with_retry_from (ct_config t) p k (ct_consecutive_failures t) = Some (fst res)"])
    fix f env sh p k t res
    assume ih: "\<And>env sh p k t res. f env sh p k t = Some res \<Longrightarrow> with_retry_from (ct_config t) p k (ct_consecutive_failures t) = Some (fst res)"
      and body: "(case p k of
          Inl e \<Rightarrow> let t1 = record_failure (re_powi env) (re_rnd env k) (re_now env k) (re_later env k) (sh e) (start_retry t)
                   in if ct_state t1 = ConnFailed then Some (Inl e, t1) else f env sh p (Suc k) t1
        | Inr r \<Rightarrow> Some (Inr r, record_success (re_now env k) (start_retry t))) = Some res"
    show "with_retry_from (ct_config t) p k (ct_consecutive_failures t) = Some (fst res)"
    proof (cases "p k")
      case (Inl e)
      let ?t = "record_failure (re_powi env) (re_rnd env k) (re_now env k) (re_later env k) (sh e) (start_retry t)"
      have facts: "ct_consecutive_failures ?t = wadd32 (ct_consecutive_failures t) 1" "ct_config ?t = ct_config t"
        "ct_state ?t = ConnFailed \<longleftrightarrow> \<not> should_retry (ct_config t) (wadd32 (ct_consecutive_failures t) 1)"
        using record_failure_facts [OF refl] by simp_all
      show ?thesis
        using body ih [of env sh p "Suc k" ?t res] facts Inl
        by (auto simp: with_retry_from.simps [of "ct_config t" p k] Let_def split: if_splits)
    next
      case (Inr x)
      with body show ?thesis by (auto simp: with_retry_from.simps)
    qed
  qed
  then show ?thesis by simp
qed

section \<open>Properties\<close>

text \<open>
  C15: The retry loop ends whenever it should. With a limit of attempts it returns after at most that
  many calls of the operation, with the first success, or with the error of the last permitted call.
  Without a limit (zero) it returns exactly if some call succeeds, and then with a success.
\<close>

theorem retry_terminates:
  assumes "rc_max_attempts cfg < 2 ^ 32"
  shows "if 0 < rc_max_attempts cfg
    then \<exists>n < rc_max_attempts cfg. with_retry cfg op = Some (op n) \<and> (\<forall>j < n. \<not> is_ok (op j)) \<and>
           (is_ok (op n) \<or> Suc n = rc_max_attempts cfg)
    else (\<exists>r. with_retry cfg op = Some r) = (\<exists>n. is_ok (op n)) \<and> (\<forall>r. with_retry cfg op = Some r \<longrightarrow> is_ok r)"
proof (cases "0 < rc_max_attempts cfg")
  case True
  with retry_limited [OF True assms True, of op] show ?thesis by (auto simp: with_retry_def)
next
  case False
  then have z: "rc_max_attempts cfg = 0" by simp
  have 1: "\<exists>n. r = op n \<and> is_ok (op n)" if "with_retry cfg op = Some r" for r
    using retry_unlimited_ok [OF z] that unfolding with_retry_def by blast
  have 2: "\<exists>r. with_retry cfg op = Some r" if "is_ok (op n)" for n
    using retry_unlimited_returns [where op = op and n = n and k = 0 and a = 0, OF z le0 that] unfolding with_retry_def by auto
  from 1 2 False show ?thesis by auto
qed

theorem retry_terminates_witness:
  "with_retry for_webrtc (\<lambda>k. Err k :: (nat, unit) result) = Some (Err 2)"
proof -
  have m: "rc_max_attempts for_webrtc = 3" by (simp add: for_webrtc_def)
  from retry_terminates [of for_webrtc "\<lambda>k. Err k :: (nat, unit) result"] show ?thesis unfolding m by auto
qed

text \<open>
  The loop that keeps a tracker is equivalent to the plain one: started on a new tracker it returns
  for the same operations and with the same result, whatever the clock, the random numbers and the
  precision of the power function.
\<close>

theorem tracked_equivalent:
  "map_option fst (with_retry_tracked env sh op 0 (new_tracker now i cfg)) = with_retry cfg op"
proof (cases "with_retry cfg op")
  case None
  have "with_retry_tracked env sh op 0 (new_tracker now i cfg) = None"
  proof (rule ccontr)
    assume "with_retry_tracked env sh op 0 (new_tracker now i cfg) \<noteq> None"
    then obtain r t where "with_retry_tracked env sh op 0 (new_tracker now i cfg) = Some (r, t)" by auto
    from tracked_leads [OF this] None show False by (simp add: with_retry_def new_tracker_def)
  qed
  with None show ?thesis by simp
next
  case (Some r)
  then have "with_retry_from cfg op 0 0 = Some r" by (simp add: with_retry_def)
  from tracked_follows [OF this, of "new_tracker now i cfg" env sh] Some show ?thesis by (auto simp: new_tracker_def)
qed

text \<open>
  The delay before an attempt is at most twice the configured maximum, and at most the maximum
  without jitter. This holds for every attempt number, every power function and every random number
  of the unit interval, although the base delay grows exponentially and may overflow to infinity
  or be a NaN.
\<close>

theorem delay_bounded:
  assumes "rc_max_delay_ms cfg \<le> 2 ^ 52" "f64_in 0 1 (rc_jitter_factor cfg)" "f64_in 0 1 rnd"
  shows "calculate_delay fpowi rnd cfg attempt \<le> 2 * rc_max_delay_ms cfg \<and>
    (rc_jitter_factor cfg = F_Fin 0 \<longrightarrow> calculate_delay fpowi rnd cfg attempt \<le> rc_max_delay_ms cfg)"
  using delay_le [OF assms] by blast

theorem delay_bounded_witness:
  "calculate_delay (\<lambda>b e. F_Inf False) (F_Fin (1 / 2)) (default_retry_config\<lparr>rc_jitter_factor := F_Fin 0\<rparr>) 4000000000 \<le> 30000"
proof -
  let ?cfg = "default_retry_config\<lparr>rc_jitter_factor := F_Fin 0\<rparr>"
  have a: "rc_max_delay_ms ?cfg = 30000" "rc_jitter_factor ?cfg = F_Fin 0"
    by (simp_all add: default_retry_config_def DEFAULT_MAX_DELAY_MS_def)
  have "f64_in 0 1 (F_Fin (1 / 2))" "f64_in 0 1 (F_Fin 0)" by (simp_all add: f64_in_def)
  with delay_bounded [of ?cfg "F_Fin (1 / 2)" "\<lambda>b e. F_Inf False" 4000000000]
  show ?thesis using a by simp
qed

text \<open>What the tracker holds after \<open>n\<close> failures and a success: every failed attempt has been counted twice.\<close>

lemma tracked_counts:
  assumes "rc_max_attempts (ct_config t) = 0" "\<And>j. j < n \<Longrightarrow> \<not> is_ok (op (k + j))" "op (k + n) = Ok r"
    and "ct_total_attempts t + 2 * n + 1 < 2 ^ 32"
  shows "\<exists>t'. with_retry_tracked env sh op k t = Some (Ok r, t') \<and> ct_total_attempts t' = ct_total_attempts t + 2 * n + 1 \<and>
    ct_total_successes t' = wadd32 (ct_total_successes t) 1"
  using assms
proof (induction n arbitrary: k t)
  case 0
  then show ?case
    by (auto simp: with_retry_tracked.simps [of env sh op k t] record_success_def Let_def start_retry_def wadd32_def)
next
  case (Suc n)
  from Suc.prems(2) [of 0] obtain e where e: "op k = Inl e" by (cases "op k") auto
  let ?t = "record_failure (re_powi env) (re_rnd env k) (re_now env k) (re_later env k) (sh e) (start_retry t)"
  have facts: "ct_config ?t = ct_config t" "ct_state ?t \<noteq> ConnFailed" "ct_total_attempts ?t = ct_total_attempts t + 2"
    "ct_total_successes ?t = ct_total_successes t"
    using record_failure_facts [OF refl, of "re_powi env" "re_rnd env k" "re_now env k" "re_later env k" "sh e" "start_retry t"] Suc.prems
    by (simp_all add: should_retry_def wadd32_def)
  have "\<not> is_ok (op (Suc k + j))" if "j < n" for j using Suc.prems(2) [of "Suc j"] that by simp
  with Suc.IH [of ?t "Suc k"] Suc.prems facts obtain t' where
    "with_retry_tracked env sh op (Suc k) ?t = Some (Ok r, t')" "ct_total_attempts t' = ct_total_attempts t + 2 * Suc n + 1"
    "ct_total_successes t' = wadd32 (ct_total_successes t) 1" by auto
  with e facts show ?case by (simp add: with_retry_tracked.simps [of env sh op k t] Let_def)
qed

text \<open>
  The tracker counts failed attempts twice, once when the attempt starts and once when the failure
  is recorded: after \<open>n\<close> failures and a success it holds \<open>2 n + 1\<close> attempts, not \<open>n + 1\<close>.
\<close>

theorem failures_counted_twice:
  assumes "rc_max_attempts cfg = 0" "\<And>j. j < n \<Longrightarrow> \<not> is_ok (op j)" "op n = Ok r" "2 * n + 1 < 2 ^ 32"
  shows "\<exists>t. with_retry_tracked env sh op 0 (new_tracker now i cfg) = Some (Ok r, t) \<and>
    ct_total_attempts t = 2 * n + 1 \<and> ct_total_successes t = 1"
  using tracked_counts [of "new_tracker now i cfg" n op 0 r env sh] assms by (simp add: new_tracker_def wadd32_def)

theorem failures_counted_twice_witness:
  "\<exists>t. with_retry_tracked \<lparr>re_powi = \<lambda>b e. b, re_rnd = \<lambda>k. F_Fin 0, re_now = \<lambda>k. k, re_later = \<lambda>k. k\<rparr> (\<lambda>e. e)
      (\<lambda>k. if k < 2 then Err ''refused'' else Ok ()) 0 (new_tracker 0 ''p'' (for_webrtc\<lparr>rc_max_attempts := 0\<rparr>)) = Some (Ok (), t) \<and>
    ct_total_attempts t = 5 \<and> ct_total_successes t = 1"
  using failures_counted_twice [of "for_webrtc\<lparr>rc_max_attempts := 0\<rparr>" 2 "\<lambda>k. if k < 2 then Err ''refused'' else Ok ()" "()"]
  by simp

section \<open>The manager as a service\<close>

datatype conn_call =
    CallGetOrCreate nat string
  | CallUpdateTracker connection_tracker
  | CallRecordSuccess nat string
  | CallRecordFailure "f64 \<Rightarrow> int \<Rightarrow> f64" f64 nat nat string string
  | CallRemove string

fun conn_call_step :: "connection_manager \<Rightarrow> conn_call \<Rightarrow> connection_manager" where
  "conn_call_step s (CallGetOrCreate now i) = snd (get_or_create now i s)"
| "conn_call_step s (CallUpdateTracker t) = update_tracker t s"
| "conn_call_step s (CallRecordSuccess now i) = manager_record_success now i s"
| "conn_call_step s (CallRecordFailure fpowi rnd now later i err) = manager_record_failure fpowi rnd now later i err s"
| "conn_call_step s (CallRemove i) = remove_connection i s"

fun call_connection :: "conn_call \<Rightarrow> string" where
  "call_connection (CallGetOrCreate now i) = i"
| "call_connection (CallUpdateTracker t) = ct_id t"
| "call_connection (CallRecordSuccess now i) = i"
| "call_connection (CallRecordFailure fpowi rnd now later i err) = i"
| "call_connection (CallRemove i) = i"

text \<open>The configuration of new trackers never changes, so a connection's entry and it make the state of a connection.\<close>

definition conn_entry :: "connection_manager \<Rightarrow> string \<Rightarrow> retry_config \<times> connection_tracker option" where
  "conn_entry s i = (cmg_default_config s, cmg_connections s i)"

fun conn_entry_step :: "retry_config \<times> connection_tracker option \<Rightarrow> conn_call \<Rightarrow> retry_config \<times> connection_tracker option" where
  "conn_entry_step (cfg, e) (CallGetOrCreate now i) = (cfg, case e of Some t \<Rightarrow> Some t | None \<Rightarrow> Some (new_tracker now i cfg))"
| "conn_entry_step (cfg, e) (CallUpdateTracker t) = (cfg, Some t)"
| "conn_entry_step (cfg, e) (CallRecordSuccess now i) = (cfg, map_option (record_success now) e)"
| "conn_entry_step (cfg, e) (CallRecordFailure fpowi rnd now later i err) = (cfg, map_option (record_failure fpowi rnd now later err) e)"
| "conn_entry_step (cfg, e) (CallRemove i) = (cfg, None)"

lemmas conn_call_defs = get_or_create_def get_or_create_insert_def update_tracker_def manager_record_success_def
  manager_record_failure_def remove_connection_def conn_entry_def hm_remove_def Let_def

interpretation conns: keyed_service conn_call_step call_connection conn_entry conn_entry_step
proof
  show "conn_entry (conn_call_step s c) (call_connection c) = conn_entry_step (conn_entry s (call_connection c)) c" for s c
    by (cases c) (auto simp: conn_call_defs split: option.split)
  show "conn_entry (conn_call_step s c) k = conn_entry s k" if "k \<noteq> call_connection c" for k s c
    using that by (cases c) (auto simp: conn_call_defs split: option.split)
qed

text \<open>
  Looking a connection up and creating it are two critical sections, so another task can run in
  between. If it creates the connection and records a failure, the insertion that follows
  replaces the tracker by a fresh one: the failure is forgotten and the back-off is gone.
\<close>

theorem get_or_create_race:
  assumes "cmg_connections s i = None" "should_retry (cmg_default_config s) 1"
  shows "let other = manager_record_failure fpowi rnd now later i err (snd (get_or_create now i s));
             final = snd (get_or_create_insert now' i other)
         in \<exists>t t'. cmg_connections other i = Some t \<and> ct_consecutive_failures t = 1 \<and> ct_state t = BackingOff \<and>
              ct_last_error t = Some err \<and>
              cmg_connections final i = Some t' \<and> ct_consecutive_failures t' = 0 \<and> is_ready_to_retry now' t'"
  using assms
  by (auto simp: get_or_create_def get_or_create_insert_def manager_record_failure_def record_failure_def new_tracker_def
      Let_def wadd32_def is_ready_to_retry_def)

theorem get_or_create_race_witness:
  "\<exists>t. cmg_connections (snd (get_or_create_insert 9 ''p''
      (manager_record_failure (\<lambda>b e. b) (F_Fin 0) 7 8 ''p'' ''refused'' (snd (get_or_create 7 ''p'' (new_connection_manager for_webrtc))))))
      ''p'' = Some t \<and> ct_consecutive_failures t = 0"
  using get_or_create_race [of "new_connection_manager for_webrtc" "''p''" "\<lambda>b e. b" "F_Fin 0" 7 8 "''refused''" 9]
  by (auto simp: Let_def new_connection_manager_def should_retry_def for_webrtc_def)

end
