(* ===== verification/Text.thy ===== *)
theory Text
  imports Prelude
begin

text \<open>
  The parts of Rust's string and byte handling the components use. A \<open>String\<close>, a \<open>&str\<close> and
  a byte buffer are all \<open>string\<close>: a list of \<open>char\<close>, which in HOL is a byte. Here are ASCII
  case folding, hexadecimal encoding, splitting at a separator, prefixes and suffixes, and
  the parser and printer of decimal \<open>u64\<close> numbers, with the laws the components use: the
  hexadecimal encoding is injective and unaffected by case folding, splitting undoes
  joining, and parsing undoes printing.
\<close>

type_synonym bytes = string

section \<open>ASCII case\<close>

definition ascii_lower :: "char \<Rightarrow> char" where
  "ascii_lower c = (let n = (of_char c :: nat) in if 65 \<le> n \<and> n \<le> 90 then char_of (n + 32) else c)"

definition to_ascii_lowercase :: "string \<Rightarrow> string" where
  "to_ascii_lowercase s = map ascii_lower s"

definition eq_ignore_ascii_case :: "string \<Rightarrow> string \<Rightarrow> bool" where
  "eq_ignore_ascii_case a b = (to_ascii_lowercase a = to_ascii_lowercase b)"

lemma eq_ignore_ascii_case_refl [simp]: "eq_ignore_ascii_case a a"
  by (simp add: eq_ignore_ascii_case_def)

section \<open>Hexadecimal\<close>

definition hex_digit :: "nat \<Rightarrow> char" where
  "hex_digit n = ''0123456789abcdef'' ! n"

fun hex_encode :: "bytes \<Rightarrow> string" where
  "hex_encode [] = []"
| "hex_encode (b # bs) = hex_digit (of_char b div 16) # hex_digit (of_char b mod 16) # hex_encode bs"

lemma less_16_cases: "n < (16 :: nat) \<Longrightarrow> n \<in> set [0, 1, 2, 3, 4, 5, 6, 7, 8, 9, 10, 11, 12, 13, 14, 15]"
  by (simp, presburger)

lemma hex_digit_inj:
  assumes "m < 16" "n < 16" "hex_digit m = hex_digit n"
  shows "m = n"
proof -
  have "distinct ''0123456789abcdef''" by simp
  moreover have "length ''0123456789abcdef'' = 16" by simp
  ultimately show ?thesis using assms unfolding hex_digit_def by (metis nth_eq_iff_index_eq)
qed

lemma ascii_lower_hex_digit: "n < 16 \<Longrightarrow> ascii_lower (hex_digit n) = hex_digit n"
  by (drule less_16_cases) (auto simp: hex_digit_def ascii_lower_def)

lemma of_char_lt_256: "(of_char c :: nat) < 256"
  by (rule nat_of_char_less_256)

lemma hex_encode_lower [simp]: "to_ascii_lowercase (hex_encode bs) = hex_encode bs"
proof (induction bs)
  case (Cons b bs)
  have "(of_char b :: nat) div 16 < 16" "(of_char b :: nat) mod 16 < 16"
    using of_char_lt_256 [of b] by (simp_all add: less_mult_imp_div_less)
  with Cons show ?case by (simp add: to_ascii_lowercase_def ascii_lower_hex_digit)
qed (simp add: to_ascii_lowercase_def)

lemma hex_encode_inj: "hex_encode as = hex_encode bs \<Longrightarrow> as = bs"
proof (induction as arbitrary: bs)
  case Nil
  then show ?case by (cases bs) auto
next
  case (Cons a as)
  then obtain b bs' where bs: "bs = b # bs'" by (cases bs) auto
  have lt: "(of_char c :: nat) div 16 < 16" "(of_char c :: nat) mod 16 < 16" for c
    using of_char_lt_256 [of c] by (simp_all add: less_mult_imp_div_less)
  from Cons.prems bs have eq: "hex_digit (of_char a div 16) = hex_digit (of_char b div 16)"
    "hex_digit (of_char a mod 16) = hex_digit (of_char b mod 16)" and rest: "hex_encode as = hex_encode bs'"
    by auto
  from eq have "(of_char a :: nat) div 16 = of_char b div 16" "(of_char a :: nat) mod 16 = of_char b mod 16"
    using hex_digit_inj [OF lt(1) lt(1)] hex_digit_inj [OF lt(2) lt(2)] by blast+
  then have "(of_char a :: nat) = of_char b" by (metis div_mult_mod_eq)
  then have "a = b" by simp
  with Cons.IH [OF rest] bs show ?case by simp
qed

lemma hex_digit_chars: "n < 16 \<Longrightarrow> hex_digit n \<in> set ''0123456789abcdef''"
  unfolding hex_digit_def by (rule nth_mem) simp

lemma hex_encode_chars: "set (hex_encode bs) \<subseteq> set ''0123456789abcdef''"
proof (induction bs)
  case (Cons b bs)
  have "(of_char b :: nat) div 16 < 16" "(of_char b :: nat) mod 16 < 16"
    using of_char_lt_256 [of b] by (simp_all add: less_mult_imp_div_less)
  from this [THEN hex_digit_chars] Cons show ?case by simp
qed simp

lemma hex_encode_digits: "c \<in> set (hex_encode bs) \<Longrightarrow> c \<in> set ''0123456789abcdef''"
  using hex_encode_chars [of bs] by blast

lemma hex_no_dot: "CHR ''.'' \<notin> set (hex_encode b)" and hex_no_slash: "CHR ''/'' \<notin> set (hex_encode b)"
  by (auto dest: hex_encode_digits)

lemma eq_ignore_hex: "eq_ignore_ascii_case (hex_encode as) (hex_encode bs) \<longleftrightarrow> as = bs"
  by (auto simp: eq_ignore_ascii_case_def dest: hex_encode_inj)

lemma eq_ignore_hex_lower:
  "eq_ignore_ascii_case (hex_encode as) s \<longleftrightarrow> to_ascii_lowercase s = hex_encode as"
  by (auto simp: eq_ignore_ascii_case_def)

text \<open>Decoding accepts digits of either case and rejects an odd length.\<close>

definition hex_value :: "char \<Rightarrow> nat option" where
  "hex_value c = (let n = (of_char c :: nat) in
     if 48 \<le> n \<and> n \<le> 57 then Some (n - 48)
     else if 97 \<le> n \<and> n \<le> 102 then Some (n - 87)
     else if 65 \<le> n \<and> n \<le> 70 then Some (n - 55) else None)"

fun hex_decode :: "string \<Rightarrow> bytes option" where
  "hex_decode [] = Some []"
| "hex_decode [c] = None"
| "hex_decode (c # d # cs) =
     (case (hex_value c, hex_value d, hex_decode cs) of
        (Some h, Some l, Some bs) \<Rightarrow> Some (char_of (16 * h + l) # bs)
      | _ \<Rightarrow> None)"

lemma hex_value_digit: "n < 16 \<Longrightarrow> hex_value (hex_digit n) = Some n"
  by (drule less_16_cases) (auto simp: hex_digit_def hex_value_def)

lemma hex_decode_encode [simp]: "hex_decode (hex_encode bs) = Some bs"
proof (induction bs)
  case (Cons b bs)
  have "(of_char b :: nat) div 16 < 16" "(of_char b :: nat) mod 16 < 16"
    using of_char_lt_256 [of b] by (simp_all add: less_mult_imp_div_less)
  moreover have "char_of (16 * ((of_char b :: nat) div 16) + of_char b mod 16) = b"
    by (metis char_of_char mult_div_mod_eq)
  ultimately show ?case using Cons by (simp add: hex_value_digit del: mult_div_mod_eq)
qed simp

lemma length_hex_encode [simp]: "length (hex_encode bs) = 2 * length bs"
  by (induction bs) auto

section \<open>Prefixes, suffixes and splitting\<close>

definition strip_prefix :: "string \<Rightarrow> string \<Rightarrow> string option" where
  "strip_prefix pre s = (if take (length pre) s = pre then Some (drop (length pre) s) else None)"

definition strip_suffix :: "string \<Rightarrow> string \<Rightarrow> string option" where
  "strip_suffix suf s = map_option rev (strip_prefix (rev suf) (rev s))"

definition starts_with :: "string \<Rightarrow> string \<Rightarrow> bool" where
  "starts_with pre s = (take (length pre) s = pre)"

definition ends_with :: "string \<Rightarrow> string \<Rightarrow> bool" where
  "ends_with suf s = (length suf \<le> length s \<and> drop (length s - length suf) s = suf)"

definition trim_end_matches :: "char set \<Rightarrow> string \<Rightarrow> string" where
  "trim_end_matches cs s = rev (dropWhile (\<lambda>c. c \<in> cs) (rev s))"

fun split_on :: "char \<Rightarrow> string \<Rightarrow> string list" where
  "split_on c [] = [[]]"
| "split_on c (x # xs) =
     (if x = c then [] # split_on c xs
      else case split_on c xs of [] \<Rightarrow> [[x]] | y # ys \<Rightarrow> (x # y) # ys)"

fun join_with :: "char \<Rightarrow> string list \<Rightarrow> string" where
  "join_with c [] = []"
| "join_with c [x] = x"
| "join_with c (x # y # ys) = x @ c # join_with c (y # ys)"

definition str_contains :: "string \<Rightarrow> string \<Rightarrow> bool" where
  "str_contains pat s = list_ex (\<lambda>i. take (length pat) (drop i s) = pat) [0 ..< Suc (length s)]"

text \<open>\<open>HeaderValue::to_str\<close>: visible ASCII characters, spaces and tabs only.\<close>

definition header_str :: "bytes \<Rightarrow> string option" where
  "header_str b = (if \<forall>c \<in> set b. (of_char c :: nat) = 9 \<or> (32 \<le> (of_char c :: nat) \<and> (of_char c :: nat) < 127) then Some b else None)"

text \<open>
  \<open>str::trim\<close>: the UTF-8 encodings of the characters with the property White_Space are dropped at both ends.
\<close>

definition ws_encodings :: "string list" where
  "ws_encodings = map (map char_of)
     ([[9], [10], [11], [12], [13], [32], [0xC2, 0x85], [0xC2, 0xA0], [0xE1, 0x9A, 0x80]] @
      map (\<lambda>n. [0xE2, 0x80, n]) [0x80 ..< 0x8B] @
      [[0xE2, 0x80, 0xA8], [0xE2, 0x80, 0xA9], [0xE2, 0x80, 0xAF], [0xE2, 0x81, 0x9F], [0xE3, 0x80, 0x80 :: nat]])"

primrec strip_many :: "string list \<Rightarrow> nat \<Rightarrow> string \<Rightarrow> string" where
  "strip_many ws 0 s = s"
| "strip_many ws (Suc n) s =
     (case find (\<lambda>w. take (length w) s = w) ws of Some w \<Rightarrow> strip_many ws n (drop (length w) s) | None \<Rightarrow> s)"

definition trim :: "string \<Rightarrow> string" where
  "trim s = (let t = strip_many ws_encodings (length s) s
             in rev (strip_many (map rev ws_encodings) (length t) (rev t)))"

definition trim_matches :: "char \<Rightarrow> string \<Rightarrow> string" where
  "trim_matches c s = rev (dropWhile (\<lambda>x. x = c) (rev (dropWhile (\<lambda>x. x = c) s)))"

text \<open>Nothing is dropped from a string without any of the bytes that occur in those encodings.\<close>

lemma strip_many_none: "(\<And>w. w \<in> set ws \<Longrightarrow> w \<noteq> [] \<and> hd w \<notin> set s) \<Longrightarrow> strip_many ws n s = s"
proof (cases n)
  case (Suc m)
  assume ws: "\<And>w. w \<in> set ws \<Longrightarrow> w \<noteq> [] \<and> hd w \<notin> set s"
  have "take (length w) s \<noteq> w" if "w \<in> set ws" for w
  proof
    assume "take (length w) s = w"
    then have "set w \<subseteq> set s" by (metis set_take_subset)
    with ws [OF that] show False by (meson hd_in_set subsetD)
  qed
  then have "find (\<lambda>w. take (length w) s = w) ws = None" by (auto simp: find_None_iff)
  with Suc show ?thesis by simp
qed simp

lemma trim_none: "(\<And>w. w \<in> set ws_encodings \<Longrightarrow> w \<noteq> [] \<and> set w \<inter> set s = {}) \<Longrightarrow> trim s = s"
proof -
  assume ws: "\<And>w. w \<in> set ws_encodings \<Longrightarrow> w \<noteq> [] \<and> set w \<inter> set s = {}"
  have 1: "strip_many ws_encodings n s = s" for n
    by (rule strip_many_none) (use ws in \<open>auto simp: disjoint_iff\<close>)
  have 2: "strip_many (map rev ws_encodings) n (rev s) = rev s" for n
    by (rule strip_many_none) (use ws in \<open>auto simp: disjoint_iff hd_rev\<close>)
  show ?thesis by (simp add: trim_def 1 2)
qed

text \<open>Trimming leaves nothing to trim.\<close>

lemma strip_many_done:
  assumes "[] \<notin> set ws" "length s \<le> n" "w \<in> set ws"
  shows "take (length w) (strip_many ws n s) \<noteq> w"
  using assms(2)
proof (induction n arbitrary: s)
  case 0
  then show ?case using assms(1,3) by auto
next
  case (Suc n)
  show ?case
  proof (cases "find (\<lambda>w. take (length w) s = w) ws")
    case None
    then have "strip_many ws (Suc n) s = s" by simp
    moreover have "take (length w) s \<noteq> w" using None assms(3) unfolding find_None_iff by blast
    ultimately show ?thesis by simp
  next
    case (Some v)
    then have "v \<in> set ws" "take (length v) s = v" by (auto simp: find_Some_iff)
    moreover have "v \<noteq> []" using assms(1) \<open>v \<in> set ws\<close> by auto
    ultimately have "0 < length v" "length v \<le> length s" by (auto, metis length_take min.cobounded1)
    then have "length (drop (length v) s) \<le> n" using Suc.prems unfolding length_drop by linarith
    from Suc.IH [OF this] Some show ?thesis by simp
  qed
qed

lemma strip_many_fixed:
  assumes "\<And>w. w \<in> set ws \<Longrightarrow> take (length w) s \<noteq> w"
  shows "strip_many ws n s = s"
proof (cases n)
  case (Suc m)
  have "find (\<lambda>w. take (length w) s = w) ws = None" using assms by (auto simp: find_None_iff)
  with Suc show ?thesis by simp
qed simp

lemma strip_many_suffix: "\<exists>pre. s = pre @ strip_many ws n s"
proof (induction n arbitrary: s)
  case (Suc n)
  show ?case
  proof (cases "find (\<lambda>w. take (length w) s = w) ws")
    case (Some v)
    then have "take (length v) s = v" by (auto simp: find_Some_iff)
    then have s: "s = v @ drop (length v) s" using append_take_drop_id [of "length v" s] by simp
    from Suc obtain pre where pre: "drop (length v) s = pre @ strip_many ws n (drop (length v) s)" by blast
    from Some have "strip_many ws (Suc n) s = strip_many ws n (drop (length v) s)" by simp
    with s pre have "s = (v @ pre) @ strip_many ws (Suc n) s" by simp
    then show ?thesis by blast
  qed simp
qed simp

lemma ws_encodings_bytes:
  "w \<in> set ws_encodings \<Longrightarrow> w \<noteq> [] \<and> (\<forall>c \<in> set w. (of_char c :: nat) \<le> 32 \<or> 128 \<le> (of_char c :: nat))"
  by (auto simp: ws_encodings_def)

lemma trim_visible: "(\<And>c. c \<in> set s \<Longrightarrow> 32 < (of_char c :: nat) \<and> (of_char c :: nat) < 128) \<Longrightarrow> trim s = s"
proof (rule trim_none)
  fix w assume vis: "\<And>c. c \<in> set s \<Longrightarrow> 32 < (of_char c :: nat) \<and> (of_char c :: nat) < 128" and w: "w \<in> set ws_encodings"
  have "c \<notin> set s" if "c \<in> set w" for c using ws_encodings_bytes [OF w] that vis [of c] by fastforce
  then show "w \<noteq> [] \<and> set w \<inter> set s = {}" using ws_encodings_bytes [OF w] by blast
qed

lemma take_prefix_of: "take (length w) a = w \<Longrightarrow> take (length w) (a @ b) = w"
  using append_take_drop_id [of "length w" a] by (metis append.assoc append_eq_conv_conj)

lemma trim_trim [simp]: "trim (trim s) = trim s"
proof -
  define t where "t = strip_many ws_encodings (length s) s"
  define u where "u = strip_many (map rev ws_encodings) (length t) (rev t)"
  have ne: "[] \<notin> set ws_encodings" "[] \<notin> set (map rev ws_encodings)" by (auto simp: ws_encodings_def)
  have ts: "trim s = rev u" by (simp add: trim_def Let_def t_def u_def)
  from strip_many_suffix [of "rev t" "map rev ws_encodings" "length t"] obtain pre where "rev t = pre @ u" unfolding u_def by blast
  then have "rev (rev t) = rev u @ rev pre" by simp
  then have tu: "t = rev u @ rev pre" by simp
  have "take (length w) (rev u) \<noteq> w" if w: "w \<in> set ws_encodings" for w
    using strip_many_done [OF ne(1) order_refl w, of s] take_prefix_of [of w "rev u" "rev pre"] tu unfolding t_def by metis
  then have 1: "strip_many ws_encodings n (rev u) = rev u" for n by (rule strip_many_fixed)
  have "take (length w) u \<noteq> w" if "w \<in> set (map rev ws_encodings)" for w
    unfolding u_def by (rule strip_many_done [OF ne(2) _ that]) simp
  then have 2: "strip_many (map rev ws_encodings) n u = u" for n by (rule strip_many_fixed)
  show ?thesis unfolding ts trim_def [of "rev u"] Let_def 1 by (simp add: 2)
qed

lemma strip_prefix_append [simp]: "strip_prefix pre (pre @ s) = Some s"
  by (simp add: strip_prefix_def)

lemma starts_with_append [simp]: "starts_with pre (pre @ s)"
  by (simp add: starts_with_def)

lemma ends_with_append [simp]: "ends_with suf (s @ suf)"
  by (simp add: ends_with_def)

lemma split_on_nonempty [simp]: "split_on c s \<noteq> []"
  by (induction s) (auto split: list.splits)

lemma split_on_none: "c \<notin> set s \<Longrightarrow> split_on c s = [s]"
  by (induction s) auto

lemma split_on_append: "c \<notin> set x \<Longrightarrow> split_on c (x @ c # s) = x # split_on c s"
  by (induction x) auto

lemma split_join:
  assumes "xs \<noteq> []" and "\<And>x. x \<in> set xs \<Longrightarrow> c \<notin> set x"
  shows "split_on c (join_with c xs) = xs"
  using assms
proof (induction c xs rule: join_with.induct)
  case (3 c x y ys)
  then show ?case by (simp add: split_on_append)
qed (auto simp: split_on_none)

section \<open>Big-endian integers\<close>

text \<open>\<open>to_be_bytes\<close> of an integer of \<open>k\<close> bytes, and \<open>from_be_bytes\<close>.\<close>

fun be_bytes :: "nat \<Rightarrow> nat \<Rightarrow> bytes" where
  "be_bytes 0 n = []"
| "be_bytes (Suc k) n = be_bytes k (n div 256) @ [char_of (n mod 256)]"

definition be_value :: "bytes \<Rightarrow> nat" where
  "be_value bs = foldl (\<lambda>a c. 256 * a + of_char c) 0 bs"

lemma length_be_bytes [simp]: "length (be_bytes k n) = k"
  by (induction k n rule: be_bytes.induct) auto

lemma be_value_bytes: "be_value (be_bytes k n) = n mod 256 ^ k"
proof (induction k n rule: be_bytes.induct)
  case (2 k n)
  have "256 * (n div 256 mod 256 ^ k) + n mod 256 = n mod (256 * 256 ^ k)"
    by (simp add: mod_mult2_eq)
  with 2 show ?case by (simp add: be_value_def)
qed (simp add: be_value_def)

lemma be_bytes_inj: "m < 256 ^ k \<Longrightarrow> n < 256 ^ k \<Longrightarrow> be_bytes k m = be_bytes k n \<Longrightarrow> m = n"
  by (metis be_value_bytes mod_less)

section \<open>UTF-8\<close>

text \<open>\<open>String::from_utf8\<close> accepts exactly the well-formed sequences of the Unicode standard.\<close>

definition utf8_cont :: "char \<Rightarrow> bool" where
  "utf8_cont c = (let n = (of_char c :: nat) in 128 \<le> n \<and> n < 192)"

fun utf8_valid :: "bytes \<Rightarrow> bool" where
  "utf8_valid [] = True"
| "utf8_valid (a # s) =
     (let x = (of_char a :: nat) in
      if x < 128 then utf8_valid s
      else case s of
        [] \<Rightarrow> False
      | b # s2 \<Rightarrow> (let y = (of_char b :: nat) in
          if 194 \<le> x \<and> x < 224 then utf8_cont b \<and> utf8_valid s2
          else case s2 of
            [] \<Rightarrow> False
          | c # s3 \<Rightarrow>
              if 224 \<le> x \<and> x < 240
              then utf8_cont b \<and> (x = 224 \<longrightarrow> 160 \<le> y) \<and> (x = 237 \<longrightarrow> y < 160) \<and> utf8_cont c \<and> utf8_valid s3
              else case s3 of
                [] \<Rightarrow> False
              | d # s4 \<Rightarrow> 240 \<le> x \<and> x < 245 \<and> utf8_cont b \<and> (x = 240 \<longrightarrow> 144 \<le> y) \<and> (x = 244 \<longrightarrow> y < 144)
                  \<and> utf8_cont c \<and> utf8_cont d \<and> utf8_valid s4))"

lemma utf8_valid_ascii: "(\<And>c. c \<in> set s \<Longrightarrow> (of_char c :: nat) < 128) \<Longrightarrow> utf8_valid s"
  by (induction s) auto

section \<open>Decimal numbers\<close>

definition digit_char :: "nat \<Rightarrow> char" where
  "digit_char n = ''0123456789'' ! n"

definition digit_value :: "char \<Rightarrow> nat option" where
  "digit_value c = (let n = (of_char c :: nat) in if 48 \<le> n \<and> n \<le> 57 then Some (n - 48) else None)"

fun show_nat :: "nat \<Rightarrow> string" where
  "show_nat n = (if n < 10 then [digit_char n] else show_nat (n div 10) @ [digit_char (n mod 10)])"

declare show_nat.simps [simp del]

text \<open>Digits are folded left to right; a value beyond \<open>u64::MAX\<close> is an error wherever it appears.\<close>

fun parse_digits :: "nat \<Rightarrow> string \<Rightarrow> nat option" where
  "parse_digits acc [] = Some acc"
| "parse_digits acc (c # cs) =
     (case digit_value c of
        None \<Rightarrow> None
      | Some d \<Rightarrow> if 10 * acc + d \<le> u64_max then parse_digits (10 * acc + d) cs else None)"

definition parse_u64 :: "string \<Rightarrow> u64 option" where
  "parse_u64 s = (let t = (case s of c # cs \<Rightarrow> if c = CHR ''+'' then cs else s | [] \<Rightarrow> [])
     in if t = [] then None else parse_digits 0 t)"

definition parse_u32 :: "string \<Rightarrow> u32 option" where
  "parse_u32 s = (case parse_u64 s of None \<Rightarrow> None | Some n \<Rightarrow> if n < 2 ^ 32 then Some n else None)"

lemma less_10_cases: "n < (10 :: nat) \<Longrightarrow> n \<in> set [0, 1, 2, 3, 4, 5, 6, 7, 8, 9]"
  by (simp, presburger)

lemma digit_value_char [simp]: "d < 10 \<Longrightarrow> digit_value (digit_char d) = Some d"
  by (drule less_10_cases) (auto simp: digit_value_def digit_char_def)

lemma parse_digits_append:
  "parse_digits acc (xs @ ys) = (case parse_digits acc xs of None \<Rightarrow> None | Some a \<Rightarrow> parse_digits a ys)"
  by (induction acc xs rule: parse_digits.induct) (auto split: option.splits)

lemma parse_show_digits: "n \<le> u64_max \<Longrightarrow> parse_digits 0 (show_nat n) = Some n"
proof (induction n rule: less_induct)
  case (less n)
  show ?case
  proof (cases "n < 10")
    case True
    then show ?thesis using less.prems by (simp add: show_nat.simps [of n])
  next
    case False
    then have "parse_digits 0 (show_nat (n div 10)) = Some (n div 10)"
      using less.prems by (intro less.IH) auto
    with False less.prems show ?thesis
      by (simp add: show_nat.simps [of n] parse_digits_append)
  qed
qed

lemma show_nat_digits: "c \<in> set (show_nat n) \<Longrightarrow> \<exists>d < 10. c = digit_char d"
proof (induction n rule: show_nat.induct)
  case (1 n)
  show ?case
  proof (cases "n < 10")
    case True
    with 1 show ?thesis by (auto simp: show_nat.simps [of n])
  next
    case False
    with 1 show ?thesis by (auto simp: show_nat.simps [of n] intro: exI [of _ "n mod 10"])
  qed
qed

lemma show_nat_ne [simp]: "show_nat n \<noteq> []"
  by (simp add: show_nat.simps [of n])

lemma digit_char_range: "d < 10 \<Longrightarrow> digit_char d \<in> set ''0123456789''"
  unfolding digit_char_def by (rule nth_mem) simp

lemma show_nat_chars: "set (show_nat n) \<subseteq> set ''0123456789''"
  using show_nat_digits digit_char_range by blast

lemma parse_show_u64: "n \<le> u64_max \<Longrightarrow> parse_u64 (show_nat n) = Some n"
proof -
  assume n: "n \<le> u64_max"
  have "hd (show_nat n) \<in> set ''0123456789''"
    using show_nat_chars by (meson hd_in_set show_nat_ne subset_iff)
  then have "hd (show_nat n) \<noteq> CHR ''+''" by auto
  then have "parse_u64 (show_nat n) = parse_digits 0 (show_nat n)"
    by (auto simp: parse_u64_def split: list.splits)
  with parse_show_digits [OF n] show ?thesis by simp
qed

end
