(* ===== verification/FileSystem.thy ===== *)
theory FileSystem
  imports Text
begin

text \<open>
  The parts of \<open>std::path\<close> and of the file system (\<open>std::fs\<close>, \<open>tokio::fs\<close>) the components
  use. A disk maps paths to the contents of regular files. Every system call may fail: an
  \<open>io_env\<close> says which calls do, and what a failed \<open>fs::write\<close> leaves behind (the file could
  not be opened, or it was truncated and a prefix was written), so that an operation is
  proved correct whichever of its calls fail.

  A path is its list of components, as \<open>Path::components\<close> yields them: a leading \<open>/\<close> is the
  component ''/'', empty components and the component ''.'' are dropped.
\<close>

section \<open>Paths\<close>

type_synonym path = "string list"

definition path_of_string :: "string \<Rightarrow> path" where
  "path_of_string s =
     (if starts_with ''/'' s then [''/''] else []) @ filter (\<lambda>c. c \<noteq> [] \<and> c \<noteq> ''.'') (split_on (CHR ''/'') s)"

definition file_name :: "path \<Rightarrow> string option" where
  "file_name p = (if p = [] \<or> last p = ''/'' \<or> last p = ''..'' then None else Some (last p))"

definition parent :: "path \<Rightarrow> path option" where
  "parent p = (if p = [] \<or> last p = ''/'' then None else Some (butlast p))"

definition with_file_name :: "path \<Rightarrow> string \<Rightarrow> path" where
  "with_file_name p n = (case file_name p of None \<Rightarrow> p | Some _ \<Rightarrow> butlast p) @ [n]"

text \<open>\<open>rsplit_file_at_dot\<close>: the stem ends before the last dot, unless that dot comes first.\<close>

definition file_stem :: "string \<Rightarrow> string" where
  "file_stem n = (let pre = rev (drop 1 (dropWhile (\<lambda>c. c \<noteq> CHR ''.'') (rev n)))
     in if CHR ''.'' \<notin> set n \<or> pre = [] then n else pre)"

definition with_extension :: "path \<Rightarrow> string \<Rightarrow> path" where
  "with_extension p e = (case file_name p of None \<Rightarrow> p | Some n \<Rightarrow> butlast p @ [file_stem n @ ''.'' @ e])"

definition path_join :: "path \<Rightarrow> string \<Rightarrow> path" where
  "path_join p s = (if starts_with ''/'' s then path_of_string s else p @ path_of_string s)"

definition file_extension :: "string \<Rightarrow> string option" where
  "file_extension n = (if CHR ''.'' \<notin> set n \<or> file_stem n = n then None else Some (rev (takeWhile (\<lambda>c. c \<noteq> CHR ''.'') (rev n))))"

text \<open>The text of a path: its components joined with slashes.\<close>

definition path_to_string :: "path \<Rightarrow> string" where
  "path_to_string p = (if p \<noteq> [] \<and> hd p = ''/'' then ''/'' @ join_with (CHR ''/'') (tl p) else join_with (CHR ''/'') p)"

lemma file_stem_append:
  "CHR ''.'' \<notin> set e \<Longrightarrow> n \<noteq> [] \<Longrightarrow> file_stem (n @ CHR ''.'' # e) = n"
proof -
  assume "CHR ''.'' \<notin> set e" "n \<noteq> []"
  then have "dropWhile (\<lambda>c. c \<noteq> CHR ''.'') (rev e @ CHR ''.'' # rev n) = CHR ''.'' # rev n"
    by (subst dropWhile_append2) auto
  with \<open>n \<noteq> []\<close> show ?thesis by (simp add: file_stem_def)
qed

lemma path_join_simple:
  assumes "CHR ''/'' \<notin> set n" and "n \<noteq> []" and "n \<noteq> ''.''"
  shows "path_join p n = p @ [n]"
  using assms by (cases n) (auto simp: path_join_def path_of_string_def starts_with_def split_on_none)

section \<open>System calls\<close>

type_synonym disk = "path \<rightharpoonup> bytes"

datatype io_op =
    IoStat path
  | IoMkdir path
  | IoOpen path
  | IoLock path
  | IoSeek path u64
  | IoSetLen path u64
  | IoRead path
  | IoWrite path
  | IoFlush path
  | IoRename path path
  | IoRemove path
  | IoReadDir path
  | IoSpace path

datatype io_error = NotFound | OtherIo io_op

record io_env =
  io_fails :: "io_op \<Rightarrow> bool"
  io_short :: "path \<Rightarrow> nat option"

definition no_faults :: io_env where
  "no_faults = \<lparr>io_fails = (\<lambda>_. False), io_short = (\<lambda>_. None)\<rparr>"

lemma no_faults_simps [simp]: "\<not> io_fails no_faults op"
  by (simp add: no_faults_def)

definition fs_exists :: "io_env \<Rightarrow> path \<Rightarrow> disk \<Rightarrow> bool" where
  "fs_exists env p d = (d p \<noteq> None \<and> \<not> io_fails env (IoStat p))"

definition fs_mkdir :: "io_env \<Rightarrow> path \<Rightarrow> (io_error, unit) result" where
  "fs_mkdir env p = (if io_fails env (IoMkdir p) then Err (OtherIo (IoMkdir p)) else Ok ())"

definition fs_read :: "io_env \<Rightarrow> path \<Rightarrow> disk \<Rightarrow> (io_error, bytes) result" where
  "fs_read env p d = (case d p of
     None \<Rightarrow> Err NotFound
   | Some b \<Rightarrow> if io_fails env (IoRead p) then Err (OtherIo (IoRead p)) else Ok b)"

definition fs_write :: "io_env \<Rightarrow> path \<Rightarrow> bytes \<Rightarrow> disk \<Rightarrow> (io_error, unit) result \<times> disk" where
  "fs_write env p b d =
     (if io_fails env (IoWrite p)
      then (Err (OtherIo (IoWrite p)), case io_short env p of None \<Rightarrow> d | Some n \<Rightarrow> d(p \<mapsto> take n b))
      else (Ok (), d(p \<mapsto> b)))"

definition fs_rename :: "io_env \<Rightarrow> path \<Rightarrow> path \<Rightarrow> disk \<Rightarrow> (io_error, unit) result \<times> disk" where
  "fs_rename env p q d = (case d p of
     None \<Rightarrow> (Err NotFound, d)
   | Some b \<Rightarrow> if io_fails env (IoRename p q) then (Err (OtherIo (IoRename p q)), d)
               else (Ok (), (d(p := None))(q \<mapsto> b)))"

definition fs_remove :: "io_env \<Rightarrow> path \<Rightarrow> disk \<Rightarrow> (io_error, unit) result \<times> disk" where
  "fs_remove env p d = (case d p of
     None \<Rightarrow> (Err NotFound, d)
   | Some b \<Rightarrow> if io_fails env (IoRemove p) then (Err (OtherIo (IoRemove p)), d)
               else (Ok (), d(p := None)))"

definition fs_len :: "io_env \<Rightarrow> path \<Rightarrow> disk \<Rightarrow> (io_error, u64) result" where
  "fs_len io p d = (case d p of None \<Rightarrow> Err NotFound
     | Some b \<Rightarrow> if io_fails io (IoStat p) then Err (OtherIo (IoStat p)) else Ok (length b))"

lemma fs_write_other: "q \<noteq> p \<Longrightarrow> snd (fs_write env p b d) q = d q"
  by (auto simp: fs_write_def split: option.splits)

lemma fs_rename_other: "r \<noteq> p \<Longrightarrow> r \<noteq> q \<Longrightarrow> snd (fs_rename env p q d) r = d r"
  by (auto simp: fs_rename_def split: option.splits)

lemma fs_remove_other: "q \<noteq> p \<Longrightarrow> snd (fs_remove env p d) q = d q"
  by (auto simp: fs_remove_def split: option.splits)

text \<open>
  Writing a file and renaming it into place: whatever fails, the destination holds either
  what it held before or all of the new content, and it holds the new content exactly when
  both calls report success.
\<close>

definition write_rename :: "io_env \<Rightarrow> path \<Rightarrow> path \<Rightarrow> bytes \<Rightarrow> disk \<Rightarrow> (io_error, unit) result \<times> disk" where
  "write_rename env tmp dst b d =
     (case fs_write env tmp b d of
        (Inl e, d1) \<Rightarrow> (Err e, d1)
      | (Inr _, d1) \<Rightarrow> fs_rename env tmp dst d1)"

lemma write_rename_ok:
  "tmp \<noteq> dst \<Longrightarrow> write_rename env tmp dst b d = (Ok u, d') \<Longrightarrow> d' = (d(tmp := None))(dst \<mapsto> b)"
  by (auto simp: write_rename_def fs_write_def fs_rename_def split: if_splits option.splits)

lemma write_rename_err:
  "tmp \<noteq> dst \<Longrightarrow> write_rename env tmp dst b d = (Err e, d') \<Longrightarrow> q \<noteq> tmp \<Longrightarrow> d' q = d q"
  by (auto simp: write_rename_def fs_write_def fs_rename_def split: if_splits option.splits)

lemma write_rename_other:
  assumes "tmp \<noteq> dst" "q \<noteq> tmp" "q \<noteq> dst"
  shows "snd (write_rename env tmp dst b d) q = d q"
  using assms by (auto simp: write_rename_def fs_write_def fs_rename_def split: if_splits option.splits)

section \<open>Positioned reads and writes\<close>

text \<open>
  Writing at an offset beyond the end leaves a hole that reads as zero bytes; writing no bytes
  changes nothing.
\<close>

definition write_at :: "nat \<Rightarrow> bytes \<Rightarrow> bytes \<Rightarrow> bytes" where
  "write_at off b c =
     (if b = [] then c
      else take off (c @ replicate (off - length c) (CHR 0x00)) @ b @ drop (off + length b) c)"

text \<open>\<open>write_all\<close> at a position of an open file; a failed call may have written a prefix.\<close>

definition write_all_at :: "io_env \<Rightarrow> path \<Rightarrow> u64 \<Rightarrow> bytes \<Rightarrow> disk \<Rightarrow> bool \<times> disk" where
  "write_all_at env p off b d =
     (let c = (case d p of Some c \<Rightarrow> c | None \<Rightarrow> []) in
      if io_fails env (IoWrite p)
      then (False, case io_short env p of None \<Rightarrow> d | Some n \<Rightarrow> d(p \<mapsto> write_at off (take n b) c))
      else (True, d(p \<mapsto> write_at off b c)))"

text \<open>\<open>fs::read_to_string\<close> also fails on a file that is not UTF-8.\<close>

definition fs_read_to_string :: "io_env \<Rightarrow> path \<Rightarrow> disk \<Rightarrow> (io_error, string) result" where
  "fs_read_to_string env p d =
     rbind (fs_read env p d) (\<lambda>b. if utf8_valid b then Ok b else Err (OtherIo (IoRead p)))"

definition read_exact :: "nat \<Rightarrow> nat \<Rightarrow> bytes \<Rightarrow> bytes option" where
  "read_exact off n c = (if off + n \<le> length c then Some (take n (drop off c)) else None)"

lemma length_write_at: "length (write_at off b c) = (if b = [] then length c else max (length c) (off + length b))"
  by (auto simp: write_at_def)

lemma nth_write_at:
  assumes "b \<noteq> []" and "i < max (length c) (off + length b)"
  shows "write_at off b c ! i =
    (if off \<le> i \<and> i < off + length b then b ! (i - off) else if i < length c then c ! i else CHR 0x00)"
  using assms by (auto simp: write_at_def nth_append min_def)

lemma nth_write_at_other:
  assumes "i < length c" and "i < off \<or> off + length b \<le> i"
  shows "write_at off b c ! i = c ! i"
proof (cases "b = []")
  case True
  then show ?thesis by (simp add: write_at_def)
next
  case False
  with assms show ?thesis by (auto simp: nth_write_at)
qed

lemma read_exact_Some: "read_exact off n c = Some b \<longleftrightarrow> off + n \<le> length c \<and> b = take n (drop off c)"
  by (auto simp: read_exact_def)

lemma read_own_write: "read_exact off (length b) (write_at off b c) = Some b \<or> (b = [] \<and> length c < off)"
proof (cases "b = []")
  case True
  then show ?thesis by (auto simp: read_exact_def write_at_def)
next
  case False
  have "off + length b \<le> length (write_at off b c)" using False by (simp add: length_write_at)
  moreover have "take (length b) (drop off (write_at off b c)) = b"
    using False by (auto simp: write_at_def min_def)
  ultimately show ?thesis by (simp add: read_exact_def)
qed

text \<open>A write leaves every region it does not overlap as it was.\<close>

lemma read_other_write:
  assumes "read_exact off n c = Some x" and "off + n \<le> off' \<or> off' + length b \<le> off"
  shows "read_exact off n (write_at off' b c) = Some x"
proof -
  from assms(1) have len: "off + n \<le> length c" and x: "x = take n (drop off c)"
    by (auto simp: read_exact_Some)
  have "length c \<le> length (write_at off' b c)" by (simp add: length_write_at)
  with len have len': "off + n \<le> length (write_at off' b c)" by simp
  have "take n (drop off (write_at off' b c)) = take n (drop off c)"
  proof (rule nth_equalityI)
    fix i assume "i < length (take n (drop off (write_at off' b c)))"
    then have i: "i < n" by simp
    with len len' assms(2) show "take n (drop off (write_at off' b c)) ! i = take n (drop off c) ! i"
      by (auto simp: nth_write_at_other)
  qed (use len len' in simp)
  with len' x show ?thesis by (simp add: read_exact_def)
qed

text \<open>Writes to regions that do not overlap commute.\<close>

lemma write_at_commute:
  assumes "off + length b \<le> off' \<or> off' + length b' \<le> off"
  shows "write_at off b (write_at off' b' c) = write_at off' b' (write_at off b c)"
proof (cases "b = [] \<or> b' = []")
  case True
  then show ?thesis by (auto simp: write_at_def)
next
  case False
  show ?thesis
  proof (rule nth_equalityI)
    fix i assume "i < length (write_at off b (write_at off' b' c))"
    with False have i: "i < max (length c) (max (off + length b) (off' + length b'))"
      by (auto simp: length_write_at)
    with False assms show "write_at off b (write_at off' b' c) ! i = write_at off' b' (write_at off b c) ! i"
      by (auto simp: nth_write_at length_write_at)
  qed (use False in \<open>auto simp: length_write_at\<close>)
qed

end
