(* ===== verification/PeerCache.thy ===== *)
theory PeerCache
  imports F64 Interfaces FileSystem "HOL-Library.Sublist"
begin

text \<open>
  The list of peers kept across restarts: \<^verbatim>\<open>src-tauri/src/peer_cache.rs\<close>. Serialisation by
  \<open>serde_json\<close> is a pair of parameters; the system calls may fail (theory \<open>FileSystem\<close>). Rust
  leaves the outcome of \<open>sort_by\<close> open when the comparison is not a total order, which happens when
  a score is a NaN; the statements about the order exclude it.

  Shown: sorting and limiting keeps at most a hundred peers, the best ones, in order and
  stably; a saved cache is loaded back as it was, and a save that fails leaves the file that is
  loaded untouched; the average of the scores of the unit interval lies in it.
\<close>

section \<open>Entries\<close>

definition CACHE_VERSION :: u32 where "CACHE_VERSION = 1"
definition MAX_CACHED_PEERS :: usize where "MAX_CACHED_PEERS = 100"
definition MAX_PEER_AGE_SECS :: u64 where "MAX_PEER_AGE_SECS = 7 * 24 * 60 * 60"

record peer_cache_entry =
  pc_peer_id :: string
  pc_addresses :: "string list"
  pc_last_seen :: u64
  pc_connection_count :: u32
  pc_successful_transfers :: u32
  pc_failed_transfers :: u32
  pc_total_bytes_transferred :: u64
  pc_average_latency_ms :: u32
  pc_is_bootstrap :: bool
  pc_supports_relay :: bool
  pc_reliability_score :: f64

definition from_metrics ::
  "string \<Rightarrow> string \<Rightarrow> u32 \<Rightarrow> u32 \<Rightarrow> u32 \<Rightarrow> u64 \<Rightarrow> u64 option \<Rightarrow> f64 \<Rightarrow> u64 \<Rightarrow> bool \<Rightarrow> bool \<Rightarrow> peer_cache_entry" where
  "from_metrics peer_id address connection_count successful failed total_bytes average_latency score last_seen is_bootstrap supports_relay =
     \<lparr>pc_peer_id = peer_id, pc_addresses = [address], pc_last_seen = last_seen, pc_connection_count = connection_count,
      pc_successful_transfers = successful, pc_failed_transfers = failed, pc_total_bytes_transferred = total_bytes,
      pc_average_latency_ms = (case average_latency of None \<Rightarrow> 0 | Some l \<Rightarrow> l) mod 2 ^ 32,
      pc_is_bootstrap = is_bootstrap, pc_supports_relay = supports_relay, pc_reliability_score = score\<rparr>"

definition is_stale :: "peer_cache_entry \<Rightarrow> u64 \<Rightarrow> bool" where
  "is_stale p current_time = (MAX_PEER_AGE_SECS < sat_sub current_time (pc_last_seen p))"

definition merge_addresses :: "peer_cache_entry \<Rightarrow> peer_cache_entry \<Rightarrow> peer_cache_entry" where
  "merge_addresses p other =
     p\<lparr>pc_addresses := foldl (\<lambda>as a. if a \<in> set as then as else as @ [a]) (pc_addresses p) (pc_addresses other)\<rparr>"

section \<open>The cache\<close>

record peer_cache =
  pca_version :: u32
  pca_last_updated :: u64
  pca_peers :: "peer_cache_entry list"

definition from_peers :: "u64 \<Rightarrow> peer_cache_entry list \<Rightarrow> peer_cache" where
  "from_peers now ps = \<lparr>pca_version = CACHE_VERSION, pca_last_updated = now, pca_peers = ps\<rparr>"

definition new_peer_cache :: "u64 \<Rightarrow> peer_cache" where
  "new_peer_cache now = \<lparr>pca_version = CACHE_VERSION, pca_last_updated = now, pca_peers = []\<rparr>"

definition filter_stale_peers :: "u64 \<Rightarrow> peer_cache \<Rightarrow> peer_cache" where
  "filter_stale_peers now c = c\<lparr>pca_peers := filter (\<lambda>p. \<not> is_stale p now) (pca_peers c)\<rparr>"

text \<open>The comparison is not \<open>Greater\<close>: the score decides, and the number of connections when the scores do not differ.\<close>

definition peer_order :: "peer_cache_entry \<Rightarrow> peer_cache_entry \<Rightarrow> bool" where
  "peer_order a b =
     (if f64_lt (pc_reliability_score b) (pc_reliability_score a) then True
      else if f64_lt (pc_reliability_score a) (pc_reliability_score b) then False
      else pc_connection_count b \<le> pc_connection_count a)"

definition sort_and_limit :: "peer_cache \<Rightarrow> peer_cache" where
  "sort_and_limit c =
     (let ps = sort_by peer_order (pca_peers c)
      in c\<lparr>pca_peers := (if MAX_CACHED_PEERS < length ps then take MAX_CACHED_PEERS ps else ps)\<rparr>)"

datatype cache_error =
    SerializeFailed
  | TempWriteFailed io_error
  | RenameFailed io_error
  | ReadFailed io_error
  | ParseFailed
  | DeleteFailed io_error

definition save_to_file :: "io_env \<Rightarrow> (peer_cache \<Rightarrow> bytes option) \<Rightarrow> peer_cache \<Rightarrow> path \<Rightarrow> disk \<Rightarrow> (cache_error, unit) result \<times> disk" where
  "save_to_file env to_json c p d =
     (case to_json c of
        None \<Rightarrow> (Err SerializeFailed, d)
      | Some json \<Rightarrow>
          let temp_path = with_extension p ''tmp''
          in case fs_write env temp_path json d of
               (Inl e, d1) \<Rightarrow> (Err (TempWriteFailed e), d1)
             | (Inr _, d1) \<Rightarrow>
                 (case fs_rename env temp_path p d1 of
                    (Inl e, d2) \<Rightarrow> (Err (RenameFailed e), d2)
                  | (Inr _, d2) \<Rightarrow> (Ok (), d2)))"

text \<open>A newer schema version is only logged.\<close>

definition load_from_file :: "io_env \<Rightarrow> (bytes \<Rightarrow> peer_cache option) \<Rightarrow> u64 \<Rightarrow> path \<Rightarrow> disk \<Rightarrow> (cache_error, peer_cache) result" where
  "load_from_file env from_json now p d =
     (if \<not> fs_exists env p d then Ok (new_peer_cache now)
      else case fs_read env p d of
             Inl e \<Rightarrow> Err (ReadFailed e)
           | Inr json \<Rightarrow> (case from_json json of None \<Rightarrow> Err ParseFailed | Some c \<Rightarrow> Ok c))"

definition delete_file :: "io_env \<Rightarrow> path \<Rightarrow> disk \<Rightarrow> (cache_error, unit) result \<times> disk" where
  "delete_file env p d =
     (if fs_exists env p d
      then (case fs_remove env p d of (Inl e, d1) \<Rightarrow> (Err (DeleteFailed e), d1) | (Inr _, d1) \<Rightarrow> (Ok (), d1))
      else (Ok (), d))"

record peer_cache_stats =
  pcs_total_peers :: usize
  pcs_relay_capable_peers :: usize
  pcs_bootstrap_peers :: usize
  pcs_average_reliability :: f64
  pcs_total_transfers :: u64
  pcs_total_bytes_transferred :: u64

definition sum64 :: "u64 list \<Rightarrow> u64" where
  "sum64 xs = foldl wadd64 0 xs"

definition cache_get_stats :: "peer_cache \<Rightarrow> peer_cache_stats" where
  "cache_get_stats c =
     (let ps = pca_peers c
      in \<lparr>pcs_total_peers = length ps,
          pcs_relay_capable_peers = length (filter pc_supports_relay ps),
          pcs_bootstrap_peers = length (filter pc_is_bootstrap ps),
          pcs_average_reliability =
            (if ps \<noteq> [] then f64_div (f64_sum (map pc_reliability_score ps)) (f64_of_u64 (length ps)) else F_Fin 0),
          pcs_total_transfers = sum64 (map (\<lambda>p. pc_successful_transfers p + pc_failed_transfers p) ps),
          pcs_total_bytes_transferred = sum64 (map pc_total_bytes_transferred ps)\<rparr>)"

text \<open>The platform's data directory, if there is one; the file lies in it.\<close>

datatype cache_path_error = NoProjectDirs | MkdirFailed io_error

definition get_peer_cache_path :: "io_env \<Rightarrow> path option \<Rightarrow> (cache_path_error, path) result" where
  "get_peer_cache_path env data_dir =
     (case data_dir of
        None \<Rightarrow> Err NoProjectDirs
      | Some dir \<Rightarrow> (case fs_mkdir env dir of Inl e \<Rightarrow> Err (MkdirFailed e) | Inr _ \<Rightarrow> Ok (path_join dir ''peer_cache.json'')))"

section \<open>Order and limit\<close>

lemma peer_order_alt: "peer_order a b \<longleftrightarrow> f64_desc (pc_reliability_score a) (pc_reliability_score b) \<and>
    (f64_desc (pc_reliability_score b) (pc_reliability_score a) \<longrightarrow> pc_connection_count b \<le> pc_connection_count a)"
  by (cases "pc_reliability_score a"; cases "pc_reliability_score b") (auto simp: peer_order_def f64_desc_def)

lemma peer_order_preorder:
  assumes "\<And>p. p \<in> A \<Longrightarrow> pc_reliability_score p \<noteq> F_NaN"
  shows "preorder_on_set peer_order A"
proof -
  have "peer_order x y \<or> peer_order y x" for x y
    unfolding peer_order_alt using f64_desc_total linear by blast
  moreover have "peer_order x z" if "x \<in> A" "y \<in> A" "z \<in> A" "peer_order x y" "peer_order y z" for x y z
    using that assms f64_desc_trans unfolding peer_order_alt by (meson le_trans)
  ultimately show ?thesis unfolding preorder_on_set_def by blast
qed

lemma sort_and_limit_take: "pca_peers (sort_and_limit c) = take 100 (sort_by peer_order (pca_peers c))"
  by (simp add: sort_and_limit_def Let_def MAX_CACHED_PEERS_def)

text \<open>
  Limiting the cache keeps the best peers: unless a score is a NaN, the list left has the
  smaller of its length and one hundred, is in descending order of score and then of
  connections, is part of the old list, keeps the order of peers that compare equal among those that
  stay, and no peer that was dropped comes before one that was kept.
\<close>

theorem sort_and_limit_best:
  assumes "\<And>p. p \<in> set (pca_peers c) \<Longrightarrow> pc_reliability_score p \<noteq> F_NaN"
    and "ps = pca_peers (sort_and_limit c)" "dropped = mset (pca_peers c) - mset ps"
  shows "length ps = min 100 (length (pca_peers c)) \<and> mset ps \<subseteq># mset (pca_peers c) \<and> sorted_wrt peer_order ps \<and>
    (\<forall>p \<in> set ps. \<forall>q \<in># dropped. peer_order p q) \<and>
    (\<forall>s k. prefix (filter (\<lambda>p. pc_reliability_score p = s \<and> pc_connection_count p = k) ps)
                  (filter (\<lambda>p. pc_reliability_score p = s \<and> pc_connection_count p = k) (pca_peers c)))"
proof -
  let ?xs = "pca_peers c"
  let ?ys = "sort_by peer_order ?xs"
  have srt: "sorted_wrt peer_order ?ys" by (rule sort_by_sorted) (rule peer_order_preorder, rule assms(1))
  have ps: "ps = take 100 ?ys" by (simp add: assms(2) sort_and_limit_take)
  have m: "mset ?xs = mset ps + mset (drop 100 ?ys)"
    unfolding ps mset_append [symmetric] append_take_drop_id by simp
  then have "dropped = mset (drop 100 ?ys)" by (simp add: assms(3))
  moreover have "prefix (filter P ps) (filter P ?xs)" if P: "P = (\<lambda>p. pc_reliability_score p = s \<and> pc_connection_count p = k)" for P s k
  proof -
    have "filter P ?ys = filter P ?xs" by (rule sort_by_stable) (use P in \<open>auto simp: peer_order_def\<close>)
    moreover have "filter P ?ys = filter P ps @ filter P (drop 100 ?ys)" by (simp add: ps flip: filter_append)
    ultimately show ?thesis by (metis prefixI)
  qed
  ultimately show ?thesis
    using srt m sorted_take_le [OF srt, of _ 100] by (auto simp: ps sorted_wrt_take)
qed

definition sample_peer :: "string \<Rightarrow> rat \<Rightarrow> u32 \<Rightarrow> peer_cache_entry" where
  "sample_peer i q k = from_metrics i ''/ip4/10.0.0.1'' k 0 0 0 None (F_Fin q) 0 False False"

theorem sort_and_limit_best_witness:
  "sorted_wrt peer_order (pca_peers (sort_and_limit (from_peers 0 [sample_peer ''a'' (1 / 2) 1, sample_peer ''b'' (1 / 2) 3, sample_peer ''c'' 1 0])))"
proof -
  let ?c = "from_peers 0 [sample_peer ''a'' (1 / 2) 1, sample_peer ''b'' (1 / 2) 3, sample_peer ''c'' 1 0]"
  have "pc_reliability_score p \<noteq> F_NaN" if "p \<in> set (pca_peers ?c)" for p
    using that by (auto simp: from_peers_def sample_peer_def from_metrics_def)
  from sort_and_limit_best [of ?c, OF this refl refl] show ?thesis by blast
qed

section \<open>Files\<close>

lemma save_as_write_rename:
  assumes "to_json c = Some b"
  shows "snd (save_to_file env to_json c p d) = snd (write_rename env (with_extension p ''tmp'') p b d)"
    and "is_ok (fst (save_to_file env to_json c p d)) = is_ok (fst (write_rename env (with_extension p ''tmp'') p b d))"
  using assms by (auto simp: save_to_file_def write_rename_def Let_def split: prod.splits sum.splits)

text \<open>
  C22: Saving is atomic and loading undoes it. When the save reports success, loading gives exactly the
  saved cache; when it reports an error, whatever call failed, the file holds what it held before,
  so that loading gives what it gave before. No file but the cache and its temporary file changes.
\<close>

theorem cache_save_load:
  assumes "to_json c = Some b" "from_json b = Some c" "with_extension p ''tmp'' \<noteq> p"
    and "save_to_file env to_json c p d = (r, d')" "\<not> io_fails env' (IoStat p)" "\<not> io_fails env' (IoRead p)"
  shows "(if r = Ok () then load_from_file env' from_json now p d' = Ok c
          else load_from_file env' from_json now p d' = load_from_file env' from_json now p d) \<and>
    (\<forall>q. q \<noteq> p \<longrightarrow> q \<noteq> with_extension p ''tmp'' \<longrightarrow> d' q = d q)"
proof -
  obtain r1 d1 where w: "write_rename env (with_extension p ''tmp'') p b d = (r1, d1)" by (cases "write_rename env (with_extension p ''tmp'') p b d")
  from save_as_write_rename [where to_json = to_json and c = c and env = env and p = p and d = d, OF assms(1)] assms(4) w have d': "d' = d1" and ok: "is_ok r = is_ok r1" by auto
  have "\<forall>q. q \<noteq> p \<longrightarrow> q \<noteq> with_extension p ''tmp'' \<longrightarrow> d' q = d q"
    using write_rename_other [OF assms(3), of _ env b d] w d' by simp
  moreover have "load_from_file env' from_json now p d' = Ok c" if "r = Ok ()"
  proof -
    from that ok w obtain u where "write_rename env (with_extension p ''tmp'') p b d = (Ok u, d')" by (cases r1) (auto simp: d')
    from write_rename_ok [OF assms(3) this] assms show ?thesis
      by (simp add: load_from_file_def fs_exists_def fs_read_def)
  qed
  moreover have "load_from_file env' from_json now p d' = load_from_file env' from_json now p d" if "r \<noteq> Ok ()"
  proof -
    from that ok w obtain e where "write_rename env (with_extension p ''tmp'') p b d = (Err e, d')" by (cases r1; cases r) (auto simp: d')
    from write_rename_err [OF assms(3) this, of p] assms(3) show ?thesis
      by (auto simp: load_from_file_def fs_exists_def fs_read_def)
  qed
  ultimately show ?thesis by simp
qed

theorem cache_save_load_witness:
  "load_from_file no_faults (\<lambda>b. Some (new_peer_cache 5)) 9 [''data'', ''peer_cache.json'']
     (snd (save_to_file no_faults (\<lambda>c. Some ''{}'') (new_peer_cache 5) [''data'', ''peer_cache.json''] Map.empty)) = Ok (new_peer_cache 5)"
proof -
  let ?p = "[''data'', ''peer_cache.json'']"
  have ext: "with_extension ?p ''tmp'' = [''data'', ''peer_cache.tmp'']" by code_simp
  have s: "save_to_file no_faults (\<lambda>c. Some ''{}'') (new_peer_cache 5) ?p Map.empty = (Ok (), [?p \<mapsto> ''{}''])"
    by (auto simp: save_to_file_def ext fs_write_def fs_rename_def no_faults_def)
  from cache_save_load [where from_json = "\<lambda>b. Some (new_peer_cache 5)" and env' = no_faults and now = 9, OF _ _ _ s] show ?thesis
    by (simp add: ext s)
qed

section \<open>Statistics\<close>

lemma f64_sum_bound:
  assumes "\<And>x. x \<in> set xs \<Longrightarrow> f64_in 0 1 x" "length xs + n \<le> 2 ^ 53" "f64_in 0 (of_nat n) s"
  shows "f64_in 0 (of_nat (n + length xs)) (foldl f64_add s xs)"
  using assms
proof (induction xs arbitrary: s n)
  case (Cons x xs)
  have e: "f64_exact (of_nat (n + 1))" using Cons.prems(2) by (intro f64_exact_nat) simp
  have "f64_in 0 (of_nat (n + 1)) (f64_add s x)"
    using f64_add_in [OF Cons.prems(3) Cons.prems(1) [of x]] e by (simp add: add.commute)
  from Cons.IH [OF _ _ this] Cons.prems show ?case by simp
qed simp

lemma average_unit:
  assumes "\<And>p. p \<in> set (pca_peers c) \<Longrightarrow> f64_in 0 1 (pc_reliability_score p)" "length (pca_peers c) \<le> 2 ^ 53"
  shows "f64_in 0 1 (pcs_average_reliability (cache_get_stats c))"
proof (cases "pca_peers c = []")
  case False
  let ?n = "length (pca_peers c)"
  let ?s = "f64_sum (map pc_reliability_score (pca_peers c))"
  have "f64_in 0 (of_nat ?n) ?s"
    using f64_sum_bound [of "map pc_reliability_score (pca_peers c)" 0 "F_Fin 0"] assms by (auto simp: f64_sum_def)
  from f64_div_in [OF this, of "of_nat ?n" 1] False have "f64_in 0 1 (f64_div ?s (F_Fin (of_nat ?n)))" by simp
  moreover have "f64_of_u64 ?n = F_Fin (of_nat ?n)" using assms(2) by (rule f64_of_u64_exact)
  ultimately have "f64_in 0 1 (f64_div ?s (f64_of_u64 ?n))" by simp
  with False show ?thesis by (simp add: cache_get_stats_def Let_def)
qed (simp add: cache_get_stats_def Let_def)

end
