(* ===== verification/Actions.thy ===== *)
theory Actions
  imports Prelude
begin

text \<open>
  Fallible operations on a state, for components whose functions thread a state through many
  calls that return early with the \<open>?\<close> operator: composition, and triples with a
  postcondition for each way of returning. \<open>hoare P m Q E\<close> says that from a state with \<open>P\<close> the
  operation \<open>m\<close> ends with \<open>Q x s\<close> when it returns \<open>Ok x\<close> and with \<open>E e s\<close> when it returns \<open>Err e\<close>.
\<close>

type_synonym ('s, 'e, 'a) act = "'s \<Rightarrow> ('e, 'a) result \<times> 's"

definition ret :: "'a \<Rightarrow> ('s, 'e, 'a) act" where
  "ret x s = (Ok x, s)"

definition fail :: "'e \<Rightarrow> ('s, 'e, 'a) act" where
  "fail e s = (Err e, s)"

definition and_then :: "('s, 'e, 'a) act \<Rightarrow> ('a \<Rightarrow> ('s, 'e, 'b) act) \<Rightarrow> ('s, 'e, 'b) act" where
  "and_then m f s = (case m s of (Inl e, s') \<Rightarrow> (Err e, s') | (Inr x, s') \<Rightarrow> f x s')"

abbreviation and_do :: "('s, 'e, 'a) act \<Rightarrow> ('s, 'e, 'b) act \<Rightarrow> ('s, 'e, 'b) act" where
  "and_do m n \<equiv> and_then m (\<lambda>_. n)"

definition of_result :: "('e, 'a) result \<Rightarrow> ('s, 'e, 'a) act" where
  "of_result r s = (r, s)"

definition map_err :: "('e \<Rightarrow> 'f) \<Rightarrow> ('e, 'a) result \<Rightarrow> ('f, 'a) result" where
  "map_err f r = (case r of Inl e \<Rightarrow> Inl (f e) | Inr x \<Rightarrow> Inr x)"

lemma act_simps [simp]: "ret x s = (Ok x, s)" "fail e s = (Err e, s)" "of_result r s = (r, s)"
  by (simp_all add: ret_def fail_def of_result_def)

lemma map_err_simps [simp]: "map_err f (Inl e) = Inl (f e)" "map_err f (Inr x) = Inr x"
  by (simp_all add: map_err_def)

lemma map_err_Inr_iff [simp]: "map_err f r = Inr x \<longleftrightarrow> r = Inr x"
  by (cases r) auto

lemma map_err_Inl_iff: "map_err f r = Inl e \<longleftrightarrow> (\<exists>e'. r = Inl e' \<and> e = f e')"
  by (cases r) auto

lemma and_then_Ok: "m s = (Inr x, s') \<Longrightarrow> and_then m f s = f x s'"
  by (simp add: and_then_def)

lemma and_then_Err: "m s = (Inl e, s') \<Longrightarrow> and_then m f s = (Inl e, s')"
  by (simp add: and_then_def)

lemma and_then_eq_Ok: "and_then m f s = (Inr y, t) \<longleftrightarrow> (\<exists>x s'. m s = (Inr x, s') \<and> f x s' = (Inr y, t))"
  by (auto simp: and_then_def split: prod.splits sum.splits)

lemma and_then_ret [simp]: "and_then (ret x) f = f x"
  by (rule ext) (simp add: and_then_def)

lemma of_result_Inr [simp]: "of_result (Inr x) = ret x"
  by (rule ext) simp

lemma of_result_Inl [simp]: "of_result (Inl e) = fail e"
  by (rule ext) simp

lemma and_then_fail [simp]: "and_then (fail e) f = fail e"
  by (rule ext) (simp add: and_then_def)

lemma fail_eta: "fail e = Pair (Inl e)"
  by (rule ext) simp

lemma and_then_assoc: "and_then (and_then m f) g = and_then m (\<lambda>x. and_then (f x) g)"
  by (rule ext) (auto simp: and_then_def split: prod.splits sum.splits)

section \<open>Triples\<close>

definition hoare :: "('s \<Rightarrow> bool) \<Rightarrow> ('s, 'e, 'a) act \<Rightarrow> ('a \<Rightarrow> 's \<Rightarrow> bool) \<Rightarrow> ('e \<Rightarrow> 's \<Rightarrow> bool) \<Rightarrow> bool" where
  "hoare P m Q E \<longleftrightarrow> (\<forall>s. P s \<longrightarrow> (case m s of (Inl e, s') \<Rightarrow> E e s' | (Inr x, s') \<Rightarrow> Q x s'))"

named_theorems hoare_rules \<open>triples of the operations of the components\<close>

lemma hoareI: "(\<And>s. P s \<Longrightarrow> case m s of (Inl e, s') \<Rightarrow> E e s' | (Inr x, s') \<Rightarrow> Q x s') \<Longrightarrow> hoare P m Q E"
  by (simp add: hoare_def)

lemma hoare_Ok: "hoare P m Q E \<Longrightarrow> P s \<Longrightarrow> m s = (Inr x, s') \<Longrightarrow> Q x s'"
  by (fastforce simp: hoare_def)

lemma hoare_Err: "hoare P m Q E \<Longrightarrow> P s \<Longrightarrow> m s = (Inl e, s') \<Longrightarrow> E e s'"
  by (fastforce simp: hoare_def)

lemma hoare_then:
  assumes "hoare P m R E" "\<And>x. hoare (R x) (f x) Q E"
  shows "hoare P (and_then m f) Q E"
proof (rule hoareI)
  fix s assume "P s"
  obtain r s' where m: "m s = (r, s')" by (cases "m s")
  show "case and_then m f s of (Inl e, s') \<Rightarrow> E e s' | (Inr x, s') \<Rightarrow> Q x s'"
  proof (cases r)
    case (Inl e)
    with m hoare_Err [OF assms(1) \<open>P s\<close>] show ?thesis by (simp add: and_then_Err)
  next
    case (Inr x)
    with m hoare_Ok [OF assms(1) \<open>P s\<close>] have "R x s'" by simp
    with assms(2) [of x] m Inr show ?thesis by (simp add: and_then_Ok hoare_def)
  qed
qed

lemma hoare_weaken:
  assumes "hoare P m Q E" "\<And>s. P' s \<Longrightarrow> P s" "\<And>x s. Q x s \<Longrightarrow> Q' x s" "\<And>e s. E e s \<Longrightarrow> E' e s"
  shows "hoare P' m Q' E'"
  using assms unfolding hoare_def by (fastforce split: prod.splits sum.splits)

text \<open>\<open>runs P m Q\<close>: from a state with \<open>P\<close> the operation returns \<open>Ok\<close>.\<close>

abbreviation runs :: "('s \<Rightarrow> bool) \<Rightarrow> ('s, 'e, 'a) act \<Rightarrow> ('a \<Rightarrow> 's \<Rightarrow> bool) \<Rightarrow> bool" where
  "runs P m Q \<equiv> hoare P m Q (\<lambda>_ _. False)"

lemma runsI: "(\<And>s. P s \<Longrightarrow> \<exists>x s'. m s = (Inr x, s') \<and> Q x s') \<Longrightarrow> runs P m Q"
  by (fastforce simp: hoare_def)

lemma runsD: "runs P m Q \<Longrightarrow> P s \<Longrightarrow> \<exists>x s'. m s = (Inr x, s') \<and> Q x s'"
  by (cases "m s"; cases "fst (m s)") (auto dest: hoare_Ok hoare_Err)

lemma runs_then:
  assumes "runs P m R" "\<And>x. hoare (R x) (f x) Q E"
  shows "hoare P (and_then m f) Q E"
  by (rule hoare_then [OF hoare_weaken [OF assms(1)] assms(2)]) simp_all

text \<open>A condition that does not depend on the state.\<close>

lemma hoare_fixed: "(b \<Longrightarrow> hoare P m Q E) \<Longrightarrow> hoare (\<lambda>s. b \<and> P s) m Q E"
  by (auto simp: hoare_def)

lemma hoare_ret: "(\<And>s. P s \<Longrightarrow> Q x s) \<Longrightarrow> hoare P (ret x) Q E"
  by (simp add: hoare_def)

lemma hoare_fail: "(\<And>s. P s \<Longrightarrow> E e s) \<Longrightarrow> hoare P (fail e) Q E"
  by (simp add: hoare_def)

lemma hoare_of_result:
  "(\<And>x s. P s \<Longrightarrow> r = Inr x \<Longrightarrow> Q x s) \<Longrightarrow> (\<And>e s. P s \<Longrightarrow> r = Inl e \<Longrightarrow> E e s) \<Longrightarrow> hoare P (of_result r) Q E"
  by (cases r) (simp_all add: hoare_def)

lemma hoare_if:
  "(b \<Longrightarrow> hoare P m Q E) \<Longrightarrow> (\<not> b \<Longrightarrow> hoare P n Q E) \<Longrightarrow> hoare P (if b then m else n) Q E"
  by simp

end
