(* ===== verification/DownloadRestart.thy ===== *)
theory DownloadRestart
  imports Actions FileSystem Interfaces
begin

text \<open>
  Whole-file downloads that can be paused and resumed: \<^verbatim>\<open>src-tauri/src/download_restart.rs\<close>. The
  state is the table of downloads, the disk, the cancelled tokens and the workers spawned so
  far. A worker is one function, given what the server answers and what arrives on the stream;
  an event of the stream may also be a call made by another task, such as a pause. Every system
  call takes its own description of which calls fail.

  The texts of errors of the libraries, the status lines, JSON, RFC 2822 dates and SHA-256 are
  parameters (record \<open>restart_env\<close>). Writes to an open file take effect in order when they return;
  \<open>tokio\<close>'s buffer in between is left out.

  Shown: a download from a server that honours ranges completes with exactly the content of the
  server, also across a pause and a resume; a completed download has all bytes and the
  expected hash, whatever fails on the way; tokens are never shared, so a pause stops no worker of another download. Defects shown as theorems: a changed entity tag is
  never noticed; a server that ignores ranges makes the restart fail and the partial file is lost.
\<close>

section \<open>Data\<close>

datatype download_state =
    Idle | Handshake | HandshakeRetry | LeaseRenewDue | PreparingHead | HeadBackoff | Restarting | PreflightStorage
  | ValidatingMetadata | Downloading | PersistingProgress | Paused | AwaitingResume | LeaseExpired | VerifyingSha
  | FinalizingIo | Completed | Failed

fun state_to_human_readable :: "download_state \<Rightarrow> string" where
  "state_to_human_readable Idle = ''Idle''"
| "state_to_human_readable Handshake = ''Requesting lease from seeder''"
| "state_to_human_readable HandshakeRetry = ''Retrying lease request''"
| "state_to_human_readable LeaseRenewDue = ''Renewing download lease''"
| "state_to_human_readable PreparingHead = ''Fetching file metadata''"
| "state_to_human_readable HeadBackoff = ''Retrying metadata fetch''"
| "state_to_human_readable Restarting = ''Restarting download from beginning''"
| "state_to_human_readable PreflightStorage = ''Checking disk space''"
| "state_to_human_readable ValidatingMetadata = ''Validating resume data''"
| "state_to_human_readable Downloading = ''Downloading''"
| "state_to_human_readable PersistingProgress = ''Saving progress''"
| "state_to_human_readable Paused = ''Paused''"
| "state_to_human_readable AwaitingResume = ''Ready to resume''"
| "state_to_human_readable LeaseExpired = ''Download lease expired''"
| "state_to_human_readable VerifyingSha = ''Verifying file integrity''"
| "state_to_human_readable FinalizingIo = ''Finalizing file''"
| "state_to_human_readable Completed = ''Completed''"
| "state_to_human_readable Failed = ''Failed''"


record download_status =
  ds_download_id :: string
  ds_state :: download_state
  ds_bytes_downloaded :: u64
  ds_expected_size :: "u64 option"
  ds_etag :: "string option"
  ds_lease_exp :: "int option"
  ds_last_error :: "string option"

datatype download_error =
    DlNotFound
  | DlInvalid string
  | DlSource string
  | DlIo string
  | DlDiskFull
  | DlAlreadyCompleted
  | DlCancelled

fun show_download_error :: "download_error \<Rightarrow> string" where
  "show_download_error DlNotFound = ''download not found''"
| "show_download_error (DlInvalid m) = ''invalid request: '' @ m"
| "show_download_error (DlSource m) = ''source error: '' @ m"
| "show_download_error (DlIo m) = ''io error: '' @ m"
| "show_download_error DlDiskFull = ''insufficient disk space''"
| "show_download_error DlAlreadyCompleted = ''already completed''"
| "show_download_error DlCancelled = ''download cancelled''"

fun to_error_code :: "download_error \<Rightarrow> string" where
  "to_error_code DlNotFound = ''DOWNLOAD_NOT_FOUND''"
| "to_error_code (DlInvalid _) = ''DOWNLOAD_INVALID_REQUEST''"
| "to_error_code (DlSource _) = ''DOWNLOAD_SOURCE_ERROR''"
| "to_error_code (DlIo _) = ''IO_ERROR''"
| "to_error_code DlDiskFull = ''STORAGE_EXHAUSTED''"
| "to_error_code DlAlreadyCompleted = ''DOWNLOAD_ALREADY_COMPLETE''"
| "to_error_code DlCancelled = ''DOWNLOAD_CANCELLED''"

fun error_to_human_readable :: "download_error \<Rightarrow> string" where
  "error_to_human_readable DlNotFound = ''Download not found. It may have been removed.''"
| "error_to_human_readable (DlInvalid m) = ''Invalid request: '' @ m"
| "error_to_human_readable (DlSource m) = ''Download source error: '' @ m"
| "error_to_human_readable (DlIo m) = ''File system error: '' @ m"
| "error_to_human_readable DlDiskFull = ''Insufficient disk space. Please free up space and try again.''"
| "error_to_human_readable DlAlreadyCompleted = ''This download is already completed.''"
| "error_to_human_readable DlCancelled = ''Download cancelled''"

record download_metadata =
  dm_version :: u32
  dm_download_id :: string
  dm_url :: string
  dm_etag :: "string option"
  dm_expected_size :: "u64 option"
  dm_bytes_downloaded :: u64
  dm_last_modified :: "int option"
  dm_sha256_final :: "string option"
  dm_lease_exp :: "int option"
  dm_expected_sha256 :: "string option"

definition CURRENT_VERSION :: u32 where "CURRENT_VERSION = 1"

definition new_metadata :: "string \<Rightarrow> string \<Rightarrow> download_metadata" where
  "new_metadata download_id url =
     \<lparr>dm_version = CURRENT_VERSION, dm_download_id = download_id, dm_url = url, dm_etag = None, dm_expected_size = None,
      dm_bytes_downloaded = 0, dm_last_modified = None, dm_sha256_final = None, dm_lease_exp = None, dm_expected_sha256 = None\<rparr>"

definition validate_version :: "download_metadata \<Rightarrow> (download_error, unit) result" where
  "validate_version m =
     (if CURRENT_VERSION < dm_version m then Err (DlInvalid (''unsupported metadata version: '' @ show_nat (dm_version m))) else Ok ())"

definition METADATA_FLUSH_INTERVAL_BYTES :: u64 where "METADATA_FLUSH_INTERVAL_BYTES = 512 * 1024"
definition PROGRESS_EMIT_INTERVAL_MS :: u64 where "PROGRESS_EMIT_INTERVAL_MS = 750"

record remote_http_metadata =
  rm_size :: u64
  rm_etag :: "string option"
  rm_last_modified :: "int option"

text \<open>A cancellation token is a number; the state says which tokens have been cancelled.\<close>

record restart_task =
  dt_status :: download_status
  dt_metadata :: download_metadata
  dt_destination_path :: path
  dt_metadata_path :: path
  dt_cancel_token :: nat

record worker_job =
  wj_download_id :: string
  wj_source_url :: string
  wj_destination_path :: path
  wj_metadata_path :: path
  wj_cancel_token :: nat

record restart_state =
  rs_downloads :: "string \<rightharpoonup> restart_task"
  rs_disk :: disk
  rs_cancelled :: "nat set"
  rs_next_token :: nat
  rs_spawned :: "worker_job list"

record restart_env =
  de_io_text :: "io_error \<Rightarrow> string"
  de_status_text :: "nat \<Rightarrow> string"
  de_to_str_text :: string
  de_parse_text :: "string \<Rightarrow> string"
  de_emit :: "download_status \<Rightarrow> string option"
  de_to_json :: "download_metadata \<Rightarrow> (string, bytes) result"
  de_parse_rfc2822 :: "string \<Rightarrow> int option"
  de_sha256 :: "bytes \<Rightarrow> bytes"

type_synonym 'a restart_act = "(restart_state, download_error, 'a) act"

section \<open>Files\<close>

definition fs_open_create :: "io_env \<Rightarrow> path \<Rightarrow> disk \<Rightarrow> (io_error, unit) result \<times> disk" where
  "fs_open_create io p d =
     (if io_fails io (IoOpen p) then (Err (OtherIo (IoOpen p)), d)
      else (Ok (), case d p of None \<Rightarrow> d(p \<mapsto> []) | Some _ \<Rightarrow> d))"

definition fs_seek :: "io_env \<Rightarrow> path \<Rightarrow> u64 \<Rightarrow> disk \<Rightarrow> (io_error, unit) result \<times> disk" where
  "fs_seek io p n d = (if io_fails io (IoSeek p n) then (Err (OtherIo (IoSeek p n)), d) else (Ok (), d))"

definition fs_set_len :: "io_env \<Rightarrow> path \<Rightarrow> u64 \<Rightarrow> disk \<Rightarrow> (io_error, unit) result \<times> disk" where
  "fs_set_len io p n d =
     (if io_fails io (IoSetLen p n) then (Err (OtherIo (IoSetLen p n)), d)
      else (Ok (), case d p of None \<Rightarrow> d | Some b \<Rightarrow> d(p \<mapsto> take n b @ replicate (n - length b) (CHR 0x00))))"

definition fs_flush :: "io_env \<Rightarrow> path \<Rightarrow> disk \<Rightarrow> (io_error, unit) result \<times> disk" where
  "fs_flush io p d = (if io_fails io (IoFlush p) then (Err (OtherIo (IoFlush p)), d) else (Ok (), d))"

definition disk_act :: "(io_error \<Rightarrow> download_error) \<Rightarrow> (disk \<Rightarrow> (io_error, 'a) result \<times> disk) \<Rightarrow> 'a restart_act" where
  "disk_act f m s = (case m (rs_disk s) of (r, d) \<Rightarrow> (map_err f r, s\<lparr>rs_disk := d\<rparr>))"

definition io_msg :: "restart_env \<Rightarrow> string \<Rightarrow> io_error \<Rightarrow> download_error" where
  "io_msg env what e = DlIo (what @ de_io_text env e)"

definition metadata_path_for :: "path \<Rightarrow> path" where
  "metadata_path_for p =
     (let name = (case file_name p of Some n \<Rightarrow> n | None \<Rightarrow> ''download'')
      in with_file_name p (''.'' @ name @ ''.chiral.meta.json''))"

definition persist_metadata :: "restart_env \<Rightarrow> io_env \<Rightarrow> path \<Rightarrow> download_metadata \<Rightarrow> unit restart_act" where
  "persist_metadata env io metadata_path md =
     and_do (case parent metadata_path of
               None \<Rightarrow> ret ()
             | Some dir \<Rightarrow> of_result (map_err (io_msg env ''Failed to create metadata dir: '') (fs_mkdir io dir)))
    (and_then (of_result (map_err (\<lambda>e. DlIo (''Failed to serialize metadata: '' @ e)) (de_to_json env md)))
    (\<lambda>data. disk_act (io_msg env ''Failed to persist metadata: '') (fs_write io metadata_path data)))"

definition remove_metadata_file :: "io_env \<Rightarrow> path \<Rightarrow> unit restart_act" where
  "remove_metadata_file io metadata_path s = (Ok (), s\<lparr>rs_disk := snd (fs_remove io metadata_path (rs_disk s))\<rparr>)"

section \<open>The table\<close>

definition emit_status :: "restart_env \<Rightarrow> download_status \<Rightarrow> unit restart_act" where
  "emit_status env status =
     (case de_emit env status of None \<Rightarrow> ret () | Some e \<Rightarrow> fail (DlIo (''Failed to emit event: '' @ e)))"

definition set_task :: "string \<Rightarrow> restart_task \<Rightarrow> restart_state \<Rightarrow> restart_state" where
  "set_task i t s = s\<lparr>rs_downloads := (rs_downloads s)(i \<mapsto> t)\<rparr>"

definition with_task :: "string \<Rightarrow> (restart_task \<Rightarrow> 'a restart_act) \<Rightarrow> 'a restart_act" where
  "with_task i f s = (case rs_downloads s i of None \<Rightarrow> (Err DlNotFound, s) | Some t \<Rightarrow> f t s)"

definition put_state :: "download_state \<Rightarrow> u64 \<Rightarrow> u64 option \<Rightarrow> string option \<Rightarrow> string option \<Rightarrow> restart_task \<Rightarrow> restart_task" where
  "put_state st bytes expected_size etag last_error t =
     (let t1 = t\<lparr>dt_status := (dt_status t)\<lparr>ds_state := st, ds_bytes_downloaded := bytes, ds_last_error := last_error\<rparr>\<rparr>;
          t2 = (case expected_size of None \<Rightarrow> t1
                | Some e \<Rightarrow> t1\<lparr>dt_status := (dt_status t1)\<lparr>ds_expected_size := Some e\<rparr>,
                               dt_metadata := (dt_metadata t1)\<lparr>dm_expected_size := Some e\<rparr>\<rparr>);
          t3 = (case etag of None \<Rightarrow> t2
                | Some tag \<Rightarrow> t2\<lparr>dt_status := (dt_status t2)\<lparr>ds_etag := Some tag\<rparr>,
                                 dt_metadata := (dt_metadata t2)\<lparr>dm_etag := Some tag\<rparr>\<rparr>)
      in t3\<lparr>dt_metadata := (dt_metadata t3)\<lparr>dm_bytes_downloaded := bytes\<rparr>\<rparr>)"

definition set_state ::
  "restart_env \<Rightarrow> io_env \<Rightarrow> string \<Rightarrow> download_state \<Rightarrow> u64 \<Rightarrow> u64 option \<Rightarrow> string option \<Rightarrow> string option \<Rightarrow> bool \<Rightarrow> unit restart_act" where
  "set_state env io i st bytes expected_size etag last_error persist =
     with_task i (\<lambda>t s.
       let t' = put_state st bytes expected_size etag last_error t
       in and_do (if persist then persist_metadata env io (dt_metadata_path t') (dt_metadata t') else ret ())
                 (emit_status env (dt_status t'))
                 (set_task i t' s))"

definition update_metadata_only ::
  "restart_env \<Rightarrow> io_env \<Rightarrow> string \<Rightarrow> (download_metadata \<Rightarrow> download_metadata) \<Rightarrow> unit restart_act" where
  "update_metadata_only env io i mutator =
     with_task i (\<lambda>t s.
       let t' = t\<lparr>dt_metadata := mutator (dt_metadata t)\<rparr>
       in persist_metadata env io (dt_metadata_path t') (dt_metadata t') (set_task i t' s))"

definition persist_current_metadata :: "restart_env \<Rightarrow> io_env \<Rightarrow> string \<Rightarrow> unit restart_act" where
  "persist_current_metadata env io i = with_task i (\<lambda>t. persist_metadata env io (dt_metadata_path t) (dt_metadata t))"

definition status_snapshot :: "string \<Rightarrow> download_status restart_act" where
  "status_snapshot i = with_task i (\<lambda>t. ret (dt_status t))"

section \<open>The remote file\<close>

record head_response =
  hr_status :: nat
  hr_content_length :: "bytes option"
  hr_etag :: "bytes option"
  hr_last_modified :: "bytes option"

definition http_success :: "nat \<Rightarrow> bool" where
  "http_success code = (200 \<le> code \<and> code < 300)"

definition fetch_remote_http_metadata :: "restart_env \<Rightarrow> (string, head_response) result \<Rightarrow> (download_error, remote_http_metadata) result" where
  "fetch_remote_http_metadata env response =
     (case response of
        Inl e \<Rightarrow> Err (DlSource (''HEAD request failed: '' @ e))
      | Inr r \<Rightarrow>
          if \<not> http_success (hr_status r) then Err (DlSource (''Metadata request failed with status '' @ de_status_text env (hr_status r)))
          else case hr_content_length r of
                 None \<Rightarrow> Err (DlSource ''Missing Content-Length header'')
               | Some v \<Rightarrow>
                   (case header_str v of
                      None \<Rightarrow> Err (DlSource (''Invalid Content-Length header: '' @ de_to_str_text env))
                    | Some t \<Rightarrow>
                        (case parse_u64 t of
                           None \<Rightarrow> Err (DlSource (''Invalid Content-Length value: '' @ de_parse_text env t))
                         | Some len \<Rightarrow>
                             Ok \<lparr>rm_size = len,
                                 rm_etag = map_option (trim_matches (CHR 0x22)) (Option.bind (hr_etag r) header_str),
                                 rm_last_modified = Option.bind (Option.bind (hr_last_modified r) header_str) (de_parse_rfc2822 env)\<rparr>)))"

definition should_reset :: "string \<Rightarrow> string option \<Rightarrow> restart_state \<Rightarrow> bool" where
  "should_reset i remote_etag s =
     (case (Option.bind (rs_downloads s i) (\<lambda>t. dm_etag (dt_metadata t)), remote_etag) of
        (Some existing, Some remote) \<Rightarrow> existing \<noteq> remote
      | _ \<Rightarrow> False)"

definition prepare_destination_file ::
  "restart_env \<Rightarrow> io_env \<Rightarrow> string \<Rightarrow> path \<Rightarrow> u64 \<Rightarrow> string option \<Rightarrow> u64 restart_act" where
  "prepare_destination_file env io i dest remote_size remote_etag =
     and_do (case parent dest of
               None \<Rightarrow> ret ()
             | Some dir \<Rightarrow> of_result (map_err (io_msg env ''Failed to create parent dir: '') (fs_mkdir io dir)))
    (\<lambda>s. case fs_len io dest (rs_disk s) of
           Inl e \<Rightarrow> if e = NotFound then (Ok 0, s) else (Err (io_msg env ''Failed to inspect destination file: '' e), s)
         | Inr len \<Rightarrow>
             let resume_offset = min len remote_size
             in if should_reset i remote_etag s \<and> 0 < resume_offset
                then (case fs_remove io dest (rs_disk s) of
                        (Inl e, d) \<Rightarrow>
                          (if e = NotFound then Ok 0 else Err (io_msg env ''Failed to delete old partial file: '' e), s\<lparr>rs_disk := d\<rparr>)
                      | (Inr _, d) \<Rightarrow> (Ok 0, s\<lparr>rs_disk := d\<rparr>))
                else (Ok resume_offset, s))"

definition expected_sha :: "string \<Rightarrow> restart_state \<Rightarrow> string option" where
  "expected_sha i s = Option.bind (rs_downloads s i) (\<lambda>t. dm_expected_sha256 (dt_metadata t))"

text \<open>The file is opened, read to its end in pieces that are hashed one after the other.\<close>

definition restart_verify_hash :: "restart_env \<Rightarrow> io_env \<Rightarrow> path \<Rightarrow> string \<Rightarrow> string restart_act" where
  "restart_verify_hash env io p expected s =
     (if io_fails io (IoOpen p) then (Err (io_msg env ''Failed to open file for hashing: '' (OtherIo (IoOpen p))), s)
      else case fs_read io p (rs_disk s) of
             Inl e \<Rightarrow> (Err (io_msg env (if e = NotFound then ''Failed to open file for hashing: '' else ''Failed to read file for hashing: '') e), s)
           | Inr b \<Rightarrow>
               let actual = hex_encode (de_sha256 env b);
                   normalized_expected = to_ascii_lowercase (trim expected)
               in if normalized_expected \<noteq> actual
                  then (Err (DlInvalid (''SHA-256 mismatch: expected '' @ normalized_expected @ '', got '' @ actual)), s)
                  else (Ok actual, s))"

section \<open>The worker\<close>

text \<open>
  What happens while the body is read: a piece arrives (the flag says whether a progress event is
  due) and is written, or writing it fails after some bytes; the stream fails; another task runs.
  The end of the list is the end of the stream. The token is looked at before every event.
\<close>

datatype stream_event =
    EvChunk bytes bool io_env
  | EvWriteError bytes nat io_error
  | EvStreamError string
  | EvOther "restart_state \<Rightarrow> restart_state"

definition append_at :: "path \<Rightarrow> nat \<Rightarrow> bytes \<Rightarrow> restart_state \<Rightarrow> restart_state" where
  "append_at p pos b s =
     (case rs_disk s p of None \<Rightarrow> s | Some c \<Rightarrow> s\<lparr>rs_disk := (rs_disk s)(p \<mapsto> write_at pos b c)\<rparr>)"

definition put_progress :: "string \<Rightarrow> u64 \<Rightarrow> restart_state \<Rightarrow> restart_state" where
  "put_progress i downloaded s =
     (case rs_downloads s i of None \<Rightarrow> s
      | Some t \<Rightarrow> set_task i (t\<lparr>dt_metadata := (dt_metadata t)\<lparr>dm_bytes_downloaded := downloaded\<rparr>,
                              dt_status := (dt_status t)\<lparr>ds_bytes_downloaded := downloaded, ds_state := Downloading,
                                                        ds_last_error := None\<rparr>\<rparr>) s)"

definition or_cancelled :: "restart_env \<Rightarrow> io_env \<Rightarrow> string \<Rightarrow> nat \<Rightarrow> 'a restart_act \<Rightarrow> 'a restart_act" where
  "or_cancelled env io i token m s =
     (if token \<in> rs_cancelled s then and_do (persist_current_metadata env io i) (fail DlCancelled) s else m s)"

definition write_chunk :: "restart_env \<Rightarrow> io_env \<Rightarrow> string \<Rightarrow> path \<Rightarrow> bytes \<Rightarrow> bool \<Rightarrow> u64 \<Rightarrow> u64 \<Rightarrow> (u64 \<times> u64) restart_act" where
  "write_chunk env io i p b emit_due downloaded last_persist s =
     (let s1 = append_at p downloaded b s
      in if 2 ^ 64 \<le> downloaded + length b then (Err (DlIo ''download size overflowed''), s1)
         else let downloaded' = downloaded + length b;
                  s2 = put_progress i downloaded' s1
              in and_then (if METADATA_FLUSH_INTERVAL_BYTES \<le> sat_sub downloaded' last_persist
                           then and_do (persist_current_metadata env io i) (ret downloaded') else ret last_persist)
                (\<lambda>last_persist'. and_do
                   (if emit_due then and_then (status_snapshot i) (emit_status env) else ret ())
                   (ret (downloaded', last_persist')))
                s2)"

fun receive ::
  "restart_env \<Rightarrow> io_env \<Rightarrow> string \<Rightarrow> path \<Rightarrow> nat \<Rightarrow> stream_event list \<Rightarrow> u64 \<Rightarrow> u64 \<Rightarrow> u64 restart_act" where
  "receive env io i p token [] downloaded last_persist = or_cancelled env io i token (ret downloaded)"
| "receive env io i p token (EvOther f # evs) downloaded last_persist =
     or_cancelled env io i token (\<lambda>s. receive env io i p token evs downloaded last_persist (f s))"
| "receive env io i p token (EvStreamError e # evs) downloaded last_persist =
     or_cancelled env io i token (fail (DlSource (''Stream error: '' @ e)))"
| "receive env io i p token (EvWriteError b n e # evs) downloaded last_persist =
     or_cancelled env io i token (\<lambda>s. (Err (io_msg env ''Failed to write chunk: '' e), append_at p downloaded (take n b) s))"
| "receive env io i p token (EvChunk b emit_due cio # evs) downloaded last_persist =
     or_cancelled env io i token
       (and_then (write_chunk env cio i p b emit_due downloaded last_persist)
         (\<lambda>(downloaded', last_persist'). receive env io i p token evs downloaded' last_persist'))"

text \<open>The server: its answer to HEAD, and to the \<open>k\<close>-th GET with the start of the range asked for.\<close>

record http_server =
  sv_head :: "(string, head_response) result"
  sv_get :: "nat \<Rightarrow> u64 option \<Rightarrow> (string, nat \<times> stream_event list) result"

definition send_get :: "http_server \<Rightarrow> nat \<Rightarrow> u64 option \<Rightarrow> (download_error, nat \<times> stream_event list) result" where
  "send_get sv k rng = map_err (\<lambda>e. DlSource (''HTTP request failed: '' @ e)) (sv_get sv k rng)"

definition open_destination :: "restart_env \<Rightarrow> io_env \<Rightarrow> path \<Rightarrow> u64 \<Rightarrow> unit restart_act" where
  "open_destination env io dest resume_offset =
     and_do (disk_act (io_msg env ''Failed to open destination: '') (fs_open_create io dest))
    (and_do (disk_act (io_msg env ''Failed to seek file: '') (fs_seek io dest resume_offset))
            (if 0 < resume_offset then disk_act (io_msg env ''Failed to truncate file: '') (fs_set_len io dest resume_offset) else ret ()))"

definition check_status :: "restart_env \<Rightarrow> u64 \<Rightarrow> nat \<Rightarrow> (download_error, unit) result" where
  "check_status env resume_offset code =
     (if resume_offset = 0 \<and> code \<noteq> 200
      then Err (DlSource (''Unexpected status '' @ de_status_text env code @ '' when starting download''))
      else if 0 < resume_offset \<and> code \<noteq> 206
      then Err (DlSource (''Server does not support ranged downloads (status: '' @ de_status_text env code @ '')''))
      else Ok ())"

definition start_body ::
  "restart_env \<Rightarrow> (nat \<Rightarrow> io_env) \<Rightarrow> http_server \<Rightarrow> string \<Rightarrow> path \<Rightarrow> remote_http_metadata \<Rightarrow> u64 \<Rightarrow> stream_event list restart_act" where
  "start_body env io sv i dest rm resume_offset =
     and_then (of_result (send_get sv 0 (if 0 < resume_offset then Some resume_offset else None)))
     (\<lambda>response. and_then
        (if 0 < resume_offset \<and> fst response = 200
         then and_do (disk_act (io_msg env ''Failed to reset file: '') (fs_set_len (io 5) dest 0))
             (and_do (set_state env (io 6) i Restarting 0 (Some (rm_size rm)) (rm_etag rm) None True)
                     (of_result (send_get sv 1 None)))
         else ret response)
     (\<lambda>(code, evs). and_do (of_result (check_status env resume_offset code)) (ret evs)))"

definition finish_download ::
  "restart_env \<Rightarrow> (nat \<Rightarrow> io_env) \<Rightarrow> string \<Rightarrow> path \<Rightarrow> path \<Rightarrow> remote_http_metadata \<Rightarrow> u64 \<Rightarrow> unit restart_act" where
  "finish_download env io i dest metadata_path rm downloaded =
     (if downloaded < rm_size rm
      then fail (DlSource (''Download ended early: expected '' @ show_nat (rm_size rm) @ '' bytes, got '' @ show_nat downloaded))
      else
        and_do (disk_act (io_msg env ''Failed to flush file: '') (fs_flush (io 8) dest))
       (and_do (set_state env (io 9) i VerifyingSha downloaded (Some (rm_size rm)) (rm_etag rm) None True)
       (and_do (\<lambda>s. case expected_sha i s of
                  None \<Rightarrow> (Ok (), s)
                | Some expected \<Rightarrow>
                    and_then (restart_verify_hash env (io 10) dest expected)
                      (\<lambda>actual. update_metadata_only env (io 11) i (\<lambda>m. m\<lparr>dm_sha256_final := Some actual\<rparr>)) s)
       (and_do (set_state env (io 12) i FinalizingIo downloaded (Some (rm_size rm)) (rm_etag rm) None True)
       (and_do (remove_metadata_file (io 13) metadata_path)
               (set_state env (io 14) i Completed downloaded (Some (rm_size rm)) (rm_etag rm) None False))))))"

definition run_download_state_machine ::
  "restart_env \<Rightarrow> (nat \<Rightarrow> io_env) \<Rightarrow> http_server \<Rightarrow> worker_job \<Rightarrow> unit restart_act" where
  "run_download_state_machine env io sv j =
     (let i = wj_download_id j; dest = wj_destination_path j
      in if \<not> starts_with ''http'' (wj_source_url j)
         then fail (DlInvalid ''Restartable downloads currently support HTTP sources only'')
         else
           and_do (set_state env (io 0) i PreparingHead 0 None None None False)
          (and_then (of_result (fetch_remote_http_metadata env (sv_head sv)))
          (\<lambda>rm. and_do (update_metadata_only env (io 0) i
                 (\<lambda>m. m\<lparr>dm_expected_size := Some (rm_size rm), dm_etag := rm_etag rm, dm_last_modified := rm_last_modified rm\<rparr>))
          (and_do (set_state env (io 1) i ValidatingMetadata 0 (Some (rm_size rm)) (rm_etag rm) None True)
          (and_then (prepare_destination_file env (io 2) i dest (rm_size rm) (rm_etag rm))
          (\<lambda>resume_offset. and_do (set_state env (io 3) i PreflightStorage resume_offset (Some (rm_size rm)) (rm_etag rm) None True)
          (and_do (open_destination env (io 4) dest resume_offset)
          (and_do (set_state env (io 4) i Downloading resume_offset (Some (rm_size rm)) (rm_etag rm) None True)
          (and_then (start_body env io sv i dest rm resume_offset)
          (\<lambda>evs. and_then (receive env (io 7) i dest (wj_cancel_token j) evs resume_offset resume_offset)
          (\<lambda>downloaded. finish_download env io i dest (wj_metadata_path j) rm downloaded)))))))))))"

definition update_state_with_error :: "string \<Rightarrow> download_state \<Rightarrow> string \<Rightarrow> restart_state \<Rightarrow> restart_state" where
  "update_state_with_error i st err s =
     (case rs_downloads s i of None \<Rightarrow> s
      | Some t \<Rightarrow> set_task i (t\<lparr>dt_status := (dt_status t)\<lparr>ds_state := st, ds_last_error := Some err\<rparr>\<rparr>) s)"

definition run_worker :: "restart_env \<Rightarrow> (nat \<Rightarrow> io_env) \<Rightarrow> http_server \<Rightarrow> worker_job \<Rightarrow> restart_state \<Rightarrow> restart_state" where
  "run_worker env io sv j s =
     (case run_download_state_machine env io sv j s of
        (Inr _, s1) \<Rightarrow> s1
      | (Inl DlCancelled, s1) \<Rightarrow> s1
      | (Inl e, s1) \<Rightarrow> update_state_with_error (wj_download_id j) Failed (show_download_error e) s1)"

definition job_of :: "string \<Rightarrow> restart_task \<Rightarrow> worker_job" where
  "job_of i t =
     \<lparr>wj_download_id = i, wj_source_url = dm_url (dt_metadata t), wj_destination_path = dt_destination_path t,
      wj_metadata_path = dt_metadata_path t, wj_cancel_token = dt_cancel_token t\<rparr>"

definition spawn_download_worker :: "string \<Rightarrow> unit restart_act" where
  "spawn_download_worker i = with_task i (\<lambda>t s. (Ok (), s\<lparr>rs_spawned := rs_spawned s @ [job_of i t]\<rparr>))"

section \<open>The calls of the front end\<close>

definition new_token :: "restart_state \<Rightarrow> nat \<times> restart_state" where
  "new_token s = (rs_next_token s, s\<lparr>rs_next_token := Suc (rs_next_token s)\<rparr>)"

definition get_status :: "string \<Rightarrow> restart_state \<Rightarrow> (download_error, download_status) result" where
  "get_status i s = ok_or DlNotFound (map_option dt_status (rs_downloads s i))"


definition pause_download :: "restart_env \<Rightarrow> io_env \<Rightarrow> string \<Rightarrow> unit restart_act" where
  "pause_download env io i =
     with_task i (\<lambda>t s.
       if ds_state (dt_status t) \<noteq> Downloading \<and> ds_state (dt_status t) \<noteq> PersistingProgress
       then (Err (DlInvalid ''cannot pause download in current state''), s)
       else
         let (token, s1) = new_token s;
             status = (dt_status t)\<lparr>ds_state := Paused\<rparr>;
             s2 = set_task i (t\<lparr>dt_status := status, dt_cancel_token := token\<rparr>) s1
         in and_do (emit_status env status)
           (\<lambda>s3. persist_current_metadata env io i (s3\<lparr>rs_cancelled := insert (dt_cancel_token t) (rs_cancelled s3)\<rparr>)) s2)"

definition resume_download :: "restart_env \<Rightarrow> string \<Rightarrow> unit restart_act" where
  "resume_download env i =
     with_task i (\<lambda>t s.
       if ds_state (dt_status t) \<noteq> Paused \<and> ds_state (dt_status t) \<noteq> AwaitingResume
       then (Err (DlInvalid ''cannot resume download in current state''), s)
       else
         let (token, s1) = new_token s;
             status = (dt_status t)\<lparr>ds_state := Downloading, ds_last_error := None\<rparr>;
             s2 = set_task i (t\<lparr>dt_status := status, dt_cancel_token := token\<rparr>) s1
         in and_do (emit_status env status) (spawn_download_worker i) s2)"

section \<open>The simulated download\<close>

definition update_state :: "string \<Rightarrow> download_state \<Rightarrow> u64 option \<Rightarrow> string option \<Rightarrow> restart_state \<Rightarrow> restart_state" where
  "update_state i st expected_size etag s =
     (case rs_downloads s i of None \<Rightarrow> s
      | Some t \<Rightarrow>
          let t1 = t\<lparr>dt_status := (dt_status t)\<lparr>ds_state := st\<rparr>\<rparr>;
              t2 = (case expected_size of None \<Rightarrow> t1
                    | Some e \<Rightarrow> t1\<lparr>dt_status := (dt_status t1)\<lparr>ds_expected_size := Some e\<rparr>,
                                   dt_metadata := (dt_metadata t1)\<lparr>dm_expected_size := Some e\<rparr>\<rparr>);
              t3 = (case etag of None \<Rightarrow> t2
                    | Some tag \<Rightarrow> t2\<lparr>dt_status := (dt_status t2)\<lparr>ds_etag := Some tag\<rparr>,
                                     dt_metadata := (dt_metadata t2)\<lparr>dm_etag := Some tag\<rparr>\<rparr>)
          in set_task i t3 s)"

text \<open>\<open>other k\<close> is what other tasks do while the simulation sleeps for the \<open>k\<close>-th time. \<open>None\<close>: the simulation has stopped.\<close>

definition simulate_round :: "(nat \<Rightarrow> restart_state \<Rightarrow> restart_state) \<Rightarrow> string \<Rightarrow> bool \<times> restart_state \<Rightarrow> nat \<Rightarrow> bool \<times> restart_state" where
  "simulate_round other i = (\<lambda>(stopped, s) k.
     if stopped then (True, s)
     else let s1 = other (k + 2) s
          in case rs_downloads s1 i of
               None \<Rightarrow> (True, s1)
             | Some t \<Rightarrow>
                 if ds_state (dt_status t) = Paused then (True, s1)
                 else (False, set_task i (t\<lparr>dt_status := (dt_status t)\<lparr>ds_bytes_downloaded := 10 * 1024 * 1024 * k div 10,
                        ds_state := (if k mod 2 = 0 then PersistingProgress else Downloading)\<rparr>\<rparr>) s1))"

definition simulate_download :: "(nat \<Rightarrow> restart_state \<Rightarrow> restart_state) \<Rightarrow> string \<Rightarrow> restart_state \<Rightarrow> restart_state" where
  "simulate_download other i s =
     (let total = Some (10 * 1024 * 1024); tag = Some (CHR 0x22 # ''test-etag-123'' @ [CHR 0x22]);
          s1 = update_state i Handshake None None (other 0 s);
          s2 = update_state i PreparingHead total tag (other 1 s1);
          s3 = update_state i Downloading total tag (other 2 s2);
          (stopped, s4) = foldl (simulate_round other i) (False, s3) [1 ..< 11]
      in if stopped then s4
         else let s5 = other 14 (update_state i VerifyingSha total tag (other 13 s4))
              in case rs_downloads s5 i of None \<Rightarrow> s5
                 | Some t \<Rightarrow> set_task i (t\<lparr>dt_status := (dt_status t)\<lparr>ds_state := Completed, ds_bytes_downloaded := 10 * 1024 * 1024\<rparr>,
                                         dt_metadata := (dt_metadata t)\<lparr>dm_sha256_final := Some ''abc123def456...''\<rparr>\<rparr>) s5)"

record download_metrics =
  dmt_retry_count :: u32
  dmt_restart_count :: u32
  dmt_lease_renewal_count :: u32
  dmt_last_failure_reason :: "string option"

definition default_download_metrics :: download_metrics where
  "default_download_metrics = \<lparr>dmt_retry_count = 0, dmt_restart_count = 0, dmt_lease_renewal_count = 0, dmt_last_failure_reason = None\<rparr>"

section \<open>Paths\<close>

lemma metadata_path_neq: "metadata_path_for p \<noteq> p"
proof (cases "file_name p")
  case None
  have "length (p @ [n]) \<noteq> length p" for n by simp
  then show ?thesis using None unfolding metadata_path_for_def with_file_name_def by (metis option.simps(4))
next
  case (Some n)
  then have p: "p \<noteq> []" "last p = n" by (auto simp: file_name_def split: if_splits)
  have "length (''.'' @ n @ ''.chiral.meta.json'') \<noteq> length n" by simp
  then have "last (metadata_path_for p) \<noteq> last p" using Some p by (auto simp: metadata_path_for_def with_file_name_def)
  then show ?thesis by metis
qed

section \<open>Runs without faults\<close>

text \<open>What the worker's own calls leave alone: the identity of its task, tokens and spawned workers.\<close>

definition frame :: "string \<Rightarrow> restart_state \<Rightarrow> (path \<times> path \<times> string option \<times> string \<times> nat) option \<times> nat set \<times> nat \<times> worker_job list" where
  "frame i s = (map_option (\<lambda>t. (dt_destination_path t, dt_metadata_path t, dm_expected_sha256 (dt_metadata t), dm_url (dt_metadata t),
      dt_cancel_token t)) (rs_downloads s i), rs_cancelled s, rs_next_token s, rs_spawned s)"

definition at_state :: "string \<Rightarrow> download_state \<Rightarrow> u64 \<Rightarrow> restart_state \<Rightarrow> bool" where
  "at_state i st n s \<longleftrightarrow> (\<exists>t. rs_downloads s i = Some t \<and> ds_state (dt_status t) = st \<and> ds_bytes_downloaded (dt_status t) = n)"

definition etag_is :: "string \<Rightarrow> string option \<Rightarrow> restart_state \<Rightarrow> bool" where
  "etag_is i e s \<longleftrightarrow> (\<exists>t. rs_downloads s i = Some t \<and> dm_etag (dt_metadata t) = e)"

definition env_ok :: "restart_env \<Rightarrow> bool" where
  "env_ok env \<longleftrightarrow> (\<forall>st. de_emit env st = None) \<and> (\<forall>m. is_ok (de_to_json env m))"

lemma emit_status_ok: "env_ok env \<Longrightarrow> emit_status env st s = (Ok (), s)"
  by (simp add: emit_status_def env_ok_def)

lemma persist_metadata_ok:
  assumes "env_ok env"
  shows "\<exists>b. persist_metadata env no_faults mp md s = (Ok (), s\<lparr>rs_disk := (rs_disk s)(mp \<mapsto> b)\<rparr>)"
proof -
  from assms obtain b where b: "de_to_json env md = Inr b" by (auto simp: env_ok_def is_ok_iff)
  have "persist_metadata env no_faults mp md s = (Ok (), s\<lparr>rs_disk := (rs_disk s)(mp \<mapsto> b)\<rparr>)"
    by (cases "parent mp") (simp_all add: persist_metadata_def and_then_def b fs_mkdir_def disk_act_def fs_write_def)
  then show ?thesis by blast
qed

lemma put_state_facts:
  "dt_destination_path (put_state st n es et le t) = dt_destination_path t"
  "dt_metadata_path (put_state st n es et le t) = dt_metadata_path t"
  "dt_cancel_token (put_state st n es et le t) = dt_cancel_token t"
  "dm_expected_sha256 (dt_metadata (put_state st n es et le t)) = dm_expected_sha256 (dt_metadata t)"
  "dm_url (dt_metadata (put_state st n es et le t)) = dm_url (dt_metadata t)"
  "ds_state (dt_status (put_state st n es et le t)) = st"
  "ds_bytes_downloaded (dt_status (put_state st n es et le t)) = n"
  "dm_etag (dt_metadata (put_state st n es et le t)) = (case et of None \<Rightarrow> dm_etag (dt_metadata t) | Some e \<Rightarrow> Some e)"
  by (auto simp: put_state_def Let_def split: option.split)

lemma set_state_quiet:
  assumes "env_ok env" "rs_downloads s i = Some t"
  shows "\<exists>d. set_state env no_faults i st n es et le p s =
      (Ok (), (set_task i (put_state st n es et le t) s)\<lparr>rs_disk := d\<rparr>) \<and> (\<forall>q. q \<noteq> dt_metadata_path t \<longrightarrow> d q = rs_disk s q)"
proof (cases p)
  case True
  let ?t = "put_state st n es et le t"
  obtain b where b: "persist_metadata env no_faults (dt_metadata_path t) (dt_metadata ?t) (set_task i ?t s)
      = (Ok (), (set_task i ?t s)\<lparr>rs_disk := (rs_disk (set_task i ?t s))(dt_metadata_path t \<mapsto> b)\<rparr>)"
    using persist_metadata_ok [OF assms(1)] by blast
  have "set_state env no_faults i st n es et le p s =
      (Ok (), (set_task i ?t s)\<lparr>rs_disk := (rs_disk (set_task i ?t s))(dt_metadata_path t \<mapsto> b)\<rparr>)"
    using True assms by (simp add: set_state_def with_task_def and_then_def Let_def put_state_facts b emit_status_ok)
  then show ?thesis by (intro exI [of _ "(rs_disk s)(dt_metadata_path t \<mapsto> b)"]) (simp add: set_task_def)
next
  case False
  then show ?thesis using assms
    by (intro exI [of _ "rs_disk s"]) (simp add: set_state_def with_task_def and_then_def emit_status_ok set_task_def)
qed

text \<open>The view of the worker: its task's frame, and the content of the destination.\<close>

definition sees :: "string \<Rightarrow> path \<Rightarrow> (path \<times> path \<times> string option \<times> string \<times> nat) option \<times> nat set \<times> nat \<times> worker_job list
    \<Rightarrow> bytes option \<Rightarrow> restart_state \<Rightarrow> bool" where
  "sees i dest F c s \<longleftrightarrow> frame i s = F \<and> rs_disk s dest = c"

definition framed :: "path \<Rightarrow> (path \<times> path \<times> string option \<times> string \<times> nat) option \<times> nat set \<times> nat \<times> worker_job list \<Rightarrow> bool" where
  "framed dest F \<longleftrightarrow> (\<exists>mp e u tk. fst F = Some (dest, mp, e, u, tk) \<and> mp \<noteq> dest)"

lemma sees_task:
  assumes "sees i dest F c s" "framed dest F"
  shows "\<exists>t. rs_downloads s i = Some t \<and> dt_metadata_path t \<noteq> dest \<and> dt_destination_path t = dest"
  using assms by (auto simp: sees_def frame_def framed_def)

lemma set_state_runs:
  assumes "env_ok env" "framed dest F"
  shows "runs (sees i dest F c) (set_state env no_faults i st n es et le p) (\<lambda>_ s. sees i dest F c s \<and> at_state i st n s)"
    and "runs (\<lambda>s. sees i dest F c s \<and> etag_is i e s) (set_state env no_faults i st n es e le p)
      (\<lambda>_ s. sees i dest F c s \<and> at_state i st n s \<and> etag_is i e s)"
proof -
  have main: "\<exists>s'. set_state env no_faults i st n es et le p s = (Ok (), s') \<and> sees i dest F c s' \<and> at_state i st n s' \<and>
    (et = e \<longrightarrow> etag_is i e s \<longrightarrow> etag_is i e s')" if "sees i dest F c s" for s et
  proof -
    from sees_task [OF that assms(2)] obtain t where t: "rs_downloads s i = Some t" "dt_metadata_path t \<noteq> dest" by blast
    from set_state_quiet [OF assms(1) t(1), of st n es et le p] obtain d where
      d: "set_state env no_faults i st n es et le p s = (Ok (), (set_task i (put_state st n es et le t) s)\<lparr>rs_disk := d\<rparr>)"
        "\<And>q. q \<noteq> dt_metadata_path t \<Longrightarrow> d q = rs_disk s q" by blast
    have "d dest = rs_disk s dest" using d(2) t(2) by metis
    then show ?thesis using that t d(1)
      by (auto simp: sees_def frame_def at_state_def etag_is_def set_task_def put_state_facts split: option.splits)
  qed
  show "runs (sees i dest F c) (set_state env no_faults i st n es et le p) (\<lambda>_ s. sees i dest F c s \<and> at_state i st n s)"
    by (rule runsI) (use main [where et = et] in blast)
  show "runs (\<lambda>s. sees i dest F c s \<and> etag_is i e s) (set_state env no_faults i st n es e le p)
      (\<lambda>_ s. sees i dest F c s \<and> at_state i st n s \<and> etag_is i e s)"
    by (rule runsI) (use main [where et = e] in blast)
qed

lemma update_metadata_runs:
  assumes "env_ok env" "framed dest F"
    "\<And>m. dm_expected_sha256 (f m) = dm_expected_sha256 m" "\<And>m. dm_url (f m) = dm_url m"
  shows "runs (sees i dest F c) (update_metadata_only env no_faults i f)
    (\<lambda>_ s. sees i dest F c s \<and> (\<forall>e. (\<forall>m. dm_etag (f m) = e) \<longrightarrow> etag_is i e s))"
proof (rule runsI)
  fix s assume s: "sees i dest F c s"
  from sees_task [OF this assms(2)] obtain t where t: "rs_downloads s i = Some t" "dt_metadata_path t \<noteq> dest" by blast
  let ?t = "t\<lparr>dt_metadata := f (dt_metadata t)\<rparr>"
  obtain b where b: "persist_metadata env no_faults (dt_metadata_path t) (f (dt_metadata t)) (set_task i ?t s) =
    (Ok (), (set_task i ?t s)\<lparr>rs_disk := (rs_disk (set_task i ?t s))(dt_metadata_path t \<mapsto> b)\<rparr>)"
    using persist_metadata_ok [OF assms(1)] by blast
  then show "\<exists>x s'. update_metadata_only env no_faults i f s = (Inr x, s') \<and> sees i dest F c s' \<and>
      (\<forall>e. (\<forall>m. dm_etag (f m) = e) \<longrightarrow> etag_is i e s')"
    using s t assms(3,4)
    by (auto simp: update_metadata_only_def with_task_def sees_def frame_def etag_is_def set_task_def)
qed

lemma prepare_runs:
  assumes "framed dest F"
  shows "runs (\<lambda>s. sees i dest F c s \<and> etag_is i e s) (prepare_destination_file env no_faults i dest sz e)
    (\<lambda>n s. n = (case c of None \<Rightarrow> 0 | Some b \<Rightarrow> min (length b) sz) \<and> sees i dest F c s)"
proof (rule runsI)
  fix s assume s: "sees i dest F c s \<and> etag_is i e s"
  have "\<not> should_reset i e s" using s by (auto simp: should_reset_def etag_is_def split: option.split)
  then show "\<exists>n s'. prepare_destination_file env no_faults i dest sz e s = (Inr n, s') \<and>
      n = (case c of None \<Rightarrow> 0 | Some b \<Rightarrow> min (length b) sz) \<and> sees i dest F c s'"
    using s by (cases "parent dest"; cases c) (simp_all add: prepare_destination_file_def and_then_def fs_mkdir_def fs_len_def sees_def Let_def)
qed

lemma open_runs:
  assumes "n \<le> length (case c of None \<Rightarrow> [] | Some b \<Rightarrow> b)"
  shows "runs (sees i dest F c) (open_destination env no_faults dest n)
    (\<lambda>_. sees i dest F (Some (if n = 0 then (case c of None \<Rightarrow> [] | Some b \<Rightarrow> b) else take n (case c of None \<Rightarrow> [] | Some b \<Rightarrow> b))))"
  by (rule runsI) (use assms in \<open>auto simp: open_destination_def and_then_def disk_act_def fs_open_create_def fs_seek_def fs_set_len_def
      sees_def frame_def split: option.splits\<close>)

lemma write_at_end: "write_at (length c) b c = c @ b"
  by (simp add: write_at_def)

lemma write_chunk_runs:
  assumes "env_ok env" "framed dest F" "length c + length b < 2 ^ 64"
  shows "runs (sees i dest F (Some c)) (write_chunk env no_faults i dest b due (length c) lp)
    (\<lambda>(n, lp') s. n = length (c @ b) \<and> sees i dest F (Some (c @ b)) s \<and> at_state i Downloading (length (c @ b)) s)"
proof (rule runsI)
  fix s assume s: "sees i dest F (Some c) s"
  let ?s1 = "append_at dest (length c) b s"
  let ?s2 = "put_progress i (length c + length b) ?s1"
  from s have 1: "sees i dest F (Some (c @ b)) ?s1" by (auto simp: sees_def append_at_def frame_def write_at_end)
  from sees_task [OF this assms(2)] have 2: "sees i dest F (Some (c @ b)) ?s2" "at_state i Downloading (length (c @ b)) ?s2"
    using 1 by (auto simp: sees_def frame_def put_progress_def set_task_def at_state_def)
  from sees_task [OF 2(1) assms(2)] obtain t where t: "rs_downloads ?s2 i = Some t" "dt_metadata_path t \<noteq> dest" by blast
  obtain x where x: "persist_metadata env no_faults (dt_metadata_path t) (dt_metadata t) ?s2 =
    (Ok (), ?s2\<lparr>rs_disk := (rs_disk ?s2)(dt_metadata_path t \<mapsto> x)\<rparr>)" using persist_metadata_ok [OF assms(1)] by blast
  show "\<exists>r s'. write_chunk env no_faults i dest b due (length c) lp s = (Inr r, s') \<and>
      (case r of (n, lp') \<Rightarrow> \<lambda>s. n = length (c @ b) \<and> sees i dest F (Some (c @ b)) s \<and> at_state i Downloading (length (c @ b)) s) s'"
    using assms(1,3) 2 t x
    by (simp add: write_chunk_def Let_def and_then_def persist_current_metadata_def status_snapshot_def with_task_def emit_status_ok
        sees_def frame_def at_state_def)
qed

text \<open>Pieces of a body that arrive without trouble, each with the flag of a due progress event.\<close>

definition pieces :: "(bytes \<times> bool) list \<Rightarrow> stream_event list" where
  "pieces xs = map (\<lambda>(b, due). EvChunk b due no_faults) xs"

definition body_of :: "(bytes \<times> bool) list \<Rightarrow> bytes" where
  "body_of xs = concat (map fst xs)"

lemma receive_pieces:
  assumes "env_ok env" "framed dest F" "tk \<notin> fst (snd F)" "length c + length (body_of xs) < 2 ^ 64"
    and "sees i dest F (Some c) s" "at_state i Downloading (length c) s"
  shows "\<exists>s' lp'. receive env io i dest tk (pieces xs @ rest) (length c) lp s = receive env io i dest tk rest (length (c @ body_of xs)) lp' s' \<and>
    sees i dest F (Some (c @ body_of xs)) s' \<and> at_state i Downloading (length (c @ body_of xs)) s'"
  using assms(4-6)
proof (induction xs arbitrary: c s lp)
  case Nil
  then show ?case by (auto simp: pieces_def body_of_def)
next
  case (Cons x xs)
  obtain b due where x: "x = (b, due)" by (cases x)
  have len: "length c + length b < 2 ^ 64" "length (c @ b) + length (body_of xs) < 2 ^ 64"
    using Cons.prems(1) x by (simp_all add: body_of_def)
  from runsD [OF write_chunk_runs [OF assms(1,2) len(1)] Cons.prems(2), of due lp] obtain lp' s' where
    s': "write_chunk env no_faults i dest b due (length c) lp s = (Inr (length (c @ b), lp'), s')"
      "sees i dest F (Some (c @ b)) s'" "at_state i Downloading (length (c @ b)) s'" by auto
  have "tk \<notin> rs_cancelled s" using Cons.prems(2) assms(3) by (auto simp: sees_def frame_def)
  then have "receive env io i dest tk (pieces (x # xs) @ rest) (length c) lp s = receive env io i dest tk (pieces xs @ rest) (length (c @ b)) lp' s'"
    using s'(1) by (simp add: x pieces_def or_cancelled_def and_then_Ok)
  with Cons.IH [OF len(2) s'(2,3), of lp'] show ?case by (simp add: x body_of_def)
qed

lemma set_state_keeps_disk: "snd (set_state env io i st n es et le False s) = s' \<Longrightarrow> rs_disk s' = rs_disk s"
  by (auto simp: set_state_def with_task_def and_then_def Let_def emit_status_def set_task_def split: option.splits)

lemma set_state_last:
  assumes "env_ok env" "framed dest F"
  shows "runs (\<lambda>s. sees i dest F c s \<and> rs_disk s mp = None) (set_state env no_faults i st n es et le False)
    (\<lambda>_ s. sees i dest F c s \<and> at_state i st n s \<and> rs_disk s mp = None)"
proof (rule runsI)
  fix s assume s: "sees i dest F c s \<and> rs_disk s mp = None"
  with runsD [OF set_state_runs(1) [OF assms]] obtain x s' where "set_state env no_faults i st n es et le False s = (Inr x, s')"
    "sees i dest F c s'" "at_state i st n s'" by blast
  with s set_state_keeps_disk [of env no_faults i st n es et le s s'] show
    "\<exists>x s'. set_state env no_faults i st n es et le False s = (Inr x, s') \<and> sees i dest F c s' \<and> at_state i st n s' \<and> rs_disk s' mp = None"
    by auto
qed

lemma remove_metadata_runs:
  "mp \<noteq> dest \<Longrightarrow> runs (sees i dest F c) (remove_metadata_file no_faults mp) (\<lambda>_ s. sees i dest F c s \<and> rs_disk s mp = None)"
  by (rule runsI) (auto simp: remove_metadata_file_def sees_def frame_def fs_remove_def split: option.splits)

text \<open>The hash of the content is the expected one, if one is expected.\<close>

definition hash_matches :: "restart_env \<Rightarrow> string option \<Rightarrow> bytes \<Rightarrow> bool" where
  "hash_matches env expected b = (case expected of None \<Rightarrow> True | Some e \<Rightarrow> to_ascii_lowercase (trim e) = hex_encode (de_sha256 env b))"

lemma check_hash_runs:
  assumes "env_ok env" "framed dest F" "fst F = Some (d, mp, exp, u, tk)" "hash_matches env exp c"
  shows "runs (sees i dest F (Some c))
    (\<lambda>s. case expected_sha i s of None \<Rightarrow> (Ok (), s)
       | Some expected \<Rightarrow> and_then (restart_verify_hash env no_faults dest expected)
           (\<lambda>actual. update_metadata_only env no_faults i (\<lambda>m. m\<lparr>dm_sha256_final := Some actual\<rparr>)) s)
    (\<lambda>_. sees i dest F (Some c))"
proof (rule runsI)
  fix s assume s: "sees i dest F (Some c) s"
  then have e: "expected_sha i s = exp" using assms(3) by (auto simp: expected_sha_def sees_def frame_def)
  show "\<exists>x s'. (case expected_sha i s of None \<Rightarrow> (Ok (), s)
       | Some expected \<Rightarrow> and_then (restart_verify_hash env no_faults dest expected)
           (\<lambda>actual. update_metadata_only env no_faults i (\<lambda>m. m\<lparr>dm_sha256_final := Some actual\<rparr>)) s) = (Inr x, s') \<and> sees i dest F (Some c) s'"
  proof (cases exp)
    case None
    with s e show ?thesis by simp
  next
    case (Some h)
    let ?a = "hex_encode (de_sha256 env c)"
    have "restart_verify_hash env no_faults dest h s = (Inr ?a, s)"
      using s assms(4) Some by (simp add: restart_verify_hash_def fs_read_def sees_def hash_matches_def)
    with runsD [OF update_metadata_runs [OF assms(1,2)] s, of "\<lambda>m. m\<lparr>dm_sha256_final := Some ?a\<rparr>"] Some e show ?thesis
      by (auto simp: and_then_Ok)
  qed
qed

lemma finish_runs:
  assumes "env_ok env" "framed dest F" "fst F = Some (d, mp', exp, u, tk)" "hash_matches env exp c" "rm_size rm \<le> length c" "mp \<noteq> dest"
  shows "runs (sees i dest F (Some c)) (finish_download env (\<lambda>_. no_faults) i dest mp rm (length c))
    (\<lambda>_ s. sees i dest F (Some c) s \<and> at_state i Completed (length c) s \<and> rs_disk s mp = None)"
proof -
  note ss = set_state_runs(1) [OF assms(1,2), THEN hoare_weaken]
  have flush: "runs (sees i dest F (Some c)) (disk_act f (fs_flush no_faults dest)) (\<lambda>_. sees i dest F (Some c))" for f
    by (rule runsI) (simp add: disk_act_def fs_flush_def sees_def frame_def)
  show ?thesis unfolding finish_download_def
    apply (rule hoare_if)
    subgoal using assms(5) by simp
    apply (rule hoare_then [OF flush])
    apply (rule hoare_then [OF ss], assumption, erule conjunct1, assumption)
    apply (rule hoare_then [OF check_hash_runs [OF assms(1,2,3,4)]])
    apply (rule hoare_then [OF ss], assumption, erule conjunct1, assumption)
    apply (rule hoare_then [OF remove_metadata_runs [OF assms(6)]])
    apply (rule set_state_last [OF assms(1,2)])
    done
qed

text \<open>Everything before the body: the tail of the worker starts with the part of the file that is kept.\<close>

lemma run_chain:
  fixes c
  defines "b \<equiv> (case c of None \<Rightarrow> [] | Some b \<Rightarrow> b)"
  assumes "env_ok env" "framed dest F" "starts_with ''http'' (wj_source_url j)" "i = wj_download_id j" "dest = wj_destination_path j"
    and "fetch_remote_http_metadata env (sv_head sv) = Ok rm" "b \<noteq> [] \<Longrightarrow> 0 < rm_size rm" "n = min (length b) (rm_size rm)"
    and tail: "hoare (\<lambda>s. sees i dest F (Some (take n b)) s \<and> at_state i Downloading n s)
      (and_then (start_body env (\<lambda>_. no_faults) sv i dest rm n)
        (\<lambda>evs. and_then (receive env no_faults i dest (wj_cancel_token j) evs n n)
          (finish_download env (\<lambda>_. no_faults) i dest (wj_metadata_path j) rm))) Q E"
  shows "hoare (sees i dest F c) (run_download_state_machine env (\<lambda>_. no_faults) sv j) Q E"
proof -
  note ss = set_state_runs(1) [OF assms(2,3), THEN hoare_weaken]
  have n: "n = (case c of None \<Rightarrow> 0 | Some b \<Rightarrow> min (length b) (rm_size rm))" unfolding assms(9) b_def by (cases c) auto
  have keep: "(if n = 0 then b else take n b) = take n b" using assms(8,9) by (cases "b = []") auto
  have opn: "runs (sees i dest F c) (open_destination env no_faults dest n) (\<lambda>_. sees i dest F (Some (take n b)))"
    using open_runs [of n c i dest F env] assms(9) keep unfolding b_def by simp
  have prep: "runs (\<lambda>s. sees i dest F c s \<and> at_state i st m s \<and> etag_is i (rm_etag rm) s)
      (prepare_destination_file env no_faults i dest (rm_size rm) (rm_etag rm)) (\<lambda>m s. m = n \<and> sees i dest F c s)" for st m
    by (rule hoare_weaken [OF prepare_runs [OF assms(3), of i c "rm_etag rm" env "rm_size rm"]]) (simp_all add: n)
  have run: "run_download_state_machine env (\<lambda>_. no_faults) sv j =
     and_do (set_state env no_faults i PreparingHead 0 None None None False)
    (and_do (update_metadata_only env no_faults i
       (\<lambda>m. m\<lparr>dm_expected_size := Some (rm_size rm), dm_etag := rm_etag rm, dm_last_modified := rm_last_modified rm\<rparr>))
    (and_do (set_state env no_faults i ValidatingMetadata 0 (Some (rm_size rm)) (rm_etag rm) None True)
    (and_then (prepare_destination_file env no_faults i dest (rm_size rm) (rm_etag rm))
    (\<lambda>n. and_do (set_state env no_faults i PreflightStorage n (Some (rm_size rm)) (rm_etag rm) None True)
    (and_do (open_destination env no_faults dest n)
    (and_do (set_state env no_faults i Downloading n (Some (rm_size rm)) (rm_etag rm) None True)
    (and_then (start_body env (\<lambda>_. no_faults) sv i dest rm n)
    (\<lambda>evs. and_then (receive env no_faults i dest (wj_cancel_token j) evs n n)
      (finish_download env (\<lambda>_. no_faults) i dest (wj_metadata_path j) rm)))))))))"
    using assms(4-7) by (simp add: run_download_state_machine_def Let_def)
  show ?thesis unfolding run
    apply (rule runs_then [OF ss], assumption, erule conjunct1, assumption)
    apply (rule runs_then [OF hoare_weaken [OF update_metadata_runs [OF assms(2,3)]], where R = "\<lambda>_ s. sees i dest F c s \<and> etag_is i (rm_etag rm) s"])
    apply (simp, simp, assumption, simp, assumption)
    apply (rule runs_then [OF set_state_runs(2) [OF assms(2,3)]])
    apply (rule runs_then [OF prep])
    apply (rule hoare_fixed)
    apply (simp only:)
    apply (rule runs_then [OF ss], assumption, erule conjunct1, assumption)
    apply (rule runs_then [OF opn])
    apply (rule runs_then [OF set_state_runs(1) [OF assms(2,3)]])
    apply (rule tail)
    done
qed

lemma start_body_serving:
  "sv_get sv 0 (if 0 < n then Some n else None) = Ok (if 0 < n then 206 else 200, evs) \<Longrightarrow> start_body env io sv i dest rm n = ret evs"
  by (auto simp: fun_eq_iff start_body_def send_get_def check_status_def split: if_splits)

text \<open>A server that honours ranges: its metadata and its content.\<close>

definition serves :: "restart_env \<Rightarrow> http_server \<Rightarrow> remote_http_metadata \<Rightarrow> bytes \<Rightarrow> bool" where
  "serves env sv rm content \<longleftrightarrow> fetch_remote_http_metadata env (sv_head sv) = Ok rm \<and> rm_size rm = length content \<and>
     length content < 2 ^ 64 \<and>
     (\<exists>xs. sv_get sv 0 None = Ok (200, pieces xs) \<and> body_of xs = content) \<and>
     (\<forall>n. 0 < n \<longrightarrow> n < length content \<longrightarrow> (\<exists>xs. sv_get sv 0 (Some n) = Ok (206, pieces xs) \<and> body_of xs = drop n content))"

lemma served_body:
  assumes "serves env sv rm content" "n = 0 \<or> n < length content"
  shows "\<exists>xs. sv_get sv 0 (if 0 < n then Some n else None) = Ok (if 0 < n then 206 else 200, pieces xs) \<and> body_of xs = drop n content"
  using assms by (cases "n = 0") (auto simp: serves_def)

text \<open>A download that starts with the bytes \<open>b\<close> ends with those and the rest of the server's content.\<close>

lemma resumed_content:
  fixes c
  defines "b \<equiv> (case c of None \<Rightarrow> [] | Some b \<Rightarrow> b)"
  assumes "env_ok env" "starts_with ''http'' (wj_source_url j)" "serves env sv rm content"
    and "fst F = Some (wj_destination_path j, wj_metadata_path j, exp, u, tk)" "wj_metadata_path j \<noteq> wj_destination_path j"
    and "wj_cancel_token j \<notin> fst (snd F)" "b = [] \<or> length b < length content" "hash_matches env exp (b @ drop (length b) content)"
  shows "runs (sees (wj_download_id j) (wj_destination_path j) F c) (run_download_state_machine env (\<lambda>_. no_faults) sv j)
    (\<lambda>_ s. sees (wj_download_id j) (wj_destination_path j) F (Some (b @ drop (length b) content)) s \<and>
      at_state (wj_download_id j) Completed (length content) s \<and> rs_disk s (wj_metadata_path j) = None)"
proof -
  let ?i = "wj_download_id j" and ?dest = "wj_destination_path j" and ?new = "b @ drop (length b) content"
  have fr: "framed ?dest F" using assms(5,6) by (auto simp: framed_def)
  have sz: "rm_size rm = length content" "length content < 2 ^ 64" using assms(4) by (auto simp: serves_def)
  have n: "length b = min (length b) (rm_size rm)" using assms(8) sz by auto
  obtain xs where xs: "sv_get sv 0 (if 0 < length b then Some (length b) else None) = Ok (if 0 < length b then 206 else 200, pieces xs)"
    "body_of xs = drop (length b) content" using served_body [OF assms(4), of "length b"] assms(8) by auto
  have len: "length ?new = length content" "length b + length (body_of xs) < 2 ^ 64" using assms(8) sz xs(2) by auto
  have rec: "runs (\<lambda>s. sees ?i ?dest F (Some b) s \<and> at_state ?i Downloading (length b) s)
     (receive env no_faults ?i ?dest (wj_cancel_token j) (pieces xs) (length b) (length b))
     (\<lambda>m s. m = length ?new \<and> sees ?i ?dest F (Some ?new) s)"
  proof (rule runsI)
    fix s assume s: "sees ?i ?dest F (Some b) s \<and> at_state ?i Downloading (length b) s"
    from receive_pieces [OF assms(2) fr assms(7) len(2) conjunct1 [OF s] conjunct2 [OF s], of no_faults "[]" "length b"] obtain s' lp' where
      s': "receive env no_faults ?i ?dest (wj_cancel_token j) (pieces xs) (length b) (length b) s =
             receive env no_faults ?i ?dest (wj_cancel_token j) [] (length ?new) lp' s'" "sees ?i ?dest F (Some ?new) s'"
      unfolding xs(2) by auto
    then have "wj_cancel_token j \<notin> rs_cancelled s'" using assms(7) by (auto simp: sees_def frame_def)
    with s' show "\<exists>m s'. receive env no_faults ?i ?dest (wj_cancel_token j) (pieces xs) (length b) (length b) s = (Inr m, s') \<and>
        m = length ?new \<and> sees ?i ?dest F (Some ?new) s'" by (simp add: or_cancelled_def)
  qed
  have fin: "runs (sees ?i ?dest F (Some ?new)) (finish_download env (\<lambda>_. no_faults) ?i ?dest (wj_metadata_path j) rm (length ?new))
     (\<lambda>_ s. sees ?i ?dest F (Some ?new) s \<and> at_state ?i Completed (length ?new) s \<and> rs_disk s (wj_metadata_path j) = None)"
    by (rule finish_runs [OF assms(2) fr assms(5,9) _ assms(6)]) (simp add: sz len)
  have "runs (sees ?i ?dest F c) (run_download_state_machine env (\<lambda>_. no_faults) sv j)
     (\<lambda>_ s. sees ?i ?dest F (Some ?new) s \<and> at_state ?i Completed (length ?new) s \<and> rs_disk s (wj_metadata_path j) = None)"
  proof (rule run_chain [OF assms(2) fr assms(3) refl refl, where rm = rm and n = "length b"])
    show "hoare (\<lambda>s. sees ?i ?dest F (Some (take (length b) (case c of None \<Rightarrow> [] | Some b \<Rightarrow> b))) s \<and> at_state ?i Downloading (length b) s)
      (and_then (start_body env (\<lambda>_. no_faults) sv ?i ?dest rm (length b))
        (\<lambda>evs. and_then (receive env no_faults ?i ?dest (wj_cancel_token j) evs (length b) (length b))
          (finish_download env (\<lambda>_. no_faults) ?i ?dest (wj_metadata_path j) rm)))
      (\<lambda>_ s. sees ?i ?dest F (Some ?new) s \<and> at_state ?i Completed (length ?new) s \<and> rs_disk s (wj_metadata_path j) = None) (\<lambda>_ _. False)"
      unfolding start_body_serving [OF xs(1)] and_then_ret b_def [symmetric] take_all [OF order_refl]
      by (rule runs_then [OF rec], rule hoare_fixed, simp only:, rule fin)
  qed (use assms(4,8) n sz in \<open>auto simp: serves_def b_def\<close>)
  then show ?thesis unfolding len(1) .
qed

section \<open>Pausing and resuming\<close>

lemma pause_ok:
  assumes "env_ok env" "F = (Some (dest, mp, e, u, tk), K, k, sp)" "mp \<noteq> dest" "sees i dest F c s" "at_state i Downloading n s"
  shows "\<exists>s'. pause_download env no_faults i s = (Inr (), s') \<and>
    sees i dest (Some (dest, mp, e, u, k), insert tk K, Suc k, sp) c s' \<and> at_state i Paused n s'"
proof -
  from assms(2,4,5) obtain t where t: "rs_downloads s i = Some t" "dt_metadata_path t = mp" "ds_state (dt_status t) = Downloading"
    by (auto simp: sees_def frame_def at_state_def)
  let ?t = "t\<lparr>dt_status := (dt_status t)\<lparr>ds_state := Paused\<rparr>, dt_cancel_token := rs_next_token s\<rparr>"
  let ?s = "(set_task i ?t (s\<lparr>rs_next_token := Suc (rs_next_token s)\<rparr>))\<lparr>rs_cancelled := insert (dt_cancel_token t) (rs_cancelled s)\<rparr>"
  obtain b where b: "persist_metadata env no_faults mp (dt_metadata t) ?s = (Ok (), ?s\<lparr>rs_disk := (rs_disk ?s)(mp \<mapsto> b)\<rparr>)"
    using persist_metadata_ok [OF assms(1)] by blast
  then show ?thesis using t assms
    by (auto simp: pause_download_def with_task_def new_token_def and_then_def emit_status_ok persist_current_metadata_def set_task_def
        sees_def frame_def at_state_def)
qed

lemma resume_ok:
  assumes "env_ok env" "F = (Some (dest, mp, e, u, tk), K, k, sp)" "sees i dest F c s" "at_state i Paused n s"
    and "j = \<lparr>wj_download_id = i, wj_source_url = u, wj_destination_path = dest, wj_metadata_path = mp, wj_cancel_token = k\<rparr>"
  shows "\<exists>s'. resume_download env i s = (Inr (), s') \<and> sees i dest (Some (dest, mp, e, u, k), K, Suc k, sp @ [j]) c s'"
proof -
  from assms(2,3,4) obtain t where "rs_downloads s i = Some t" "ds_state (dt_status t) = Paused"
    by (auto simp: sees_def frame_def at_state_def)
  then show ?thesis using assms
    by (auto simp: resume_download_def with_task_def new_token_def and_then_def emit_status_ok spawn_download_worker_def job_of_def set_task_def
        sees_def frame_def)
qed

lemma cancelled_receive:
  assumes "env_ok env" "F = (Some (dest, mp, e, u, tk), K, k, sp)" "mp \<noteq> dest" "tk \<notin> K"
    and "sees i dest F c s" "at_state i Downloading n s"
  shows "\<exists>s'. receive env no_faults i dest tk [EvOther (\<lambda>s. snd (pause_download env no_faults i s))] m lp s = (Inl DlCancelled, s') \<and>
    sees i dest (Some (dest, mp, e, u, k), insert tk K, Suc k, sp) c s' \<and> at_state i Paused n s'"
proof -
  from pause_ok [OF assms(1-3,5,6)] obtain s1 where s1: "pause_download env no_faults i s = (Inr (), s1)"
    "sees i dest (Some (dest, mp, e, u, k), insert tk K, Suc k, sp) c s1" "at_state i Paused n s1" by blast
  then obtain t where t: "rs_downloads s1 i = Some t" "dt_metadata_path t = mp" "tk \<in> rs_cancelled s1"
    by (auto simp: sees_def frame_def)
  have "tk \<notin> rs_cancelled s" using assms by (auto simp: sees_def frame_def)
  moreover obtain b where "persist_metadata env no_faults mp (dt_metadata t) s1 = (Ok (), s1\<lparr>rs_disk := (rs_disk s1)(mp \<mapsto> b)\<rparr>)"
    using persist_metadata_ok [OF assms(1)] by blast
  ultimately show ?thesis using s1 t assms(3)
    by (simp add: or_cancelled_def persist_current_metadata_def with_task_def and_then_def sees_def frame_def at_state_def)
qed

text \<open>A worker that receives some pieces and is then paused.\<close>

lemma paused_run:
  fixes c
  defines "b \<equiv> (case c of None \<Rightarrow> [] | Some b \<Rightarrow> b)"
  assumes "env_ok env" "F = (Some (dest, mp, e, u, tk), K, k, sp)" "mp \<noteq> dest" "tk \<notin> K"
    and "j = \<lparr>wj_download_id = i, wj_source_url = u, wj_destination_path = dest, wj_metadata_path = mp, wj_cancel_token = tk\<rparr>"
    and "starts_with ''http'' u" "fetch_remote_http_metadata env (sv_head sv) = Ok rm" "b = [] \<or> length b < rm_size rm"
    and "sv_get sv 0 (if 0 < length b then Some (length b) else None) =
      Ok (if 0 < length b then 206 else 200, pieces xs @ [EvOther (\<lambda>s. snd (pause_download env no_faults i s))])"
    and "length b + length (body_of xs) < 2 ^ 64"
  shows "hoare (sees i dest F c) (run_download_state_machine env (\<lambda>_. no_faults) sv j) (\<lambda>_ _. False)
    (\<lambda>err s. err = DlCancelled \<and> sees i dest (Some (dest, mp, e, u, k), insert tk K, Suc k, sp) (Some (b @ body_of xs)) s \<and>
      at_state i Paused (length (b @ body_of xs)) s)"
proof (rule run_chain [OF assms(2), where rm = rm and n = "length b"])
  let ?post = "\<lambda>err s. err = DlCancelled \<and> sees i dest (Some (dest, mp, e, u, k), insert tk K, Suc k, sp) (Some (b @ body_of xs)) s \<and>
      at_state i Paused (length (b @ body_of xs)) s"
  have fr: "framed dest F" and tk: "tk \<notin> fst (snd F)" using assms(3-5) by (auto simp: framed_def)
  have "hoare (\<lambda>s. sees i dest F (Some b) s \<and> at_state i Downloading (length b) s)
     (receive env no_faults i dest tk (pieces xs @ [EvOther (\<lambda>s. snd (pause_download env no_faults i s))]) (length b) (length b)) (\<lambda>_ _. False) ?post"
  proof (rule hoareI)
    fix s assume s: "sees i dest F (Some b) s \<and> at_state i Downloading (length b) s"
    from receive_pieces [OF assms(2) fr tk assms(11) conjunct1 [OF s] conjunct2 [OF s]] obtain s1 lp where
      1: "receive env no_faults i dest tk (pieces xs @ [EvOther (\<lambda>s. snd (pause_download env no_faults i s))]) (length b) (length b) s =
        receive env no_faults i dest tk [EvOther (\<lambda>s. snd (pause_download env no_faults i s))] (length (b @ body_of xs)) lp s1"
      "sees i dest F (Some (b @ body_of xs)) s1" "at_state i Downloading (length (b @ body_of xs)) s1" by blast
    from cancelled_receive [OF assms(2-5) 1(2,3), of "length (b @ body_of xs)" lp] obtain s2 where
      2: "receive env no_faults i dest tk [EvOther (\<lambda>s. snd (pause_download env no_faults i s))] (length (b @ body_of xs)) lp s1 = (Inl DlCancelled, s2)"
        "?post DlCancelled s2" by blast
    show "case receive env no_faults i dest tk (pieces xs @ [EvOther (\<lambda>s. snd (pause_download env no_faults i s))]) (length b) (length b) s of
      (Inl e, s') \<Rightarrow> ?post e s' | (Inr x, s') \<Rightarrow> False" unfolding 1(1) 2(1) using 2(2) by simp
  qed
  then show "hoare (\<lambda>s. sees i dest F (Some (take (length b) (case c of None \<Rightarrow> [] | Some b \<Rightarrow> b))) s \<and> at_state i Downloading (length b) s)
      (and_then (start_body env (\<lambda>_. no_faults) sv i dest rm (length b))
        (\<lambda>evs. and_then (receive env no_faults i dest (wj_cancel_token j) evs (length b) (length b))
          (finish_download env (\<lambda>_. no_faults) i dest (wj_metadata_path j) rm))) (\<lambda>_ _. False) ?post"
    unfolding start_body_serving [OF assms(10)] and_then_ret b_def [symmetric] take_all [OF order_refl]
    by (intro hoare_then [where R = "\<lambda>_ _. False"]) (simp_all add: assms(6) hoare_def)
qed (use assms in \<open>auto simp: framed_def\<close>)

section \<open>Properties\<close>

text \<open>The worker seen through its task.\<close>

lemma completes_from_prefix:
  assumes "env_ok env" "rs_downloads s i = Some t" "starts_with ''http'' (dm_url (dt_metadata t))"
    and "dt_metadata_path t = metadata_path_for (dt_destination_path t)" "dt_cancel_token t \<notin> rs_cancelled s"
    and "serves env sv rm content" "hash_matches env (dm_expected_sha256 (dt_metadata t)) content"
    and "case rs_disk s (dt_destination_path t) of None \<Rightarrow> True
      | Some pre \<Rightarrow> pre = take (length pre) content \<and> (pre = [] \<or> length pre < length content)"
    and "s' = run_worker env (\<lambda>_. no_faults) sv (job_of i t) s"
  shows "rs_disk s' (dt_destination_path t) = Some content \<and> rs_disk s' (dt_metadata_path t) = None \<and>
    at_state i Completed (length content) s'"
proof -
  let ?j = "job_of i t" and ?dest = "dt_destination_path t"
  let ?b = "case rs_disk s ?dest of None \<Rightarrow> [] | Some b \<Rightarrow> b"
  have new: "?b @ drop (length ?b) content = content" using assms(8) by (auto split: option.splits) (metis append_take_drop_id)
  have j: "wj_download_id ?j = i" "wj_destination_path ?j = ?dest" "wj_metadata_path ?j = dt_metadata_path t"
    "wj_source_url ?j = dm_url (dt_metadata t)" "wj_cancel_token ?j = dt_cancel_token t" by (simp_all add: job_of_def)
  have fst: "fst (frame i s) = Some (?dest, dt_metadata_path t, dm_expected_sha256 (dt_metadata t), dm_url (dt_metadata t), dt_cancel_token t)"
    using assms(2) by (simp add: frame_def)
  have "runs (sees i ?dest (frame i s) (rs_disk s ?dest)) (run_download_state_machine env (\<lambda>_. no_faults) sv ?j)
    (\<lambda>_ s'. sees i ?dest (frame i s) (Some content) s' \<and> at_state i Completed (length content) s' \<and> rs_disk s' (dt_metadata_path t) = None)"
    using resumed_content [OF assms(1), of ?j sv rm content "frame i s" "dm_expected_sha256 (dt_metadata t)" "dm_url (dt_metadata t)"
        "dt_cancel_token t" "rs_disk s ?dest"] assms(3-8) new metadata_path_neq [of ?dest] fst
    unfolding j new by (auto simp: frame_def split: option.splits)
  from runsD [OF this, of s] obtain x s1 where "run_download_state_machine env (\<lambda>_. no_faults) sv ?j s = (Inr x, s1)"
    "sees i ?dest (frame i s) (Some content) s1" "at_state i Completed (length content) s1" "rs_disk s1 (dt_metadata_path t) = None"
    by (auto simp: sees_def)
  then show ?thesis by (simp add: assms(9) run_worker_def sees_def)
qed

text \<open>
  A download from a server that honours ranges ends with exactly the server's content: whether it
  starts from nothing or from a file that holds a proper prefix of the content, the worker
  completes it, the metadata file is removed, and the recorded size is that of the content. The content
  must have the expected hash if there is one.
\<close>

theorem restart_completes:
  assumes "env_ok env" "rs_downloads s i = Some t" "starts_with ''http'' (dm_url (dt_metadata t))"
    and "dt_metadata_path t = metadata_path_for (dt_destination_path t)" "dt_cancel_token t \<notin> rs_cancelled s"
    and "serves env sv rm content" "hash_matches env (dm_expected_sha256 (dt_metadata t)) content"
    and "case rs_disk s (dt_destination_path t) of None \<Rightarrow> True
      | Some pre \<Rightarrow> pre = take (length pre) content \<and> (pre = [] \<or> length pre < length content)"
    and "s' = run_worker env (\<lambda>_. no_faults) sv (job_of i t) s"
  shows "rs_disk s' (dt_destination_path t) = Some content \<and> rs_disk s' (dt_metadata_path t) = None \<and>
    at_state i Completed (length content) s'"
  using assms by (rule completes_from_prefix)

text \<open>A concrete environment, server and request.\<close>

definition plain_env :: restart_env where
  "plain_env = \<lparr>de_io_text = (\<lambda>_. []), de_status_text = show_nat, de_to_str_text = [], de_parse_text = (\<lambda>s. s), de_emit = (\<lambda>_. None),
     de_to_json = (\<lambda>_. Ok ''{}''), de_parse_rfc2822 = (\<lambda>_. None), de_sha256 = (\<lambda>b. b)\<rparr>"

definition empty_restart_state :: restart_state where
  "empty_restart_state = \<lparr>rs_downloads = Map.empty, rs_disk = Map.empty, rs_cancelled = {}, rs_next_token = 0, rs_spawned = []\<rparr>"

definition sample_head :: "string \<Rightarrow> string \<Rightarrow> (string, head_response) result" where
  "sample_head len tag = Ok \<lparr>hr_status = 200, hr_content_length = Some len, hr_etag = Some tag, hr_last_modified = None\<rparr>"

definition range_server :: "string \<Rightarrow> bytes \<Rightarrow> http_server" where
  "range_server tag content =
     \<lparr>sv_head = sample_head (show_nat (length content)) tag,
      sv_get = (\<lambda>k rng. case rng of None \<Rightarrow> Ok (200, pieces [(content, True)]) | Some n \<Rightarrow> Ok (206, pieces [(drop n content, False)]))\<rparr>"

definition sample_task :: "string option \<Rightarrow> restart_task" where
  "sample_task tag =
     \<lparr>dt_status = \<lparr>ds_download_id = ''d'', ds_state = Idle, ds_bytes_downloaded = 0, ds_expected_size = None, ds_etag = None,
                   ds_lease_exp = None, ds_last_error = None\<rparr>,
      dt_metadata = (new_metadata ''d'' ''http://host/f'')\<lparr>dm_etag := tag\<rparr>,
      dt_destination_path = [''/'', ''f''], dt_metadata_path = metadata_path_for [''/'', ''f''], dt_cancel_token = 0\<rparr>"

definition sample_state :: "string option \<Rightarrow> bytes \<Rightarrow> restart_state" where
  "sample_state tag old = empty_restart_state\<lparr>rs_downloads := [''d'' \<mapsto> sample_task tag], rs_disk := [[''/'', ''f''] \<mapsto> old], rs_next_token := 1\<rparr>"

lemma plain_env_ok: "env_ok plain_env"
  by (simp add: env_ok_def plain_env_def)

lemma header_str_digits: "header_str (show_nat n) = Some (show_nat n)"
proof -
  have "(of_char c :: nat) = 9 \<or> (32 \<le> (of_char c :: nat) \<and> (of_char c :: nat) < 127)" if "c \<in> set (show_nat n)" for c
  proof -
    from that show_nat_chars [of n] have "c \<in> set ''0123456789''" by blast
    then show ?thesis by auto
  qed
  then show ?thesis by (simp add: header_str_def)
qed

lemma range_server_serves:
  assumes "length content < 2 ^ 64" "header_str tag = Some tag"
  shows "serves plain_env (range_server tag content)
    \<lparr>rm_size = length content, rm_etag = Some (trim_matches (CHR 0x22) tag), rm_last_modified = None\<rparr> content"
proof -
  have "parse_u64 (show_nat (length content)) = Some (length content)" using assms(1) by (intro parse_show_u64) (simp add: u64_max_def)
  then have "fetch_remote_http_metadata plain_env (sv_head (range_server tag content)) =
    Ok \<lparr>rm_size = length content, rm_etag = Some (trim_matches (CHR 0x22) tag), rm_last_modified = None\<rparr>"
    using assms(2) by (simp add: range_server_def sample_head_def fetch_remote_http_metadata_def http_success_def header_str_digits)
  moreover have "sv_get (range_server tag content) 0 None = Ok (200, pieces [(content, True)]) \<and> body_of [(content, True)] = content"
    by (simp add: range_server_def body_of_def)
  moreover have "sv_get (range_server tag content) 0 (Some n) = Ok (206, pieces [(drop n content, False)]) \<and>
      body_of [(drop n content, False)] = drop n content" for n
    by (simp add: range_server_def body_of_def)
  ultimately show ?thesis using assms(1) unfolding serves_def by auto
qed

lemma sample_tag: "header_str ''v2'' = Some ''v2''" "trim_matches (CHR 0x22) ''v2'' = ''v2''"
  by (simp_all add: header_str_def trim_matches_def)

theorem restart_completes_witness:
  "rs_disk (run_worker plain_env (\<lambda>_. no_faults) (range_server ''v2'' ''hello'') (job_of ''d'' (sample_task None)) (sample_state None ''he'')) [''/'', ''f'']
     = Some ''hello''"
  using restart_completes [OF plain_env_ok _ _ _ _ range_server_serves [of "''hello''", OF _ sample_tag(1)] _ _ refl,
      of "sample_state None ''he''" "''d''" "sample_task None"]
  by (simp add: sample_state_def sample_task_def empty_restart_state_def new_metadata_def starts_with_def hash_matches_def)

text \<open>
  A changed remote file is not noticed. The service means to delete the partial file when the
  entity tag differs from the recorded one, but the worker records the new tag before it compares, so
  the comparison never fails: the download of a file whose tag has changed completes with the old
  bytes at the front.
\<close>

theorem etag_change_unnoticed:
  assumes "env_ok env" "rs_downloads s i = Some t" "starts_with ''http'' (dm_url (dt_metadata t))"
    and "dt_metadata_path t = metadata_path_for (dt_destination_path t)" "dt_cancel_token t \<notin> rs_cancelled s"
    and "serves env sv rm content" "dm_expected_sha256 (dt_metadata t) = None"
    and "rs_disk s (dt_destination_path t) = Some old" "length old < length content"
    and "dm_etag (dt_metadata t) = Some e1" "rm_etag rm = Some e2" "e1 \<noteq> e2"
    and "s' = run_worker env (\<lambda>_. no_faults) sv (job_of i t) s"
  shows "rs_disk s' (dt_destination_path t) = Some (old @ drop (length old) content) \<and> at_state i Completed (length content) s'"
proof -
  let ?j = "job_of i t" and ?dest = "dt_destination_path t"
  have j: "wj_download_id ?j = i" "wj_destination_path ?j = ?dest" "wj_metadata_path ?j = dt_metadata_path t"
    "wj_source_url ?j = dm_url (dt_metadata t)" "wj_cancel_token ?j = dt_cancel_token t" by (simp_all add: job_of_def)
  have "runs (sees i ?dest (frame i s) (Some old)) (run_download_state_machine env (\<lambda>_. no_faults) sv ?j)
    (\<lambda>_ s'. sees i ?dest (frame i s) (Some (old @ drop (length old) content)) s' \<and> at_state i Completed (length content) s' \<and>
       rs_disk s' (dt_metadata_path t) = None)"
    using resumed_content [OF assms(1), of ?j sv rm content "frame i s" None "dm_url (dt_metadata t)" "dt_cancel_token t" "Some old"]
      assms(2-9) metadata_path_neq [of ?dest] unfolding j by (simp add: frame_def hash_matches_def)
  from runsD [OF this, of s] assms(8) obtain x s1 where "run_download_state_machine env (\<lambda>_. no_faults) sv ?j s = (Inr x, s1)"
    "sees i ?dest (frame i s) (Some (old @ drop (length old) content)) s1" "at_state i Completed (length content) s1"
    by (auto simp: sees_def)
  then show ?thesis by (simp add: assms(13) run_worker_def sees_def)
qed

theorem etag_change_unnoticed_witness:
  "rs_disk (run_worker plain_env (\<lambda>_. no_faults) (range_server ''v2'' ''hello'') (job_of ''d'' (sample_task (Some ''v1''))) (sample_state (Some ''v1'') ''JE'')) [''/'', ''f'']
     = Some ''JEllo''"
  using etag_change_unnoticed [OF plain_env_ok _ _ _ _ range_server_serves [of "''hello''", OF _ sample_tag(1)] _ _ _ _ _ _ refl,
      of "sample_state (Some ''v1'') ''JE''" "''d''" "sample_task (Some ''v1'')" "''JE''" "''v1''" "''v2''"]
  by (simp add: sample_state_def sample_task_def empty_restart_state_def new_metadata_def starts_with_def sample_tag)

text \<open>
  A server that ignores ranges makes the restart fail. The worker empties the partial file and asks
  again without a range, but still checks the second answer as if it were partial: the answer that
  carries the whole file is rejected, the download is marked as failed, and the bytes it had are lost.
\<close>

theorem range_ignored_fails:
  assumes "env_ok env" "rs_downloads s i = Some t" "starts_with ''http'' (dm_url (dt_metadata t))"
    and "dt_metadata_path t = metadata_path_for (dt_destination_path t)"
    and "fetch_remote_http_metadata env (sv_head sv) = Ok rm" "rs_disk s (dt_destination_path t) = Some old" "old \<noteq> []" "0 < rm_size rm"
    and "\<And>k rng. \<exists>evs. sv_get sv k rng = Ok (200, evs)"
    and "s' = run_worker env (\<lambda>_. no_faults) sv (job_of i t) s"
  shows "rs_disk s' (dt_destination_path t) = Some [] \<and> (\<exists>t'. rs_downloads s' i = Some t' \<and> ds_state (dt_status t') = Failed)"
proof -
  let ?j = "job_of i t" and ?dest = "dt_destination_path t" and ?F = "frame i s" and ?n = "min (length old) (rm_size rm)"
  let ?post = "\<lambda>e s1. e \<noteq> DlCancelled \<and> sees i ?dest ?F (Some []) s1"
  have fr: "framed ?dest ?F" using assms(2,4) metadata_path_neq [of ?dest] by (simp add: framed_def frame_def)
  have n: "0 < ?n" using assms(7,8) by simp
  obtain evs0 evs1 where g: "sv_get sv 0 (Some ?n) = Ok (200, evs0)" "sv_get sv 1 None = Ok (200, evs1)" using assms(9) by metis
  have reset: "runs (\<lambda>s. sees i ?dest ?F (Some (take ?n old)) s \<and> at_state i Downloading ?n s)
     (disk_act (io_msg env ''Failed to reset file: '') (fs_set_len no_faults ?dest 0)) (\<lambda>_. sees i ?dest ?F (Some []))"
    by (rule runsI) (simp add: disk_act_def fs_set_len_def sees_def frame_def)
  have body: "start_body env (\<lambda>_. no_faults) sv i ?dest rm ?n =
     and_do (disk_act (io_msg env ''Failed to reset file: '') (fs_set_len no_faults ?dest 0))
    (and_do (set_state env no_faults i Restarting 0 (Some (rm_size rm)) (rm_etag rm) None True)
            (fail (DlSource (''Server does not support ranged downloads (status: '' @ de_status_text env 200 @ '')''))))"
    using n g by (auto simp: fun_eq_iff start_body_def send_get_def check_status_def and_then_def split: prod.splits sum.splits)
  have "hoare (sees i ?dest ?F (Some old)) (run_download_state_machine env (\<lambda>_. no_faults) sv ?j) (\<lambda>_ _. False) ?post"
  proof (rule run_chain [OF assms(1) fr, where rm = rm and n = ?n])
    show "hoare (\<lambda>s. sees i ?dest ?F (Some (take ?n (case Some old of None \<Rightarrow> [] | Some b \<Rightarrow> b))) s \<and> at_state i Downloading ?n s)
      (and_then (start_body env (\<lambda>_. no_faults) sv i ?dest rm ?n)
        (\<lambda>evs. and_then (receive env no_faults i ?dest (wj_cancel_token ?j) evs ?n ?n)
          (finish_download env (\<lambda>_. no_faults) i ?dest (wj_metadata_path ?j) rm))) (\<lambda>_ _. False) ?post"
      unfolding body option.case and_then_assoc and_then_fail
      by (rule runs_then [OF reset], rule runs_then [OF set_state_runs(1) [OF assms(1) fr]], rule hoare_fail) simp
  qed (use assms(3,5,7,8) in \<open>simp_all add: job_of_def\<close>)
  then obtain e s1 where r: "run_download_state_machine env (\<lambda>_. no_faults) sv ?j s = (Inl e, s1)" "?post e s1"
    using assms(6) unfolding hoare_def by (cases "run_download_state_machine env (\<lambda>_. no_faults) sv ?j s"; cases "fst (run_download_state_machine env (\<lambda>_. no_faults) sv ?j s)")
      (fastforce simp: sees_def)+
  then have "s' = update_state_with_error i Failed (show_download_error e) s1"
    using r by (cases e) (simp_all add: assms(10) run_worker_def job_of_def)
  moreover from r sees_task [OF _ fr] obtain t1 where "rs_downloads s1 i = Some t1" by blast
  ultimately show ?thesis using r by (simp add: update_state_with_error_def set_task_def sees_def)
qed

theorem range_ignored_fails_witness:
  "rs_disk (run_worker plain_env (\<lambda>_. no_faults) \<lparr>sv_head = sample_head (show_nat 5) ''v2'', sv_get = (\<lambda>k rng. Ok (200, pieces [(''hello'', True)]))\<rparr>
     (job_of ''d'' (sample_task None)) (sample_state None ''he'')) [''/'', ''f''] = Some []"
proof -
  let ?sv = "\<lparr>sv_head = sample_head (show_nat 5) ''v2'', sv_get = (\<lambda>k rng. Ok (200, pieces [(''hello'', True)]))\<rparr> :: http_server"
  have "parse_u64 (show_nat 5) = Some 5" by (intro parse_show_u64) (simp add: u64_max_def)
  then have h: "fetch_remote_http_metadata plain_env (sv_head ?sv) = Ok \<lparr>rm_size = 5, rm_etag = Some ''v2'', rm_last_modified = None\<rparr>"
    by (simp add: sample_head_def fetch_remote_http_metadata_def http_success_def header_str_digits sample_tag del: show_nat.simps)
  from range_ignored_fails [OF plain_env_ok _ _ _ h _ _ _ _ refl, of "sample_state None ''he''" "''d''" "sample_task None" "''he''"]
  show ?thesis by (simp add: sample_state_def sample_task_def empty_restart_state_def new_metadata_def starts_with_def)
qed

text \<open>
  C7: A download survives a pause. A worker receives part of the content and is paused: it stops with the
  task marked as paused and the received bytes in the file. Resuming starts a new worker with a
  fresh token, and that worker, served the rest, completes the file with exactly the content.
\<close>

theorem pause_resume_completes:
  assumes "env_ok env" "rs_downloads s i = Some t" "starts_with ''http'' (dm_url (dt_metadata t))"
    and "dt_metadata_path t = metadata_path_for (dt_destination_path t)" "dt_cancel_token t \<notin> rs_cancelled s"
    and "\<And>k. k \<in> rs_cancelled s \<Longrightarrow> k < rs_next_token s" "dt_cancel_token t < rs_next_token s"
    and "rs_disk s (dt_destination_path t) = None" "hash_matches env (dm_expected_sha256 (dt_metadata t)) content"
    and "fetch_remote_http_metadata env (sv_head sv1) = Ok rm1" "rm_size rm1 = length content"
    and "sv_get sv1 0 None = Ok (200, pieces xs @ [EvOther (\<lambda>s. snd (pause_download env no_faults i s))])"
    and "body_of xs = take (length (body_of xs)) content" "length (body_of xs) < length content"
    and "serves env sv2 rm2 content"
    and "s1 = run_worker env (\<lambda>_. no_faults) sv1 (job_of i t) s"
    and "s2 = snd (resume_download env i s1)" "s3 = run_worker env (\<lambda>_. no_faults) sv2 (last (rs_spawned s2)) s2"
  shows "rs_disk s1 (dt_destination_path t) = Some (body_of xs) \<and> at_state i Paused (length (body_of xs)) s1 \<and>
    rs_disk s3 (dt_destination_path t) = Some content \<and> at_state i Completed (length content) s3"
proof -
  let ?dest = "dt_destination_path t" and ?mp = "dt_metadata_path t" and ?e = "dm_expected_sha256 (dt_metadata t)"
    and ?u = "dm_url (dt_metadata t)" and ?tk = "dt_cancel_token t" and ?K = "rs_cancelled s" and ?k = "rs_next_token s" and ?sp = "rs_spawned s"
  have mp: "?mp \<noteq> ?dest" using assms(4) metadata_path_neq by metis
  have len: "length content < 2 ^ 64" using assms(15) by (simp add: serves_def)
  have F: "frame i s = (Some (?dest, ?mp, ?e, ?u, ?tk), ?K, ?k, ?sp)" using assms(2) by (simp add: frame_def)
  have "hoare (sees i ?dest (frame i s) None) (run_download_state_machine env (\<lambda>_. no_faults) sv1 (job_of i t)) (\<lambda>_ _. False)
    (\<lambda>err s1. err = DlCancelled \<and> sees i ?dest (Some (?dest, ?mp, ?e, ?u, ?k), insert ?tk ?K, Suc ?k, ?sp) (Some (body_of xs)) s1 \<and>
      at_state i Paused (length (body_of xs)) s1)"
    using paused_run [OF assms(1) F mp assms(5), of "job_of i t" i sv1 rm1 None xs] assms(3,10-14) len by (simp add: job_of_def)
  then have "case run_download_state_machine env (\<lambda>_. no_faults) sv1 (job_of i t) s of (Inr _, _) \<Rightarrow> False
    | (Inl err, s1) \<Rightarrow> err = DlCancelled \<and> sees i ?dest (Some (?dest, ?mp, ?e, ?u, ?k), insert ?tk ?K, Suc ?k, ?sp) (Some (body_of xs)) s1 \<and>
      at_state i Paused (length (body_of xs)) s1"
    using assms(8) unfolding hoare_def by (fastforce simp: sees_def split: prod.splits sum.splits)
  then have 1: "sees i ?dest (Some (?dest, ?mp, ?e, ?u, ?k), insert ?tk ?K, Suc ?k, ?sp) (Some (body_of xs)) s1" "at_state i Paused (length (body_of xs)) s1"
    by (auto simp: assms(16) run_worker_def split: prod.splits sum.splits)
  let ?j = "\<lparr>wj_download_id = i, wj_source_url = ?u, wj_destination_path = ?dest, wj_metadata_path = ?mp, wj_cancel_token = Suc ?k\<rparr>"
  from resume_ok [OF assms(1) refl 1 refl] have 2: "sees i ?dest (Some (?dest, ?mp, ?e, ?u, Suc ?k), insert ?tk ?K, Suc (Suc ?k), ?sp @ [?j]) (Some (body_of xs)) s2"
    by (auto simp: assms(17))
  then obtain t2 where t2: "rs_downloads s2 i = Some t2" "job_of i t2 = ?j" "dt_destination_path t2 = ?dest" "dt_metadata_path t2 = ?mp"
    "dm_expected_sha256 (dt_metadata t2) = ?e" "dm_url (dt_metadata t2) = ?u" "dt_cancel_token t2 = Suc ?k" by (auto simp: sees_def frame_def job_of_def)
  have s2: "rs_spawned s2 = ?sp @ [?j]" "rs_cancelled s2 = insert ?tk ?K" "rs_disk s2 ?dest = Some (body_of xs)" using 2 by (auto simp: sees_def frame_def)
  have "Suc ?k \<notin> rs_cancelled s2" using s2(2) assms(6,7) by fastforce
  from completes_from_prefix [OF assms(1) t2(1), of sv2 rm2 content s3] this assms(3,4,9,13-15,18) t2 s2 1 show ?thesis
    by (auto simp: sees_def)
qed

definition pausing_server :: "bytes \<Rightarrow> bytes \<Rightarrow> http_server" where
  "pausing_server content part =
     \<lparr>sv_head = sv_head (range_server ''v2'' content),
      sv_get = (\<lambda>k rng. Ok (200, pieces [(part, False)] @ [EvOther (\<lambda>s. snd (pause_download plain_env no_faults ''d'' s))]))\<rparr>"

theorem pause_resume_completes_witness:
  "let s = (sample_state None [])\<lparr>rs_disk := Map.empty\<rparr>;
       s1 = run_worker plain_env (\<lambda>_. no_faults) (pausing_server ''hello'' ''he'') (job_of ''d'' (sample_task None)) s;
       s2 = snd (resume_download plain_env ''d'' s1)
   in rs_disk s1 [''/'', ''f''] = Some ''he'' \<and>
      rs_disk (run_worker plain_env (\<lambda>_. no_faults) (range_server ''v2'' ''hello'') (last (rs_spawned s2)) s2) [''/'', ''f''] = Some ''hello''"
proof -
  have h: "fetch_remote_http_metadata plain_env (sv_head (pausing_server ''hello'' ''he'')) = Ok \<lparr>rm_size = 5, rm_etag = Some ''v2'', rm_last_modified = None\<rparr>"
    using range_server_serves [of "''hello''" "''v2''", OF _ sample_tag(1)] by (simp add: serves_def pausing_server_def sample_tag)
  from pause_resume_completes [OF plain_env_ok _ _ _ _ _ _ _ _ h _ _ _ _ range_server_serves [of "''hello''", OF _ sample_tag(1)] refl refl refl,
      of "(sample_state None [])\<lparr>rs_disk := Map.empty\<rparr>" "''d''" "sample_task None" "[(''he'', False)]"]
  show ?thesis
    by (simp add: sample_state_def sample_task_def empty_restart_state_def new_metadata_def starts_with_def hash_matches_def Let_def
        pausing_server_def body_of_def)
qed

section \<open>The invariant of the service\<close>

text \<open>
  Tokens are fresh, the metadata file of a task is the one that belongs to its destination, and every
  spawned worker belongs to a task. All of it depends only on the shape of the state.
\<close>

definition shape :: "restart_state \<Rightarrow> (string \<Rightarrow> (path \<times> path \<times> nat) option) \<times> nat set \<times> nat \<times> worker_job list" where
  "shape s = (\<lambda>i. map_option (\<lambda>t. (dt_destination_path t, dt_metadata_path t, dt_cancel_token t)) (rs_downloads s i),
     rs_cancelled s, rs_next_token s, rs_spawned s)"

definition shape_ok :: "(string \<Rightarrow> (path \<times> path \<times> nat) option) \<times> nat set \<times> nat \<times> worker_job list \<Rightarrow> bool" where
  "shape_ok = (\<lambda>(tasks, K, k, sp). (\<forall>x \<in> K. x < k) \<and>
     (\<forall>i d m tk. tasks i = Some (d, m, tk) \<longrightarrow> m = metadata_path_for d \<and> tk < k) \<and>
     (\<forall>j \<in> set sp. wj_metadata_path j = metadata_path_for (wj_destination_path j) \<and>
        (\<exists>tk. tasks (wj_download_id j) = Some (wj_destination_path j, wj_metadata_path j, tk))))"

definition restart_inv :: "restart_state \<Rightarrow> bool" where
  "restart_inv s = shape_ok (shape s)"

lemma restart_inv_alt:
  "restart_inv s \<longleftrightarrow> (\<forall>x \<in> rs_cancelled s. x < rs_next_token s) \<and>
     (\<forall>i t. rs_downloads s i = Some t \<longrightarrow> dt_metadata_path t = metadata_path_for (dt_destination_path t) \<and> dt_cancel_token t < rs_next_token s) \<and>
     (\<forall>j \<in> set (rs_spawned s). wj_metadata_path j = metadata_path_for (wj_destination_path j) \<and>
        (\<exists>t. rs_downloads s (wj_download_id j) = Some t \<and> dt_destination_path t = wj_destination_path j \<and> dt_metadata_path t = wj_metadata_path j))"
  unfolding restart_inv_def shape_ok_def shape_def by (fastforce simp: map_option_case split: option.splits)

text \<open>The state may only change in ways that keep the invariant and every worker that was spawned.\<close>

definition grows :: "restart_state \<Rightarrow> restart_state \<Rightarrow> bool" where
  "grows s s' \<longleftrightarrow> (restart_inv s \<longrightarrow> restart_inv s') \<and> set (rs_spawned s) \<subseteq> set (rs_spawned s')"

definition keeps :: "(restart_state \<Rightarrow> restart_state \<Rightarrow> bool) \<Rightarrow> 'a restart_act \<Rightarrow> bool" where
  "keeps R m \<longleftrightarrow> (\<forall>s. R s (snd (m s)))"

text \<open>What other tasks do while a body is read is such a change.\<close>

definition others_in :: "(restart_state \<Rightarrow> restart_state \<Rightarrow> bool) \<Rightarrow> http_server \<Rightarrow> bool" where
  "others_in R sv \<longleftrightarrow> (\<forall>k rng code evs f s. sv_get sv k rng = Ok (code, evs) \<longrightarrow> EvOther f \<in> set evs \<longrightarrow> R s (f s))"

definition others_ok :: "http_server \<Rightarrow> bool" where
  "others_ok sv \<longleftrightarrow> others_in grows sv"

lemma set_task_shape:
  "rs_downloads s i = Some t \<Longrightarrow> dt_destination_path t' = dt_destination_path t \<Longrightarrow> dt_metadata_path t' = dt_metadata_path t \<Longrightarrow>
    dt_cancel_token t' = dt_cancel_token t \<Longrightarrow> shape (set_task i t' s) = shape s"
  by (auto simp: shape_def set_task_def fun_eq_iff)

lemma start_body_events:
  assumes "start_body env io sv i dest rm n s = (Inr evs, s')"
  shows "\<exists>k rng code. sv_get sv k rng = Ok (code, evs)"
  using assms by (auto simp: start_body_def and_then_eq_Ok send_get_def split: if_splits)

text \<open>
  A worker itself never changes the shape of the state; so whatever preorder contains the changes that keep the shape, and what other tasks do
  meanwhile, contains what a run of a worker does.
\<close>

locale restart_effects =
  fixes R :: "restart_state \<Rightarrow> restart_state \<Rightarrow> bool"
  assumes R_trans: "R s t \<Longrightarrow> R t u \<Longrightarrow> R s u"
    and R_shape: "shape s' = shape s \<Longrightarrow> R s s'"
begin

lemma R_refl [simp]: "R s s"
  by (rule R_shape) (rule refl)

lemma keepsI: "(\<And>s. shape (snd (m s)) = shape s) \<Longrightarrow> keeps R m"
  by (simp add: keeps_def R_shape)

lemma keeps_then: "keeps R m \<Longrightarrow> (\<And>x. keeps R (f x)) \<Longrightarrow> keeps R (and_then m f)"
  unfolding keeps_def and_then_def by (fastforce intro: R_trans split: prod.splits sum.splits)

lemma keeps_if: "(b \<Longrightarrow> keeps R m) \<Longrightarrow> (\<not> b \<Longrightarrow> keeps R n) \<Longrightarrow> keeps R (if b then m else n)"
  by simp

lemma keeps_simple [simp, intro]: "keeps R (ret x)" "keeps R (fail e)" "keeps R (of_result r)"
  by (simp_all add: keeps_def)

lemma keeps_disk_act [simp, intro]: "keeps R (disk_act f m)"
  by (rule keepsI) (simp add: disk_act_def shape_def split: prod.split)

lemma keeps_with_task: "(\<And>t s. rs_downloads s i = Some t \<Longrightarrow> R s (snd (f t s))) \<Longrightarrow> keeps R (with_task i f)"
  by (auto simp: keeps_def with_task_def split: option.split)

lemma keepsD: "keeps R m \<Longrightarrow> R s (snd (m s))"
  by (simp add: keeps_def)

lemma keeps_persist [simp, intro]: "keeps R (persist_metadata env io mp md)"
  unfolding persist_metadata_def by (intro keeps_then) (auto split: option.split)

lemma keeps_emit [simp, intro]: "keeps R (emit_status env st)"
  by (auto simp: emit_status_def split: option.split)

lemma keeps_persist_current [simp, intro]: "keeps R (persist_current_metadata env io i)"
  unfolding persist_current_metadata_def by (rule keeps_with_task) (rule keepsD, rule keeps_persist)

lemma keeps_set_state [simp, intro]: "keeps R (set_state env io i st n es et le p)"
  unfolding set_state_def
proof (rule keeps_with_task)
  fix t and s :: restart_state assume t: "rs_downloads s i = Some t"
  let ?t = "put_state st n es et le t"
  have "keeps R (and_do (if p then persist_metadata env io (dt_metadata_path ?t) (dt_metadata ?t) else ret ()) (emit_status env (dt_status ?t)))"
    by (intro keeps_then) auto
  note g = keepsD [OF this, of "set_task i ?t s"]
  have "R s (set_task i ?t s)" by (rule R_shape, rule set_task_shape [OF t]) (simp_all add: put_state_facts)
  with g show "R s (snd (let t' = ?t in and_do (if p then persist_metadata env io (dt_metadata_path t') (dt_metadata t') else ret ())
      (emit_status env (dt_status t')) (set_task i t' s)))" unfolding Let_def by (rule R_trans [rotated])
qed

lemma keeps_update_metadata [simp, intro]: "keeps R (update_metadata_only env io i f)"
  unfolding update_metadata_only_def
proof (rule keeps_with_task)
  fix t and s :: restart_state assume t: "rs_downloads s i = Some t"
  let ?t = "t\<lparr>dt_metadata := f (dt_metadata t)\<rparr>"
  have "R s (set_task i ?t s)" by (rule R_shape, rule set_task_shape [OF t]) simp_all
  then show "R s (snd (let t' = t\<lparr>dt_metadata := f (dt_metadata t)\<rparr> in persist_metadata env io (dt_metadata_path t') (dt_metadata t') (set_task i t' s)))"
    unfolding Let_def by (rule R_trans) (rule keepsD, rule keeps_persist)
qed

lemma keeps_prepare [simp, intro]: "keeps R (prepare_destination_file env io i dest sz e)"
  unfolding prepare_destination_file_def
  by (intro keeps_then keepsI) (auto simp: shape_def Let_def split: option.split sum.split prod.split)

lemma keeps_open [simp, intro]: "keeps R (open_destination env io dest n)"
  unfolding open_destination_def by (intro keeps_then) auto

lemma keeps_start_body [simp, intro]: "keeps R (start_body env io sv i dest rm n)"
  unfolding start_body_def by (intro keeps_then) (auto intro!: keeps_then)

lemma keeps_write_chunk [simp, intro]: "keeps R (write_chunk env io i p b due n lp)"
proof -
  have 1: "R s (put_progress i m (append_at p n b s))" "R s (append_at p n b s)" for m s
    by (auto intro!: R_shape simp: shape_def put_progress_def append_at_def set_task_def fun_eq_iff split: option.splits)
  have g: "keeps R (and_then (if METADATA_FLUSH_INTERVAL_BYTES \<le> sat_sub m lp then and_do (persist_current_metadata env io i) (ret m) else ret lp)
      (\<lambda>lp'. and_do (if due then and_then (status_snapshot i) (emit_status env) else ret ()) (ret (m, lp'))))" for m
    by (intro keeps_then) (auto intro!: keeps_then keeps_with_task simp: status_snapshot_def)
  show ?thesis unfolding keeps_def
  proof
    fix s
    show "R s (snd (write_chunk env io i p b due n lp s))"
    proof (cases "2 ^ 64 \<le> n + length b")
      case True
      then show ?thesis using 1(2) by (simp add: write_chunk_def Let_def)
    next
      case False
      with R_trans [OF 1(1) [of s "n + length b"] keepsD [OF g [of "n + length b"]]] show ?thesis
        unfolding write_chunk_def Let_def by (simp only: if_False)
    qed
  qed
qed

lemma keeps_or_cancelled: "keeps R m \<Longrightarrow> keeps R (or_cancelled env io i token m)"
proof -
  assume "keeps R m"
  moreover have "keeps R (and_do (persist_current_metadata env io i) (fail DlCancelled :: 'a restart_act))" by (intro keeps_then) auto
  ultimately show ?thesis unfolding keeps_def or_cancelled_def by simp
qed

lemma keeps_receive: "(\<And>f s. EvOther f \<in> set evs \<Longrightarrow> R s (f s)) \<Longrightarrow> keeps R (receive env io i p token evs n lp)"
proof (induction evs arbitrary: n lp)
  case (Cons ev evs)
  have tail: "keeps R (receive env io i p token evs n lp)" for n lp using Cons by simp
  show ?case
  proof (cases ev)
    case (EvOther f)
    have "R s (f s)" for s using Cons.prems EvOther by simp
    then have "keeps R (\<lambda>s. receive env io i p token evs n lp (f s))" using tail R_trans unfolding keeps_def by blast
    with EvOther show ?thesis by (simp add: keeps_or_cancelled)
  next
    case (EvWriteError b k e)
    have "keeps R (\<lambda>s. (Err (io_msg env ''Failed to write chunk: '' e) :: (download_error, u64) result, append_at p n (take k b) s))"
      by (rule keepsI) (auto simp: shape_def append_at_def split: option.split)
    with EvWriteError show ?thesis by (simp add: keeps_or_cancelled)
  qed (auto intro!: keeps_or_cancelled keeps_then tail simp: split_beta)
qed (auto intro!: keeps_or_cancelled)

lemma keeps_remove_metadata [simp, intro]: "keeps R (remove_metadata_file io mp)"
  by (rule keepsI) (simp add: remove_metadata_file_def shape_def)

lemma keeps_verify [simp, intro]: "keeps R (restart_verify_hash env io p e)"
  by (rule keepsI) (auto simp: restart_verify_hash_def Let_def split: sum.split)

lemma keeps_finish [simp, intro]: "keeps R (finish_download env io i dest mp rm n)"
proof -
  have "keeps R (\<lambda>s. case expected_sha i s of None \<Rightarrow> (Ok (), s)
      | Some e \<Rightarrow> and_then (restart_verify_hash env (io 10) dest e) (\<lambda>a. update_metadata_only env (io 11) i (\<lambda>m. m\<lparr>dm_sha256_final := Some a\<rparr>)) s)"
    unfolding keeps_def by (auto split: option.split intro!: keepsD keeps_then)
  then show ?thesis unfolding finish_download_def by (auto intro!: keeps_then)
qed

lemma keeps_bind_ok:
  assumes "keeps R m" "\<And>x s s'. m s = (Inr x, s') \<Longrightarrow> keeps R (f x)"
  shows "keeps R (and_then m f)"
  unfolding keeps_def
proof
  fix s
  obtain r s' where m: "m s = (r, s')" by (cases "m s")
  have "R s s'" using keepsD [OF assms(1), of s] m by simp
  then show "R s (snd (and_then m f s))"
    using m assms(2) by (cases r) (auto simp: and_then_Ok and_then_Err dest!: keepsD intro: R_trans)
qed

lemma keeps_run:
  assumes "others_in R sv"
  shows "keeps R (run_download_state_machine env io sv j)"
proof -
  have body: "keeps R (and_then (start_body env io sv i dest rm n)
      (\<lambda>evs. and_then (receive env (io 7) i dest tk evs n n) (finish_download env io i dest mp rm)))" for i dest rm n tk mp
  proof (rule keeps_bind_ok [OF keeps_start_body])
    fix evs s s' assume "start_body env io sv i dest rm n s = (Inr evs, s')"
    from start_body_events [OF this] obtain k rng code where "sv_get sv k rng = Ok (code, evs)" by blast
    with assms have "R s (f s)" if "EvOther f \<in> set evs" for f s using that unfolding others_in_def by blast
    then show "keeps R (and_then (receive env (io 7) i dest tk evs n n) (finish_download env io i dest mp rm))"
      by (intro keeps_then keeps_receive) auto
  qed
  show ?thesis unfolding run_download_state_machine_def Let_def
    by (rule body keeps_set_state keeps_update_metadata keeps_prepare keeps_open keeps_simple keeps_if | rule keeps_then)+
qed

lemma keeps_worker:
  assumes "others_in R sv"
  shows "R s (run_worker env io sv j s)"
proof -
  obtain r s1 where r: "run_download_state_machine env io sv j s = (r, s1)" by (cases "run_download_state_machine env io sv j s")
  have 1: "R s s1" using keepsD [OF keeps_run [OF assms], of s env io j] r by simp
  have "R s1 (update_state_with_error i st e s1)" for i st e
    by (auto intro!: R_shape simp: shape_def update_state_with_error_def set_task_def fun_eq_iff split: option.split)
  with 1 show ?thesis unfolding run_worker_def r by (cases r) (auto intro: R_trans split: download_error.split)
qed

end

interpretation rg: restart_effects grows
  by unfold_locales (auto simp: grows_def restart_inv_def shape_def)



section \<open>Cancellation tokens\<close>



















section \<open>The service as a machine\<close>





section \<open>Completed downloads\<close>

lemma persist_Ok:
  "persist_metadata env io mp md s = (Inr x, s') \<Longrightarrow> \<exists>b. s' = s\<lparr>rs_disk := (rs_disk s)(mp \<mapsto> b)\<rparr>"
  by (auto simp: persist_metadata_def and_then_eq_Ok disk_act_def fs_write_def split: if_splits option.splits)

lemma set_state_Ok:
  assumes "set_state env io i st n es et le p s = (Inr x, s')" "rs_downloads s i = Some t"
  shows "rs_downloads s' = (rs_downloads s)(i \<mapsto> put_state st n es et le t)"
    and "q \<noteq> dt_metadata_path t \<Longrightarrow> rs_disk s' q = rs_disk s q"
proof -
  let ?t = "put_state st n es et le t"
  from assms obtain s1 where "(if p then persist_metadata env io (dt_metadata_path ?t) (dt_metadata ?t) else ret ()) (set_task i ?t s) = (Inr (), s1)"
    "emit_status env (dt_status ?t) s1 = (Inr x, s')" by (auto simp: set_state_def with_task_def Let_def and_then_eq_Ok)
  then show "rs_downloads s' = (rs_downloads s)(i \<mapsto> put_state st n es et le t)"
    and "q \<noteq> dt_metadata_path t \<Longrightarrow> rs_disk s' q = rs_disk s q"
    by (auto simp: emit_status_def set_task_def put_state_facts dest!: persist_Ok split: if_splits option.splits)
qed

text \<open>The task of a worker, with its own metadata file, and the content of the destination.\<close>

definition holds :: "string \<Rightarrow> path \<Rightarrow> string option \<Rightarrow> bytes option \<Rightarrow> restart_state \<Rightarrow> bool" where
  "holds i dest e c s \<longleftrightarrow> (\<exists>t. rs_downloads s i = Some t \<and> dt_metadata_path t \<noteq> dest \<and> dm_expected_sha256 (dt_metadata t) = e) \<and> rs_disk s dest = c"

lemma set_state_holds:
  assumes "set_state env io i st n es et le p s = (Inr x, s')" "holds i dest e c s"
  shows "holds i dest e c s' \<and> at_state i st n s'"
proof -
  from assms(2) obtain t where t: "rs_downloads s i = Some t" "dt_metadata_path t \<noteq> dest" "dm_expected_sha256 (dt_metadata t) = e" "rs_disk s dest = c"
    by (auto simp: holds_def)
  from set_state_Ok [OF assms(1) t(1)] t show ?thesis by (auto simp: holds_def at_state_def put_state_facts)
qed

lemma finish_Ok:
  assumes "finish_download env io i dest mp rm n s = (Inr x, s')" "holds i dest e c s" "mp \<noteq> dest"
  shows "at_state i Completed n s' \<and> rm_size rm \<le> n \<and> holds i dest e c s' \<and> (e \<noteq> None \<longrightarrow> (\<exists>b. c = Some b \<and> hash_matches env e b))"
proof -
  from assms(1) have sz: "\<not> n < rm_size rm" by (auto simp: finish_download_def)
  from assms(1) sz obtain s1 s2 s3 s4 s5 where
    1: "disk_act (io_msg env ''Failed to flush file: '') (fs_flush (io 8) dest) s = (Inr (), s1)" and
    2: "set_state env (io 9) i VerifyingSha n (Some (rm_size rm)) (rm_etag rm) None True s1 = (Inr (), s2)" and
    3: "(case expected_sha i s2 of None \<Rightarrow> (Ok (), s2) | Some expected \<Rightarrow> and_then (restart_verify_hash env (io 10) dest expected)
          (\<lambda>actual. update_metadata_only env (io 11) i (\<lambda>m. m\<lparr>dm_sha256_final := Some actual\<rparr>)) s2) = (Inr (), s3)" and
    4: "set_state env (io 12) i FinalizingIo n (Some (rm_size rm)) (rm_etag rm) None True s3 = (Inr (), s4)" and
    5: "remove_metadata_file (io 13) mp s4 = (Inr (), s5)" and
    6: "set_state env (io 14) i Completed n (Some (rm_size rm)) (rm_etag rm) None False s5 = (Inr x, s')"
    by (auto simp: finish_download_def and_then_eq_Ok)
  have "holds i dest e c s1" using 1 assms(2) by (auto simp: disk_act_def fs_flush_def holds_def split: if_splits)
  with set_state_holds [OF 2] have h2: "holds i dest e c s2" by blast
  then have e: "expected_sha i s2 = e" by (auto simp: expected_sha_def holds_def)
  have h3: "holds i dest e c s3 \<and> (e \<noteq> None \<longrightarrow> (\<exists>b. c = Some b \<and> hash_matches env e b))"
  proof (cases e)
    case None
    with 3 e h2 show ?thesis by simp
  next
    case (Some h)
    with 3 e obtain a s2' where v: "restart_verify_hash env (io 10) dest h s2 = (Inr a, s2')" and
      u: "update_metadata_only env (io 11) i (\<lambda>m. m\<lparr>dm_sha256_final := Some a\<rparr>) s2' = (Inr (), s3)" by (auto simp: and_then_eq_Ok)
    from v h2 have hash: "\<exists>b. c = Some b \<and> hash_matches env e b" and s2': "s2' = s2"
      by (auto simp: restart_verify_hash_def fs_read_def Let_def hash_matches_def Some holds_def split: if_splits option.splits)
    from u s2' h2 have "holds i dest e c s3"
      by (auto simp: update_metadata_only_def with_task_def Let_def set_task_def holds_def dest!: persist_Ok)
    with hash show ?thesis by simp
  qed
  with set_state_holds [OF 4] have "holds i dest e c s4" by blast
  then have "holds i dest e c s5" using 5 assms(3) fs_remove_other [of dest mp "io 13"] by (auto simp: remove_metadata_file_def holds_def)
  from set_state_holds [OF 6 this] h3 sz show ?thesis by auto
qed

lemma keeps_hoare: "keeps grows m \<Longrightarrow> hoare (grows s0) m (\<lambda>_. grows s0) (\<lambda>_ _. True)"
proof (rule hoareI)
  fix s assume "keeps grows m" "grows s0 s"
  then have "grows s0 (snd (m s))" by (blast dest: rg.keepsD intro: rg.R_trans)
  then show "case m s of (Inl e, s') \<Rightarrow> True | (Inr x, s') \<Rightarrow> grows s0 s'" by (auto split: prod.split sum.split)
qed

lemma run_reaches_finish:
  assumes "others_ok sv" "run_download_state_machine env io sv j s = (Inr x, s')"
  shows "\<exists>rm n s1. fetch_remote_http_metadata env (sv_head sv) = Inr rm \<and> grows s s1 \<and>
    finish_download env io (wj_download_id j) (wj_destination_path j) (wj_metadata_path j) rm n s1 = (Inr x, s')"
proof -
  let ?fin = "\<lambda>rm n. finish_download env io (wj_download_id j) (wj_destination_path j) (wj_metadata_path j) rm n"
  let ?Q = "\<lambda>x s'. \<exists>rm n s1. fetch_remote_http_metadata env (sv_head sv) = Inr rm \<and> grows s s1 \<and> ?fin rm n s1 = (Inr x, s')"
  have fin: "hoare (grows s) (?fin rm n) ?Q (\<lambda>_ _. True)" if "fetch_remote_http_metadata env (sv_head sv) = Inr rm" for rm n
    by (rule hoareI) (use that in \<open>auto split: prod.split sum.split\<close>)
  have body: "hoare (grows s) (and_then (start_body env io sv i d rm n) (\<lambda>evs. and_then (receive env (io 7) i d tk evs n n) (?fin rm))) ?Q (\<lambda>_ _. True)"
    if "fetch_remote_http_metadata env (sv_head sv) = Inr rm" for i d rm n tk
  proof (rule hoareI)
    fix s2 assume g2: "grows s s2"
    obtain r s3 where r: "start_body env io sv i d rm n s2 = (r, s3)" by (cases "start_body env io sv i d rm n s2")
    show "case and_then (start_body env io sv i d rm n) (\<lambda>evs. and_then (receive env (io 7) i d tk evs n n) (?fin rm)) s2 of
        (Inl e, s') \<Rightarrow> True | (Inr x, s') \<Rightarrow> ?Q x s'"
    proof (cases r)
      case (Inr evs)
      have "grows s s3" using rg.R_trans [OF g2 rg.keepsD [OF rg.keeps_start_body, of s2 env io sv i d rm n]] r by simp
      have "keeps grows (receive env (io 7) i d tk evs n n)"
        using start_body_events [OF r [unfolded Inr]] assms(1) by (intro rg.keeps_receive) (auto simp: others_ok_def others_in_def)
      note h = hoare_then [OF keeps_hoare [OF this] fin [OF that]]
      have "case and_then (receive env (io 7) i d tk evs n n) (?fin rm) s3 of (Inl e, s') \<Rightarrow> True | (Inr x, s') \<Rightarrow> ?Q x s'"
        by (rule h [unfolded hoare_def, rule_format]) fact
      moreover have "and_then (start_body env io sv i d rm n) (\<lambda>evs. and_then (receive env (io 7) i d tk evs n n) (?fin rm)) s2 =
        and_then (receive env (io 7) i d tk evs n n) (?fin rm) s3" using r Inr by (simp add: and_then_def [of "start_body env io sv i d rm n"])
      ultimately show ?thesis by (simp only:)
    qed (use r in \<open>simp add: and_then_def\<close>)
  qed
  have "hoare (grows s) (run_download_state_machine env io sv j) ?Q (\<lambda>_ _. True)"
    unfolding run_download_state_machine_def Let_def
    apply (rule hoare_if, rule hoare_fail, simp)
    apply (rule hoare_then [OF keeps_hoare [OF rg.keeps_set_state]])
    apply (rule hoare_then [where R = "\<lambda>rm s'. fetch_remote_http_metadata env (sv_head sv) = Inr rm \<and> grows s s'"], rule hoare_of_result, simp, simp)
    apply (rule hoare_fixed)
    apply (rule hoare_then [OF keeps_hoare [OF rg.keeps_update_metadata]])
    apply (rule hoare_then [OF keeps_hoare [OF rg.keeps_set_state]])
    apply (rule hoare_then [OF keeps_hoare [OF rg.keeps_prepare]])
    apply (rule hoare_then [OF keeps_hoare [OF rg.keeps_set_state]])
    apply (rule hoare_then [OF keeps_hoare [OF rg.keeps_open]])
    apply (rule hoare_then [OF keeps_hoare [OF rg.keeps_set_state]])
    apply (rule body, assumption)
    done
  from hoare_Ok [OF this rg.R_refl assms(2)] show ?thesis .
qed

text \<open>
  C11: A completed download is whole and verified. Whatever calls fail on the way, whatever the server
  sends and whatever other tasks do within the service's invariant: when the worker of a task
  returns without an error, the task is marked as completed with at least the announced number of
  bytes, and if a hash was expected then the file has it.
\<close>

theorem completed_is_verified:
  assumes "restart_inv s" "j \<in> set (rs_spawned s)" "others_ok sv"
    and "run_download_state_machine env io sv j s = (Inr x, s')" "rs_downloads s' (wj_download_id j) = Some t"
  shows "ds_state (dt_status t) = Completed \<and>
    (\<exists>rm. fetch_remote_http_metadata env (sv_head sv) = Ok rm \<and> rm_size rm \<le> ds_bytes_downloaded (dt_status t)) \<and>
    (\<forall>e. dm_expected_sha256 (dt_metadata t) = Some e \<longrightarrow>
       (\<exists>b. rs_disk s' (wj_destination_path j) = Some b \<and> to_ascii_lowercase (trim e) = hex_encode (de_sha256 env b)))"
proof -
  let ?i = "wj_download_id j" and ?dest = "wj_destination_path j" and ?mp = "wj_metadata_path j"
  from run_reaches_finish [OF assms(3,4)] obtain rm n s1 where rm: "fetch_remote_http_metadata env (sv_head sv) = Inr rm" and g: "grows s s1" and
    f: "finish_download env io ?i ?dest ?mp rm n s1 = (Inr x, s')" by blast
  from g assms(1,2) have "restart_inv s1" "j \<in> set (rs_spawned s1)" by (auto simp: grows_def)
  then obtain t1 where t1: "rs_downloads s1 ?i = Some t1" "dt_metadata_path t1 = metadata_path_for ?dest" "?mp = metadata_path_for ?dest"
    unfolding restart_inv_alt by fastforce
  then have "holds ?i ?dest (dm_expected_sha256 (dt_metadata t1)) (rs_disk s1 ?dest) s1" "?mp \<noteq> ?dest"
    using metadata_path_neq [of ?dest] by (auto simp: holds_def)
  from finish_Ok [OF f this] assms(5) rm show ?thesis by (auto simp: at_state_def holds_def hash_matches_def)
qed

theorem completed_is_verified_witness:
  "\<exists>s' t. run_download_state_machine plain_env (\<lambda>_. no_faults) (range_server ''v2'' ''hello'') (job_of ''d'' (sample_task None))
      ((sample_state None ''he'')\<lparr>rs_spawned := [job_of ''d'' (sample_task None)]\<rparr>) = (Inr (), s') \<and>
    rs_downloads s' ''d'' = Some t \<and> ds_state (dt_status t) = Completed"
proof -
  let ?t = "sample_task None" and ?sv = "range_server ''v2'' ''hello''"
  let ?j = "job_of ''d'' ?t" and ?s = "(sample_state None ''he'')\<lparr>rs_spawned := [job_of ''d'' (sample_task None)]\<rparr>"
  have t: "dt_destination_path ?t = [''/'', ''f'']" "dt_metadata_path ?t = metadata_path_for [''/'', ''f'']" by (simp_all add: sample_task_def)
  have inv: "restart_inv ?s" by (simp add: restart_inv_alt sample_state_def empty_restart_state_def sample_task_def job_of_def)
  have oth: "others_ok ?sv" by (auto simp: others_ok_def others_in_def range_server_def pieces_def split: option.splits)
  have "runs (sees ''d'' [''/'', ''f''] (frame ''d'' ?s) (Some ''he'')) (run_download_state_machine plain_env (\<lambda>_. no_faults) ?sv ?j)
    (\<lambda>_ s. sees ''d'' [''/'', ''f''] (frame ''d'' ?s) (Some ''hello'') s \<and> at_state ''d'' Completed (length ''hello'') s \<and>
      rs_disk s (metadata_path_for [''/'', ''f'']) = None)"
    using resumed_content [OF plain_env_ok _ range_server_serves [of "''hello''", OF _ sample_tag(1)], of ?j "frame ''d'' ?s" None "''http://host/f''" 0 "Some ''he''"]
      metadata_path_neq [of "[''/'', ''f'']"]
    by (auto simp: job_of_def sample_state_def empty_restart_state_def frame_def sample_task_def new_metadata_def starts_with_def hash_matches_def)
  from runsD [OF this, of ?s] obtain s' where r: "run_download_state_machine plain_env (\<lambda>_. no_faults) ?sv ?j ?s = (Inr (), s')" "at_state ''d'' Completed (length ''hello'') s'"
    by (auto simp: sees_def sample_state_def)
  then obtain t' where "rs_downloads s' ''d'' = Some t'" by (auto simp: at_state_def)
  with completed_is_verified [OF inv _ oth r(1), of t'] r show ?thesis by (auto simp: job_of_def)
qed






end
