(* ===== verification/ControlPlane.thy ===== *)
theory ControlPlane
  imports F64 Text Actions
begin

text \<open>
  Leases for resumable downloads: \<^verbatim>\<open>src-tauri/src/control_plane/\<close>. A seeder answers a handshake with a
  signed token; the downloader verifies it with a key from a cache of a JSON Web Key Set,
  and renews the lease before it ends.

  A \<open>DateTime<Utc>\<close> is the number of nanoseconds since the epoch, a \<open>Duration\<close> a number of
  nanoseconds; the dates a \<open>chrono\<close> value cannot hold are left out. Time stamps in claims are 64-bit signed
  numbers and their differences wrap. Base64, JSON and Ed25519 are parameters (record \<open>token_lib\<close>),
  as are the fetcher of the key set and the random ratios.

  Shown: an issued acknowledgement is accepted by the verifier it is meant for; what acceptance
  implies, check by check; the cache serves only keys of its last document, and no stale ones
  without asking again; when a lease is renewed and how long a retry waits. A defect is a theorem: a
  token is rejected as soon as its age exceeds the tolerated clock skew of five minutes, although
  it is issued for up to a day.
\<close>

type_synonym datetime = int
type_synonym duration = int

definition NANOS :: int where "NANOS = 1000000000"

definition wrap_i64 :: "int \<Rightarrow> int" where
  "wrap_i64 x = (x + 2 ^ 63) mod 2 ^ 64 - 2 ^ 63"

definition timestamp :: "datetime \<Rightarrow> int" where
  "timestamp t = t div NANOS"

text \<open>\<open>num_seconds\<close> and \<open>num_milliseconds\<close> round towards zero.\<close>

definition num_seconds :: "duration \<Rightarrow> int" where
  "num_seconds d = (if 0 \<le> d then d div NANOS else - ((- d) div NANOS))"

definition num_milliseconds :: "duration \<Rightarrow> int" where
  "num_milliseconds d = (if 0 \<le> d then d div 1000000 else - ((- d) div 1000000))"

section \<open>Handshake\<close>

definition HANDSHAKE_PROTOCOL_ID :: string where "HANDSHAKE_PROTOCOL_ID = ''/chiral/handshake/1.0.0''"

record handshake_request =
  hq_file_id :: string
  hq_download_id :: string
  hq_epoch :: u64
  hq_requester_peer_id :: string

record handshake_ack =
  ha_file_id :: string
  ha_download_id :: string
  ha_epoch :: u64
  ha_etag :: string
  ha_size :: u64
  ha_lease_exp :: datetime
  ha_lease_issued_at :: datetime
  ha_resume_token :: string

record lease_window =
  lw_issued_at :: datetime
  lw_expires_at :: datetime

definition ack_lease_window :: "handshake_ack \<Rightarrow> lease_window" where
  "ack_lease_window a = \<lparr>lw_issued_at = ha_lease_issued_at a, lw_expires_at = ha_lease_exp a\<rparr>"

definition lease_duration :: "lease_window \<Rightarrow> duration" where
  "lease_duration w = lw_expires_at w - lw_issued_at w"

definition remaining_from :: "lease_window \<Rightarrow> datetime \<Rightarrow> duration" where
  "remaining_from w now = lw_expires_at w - now"

definition is_expired :: "lease_window \<Rightarrow> datetime \<Rightarrow> bool" where
  "is_expired w now = (lw_expires_at w \<le> now)"

fun f64_round :: "f64 \<Rightarrow> f64" where
  "f64_round (F_Fin q) = F_Fin (if 0 \<le> q then of_int \<lfloor>q + 1 / 2\<rfloor> else - of_int \<lfloor>- q + 1 / 2\<rfloor>)"
| "f64_round x = x"

fun f64_to_i64 :: "f64 \<Rightarrow> int" where
  "f64_to_i64 F_NaN = 0"
| "f64_to_i64 (F_Inf neg) = (if neg then - (2 ^ 63) else 2 ^ 63 - 1)"
| "f64_to_i64 (F_Fin q) = max (- (2 ^ 63)) (min (2 ^ 63 - 1) (if 0 \<le> q then \<lfloor>q\<rfloor> else - \<lfloor>- q\<rfloor>))"

definition scale_duration :: "duration \<Rightarrow> f64 \<Rightarrow> duration" where
  "scale_duration d factor =
     (if f64_le factor (F_Fin 0) \<or> d \<le> 0 then 0
      else let millis = num_milliseconds d
           in if millis \<le> 0 then 0
              else let scaled = f64_round (f64_mul (f64_of_rat (of_int millis)) factor)
                   in case scaled of
                        F_Fin _ \<Rightarrow> f64_to_i64 (f64_min (f64_max scaled (F_Fin 0)) (F_Fin (2 ^ 63))) * 1000000
                      | _ \<Rightarrow> d)"

record lease_renewal_policy =
  rp_jitter_max_ratio :: f64
  rp_min_lead_time :: duration
  rp_lead_time_fraction :: f64

definition default_lease_renewal_policy :: lease_renewal_policy where
  "default_lease_renewal_policy = \<lparr>rp_jitter_max_ratio = f64_of_rat (15 / 100), rp_min_lead_time = 60 * NANOS,
     rp_lead_time_fraction = f64_of_rat (1 / 10)\<rparr>"

text \<open>\<open>ratio\<close> is the number drawn, between 0 and the smaller of the bound and 1.\<close>

definition random_jitter :: "f64 \<Rightarrow> f64 \<Rightarrow> duration \<Rightarrow> duration" where
  "random_jitter max_ratio ratio base = (if f64_le max_ratio (F_Fin 0) then 0 else scale_duration base ratio)"

definition compute_trigger_instant :: "lease_renewal_policy \<Rightarrow> f64 \<Rightarrow> lease_window \<Rightarrow> datetime" where
  "compute_trigger_instant p ratio w =
     (let lead0 = scale_duration (lease_duration w) (rp_lead_time_fraction p);
          lead = (if lead0 < rp_min_lead_time p then rp_min_lead_time p else lead0)
      in lw_expires_at w - (lead + random_jitter (rp_jitter_max_ratio p) ratio lead))"

definition is_renewal_due :: "lease_renewal_policy \<Rightarrow> f64 \<Rightarrow> lease_window \<Rightarrow> datetime \<Rightarrow> bool" where
  "is_renewal_due p ratio w now = (compute_trigger_instant p ratio w \<le> now)"

datatype handshake_error_kind = HsTimeout | InvalidResponse | Transport nat | Unauthorized | Retryable

record handshake_error =
  he_kind :: handshake_error_kind
  he_message :: string

record handshake_backoff =
  hb_attempt :: u32
  hb_base :: duration
  hb_max :: duration
  hb_jitter_ratio :: f64

definition new_handshake_backoff :: "duration \<Rightarrow> duration \<Rightarrow> handshake_backoff" where
  "new_handshake_backoff base mx = \<lparr>hb_attempt = 0, hb_base = base, hb_max = mx, hb_jitter_ratio = f64_of_rat (2 / 10)\<rparr>"

definition reset_backoff :: "handshake_backoff \<Rightarrow> handshake_backoff" where
  "reset_backoff b = b\<lparr>hb_attempt := 0\<rparr>"

definition retryable_kind :: "handshake_error_kind \<Rightarrow> bool" where
  "retryable_kind k = (case k of HsTimeout \<Rightarrow> True | Retryable \<Rightarrow> True | Transport n \<Rightarrow> 500 \<le> n \<and> n \<le> 599 | _ \<Rightarrow> False)"

definition next_delay :: "f64 \<Rightarrow> handshake_error_kind \<Rightarrow> handshake_backoff \<Rightarrow> duration \<times> handshake_backoff" where
  "next_delay ratio kind b =
     (if \<not> retryable_kind kind then (0, b\<lparr>hb_attempt := 0\<rparr>)
      else let capped_attempt = min (hb_attempt b) 16;
               delay0 = hb_base b * 2 ^ capped_attempt;
               delay = (if hb_max b < delay0 then hb_max b else delay0)
           in (delay + random_jitter (hb_jitter_ratio b) ratio delay, b\<lparr>hb_attempt := min (hb_attempt b + 1) u32_max\<rparr>))"

section \<open>Keys\<close>

text \<open>\<open>InstantOverflow\<close> is no error of the code: it stands for the panic of \<open>Instant + Duration\<close> beyond the range of the clock.\<close>

datatype jwks_error =
    JwksNetwork string | UnexpectedStatus nat | InvalidDocument string | KeyNotFound string | EmptyCache | InstantOverflow

record jwk =
  jk_kty :: string
  jk_usage :: "string option"
  jk_alg :: "string option"
  jk_crv :: "string option"
  jk_kid :: "string option"
  jk_x :: "string option"

type_synonym jwk_document = "jwk list"

record jwks_fetch_result =
  fr_document :: "jwk_document option"
  fr_etag :: "string option"
  fr_max_age :: "nat option"
  fr_not_modified :: bool

text \<open>The libraries: \<open>'v\<close> is a verification key.\<close>

record token_header =
  th_alg :: string
  th_typ :: "string option"
  th_kid :: string

record resume_token_claims =
  cl_sub :: string
  cl_aud :: string
  cl_download_id :: string
  cl_etag :: string
  cl_epoch :: u64
  cl_iat :: int
  cl_nbf :: int
  cl_exp :: int
  cl_scp :: string
  cl_kid :: string

record ('k, 'v) token_lib =
  tl_b64_encode :: "bytes \<Rightarrow> string"
  tl_b64_decode :: "string \<Rightarrow> (string, bytes) result"
  tl_header_json :: "token_header \<Rightarrow> bytes option"
  tl_claims_json :: "resume_token_claims \<Rightarrow> bytes option"
  tl_parse_header :: "bytes \<Rightarrow> token_header option"
  tl_parse_claims :: "bytes \<Rightarrow> resume_token_claims option"
  tl_sign :: "'k \<Rightarrow> bytes \<Rightarrow> bytes"
  tl_key_of_bytes :: "bytes \<Rightarrow> (string, 'v) result"
  tl_verify_strict :: "'v \<Rightarrow> bytes \<Rightarrow> bytes \<Rightarrow> bool"

text \<open>An answer to the request for the key set: status, the two headers, and the body or what is wrong with it.\<close>

record jwks_response =
  jr_status :: nat
  jr_cache_control :: "bytes option"
  jr_etag :: "bytes option"
  jr_body :: "(string, jwk_document) result"

fun find_map :: "('a \<Rightarrow> 'b option) \<Rightarrow> 'a list \<Rightarrow> 'b option" where
  "find_map f [] = None"
| "find_map f (x # xs) = (case f x of Some y \<Rightarrow> Some y | None \<Rightarrow> find_map f xs)"

definition parse_max_age :: "bytes \<Rightarrow> nat option" where
  "parse_max_age value = Option.bind (header_str value) (\<lambda>s.
     find_map (\<lambda>directive. case strip_prefix ''max-age='' (trim directive) of Some rest \<Rightarrow> parse_u64 rest | None \<Rightarrow> None)
       (split_on (CHR '','') s))"

definition http_fetch :: "(string option \<Rightarrow> (string, jwks_response) result) \<Rightarrow> string option \<Rightarrow> (jwks_error, jwks_fetch_result) result" where
  "http_fetch send etag =
     (case send etag of
        Inl e \<Rightarrow> Err (JwksNetwork e)
      | Inr resp \<Rightarrow>
          if jr_status resp = 304
          then Ok \<lparr>fr_document = None, fr_etag = etag, fr_max_age = Option.bind (jr_cache_control resp) parse_max_age, fr_not_modified = True\<rparr>
          else if \<not> (200 \<le> jr_status resp \<and> jr_status resp < 300) then Err (UnexpectedStatus (jr_status resp))
          else (case jr_body resp of
                  Inl e \<Rightarrow> Err (InvalidDocument e)
                | Inr d \<Rightarrow> Ok \<lparr>fr_document = Some d, fr_etag = Option.bind (jr_etag resp) header_str,
                              fr_max_age = Option.bind (jr_cache_control resp) parse_max_age, fr_not_modified = False\<rparr>))"

text \<open>Instants are nanoseconds of the monotonic clock, whose seconds are a signed 64-bit number; ages are seconds.\<close>

definition instant_add :: "nat \<Rightarrow> nat \<Rightarrow> nat option" where
  "instant_add now secs = (if now div 1000000000 + secs < 2 ^ 63 then Some (now + secs * 1000000000) else None)"

record 'v cached_jwks =
  cj_keys :: "string \<rightharpoonup> 'v"
  cj_etag :: "string option"
  cj_expires_at :: nat
  cj_max_age :: nat

record 'v jwks_cache =
  jc_default_ttl :: nat
  jc_state :: "'v cached_jwks option"

definition new_jwks_cache :: "'v jwks_cache" where
  "new_jwks_cache = \<lparr>jc_default_ttl = 300, jc_state = None\<rparr>"

fun add_key :: "('k, 'v) token_lib \<Rightarrow> jwk \<Rightarrow> (string \<rightharpoonup> 'v) \<Rightarrow> (jwks_error, string \<rightharpoonup> 'v) result" where
  "add_key lib j m =
     (if jk_kty j \<noteq> ''OKP'' then Ok m
      else if jk_crv j \<noteq> Some ''Ed25519'' then Ok m
      else case jk_kid j of
             None \<Rightarrow> Ok m
           | Some kid \<Rightarrow>
               (case jk_x j of
                  None \<Rightarrow> Err (InvalidDocument ''missing x'')
                | Some x \<Rightarrow>
                    (case tl_b64_decode lib x of
                       Inl e \<Rightarrow> Err (InvalidDocument e)
                     | Inr b \<Rightarrow>
                         if length b \<noteq> 32 then Err (InvalidDocument ''invalid key length'')
                         else case tl_key_of_bytes lib b of Inl e \<Rightarrow> Err (InvalidDocument e) | Inr k \<Rightarrow> Ok (m(kid \<mapsto> k)))))"

fun add_keys :: "('k, 'v) token_lib \<Rightarrow> jwk list \<Rightarrow> (string \<rightharpoonup> 'v) \<Rightarrow> (jwks_error, string \<rightharpoonup> 'v) result" where
  "add_keys lib [] m = Ok m"
| "add_keys lib (j # js) m = rbind (add_key lib j m) (add_keys lib js)"

definition build_key_map :: "('k, 'v) token_lib \<Rightarrow> jwk_document \<Rightarrow> (jwks_error, string \<rightharpoonup> 'v) result" where
  "build_key_map lib d = rbind (add_keys lib d Map.empty)
     (\<lambda>m. if dom m = {} then Err (InvalidDocument ''no usable keys in JWKS'') else Ok m)"

definition refresh ::
  "('k, 'v) token_lib \<Rightarrow> (string option \<Rightarrow> (jwks_error, jwks_fetch_result) result) \<Rightarrow> nat \<Rightarrow> ('v jwks_cache, jwks_error, unit) act" where
  "refresh lib fetch now c =
     (case fetch (Option.bind (jc_state c) cj_etag) of
        Inl e \<Rightarrow> (Err e, c)
      | Inr r \<Rightarrow>
          if fr_not_modified r
          then (case jc_state c of
                  None \<Rightarrow> (Err EmptyCache, c)
                | Some s \<Rightarrow>
                    let ttl = (case fr_max_age r of Some t \<Rightarrow> t | None \<Rightarrow> cj_max_age s)
                    in case instant_add now ttl of
                         None \<Rightarrow> (Err InstantOverflow, c\<lparr>jc_state := Some (s\<lparr>cj_max_age := ttl\<rparr>)\<rparr>)
                       | Some expires_at \<Rightarrow> (Ok (), c\<lparr>jc_state := Some (s\<lparr>cj_max_age := ttl, cj_expires_at := expires_at\<rparr>)\<rparr>))
          else case fr_document r of
                 None \<Rightarrow> (Err (InvalidDocument ''missing body''), c)
               | Some d \<Rightarrow>
                   (case build_key_map lib d of
                      Inl e \<Rightarrow> (Err e, c)
                    | Inr keys \<Rightarrow>
                        let ttl = (case fr_max_age r of Some t \<Rightarrow> t | None \<Rightarrow> jc_default_ttl c)
                        in case instant_add now ttl of
                             None \<Rightarrow> (Err InstantOverflow, c)
                           | Some expires_at \<Rightarrow>
                               (Ok (), c\<lparr>jc_state := Some \<lparr>cj_keys = keys, cj_etag = fr_etag r, cj_expires_at = expires_at, cj_max_age = ttl\<rparr>\<rparr>)))"

definition cached_key :: "nat \<Rightarrow> string \<Rightarrow> 'v jwks_cache \<Rightarrow> 'v option" where
  "cached_key now kid c =
     (case jc_state c of None \<Rightarrow> None | Some s \<Rightarrow> if now < cj_expires_at s then cj_keys s kid else None)"

definition get_key ::
  "('k, 'v) token_lib \<Rightarrow> (string option \<Rightarrow> (jwks_error, jwks_fetch_result) result) \<Rightarrow> nat \<Rightarrow> nat \<Rightarrow> string \<Rightarrow> ('v jwks_cache, jwks_error, 'v) act" where
  "get_key lib fetch now later kid c =
     (case cached_key now kid c of
        Some k \<Rightarrow> (Ok k, c)
      | None \<Rightarrow>
          and_then (refresh lib fetch later)
            (\<lambda>_ c1. (case jc_state c1 of None \<Rightarrow> Err EmptyCache | Some s \<Rightarrow> ok_or (KeyNotFound kid) (cj_keys s kid), c1)) c)"

section \<open>Tokens\<close>

definition MIN_LEASE_SECS :: int where "MIN_LEASE_SECS = 300"
definition MAX_LEASE_SECS :: int where "MAX_LEASE_SECS = 86400"
definition DEFAULT_LEASE_SECS :: int where "DEFAULT_LEASE_SECS = 14400"
definition DEFAULT_SCOPE :: string where "DEFAULT_SCOPE = ''resume''"

datatype resume_token_error = TkInvalid string | TkSignature | TkExpired | TkNotYetValid | TkClockSkew | TkWeakEtag | TkJwks jwks_error

definition ensure_strong_etag :: "string \<Rightarrow> (resume_token_error, string) result" where
  "ensure_strong_etag etag =
     (let trimmed = trim etag
      in if trimmed = [] then Err (TkInvalid ''etag missing'')
         else if starts_with ''W/'' trimmed then Err TkWeakEtag
         else Ok trimmed)"

definition clamp_duration :: "duration \<Rightarrow> (resume_token_error, duration) result" where
  "clamp_duration d =
     (if num_seconds d < MIN_LEASE_SECS then Err (TkInvalid ''lease too short'')
      else if MAX_LEASE_SECS < num_seconds d then Err (TkInvalid ''lease too long'')
      else Ok d)"

record 'k resume_token_signer =
  sg_signing_key :: 'k
  sg_key_id :: string
  sg_seeder_peer_id :: string
  sg_default_duration :: duration

definition new_signer :: "'k \<Rightarrow> string \<Rightarrow> string \<Rightarrow> 'k resume_token_signer" where
  "new_signer key key_id seeder =
     \<lparr>sg_signing_key = key, sg_key_id = key_id, sg_seeder_peer_id = seeder, sg_default_duration = DEFAULT_LEASE_SECS * NANOS\<rparr>"

definition with_default_duration :: "duration \<Rightarrow> 'k resume_token_signer \<Rightarrow> 'k resume_token_signer" where
  "with_default_duration d s = s\<lparr>sg_default_duration := d\<rparr>"

definition encode_token :: "('k, 'v) token_lib \<Rightarrow> 'k resume_token_signer \<Rightarrow> resume_token_claims \<Rightarrow> (resume_token_error, string) result" where
  "encode_token lib s claims =
     (case tl_header_json lib \<lparr>th_alg = ''EdDSA'', th_typ = Some ''JWT'', th_kid = sg_key_id s\<rparr> of
        None \<Rightarrow> Err (TkInvalid ''header'')
      | Some header_json \<Rightarrow>
          (case tl_claims_json lib claims of
             None \<Rightarrow> Err (TkInvalid ''claims'')
           | Some payload_json \<Rightarrow>
               let signing_input = tl_b64_encode lib header_json @ ''.'' @ tl_b64_encode lib payload_json
               in Ok (signing_input @ ''.'' @ tl_b64_encode lib (tl_sign lib (sg_signing_key s) signing_input))))"

definition issue_ack ::
  "('k, 'v) token_lib \<Rightarrow> 'k resume_token_signer \<Rightarrow> handshake_request \<Rightarrow> string \<Rightarrow> u64 \<Rightarrow> u64 \<Rightarrow> datetime \<Rightarrow> duration option
     \<Rightarrow> (resume_token_error, handshake_ack) result" where
  "issue_ack lib s request etag sz epoch now lease_override =
     rbind (clamp_duration (case lease_override of Some d \<Rightarrow> d | None \<Rightarrow> sg_default_duration s)) (\<lambda>clamped.
     let expires_at = now + clamped in
     rbind (ensure_strong_etag etag) (\<lambda>etag.
     let claims = \<lparr>cl_sub = hq_file_id request, cl_aud = sg_seeder_peer_id s, cl_download_id = hq_download_id request, cl_etag = etag,
                   cl_epoch = epoch, cl_iat = timestamp now, cl_nbf = timestamp now, cl_exp = timestamp expires_at,
                   cl_scp = DEFAULT_SCOPE, cl_kid = sg_key_id s\<rparr> in
     rbind (encode_token lib s claims) (\<lambda>token.
     Ok \<lparr>ha_file_id = hq_file_id request, ha_download_id = hq_download_id request, ha_epoch = epoch, ha_etag = etag, ha_size = sz,
         ha_lease_exp = expires_at, ha_lease_issued_at = now, ha_resume_token = token\<rparr>)))"

record resume_token_verifier =
  vr_expected_audience :: string
  vr_expected_scope :: string
  vr_max_clock_skew :: duration

definition new_verifier :: "string \<Rightarrow> resume_token_verifier" where
  "new_verifier audience =
     \<lparr>vr_expected_audience = audience, vr_expected_scope = DEFAULT_SCOPE, vr_max_clock_skew = 5 * 60 * NANOS\<rparr>"

definition with_clock_skew :: "duration \<Rightarrow> resume_token_verifier \<Rightarrow> resume_token_verifier" where
  "with_clock_skew d v = v\<lparr>vr_max_clock_skew := d\<rparr>"

definition validate_claims ::
  "resume_token_verifier \<Rightarrow> resume_token_claims \<Rightarrow> string \<Rightarrow> string \<Rightarrow> u64 \<Rightarrow> datetime \<Rightarrow> (resume_token_error, unit) result" where
  "validate_claims v c file_id download_id epoch now =
     (if cl_sub c \<noteq> file_id then Err (TkInvalid ''file id'')
      else if cl_download_id c \<noteq> download_id then Err (TkInvalid ''download id'')
      else if cl_epoch c \<noteq> epoch then Err (TkInvalid ''epoch'')
      else if cl_aud c \<noteq> vr_expected_audience v then Err (TkInvalid ''aud'')
      else if cl_scp c \<noteq> vr_expected_scope v then Err (TkInvalid ''scope'')
      else rbind (ensure_strong_etag (cl_etag c)) (\<lambda>_.
        let lease_len = wrap_i64 (cl_exp c - cl_iat c);
            skew = num_seconds (vr_max_clock_skew v);
            now_ts = timestamp now
        in if \<not> (MIN_LEASE_SECS \<le> lease_len \<and> lease_len \<le> MAX_LEASE_SECS) then Err (TkInvalid ''lease bounds'')
           else if cl_exp c < wrap_i64 (now_ts - skew) then Err TkExpired
           else if wrap_i64 (now_ts + skew) < cl_nbf c then Err TkNotYetValid
           else if skew < wrap_i64 \<bar>wrap_i64 (cl_iat c - now_ts)\<bar> then Err TkClockSkew
           else Ok ()))"

definition decode_json_part :: "('k, 'v) token_lib \<Rightarrow> (bytes \<Rightarrow> 'a option) \<Rightarrow> string \<Rightarrow> (resume_token_error, 'a) result" where
  "decode_json_part lib parse part =
     (case tl_b64_decode lib part of
        Inl _ \<Rightarrow> Err (TkInvalid ''b64'')
      | Inr b \<Rightarrow> (case parse b of None \<Rightarrow> Err (TkInvalid ''json'') | Some x \<Rightarrow> Ok x))"

text \<open>The cache of keys is looked up in between, so the operations act on it.\<close>

definition verify_token ::
  "('k, 'v) token_lib \<Rightarrow> (string \<Rightarrow> ('v jwks_cache, jwks_error, 'v) act) \<Rightarrow> resume_token_verifier \<Rightarrow> string \<Rightarrow> string \<Rightarrow> string \<Rightarrow> u64 \<Rightarrow> datetime
     \<Rightarrow> ('v jwks_cache, resume_token_error, resume_token_claims) act" where
  "verify_token lib key_for v token file_id download_id epoch now =
     (case split_on (CHR ''.'') token of
        [p0, p1, p2] \<Rightarrow>
          and_then (of_result (decode_json_part lib (tl_parse_header lib) p0)) (\<lambda>header.
          if th_alg header \<noteq> ''EdDSA'' then fail (TkInvalid ''alg'')
          else case tl_b64_decode lib p2 of
                 Inl _ \<Rightarrow> fail TkSignature
               | Inr sig \<Rightarrow>
                   if length sig \<noteq> 64 then fail TkSignature
                   else and_then (\<lambda>c. case key_for (th_kid header) c of (r, c1) \<Rightarrow> (map_err TkJwks r, c1)) (\<lambda>key.
                        if \<not> tl_verify_strict lib key (p0 @ ''.'' @ p1) sig then fail TkSignature
                        else and_then (of_result (decode_json_part lib (tl_parse_claims lib) p1)) (\<lambda>claims.
                             if cl_kid claims \<noteq> th_kid header then fail (TkInvalid ''kid mismatch'')
                             else and_then (of_result (validate_claims v claims file_id download_id epoch now)) (\<lambda>_. ret claims))))
      | _ \<Rightarrow> fail (TkInvalid ''token format''))"

definition verify_ack ::
  "('k, 'v) token_lib \<Rightarrow> (string \<Rightarrow> ('v jwks_cache, jwks_error, 'v) act) \<Rightarrow> resume_token_verifier \<Rightarrow> handshake_ack \<Rightarrow> string \<Rightarrow> string \<Rightarrow> datetime
     \<Rightarrow> ('v jwks_cache, resume_token_error, resume_token_claims \<times> lease_window) act" where
  "verify_ack lib key_for v ack file_id download_id now =
     and_then (verify_token lib key_for v (ha_resume_token ack) file_id download_id (ha_epoch ack) now) (\<lambda>claims.
     and_then (of_result (ensure_strong_etag (ha_etag ack))) (\<lambda>etag.
     if etag \<noteq> cl_etag claims then fail (TkInvalid ''etag mismatch'')
     else if timestamp (ha_lease_exp ack) \<noteq> cl_exp claims then fail (TkInvalid ''lease exp mismatch'')
     else if timestamp (ha_lease_issued_at ack) \<noteq> cl_iat claims then fail (TkInvalid ''lease issued mismatch'')
     else ret (claims, ack_lease_window ack)))"

section \<open>Time stamps\<close>

lemma wrap_i64_id: "- (2 ^ 63) \<le> x \<Longrightarrow> x < 2 ^ 63 \<Longrightarrow> wrap_i64 x = x"
  by (simp add: wrap_i64_def)

lemma NANOS_pos: "0 < NANOS"
  by (simp add: NANOS_def)

lemma num_seconds_nonneg: "0 \<le> d \<Longrightarrow> num_seconds d = d div NANOS"
  by (simp add: num_seconds_def)

lemma num_seconds_ge: "0 < k \<Longrightarrow> k \<le> num_seconds d \<Longrightarrow> k * NANOS \<le> d"
proof -
  assume k: "0 < k" "k \<le> num_seconds d"
  have "0 \<le> d"
  proof (rule ccontr)
    assume "\<not> 0 \<le> d"
    then have "num_seconds d \<le> 0" using NANOS_pos by (simp add: num_seconds_def pos_imp_zdiv_nonneg_iff)
    with k show False by simp
  qed
  then have "k \<le> d div NANOS" using k by (simp add: num_seconds_def)
  then have "k * NANOS \<le> d div NANOS * NANOS" using NANOS_pos by (intro mult_right_mono) simp_all
  also have "\<dots> \<le> d" using div_mult_mod_eq [of d NANOS] pos_mod_sign [OF NANOS_pos, of d] by linarith
  finally show ?thesis .
qed

text \<open>A lease of 300 seconds up to a day, in whole time stamps.\<close>

lemma lease_len_bounds:
  assumes "clamp_duration d = Ok d'" "d \<le> MAX_LEASE_SECS * NANOS"
  shows "d' = d" "MIN_LEASE_SECS \<le> timestamp (now + d) - timestamp now" "timestamp (now + d) - timestamp now \<le> MAX_LEASE_SECS"
proof -
  show "d' = d" using assms(1) by (auto simp: clamp_duration_def split: if_splits)
  have "MIN_LEASE_SECS \<le> num_seconds d" using assms(1) by (auto simp: clamp_duration_def split: if_splits)
  then have lo: "MIN_LEASE_SECS * NANOS \<le> d" by (intro num_seconds_ge) (simp_all add: MIN_LEASE_SECS_def)
  have shift: "(now + k * NANOS) div NANOS = now div NANOS + k" for k using NANOS_pos by simp
  have "now div NANOS + MIN_LEASE_SECS \<le> (now + d) div NANOS"
    using lo zdiv_mono1 [OF _ NANOS_pos, of "now + MIN_LEASE_SECS * NANOS" "now + d"] by (simp add: shift)
  moreover have "(now + d) div NANOS \<le> now div NANOS + MAX_LEASE_SECS"
    using assms(2) zdiv_mono1 [OF _ NANOS_pos, of "now + d" "now + MAX_LEASE_SECS * NANOS"] by (simp add: shift)
  ultimately show "MIN_LEASE_SECS \<le> timestamp (now + d) - timestamp now" "timestamp (now + d) - timestamp now \<le> MAX_LEASE_SECS"
    by (simp_all add: timestamp_def)
qed

section \<open>Tokens\<close>

text \<open>What the libraries promise: decoding undoes encoding, the alphabet of Base64 has no dot, signatures have 64 bytes and verify.\<close>

definition lib_ok :: "('k, 'v) token_lib \<Rightarrow> ('k \<Rightarrow> 'v) \<Rightarrow> bool" where
  "lib_ok lib pub \<longleftrightarrow> (\<forall>b. tl_b64_decode lib (tl_b64_encode lib b) = Ok b) \<and> (\<forall>b. CHR ''.'' \<notin> set (tl_b64_encode lib b)) \<and>
     (\<forall>h b. tl_header_json lib h = Some b \<longrightarrow> tl_parse_header lib b = Some h) \<and>
     (\<forall>c b. tl_claims_json lib c = Some b \<longrightarrow> tl_parse_claims lib b = Some c) \<and>
     (\<forall>k m. length (tl_sign lib k m) = 64 \<and> tl_verify_strict lib (pub k) m (tl_sign lib k m))"

lemma split_three:
  assumes "CHR ''.'' \<notin> set a" "CHR ''.'' \<notin> set b" "CHR ''.'' \<notin> set c"
  shows "split_on (CHR ''.'') ((a @ ''.'' @ b) @ ''.'' @ c) = [a, b, c]"
  using assms split_on_append [of "CHR ''.''" a] split_on_append [of "CHR ''.''" b] split_on_none [of "CHR ''.''" c] by simp

lemma verify_encoded:
  assumes "lib_ok lib pub" "encode_token lib s claims = Ok token" "key_for (sg_key_id s) c = (Ok (pub (sg_signing_key s)), c1)"
    and "cl_kid claims = sg_key_id s"
  shows "verify_token lib key_for v token file_id download_id epoch now c =
    (case validate_claims v claims file_id download_id epoch now of Inl e \<Rightarrow> Err e | Inr _ \<Rightarrow> Ok claims, c1)"
proof -
  let ?h = "\<lparr>th_alg = ''EdDSA'', th_typ = Some ''JWT'', th_kid = sg_key_id s\<rparr>"
  from assms(2) obtain hj cj where j: "tl_header_json lib ?h = Some hj" "tl_claims_json lib claims = Some cj"
    by (auto simp: encode_token_def split: option.splits)
  let ?a = "tl_b64_encode lib hj" and ?b = "tl_b64_encode lib cj"
  let ?sig = "tl_sign lib (sg_signing_key s) (?a @ ''.'' @ ?b)"
  have tok: "token = (?a @ ''.'' @ ?b) @ ''.'' @ tl_b64_encode lib ?sig"
    using assms(2) j by (auto simp: encode_token_def Let_def)
  have laws: "tl_b64_decode lib (tl_b64_encode lib b) = Inr b" "CHR ''.'' \<notin> set (tl_b64_encode lib b)" "length (tl_sign lib k m) = 64"
    "tl_verify_strict lib (pub k) m (tl_sign lib k m)" for b k m using assms(1) by (simp_all add: lib_ok_def)
  have parse: "tl_parse_header lib hj = Some ?h" "tl_parse_claims lib cj = Some claims" using assms(1) j by (auto simp: lib_ok_def)
  show ?thesis unfolding verify_token_def tok split_three [OF laws(2) laws(2) laws(2)]
    using laws(4) [of "sg_signing_key s" "?a @ ''.'' @ ?b"]
    by (simp add: decode_json_part_def laws parse assms(3,4) and_then_def split: sum.split)
qed

lemma strong_etag_again: "ensure_strong_etag e = Ok e' \<Longrightarrow> ensure_strong_etag e' = Ok e'"
  by (auto simp: ensure_strong_etag_def Let_def split: if_splits)

definition ack_claims :: "'k resume_token_signer \<Rightarrow> handshake_ack \<Rightarrow> resume_token_claims" where
  "ack_claims s a = \<lparr>cl_sub = ha_file_id a, cl_aud = sg_seeder_peer_id s, cl_download_id = ha_download_id a, cl_etag = ha_etag a,
     cl_epoch = ha_epoch a, cl_iat = timestamp (ha_lease_issued_at a), cl_nbf = timestamp (ha_lease_issued_at a),
     cl_exp = timestamp (ha_lease_exp a), cl_scp = DEFAULT_SCOPE, cl_kid = sg_key_id s\<rparr>"

lemma issued_ack:
  assumes "issue_ack lib s req etag sz epoch now lease = Ok ack"
  shows "ha_file_id ack = hq_file_id req" "ha_download_id ack = hq_download_id req" "ha_epoch ack = epoch"
    "ensure_strong_etag (ha_etag ack) = Ok (ha_etag ack)" "ha_lease_issued_at ack = now"
    "\<exists>d. clamp_duration (case lease of Some d \<Rightarrow> d | None \<Rightarrow> sg_default_duration s) = Ok d \<and> ha_lease_exp ack = now + d"
    "encode_token lib s (ack_claims s ack) = Ok (ha_resume_token ack)"
  using assms by (auto simp: issue_ack_def rbind_Inr Let_def ack_claims_def strong_etag_again)

lemma verify_issued:
  assumes "lib_ok lib pub" "issue_ack lib s req etag sz epoch now lease = Ok ack"
    and "key_for (sg_key_id s) c = (Ok (pub (sg_signing_key s)), c1)"
  shows "verify_ack lib key_for v ack (hq_file_id req) (hq_download_id req) now' c =
    (case validate_claims v (ack_claims s ack) (hq_file_id req) (hq_download_id req) epoch now' of
       Inl e \<Rightarrow> Err e | Inr _ \<Rightarrow> Ok (ack_claims s ack, \<lparr>lw_issued_at = now, lw_expires_at = ha_lease_exp ack\<rparr>), c1)"
proof -
  note ia = issued_ack [OF assms(2)]
  have "cl_kid (ack_claims s ack) = sg_key_id s" by (simp add: ack_claims_def)
  note tok = verify_encoded [where key_for = key_for and c = c and v = v and file_id = "hq_file_id req" and download_id = "hq_download_id req"
      and epoch = epoch and now = now', OF assms(1) ia(7) assms(3) this]
  have cl: "cl_etag (ack_claims s ack) = ha_etag ack" "cl_exp (ack_claims s ack) = timestamp (ha_lease_exp ack)"
    "cl_iat (ack_claims s ack) = timestamp now" by (simp_all add: ack_claims_def ia)
  show ?thesis
    by (cases "validate_claims v (ack_claims s ack) (hq_file_id req) (hq_download_id req) epoch now'")
      (simp_all add: verify_ack_def and_then_def tok ia(3,4,5) cl ack_lease_window_def)
qed

text \<open>Which of the last checks decides, for claims issued at \<open>t0\<close> and read at \<open>t1\<close>.\<close>

lemma validate_issued:
  assumes "issue_ack lib s req etag sz epoch now lease = Ok ack"
    and "(case lease of Some d \<Rightarrow> d | None \<Rightarrow> sg_default_duration s) \<le> MAX_LEASE_SECS * NANOS"
    and "vr_expected_audience v = sg_seeder_peer_id s" "vr_expected_scope v = DEFAULT_SCOPE"
    and "\<bar>timestamp now\<bar> < 2 ^ 60" "\<bar>timestamp now'\<bar> < 2 ^ 60" "0 \<le> num_seconds (vr_max_clock_skew v)" "num_seconds (vr_max_clock_skew v) < 2 ^ 60"
    and "timestamp now' \<le> timestamp (ha_lease_exp ack)" "timestamp now \<le> timestamp now' + num_seconds (vr_max_clock_skew v)"
  shows "validate_claims v (ack_claims s ack) (hq_file_id req) (hq_download_id req) epoch now' =
    (if num_seconds (vr_max_clock_skew v) < \<bar>timestamp now - timestamp now'\<bar> then Err TkClockSkew else Ok ())"
proof -
  note ia = issued_ack [OF assms(1)]
  from ia(6) obtain d where d: "clamp_duration (case lease of Some d \<Rightarrow> d | None \<Rightarrow> sg_default_duration s) = Ok d" "ha_lease_exp ack = now + d" by blast
  have len: "MIN_LEASE_SECS \<le> timestamp (now + d) - timestamp now"
    "timestamp (now + d) - timestamp now \<le> MAX_LEASE_SECS"
    using lease_len_bounds(2,3) [OF d(1) assms(2), of now] lease_len_bounds(1) [OF d(1) assms(2)] by simp_all
  have w: "wrap_i64 (timestamp (now + d) - timestamp now) = timestamp (now + d) - timestamp now"
    by (rule wrap_i64_id) (use len in \<open>simp_all add: MIN_LEASE_SECS_def MAX_LEASE_SECS_def\<close>)
  let ?k = "num_seconds (vr_max_clock_skew v)"
  have w2: "wrap_i64 (timestamp now' - ?k) = timestamp now' - ?k" "wrap_i64 (timestamp now' + ?k) = timestamp now' + ?k"
    "wrap_i64 (timestamp now - timestamp now') = timestamp now - timestamp now'"
    "wrap_i64 \<bar>timestamp now - timestamp now'\<bar> = \<bar>timestamp now - timestamp now'\<bar>"
    using assms(5-8) by (auto intro!: wrap_i64_id)
  show ?thesis using ia d(2) len assms(3,4,7,9,10)
    by (simp add: validate_claims_def ack_claims_def Let_def w w2)
qed

section \<open>Properties of tokens\<close>

text \<open>
  An acknowledgement is accepted by the verifier it is meant for: issued for a lease of at most a day
  and read within the tolerated clock skew of the time of issue, with the signer's key available, it
  yields exactly the claims that were signed and the window of the lease.
\<close>

theorem issued_ack_accepted:
  assumes "lib_ok lib pub" "issue_ack lib s req etag sz epoch now lease = Ok ack"
    and "key_for (sg_key_id s) c = (Ok (pub (sg_signing_key s)), c1)"
    and "(case lease of Some d \<Rightarrow> d | None \<Rightarrow> sg_default_duration s) \<le> MAX_LEASE_SECS * NANOS"
    and "vr_expected_audience v = sg_seeder_peer_id s" "vr_expected_scope v = DEFAULT_SCOPE"
    and "\<bar>timestamp now\<bar> < 2 ^ 60" "\<bar>timestamp now'\<bar> < 2 ^ 60" "0 \<le> num_seconds (vr_max_clock_skew v)" "num_seconds (vr_max_clock_skew v) < 2 ^ 60"
    and "timestamp now' \<le> timestamp (ha_lease_exp ack)" "\<bar>timestamp now - timestamp now'\<bar> \<le> num_seconds (vr_max_clock_skew v)"
  shows "verify_ack lib key_for v ack (hq_file_id req) (hq_download_id req) now' c =
    (Ok (ack_claims s ack, \<lparr>lw_issued_at = now, lw_expires_at = ha_lease_exp ack\<rparr>), c1)"
proof -
  have "timestamp now \<le> timestamp now' + num_seconds (vr_max_clock_skew v)" using assms(12) by simp
  from validate_issued [OF assms(2,4-11) this] assms(12)
  have "validate_claims v (ack_claims s ack) (hq_file_id req) (hq_download_id req) epoch now' = Ok ()" by simp
  with verify_issued [where key_for = key_for and c = c, OF assms(1-3)] show ?thesis by simp
qed

text \<open>
  A lease outlives its token. The verifier compares the time of issue with the present as if it were
  a skew of the clock, so a token that is older than the tolerated skew is rejected, although
  it has not expired and its lease, which lasts up to a day, is still running.
\<close>

theorem lease_outlives_token:
  assumes "lib_ok lib pub" "issue_ack lib s req etag sz epoch now lease = Ok ack"
    and "key_for (sg_key_id s) c = (Ok (pub (sg_signing_key s)), c1)"
    and "(case lease of Some d \<Rightarrow> d | None \<Rightarrow> sg_default_duration s) \<le> MAX_LEASE_SECS * NANOS"
    and "v = new_verifier (sg_seeder_peer_id s)" "\<bar>timestamp now\<bar> < 2 ^ 60" "\<bar>timestamp now'\<bar> < 2 ^ 60"
    and "timestamp now + 300 < timestamp now'" "timestamp now' < timestamp (ha_lease_exp ack)"
  shows "fst (verify_ack lib key_for v ack (hq_file_id req) (hq_download_id req) now' c) = Err TkClockSkew \<and>
    \<not> is_expired (ack_lease_window ack) now'"
proof -
  have k: "num_seconds (vr_max_clock_skew v) = 300" "vr_expected_audience v = sg_seeder_peer_id s" "vr_expected_scope v = DEFAULT_SCOPE"
    using assms(5) by (simp_all add: new_verifier_def num_seconds_def NANOS_def)
  have "validate_claims v (ack_claims s ack) (hq_file_id req) (hq_download_id req) epoch now' = Err TkClockSkew"
    using validate_issued [OF assms(2,4) k(2,3) assms(6,7)] k(1) assms(8,9) by simp
  with verify_issued [where key_for = key_for and c = c, OF assms(1-3)]
  have "fst (verify_ack lib key_for v ack (hq_file_id req) (hq_download_id req) now' c) = Err TkClockSkew" by simp
  moreover have "\<not> is_expired (ack_lease_window ack) now'"
  proof
    assume "is_expired (ack_lease_window ack) now'"
    then have "ha_lease_exp ack \<le> now'" by (simp add: is_expired_def ack_lease_window_def)
    then have "timestamp (ha_lease_exp ack) \<le> timestamp now'" unfolding timestamp_def by (rule zdiv_mono1 [OF _ NANOS_pos])
    with assms(9) show False by simp
  qed
  ultimately show ?thesis by blast
qed

lemma list_of_three: "(\<exists>a b c. xs = [a, b, c]) \<or> xs = [] \<or> (\<exists>a. xs = [a]) \<or> (\<exists>a b. xs = [a, b]) \<or> (\<exists>a b c d ys. xs = a # b # c # d # ys)"
proof (cases "length xs = 3")
  case True
  then show ?thesis by (auto simp: length_Suc_conv numeral_eq_Suc)
next
  case False
  then show ?thesis by (cases xs; cases "tl xs"; cases "tl (tl xs)"; cases "tl (tl (tl xs))") auto
qed

lemma verify_token_parts:
  assumes "verify_token lib key_for v token file_id download_id epoch now c = (Inr claims, c1)"
  shows "\<exists>p0 p1 p2. split_on (CHR ''.'') token = [p0, p1, p2]"
  using list_of_three [of "split_on (CHR ''.'') token"]
proof (elim disjE exE)
  fix a b d assume "split_on (CHR ''.'') token = [a, b, d]"
  then show ?thesis by blast
qed (use assms in \<open>simp_all add: verify_token_def\<close>)

lemma verify_token_accepts:
  assumes "verify_token lib key_for v token file_id download_id epoch now c = (Inr claims, c1)" "split_on (CHR ''.'') token = [p0, p1, p2]"
  shows "\<exists>header sig key. decode_json_part lib (tl_parse_header lib) p0 = Inr header \<and> th_alg header = ''EdDSA'' \<and>
    tl_b64_decode lib p2 = Inr sig \<and> length sig = 64 \<and> key_for (th_kid header) c = (Inr key, c1) \<and>
    tl_verify_strict lib key (p0 @ ''.'' @ p1) sig \<and> decode_json_part lib (tl_parse_claims lib) p1 = Inr claims \<and>
    cl_kid claims = th_kid header \<and> validate_claims v claims file_id download_id epoch now = Inr ()"
proof -
  obtain header where h: "decode_json_part lib (tl_parse_header lib) p0 = Inr header"
    using assms by (cases "decode_json_part lib (tl_parse_header lib) p0") (simp_all add: verify_token_def and_then_def)
  have alg: "th_alg header = ''EdDSA''"
    using assms h by (cases "th_alg header = ''EdDSA''") (simp_all add: verify_token_def and_then_def)
  obtain sig where sig: "tl_b64_decode lib p2 = Inr sig"
    using assms h alg by (cases "tl_b64_decode lib p2") (simp_all add: verify_token_def and_then_def)
  have len: "length sig = 64"
    using assms h alg sig by (cases "length sig = 64") (simp_all add: verify_token_def and_then_def)
  obtain r c2 where k: "key_for (th_kid header) c = (r, c2)" by (cases "key_for (th_kid header) c")
  obtain key where r: "r = Inr key"
    using assms h alg sig len k by (cases r) (simp_all add: verify_token_def and_then_def)
  have ok: "tl_verify_strict lib key (p0 @ ''.'' @ p1) sig"
    using assms h alg sig len k r by (cases "tl_verify_strict lib key (p0 @ ''.'' @ p1) sig") (simp_all add: verify_token_def and_then_def)
  obtain cl where cl: "decode_json_part lib (tl_parse_claims lib) p1 = Inr cl"
    using assms h alg sig len k r ok by (cases "decode_json_part lib (tl_parse_claims lib) p1") (simp_all add: verify_token_def and_then_def)
  have kid: "cl_kid cl = th_kid header"
    using assms h alg sig len k r ok cl by (cases "cl_kid cl = th_kid header") (simp_all add: verify_token_def and_then_def)
  have "validate_claims v cl file_id download_id epoch now = Inr () \<and> cl = claims \<and> c2 = c1"
    using assms h alg sig len k r ok cl kid
    by (cases "validate_claims v cl file_id download_id epoch now") (simp_all add: verify_token_def and_then_def)
  with h alg sig len k r ok cl kid show ?thesis by blast
qed

text \<open>
  C18: What acceptance means. An acknowledgement is accepted only if its token consists of three parts
  whose signature of 64 bytes verifies under the key the cache gives for the key id of the header,
  the claims carry the same key id, and they name the expected file, download, epoch, audience and scope; the tag and
  the lease of the acknowledgement are those that were signed; and the claims were issued within the
  tolerated skew of now.
\<close>

theorem accepted_ack_sound:
  assumes "verify_ack lib key_for v ack file_id download_id now c = (Ok (claims, w), c1)"
  shows "\<exists>p0 p1 p2 header key sig.
    split_on (CHR ''.'') (ha_resume_token ack) = [p0, p1, p2] \<and> decode_json_part lib (tl_parse_header lib) p0 = Ok header \<and>
    th_alg header = ''EdDSA'' \<and> tl_b64_decode lib p2 = Ok sig \<and> length sig = 64 \<and>
    key_for (th_kid header) c = (Ok key, c1) \<and> tl_verify_strict lib key (p0 @ ''.'' @ p1) sig \<and>
    decode_json_part lib (tl_parse_claims lib) p1 = Ok claims \<and> cl_kid claims = th_kid header \<and>
    cl_sub claims = file_id \<and> cl_download_id claims = download_id \<and> cl_epoch claims = ha_epoch ack \<and>
    cl_aud claims = vr_expected_audience v \<and> cl_scp claims = vr_expected_scope v \<and>
    ensure_strong_etag (ha_etag ack) = Ok (cl_etag claims) \<and> cl_exp claims = timestamp (ha_lease_exp ack) \<and>
    cl_iat claims = timestamp (ha_lease_issued_at ack) \<and>
    wrap_i64 \<bar>wrap_i64 (cl_iat claims - timestamp now)\<bar> \<le> num_seconds (vr_max_clock_skew v) \<and> w = ack_lease_window ack"
proof -
  obtain r c2 where v0: "verify_token lib key_for v (ha_resume_token ack) file_id download_id (ha_epoch ack) now c = (r, c2)"
    by (cases "verify_token lib key_for v (ha_resume_token ack) file_id download_id (ha_epoch ack) now c")
  obtain cl where r: "r = Inr cl" using assms v0 by (cases r) (simp_all add: verify_ack_def and_then_def)
  obtain etag where e0: "ensure_strong_etag (ha_etag ack) = Inr etag"
    using assms v0 r by (cases "ensure_strong_etag (ha_etag ack)") (simp_all add: verify_ack_def and_then_def)
  have e: "etag = cl_etag cl \<and> timestamp (ha_lease_exp ack) = cl_exp cl \<and> timestamp (ha_lease_issued_at ack) = cl_iat cl \<and> cl = claims \<and>
      w = ack_lease_window ack \<and> c2 = c1"
    using assms v0 r e0 by (simp add: verify_ack_def and_then_def split: if_splits)
  have v: "verify_token lib key_for v (ha_resume_token ack) file_id download_id (ha_epoch ack) now c = (Inr claims, c1)"
    using v0 r e by simp
  from verify_token_parts [OF v] obtain p0 p1 p2 where p: "split_on (CHR ''.'') (ha_resume_token ack) = [p0, p1, p2]" by blast
  from verify_token_accepts [OF v p] obtain header sig key where
    t: "decode_json_part lib (tl_parse_header lib) p0 = Inr header" "th_alg header = ''EdDSA''" "tl_b64_decode lib p2 = Inr sig" "length sig = 64"
      "key_for (th_kid header) c = (Inr key, c1)" "tl_verify_strict lib key (p0 @ ''.'' @ p1) sig"
      "decode_json_part lib (tl_parse_claims lib) p1 = Inr claims" "cl_kid claims = th_kid header"
      "validate_claims v claims file_id download_id (ha_epoch ack) now = Inr ()" by blast
  from t(9) have "cl_sub claims = file_id" "cl_download_id claims = download_id" "cl_epoch claims = ha_epoch ack"
    "cl_aud claims = vr_expected_audience v" "cl_scp claims = vr_expected_scope v"
    "wrap_i64 \<bar>wrap_i64 (cl_iat claims - timestamp now)\<bar> \<le> num_seconds (vr_max_clock_skew v)"
    by (auto simp: validate_claims_def rbind_Inr Let_def split: if_splits)
  with p t e e0 show ?thesis by (intro exI conjI) auto
qed

text \<open>A concrete library and signer.\<close>

definition sample_header :: token_header where
  "sample_header = \<lparr>th_alg = ''EdDSA'', th_typ = Some ''JWT'', th_kid = ''k''\<rparr>"

definition sample_claims :: resume_token_claims where
  "sample_claims = \<lparr>cl_sub = ''f'', cl_aud = ''seeder'', cl_download_id = ''d'', cl_etag = ''v1'', cl_epoch = 1, cl_iat = 0, cl_nbf = 0, cl_exp = 14400,
     cl_scp = ''resume'', cl_kid = ''k''\<rparr>"

definition sample_lib :: "(nat, nat) token_lib" where
  "sample_lib = \<lparr>tl_b64_encode = hex_encode, tl_b64_decode = (\<lambda>s. ok_or ''b64'' (hex_decode s)),
     tl_header_json = (\<lambda>h. if h = sample_header then Some ''h'' else None), tl_claims_json = (\<lambda>c. if c = sample_claims then Some ''c'' else None),
     tl_parse_header = (\<lambda>b. Some sample_header), tl_parse_claims = (\<lambda>b. Some sample_claims),
     tl_sign = (\<lambda>k m. replicate 64 (char_of k)), tl_key_of_bytes = (\<lambda>b. Ok 0), tl_verify_strict = (\<lambda>v m sig. sig = replicate 64 (char_of v))\<rparr>"

definition sample_ack :: handshake_ack where
  "sample_ack = \<lparr>ha_file_id = ''f'', ha_download_id = ''d'', ha_epoch = 1, ha_etag = ''v1'', ha_size = 9, ha_lease_exp = 14400 * NANOS, ha_lease_issued_at = 0,
     ha_resume_token = hex_encode ''h'' @ ''.'' @ hex_encode ''c'' @ ''.'' @ hex_encode (replicate 64 (char_of (7 :: nat)))\<rparr>"

definition sample_request :: handshake_request where
  "sample_request = \<lparr>hq_file_id = ''f'', hq_download_id = ''d'', hq_epoch = 1, hq_requester_peer_id = ''p''\<rparr>"

lemma sample_lib_ok: "lib_ok sample_lib (\<lambda>k. k)"
  by (auto simp: lib_ok_def sample_lib_def hex_no_dot split: if_splits)

lemma sample_issue: "issue_ack sample_lib (new_signer (7 :: nat) ''k'' ''seeder'') sample_request ''v1'' 9 1 0 None = Ok sample_ack"
proof -
  have t: "trim ''v1'' = ''v1''" by (rule trim_visible) auto
  have d: "clamp_duration (DEFAULT_LEASE_SECS * NANOS) = Ok (DEFAULT_LEASE_SECS * NANOS)"
    by (simp add: clamp_duration_def num_seconds_def NANOS_def DEFAULT_LEASE_SECS_def MIN_LEASE_SECS_def MAX_LEASE_SECS_def)
  show ?thesis
    by (simp add: issue_ack_def new_signer_def d ensure_strong_etag_def t starts_with_def Let_def sample_request_def timestamp_def
        encode_token_def sample_lib_def sample_header_def [symmetric] sample_claims_def [symmetric] DEFAULT_SCOPE_def)
      (simp add: sample_ack_def DEFAULT_LEASE_SECS_def NANOS_def sample_header_def sample_claims_def)
qed

abbreviation sample_keys :: "string \<Rightarrow> (nat jwks_cache, jwks_error, nat) act" where
  "sample_keys \<equiv> \<lambda>kid c. (Ok 7, c)"

lemma sample_bounds: "(case None of Some d \<Rightarrow> d | None \<Rightarrow> sg_default_duration (new_signer (7 :: nat) ''k'' ''seeder'')) \<le> MAX_LEASE_SECS * NANOS"
  "num_seconds (vr_max_clock_skew (new_verifier a)) = 300" "timestamp (k * NANOS) = k" "timestamp 0 = 0" "timestamp (ha_lease_exp sample_ack) = 14400"
  by (simp_all add: new_signer_def DEFAULT_LEASE_SECS_def MAX_LEASE_SECS_def NANOS_def new_verifier_def num_seconds_def timestamp_def sample_ack_def)

theorem issued_ack_accepted_witness:
  "\<exists>cl. fst (verify_ack sample_lib sample_keys (new_verifier ''seeder'') sample_ack ''f'' ''d'' (200 * NANOS) new_jwks_cache) =
      Ok (cl, \<lparr>lw_issued_at = 0, lw_expires_at = 14400 * NANOS\<rparr>)"
proof -
  have "\<bar>timestamp 0 - timestamp (200 * NANOS)\<bar> \<le> num_seconds (vr_max_clock_skew (new_verifier ''seeder''))"
    unfolding sample_bounds by simp
  from issued_ack_accepted [where key_for = sample_keys and c = new_jwks_cache, OF sample_lib_ok sample_issue _ sample_bounds(1) _ _ _ _ _ _ _ this]
  show ?thesis unfolding sample_bounds
    by (simp add: new_signer_def new_verifier_def sample_request_def) (simp add: sample_ack_def)
qed

theorem lease_outlives_token_witness:
  "fst (verify_ack sample_lib sample_keys (new_verifier ''seeder'') sample_ack ''f'' ''d'' (400 * NANOS) new_jwks_cache) = Err TkClockSkew"
proof -
  have "timestamp 0 + 300 < timestamp (400 * NANOS)" "timestamp (400 * NANOS) < timestamp (ha_lease_exp sample_ack)" unfolding sample_bounds by simp_all
  from lease_outlives_token [where key_for = sample_keys and c = new_jwks_cache, OF sample_lib_ok sample_issue _ sample_bounds(1) refl _ _ this]
  show ?thesis unfolding sample_bounds by (simp add: new_signer_def sample_request_def)
qed

lemma sample_accepts:
  "verify_ack sample_lib sample_keys (new_verifier ''seeder'') sample_ack ''f'' ''d'' 0 new_jwks_cache =
     (Ok (ack_claims (new_signer (7 :: nat) ''k'' ''seeder'') sample_ack, \<lparr>lw_issued_at = 0, lw_expires_at = ha_lease_exp sample_ack\<rparr>), new_jwks_cache)"
proof -
  have "validate_claims (new_verifier ''seeder'') (ack_claims (new_signer (7 :: nat) ''k'' ''seeder'') sample_ack) ''f'' ''d'' 1 0 = Ok ()"
    using validate_issued [OF sample_issue sample_bounds(1), of "new_verifier ''seeder''" 0] unfolding sample_bounds
    by (simp add: new_signer_def new_verifier_def sample_request_def)
  with verify_issued [where key_for = sample_keys and c = new_jwks_cache, OF sample_lib_ok sample_issue, of new_jwks_cache "new_verifier ''seeder''" 0]
  show ?thesis by (simp add: new_signer_def sample_request_def)
qed

theorem accepted_ack_sound_witness:
  "cl_sub (ack_claims (new_signer (7 :: nat) ''k'' ''seeder'') sample_ack) = ''f''"
  using accepted_ack_sound [where key_for = sample_keys, OF sample_accepts] by blast

section \<open>Properties of keys\<close>

text \<open>
  The cache serves current keys. A key is returned either from the cache while its document has not
  expired, without any change, or from the state after a successful fetch, whose document, when it is a
  new one, gave all the keys held; and a fetch that fails leaves the keys and their expiry as they were.
\<close>

theorem served_key_current:
  assumes "get_key lib fetch now later kid c = (r, c1)"
  shows "(\<forall>k. r = Ok k \<longrightarrow>
       (c1 = c \<and> (\<exists>s. jc_state c = Some s \<and> now < cj_expires_at s \<and> cj_keys s kid = Some k)) \<or>
       (\<exists>f s. fetch (Option.bind (jc_state c) cj_etag) = Ok f \<and> jc_state c1 = Some s \<and> cj_keys s kid = Some k \<and>
          Some (cj_expires_at s) = instant_add later (cj_max_age s) \<and>
          (if fr_not_modified f then map_option cj_keys (jc_state c) = Some (cj_keys s)
           else \<exists>d. fr_document f = Some d \<and> build_key_map lib d = Ok (cj_keys s)))) \<and>
    (\<not> is_ok (fetch (Option.bind (jc_state c) cj_etag)) \<longrightarrow> c1 = c)"
proof (cases "cached_key now kid c")
  case (Some k)
  then have "\<exists>s. jc_state c = Some s \<and> now < cj_expires_at s \<and> cj_keys s kid = Some k"
    by (auto simp: cached_key_def split: option.splits if_splits)
  moreover have "r = Ok k" "c1 = c" using assms Some by (auto simp: get_key_def)
  ultimately show ?thesis by auto
next
  case None
  obtain r0 c0 where rf: "refresh lib fetch later c = (r0, c0)" by (cases "refresh lib fetch later c")
  have c1: "c1 = c0" and rk: "r = Ok k \<Longrightarrow> \<exists>s. r0 = Ok () \<and> jc_state c0 = Some s \<and> cj_keys s kid = Some k" for k
    using assms None rf by (cases r0; auto simp: get_key_def and_then_def split: option.splits)+
  show ?thesis
  proof (cases "fetch (Option.bind (jc_state c) cj_etag)")
    case (Inl e)
    then have "r0 = Inl e" "c0 = c" using rf by (simp_all add: refresh_def)
    with rk c1 Inl show ?thesis by auto
  next
    case (Inr f)
    have "Some (cj_expires_at s) = instant_add later (cj_max_age s) \<and>
          (if fr_not_modified f then map_option cj_keys (jc_state c) = Some (cj_keys s)
           else \<exists>d. fr_document f = Some d \<and> build_key_map lib d = Ok (cj_keys s))" if "r0 = Ok ()" "jc_state c0 = Some s" for s
      using rf that Inr by (auto simp: refresh_def Let_def split: if_splits option.splits sum.splits)
    with rk c1 Inr show ?thesis by fastforce
  qed
qed

theorem served_key_current_witness:
  "snd (get_key sample_lib (\<lambda>_. Err EmptyCache) 5 6 ''k'' new_jwks_cache) = new_jwks_cache"
  using served_key_current [of sample_lib "\<lambda>_. Err EmptyCache" 5 6 "''k''" new_jwks_cache] by (metis is_ok_simps(2) prod.collapse)

section \<open>Renewal\<close>

lemma num_milliseconds_bounds: "0 < d \<Longrightarrow> 0 \<le> num_milliseconds d \<and> num_milliseconds d * 1000000 \<le> d"
  using div_mult_mod_eq [of d 1000000] pos_mod_sign [of 1000000 d] by (simp add: num_milliseconds_def pos_imp_zdiv_nonneg_iff)

lemma round_le: "0 \<le> q \<Longrightarrow> q \<le> of_int n \<Longrightarrow> \<lfloor>q + 1 / 2 :: rat\<rfloor> \<le> n"
  by (simp add: floor_le_iff)

text \<open>Scaling by a ratio of the unit interval shortens a duration.\<close>

lemma scale_duration_bounds:
  assumes "f64_in 0 1 r" "num_milliseconds d < 2 ^ 53"
  shows "0 \<le> scale_duration d r \<and> scale_duration d r \<le> max 0 d"
proof (cases "0 < d \<and> \<not> f64_le r (F_Fin 0) \<and> 0 < num_milliseconds d")
  case False
  then show ?thesis by (auto simp: scale_duration_def Let_def)
next
  case True
  let ?m = "num_milliseconds d"
  have m: "0 \<le> ?m" "?m * 1000000 \<le> d" using num_milliseconds_bounds True by blast+
  have nat: "(of_int ?m :: rat) = of_nat (nat ?m)" using m(1) by (simp add: of_nat_nat)
  have le: "nat ?m \<le> 2 ^ 53" using assms(2) by simp
  have f: "f64_of_rat (of_int ?m) = F_Fin (of_int ?m)" using f64_of_u64_exact [OF le] unfolding f64_of_u64_def nat by simp
  have e: "f64_exact (of_int ?m)" unfolding nat by (rule f64_exact_nat [OF le])
  have "f64_in 0 (of_int ?m) (f64_mul (F_Fin (of_int ?m)) r)"
    using f64_mul_in [of "of_int ?m" "F_Fin (of_int ?m)" 1 r] assms(1) e m(1) by simp
  then obtain q where q: "f64_mul (F_Fin (of_int ?m)) r = F_Fin q" "0 \<le> q" "q \<le> of_int ?m" by (auto simp: f64_in_iff)
  have z: "0 \<le> \<lfloor>q + 1 / 2\<rfloor>" "\<lfloor>q + 1 / 2\<rfloor> \<le> ?m" using q(2) round_le [OF q(2,3)] by simp_all
  have "scale_duration d r = \<lfloor>q + 1 / 2\<rfloor> * 1000000"
    using True q z assms(2) by (simp add: scale_duration_def Let_def f f64_min_def f64_max_def not_le)
  with z m show ?thesis by (auto intro: order_trans [OF mult_right_mono])
qed

text \<open>
  A lease is renewed in time. With a ratio drawn from the unit interval, the renewal falls due at least
  the minimal lead before the end of the lease, and at most twice the lead (the larger of the minimal
  lead and the configured fraction of the lease) before it; at the end of the lease it is due.
\<close>

theorem renewal_in_time:
  assumes "f64_in 0 1 ratio" "0 \<le> rp_min_lead_time p" "num_milliseconds lead < 2 ^ 53"
    and "lead = max (rp_min_lead_time p) (scale_duration (lease_duration w) (rp_lead_time_fraction p))"
  shows "compute_trigger_instant p ratio w \<le> lw_expires_at w - rp_min_lead_time p \<and>
    lw_expires_at w - 2 * lead \<le> compute_trigger_instant p ratio w \<and> is_renewal_due p ratio w (lw_expires_at w)"
proof -
  have "0 \<le> lead" using assms(2,4) by simp
  with scale_duration_bounds [OF assms(1,3)] have j: "0 \<le> random_jitter (rp_jitter_max_ratio p) ratio lead" "random_jitter (rp_jitter_max_ratio p) ratio lead \<le> lead"
    by (auto simp: random_jitter_def)
  have "compute_trigger_instant p ratio w = lw_expires_at w - (lead + random_jitter (rp_jitter_max_ratio p) ratio lead)"
    using assms(4) by (simp add: compute_trigger_instant_def Let_def max_def)
  moreover have "rp_min_lead_time p \<le> lead" using assms(4) by simp
  ultimately show ?thesis using j assms(2) \<open>0 \<le> lead\<close> by (simp add: is_renewal_due_def)
qed

theorem renewal_in_time_witness:
  "is_renewal_due (default_lease_renewal_policy\<lparr>rp_lead_time_fraction := F_Fin 0\<rparr>) (F_Fin (1 / 2)) \<lparr>lw_issued_at = 0, lw_expires_at = 14400 * NANOS\<rparr> (14400 * NANOS)"
proof -
  let ?p = "default_lease_renewal_policy\<lparr>rp_lead_time_fraction := F_Fin 0\<rparr>" and ?w = "\<lparr>lw_issued_at = 0, lw_expires_at = 14400 * NANOS\<rparr>"
  have l: "max (rp_min_lead_time ?p) (scale_duration (lease_duration ?w) (rp_lead_time_fraction ?p)) = 60 * NANOS"
    by (simp add: default_lease_renewal_policy_def scale_duration_def NANOS_def f64_le_def)
  have "f64_in 0 1 (F_Fin (1 / 2))" "0 \<le> rp_min_lead_time ?p" "num_milliseconds (60 * NANOS) < 2 ^ 53"
    by (simp_all add: default_lease_renewal_policy_def num_milliseconds_def NANOS_def)
  from renewal_in_time [OF this l [symmetric]] show ?thesis by simp
qed

text \<open>The wait before the next handshake: no wait for an error that is not worth a retry, else at most twice the maximum.\<close>

lemma next_delay_bounded:
  assumes "f64_in 0 1 ratio" "0 \<le> hb_base b" "0 \<le> hb_max b" "num_milliseconds (hb_max b) < 2 ^ 53"
  shows "fst (next_delay ratio kind b) \<le> 2 * hb_max b" "0 \<le> fst (next_delay ratio kind b)"
proof -
  define d where "d = (if hb_max b < hb_base b * 2 ^ min (hb_attempt b) 16 then hb_max b else hb_base b * 2 ^ min (hb_attempt b) 16)"
  have d: "0 \<le> d" "d \<le> hb_max b" using assms(2,3) by (auto simp: d_def)
  have "num_milliseconds d \<le> num_milliseconds (hb_max b)" using d by (simp add: num_milliseconds_def zdiv_mono1)
  then have "num_milliseconds d < 2 ^ 53" using assms(4) by linarith
  from scale_duration_bounds [OF assms(1) this] d have j: "0 \<le> random_jitter x ratio d \<and> random_jitter x ratio d \<le> d" for x
    by (auto simp: random_jitter_def)
  have "fst (next_delay ratio kind b) = (if retryable_kind kind then d + random_jitter (hb_jitter_ratio b) ratio d else 0)"
    by (simp add: next_delay_def Let_def d_def)
  then show "fst (next_delay ratio kind b) \<le> 2 * hb_max b" "0 \<le> fst (next_delay ratio kind b)"
    using d j [of "hb_jitter_ratio b"] assms(3) by simp_all
qed

end
