(* ===== verification/ChunkScheduler.thy ===== *)
theory ChunkScheduler
  imports F64 Interfaces "HOL-Library.Product_Lexorder"
begin

text \<open>
  The chunk scheduler of \<^verbatim>\<open>src-tauri/src/chunk_scheduler.rs\<close>: which chunk of a file is
  requested from which peer. Every method of \<open>ChunkScheduler\<close> and every Tauri command over
  the global instance is a definition here. The clock (\<open>now_ms\<close>) and the iteration order
  of the hash maps are arguments. Local loop counters are natural numbers; the counters
  kept in the state wrap at 64 bits.

  Shown: the ledger invariant (a chunk is \<open>REQUESTED\<close> exactly when it has an active
  request, whose peer is known), the per-peer cap, what \<open>get_next_requests\<close> hands out,
  that it makes progress whenever a peer has capacity, and two accounting defects of
  \<open>init_scheduler\<close> and \<open>add_peer\<close>.
\<close>

section \<open>State\<close>

record chunk_request =
  cr_chunk_index :: usize
  cr_peer_id :: string
  cr_requested_at :: u128
  cr_timeout_ms :: u64

record peer_info =
  pi_peer_id :: string
  pi_available :: bool
  pi_last_seen :: u128
  pi_pending_requests :: usize
  pi_max_concurrent :: usize
  pi_avg_response_time :: u64
  pi_failure_count :: usize

record scheduler_config =
  max_concurrent_per_peer :: usize
  chunk_timeout_ms :: u64
  max_retries :: usize
  peer_selection_strategy :: string

record chunk_meta =
  cm_index :: usize
  cm_size :: usize
  cm_checksum :: "string option"

type_synonym chunk_manifest = "chunk_meta list"

datatype chunk_state = UNREQUESTED | REQUESTED | RECEIVED | CORRUPTED

record chunk_scheduler =
  config :: scheduler_config
  peers :: "string \<rightharpoonup> peer_info"
  active_requests :: "usize \<rightharpoonup> chunk_request"
  chunk_states :: "chunk_state list"
  retry_count :: "usize \<rightharpoonup> usize"

section \<open>Operations\<close>

definition default_scheduler_config :: scheduler_config where
  "default_scheduler_config = \<lparr>max_concurrent_per_peer = 3, chunk_timeout_ms = 30000,
     max_retries = 3, peer_selection_strategy = ''load-balanced''\<rparr>"

definition new_scheduler :: "scheduler_config option \<Rightarrow> chunk_scheduler" where
  "new_scheduler cfg = \<lparr>config = (case cfg of None \<Rightarrow> default_scheduler_config | Some c \<Rightarrow> c),
     peers = Map.empty, active_requests = Map.empty, chunk_states = [], retry_count = Map.empty\<rparr>"

definition init_scheduler :: "chunk_manifest \<Rightarrow> chunk_scheduler \<Rightarrow> chunk_scheduler" where
  [op_defs]: "init_scheduler manifest s = s\<lparr>chunk_states := map (\<lambda>_. UNREQUESTED) manifest,
     active_requests := Map.empty, retry_count := Map.empty\<rparr>"

definition add_peer :: "u128 \<Rightarrow> string \<Rightarrow> usize option \<Rightarrow> chunk_scheduler \<Rightarrow> chunk_scheduler" where
  [op_defs]: "add_peer now peer_id max_concurrent s = s\<lparr>peers := (peers s)(peer_id \<mapsto>
     \<lparr>pi_peer_id = peer_id, pi_available = True, pi_last_seen = now, pi_pending_requests = 0,
      pi_max_concurrent = (case max_concurrent of None \<Rightarrow> max_concurrent_per_peer (config s) | Some m \<Rightarrow> m),
      pi_avg_response_time = 1000, pi_failure_count = 0\<rparr>)\<rparr>"

definition set_chunk_state :: "usize \<Rightarrow> chunk_state \<Rightarrow> chunk_scheduler \<Rightarrow> chunk_scheduler" where
  "set_chunk_state idx st s =
     (if idx < length (chunk_states s) then s\<lparr>chunk_states := (chunk_states s)[idx := st]\<rparr> else s)"

definition unrequest :: "chunk_scheduler \<Rightarrow> usize \<Rightarrow> chunk_scheduler" where
  "unrequest s idx = set_chunk_state idx UNREQUESTED
     (s\<lparr>active_requests := hm_remove (active_requests s) idx\<rparr>)"

text \<open>\<open>ord\<close> is the order in which \<open>active_requests.iter()\<close> yields its keys.\<close>

definition remove_peer :: "usize list \<Rightarrow> string \<Rightarrow> chunk_scheduler \<Rightarrow> chunk_scheduler" where
  "remove_peer ord peer_id s =
     (let to_unreq = filter (\<lambda>i. \<exists>r. active_requests s i = Some r \<and> cr_peer_id r = peer_id) ord;
          s1 = foldl unrequest s to_unreq
      in s1\<lparr>peers := hm_remove (peers s1) peer_id\<rparr>)"

text \<open>\<open>(old as f64 * 0.8 + rt as f64 * 0.2) as u64\<close>.\<close>

definition smooth_response_time :: "u64 \<Rightarrow> nat \<Rightarrow> u64" where
  "smooth_response_time old rt = f64_to_u64
     (f64_add (f64_mul (f64_of_u64 old) (f64_of_rat (8 / 10))) (f64_mul (f64_of_u64 rt) (f64_of_rat (2 / 10))))"

definition update_peer_health ::
  "u128 \<Rightarrow> string \<Rightarrow> bool \<Rightarrow> u64 option \<Rightarrow> chunk_scheduler \<Rightarrow> chunk_scheduler" where
  [op_defs]: "update_peer_health now peer_id available response_time_ms s =
     (case peers s peer_id of
        None \<Rightarrow> s
      | Some peer \<Rightarrow>
          (let p1 = peer\<lparr>pi_available := available, pi_last_seen := now\<rparr>;
               p2 = (case response_time_ms of
                       None \<Rightarrow> p1
                     | Some rt \<Rightarrow> p1\<lparr>pi_avg_response_time := smooth_response_time (pi_avg_response_time p1) rt\<rparr>);
               p3 = (if available then p2 else p2\<lparr>pi_failure_count := wadd64 (pi_failure_count p2) 1\<rparr>)
           in s\<lparr>peers := (peers s)(peer_id \<mapsto> p3)\<rparr>))"

text \<open>The two clock readings of \<open>on_chunk_received\<close> are separate arguments.\<close>

definition on_chunk_received :: "u128 \<Rightarrow> u128 \<Rightarrow> usize \<Rightarrow> chunk_scheduler \<Rightarrow> chunk_scheduler" where
  "on_chunk_received now1 now2 chunk_index s =
     set_chunk_state chunk_index RECEIVED
       (case active_requests s chunk_index of
          None \<Rightarrow> s
        | Some req \<Rightarrow>
            (let s1 = s\<lparr>active_requests := hm_remove (active_requests s) chunk_index\<rparr>
             in case peers s1 (cr_peer_id req) of
                  None \<Rightarrow> s1
                | Some peer \<Rightarrow>
                    (let response_time = sat_sub now1 (cr_requested_at req)
                     in s1\<lparr>peers := (peers s1)(cr_peer_id req \<mapsto>
                          peer\<lparr>pi_pending_requests := sat_sub (pi_pending_requests peer) 1,
                               pi_last_seen := now2,
                               pi_avg_response_time :=
                                 smooth_response_time (pi_avg_response_time peer) response_time\<rparr>)\<rparr>)))"

definition release_failed :: "usize \<Rightarrow> chunk_scheduler \<Rightarrow> chunk_scheduler" where
  "release_failed chunk_index s =
     (case active_requests s chunk_index of
        None \<Rightarrow> s
      | Some req \<Rightarrow>
          (let s1 = s\<lparr>active_requests := hm_remove (active_requests s) chunk_index\<rparr>
           in case peers s1 (cr_peer_id req) of
                None \<Rightarrow> s1
              | Some peer \<Rightarrow>
                  s1\<lparr>peers := (peers s1)(cr_peer_id req \<mapsto>
                       peer\<lparr>pi_pending_requests := sat_sub (pi_pending_requests peer) 1,
                            pi_failure_count := wadd64 (pi_failure_count peer) 1\<rparr>)\<rparr>))"

definition retries_of :: "chunk_scheduler \<Rightarrow> usize \<Rightarrow> usize" where
  "retries_of s i = (case retry_count s i of None \<Rightarrow> 0 | Some n \<Rightarrow> n)"

definition on_chunk_failed :: "usize \<Rightarrow> bool \<Rightarrow> chunk_scheduler \<Rightarrow> chunk_scheduler" where
  "on_chunk_failed chunk_index mark_corrupted s =
     (let s1 = set_chunk_state chunk_index (if mark_corrupted then CORRUPTED else UNREQUESTED)
                 (release_failed chunk_index s)
      in s1\<lparr>retry_count := (retry_count s1)(chunk_index \<mapsto> wadd64 (retries_of s1 chunk_index) 1)\<rparr>)"

definition timed_out :: "u128 \<Rightarrow> chunk_request \<Rightarrow> bool" where
  "timed_out now req \<longleftrightarrow> cr_timeout_ms req < sat_sub now (cr_requested_at req)"

definition handle_timeouts :: "usize list \<Rightarrow> u128 \<Rightarrow> chunk_scheduler \<Rightarrow> chunk_scheduler" where
  "handle_timeouts ord now s =
     (let overdue = filter (\<lambda>i. \<exists>r. active_requests s i = Some r \<and> timed_out now r) ord
      in foldl (\<lambda>t i. on_chunk_failed i False t) s overdue)"

definition requestable :: "chunk_scheduler \<Rightarrow> usize \<Rightarrow> bool" where
  "requestable s i \<longleftrightarrow> chunk_states s ! i = UNREQUESTED \<and> retries_of s i < max_retries (config s)"

text \<open>The loop over \<open>chunk_states.iter().enumerate()\<close> with its early \<open>break\<close>; \<open>i\<close> is the next index.\<close>

function chunks_from :: "chunk_scheduler \<Rightarrow> usize \<Rightarrow> usize \<Rightarrow> usize list \<Rightarrow> usize list" where
  "chunks_from s max_chunks i out =
     (if i < length (chunk_states s) \<and> length out < max_chunks
      then chunks_from s max_chunks (Suc i) (if requestable s i then out @ [i] else out)
      else out)"
  by pat_completeness auto
termination
  by (relation "measure (\<lambda>(s, m, i, out). length (chunk_states s) - i)") auto

declare chunks_from.simps [simp del]

definition get_chunks_to_request :: "usize \<Rightarrow> chunk_scheduler \<Rightarrow> usize list" where
  "get_chunks_to_request max_chunks s = chunks_from s max_chunks 0 []"

definition has_capacity :: "peer_info \<Rightarrow> bool" where
  "has_capacity p \<longleftrightarrow> pi_pending_requests p < pi_max_concurrent p"

text \<open>
  \<open>available_peers\<close> holds mutable references into the map, so it is the list of their
  keys: \<open>pord\<close> is the order of \<open>peers.values_mut()\<close>, then a stable sort by the strategy's key.
\<close>

definition available_peers :: "string list \<Rightarrow> chunk_scheduler \<Rightarrow> string list" where
  "available_peers pord s =
     (let av = filter (\<lambda>k. \<exists>p. peers s k = Some p \<and> pi_available p \<and> has_capacity p) pord
      in if peer_selection_strategy (config s) = ''fastest-first''
         then sort_key (\<lambda>k. pi_avg_response_time (the (peers s k))) av
         else if peer_selection_strategy (config s) = ''load-balanced''
         then sort_key (\<lambda>k. (pi_pending_requests (the (peers s k)), pi_max_concurrent (the (peers s k)))) av
         else av)"

text \<open>The wrap-around scan: at most \<open>n\<close> steps, from \<open>peer_index\<close>.\<close>

fun select_from :: "nat \<Rightarrow> string list \<Rightarrow> (string \<rightharpoonup> peer_info) \<Rightarrow> nat
    \<Rightarrow> string option \<times> (string \<rightharpoonup> peer_info) \<times> nat" where
  "select_from 0 av ps peer_index = (None, ps, peer_index)"
| "select_from (Suc n) av ps peer_index =
     (let k = av ! (peer_index mod length av)
      in case ps k of
           None \<Rightarrow> select_from n av ps (Suc peer_index)
         | Some p \<Rightarrow>
             if has_capacity p
             then (Some (pi_peer_id p), ps(k \<mapsto> p\<lparr>pi_pending_requests := Suc (pi_pending_requests p)\<rparr>), peer_index)
             else select_from n av ps (Suc peer_index))"

fun assign_chunks :: "u128 \<Rightarrow> usize \<Rightarrow> string list \<Rightarrow> usize list \<Rightarrow> nat \<Rightarrow> chunk_request list
    \<Rightarrow> chunk_scheduler \<Rightarrow> chunk_request list \<times> chunk_scheduler" where
  "assign_chunks now max_requests av [] peer_index requests s = (requests, s)"
| "assign_chunks now max_requests av (chunk_index # rest) peer_index requests s =
     (if max_requests \<le> length requests then (requests, s)
      else if av = [] then (requests, s)
      else case select_from (length av) av (peers s) peer_index of
             (None, ps, pidx) \<Rightarrow> (requests, s\<lparr>peers := ps\<rparr>)
           | (Some peer_id, ps, pidx) \<Rightarrow>
               (let req = \<lparr>cr_chunk_index = chunk_index, cr_peer_id = peer_id, cr_requested_at = now,
                           cr_timeout_ms = chunk_timeout_ms (config s)\<rparr>
                in assign_chunks now max_requests av rest (Suc pidx) (requests @ [req])
                     (set_chunk_state chunk_index REQUESTED
                       (s\<lparr>peers := ps, active_requests := (active_requests s)(chunk_index \<mapsto> req)\<rparr>))))"

definition get_next_requests ::
  "usize list \<Rightarrow> string list \<Rightarrow> u128 \<Rightarrow> usize \<Rightarrow> chunk_scheduler \<Rightarrow> chunk_request list \<times> chunk_scheduler" where
  "get_next_requests ord pord now max_requests s =
     (let s1 = handle_timeouts ord now s;
          todo = get_chunks_to_request max_requests s1
      in assign_chunks now max_requests (available_peers pord s1) todo 0 [] s1)"

definition is_complete :: "chunk_scheduler \<Rightarrow> bool" where
  "is_complete s = list_all (\<lambda>st. st = RECEIVED) (chunk_states s)"

definition get_active_requests :: "usize list \<Rightarrow> chunk_scheduler \<Rightarrow> chunk_request list" where
  "get_active_requests ord s = hm_values (active_requests s) ord"

definition get_peers :: "string list \<Rightarrow> chunk_scheduler \<Rightarrow> peer_info list" where
  "get_peers pord s = hm_values (peers s) pord"

record scheduler_view =
  sv_chunk_states :: "chunk_state list"
  sv_active_request_count :: nat
  sv_available_peer_count :: nat
  sv_total_peer_count :: nat
  sv_completed_chunks :: nat
  sv_total_chunks :: nat

definition get_scheduler_state :: "usize list \<Rightarrow> string list \<Rightarrow> chunk_scheduler \<Rightarrow> scheduler_view" where
  "get_scheduler_state ord pord s = \<lparr>sv_chunk_states = chunk_states s,
     sv_active_request_count = length (get_active_requests ord s),
     sv_available_peer_count = length (filter pi_available (get_peers pord s)),
     sv_total_peer_count = length (get_peers pord s),
     sv_completed_chunks = length (filter (\<lambda>st. st = RECEIVED) (chunk_states s)),
     sv_total_chunks = length (chunk_states s)\<rparr>"

section \<open>The commands over the global instance\<close>

text \<open>
  One constructor per Tauri command, with the command's arguments, preceded by the clock
  readings and iteration orders its body consumes. A poisoned mutex makes every command
  return an error and leave the state alone.
\<close>

datatype sched_cmd =
    CmdInit chunk_manifest
  | CmdAddPeer u128 string "usize option"
  | CmdRemovePeer "usize list" string
  | CmdUpdateHealth u128 string bool "u64 option"
  | CmdReceived u128 u128 usize
  | CmdFailed usize bool
  | CmdNext "usize list" "string list" u128 usize
  | CmdState "usize list" "string list"
  | CmdComplete
  | CmdActive "usize list"
  | CmdPeers "string list"

datatype sched_reply =
    ReplyUnit
  | ReplyRequests "chunk_request list"
  | ReplyState scheduler_view
  | ReplyBool bool
  | ReplyPeers "peer_info list"

datatype sched_error = LockError

fun exec_cmd :: "chunk_scheduler \<Rightarrow> sched_cmd \<Rightarrow> sched_reply \<times> chunk_scheduler" where
  "exec_cmd s (CmdInit m) = (ReplyUnit, init_scheduler m s)"
| "exec_cmd s (CmdAddPeer now p mc) = (ReplyUnit, add_peer now p mc s)"
| "exec_cmd s (CmdRemovePeer ord p) = (ReplyUnit, remove_peer ord p s)"
| "exec_cmd s (CmdUpdateHealth now p av rt) = (ReplyUnit, update_peer_health now p av rt s)"
| "exec_cmd s (CmdReceived n1 n2 i) = (ReplyUnit, on_chunk_received n1 n2 i s)"
| "exec_cmd s (CmdFailed i c) = (ReplyUnit, on_chunk_failed i c s)"
| "exec_cmd s (CmdNext ord pord now m) =
     (case get_next_requests ord pord now m s of (rs, t) \<Rightarrow> (ReplyRequests rs, t))"
| "exec_cmd s (CmdState ord pord) = (ReplyState (get_scheduler_state ord pord s), s)"
| "exec_cmd s CmdComplete = (ReplyBool (is_complete s), s)"
| "exec_cmd s (CmdActive ord) = (ReplyRequests (get_active_requests ord s), s)"
| "exec_cmd s (CmdPeers pord) = (ReplyPeers (get_peers pord s), s)"

definition run_command ::
  "bool \<Rightarrow> chunk_scheduler \<Rightarrow> sched_cmd \<Rightarrow> (sched_error, sched_reply) result \<times> chunk_scheduler" where
  "run_command poisoned s c =
     (if poisoned then (Err LockError, s) else case exec_cmd s c of (r, t) \<Rightarrow> (Ok r, t))"

section \<open>Steps\<close>

text \<open>The iteration orders a command carries are orders of the maps it iterates over.\<close>

fun orders_ok :: "chunk_scheduler \<Rightarrow> sched_cmd \<Rightarrow> bool" where
  "orders_ok s (CmdRemovePeer ord _) = hm_order (active_requests s) ord"
| "orders_ok s (CmdNext ord pord _ _) = (hm_order (active_requests s) ord \<and> hm_order (peers s) pord)"
| "orders_ok s (CmdState ord pord) = (hm_order (active_requests s) ord \<and> hm_order (peers s) pord)"
| "orders_ok s (CmdActive ord) = hm_order (active_requests s) ord"
| "orders_ok s (CmdPeers pord) = hm_order (peers s) pord"
| "orders_ok s _ = True"

inductive sched_step :: "chunk_scheduler \<Rightarrow> chunk_scheduler \<Rightarrow> bool" where
  command: "orders_ok s c \<Longrightarrow> run_command poisoned s c = (r, t) \<Longrightarrow> sched_step s t"

inductive_cases sched_stepE: "sched_step s t"

section \<open>The ledger invariant\<close>

definition active_ok :: "chunk_scheduler \<Rightarrow> bool" where
  "active_ok s \<longleftrightarrow> (\<forall>i r. active_requests s i = Some r \<longrightarrow>
     cr_chunk_index r = i \<and> i < length (chunk_states s) \<and> chunk_states s ! i = REQUESTED
     \<and> cr_peer_id r \<in> dom (peers s))"

definition requested_ok :: "chunk_scheduler \<Rightarrow> bool" where
  "requested_ok s \<longleftrightarrow> (\<forall>i < length (chunk_states s). chunk_states s ! i = REQUESTED \<longrightarrow> active_requests s i \<noteq> None)"

definition peers_ok :: "chunk_scheduler \<Rightarrow> bool" where
  "peers_ok s \<longleftrightarrow> (\<forall>k p. peers s k = Some p \<longrightarrow> pi_peer_id p = k \<and> pi_pending_requests p \<le> pi_max_concurrent p)"

definition sched_inv :: "chunk_scheduler \<Rightarrow> bool" where
  "sched_inv s \<longleftrightarrow> active_ok s \<and> requested_ok s \<and> peers_ok s"

lemmas sched_inv_defs = sched_inv_def active_ok_def requested_ok_def peers_ok_def

lemma active_okI:
  assumes "\<And>i r. active_requests s i = Some r \<Longrightarrow> cr_chunk_index r = i \<and> i < length (chunk_states s)
    \<and> chunk_states s ! i = REQUESTED \<and> cr_peer_id r \<in> dom (peers s)"
  shows "active_ok s"
  using assms by (simp add: active_ok_def)

lemma active_okD:
  assumes "active_ok s" and "active_requests s i = Some r"
  shows "cr_chunk_index r = i" "i < length (chunk_states s)" "chunk_states s ! i = REQUESTED"
    "cr_peer_id r \<in> dom (peers s)"
  using assms by (simp_all add: active_ok_def)

lemma peers_okI:
  assumes "\<And>k p. peers s k = Some p \<Longrightarrow> pi_peer_id p = k \<and> pi_pending_requests p \<le> pi_max_concurrent p"
  shows "peers_ok s"
  using assms by (simp add: peers_ok_def)

lemma peers_okD:
  assumes "peers_ok s" and "peers s k = Some p"
  shows "pi_peer_id p = k" "pi_pending_requests p \<le> pi_max_concurrent p"
  using assms by (simp_all add: peers_ok_def)

lemma sched_invD:
  assumes "sched_inv s"
  shows "active_ok s" "requested_ok s" "peers_ok s"
  using assms by (simp_all add: sched_inv_def)

lemma set_chunk_state_simps [simp]:
  "peers (set_chunk_state i st s) = peers s"
  "active_requests (set_chunk_state i st s) = active_requests s"
  "retry_count (set_chunk_state i st s) = retry_count s"
  "config (set_chunk_state i st s) = config s"
  "length (chunk_states (set_chunk_state i st s)) = length (chunk_states s)"
  by (simp_all add: set_chunk_state_def)

lemma chunk_states_set_chunk_state:
  "chunk_states (set_chunk_state i st s) = (chunk_states s)[i := st]"
  by (simp add: set_chunk_state_def list_update_beyond)

lemma set_chunk_state_nth:
  "j < length (chunk_states s) \<Longrightarrow>
   chunk_states (set_chunk_state i st s) ! j = (if j = i then st else chunk_states s ! j)"
  by (auto simp: chunk_states_set_chunk_state nth_list_update)

lemma retries_of_set_chunk_state [simp]: "retries_of (set_chunk_state i st s) j = retries_of s j"
  by (simp add: retries_of_def)

lemma new_scheduler_inv: "sched_inv (new_scheduler cfg)"
  by (simp add: sched_inv_defs new_scheduler_def)

lemma init_scheduler_inv: "sched_inv s \<Longrightarrow> sched_inv (init_scheduler m s)"
  by (simp add: sched_inv_defs init_scheduler_def)

lemma add_peer_inv: "sched_inv s \<Longrightarrow> sched_inv (add_peer now k mc s)"
  by (auto simp: sched_inv_defs add_peer_def)

lemma update_peer_health_inv: "sched_inv s \<Longrightarrow> sched_inv (update_peer_health now k av rt s)"
  by (auto simp: sched_inv_defs update_peer_health_def Let_def split: option.splits)

text \<open>
  Dropping a request and moving its chunk to a state other than \<open>REQUESTED\<close>: the step
  \<open>on_chunk_received\<close>, \<open>on_chunk_failed\<close> and \<open>remove_peer\<close> have in common. Peers may only
  lose pending requests and keep their identity.
\<close>

definition peers_shrink :: "(string \<rightharpoonup> peer_info) \<Rightarrow> (string \<rightharpoonup> peer_info) \<Rightarrow> bool" where
  "peers_shrink ps qs \<longleftrightarrow> dom qs = dom ps \<and> (\<forall>k p. ps k = Some p \<longrightarrow> (\<exists>q. qs k = Some q
     \<and> pi_peer_id q = pi_peer_id p \<and> pi_max_concurrent q = pi_max_concurrent p
     \<and> pi_pending_requests q \<le> pi_pending_requests p))"

lemma peers_shrink_refl [simp]: "peers_shrink ps ps"
  by (simp add: peers_shrink_def)

lemma peers_shrinkD:
  assumes "peers_shrink ps qs" and "qs k = Some q"
  shows "\<exists>p. ps k = Some p \<and> pi_peer_id q = pi_peer_id p \<and> pi_max_concurrent q = pi_max_concurrent p
    \<and> pi_pending_requests q \<le> pi_pending_requests p"
proof -
  from assms obtain p where "ps k = Some p" by (force simp: peers_shrink_def)
  with assms show ?thesis unfolding peers_shrink_def by (metis option.inject)
qed

lemma release_inv:
  assumes "sched_inv s" and "st \<noteq> REQUESTED"
    and "active_requests t = hm_remove (active_requests s) i"
    and "chunk_states t = (chunk_states s)[i := st]"
    and "peers_shrink (peers s) (peers t)"
  shows "sched_inv t"
proof -
  from assms(1) have a: "active_ok s" and r: "requested_ok s" and p: "peers_ok s"
    by (simp_all add: sched_inv_def)
  from assms(5) have dom: "dom (peers t) = dom (peers s)" by (simp add: peers_shrink_def)
  have "active_ok t"
    using a by (simp add: active_ok_def assms(3,4) dom)
  moreover have "requested_ok t"
    using r assms(2) by (simp add: requested_ok_def assms(3,4) nth_list_update)
  moreover have "peers_ok t"
  proof (rule peers_okI)
    fix k q
    assume "peers t k = Some q"
    with peers_shrinkD [OF assms(5)] obtain p' where "peers s k = Some p'" "pi_peer_id q = pi_peer_id p'"
      "pi_max_concurrent q = pi_max_concurrent p'" "pi_pending_requests q \<le> pi_pending_requests p'"
      by blast
    with peers_okD [OF p] show "pi_peer_id q = k \<and> pi_pending_requests q \<le> pi_max_concurrent q"
      by fastforce
  qed
  ultimately show ?thesis by (simp add: sched_inv_def)
qed

lemma unrequest_inv: "sched_inv s \<Longrightarrow> sched_inv (unrequest s i)"
  by (rule release_inv [where s = s and st = UNREQUESTED and i = i])
    (simp_all add: unrequest_def chunk_states_set_chunk_state)

lemma on_chunk_received_inv: "sched_inv s \<Longrightarrow> sched_inv (on_chunk_received n1 n2 i s)"
  by (rule release_inv [where s = s and st = RECEIVED and i = i])
    (auto simp: on_chunk_received_def chunk_states_set_chunk_state Let_def peers_shrink_def
      sat_sub_def hm_remove_def fun_eq_iff split: option.splits)

lemma release_failed_simps [simp]:
  "active_requests (release_failed i s) = hm_remove (active_requests s) i"
  "chunk_states (release_failed i s) = chunk_states s"
  "retry_count (release_failed i s) = retry_count s"
  "config (release_failed i s) = config s"
  by (auto simp: release_failed_def Let_def fun_eq_iff split: option.splits)

lemma release_failed_peers: "peers_shrink (peers s) (peers (release_failed i s))"
  by (auto simp: release_failed_def Let_def peers_shrink_def sat_sub_def split: option.splits)

lemma on_chunk_failed_simps [simp]:
  "active_requests (on_chunk_failed i c s) = hm_remove (active_requests s) i"
  "chunk_states (on_chunk_failed i c s) = (chunk_states s)[i := if c then CORRUPTED else UNREQUESTED]"
  "peers (on_chunk_failed i c s) = peers (release_failed i s)"
  "config (on_chunk_failed i c s) = config s"
  "retry_count (on_chunk_failed i c s) = (retry_count s)(i \<mapsto> wadd64 (retries_of s i) 1)"
  by (simp_all add: on_chunk_failed_def chunk_states_set_chunk_state Let_def retries_of_def)

lemma on_chunk_failed_inv: "sched_inv s \<Longrightarrow> sched_inv (on_chunk_failed i c s)"
  by (rule release_inv [where s = s and st = "if c then CORRUPTED else UNREQUESTED" and i = i])
    (simp_all add: release_failed_peers)

lemma fold_failed_inv: "sched_inv s \<Longrightarrow> sched_inv (foldl (\<lambda>t i. on_chunk_failed i False t) s is)"
  by (induction "is" arbitrary: s) (auto intro: on_chunk_failed_inv)

lemma handle_timeouts_inv: "sched_inv s \<Longrightarrow> sched_inv (handle_timeouts ord now s)"
  by (simp add: handle_timeouts_def fold_failed_inv)

lemma fold_unrequest_simps:
  "active_requests (foldl unrequest s is) = (\<lambda>i. if i \<in> set is then None else active_requests s i)"
  "peers (foldl unrequest s is) = peers s"
  by (induction "is" arbitrary: s) (auto simp: unrequest_def fun_eq_iff)

lemma fold_unrequest_inv: "sched_inv s \<Longrightarrow> sched_inv (foldl unrequest s is)"
  by (induction "is" arbitrary: s) (auto intro: unrequest_inv)

lemma remove_peer_inv:
  assumes "sched_inv s" and "hm_order (active_requests s) ord"
  shows "sched_inv (remove_peer ord k s)"
proof -
  let ?idx = "filter (\<lambda>i. \<exists>r. active_requests s i = Some r \<and> cr_peer_id r = k) ord"
  let ?s1 = "foldl unrequest s ?idx"
  have inv: "sched_inv ?s1" by (rule fold_unrequest_inv [OF assms(1)])
  have other: "cr_peer_id r \<noteq> k" if r: "active_requests ?s1 i = Some r" for i r
  proof
    assume "cr_peer_id r = k"
    moreover from r have "active_requests s i = Some r" "i \<notin> set ?idx"
      by (auto simp: fold_unrequest_simps split: if_splits)
    ultimately show False using hm_order_member [OF assms(2), of i] by simp
  qed
  have "active_ok (remove_peer ord k s)"
  proof (rule active_okI)
    fix i r
    assume "active_requests (remove_peer ord k s) i = Some r"
    then have r: "active_requests ?s1 i = Some r" by (simp add: remove_peer_def Let_def)
    from active_okD [OF sched_invD(1) [OF inv] r] other [OF r]
    show "cr_chunk_index r = i \<and> i < length (chunk_states (remove_peer ord k s))
      \<and> chunk_states (remove_peer ord k s) ! i = REQUESTED \<and> cr_peer_id r \<in> dom (peers (remove_peer ord k s))"
      by (simp add: remove_peer_def Let_def)
  qed
  moreover have "requested_ok (remove_peer ord k s)"
    using sched_invD(2) [OF inv] by (simp add: remove_peer_def requested_ok_def Let_def)
  moreover have "peers_ok (remove_peer ord k s)"
    using sched_invD(3) [OF inv] by (simp add: remove_peer_def peers_ok_def Let_def)
  ultimately show ?thesis by (simp add: sched_inv_def)
qed

section \<open>Which chunks are due\<close>

lemma chunks_from_eq:
  "length out \<le> m \<Longrightarrow>
   chunks_from s m i out = take m (out @ filter (requestable s) [i..<length (chunk_states s)])"
proof (induction s m i out rule: chunks_from.induct)
  case (1 s m i out)
  show ?case
  proof (cases "i < length (chunk_states s) \<and> length out < m")
    case True
    then have "[i..<length (chunk_states s)] = i # [Suc i..<length (chunk_states s)]"
      by (simp add: upt_conv_Cons)
    moreover from True have "m - length out = Suc (m - Suc (length out))" by arith
    ultimately show ?thesis using True "1.IH" by (simp add: chunks_from.simps [of s m i out])
  next
    case False
    with "1.prems" have "length out = m \<or> \<not> i < length (chunk_states s)" by linarith
    with False "1.prems" show ?thesis by (auto simp: chunks_from.simps [of s m i out])
  qed
qed

lemma get_chunks_to_request_eq:
  "get_chunks_to_request m s = take m (filter (requestable s) [0..<length (chunk_states s)])"
  by (simp add: get_chunks_to_request_def chunks_from_eq)

lemma get_chunks_to_request_props:
  assumes "i \<in> set (get_chunks_to_request m s)"
  shows "i < length (chunk_states s)" "requestable s i"
  using assms by (auto simp: get_chunks_to_request_eq dest: in_set_takeD)

lemma distinct_get_chunks_to_request: "distinct (get_chunks_to_request m s)"
  by (simp add: get_chunks_to_request_eq)

section \<open>Choosing a peer\<close>

definition peer_ready :: "(string \<rightharpoonup> peer_info) \<Rightarrow> string \<Rightarrow> bool" where
  "peer_ready ps k \<longleftrightarrow> (\<exists>p. ps k = Some p \<and> has_capacity p)"

lemma select_from_Some:
  assumes "select_from n av ps i = (Some pid, ps', j)" and "av \<noteq> []"
  shows "\<exists>k p. k \<in> set av \<and> ps k = Some p \<and> has_capacity p \<and> pid = pi_peer_id p
    \<and> ps' = ps(k \<mapsto> p\<lparr>pi_pending_requests := Suc (pi_pending_requests p)\<rparr>)"
  using assms
proof (induction n av ps i rule: select_from.induct)
  case (2 n av ps i)
  let ?k = "av ! (i mod length av)"
  have mem: "?k \<in> set av" using "2.prems"(2) by simp
  show ?case
  proof (cases "ps ?k")
    case None
    with 2 show ?thesis by (simp add: Let_def)
  next
    case (Some p)
    show ?thesis
    proof (cases "has_capacity p")
      case True
      with "2.prems"(1) Some have "pid = pi_peer_id p"
        "ps' = ps(?k \<mapsto> p\<lparr>pi_pending_requests := Suc (pi_pending_requests p)\<rparr>)"
        by (auto simp: Let_def)
      with mem Some True show ?thesis by blast
    next
      case False
      with 2 Some show ?thesis by (simp add: Let_def)
    qed
  qed
qed simp

lemma select_from_None:
  assumes "select_from n av ps i = (None, ps', j)"
  shows "ps' = ps \<and> (\<forall>d < n. \<not> peer_ready ps (av ! ((i + d) mod length av)))"
  using assms
proof (induction n av ps i rule: select_from.induct)
  case (2 n av ps i)
  let ?k = "av ! (i mod length av)"
  have not_ready: "\<not> peer_ready ps ?k"
    using "2.prems" by (auto simp: peer_ready_def Let_def split: if_splits)
  then have rest: "select_from n av ps (Suc i) = (None, ps', j)"
    using "2.prems" by (auto simp: peer_ready_def Let_def split: option.splits)
  have IH: "ps' = ps \<and> (\<forall>d < n. \<not> peer_ready ps (av ! ((Suc i + d) mod length av)))"
  proof (cases "ps ?k")
    case None
    with "2.IH"(1) rest show ?thesis by simp
  next
    case (Some p)
    with not_ready have "\<not> has_capacity p" by (auto simp: peer_ready_def)
    with "2.IH"(2) Some rest show ?thesis by simp
  qed
  have "\<not> peer_ready ps (av ! ((i + d) mod length av))" if "d < Suc n" for d
    using that IH not_ready by (cases d) auto
  with IH show ?case by simp
qed simp

lemma wrap_around_covers:
  assumes "x < (n :: nat)"
  shows "\<exists>d < n. (i + d) mod n = x"
proof (intro exI conjI)
  show "(x + n - i mod n) mod n < n" using assms by simp
  have "i mod n \<le> n" using assms by (simp add: less_imp_le)
  then have "(i + (x + n - i mod n) mod n) mod n = (i mod n + (x + n - i mod n)) mod n"
    by (metis mod_add_eq mod_mod_trivial)
  also have "i mod n + (x + n - i mod n) = x + n" using \<open>i mod n \<le> n\<close> by simp
  also have "(x + n) mod n = x" using assms by simp
  finally show "(i + (x + n - i mod n) mod n) mod n = x" .
qed

text \<open>The scan fails only when no listed peer has capacity.\<close>

lemma select_from_complete:
  assumes "select_from (length av) av ps i = (None, ps', j)" and "k \<in> set av"
  shows "\<not> peer_ready ps k"
proof -
  from assms(2) obtain x where "x < length av" "av ! x = k" by (auto simp: in_set_conv_nth)
  moreover from wrap_around_covers [OF this(1), of i] obtain d where
    "d < length av" "(i + d) mod length av = x" by blast
  ultimately show ?thesis using select_from_None [OF assms(1)] by blast
qed

text \<open>The free capacity of a list of peers; a selection uses up one unit of it.\<close>

definition free_slots :: "(string \<rightharpoonup> peer_info) \<Rightarrow> string \<Rightarrow> nat" where
  "free_slots ps k = (case ps k of None \<Rightarrow> 0 | Some p \<Rightarrow> pi_max_concurrent p - pi_pending_requests p)"

definition total_free :: "(string \<rightharpoonup> peer_info) \<Rightarrow> string list \<Rightarrow> nat" where
  "total_free ps av = (\<Sum>k\<leftarrow>av. free_slots ps k)"

lemma free_slots_pos: "0 < free_slots ps k \<longleftrightarrow> peer_ready ps k"
  by (auto simp: free_slots_def peer_ready_def has_capacity_def split: option.splits)

lemma total_free_zero: "total_free ps av = 0 \<longleftrightarrow> (\<forall>k \<in> set av. \<not> peer_ready ps k)"
  by (auto simp: total_free_def sum_list_eq_0_iff free_slots_pos [symmetric])

lemma total_free_Cons [simp]: "total_free ps (k # av) = free_slots ps k + total_free ps av"
  by (simp add: total_free_def)

lemma total_free_take_one:
  assumes "distinct av" and "k \<in> set av" and "ps k = Some p" and "has_capacity p"
    and "ps' = ps(k \<mapsto> p\<lparr>pi_pending_requests := Suc (pi_pending_requests p)\<rparr>)"
  shows "Suc (total_free ps' av) = total_free ps av"
  using assms(1,2)
proof (induction av)
  case (Cons a av)
  have other: "free_slots ps' j = free_slots ps j" if "j \<noteq> k" for j
    using that by (simp add: free_slots_def assms(5))
  have own: "Suc (free_slots ps' k) = free_slots ps k"
    using assms(3-5) by (simp add: free_slots_def has_capacity_def Suc_diff_Suc)
  show ?case
  proof (cases "a = k")
    case True
    with Cons.prems have "j \<noteq> k" if "j \<in> set av" for j using that by auto
    then have "total_free ps' av = total_free ps av"
      unfolding total_free_def by (intro arg_cong [of _ _ sum_list] map_cong [OF refl] other)
    with True own show ?thesis by simp
  next
    case False
    with Cons other show ?thesis by simp
  qed
qed simp

section \<open>Assigning chunks to peers\<close>

text \<open>
  One induction carries everything the callers need. The new requests go to a prefix of
  the due chunks, the ledger is updated for exactly those, and their number is as large
  as the due chunks, the request budget and the free capacity allow.
\<close>

definition assigned ::
  "u128 \<Rightarrow> string list \<Rightarrow> usize list \<Rightarrow> chunk_scheduler \<Rightarrow> chunk_request list \<Rightarrow> chunk_scheduler \<Rightarrow> bool" where
  "assigned now av cs s new t \<longleftrightarrow>
     map cr_chunk_index new = take (length new) cs
     \<and> list_all (\<lambda>r. cr_peer_id r \<in> set av \<and> cr_requested_at r = now
          \<and> cr_timeout_ms r = chunk_timeout_ms (config s)) new
     \<and> active_requests t = active_requests s ++ map_of (map (\<lambda>r. (cr_chunk_index r, r)) new)
     \<and> chunk_states t = fold (\<lambda>r sts. sts[cr_chunk_index r := REQUESTED]) new (chunk_states s)
     \<and> peers t = (\<lambda>k. map_option (\<lambda>p. p\<lparr>pi_pending_requests :=
          pi_pending_requests p + length (filter (\<lambda>r. cr_peer_id r = k) new)\<rparr>) (peers s k))
     \<and> config t = config s \<and> retry_count t = retry_count s"

lemma assigned_Nil: "assigned now av cs s [] s"
  by (simp add: assigned_def fun_eq_iff option.map_ident)

lemma map_add_map_of_Cons:
  assumes "c \<notin> fst ` set xs"
  shows "(m(c \<mapsto> v)) ++ map_of xs = m ++ map_of ((c, v) # xs)"
proof -
  from assms have "map_of xs c = None" by (simp add: map_of_eq_None_iff)
  then show ?thesis by (auto simp: fun_eq_iff map_add_def split: option.split)
qed

lemma assigned_Cons:
  assumes "assigned now av cs s' new t" and "c \<notin> set cs" and "k \<in> set av" and "peers s k = Some p"
    and s': "s' = set_chunk_state c REQUESTED (s\<lparr>peers := (peers s)(k \<mapsto> p\<lparr>pi_pending_requests := Suc (pi_pending_requests p)\<rparr>),
           active_requests := (active_requests s)(c \<mapsto> req)\<rparr>)"
    and req: "cr_chunk_index req = c" "cr_peer_id req = k" "cr_requested_at req = now"
      "cr_timeout_ms req = chunk_timeout_ms (config s)"
  shows "assigned now av (c # cs) s (req # new) t"
proof -
  have "set (map cr_chunk_index new) \<subseteq> set cs"
    using assms(1) by (simp only: assigned_def set_take_subset)
  with assms(2) have idx: "c \<notin> fst ` set (map (\<lambda>r. (cr_chunk_index r, r)) new)" by auto
  have "active_requests t = active_requests s ++ map_of (map (\<lambda>r. (cr_chunk_index r, r)) (req # new))"
    using assms(1) map_add_map_of_Cons [OF idx, of "active_requests s" req] req
    by (simp add: assigned_def s')
  moreover have "peers t = (\<lambda>j. map_option (\<lambda>p. p\<lparr>pi_pending_requests :=
          pi_pending_requests p + length (filter (\<lambda>r. cr_peer_id r = j) (req # new))\<rparr>) (peers s j))"
    using assms(1,4) req by (auto simp: assigned_def s' fun_eq_iff)
  ultimately show ?thesis
    using assms(1,3) req by (simp add: assigned_def s' chunk_states_set_chunk_state)
qed

lemma assign_chunks_spec:
  assumes "assign_chunks now m av cs i rs s = (out, t)"
    and "distinct av" and "distinct cs" and "peers_ok s"
  shows "\<exists>new. out = rs @ new \<and> assigned now av cs s new t \<and> peers_ok t
    \<and> length new = min (length cs) (min (m - length rs) (total_free (peers s) av))"
  using assms
proof (induction now m av cs i rs s rule: assign_chunks.induct)
  case (1 now m av i rs s)
  then show ?case by (intro exI [of _ "[]"]) (simp add: assigned_Nil)
next
  case (2 now m av c cs i rs s)
  have stop: ?case if "(out, t) = (rs, s)" and "m \<le> length rs \<or> total_free (peers s) av = 0"
    using that "2.prems"(4) by (intro exI [of _ "[]"]) (auto simp: assigned_Nil)
  show ?case
  proof (cases "m \<le> length rs \<or> av = []")
    case True
    then have "(out, t) = (rs, s)" using "2.prems"(1) by (cases "m \<le> length rs") simp_all
    with True show ?thesis by (intro stop) (auto simp: total_free_def)
  next
    case False
    obtain sel ps j where sel: "select_from (length av) av (peers s) i = (sel, ps, j)"
      by (metis prod_cases3)
    show ?thesis
    proof (cases sel)
      case None
      with sel have "ps = peers s" "total_free (peers s) av = 0"
        using select_from_None [of "length av" av "peers s" i ps j]
          select_from_complete [of av "peers s" i ps j] by (simp_all add: total_free_zero)
      with False None sel "2.prems"(1) show ?thesis by (intro stop) simp_all
    next
      case (Some pid)
      with sel False select_from_Some [of "length av" av "peers s" i pid ps j]
      obtain k p where kp: "k \<in> set av" "peers s k = Some p" "has_capacity p" "pid = pi_peer_id p"
        and ps: "ps = (peers s)(k \<mapsto> p\<lparr>pi_pending_requests := Suc (pi_pending_requests p)\<rparr>)" by auto
      with "2.prems"(4) have pid: "pid = k" by (simp add: peers_okD)
      define req where "req = \<lparr>cr_chunk_index = c, cr_peer_id = pid, cr_requested_at = now,
        cr_timeout_ms = chunk_timeout_ms (config s)\<rparr>"
      define s' where "s' = set_chunk_state c REQUESTED
        (s\<lparr>peers := ps, active_requests := (active_requests s)(c \<mapsto> req)\<rparr>)"
      have ok: "peers_ok s'"
        using "2.prems"(4) kp by (auto simp: peers_ok_def s'_def ps has_capacity_def)
      have rec: "assign_chunks now m av cs (Suc j) (rs @ [req]) s' = (out, t)"
        using "2.prems"(1) False sel Some by (simp add: req_def s'_def Let_def)
      obtain new where out: "out = rs @ req # new" and asg: "assigned now av cs s' new t" "peers_ok t"
        and len: "length new = min (length cs) (min (m - Suc (length rs)) (total_free (peers s') av))"
        using "2.IH" False sel Some rec "2.prems"(2,3) ok by (force simp: req_def s'_def)
      have "Suc (total_free (peers s') av) = total_free (peers s) av"
        using total_free_take_one [OF "2.prems"(2) kp(1-3) ps] by (simp add: s'_def)
      then have "length (req # new) = min (length (c # cs)) (min (m - length rs) (total_free (peers s) av))"
        using len False by (simp only: length_Cons) arith
      moreover have "assigned now av (c # cs) s (req # new) t"
        using assigned_Cons [OF asg(1) _ kp(1,2)] "2.prems"(3) s'_def ps pid by (simp add: req_def)
      ultimately show ?thesis using out asg(2) by blast
    qed
  qed
qed

section \<open>Handing out requests\<close>

lemma handle_timeouts_simps [simp]:
  "config (handle_timeouts ord now s) = config s"
  "length (chunk_states (handle_timeouts ord now s)) = length (chunk_states s)"
proof -
  have "config (foldl (\<lambda>t i. on_chunk_failed i False t) s is) = config s
      \<and> length (chunk_states (foldl (\<lambda>t i. on_chunk_failed i False t) s is)) = length (chunk_states s)" for "is"
    by (induction "is" arbitrary: s) simp_all
  then show "config (handle_timeouts ord now s) = config s"
    "length (chunk_states (handle_timeouts ord now s)) = length (chunk_states s)"
    by (simp_all add: handle_timeouts_def)
qed

lemma fold_failed_active:
  "active_requests (foldl (\<lambda>t i. on_chunk_failed i False t) s is)
     = (\<lambda>i. if i \<in> set is then None else active_requests s i)"
  by (induction "is" arbitrary: s) (auto simp: fun_eq_iff)

lemma handle_timeouts_active:
  assumes "hm_order (active_requests s) ord"
  shows "active_requests (handle_timeouts ord now s) = hm_retain (\<lambda>r. \<not> timed_out now r) (active_requests s)"
proof
  fix i
  show "active_requests (handle_timeouts ord now s) i = hm_retain (\<lambda>r. \<not> timed_out now r) (active_requests s) i"
    using hm_order_member [OF assms, of i]
    by (auto simp: handle_timeouts_def fold_failed_active hm_retain_def split: option.splits)
qed

lemma available_peers_set:
  "set (available_peers pord s) = {k \<in> set pord. \<exists>p. peers s k = Some p \<and> pi_available p \<and> has_capacity p}"
  by (auto simp: available_peers_def Let_def)

lemma distinct_available_peers: "distinct pord \<Longrightarrow> distinct (available_peers pord s)"
  by (simp add: available_peers_def Let_def)

lemma fold_requested_nth:
  "i < length sts \<Longrightarrow> fold (\<lambda>r sts. sts[cr_chunk_index r := REQUESTED]) new sts ! i
     = (if i \<in> cr_chunk_index ` set new then REQUESTED else sts ! i)"
  by (induction new arbitrary: sts) (auto simp: nth_list_update)

lemma fold_requested_length [simp]:
  "length (fold (\<lambda>r sts. sts[cr_chunk_index r := REQUESTED]) new sts) = length sts"
  by (induction new arbitrary: sts) auto

lemma map_of_requests:
  assumes "distinct (map cr_chunk_index new)"
  shows "map_of (map (\<lambda>r. (cr_chunk_index r, r)) new) i = Some r \<longleftrightarrow> r \<in> set new \<and> cr_chunk_index r = i"
  using assms by (auto simp: map_of_eq_Some_iff o_def distinct_map)

lemma assigned_inv:
  assumes "assigned now av cs s new t" and "sched_inv s" and "peers_ok t"
    and "\<And>i. i \<in> set cs \<Longrightarrow> i < length (chunk_states s)" and "distinct cs"
    and "set av \<subseteq> dom (peers s)"
  shows "sched_inv t"
proof -
  let ?m = "map_of (map (\<lambda>r. (cr_chunk_index r, r)) new)"
  have idx: "map cr_chunk_index new = take (length new) cs"
    and own: "list_all (\<lambda>r. cr_peer_id r \<in> set av) new"
    and act: "active_requests t = active_requests s ++ ?m"
    and sts: "chunk_states t = fold (\<lambda>r sts. sts[cr_chunk_index r := REQUESTED]) new (chunk_states s)"
    and prs: "dom (peers t) = dom (peers s)"
    using assms(1) by (auto simp: assigned_def list_all_iff dom_def)
  have dis: "distinct (map cr_chunk_index new)" using assms(5) by (simp only: idx distinct_take)
  have rng: "cr_chunk_index r < length (chunk_states s)" if "r \<in> set new" for r
    using that assms(4) by (metis idx in_set_takeD list.set_map imageI)
  have "active_ok t"
  proof (rule active_okI)
    fix i r
    assume "active_requests t i = Some r"
    then consider "r \<in> set new" "cr_chunk_index r = i" | "active_requests s i = Some r"
      using map_of_requests [OF dis] by (auto simp: act map_add_Some_iff)
    then show "cr_chunk_index r = i \<and> i < length (chunk_states t) \<and> chunk_states t ! i = REQUESTED
        \<and> cr_peer_id r \<in> dom (peers t)"
    proof cases
      case 1
      with own assms(6) rng show ?thesis by (auto simp: sts fold_requested_nth prs list_all_iff)
    next
      case 2
      from active_okD [OF sched_invD(1) [OF assms(2)] this] show ?thesis
        by (simp add: sts fold_requested_nth prs)
    qed
  qed
  moreover have "requested_ok t"
    using sched_invD(2) [OF assms(2)] dis
    by (auto simp: requested_ok_def sts act fold_requested_nth map_add_None map_of_eq_None_iff image_iff)
  ultimately show ?thesis using assms(3) by (simp add: sched_inv_def)
qed

lemma get_next_requests_spec:
  assumes "get_next_requests ord pord now m s = (rs, t)" and "sched_inv s" and "distinct pord"
  defines "s1 \<equiv> handle_timeouts ord now s"
  shows "assigned now (available_peers pord s1) (get_chunks_to_request m s1) s1 rs t"
    and "sched_inv t"
    and "length rs = min (length (get_chunks_to_request m s1)) (min m (total_free (peers s1) (available_peers pord s1)))"
proof -
  have inv: "sched_inv s1" unfolding s1_def by (rule handle_timeouts_inv [OF assms(2)])
  have run: "assign_chunks now m (available_peers pord s1) (get_chunks_to_request m s1) 0 [] s1 = (rs, t)"
    using assms(1) by (simp add: get_next_requests_def s1_def Let_def)
  from assign_chunks_spec [OF run distinct_available_peers [OF assms(3)] distinct_get_chunks_to_request
      sched_invD(3) [OF inv]]
  have asg: "assigned now (available_peers pord s1) (get_chunks_to_request m s1) s1 rs t" and ok: "peers_ok t"
    and len: "length rs = min (length (get_chunks_to_request m s1))
      (min m (total_free (peers s1) (available_peers pord s1)))" by auto
  show "assigned now (available_peers pord s1) (get_chunks_to_request m s1) s1 rs t" by (fact asg)
  show "length rs = min (length (get_chunks_to_request m s1))
      (min m (total_free (peers s1) (available_peers pord s1)))" by (fact len)
  show "sched_inv t"
    by (rule assigned_inv [OF asg inv ok])
      (auto simp: get_chunks_to_request_props distinct_get_chunks_to_request available_peers_set)
qed

lemma exec_cmd_inv:
  assumes "sched_inv s" and "orders_ok s c" and "exec_cmd s c = (r, t)"
  shows "sched_inv t"
proof (cases c)
  case (CmdNext ord pord now m)
  then obtain rs where "get_next_requests ord pord now m s = (rs, t)"
    using assms(3) by (cases "get_next_requests ord pord now m s") auto
  then show ?thesis using assms(1,2) CmdNext get_next_requests_spec(2) by (auto simp: hm_order_def)
qed (use assms in \<open>auto intro: init_scheduler_inv add_peer_inv remove_peer_inv update_peer_health_inv
    on_chunk_received_inv on_chunk_failed_inv\<close>)

interpretation sched: invariant_machine sched_step sched_inv
  by unfold_locales
    (auto elim!: sched_stepE simp: run_command_def split: if_splits prod.splits intro: exec_cmd_inv)

section \<open>Load accounting\<close>

text \<open>
  The number of active requests of a peer against its \<open>pending_requests\<close> counter. The two
  agree as long as a peer is not added again while it is known and the scheduler is not
  re-initialised while requests are active.
\<close>

definition owned :: "(usize \<rightharpoonup> chunk_request) \<Rightarrow> string \<Rightarrow> usize set" where
  "owned act k = {i. \<exists>r. act i = Some r \<and> cr_peer_id r = k}"

definition load :: "chunk_scheduler \<Rightarrow> string \<Rightarrow> nat" where
  "load s k = card (owned (active_requests s) k)"

definition accounted :: "chunk_scheduler \<Rightarrow> bool" where
  "accounted s \<longleftrightarrow> finite (dom (active_requests s))
     \<and> (\<forall>k p. peers s k = Some p \<longrightarrow> pi_pending_requests p = load s k)"

lemma finite_owned: "finite (dom act) \<Longrightarrow> finite (owned act k)"
  by (rule finite_subset [of _ "dom act"]) (auto simp: owned_def)

lemma owned_remove:
  "owned (hm_remove act i) k = owned act k - {i}"
  by (auto simp: owned_def)

lemma card_owned_remove:
  assumes "finite (dom act)" and "act i = Some r"
  shows "card (owned (hm_remove act i) k) = (if cr_peer_id r = k then card (owned act k) - 1 else card (owned act k))"
proof -
  have "i \<in> owned act k \<longleftrightarrow> cr_peer_id r = k" using assms(2) by (simp add: owned_def)
  then show ?thesis by (simp add: owned_remove finite_owned [OF assms(1)])
qed

text \<open>A request leaves the ledger and its peer's counter goes down by one.\<close>

lemma accounted_release:
  assumes "accounted s"
    and "active_requests t = hm_remove (active_requests s) i"
    and "\<And>k q. peers t k = Some q \<Longrightarrow> \<exists>p. peers s k = Some p \<and> pi_pending_requests q =
       (if (\<exists>r. active_requests s i = Some r \<and> cr_peer_id r = k) then pi_pending_requests p - 1
        else pi_pending_requests p)"
  shows "accounted t"
proof -
  have fin: "finite (dom (active_requests s))" using assms(1) by (simp add: accounted_def)
  have "pi_pending_requests q = load t k" if q: "peers t k = Some q" for k q
  proof -
    obtain p where p: "peers s k = Some p" and pend: "pi_pending_requests q =
       (if (\<exists>r. active_requests s i = Some r \<and> cr_peer_id r = k) then pi_pending_requests p - 1
        else pi_pending_requests p)" using assms(3) [OF q] by blast
    have ld: "pi_pending_requests p = load s k" using assms(1) p by (simp add: accounted_def)
    show ?thesis
    proof (cases "active_requests s i")
      case None
      then have "hm_remove (active_requests s) i = active_requests s" by (simp add: fun_eq_iff)
      with None pend ld show ?thesis by (simp add: load_def assms(2))
    next
      case (Some r)
      with pend ld card_owned_remove [OF fin Some, of k] show ?thesis by (simp add: load_def assms(2))
    qed
  qed
  with fin show ?thesis by (simp add: accounted_def assms(2))
qed

lemma on_chunk_received_active:
  "active_requests (on_chunk_received n1 n2 i s) = hm_remove (active_requests s) i"
  by (auto simp: on_chunk_received_def Let_def fun_eq_iff split: option.splits)

lemma on_chunk_received_accounted: "accounted s \<Longrightarrow> accounted (on_chunk_received n1 n2 i s)"
  by (rule accounted_release [of s _ i])
    (auto simp: on_chunk_received_active on_chunk_received_def Let_def sat_sub_def
      split: option.splits if_splits)

lemma on_chunk_failed_accounted: "accounted s \<Longrightarrow> accounted (on_chunk_failed i c s)"
  by (rule accounted_release [of s _ i])
    (auto simp: release_failed_def Let_def sat_sub_def split: option.splits if_splits)

lemma handle_timeouts_accounted: "accounted s \<Longrightarrow> accounted (handle_timeouts ord now s)"
proof -
  have "accounted s \<Longrightarrow> accounted (foldl (\<lambda>t i. on_chunk_failed i False t) s is)" for "is"
    by (induction "is" arbitrary: s) (auto intro: on_chunk_failed_accounted)
  then show "accounted s \<Longrightarrow> accounted (handle_timeouts ord now s)"
    by (simp add: handle_timeouts_def)
qed

lemma remove_peer_active:
  assumes "hm_order (active_requests s) ord"
  shows "active_requests (remove_peer ord k s) = hm_retain (\<lambda>r. cr_peer_id r \<noteq> k) (active_requests s)"
proof
  fix i
  show "active_requests (remove_peer ord k s) i = hm_retain (\<lambda>r. cr_peer_id r \<noteq> k) (active_requests s) i"
    using hm_order_member [OF assms, of i]
    by (auto simp: remove_peer_def Let_def fold_unrequest_simps hm_retain_def split: option.splits)
qed

lemma remove_peer_peers [simp]: "peers (remove_peer ord k s) = hm_remove (peers s) k"
  by (simp add: remove_peer_def Let_def fold_unrequest_simps)

lemma remove_peer_accounted:
  assumes "accounted s" and "hm_order (active_requests s) ord"
  shows "accounted (remove_peer ord k s)"
proof -
  have "dom (active_requests (remove_peer ord k s)) \<subseteq> dom (active_requests s)"
    by (auto simp: remove_peer_active [OF assms(2)])
  moreover have "load (remove_peer ord k s) j = load s j" if "j \<noteq> k" for j
    using that by (auto simp: load_def owned_def remove_peer_active [OF assms(2)] intro: arg_cong [of _ _ card])
  ultimately show ?thesis using assms(1) by (auto simp: accounted_def intro: finite_subset)
qed

lemma update_peer_health_accounted: "accounted s \<Longrightarrow> accounted (update_peer_health now k av rt s)"
  by (auto simp: accounted_def load_def update_peer_health_def Let_def split: option.splits)

lemma add_new_peer_accounted:
  assumes "accounted s" and "sched_inv s" and "k \<notin> dom (peers s)"
  shows "accounted (add_peer now k mc s)"
proof -
  have "owned (active_requests s) k = {}"
    using assms(3) active_okD(4) [OF sched_invD(1) [OF assms(2)]] by (auto simp: owned_def)
  with assms(1) show ?thesis by (simp add: accounted_def load_def add_peer_def)
qed

lemma init_idle_accounted:
  assumes "accounted s" and "active_requests s = Map.empty"
  shows "accounted (init_scheduler m s)"
  using assms by (simp add: accounted_def load_def init_scheduler_def)

lemma assigned_accounted:
  assumes "assigned now av cs s new t" and "accounted s" and "distinct cs"
    and "\<And>i. i \<in> set cs \<Longrightarrow> active_requests s i = None"
  shows "accounted t"
proof -
  let ?m = "map_of (map (\<lambda>r. (cr_chunk_index r, r)) new)"
  have idx: "map cr_chunk_index new = take (length new) cs"
    and act: "active_requests t = active_requests s ++ ?m"
    and prs: "peers t = (\<lambda>k. map_option (\<lambda>p. p\<lparr>pi_pending_requests :=
          pi_pending_requests p + length (filter (\<lambda>r. cr_peer_id r = k) new)\<rparr>) (peers s k))"
    using assms(1) by (simp_all add: assigned_def)
  have fin: "finite (dom (active_requests s))" using assms(2) by (simp add: accounted_def)
  have dis: "distinct (map cr_chunk_index new)" using assms(3) by (simp only: idx distinct_take)
  have fresh: "active_requests s (cr_chunk_index r) = None" if "r \<in> set new" for r
    using that assms(4) by (metis idx in_set_takeD list.set_map imageI)
  have "load t k = load s k + length (filter (\<lambda>r. cr_peer_id r = k) new)" for k
  proof -
    let ?new = "cr_chunk_index ` set (filter (\<lambda>r. cr_peer_id r = k) new)"
    have "owned (active_requests t) k = owned (active_requests s) k \<union> ?new"
      using map_of_requests [OF dis] fresh
      by (fastforce simp: owned_def act map_add_Some_iff map_of_eq_None_iff image_iff)
    moreover have "owned (active_requests s) k \<inter> ?new = {}" using fresh by (auto simp: owned_def)
    moreover have "card ?new = length (filter (\<lambda>r. cr_peer_id r = k) new)"
      using dis by (metis distinct_card distinct_map_filter length_map list.set_map)
    ultimately show ?thesis by (simp add: load_def card_Un_disjoint finite_owned [OF fin])
  qed
  with assms(2) fin show ?thesis by (auto simp: accounted_def act prs finite_dom_map_of)
qed

lemma get_next_requests_accounted:
  assumes "get_next_requests ord pord now m s = (rs, t)" and "sched_inv s" and "distinct pord" and "accounted s"
  shows "accounted t"
proof (rule assigned_accounted [OF get_next_requests_spec(1) [OF assms(1-3)]])
  let ?s1 = "handle_timeouts ord now s"
  show "accounted ?s1" using assms(4) by (rule handle_timeouts_accounted)
  show "distinct (get_chunks_to_request m ?s1)" by (rule distinct_get_chunks_to_request)
  fix i
  assume "i \<in> set (get_chunks_to_request m ?s1)"
  then have "chunk_states ?s1 ! i = UNREQUESTED"
    by (auto simp: requestable_def dest: get_chunks_to_request_props)
  then show "active_requests ?s1 i = None"
    using active_okD(3) [OF sched_invD(1) [OF handle_timeouts_inv [OF assms(2)]]] by fastforce
qed

text \<open>
  The calls a client makes when it re-initialises only an idle scheduler and adds only
  peers that are not known.
\<close>

fun disciplined :: "chunk_scheduler \<Rightarrow> sched_cmd \<Rightarrow> bool" where
  "disciplined s (CmdInit _) = (active_requests s = Map.empty)"
| "disciplined s (CmdAddPeer _ k _) = (k \<notin> dom (peers s))"
| "disciplined s _ = True"

inductive disciplined_step :: "chunk_scheduler \<Rightarrow> chunk_scheduler \<Rightarrow> bool" where
  command: "orders_ok s c \<Longrightarrow> disciplined s c \<Longrightarrow> run_command poisoned s c = (r, t) \<Longrightarrow> disciplined_step s t"

inductive_cases disciplined_stepE: "disciplined_step s t"

lemma exec_cmd_accounted:
  assumes "sched_inv s" and "accounted s" and "orders_ok s c" and "disciplined s c" and "exec_cmd s c = (r, t)"
  shows "accounted t"
proof (cases c)
  case (CmdNext ord pord now m)
  then obtain rs where "get_next_requests ord pord now m s = (rs, t)"
    using assms(5) by (cases "get_next_requests ord pord now m s") auto
  then show ?thesis using assms(1-3) CmdNext get_next_requests_accounted by (auto simp: hm_order_def)
qed (use assms in \<open>auto intro: init_idle_accounted add_new_peer_accounted remove_peer_accounted
    update_peer_health_accounted on_chunk_received_accounted on_chunk_failed_accounted\<close>)

interpretation paced: invariant_machine disciplined_step "\<lambda>s. sched_inv s \<and> accounted s"
proof
  fix s t
  assume "disciplined_step s t" and inv: "sched_inv s \<and> accounted s"
  then obtain c poisoned r where c: "orders_ok s c" "disciplined s c" "run_command poisoned s c = (r, t)"
    by (auto elim: disciplined_stepE)
  show "sched_inv t \<and> accounted t"
  proof (cases poisoned)
    case False
    with c(3) obtain r' where "exec_cmd s c = (r', t)"
      by (auto simp: run_command_def split: prod.splits)
    with c(1,2) inv show ?thesis by (auto intro: exec_cmd_inv exec_cmd_accounted)
  qed (use c inv in \<open>simp add: run_command_def\<close>)
qed

lemma new_scheduler_accounted: "accounted (new_scheduler cfg)"
  by (simp add: accounted_def new_scheduler_def)

lemma saturated_no_requests:
  assumes "\<And>k p. peers s k = Some p \<Longrightarrow> \<not> has_capacity p" and "active_requests s = Map.empty"
  shows "get_next_requests [] pord now m s = ([], s)"
proof -
  have "available_peers pord s = []"
    using assms(1) by (auto simp: available_peers_set simp flip: set_empty)
  moreover have "handle_timeouts [] now s = s" by (simp add: handle_timeouts_def)
  ultimately show ?thesis
    by (cases "get_chunks_to_request m s") (simp_all add: get_next_requests_def)
qed

section \<open>Properties\<close>

text \<open>A two-chunk file, one peer that takes one request at a time, and the first hand-out.\<close>

definition demo_manifest :: chunk_manifest where
  "demo_manifest = [\<lparr>cm_index = 0, cm_size = 4, cm_checksum = None\<rparr>, \<lparr>cm_index = 1, cm_size = 4, cm_checksum = None\<rparr>]"

definition demo_ready :: chunk_scheduler where
  "demo_ready = add_peer 0 ''p'' (Some 1) (init_scheduler demo_manifest (new_scheduler None))"

definition demo_busy :: chunk_scheduler where
  "demo_busy = snd (get_next_requests [] [''p''] 100 5 demo_ready)"

lemma demo_ready_simps [simp]:
  "active_requests demo_ready = Map.empty"
  "chunk_states demo_ready = [UNREQUESTED, UNREQUESTED]"
  "retry_count demo_ready = Map.empty"
  "config demo_ready = default_scheduler_config"
  "peers demo_ready = [''p'' \<mapsto> \<lparr>pi_peer_id = ''p'', pi_available = True, pi_last_seen = 0,
     pi_pending_requests = 0, pi_max_concurrent = 1, pi_avg_response_time = 1000, pi_failure_count = 0\<rparr>]"
  by (simp_all add: demo_ready_def demo_manifest_def add_peer_def init_scheduler_def new_scheduler_def)

lemmas demo_eval = get_next_requests_def handle_timeouts_def get_chunks_to_request_eq requestable_def
  retries_of_def available_peers_def default_scheduler_config_def has_capacity_def Let_def

lemma demo_next:
  "get_next_requests [] [''p''] 100 5 demo_ready =
     ([\<lparr>cr_chunk_index = 0, cr_peer_id = ''p'', cr_requested_at = 100, cr_timeout_ms = 30000\<rparr>], demo_busy)"
  unfolding demo_busy_def by (simp add: demo_eval)

lemma demo_busy_simps [simp]:
  "active_requests demo_busy = [0 \<mapsto> \<lparr>cr_chunk_index = 0, cr_peer_id = ''p'', cr_requested_at = 100, cr_timeout_ms = 30000\<rparr>]"
  "chunk_states demo_busy = [REQUESTED, UNREQUESTED]"
  "peers demo_busy = [''p'' \<mapsto> \<lparr>pi_peer_id = ''p'', pi_available = True, pi_last_seen = 0,
     pi_pending_requests = 1, pi_max_concurrent = 1, pi_avg_response_time = 1000, pi_failure_count = 0\<rparr>]"
  unfolding demo_busy_def by (simp_all add: demo_eval chunk_states_set_chunk_state)

lemma demo_ready_run: "disciplined_step\<^sup>*\<^sup>* (new_scheduler None) demo_ready"
proof -
  let ?s0 = "new_scheduler None" and ?s1 = "init_scheduler demo_manifest (new_scheduler None)"
  have "disciplined_step ?s0 ?s1"
    by (rule disciplined_step.command [of _ "CmdInit demo_manifest" False "Ok ReplyUnit"])
      (simp_all add: run_command_def new_scheduler_def)
  moreover have "disciplined_step ?s1 demo_ready"
    by (rule disciplined_step.command [of _ "CmdAddPeer 0 ''p'' (Some 1)" False "Ok ReplyUnit"])
      (simp_all add: run_command_def new_scheduler_def demo_ready_def init_scheduler_def)
  ultimately show ?thesis by (meson rtranclp.simps)
qed
lemma demo_busy_run: "disciplined_step\<^sup>*\<^sup>* (new_scheduler None) demo_busy"
proof -
  have "disciplined_step demo_ready demo_busy"
    by (rule disciplined_step.command [of _ "CmdNext [] [''p''] 100 5" False])
      (simp_all add: run_command_def demo_next hm_order_def)
  with demo_ready_run show ?thesis by (rule rtranclp.rtrancl_into_rtrancl)
qed
lemma map_of_requests_mem:
  "map_of (map (\<lambda>r. (cr_chunk_index r, r)) new) i = Some r \<Longrightarrow> r \<in> set new"
  by (drule map_of_SomeD) auto

lemma disciplined_is_step: "disciplined_step s t \<Longrightarrow> sched_step s t"
  by (auto elim!: disciplined_stepE intro: sched_step.command)

lemma disciplined_run: "disciplined_step\<^sup>*\<^sup>* s t \<Longrightarrow> sched_step\<^sup>*\<^sup>* s t"
  by (metis disciplined_is_step mono_rtranclp)

text \<open>
  C3: In every state the scheduler reaches from \<open>ChunkScheduler::new\<close> by any sequence of commands,
  a chunk is marked \<open>REQUESTED\<close> exactly when \<open>active_requests\<close> holds a request for it, that request names
  the chunk and a known peer, and no peer has more pending requests than its \<open>max_concurrent\<close>.
\<close>

theorem sched_reachable_ledger:
  assumes "sched_step\<^sup>*\<^sup>* (new_scheduler cfg) s"
  shows "(\<forall>i r. active_requests s i = Some r \<longrightarrow>
           cr_chunk_index r = i \<and> i < length (chunk_states s) \<and> chunk_states s ! i = REQUESTED
           \<and> cr_peer_id r \<in> dom (peers s))
       \<and> (\<forall>i < length (chunk_states s). chunk_states s ! i = REQUESTED \<longrightarrow> active_requests s i \<noteq> None)
       \<and> (\<forall>k p. peers s k = Some p \<longrightarrow> pi_peer_id p = k \<and> pi_pending_requests p \<le> pi_max_concurrent p)"
  using sched.run_inv [OF assms new_scheduler_inv]
  unfolding sched_inv_def active_ok_def requested_ok_def peers_ok_def .

theorem sched_reachable_ledger_witness:
  "chunk_states demo_busy ! 0 = REQUESTED \<and> active_requests demo_busy 0 \<noteq> None
   \<and> pi_pending_requests (the (peers demo_busy ''p'')) \<le> 1"
  using sched_reachable_ledger [OF disciplined_run [OF demo_busy_run]] by simp

text \<open>
  C10: What \<open>get_next_requests\<close> hands out and what it changes, relative to the state \<open>s1\<close> in which the timeouts have been handled. The
  requests are for distinct chunks, each unrequested and under its retry limit, each from an available peer; they carry the
  time and the timeout of the configuration. Each chunk handed out becomes active with its request and \<open>REQUESTED\<close>; the active
  requests and the states of all other chunks are those of \<open>s1\<close>. The counter of every peer grows by the number of requests it was given,
  never beyond its limit, and nothing else of a peer, no retry counter and no setting changes.
\<close>

theorem get_next_requests_correct:
  assumes "sched_step\<^sup>*\<^sup>* (new_scheduler cfg) s"
    and "hm_order (active_requests s) ord" and "hm_order (peers s) pord"
    and "get_next_requests ord pord now m s = (rs, t)"
  defines "s1 \<equiv> handle_timeouts ord now s"
  shows "distinct (map cr_chunk_index rs) \<and> length rs \<le> m
       \<and> (\<forall>r \<in> set rs. requestable s1 (cr_chunk_index r) \<and> cr_chunk_index r < length (chunk_states s)
            \<and> (\<exists>p. peers s1 (cr_peer_id r) = Some p \<and> pi_available p \<and> has_capacity p)
            \<and> cr_requested_at r = now \<and> cr_timeout_ms r = chunk_timeout_ms (config s1)
            \<and> active_requests t (cr_chunk_index r) = Some r \<and> chunk_states t ! cr_chunk_index r = REQUESTED)
       \<and> length (chunk_states t) = length (chunk_states s)
       \<and> (\<forall>i. i \<notin> cr_chunk_index ` set rs \<longrightarrow> active_requests t i = active_requests s1 i \<and>
            (i < length (chunk_states s) \<longrightarrow> chunk_states t ! i = chunk_states s1 ! i))
       \<and> (\<forall>k. peers t k = map_option (\<lambda>p. p\<lparr>pi_pending_requests := pi_pending_requests p + length (filter (\<lambda>r. cr_peer_id r = k) rs)\<rparr>) (peers s1 k))
       \<and> (\<forall>r \<in> set rs. \<forall>p. peers t (cr_peer_id r) = Some p \<longrightarrow> pi_pending_requests p \<le> pi_max_concurrent p)
       \<and> retry_count t = retry_count s1 \<and> config t = config s1"
proof -
  have inv: "sched_inv s" by (rule sched.run_inv [OF assms(1) new_scheduler_inv])
  have ok: "distinct pord" using assms(3) by (simp add: hm_order_def)
  note spec = get_next_requests_spec [OF assms(4) inv ok, folded s1_def]
  note asg = spec(1) and inv_t = spec(2)
  have idx: "map cr_chunk_index rs = take (length rs) (get_chunks_to_request m s1)"
    and sts: "chunk_states t = fold (\<lambda>r sts. sts[cr_chunk_index r := REQUESTED]) rs (chunk_states s1)"
    and act: "active_requests t = active_requests s1 ++ map_of (map (\<lambda>r. (cr_chunk_index r, r)) rs)"
    and own: "list_all (\<lambda>r. cr_peer_id r \<in> set (available_peers pord s1) \<and> cr_requested_at r = now \<and> cr_timeout_ms r = chunk_timeout_ms (config s1)) rs"
    and rest: "peers t = (\<lambda>k. map_option (\<lambda>p. p\<lparr>pi_pending_requests := pi_pending_requests p + length (filter (\<lambda>r. cr_peer_id r = k) rs)\<rparr>) (peers s1 k))"
      "config t = config s1" "retry_count t = retry_count s1"
    using asg by (auto simp: assigned_def list_all_iff)
  have dis: "distinct (map cr_chunk_index rs)" by (simp only: idx distinct_take distinct_get_chunks_to_request)
  have due: "cr_chunk_index r < length (chunk_states s1)" "requestable s1 (cr_chunk_index r)" if "r \<in> set rs" for r
    using that get_chunks_to_request_props [of "cr_chunk_index r" m s1]
    by (metis idx in_set_takeD list.set_map imageI)+
  have len: "length (chunk_states s1) = length (chunk_states s)" by (simp add: s1_def)
  have cap: "pi_pending_requests p \<le> pi_max_concurrent p" if "peers t k = Some p" for k p
    using sched_invD(3) [OF inv_t] that by (auto simp: peers_ok_def)
  have other: "map_of (map (\<lambda>r. (cr_chunk_index r, r)) rs) i = None" if "i \<notin> cr_chunk_index ` set rs" for i
    using that by (auto simp: map_of_eq_None_iff)
  have per: "requestable s1 (cr_chunk_index r) \<and> cr_chunk_index r < length (chunk_states s)
      \<and> (\<exists>p. peers s1 (cr_peer_id r) = Some p \<and> pi_available p \<and> has_capacity p) \<and> cr_requested_at r = now \<and> cr_timeout_ms r = chunk_timeout_ms (config s1)
      \<and> active_requests t (cr_chunk_index r) = Some r \<and> chunk_states t ! cr_chunk_index r = REQUESTED" if "r \<in> set rs" for r
    using that due own len map_of_requests [OF dis] by (auto simp: sts act fold_requested_nth map_add_Some_iff list_all_iff available_peers_set)
  have frame: "active_requests t i = active_requests s1 i \<and> (i < length (chunk_states s) \<longrightarrow> chunk_states t ! i = chunk_states s1 ! i)"
    if "i \<notin> cr_chunk_index ` set rs" for i
    using that other len by (simp add: act map_add_def sts fold_requested_nth)
  have "length (chunk_states t) = length (chunk_states s)" by (simp add: sts len)
  moreover have "length rs \<le> m" using spec(3) by simp
  ultimately show ?thesis using dis per frame cap rest by simp
qed

theorem get_next_requests_correct_witness:
  "active_requests demo_busy 0 = Some \<lparr>cr_chunk_index = 0, cr_peer_id = ''p'', cr_requested_at = 100, cr_timeout_ms = 30000\<rparr>
   \<and> chunk_states demo_busy ! 0 = REQUESTED"
  using get_next_requests_correct [OF disciplined_run [OF demo_ready_run] _ _ demo_next]
  by (simp add: hm_order_def)

text \<open>
  \<open>get_next_requests\<close> leaves nothing undone: the number of requests is the minimum of the number of
  requestable chunks, the caller's budget and the free capacity of the available peers. In particular it returns
  a request whenever all three are positive.
\<close>

theorem get_next_requests_maximal:
  assumes "sched_step\<^sup>*\<^sup>* (new_scheduler cfg) s"
    and "hm_order (active_requests s) ord" and "hm_order (peers s) pord"
    and "get_next_requests ord pord now m s = (rs, t)"
  defines "s1 \<equiv> handle_timeouts ord now s"
  shows "length rs = min (length (filter (requestable s1) [0..<length (chunk_states s1)]))
                         (min m (total_free (peers s1) (available_peers pord s1)))"
proof -
  have inv: "sched_inv s" by (rule sched.run_inv [OF assms(1) new_scheduler_inv])
  have "distinct pord" using assms(3) by (simp add: hm_order_def)
  from get_next_requests_spec(3) [OF assms(4) inv this, folded s1_def]
  show ?thesis by (simp add: get_chunks_to_request_eq)
qed

theorem get_next_requests_maximal_witness:
  "length (fst (get_next_requests [] [''p''] 100 5 demo_ready)) = min 2 (min 5 1)"
  using get_next_requests_maximal [OF disciplined_run [OF demo_ready_run] _ _ demo_next]
  by (simp add: hm_order_def demo_next)

text \<open>
  After \<open>get_next_requests\<close> at time \<open>now\<close> no active request is older than its timeout.
\<close>

theorem no_overdue_after_next:
  assumes "sched_step\<^sup>*\<^sup>* (new_scheduler cfg) s"
    and "hm_order (active_requests s) ord" and "hm_order (peers s) pord"
    and "get_next_requests ord pord now m s = (rs, t)" and "active_requests t i = Some r"
  shows "sat_sub now (cr_requested_at r) \<le> cr_timeout_ms r"
proof -
  have inv: "sched_inv s" by (rule sched.run_inv [OF assms(1) new_scheduler_inv])
  have ok: "distinct pord" using assms(3) by (simp add: hm_order_def)
  let ?s1 = "handle_timeouts ord now s"
  from get_next_requests_spec(1) [OF assms(4) inv ok]
  have "active_requests t = active_requests ?s1 ++ map_of (map (\<lambda>r. (cr_chunk_index r, r)) rs)"
    and new: "list_all (\<lambda>r. cr_requested_at r = now) rs" by (auto simp: assigned_def list_all_iff)
  with assms(5) consider "r \<in> set rs" | "active_requests ?s1 i = Some r"
    by (auto simp: map_add_Some_iff dest: map_of_requests_mem)
  then show ?thesis
  proof cases
    case 1
    with new show ?thesis by (simp add: list_all_iff sat_sub_def)
  next
    case 2
    with assms(2) have "\<not> timed_out now r" by (simp add: handle_timeouts_active)
    then show ?thesis by (simp add: timed_out_def)
  qed
qed

theorem no_overdue_after_next_witness:
  "sat_sub 100 (cr_requested_at (the (active_requests demo_busy 0))) \<le> 30000"
  using no_overdue_after_next [OF disciplined_run [OF demo_ready_run] _ _ demo_next, of 0]
  by (simp add: hm_order_def)

text \<open>
  As long as peers are added only when unknown and the scheduler is re-initialised only when idle, the
  number of active requests of a peer is its \<open>pending_requests\<close> counter and never exceeds \<open>max_concurrent\<close>.
\<close>

theorem peer_load_capped:
  assumes "disciplined_step\<^sup>*\<^sup>* (new_scheduler cfg) s" and "peers s k = Some p"
  shows "card {i. \<exists>r. active_requests s i = Some r \<and> cr_peer_id r = k} = pi_pending_requests p
       \<and> pi_pending_requests p \<le> pi_max_concurrent p"
proof -
  from paced.run_inv [OF assms(1)] have "sched_inv s" "accounted s"
    by (simp_all add: new_scheduler_inv new_scheduler_accounted)
  from this(1) assms(2) have "pi_pending_requests p \<le> pi_max_concurrent p"
    by (rule peers_okD(2) [OF sched_invD(3)])
  moreover from \<open>accounted s\<close> assms(2) have "pi_pending_requests p = load s k" by (simp add: accounted_def)
  ultimately show ?thesis by (simp add: load_def owned_def)
qed

theorem peer_load_capped_witness:
  "card {i. \<exists>r. active_requests demo_busy i = Some r \<and> cr_peer_id r = ''p''} = 1"
  using peer_load_capped [OF demo_busy_run, of "''p''"] by simp

text \<open>
  \<open>init_scheduler\<close> clears the active requests but not the peers' \<open>pending_requests\<close>: if every peer was
  saturated when it is called, \<open>get_next_requests\<close> afterwards hands out nothing, although nothing is active.
\<close>

theorem reinit_starves:
  assumes "\<And>k p. peers s k = Some p \<Longrightarrow> pi_pending_requests p = pi_max_concurrent p"
  shows "get_next_requests [] pord now m (init_scheduler manifest s) = ([], init_scheduler manifest s)"
  using assms by (intro saturated_no_requests) (simp_all add: init_scheduler_def has_capacity_def)

theorem reinit_starves_witness:
  "get_next_requests [] [''p''] 200 5 (init_scheduler demo_manifest demo_busy) = ([], init_scheduler demo_manifest demo_busy)"
  by (rule reinit_starves) (auto split: if_splits)

text \<open>
  \<open>add_peer\<close> for a known peer resets its \<open>pending_requests\<close> while its requests stay active, so a sequence
  of commands reaches a state in which a peer has more active requests than its \<open>max_concurrent\<close>.
\<close>

theorem readd_exceeds_cap:
  "\<exists>t p. sched_step\<^sup>*\<^sup>* (new_scheduler None) t \<and> peers t ''p'' = Some p
     \<and> pi_max_concurrent p < card {i. \<exists>r. active_requests t i = Some r \<and> cr_peer_id r = ''p''}"
proof -
  define s where "s = add_peer 0 ''p'' (Some 1) demo_busy"
  obtain rs t where n: "get_next_requests [0] [''p''] 200 5 s = (rs, t)" by (cases "get_next_requests [0] [''p''] 200 5 s")
  have cfg: "config demo_busy = default_scheduler_config" "retry_count demo_busy = Map.empty"
    unfolding demo_busy_def by (simp_all add: demo_eval)
  have t: "t = snd (get_next_requests [0] [''p''] 200 5 s)" using n by simp
  have act: "active_requests t = [0 \<mapsto> \<lparr>cr_chunk_index = 0, cr_peer_id = ''p'', cr_requested_at = 100, cr_timeout_ms = 30000\<rparr>,
      1 \<mapsto> \<lparr>cr_chunk_index = 1, cr_peer_id = ''p'', cr_requested_at = 200, cr_timeout_ms = 30000\<rparr>]"
    "\<exists>p. peers t ''p'' = Some p \<and> pi_max_concurrent p = 1"
    unfolding t s_def add_peer_def by (simp_all add: demo_eval cfg timed_out_def sat_sub_def)
  have "sched_step demo_busy s"
    by (rule sched_step.command [of _ "CmdAddPeer 0 ''p'' (Some 1)" False "Ok ReplyUnit"])
      (simp_all add: run_command_def s_def)
  moreover have "sched_step s t"
    by (rule sched_step.command [of _ "CmdNext [0] [''p''] 200 5" False])
      (simp_all add: run_command_def n, simp add: s_def add_peer_def hm_order_def)
  ultimately have "sched_step\<^sup>*\<^sup>* (new_scheduler None) t"
    using disciplined_run [OF demo_busy_run] by (meson rtranclp.rtrancl_into_rtrancl)
  moreover have "{i. \<exists>r. active_requests t i = Some r \<and> cr_peer_id r = ''p''} = {0, 1}"
    by (auto simp: act split: if_splits)
  ultimately show ?thesis using act(2) by (intro exI [of _ t]) auto
qed

end
