(* ===== verification/PaymentCheckpoint.thy ===== *)
theory PaymentCheckpoint
  imports F64 Interfaces
begin

text \<open>
  Pay-as-you-download sessions: \<^verbatim>\<open>src-tauri/src/payment_checkpoint.rs\<close>. A seeder serves a file
  until the next checkpoint, pauses, and resumes when a payment is recorded; checkpoints
  grow exponentially. Every method of \<open>PaymentCheckpointService\<close> is a definition; each holds
  the per-session mutex and the write lock of \<open>sessions\<close> to its end, so it is one atomic
  step. Clock readings are arguments; an operation that fails may still change the state
  (the rate limiter), so operations return a result and the new service.

  Shown: the session invariant over every interleaving of calls, that a paused session stays
  paused until a payment is recorded, that a transaction hash is accepted at most once, the
  exponential schedule, and what the upfront mode and a failed payment really do.
\<close>

section \<open>State\<close>

datatype checkpoint_state =
    Active
  | WaitingForPayment u64 f64
  | PaymentReceived string
  | PaymentFailed string
  | Completed

record checkpoint_record =
  rec_checkpoint_mb :: u64
  rec_bytes_at_checkpoint :: u64
  rec_amount_paid :: f64
  rec_transaction_hash :: "string option"
  rec_timestamp :: u64

record payment_checkpoint =
  pc_session_id :: string
  pc_file_hash :: string
  pc_file_size :: u64
  pc_bytes_transferred :: u64
  pc_next_checkpoint_bytes :: u64
  pc_state :: checkpoint_state
  pc_last_checkpoint_mb :: u64
  pc_total_paid :: f64
  pc_seeder_address :: string
  pc_seeder_peer_id :: string
  pc_price_per_mb :: f64
  pc_payment_mode :: string
  pc_history :: "checkpoint_record list"
  pc_seen_hashes :: "string set"
  pc_recent_attempts :: "u64 list"

text \<open>A per-session mutex carries no data, so \<open>session_locks\<close> is the set of its keys.\<close>

record payment_service =
  sessions :: "string \<rightharpoonup> payment_checkpoint"
  session_locks :: "string set"

datatype payment_error =
    EmptySessionId
  | EmptyFileHash
  | ZeroFileSize
  | BadPrice
  | SessionExists string
  | SessionNotFound string
  | EmptyTransactionHash
  | BadAmount
  | RateLimited
  | DuplicateTransaction
  | InvalidState checkpoint_state

definition INITIAL_CHECKPOINT_MB :: u64 where "INITIAL_CHECKPOINT_MB = 10"
definition MIN_CHECKPOINT_MB :: u64 where "MIN_CHECKPOINT_MB = 1"
definition MB_BYTES :: u64 where "MB_BYTES = 1024 * 1024"
definition MAX_HISTORY_LEN :: usize where "MAX_HISTORY_LEN = 100"
definition RATE_LIMIT_WINDOW_SECS :: u64 where "RATE_LIMIT_WINDOW_SECS = 60"
definition MAX_PAYMENT_ATTEMPTS :: usize where "MAX_PAYMENT_ATTEMPTS = 5"

lemmas payment_consts = INITIAL_CHECKPOINT_MB_def MIN_CHECKPOINT_MB_def MB_BYTES_def
  MAX_HISTORY_LEN_def RATE_LIMIT_WINDOW_SECS_def MAX_PAYMENT_ATTEMPTS_def

section \<open>Operations\<close>

definition new_service :: payment_service where
  "new_service = \<lparr>sessions = Map.empty, session_locks = {}\<rparr>"

definition get_or_create_session_lock :: "string \<Rightarrow> payment_service \<Rightarrow> payment_service" where
  "get_or_create_session_lock sid s = s\<lparr>session_locks := insert sid (session_locks s)\<rparr>"

definition put_session :: "string \<Rightarrow> payment_checkpoint \<Rightarrow> payment_service \<Rightarrow> payment_service" where
  "put_session sid c s = s\<lparr>sessions := (sessions s)(sid \<mapsto> c)\<rparr>"

definition initial_checkpoint :: "string \<Rightarrow> u64 \<Rightarrow> u64" where
  "initial_checkpoint payment_mode file_size =
     (if payment_mode = ''upfront'' then file_size else sat_mul64 INITIAL_CHECKPOINT_MB MB_BYTES)"

definition fresh_checkpoint ::
  "string \<Rightarrow> string \<Rightarrow> u64 \<Rightarrow> string \<Rightarrow> string \<Rightarrow> f64 \<Rightarrow> string \<Rightarrow> payment_checkpoint" where
  "fresh_checkpoint sid file_hash file_size seeder_address seeder_peer_id price payment_mode =
     \<lparr>pc_session_id = sid, pc_file_hash = file_hash, pc_file_size = file_size, pc_bytes_transferred = 0,
      pc_next_checkpoint_bytes = initial_checkpoint payment_mode file_size, pc_state = Active,
      pc_last_checkpoint_mb = INITIAL_CHECKPOINT_MB, pc_total_paid = F_Fin 0,
      pc_seeder_address = seeder_address, pc_seeder_peer_id = seeder_peer_id, pc_price_per_mb = price,
      pc_payment_mode = payment_mode, pc_history = [], pc_seen_hashes = {}, pc_recent_attempts = []\<rparr>"

definition init_session ::
  "string \<Rightarrow> string \<Rightarrow> u64 \<Rightarrow> string \<Rightarrow> string \<Rightarrow> f64 \<Rightarrow> string \<Rightarrow> payment_service
     \<Rightarrow> (payment_error, unit) result \<times> payment_service" where
  "init_session sid file_hash file_size seeder_address seeder_peer_id price payment_mode s =
     (if sid = [] then (Err EmptySessionId, s)
      else if file_hash = [] then (Err EmptyFileHash, s)
      else if file_size = 0 then (Err ZeroFileSize, s)
      else if \<not> f64_is_finite price \<or> f64_lt price (F_Fin 0) then (Err BadPrice, s)
      else if sid \<in> dom (sessions s) then (Err (SessionExists sid), s)
      else (Ok (), get_or_create_session_lock sid (put_session sid
             (fresh_checkpoint sid file_hash file_size seeder_address seeder_peer_id price payment_mode) s)))"

definition amount_due :: "payment_checkpoint \<Rightarrow> f64" where
  "amount_due c = f64_mul (f64_of_u64 (pc_last_checkpoint_mb c)) (pc_price_per_mb c)"

definition progress_checkpoint :: "u64 \<Rightarrow> payment_checkpoint \<Rightarrow> payment_checkpoint" where
  "progress_checkpoint bytes c =
     (let c1 = c\<lparr>pc_bytes_transferred := bytes\<rparr>
      in if pc_next_checkpoint_bytes c1 \<le> bytes \<and> pc_state c1 = Active
         then c1\<lparr>pc_state := WaitingForPayment (pc_last_checkpoint_mb c1) (amount_due c1)\<rparr>
         else c1)"

definition update_progress ::
  "string \<Rightarrow> u64 \<Rightarrow> payment_service \<Rightarrow> (payment_error, checkpoint_state) result \<times> payment_service" where
  "update_progress sid bytes s =
     (let s1 = get_or_create_session_lock sid s
      in case sessions s1 sid of
           None \<Rightarrow> (Err (SessionNotFound sid), s1)
         | Some c \<Rightarrow> (let c1 = progress_checkpoint bytes c in (Ok (pc_state c1), put_session sid c1 s1)))"

fun paused_state :: "checkpoint_state \<Rightarrow> bool" where
  "paused_state (WaitingForPayment _ _) = True"
| "paused_state (PaymentFailed _) = True"
| "paused_state _ = False"

definition should_pause_serving :: "string \<Rightarrow> payment_service \<Rightarrow> (payment_error, bool) result" where
  "should_pause_serving sid s =
     (case sessions s sid of None \<Rightarrow> Err (SessionNotFound sid) | Some c \<Rightarrow> Ok (paused_state (pc_state c)))"

text \<open>
  The body of \<open>record_payment\<close> under the locks, on the session's entry. Each early return keeps
  what was changed before it: the pruned attempts, and from the duplicate check on also the
  attempt just logged.
\<close>

definition prune_attempts :: "u64 \<Rightarrow> payment_checkpoint \<Rightarrow> payment_checkpoint" where
  "prune_attempts now c = c\<lparr>pc_recent_attempts :=
     filter (\<lambda>ts. sat_sub now ts \<le> RATE_LIMIT_WINDOW_SECS) (pc_recent_attempts c)\<rparr>"

definition cap_history :: "checkpoint_record list \<Rightarrow> checkpoint_record list" where
  "cap_history h = (if MAX_HISTORY_LEN < length h then drop (length h - MAX_HISTORY_LEN) h else h)"

definition settle :: "u64 \<Rightarrow> string \<Rightarrow> f64 \<Rightarrow> u64 \<Rightarrow> payment_checkpoint \<Rightarrow> payment_checkpoint" where
  "settle timestamp tx amount checkpoint_mb c =
     (let c1 = c\<lparr>pc_history := cap_history (pc_history c @ [\<lparr>rec_checkpoint_mb = checkpoint_mb,
                   rec_bytes_at_checkpoint = pc_bytes_transferred c, rec_amount_paid = amount,
                   rec_transaction_hash = Some tx, rec_timestamp = timestamp\<rparr>]),
                 pc_total_paid := f64_add (pc_total_paid c) amount,
                 pc_seen_hashes := insert tx (pc_seen_hashes c)\<rparr>;
          next_mb = (if pc_payment_mode c1 = ''upfront'' then u64_max
                     else max (wmul64 checkpoint_mb 2) MIN_CHECKPOINT_MB);
          c2 = (if pc_payment_mode c1 = ''upfront'' then c1 else c1\<lparr>pc_last_checkpoint_mb := next_mb\<rparr>);
          c3 = c2\<lparr>pc_next_checkpoint_bytes := sat_add64 (pc_bytes_transferred c2) (sat_mul64 next_mb MB_BYTES)\<rparr>;
          c4 = c3\<lparr>pc_state := PaymentReceived tx\<rparr>
      in c4\<lparr>pc_state := Active\<rparr>)"

definition pay_checkpoint ::
  "u64 \<Rightarrow> u64 \<Rightarrow> string \<Rightarrow> f64 \<Rightarrow> payment_checkpoint \<Rightarrow> (payment_error, unit) result \<times> payment_checkpoint" where
  "pay_checkpoint now timestamp tx amount c =
     (let c1 = prune_attempts now c
      in if MAX_PAYMENT_ATTEMPTS \<le> length (pc_recent_attempts c1) then (Err RateLimited, c1)
         else let c2 = c1\<lparr>pc_recent_attempts := pc_recent_attempts c1 @ [now]\<rparr>
              in if tx \<in> pc_seen_hashes c2 then (Err DuplicateTransaction, c2)
                 else case pc_state c2 of
                        WaitingForPayment mb _ \<Rightarrow> (Ok (), settle timestamp tx amount mb c2)
                      | st \<Rightarrow> (Err (InvalidState st), c2))"

definition record_payment ::
  "u64 \<Rightarrow> u64 \<Rightarrow> string \<Rightarrow> string \<Rightarrow> f64 \<Rightarrow> payment_service \<Rightarrow> (payment_error, unit) result \<times> payment_service" where
  "record_payment now timestamp sid tx amount s =
     (if tx = [] then (Err EmptyTransactionHash, s)
      else if \<not> f64_is_finite amount \<or> f64_lt amount (F_Fin 0) then (Err BadAmount, s)
      else let s1 = get_or_create_session_lock sid s
           in case sessions s1 sid of
                None \<Rightarrow> (Err (SessionNotFound sid), s1)
              | Some c \<Rightarrow> (case pay_checkpoint now timestamp tx amount c of
                             (r, c1) \<Rightarrow> (r, put_session sid c1 s1)))"

definition set_session_state ::
  "string \<Rightarrow> checkpoint_state \<Rightarrow> payment_service \<Rightarrow> (payment_error, unit) result \<times> payment_service" where
  "set_session_state sid st s =
     (let s1 = get_or_create_session_lock sid s
      in case sessions s1 sid of
           None \<Rightarrow> (Err (SessionNotFound sid), s1)
         | Some c \<Rightarrow> (Ok (), put_session sid (c\<lparr>pc_state := st\<rparr>) s1))"

definition mark_payment_failed ::
  "string \<Rightarrow> string \<Rightarrow> payment_service \<Rightarrow> (payment_error, unit) result \<times> payment_service" where
  "mark_payment_failed sid reason s = set_session_state sid (PaymentFailed reason) s"

definition mark_completed :: "string \<Rightarrow> payment_service \<Rightarrow> (payment_error, unit) result \<times> payment_service" where
  "mark_completed sid s = set_session_state sid Completed s"

definition get_checkpoint_info :: "string \<Rightarrow> payment_service \<Rightarrow> (payment_error, payment_checkpoint) result" where
  "get_checkpoint_info sid s =
     (case sessions s sid of None \<Rightarrow> Err (SessionNotFound sid) | Some c \<Rightarrow> Ok c)"

definition remove_session :: "string \<Rightarrow> payment_service \<Rightarrow> (payment_error, unit) result \<times> payment_service" where
  "remove_session sid s =
     (let s1 = get_or_create_session_lock sid s
      in (Ok (), s1\<lparr>sessions := hm_remove (sessions s1) sid, session_locks := session_locks s1 - {sid}\<rparr>))"

definition get_all_sessions :: "payment_service \<Rightarrow> (string \<rightharpoonup> payment_checkpoint)" where
  "get_all_sessions s = sessions s"

definition calculate_remaining_payment :: "string \<Rightarrow> payment_service \<Rightarrow> (payment_error, f64) result" where
  "calculate_remaining_payment sid s =
     (case sessions s sid of
        None \<Rightarrow> Err (SessionNotFound sid)
      | Some c \<Rightarrow>
          (let remaining_bytes = sat_sub (pc_file_size c) (pc_bytes_transferred c);
               remaining_mb = f64_div (f64_of_u64 remaining_bytes) (f64_of_u64 (1024 * 1024))
           in Ok (f64_mul remaining_mb (pc_price_per_mb c))))"

section \<open>Calls\<close>

text \<open>One constructor per state-changing method, with its clock readings first.\<close>

datatype payment_call =
    CallInit string string u64 string string f64 string
  | CallProgress string u64
  | CallPay u64 u64 string string f64
  | CallFail string string
  | CallComplete string
  | CallRemove string

fun call_session :: "payment_call \<Rightarrow> string" where
  "call_session (CallInit sid _ _ _ _ _ _) = sid"
| "call_session (CallProgress sid _) = sid"
| "call_session (CallPay _ _ sid _ _) = sid"
| "call_session (CallFail sid _) = sid"
| "call_session (CallComplete sid) = sid"
| "call_session (CallRemove sid) = sid"

fun payment_step :: "payment_service \<Rightarrow> payment_call \<Rightarrow> payment_service" where
  "payment_step s (CallInit sid fh fs sa sp pr md) = snd (init_session sid fh fs sa sp pr md s)"
| "payment_step s (CallProgress sid b) = snd (update_progress sid b s)"
| "payment_step s (CallPay now ts sid tx a) = snd (record_payment now ts sid tx a s)"
| "payment_step s (CallFail sid r) = snd (mark_payment_failed sid r s)"
| "payment_step s (CallComplete sid) = snd (mark_completed sid s)"
| "payment_step s (CallRemove sid) = snd (remove_session sid s)"

text \<open>What a call does to the entry of its own session.\<close>

fun session_step :: "payment_checkpoint option \<Rightarrow> payment_call \<Rightarrow> payment_checkpoint option" where
  "session_step e (CallInit sid fh fs sa sp pr md) =
     (if sid = [] \<or> fh = [] \<or> fs = 0 \<or> \<not> f64_is_finite pr \<or> f64_lt pr (F_Fin 0) \<or> e \<noteq> None then e
      else Some (fresh_checkpoint sid fh fs sa sp pr md))"
| "session_step e (CallProgress _ b) = map_option (progress_checkpoint b) e"
| "session_step e (CallPay now ts _ tx a) =
     (if tx = [] \<or> \<not> f64_is_finite a \<or> f64_lt a (F_Fin 0) then e
      else map_option (\<lambda>c. snd (pay_checkpoint now ts tx a c)) e)"
| "session_step e (CallFail _ r) = map_option (\<lambda>c. c\<lparr>pc_state := PaymentFailed r\<rparr>) e"
| "session_step e (CallComplete _) = map_option (\<lambda>c. c\<lparr>pc_state := Completed\<rparr>) e"
| "session_step e (CallRemove _) = None"

lemmas service_defs = init_session_def update_progress_def record_payment_def set_session_state_def
  mark_payment_failed_def mark_completed_def remove_session_def get_or_create_session_lock_def put_session_def

lemma payment_step_sessions:
  "sessions (payment_step s c) = (sessions s)(call_session c := session_step (sessions s (call_session c)) c)"
  by (cases c) (auto simp: service_defs Let_def fun_eq_iff split: option.splits prod.splits)

interpretation pay: keyed_service payment_step call_session sessions session_step
  by unfold_locales (simp_all add: payment_step_sessions)

section \<open>The session invariant\<close>

fun waiting_ok :: "payment_checkpoint \<Rightarrow> bool" where
  "waiting_ok c = (case pc_state c of
     WaitingForPayment mb a \<Rightarrow> mb = pc_last_checkpoint_mb c \<and> a = amount_due c
   | _ \<Rightarrow> True)"

declare waiting_ok.simps [simp del]

definition history_ok :: "payment_checkpoint \<Rightarrow> bool" where
  "history_ok c \<longleftrightarrow> length (pc_history c) \<le> MAX_HISTORY_LEN
     \<and> distinct (map rec_transaction_hash (pc_history c))
     \<and> rec_transaction_hash ` set (pc_history c) \<subseteq> Some ` pc_seen_hashes c"

definition money_ok :: "payment_checkpoint \<Rightarrow> bool" where
  "money_ok c \<longleftrightarrow> f64_nonneg (pc_price_per_mb c) \<and> f64_nonneg_ext (pc_total_paid c) \<and> f64_repr (pc_total_paid c)"

definition session_ok :: "string \<Rightarrow> payment_checkpoint \<Rightarrow> bool" where
  "session_ok sid c \<longleftrightarrow> pc_session_id c = sid \<and> sid \<noteq> [] \<and> 0 < pc_file_size c
     \<and> length (pc_recent_attempts c) \<le> MAX_PAYMENT_ATTEMPTS \<and> waiting_ok c \<and> history_ok c \<and> money_ok c"

definition service_ok :: "payment_service \<Rightarrow> bool" where
  "service_ok s \<longleftrightarrow> (\<forall>sid c. sessions s sid = Some c \<longrightarrow> session_ok sid c)"

lemma cap_history_props:
  assumes "distinct (map rec_transaction_hash h)"
  shows "length (cap_history h) \<le> MAX_HISTORY_LEN" "distinct (map rec_transaction_hash (cap_history h))"
    "set (cap_history h) \<subseteq> set h"
  using assms by (auto simp: cap_history_def drop_map [symmetric] dest: in_set_dropD)

lemma settle_fields [simp]:
  "pc_state (settle ts tx a mb c) = Active"
  "pc_session_id (settle ts tx a mb c) = pc_session_id c"
  "pc_file_size (settle ts tx a mb c) = pc_file_size c"
  "pc_recent_attempts (settle ts tx a mb c) = pc_recent_attempts c"
  "pc_price_per_mb (settle ts tx a mb c) = pc_price_per_mb c"
  "pc_total_paid (settle ts tx a mb c) = f64_add (pc_total_paid c) a"
  "pc_seen_hashes (settle ts tx a mb c) = insert tx (pc_seen_hashes c)"
  "pc_payment_mode (settle ts tx a mb c) = pc_payment_mode c"
  "pc_bytes_transferred (settle ts tx a mb c) = pc_bytes_transferred c"
  by (simp_all add: settle_def Let_def)

lemma settle_history:
  "pc_history (settle ts tx a mb c) = cap_history (pc_history c @ [\<lparr>rec_checkpoint_mb = mb,
     rec_bytes_at_checkpoint = pc_bytes_transferred c, rec_amount_paid = a,
     rec_transaction_hash = Some tx, rec_timestamp = ts\<rparr>])"
  by (simp add: settle_def Let_def)

lemma prune_attempts_fields [simp]:
  "pc_state (prune_attempts now c) = pc_state c"
  "pc_session_id (prune_attempts now c) = pc_session_id c"
  "pc_file_size (prune_attempts now c) = pc_file_size c"
  "pc_price_per_mb (prune_attempts now c) = pc_price_per_mb c"
  "pc_total_paid (prune_attempts now c) = pc_total_paid c"
  "pc_seen_hashes (prune_attempts now c) = pc_seen_hashes c"
  "pc_payment_mode (prune_attempts now c) = pc_payment_mode c"
  "pc_history (prune_attempts now c) = pc_history c"
  "pc_last_checkpoint_mb (prune_attempts now c) = pc_last_checkpoint_mb c"
  "pc_bytes_transferred (prune_attempts now c) = pc_bytes_transferred c"
  "pc_next_checkpoint_bytes (prune_attempts now c) = pc_next_checkpoint_bytes c"
  by (simp_all add: prune_attempts_def)

text \<open>The outcomes of \<open>pay_checkpoint\<close>: refused with only the attempt log changed, or settled.\<close>

definition logged :: "u64 \<Rightarrow> payment_checkpoint \<Rightarrow> payment_checkpoint" where
  "logged now c = (prune_attempts now c)\<lparr>pc_recent_attempts := pc_recent_attempts (prune_attempts now c) @ [now]\<rparr>"

lemma pay_checkpoint_cases:
  obtains (limited) "pay_checkpoint now ts tx a c = (Err RateLimited, prune_attempts now c)"
      "MAX_PAYMENT_ATTEMPTS \<le> length (pc_recent_attempts (prune_attempts now c))"
  | (refused) e where "pay_checkpoint now ts tx a c = (Err e, logged now c)"
      "length (pc_recent_attempts (prune_attempts now c)) < MAX_PAYMENT_ATTEMPTS"
      "tx \<in> pc_seen_hashes c \<or> (\<forall>mb d. pc_state c \<noteq> WaitingForPayment mb d)"
  | (settled) mb d where "pay_checkpoint now ts tx a c = (Ok (), settle ts tx a mb (logged now c))"
      "length (pc_recent_attempts (prune_attempts now c)) < MAX_PAYMENT_ATTEMPTS"
      "tx \<notin> pc_seen_hashes c" "pc_state c = WaitingForPayment mb d"
proof (cases "MAX_PAYMENT_ATTEMPTS \<le> length (pc_recent_attempts (prune_attempts now c))")
  case True
  then show thesis by (intro limited) (simp_all add: pay_checkpoint_def Let_def)
next
  case lt: False
  show thesis
  proof (cases "tx \<in> pc_seen_hashes c")
    case True
    with lt show thesis
      by (intro refused [of DuplicateTransaction]) (simp_all add: pay_checkpoint_def Let_def logged_def)
  next
    case fresh: False
    show thesis
    proof (cases "pc_state c")
      case (WaitingForPayment mb d)
      with lt fresh show thesis
        by (intro settled [of mb d]) (simp_all add: pay_checkpoint_def Let_def logged_def)
    qed (use lt fresh in \<open>auto intro!: refused [of "InvalidState (pc_state c)"]
        simp: pay_checkpoint_def Let_def logged_def\<close>)
  qed
qed

lemma logged_fields [simp]:
  "pc_state (logged now c) = pc_state c"
  "pc_session_id (logged now c) = pc_session_id c"
  "pc_file_size (logged now c) = pc_file_size c"
  "pc_price_per_mb (logged now c) = pc_price_per_mb c"
  "pc_total_paid (logged now c) = pc_total_paid c"
  "pc_seen_hashes (logged now c) = pc_seen_hashes c"
  "pc_payment_mode (logged now c) = pc_payment_mode c"
  "pc_history (logged now c) = pc_history c"
  "pc_last_checkpoint_mb (logged now c) = pc_last_checkpoint_mb c"
  "pc_bytes_transferred (logged now c) = pc_bytes_transferred c"
  "pc_next_checkpoint_bytes (logged now c) = pc_next_checkpoint_bytes c"
  by (simp_all add: logged_def)

lemma prune_attempts_length: "length (pc_recent_attempts (prune_attempts now c)) \<le> length (pc_recent_attempts c)"
  by (simp add: prune_attempts_def)

lemma settle_ok:
  assumes "session_ok sid c" and "tx \<notin> pc_seen_hashes c" and "f64_nonneg a"
  shows "history_ok (settle ts tx a mb c)" "money_ok (settle ts tx a mb c)"
proof -
  from assms(1) have h: "history_ok c" and m: "money_ok c" by (simp_all add: session_ok_def)
  let ?h = "pc_history c @ [\<lparr>rec_checkpoint_mb = mb, rec_bytes_at_checkpoint = pc_bytes_transferred c,
    rec_amount_paid = a, rec_transaction_hash = Some tx, rec_timestamp = ts\<rparr>]"
  have dis: "distinct (map rec_transaction_hash ?h)"
    using h assms(2) by (auto simp: history_ok_def)
  have "rec_transaction_hash ` set (cap_history ?h) \<subseteq> rec_transaction_hash ` set ?h"
    by (intro image_mono cap_history_props(3) dis)
  also have "\<dots> \<subseteq> Some ` insert tx (pc_seen_hashes c)" using h by (auto simp: history_ok_def)
  finally show "history_ok (settle ts tx a mb c)"
    using cap_history_props(1,2) [OF dis] by (simp add: history_ok_def settle_history)
  show "money_ok (settle ts tx a mb c)"
    using m assms(3) by (simp add: money_ok_def f64_add_nonneg f64_nonneg_ext_def [of a])
qed

lemma pay_checkpoint_ok:
  assumes "session_ok sid c" and "f64_nonneg a"
  shows "session_ok sid (snd (pay_checkpoint now ts tx a c))"
proof -
  have pr: "session_ok sid (prune_attempts now c)"
    using assms(1) prune_attempts_length [of now c]
    by (auto simp: session_ok_def waiting_ok.simps history_ok_def money_ok_def amount_due_def
        split: checkpoint_state.splits)
  have lg: "session_ok sid (logged now c)"
    if "length (pc_recent_attempts (prune_attempts now c)) < MAX_PAYMENT_ATTEMPTS"
    using pr that by (auto simp: session_ok_def waiting_ok.simps history_ok_def money_ok_def amount_due_def
        logged_def split: checkpoint_state.splits)
  show ?thesis
  proof (cases rule: pay_checkpoint_cases [of now ts tx a c])
    case limited
    with pr show ?thesis by simp
  next
    case (refused e)
    with lg show ?thesis by simp
  next
    case (settled mb d)
    with lg settle_ok [of sid "logged now c" tx a ts mb] assms(2) show ?thesis
      by (simp add: session_ok_def waiting_ok.simps)
  qed
qed

lemma progress_checkpoint_ok: "session_ok sid c \<Longrightarrow> session_ok sid (progress_checkpoint b c)"
  by (auto simp: session_ok_def progress_checkpoint_def waiting_ok.simps history_ok_def money_ok_def amount_due_def
      Let_def split: checkpoint_state.splits)

lemma set_state_ok:
  "session_ok sid c \<Longrightarrow> \<forall>mb a. st \<noteq> WaitingForPayment mb a \<Longrightarrow> session_ok sid (c\<lparr>pc_state := st\<rparr>)"
  by (auto simp: session_ok_def waiting_ok.simps history_ok_def money_ok_def split: checkpoint_state.splits)

lemma fresh_checkpoint_ok:
  "sid \<noteq> [] \<Longrightarrow> fs \<noteq> 0 \<Longrightarrow> f64_nonneg pr \<Longrightarrow> session_ok sid (fresh_checkpoint sid fh fs sa sp pr md)"
  by (simp add: session_ok_def fresh_checkpoint_def waiting_ok.simps history_ok_def money_ok_def
      f64_nonneg_ext_def)

lemma session_step_ok:
  assumes "\<And>c. e = Some c \<Longrightarrow> session_ok (call_session x) c" and "session_step e x = Some d"
  shows "session_ok (call_session x) d"
  using assms
  by (cases x) (auto simp: f64_nonneg_def split: if_splits
      intro: fresh_checkpoint_ok progress_checkpoint_ok pay_checkpoint_ok set_state_ok)

lemma payment_step_ok: "service_ok s \<Longrightarrow> service_ok (payment_step s x)"
  using session_step_ok [of "sessions s (call_session x)" x]
  by (auto simp: service_ok_def payment_step_sessions)

text \<open>Calls other than \<open>remove_session\<close>: the entry survives, hashes and total paid only grow.\<close>

fun removes :: "payment_call \<Rightarrow> bool" where
  "removes (CallRemove _) = True"
| "removes _ = False"

definition payment_run :: "payment_service \<Rightarrow> payment_service \<Rightarrow> bool" where
  "payment_run s t \<longleftrightarrow> (\<exists>x. t = payment_step s x)"

definition keeping_step :: "payment_service \<Rightarrow> payment_service \<Rightarrow> bool" where
  "keeping_step s t \<longleftrightarrow> (\<exists>x. \<not> removes x \<and> t = payment_step s x)"

definition ledger_grows :: "payment_service \<Rightarrow> payment_service \<Rightarrow> bool" where
  "ledger_grows s t \<longleftrightarrow> (\<forall>sid c. sessions s sid = Some c \<longrightarrow> (\<exists>d. sessions t sid = Some d
     \<and> pc_seen_hashes c \<subseteq> pc_seen_hashes d \<and> f64_le (pc_total_paid c) (pc_total_paid d)))"

lemma f64_le_refl: "f64_nonneg_ext a \<Longrightarrow> f64_le a a"
  by (cases a) (auto simp: f64_nonneg_ext_def f64_nonneg_def f64_le_def)

lemma f64_le_trans: "f64_le a b \<Longrightarrow> f64_le b c \<Longrightarrow> f64_le a c"
  by (cases a; cases b; cases c) (auto simp: f64_le_def)

lemma session_step_grows:
  assumes "session_ok sid c" and "\<not> removes x"
  shows "\<exists>d. session_step (Some c) x = Some d \<and> pc_seen_hashes c \<subseteq> pc_seen_hashes d
    \<and> f64_le (pc_total_paid c) (pc_total_paid d)"
proof -
  have m: "f64_nonneg_ext (pc_total_paid c)" "f64_repr (pc_total_paid c)"
    using assms(1) by (simp_all add: session_ok_def money_ok_def)
  show ?thesis
  proof (cases x)
    case (CallPay now ts k tx a)
    show ?thesis
    proof (cases "tx = [] \<or> \<not> f64_nonneg a")
      case True
      with CallPay m f64_le_refl show ?thesis by (auto simp: f64_nonneg_def)
    next
      case False
      then have nn: "tx \<noteq> []" "f64_nonneg a" by auto
      with CallPay have st: "session_step (Some c) x = Some (snd (pay_checkpoint now ts tx a c))"
        by (simp add: f64_nonneg_def)
      show ?thesis
        by (cases rule: pay_checkpoint_cases [of now ts tx a c])
          (use st m nn f64_le_refl f64_add_increases in auto)
    qed
  qed (use assms(2) m f64_le_refl in \<open>auto simp: progress_checkpoint_def Let_def\<close>)
qed

interpretation pay_inv: invariant_machine payment_run service_ok
  by unfold_locales (auto simp: payment_run_def intro: payment_step_ok)

interpretation pay_mono: progress_machine keeping_step service_ok
  "\<lambda>s t. service_ok s \<longrightarrow> ledger_grows s t \<and> service_ok t"
proof
  show "keeping_step s t \<Longrightarrow> service_ok s \<Longrightarrow> service_ok t" for s t
    by (auto simp: keeping_step_def intro: payment_step_ok)
  show "service_ok s \<longrightarrow> ledger_grows s s \<and> service_ok s" for s
    by (auto simp: ledger_grows_def service_ok_def session_ok_def money_ok_def intro: f64_le_refl)
  show "service_ok s \<longrightarrow> ledger_grows s u \<and> service_ok u"
    if "service_ok s \<longrightarrow> ledger_grows s t \<and> service_ok t" "service_ok t \<longrightarrow> ledger_grows t u \<and> service_ok u" for s t u
    using that unfolding ledger_grows_def by (meson f64_le_trans subset_trans)
  show "service_ok s \<longrightarrow> ledger_grows s t \<and> service_ok t" if step: "keeping_step s t" and ok: "service_ok s" for s t
  proof -
    from step obtain x where x: "\<not> removes x" "t = payment_step s x" by (auto simp: keeping_step_def)
    have "\<exists>d. sessions t sid = Some d \<and> pc_seen_hashes c \<subseteq> pc_seen_hashes d
        \<and> f64_le (pc_total_paid c) (pc_total_paid d)" if c: "sessions s sid = Some c" for sid c
    proof (cases "sid = call_session x")
      case True
      from ok c have "session_ok sid c" by (simp add: service_ok_def)
      from session_step_grows [OF this x(1)] True c show ?thesis by (simp add: x(2) payment_step_sessions)
    next
      case False
      with c ok show ?thesis
        by (auto simp: x(2) payment_step_sessions service_ok_def session_ok_def money_ok_def intro: f64_le_refl)
    qed
    then show ?thesis using ok by (simp add: ledger_grows_def x(2) payment_step_ok)
  qed
qed

lemma new_service_ok: "service_ok new_service"
  by (simp add: service_ok_def new_service_def)

lemma record_payment_sessions:
  "tx \<noteq> [] \<Longrightarrow> f64_nonneg a \<Longrightarrow> sessions s sid = Some c \<Longrightarrow>
   record_payment now ts sid tx a s = (fst (pay_checkpoint now ts tx a c),
     put_session sid (snd (pay_checkpoint now ts tx a c)) (get_or_create_session_lock sid s))"
  by (auto simp: record_payment_def get_or_create_session_lock_def f64_nonneg_def Let_def split: prod.splits)

lemma foldl_keeping: "list_all (\<lambda>x. \<not> removes x) xs \<Longrightarrow> keeping_step\<^sup>*\<^sup>* s (foldl payment_step s xs)"
proof (induction xs arbitrary: s)
  case (Cons x xs)
  then have "keeping_step s (payment_step s x)" by (auto simp: keeping_step_def)
  with Cons show ?case by (auto intro: converse_rtranclp_into_rtranclp)
qed simp

lemma foldl_run: "payment_run\<^sup>*\<^sup>* s (foldl payment_step s xs)"
proof (induction xs arbitrary: s)
  case (Cons x xs)
  have "payment_run s (payment_step s x)" by (auto simp: payment_run_def)
  with Cons show ?case by (auto intro: converse_rtranclp_into_rtranclp)
qed simp

text \<open>A predicate on the entry that every call for the session keeps holds after any interleaving.\<close>

lemma entry_pred_kept:
  assumes "sessions s sid = Some c" and "P c"
    and "\<And>x c. x \<in> set xs \<Longrightarrow> call_session x = sid \<Longrightarrow> P c \<Longrightarrow> \<exists>d. session_step (Some c) x = Some d \<and> P d"
  shows "\<exists>d. sessions (foldl payment_step s xs) sid = Some d \<and> P d"
proof -
  have "\<exists>d. foldl session_step (Some c) ys = Some d \<and> P d"
    if "set ys \<subseteq> {x \<in> set xs. call_session x = sid}" "P c" for ys c
    using that
  proof (induction ys arbitrary: c)
    case (Cons y ys)
    then obtain d where "session_step (Some c) y = Some d" "P d" using assms(3) [of y c] by auto
    with Cons show ?case by auto
  qed simp
  from this [of "filter (\<lambda>x. call_session x = sid) xs" c] assms(1,2) show ?thesis
    by (simp add: pay.run_local)
qed


lemma pay_success_seen:
  assumes "fst (record_payment now ts sid tx a s) = Ok ()"
  shows "\<exists>c. sessions (snd (record_payment now ts sid tx a s)) sid = Some c \<and> tx \<in> pc_seen_hashes c"
proof -
  from assms obtain c where c: "sessions s sid = Some c" and nn: "tx \<noteq> []" "f64_nonneg a"
    by (auto simp: record_payment_def get_or_create_session_lock_def f64_nonneg_def Let_def
        split: if_splits option.splits)
  show ?thesis
    by (cases rule: pay_checkpoint_cases [of now ts tx a c])
      (use assms record_payment_sessions [OF nn c, of now ts] in \<open>auto simp: put_session_def\<close>)
qed

lemma pay_seen_fails:
  assumes "sessions s sid = Some c" and "tx \<in> pc_seen_hashes c"
  shows "fst (record_payment now ts sid tx a s) \<noteq> Ok ()"
proof (cases "tx \<noteq> [] \<and> f64_nonneg a")
  case True
  then show ?thesis
    by (cases rule: pay_checkpoint_cases [of now ts tx a c])
      (use assms record_payment_sessions [of tx a s sid c now ts] in auto)
next
  case False
  then show ?thesis by (auto simp: record_payment_def f64_nonneg_def)
qed

section \<open>Properties\<close>

text \<open>A session over a 100 MB file at price 2 per MB, driven to its first checkpoint.\<close>

definition demo_init :: payment_call where
  "demo_init = CallInit ''s'' ''h'' (100 * MB_BYTES) ''0x1'' ''peer'' (F_Fin 2) ''exponential''"

definition demo_waiting :: payment_service where
  "demo_waiting = foldl payment_step new_service [demo_init, CallProgress ''s'' (10 * MB_BYTES)]"

lemmas pay_demo_eval = service_defs demo_init_def new_service_def fresh_checkpoint_def initial_checkpoint_def
  payment_consts progress_checkpoint_def sat_mul64_def u64_max_def Let_def

lemma demo_waiting_entry:
  "\<exists>c. sessions demo_waiting ''s'' = Some c \<and> pc_state c = WaitingForPayment 10 (amount_due c)
     \<and> pc_seen_hashes c = {} \<and> pc_recent_attempts c = []"
  by (simp add: demo_waiting_def payment_step_sessions pay_demo_eval amount_due_def)



fun may_resume :: "payment_call \<Rightarrow> bool" where
  "may_resume (CallPay _ _ _ _ _) = True"
| "may_resume (CallComplete _) = True"
| "may_resume (CallRemove _) = True"
| "may_resume _ = False"

lemma paused_session_step:
  "\<not> may_resume x \<Longrightarrow> paused_state (pc_state c) \<Longrightarrow>
   \<exists>d. session_step (Some c) x = Some d \<and> paused_state (pc_state d)"
  by (cases x) (auto simp: progress_checkpoint_def Let_def)

text \<open>
  A session whose serving is paused stays paused under any interleaving of calls on all sessions, as long as the
  calls for this session contain no payment, completion or removal. Progress reports cannot lift the pause.
\<close>

theorem paused_until_paid:
  assumes "should_pause_serving sid s = Ok True"
    and "\<And>x. x \<in> set xs \<Longrightarrow> call_session x = sid \<Longrightarrow> \<not> may_resume x"
  shows "should_pause_serving sid (foldl payment_step s xs) = Ok True"
proof -
  from assms(1) obtain c where c: "sessions s sid = Some c" "paused_state (pc_state c)"
    by (auto simp: should_pause_serving_def split: option.splits)
  have "\<exists>d. sessions (foldl payment_step s xs) sid = Some d \<and> paused_state (pc_state d)"
  proof (rule entry_pred_kept [where P = "\<lambda>c. paused_state (pc_state c)", OF c])
    fix x and c :: payment_checkpoint
    assume "x \<in> set xs" "call_session x = sid" "paused_state (pc_state c)"
    with assms(2) show "\<exists>d. session_step (Some c) x = Some d \<and> paused_state (pc_state d)"
      by (intro paused_session_step) auto
  qed
  then show ?thesis by (auto simp: should_pause_serving_def)
qed

theorem paused_until_paid_witness:
  "should_pause_serving ''s'' (foldl payment_step demo_waiting
     [CallProgress ''s'' (90 * MB_BYTES), CallPay 1 1 ''other'' ''tx'' (F_Fin 1)]) = Ok True"
proof (rule paused_until_paid)
  show "should_pause_serving ''s'' demo_waiting = Ok True"
    using demo_waiting_entry by (auto simp: should_pause_serving_def)
qed auto

text \<open>
  \<open>record_payment\<close> succeeds exactly when the hash is not empty and was not seen, the amount is finite and not negative,
  the session waits for payment and fewer than 5 attempts lie in the last 60 seconds; then the entry is settled and no
  other session changes. The amount due plays no part in the condition.
\<close>

theorem record_payment_ok_iff:
  "fst (record_payment now ts sid tx a s) = Ok () \<longleftrightarrow>
     tx \<noteq> [] \<and> f64_nonneg a \<and> (\<exists>c mb d. sessions s sid = Some c \<and> pc_state c = WaitingForPayment mb d
       \<and> tx \<notin> pc_seen_hashes c \<and> length (filter (\<lambda>t. now - t \<le> 60) (pc_recent_attempts c)) < 5
       \<and> sessions (snd (record_payment now ts sid tx a s)) =
           (sessions s)(sid \<mapsto> settle ts tx a mb (logged now c)))"
  (is "?l = ?r")
proof
  assume l: ?l
  then obtain c where c: "sessions s sid = Some c" and nn: "tx \<noteq> []" "f64_nonneg a"
    by (auto simp: record_payment_def get_or_create_session_lock_def f64_nonneg_def Let_def
        split: if_splits option.splits)
  note rp = record_payment_sessions [OF nn c, of now ts]
  show ?r
  proof (cases rule: pay_checkpoint_cases [of now ts tx a c])
    case (settled mb d)
    then show ?thesis
      using rp nn c by (auto simp: put_session_def get_or_create_session_lock_def prune_attempts_def
          payment_consts sat_sub_def)
  qed (use l rp in auto)
next
  assume ?r
  then obtain c mb d where c: "sessions s sid = Some c" "pc_state c = WaitingForPayment mb d"
    "tx \<notin> pc_seen_hashes c" "length (filter (\<lambda>t. now - t \<le> 60) (pc_recent_attempts c)) < 5"
    and nn: "tx \<noteq> []" "f64_nonneg a" by blast
  note rp = record_payment_sessions [OF nn c(1), of now ts]
  show ?l
    by (cases rule: pay_checkpoint_cases [of now ts tx a c])
      (use rp c in \<open>auto simp: prune_attempts_def payment_consts sat_sub_def\<close>)
qed

text \<open>
  C6: Replay protection: once a transaction hash was accepted for a session, no later payment with that hash is accepted
  for it, whatever calls (other than removing a session) come in between.
\<close>

theorem transaction_accepted_once:
  assumes "s = foldl payment_step new_service ys" and "fst (record_payment now ts sid tx a s) = Ok ()"
    and "list_all (\<lambda>x. \<not> removes x) xs"
  shows "fst (record_payment now' ts' sid tx a' (foldl payment_step (snd (record_payment now ts sid tx a s)) xs)) \<noteq> Ok ()"
proof -
  let ?s1 = "snd (record_payment now ts sid tx a s)"
  have "service_ok (foldl payment_step new_service (ys @ [CallPay now ts sid tx a]))"
    by (rule pay_inv.run_inv [OF foldl_run new_service_ok])
  then have ok1: "service_ok ?s1" by (simp add: assms(1))
  obtain c where "sessions ?s1 sid = Some c" "tx \<in> pc_seen_hashes c"
    using pay_success_seen [OF assms(2)] by blast
  with pay_mono.run_advances [OF foldl_keeping [OF assms(3)] ok1] ok1
  obtain d where "sessions (foldl payment_step ?s1 xs) sid = Some d" "tx \<in> pc_seen_hashes d"
    unfolding ledger_grows_def by blast
  then show ?thesis by (rule pay_seen_fails)
qed

lemma demo_pay: "fst (record_payment 5 5 ''s'' ''tx'' (F_Fin 20) demo_waiting) = Ok ()"
proof -
  obtain c where c: "sessions demo_waiting ''s'' = Some c" "pc_state c = WaitingForPayment 10 (amount_due c)"
    "pc_seen_hashes c = {}" "pc_recent_attempts c = []" using demo_waiting_entry by blast
  show ?thesis
    by (cases rule: pay_checkpoint_cases [of 5 5 "''tx''" "F_Fin 20" c])
      (use c record_payment_sessions [of "''tx''" "F_Fin 20" demo_waiting "''s''" c 5 5]
        in \<open>auto simp: prune_attempts_def payment_consts\<close>)
qed

theorem transaction_accepted_once_witness:
  "fst (record_payment 500 500 ''s'' ''tx'' (F_Fin 20) (foldl payment_step
     (snd (record_payment 5 5 ''s'' ''tx'' (F_Fin 20) demo_waiting)) [CallProgress ''s'' (30 * MB_BYTES)])) \<noteq> Ok ()"
  using transaction_accepted_once [OF demo_waiting_def demo_pay, of "[CallProgress ''s'' (30 * MB_BYTES)]" 500 500 "F_Fin 20"]
  by simp

text \<open>The exponential schedule.\<close>

definition checkpoint_at :: "nat \<Rightarrow> u64" where
  "checkpoint_at i = 10 * (2 ^ Suc i - 1) * MB_BYTES"

fun schedule_calls :: "(nat \<Rightarrow> u64) \<Rightarrow> (nat \<Rightarrow> string) \<Rightarrow> (nat \<Rightarrow> f64) \<Rightarrow> string \<Rightarrow> nat \<Rightarrow> payment_call list" where
  "schedule_calls clk tx a sid 0 = []"
| "schedule_calls clk tx a sid (Suc n) = schedule_calls clk tx a sid n
     @ [CallProgress sid (checkpoint_at n), CallPay (clk n) (clk n) sid (tx n) (a n)]"

definition scheduled :: "(nat \<Rightarrow> u64) \<Rightarrow> (nat \<Rightarrow> string) \<Rightarrow> nat \<Rightarrow> payment_checkpoint \<Rightarrow> bool" where
  "scheduled clk tx n c \<longleftrightarrow> pc_state c = Active \<and> pc_payment_mode c \<noteq> ''upfront''
     \<and> pc_last_checkpoint_mb c = 10 * 2 ^ n \<and> pc_next_checkpoint_bytes c = checkpoint_at n
     \<and> pc_seen_hashes c = tx ` {..<n} \<and> pc_recent_attempts c = (if n = 0 then [] else [clk (n - 1)])"

lemma checkpoint_at_Suc: "checkpoint_at n + 10 * 2 ^ Suc n * MB_BYTES = checkpoint_at (Suc n)"
proof -
  have "(1::nat) \<le> 2 ^ Suc n" by simp
  then have "10 * (2 ^ Suc n - 1) + 10 * 2 ^ Suc n = 10 * (2 ^ Suc (Suc n) - (1::nat))" by simp
  then show ?thesis by (simp only: checkpoint_at_def distrib_right [symmetric])
qed

lemma schedule_bounds:
  assumes "n \<le> 38"
  shows "10 * 2 ^ Suc n * MB_BYTES \<le> u64_max" "checkpoint_at (Suc n) \<le> u64_max" "10 * 2 ^ Suc n < (2::nat) ^ 64"
proof -
  have e: "(2::nat) ^ Suc n \<le> 2 ^ 39" "(2::nat) ^ Suc (Suc n) \<le> 2 ^ 40"
    using assms by (intro power_increasing; simp)+
  from e(1) show "10 * 2 ^ Suc n * MB_BYTES \<le> u64_max" "10 * 2 ^ Suc n < (2::nat) ^ 64"
    by (simp_all add: MB_BYTES_def u64_max_def)
  have "checkpoint_at (Suc n) \<le> 10 * 2 ^ Suc (Suc n) * MB_BYTES"
    unfolding checkpoint_at_def by (intro mult_le_mono1 mult_le_mono2) simp
  also have "\<dots> \<le> u64_max" using e(2) by (simp add: MB_BYTES_def u64_max_def)
  finally show "checkpoint_at (Suc n) \<le> u64_max" .
qed

lemma scheduled_step:
  assumes "scheduled clk tx n c" and "n \<le> 38" and "tx n \<notin> tx ` {..<n}" and "tx n \<noteq> []" and "f64_nonneg (a n)"
    and "0 < n \<Longrightarrow> clk (n - 1) + 60 < clk n"
  shows "\<exists>d. foldl session_step (Some c) [CallProgress sid (checkpoint_at n), CallPay (clk n) (clk n) sid (tx n) (a n)] = Some d
    \<and> scheduled clk tx (Suc n) d"
proof -
  let ?c1 = "progress_checkpoint (checkpoint_at n) c"
  have c1: "pc_state ?c1 = WaitingForPayment (10 * 2 ^ n) (amount_due c)" "pc_seen_hashes ?c1 = tx ` {..<n}"
    "pc_payment_mode ?c1 \<noteq> ''upfront''" "pc_bytes_transferred ?c1 = checkpoint_at n"
    using assms(1) by (simp_all add: scheduled_def progress_checkpoint_def Let_def amount_due_def)
  have pr: "pc_recent_attempts (prune_attempts (clk n) ?c1) = []"
    using assms(1,6) by (auto simp: prune_attempts_def scheduled_def progress_checkpoint_def Let_def
        payment_consts sat_sub_def)
  have pay: "pay_checkpoint (clk n) (clk n) (tx n) (a n) ?c1
      = (Ok (), settle (clk n) (tx n) (a n) (10 * 2 ^ n) (logged (clk n) ?c1))"
    by (cases rule: pay_checkpoint_cases [of "clk n" "clk n" "tx n" "a n" ?c1])
      (use c1 pr assms(3) in \<open>auto simp: payment_consts\<close>)
  let ?d = "settle (clk n) (tx n) (a n) (10 * 2 ^ n) (logged (clk n) ?c1)"
  have "wmul64 (10 * 2 ^ n) 2 = 10 * 2 ^ Suc n"
    using schedule_bounds(3) [OF assms(2)] by (simp add: wmul64_def)
  moreover have "max (10 * 2 ^ Suc n) MIN_CHECKPOINT_MB = 10 * 2 ^ Suc n"
    by (simp add: MIN_CHECKPOINT_MB_def max_absorb1 Suc_leI)
  ultimately have "pc_last_checkpoint_mb ?d = 10 * 2 ^ Suc n"
    "pc_next_checkpoint_bytes ?d = sat_add64 (checkpoint_at n) (sat_mul64 (10 * 2 ^ Suc n) MB_BYTES)"
    using c1 by (simp_all add: settle_def Let_def)
  moreover have "sat_add64 (checkpoint_at n) (sat_mul64 (10 * 2 ^ Suc n) MB_BYTES) = checkpoint_at (Suc n)"
    using schedule_bounds(1,2) [OF assms(2)] checkpoint_at_Suc [of n] by (simp add: sat_add64_def sat_mul64_def)
  ultimately have "scheduled clk tx (Suc n) ?d"
    using c1 pr by (simp add: scheduled_def logged_def lessThan_Suc)
  moreover have "foldl session_step (Some c) [CallProgress sid (checkpoint_at n), CallPay (clk n) (clk n) sid (tx n) (a n)]
      = Some ?d" using pay assms(4,5) by (simp add: f64_nonneg_def)
  ultimately show ?thesis by blast
qed

text \<open>
  The schedule outside the upfront mode: after \<open>n\<close> checkpoints reached exactly and paid (with fresh hashes, more
  than a minute apart), the session is active, the next step is \<open>10 * 2 ^ n\<close> MB and the next checkpoint lies at
  \<open>10 * (2 ^ (n + 1) - 1)\<close> MB, for every \<open>n\<close> up to 39, beyond which the byte count leaves 64 bits.
\<close>

theorem exponential_schedule:
  assumes "init_session sid fh fs sa sp pr md s = (Ok (), s0)" and "md \<noteq> ''upfront''" and "n \<le> 39"
    and "inj tx" and "\<And>i. tx i \<noteq> []" and "\<And>i. f64_nonneg (a i)" and "\<And>i. clk i + 60 < clk (Suc i)"
  shows "\<exists>c. sessions (foldl payment_step s0 (schedule_calls clk tx a sid n)) sid = Some c
     \<and> pc_state c = Active \<and> pc_last_checkpoint_mb c = 10 * 2 ^ n
     \<and> pc_next_checkpoint_bytes c = 10 * (2 ^ Suc n - 1) * MB_BYTES"
proof -
  have s0: "\<exists>c. sessions s0 sid = Some c \<and> scheduled clk tx 0 c"
    using assms(1,2) by (auto simp: service_defs fresh_checkpoint_def scheduled_def initial_checkpoint_def
        checkpoint_at_def payment_consts sat_mul64_def u64_max_def split: if_splits)
  have "\<exists>c. sessions (foldl payment_step s0 (schedule_calls clk tx a sid n)) sid = Some c \<and> scheduled clk tx n c"
    using assms(3)
  proof (induction n)
    case (Suc n)
    then obtain c where c: "sessions (foldl payment_step s0 (schedule_calls clk tx a sid n)) sid = Some c"
      "scheduled clk tx n c" by auto
    have "clk (n - 1) + 60 < clk n" if "0 < n" using assms(7) [of "n - 1"] that by simp
    moreover have "tx n \<notin> tx ` {..<n}" using assms(4) by (auto dest: injD)
    ultimately have "\<exists>d. foldl session_step (Some c) [CallProgress sid (checkpoint_at n), CallPay (clk n) (clk n) sid (tx n) (a n)] = Some d
        \<and> scheduled clk tx (Suc n) d" using Suc.prems assms(5,6) by (intro scheduled_step [OF c(2)]) auto
    then show ?case using c(1) by (simp add: payment_step_sessions del: payment_step.simps)
  qed (simp add: s0)
  then show ?thesis by (auto simp: scheduled_def checkpoint_at_def)
qed

theorem exponential_schedule_witness:
  "\<exists>c. sessions (foldl payment_step (payment_step new_service demo_init)
       (schedule_calls (\<lambda>i. 100 * i) (\<lambda>i. replicate (Suc i) CHR ''x'') (\<lambda>_. F_Fin 1) ''s'' 3)) ''s'' = Some c
     \<and> pc_next_checkpoint_bytes c = 150 * MB_BYTES"
proof -
  have "init_session ''s'' ''h'' (100 * MB_BYTES) ''0x1'' ''peer'' (F_Fin 2) ''exponential'' new_service
      = (Ok (), payment_step new_service demo_init)"
    by (simp add: demo_init_def init_session_def MB_BYTES_def new_service_def)
  from exponential_schedule [OF this, of 3 "\<lambda>i. replicate (Suc i) CHR ''x''" "\<lambda>_. F_Fin 1" "\<lambda>i. 100 * i"]
  show ?thesis by (auto simp: inj_def)
qed

text \<open>
  In the upfront mode the file is served without payment until all of it was transferred, and the amount then
  requested is the price of 10 MB whatever the size of the file, although the code calls it the payment of the full file upfront.
\<close>

theorem upfront_amount:
  assumes "init_session sid fh fs sa sp pr ''upfront'' s = (Ok (), s0)"
  shows "fst (update_progress sid b s0) =
    Ok (if b < fs then Active else WaitingForPayment 10 (f64_mul (f64_of_u64 10) pr))"
  using assms
  by (auto simp: service_defs fresh_checkpoint_def initial_checkpoint_def progress_checkpoint_def
      amount_due_def payment_consts Let_def split: if_splits)

theorem upfront_amount_witness:
  "fst (update_progress ''s'' (5000 * MB_BYTES) (snd (init_session ''s'' ''h'' (5000 * MB_BYTES) ''a'' ''p'' (F_Fin 2) ''upfront'' new_service)))
     = Ok (WaitingForPayment 10 (f64_mul (f64_of_u64 10) (F_Fin 2)))"
proof -
  have "init_session ''s'' ''h'' (5000 * MB_BYTES) ''a'' ''p'' (F_Fin 2) ''upfront'' new_service
      = (Ok (), snd (init_session ''s'' ''h'' (5000 * MB_BYTES) ''a'' ''p'' (F_Fin 2) ''upfront'' new_service))"
    by (simp add: init_session_def MB_BYTES_def new_service_def)
  from upfront_amount [OF this, of "5000 * MB_BYTES"] show ?thesis by simp
qed

lemma failed_session_step:
  assumes "\<not> removes x" and "x \<noteq> CallComplete (call_session x)" and "\<exists>r. pc_state c = PaymentFailed r"
  shows "\<exists>d. session_step (Some c) x = Some d \<and> (\<exists>r. pc_state d = PaymentFailed r)"
proof (cases x)
  case (CallPay now ts k tx a)
  show ?thesis
    by (cases rule: pay_checkpoint_cases [of now ts tx a c]) (use assms CallPay in auto)
qed (use assms in \<open>auto simp: progress_checkpoint_def Let_def\<close>)

text \<open>
  A session in \<open>PaymentFailed\<close> stays there whatever payments and progress are reported: only completing or
  removing the session ends the pause.
\<close>

theorem failed_payment_is_final:
  assumes "sessions s sid = Some c" and "pc_state c = PaymentFailed r"
    and "\<And>x. x \<in> set xs \<Longrightarrow> call_session x = sid \<Longrightarrow> \<not> removes x \<and> x \<noteq> CallComplete sid"
  shows "\<exists>d r'. sessions (foldl payment_step s xs) sid = Some d \<and> pc_state d = PaymentFailed r'"
proof -
  have "\<exists>d. sessions (foldl payment_step s xs) sid = Some d \<and> (\<exists>r'. pc_state d = PaymentFailed r')"
  proof (rule entry_pred_kept [where P = "\<lambda>c. \<exists>r'. pc_state c = PaymentFailed r'", OF assms(1)])
    show "\<exists>r'. pc_state c = PaymentFailed r'" using assms(2) by blast
    fix x and c :: payment_checkpoint
    assume x: "x \<in> set xs" "call_session x = sid" "\<exists>r'. pc_state c = PaymentFailed r'"
    with assms(3) have "\<not> removes x" "x \<noteq> CallComplete sid" by auto
    with x show "\<exists>d. session_step (Some c) x = Some d \<and> (\<exists>r'. pc_state d = PaymentFailed r')"
      by (intro failed_session_step) auto
  qed
  then show ?thesis by blast
qed

theorem failed_payment_is_final_witness:
  "\<exists>d r'. sessions (foldl payment_step (snd (mark_payment_failed ''s'' ''no funds'' demo_waiting))
       [CallPay 9 9 ''s'' ''tx2'' (F_Fin 20)]) ''s'' = Some d \<and> pc_state d = PaymentFailed r'"
proof -
  obtain c where "sessions (snd (mark_payment_failed ''s'' ''no funds'' demo_waiting)) ''s'' = Some c"
    "pc_state c = PaymentFailed ''no funds''" using demo_waiting_entry by (auto simp: service_defs Let_def)
  then show ?thesis by (rule failed_payment_is_final) auto
qed

end
