(* ===== verification/Encryption.thy ===== *)
theory Encryption
  imports FileSystem
begin

text \<open>
  File encryption, the ECIES key and message bundles, and signed messages:
  \<^verbatim>\<open>src-tauri/src/encryption.rs\<close>. The ciphers, the key agreement, the key derivations, the
  signature scheme and the base64 codec are third-party crates: they are the fields of a
  record \<open>crypto\<close> that every definition takes, and \<open>crypto_ok\<close> states what their
  documentation promises. Random values (nonces, salts, ephemeral secrets) are arguments.
  A call that panics returns \<open>Panicked\<close>: \<open>Nonce::from_slice\<close> does on a slice that is not 12
  bytes long.

  Shown: decrypting an encrypted file restores it, with a random key and with a password,
  and a key with another fingerprint is refused before the output is touched; the key and
  message bundles round trip to the holder of the secret key; a signed message verifies;
  and a bundle whose nonce has the wrong length makes the decryption panic.
\<close>

section \<open>Primitives\<close>

record crypto =
  aead_encrypt :: "bytes \<Rightarrow> bytes \<Rightarrow> bytes \<Rightarrow> bytes option"
  aead_decrypt :: "bytes \<Rightarrow> bytes \<Rightarrow> bytes \<Rightarrow> bytes option"
  x25519_public :: "bytes \<Rightarrow> bytes"
  x25519_dh :: "bytes \<Rightarrow> bytes \<Rightarrow> bytes"
  hkdf_sha256 :: "bytes \<Rightarrow> bytes \<Rightarrow> bytes \<Rightarrow> bytes option"
  pbkdf2_sha256 :: "bytes \<Rightarrow> bytes \<Rightarrow> nat \<Rightarrow> bytes"
  sha256 :: "bytes \<Rightarrow> bytes"
  base64_encode :: "bytes \<Rightarrow> string"
  base64_decode :: "string \<Rightarrow> bytes option"
  ed25519_public :: "bytes \<Rightarrow> bytes"
  ed25519_sign :: "bytes \<Rightarrow> bytes \<Rightarrow> bytes"
  ed25519_key_ok :: "bytes \<Rightarrow> bool"
  ed25519_verify :: "bytes \<Rightarrow> bytes \<Rightarrow> bytes \<Rightarrow> bool"

definition crypto_ok :: "crypto \<Rightarrow> bool" where
  "crypto_ok C \<longleftrightarrow>
     (\<forall>k n m c. aead_encrypt C k n m = Some c \<longrightarrow> aead_decrypt C k n c = Some m) \<and>
     (\<forall>a b. x25519_dh C a (x25519_public C b) = x25519_dh C b (x25519_public C a)) \<and>
     (\<forall>a. length (x25519_public C a) = 32) \<and>
     (\<forall>b. base64_decode C (base64_encode C b) = Some b) \<and>
     (\<forall>k. length (ed25519_public C k) = 32 \<and> ed25519_key_ok C (ed25519_public C k)) \<and>
     (\<forall>k m. length (ed25519_sign C k m) = 64) \<and>
     (\<forall>k m. ed25519_verify C (ed25519_public C k) m (ed25519_sign C k m))"

lemma crypto_okD:
  assumes "crypto_ok C"
  shows "aead_encrypt C k n m = Some c \<Longrightarrow> aead_decrypt C k n c = Some m"
    and "x25519_dh C a (x25519_public C b) = x25519_dh C b (x25519_public C a)"
    and "length (x25519_public C a) = 32"
    and "base64_decode C (base64_encode C x) = Some x"
    and "length (ed25519_public C k) = 32" and "ed25519_key_ok C (ed25519_public C k)"
    and "length (ed25519_sign C k m) = 64"
    and "ed25519_verify C (ed25519_public C k) m (ed25519_sign C k m)"
  using assms unfolding crypto_ok_def by blast+

section \<open>Data\<close>

record encryption_info =
  ei_method :: string
  ei_key_fingerprint :: string
  ei_nonce :: bytes
  ei_salt :: bytes

record encryption_result =
  er_path :: path
  er_info :: encryption_info
  er_original_size :: u64
  er_encrypted_size :: u64

record encrypted_aes_key_bundle =
  kb_ephemeral_public_key :: string
  kb_encrypted_key :: string
  kb_nonce :: string

record encrypted_message_bundle =
  mb_ephemeral_public_key :: string
  mb_encrypted_message :: string
  mb_nonce :: string

record signed_message =
  sm_message :: string
  sm_signer_public_key :: string
  sm_signature :: string

datatype encryption_error =
    ReadFailed io_error
  | WriteFailed io_error
  | EncryptFailed
  | DecryptFailed
  | UnsupportedMethod string
  | FingerprintMismatch
  | BadNonceLength
  | TooShort
  | BadUtf8
  | BadBase64
  | BadHex
  | BadLength
  | BadPublicKey
  | HkdfFailed
  | Panicked

section \<open>Files\<close>

definition derive_key_from_password :: "crypto \<Rightarrow> string \<Rightarrow> bytes \<Rightarrow> bytes" where
  "derive_key_from_password C password salt = pbkdf2_sha256 C password salt 100000"

definition generate_key_fingerprint :: "crypto \<Rightarrow> bytes \<Rightarrow> string" where
  "generate_key_fingerprint C key = hex_encode (take 8 (sha256 C key))"

definition decrypt_string :: "crypto \<Rightarrow> string \<Rightarrow> bytes \<Rightarrow> (encryption_error, string) result" where
  "decrypt_string C encrypted_base64 key =
     rbind (ok_or BadBase64 (base64_decode C encrypted_base64)) (\<lambda>encrypted_data.
       if length encrypted_data < 12 then Err TooShort
       else rbind (ok_or DecryptFailed (aead_decrypt C key (take 12 encrypted_data) (drop 12 encrypted_data)))
         (\<lambda>plaintext. if utf8_valid plaintext then Ok plaintext else Err BadUtf8))"

definition encrypt_file ::
  "crypto \<Rightarrow> io_env \<Rightarrow> bytes \<Rightarrow> bytes \<Rightarrow> path \<Rightarrow> path \<Rightarrow> bytes \<Rightarrow> disk
     \<Rightarrow> (encryption_error, encryption_result) result \<times> disk" where
  "encrypt_file C env nonce salt input_path output_path key d =
     (case fs_read env input_path d of
        Inl e \<Rightarrow> (Err (ReadFailed e), d)
      | Inr plaintext \<Rightarrow>
          case aead_encrypt C key nonce plaintext of
            None \<Rightarrow> (Err EncryptFailed, d)
          | Some ciphertext \<Rightarrow>
              case fs_write env output_path ciphertext d of
                (Inl e, d1) \<Rightarrow> (Err (WriteFailed e), d1)
              | (Inr _, d1) \<Rightarrow>
                  (Ok \<lparr>er_path = output_path,
                       er_info = \<lparr>ei_method = ''AES-256-GCM'', ei_key_fingerprint = generate_key_fingerprint C key,
                                  ei_nonce = nonce, ei_salt = salt\<rparr>,
                       er_original_size = length plaintext, er_encrypted_size = length ciphertext\<rparr>, d1))"

definition decrypt_file ::
  "crypto \<Rightarrow> io_env \<Rightarrow> path \<Rightarrow> path \<Rightarrow> bytes \<Rightarrow> encryption_info \<Rightarrow> disk
     \<Rightarrow> (encryption_error, u64) result \<times> disk" where
  "decrypt_file C env input_path output_path key info d =
     (if ei_method info \<noteq> ''AES-256-GCM'' then (Err (UnsupportedMethod (ei_method info)), d)
      else if ei_key_fingerprint info \<noteq> generate_key_fingerprint C key then (Err FingerprintMismatch, d)
      else case fs_read env input_path d of
        Inl e \<Rightarrow> (Err (ReadFailed e), d)
      | Inr ciphertext \<Rightarrow>
          if length (ei_nonce info) \<noteq> 12 then (Err BadNonceLength, d)
          else case aead_decrypt C key (ei_nonce info) ciphertext of
            None \<Rightarrow> (Err DecryptFailed, d)
          | Some plaintext \<Rightarrow>
              case fs_write env output_path plaintext d of
                (Inl e, d1) \<Rightarrow> (Err (WriteFailed e), d1)
              | (Inr _, d1) \<Rightarrow> (Ok (length plaintext), d1))"

definition encrypt_file_with_password ::
  "crypto \<Rightarrow> io_env \<Rightarrow> bytes \<Rightarrow> bytes \<Rightarrow> bytes \<Rightarrow> path \<Rightarrow> path \<Rightarrow> string \<Rightarrow> disk
     \<Rightarrow> (encryption_error, encryption_result) result \<times> disk" where
  "encrypt_file_with_password C env salt nonce salt' input_path output_path password d =
     (case encrypt_file C env nonce salt' input_path output_path (derive_key_from_password C password salt) d of
        (Inl e, d1) \<Rightarrow> (Err e, d1)
      | (Inr r, d1) \<Rightarrow> (Ok (r\<lparr>er_info := (er_info r)\<lparr>ei_salt := salt\<rparr>\<rparr>), d1))"

definition decrypt_file_with_password ::
  "crypto \<Rightarrow> io_env \<Rightarrow> path \<Rightarrow> path \<Rightarrow> string \<Rightarrow> encryption_info \<Rightarrow> disk
     \<Rightarrow> (encryption_error, u64) result \<times> disk" where
  "decrypt_file_with_password C env input_path output_path password info d =
     decrypt_file C env input_path output_path (derive_key_from_password C password (ei_salt info)) info d"

section \<open>Key and message bundles\<close>

text \<open>\<open>hex::decode\<close> followed by \<open>try_into\<close> a fixed-size array.\<close>

definition decode_array :: "nat \<Rightarrow> string \<Rightarrow> (encryption_error, bytes) result" where
  "decode_array n s = rbind (ok_or BadHex (hex_decode s)) (\<lambda>b. if length b = n then Ok b else Err BadLength)"

definition encrypt_aes_key ::
  "crypto \<Rightarrow> bytes \<Rightarrow> bytes \<Rightarrow> bytes \<Rightarrow> bytes \<Rightarrow> (encryption_error, encrypted_aes_key_bundle) result" where
  "encrypt_aes_key C ephemeral_secret nonce aes_key recipient_public_key =
     (let ephemeral_public_key = x25519_public C ephemeral_secret;
          shared_secret = x25519_dh C ephemeral_secret recipient_public_key
      in rbind (ok_or HkdfFailed (hkdf_sha256 C ephemeral_public_key shared_secret ''chiral-network-kek'')) (\<lambda>kek.
         rbind (ok_or EncryptFailed (aead_encrypt C kek nonce aes_key)) (\<lambda>encrypted_key.
           Ok \<lparr>kb_ephemeral_public_key = hex_encode ephemeral_public_key,
               kb_encrypted_key = hex_encode encrypted_key, kb_nonce = hex_encode nonce\<rparr>)))"

definition decrypt_aes_key ::
  "crypto \<Rightarrow> encrypted_aes_key_bundle \<Rightarrow> bytes \<Rightarrow> (encryption_error, bytes) result" where
  "decrypt_aes_key C bundle recipient_secret_key =
     rbind (decode_array 32 (kb_ephemeral_public_key bundle)) (\<lambda>ephemeral_public_key.
     rbind (ok_or BadHex (hex_decode (kb_encrypted_key bundle))) (\<lambda>encrypted_key.
     rbind (ok_or BadHex (hex_decode (kb_nonce bundle))) (\<lambda>nonce.
       let shared_secret = x25519_dh C recipient_secret_key ephemeral_public_key
       in rbind (ok_or HkdfFailed (hkdf_sha256 C ephemeral_public_key shared_secret ''chiral-network-kek'')) (\<lambda>kek.
          if length nonce \<noteq> 12 then Err Panicked
          else rbind (ok_or DecryptFailed (aead_decrypt C kek nonce encrypted_key)) (\<lambda>decrypted.
            if length decrypted = 32 then Ok decrypted else Err BadLength)))))"

definition encrypt_message ::
  "crypto \<Rightarrow> bytes \<Rightarrow> bytes \<Rightarrow> bytes \<Rightarrow> bytes \<Rightarrow> (encryption_error, encrypted_message_bundle) result" where
  "encrypt_message C ephemeral_secret nonce message recipient_public_key =
     (let ephemeral_public_key = x25519_public C ephemeral_secret;
          shared_secret = x25519_dh C ephemeral_secret recipient_public_key
      in rbind (ok_or HkdfFailed (hkdf_sha256 C ephemeral_public_key shared_secret ''chiral-network-msg'')) (\<lambda>key.
         rbind (ok_or EncryptFailed (aead_encrypt C key nonce message)) (\<lambda>encrypted_message.
           Ok \<lparr>mb_ephemeral_public_key = hex_encode ephemeral_public_key,
               mb_encrypted_message = hex_encode encrypted_message, mb_nonce = hex_encode nonce\<rparr>)))"

definition decrypt_message ::
  "crypto \<Rightarrow> encrypted_message_bundle \<Rightarrow> bytes \<Rightarrow> (encryption_error, bytes) result" where
  "decrypt_message C bundle recipient_secret_key =
     rbind (decode_array 32 (mb_ephemeral_public_key bundle)) (\<lambda>ephemeral_public_key.
     rbind (ok_or BadHex (hex_decode (mb_encrypted_message bundle))) (\<lambda>encrypted_message.
     rbind (ok_or BadHex (hex_decode (mb_nonce bundle))) (\<lambda>nonce.
       if length nonce \<noteq> 12 then Err Panicked
       else let shared_secret = x25519_dh C recipient_secret_key ephemeral_public_key
       in rbind (ok_or HkdfFailed (hkdf_sha256 C ephemeral_public_key shared_secret ''chiral-network-msg'')) (\<lambda>key.
          ok_or DecryptFailed (aead_decrypt C key nonce encrypted_message)))))"

section \<open>Signed messages\<close>

definition sign_message :: "crypto \<Rightarrow> bytes \<Rightarrow> bytes \<Rightarrow> signed_message" where
  "sign_message C message signing_key =
     \<lparr>sm_message = base64_encode C message, sm_signer_public_key = hex_encode (ed25519_public C signing_key),
      sm_signature = hex_encode (ed25519_sign C signing_key message)\<rparr>"

definition verify_message :: "crypto \<Rightarrow> signed_message \<Rightarrow> (encryption_error, bool) result" where
  "verify_message C sm =
     rbind (ok_or BadBase64 (base64_decode C (sm_message sm))) (\<lambda>message.
     rbind (decode_array 32 (sm_signer_public_key sm)) (\<lambda>public_key.
       if \<not> ed25519_key_ok C public_key then Err BadPublicKey
       else rbind (decode_array 64 (sm_signature sm)) (\<lambda>signature.
         Ok (ed25519_verify C public_key message signature))))"

section \<open>Lemmas\<close>

lemma decode_array_hex [simp]:
  "decode_array n (hex_encode b) = (if length b = n then Ok b else Err BadLength)"
  by (simp add: decode_array_def)

text \<open>A successful encryption, read backwards.\<close>

lemma encrypt_file_ok:
  assumes "encrypt_file C env nonce salt inp out key d = (Ok r, d1)"
  obtains plain cipher where "d inp = Some plain" "aead_encrypt C key nonce plain = Some cipher"
    "d1 = d(out \<mapsto> cipher)"
    "er_info r = \<lparr>ei_method = ''AES-256-GCM'', ei_key_fingerprint = generate_key_fingerprint C key,
                 ei_nonce = nonce, ei_salt = salt\<rparr>"
    "er_original_size r = length plain" "er_encrypted_size r = length cipher"
  using assms
  by (auto simp: encrypt_file_def fs_read_def fs_write_def split: option.splits sum.splits if_splits)

lemma decrypt_file_run:
  assumes "ei_method info = ''AES-256-GCM''" "ei_key_fingerprint info = generate_key_fingerprint C key"
    "length (ei_nonce info) = 12" "d inp = Some cipher" "aead_decrypt C key (ei_nonce info) cipher = Some plain"
    "\<not> io_fails env (IoRead inp)" "\<not> io_fails env (IoWrite out)"
  shows "decrypt_file C env inp out key info d = (Ok (length plain), d(out \<mapsto> plain))"
  using assms by (simp add: decrypt_file_def fs_read_def fs_write_def)

lemma decrypt_encrypted:
  assumes "crypto_ok C" "length nonce = 12"
    and "encrypt_file C env nonce salt inp mid key d = (Ok r, d1)"
    and "\<not> io_fails env' (IoRead mid)" "\<not> io_fails env' (IoWrite out)"
    and "ei_method info = ei_method (er_info r)" "ei_key_fingerprint info = ei_key_fingerprint (er_info r)"
    and "ei_nonce info = ei_nonce (er_info r)"
  shows "\<exists>plain. d inp = Some plain \<and>
           decrypt_file C env' mid out key info d1 = (Ok (er_original_size r), d1(out \<mapsto> plain))"
proof -
  from assms(3) obtain plain cipher where p: "d inp = Some plain" "aead_encrypt C key nonce plain = Some cipher"
    "d1 = d(mid \<mapsto> cipher)" "er_original_size r = length plain"
    and i: "er_info r = \<lparr>ei_method = ''AES-256-GCM'', ei_key_fingerprint = generate_key_fingerprint C key,
                 ei_nonce = nonce, ei_salt = salt\<rparr>"
    by (rule encrypt_file_ok)
  have "decrypt_file C env' mid out key info d1 = (Ok (length plain), d1(out \<mapsto> plain))"
    using assms p i crypto_okD(1) [OF assms(1) p(2)] by (intro decrypt_file_run) simp_all
  with p show ?thesis by simp
qed

lemma key_round_trip:
  assumes "crypto_ok C" "length nonce = 12" "length k = 32"
    and "encrypt_aes_key C esk nonce k (x25519_public C sk) = Ok kb"
  shows "decrypt_aes_key C kb sk = Ok k"
  using assms crypto_okD(1,3) [OF assms(1)] crypto_okD(2) [OF assms(1), of esk sk]
  by (auto simp: encrypt_aes_key_def decrypt_aes_key_def rbind_Inr Let_def)

lemma message_round_trip:
  assumes "crypto_ok C" "length nonce = 12"
    and "encrypt_message C esk nonce m (x25519_public C sk) = Ok mb"
  shows "decrypt_message C mb sk = Ok m"
proof -
  from assms(3) obtain key c
    where "hkdf_sha256 C (x25519_public C esk) (x25519_dh C esk (x25519_public C sk)) ''chiral-network-msg'' = Some key"
      and "aead_encrypt C key nonce m = Some c"
      and "mb = \<lparr>mb_ephemeral_public_key = hex_encode (x25519_public C esk), mb_encrypted_message = hex_encode c,
                 mb_nonce = hex_encode nonce\<rparr>"
    by (auto simp: encrypt_message_def rbind_Inr Let_def)
  then show ?thesis
    using assms(2) crypto_okD(1,3) [OF assms(1)] crypto_okD(2) [OF assms(1), of esk sk]
    by (simp add: decrypt_message_def Let_def)
qed

lemma decode_array_ok: "decode_array n s = Ok b \<longleftrightarrow> hex_decode s = Some b \<and> length b = n"
  by (auto simp: decode_array_def rbind_Inr split: if_splits)

lemma verify_message_ok:
  "verify_message C sm = Ok v \<Longrightarrow>
     \<exists>m pk sig. base64_decode C (sm_message sm) = Some m \<and> decode_array 32 (sm_signer_public_key sm) = Ok pk \<and>
        ed25519_key_ok C pk \<and> decode_array 64 (sm_signature sm) = Ok sig \<and> v = ed25519_verify C pk m sig"
  by (auto simp: verify_message_def rbind_Inr split: if_splits)

section \<open>Properties\<close>

text \<open>A trivial instance of the primitives, for the witnesses: every hypothesis on them can hold.\<close>

definition toy_crypto :: crypto where
  "toy_crypto = \<lparr>aead_encrypt = (\<lambda>k n m. Some m), aead_decrypt = (\<lambda>k n c. Some c),
     x25519_public = (\<lambda>a. replicate 32 (CHR ''p'')), x25519_dh = (\<lambda>a b. ''s''),
     hkdf_sha256 = (\<lambda>a b c. Some ''k''), pbkdf2_sha256 = (\<lambda>p s n. p @ s), sha256 = (\<lambda>b. b),
     base64_encode = (\<lambda>b. b), base64_decode = (\<lambda>s. Some s),
     ed25519_public = (\<lambda>k. replicate 32 (CHR ''e'')), ed25519_sign = (\<lambda>k m. replicate 64 (CHR ''s'')),
     ed25519_key_ok = (\<lambda>k. True), ed25519_verify = (\<lambda>k m s. True)\<rparr>"

lemma toy_crypto_ok: "crypto_ok toy_crypto"
  by (simp add: crypto_ok_def toy_crypto_def)

text \<open>
  A file encrypted with a password and decrypted with the same password, on any later disk
  that still has the encrypted file, is restored byte for byte; the salt stored in the
  encryption info is the one the key was derived from, not the one \<open>encrypt_file\<close> drew.
\<close>

theorem password_round_trip:
  assumes "crypto_ok C" "length nonce = 12"
    and "encrypt_file_with_password C env salt nonce salt' inp mid password d = (Ok r, d1)"
    and "\<not> io_fails env' (IoRead mid)" "\<not> io_fails env' (IoWrite out)"
  shows "\<exists>plain. d inp = Some plain \<and>
           decrypt_file_with_password C env' mid out password (er_info r) d1
             = (Ok (er_original_size r), d1(out \<mapsto> plain))"
proof -
  from assms(3) obtain r0 where e: "encrypt_file C env nonce salt' inp mid (derive_key_from_password C password salt) d = (Ok r0, d1)"
    and r: "r = r0\<lparr>er_info := (er_info r0)\<lparr>ei_salt := salt\<rparr>\<rparr>"
    by (auto simp: encrypt_file_with_password_def split: prod.splits sum.splits)
  from decrypt_encrypted [OF assms(1,2) e assms(4,5), of "er_info r"] r show ?thesis
    by (simp add: decrypt_file_with_password_def)
qed

text \<open>The round trip at a concrete file.\<close>

theorem password_round_trip_witness:
  "\<exists>plain. [[''in''] \<mapsto> ''hello''] [''in''] = Some plain \<and>
     decrypt_file_with_password toy_crypto no_faults [''enc''] [''out''] ''pw''
       \<lparr>ei_method = ''AES-256-GCM'', ei_key_fingerprint = generate_key_fingerprint toy_crypto ''pwsalt'',
        ei_nonce = ''123456789012'', ei_salt = ''salt''\<rparr> [[''in''] \<mapsto> ''hello'', [''enc''] \<mapsto> ''hello'']
       = (Ok 5, [[''in''] \<mapsto> ''hello'', [''enc''] \<mapsto> ''hello''] ([''out''] \<mapsto> plain))"
  using password_round_trip [OF toy_crypto_ok, of "''123456789012''" no_faults "''salt''" "''tlas''" "[''in'']" "[''enc'']"
      "''pw''" "[[''in''] \<mapsto> ''hello'']" "\<lparr>er_path = [''enc''], er_info = \<lparr>ei_method = ''AES-256-GCM'',
        ei_key_fingerprint = generate_key_fingerprint toy_crypto ''pwsalt'', ei_nonce = ''123456789012'', ei_salt = ''salt''\<rparr>,
        er_original_size = 5, er_encrypted_size = 5\<rparr>" "[[''in''] \<mapsto> ''hello'', [''enc''] \<mapsto> ''hello'']" no_faults "[''out'']"]
  by (simp add: encrypt_file_with_password_def encrypt_file_def derive_key_from_password_def fs_read_def fs_write_def
      toy_crypto_def)

text \<open>
  A key or a message encrypted to a public key is recovered with the matching secret key:
  the bundle's hexadecimal fields decode to what was encoded, both sides derive the same key,
  and a 32-byte AES key comes back as it was.
\<close>

theorem ecies_round_trip:
  assumes "crypto_ok C" "length nonce = 12" "length k = 32"
    and "encrypt_aes_key C esk nonce k (x25519_public C sk) = Ok kb"
    and "encrypt_message C esk nonce m (x25519_public C sk) = Ok mb"
  shows "decrypt_aes_key C kb sk = Ok k \<and> decrypt_message C mb sk = Ok m"
  using key_round_trip message_round_trip assms by blast

theorem ecies_round_trip_witness:
  "decrypt_aes_key toy_crypto
     \<lparr>kb_ephemeral_public_key = hex_encode (replicate 32 (CHR ''p'')), kb_encrypted_key = hex_encode (replicate 32 (CHR ''k'')),
      kb_nonce = hex_encode ''123456789012''\<rparr> ''sk'' = Ok (replicate 32 (CHR ''k'')) \<and>
   decrypt_message toy_crypto
     \<lparr>mb_ephemeral_public_key = hex_encode (replicate 32 (CHR ''p'')), mb_encrypted_message = hex_encode ''hi'',
      mb_nonce = hex_encode ''123456789012''\<rparr> ''sk'' = Ok ''hi''"
  by (rule ecies_round_trip [OF toy_crypto_ok, of "''123456789012''" _ "''esk''"])
    (simp_all add: encrypt_aes_key_def encrypt_message_def toy_crypto_def Let_def)

text \<open>
  A key bundle whose other fields are well formed but whose nonce does not decode to 12
  bytes makes \<open>decrypt_aes_key\<close> panic instead of returning an error, and so does a message
  bundle: only the length of the public key is checked.
\<close>

theorem bad_nonce_panics:
  assumes "length epk = 32" "length nonce \<noteq> 12"
    and "hkdf_sha256 C epk (x25519_dh C sk epk) ''chiral-network-kek'' \<noteq> None"
  shows "decrypt_aes_key C \<lparr>kb_ephemeral_public_key = hex_encode epk, kb_encrypted_key = hex_encode c,
           kb_nonce = hex_encode nonce\<rparr> sk = Err Panicked \<and>
         decrypt_message C \<lparr>mb_ephemeral_public_key = hex_encode epk, mb_encrypted_message = hex_encode c,
           mb_nonce = hex_encode nonce\<rparr> sk = Err Panicked"
  using assms by (auto simp: decrypt_aes_key_def decrypt_message_def Let_def)

theorem bad_nonce_panics_witness:
  "decrypt_aes_key toy_crypto \<lparr>kb_ephemeral_public_key = hex_encode (replicate 32 (CHR ''p'')),
     kb_encrypted_key = hex_encode ''x'', kb_nonce = hex_encode ''short''\<rparr> ''sk'' = Err Panicked \<and>
   decrypt_message toy_crypto \<lparr>mb_ephemeral_public_key = hex_encode (replicate 32 (CHR ''p'')),
     mb_encrypted_message = hex_encode ''x'', mb_nonce = hex_encode ''short''\<rparr> ''sk'' = Err Panicked"
  by (rule bad_nonce_panics) (simp_all add: toy_crypto_def)

text \<open>
  A message signed by \<open>sign_message\<close> verifies; and whatever \<open>verify_message\<close> accepts carries
  a signature that verifies under the key the message names, for the message it encodes, so
  when the signature scheme accepts one message only per signature and key, exchanging the
  message is noticed.
\<close>

theorem signed_message_verifies:
  assumes "crypto_ok C"
  shows "verify_message C (sign_message C m sk) = Ok True \<and>
    (verify_message C sm = Ok True \<longrightarrow>
       (\<exists>m' pk sig. base64_decode C (sm_message sm) = Some m' \<and> hex_decode (sm_signer_public_key sm) = Some pk \<and>
          length pk = 32 \<and> hex_decode (sm_signature sm) = Some sig \<and> length sig = 64 \<and> ed25519_verify C pk m' sig))"
proof
  show "verify_message C (sign_message C m sk) = Ok True"
    using crypto_okD(4-8) [OF assms] by (simp add: verify_message_def sign_message_def)
  show "verify_message C sm = Ok True \<longrightarrow>
       (\<exists>m' pk sig. base64_decode C (sm_message sm) = Some m' \<and> hex_decode (sm_signer_public_key sm) = Some pk \<and>
          length pk = 32 \<and> hex_decode (sm_signature sm) = Some sig \<and> length sig = 64 \<and> ed25519_verify C pk m' sig)"
    by (auto simp: decode_array_ok dest!: verify_message_ok)
qed

theorem signed_message_verifies_witness:
  "verify_message toy_crypto (sign_message toy_crypto ''hi'' ''key'') = Ok True"
  using signed_message_verifies [OF toy_crypto_ok] by blast

end
