(* ===== verification/ChunkManager.thy ===== *)
theory ChunkManager
  imports Encryption Interfaces
begin

text \<open>
  Splitting a file into encrypted, content-addressed chunks and putting it together again:
  \<^verbatim>\<open>src-tauri/src/manager.rs\<close>. The state is the disk and the process-wide LRU cache in front of
  the chunk directory. Cryptography comes from the record of theory Encryption; the Merkle
  tree (crate \<open>rs_merkle\<close>) is a pair of function arguments. The cache mutex is never
  poisoned: nothing panics while holding it.

  Reading the input file may return short counts: an argument gives, for each call of \<open>read\<close>,
  an upper bound on the count or a failure, so nothing depends on reads filling the buffer.

  Shown: the LRU cache refines a list of pairs in order of use; a file that was chunked and
  encrypted successfully is reassembled byte for byte by the holder of the secret key,
  whatever short reads happened; reassembly never returns data that does not match the
  manifest's hashes; and a chunk whose first write failed half way is kept.
\<close>

section \<open>The LRU cache\<close>

record lru_cache =
  lc_map :: "string \<rightharpoonup> bytes"
  lc_order :: "string list"
  lc_capacity :: usize

definition L1_CACHE_CAPACITY :: usize where "L1_CACHE_CAPACITY = 128"

definition lru_new :: "usize \<Rightarrow> lru_cache" where
  "lru_new capacity = \<lparr>lc_map = Map.empty, lc_order = [], lc_capacity = capacity\<rparr>"

definition lru_get :: "string \<Rightarrow> lru_cache \<Rightarrow> bytes option \<times> lru_cache" where
  "lru_get key c = (case lc_map c key of
     Some value \<Rightarrow> (Some value, c\<lparr>lc_order := filter (\<lambda>k. k \<noteq> key) (lc_order c) @ [key]\<rparr>)
   | None \<Rightarrow> (None, c))"

definition lru_put :: "string \<Rightarrow> bytes \<Rightarrow> lru_cache \<Rightarrow> lru_cache" where
  "lru_put key value c =
     (let order1 = (if key \<in> dom (lc_map c) then filter (\<lambda>k. k \<noteq> key) (lc_order c) else lc_order c);
          order2 = order1 @ [key];
          map2 = (lc_map c)(key \<mapsto> value)
      in if lc_capacity c < length order2
         then c\<lparr>lc_map := hm_remove map2 (hd order2), lc_order := tl order2\<rparr>
         else c\<lparr>lc_map := map2, lc_order := order2\<rparr>)"

section \<open>Chunks and manifests\<close>

record chunk_info =
  ci_index :: u32
  ci_hash :: string
  ci_size :: usize
  ci_encrypted_hash :: string
  ci_encrypted_size :: usize

record file_manifest =
  fm_merkle_root :: string
  fm_chunks :: "chunk_info list"
  fm_encrypted_key_bundle :: "encrypted_aes_key_bundle option"

record chunk_manager =
  cm_chunk_size :: usize
  cm_storage_path :: path

record manager_state =
  ms_disk :: disk
  ms_cache :: lru_cache

datatype manager_error =
    MgrIo io_error
  | MgrCrypto encryption_error
  | NoMerkleRoot
  | NoKeyBundle
  | ChunkUnreadable u32 io_error
  | HashMismatch u32 string string
  | BadChunkHash

definition new_chunk_manager :: "path \<Rightarrow> chunk_manager" where
  "new_chunk_manager storage_path = \<lparr>cm_chunk_size = 256 * 1024, cm_storage_path = storage_path\<rparr>"

definition hash_data :: "crypto \<Rightarrow> bytes \<Rightarrow> string" where
  "hash_data C data = hex_encode (sha256 C data)"

definition encrypt_chunk :: "crypto \<Rightarrow> bytes \<Rightarrow> bytes \<Rightarrow> bytes \<Rightarrow> (encryption_error, bytes) result" where
  "encrypt_chunk C nonce data key =
     rbind (ok_or EncryptFailed (aead_encrypt C key nonce data)) (\<lambda>ciphertext. Ok (nonce @ ciphertext))"

definition decrypt_chunk :: "crypto \<Rightarrow> bytes \<Rightarrow> bytes \<Rightarrow> (encryption_error, bytes) result" where
  "decrypt_chunk C data_with_nonce key =
     (if length data_with_nonce < 12 then Err TooShort
      else ok_or DecryptFailed (aead_decrypt C key (take 12 data_with_nonce) (drop 12 data_with_nonce)))"

definition chunk_path :: "chunk_manager \<Rightarrow> string \<Rightarrow> path" where
  "chunk_path M hash = path_join (cm_storage_path M) hash"

definition save_chunk ::
  "io_env \<Rightarrow> chunk_manager \<Rightarrow> string \<Rightarrow> bytes \<Rightarrow> manager_state \<Rightarrow> (io_error, unit) result \<times> manager_state" where
  "save_chunk env M hash data s =
     (case fs_mkdir env (cm_storage_path M) of
        Inl e \<Rightarrow> (Err e, s)
      | Inr _ \<Rightarrow>
          if fs_exists env (chunk_path M hash) (ms_disk s)
          then (Ok (), s\<lparr>ms_cache := lru_put hash data (ms_cache s)\<rparr>)
          else case fs_write env (chunk_path M hash) data (ms_disk s) of
                 (Inl e, d) \<Rightarrow> (Err e, s\<lparr>ms_disk := d\<rparr>)
               | (Inr _, d) \<Rightarrow> (Ok (), s\<lparr>ms_disk := d, ms_cache := lru_put hash data (ms_cache s)\<rparr>))"

definition read_chunk ::
  "io_env \<Rightarrow> chunk_manager \<Rightarrow> string \<Rightarrow> manager_state \<Rightarrow> (io_error, bytes) result \<times> manager_state" where
  "read_chunk env M hash s =
     (case lru_get hash (ms_cache s) of
        (Some data, c) \<Rightarrow> (Ok data, s\<lparr>ms_cache := c\<rparr>)
      | (None, c) \<Rightarrow>
          case fs_read env (chunk_path M hash) (ms_disk s) of
            Inl e \<Rightarrow> (Err e, s)
          | Inr data \<Rightarrow> (Ok data, s\<lparr>ms_cache := lru_put hash data (ms_cache s)\<rparr>))"

section \<open>Chunking and encrypting\<close>

text \<open>
  The read loop from its \<open>k\<close>-th iteration on, with the rest of the file's content. \<open>index\<close> is a
  \<open>u32\<close> that counts iterations. Returned are the chunk descriptions and the raw chunk hashes.
\<close>

function chunk_loop ::
  "crypto \<Rightarrow> io_env \<Rightarrow> chunk_manager \<Rightarrow> path \<Rightarrow> (nat \<Rightarrow> nat option) \<Rightarrow> (nat \<Rightarrow> bytes) \<Rightarrow> bytes \<Rightarrow> nat \<Rightarrow> bytes \<Rightarrow> manager_state
     \<Rightarrow> (manager_error, (chunk_info \<times> bytes) list) result \<times> manager_state" where
  "chunk_loop C env M file_path reads nonces key k content s =
     (case reads k of
        None \<Rightarrow> (Err (MgrIo (OtherIo (IoRead file_path))), s)
      | Some lim \<Rightarrow>
          if content = [] then (Ok [], s)
          else
            let bytes_read = min (length content) (max 1 (min (cm_chunk_size M) lim));
                chunk_data = take bytes_read content;
                chunk_hash = sha256 C chunk_data
            in case encrypt_chunk C (nonces k) chunk_data key of
                 Inl e \<Rightarrow> (Err (MgrCrypto e), s)
               | Inr blob \<Rightarrow>
                   case save_chunk env M (hash_data C blob) blob s of
                     (Inl e, s1) \<Rightarrow> (Err (MgrIo e), s1)
                   | (Inr _, s1) \<Rightarrow>
                       case chunk_loop C env M file_path reads nonces key (Suc k) (drop bytes_read content) s1 of
                         (Inl e, s2) \<Rightarrow> (Err e, s2)
                       | (Inr rest, s2) \<Rightarrow>
                           (Ok ((\<lparr>ci_index = k mod 2 ^ 32, ci_hash = hex_encode chunk_hash, ci_size = bytes_read,
                                 ci_encrypted_hash = hash_data C blob, ci_encrypted_size = length blob\<rparr>, chunk_hash)
                                # rest), s2))"
  by pat_completeness auto
termination
  by (relation "measure (\<lambda>(C, env, M, file_path, reads, nonces, key, k, content, s). length content)") auto

declare chunk_loop.simps [simp del]

definition chunk_and_encrypt_file_canonical ::
  "crypto \<Rightarrow> (bytes list \<Rightarrow> bytes option) \<Rightarrow> io_env \<Rightarrow> chunk_manager \<Rightarrow> (nat \<Rightarrow> nat option) \<Rightarrow> (nat \<Rightarrow> bytes) \<Rightarrow> bytes
     \<Rightarrow> path \<Rightarrow> manager_state \<Rightarrow> (manager_error, file_manifest \<times> bytes) result \<times> manager_state" where
  "chunk_and_encrypt_file_canonical C merkle_root env M reads nonces key_bytes file_path s =
     (case ms_disk s file_path of
        None \<Rightarrow> (Err (MgrIo NotFound), s)
      | Some content \<Rightarrow>
          if io_fails env (IoOpen file_path) then (Err (MgrIo (OtherIo (IoOpen file_path))), s)
          else case chunk_loop C env M file_path reads nonces key_bytes 0 content s of
                 (Inl e, s1) \<Rightarrow> (Err e, s1)
               | (Inr cs, s1) \<Rightarrow>
                   case merkle_root (map snd cs) of
                     None \<Rightarrow> (Err NoMerkleRoot, s1)
                   | Some root \<Rightarrow>
                       (Ok (\<lparr>fm_merkle_root = hex_encode root, fm_chunks = map fst cs,
                             fm_encrypted_key_bundle = None\<rparr>, key_bytes), s1))"

definition chunk_and_encrypt_file ::
  "crypto \<Rightarrow> (bytes list \<Rightarrow> bytes option) \<Rightarrow> io_env \<Rightarrow> chunk_manager \<Rightarrow> (nat \<Rightarrow> nat option) \<Rightarrow> (nat \<Rightarrow> bytes) \<Rightarrow> bytes
     \<Rightarrow> bytes \<Rightarrow> bytes \<Rightarrow> path \<Rightarrow> bytes \<Rightarrow> manager_state \<Rightarrow> (manager_error, file_manifest) result \<times> manager_state" where
  "chunk_and_encrypt_file C merkle_root env M reads nonces key_bytes ephemeral_secret nonce file_path recipient_public_key s =
     (case chunk_and_encrypt_file_canonical C merkle_root env M reads nonces key_bytes file_path s of
        (Inl e, s1) \<Rightarrow> (Err e, s1)
      | (Inr (manifest, key), s1) \<Rightarrow>
          case encrypt_aes_key C ephemeral_secret nonce key recipient_public_key of
            Inl e \<Rightarrow> (Err (MgrCrypto e), s1)
          | Inr bundle \<Rightarrow> (Ok (manifest\<lparr>fm_encrypted_key_bundle := Some bundle\<rparr>), s1))"

section \<open>Reassembling\<close>

text \<open>Read, decrypt, truncate and check one chunk: the common part of the two loops below.\<close>

definition fetch_chunk ::
  "crypto \<Rightarrow> io_env \<Rightarrow> chunk_manager \<Rightarrow> bytes \<Rightarrow> chunk_info \<Rightarrow> manager_state
     \<Rightarrow> (manager_error, bytes) result \<times> manager_state" where
  "fetch_chunk C env M key ci s =
     (case read_chunk env M (ci_encrypted_hash ci) s of
        (Inl e, s1) \<Rightarrow> (Err (ChunkUnreadable (ci_index ci) e), s1)
      | (Inr blob, s1) \<Rightarrow>
          case decrypt_chunk C blob key of
            Inl e \<Rightarrow> (Err (MgrCrypto e), s1)
          | Inr plain \<Rightarrow>
              let data = take (ci_size ci) plain;
                  actual = hex_encode (sha256 C data)
              in if actual \<noteq> ci_hash ci then (Err (HashMismatch (ci_index ci) (ci_hash ci) actual), s1)
                 else (Ok data, s1))"

fun collect_chunks ::
  "crypto \<Rightarrow> io_env \<Rightarrow> chunk_manager \<Rightarrow> bytes \<Rightarrow> chunk_info list \<Rightarrow> bytes \<Rightarrow> manager_state
     \<Rightarrow> (manager_error, bytes) result \<times> manager_state" where
  "collect_chunks C env M key [] acc s = (Ok acc, s)"
| "collect_chunks C env M key (ci # cis) acc s =
     (case fetch_chunk C env M key ci s of
        (Inl e, s1) \<Rightarrow> (Err e, s1)
      | (Inr data, s1) \<Rightarrow> collect_chunks C env M key cis (acc @ data) s1)"

definition reassemble_and_decrypt_data ::
  "crypto \<Rightarrow> io_env \<Rightarrow> chunk_manager \<Rightarrow> chunk_info list \<Rightarrow> encrypted_aes_key_bundle option \<Rightarrow> bytes \<Rightarrow> manager_state
     \<Rightarrow> (manager_error, bytes) result \<times> manager_state" where
  "reassemble_and_decrypt_data C env M chunks bundle secret_key s =
     (case bundle of
        None \<Rightarrow> (Err NoKeyBundle, s)
      | Some b \<Rightarrow> case decrypt_aes_key C b secret_key of
                    Inl e \<Rightarrow> (Err (MgrCrypto e), s)
                  | Inr key \<Rightarrow> collect_chunks C env M key chunks [] s)"

text \<open>\<open>write_all\<close> at the end of an open file; a failed call may have written a prefix.\<close>

definition fs_append :: "io_env \<Rightarrow> path \<Rightarrow> bytes \<Rightarrow> disk \<Rightarrow> (io_error, unit) result \<times> disk" where
  "fs_append env p b d = (case d p of
     None \<Rightarrow> (Err NotFound, d)
   | Some c \<Rightarrow> if io_fails env (IoWrite p)
               then (Err (OtherIo (IoWrite p)), case io_short env p of None \<Rightarrow> d | Some n \<Rightarrow> d(p \<mapsto> c @ take n b))
               else (Ok (), d(p \<mapsto> c @ b)))"

fun write_chunks ::
  "crypto \<Rightarrow> io_env \<Rightarrow> chunk_manager \<Rightarrow> bytes \<Rightarrow> path \<Rightarrow> chunk_info list \<Rightarrow> manager_state
     \<Rightarrow> (manager_error, unit) result \<times> manager_state" where
  "write_chunks C env M key out [] s = (Ok (), s)"
| "write_chunks C env M key out (ci # cis) s =
     (case fetch_chunk C env M key ci s of
        (Inl e, s1) \<Rightarrow> (Err e, s1)
      | (Inr data, s1) \<Rightarrow>
          case fs_append env out data (ms_disk s1) of
            (Inl e, d) \<Rightarrow> (Err (MgrIo e), s1\<lparr>ms_disk := d\<rparr>)
          | (Inr _, d) \<Rightarrow> write_chunks C env M key out cis (s1\<lparr>ms_disk := d\<rparr>))"

definition reassemble_and_decrypt_file ::
  "crypto \<Rightarrow> io_env \<Rightarrow> chunk_manager \<Rightarrow> chunk_info list \<Rightarrow> path \<Rightarrow> encrypted_aes_key_bundle option \<Rightarrow> bytes \<Rightarrow> manager_state
     \<Rightarrow> (manager_error, unit) result \<times> manager_state" where
  "reassemble_and_decrypt_file C env M chunks output_path bundle secret_key s =
     (case bundle of
        None \<Rightarrow> (Err NoKeyBundle, s)
      | Some b \<Rightarrow> case decrypt_aes_key C b secret_key of
                    Inl e \<Rightarrow> (Err (MgrCrypto e), s)
                  | Inr key \<Rightarrow>
                      if io_fails env (IoOpen output_path) then (Err (MgrIo (OtherIo (IoOpen output_path))), s)
                      else write_chunks C env M key output_path chunks
                             (s\<lparr>ms_disk := (ms_disk s)(output_path \<mapsto> [])\<rparr>))"

section \<open>Hashing and Merkle proofs\<close>

definition hash_file :: "crypto \<Rightarrow> io_env \<Rightarrow> path \<Rightarrow> disk \<Rightarrow> (io_error, string) result" where
  "hash_file C env file_path d = rbind (fs_read env file_path d) (\<lambda>content. Ok (hash_data C content))"

text \<open>\<open>map\<close> and \<open>collect\<close> into a \<open>Result\<close>: the first error wins.\<close>

fun decode_hashes :: "string list \<Rightarrow> (encryption_error, bytes list) result" where
  "decode_hashes [] = Ok []"
| "decode_hashes (h # hs) = rbind (decode_array 32 h) (\<lambda>b. rbind (decode_hashes hs) (\<lambda>bs. Ok (b # bs)))"

definition generate_merkle_proof ::
  "(bytes list \<Rightarrow> nat \<Rightarrow> bytes list) \<Rightarrow> string list \<Rightarrow> usize \<Rightarrow> (encryption_error, usize list \<times> string list \<times> usize) result" where
  "generate_merkle_proof proof_of all_chunk_hashes_hex chunk_index =
     rbind (decode_hashes all_chunk_hashes_hex) (\<lambda>leaves.
       Ok ([chunk_index], map hex_encode (proof_of leaves chunk_index), length leaves))"

definition verify_chunk_with_proof ::
  "crypto \<Rightarrow> (bytes \<Rightarrow> usize list \<Rightarrow> bytes list \<Rightarrow> usize \<Rightarrow> bytes list \<Rightarrow> bool) \<Rightarrow> string \<Rightarrow> string \<Rightarrow> bytes \<Rightarrow> usize list
     \<Rightarrow> string list \<Rightarrow> usize \<Rightarrow> (encryption_error, bool) result" where
  "verify_chunk_with_proof C proof_ok merkle_root_hex expected_hash_hex chunk_data proof_indices proof_hashes_hex leaf_count =
     (let calculated = sha256 C chunk_data
      in if hex_encode calculated \<noteq> expected_hash_hex then Ok False
         else rbind (decode_array 32 merkle_root_hex) (\<lambda>root.
              rbind (decode_hashes proof_hashes_hex) (\<lambda>proof_hashes.
                Ok (proof_ok root proof_indices [calculated] leaf_count proof_hashes))))"

definition manager_verify_chunk ::
  "crypto \<Rightarrow> (bytes \<Rightarrow> usize list \<Rightarrow> bytes list \<Rightarrow> usize \<Rightarrow> bytes list \<Rightarrow> bool) \<Rightarrow> string \<Rightarrow> chunk_info \<Rightarrow> bytes \<Rightarrow> usize list
     \<Rightarrow> string list \<Rightarrow> usize \<Rightarrow> (encryption_error, bool) result" where
  "manager_verify_chunk C proof_ok merkle_root_hex ci chunk_data proof_indices proof_hashes_hex leaf_count =
     verify_chunk_with_proof C proof_ok merkle_root_hex (ci_hash ci) chunk_data proof_indices proof_hashes_hex leaf_count"

section \<open>The cache\<close>

definition lru_ok :: "lru_cache \<Rightarrow> bool" where
  "lru_ok c \<longleftrightarrow> distinct (lc_order c) \<and> set (lc_order c) = dom (lc_map c) \<and> length (lc_order c) \<le> lc_capacity c"

text \<open>The specification: a list of pairs, the least recently used first.\<close>

definition lru_pairs :: "lru_cache \<Rightarrow> (string \<times> bytes) list" where
  "lru_pairs c = map (\<lambda>k. (k, the (lc_map c k))) (lc_order c)"

definition spec_touch :: "string \<Rightarrow> bytes \<Rightarrow> (string \<times> bytes) list \<Rightarrow> (string \<times> bytes) list" where
  "spec_touch k v xs = filter (\<lambda>p. fst p \<noteq> k) xs @ [(k, v)]"

definition spec_get :: "string \<Rightarrow> (string \<times> bytes) list \<Rightarrow> bytes option \<times> (string \<times> bytes) list" where
  "spec_get k xs = (case map_of xs k of None \<Rightarrow> (None, xs) | Some v \<Rightarrow> (Some v, spec_touch k v xs))"

definition spec_put :: "nat \<Rightarrow> string \<Rightarrow> bytes \<Rightarrow> (string \<times> bytes) list \<Rightarrow> (string \<times> bytes) list" where
  "spec_put cap k v xs = (if cap < length (spec_touch k v xs) then tl (spec_touch k v xs) else spec_touch k v xs)"

lemma lru_new_ok: "lru_ok (lru_new n)"
  by (simp add: lru_ok_def lru_new_def)

lemma lru_get_held: "lc_map (snd (lru_get k c)) = lc_map c"
  by (simp add: lru_get_def split: option.splits)

lemma lru_get_ok: "lru_ok c \<Longrightarrow> lru_ok (snd (lru_get k c))"
proof -
  assume ok: "lru_ok c"
  show ?thesis
  proof (cases "lc_map c k")
    case None
    with ok show ?thesis by (simp add: lru_get_def)
  next
    case (Some v)
    with ok have k: "k \<in> set (lc_order c)" by (auto simp: lru_ok_def)
    then have "length (filter (\<lambda>x. x \<noteq> k) (lc_order c)) < length (lc_order c)"
      by (intro length_filter_less) auto
    with ok Some k show ?thesis by (auto simp: lru_ok_def lru_get_def)
  qed
qed

text \<open>The keys after \<open>put\<close>, before anything is evicted.\<close>

lemma lru_touched:
  assumes "lru_ok c"
  shows "lru_put k v c =
    (let xs = filter (\<lambda>j. j \<noteq> k) (lc_order c) @ [k]; m = (lc_map c)(k \<mapsto> v)
     in if lc_capacity c < length xs
        then c\<lparr>lc_map := hm_remove m (hd xs), lc_order := tl xs\<rparr>
        else c\<lparr>lc_map := m, lc_order := xs\<rparr>)"
proof -
  have "filter (\<lambda>j. j \<noteq> k) (lc_order c) = lc_order c" if "k \<notin> dom (lc_map c)"
    using that assms by (auto simp: lru_ok_def filter_id_conv)
  then show ?thesis by (auto simp: lru_put_def Let_def)
qed

lemma lru_put_ok: "lru_ok c \<Longrightarrow> lru_ok (lru_put k v c)"
proof -
  assume ok: "lru_ok c"
  let ?xs = "filter (\<lambda>j. j \<noteq> k) (lc_order c)"
  have d: "distinct (?xs @ [k])" and s: "set (?xs @ [k]) = insert k (dom (lc_map c))"
    and n: "length (?xs @ [k]) \<le> Suc (lc_capacity c)"
    using ok by (auto simp: lru_ok_def intro: order_trans [OF length_filter_le])
  show ?thesis
  proof (cases "?xs @ [k]")
    case (Cons y ys)
    then have "set ys = insert k (dom (lc_map c)) - {y}" using d s by (metis Diff_insert_absorb distinct.simps(2) list.simps(15))
    with Cons d n s show ?thesis unfolding lru_touched [OF ok] lru_ok_def by (simp add: Let_def)
  qed simp
qed

lemma lru_put_own: "lru_ok c \<Longrightarrow> 0 < lc_capacity c \<Longrightarrow> lc_map (lru_put k v c) k = Some v"
proof -
  assume ok: "lru_ok c" and pos: "0 < lc_capacity c"
  let ?xs = "filter (\<lambda>j. j \<noteq> k) (lc_order c)"
  have "hd (?xs @ [k]) \<noteq> k" if "lc_capacity c < length (?xs @ [k])"
  proof -
    from that pos have "?xs \<noteq> []" by auto
    then have "hd ?xs \<in> set ?xs" by (rule hd_in_set)
    with \<open>?xs \<noteq> []\<close> show ?thesis by (simp add: hd_append)
  qed
  then show ?thesis by (auto simp: lru_touched [OF ok] Let_def)
qed

lemma lru_put_sub: "lc_map (lru_put k v c) j = Some w \<Longrightarrow> ((lc_map c)(k \<mapsto> v)) j = Some w"
  by (auto simp: lru_put_def Let_def split: if_splits)

interpretation lru: bounded_cache lc_map lru_get lru_put lru_ok "\<lambda>c. length (lc_order c)" lc_capacity
proof
  fix k v w c and j :: string
  show "fst (lru_get k c) = lc_map c k" by (simp add: lru_get_def split: option.splits)
  show "lc_map (snd (lru_get k c)) = lc_map c" by (rule lru_get_held)
  show "lru_ok c \<Longrightarrow> lru_ok (snd (lru_get k c))" by (rule lru_get_ok)
  show "lru_ok c \<Longrightarrow> 0 < lc_capacity c \<Longrightarrow> lc_map (lru_put k v c) k = Some v" by (rule lru_put_own)
  show "j \<noteq> k \<Longrightarrow> lc_map (lru_put k v c) j = Some w \<Longrightarrow> lc_map c j = Some w" by (auto dest: lru_put_sub)
  show "lc_map (lru_put k v c) k = Some w \<Longrightarrow> w = v" by (auto dest: lru_put_sub)
  show "lru_ok c \<Longrightarrow> lru_ok (lru_put k v c)" by (rule lru_put_ok)
  show "lru_ok c \<Longrightarrow> length (lc_order c) \<le> lc_capacity c" by (simp add: lru_ok_def)
qed

text \<open>Refinement.\<close>

lemma map_of_lru_pairs: "lru_ok c \<Longrightarrow> map_of (lru_pairs c) k = lc_map c k"
proof -
  assume ok: "lru_ok c"
  have "map_of (map (\<lambda>k. (k, the (lc_map c k))) xs) k = (if k \<in> set xs then Some (the (lc_map c k)) else None)" for xs
    by (induction xs) auto
  with ok show ?thesis by (auto simp: lru_pairs_def lru_ok_def)
qed

lemma filter_lru_pairs:
  "filter (\<lambda>p. fst p \<noteq> k) (lru_pairs c) = map (\<lambda>j. (j, the (lc_map c j))) (filter (\<lambda>j. j \<noteq> k) (lc_order c))"
  by (simp add: lru_pairs_def filter_map comp_def)

lemma spec_touch_pairs:
  "spec_touch k v (lru_pairs c)
     = map (\<lambda>j. (j, the (((lc_map c)(k \<mapsto> v)) j))) (filter (\<lambda>j. j \<noteq> k) (lc_order c) @ [k])"
  by (simp add: spec_touch_def filter_lru_pairs)

lemma lru_put_refines:
  assumes ok: "lru_ok c"
  shows "lru_pairs (lru_put k v c) = spec_put (lc_capacity c) k v (lru_pairs c)"
proof -
  let ?xs = "filter (\<lambda>j. j \<noteq> k) (lc_order c)" and ?m = "(lc_map c)(k \<mapsto> v)"
  have d: "distinct (?xs @ [k])" using ok by (simp add: lru_ok_def)
  have "map (\<lambda>j. (j, the (hm_remove ?m (hd (?xs @ [k])) j))) (tl (?xs @ [k])) = map (\<lambda>j. (j, the (?m j))) (tl (?xs @ [k]))"
  proof (cases "?xs @ [k]")
    case (Cons y ys)
    with d show ?thesis by auto
  qed simp
  then show ?thesis
    unfolding spec_put_def spec_touch_pairs lru_touched [OF ok]
    by (auto simp: lru_pairs_def map_tl Let_def simp del: hm_remove_apply)
qed

lemma lru_get_refines:
  assumes "lru_ok c"
  shows "fst (lru_get k c) = fst (spec_get k (lru_pairs c))"
    and "lru_pairs (snd (lru_get k c)) = snd (spec_get k (lru_pairs c))"
proof -
  have "(lc_map c)(k \<mapsto> v) = lc_map c" if "lc_map c k = Some v" for v using that by (simp add: fun_upd_idem)
  then show "fst (lru_get k c) = fst (spec_get k (lru_pairs c))"
    and "lru_pairs (snd (lru_get k c)) = snd (spec_get k (lru_pairs c))"
    by (auto simp: spec_get_def map_of_lru_pairs [OF assms] lru_get_def spec_touch_pairs split: option.splits)
      (simp_all add: lru_pairs_def)
qed

section \<open>Content addressing\<close>

text \<open>
  \<open>U\<close> is a set of blobs among which the hash has no collision. A state is coherent on \<open>U\<close> when
  whatever the cache or the disk holds under the hash of a blob of \<open>U\<close> is that blob.
\<close>

definition coherent :: "crypto \<Rightarrow> chunk_manager \<Rightarrow> bytes set \<Rightarrow> manager_state \<Rightarrow> bool" where
  "coherent C M U s \<longleftrightarrow> (\<forall>b \<in> U.
     (\<forall>x. lc_map (ms_cache s) (hash_data C b) = Some x \<longrightarrow> x = b) \<and>
     (\<forall>x. ms_disk s (chunk_path M (hash_data C b)) = Some x \<longrightarrow> x = b))"

definition on_disk :: "crypto \<Rightarrow> chunk_manager \<Rightarrow> bytes \<Rightarrow> manager_state \<Rightarrow> bool" where
  "on_disk C M b s \<longleftrightarrow> ms_disk s (chunk_path M (hash_data C b)) = Some b"

lemma chunk_path_hex: "chunk_path M (hex_encode b) = cm_storage_path M @ (if b = [] then [] else [hex_encode b])"
proof (cases "b = []")
  case True
  then show ?thesis by (simp add: chunk_path_def path_join_def path_of_string_def starts_with_def)
next
  case False
  then have "hex_encode b \<noteq> []" by (cases b) auto
  moreover have "CHR ''/'' \<notin> set (hex_encode b)" "CHR ''.'' \<notin> set (hex_encode b)"
    using hex_encode_chars [of b] by auto
  ultimately show ?thesis using False by (auto simp: chunk_path_def intro!: path_join_simple)
qed

lemma chunk_path_inj: "chunk_path M (hash_data C a) = chunk_path M (hash_data C b) \<longleftrightarrow> sha256 C a = sha256 C b"
  by (auto simp: hash_data_def chunk_path_hex dest: hex_encode_inj split: if_splits)

lemma coherentD:
  assumes "coherent C M U s" and "b \<in> U"
  shows "lc_map (ms_cache s) (hash_data C b) = Some x \<Longrightarrow> x = b"
    and "ms_disk s (chunk_path M (hash_data C b)) = Some x \<Longrightarrow> x = b"
  using assms by (auto simp: coherent_def)

lemma coherentI:
  assumes "\<And>b x. b \<in> U \<Longrightarrow> lc_map (ms_cache s) (hash_data C b) = Some x \<Longrightarrow> x = b"
    and "\<And>b x. b \<in> U \<Longrightarrow> ms_disk s (chunk_path M (hash_data C b)) = Some x \<Longrightarrow> x = b"
  shows "coherent C M U s"
  using assms by (auto simp: coherent_def)

lemma hash_data_inj: "inj_on (sha256 C) U \<Longrightarrow> a \<in> U \<Longrightarrow> b \<in> U \<Longrightarrow> hash_data C a = hash_data C b \<Longrightarrow> a = b"
  by (auto simp: hash_data_def inj_on_def dest!: hex_encode_inj)

text \<open>Putting a blob of \<open>U\<close> into the cache under its hash keeps coherence.\<close>

lemma coherent_put:
  assumes "coherent C M U s" "inj_on (sha256 C) U" "b \<in> U"
  shows "coherent C M U (s\<lparr>ms_cache := lru_put (hash_data C b) b (ms_cache s)\<rparr>)"
proof (rule coherentI)
  fix a x assume a: "a \<in> U"
    and "lc_map (ms_cache (s\<lparr>ms_cache := lru_put (hash_data C b) b (ms_cache s)\<rparr>)) (hash_data C a) = Some x"
  then have "((lc_map (ms_cache s))(hash_data C b \<mapsto> b)) (hash_data C a) = Some x" by (auto dest: lru_put_sub)
  then show "x = a" using hash_data_inj [OF assms(2) a assms(3)] coherentD(1) [OF assms(1) a]
    by (auto split: if_splits)
qed (use assms in \<open>auto dest: coherentD(2)\<close>)

lemma coherent_write:
  assumes "coherent C M U s" "inj_on (sha256 C) U" "b \<in> U"
  shows "coherent C M U (s\<lparr>ms_disk := (ms_disk s)(chunk_path M (hash_data C b) \<mapsto> b)\<rparr>)"
proof (rule coherentI)
  fix a x assume a: "a \<in> U"
    and "ms_disk (s\<lparr>ms_disk := (ms_disk s)(chunk_path M (hash_data C b) \<mapsto> b)\<rparr>) (chunk_path M (hash_data C a)) = Some x"
  then show "x = a" using coherentD(2) [OF assms(1) a] inj_onD [OF assms(2) _ a assms(3)]
    by (auto simp: chunk_path_inj split: if_splits)
qed (use assms in \<open>auto dest: coherentD(1)\<close>)

lemma save_chunk_coherent:
  assumes "coherent C M U s" "inj_on (sha256 C) U" "b \<in> U"
    and "save_chunk env M (hash_data C b) b s = (Ok u, s')"
  shows "coherent C M U s' \<and> on_disk C M b s' \<and> (\<forall>a \<in> U. on_disk C M a s \<longrightarrow> on_disk C M a s')"
proof (cases "fs_exists env (chunk_path M (hash_data C b)) (ms_disk s)")
  case True
  then obtain x where "ms_disk s (chunk_path M (hash_data C b)) = Some x" by (auto simp: fs_exists_def)
  with coherentD(2) [OF assms(1,3)] have "on_disk C M b s" by (auto simp: on_disk_def)
  moreover from True assms(4) have "s' = s\<lparr>ms_cache := lru_put (hash_data C b) b (ms_cache s)\<rparr>"
    by (auto simp: save_chunk_def split: sum.splits)
  ultimately show ?thesis using coherent_put [OF assms(1-3)] by (auto simp: on_disk_def)
next
  case False
  let ?s1 = "s\<lparr>ms_disk := (ms_disk s)(chunk_path M (hash_data C b) \<mapsto> b)\<rparr>"
  from False assms(4) have s': "s' = ?s1\<lparr>ms_cache := lru_put (hash_data C b) b (ms_cache ?s1)\<rparr>"
    by (auto simp: save_chunk_def fs_write_def split: sum.splits if_splits)
  with coherent_put [OF coherent_write [OF assms(1-3)] assms(2,3)] show ?thesis
    using assms(2,3) by (auto simp: on_disk_def chunk_path_inj inj_on_eq_iff)
qed

lemma read_chunk_coherent:
  assumes "coherent C M U s" "inj_on (sha256 C) U" "b \<in> U" "on_disk C M b s"
    and "\<not> io_fails env (IoRead (chunk_path M (hash_data C b)))"
  obtains s' where "read_chunk env M (hash_data C b) s = (Ok b, s')" "coherent C M U s'" "ms_disk s' = ms_disk s"
proof (cases "lc_map (ms_cache s) (hash_data C b)")
  case None
  with assms(4,5) have "read_chunk env M (hash_data C b) s = (Ok b, s\<lparr>ms_cache := lru_put (hash_data C b) b (ms_cache s)\<rparr>)"
    by (simp add: read_chunk_def lru_get_def fs_read_def on_disk_def)
  with coherent_put [OF assms(1-3)] that show ?thesis by simp
next
  case (Some x)
  with coherentD(1) [OF assms(1,3)] have x: "x = b" by simp
  let ?s' = "s\<lparr>ms_cache := snd (lru_get (hash_data C b) (ms_cache s))\<rparr>"
  from Some x have "read_chunk env M (hash_data C b) s = (Ok b, ?s')"
    by (simp add: read_chunk_def lru_get_def)
  moreover have "coherent C M U ?s'" using assms(1) by (simp add: coherent_def lru_get_held)
  ultimately show ?thesis using that by simp
qed

section \<open>Chunking, read backwards\<close>

text \<open>What a chunk description promises: the blob under its hash decrypts to the chunk's data.\<close>

definition describes :: "crypto \<Rightarrow> bytes \<Rightarrow> bytes \<Rightarrow> bytes \<Rightarrow> chunk_info \<Rightarrow> bool" where
  "describes C key blob data ci \<longleftrightarrow> decrypt_chunk C blob key = Ok data \<and> ci_encrypted_hash ci = hash_data C blob \<and>
     ci_hash ci = hash_data C data \<and> ci_size ci = length data"

lemma decrypt_encrypt_chunk:
  assumes "crypto_ok C" "length nonce = 12" "encrypt_chunk C nonce data key = Ok blob"
  shows "decrypt_chunk C blob key = Ok data"
  using assms crypto_okD(1) [OF assms(1)] by (auto simp: encrypt_chunk_def decrypt_chunk_def rbind_Inr)

text \<open>The chunks \<open>cis\<close> hold \<open>content\<close>: their blobs are on disk and describe it piece by piece.\<close>

fun holds_file :: "crypto \<Rightarrow> chunk_manager \<Rightarrow> bytes set \<Rightarrow> bytes \<Rightarrow> chunk_info list \<Rightarrow> bytes \<Rightarrow> manager_state \<Rightarrow> bool" where
  "holds_file C M U key [] content s = (content = [])"
| "holds_file C M U key (ci # cis) content s =
     (\<exists>blob data rest. content = data @ rest \<and> blob \<in> U \<and> on_disk C M blob s \<and> describes C key blob data ci \<and>
        holds_file C M U key cis rest s)"

lemma holds_file_ConsI:
  assumes "blob \<in> U" "on_disk C M blob s" "describes C key blob data ci" "holds_file C M U key cis rest s"
  shows "holds_file C M U key (ci # cis) (data @ rest) s"
  using assms by auto

lemma holds_file_disk:
  assumes "holds_file C M U key cis content s" and "\<And>b. b \<in> U \<Longrightarrow> on_disk C M b s \<Longrightarrow> on_disk C M b s'"
  shows "holds_file C M U key cis content s'"
  using assms(1)
proof (induction cis arbitrary: content)
  case (Cons ci cis)
  then show ?case using assms(2) by simp blast
qed simp

lemma chunk_loop_Cons:
  assumes "chunk_loop C env M fp reads nonces key k content s = (Ok cs, s')" and "content \<noteq> []"
  obtains n blob s1 rest where "0 < n" "n \<le> length content" "encrypt_chunk C (nonces k) (take n content) key = Ok blob"
    "save_chunk env M (hash_data C blob) blob s = (Ok (), s1)"
    "chunk_loop C env M fp reads nonces key (Suc k) (drop n content) s1 = (Ok rest, s')"
    "map fst cs = \<lparr>ci_index = k mod 2 ^ 32, ci_hash = hash_data C (take n content), ci_size = n,
        ci_encrypted_hash = hash_data C blob, ci_encrypted_size = length blob\<rparr> # map fst rest"
proof -
  from assms obtain lim where lim: "reads k = Some lim" by (cases "reads k") (simp_all add: chunk_loop.simps)
  define n where "n = min (length content) (max 1 (min (cm_chunk_size M) lim))"
  have n: "0 < n" "n \<le> length content" using assms(2) by (auto simp: n_def)
  note run = assms(1) [unfolded chunk_loop.simps [of C env M fp reads nonces key k content s] lim option.case Let_def
      if_not_P [OF assms(2)], folded n_def]
  from run obtain blob where b: "encrypt_chunk C (nonces k) (take n content) key = Ok blob"
    by (auto split: sum.splits)
  from run b obtain s1 where sv: "save_chunk env M (hash_data C blob) blob s = (Ok (), s1)"
    by (auto split: sum.splits prod.splits)
  from run b sv obtain rest where "chunk_loop C env M fp reads nonces key (Suc k) (drop n content) s1 = (Ok rest, s')"
    by (auto split: sum.splits prod.splits)
  with that [OF n b sv] run b sv show thesis by (simp add: hash_data_def) fastforce
qed

text \<open>The blobs that chunking \<open>content\<close> can produce: encrypted pieces of it, in at most \<open>N\<close> iterations.\<close>

definition blobs_of :: "crypto \<Rightarrow> (nat \<Rightarrow> bytes) \<Rightarrow> bytes \<Rightarrow> nat \<Rightarrow> bytes \<Rightarrow> bytes set" where
  "blobs_of C nonces key N content =
     {blob. \<exists>i pre data suf. i < N \<and> content = pre @ data @ suf \<and> encrypt_chunk C (nonces i) data key = Ok blob}"

lemma blobs_of_drop: "blobs_of C nonces key N (drop n content) \<subseteq> blobs_of C nonces key N content"
proof
  fix b assume "b \<in> blobs_of C nonces key N (drop n content)"
  then obtain i pre data suf where "i < N" "drop n content = pre @ data @ suf" "encrypt_chunk C (nonces i) data key = Ok b"
    by (auto simp: blobs_of_def)
  moreover from this have "content = (take n content @ pre) @ data @ suf" by (metis append.assoc append_take_drop_id)
  ultimately show "b \<in> blobs_of C nonces key N content" unfolding blobs_of_def by blast
qed

lemma blobs_of_take: "i < N \<Longrightarrow> encrypt_chunk C (nonces i) (take n content) key = Ok blob \<Longrightarrow> blob \<in> blobs_of C nonces key N content"
  unfolding blobs_of_def by (metis (mono_tags, lifting) append_Nil append_take_drop_id mem_Collect_eq)

lemma chunk_loop_ok:
  assumes "crypto_ok C" "\<And>i. length (nonces i) = 12" "inj_on (sha256 C) U"
    and "coherent C M U s" "chunk_loop C env M fp reads nonces key k content s = (Ok cs, s')"
    and "blobs_of C nonces key N content \<subseteq> U" "k + length content \<le> N"
  shows "holds_file C M U key (map fst cs) content s' \<and> coherent C M U s' \<and>
    (\<forall>b \<in> U. on_disk C M b s \<longrightarrow> on_disk C M b s')"
  using assms(4-)
proof (induction "length content" arbitrary: content k s cs rule: less_induct)
  case less
  show ?case
  proof (cases "content = []")
    case True
    with less.prems show ?thesis by (auto simp: chunk_loop.simps [of C env M fp reads nonces key k "[]" s] split: option.splits)
  next
    case False
    from less.prems(2) False obtain n blob s1 rest
      where n: "0 < n" "n \<le> length content" and e: "encrypt_chunk C (nonces k) (take n content) key = Ok blob"
        and sv: "save_chunk env M (hash_data C blob) blob s = (Ok (), s1)"
        and lp: "chunk_loop C env M fp reads nonces key (Suc k) (drop n content) s1 = (Ok rest, s')"
        and cs: "map fst cs = \<lparr>ci_index = k mod 2 ^ 32, ci_hash = hash_data C (take n content), ci_size = n,
          ci_encrypted_hash = hash_data C blob, ci_encrypted_size = length blob\<rparr> # map fst rest"
      by (rule chunk_loop_Cons)
    have "k < N" using less.prems(4) False by (cases content) auto
    with blobs_of_take [where nonces = nonces and i = k, OF _ e] less.prems(3) have U: "blob \<in> U" by blast
    from save_chunk_coherent [OF less.prems(1) assms(3) U sv]
    have s1: "coherent C M U s1" "on_disk C M blob s1" "\<forall>b \<in> U. on_disk C M b s \<longrightarrow> on_disk C M b s1" by auto
    have "length (drop n content) < length content" "Suc k + length (drop n content) \<le> N"
      using n less.prems(4) by auto
    with less.hyps s1(1) lp order_trans [OF blobs_of_drop less.prems(3)]
    have ih: "holds_file C M U key (map fst rest) (drop n content) s'" "coherent C M U s'"
      "\<forall>b \<in> U. on_disk C M b s1 \<longrightarrow> on_disk C M b s'" by blast+
    have "describes C key blob (take n content) (hd (map fst cs))"
      using decrypt_encrypt_chunk [OF assms(1,2) e] n cs by (simp add: describes_def)
    then have "holds_file C M U key (map fst cs) (take n content @ drop n content) s'"
      using cs ih s1 U by (metis holds_file_ConsI list.sel(1))
    with ih s1 show ?thesis by simp
  qed
qed

section \<open>Reassembling what is held\<close>

lemma fetch_chunk_held:
  assumes "coherent C M U s" "inj_on (sha256 C) U" "blob \<in> U" "on_disk C M blob s" "describes C key blob data ci"
    and "\<And>p. \<not> io_fails env (IoRead p)"
  obtains s' where "fetch_chunk C env M key ci s = (Ok data, s')" "coherent C M U s'" "ms_disk s' = ms_disk s"
proof -
  obtain s' where "read_chunk env M (hash_data C blob) s = (Ok blob, s')" "coherent C M U s'" "ms_disk s' = ms_disk s"
    using read_chunk_coherent [OF assms(1-4), of env] assms(6) by blast
  with assms(5) that show thesis by (simp add: fetch_chunk_def describes_def hash_data_def)
qed

lemma collect_chunks_held:
  assumes "inj_on (sha256 C) U" "\<And>p. \<not> io_fails env (IoRead p)"
    and "coherent C M U s" "holds_file C M U key cis content s"
  shows "fst (collect_chunks C env M key cis acc s) = Ok (acc @ content)"
  using assms(3,4)
proof (induction cis arbitrary: content acc s)
  case (Cons ci cis)
  from Cons.prems(2) obtain blob data rest where h: "content = data @ rest" "blob \<in> U" "on_disk C M blob s"
    "describes C key blob data ci" "holds_file C M U key cis rest s" by auto
  obtain s' where f: "fetch_chunk C env M key ci s = (Ok data, s')" "coherent C M U s'" "ms_disk s' = ms_disk s"
    using fetch_chunk_held [OF Cons.prems(1) assms(1) h(2,3,4) assms(2)] by blast
  have "holds_file C M U key cis rest s'" using h(5) f(3) by (auto intro: holds_file_disk simp: on_disk_def)
  from Cons.IH [OF f(2) this] f(1) h(1) show ?case by simp
qed simp

text \<open>What reassembly returns was checked, whatever the store holds.\<close>

lemma fetch_chunk_checked:
  "fetch_chunk C env M key ci s = (Ok data, s') \<Longrightarrow> hash_data C data = ci_hash ci \<and> length data \<le> ci_size ci"
  by (auto simp: fetch_chunk_def hash_data_def Let_def split: sum.splits prod.splits if_splits)

lemma collect_chunks_checked:
  assumes "collect_chunks C env M key cis acc s = (Ok out, s')"
  shows "\<exists>datas. out = acc @ concat datas \<and>
    list_all2 (\<lambda>data ci. hash_data C data = ci_hash ci \<and> length data \<le> ci_size ci) datas cis"
  using assms
proof (induction cis arbitrary: acc s)
  case Nil
  then show ?case by (intro exI [of _ "[]"]) simp
next
  case (Cons ci cis)
  then obtain data s1 where f: "fetch_chunk C env M key ci s = (Ok data, s1)"
    and r: "collect_chunks C env M key cis (acc @ data) s1 = (Ok out, s')"
    by (auto split: sum.splits prod.splits)
  from Cons.IH [OF r] obtain datas where "out = (acc @ data) @ concat datas"
    "list_all2 (\<lambda>data ci. hash_data C data = ci_hash ci \<and> length data \<le> ci_size ci) datas cis" by blast
  with fetch_chunk_checked [OF f] show ?case by (intro exI [of _ "data # datas"]) simp
qed

text \<open>
  C20: The LRU cache of the chunk store behaves as a list of key-value pairs in order of use:
  \<open>get\<close> returns the stored value and moves the pair to the end, \<open>put\<close> appends the pair (replacing an
  older one for the key) and drops the least recently used pair when the capacity is exceeded;
  and the cache never holds more than its capacity.
\<close>

theorem lru_refines_list:
  assumes "lru_ok c"
  shows "lru_ok (lru_put k v c) \<and> lru_ok (snd (lru_get k c)) \<and>
    lru_pairs (lru_put k v c) = spec_put (lc_capacity c) k v (lru_pairs c) \<and>
    fst (lru_get k c) = fst (spec_get k (lru_pairs c)) \<and>
    lru_pairs (snd (lru_get k c)) = snd (spec_get k (lru_pairs c)) \<and>
    length (lru_pairs (lru_put k v c)) \<le> lc_capacity c"
proof -
  have "lc_capacity (lru_put k v c) = lc_capacity c" by (simp add: lru_put_def Let_def)
  with lru.within [OF lru_put_ok [OF assms], of k v] have "length (lru_pairs (lru_put k v c)) \<le> lc_capacity c"
    by (simp add: lru_pairs_def)
  with assms show ?thesis by (simp add: lru_put_ok lru_get_ok lru_put_refines lru_get_refines)
qed

theorem lru_refines_list_witness:
  "lru_pairs (lru_put ''c'' ''3'' \<lparr>lc_map = [''a'' \<mapsto> ''1'', ''b'' \<mapsto> ''2''], lc_order = [''a'', ''b''], lc_capacity = 2\<rparr>)
     = [(''b'', ''2''), (''c'', ''3'')]"
proof -
  have "lru_ok \<lparr>lc_map = [''a'' \<mapsto> ''1'', ''b'' \<mapsto> ''2''], lc_order = [''a'', ''b''], lc_capacity = 2\<rparr>"
    by (auto simp: lru_ok_def split: if_splits)
  from lru_refines_list [OF this, of "''c''" "''3''"] show ?thesis
    by (simp add: spec_put_def spec_touch_def lru_pairs_def)
qed

text \<open>
  C4: Chunking and encrypting a file for a recipient and reassembling it with the recipient's
  secret key returns the file, byte for byte, whatever short reads the chunking saw and
  whatever the cache holds or evicts. The hypotheses: the primitives do what they document,
  the hash has no collision among the blobs of this file (and \<open>U\<close> may hold more), the chunk
  directory and the cache held nothing wrong under those hashes before, and reads succeed.
\<close>

theorem chunking_round_trip:
  assumes "crypto_ok C" "\<And>i. length (nonces i) = 12" "length nonce = 12" "length key = 32"
    and "ms_disk s file_path = Some content"
    and "inj_on (sha256 C) U" "blobs_of C nonces key (length content) content \<subseteq> U" "coherent C M U s"
    and "chunk_and_encrypt_file C merkle_root env M reads nonces key esk nonce file_path (x25519_public C sk) s = (Ok m, s')"
    and "\<And>p. \<not> io_fails env' (IoRead p)"
  shows "fst (reassemble_and_decrypt_data C env' M (fm_chunks m) (fm_encrypted_key_bundle m) sk s') = Ok content"
proof -
  from assms(9) obtain m0 kb where can: "chunk_and_encrypt_file_canonical C merkle_root env M reads nonces key file_path s = (Ok (m0, key), s')"
    and kb: "encrypt_aes_key C esk nonce key (x25519_public C sk) = Ok kb"
    and m: "m = m0\<lparr>fm_encrypted_key_bundle := Some kb\<rparr>"
    by (auto simp: chunk_and_encrypt_file_def chunk_and_encrypt_file_canonical_def split: sum.splits prod.splits option.splits if_splits)
  from can assms(5) obtain cs where lp: "chunk_loop C env M file_path reads nonces key 0 content s = (Ok cs, s')"
    and m0: "fm_chunks m0 = map fst cs"
    by (auto simp: chunk_and_encrypt_file_canonical_def split: sum.splits prod.splits option.splits if_splits)
  from chunk_loop_ok [OF assms(1,2,6,8) lp assms(7)] have "holds_file C M U key (map fst cs) content s'" "coherent C M U s'"
    by simp_all
  from collect_chunks_held [OF assms(6,10) this(2,1), of "[]"] key_round_trip [OF assms(1,3,4) kb]
  show ?thesis by (simp add: reassemble_and_decrypt_data_def m m0)
qed

definition toy_state :: manager_state where
  "toy_state = \<lparr>ms_disk = [[''f''] \<mapsto> ''abc''], ms_cache = lru_new 128\<rparr>"

definition toy_info :: "u32 \<Rightarrow> string \<Rightarrow> chunk_info" where
  "toy_info i c = \<lparr>ci_index = i, ci_hash = hex_encode c, ci_size = length c,
     ci_encrypted_hash = hex_encode (''123456789012'' @ c), ci_encrypted_size = 12 + length c\<rparr>"

definition toy_bundle :: encrypted_aes_key_bundle where
  "toy_bundle = \<lparr>kb_ephemeral_public_key = hex_encode (replicate 32 (CHR ''p'')),
     kb_encrypted_key = hex_encode (replicate 32 (CHR ''k'')), kb_nonce = hex_encode ''123456789012''\<rparr>"

lemma toy_coherent: "coherent toy_crypto (new_chunk_manager [''store'']) UNIV toy_state"
  by (auto simp: coherent_def toy_state_def lru_new_def hash_data_def chunk_path_hex new_chunk_manager_def toy_crypto_def
      split: if_splits)

text \<open>A short read of two bytes, then the rest.\<close>

lemma toy_chunking:
  "\<exists>s'. chunk_and_encrypt_file toy_crypto (\<lambda>_. Some ''root'') no_faults (new_chunk_manager [''store''])
     (\<lambda>_. Some 2) (\<lambda>_. ''123456789012'') (replicate 32 (CHR ''k'')) ''esk'' ''123456789012'' [''f'']
     (x25519_public toy_crypto ''sk'') toy_state
   = (Ok \<lparr>fm_merkle_root = hex_encode ''root'', fm_chunks = [toy_info 0 ''ab'', toy_info 1 ''c''],
         fm_encrypted_key_bundle = Some toy_bundle\<rparr>, s')"
  by (simp add: chunk_and_encrypt_file_def chunk_and_encrypt_file_canonical_def chunk_loop.simps encrypt_chunk_def
      save_chunk_def fs_mkdir_def fs_exists_def fs_write_def chunk_path_hex hash_data_def toy_state_def toy_info_def toy_bundle_def
      toy_crypto_def new_chunk_manager_def encrypt_aes_key_def Let_def)

theorem chunking_round_trip_witness:
  "\<exists>s'. fst (reassemble_and_decrypt_data toy_crypto no_faults (new_chunk_manager [''store''])
     [toy_info 0 ''ab'', toy_info 1 ''c''] (Some toy_bundle) ''sk'' s') = Ok ''abc''"
proof -
  obtain s' where run: "chunk_and_encrypt_file toy_crypto (\<lambda>_. Some ''root'') no_faults (new_chunk_manager [''store''])
     (\<lambda>_. Some 2) (\<lambda>_. ''123456789012'') (replicate 32 (CHR ''k'')) ''esk'' ''123456789012'' [''f'']
     (x25519_public toy_crypto ''sk'') toy_state
   = (Ok \<lparr>fm_merkle_root = hex_encode ''root'', fm_chunks = [toy_info 0 ''ab'', toy_info 1 ''c''],
         fm_encrypted_key_bundle = Some toy_bundle\<rparr>, s')" using toy_chunking by blast
  have "ms_disk toy_state [''f''] = Some ''abc''" by (simp add: toy_state_def)
  moreover have "inj_on (sha256 toy_crypto) UNIV" by (simp add: toy_crypto_def)
  ultimately have "fst (reassemble_and_decrypt_data toy_crypto no_faults (new_chunk_manager [''store''])
      [toy_info 0 ''ab'', toy_info 1 ''c''] (Some toy_bundle) ''sk'' s') = Ok ''abc''"
    using chunking_round_trip [OF toy_crypto_ok _ _ _ _ _ _ toy_coherent run, of "''abc''" no_faults] by simp
  then show ?thesis by blast
qed

text \<open>
  C16: Reassembly never returns data that was not checked: whatever the chunk directory, the cache
  and the key are, a result is the concatenation of one piece per chunk of the manifest, in
  the manifest's order, each with the hash the manifest gives and no longer than its size.
\<close>

theorem reassembly_checked:
  assumes "reassemble_and_decrypt_data C env M chunks bundle sk s = (Ok out, s')"
  shows "\<exists>datas. out = concat datas \<and>
    list_all2 (\<lambda>data ci. hash_data C data = ci_hash ci \<and> length data \<le> ci_size ci) datas chunks"
proof -
  from assms obtain key where "collect_chunks C env M key chunks [] s = (Ok out, s')"
    by (auto simp: reassemble_and_decrypt_data_def split: option.splits sum.splits)
  from collect_chunks_checked [OF this] show ?thesis by simp
qed

theorem reassembly_checked_witness:
  "\<exists>datas. ''ab'' = concat datas \<and>
    list_all2 (\<lambda>data ci. hash_data toy_crypto data = ci_hash ci \<and> length data \<le> ci_size ci) datas [toy_info 0 ''ab'']"
proof -
  let ?s = "\<lparr>ms_disk = Map.empty, ms_cache = \<lparr>lc_map = [hex_encode (''123456789012'' @ ''ab'') \<mapsto> ''123456789012'' @ ''ab''],
      lc_order = [hex_encode (''123456789012'' @ ''ab'')], lc_capacity = 128\<rparr>\<rparr>"
  have "\<exists>s'. reassemble_and_decrypt_data toy_crypto no_faults (new_chunk_manager [''store'']) [toy_info 0 ''ab'']
      (Some toy_bundle) ''sk'' ?s = (Ok ''ab'', s')"
    by (simp add: reassemble_and_decrypt_data_def decrypt_aes_key_def fetch_chunk_def read_chunk_def lru_get_def
        decrypt_chunk_def toy_info_def toy_bundle_def toy_crypto_def Let_def del: hex_encode.simps hex_decode.simps)
  then obtain s' where "reassemble_and_decrypt_data toy_crypto no_faults (new_chunk_manager [''store'']) [toy_info 0 ''ab'']
      (Some toy_bundle) ''sk'' ?s = (Ok ''ab'', s')" ..
  from reassembly_checked [OF this] show ?thesis .
qed

text \<open>
  A chunk whose first write fails half way stays truncated: the failed call leaves a prefix
  under the chunk's final name, and saving the chunk again, with no failure, finds the file,
  skips the write and reports success.
\<close>

theorem truncated_chunk_kept:
  assumes "io_fails env (IoWrite (chunk_path M h))" "io_short env (chunk_path M h) = Some n"
    and "\<not> io_fails env (IoMkdir (cm_storage_path M))" "ms_disk s (chunk_path M h) = None"
    and "save_chunk env M h data s = (r, s1)" and "save_chunk no_faults M h data s1 = (r', s2)"
  shows "\<not> is_ok r \<and> r' = Ok () \<and> ms_disk s2 (chunk_path M h) = Some (take n data)"
proof -
  from assms(1-4) have "save_chunk env M h data s =
      (Err (OtherIo (IoWrite (chunk_path M h))), s\<lparr>ms_disk := (ms_disk s)(chunk_path M h \<mapsto> take n data)\<rparr>)"
    by (simp add: save_chunk_def fs_mkdir_def fs_exists_def fs_write_def)
  with assms(5) have s1: "r = Err (OtherIo (IoWrite (chunk_path M h)))"
    "s1 = s\<lparr>ms_disk := (ms_disk s)(chunk_path M h \<mapsto> take n data)\<rparr>" by auto
  with assms(6) show ?thesis by (auto simp: save_chunk_def fs_mkdir_def fs_exists_def)
qed

definition short_write :: io_env where
  "short_write = \<lparr>io_fails = (\<lambda>op. op = IoWrite [''store'', ''h'']), io_short = (\<lambda>_. Some 2)\<rparr>"

theorem truncated_chunk_kept_witness:
  "ms_disk (snd (save_chunk no_faults (new_chunk_manager [''store'']) ''h'' ''data''
     (snd (save_chunk short_write (new_chunk_manager [''store'']) ''h'' ''data'' toy_state)))) [''store'', ''h''] = Some ''da''"
proof -
  have p: "chunk_path (new_chunk_manager [''store'']) ''h'' = [''store'', ''h'']"
    by (simp add: chunk_path_def new_chunk_manager_def path_join_simple)
  obtain r s1 r' s2 where run: "save_chunk short_write (new_chunk_manager [''store'']) ''h'' ''data'' toy_state = (r, s1)"
    "save_chunk no_faults (new_chunk_manager [''store'']) ''h'' ''data'' s1 = (r', s2)" by (metis prod.exhaust)
  have "ms_disk s2 [''store'', ''h''] = Some (take 2 ''data'')"
    using truncated_chunk_kept [OF _ _ _ _ run, of 2] by (simp add: p short_write_def toy_state_def)
  with run show ?thesis by simp
qed

end
