(* ===== verification/DownloadSource.thy ===== *)
theory DownloadSource
  imports Text Interfaces
begin

text \<open>
  The unified description of where a file can be fetched from:
  \<^verbatim>\<open>src-tauri/src/download_source.rs\<close>. Strings are byte lists; slicing a Rust string inside a
  character panics, so \<open>display_name\<close> returns \<open>None\<close> there (identifiers are cut after eight
  bytes).

  The task table of \<^verbatim>\<open>src-tauri/src/download_scheduler.rs\<close> is here too: adding a task, choosing
  its best source and counting sources. Starting a download (spawning the protocol clients)
  is not modelled.

  Shown: the host taken from a URL is the one between the scheme and the first slash or
  colon; the chosen source has the highest score, the first such in the task's order, and
  is a peer whenever the task has one; the statistics count every source exactly once.
\<close>

section \<open>Data\<close>

record p2p_source_info =
  p2p_peer_id :: string
  p2p_multiaddr :: "string option"
  p2p_reputation :: "nat option"
  p2p_supports_encryption :: bool
  p2p_protocol :: "string option"

record http_source_info =
  http_url :: string
  http_auth_header :: "string option"
  http_verify_ssl :: bool
  http_headers :: "(string \<times> string) list option"
  http_timeout_secs :: "u64 option"

record ftp_source_info =
  ftp_url :: string
  ftp_username :: "string option"
  ftp_encrypted_password :: "string option"
  ftp_passive_mode :: bool
  ftp_use_ftps :: bool
  ftp_timeout_secs :: "u64 option"

record ed2k_source_info =
  ed2k_server_url :: string
  ed2k_file_hash :: string
  ed2k_file_size :: u64
  ed2k_file_name :: "string option"
  ed2k_sources :: "string list option"
  ed2k_timeout_secs :: "u64 option"
  ed2k_chunk_hashes :: "string list option"

record bittorrent_source_info =
  bt_magnet_uri :: string

datatype download_source =
    P2p p2p_source_info
  | Http http_source_info
  | Ftp ftp_source_info
  | Ed2k ed2k_source_info
  | BitTorrent bittorrent_source_info

section \<open>Operations\<close>

definition default_verify_ssl :: bool where "default_verify_ssl = True"

definition default_passive_mode :: bool where "default_passive_mode = True"

fun source_type :: "download_source \<Rightarrow> string" where
  "source_type (P2p _) = ''P2P''"
| "source_type (Http _) = ''HTTP''"
| "source_type (Ftp _) = ''FTP''"
| "source_type (Ed2k _) = ''ED2K''"
| "source_type (BitTorrent _) = ''BitTorrent''"

text \<open>\<open>s.split(pat).nth(1)\<close> for a pattern: what follows its first occurrence, up to its second.\<close>

fun find_sub :: "string \<Rightarrow> string \<Rightarrow> (string \<times> string) option" where
  "find_sub pat s =
     (if starts_with pat s then Some ([], drop (length pat) s)
      else case s of
        [] \<Rightarrow> None
      | c # cs \<Rightarrow> (case find_sub pat cs of None \<Rightarrow> None | Some (pre, suf) \<Rightarrow> Some (c # pre, suf)))"

declare find_sub.simps [simp del]

definition split_nth1 :: "string \<Rightarrow> string \<Rightarrow> string option" where
  "split_nth1 pat s = (case find_sub pat s of
     None \<Rightarrow> None
   | Some (_, suf) \<Rightarrow> Some (case find_sub pat suf of None \<Rightarrow> suf | Some (pre, _) \<Rightarrow> pre))"

text \<open>\<open>split\<close> always yields a first piece, so the inner fallbacks of the source are never taken.\<close>

definition extract_domain :: "string \<Rightarrow> string option" where
  "extract_domain url = (case split_nth1 ''://'' url of
     None \<Rightarrow> None
   | Some after_protocol \<Rightarrow> Some (hd (split_on (CHR '':'') (hd (split_on (CHR ''/'') after_protocol)))))"

text \<open>\<open>&s[..8.min(s.len())]\<close>: a cut inside a multi-byte character panics.\<close>

definition prefix8 :: "string \<Rightarrow> string option" where
  "prefix8 s = (if length s \<le> 8 \<or> \<not> utf8_cont (s ! 8) then Some (take 8 s) else None)"

text \<open>\<open>split(&['?', '&'])\<close>.\<close>

definition split_query :: "string \<Rightarrow> string list" where
  "split_query s = concat (map (split_on (CHR ''&'')) (split_on (CHR ''?'') s))"

fun display_name :: "download_source \<Rightarrow> string option" where
  "display_name (P2p info) = map_option (\<lambda>p. ''P2P peer: '' @ p) (prefix8 (p2p_peer_id info))"
| "display_name (Http info) = Some (''HTTP: '' @ (case extract_domain (http_url info) of Some d \<Rightarrow> d | None \<Rightarrow> http_url info))"
| "display_name (Ftp info) = Some (''FTP: '' @ (case extract_domain (ftp_url info) of Some d \<Rightarrow> d | None \<Rightarrow> ftp_url info))"
| "display_name (Ed2k info) = (case ed2k_file_name info of
     Some n \<Rightarrow> Some (''ED2K: '' @ n)
   | None \<Rightarrow> map_option (\<lambda>p. ''ED2K: '' @ p) (prefix8 (ed2k_file_hash info)))"
| "display_name (BitTorrent info) = (case find (starts_with ''xt=urn:btih:'') (split_query (bt_magnet_uri info)) of
     Some xt \<Rightarrow> map_option (\<lambda>p. ''BitTorrent: '' @ p) (prefix8 (drop 12 xt))
   | None \<Rightarrow> Some ''BitTorrent'')"

fun source_identifier :: "download_source \<Rightarrow> string" where
  "source_identifier (P2p info) = p2p_peer_id info"
| "source_identifier (Http info) = http_url info"
| "source_identifier (Ftp info) = ftp_url info"
| "source_identifier (Ed2k info) = ed2k_file_hash info"
| "source_identifier (BitTorrent info) = bt_magnet_uri info"

fun supports_encryption :: "download_source \<Rightarrow> bool" where
  "supports_encryption (P2p info) = p2p_supports_encryption info"
| "supports_encryption (Http info) = starts_with ''https://'' (http_url info)"
| "supports_encryption (Ftp info) = ftp_use_ftps info"
| "supports_encryption (Ed2k _) = False"
| "supports_encryption (BitTorrent _) = True"

fun priority_score :: "download_source \<Rightarrow> u32" where
  "priority_score (P2p info) = 100 + (case p2p_reputation info of Some r \<Rightarrow> r | None \<Rightarrow> 50)"
| "priority_score (BitTorrent _) = 90"
| "priority_score (Http _) = 50"
| "priority_score (Ed2k _) = 30"
| "priority_score (Ftp _) = 25"

section \<open>The task table\<close>

datatype download_task_status = TaskPending | TaskScheduled | TaskDownloading | TaskPaused | TaskCompleted | TaskFailed

record download_task =
  dt_task_id :: string
  dt_file_hash :: string
  dt_file_name :: string
  dt_sources :: "download_source list"
  dt_status :: download_task_status
  dt_priority :: u32

record download_scheduler =
  ds_tasks :: "string \<rightharpoonup> download_task"

record source_statistics =
  st_p2p_count :: usize
  st_http_count :: usize
  st_ftp_count :: usize
  st_ed2k_count :: usize
  st_bittorrent_count :: usize

definition new_download_scheduler :: download_scheduler where
  "new_download_scheduler = \<lparr>ds_tasks = Map.empty\<rparr>"

definition add_task :: "download_task \<Rightarrow> download_scheduler \<Rightarrow> download_scheduler" where
  "add_task task s = s\<lparr>ds_tasks := (ds_tasks s)(dt_task_id task \<mapsto> task)\<rparr>"

definition best_of :: "download_source list \<Rightarrow> download_source option" where
  "best_of sources =
     (if sources = [] then None
      else Some (fst (sort_desc snd (map (\<lambda>s. (s, priority_score s)) sources) ! 0)))"

definition select_best_source :: "string \<Rightarrow> download_scheduler \<Rightarrow> download_source option" where
  "select_best_source task_id s = (case ds_tasks s task_id of None \<Rightarrow> None | Some task \<Rightarrow> best_of (dt_sources task))"

fun count_source :: "source_statistics \<Rightarrow> download_source \<Rightarrow> source_statistics" where
  "count_source st (P2p _) = st\<lparr>st_p2p_count := st_p2p_count st + 1\<rparr>"
| "count_source st (Http _) = st\<lparr>st_http_count := st_http_count st + 1\<rparr>"
| "count_source st (Ftp _) = st\<lparr>st_ftp_count := st_ftp_count st + 1\<rparr>"
| "count_source st (Ed2k _) = st\<lparr>st_ed2k_count := st_ed2k_count st + 1\<rparr>"
| "count_source st (BitTorrent _) = st\<lparr>st_bittorrent_count := st_bittorrent_count st + 1\<rparr>"

definition get_source_statistics :: "string list \<Rightarrow> download_scheduler \<Rightarrow> source_statistics" where
  "get_source_statistics ks s =
     foldl (\<lambda>st task. foldl count_source st (dt_sources task))
       \<lparr>st_p2p_count = 0, st_http_count = 0, st_ftp_count = 0, st_ed2k_count = 0, st_bittorrent_count = 0\<rparr>
       (hm_values (ds_tasks s) ks)"

section \<open>Lemmas\<close>

lemma starts_with_Cons: "starts_with (p # ps) (x # xs) \<longleftrightarrow> p = x \<and> starts_with ps xs"
  by (auto simp: starts_with_def)

lemma starts_with_Nil [simp]: "starts_with [] s" "starts_with (p # ps) [] \<longleftrightarrow> False"
  by (auto simp: starts_with_def)

lemma find_sub_first:
  assumes "hd pat \<notin> set pre" and "pat \<noteq> []"
  shows "find_sub pat (pre @ pat @ suf) = Some (pre, suf)"
  using assms(1)
proof (induction pre)
  case Nil
  then show ?case by (simp add: find_sub.simps [of pat "pat @ suf"])
next
  case (Cons c pre)
  then have "\<not> starts_with pat (c # pre @ pat @ suf)"
    using assms(2) by (cases pat) (auto simp: starts_with_Cons)
  with Cons show ?case by (simp add: find_sub.simps [of pat "c # pre @ pat @ suf"])
qed

lemma find_sub_None: "find_sub pat s = None" if "hd pat \<notin> set s" "pat \<noteq> []"
  using that
proof (induction s)
  case Nil
  then show ?case by (cases pat) (auto simp: find_sub.simps)
next
  case (Cons c s)
  then have "\<not> starts_with pat (c # s)" by (cases pat) (auto simp: starts_with_Cons)
  with Cons show ?case by (simp add: find_sub.simps [of pat "c # s"])
qed

lemma find_sub_pre: "find_sub pat s = Some (pre, suf) \<Longrightarrow> s = pre @ pat @ suf"
proof (induction pat s arbitrary: pre rule: find_sub.induct)
  case (1 pat s)
  show ?case
  proof (cases "starts_with pat s")
    case True
    with 1 have p: "pre = []" "suf = drop (length pat) s" by (auto simp: find_sub.simps [of pat s])
    from True have "s = pat @ drop (length pat) s"
      by (metis append_take_drop_id starts_with_def)
    with p show ?thesis by simp
  next
    case False
    with 1 obtain c cs pre' where "s = c # cs" "find_sub pat cs = Some (pre', suf)" "pre = c # pre'"
      by (auto simp: find_sub.simps [of pat s] split: list.splits option.splits)
    with 1(1) [OF False] show ?thesis by simp
  qed
qed

lemma hd_split_on: "hd (split_on c s) = takeWhile (\<lambda>x. x \<noteq> c) s"
proof (induction s)
  case (Cons x s)
  then show ?case by (cases "split_on c s") auto
qed simp

text \<open>The scores separate the kinds; only peers differ among themselves.\<close>

lemma priority_kinds:
  "priority_score (P2p p) \<ge> 100" "priority_score (BitTorrent b) = 90" "priority_score (Http h) = 50"
  "priority_score (Ed2k e) = 30" "priority_score (Ftp f) = 25"
  by (auto split: option.splits)

section \<open>Choosing a source\<close>

lemma best_of_hd:
  assumes "sources \<noteq> []"
  shows "\<exists>x sc. sort_desc snd (map (\<lambda>s. (s, priority_score s)) sources) ! 0 = (x, sc) \<and> best_of sources = Some x \<and>
    (x, sc) \<in> set (map (\<lambda>s. (s, priority_score s)) sources) \<and> (\<forall>y \<in> set sources. priority_score y \<le> sc)"
proof -
  let ?ps = "map (\<lambda>s. (s, priority_score s)) sources"
  let ?ys = "sort_desc snd ?ps"
  have ne: "?ps \<noteq> []" "?ys \<noteq> []" using assms by auto
  obtain x sc where h: "?ys ! 0 = (x, sc)" by (cases "?ys ! 0")
  with ne(2) have hd: "hd ?ys = (x, sc)" by (simp add: hd_conv_nth)
  have "hd ?ys \<in> set ?ps" using ne(1) by (rule sort_desc_hd_mem)
  moreover have "priority_score y \<le> sc" if "y \<in> set sources" for y
  proof -
    from that have "(y, priority_score y) \<in> set ?ps" by auto
    from sort_desc_hd_max [OF this, of snd] hd show ?thesis by simp
  qed
  ultimately show ?thesis using h hd assms by (auto simp: best_of_def)
qed

interpretation src: scored_choice priority_score best_of
proof
  show "best_of [] = None" by (simp add: best_of_def)
next
  fix xs x
  assume b: "best_of xs = Some x"
  then have "xs \<noteq> []" by (auto simp: best_of_def)
  from best_of_hd [OF this] b show "x \<in> set xs" by auto
next
  fix xs :: "download_source list"
  assume "xs \<noteq> []"
  then show "\<exists>x. best_of xs = Some x" by (simp add: best_of_def)
next
  fix xs x y
  assume b: "best_of xs = Some x" and y: "y \<in> set xs"
  then have "xs \<noteq> []" by auto
  from best_of_hd [OF this] b y show "priority_score y \<le> priority_score x" by auto
qed

text \<open>Among the sources with the best score the first one listed is chosen.\<close>

lemma best_of_first:
  assumes "best_of sources = Some x"
  shows "x = hd (filter (\<lambda>s. priority_score s = priority_score x) sources)"
proof -
  let ?ps = "map (\<lambda>s. (s, priority_score s)) sources"
  from assms have ne: "sources \<noteq> []" by (auto simp: best_of_def)
  from best_of_hd [OF ne] assms obtain sc where h: "sort_desc snd ?ps ! 0 = (x, sc)" and m: "(x, sc) \<in> set ?ps" by auto
  from m have sc: "sc = priority_score x" by auto
  obtain ys where ys: "sort_desc snd ?ps = (x, sc) # ys" using h ne
    by (cases "sort_desc snd ?ps") (auto dest: arg_cong [of _ _ length])
  have "filter (\<lambda>p. snd p = sc) ?ps = filter (\<lambda>p. snd p = sc) (sort_desc snd ?ps)"
    by (rule sort_desc_stable [symmetric])
  also have "\<dots> = (x, sc) # filter (\<lambda>p. snd p = sc) ys" using ys by simp
  finally have "map fst (filter (\<lambda>p. snd p = sc) ?ps) = x # map fst (filter (\<lambda>p. snd p = sc) ys)" by simp
  then have "filter (\<lambda>s. priority_score s = sc) sources = x # map fst (filter (\<lambda>p. snd p = sc) ys)"
    by (simp add: filter_map comp_def)
  with sc show ?thesis by simp
qed

definition total_count :: "source_statistics \<Rightarrow> nat" where
  "total_count st = st_p2p_count st + st_http_count st + st_ftp_count st + st_ed2k_count st + st_bittorrent_count st"

lemma total_count_source: "total_count (count_source st x) = Suc (total_count st)"
  by (cases x) (simp_all add: total_count_def)

lemma total_count_sources: "total_count (foldl count_source st xs) = total_count st + length xs"
  by (induction xs arbitrary: st) (simp_all add: total_count_source)

lemma statistics_total:
  "total_count (get_source_statistics ks s) = (\<Sum>task \<leftarrow> hm_values (ds_tasks s) ks. length (dt_sources task))"
proof -
  have "total_count (foldl (\<lambda>st task. foldl count_source st (dt_sources task)) st ts)
      = total_count st + (\<Sum>task \<leftarrow> ts. length (dt_sources task))" for st and ts :: "download_task list"
    by (induction ts arbitrary: st) (simp_all add: total_count_sources)
  moreover have "total_count \<lparr>st_p2p_count = 0, st_http_count = 0, st_ftp_count = 0, st_ed2k_count = 0, st_bittorrent_count = 0\<rparr> = 0"
    by (simp add: total_count_def)
  ultimately show ?thesis by (simp add: get_source_statistics_def)
qed

section \<open>Properties\<close>

text \<open>
  The source chosen for a task is one of the task's sources with the highest priority score;
  among several with that score it is the one listed first; it is a peer whenever the task
  has a peer, whatever its reputation; and a task has a choice exactly when it has a source.
\<close>

theorem select_best_source_best:
  assumes "ds_tasks s task_id = Some task"
  shows "(select_best_source task_id s = None \<longleftrightarrow> dt_sources task = []) \<and>
    (\<forall>x. select_best_source task_id s = Some x \<longrightarrow>
       x \<in> set (dt_sources task) \<and> priority_score x = Max (priority_score ` set (dt_sources task)) \<and>
       x = hd (filter (\<lambda>y. priority_score y = priority_score x) (dt_sources task)) \<and>
       ((\<exists>p. P2p p \<in> set (dt_sources task)) \<longrightarrow> (\<exists>p. x = P2p p)))"
proof -
  have sel: "select_best_source task_id s = best_of (dt_sources task)" using assms by (simp add: select_best_source_def)
  have peer: "\<exists>p. x = P2p p" if "best_of (dt_sources task) = Some x" "P2p p \<in> set (dt_sources task)" for x p
  proof -
    have "100 \<le> priority_score x" using src.pick_max [OF that] priority_kinds(1) [of p] by linarith
    then show ?thesis by (cases x) auto
  qed
  show ?thesis unfolding sel
  proof (intro conjI allI impI)
    show "best_of (dt_sources task) = None \<longleftrightarrow> dt_sources task = []" by (rule src.pick_None_iff)
  next
    fix x assume b: "best_of (dt_sources task) = Some x"
    show "x \<in> set (dt_sources task)" using b by (rule src.pick_mem)
    show "priority_score x = Max (priority_score ` set (dt_sources task))" using b by (rule src.pick_score_Max)
    show "x = hd (filter (\<lambda>y. priority_score y = priority_score x) (dt_sources task))" using b by (rule best_of_first)
    show "\<exists>p. x = P2p p" if "\<exists>p. P2p p \<in> set (dt_sources task)" using that b peer by blast
  qed
qed

theorem select_best_source_best_witness:
  "\<exists>p. select_best_source ''t'' (add_task \<lparr>dt_task_id = ''t'', dt_file_hash = [], dt_file_name = [],
     dt_sources = [BitTorrent \<lparr>bt_magnet_uri = []\<rparr>, P2p \<lparr>p2p_peer_id = ''q'', p2p_multiaddr = None, p2p_reputation = Some 0,
       p2p_supports_encryption = False, p2p_protocol = None\<rparr>], dt_status = TaskPending, dt_priority = 1\<rparr> new_download_scheduler)
   = Some (P2p p)"
  using select_best_source_best [of "add_task \<lparr>dt_task_id = ''t'', dt_file_hash = [], dt_file_name = [],
     dt_sources = [BitTorrent \<lparr>bt_magnet_uri = []\<rparr>, P2p \<lparr>p2p_peer_id = ''q'', p2p_multiaddr = None, p2p_reputation = Some 0,
       p2p_supports_encryption = False, p2p_protocol = None\<rparr>], dt_status = TaskPending, dt_priority = 1\<rparr> new_download_scheduler" "''t''"]
  by (auto simp: add_task_def)

text \<open>
  The host a source is shown with is exactly the part of its URL between the scheme and the
  first slash or colon after it, for every scheme, host, port and path.
\<close>

theorem extract_domain_host:
  assumes "CHR '':'' \<notin> set scheme" "CHR '':'' \<notin> set host" "CHR ''/'' \<notin> set host"
    and "rest = [] \<or> hd rest = CHR ''/'' \<or> hd rest = CHR '':''"
  shows "extract_domain (scheme @ ''://'' @ host @ rest) = Some host"
proof -
  have f: "find_sub ''://'' (scheme @ ''://'' @ host @ rest) = Some (scheme, host @ rest)"
    using assms(1) by (intro find_sub_first) auto
  obtain tail where t: "split_nth1 ''://'' (scheme @ ''://'' @ host @ rest) = Some (host @ tail)"
    and tl: "tail = [] \<or> hd tail = CHR ''/'' \<or> hd tail = CHR '':''"
  proof (cases "find_sub ''://'' (host @ rest)")
    case None
    with f that [of rest] assms(4) show thesis by (simp add: split_nth1_def)
  next
    case (Some p)
    then obtain pre suf where p: "p = (pre, suf)" by (cases p)
    with Some have eq: "host @ rest = pre @ ''://'' @ suf" by (auto dest: find_sub_pre)
    have "\<exists>tail. pre = host @ tail \<and> (tail = [] \<or> hd tail = CHR ''/'' \<or> hd tail = CHR '':'')"
    proof -
      have "length host \<le> length pre"
      proof (rule ccontr)
        assume "\<not> length host \<le> length pre"
        then have "(host @ rest) ! length pre = host ! length pre" "length pre < length host" by (auto simp: nth_append)
        with eq have "CHR '':'' \<in> set host" by (metis append_Cons nth_append_length nth_mem)
        with assms(2) show False by simp
      qed
      with eq obtain us where us: "pre = host @ us" by (metis append_eq_append_conv_if append_take_drop_id)
      with eq have "rest = us @ ''://'' @ suf" by simp
      with assms(4) us show ?thesis by (cases us) auto
    qed
    with f Some p that show thesis by (auto simp: split_nth1_def)
  qed
  have h: "takeWhile (\<lambda>x. x \<noteq> CHR '':'') (takeWhile (\<lambda>x. x \<noteq> CHR ''/'') (host @ tail)) = host"
  proof (cases tail)
    case Nil
    from assms(2,3) have "takeWhile (\<lambda>x. x \<noteq> CHR ''/'') host = host" "takeWhile (\<lambda>x. x \<noteq> CHR '':'') host = host"
      by (auto simp: takeWhile_eq_all_conv)
    with Nil show ?thesis by (simp only: append_Nil2)
  next
    case (Cons c cs)
    from assms(3) have "takeWhile (\<lambda>x. x \<noteq> CHR ''/'') (host @ tail) = host @ takeWhile (\<lambda>x. x \<noteq> CHR ''/'') tail"
      by (intro takeWhile_append2) auto
    moreover from assms(2) have "takeWhile (\<lambda>x. x \<noteq> CHR '':'') (host @ takeWhile (\<lambda>x. x \<noteq> CHR ''/'') tail)
        = host @ takeWhile (\<lambda>x. x \<noteq> CHR '':'') (takeWhile (\<lambda>x. x \<noteq> CHR ''/'') tail)"
      by (intro takeWhile_append2) auto
    ultimately show ?thesis using tl Cons by auto
  qed
  show ?thesis unfolding extract_domain_def t option.case hd_split_on h ..
qed

theorem extract_domain_host_witness:
  "extract_domain (''https'' @ ''://'' @ ''example.com'' @ '':8080/a?u=http://b'') = Some ''example.com''"
  by (rule extract_domain_host) auto

end
