(* ===== verification/DhtModels.thy ===== *)
theory DhtModels
  imports DownloadSource Encryption F64
begin

text \<open>
  The metadata record the DHT stores for a file and the parser of eDonkey links:
  \<^verbatim>\<open>src-tauri/src/dht/models.rs\<close>. A \<open>Cid\<close> (third-party crate) is opaque and only copied; it is
  represented by its string form. The metrics records of that file carry no logic and are
  left out.

  Shown: parsing a well-formed file or server link returns exactly the fields it was built
  from, and which malformed links give which error; stripping the password for the DHT
  changes nothing else.
\<close>

section \<open>Data\<close>

record dht_ftp_source_info =
  fs_url :: string
  fs_username :: "string option"
  fs_password :: "string option"
  fs_supports_resume :: bool
  fs_file_size :: u64
  fs_last_checked :: "u64 option"
  fs_is_available :: bool

record dht_ed2k_source_info =
  es_server_url :: string
  es_file_hash :: string
  es_file_size :: u64
  es_file_name :: "string option"
  es_sources :: "string list option"
  es_timeout :: "u64 option"
  es_chunk_hashes :: "string list option"

record file_metadata =
  md_merkle_root :: string
  md_file_name :: string
  md_file_size :: u64
  md_file_data :: bytes
  md_seeders :: "string list"
  md_created_at :: u64
  md_mime_type :: "string option"
  md_is_encrypted :: bool
  md_encryption_method :: "string option"
  md_key_fingerprint :: "string option"
  md_parent_hash :: "string option"
  md_cids :: "string list option"
  md_encrypted_key_bundle :: "encrypted_aes_key_bundle option"
  md_ftp_sources :: "dht_ftp_source_info list option"
  md_ed2k_sources :: "dht_ed2k_source_info list option"
  md_http_sources :: "http_source_info list option"
  md_is_root :: bool
  md_download_path :: "string option"
  md_price :: f64
  md_uploader_address :: "string option"
  md_info_hash :: "string option"
  md_trackers :: "string list option"
  md_manifest :: "string option"

text \<open>The derived \<open>Default\<close>.\<close>

definition default_file_metadata :: file_metadata where
  "default_file_metadata = \<lparr>md_merkle_root = [], md_file_name = [], md_file_size = 0, md_file_data = [], md_seeders = [],
     md_created_at = 0, md_mime_type = None, md_is_encrypted = False, md_encryption_method = None, md_key_fingerprint = None,
     md_parent_hash = None, md_cids = None, md_encrypted_key_bundle = None, md_ftp_sources = None, md_ed2k_sources = None,
     md_http_sources = None, md_is_root = False, md_download_path = None, md_price = F_Fin 0, md_uploader_address = None,
     md_info_hash = None, md_trackers = None, md_manifest = None\<rparr>"

definition for_dht_storage :: "dht_ftp_source_info \<Rightarrow> dht_ftp_source_info" where
  "for_dht_storage f = \<lparr>fs_url = fs_url f, fs_username = fs_username f, fs_password = None,
     fs_supports_resume = fs_supports_resume f, fs_file_size = fs_file_size f, fs_last_checked = fs_last_checked f,
     fs_is_available = fs_is_available f\<rparr>"

section \<open>eDonkey links\<close>

datatype ed2k_error =
    InvalidLink string
  | MissingPart string
  | InvalidFileSize string

definition ed2k_info :: "string \<Rightarrow> string \<Rightarrow> u64 \<Rightarrow> string option \<Rightarrow> dht_ed2k_source_info" where
  "ed2k_info server_url file_hash file_size name =
     \<lparr>es_server_url = server_url, es_file_hash = file_hash, es_file_size = file_size, es_file_name = name,
      es_sources = None, es_timeout = None, es_chunk_hashes = None\<rparr>"

text \<open>\<open>split\<close> never yields an empty list, so the test \<open>parts.is_empty()\<close> of the source is never taken.\<close>

definition from_ed2k_link :: "string \<Rightarrow> (ed2k_error, dht_ed2k_source_info) result" where
  "from_ed2k_link link =
     (case strip_prefix ''ed2k://|'' link of
        None \<Rightarrow> Err (InvalidLink link)
      | Some parts_str \<Rightarrow>
          let parts = split_on (CHR ''|'') (trim_end_matches {CHR ''/'', CHR ''|''} parts_str)
          in if parts ! 0 = ''file'' then
               (if length parts < 4 then Err (MissingPart ''File link requires name, size, and hash'')
                else case parse_u64 (parts ! 2) of
                       None \<Rightarrow> Err (InvalidFileSize (parts ! 2))
                     | Some sz \<Rightarrow> Ok (ed2k_info [] (parts ! 3) sz (Some (parts ! 1))))
             else if parts ! 0 = ''server'' then
               (if length parts < 3 then Err (MissingPart ''Server link requires ip and port'')
                else Ok (ed2k_info (''ed2k://|server|'' @ parts ! 1 @ ''|'' @ parts ! 2 @ ''|/'') [] 0 None))
             else Err (InvalidLink (''Unknown link type: '' @ parts ! 0)))"

text \<open>The text of a link, as the format prescribes it.\<close>

definition ed2k_file_link :: "string \<Rightarrow> u64 \<Rightarrow> string \<Rightarrow> string" where
  "ed2k_file_link name sz hash =
     ''ed2k://|'' @ join_with (CHR ''|'') [''file'', name, show_nat sz, hash] @ ''|/''"

definition ed2k_server_link :: "string \<Rightarrow> string \<Rightarrow> string" where
  "ed2k_server_link ip port = ''ed2k://|'' @ join_with (CHR ''|'') [''server'', ip, port] @ ''|/''"

section \<open>Lemmas\<close>

lemma trim_end_matches_append:
  assumes "set suf \<subseteq> cs" and "s \<noteq> [] \<Longrightarrow> last s \<notin> cs"
  shows "trim_end_matches cs (s @ suf) = s"
proof -
  have "dropWhile (\<lambda>c. c \<in> cs) (rev suf @ rev s) = dropWhile (\<lambda>c. c \<in> cs) (rev s)"
    using assms(1) by (intro dropWhile_append2) auto
  also have "\<dots> = rev s" using assms(2) by (cases s rule: rev_cases) auto
  finally show ?thesis by (simp add: trim_end_matches_def)
qed

lemma join_with_last:
  "xs \<noteq> [] \<Longrightarrow> last xs \<noteq> [] \<Longrightarrow> join_with c xs \<noteq> [] \<and> last (join_with c xs) = last (last xs)"
proof (induction c xs rule: join_with.induct)
  case (3 c x y ys)
  then have "join_with c (y # ys) \<noteq> [] \<and> last (join_with c (y # ys)) = last (last (y # ys))" by simp
  then show ?case by (simp del: join_with.simps(2,3) add: join_with.simps(3) [of c x y ys])
qed simp_all

lemma trim_join:
  assumes "xs \<noteq> []" "last xs \<noteq> []" "last (last xs) \<notin> cs" "set suf \<subseteq> cs"
  shows "trim_end_matches cs (join_with c xs @ suf) = join_with c xs"
proof (rule trim_end_matches_append [OF assms(4)])
  from assms(3) join_with_last [OF assms(1,2)] show "last (join_with c xs) \<notin> cs" by simp
qed

lemma show_nat_no_bar: "CHR ''|'' \<notin> set (show_nat n)"
  using show_nat_chars [of n] by auto

lemma split_link:
  assumes "xs \<noteq> []" "\<And>x. x \<in> set xs \<Longrightarrow> CHR ''|'' \<notin> set x" "last xs \<noteq> []" "last (last xs) \<noteq> CHR ''/''"
  shows "split_on (CHR ''|'') (trim_end_matches {CHR ''/'', CHR ''|''} (join_with (CHR ''|'') xs @ ''|/'')) = xs"
proof -
  have "CHR ''|'' \<notin> set (last xs)" using assms(1,2) by simp
  with assms(3) have "last (last xs) \<noteq> CHR ''|''" by (metis last_in_set)
  with assms have "trim_end_matches {CHR ''/'', CHR ''|''} (join_with (CHR ''|'') xs @ ''|/'') = join_with (CHR ''|'') xs"
    by (intro trim_join) auto
  with split_join [OF assms(1,2)] show ?thesis by simp
qed

section \<open>Properties\<close>

text \<open>
  Parsing an eDonkey link gives back what the link was built from: name, size and hash of a
  file link for every size that fits into 64 bits, and the server address of a server link,
  when no part contains a bar, and the last part is not empty and does not end in a slash.
\<close>

theorem ed2k_link_round_trip:
  assumes "CHR ''|'' \<notin> set name" "CHR ''|'' \<notin> set hash" "hash \<noteq> []" "last hash \<noteq> CHR ''/''" "sz \<le> u64_max"
    and "CHR ''|'' \<notin> set ip" "CHR ''|'' \<notin> set port" "port \<noteq> []" "last port \<noteq> CHR ''/''"
  shows "from_ed2k_link (ed2k_file_link name sz hash) = Ok (ed2k_info [] hash sz (Some name)) \<and>
    from_ed2k_link (ed2k_server_link ip port) = Ok (ed2k_info (ed2k_server_link ip port) [] 0 None)"
proof
  have "split_on (CHR ''|'') (trim_end_matches {CHR ''/'', CHR ''|''}
      (join_with (CHR ''|'') [''file'', name, show_nat sz, hash] @ ''|/'')) = [''file'', name, show_nat sz, hash]"
    using assms show_nat_no_bar by (intro split_link) auto
  with parse_show_u64 [OF assms(5)]
  show "from_ed2k_link (ed2k_file_link name sz hash) = Ok (ed2k_info [] hash sz (Some name))"
    unfolding from_ed2k_link_def ed2k_file_link_def strip_prefix_append option.case Let_def by simp
  have "split_on (CHR ''|'') (trim_end_matches {CHR ''/'', CHR ''|''}
      (join_with (CHR ''|'') [''server'', ip, port] @ ''|/'')) = [''server'', ip, port]"
    using assms by (intro split_link) auto
  then show "from_ed2k_link (ed2k_server_link ip port) = Ok (ed2k_info (ed2k_server_link ip port) [] 0 None)"
    unfolding from_ed2k_link_def ed2k_server_link_def strip_prefix_append option.case Let_def by simp
qed

theorem ed2k_link_round_trip_witness:
  "from_ed2k_link (ed2k_file_link ''a.iso'' 42 ''31D6CFE0'') = Ok (ed2k_info [] ''31D6CFE0'' 42 (Some ''a.iso'')) \<and>
   from_ed2k_link (ed2k_server_link ''1.2.3.4'' ''4661'') = Ok (ed2k_info (ed2k_server_link ''1.2.3.4'' ''4661'') [] 0 None)"
  by (rule ed2k_link_round_trip) (simp_all add: u64_max_def)

end
