(* ===== verification/DownloadRecovery.thy ===== *)
theory DownloadRecovery
  imports ChunkManager DhtModels
begin

text \<open>
  Resuming interrupted peer-to-peer downloads: \<^verbatim>\<open>src-tauri/src/p2p_download_recovery.rs\<close>. A download
  is a record with one entry per 256 KiB chunk, kept next to the temporary file as a JSON
  document. Serde is third-party: encoding and decoding are function arguments, and only
  that decoding undoes encoding is assumed of them. Clock readings are arguments; inside a
  loop they are a function of the chunk index.

  Shown: the chunk table tiles the file; the byte counter is the size of the verified chunks
  under every sequence of operations in which the table is not initialised again over verified chunks, so completeness and the counter agree; verification
  only leaves chunks verified whose content has the expected hash; the persisted document
  is replaced atomically and read back as it was; at most three resumes run at once. Also
  shown is a defect: a received chunk without a known hash is neither verified nor fetched
  again, so such a download never completes.
\<close>

section \<open>Data\<close>

definition CHUNK_SIZE :: u64 where "CHUNK_SIZE = 256 * 1024"

definition MAX_RESUMES :: usize where "MAX_RESUMES = 3"

text \<open>The semaphore is its number of free permits; the permits handed out are listed with their holders.\<close>

record recovery_svc =
  rs_permits :: usize
  rs_dl_dir :: path

datatype dl_chunk_state = ChPending | ChDownloaded | ChVerified | ChFailed

record dl_chunk =
  dc_idx :: u32
  dc_offset :: u64
  dc_size :: u32
  dc_hash :: "string option"
  dc_state :: dl_chunk_state

record dl_state =
  dl_version :: u32
  dl_merkle_root :: string
  dl_file_name :: string
  dl_file_size :: u64
  dl_tmp_path :: string
  dl_dst_path :: string
  dl_chunks :: "dl_chunk list"
  dl_verified_bytes :: u64
  dl_peers :: "string list"
  dl_manifest :: "string option"
  dl_encrypted :: bool
  dl_updated_at :: u64

record chunk_stats =
  cs_total :: usize
  cs_pending :: usize
  cs_downloaded :: usize
  cs_verified :: usize
  cs_failed :: usize

record verify_result =
  vr_total :: usize
  vr_verified :: usize
  vr_failed :: usize
  vr_skipped :: usize

record recover_info =
  ri_merkle_root :: string
  ri_file_name :: string
  ri_file_size :: u64
  ri_progress :: f32
  ri_verified_bytes :: u64
  ri_pending_cnt :: usize
  ri_peers :: "string list"
  ri_tmp_path :: string
  ri_dst_path :: string

record recovery_plan =
  rp_state :: dl_state
  rp_to_fetch :: "u32 list"
  rp_verified :: bool
  rp_verify_res :: "verify_result option"

datatype recovery_error =
    MkdirFailed io_error
  | SerializeFailed
  | WriteTmpFailed io_error
  | RenameFailed io_error
  | LoadReadFailed io_error
  | ParseFailed
  | VersionUnsupported u32
  | OpenFailed
  | SeekFailed u32
  | SpaceCheckFailed
  | TmpMissing

section \<open>The service\<close>

definition new_recovery_svc :: "path \<Rightarrow> recovery_svc" where
  "new_recovery_svc dir = \<lparr>rs_permits = MAX_RESUMES, rs_dl_dir = dir\<rparr>"

text \<open>\<open>acquire\<close> waits while no permit is free: \<open>None\<close>. The semaphore is never closed.\<close>

definition acquire :: "recovery_svc \<Rightarrow> recovery_svc option" where
  "acquire s = (if rs_permits s = 0 then None else Some (s\<lparr>rs_permits := rs_permits s - 1\<rparr>))"

text \<open>Dropping a permit gives it back.\<close>

definition drop_permit :: "recovery_svc \<Rightarrow> recovery_svc" where
  "drop_permit s = s\<lparr>rs_permits := rs_permits s + 1\<rparr>"

definition available :: "recovery_svc \<Rightarrow> usize" where
  "available s = rs_permits s"

section \<open>Chunks\<close>

definition chunk_new :: "u32 \<Rightarrow> u64 \<Rightarrow> u32 \<Rightarrow> string option \<Rightarrow> dl_chunk" where
  "chunk_new idx offset sz hash = \<lparr>dc_idx = idx, dc_offset = offset, dc_size = sz, dc_hash = hash, dc_state = ChPending\<rparr>"

definition offset_for :: "u32 \<Rightarrow> u64" where
  "offset_for idx = wmul64 idx CHUNK_SIZE"

definition size_for :: "u32 \<Rightarrow> u64 \<Rightarrow> u32" where
  "size_for idx file_size = min (sat_sub file_size (offset_for idx)) CHUNK_SIZE mod 2 ^ 32"

definition dl_new :: "u64 \<Rightarrow> string \<Rightarrow> string \<Rightarrow> u64 \<Rightarrow> string \<Rightarrow> string \<Rightarrow> dl_state" where
  "dl_new now merkle_root fname file_size tmp_path dst_path =
     \<lparr>dl_version = 1, dl_merkle_root = merkle_root, dl_file_name = fname, dl_file_size = file_size,
      dl_tmp_path = tmp_path, dl_dst_path = dst_path, dl_chunks = [], dl_verified_bytes = 0, dl_peers = [],
      dl_manifest = None, dl_encrypted = False, dl_updated_at = now\<rparr>"

definition chunk_count :: "u64 \<Rightarrow> u32" where
  "chunk_count file_size = (wsub64 (wadd64 file_size CHUNK_SIZE) 1 div CHUNK_SIZE) mod 2 ^ 32"

definition nth_hash :: "string list option \<Rightarrow> nat \<Rightarrow> string option" where
  "nth_hash hashes i = (case hashes of None \<Rightarrow> None | Some hs \<Rightarrow> if i < length hs then Some (hs ! i) else None)"

definition init_chunks :: "string list option \<Rightarrow> dl_state \<Rightarrow> dl_state" where
  "init_chunks hashes s = s\<lparr>dl_chunks :=
     map (\<lambda>i. let offset = wmul64 i CHUNK_SIZE;
                  sz = min (sat_sub (dl_file_size s) offset) CHUNK_SIZE mod 2 ^ 32
              in chunk_new i offset sz (nth_hash hashes i)) [0..<chunk_count (dl_file_size s)]\<rparr>"

section \<open>Marking chunks\<close>

definition set_chunk :: "u32 \<Rightarrow> dl_chunk_state \<Rightarrow> dl_state \<Rightarrow> dl_state" where
  "set_chunk idx st s = s\<lparr>dl_chunks := (dl_chunks s)[idx := (dl_chunks s ! idx)\<lparr>dc_state := st\<rparr>]\<rparr>"

definition touch :: "u64 \<Rightarrow> dl_state \<Rightarrow> dl_state" where
  "touch now s = s\<lparr>dl_updated_at := now\<rparr>"

definition mark_downloaded :: "u64 \<Rightarrow> u32 \<Rightarrow> dl_state \<Rightarrow> dl_state" where
  "mark_downloaded now idx s =
     (if idx < length (dl_chunks s) \<and> dc_state (dl_chunks s ! idx) = ChPending
      then touch now (set_chunk idx ChDownloaded s) else s)"

definition mark_verified :: "u64 \<Rightarrow> u32 \<Rightarrow> dl_state \<Rightarrow> dl_state" where
  "mark_verified now idx s =
     (if idx < length (dl_chunks s) \<and> dc_state (dl_chunks s ! idx) \<noteq> ChVerified
      then touch now ((set_chunk idx ChVerified s)
             \<lparr>dl_verified_bytes := wadd64 (dl_verified_bytes s) (dc_size (dl_chunks s ! idx))\<rparr>)
      else s)"

definition mark_failed :: "u64 \<Rightarrow> u32 \<Rightarrow> dl_state \<Rightarrow> dl_state" where
  "mark_failed now idx s =
     (if idx < length (dl_chunks s)
      then let s1 = (if dc_state (dl_chunks s ! idx) = ChVerified
                     then s\<lparr>dl_verified_bytes := sat_sub (dl_verified_bytes s) (dc_size (dl_chunks s ! idx))\<rparr> else s)
           in touch now (set_chunk idx ChFailed s1)
      else s)"

definition batch_download_one :: "dl_state \<Rightarrow> u32 \<Rightarrow> dl_state" where
  "batch_download_one s idx =
     (if idx < length (dl_chunks s) \<and> dc_state (dl_chunks s ! idx) = ChPending then set_chunk idx ChDownloaded s else s)"

definition mark_batch_downloaded :: "u64 \<Rightarrow> u32 list \<Rightarrow> dl_state \<Rightarrow> dl_state" where
  "mark_batch_downloaded now indices s = touch now (foldl batch_download_one s indices)"

definition batch_verify_one :: "dl_state \<Rightarrow> u32 \<Rightarrow> dl_state" where
  "batch_verify_one s idx =
     (if idx < length (dl_chunks s) \<and> dc_state (dl_chunks s ! idx) \<noteq> ChVerified
      then (set_chunk idx ChVerified s)\<lparr>dl_verified_bytes := wadd64 (dl_verified_bytes s) (dc_size (dl_chunks s ! idx))\<rparr>
      else s)"

definition mark_batch_verified :: "u64 \<Rightarrow> u32 list \<Rightarrow> dl_state \<Rightarrow> dl_state" where
  "mark_batch_verified now indices s = touch now (foldl batch_verify_one s indices)"

definition unfail :: "dl_chunk \<Rightarrow> dl_chunk" where
  "unfail c = (if dc_state c = ChFailed then c\<lparr>dc_state := ChPending\<rparr> else c)"

definition reset_failed :: "u64 \<Rightarrow> dl_state \<Rightarrow> usize \<times> dl_state" where
  "reset_failed now s =
     (let cnt = length (filter (\<lambda>c. dc_state c = ChFailed) (dl_chunks s));
          s1 = s\<lparr>dl_chunks := map unfail (dl_chunks s)\<rparr>
      in (cnt, if 0 < cnt then touch now s1 else s1))"

section \<open>Queries\<close>

definition chunk_cnt :: "dl_state \<Rightarrow> usize" where
  "chunk_cnt s = length (dl_chunks s)"

definition get_chunk :: "u32 \<Rightarrow> dl_state \<Rightarrow> dl_chunk option" where
  "get_chunk idx s = (if idx < length (dl_chunks s) then Some (dl_chunks s ! idx) else None)"

definition wanted :: "dl_chunk \<Rightarrow> bool" where
  "wanted c = (dc_state c = ChPending \<or> dc_state c = ChFailed)"

definition pending_chunks :: "dl_state \<Rightarrow> u32 list" where
  "pending_chunks s = map dc_idx (filter wanted (dl_chunks s))"

definition first_pending :: "dl_state \<Rightarrow> u32 option" where
  "first_pending s = map_option dc_idx (find wanted (dl_chunks s))"

definition unverified_chunks :: "dl_state \<Rightarrow> u32 list" where
  "unverified_chunks s = map dc_idx (filter (\<lambda>c. dc_state c = ChDownloaded) (dl_chunks s))"

definition dl_is_complete :: "dl_state \<Rightarrow> bool" where
  "dl_is_complete s = (dl_chunks s = [] \<or> list_all (\<lambda>c. dc_state c = ChVerified) (dl_chunks s))"

definition progress :: "dl_state \<Rightarrow> f32" where
  "progress s = (if dl_file_size s = 0 then F_Fin 1
     else f32_div (f32_of_u64 (dl_verified_bytes s)) (f32_of_u64 (dl_file_size s)))"

text \<open>What a caller of \<open>get_chunk_mut\<close> does to the chunk is an argument.\<close>

definition get_chunk_mut :: "u32 \<Rightarrow> (dl_chunk \<Rightarrow> dl_chunk) \<Rightarrow> dl_state \<Rightarrow> dl_state" where
  "get_chunk_mut idx f s = (if idx < length (dl_chunks s) then s\<lparr>dl_chunks := (dl_chunks s)[idx := f (dl_chunks s ! idx)]\<rparr> else s)"

definition dl_add_peer :: "u64 \<Rightarrow> string \<Rightarrow> dl_state \<Rightarrow> dl_state" where
  "dl_add_peer now peer s =
     (if peer \<in> set (dl_peers s) then s else touch now (s\<lparr>dl_peers := dl_peers s @ [peer]\<rparr>))"

definition dl_remove_peer :: "u64 \<Rightarrow> string \<Rightarrow> dl_state \<Rightarrow> bool \<times> dl_state" where
  "dl_remove_peer now peer s =
     (if peer \<in> set (dl_peers s) then (True, touch now (s\<lparr>dl_peers := remove1 peer (dl_peers s)\<rparr>)) else (False, s))"

definition peer_cnt :: "dl_state \<Rightarrow> usize" where
  "peer_cnt s = length (dl_peers s)"

definition is_stalled :: "u64 \<Rightarrow> u64 \<Rightarrow> dl_state \<Rightarrow> bool" where
  "is_stalled now secs s = (secs < sat_sub now (dl_updated_at s))"

definition set_encrypted :: "u64 \<Rightarrow> bool \<Rightarrow> dl_state \<Rightarrow> dl_state" where
  "set_encrypted now enc s = touch now (s\<lparr>dl_encrypted := enc\<rparr>)"

definition set_manifest :: "u64 \<Rightarrow> string \<Rightarrow> dl_state \<Rightarrow> dl_state" where
  "set_manifest now json s = touch now (s\<lparr>dl_manifest := Some json\<rparr>)"

fun count_chunk :: "chunk_stats \<Rightarrow> dl_chunk_state \<Rightarrow> chunk_stats" where
  "count_chunk r ChPending = r\<lparr>cs_pending := cs_pending r + 1\<rparr>"
| "count_chunk r ChDownloaded = r\<lparr>cs_downloaded := cs_downloaded r + 1\<rparr>"
| "count_chunk r ChVerified = r\<lparr>cs_verified := cs_verified r + 1\<rparr>"
| "count_chunk r ChFailed = r\<lparr>cs_failed := cs_failed r + 1\<rparr>"

definition stats :: "dl_state \<Rightarrow> chunk_stats" where
  "stats s = (foldl (\<lambda>r c. count_chunk r (dc_state c))
     \<lparr>cs_total = 0, cs_pending = 0, cs_downloaded = 0, cs_verified = 0, cs_failed = 0\<rparr> (dl_chunks s))
       \<lparr>cs_total := length (dl_chunks s)\<rparr>"

definition recover_info_from :: "dl_state \<Rightarrow> recover_info" where
  "recover_info_from s = \<lparr>ri_merkle_root = dl_merkle_root s, ri_file_name = dl_file_name s, ri_file_size = dl_file_size s,
     ri_progress = progress s, ri_verified_bytes = dl_verified_bytes s, ri_pending_cnt = length (pending_chunks s),
     ri_peers = dl_peers s, ri_tmp_path = dl_tmp_path s, ri_dst_path = dl_dst_path s\<rparr>"

section \<open>Persistence\<close>

definition meta_path :: "path \<Rightarrow> path" where
  "meta_path tmp = with_file_name tmp
     (''.'' @ (case file_name tmp of Some n \<Rightarrow> n | None \<Rightarrow> ''dl'') @ ''.chiral.p2p.meta.json'')"

definition persist ::
  "io_env \<Rightarrow> (dl_state \<Rightarrow> bytes option) \<Rightarrow> dl_state \<Rightarrow> disk \<Rightarrow> (recovery_error, unit) result \<times> disk" where
  "persist env to_json s d =
     (let p = meta_path (path_of_string (dl_tmp_path s)) in
      case (case parent p of None \<Rightarrow> Ok () | Some dir \<Rightarrow> fs_mkdir env dir) of
        Inl e \<Rightarrow> (Err (MkdirFailed e), d)
      | Inr _ \<Rightarrow>
          case to_json s of
            None \<Rightarrow> (Err SerializeFailed, d)
          | Some data \<Rightarrow>
              let tmp_meta = with_extension p ''tmp'' in
              case fs_write env tmp_meta data d of
                (Inl e, d1) \<Rightarrow> (Err (WriteTmpFailed e), d1)
              | (Inr _, d1) \<Rightarrow>
                  case fs_rename env tmp_meta p d1 of
                    (Inl e, d2) \<Rightarrow> (Err (RenameFailed e), d2)
                  | (Inr _, d2) \<Rightarrow> (Ok (), d2))"

definition load_state ::
  "io_env \<Rightarrow> (bytes \<Rightarrow> dl_state option) \<Rightarrow> path \<Rightarrow> disk \<Rightarrow> (recovery_error, dl_state) result" where
  "load_state env from_json p d =
     (case fs_read env p d of
        Inl e \<Rightarrow> Err (LoadReadFailed e)
      | Inr data \<Rightarrow>
          case from_json data of
            None \<Rightarrow> Err ParseFailed
          | Some s \<Rightarrow> if 1 < dl_version s then Err (VersionUnsupported (dl_version s)) else Ok s)"

definition remove_meta :: "io_env \<Rightarrow> path \<Rightarrow> disk \<Rightarrow> disk" where
  "remove_meta env tmp d = snd (fs_remove env (meta_path tmp) d)"

text \<open>One directory entry; the accumulator holds the downloads found so far.\<close>

definition scan_entry ::
  "io_env \<Rightarrow> (bytes \<Rightarrow> dl_state option) \<Rightarrow> dl_state list \<times> disk \<Rightarrow> path \<Rightarrow> dl_state list \<times> disk" where
  "scan_entry env from_json acc p =
     (case acc of (res, d) \<Rightarrow>
        if ends_with ''.chiral.p2p.meta.json'' (case file_name p of Some n \<Rightarrow> n | None \<Rightarrow> [])
        then case load_state env from_json p d of
               Inr s \<Rightarrow> if \<not> dl_is_complete s then (res @ [s], d) else (res, snd (fs_remove env p d))
             | Inl _ \<Rightarrow> (res, d)
        else (res, d))"

text \<open>\<open>entries\<close> is the listing of the directory, \<open>None\<close> when reading it fails.\<close>

definition scan_incomplete ::
  "io_env \<Rightarrow> (bytes \<Rightarrow> dl_state option) \<Rightarrow> path list option \<Rightarrow> disk \<Rightarrow> dl_state list \<times> disk" where
  "scan_incomplete env from_json entries d =
     (case entries of None \<Rightarrow> ([], d) | Some ps \<Rightarrow> foldl (scan_entry env from_json) ([], d) ps)"

section \<open>Verification\<close>

definition verify_chunk ::
  "io_env \<Rightarrow> (bytes \<Rightarrow> bytes) \<Rightarrow> path \<Rightarrow> dl_chunk \<Rightarrow> disk \<Rightarrow> (recovery_error, bool) result" where
  "verify_chunk env sha file c d =
     (case dc_hash c of
        None \<Rightarrow> Ok True
      | Some expected \<Rightarrow>
          case d file of
            None \<Rightarrow> Err OpenFailed
          | Some content \<Rightarrow>
              if io_fails env (IoOpen file) then Err OpenFailed
              else if io_fails env (IoSeek file (dc_offset c)) then Err (SeekFailed (dc_idx c))
              else if io_fails env (IoRead file) then Ok False
              else case read_exact (dc_offset c) (dc_size c) content of
                     None \<Rightarrow> Ok False
                   | Some buf \<Rightarrow> Ok (eq_ignore_ascii_case (hex_encode (sha buf)) expected))"

definition verify_one ::
  "io_env \<Rightarrow> (bytes \<Rightarrow> bytes) \<Rightarrow> (u32 \<Rightarrow> u64) \<Rightarrow> path \<Rightarrow> disk \<Rightarrow> verify_result \<times> dl_state \<Rightarrow> dl_chunk \<Rightarrow> verify_result \<times> dl_state" where
  "verify_one env sha clock tmp d acc c =
     (case acc of (r, s) \<Rightarrow>
        if dc_hash c = None then (r\<lparr>vr_skipped := vr_skipped r + 1\<rparr>, s)
        else if verify_chunk env sha tmp c d = Ok True
        then (r\<lparr>vr_verified := vr_verified r + 1\<rparr>, mark_verified (clock (dc_idx c)) (dc_idx c) s)
        else (r\<lparr>vr_failed := vr_failed r + 1\<rparr>, mark_failed (clock (dc_idx c)) (dc_idx c) s))"

definition to_verify :: "dl_state \<Rightarrow> dl_chunk list" where
  "to_verify s = filter (\<lambda>c. dc_state c = ChDownloaded \<or> dc_state c = ChVerified) (dl_chunks s)"

definition verify_all ::
  "io_env \<Rightarrow> (bytes \<Rightarrow> bytes) \<Rightarrow> (u32 \<Rightarrow> u64) \<Rightarrow> disk \<Rightarrow> dl_state \<Rightarrow> verify_result \<times> dl_state" where
  "verify_all env sha clock d s =
     (let tmp = path_of_string (dl_tmp_path s) in
      if \<not> fs_exists env tmp d
      then (\<lparr>vr_total = length (dl_chunks s), vr_verified = 0, vr_failed = 0, vr_skipped = length (dl_chunks s)\<rparr>, s)
      else foldl (verify_one env sha clock tmp d)
             (\<lparr>vr_total = length (dl_chunks s), vr_verified = 0, vr_failed = 0, vr_skipped = 0\<rparr>, s) (to_verify s))"

section \<open>Recovery\<close>

definition check_space :: "(path \<Rightarrow> bool) \<Rightarrow> (path \<Rightarrow> u64 option) \<Rightarrow> path \<Rightarrow> u64 \<Rightarrow> (recovery_error, bool) result" where
  "check_space is_dir available_space p needed =
     (let dir = (if is_dir p then p else case parent p of Some q \<Rightarrow> q | None \<Rightarrow> [])
      in case available_space dir of Some avail \<Rightarrow> Ok (needed \<le> avail) | None \<Rightarrow> Err SpaceCheckFailed)"

definition parse_hashes :: "(string \<Rightarrow> file_manifest option) \<Rightarrow> string \<Rightarrow> string list option" where
  "parse_hashes parse_manifest json = map_option (\<lambda>m. map ci_hash (fm_chunks m)) (parse_manifest json)"

definition add_providers :: "u64 \<Rightarrow> string list \<Rightarrow> dl_state \<Rightarrow> dl_state" where
  "add_providers now providers s = foldl (\<lambda>t p. dl_add_peer now p t) s providers"

definition from_metadata ::
  "(string \<Rightarrow> file_manifest option) \<Rightarrow> u64 \<Rightarrow> file_metadata \<Rightarrow> string \<Rightarrow> string \<Rightarrow> dl_state" where
  "from_metadata parse_manifest now md tmp_path dst_path =
     (let s0 = dl_new now (md_merkle_root md) (md_file_name md) (md_file_size md) tmp_path dst_path;
          hashes = (case md_manifest md of None \<Rightarrow> None | Some j \<Rightarrow> parse_hashes parse_manifest j);
          s1 = init_chunks hashes s0;
          s2 = foldl (\<lambda>t p. dl_add_peer now p t) s1 (md_seeders md)
      in s2\<lparr>dl_manifest := md_manifest md, dl_encrypted := md_is_encrypted md\<rparr>)"

text \<open>\<open>received\<close> is a hash set; its iteration order is the argument.\<close>

definition sync_received :: "u64 \<Rightarrow> u32 list \<Rightarrow> dl_state \<Rightarrow> dl_state" where
  "sync_received now received s = touch now (foldl batch_download_one s received)"

definition plan_recovery ::
  "io_env \<Rightarrow> (bytes \<Rightarrow> bytes) \<Rightarrow> (u32 \<Rightarrow> u64) \<Rightarrow> disk \<Rightarrow> dl_state \<Rightarrow> bool \<Rightarrow> recovery_plan" where
  "plan_recovery env sha clock d s verify =
     (let (res, s1) = (if verify then (case verify_all env sha clock d s of (r, t) \<Rightarrow> (Some r, t)) else (None, s))
      in \<lparr>rp_state = s1, rp_to_fetch = pending_chunks s1, rp_verified = verify, rp_verify_res = res\<rparr>)"

definition finalize :: "io_env \<Rightarrow> dl_state \<Rightarrow> disk \<Rightarrow> (recovery_error, unit) result \<times> disk" where
  "finalize env s d =
     (let tmp = path_of_string (dl_tmp_path s); dst = path_of_string (dl_dst_path s) in
      if \<not> fs_exists env tmp d then (Err TmpMissing, d)
      else case fs_rename env tmp dst d of
             (Inl e, d1) \<Rightarrow> (Err (RenameFailed e), d1)
           | (Inr _, d1) \<Rightarrow> (Ok (), remove_meta env tmp d1))"

definition to_file_meta :: "dl_state \<Rightarrow> file_metadata" where
  "to_file_meta s = default_file_metadata\<lparr>md_merkle_root := dl_merkle_root s, md_file_name := dl_file_name s,
     md_file_size := dl_file_size s, md_seeders := dl_peers s, md_is_encrypted := dl_encrypted s,
     md_manifest := dl_manifest s, md_download_path := Some (dl_dst_path s)\<rparr>"

section \<open>The chunk table\<close>

definition vbytes :: "dl_chunk list \<Rightarrow> nat" where
  "vbytes cs = sum_list (map dc_size (filter (\<lambda>c. dc_state c = ChVerified) cs))"

text \<open>The table tiles the file, chunks are numbered by position, and the counter is what is verified.\<close>

definition dl_wf :: "dl_state \<Rightarrow> bool" where
  "dl_wf s \<longleftrightarrow> dl_file_size s < 2 ^ 64 \<and> sum_list (map dc_size (dl_chunks s)) = dl_file_size s \<and>
     0 \<notin> set (map dc_size (dl_chunks s)) \<and> map dc_idx (dl_chunks s) = [0..<length (dl_chunks s)] \<and>
     dl_verified_bytes s = vbytes (dl_chunks s)"

lemma vbytes_update:
  assumes "i < length cs"
  shows "vbytes (cs[i := c]) + (if dc_state (cs ! i) = ChVerified then dc_size (cs ! i) else 0)
       = vbytes cs + (if dc_state c = ChVerified then dc_size c else 0)"
  using assms
proof (induction cs arbitrary: i)
  case (Cons x xs)
  show ?case
  proof (cases i)
    case (Suc j)
    with Cons.prems Cons.IH [of j] show ?thesis by (auto simp: vbytes_def)
  qed (simp add: vbytes_def)
qed simp

lemma vbytes_le: "vbytes cs \<le> sum_list (map dc_size cs)"
  by (induction cs) (auto simp: vbytes_def)

lemma vbytes_full:
  assumes "0 \<notin> set (map dc_size cs)"
  shows "vbytes cs = sum_list (map dc_size cs) \<longleftrightarrow> list_all (\<lambda>c. dc_state c = ChVerified) cs"
  using assms
proof (induction cs)
  case (Cons c cs)
  with vbytes_le [of cs] show ?case by (auto simp: vbytes_def)
qed (simp add: vbytes_def)

text \<open>Changing the state of one chunk changes nothing else of the table.\<close>

lemma restate_map:
  assumes "\<And>c. f (c\<lparr>dc_state := st\<rparr>) = f c"
  shows "map f (cs[i := (cs ! i)\<lparr>dc_state := st\<rparr>]) = map f cs"
  using assms by (cases "i < length cs") (simp_all add: map_update list_update_same_conv list_update_beyond)

lemma set_chunk_chunks [simp]: "dl_chunks (set_chunk i st s) = (dl_chunks s)[i := (dl_chunks s ! i)\<lparr>dc_state := st\<rparr>]"
  by (simp add: set_chunk_def)

lemma set_chunk_other [simp]: "dl_file_size (set_chunk i st s) = dl_file_size s"
  "dl_verified_bytes (set_chunk i st s) = dl_verified_bytes s" "dl_tmp_path (set_chunk i st s) = dl_tmp_path s"
  by (simp_all add: set_chunk_def)

lemma touch_keeps [simp]: "dl_chunks (touch now s) = dl_chunks s" "dl_file_size (touch now s) = dl_file_size s"
  "dl_verified_bytes (touch now s) = dl_verified_bytes s"
  by (simp_all add: touch_def)

lemma dl_wf_cong:
  "dl_chunks t = dl_chunks s \<Longrightarrow> dl_file_size t = dl_file_size s \<Longrightarrow> dl_verified_bytes t = dl_verified_bytes s \<Longrightarrow> dl_wf t = dl_wf s"
  by (simp add: dl_wf_def)

lemma dl_wf_touch [simp]: "dl_wf (touch now s) = dl_wf s"
  by (rule dl_wf_cong) simp_all

lemma dl_wf_fields [simp]: "dl_wf (s\<lparr>dl_encrypted := e\<rparr>) = dl_wf s" "dl_wf (s\<lparr>dl_manifest := j\<rparr>) = dl_wf s"
  "dl_wf (s\<lparr>dl_peers := ps\<rparr>) = dl_wf s"
  by (simp_all add: dl_wf_def)

lemma dl_wf_restate:
  assumes "dl_wf s" "i < length (dl_chunks s)" "dl_file_size t = dl_file_size s"
    and "dl_chunks t = (dl_chunks s)[i := (dl_chunks s ! i)\<lparr>dc_state := st\<rparr>]" "dl_verified_bytes t = vbytes (dl_chunks t)"
  shows "dl_wf t"
  using assms by (simp add: dl_wf_def restate_map)

text \<open>The counter cannot wrap: it stays below the file size.\<close>

lemma verified_room:
  assumes "dl_wf s" "i < length (dl_chunks s)" "dc_state (dl_chunks s ! i) \<noteq> ChVerified"
  shows "wadd64 (dl_verified_bytes s) (dc_size (dl_chunks s ! i)) = vbytes ((dl_chunks s)[i := (dl_chunks s ! i)\<lparr>dc_state := ChVerified\<rparr>])"
proof -
  let ?cs = "(dl_chunks s)[i := (dl_chunks s ! i)\<lparr>dc_state := ChVerified\<rparr>]"
  have "vbytes ?cs = dl_verified_bytes s + dc_size (dl_chunks s ! i)"
    using vbytes_update [OF assms(2), of "(dl_chunks s ! i)\<lparr>dc_state := ChVerified\<rparr>"] assms by (simp add: dl_wf_def)
  moreover have "vbytes ?cs \<le> sum_list (map dc_size (dl_chunks s))"
    using vbytes_le [of ?cs] by (simp add: restate_map)
  moreover have "sum_list (map dc_size (dl_chunks s)) < 2 ^ 64" using assms(1) by (simp add: dl_wf_def)
  ultimately show ?thesis by (simp add: wadd64_no_overflow)
qed

section \<open>Every operation keeps the table\<close>

lemma batch_verify_one_wf: "dl_wf s \<Longrightarrow> dl_wf (batch_verify_one s i)"
  unfolding batch_verify_one_def by (auto intro!: dl_wf_restate [of s i] simp: verified_room)

lemma mark_verified_touch: "mark_verified now i s = (if i < length (dl_chunks s) \<and> dc_state (dl_chunks s ! i) \<noteq> ChVerified
    then touch now (batch_verify_one s i) else s)"
  by (simp add: mark_verified_def batch_verify_one_def)

lemma mark_verified_wf: "dl_wf s \<Longrightarrow> dl_wf (mark_verified now i s)"
  by (simp add: mark_verified_touch batch_verify_one_wf)

lemma mark_failed_wf: "dl_wf s \<Longrightarrow> dl_wf (mark_failed now i s)"
proof -
  assume wf: "dl_wf s"
  show ?thesis
  proof (cases "i < length (dl_chunks s)")
    case True
    let ?t = "mark_failed now i s"
    have t: "dl_chunks ?t = (dl_chunks s)[i := (dl_chunks s ! i)\<lparr>dc_state := ChFailed\<rparr>]" "dl_file_size ?t = dl_file_size s"
      using True by (auto simp: mark_failed_def Let_def)
    have "dl_verified_bytes ?t = vbytes (dl_chunks ?t)"
      using vbytes_update [OF True, of "(dl_chunks s ! i)\<lparr>dc_state := ChFailed\<rparr>"] wf True
      unfolding t by (auto simp: mark_failed_def dl_wf_def sat_sub_def Let_def)
    with wf True t show ?thesis by (auto intro: dl_wf_restate)
  qed (use wf in \<open>simp add: mark_failed_def\<close>)
qed

lemma batch_download_one_wf: "dl_wf s \<Longrightarrow> dl_wf (batch_download_one s i)"
proof -
  assume wf: "dl_wf s"
  have "dl_verified_bytes s = vbytes ((dl_chunks s)[i := (dl_chunks s ! i)\<lparr>dc_state := ChDownloaded\<rparr>])"
    if "i < length (dl_chunks s)" "dc_state (dl_chunks s ! i) = ChPending"
    using vbytes_update [OF that(1), of "(dl_chunks s ! i)\<lparr>dc_state := ChDownloaded\<rparr>"] wf that by (simp add: dl_wf_def)
  with wf show ?thesis unfolding batch_download_one_def by (auto intro!: dl_wf_restate [of s i])
qed

lemma mark_downloaded_wf: "dl_wf s \<Longrightarrow> dl_wf (mark_downloaded now i s)"
  using batch_download_one_wf [of s i] by (auto simp: mark_downloaded_def batch_download_one_def)

lemma foldl_wf: "(\<And>s x. dl_wf s \<Longrightarrow> dl_wf (f s x)) \<Longrightarrow> dl_wf s \<Longrightarrow> dl_wf (foldl f s xs)"
  by (induction xs arbitrary: s) auto

lemma unfail_keeps [simp]: "dc_size (unfail c) = dc_size c" "dc_idx (unfail c) = dc_idx c"
  "dc_state (unfail c) = ChVerified \<longleftrightarrow> dc_state c = ChVerified"
  by (simp_all add: unfail_def)

lemma vbytes_unfail: "vbytes (map unfail cs) = vbytes cs"
  by (induction cs) (simp_all add: vbytes_def)

lemma reset_failed_wf: "dl_wf s \<Longrightarrow> dl_wf (snd (reset_failed now s))"
  by (simp add: reset_failed_def Let_def dl_wf_def vbytes_unfail o_def image_image)

lemma dl_add_peer_keeps: "dl_chunks (dl_add_peer now p s) = dl_chunks s \<and> dl_file_size (dl_add_peer now p s) = dl_file_size s
    \<and> dl_verified_bytes (dl_add_peer now p s) = dl_verified_bytes s"
  by (simp add: dl_add_peer_def)

lemma add_peers_keep: "dl_chunks (foldl (\<lambda>t p. dl_add_peer now p t) s ps) = dl_chunks s
    \<and> dl_file_size (foldl (\<lambda>t p. dl_add_peer now p t) s ps) = dl_file_size s
    \<and> dl_verified_bytes (foldl (\<lambda>t p. dl_add_peer now p t) s ps) = dl_verified_bytes s"
  by (induction ps arbitrary: s) (simp_all add: dl_add_peer_keeps)

lemma verify_one_wf: "dl_wf (snd acc) \<Longrightarrow> dl_wf (snd (verify_one env sha clock tmp d acc c))"
  by (auto simp: verify_one_def mark_verified_wf mark_failed_wf split: prod.split)

lemma verify_fold_wf: "dl_wf (snd acc) \<Longrightarrow> dl_wf (snd (foldl (verify_one env sha clock tmp d) acc cs))"
  by (induction cs arbitrary: acc) (simp_all add: verify_one_wf)

lemma verify_all_wf: "dl_wf s \<Longrightarrow> dl_wf (snd (verify_all env sha clock d s))"
  by (simp add: verify_all_def Let_def verify_fold_wf)

section \<open>The initial table\<close>

text \<open>Sizes up to almost a pebibyte fit the table's 32-bit chunk count.\<close>

definition small_file :: "u64 \<Rightarrow> bool" where
  "small_file n \<longleftrightarrow> n \<le> (2 ^ 32 - 1) * CHUNK_SIZE"

lemma small_file_bound: "small_file n \<Longrightarrow> n + CHUNK_SIZE < 2 ^ 64" "small_file n \<Longrightarrow> n < 2 ^ 64"
  by (simp_all add: small_file_def CHUNK_SIZE_def)

lemma chunk_count_small: "small_file n \<Longrightarrow> chunk_count n = (n + CHUNK_SIZE - 1) div CHUNK_SIZE"
proof -
  assume small: "small_file n"
  then have "(n + CHUNK_SIZE - 1) div CHUNK_SIZE < 2 ^ 32"
    by (simp add: small_file_def CHUNK_SIZE_def)
  with small_file_bound [OF small] show ?thesis
    by (simp add: chunk_count_def wadd64_no_overflow wsub64_def CHUNK_SIZE_def)
qed

lemma init_chunk:
  assumes "small_file n" "i < chunk_count n"
  shows "wmul64 i CHUNK_SIZE = i * CHUNK_SIZE" "i * CHUNK_SIZE < n"
    "min (sat_sub n (wmul64 i CHUNK_SIZE)) CHUNK_SIZE mod 2 ^ 32 = min n (Suc i * CHUNK_SIZE) - i * CHUNK_SIZE"
proof -
  have lt: "i * CHUNK_SIZE < n"
    using assms by (simp add: chunk_count_small CHUNK_SIZE_def less_eq_div_iff_mult_less_eq flip: Suc_le_eq)
  then show "i * CHUNK_SIZE < n" .
  show mul: "wmul64 i CHUNK_SIZE = i * CHUNK_SIZE"
    using lt small_file_bound(2) [OF assms(1)] by (simp add: wmul64_no_overflow)
  show "min (sat_sub n (wmul64 i CHUNK_SIZE)) CHUNK_SIZE mod 2 ^ 32 = min n (Suc i * CHUNK_SIZE) - i * CHUNK_SIZE"
    unfolding mul by (auto simp: sat_sub_def CHUNK_SIZE_def min_def)
qed

lemma tiles_upto: "(\<Sum>j\<leftarrow>[0..<i]. min n (Suc j * k) - j * k) = min n (i * k)" for n k :: nat
  by (induction i) (auto simp: min_def)

lemma count_covers: "small_file n \<Longrightarrow> n \<le> chunk_count n * CHUNK_SIZE"
  by (simp add: chunk_count_small CHUNK_SIZE_def)

lemma init_sizes:
  assumes "small_file (dl_file_size s)" "i \<le> chunk_count (dl_file_size s)"
  shows "sum_list (map dc_size (take i (dl_chunks (init_chunks hs s)))) = min (dl_file_size s) (i * CHUNK_SIZE)"
proof -
  have "map dc_size (take i (dl_chunks (init_chunks hs s))) = map (\<lambda>j. min (dl_file_size s) (Suc j * CHUNK_SIZE) - j * CHUNK_SIZE) [0..<i]"
    using assms init_chunk(3) [OF assms(1)]
    by (simp add: init_chunks_def take_map min_def chunk_new_def Let_def del: mult_Suc)
  with tiles_upto [of "dl_file_size s" CHUNK_SIZE i] show ?thesis by simp
qed

lemma init_chunks_length [simp]: "length (dl_chunks (init_chunks hs s)) = chunk_count (dl_file_size s)"
  by (simp add: init_chunks_def)

lemma init_chunks_nth:
  assumes "small_file (dl_file_size s)" "i < chunk_count (dl_file_size s)"
  shows "dl_chunks (init_chunks hs s) ! i =
    chunk_new i (i * CHUNK_SIZE) (min (dl_file_size s) (Suc i * CHUNK_SIZE) - i * CHUNK_SIZE) (nth_hash hs i)"
  using assms init_chunk(1,3) [OF assms] by (simp add: init_chunks_def Let_def del: mult_Suc)

lemma init_chunks_wf:
  assumes "small_file (dl_file_size s)" "dl_verified_bytes s = 0"
  shows "dl_wf (init_chunks hs s)"
proof -
  let ?t = "init_chunks hs s"
  have fs: "dl_file_size ?t = dl_file_size s" "dl_verified_bytes ?t = 0" using assms by (simp_all add: init_chunks_def)
  have total: "sum_list (map dc_size (dl_chunks ?t)) = dl_file_size s"
    using init_sizes [OF assms(1) order_refl, of hs] count_covers [OF assms(1)] by simp
  have pos: "0 \<notin> set (map dc_size (dl_chunks ?t))"
  proof
    assume "0 \<in> set (map dc_size (dl_chunks ?t))"
    then obtain i where i: "i < chunk_count (dl_file_size s)" "dc_size (dl_chunks ?t ! i) = 0"
      by (auto simp: in_set_conv_nth)
    with init_chunk(2) [OF assms(1) i(1)] init_chunks_nth [OF assms(1) i(1)] show False
      by (simp add: chunk_new_def CHUNK_SIZE_def)
  qed
  have idx: "map dc_idx (dl_chunks ?t) = [0..<length (dl_chunks ?t)]"
    by (simp add: init_chunks_def chunk_new_def Let_def o_def)
  have "filter (\<lambda>c. dc_state c = ChVerified) (dl_chunks ?t) = []"
    by (auto simp: init_chunks_def chunk_new_def Let_def filter_empty_conv)
  then have "vbytes (dl_chunks ?t) = 0" by (simp add: vbytes_def)
  with fs total pos idx small_file_bound(2) [OF assms(1)] show ?thesis by (simp add: dl_wf_def)
qed

lemma from_metadata_wf:
  assumes "small_file (md_file_size md)"
  shows "dl_wf (from_metadata parse now md tmp dst)"
proof -
  let ?s0 = "dl_new now (md_merkle_root md) (md_file_name md) (md_file_size md) tmp dst"
  let ?hs = "case md_manifest md of None \<Rightarrow> None | Some j \<Rightarrow> parse_hashes parse j"
  let ?t = "from_metadata parse now md tmp dst"
  have "dl_wf (init_chunks ?hs ?s0)"
    by (rule init_chunks_wf) (use assms in \<open>simp_all add: dl_new_def\<close>)
  moreover have "dl_chunks ?t = dl_chunks (init_chunks ?hs ?s0) \<and> dl_file_size ?t = dl_file_size (init_chunks ?hs ?s0)
      \<and> dl_verified_bytes ?t = dl_verified_bytes (init_chunks ?hs ?s0)"
    using add_peers_keep [of now "init_chunks ?hs ?s0" "md_seeders md"] by (simp add: from_metadata_def Let_def)
  ultimately show ?thesis using dl_wf_cong by blast
qed

section \<open>Commands\<close>

text \<open>The commands the user interface calls; \<open>entries\<close> is the listing of the directory.\<close>

definition p2p_scan_incomplete ::
  "io_env \<Rightarrow> (bytes \<Rightarrow> dl_state option) \<Rightarrow> path list option \<Rightarrow> disk \<Rightarrow> (recovery_error, recover_info list) result \<times> disk" where
  "p2p_scan_incomplete env from_json entries d =
     (case scan_incomplete env from_json entries d of (states, d') \<Rightarrow> (Ok (map recover_info_from states), d'))"

definition p2p_get_recovery ::
  "io_env \<Rightarrow> (bytes \<Rightarrow> dl_state option) \<Rightarrow> string \<Rightarrow> disk \<Rightarrow> (recovery_error, recover_info option) result" where
  "p2p_get_recovery env from_json tmp_path d =
     (let p = meta_path (path_of_string tmp_path)
      in if \<not> fs_exists env p d then Ok None
         else rbind (load_state env from_json p d) (\<lambda>s. Ok (Some (recover_info_from s))))"

definition p2p_remove_recovery :: "io_env \<Rightarrow> string \<Rightarrow> disk \<Rightarrow> (recovery_error, unit) result \<times> disk" where
  "p2p_remove_recovery env tmp_path d = (Ok (), remove_meta env (path_of_string tmp_path) d)"

definition p2p_verify_recovery ::
  "io_env \<Rightarrow> (bytes \<Rightarrow> dl_state option) \<Rightarrow> (dl_state \<Rightarrow> bytes option) \<Rightarrow> (bytes \<Rightarrow> bytes) \<Rightarrow> (u32 \<Rightarrow> u64) \<Rightarrow> string \<Rightarrow> disk
     \<Rightarrow> (recovery_error, verify_result) result \<times> disk" where
  "p2p_verify_recovery env from_json to_json sha clock tmp_path d =
     (case load_state env from_json (meta_path (path_of_string tmp_path)) d of
        Inl e \<Rightarrow> (Err e, d)
      | Inr s \<Rightarrow> (case verify_all env sha clock d s of (res, t) \<Rightarrow>
          (case persist env to_json t d of (Inl e, d') \<Rightarrow> (Err e, d') | (Inr _, d') \<Rightarrow> (Ok res, d'))))"

definition p2p_get_stats :: "io_env \<Rightarrow> (bytes \<Rightarrow> dl_state option) \<Rightarrow> string \<Rightarrow> disk \<Rightarrow> (recovery_error, chunk_stats) result" where
  "p2p_get_stats env from_json tmp_path d = rbind (load_state env from_json (meta_path (path_of_string tmp_path)) d) (\<lambda>s. Ok (stats s))"

definition p2p_check_space :: "(path \<Rightarrow> bool) \<Rightarrow> (path \<Rightarrow> u64 option) \<Rightarrow> string \<Rightarrow> u64 \<Rightarrow> (recovery_error, bool) result" where
  "p2p_check_space is_dir available_space p needed = check_space is_dir available_space (path_of_string p) needed"

section \<open>Sequences of operations\<close>

datatype dl_op =
    OpDownloaded u64 u32
  | OpVerified u64 u32
  | OpFailed u64 u32
  | OpBatchDownloaded u64 "u32 list"
  | OpBatchVerified u64 "u32 list"
  | OpResetFailed u64
  | OpAddPeer u64 string
  | OpRemovePeer u64 string
  | OpSetEncrypted u64 bool
  | OpSetManifest u64 string
  | OpSyncReceived u64 "u32 list"
  | OpAddProviders u64 "string list"
  | OpVerifyAll io_env "bytes \<Rightarrow> bytes" "u32 \<Rightarrow> u64" disk
  | OpInitChunks "string list option"
  | OpChunkMut u32 "dl_chunk \<Rightarrow> dl_chunk"

fun dl_exec :: "dl_state \<Rightarrow> dl_op \<Rightarrow> dl_state" where
  "dl_exec s (OpDownloaded now i) = mark_downloaded now i s"
| "dl_exec s (OpVerified now i) = mark_verified now i s"
| "dl_exec s (OpFailed now i) = mark_failed now i s"
| "dl_exec s (OpBatchDownloaded now is) = mark_batch_downloaded now is s"
| "dl_exec s (OpBatchVerified now is) = mark_batch_verified now is s"
| "dl_exec s (OpResetFailed now) = snd (reset_failed now s)"
| "dl_exec s (OpAddPeer now p) = dl_add_peer now p s"
| "dl_exec s (OpRemovePeer now p) = snd (dl_remove_peer now p s)"
| "dl_exec s (OpSetEncrypted now e) = set_encrypted now e s"
| "dl_exec s (OpSetManifest now j) = set_manifest now j s"
| "dl_exec s (OpSyncReceived now is) = sync_received now is s"
| "dl_exec s (OpAddProviders now ps) = add_providers now ps s"
| "dl_exec s (OpVerifyAll env sha clock d) = snd (verify_all env sha clock d s)"
| "dl_exec s (OpInitChunks hashes) = init_chunks hashes s"
| "dl_exec s (OpChunkMut i f) = get_chunk_mut i f s"

text \<open>
  \<open>init_chunks\<close> is for a record none of whose bytes are verified yet, and a caller of \<open>get_chunk_mut\<close> may change the hash of a chunk only: both
  leave the counter alone.
\<close>

fun dl_allowed :: "dl_state \<Rightarrow> dl_op \<Rightarrow> bool" where
  "dl_allowed s (OpInitChunks hashes) = (dl_verified_bytes s = 0 \<and> small_file (dl_file_size s))"
| "dl_allowed s (OpChunkMut i f) =
     (i < length (dl_chunks s) \<longrightarrow> f (dl_chunks s ! i) = (dl_chunks s ! i)\<lparr>dc_hash := dc_hash (f (dl_chunks s ! i))\<rparr>)"
| "dl_allowed s op = True"

fun orderly :: "dl_state \<Rightarrow> dl_op list \<Rightarrow> bool" where
  "orderly s [] = True"
| "orderly s (op # ops) = (dl_allowed s op \<and> orderly (dl_exec s op) ops)"

inductive dl_step :: "dl_state \<Rightarrow> dl_state \<Rightarrow> bool" where
  "dl_allowed s op \<Longrightarrow> dl_step s (dl_exec s op)"

lemma get_chunk_mut_wf:
  assumes "dl_wf s" "i < length (dl_chunks s) \<longrightarrow> f (dl_chunks s ! i) = (dl_chunks s ! i)\<lparr>dc_hash := dc_hash (f (dl_chunks s ! i))\<rparr>"
  shows "dl_wf (get_chunk_mut i f s)"
proof (cases "i < length (dl_chunks s)")
  case True
  let ?c = "dl_chunks s ! i" and ?cs = "(dl_chunks s)[i := f (dl_chunks s ! i)]"
  have f: "dc_size (f ?c) = dc_size ?c" "dc_idx (f ?c) = dc_idx ?c" "dc_state (f ?c) = dc_state ?c" using assms(2) True by (metis dl_chunk.select_convs dl_chunk.surjective dl_chunk.update_convs(4))+
  have same: "map dc_size ?cs = map dc_size (dl_chunks s)" "map dc_idx ?cs = map dc_idx (dl_chunks s)"
    using f True by (simp_all add: map_update list_update_same_conv)
  have "vbytes ?cs = vbytes (dl_chunks s)" using vbytes_update [OF True, of "f ?c"] f by (cases "dc_state ?c = ChVerified") simp_all
  with same assms(1) True show ?thesis by (simp add: dl_wf_def get_chunk_mut_def)
qed (simp add: get_chunk_mut_def assms(1))

lemma dl_exec_wf: "dl_wf s \<Longrightarrow> dl_allowed s op \<Longrightarrow> dl_wf (dl_exec s op)"
proof (induction op)
  case (OpAddPeer now p)
  then show ?case by (simp add: dl_add_peer_def)
next
  case (OpAddProviders now ps)
  have "dl_wf (add_providers now ps s) = dl_wf s"
    unfolding add_providers_def by (rule dl_wf_cong) (simp_all add: add_peers_keep)
  with OpAddProviders show ?case by simp
next
  case (OpRemovePeer now p)
  then show ?case by (simp add: dl_remove_peer_def)
qed (simp_all add: mark_downloaded_wf mark_verified_wf mark_failed_wf mark_batch_downloaded_def mark_batch_verified_def
    reset_failed_wf sync_received_def verify_all_wf set_encrypted_def set_manifest_def foldl_wf batch_download_one_wf batch_verify_one_wf init_chunks_wf get_chunk_mut_wf)

interpretation dl: invariant_machine dl_step dl_wf
  by unfold_locales (auto simp: dl_exec_wf elim: dl_step.cases)

lemma orderly_steps: "orderly s ops \<Longrightarrow> dl_step\<^sup>*\<^sup>* s (foldl dl_exec s ops)"
proof (induction ops arbitrary: s)
  case (Cons op ops)
  then have "dl_step s (dl_exec s op)" "dl_step\<^sup>*\<^sup>* (dl_exec s op) (foldl dl_exec (dl_exec s op) ops)" by (simp_all add: dl_step.intros)
  then show ?case by (simp add: converse_rtranclp_into_rtranclp)
qed simp

lemma progress_range:
  assumes "dl_wf s"
  shows "\<exists>q. progress s = F_Fin q \<and> 0 \<le> q \<and> q \<le> 1 \<and> (dl_verified_bytes s = dl_file_size s \<longrightarrow> q = 1)"
proof (cases "dl_file_size s = 0")
  case False
  have "dl_verified_bytes s \<le> dl_file_size s" using assms vbytes_le [of "dl_chunks s"] by (simp add: dl_wf_def)
  with f32_ratio [of "dl_verified_bytes s" "dl_file_size s"] assms False show ?thesis by (auto simp: progress_def dl_wf_def)
qed (simp add: progress_def)

lemma complete_iff:
  assumes "dl_wf s"
  shows "dl_is_complete s \<longleftrightarrow> dl_verified_bytes s = dl_file_size s"
  using assms vbytes_full [of "dl_chunks s"] by (auto simp: dl_is_complete_def dl_wf_def)

section \<open>Verification\<close>

definition verdict :: "io_env \<Rightarrow> (bytes \<Rightarrow> bytes) \<Rightarrow> path \<Rightarrow> disk \<Rightarrow> dl_chunk \<Rightarrow> dl_chunk_state" where
  "verdict env sha tmp d c = (if verify_chunk env sha tmp c d = Ok True then ChVerified else ChFailed)"

lemma mark_verified_chunks:
  "i < length (dl_chunks s) \<Longrightarrow> dl_chunks (mark_verified now i s) = (dl_chunks s)[i := (dl_chunks s ! i)\<lparr>dc_state := ChVerified\<rparr>]"
proof (cases "dc_state (dl_chunks s ! i) = ChVerified")
  case True
  then have "(dl_chunks s ! i)\<lparr>dc_state := ChVerified\<rparr> = dl_chunks s ! i" by (cases "dl_chunks s ! i") simp
  with True show ?thesis by (simp only: mark_verified_def list_update_id) simp
qed (simp add: mark_verified_def)

lemma mark_failed_chunks:
  "i < length (dl_chunks s) \<Longrightarrow> dl_chunks (mark_failed now i s) = (dl_chunks s)[i := (dl_chunks s ! i)\<lparr>dc_state := ChFailed\<rparr>]"
  by (simp add: mark_failed_def Let_def)

lemma verify_one_chunks:
  assumes "dc_idx c < length (dl_chunks s)"
  shows "dl_chunks (snd (verify_one env sha clock tmp d (r, s) c)) =
    (if dc_hash c = None then dl_chunks s
     else (dl_chunks s)[dc_idx c := (dl_chunks s ! dc_idx c)\<lparr>dc_state := verdict env sha tmp d c\<rparr>])"
  using assms by (simp add: verify_one_def verdict_def mark_verified_chunks mark_failed_chunks)

lemma verify_fold_chunks:
  assumes "\<And>c. c \<in> set cs \<Longrightarrow> dc_idx c < length (dl_chunks s)" "distinct (map dc_idx cs)" "i < length (dl_chunks s)"
  shows "dl_chunks (snd (foldl (verify_one env sha clock tmp d) (r, s) cs)) ! i =
    (case find (\<lambda>c. dc_idx c = i \<and> dc_hash c \<noteq> None) cs of
       None \<Rightarrow> dl_chunks s ! i
     | Some c \<Rightarrow> (dl_chunks s ! i)\<lparr>dc_state := verdict env sha tmp d c\<rparr>)"
  using assms
proof (induction cs arbitrary: r s)
  case (Cons c cs)
  obtain r1 s1 where v: "verify_one env sha clock tmp d (r, s) c = (r1, s1)"
    by (cases "verify_one env sha clock tmp d (r, s) c")
  have s1: "dl_chunks s1 = (if dc_hash c = None then dl_chunks s
      else (dl_chunks s)[dc_idx c := (dl_chunks s ! dc_idx c)\<lparr>dc_state := verdict env sha tmp d c\<rparr>])"
    using verify_one_chunks [of c s env sha clock tmp d r] Cons.prems(1) v by simp
  have len: "length (dl_chunks s1) = length (dl_chunks s)" by (simp add: s1)
  have none: "find (\<lambda>x. dc_idx x = i \<and> dc_hash x \<noteq> None) cs = None" if "dc_idx c = i"
    using Cons.prems(2) that by (auto simp: find_None_iff) (metis image_eqI)
  have "dl_chunks (snd (foldl (verify_one env sha clock tmp d) (r1, s1) cs)) ! i =
    (case find (\<lambda>c. dc_idx c = i \<and> dc_hash c \<noteq> None) cs of
       None \<Rightarrow> dl_chunks s1 ! i | Some c \<Rightarrow> (dl_chunks s1 ! i)\<lparr>dc_state := verdict env sha tmp d c\<rparr>)"
    using Cons.IH [of s1 r1] Cons.prems len by simp
  moreover have "dl_chunks s1 ! i = dl_chunks s ! i" if "dc_idx c \<noteq> i" using that by (simp add: s1)
  ultimately show ?case using none Cons.prems(3) by (cases "dc_idx c = i") (auto simp: v s1 split: option.split)
qed simp

lemma verify_fold_length:
  "length (dl_chunks (snd (foldl (verify_one env sha clock tmp d) acc cs))) = length (dl_chunks (snd acc))"
proof (induction cs arbitrary: acc)
  case (Cons c cs)
  have "length (dl_chunks (snd (verify_one env sha clock tmp d acc c))) = length (dl_chunks (snd acc))"
    by (auto simp: verify_one_def mark_verified_def mark_failed_def Let_def split: prod.split)
  with Cons show ?case by simp
qed simp


lemma nth_idx: "map dc_idx cs = [0..<length cs] \<Longrightarrow> i < length cs \<Longrightarrow> dc_idx (cs ! i) = i"
  by (metis add_0 nth_map nth_upt)

lemma to_verify_find:
  assumes "map dc_idx (dl_chunks s) = [0..<length (dl_chunks s)]" "i < length (dl_chunks s)"
  shows "find (\<lambda>c. dc_idx c = i \<and> dc_hash c \<noteq> None) (to_verify s) =
    (if dc_state (dl_chunks s ! i) \<in> {ChDownloaded, ChVerified} \<and> dc_hash (dl_chunks s ! i) \<noteq> None
     then Some (dl_chunks s ! i) else None)"
proof -
  have only: "c = dl_chunks s ! i" if "c \<in> set (dl_chunks s)" "dc_idx c = i" for c
    using that assms nth_idx [OF assms(1)] by (auto simp: in_set_conv_nth)
  show ?thesis
  proof (cases "find (\<lambda>c. dc_idx c = i \<and> dc_hash c \<noteq> None) (to_verify s)")
    case None
    moreover have "dl_chunks s ! i \<in> set (dl_chunks s)" using assms(2) by simp
    ultimately show ?thesis using nth_idx [OF assms] by (auto simp: find_None_iff to_verify_def)
  next
    case (Some c)
    then have "c \<in> set (to_verify s)" "dc_idx c = i" "dc_hash c \<noteq> None"
      by (auto simp: find_Some_iff)
    with only Some show ?thesis by (auto simp: to_verify_def)
  qed
qed

lemma to_verify_ok:
  assumes "map dc_idx (dl_chunks s) = [0..<length (dl_chunks s)]"
  shows "distinct (map dc_idx (to_verify s))" and "c \<in> set (to_verify s) \<Longrightarrow> dc_idx c < length (dl_chunks s)"
proof -
  have "distinct (map dc_idx (dl_chunks s))" by (simp add: assms)
  then show "distinct (map dc_idx (to_verify s))" unfolding to_verify_def by (rule distinct_map_filter)
  assume "c \<in> set (to_verify s)"
  then have "dc_idx c \<in> set (map dc_idx (dl_chunks s))" by (auto simp: to_verify_def)
  then show "dc_idx c < length (dl_chunks s)" unfolding assms by simp
qed


lemma verify_all_nth:
  assumes "map dc_idx (dl_chunks s) = [0..<length (dl_chunks s)]" "i < length (dl_chunks s)"
  shows "dl_chunks (snd (verify_all env sha clock d s)) ! i =
    (if fs_exists env (path_of_string (dl_tmp_path s)) d \<and> dc_state (dl_chunks s ! i) \<in> {ChDownloaded, ChVerified} \<and>
        dc_hash (dl_chunks s ! i) \<noteq> None
     then (dl_chunks s ! i)\<lparr>dc_state := verdict env sha (path_of_string (dl_tmp_path s)) d (dl_chunks s ! i)\<rparr>
     else dl_chunks s ! i)"
  using verify_fold_chunks [OF to_verify_ok(2,1) [OF assms(1)] assms(2)] to_verify_find [OF assms]
  by (auto simp: verify_all_def Let_def)

lemma verify_all_length: "length (dl_chunks (snd (verify_all env sha clock d s))) = length (dl_chunks s)"
  by (simp add: verify_all_def Let_def verify_fold_length)

section \<open>The metadata file\<close>

text \<open>The name of the metadata file and its temporary name differ in their extensions.\<close>

lemma meta_tmp_distinct: "with_extension (meta_path p) ''tmp'' \<noteq> meta_path p"
proof -
  let ?n = "''.'' @ (case file_name p of Some n \<Rightarrow> n | None \<Rightarrow> ''dl'') @ ''.chiral.p2p.meta''"
  have name: "last (meta_path p) = ?n @ CHR ''.'' # ''json''" by (simp add: meta_path_def with_file_name_def)
  have fn: "file_name (meta_path p) = Some (?n @ CHR ''.'' # ''json'')"
    using name by (simp add: file_name_def meta_path_def with_file_name_def)
  have "file_stem (?n @ CHR ''.'' # ''json'') = ?n" by (rule file_stem_append) simp_all
  with fn have "last (with_extension (meta_path p) ''tmp'') = ?n @ ''.tmp''" by (simp add: with_extension_def)
  with name show ?thesis by auto
qed

lemma persist_write_rename:
  assumes "persist env to_json s d = (r, d')" "p = meta_path (path_of_string (dl_tmp_path s))" "to_json s = Some b"
  shows "(r \<noteq> Ok () \<and> d' = d) \<or>
    (\<exists>w. write_rename env (with_extension p ''tmp'') p b d = (w, d') \<and> (is_ok r \<longleftrightarrow> is_ok w))"
  using assms by (auto simp: persist_def write_rename_def Let_def split: option.splits sum.splits prod.splits)

section \<open>Resuming for ever\<close>

text \<open>
  A resume in the best case: the state is verified or not, the plan's chunks are fetched, and all
  of them arrive and are verified.
\<close>

type_synonym resume_run = "io_env \<times> (bytes \<Rightarrow> bytes) \<times> (u32 \<Rightarrow> u64) \<times> disk \<times> bool \<times> u64"

fun resume_cycle :: "dl_state \<Rightarrow> resume_run \<Rightarrow> dl_state" where
  "resume_cycle s (env, sha, clock, d, v, now) =
     (let plan = plan_recovery env sha clock d s v in mark_batch_verified now (rp_to_fetch plan) (rp_state plan))"

definition hashless_at :: "u32 \<Rightarrow> dl_state \<Rightarrow> bool" where
  "hashless_at i s \<longleftrightarrow> map dc_idx (dl_chunks s) = [0..<length (dl_chunks s)] \<and> i < length (dl_chunks s) \<and>
     dc_state (dl_chunks s ! i) = ChDownloaded \<and> dc_hash (dl_chunks s ! i) = None"

lemma hashless_incomplete: "hashless_at i s \<Longrightarrow> \<not> dl_is_complete s"
  by (auto simp: hashless_at_def dl_is_complete_def list_all_length)

lemma hashless_not_pending: "hashless_at i s \<Longrightarrow> i \<notin> set (pending_chunks s)"
proof
  assume h: "hashless_at i s" and "i \<in> set (pending_chunks s)"
  then obtain c where "c \<in> set (dl_chunks s)" "dc_idx c = i" "wanted c" by (auto simp: pending_chunks_def)
  then obtain j where "j < length (dl_chunks s)" "dl_chunks s ! j = c" by (auto simp: in_set_conv_nth)
  with h nth_idx [of "dl_chunks s" j] \<open>dc_idx c = i\<close> \<open>wanted c\<close> show False by (auto simp: hashless_at_def wanted_def)
qed

lemma verify_all_idx:
  assumes "map dc_idx (dl_chunks s) = [0..<length (dl_chunks s)]"
  shows "map dc_idx (dl_chunks (snd (verify_all env sha clock d s))) = map dc_idx (dl_chunks s)"
  by (rule nth_equalityI) (auto simp: verify_all_length verify_all_nth [OF assms])

lemma plan_state: "rp_state (plan_recovery env sha clock d s v) = (if v then snd (verify_all env sha clock d s) else s)"
  "rp_to_fetch (plan_recovery env sha clock d s v) = pending_chunks (rp_state (plan_recovery env sha clock d s v))"
  by (auto simp: plan_recovery_def Let_def split: prod.split)

lemma hashless_plan: "hashless_at i s \<Longrightarrow> hashless_at i (rp_state (plan_recovery env sha clock d s v))"
  using verify_all_idx [of s] verify_all_nth [of s i] by (auto simp: hashless_at_def plan_state verify_all_length)

lemma batch_verify_fold_other:
  "i \<notin> set is \<Longrightarrow> dl_chunks (foldl batch_verify_one s is) ! i = dl_chunks s ! i"
proof (induction "is" arbitrary: s)
  case (Cons k "is")
  then show ?case by (auto simp: batch_verify_one_def)
qed simp

lemma batch_verify_fold_idx: "map dc_idx (dl_chunks (foldl batch_verify_one s is)) = map dc_idx (dl_chunks s)"
proof (induction "is" arbitrary: s)
  case (Cons k "is")
  then show ?case by (auto simp: batch_verify_one_def restate_map)
qed simp

lemma hashless_cycle: "hashless_at i s \<Longrightarrow> hashless_at i (resume_cycle s run)"
proof -
  assume h: "hashless_at i s"
  obtain env sha clock d v now where run: "run = (env, sha, clock, d, v, now)" by (cases run)
  let ?p = "plan_recovery env sha clock d s v"
  note p = hashless_plan [OF h, of env sha clock d v]
  have "i \<notin> set (rp_to_fetch ?p)" unfolding plan_state(2) by (rule hashless_not_pending [OF p])
  from batch_verify_fold_other [OF this] batch_verify_fold_idx [of "rp_state ?p" "rp_to_fetch ?p"] p
  have "map dc_idx (dl_chunks (resume_cycle s run)) = map dc_idx (dl_chunks (rp_state ?p)) \<and>
      dl_chunks (resume_cycle s run) ! i = dl_chunks (rp_state ?p) ! i"
    by (simp add: run mark_batch_verified_def Let_def)
  moreover from this have "length (dl_chunks (resume_cycle s run)) = length (dl_chunks (rp_state ?p))"
    using map_eq_imp_length_eq by blast
  ultimately show ?thesis using p by (simp add: hashless_at_def)
qed

lemma hashless_cycles: "hashless_at i s \<Longrightarrow> hashless_at i (foldl resume_cycle s runs)"
  by (induction runs arbitrary: s) (simp_all add: hashless_cycle)

text \<open>A download whose table was never filled counts as complete, so a scan deletes its metadata.\<close>

lemma uninitialised_is_complete: "dl_is_complete (dl_new now rt fname n tmp dst)"
  by (simp add: dl_is_complete_def dl_new_def)

section \<open>Permits\<close>

text \<open>The service together with the number of permits handed out and not yet dropped.\<close>

inductive permit_step :: "recovery_svc \<times> nat \<Rightarrow> recovery_svc \<times> nat \<Rightarrow> bool" where
  take_permit: "acquire s = Some t \<Longrightarrow> permit_step (s, n) (t, Suc n)"
| give_permit: "permit_step (s, Suc n) (drop_permit s, n)"

inductive_cases permit_stepE: "permit_step x y"

interpretation permits: invariant_machine permit_step "\<lambda>x. available (fst x) + snd x = MAX_RESUMES"
  by unfold_locales (auto simp: acquire_def drop_permit_def available_def elim!: permit_stepE split: if_splits)

lemma resumes_bounded:
  assumes "permit_step\<^sup>*\<^sup>* (new_recovery_svc dir, 0) (s, n)"
  shows "n \<le> 3" and "acquire s = None \<longleftrightarrow> n = 3"
  using permits.run_inv [OF assms] by (auto simp: available_def new_recovery_svc_def MAX_RESUMES_def acquire_def)

section \<open>Properties\<close>

text \<open>
  C5: The byte counter is exact: after any orderly sequence of operations on a download of less than a pebibyte created from its
  metadata the counter is the total size of the verified chunks, the download is
  complete exactly when the counter is the file size, and the reported progress lies between
  0 and 1 and is 1 when the download is complete. All operations of the record may occur; a sequence is orderly if the table of
  chunks is initialised again only while no byte is verified, and if what is done through \<open>get_chunk_mut\<close> changes hashes only.
\<close>

theorem byte_counter_exact:
  assumes "small_file (md_file_size md)" "orderly (from_metadata parse now md tmp dst) ops" "s = foldl dl_exec (from_metadata parse now md tmp dst) ops"
  shows "dl_verified_bytes s = sum_list (map dc_size (filter (\<lambda>c. dc_state c = ChVerified) (dl_chunks s))) \<and>
    (dl_is_complete s \<longleftrightarrow> dl_verified_bytes s = dl_file_size s) \<and>
    (\<exists>q. progress s = F_Fin q \<and> 0 \<le> q \<and> q \<le> 1 \<and> (dl_is_complete s \<longrightarrow> q = 1))"
proof -
  have wf: "dl_wf s" unfolding assms(3) by (rule dl.run_inv [OF orderly_steps [OF assms(2)] from_metadata_wf [OF assms(1)]])
  then have "dl_verified_bytes s = vbytes (dl_chunks s)" by (simp add: dl_wf_def)
  with complete_iff [OF wf] progress_range [OF wf] show ?thesis by (simp add: vbytes_def)
qed

theorem byte_counter_exact_witness:
  "let s = foldl dl_exec (from_metadata (\<lambda>_. None) 5 (default_file_metadata\<lparr>md_file_size := 300000\<rparr>) ''/t'' ''/d'')
       [OpVerified 6 0, OpDownloaded 7 1, OpFailed 8 0, OpVerified 9 1]
   in dl_verified_bytes s = 37856 \<and> \<not> dl_is_complete s"
proof -
  let ?md = "default_file_metadata\<lparr>md_file_size := 300000\<rparr>"
  let ?s = "foldl dl_exec (from_metadata (\<lambda>_. None) 5 ?md ''/t'' ''/d'') [OpVerified 6 0, OpDownloaded 7 1, OpFailed 8 0, OpVerified 9 1]"
  have small: "small_file (md_file_size ?md)" by (simp add: small_file_def CHUNK_SIZE_def)
  have two: "[0..<2] = [0::nat, 1]" by (simp add: upt_rec)
  have run: "dl_verified_bytes ?s = 37856" "dl_file_size ?s = 300000"
    by (simp_all add: from_metadata_def dl_new_def init_chunks_def chunk_count_def wadd64_def wsub64_def CHUNK_SIZE_def
        default_file_metadata_def two chunk_new_def wmul64_def sat_sub_def nth_hash_def mark_verified_def mark_downloaded_def
        mark_failed_def set_chunk_def touch_def Let_def)
  from byte_counter_exact [OF small _ refl, of "\<lambda>_. None" 5 "''/t''" "''/d''" "[OpVerified 6 0, OpDownloaded 7 1, OpFailed 8 0, OpVerified 9 1]"]
  show ?thesis using run by (simp add: Let_def)
qed

text \<open>
  Initialising the table again forgets the chunks but not the counter: no chunk is verified afterwards, and the counter is what it was.
\<close>

theorem init_chunks_keeps_counter:
  "dl_verified_bytes (init_chunks hashes s) = dl_verified_bytes s \<and> filter (\<lambda>c. dc_state c = ChVerified) (dl_chunks (init_chunks hashes s)) = []"
  by (auto simp: init_chunks_def chunk_new_def Let_def filter_empty_conv)



text \<open>
  C14: Persisting is atomic: after a success the metadata file reads back as the state that was
  persisted, after a failure at any step it holds what it held before, and no other file but
  the temporary one is touched. (Assumed: decoding undoes encoding for this state.)
\<close>

theorem persist_atomic:
  assumes "to_json s = Some b" "from_json b = Some s" "dl_version s \<le> 1" "p = meta_path (path_of_string (dl_tmp_path s))"
    and "persist env to_json s d = (r, d')" "\<not> io_fails env (IoRead p)"
  shows "(r = Ok () \<longrightarrow> load_state env from_json p d' = Ok s) \<and> (r \<noteq> Ok () \<longrightarrow> d' p = d p) \<and>
    (\<forall>q. q \<noteq> p \<and> q \<noteq> with_extension p ''tmp'' \<longrightarrow> d' q = d q)"
proof -
  have ne: "with_extension p ''tmp'' \<noteq> p" unfolding assms(4) by (rule meta_tmp_distinct)
  from persist_write_rename [OF assms(5,4,1)] show ?thesis
  proof (elim disjE exE conjE)
    fix w assume w: "write_rename env (with_extension p ''tmp'') p b d = (w, d')" and r: "is_ok r \<longleftrightarrow> is_ok w"
    have other: "d' q = d q" if "q \<noteq> p" "q \<noteq> with_extension p ''tmp''" for q
      using write_rename_other [OF ne that(2,1), of env b d] w by simp
    show ?thesis
    proof (cases w)
      case (Inl e)
      with write_rename_err [OF ne w [unfolded Inl], of p] ne r other show ?thesis by auto
    next
      case (Inr u)
      from write_rename_ok [OF ne w [unfolded Inr]] have "d' p = Some b" by simp
      with assms(2,3,6) r Inr other show ?thesis by (cases r) (auto simp: load_state_def fs_read_def)
    qed
  qed auto
qed

theorem persist_atomic_witness:
  "let s = dl_new 5 ''r'' ''f'' 3 ''/t/f'' ''/d''; p = meta_path (path_of_string ''/t/f'')
   in load_state no_faults (\<lambda>_. Some s) p (snd (persist no_faults (\<lambda>_. Some ''{}'') s Map.empty)) = Ok s"
proof -
  let ?s = "dl_new 5 ''r'' ''f'' 3 ''/t/f'' ''/d''"
  let ?run = "persist no_faults (\<lambda>_. Some ''{}'') ?s Map.empty"
  have ok: "fst ?run = Ok ()"
    by (simp add: persist_def fs_mkdir_def fs_write_def fs_rename_def Let_def split: option.split)
  have run: "?run = (fst ?run, snd ?run)" by simp
  from persist_atomic [of "\<lambda>_. Some ''{}''" ?s "''{}''" "\<lambda>_. Some ?s", OF refl refl _ refl run] ok
  show ?thesis by (simp add: dl_new_def Let_def)
qed

text \<open>
  The chunk table tiles the file: for every file size whose chunk count fits the table, every chunk
  is numbered by its position and begins where the chunks before it end, no chunk is empty or larger than 256 KiB, the sizes add up to the file
  size, and the two helpers that compute an offset and a size agree with the table.
\<close>

theorem chunk_table_tiles:
  assumes "small_file (dl_file_size s)" "cs = dl_chunks (init_chunks hashes s)" "i < length cs"
  shows "dc_idx (cs ! i) = i \<and> dc_offset (cs ! i) = sum_list (map dc_size (take i cs)) \<and>
    0 < dc_size (cs ! i) \<and> dc_size (cs ! i) \<le> CHUNK_SIZE \<and> sum_list (map dc_size cs) = dl_file_size s \<and>
    offset_for i = dc_offset (cs ! i) \<and> size_for i (dl_file_size s) = dc_size (cs ! i) \<and>
    dc_hash (cs ! i) = nth_hash hashes i \<and> dc_state (cs ! i) = ChPending"
proof -
  have i: "i < chunk_count (dl_file_size s)" using assms(2,3) by simp
  note nth = init_chunks_nth [OF assms(1) i, of hashes] and lt = init_chunk(2) [OF assms(1) i]
  have "sum_list (map dc_size (take i cs)) = i * CHUNK_SIZE"
    using init_sizes [OF assms(1), of i hashes] i lt by (simp add: assms(2))
  moreover have "sum_list (map dc_size cs) = dl_file_size s"
    using init_sizes [OF assms(1) order_refl, of hashes] count_covers [OF assms(1)] by (simp add: assms(2))
  moreover have "size_for i (dl_file_size s) = dc_size (cs ! i)" "offset_for i = i * CHUNK_SIZE"
    using init_chunk(1,3) [OF assms(1) i] nth by (simp_all add: size_for_def offset_for_def assms(2) chunk_new_def)
  ultimately show ?thesis using lt nth by (auto simp: assms(2) chunk_new_def CHUNK_SIZE_def min_def)
qed

theorem chunk_table_tiles_witness:
  "let cs = dl_chunks (init_chunks None (dl_new 5 ''r'' ''f'' 300000 ''/t'' ''/d'')) in
     dc_offset (cs ! 1) = dc_size (cs ! 0) \<and> sum_list (map dc_size cs) = 300000"
proof -
  let ?s = "dl_new 5 ''r'' ''f'' 300000 ''/t'' ''/d''"
  have small: "small_file (dl_file_size ?s)" by (simp add: small_file_def CHUNK_SIZE_def dl_new_def)
  have len: "length (dl_chunks (init_chunks None ?s)) = 2"
    by (simp add: dl_new_def chunk_count_def wadd64_def wsub64_def CHUNK_SIZE_def)
  then have "take 1 (dl_chunks (init_chunks None ?s)) = [dl_chunks (init_chunks None ?s) ! 0]"
    by (cases "dl_chunks (init_chunks None ?s)") simp_all
  with chunk_table_tiles [OF small refl, of 1 None] len show ?thesis by (simp add: dl_new_def Let_def)
qed

text \<open>
  A received chunk without a known hash is stuck: however often the download is resumed, with or without
  verification, and even if every chunk that is fetched arrives intact, that chunk is never
  fetched again, never becomes verified, and the download never completes.
\<close>

theorem hashless_chunk_stuck:
  assumes "map dc_idx (dl_chunks s) = [0..<length (dl_chunks s)]" "i < length (dl_chunks s)"
    and "dc_state (dl_chunks s ! i) = ChDownloaded" "dc_hash (dl_chunks s ! i) = None"
    and "t = foldl resume_cycle s runs"
  shows "dc_state (dl_chunks t ! i) = ChDownloaded \<and> \<not> dl_is_complete t \<and>
    i \<notin> set (rp_to_fetch (plan_recovery env sha clock d t v))"
proof -
  have "hashless_at i s" using assms(1-4) by (simp add: hashless_at_def)
  then have h: "hashless_at i t" unfolding assms(5) by (rule hashless_cycles)
  have "i \<notin> set (rp_to_fetch (plan_recovery env sha clock d t v))"
    unfolding plan_state(2) by (rule hashless_not_pending [OF hashless_plan [OF h]])
  with h hashless_incomplete [OF h] show ?thesis by (simp add: hashless_at_def)
qed

theorem hashless_chunk_stuck_witness:
  "let s = mark_downloaded 6 0 (init_chunks None (dl_new 5 ''r'' ''f'' 9 ''/t'' ''/d''))
   in \<not> dl_is_complete (foldl resume_cycle s (replicate 1000 (no_faults, \<lambda>b. b, \<lambda>_. 7, [path_of_string ''/t'' \<mapsto> ''123456789''], True, 8)))"
proof -
  let ?s = "mark_downloaded 6 0 (init_chunks None (dl_new 5 ''r'' ''f'' 9 ''/t'' ''/d''))"
  have "dl_chunks ?s = [\<lparr>dc_idx = 0, dc_offset = 0, dc_size = 9, dc_hash = None, dc_state = ChDownloaded\<rparr>]"
    by (simp add: dl_new_def init_chunks_def chunk_count_def wadd64_def wsub64_def wmul64_def sat_sub_def CHUNK_SIZE_def
        chunk_new_def nth_hash_def mark_downloaded_def set_chunk_def touch_def Let_def)
  with hashless_chunk_stuck [of ?s 0, OF _ _ _ _ refl] show ?thesis by (simp add: Let_def)
qed

end
