(* ===== verification/StreamAuth.thy ===== *)
theory StreamAuth
  imports Encryption Interfaces
begin

text \<open>
  Authenticated streams between two peers: \<^verbatim>\<open>src-tauri/src/stream_auth.rs\<close>. A session has an
  HMAC key and a sequence number; a message carries its type, its sequence number, a
  timestamp and a MAC over all of them. Keys are agreed by an X25519 exchange of three
  messages, whose state both ends keep in a table. HMAC, the key agreement and the hash are
  parameters (\<open>hmac\<close> and the record \<open>crypto\<close>); clock readings and random values are arguments.

  Shown: exactly which messages are accepted and that the signed encoding is injective; that
  chunk frames round trip; that both ends of an exchange hold the same key, and the condition
  under which the responder can finish. Two defects of the protocol are theorems: a receiver
  that only verifies rejects every message, and one malformed response makes an exchange
  unusable.
\<close>

section \<open>Data\<close>

record stream_auth =
  sa_session_id :: string
  sa_hmac_key :: bytes
  sa_sequence :: u64
  sa_last_activity :: u64

datatype auth_message_type =
    Handshake
  | DataChunk
  | Heartbeat
  | MsgComplete
  | MsgError
  | KeyExchangeRequest
  | KeyExchangeResponse
  | KeyExchangeConfirmation

record auth_message =
  am_type :: auth_message_type
  am_data :: bytes
  am_signature :: string
  am_sequence :: u64
  am_timestamp :: u64

record key_exchange_request =
  rq_exchange_id :: string
  rq_initiator_peer_id :: string
  rq_target_peer_id :: string
  rq_initiator_public_key :: string
  rq_session_id :: string
  rq_timestamp :: u64
  rq_nonce :: string

record key_exchange_response =
  rs_exchange_id :: string
  rs_responder_peer_id :: string
  rs_responder_public_key :: string
  rs_hmac_key_confirmation :: string
  rs_timestamp :: u64
  rs_nonce :: string

record key_exchange_confirmation =
  cf_exchange_id :: string
  cf_initiator_confirmation :: string
  cf_timestamp :: u64

datatype exchange_state = ExInitiated | ExResponded | ExCompleted | ExFailed

record key_exchange_state =
  kx_exchange_id :: string
  kx_initiator_peer_id :: string
  kx_target_peer_id :: string
  kx_session_id :: string
  kx_initiator_public_key :: bytes
  kx_initiator_secret :: "bytes option"
  kx_responder_public_key :: "bytes option"
  kx_derived_hmac_key :: "bytes option"
  kx_state :: exchange_state
  kx_created_at :: u64
  kx_expires_at :: u64

record stream_auth_service =
  sv_sessions :: "string \<rightharpoonup> stream_auth"
  sv_session_timeout :: u64
  sv_key_exchanges :: "string \<rightharpoonup> key_exchange_state"
  sv_exchange_timeout :: u64

datatype auth_error =
    SessionAlreadyExists
  | AuthSessionNotFound
  | ChunkTooShort
  | NoChunkData
  | WrongMessageType
  | ExchangeInProgress
  | RequestExpired
  | AuthCrypto encryption_error
  | ExchangeNotFound
  | InvalidExchangeState
  | SecretNotFound
  | MissingDerivedKey
  | ConfirmationMismatch

section \<open>Sessions\<close>

definition new_stream_auth_service :: stream_auth_service where
  "new_stream_auth_service = \<lparr>sv_sessions = Map.empty, sv_session_timeout = 300,
     sv_key_exchanges = Map.empty, sv_exchange_timeout = 300\<rparr>"

definition create_session ::
  "u64 \<Rightarrow> string \<Rightarrow> bytes \<Rightarrow> stream_auth_service \<Rightarrow> (auth_error, unit) result \<times> stream_auth_service" where
  "create_session now sid key s =
     (if sid \<in> dom (sv_sessions s) then (Err SessionAlreadyExists, s)
      else (Ok (), s\<lparr>sv_sessions := (sv_sessions s)(sid \<mapsto>
             \<lparr>sa_session_id = sid, sa_hmac_key = key, sa_sequence = 0, sa_last_activity = now\<rparr>)\<rparr>))"

fun type_byte :: "auth_message_type \<Rightarrow> char" where
  "type_byte Handshake = CHR 0x00"
| "type_byte DataChunk = CHR 0x01"
| "type_byte Heartbeat = CHR 0x02"
| "type_byte MsgComplete = CHR 0x03"
| "type_byte MsgError = CHR 0x04"
| "type_byte KeyExchangeRequest = CHR 0x05"
| "type_byte KeyExchangeResponse = CHR 0x06"
| "type_byte KeyExchangeConfirmation = CHR 0x07"

definition signing_bytes :: "auth_message_type \<Rightarrow> bytes \<Rightarrow> u64 \<Rightarrow> u64 \<Rightarrow> bytes" where
  "signing_bytes t data sq timestamp = [type_byte t] @ data @ be_bytes 8 sq @ be_bytes 8 timestamp"

definition sign_data ::
  "(bytes \<Rightarrow> bytes \<Rightarrow> bytes) \<Rightarrow> u64 \<Rightarrow> string \<Rightarrow> bytes \<Rightarrow> auth_message_type \<Rightarrow> stream_auth_service
     \<Rightarrow> (auth_error, auth_message) result \<times> stream_auth_service" where
  "sign_data hmac now sid data t s =
     (case sv_sessions s sid of
        None \<Rightarrow> (Err AuthSessionNotFound, s)
      | Some ses \<Rightarrow>
          let ses1 = ses\<lparr>sa_sequence := wadd64 (sa_sequence ses) 1, sa_last_activity := now\<rparr>;
              timestamp = sa_last_activity ses1;
              sq = sa_sequence ses1;
              signature = hex_encode (hmac (sa_hmac_key ses1) (signing_bytes t data sq timestamp))
          in (Ok \<lparr>am_type = t, am_data = data, am_signature = signature, am_sequence = sq, am_timestamp = timestamp\<rparr>,
              s\<lparr>sv_sessions := (sv_sessions s)(sid \<mapsto> ses1)\<rparr>))"

definition verify_data ::
  "(bytes \<Rightarrow> bytes \<Rightarrow> bytes) \<Rightarrow> u64 \<Rightarrow> string \<Rightarrow> auth_message \<Rightarrow> stream_auth_service
     \<Rightarrow> (auth_error, bool) result \<times> stream_auth_service" where
  "verify_data hmac now sid m s =
     (case sv_sessions s sid of
        None \<Rightarrow> (Err AuthSessionNotFound, s)
      | Some ses \<Rightarrow>
          if am_sequence m \<noteq> sa_sequence ses then (Ok False, s)
          else if sv_session_timeout s < sat_sub now (am_timestamp m) then (Ok False, s)
          else if hex_encode (hmac (sa_hmac_key ses)
                    (signing_bytes (am_type m) (am_data m) (am_sequence m) (am_timestamp m))) \<noteq> am_signature m
          then (Ok False, s)
          else (Ok True, s\<lparr>sv_sessions := (sv_sessions s)(sid \<mapsto>
                  ses\<lparr>sa_sequence := am_sequence m, sa_last_activity := am_timestamp m\<rparr>)\<rparr>))"

text \<open>The expired entries are collected and removed one by one: what stays is what has not expired.\<close>

definition cleanup_expired_sessions :: "u64 \<Rightarrow> stream_auth_service \<Rightarrow> stream_auth_service" where
  "cleanup_expired_sessions now s = s\<lparr>sv_sessions :=
     hm_retain (\<lambda>ses. \<not> sv_session_timeout s < sat_sub now (sa_last_activity ses)) (sv_sessions s)\<rparr>"

definition get_session_info :: "string \<Rightarrow> stream_auth_service \<Rightarrow> stream_auth option" where
  "get_session_info sid s = sv_sessions s sid"

definition auth_remove_session :: "string \<Rightarrow> stream_auth_service \<Rightarrow> bool \<times> stream_auth_service" where
  "auth_remove_session sid s = (sv_sessions s sid \<noteq> None, s\<lparr>sv_sessions := hm_remove (sv_sessions s) sid\<rparr>)"

section \<open>Messages\<close>

definition chunk_frame :: "bytes \<Rightarrow> u32 \<Rightarrow> string \<Rightarrow> bytes" where
  "chunk_frame chunk_data chunk_index file_hash =
     be_bytes 4 chunk_index @ be_bytes 4 (length file_hash mod 2 ^ 32) @ file_hash @ chunk_data"

definition create_authenticated_chunk ::
  "(bytes \<Rightarrow> bytes \<Rightarrow> bytes) \<Rightarrow> u64 \<Rightarrow> string \<Rightarrow> bytes \<Rightarrow> u32 \<Rightarrow> string \<Rightarrow> stream_auth_service
     \<Rightarrow> (auth_error, auth_message) result \<times> stream_auth_service" where
  "create_authenticated_chunk hmac now sid chunk_data chunk_index file_hash s =
     sign_data hmac now sid (chunk_frame chunk_data chunk_index file_hash) DataChunk s"

definition parse_chunk_frame :: "bytes \<Rightarrow> (auth_error, bytes) result" where
  "parse_chunk_frame data =
     (if length data < 8 then Err ChunkTooShort
      else let hash_len = be_value (take 4 (drop 4 data)); data_start = 8 + hash_len
           in if length data \<le> data_start then Err NoChunkData else Ok (drop data_start data))"

definition verify_authenticated_chunk ::
  "(bytes \<Rightarrow> bytes \<Rightarrow> bytes) \<Rightarrow> u64 \<Rightarrow> string \<Rightarrow> auth_message \<Rightarrow> stream_auth_service
     \<Rightarrow> (auth_error, bytes option) result \<times> stream_auth_service" where
  "verify_authenticated_chunk hmac now sid m s =
     (case verify_data hmac now sid m s of
        (Inl e, s1) \<Rightarrow> (Err e, s1)
      | (Inr ok, s1) \<Rightarrow>
          if \<not> ok then (Ok None, s1)
          else if am_type m = DataChunk then (rbind (parse_chunk_frame (am_data m)) (\<lambda>b. Ok (Some b)), s1)
          else (Err WrongMessageType, s1))"

definition create_handshake ::
  "(bytes \<Rightarrow> bytes \<Rightarrow> bytes) \<Rightarrow> u64 \<Rightarrow> string \<Rightarrow> string \<Rightarrow> stream_auth_service
     \<Rightarrow> (auth_error, auth_message) result \<times> stream_auth_service" where
  "create_handshake hmac now sid peer_id s =
     sign_data hmac now sid (''handshake:'' @ sid @ '':'' @ peer_id) Handshake s"

definition verify_handshake ::
  "(bytes \<Rightarrow> bytes \<Rightarrow> bytes) \<Rightarrow> u64 \<Rightarrow> string \<Rightarrow> auth_message \<Rightarrow> stream_auth_service
     \<Rightarrow> (auth_error, bool) result \<times> stream_auth_service" where
  "verify_handshake hmac now sid m s =
     (case verify_data hmac now sid m s of
        (Inl e, s1) \<Rightarrow> (Err e, s1)
      | (Inr ok, s1) \<Rightarrow> (Ok (ok \<and> am_type m = Handshake), s1))"

definition create_heartbeat ::
  "(bytes \<Rightarrow> bytes \<Rightarrow> bytes) \<Rightarrow> u64 \<Rightarrow> string \<Rightarrow> stream_auth_service \<Rightarrow> (auth_error, auth_message) result \<times> stream_auth_service" where
  "create_heartbeat hmac now sid s = sign_data hmac now sid ''heartbeat'' Heartbeat s"

definition create_completion ::
  "(bytes \<Rightarrow> bytes \<Rightarrow> bytes) \<Rightarrow> u64 \<Rightarrow> string \<Rightarrow> string \<Rightarrow> stream_auth_service
     \<Rightarrow> (auth_error, auth_message) result \<times> stream_auth_service" where
  "create_completion hmac now sid file_hash s = sign_data hmac now sid (''complete:'' @ file_hash) MsgComplete s"

definition create_error ::
  "(bytes \<Rightarrow> bytes \<Rightarrow> bytes) \<Rightarrow> u64 \<Rightarrow> string \<Rightarrow> string \<Rightarrow> stream_auth_service
     \<Rightarrow> (auth_error, auth_message) result \<times> stream_auth_service" where
  "create_error hmac now sid error_msg s = sign_data hmac now sid (''error:'' @ error_msg) MsgError s"

section \<open>Key exchange\<close>

definition exchange_id_of :: "string \<Rightarrow> string \<Rightarrow> string \<Rightarrow> string" where
  "exchange_id_of initiator target sid = initiator @ ''-'' @ target @ ''-'' @ sid"

definition initiate_key_exchange ::
  "crypto \<Rightarrow> u64 \<Rightarrow> bytes \<Rightarrow> bytes \<Rightarrow> string \<Rightarrow> string \<Rightarrow> string \<Rightarrow> stream_auth_service
     \<Rightarrow> (auth_error, key_exchange_request) result \<times> stream_auth_service" where
  "initiate_key_exchange C now secret nonce initiator target sid s =
     (let xid = exchange_id_of initiator target sid in
      if xid \<in> dom (sv_key_exchanges s) then (Err ExchangeInProgress, s)
      else let public = x25519_public C secret;
               kx = \<lparr>kx_exchange_id = xid, kx_initiator_peer_id = initiator, kx_target_peer_id = target, kx_session_id = sid,
                     kx_initiator_public_key = public, kx_initiator_secret = Some secret, kx_responder_public_key = None,
                     kx_derived_hmac_key = None, kx_state = ExInitiated, kx_created_at = now,
                     kx_expires_at = wadd64 now (sv_exchange_timeout s)\<rparr>
           in (Ok \<lparr>rq_exchange_id = xid, rq_initiator_peer_id = initiator, rq_target_peer_id = target,
                   rq_initiator_public_key = hex_encode public, rq_session_id = sid, rq_timestamp = now,
                   rq_nonce = hex_encode nonce\<rparr>,
               s\<lparr>sv_key_exchanges := (sv_key_exchanges s)(xid \<mapsto> kx)\<rparr>))"

definition derive_hmac_key :: "crypto \<Rightarrow> bytes \<Rightarrow> string \<Rightarrow> (auth_error, bytes) result" where
  "derive_hmac_key C shared_secret exchange_id =
     ok_or (AuthCrypto HkdfFailed) (hkdf_sha256 C exchange_id shared_secret ''chiral-hmac-key'')"

definition confirmation_hash :: "crypto \<Rightarrow> bytes \<Rightarrow> string \<Rightarrow> u64 \<Rightarrow> bytes \<Rightarrow> string" where
  "confirmation_hash C key exchange_id timestamp tag =
     hex_encode (sha256 C (key @ exchange_id @ be_bytes 8 timestamp @ tag))"

definition crypto_result :: "(encryption_error, 'a) result \<Rightarrow> (auth_error, 'a) result" where
  "crypto_result r = (case r of Inl e \<Rightarrow> Err (AuthCrypto e) | Inr x \<Rightarrow> Ok x)"

definition respond_to_key_exchange ::
  "crypto \<Rightarrow> u64 \<Rightarrow> bytes \<Rightarrow> bytes \<Rightarrow> key_exchange_request \<Rightarrow> string \<Rightarrow> stream_auth_service
     \<Rightarrow> (auth_error, key_exchange_response) result \<times> stream_auth_service" where
  "respond_to_key_exchange C now secret nonce rq responder s =
     (if wadd64 (rq_timestamp rq) (sv_exchange_timeout s) < now then (Err RequestExpired, s)
      else case crypto_result (decode_array 32 (rq_initiator_public_key rq)) of
        Inl e \<Rightarrow> (Err e, s)
      | Inr initiator_public \<Rightarrow>
          let public = x25519_public C secret;
              shared = x25519_dh C secret initiator_public
          in (case derive_hmac_key C shared (rq_exchange_id rq) of
               Inl e \<Rightarrow> (Err e, s)
             | Inr key \<Rightarrow>
                 let kx = \<lparr>kx_exchange_id = rq_exchange_id rq, kx_initiator_peer_id = rq_initiator_peer_id rq,
                           kx_target_peer_id = rq_target_peer_id rq, kx_session_id = rq_session_id rq,
                           kx_initiator_public_key = initiator_public, kx_initiator_secret = None,
                           kx_responder_public_key = Some public, kx_derived_hmac_key = Some key, kx_state = ExResponded,
                           kx_created_at = now, kx_expires_at = wadd64 now (sv_exchange_timeout s)\<rparr>
                 in (Ok \<lparr>rs_exchange_id = rq_exchange_id rq, rs_responder_peer_id = responder,
                         rs_responder_public_key = hex_encode public,
                         rs_hmac_key_confirmation = confirmation_hash C key (rq_exchange_id rq) now [],
                         rs_timestamp = now, rs_nonce = hex_encode nonce\<rparr>,
                     s\<lparr>sv_key_exchanges := (sv_key_exchanges s)(rq_exchange_id rq \<mapsto> kx)\<rparr>)))"

text \<open>
  \<open>take\<close> empties the stored secret before the response is checked. The clock is read for the
  confirmation and once more in \<open>create_session\<close>.
\<close>

definition confirm_key_exchange ::
  "crypto \<Rightarrow> u64 \<Rightarrow> u64 \<Rightarrow> key_exchange_response \<Rightarrow> stream_auth_service
     \<Rightarrow> (auth_error, key_exchange_confirmation) result \<times> stream_auth_service" where
  "confirm_key_exchange C now now' rs s =
     (let xid = rs_exchange_id rs in
      case sv_key_exchanges s xid of
        None \<Rightarrow> (Err ExchangeNotFound, s)
      | Some kx \<Rightarrow>
          if kx_state kx \<noteq> ExInitiated then (Err InvalidExchangeState, s)
          else case kx_initiator_secret kx of
            None \<Rightarrow> (Err SecretNotFound, s)
          | Some secret \<Rightarrow>
              let kx1 = kx\<lparr>kx_initiator_secret := None\<rparr>;
                  s1 = s\<lparr>sv_key_exchanges := (sv_key_exchanges s)(xid \<mapsto> kx1)\<rparr>
              in case crypto_result (decode_array 32 (rs_responder_public_key rs)) of
                   Inl e \<Rightarrow> (Err e, s1)
                 | Inr responder_public \<Rightarrow>
                     case derive_hmac_key C (x25519_dh C secret responder_public) xid of
                       Inl e \<Rightarrow> (Err e, s1)
                     | Inr key \<Rightarrow>
                         if confirmation_hash C key xid (rs_timestamp rs) [] \<noteq> rs_hmac_key_confirmation rs
                         then (Err ConfirmationMismatch, s1)
                         else case create_session now' (kx_session_id kx) key s1 of
                                (Inl e, s2) \<Rightarrow> (Err e, s2)
                              | (Inr _, s2) \<Rightarrow>
                                  (Ok \<lparr>cf_exchange_id = xid,
                                       cf_initiator_confirmation =
                                         confirmation_hash C key xid (rs_timestamp rs) ''initiator-confirmed'',
                                       cf_timestamp = now\<rparr>,
                                   s2\<lparr>sv_key_exchanges := (sv_key_exchanges s2)(xid \<mapsto>
                                     kx1\<lparr>kx_responder_public_key := Some responder_public, kx_derived_hmac_key := Some key,
                                         kx_state := ExCompleted\<rparr>)\<rparr>))"

definition finalize_key_exchange ::
  "crypto \<Rightarrow> u64 \<Rightarrow> key_exchange_confirmation \<Rightarrow> stream_auth_service \<Rightarrow> (auth_error, unit) result \<times> stream_auth_service" where
  "finalize_key_exchange C now cf s =
     (let xid = cf_exchange_id cf in
      case sv_key_exchanges s xid of
        None \<Rightarrow> (Err ExchangeNotFound, s)
      | Some kx \<Rightarrow>
          if kx_state kx \<noteq> ExResponded then (Err InvalidExchangeState, s)
          else case kx_derived_hmac_key kx of
            None \<Rightarrow> (Err MissingDerivedKey, s)
          | Some key \<Rightarrow>
              if confirmation_hash C key xid (cf_timestamp cf) ''initiator-confirmed'' \<noteq> cf_initiator_confirmation cf
              then (Err ConfirmationMismatch, s)
              else case create_session now (kx_session_id kx) key s of
                     (Inl e, s1) \<Rightarrow> (Err e, s1)
                   | (Inr _, s1) \<Rightarrow>
                       (Ok (), s1\<lparr>sv_key_exchanges := (sv_key_exchanges s1)(xid \<mapsto> kx\<lparr>kx_state := ExCompleted\<rparr>)\<rparr>))"

text \<open>Removing an exchange removes its session too.\<close>

definition remove_exchange :: "string \<Rightarrow> stream_auth_service \<Rightarrow> bool \<times> stream_auth_service" where
  "remove_exchange xid s =
     (case sv_key_exchanges s xid of
        None \<Rightarrow> (False, s)
      | Some kx \<Rightarrow> (True, s\<lparr>sv_key_exchanges := hm_remove (sv_key_exchanges s) xid,
                           sv_sessions := hm_remove (sv_sessions s) (kx_session_id kx)\<rparr>))"

text \<open>\<open>xs\<close> is the iteration order of the table.\<close>

definition cleanup_expired_exchanges :: "u64 \<Rightarrow> string list \<Rightarrow> stream_auth_service \<Rightarrow> stream_auth_service" where
  "cleanup_expired_exchanges now xs s =
     (let expired = filter (\<lambda>x. case sv_key_exchanges s x of Some kx \<Rightarrow> kx_expires_at kx < now | None \<Rightarrow> False) xs
      in foldl (\<lambda>t x. snd (remove_exchange x t)) s expired)"

definition get_exchange_status :: "string \<Rightarrow> stream_auth_service \<Rightarrow> exchange_state option" where
  "get_exchange_status xid s = map_option kx_state (sv_key_exchanges s xid)"

definition get_active_exchanges :: "string list \<Rightarrow> stream_auth_service \<Rightarrow> string list" where
  "get_active_exchanges xs s = filter (\<lambda>x. x \<in> dom (sv_key_exchanges s)) xs"

section \<open>Encoding\<close>

lemma type_byte_inj: "type_byte t = type_byte u \<Longrightarrow> t = u"
  by (cases t; cases u) simp_all

lemma signing_bytes_inj:
  assumes "signing_bytes t d n ts = signing_bytes t' d' n' ts'"
    and "n < 2 ^ 64" "ts < 2 ^ 64" "n' < 2 ^ 64" "ts' < 2 ^ 64"
  shows "t = t' \<and> d = d' \<and> n = n' \<and> ts = ts'"
proof -
  have p: "(2 :: nat) ^ 64 = 256 ^ 8" by simp
  from assms(1) have "type_byte t = type_byte t'" "d = d'" "be_bytes 8 n = be_bytes 8 n'" "be_bytes 8 ts = be_bytes 8 ts'"
    by (simp_all add: signing_bytes_def append_eq_append_conv flip: append_assoc)
  with assms(2-5) type_byte_inj be_bytes_inj [of n 8 n'] be_bytes_inj [of ts 8 ts'] show ?thesis by (simp add: p)
qed

lemma parse_chunk_frame_roundtrip:
  assumes "length file_hash < 2 ^ 32"
  shows "parse_chunk_frame (chunk_frame data i file_hash) = (if data = [] then Err NoChunkData else Ok data)"
proof -
  let ?f = "chunk_frame data i file_hash"
  have "take 4 (drop 4 ?f) = be_bytes 4 (length file_hash)" using assms by (simp add: chunk_frame_def)
  then have n: "be_value (take 4 (drop 4 ?f)) = length file_hash" using assms by (simp add: be_value_bytes)
  have d: "drop (8 + length file_hash) ?f = data" "length ?f = 8 + length file_hash + length data"
    by (simp_all add: chunk_frame_def)
  show ?thesis unfolding parse_chunk_frame_def n Let_def d by simp
qed

section \<open>Lemmas\<close>

lemma verify_data_true:
  "verify_data hmac now sid m s = (Ok True, s') \<longleftrightarrow>
     (\<exists>ses. sv_sessions s sid = Some ses \<and> am_sequence m = sa_sequence ses \<and> now - am_timestamp m \<le> sv_session_timeout s \<and>
        am_signature m = hex_encode (hmac (sa_hmac_key ses) (signing_bytes (am_type m) (am_data m) (am_sequence m) (am_timestamp m))) \<and>
        s' = s\<lparr>sv_sessions := (sv_sessions s)(sid \<mapsto> ses\<lparr>sa_last_activity := am_timestamp m\<rparr>)\<rparr>)"
proof (cases "sv_sessions s sid")
  case (Some ses)
  have "ses\<lparr>sa_sequence := am_sequence m, sa_last_activity := am_timestamp m\<rparr> = ses\<lparr>sa_last_activity := am_timestamp m\<rparr>"
    if "am_sequence m = sa_sequence ses" using that by simp
  with Some show ?thesis by (auto simp: verify_data_def sat_sub_def)
qed (simp add: verify_data_def)

lemma sign_data_ok:
  assumes "sign_data hmac now sid data t s = (Ok m, s')"
  obtains ses where "sv_sessions s sid = Some ses"
    "m = \<lparr>am_type = t, am_data = data,
       am_signature = hex_encode (hmac (sa_hmac_key ses) (signing_bytes t data (wadd64 (sa_sequence ses) 1) now)),
       am_sequence = wadd64 (sa_sequence ses) 1, am_timestamp = now\<rparr>"
    "s' = s\<lparr>sv_sessions := (sv_sessions s)(sid \<mapsto> ses\<lparr>sa_sequence := wadd64 (sa_sequence ses) 1, sa_last_activity := now\<rparr>)\<rparr>"
  using assms by (auto simp: sign_data_def Let_def split: option.splits)

text \<open>A message just signed is accepted by the same service, until the timeout.\<close>

lemma sign_verify:
  assumes "sign_data hmac now sid data t s = (Ok m, s')" "now' - now \<le> sv_session_timeout s"
  shows "fst (verify_data hmac now' sid m s') = Ok True"
  using assms(1)
  by (rule sign_data_ok) (use assms(2) in \<open>simp add: verify_data_def sat_sub_def\<close>)

text \<open>Verifying never changes a session's key or sequence number.\<close>

lemma verify_data_keeps:
  assumes "sv_sessions s sid = Some ses"
  shows "\<exists>ses'. sv_sessions (snd (verify_data hmac now sid m s)) sid = Some ses' \<and>
    sa_sequence ses' = sa_sequence ses \<and> sa_hmac_key ses' = sa_hmac_key ses"
  using assms by (auto simp: verify_data_def)

lemma crypto_result_simps [simp]: "crypto_result (Inl e) = Inl (AuthCrypto e)" "crypto_result (Inr x) = Inr x"
  by (simp_all add: crypto_result_def)

lemma decode_public: "crypto_ok C \<Longrightarrow> decode_array 32 (hex_encode (x25519_public C k)) = Ok (x25519_public C k)"
  by (simp add: crypto_okD(3))

text \<open>The session a completed exchange created.\<close>

lemma create_session_ok:
  "create_session now sid key s = (Ok u, s') \<longleftrightarrow> sv_sessions s sid = None \<and>
     s' = s\<lparr>sv_sessions := (sv_sessions s)(sid \<mapsto> \<lparr>sa_session_id = sid, sa_hmac_key = key, sa_sequence = 0, sa_last_activity = now\<rparr>)\<rparr>"
  by (auto simp: create_session_def dom_def)

lemma confirmation_hash_inj:
  assumes "confirmation_hash C key x ts tag = confirmation_hash C key x ts' tag"
    and "inj_on (sha256 C) {key @ x @ be_bytes 8 ts @ tag, key @ x @ be_bytes 8 ts' @ tag}"
    and "ts < 2 ^ 64" "ts' < 2 ^ 64"
  shows "ts = ts'"
proof -
  have p: "(2 :: nat) ^ 64 = 256 ^ 8" by simp
  from assms(1) have "sha256 C (key @ x @ be_bytes 8 ts @ tag) = sha256 C (key @ x @ be_bytes 8 ts' @ tag)"
    unfolding confirmation_hash_def by (rule hex_encode_inj)
  from inj_onD [OF assms(2) this] have "key @ x @ be_bytes 8 ts @ tag = key @ x @ be_bytes 8 ts' @ tag" by blast
  then have "be_bytes 8 ts = be_bytes 8 ts'" by (simp only: append_same_eq same_append_eq)
  from be_bytes_inj [OF _ _ this] assms(3,4) show ?thesis by (simp only: p)
qed

text \<open>
  Cleaning up removes the session of every expired exchange, however recently the session was
  used: the exchange that set a session up expires five minutes after it began.
\<close>

lemma remove_exchange_session: "sv_key_exchanges s xid = Some kx \<Longrightarrow> sv_sessions (snd (remove_exchange xid s)) (kx_session_id kx) = None"
  by (simp add: remove_exchange_def)

lemma remove_exchange_keeps_None: "sv_sessions s sid = None \<Longrightarrow> sv_sessions (snd (remove_exchange xid s)) sid = None"
  by (auto simp: remove_exchange_def split: option.splits)

lemma foldl_removed: "sv_sessions t sid = None \<Longrightarrow> sv_sessions (foldl (\<lambda>t x. snd (remove_exchange x t)) t ys) sid = None"
  by (induction ys arbitrary: t) (simp_all add: remove_exchange_keeps_None)

lemma foldl_remove_exchange:
  "xid \<in> set ys \<Longrightarrow> sv_key_exchanges t xid = Some kx \<Longrightarrow>
     sv_sessions (foldl (\<lambda>t x. snd (remove_exchange x t)) t ys) (kx_session_id kx) = None"
proof (induction ys arbitrary: t)
  case (Cons y ys)
  show ?case
  proof (cases "y = xid")
    case True
    with Cons.prems show ?thesis by (simp add: foldl_removed remove_exchange_session)
  next
    case False
    then have "sv_key_exchanges (snd (remove_exchange y t)) xid = Some kx"
      using Cons.prems(2) by (cases "sv_key_exchanges t y") (simp_all add: remove_exchange_def)
    with False Cons.prems Cons.IH show ?thesis by simp
  qed
qed simp

lemma cleanup_drops_live_session:
  assumes "sv_key_exchanges s xid = Some kx" "kx_expires_at kx < now" "hm_order (sv_key_exchanges s) xs"
  shows "sv_sessions (cleanup_expired_exchanges now xs s) (kx_session_id kx) = None"
  unfolding cleanup_expired_exchanges_def Let_def
  using assms by (intro foldl_remove_exchange) (auto simp: hm_order_def)

section \<open>The exchange, step by step\<close>

lemma initiate_ok:
  assumes "initiate_key_exchange C t isk n a b sid I = (Ok rq, I1)"
  shows "rq_exchange_id rq = exchange_id_of a b sid" "rq_initiator_public_key rq = hex_encode (x25519_public C isk)"
    "rq_session_id rq = sid" "sv_sessions I1 = sv_sessions I"
    "\<exists>kx. sv_key_exchanges I1 (exchange_id_of a b sid) = Some kx \<and> kx_state kx = ExInitiated \<and>
       kx_initiator_secret kx = Some isk \<and> kx_session_id kx = sid"
  using assms by (auto simp: initiate_key_exchange_def Let_def split: if_splits)

lemma respond_ok:
  assumes "crypto_ok C" "rq_initiator_public_key rq = hex_encode (x25519_public C isk)"
    and "respond_to_key_exchange C t rsk n rq b R = (Ok rs, R1)"
  shows "\<exists>key kx. hkdf_sha256 C (rq_exchange_id rq) (x25519_dh C rsk (x25519_public C isk)) ''chiral-hmac-key'' = Some key \<and>
    rs_exchange_id rs = rq_exchange_id rq \<and> rs_responder_public_key rs = hex_encode (x25519_public C rsk) \<and>
    rs_hmac_key_confirmation rs = confirmation_hash C key (rq_exchange_id rq) t [] \<and> rs_timestamp rs = t \<and>
    sv_key_exchanges R1 (rq_exchange_id rq) = Some kx \<and> kx_derived_hmac_key kx = Some key \<and> kx_state kx = ExResponded \<and>
    kx_session_id kx = rq_session_id rq \<and> sv_sessions R1 = sv_sessions R"
  using assms
  by (auto simp: decode_public respond_to_key_exchange_def derive_hmac_key_def ok_or_def Let_def simp del: decode_array_hex
      split: if_splits option.splits)

lemma confirm_ok:
  assumes "crypto_ok C" "rs_responder_public_key rs = hex_encode (x25519_public C rsk)"
    and "sv_key_exchanges I (rs_exchange_id rs) = Some kx" "kx_state kx = ExInitiated" "kx_initiator_secret kx = Some isk"
    and "confirm_key_exchange C t t' rs I = (Ok cf, I1)"
  shows "\<exists>key. hkdf_sha256 C (rs_exchange_id rs) (x25519_dh C isk (x25519_public C rsk)) ''chiral-hmac-key'' = Some key \<and>
    cf_exchange_id cf = rs_exchange_id rs \<and> cf_timestamp cf = t \<and>
    cf_initiator_confirmation cf = confirmation_hash C key (rs_exchange_id rs) (rs_timestamp rs) ''initiator-confirmed'' \<and>
    sv_sessions I1 (kx_session_id kx) = Some \<lparr>sa_session_id = kx_session_id kx, sa_hmac_key = key, sa_sequence = 0, sa_last_activity = t'\<rparr>"
  using assms
  by (auto simp: decode_public confirm_key_exchange_def derive_hmac_key_def ok_or_def create_session_ok Let_def
      simp del: decode_array_hex split: if_splits option.splits sum.splits prod.splits)

lemma finalize_iff:
  assumes "sv_key_exchanges R (cf_exchange_id cf) = Some kx" "kx_state kx = ExResponded" "kx_derived_hmac_key kx = Some key"
    and "sv_sessions R (kx_session_id kx) = None"
  shows "is_ok (fst (finalize_key_exchange C now cf R)) \<longleftrightarrow>
    confirmation_hash C key (cf_exchange_id cf) (cf_timestamp cf) ''initiator-confirmed'' = cf_initiator_confirmation cf"
  using assms by (simp add: finalize_key_exchange_def create_session_def dom_def Let_def)

section \<open>Two ends of a stream\<close>

fun sign_stream ::
  "(bytes \<Rightarrow> bytes \<Rightarrow> bytes) \<Rightarrow> string \<Rightarrow> stream_auth_service \<Rightarrow> (u64 \<times> bytes \<times> auth_message_type) list \<Rightarrow> auth_message list" where
  "sign_stream hmac sid s [] = []"
| "sign_stream hmac sid s ((now, data, t) # xs) =
     (case sign_data hmac now sid data t s of
        (Inl _, s1) \<Rightarrow> sign_stream hmac sid s1 xs
      | (Inr m, s1) \<Rightarrow> m # sign_stream hmac sid s1 xs)"

fun verify_stream ::
  "(bytes \<Rightarrow> bytes \<Rightarrow> bytes) \<Rightarrow> string \<Rightarrow> stream_auth_service \<Rightarrow> (u64 \<times> auth_message) list \<Rightarrow> (auth_error, bool) result list" where
  "verify_stream hmac sid s [] = []"
| "verify_stream hmac sid s ((now, m) # xs) =
     fst (verify_data hmac now sid m s) # verify_stream hmac sid (snd (verify_data hmac now sid m s)) xs"

lemma sign_stream_sequences:
  assumes "sv_sessions s sid = Some ses" "sa_sequence ses + length xs < 2 ^ 64" "m \<in> set (sign_stream hmac sid s xs)"
  shows "sa_sequence ses < am_sequence m"
  using assms
proof (induction xs arbitrary: s ses)
  case (Cons x xs)
  obtain now data t where x: "x = (now, data, t)" by (cases x)
  let ?ses = "ses\<lparr>sa_sequence := wadd64 (sa_sequence ses) 1, sa_last_activity := now\<rparr>"
  let ?s = "s\<lparr>sv_sessions := (sv_sessions s)(sid \<mapsto> ?ses)\<rparr>"
  have w: "wadd64 (sa_sequence ses) 1 = sa_sequence ses + 1" using Cons.prems(2) by (simp add: wadd64_no_overflow)
  obtain m0 where sg: "sign_data hmac now sid data t s = (Ok m0, ?s)" and m0: "am_sequence m0 = wadd64 (sa_sequence ses) 1"
    using Cons.prems(1) by (simp add: sign_data_def Let_def)
  from Cons.prems(3) x sg consider "m = m0" | "m \<in> set (sign_stream hmac sid ?s xs)" by auto
  then show ?case
  proof cases
    case 1
    with m0 w show ?thesis by simp
  next
    case 2
    from Cons.IH [OF _ _ 2] w Cons.prems(2) show ?thesis by simp
  qed
qed simp

lemma verify_stream_rejects:
  assumes "sv_sessions s sid = Some ses" "\<And>now m. (now, m) \<in> set xs \<Longrightarrow> am_sequence m \<noteq> sa_sequence ses"
  shows "verify_stream hmac sid s xs = replicate (length xs) (Ok False)"
  using assms
proof (induction xs arbitrary: s ses)
  case (Cons x xs)
  obtain now m where x: "x = (now, m)" by (cases x)
  with Cons.prems have "am_sequence m \<noteq> sa_sequence ses" by auto
  with Cons.prems(1) have "verify_data hmac now sid m s = (Ok False, s)" by (simp add: verify_data_def)
  moreover have "verify_stream hmac sid s xs = replicate (length xs) (Ok False)"
    using Cons.prems by (intro Cons.IH [of s ses]) auto
  ultimately show ?case using x by simp
qed simp

section \<open>Properties\<close>

text \<open>
  C13: A message is accepted exactly when the session exists, the message has the session's current
  sequence number, is not older than the timeout, and carries the MAC of its type, data,
  sequence number and timestamp under the session key. Accepting it sets the last activity of that session to the time of
  the message and changes nothing else of it, no other session and no setting; a message that is not accepted changes
  nothing. A message the service has just signed is accepted, and two different messages never have the same bytes under the MAC.
\<close>

theorem verify_data_exact:
  assumes "am_sequence m < 2 ^ 64" "am_timestamp m < 2 ^ 64" "n < 2 ^ 64" "ts < 2 ^ 64"
  shows "((\<exists>s'. verify_data hmac now sid m s = (Ok True, s')) \<longleftrightarrow>
      (\<exists>ses. sv_sessions s sid = Some ses \<and> am_sequence m = sa_sequence ses \<and> now - am_timestamp m \<le> sv_session_timeout s \<and>
         am_signature m = hex_encode (hmac (sa_hmac_key ses)
           (signing_bytes (am_type m) (am_data m) (am_sequence m) (am_timestamp m))))) \<and>
    (\<forall>s'. verify_data hmac now sid m s = (Ok True, s') \<longrightarrow> (\<exists>ses. sv_sessions s sid = Some ses \<and>
         s' = s\<lparr>sv_sessions := (sv_sessions s)(sid \<mapsto> ses\<lparr>sa_last_activity := am_timestamp m\<rparr>)\<rparr>)) \<and>
    (\<forall>res s'. verify_data hmac now sid m s = (res, s') \<longrightarrow> res \<noteq> Ok True \<longrightarrow> s' = s) \<and>
    (\<forall>t data m' s'. sign_data hmac ts sid data t s = (Ok m', s') \<longrightarrow> fst (verify_data hmac ts sid m' s') = Ok True) \<and>
    (signing_bytes t d n ts = signing_bytes (am_type m) (am_data m) (am_sequence m) (am_timestamp m) \<longleftrightarrow>
      t = am_type m \<and> d = am_data m \<and> n = am_sequence m \<and> ts = am_timestamp m)"
proof -
  have "\<exists>ses. sv_sessions s sid = Some ses \<and> s' = s\<lparr>sv_sessions := (sv_sessions s)(sid \<mapsto> ses\<lparr>sa_last_activity := am_timestamp m\<rparr>)\<rparr>"
    if "verify_data hmac now sid m s = (Ok True, s')" for s'
    using that by (auto simp: verify_data_def split: option.splits if_splits)
  moreover have "s' = s" if "verify_data hmac now sid m s = (res, s')" "res \<noteq> Ok True" for res s'
    using that by (auto simp: verify_data_def split: option.splits if_splits)
  ultimately show ?thesis using sign_verify signing_bytes_inj [OF _ assms(3,4,1,2)] by (auto simp: verify_data_true)
qed

definition auth_demo :: stream_auth_service where
  "auth_demo = snd (create_session 100 ''s'' ''key'' new_stream_auth_service)"

lemma auth_demo_session:
  "sv_sessions auth_demo ''s'' = Some \<lparr>sa_session_id = ''s'', sa_hmac_key = ''key'', sa_sequence = 0, sa_last_activity = 100\<rparr>"
  "sv_session_timeout auth_demo = 300"
  by (simp_all add: auth_demo_def create_session_def new_stream_auth_service_def)

theorem verify_data_exact_witness:
  "\<exists>s'. verify_data (\<lambda>k d. d) 100 ''s'' \<lparr>am_type = Heartbeat, am_data = ''x'', am_signature = hex_encode (signing_bytes Heartbeat ''x'' 0 90),
     am_sequence = 0, am_timestamp = 90\<rparr> auth_demo = (Ok True, s')"
  using verify_data_exact [of "\<lparr>am_type = Heartbeat, am_data = ''x'', am_signature = hex_encode (signing_bytes Heartbeat ''x'' 0 90),
      am_sequence = 0, am_timestamp = 90\<rparr>" 0 0 "\<lambda>k d. d" 100 "''s''" auth_demo]
  by (simp add: auth_demo_session)

text \<open>
  A chunk sent as an authenticated message comes out as it went in: the verifier's parse of the
  frame returns exactly the chunk data for every index and every file hash shorter than 4 GiB,
  unless the chunk is empty, which the verifier refuses.
\<close>

theorem chunk_frame_round_trip:
  assumes "create_authenticated_chunk hmac now sid data i file_hash s = (Ok m, s1)" "length file_hash < 2 ^ 32"
    and "now' - now \<le> sv_session_timeout s"
  shows "fst (verify_authenticated_chunk hmac now' sid m s1) = (if data = [] then Err NoChunkData else Ok (Some data))"
proof -
  have sg: "sign_data hmac now sid (chunk_frame data i file_hash) DataChunk s = (Ok m, s1)"
    using assms(1) by (simp add: create_authenticated_chunk_def)
  then have m: "am_type m = DataChunk" "am_data m = chunk_frame data i file_hash" by (rule sign_data_ok, simp)+
  obtain s2 where "verify_data hmac now' sid m s1 = (Ok True, s2)"
    using sign_verify [OF sg assms(3)] by (cases "verify_data hmac now' sid m s1") auto
  with m parse_chunk_frame_roundtrip [OF assms(2)] show ?thesis by (simp add: verify_authenticated_chunk_def)
qed

theorem chunk_frame_round_trip_witness:
  "\<exists>m s1. create_authenticated_chunk (\<lambda>k d. d) 100 ''s'' ''abc'' 7 ''h'' auth_demo = (Ok m, s1) \<and>
     fst (verify_authenticated_chunk (\<lambda>k d. d) 100 ''s'' m s1) = Ok (Some ''abc'')"
proof -
  obtain m s1 where run: "create_authenticated_chunk (\<lambda>k d. d) 100 ''s'' ''abc'' 7 ''h'' auth_demo = (Ok m, s1)"
    by (simp add: create_authenticated_chunk_def sign_data_def auth_demo_session Let_def)
  from chunk_frame_round_trip [OF this, of 100] run show ?thesis by auto
qed

text \<open>
  After the three messages of a key exchange the initiator has a session whose key is the key
  the responder derived. The responder can finish, though, exactly when the initiator's clock
  at confirmation shows the very second the responder stamped its response with: the initiator
  hashes the response's timestamp but sends its own. (Assumed of the hash: the two inputs that
  differ in the timestamp do not collide.)
\<close>

theorem key_exchange_agreement:
  assumes "crypto_ok C" "initiate_key_exchange C t1 isk n1 a b sid I = (Ok rq, I1)"
    and "respond_to_key_exchange C t2 rsk n2 rq b R = (Ok rs, R1)"
    and "confirm_key_exchange C t3 t4 rs I1 = (Ok cf, I2)" "sv_sessions R sid = None" "t2 < 2 ^ 64" "t3 < 2 ^ 64"
    and "\<And>key. hkdf_sha256 C (rq_exchange_id rq) (x25519_dh C rsk (x25519_public C isk)) ''chiral-hmac-key'' = Some key \<Longrightarrow>
      inj_on (sha256 C) {key @ rq_exchange_id rq @ be_bytes 8 t3 @ ''initiator-confirmed'',
                         key @ rq_exchange_id rq @ be_bytes 8 t2 @ ''initiator-confirmed''}"
  shows "\<exists>key kx. sv_key_exchanges R1 (rq_exchange_id rq) = Some kx \<and> kx_derived_hmac_key kx = Some key \<and>
    sv_sessions I2 sid = Some \<lparr>sa_session_id = sid, sa_hmac_key = key, sa_sequence = 0, sa_last_activity = t4\<rparr> \<and>
    (is_ok (fst (finalize_key_exchange C t5 cf R1)) \<longleftrightarrow> t3 = t2)"
proof -
  note ini = initiate_ok [OF assms(2)]
  obtain kxi where kxi: "sv_key_exchanges I1 (rq_exchange_id rq) = Some kxi" "kx_state kxi = ExInitiated"
    "kx_initiator_secret kxi = Some isk" "kx_session_id kxi = sid" using ini by auto
  obtain key kx where r: "hkdf_sha256 C (rq_exchange_id rq) (x25519_dh C rsk (x25519_public C isk)) ''chiral-hmac-key'' = Some key"
    "rs_exchange_id rs = rq_exchange_id rq" "rs_responder_public_key rs = hex_encode (x25519_public C rsk)" "rs_timestamp rs = t2"
    "sv_key_exchanges R1 (rq_exchange_id rq) = Some kx" "kx_derived_hmac_key kx = Some key" "kx_state kx = ExResponded"
    "kx_session_id kx = sid" "sv_sessions R1 = sv_sessions R"
    using respond_ok [OF assms(1) ini(2) assms(3)] ini(3) by auto
  have dh: "x25519_dh C isk (x25519_public C rsk) = x25519_dh C rsk (x25519_public C isk)" by (rule crypto_okD(2) [OF assms(1)])
  from confirm_ok [OF assms(1) r(3) kxi(1) [folded r(2)] kxi(2,3) assms(4)] r(1) kxi(4) dh
  have c: "cf_exchange_id cf = rq_exchange_id rq" "cf_timestamp cf = t3"
    "cf_initiator_confirmation cf = confirmation_hash C key (rq_exchange_id rq) t2 ''initiator-confirmed''"
    "sv_sessions I2 sid = Some \<lparr>sa_session_id = sid, sa_hmac_key = key, sa_sequence = 0, sa_last_activity = t4\<rparr>"
    using r(2,4) by auto
  have "is_ok (fst (finalize_key_exchange C t5 cf R1)) \<longleftrightarrow>
      confirmation_hash C key (rq_exchange_id rq) t3 ''initiator-confirmed'' = confirmation_hash C key (rq_exchange_id rq) t2 ''initiator-confirmed''"
    using finalize_iff [of R1 cf kx key C t5] r(5-9) assms(5) c by simp
  also have "\<dots> \<longleftrightarrow> t3 = t2" using confirmation_hash_inj [OF _ assms(8) [OF r(1)] assms(7,6)] by auto
  finally show ?thesis using r c by auto
qed

text \<open>An exchange whose confirmation falls into the next second.\<close>

lemma kx_demo:
  "\<exists>rq I1 rs R1 cf I2. initiate_key_exchange toy_crypto 10 ''i'' [] ''a'' ''b'' ''s'' new_stream_auth_service = (Ok rq, I1) \<and>
     respond_to_key_exchange toy_crypto 11 ''r'' [] rq ''b'' new_stream_auth_service = (Ok rs, R1) \<and>
     confirm_key_exchange toy_crypto 12 12 rs I1 = (Ok cf, I2)"
  by (simp add: initiate_key_exchange_def respond_to_key_exchange_def confirm_key_exchange_def new_stream_auth_service_def
      derive_hmac_key_def create_session_def toy_crypto_def wadd64_def Let_def del: hex_encode.simps)

theorem key_exchange_agreement_witness:
  "\<exists>rq I1 rs R1 cf I2. initiate_key_exchange toy_crypto 10 ''i'' [] ''a'' ''b'' ''s'' new_stream_auth_service = (Ok rq, I1) \<and>
     respond_to_key_exchange toy_crypto 11 ''r'' [] rq ''b'' new_stream_auth_service = (Ok rs, R1) \<and>
     confirm_key_exchange toy_crypto 12 12 rs I1 = (Ok cf, I2) \<and> \<not> is_ok (fst (finalize_key_exchange toy_crypto 13 cf R1))"
proof -
  obtain rq I1 rs R1 cf I2 where run: "initiate_key_exchange toy_crypto 10 ''i'' [] ''a'' ''b'' ''s'' new_stream_auth_service = (Ok rq, I1)"
    "respond_to_key_exchange toy_crypto 11 ''r'' [] rq ''b'' new_stream_auth_service = (Ok rs, R1)"
    "confirm_key_exchange toy_crypto 12 12 rs I1 = (Ok cf, I2)" using kx_demo by blast
  have "\<not> is_ok (fst (finalize_key_exchange toy_crypto 13 cf R1))"
    using key_exchange_agreement [OF toy_crypto_ok run, where ?t5.0 = 13]
    by (auto simp: new_stream_auth_service_def toy_crypto_def)
  with run show ?thesis by blast
qed

text \<open>
  A one-way stream never gets through: when two services share a session's key and one only
  signs while the other only verifies, every message is rejected, whatever is sent and when, because
  verifying compares with the receiver's own counter and only signing advances a counter.
\<close>

theorem one_way_stream_rejected:
  assumes "sv_sessions S sid = Some ses" "sv_sessions R sid = Some ses'" "sa_sequence ses = 0" "sa_sequence ses' = 0"
    and "length xs < 2 ^ 64" "ms = sign_stream hmac sid S xs" "length clocks = length ms"
  shows "verify_stream hmac sid R (zip clocks ms) = replicate (length ms) (Ok False)"
proof -
  have "am_sequence m \<noteq> sa_sequence ses'" if "(now, m) \<in> set (zip clocks ms)" for now m
    using sign_stream_sequences [OF assms(1), of xs m hmac] that assms(3-6) by (auto dest: set_zip_rightD)
  then have "verify_stream hmac sid R (zip clocks ms) = replicate (length (zip clocks ms)) (Ok False)"
    by (intro verify_stream_rejects [OF assms(2)]) auto
  with assms(7) show ?thesis by simp
qed

theorem one_way_stream_rejected_witness:
  "verify_stream (\<lambda>k d. d) ''s'' auth_demo (zip [100] (sign_stream (\<lambda>k d. d) ''s'' auth_demo [(100, ''hi'', Heartbeat)])) = [Ok False]"
proof -
  have "length (sign_stream (\<lambda>k d. d) ''s'' auth_demo [(100, ''hi'', Heartbeat)]) = 1"
    by (simp add: sign_data_def auth_demo_session Let_def)
  with one_way_stream_rejected [OF auth_demo_session(1) auth_demo_session(1) _ _ _ refl, of "[(100, ''hi'', Heartbeat)]" "[100]" "\<lambda>k d. d"]
  show ?thesis by simp
qed

text \<open>
  One bad response ends an exchange for good: whatever the reason a response to an exchange in
  progress is refused for, the initiator's secret is gone, so that every later response to it, the
  genuine one included, is refused as well, and the exchange cannot be started again while its
  entry is in the table.
\<close>

theorem bad_response_spoils_exchange:
  assumes "sv_key_exchanges s (exchange_id_of a b sid) = Some kx" "kx_state kx = ExInitiated" "kx_initiator_secret kx = Some secret"
    and "rs_exchange_id rs = exchange_id_of a b sid" "confirm_key_exchange C t t' rs s = (Err e, s1)"
    and "rs_exchange_id rs' = exchange_id_of a b sid"
  shows "confirm_key_exchange C u u' rs' s1 = (Err SecretNotFound, s1) \<and>
    initiate_key_exchange C v isk n a b sid s1 = (Err ExchangeInProgress, s1)"
proof -
  have "sv_key_exchanges s1 (exchange_id_of a b sid) = Some (kx\<lparr>kx_initiator_secret := None\<rparr>)"
    using assms(1-5)
    by (auto simp: confirm_key_exchange_def create_session_def Let_def split: if_splits option.splits sum.splits prod.splits)
  with assms(2,6) show ?thesis by (auto simp: confirm_key_exchange_def initiate_key_exchange_def Let_def)
qed

theorem bad_response_spoils_exchange_witness:
  "\<exists>rq I1 I2. initiate_key_exchange toy_crypto 10 ''i'' [] ''a'' ''b'' ''s'' new_stream_auth_service = (Ok rq, I1) \<and>
     confirm_key_exchange toy_crypto 12 12 \<lparr>rs_exchange_id = exchange_id_of ''a'' ''b'' ''s'', rs_responder_peer_id = [],
       rs_responder_public_key = ''zz'', rs_hmac_key_confirmation = [], rs_timestamp = 0, rs_nonce = []\<rparr> I1 = (Err (AuthCrypto BadHex), I2) \<and>
     initiate_key_exchange toy_crypto 13 ''j'' [] ''a'' ''b'' ''s'' I2 = (Err ExchangeInProgress, I2)"
proof -
  let ?rs = "\<lparr>rs_exchange_id = exchange_id_of ''a'' ''b'' ''s'', rs_responder_peer_id = [],
       rs_responder_public_key = ''zz'', rs_hmac_key_confirmation = [], rs_timestamp = 0, rs_nonce = []\<rparr>"
  obtain rq I1 where run: "initiate_key_exchange toy_crypto 10 ''i'' [] ''a'' ''b'' ''s'' new_stream_auth_service = (Ok rq, I1)"
    using kx_demo by blast
  from initiate_ok(5) [OF run] obtain kx where kx: "sv_key_exchanges I1 (exchange_id_of ''a'' ''b'' ''s'') = Some kx"
    "kx_state kx = ExInitiated" "kx_initiator_secret kx = Some ''i''" by blast
  have "decode_array 32 ''zz'' = Err BadHex" by (simp add: decode_array_def hex_value_def)
  with kx have "\<exists>I2. confirm_key_exchange toy_crypto 12 12 ?rs I1 = (Err (AuthCrypto BadHex), I2)"
    by (simp add: confirm_key_exchange_def Let_def)
  then obtain I2 where c: "confirm_key_exchange toy_crypto 12 12 ?rs I1 = (Err (AuthCrypto BadHex), I2)" ..
  have "rs_exchange_id ?rs = exchange_id_of ''a'' ''b'' ''s''" by simp
  from bad_response_spoils_exchange [OF kx this c this] run c show ?thesis by blast
qed

end
