(* ===== verification/Reassembly.thy ===== *)
theory Reassembly
  imports Encryption
begin

text \<open>
  Writing received chunks into a temporary file and moving it into place:
  \<^verbatim>\<open>src-tauri/src/reassembly.rs\<close>. The commands work on files below a temporary directory: the data
  in \<open>ID.tmp\<close>, the list of received chunks as a JSON document in \<open>ID.bitmap\<close>, replaced through
  \<open>ID.bitmap.tmp\<close>, and lock files. JSON values are modelled with the accessors the source uses;
  reading and printing documents (crate \<open>serde_json\<close>) are function arguments. Locking a file
  waits until it is free, so a locked section is atomic with respect to sections under the
  same lock file; the phases of the bitmap update are separate definitions so that sections
  under different lock files can be interleaved.

  Shown: chunks of a file written at their places in any order, with any repetitions, build the
  file; a successful write is recorded in the bitmap and forgets no other chunk; finalizing
  moves the file only when its hash is the expected one; and a bitmap saved while a chunk is
  being recorded is lost, because the two commands use different lock files.
\<close>

section \<open>JSON\<close>

datatype json =
    JNull
  | JBool bool
  | JUnsigned u64
  | JNumber string
  | JString string
  | JArray "json list"
  | JObject "(string \<times> json) list"

fun json_get :: "string \<Rightarrow> json \<Rightarrow> json option" where
  "json_get k (JObject kvs) = map_of kvs k"
| "json_get k _ = None"

text \<open>\<open>v[k]\<close> on a shared value is \<open>Null\<close> when there is no such member.\<close>

definition json_index :: "string \<Rightarrow> json \<Rightarrow> json" where
  "json_index k v = (case json_get k v of Some x \<Rightarrow> x | None \<Rightarrow> JNull)"

fun as_array :: "json \<Rightarrow> json list option" where
  "as_array (JArray xs) = Some xs"
| "as_array _ = None"

fun as_u64 :: "json \<Rightarrow> u64 option" where
  "as_u64 (JUnsigned n) = Some n"
| "as_u64 _ = None"

section \<open>Results\<close>

datatype reassembly_error =
    TempDirFailed
  | TempOpenFailed
  | ChecksumMismatch u32 string string
  | TempLockFailed
  | TempSeekFailed u64
  | TempWriteFailed
  | TempFlushFailed
  | BitmapFailed reassembly_error
  | TempNotFound
  | IntegrityMismatch
  | IntegrityError
  | DestDirFailed
  | MoveFailed
  | BitmapDirFailed
  | BitmapLockOpenFailed
  | BitmapLockFailed
  | BitmapWriteFailed
  | BitmapRenameFailed
  | BitmapParseFailed
  | BitmapReadFailed
  | CleanupFailed "reassembly_error list"
  | RemoveTempFailed
  | RemoveBitmapFailed

record reassembly_result =
  rr_ok :: bool
  rr_error :: "reassembly_error option"

abbreviation fine :: reassembly_result where
  "fine \<equiv> \<lparr>rr_ok = True, rr_error = None\<rparr>"

definition failed :: "reassembly_error \<Rightarrow> reassembly_result" where
  "failed e = \<lparr>rr_ok = False, rr_error = Some e\<rparr>"

section \<open>Files\<close>

definition temp_file_path :: "path \<Rightarrow> string \<Rightarrow> path" where
  "temp_file_path temp_dir tid = path_join temp_dir (tid @ ''.tmp'')"

definition bitmap_path :: "path \<Rightarrow> string \<Rightarrow> path" where
  "bitmap_path temp_dir tid = path_join temp_dir (tid @ ''.bitmap'')"

definition tmp_bitmap_path :: "path \<Rightarrow> string \<Rightarrow> path" where
  "tmp_bitmap_path temp_dir tid = path_join temp_dir (tid @ ''.bitmap.tmp'')"

definition bitmap_lock_path :: "path \<Rightarrow> string \<Rightarrow> path" where
  "bitmap_lock_path temp_dir tid = path_join temp_dir (tid @ ''.bitmap.lock'')"

definition save_lock_path :: "path \<Rightarrow> string \<Rightarrow> path" where
  "save_lock_path temp_dir tid = path_join temp_dir (tid @ ''.lock'')"

text \<open>\<open>OpenOptions::new().create(true).write(true).open(p)\<close>: an existing file is not truncated.\<close>

definition open_create :: "io_env \<Rightarrow> path \<Rightarrow> disk \<Rightarrow> disk option" where
  "open_create env p d = (if io_fails env (IoOpen p) then None
     else Some (case d p of None \<Rightarrow> d(p \<mapsto> []) | Some _ \<Rightarrow> d))"

section \<open>The bitmap\<close>

text \<open>Any failure to read or parse the document counts as an empty one.\<close>

definition read_bitmap :: "io_env \<Rightarrow> (bytes \<Rightarrow> json option) \<Rightarrow> path \<Rightarrow> disk \<Rightarrow> json" where
  "read_bitmap env parse p d =
     (if fs_exists env p d
      then case fs_read_to_string env p d of
             Inr content \<Rightarrow> (case parse content of Some v \<Rightarrow> v | None \<Rightarrow> JObject [])
           | Inl _ \<Rightarrow> JObject []
      else JObject [])"

definition received_chunks :: "json \<Rightarrow> u32 list" where
  "received_chunks v = (case as_array (json_index ''received_chunks'' v) of
     None \<Rightarrow> []
   | Some xs \<Rightarrow> map (\<lambda>n. n mod 2 ^ 32) (List.map_filter as_u64 xs))"

definition add_chunk :: "string \<Rightarrow> string \<Rightarrow> u32 \<Rightarrow> json \<Rightarrow> json" where
  "add_chunk saved_at tid chunk_index v =
     (let received0 = received_chunks v;
          received = (if chunk_index \<in> set received0 then received0 else received0 @ [chunk_index]);
          fields = [(''transfer_id'', JString tid), (''received_chunks'', JArray (map JUnsigned received)),
                    (''saved_at'', JString saved_at)]
      in JObject (case json_get ''total_chunks'' v of Some tc \<Rightarrow> fields @ [(''total_chunks'', tc)] | None \<Rightarrow> fields))"

text \<open>Writing the document to its temporary name and renaming it into place.\<close>

definition replace_bitmap ::
  "io_env \<Rightarrow> (json \<Rightarrow> bytes) \<Rightarrow> path \<Rightarrow> string \<Rightarrow> json \<Rightarrow> disk \<Rightarrow> (reassembly_error, unit) result \<times> disk" where
  "replace_bitmap env print temp_dir tid v d =
     (case fs_write env (tmp_bitmap_path temp_dir tid) (print v) d of
        (Inl _, d1) \<Rightarrow> (Err BitmapWriteFailed, d1)
      | (Inr _, d1) \<Rightarrow>
          case fs_rename env (tmp_bitmap_path temp_dir tid) (bitmap_path temp_dir tid) d1 of
            (Inl _, d2) \<Rightarrow> (Err BitmapRenameFailed, d2)
          | (Inr _, d2) \<Rightarrow> (Ok (), d2))"

definition update_bitmap_add_chunk ::
  "io_env \<Rightarrow> (bytes \<Rightarrow> json option) \<Rightarrow> (json \<Rightarrow> bytes) \<Rightarrow> string \<Rightarrow> path \<Rightarrow> string \<Rightarrow> u32 \<Rightarrow> disk
     \<Rightarrow> (reassembly_error, unit) result \<times> disk" where
  "update_bitmap_add_chunk env parse print saved_at temp_dir tid chunk_index d =
     (if io_fails env (IoMkdir temp_dir) then (Err BitmapDirFailed, d)
      else case open_create env (bitmap_lock_path temp_dir tid) d of
        None \<Rightarrow> (Err BitmapLockOpenFailed, d)
      | Some d1 \<Rightarrow>
          if io_fails env (IoLock (bitmap_lock_path temp_dir tid)) then (Err BitmapLockFailed, d1)
          else replace_bitmap env print temp_dir tid
                 (add_chunk saved_at tid chunk_index (read_bitmap env parse (bitmap_path temp_dir tid) d1)) d1)"

definition saved_bitmap :: "string \<Rightarrow> string \<Rightarrow> u32 list \<Rightarrow> u32 \<Rightarrow> json" where
  "saved_bitmap saved_at tid received total_chunks =
     JObject [(''transfer_id'', JString tid), (''total_chunks'', JUnsigned total_chunks),
              (''received_chunks'', JArray (map JUnsigned received)), (''saved_at'', JString saved_at)]"

definition save_chunk_bitmap ::
  "io_env \<Rightarrow> (json \<Rightarrow> bytes) \<Rightarrow> string \<Rightarrow> path \<Rightarrow> string \<Rightarrow> u32 list \<Rightarrow> u32 \<Rightarrow> disk \<Rightarrow> reassembly_result \<times> disk" where
  "save_chunk_bitmap env print saved_at temp_dir tid received total_chunks d =
     (case open_create env (save_lock_path temp_dir tid) d of
        None \<Rightarrow> (failed BitmapLockOpenFailed, d)
      | Some d1 \<Rightarrow>
          if io_fails env (IoLock (save_lock_path temp_dir tid)) then (failed BitmapLockFailed, d1)
          else case replace_bitmap env print temp_dir tid (saved_bitmap saved_at tid received total_chunks) d1 of
                 (Inl e, d2) \<Rightarrow> (failed e, d2)
               | (Inr _, d2) \<Rightarrow> (fine, d2))"

definition load_chunk_bitmap ::
  "io_env \<Rightarrow> (bytes \<Rightarrow> json option) \<Rightarrow> path \<Rightarrow> string \<Rightarrow> disk \<Rightarrow> (reassembly_error, u32 list option) result" where
  "load_chunk_bitmap env parse temp_dir tid d =
     (if \<not> fs_exists env (bitmap_path temp_dir tid) d then Ok None
      else case fs_read_to_string env (bitmap_path temp_dir tid) d of
        Inl _ \<Rightarrow> Err BitmapReadFailed
      | Inr content \<Rightarrow>
          case parse content of
            None \<Rightarrow> Err BitmapParseFailed
          | Some v \<Rightarrow>
              case as_array (json_index ''received_chunks'' v) of
                None \<Rightarrow> Ok None
              | Some xs \<Rightarrow> Ok (Some (map (\<lambda>n. n mod 2 ^ 32) (List.map_filter as_u64 xs))))"

section \<open>The commands\<close>

definition write_chunk_temp ::
  "io_env \<Rightarrow> (bytes \<Rightarrow> bytes) \<Rightarrow> (bytes \<Rightarrow> json option) \<Rightarrow> (json \<Rightarrow> bytes) \<Rightarrow> string \<Rightarrow> path
     \<Rightarrow> string \<Rightarrow> u32 \<Rightarrow> u64 \<Rightarrow> bytes \<Rightarrow> string option \<Rightarrow> disk \<Rightarrow> reassembly_result \<times> disk" where
  "write_chunk_temp env sha parse print saved_at temp_dir tid chunk_index offset data checksum d =
     (let p = temp_file_path temp_dir tid in
      if io_fails env (IoMkdir temp_dir) then (failed TempDirFailed, d)
      else case open_create env p d of
        None \<Rightarrow> (failed TempOpenFailed, d)
      | Some d1 \<Rightarrow>
          let computed = hex_encode (sha data) in
          if (case checksum of None \<Rightarrow> False | Some expected \<Rightarrow> \<not> eq_ignore_ascii_case computed expected)
          then (failed (ChecksumMismatch chunk_index (the checksum) computed), d1)
          else if io_fails env (IoLock p) then (failed TempLockFailed, d1)
          else if io_fails env (IoSeek p offset) then (failed (TempSeekFailed offset), d1)
          else case write_all_at env p offset data d1 of
                 (False, d2) \<Rightarrow> (failed TempWriteFailed, d2)
               | (True, d2) \<Rightarrow>
                   if io_fails env (IoFlush p) then (failed TempFlushFailed, d2)
                   else case update_bitmap_add_chunk env parse print saved_at temp_dir tid chunk_index d2 of
                          (Inl e, d3) \<Rightarrow> (failed (BitmapFailed e), d3)
                        | (Inr _, d3) \<Rightarrow> (fine, d3))"

definition verify_file_hash :: "io_env \<Rightarrow> (bytes \<Rightarrow> bytes) \<Rightarrow> path \<Rightarrow> string \<Rightarrow> disk \<Rightarrow> bool option" where
  "verify_file_hash env sha p expected d =
     (case d p of
        None \<Rightarrow> None
      | Some content \<Rightarrow>
          if io_fails env (IoOpen p) \<or> io_fails env (IoRead p) then None
          else Some (eq_ignore_ascii_case (hex_encode (sha content)) expected))"

definition verify_and_finalize ::
  "io_env \<Rightarrow> (bytes \<Rightarrow> bytes) \<Rightarrow> path \<Rightarrow> string \<Rightarrow> string option \<Rightarrow> string \<Rightarrow> disk \<Rightarrow> reassembly_result \<times> disk" where
  "verify_and_finalize env sha temp_dir tid expected_sha256 final_path d =
     (let p = temp_file_path temp_dir tid; q = path_of_string final_path in
      if \<not> fs_exists env p d then (failed TempNotFound, d)
      else case (case expected_sha256 of None \<Rightarrow> Some True | Some expected \<Rightarrow> verify_file_hash env sha p expected d) of
        None \<Rightarrow> (failed IntegrityError, d)
      | Some False \<Rightarrow> (failed IntegrityMismatch, d)
      | Some True \<Rightarrow>
          if (case parent q of None \<Rightarrow> False | Some dir \<Rightarrow> io_fails env (IoMkdir dir)) then (failed DestDirFailed, d)
          else case fs_rename env p q d of
                 (Inl _, d1) \<Rightarrow> (failed MoveFailed, d1)
               | (Inr _, d1) \<Rightarrow> (fine, d1))"

definition remove_if_exists :: "io_env \<Rightarrow> path \<Rightarrow> reassembly_error \<Rightarrow> disk \<Rightarrow> reassembly_error list \<times> disk" where
  "remove_if_exists env p e d =
     (if fs_exists env p d
      then case fs_remove env p d of (Inl _, d1) \<Rightarrow> ([e], d1) | (Inr _, d1) \<Rightarrow> ([], d1)
      else ([], d))"

definition cleanup_transfer_temp :: "io_env \<Rightarrow> path \<Rightarrow> string \<Rightarrow> disk \<Rightarrow> reassembly_result \<times> disk" where
  "cleanup_transfer_temp env temp_dir tid d =
     (case remove_if_exists env (temp_file_path temp_dir tid) RemoveTempFailed d of (e1, d1) \<Rightarrow>
      case remove_if_exists env (bitmap_path temp_dir tid) RemoveBitmapFailed d1 of (e2, d2) \<Rightarrow>
        (if e1 @ e2 = [] then fine else failed (CleanupFailed (e1 @ e2)), d2))"

section \<open>Building a file from pieces\<close>

text \<open>\<open>(off, b)\<close> is a piece of \<open>content\<close>; \<open>built W content c\<close>: \<open>c\<close> agrees with \<open>content\<close> on the positions \<open>W\<close>.\<close>

definition piece_of :: "bytes \<Rightarrow> nat \<times> bytes \<Rightarrow> bool" where
  "piece_of content p \<longleftrightarrow> fst p + length (snd p) \<le> length content \<and>
     (\<forall>j < length (snd p). snd p ! j = content ! (fst p + j))"

definition region :: "nat \<times> bytes \<Rightarrow> nat set" where
  "region p = {fst p ..< fst p + length (snd p)}"

definition built :: "nat set \<Rightarrow> bytes \<Rightarrow> bytes \<Rightarrow> bool" where
  "built W content c \<longleftrightarrow> length c \<le> length content \<and> (\<forall>i \<in> W. i < length c \<and> c ! i = content ! i)"

lemma built_write:
  assumes "built W content c" "piece_of content p"
  shows "built (W \<union> region p) content (write_at (fst p) (snd p) c)"
proof (cases "snd p = []")
  case True
  with assms(1) show ?thesis by (simp add: region_def write_at_def)
next
  case False
  have len: "length (write_at (fst p) (snd p) c) = max (length c) (fst p + length (snd p))"
    using False by (simp add: length_write_at)
  have "i < length (write_at (fst p) (snd p) c) \<and> write_at (fst p) (snd p) c ! i = content ! i" if i: "i \<in> W \<union> region p" for i
  proof (cases "i \<in> region p")
    case True
    then have r: "fst p \<le> i" "i < fst p + length (snd p)" by (auto simp: region_def)
    then have "snd p ! (i - fst p) = content ! i" using assms(2) by (auto simp: piece_of_def dest: spec [of _ "i - fst p"])
    with r False show ?thesis by (simp add: len nth_write_at)
  next
    case not: False
    with i assms(1) have "i < length c" "c ! i = content ! i" by (auto simp: built_def)
    moreover have "i < fst p \<or> fst p + length (snd p) \<le> i" using not by (auto simp: region_def)
    ultimately show ?thesis by (simp add: len nth_write_at_other)
  qed
  with assms len show ?thesis by (auto simp: built_def piece_of_def)
qed

lemma built_writes:
  assumes "built W content c" "\<And>p. p \<in> set ps \<Longrightarrow> piece_of content p"
  shows "built (W \<union> (\<Union>p \<in> set ps. region p)) content (foldl (\<lambda>c p. write_at (fst p) (snd p) c) c ps)"
  using assms
proof (induction ps arbitrary: W c)
  case (Cons p ps)
  from Cons.IH [OF built_write [OF Cons.prems(1)]] Cons.prems(2) show ?case by (simp add: Un_assoc)
qed simp

lemma built_all: "built W content c \<Longrightarrow> {..<length content} \<subseteq> W \<Longrightarrow> c = content"
proof -
  assume b: "built W content c" and all: "{..<length content} \<subseteq> W"
  have len: "length c = length content"
  proof (rule antisym)
    show "length c \<le> length content" using b by (simp add: built_def)
    show "length content \<le> length c"
    proof (rule ccontr)
      assume "\<not> length content \<le> length c"
      with all have "length c \<in> W" by auto
      with b show False by (auto simp: built_def)
    qed
  qed
  with b all show ?thesis by (intro nth_equalityI) (auto simp: built_def)
qed

section \<open>Paths\<close>

text \<open>For an identifier without a slash the files of a transfer are distinct files of the temporary directory.\<close>

lemma transfer_paths:
  assumes "CHR ''/'' \<notin> set tid"
  shows "temp_file_path dir tid = dir @ [tid @ ''.tmp'']" "bitmap_path dir tid = dir @ [tid @ ''.bitmap'']"
    "tmp_bitmap_path dir tid = dir @ [tid @ ''.bitmap.tmp'']" "bitmap_lock_path dir tid = dir @ [tid @ ''.bitmap.lock'']"
    "save_lock_path dir tid = dir @ [tid @ ''.lock'']"
  using assms
  by (auto simp: temp_file_path_def bitmap_path_def tmp_bitmap_path_def bitmap_lock_path_def save_lock_path_def
      intro!: path_join_simple dest: arg_cong [of _ _ length])

text \<open>An absolute identifier names files outside the temporary directory: it is not sanitised.\<close>

lemma absolute_transfer_id: "temp_file_path dir (''/etc/x'') = [''/'', ''etc'', ''x.tmp'']"
  by (simp add: temp_file_path_def path_join_def path_of_string_def starts_with_def)

section \<open>The bitmap\<close>

lemma received_of:
  assumes "json_index ''received_chunks'' v = JArray (map JUnsigned xs)"
  shows "received_chunks v = map (\<lambda>n. n mod 2 ^ 32) xs"
proof -
  have "List.map_filter as_u64 (map JUnsigned xs) = xs" by (induction xs) (simp_all add: List.map_filter_def)
  with assms show ?thesis by (simp add: received_chunks_def)
qed

lemma received_add_chunk:
  "received_chunks (add_chunk at tid i v) =
     map (\<lambda>n. n mod 2 ^ 32) (if i \<in> set (received_chunks v) then received_chunks v else received_chunks v @ [i])"
  by (rule received_of) (simp add: add_chunk_def json_index_def Let_def split: option.split)

lemma received_small: "n \<in> set (received_chunks v) \<Longrightarrow> n < 2 ^ 32"
  by (auto simp: received_chunks_def split: option.splits)

lemma set_received_add: "i < 2 ^ 32 \<Longrightarrow> set (received_chunks (add_chunk at tid i v)) = insert i (set (received_chunks v))"
proof -
  assume i: "i < 2 ^ 32"
  have "(\<lambda>n. n mod 2 ^ 32) ` set (received_chunks v) = set (received_chunks v)"
    using received_small [of _ v] by (force simp: image_iff)
  with i show ?thesis by (auto simp: received_add_chunk)
qed

text \<open>What loading returns for a document with a chunk list.\<close>

lemma load_bitmap_doc:
  assumes "d (bitmap_path dir tid) = Some b" "utf8_valid b" "parse b = Some v" "as_array (json_index ''received_chunks'' v) \<noteq> None"
    and "\<not> io_fails env (IoStat (bitmap_path dir tid))" "\<not> io_fails env (IoRead (bitmap_path dir tid))"
  shows "load_chunk_bitmap env parse dir tid d = Ok (Some (received_chunks v))"
  using assms by (auto simp: load_chunk_bitmap_def fs_exists_def fs_read_to_string_def fs_read_def received_chunks_def)

lemma add_chunk_array: "as_array (json_index ''received_chunks'' (add_chunk at tid i v)) \<noteq> None"
  by (simp add: add_chunk_def json_index_def Let_def split: option.split)

lemma replace_bitmap_ok:
  assumes "CHR ''/'' \<notin> set tid" "replace_bitmap env print dir tid v d = (Ok u, d')"
  shows "d' = (d(tmp_bitmap_path dir tid := None))(bitmap_path dir tid \<mapsto> print v)"
proof -
  have ne: "tmp_bitmap_path dir tid \<noteq> bitmap_path dir tid" by (simp add: transfer_paths [OF assms(1)])
  from assms(2) have "write_rename env (tmp_bitmap_path dir tid) (bitmap_path dir tid) (print v) d = (Ok (), d')"
    by (auto simp: replace_bitmap_def write_rename_def split: prod.splits sum.splits)
  from write_rename_ok [OF ne this] show ?thesis .
qed

lemma open_create_same:
  "open_create env p d = Some d1 \<Longrightarrow> q \<noteq> p \<Longrightarrow> d1 q = d q"
  "open_create env p d = Some d1 \<Longrightarrow> d1 p = Some (case d p of None \<Rightarrow> [] | Some c \<Rightarrow> c)"
  by (auto simp: open_create_def split: if_splits option.splits)

lemma update_bitmap_ok:
  assumes "CHR ''/'' \<notin> set tid" "update_bitmap_add_chunk env parse print at dir tid i d = (Ok u, d')"
  shows "d' (bitmap_path dir tid) = Some (print (add_chunk at tid i (read_bitmap env parse (bitmap_path dir tid) d)))"
    and "d' (temp_file_path dir tid) = d (temp_file_path dir tid)"
proof -
  note ps = transfer_paths [OF assms(1)]
  from assms(2) obtain d1 where o: "open_create env (bitmap_lock_path dir tid) d = Some d1"
    and r: "replace_bitmap env print dir tid (add_chunk at tid i (read_bitmap env parse (bitmap_path dir tid) d1)) d1 = (Ok u, d')"
    by (auto simp: update_bitmap_add_chunk_def split: if_splits option.splits)
  have b: "d1 (bitmap_path dir tid) = d (bitmap_path dir tid)" "d1 (temp_file_path dir tid) = d (temp_file_path dir tid)"
    using open_create_same(1) [OF o] by (simp_all add: ps)
  then have "read_bitmap env parse (bitmap_path dir tid) d1 = read_bitmap env parse (bitmap_path dir tid) d"
    by (simp add: read_bitmap_def fs_exists_def fs_read_to_string_def fs_read_def)
  with replace_bitmap_ok [OF assms(1) r] b
  show "d' (bitmap_path dir tid) = Some (print (add_chunk at tid i (read_bitmap env parse (bitmap_path dir tid) d)))"
    and "d' (temp_file_path dir tid) = d (temp_file_path dir tid)" by (simp_all add: ps)
qed

section \<open>A successful write\<close>

lemma write_chunk_temp_ok:
  assumes "CHR ''/'' \<notin> set tid" "write_chunk_temp env sha parse print at dir tid i off data cks d = (r, d')" "rr_ok r"
  shows "d' (temp_file_path dir tid) = Some (write_at off data (case d (temp_file_path dir tid) of Some c \<Rightarrow> c | None \<Rightarrow> []))"
    and "d' (bitmap_path dir tid) = Some (print (add_chunk at tid i (read_bitmap env parse (bitmap_path dir tid) d)))"
    and "\<And>h. cks = Some h \<Longrightarrow> to_ascii_lowercase h = hex_encode (sha data)"
proof -
  note ps = transfer_paths [OF assms(1)]
  let ?p = "temp_file_path dir tid"
  from assms(2,3) obtain d1 where o: "open_create env ?p d = Some d1"
    by (auto simp: write_chunk_temp_def failed_def Let_def split: if_splits option.splits)
  note run = assms(2) [unfolded write_chunk_temp_def Let_def o option.case]
  from run assms(3) have ck: "\<not> (case cks of None \<Rightarrow> False | Some expected \<Rightarrow> \<not> eq_ignore_ascii_case (hex_encode (sha data)) expected)"
    by (auto simp: failed_def split: if_splits)
  from run assms(3) ck obtain d2 where w: "write_all_at env ?p off data d1 = (True, d2)"
    by (auto simp: failed_def split: if_splits prod.splits bool.splits)
  from run assms(3) ck w obtain u where b: "update_bitmap_add_chunk env parse print at dir tid i d2 = (Ok u, d')"
    by (auto simp: failed_def split: if_splits prod.splits sum.splits)
  from w have d2: "d2 = d1(?p \<mapsto> write_at off data (case d1 ?p of Some c \<Rightarrow> c | None \<Rightarrow> []))"
    by (auto simp: write_all_at_def Let_def split: if_splits)
  have same: "d1 (bitmap_path dir tid) = d (bitmap_path dir tid)" using open_create_same(1) [OF o] by (simp add: ps)
  have "read_bitmap env parse (bitmap_path dir tid) d2 = read_bitmap env parse (bitmap_path dir tid) d"
    using same by (simp add: d2 read_bitmap_def fs_exists_def fs_read_to_string_def fs_read_def ps)
  with update_bitmap_ok [OF assms(1) b] open_create_same(2) [OF o]
  show "d' ?p = Some (write_at off data (case d ?p of Some c \<Rightarrow> c | None \<Rightarrow> []))"
    and "d' (bitmap_path dir tid) = Some (print (add_chunk at tid i (read_bitmap env parse (bitmap_path dir tid) d)))"
    by (auto simp: d2 split: option.split)
  show "to_ascii_lowercase h = hex_encode (sha data)" if "cks = Some h" for h
    using ck that by (simp add: eq_ignore_hex_lower)
qed

section \<open>A sequence of writes\<close>

type_synonym chunk_arg = "u32 \<times> u64 \<times> bytes \<times> string option"

fun write_chunks_temp ::
  "io_env \<Rightarrow> (bytes \<Rightarrow> bytes) \<Rightarrow> (bytes \<Rightarrow> json option) \<Rightarrow> (json \<Rightarrow> bytes) \<Rightarrow> string \<Rightarrow> path \<Rightarrow> string \<Rightarrow> chunk_arg list \<Rightarrow> disk
     \<Rightarrow> bool \<times> disk" where
  "write_chunks_temp env sha parse print at dir tid [] d = (True, d)"
| "write_chunks_temp env sha parse print at dir tid ((i, off, data, cks) # xs) d =
     (case write_chunk_temp env sha parse print at dir tid i off data cks d of
        (r, d1) \<Rightarrow> if rr_ok r then write_chunks_temp env sha parse print at dir tid xs d1 else (False, d1))"

abbreviation placed :: "chunk_arg \<Rightarrow> nat \<times> bytes" where
  "placed x \<equiv> (fst (snd x), fst (snd (snd x)))"

lemma write_chunks_content:
  assumes "CHR ''/'' \<notin> set tid" "write_chunks_temp env sha parse print at dir tid xs d = (True, d')" "xs \<noteq> []"
  shows "d' (temp_file_path dir tid) =
    Some (foldl (\<lambda>c p. write_at (fst p) (snd p) c) (case d (temp_file_path dir tid) of Some c \<Rightarrow> c | None \<Rightarrow> []) (map placed xs))"
  using assms(2,3)
proof (induction xs arbitrary: d)
  case (Cons x xs)
  obtain i off data cks where x: "x = (i, off, data, cks)" by (cases x)
  obtain r d1 where w: "write_chunk_temp env sha parse print at dir tid i off data cks d = (r, d1)"
    by (cases "write_chunk_temp env sha parse print at dir tid i off data cks d")
  from Cons.prems x w have ok: "rr_ok r" and rest: "write_chunks_temp env sha parse print at dir tid xs d1 = (True, d')"
    by (auto split: if_splits)
  note d1 = write_chunk_temp_ok(1) [OF assms(1) w ok]
  show ?case
  proof (cases "xs = []")
    case True
    with rest d1 x show ?thesis by simp
  next
    case False
    with Cons.IH [OF rest] d1 x show ?thesis by simp
  qed
qed simp

text \<open>Writes of pieces that cover the content leave exactly the content.\<close>

lemma chunks_content:
  assumes "CHR ''/'' \<notin> set tid" "d (temp_file_path dir tid) = None" "xs \<noteq> []"
    and "write_chunks_temp env sha parse print at dir tid xs d = (True, d')"
    and "\<And>x. x \<in> set xs \<Longrightarrow> piece_of content (placed x)" "{..<length content} \<subseteq> (\<Union>x \<in> set xs. region (placed x))"
  shows "d' (temp_file_path dir tid) = Some content"
proof -
  let ?c = "foldl (\<lambda>c p. write_at (fst p) (snd p) c) [] (map placed xs)"
  have "built ({} \<union> (\<Union>p \<in> set (map placed xs). region p)) content ?c"
    using assms(5) by (intro built_writes) (auto simp: built_def)
  then have "?c = content" by (rule built_all) (use assms(6) in simp)
  with write_chunks_content [OF assms(1,4,3)] assms(2) show ?thesis by simp
qed

section \<open>Properties\<close>

text \<open>
  C12: Chunks arriving in any order, any number of times and with any overlaps build the file: when
  every chunk written is a piece of the content at its offset, the chunks together cover the
  content, and every write reports success, the temporary file is exactly the content.
\<close>

theorem chunks_build_file:
  assumes "CHR ''/'' \<notin> set tid" "d (temp_file_path dir tid) = None" "xs \<noteq> []"
    and "write_chunks_temp env sha parse print at dir tid xs d = (True, d')"
    and "\<And>x. x \<in> set xs \<Longrightarrow> piece_of content (placed x)" "{..<length content} \<subseteq> (\<Union>x \<in> set xs. region (placed x))"
  shows "d' (temp_file_path dir tid) = Some content"
  using assms by (rule chunks_content)

theorem chunks_build_file_witness:
  "snd (write_chunks_temp no_faults (\<lambda>b. b) (\<lambda>_. None) (\<lambda>_. []) ''now'' [''t''] ''x'' [(1, 2, ''cd'', None), (0, 0, ''ab'', None)] Map.empty)
     (temp_file_path [''t''] ''x'') = Some ''abcd''"
proof -
  let ?run = "write_chunks_temp no_faults (\<lambda>b. b) (\<lambda>_. None) (\<lambda>_. []) ''now'' [''t''] ''x'' [(1, 2, ''cd'', None), (0, 0, ''ab'', None)] Map.empty"
  have "fst ?run"
    by (simp add: write_chunk_temp_def open_create_def write_all_at_def update_bitmap_add_chunk_def replace_bitmap_def
        fs_write_def fs_rename_def Let_def transfer_paths)
  then obtain d' where run: "?run = (True, d')" by (cases ?run) simp
  have "d' (temp_file_path [''t''] ''x'') = Some ''abcd''"
    by (rule chunks_build_file [OF _ _ _ run])
      (auto simp: piece_of_def region_def nth_Cons less_Suc_eq numeral_2_eq_2 split: nat.splits)
  with run show ?thesis by simp
qed

text \<open>
  A successful write is remembered and nothing is forgotten: loading the bitmap afterwards gives
  the chunks recorded before together with the chunk just written, and when a checksum was
  given the data had it. (Assumed: the printed document is UTF-8 text and reading it gives it
  back, and the bitmap file can be read.)
\<close>

theorem write_recorded:
  assumes "CHR ''/'' \<notin> set tid" "i < 2 ^ 32"
    and "v = add_chunk at tid i (read_bitmap env parse (bitmap_path dir tid) d)" "utf8_valid (print v)" "parse (print v) = Some v"
    and "write_chunk_temp env sha parse print at dir tid i off data cks d = (r, d')" "rr_ok r"
    and "\<not> io_fails env (IoStat (bitmap_path dir tid))" "\<not> io_fails env (IoRead (bitmap_path dir tid))"
  shows "(\<exists>is. load_chunk_bitmap env parse dir tid d' = Ok (Some is) \<and>
      set is = insert i (set (received_chunks (read_bitmap env parse (bitmap_path dir tid) d)))) \<and>
    (\<forall>h. cks = Some h \<longrightarrow> to_ascii_lowercase h = hex_encode (sha data))"
proof -
  have doc: "d' (bitmap_path dir tid) = Some (print v)"
    unfolding assms(3) by (rule write_chunk_temp_ok(2) [OF assms(1,6,7)])
  have "as_array (json_index ''received_chunks'' v) \<noteq> None" unfolding assms(3) by (rule add_chunk_array)
  then have "load_chunk_bitmap env parse dir tid d' = Ok (Some (received_chunks v))"
    using doc assms(4,5,8,9) by (intro load_bitmap_doc)
  moreover have "set (received_chunks v) = insert i (set (received_chunks (read_bitmap env parse (bitmap_path dir tid) d)))"
    unfolding assms(3) by (rule set_received_add [OF assms(2)])
  ultimately show ?thesis using write_chunk_temp_ok(3) [OF assms(1,6,7)] by auto
qed

theorem write_recorded_witness:
  "\<exists>is. load_chunk_bitmap no_faults
       (\<lambda>b. if b = ''doc'' then Some (saved_bitmap ''now'' ''x'' [7] 9) else if b = ''new''
            then Some (add_chunk ''now'' ''x'' 3 (saved_bitmap ''now'' ''x'' [7] 9)) else None) [''t''] ''x''
       (snd (write_chunk_temp no_faults (\<lambda>b. b)
         (\<lambda>b. if b = ''doc'' then Some (saved_bitmap ''now'' ''x'' [7] 9) else if b = ''new''
              then Some (add_chunk ''now'' ''x'' 3 (saved_bitmap ''now'' ''x'' [7] 9)) else None)
         (\<lambda>_. ''new'') ''now'' [''t''] ''x'' 3 0 ''ab'' (Some ''6162'') [bitmap_path [''t''] ''x'' \<mapsto> ''doc''])) = Ok (Some is) \<and>
     set is = {3, 7}"
proof -
  let ?old = "saved_bitmap ''now'' ''x'' [7] 9"
  let ?parse = "\<lambda>b. if b = ''doc'' then Some ?old else if b = ''new'' then Some (add_chunk ''now'' ''x'' 3 ?old) else None"
  let ?d = "[bitmap_path [''t''] ''x'' \<mapsto> ''doc'']"
  let ?run = "write_chunk_temp no_faults (\<lambda>b. b) ?parse (\<lambda>_. ''new'') ''now'' [''t''] ''x'' 3 0 ''ab'' (Some ''6162'') ?d"
  have old: "read_bitmap no_faults ?parse (bitmap_path [''t''] ''x'') ?d = ?old"
    by (simp add: read_bitmap_def fs_exists_def fs_read_to_string_def fs_read_def)
  have rec: "received_chunks ?old = [7]" by (simp add: received_chunks_def saved_bitmap_def json_index_def List.map_filter_def)
  have ck: "eq_ignore_ascii_case (hex_encode ''ab'') ''6162''" by code_simp
  have ok: "rr_ok (fst ?run)"
    using ck by (simp add: write_chunk_temp_def open_create_def write_all_at_def update_bitmap_add_chunk_def replace_bitmap_def
        fs_write_def fs_rename_def Let_def transfer_paths)
  have run: "?run = (fst ?run, snd ?run)" by simp
  show ?thesis
    using write_recorded [OF _ _ refl _ _ run ok] by (simp add: old rec)
qed

section \<open>Finalizing\<close>

text \<open>What has to go well besides the hash: the calls that examine, read and move the file, and the creation of the directory.\<close>

definition finalize_works :: "io_env \<Rightarrow> path \<Rightarrow> string option \<Rightarrow> path \<Rightarrow> bool" where
  "finalize_works env p expected q \<longleftrightarrow> \<not> io_fails env (IoStat p) \<and> \<not> io_fails env (IoRename p q) \<and>
     (expected \<noteq> None \<longrightarrow> \<not> io_fails env (IoOpen p) \<and> \<not> io_fails env (IoRead p)) \<and> (\<forall>dir. parent q = Some dir \<longrightarrow> \<not> io_fails env (IoMkdir dir))"

text \<open>
  C17: Finalizing moves the temporary file exactly when it should: it reports success if and only if the temporary file is there, its hash
  is the expected one when one was given, and none of the calls it makes fails. After a success the destination holds what the
  temporary file held, the temporary name is gone and no other file changed; after a failure every file is as it was and an error is
  reported.
\<close>

theorem finalize_exact:
  assumes "verify_and_finalize env sha dir tid expected final_path d = (r, d')"
    and "path_of_string final_path \<noteq> temp_file_path dir tid"
  shows "(rr_ok r \<longleftrightarrow> (\<exists>content. d (temp_file_path dir tid) = Some content \<and>
        (\<forall>h. expected = Some h \<longrightarrow> to_ascii_lowercase h = hex_encode (sha content))) \<and>
        finalize_works env (temp_file_path dir tid) expected (path_of_string final_path)) \<and>
    (rr_ok r \<longrightarrow> d' = d(temp_file_path dir tid := None, path_of_string final_path := d (temp_file_path dir tid))) \<and>
    (\<not> rr_ok r \<longrightarrow> d' = d \<and> rr_error r \<noteq> None)"
proof -
  let ?p = "temp_file_path dir tid"
  show ?thesis
  proof (cases "d ?p")
    case None
    with assms(1) show ?thesis by (auto simp: verify_and_finalize_def fs_exists_def failed_def Let_def)
  next
    case (Some content)
    with assms show ?thesis
      by (cases expected; cases "parent (path_of_string final_path)")
        (auto simp: verify_and_finalize_def verify_file_hash_def finalize_works_def fs_rename_def failed_def Let_def eq_ignore_hex_lower fs_exists_def
          split: if_splits bool.splits)
  qed
qed

theorem finalize_exact_witness:
  "snd (verify_and_finalize no_faults (\<lambda>b. b) [''t''] ''x'' (Some ''6162'') ''/out'' [temp_file_path [''t''] ''x'' \<mapsto> ''ab''])
     = [path_of_string ''/out'' \<mapsto> ''ab'']"
proof -
  let ?d = "[temp_file_path [''t''] ''x'' \<mapsto> ''ab'']"
  let ?run = "verify_and_finalize no_faults (\<lambda>b. b) [''t''] ''x'' (Some ''6162'') ''/out'' ?d"
  have ne: "path_of_string ''/out'' \<noteq> temp_file_path [''t''] ''x''"
    by (simp add: transfer_paths path_of_string_def starts_with_def)
  have ck: "eq_ignore_ascii_case (hex_encode ''ab'') ''6162''" by code_simp
  have ok: "rr_ok (fst ?run)"
    using ck by (auto simp: verify_and_finalize_def verify_file_hash_def fs_rename_def Let_def fs_exists_def split: option.splits)
  have run: "?run = (fst ?run, snd ?run)" by simp
  from finalize_exact [OF run ne] ok show ?thesis by (auto simp: fun_eq_iff)
qed

section \<open>Two commands on one bitmap\<close>

text \<open>
  A bitmap saved while a chunk is being recorded is lost: the two commands lock different files,
  so a save can fall between the reading and the writing of the recording command, and
  afterwards the bitmap lists what the recording command had read and its own chunk, whatever the
  save wrote.
\<close>

theorem lost_update:
  assumes "CHR ''/'' \<notin> set tid" "i < 2 ^ 32" "v = read_bitmap env parse (bitmap_path dir tid) d0"
    and "save_chunk_bitmap env print at0 dir tid received n d0 = (r, d1)" "rr_ok r"
    and "replace_bitmap env print dir tid (add_chunk at tid i v) d1 = (Ok u, d2)"
    and "utf8_valid (print (add_chunk at tid i v))" "parse (print (add_chunk at tid i v)) = Some (add_chunk at tid i v)"
    and "\<not> io_fails env (IoStat (bitmap_path dir tid))" "\<not> io_fails env (IoRead (bitmap_path dir tid))"
  shows "bitmap_lock_path dir tid \<noteq> save_lock_path dir tid \<and>
    d1 (bitmap_path dir tid) = Some (print (saved_bitmap at0 tid received n)) \<and>
    (\<exists>is. load_chunk_bitmap env parse dir tid d2 = Ok (Some is) \<and> set is = insert i (set (received_chunks v)))"
proof (intro conjI)
  show "bitmap_lock_path dir tid \<noteq> save_lock_path dir tid" by (simp add: transfer_paths [OF assms(1)])
  from assms(4,5) obtain d u where "replace_bitmap env print dir tid (saved_bitmap at0 tid received n) d = (Ok u, d1)"
    by (auto simp: save_chunk_bitmap_def failed_def split: option.splits if_splits prod.splits sum.splits)
  from replace_bitmap_ok [OF assms(1) this]
  show "d1 (bitmap_path dir tid) = Some (print (saved_bitmap at0 tid received n))" by simp
  have "d2 (bitmap_path dir tid) = Some (print (add_chunk at tid i v))"
    using replace_bitmap_ok [OF assms(1,6)] by simp
  then have "load_chunk_bitmap env parse dir tid d2 = Ok (Some (received_chunks (add_chunk at tid i v)))"
    using assms(7-10) by (intro load_bitmap_doc add_chunk_array)
  with set_received_add [OF assms(2)]
  show "\<exists>is. load_chunk_bitmap env parse dir tid d2 = Ok (Some is) \<and> set is = insert i (set (received_chunks v))" by auto
qed

theorem lost_update_witness:
  "\<exists>d1 d2 is. save_chunk_bitmap no_faults (\<lambda>_. ''doc'') ''t0'' [''t''] ''x'' [0, 1, 2] 9 Map.empty = (fine, d1) \<and>
     replace_bitmap no_faults (\<lambda>_. ''doc'') [''t''] ''x'' (add_chunk ''t1'' ''x'' 3 (JObject [])) d1 = (Ok (), d2) \<and>
     load_chunk_bitmap no_faults (\<lambda>_. Some (add_chunk ''t1'' ''x'' 3 (JObject []))) [''t''] ''x'' d2 = Ok (Some is) \<and> set is = {3}"
proof -
  let ?v = "JObject []"
  let ?parse = "\<lambda>_. Some (add_chunk ''t1'' ''x'' 3 ?v)"
  let ?print = "\<lambda>_. ''doc''"
  obtain d1 where s: "save_chunk_bitmap no_faults ?print ''t0'' [''t''] ''x'' [0, 1, 2] 9 Map.empty = (fine, d1)"
    by (simp add: save_chunk_bitmap_def open_create_def replace_bitmap_def fs_write_def fs_rename_def transfer_paths)
  obtain d2 where r: "replace_bitmap no_faults ?print [''t''] ''x'' (add_chunk ''t1'' ''x'' 3 ?v) d1 = (Ok (), d2)"
    by (simp add: replace_bitmap_def fs_write_def fs_rename_def transfer_paths)
  have v: "?v = read_bitmap no_faults ?parse (bitmap_path [''t''] ''x'') Map.empty"
    by (simp add: read_bitmap_def fs_exists_def)
  from lost_update [OF _ _ v s _ r] have
    "\<exists>is. load_chunk_bitmap no_faults ?parse [''t''] ''x'' d2 = Ok (Some is) \<and> set is = insert 3 (set (received_chunks ?v))" by simp
  with s r show ?thesis by (auto simp: received_chunks_def json_index_def)
qed

end
