(* ===== verification/Reputation.thy ===== *)
theory Reputation
  imports DhtModels Actions Interfaces
begin

text \<open>
  Reputation of peers: \<^verbatim>\<open>src-tauri/src/reputation.rs\<close>. Signed payment promises and verdicts on
  transactions, reputation events collected in a Merkle tree and anchored epoch by epoch in a smart
  contract, the verification of events and inclusion proofs, and the score with time decay.

  Parameters: the cryptographic primitives (record \<open>crypto\<close>), the JSON of a value, the root
  \<open>rs_merkle\<close> computes from leaves, the operations of the DHT service (record \<open>dht_ops\<close>) and of the
  contract on the chain (record \<open>chain_ops\<close>), \<open>exp\<close> and \<open>tanh\<close>. A \<open>serde_json::Value\<close> is represented by its text.
  A clock reading is an argument, as is a value drawn at random; log output is left out.

  Shown: in a full tree an inclusion proof that verifies proves inclusion, up to a collision of the hash; the proof for
  every leaf of a full tree verifies; signing and verifying round trip for events, verdicts and
  messages; the score
  stays between its bounds, depends on the newest events of the peer only. Defects are theorems:
  no epoch can be finalized, proofs in trees that are not full are rejected or accepted at another position, the signature does not cover the
  epoch, a stored event is never found again, and a clock that steps back ends the epoch at once.
\<close>

section \<open>Configuration\<close>

definition PAYMENT_DEADLINE_DEFAULT :: u64 where "PAYMENT_DEADLINE_DEFAULT = 3600"
definition PAYMENT_GRACE_PERIOD :: u64 where "PAYMENT_GRACE_PERIOD = 1800"
definition SIGNED_MESSAGE_NONCE_TTL :: u64 where "SIGNED_MESSAGE_NONCE_TTL = 86400"
definition MIN_BALANCE_MULTIPLIER :: f64 where "MIN_BALANCE_MULTIPLIER = f64_of_rat (12 / 10)"
definition SIGNATURE_ALGORITHM :: string where "SIGNATURE_ALGORITHM = ''ed25519''"

section \<open>Data\<close>

datatype event_type =
    FileTransferSuccess | FileTransferFailure | PaymentSuccess | PaymentFailure | ConnectionEstablished | ConnectionLost
  | DhtQueryAnswered | StorageOffered | MaliciousBehaviorReport | TorrentChunkSeeded | FileShared
  | RelayReservationAccepted | RelayCircuitEstablished | RelayCircuitSuccessful | RelayBandwidthProvided | RelayUptime
  | RelayRefused | RelayTimeout | RelayMaliciousBehavior

record reputation_event =
  re_id :: string
  re_peer_id :: string
  re_rater_peer_id :: string
  re_event_type :: event_type
  re_timestamp :: u64
  re_data :: string
  re_impact :: f64
  re_signature :: string
  re_epoch :: "u64 option"

datatype verdict_outcome = VoGood | VoDisputed | VoBad

record signed_transaction_message =
  tm_from :: string
  tm_to :: string
  tm_amount :: u64
  tm_file_hash :: string
  tm_nonce :: string
  tm_deadline :: u64
  tm_downloader_signature :: string

record transaction_verdict =
  tv_target_id :: string
  tv_tx_hash :: "string option"
  tv_outcome :: verdict_outcome
  tv_details :: "string option"
  tv_metric :: "string option"
  tv_issued_at :: u64
  tv_issuer_id :: string
  tv_issuer_seq_no :: u64
  tv_issuer_sig :: string
  tv_tx_receipt :: "string option"
  tv_evidence_blobs :: "string list option"

record reputation_epoch =
  ep_epoch_id :: u64
  ep_merkle_root :: string
  ep_timestamp :: u64
  ep_block_number :: "u64 option"
  ep_event_count :: usize
  ep_submitter :: string

record merkle_proof =
  mp_leaf_index :: usize
  mp_proof_hashes :: "string list"
  mp_total_leaves :: usize

fun default_impact :: "event_type \<Rightarrow> f64" where
  "default_impact FileTransferSuccess = F_Fin 10"
| "default_impact FileTransferFailure = F_Fin (- 5)"
| "default_impact PaymentSuccess = F_Fin 15"
| "default_impact PaymentFailure = F_Fin (- 10)"
| "default_impact ConnectionEstablished = F_Fin 5"
| "default_impact ConnectionLost = F_Fin (- 2)"
| "default_impact DhtQueryAnswered = F_Fin 3"
| "default_impact StorageOffered = F_Fin 8"
| "default_impact MaliciousBehaviorReport = F_Fin (- 50)"
| "default_impact TorrentChunkSeeded = F_Fin 2"
| "default_impact FileShared = F_Fin 5"
| "default_impact RelayReservationAccepted = F_Fin 5"
| "default_impact RelayCircuitEstablished = F_Fin 10"
| "default_impact RelayCircuitSuccessful = F_Fin 15"
| "default_impact RelayBandwidthProvided = F_Fin 1"
| "default_impact RelayUptime = F_Fin 5"
| "default_impact RelayRefused = F_Fin (- 2)"
| "default_impact RelayTimeout = F_Fin (- 10)"
| "default_impact RelayMaliciousBehavior = F_Fin (- 100)"

definition is_relay_event :: "event_type \<Rightarrow> bool" where
  "is_relay_event t = (t \<in> {RelayReservationAccepted, RelayCircuitEstablished, RelayCircuitSuccessful,
     RelayBandwidthProvided, RelayUptime, RelayRefused, RelayTimeout, RelayMaliciousBehavior})"

definition new_reputation_event :: "u64 \<Rightarrow> string \<Rightarrow> string \<Rightarrow> string \<Rightarrow> event_type \<Rightarrow> string \<Rightarrow> f64 \<Rightarrow> reputation_event" where
  "new_reputation_event now eid peer rater typ dat impact =
     \<lparr>re_id = eid, re_peer_id = peer, re_rater_peer_id = rater, re_event_type = typ, re_timestamp = now, re_data = dat,
      re_impact = impact, re_signature = [], re_epoch = None\<rparr>"

section \<open>Libraries\<close>

text \<open>
  What is turned into JSON: the three \<open>json!\<close> objects that are signed or hashed, with the fields
  they list, and whole structures.
\<close>

datatype payload =
    SignableMessage string string u64 string string u64
  | SignableVerdict string "string option" verdict_outcome "string option" "string option" u64 string u64 "string option" "string list option"
  | SignableEvent string string string event_type u64 string f64
  | WholeEvent reputation_event
  | WholeVerdict transaction_verdict
  | WholeEpoch reputation_epoch

record rep_lib =
  rl_crypto :: crypto
  rl_json :: "payload \<Rightarrow> (string, bytes) result"
  rl_merkle_root :: "bytes list \<Rightarrow> bytes option"
  rl_parse_events :: "bytes \<Rightarrow> reputation_event list option"
  rl_parse_event :: "bytes \<Rightarrow> reputation_event option"
  rl_parse_verdict :: "bytes \<Rightarrow> transaction_verdict option"

text \<open>The calls of the DHT service this component makes; \<open>'d\<close> is the state of the network they act on.\<close>

record 'd dht_ops =
  dh_publish_file :: "file_metadata \<Rightarrow> ('d, string, unit) act"
  dh_search_metadata :: "string \<Rightarrow> u64 \<Rightarrow> ('d, string, file_metadata option) act"
  dh_get_value :: "string \<Rightarrow> ('d, string, bytes option) act"

text \<open>
  The \<open>ethers\<close> crate and the contract: a wallet from a private key, a provider from a URL, an address
  from a string; \<open>'c\<close> is the state of the chain.
\<close>

record ('w, 'c) chain_ops =
  co_wallet :: "string \<Rightarrow> (string, 'w) result"
  co_provider :: "string \<Rightarrow> (string, unit) result"
  co_address :: "string \<Rightarrow> (string, bytes) result"
  co_submit :: "bytes \<Rightarrow> 'w \<Rightarrow> u64 \<Rightarrow> u64 \<Rightarrow> bytes \<Rightarrow> u64 \<Rightarrow> nat \<Rightarrow> ('c, string, string) act"
  co_confirm :: "string \<Rightarrow> ('c, string, unit) act"
  co_get_epoch :: "bytes \<Rightarrow> u64 \<Rightarrow> 'c \<Rightarrow> (string, bytes \<times> u64 \<times> nat \<times> string) result"
  co_verify_proof :: "bytes \<Rightarrow> bytes \<Rightarrow> bytes list \<Rightarrow> u64 \<Rightarrow> 'c \<Rightarrow> (string, bool) result"

text \<open>\<open>hex::decode\<close> with its error made part of a message; the text of the error itself is a parameter nobody inspects.\<close>

definition decode_hex :: "string \<Rightarrow> (string, bytes) result" where
  "decode_hex s = ok_or ''invalid hex'' (hex_decode s)"

text \<open>The last step of every verification: the hex signature must have 64 bytes.\<close>

definition check_signature :: "rep_lib \<Rightarrow> bytes \<Rightarrow> bytes \<Rightarrow> bytes \<Rightarrow> (string, bool) result" where
  "check_signature L key serialized sig =
     (if length sig \<noteq> 64 then Err ''invalid signature length'' else Ok (ed25519_verify (rl_crypto L) key serialized sig))"

section \<open>Signed payment promises\<close>

definition message_payload :: "signed_transaction_message \<Rightarrow> payload" where
  "message_payload m = SignableMessage (tm_from m) (tm_to m) (tm_amount m) (tm_file_hash m) (tm_nonce m) (tm_deadline m)"

definition sign_transaction_message :: "rep_lib \<Rightarrow> bytes \<Rightarrow> signed_transaction_message \<Rightarrow> (string, signed_transaction_message) result" where
  "sign_transaction_message L key m = rbind (rl_json L (message_payload m))
     (\<lambda>serialized. Ok (m\<lparr>tm_downloader_signature := hex_encode (ed25519_sign (rl_crypto L) key serialized)\<rparr>))"

definition new_transaction_message ::
  "rep_lib \<Rightarrow> string \<Rightarrow> string \<Rightarrow> string \<Rightarrow> u64 \<Rightarrow> string \<Rightarrow> u64 \<Rightarrow> bytes \<Rightarrow> (string, signed_transaction_message) result" where
  "new_transaction_message L uuid from to amount file_hash deadline key =
     sign_transaction_message L key \<lparr>tm_from = from, tm_to = to, tm_amount = amount, tm_file_hash = file_hash, tm_nonce = uuid,
       tm_deadline = deadline, tm_downloader_signature = []\<rparr>"

definition verify_transaction_signature :: "rep_lib \<Rightarrow> bytes \<Rightarrow> signed_transaction_message \<Rightarrow> (string, bool) result" where
  "verify_transaction_signature L key m = rbind (rl_json L (message_payload m)) (\<lambda>serialized.
     rbind (decode_hex (tm_downloader_signature m)) (check_signature L key serialized))"

definition message_is_expired :: "u64 \<Rightarrow> signed_transaction_message \<Rightarrow> bool" where
  "message_is_expired now m = (tm_deadline m < now)"

definition validate_transaction_message :: "u64 \<Rightarrow> signed_transaction_message \<Rightarrow> (string, unit) result" where
  "validate_transaction_message now m =
     (if tm_from m = [] then Err ''from address missing''
      else if tm_to m = [] then Err ''to address missing''
      else if tm_amount m = 0 then Err ''amount must be greater than 0''
      else if tm_file_hash m = [] then Err ''file_hash missing''
      else if tm_nonce m = [] then Err ''nonce missing''
      else if tm_deadline m = 0 then Err ''deadline missing''
      else if message_is_expired now m then Err ''deadline has already passed''
      else Ok ())"

section \<open>Verdicts\<close>

definition validate_verdict :: "transaction_verdict \<Rightarrow> (string, unit) result" where
  "validate_verdict v =
     (if tv_issuer_id v = [] then Err ''issuer_id missing''
      else if tv_target_id v = [] then Err ''target_id missing''
      else if tv_issuer_id v = tv_target_id v then Err ''issuer_id must not equal target_id''
      else Ok ())"

definition dht_key_for_verdict :: "rep_lib \<Rightarrow> string \<Rightarrow> string \<Rightarrow> string" where
  "dht_key_for_verdict L issuer target = hex_encode (sha256 (rl_crypto L) (issuer @ ''||'' @ target @ ''||tx-rep''))"

definition dht_key_for_target :: "rep_lib \<Rightarrow> string \<Rightarrow> string" where
  "dht_key_for_target L target = hex_encode (sha256 (rl_crypto L) (target @ ''tx-rep''))"

definition verdict_payload :: "transaction_verdict \<Rightarrow> payload" where
  "verdict_payload v = SignableVerdict (tv_target_id v) (tv_tx_hash v) (tv_outcome v) (tv_details v) (tv_metric v) (tv_issued_at v)
     (tv_issuer_id v) (tv_issuer_seq_no v) (tv_tx_receipt v) (tv_evidence_blobs v)"

definition sign_with :: "rep_lib \<Rightarrow> bytes \<Rightarrow> string \<Rightarrow> u64 \<Rightarrow> transaction_verdict \<Rightarrow> (string, transaction_verdict) result" where
  "sign_with L key issuer seq_no v0 =
     (let v = v0\<lparr>tv_issuer_id := issuer, tv_issuer_seq_no := seq_no\<rparr>
      in rbind (rl_json L (verdict_payload v))
           (\<lambda>serialized. Ok (v\<lparr>tv_issuer_sig := hex_encode (ed25519_sign (rl_crypto L) key serialized)\<rparr>)))"

definition verify_verdict_signature :: "rep_lib \<Rightarrow> bytes \<Rightarrow> transaction_verdict \<Rightarrow> (string, bool) result" where
  "verify_verdict_signature L key v = rbind (rl_json L (verdict_payload v)) (\<lambda>serialized.
     rbind (decode_hex (tv_issuer_sig v)) (check_signature L key serialized))"

section \<open>The Merkle tree of events\<close>

definition event_payload :: "reputation_event \<Rightarrow> payload" where
  "event_payload e = SignableEvent (re_id e) (re_peer_id e) (re_rater_peer_id e) (re_event_type e) (re_timestamp e) (re_data e) (re_impact e)"

text \<open>A \<open>MerkleTree\<close> is known by the leaves it was built from.\<close>

record reputation_merkle_tree =
  mt_events :: "reputation_event list"
  mt_leaves :: "bytes list"

definition new_merkle_tree :: reputation_merkle_tree where
  "new_merkle_tree = \<lparr>mt_events = [], mt_leaves = []\<rparr>"

definition serialization_error :: "string \<Rightarrow> string" where
  "serialization_error e = ''Serialization error: '' @ e"

definition hash_event :: "rep_lib \<Rightarrow> reputation_event \<Rightarrow> (string, bytes) result" where
  "hash_event L e = rbind (map_err serialization_error (rl_json L (event_payload e))) (\<lambda>b. Ok (sha256 (rl_crypto L) b))"

fun hash_events :: "rep_lib \<Rightarrow> reputation_event list \<Rightarrow> (string, bytes list) result" where
  "hash_events L [] = Ok []"
| "hash_events L (e # es) = rbind (hash_event L e) (\<lambda>h. rbind (hash_events L es) (\<lambda>hs. Ok (h # hs)))"

definition rebuild_tree :: "rep_lib \<Rightarrow> (reputation_merkle_tree, string, unit) act" where
  "rebuild_tree L t = (case hash_events L (mt_events t) of Inl e \<Rightarrow> (Err e, t) | Inr hs \<Rightarrow> (Ok (), t\<lparr>mt_leaves := hs\<rparr>))"

definition add_event :: "rep_lib \<Rightarrow> reputation_event \<Rightarrow> (reputation_merkle_tree, string, unit) act" where
  "add_event L e t = rebuild_tree L (t\<lparr>mt_events := mt_events t @ [e]\<rparr>)"

definition get_root :: "rep_lib \<Rightarrow> reputation_merkle_tree \<Rightarrow> bytes option" where
  "get_root L t = rl_merkle_root L (mt_leaves t)"

definition get_root_hex :: "rep_lib \<Rightarrow> reputation_merkle_tree \<Rightarrow> string option" where
  "get_root_hex L t = map_option hex_encode (get_root L t)"

section \<open>Keys of the node\<close>

record node_key_manager =
  nk_signing_key :: bytes
  nk_peer_id :: string

definition new_key_manager :: "rep_lib \<Rightarrow> bytes \<Rightarrow> node_key_manager" where
  "new_key_manager L key = \<lparr>nk_signing_key = key, nk_peer_id = hex_encode (ed25519_public (rl_crypto L) key)\<rparr>"

definition get_verifying_key :: "rep_lib \<Rightarrow> node_key_manager \<Rightarrow> bytes" where
  "get_verifying_key L k = ed25519_public (rl_crypto L) (nk_signing_key k)"

definition sign_reputation_event :: "rep_lib \<Rightarrow> node_key_manager \<Rightarrow> reputation_event \<Rightarrow> (string, reputation_event) result" where
  "sign_reputation_event L k e0 =
     (let e = e0\<lparr>re_rater_peer_id := nk_peer_id k\<rparr>
      in rbind (map_err serialization_error (rl_json L (event_payload e)))
           (\<lambda>serialized. Ok (e\<lparr>re_signature := hex_encode (ed25519_sign (rl_crypto L) (nk_signing_key k) serialized)\<rparr>)))"

definition verify_reputation_event :: "rep_lib \<Rightarrow> bytes \<Rightarrow> reputation_event \<Rightarrow> (string, bool) result" where
  "verify_reputation_event L key e =
     rbind (map_err serialization_error (rl_json L (event_payload e))) (\<lambda>serialized.
       rbind (map_err (\<lambda>x. ''Invalid signature format: '' @ x) (decode_hex (re_signature e))) (\<lambda>sig.
         map_err (\<lambda>_. ''Invalid signature length'') (check_signature L key serialized sig)))"

type_synonym public_key_cache = "string \<rightharpoonup> bytes"

definition new_key_cache :: public_key_cache where
  "new_key_cache = Map.empty"

definition add_peer_key :: "string \<Rightarrow> bytes \<Rightarrow> public_key_cache \<Rightarrow> public_key_cache" where
  "add_peer_key peer key c = c(peer \<mapsto> key)"

definition get_peer_key :: "string \<Rightarrow> public_key_cache \<Rightarrow> bytes option" where
  "get_peer_key peer c = c peer"

section \<open>Reputation data in the DHT\<close>

definition no_dht :: string where "no_dht = ''DHT service not initialized''"

text \<open>A call on the DHT service, if one has been set.\<close>

definition with_dht :: "bool \<Rightarrow> ('d, string, 'a) act \<Rightarrow> ('d, string, 'a) act" where
  "with_dht initialized m = (if initialized then m else fail no_dht)"

definition event_key :: "reputation_event \<Rightarrow> string" where
  "event_key e = ''reputation:'' @ re_peer_id e @ '':'' @ re_id e"

definition event_metadata :: "reputation_event \<Rightarrow> bytes \<Rightarrow> file_metadata" where
  "event_metadata e serialized = default_file_metadata\<lparr>md_merkle_root := event_key e,
     md_file_name := ''reputation_'' @ re_id e @ ''.json'', md_file_size := length serialized, md_file_data := serialized,
     md_seeders := [re_rater_peer_id e], md_created_at := re_timestamp e, md_mime_type := Some ''application/json'',
     md_is_root := True\<rparr>"

definition store_reputation_event :: "rep_lib \<Rightarrow> 'd dht_ops \<Rightarrow> bool \<Rightarrow> reputation_event \<Rightarrow> ('d, string, unit) act" where
  "store_reputation_event L D initialized e = with_dht initialized
     (and_then (of_result (map_err serialization_error (rl_json L (WholeEvent e))))
       (\<lambda>serialized. dh_publish_file D (event_metadata e serialized)))"

definition parse_stored_events :: "rep_lib \<Rightarrow> bytes \<Rightarrow> reputation_event list" where
  "parse_stored_events L b =
     (case rl_parse_events L b of
        Some events \<Rightarrow> events
      | None \<Rightarrow> (case rl_parse_event L b of Some e \<Rightarrow> [e] | None \<Rightarrow> []))"

definition retrieve_reputation_events :: "rep_lib \<Rightarrow> 'd dht_ops \<Rightarrow> bool \<Rightarrow> string \<Rightarrow> ('d, string, reputation_event list) act" where
  "retrieve_reputation_events L D initialized peer = with_dht initialized
     (\<lambda>d. case dh_search_metadata D (''reputation:'' @ peer) 5000 d of
            (Inl e, d') \<Rightarrow> (Ok [], d')
          | (Inr None, d') \<Rightarrow> (Ok [], d')
          | (Inr (Some m), d') \<Rightarrow> (Ok (parse_stored_events L (md_file_data m)), d'))"

definition verdict_metadata :: "string \<Rightarrow> string \<Rightarrow> transaction_verdict \<Rightarrow> bytes \<Rightarrow> file_metadata" where
  "verdict_metadata key name v serialized = default_file_metadata\<lparr>md_merkle_root := key, md_file_name := name,
     md_file_size := length serialized, md_file_data := serialized, md_seeders := [tv_issuer_id v],
     md_created_at := tv_issued_at v, md_mime_type := Some ''application/json'', md_is_root := True\<rparr>"

definition store_transaction_verdict :: "rep_lib \<Rightarrow> 'd dht_ops \<Rightarrow> bool \<Rightarrow> transaction_verdict \<Rightarrow> ('d, string, unit) act" where
  "store_transaction_verdict L D initialized v = with_dht initialized
     (and_then (of_result (map_err (\<lambda>e. ''Invalid verdict: '' @ e) (validate_verdict v))) (\<lambda>_.
      and_then (of_result (map_err serialization_error (rl_json L (WholeVerdict v)))) (\<lambda>serialized.
        let tx_hash_str = (case tv_tx_hash v of Some h \<Rightarrow> h | None \<Rightarrow> ''no_tx'');
            name1 = ''tx_verdict_'' @ tv_issuer_id v @ ''_'' @ tx_hash_str @ ''.json'';
            name2 = ''tx_verdict_about_'' @ tv_target_id v @ ''_'' @ tx_hash_str @ ''.json''
        in and_do (dh_publish_file D (verdict_metadata (dht_key_for_verdict L (tv_issuer_id v) (tv_target_id v)) name1 v serialized))
                  (dh_publish_file D (verdict_metadata (dht_key_for_target L (tv_target_id v)) name2 v serialized)))))"

definition retrieve_transaction_verdicts :: "rep_lib \<Rightarrow> 'd dht_ops \<Rightarrow> bool \<Rightarrow> string \<Rightarrow> ('d, string, transaction_verdict list) act" where
  "retrieve_transaction_verdicts L D initialized target = with_dht initialized
     (\<lambda>d. case dh_get_value D (dht_key_for_target L target) d of
            (Inl e, d') \<Rightarrow> (Ok [], d')
          | (Inr None, d') \<Rightarrow> (Ok [], d')
          | (Inr (Some b), d') \<Rightarrow> (Ok (case rl_parse_verdict L b of Some v \<Rightarrow> [v] | None \<Rightarrow> []), d'))"

definition epoch_metadata :: "reputation_epoch \<Rightarrow> bytes \<Rightarrow> file_metadata" where
  "epoch_metadata ep serialized = default_file_metadata\<lparr>md_merkle_root := ep_merkle_root ep,
     md_file_name := ''merkle_root_'' @ show_nat (ep_epoch_id ep) @ ''.json'', md_file_size := length serialized,
     md_file_data := serialized, md_seeders := [ep_submitter ep], md_created_at := ep_timestamp ep,
     md_mime_type := Some ''application/json'', md_is_root := True\<rparr>"

definition store_merkle_root :: "rep_lib \<Rightarrow> 'd dht_ops \<Rightarrow> bool \<Rightarrow> reputation_epoch \<Rightarrow> ('d, string, unit) act" where
  "store_merkle_root L D initialized ep = with_dht initialized
     (and_then (of_result (map_err serialization_error (rl_json L (WholeEpoch ep))))
       (\<lambda>serialized. dh_publish_file D (epoch_metadata ep serialized)))"

section \<open>The contract\<close>

record reputation_contract =
  rc_contract_address :: "string option"
  rc_rpc_url :: string
  rc_chain_id :: u64

definition with_rpc_url :: "u64 \<Rightarrow> string \<Rightarrow> reputation_contract" where
  "with_rpc_url chain url = \<lparr>rc_contract_address = None, rc_rpc_url = url, rc_chain_id = chain\<rparr>"

definition new_reputation_contract :: "u64 \<Rightarrow> reputation_contract" where
  "new_reputation_contract chain = \<lparr>rc_contract_address = None, rc_rpc_url = ''http://127.0.0.1:8545'', rc_chain_id = chain\<rparr>"

definition set_contract_address :: "string \<Rightarrow> reputation_contract \<Rightarrow> reputation_contract" where
  "set_contract_address a c = c\<lparr>rc_contract_address := Some a\<rparr>"

definition set_rpc_url :: "string \<Rightarrow> reputation_contract \<Rightarrow> reputation_contract" where
  "set_rpc_url url c = c\<lparr>rc_rpc_url := url\<rparr>"

definition get_provider :: "('w, 'c) chain_ops \<Rightarrow> reputation_contract \<Rightarrow> (string, unit) result" where
  "get_provider ops c = map_err (\<lambda>e. ''Failed to connect to Ethereum RPC: '' @ e) (co_provider ops (rc_rpc_url c))"

definition get_contract :: "('w, 'c) chain_ops \<Rightarrow> reputation_contract \<Rightarrow> (string, bytes) result" where
  "get_contract ops c = rbind (ok_or ''Contract address not set'' (rc_contract_address c))
     (\<lambda>a. map_err (\<lambda>e. ''Invalid contract address: '' @ e) (co_address ops a))"

definition strip_0x :: "string \<Rightarrow> string" where
  "strip_0x s = (case strip_prefix ''0x'' s of Some r \<Rightarrow> r | None \<Rightarrow> s)"

text \<open>A hexadecimal string of exactly 32 bytes; \<open>what\<close> and \<open>len\<close> name it in the two errors.\<close>

definition decode_bytes32 :: "string \<Rightarrow> string \<Rightarrow> string \<Rightarrow> (string, bytes) result" where
  "decode_bytes32 what len s = rbind (map_err (\<lambda>e. what @ e) (decode_hex s))
     (\<lambda>b. if length b \<noteq> 32 then Err len else Ok b)"

definition submit_epoch ::
  "('w, 'c) chain_ops \<Rightarrow> reputation_contract \<Rightarrow> reputation_epoch \<Rightarrow> string \<Rightarrow> ('c, string, string) act" where
  "submit_epoch ops c ep private_key =
     and_then (of_result (map_err (\<lambda>e. ''Invalid private key: '' @ e) (co_wallet ops (strip_0x private_key)))) (\<lambda>wallet.
     and_then (of_result (get_provider ops c)) (\<lambda>_.
     and_then (of_result (get_contract ops c)) (\<lambda>address.
     and_then (of_result (decode_bytes32 ''Invalid merkle root hex: '' ''Merkle root must be 32 bytes'' (strip_0x (ep_merkle_root ep)))) (\<lambda>mroot.
     and_then (\<lambda>ch. case co_submit ops address wallet (rc_chain_id c) (ep_epoch_id ep) mroot (ep_timestamp ep) (ep_event_count ep) ch of
                      (r, ch') \<Rightarrow> (map_err (\<lambda>e. ''Failed to send transaction: '' @ e) r, ch')) (\<lambda>tx_hash.
     and_then (\<lambda>ch. case co_confirm ops tx_hash ch of (r, ch') \<Rightarrow> (map_err (\<lambda>e. ''Transaction failed: '' @ e) r, ch')) (\<lambda>_.
       ret tx_hash))))))"

text \<open>\<open>as_usize\<close> panics when the count does not fit.\<close>

definition get_epoch :: "('w, 'c) chain_ops \<Rightarrow> reputation_contract \<Rightarrow> u64 \<Rightarrow> 'c \<Rightarrow> (string, reputation_epoch option) result" where
  "get_epoch ops c epoch_id ch =
     rbind (get_provider ops c) (\<lambda>_. rbind (get_contract ops c) (\<lambda>address.
       case co_get_epoch ops address epoch_id ch of
         Inr (mroot, ts, cnt, submitter) \<Rightarrow>
           if mroot = replicate 32 (CHR 0x00) then Ok None
           else if u64_max < cnt then Err ''panic: Integer overflow when casting to usize''
           else Ok (Some \<lparr>ep_epoch_id = epoch_id, ep_merkle_root = ''0x'' @ hex_encode mroot, ep_timestamp = ts, ep_block_number = None,
                      ep_event_count = cnt, ep_submitter = submitter\<rparr>)
       | Inl e \<Rightarrow> if str_contains ''revert'' e \<or> str_contains ''not found'' e then Ok None
                 else Err (''Failed to get epoch: '' @ e)))"

fun decode_proof :: "string list \<Rightarrow> (string, bytes list) result" where
  "decode_proof [] = Ok []"
| "decode_proof (h # hs) = rbind (decode_bytes32 ''Invalid proof hash hex: '' ''Proof hash must be 32 bytes'' (strip_0x h))
     (\<lambda>b. rbind (decode_proof hs) (\<lambda>bs. Ok (b # bs)))"

definition verify_event_proof :: "('w, 'c) chain_ops \<Rightarrow> reputation_contract \<Rightarrow> string \<Rightarrow> string list \<Rightarrow> u64 \<Rightarrow> 'c \<Rightarrow> (string, bool) result" where
  "verify_event_proof ops c ev_hash proof epoch_id ch =
     rbind (get_provider ops c) (\<lambda>_. rbind (get_contract ops c) (\<lambda>address.
       rbind (decode_bytes32 ''Invalid event hash hex: '' ''Event hash must be 32 bytes'' (strip_0x ev_hash)) (\<lambda>h.
       rbind (decode_proof proof) (\<lambda>ps.
         map_err (\<lambda>e. ''Failed to verify event proof: '' @ e) (co_verify_proof ops address h ps epoch_id ch)))))"

section \<open>The reputation system\<close>

text \<open>The parts both systems share, with the network and the chain their calls act on.\<close>

record ('d, 'c) rep_core =
  rs_merkle_tree :: reputation_merkle_tree
  rs_dht_initialized :: bool
  rs_contract :: reputation_contract
  rs_key_manager :: node_key_manager
  rs_network :: 'd
  rs_chain :: 'c

record ('d, 'c) reputation_system = "('d, 'c) rep_core" +
  rs_key_cache :: public_key_cache
  rs_current_epoch :: u64

definition on_network :: "('d, string, 'a) act \<Rightarrow> (('d, 'c, 'z) rep_core_scheme, string, 'a) act" where
  "on_network m s = (case m (rs_network s) of (r, d) \<Rightarrow> (r, s\<lparr>rs_network := d\<rparr>))"

definition on_chain :: "('c, string, 'a) act \<Rightarrow> (('d, 'c, 'z) rep_core_scheme, string, 'a) act" where
  "on_chain m s = (case m (rs_chain s) of (r, ch) \<Rightarrow> (r, s\<lparr>rs_chain := ch\<rparr>))"

definition on_tree :: "(reputation_merkle_tree, string, 'a) act \<Rightarrow> (('d, 'c, 'z) rep_core_scheme, string, 'a) act" where
  "on_tree m s = (case m (rs_merkle_tree s) of (r, t) \<Rightarrow> (r, s\<lparr>rs_merkle_tree := t\<rparr>))"

definition set_dht_service :: "('d, 'c, 'z) rep_core_scheme \<Rightarrow> ('d, 'c, 'z) rep_core_scheme" where
  "set_dht_service s = s\<lparr>rs_dht_initialized := True\<rparr>"

definition system_set_contract_address :: "string \<Rightarrow> ('d, 'c, 'z) rep_core_scheme \<Rightarrow> ('d, 'c, 'z) rep_core_scheme" where
  "system_set_contract_address a s = s\<lparr>rs_contract := set_contract_address a (rs_contract s)\<rparr>"

definition new_reputation_system :: "rep_lib \<Rightarrow> bytes \<Rightarrow> u64 \<Rightarrow> 'd \<Rightarrow> 'c \<Rightarrow> ('d, 'c) reputation_system" where
  "new_reputation_system L key network_id d ch = \<lparr>rs_merkle_tree = new_merkle_tree, rs_dht_initialized = False,
     rs_contract = new_reputation_contract network_id, rs_key_manager = new_key_manager L key, rs_network = d, rs_chain = ch,
     rs_key_cache = new_key_cache, rs_current_epoch = 0\<rparr>"

definition add_reputation_event :: "rep_lib \<Rightarrow> 'd dht_ops \<Rightarrow> reputation_event \<Rightarrow> (('d, 'c) reputation_system, string, unit) act" where
  "add_reputation_event L D e0 s =
     and_then (of_result (sign_reputation_event L (rs_key_manager s) e0)) (\<lambda>e.
     and_then (on_tree (add_event L e)) (\<lambda>_.
     on_network (store_reputation_event L D (rs_dht_initialized s) e))) s"

definition mock_private_key :: string where "mock_private_key = ''mock_private_key''"

definition epoch_of :: "u64 \<Rightarrow> string \<Rightarrow> u64 \<Rightarrow> usize \<Rightarrow> node_key_manager \<Rightarrow> reputation_epoch" where
  "epoch_of epoch_id mroot now cnt k = \<lparr>ep_epoch_id = epoch_id, ep_merkle_root = mroot, ep_timestamp = now, ep_block_number = None,
     ep_event_count = cnt, ep_submitter = nk_peer_id k\<rparr>"

definition finalize_epoch ::
  "rep_lib \<Rightarrow> 'd dht_ops \<Rightarrow> ('w, 'c) chain_ops \<Rightarrow> u64 \<Rightarrow> (('d, 'c) reputation_system, string, string) act" where
  "finalize_epoch L D ops now s =
     and_then (of_result (ok_or ''No events in current epoch'' (get_root_hex L (rs_merkle_tree s)))) (\<lambda>mroot.
     let ep = epoch_of (rs_current_epoch s) mroot now (length (mt_events (rs_merkle_tree s))) (rs_key_manager s)
     in and_then (on_network (store_merkle_root L D (rs_dht_initialized s) ep)) (\<lambda>_.
        and_then (on_chain (submit_epoch ops (rs_contract s) ep mock_private_key)) (\<lambda>tx_hash s1.
          (Ok tx_hash, s1\<lparr>rs_merkle_tree := new_merkle_tree, rs_current_epoch := wadd64 (rs_current_epoch s1) 1\<rparr>)))) s"

section \<open>Epochs\<close>

record epoch_manager =
  em_current_epoch :: u64
  em_epoch_duration_seconds :: u64
  em_max_events_per_epoch :: usize
  em_last_epoch_time :: u64
  em_auto_anchor_enabled :: bool

definition new_epoch_manager :: "u64 \<Rightarrow> u64 \<Rightarrow> usize \<Rightarrow> epoch_manager" where
  "new_epoch_manager now duration max_events = \<lparr>em_current_epoch = 0, em_epoch_duration_seconds = duration,
     em_max_events_per_epoch = max_events, em_last_epoch_time = now, em_auto_anchor_enabled = True\<rparr>"

definition should_finalize_epoch :: "u64 \<Rightarrow> usize \<Rightarrow> epoch_manager \<Rightarrow> bool" where
  "should_finalize_epoch now event_count m =
     (if \<not> em_auto_anchor_enabled m then False
      else if em_epoch_duration_seconds m \<le> wsub64 now (em_last_epoch_time m) then True
      else em_max_events_per_epoch m \<le> event_count)"

definition advance_epoch :: "u64 \<Rightarrow> epoch_manager \<Rightarrow> epoch_manager" where
  "advance_epoch now m = m\<lparr>em_current_epoch := wadd64 (em_current_epoch m) 1, em_last_epoch_time := now\<rparr>"

definition set_auto_anchor :: "bool \<Rightarrow> epoch_manager \<Rightarrow> epoch_manager" where
  "set_auto_anchor enabled m = m\<lparr>em_auto_anchor_enabled := enabled\<rparr>"

definition get_epoch_info :: "epoch_manager \<Rightarrow> u64 \<times> u64 \<times> usize \<times> bool" where
  "get_epoch_info m = (em_current_epoch m, em_epoch_duration_seconds m, em_max_events_per_epoch m, em_auto_anchor_enabled m)"

definition get_time_until_next_epoch :: "u64 \<Rightarrow> epoch_manager \<Rightarrow> u64" where
  "get_time_until_next_epoch now m =
     (let elapsed = wsub64 now (em_last_epoch_time m)
      in if em_epoch_duration_seconds m \<le> elapsed then 0 else em_epoch_duration_seconds m - elapsed)"

record ('d, 'c) epoch_system = "('d, 'c) rep_core" +
  rs_epoch_manager :: epoch_manager
  rs_pending_events :: "reputation_event list"

definition new_epoch_system :: "rep_lib \<Rightarrow> bytes \<Rightarrow> u64 \<Rightarrow> u64 \<Rightarrow> u64 \<Rightarrow> usize \<Rightarrow> 'd \<Rightarrow> 'c \<Rightarrow> ('d, 'c) epoch_system" where
  "new_epoch_system L key now network_id duration max_events d ch = \<lparr>rs_merkle_tree = new_merkle_tree, rs_dht_initialized = False,
     rs_contract = new_reputation_contract network_id, rs_key_manager = new_key_manager L key, rs_network = d, rs_chain = ch,
     rs_epoch_manager = new_epoch_manager now duration max_events, rs_pending_events = []\<rparr>"

text \<open>The clock is read for the time stamp of the epoch and again when the next one begins.\<close>

definition finalize_current_epoch ::
  "rep_lib \<Rightarrow> 'd dht_ops \<Rightarrow> ('w, 'c) chain_ops \<Rightarrow> u64 \<Rightarrow> u64 \<Rightarrow> (('d, 'c) epoch_system, string, string) act" where
  "finalize_current_epoch L D ops now later s =
     (if rs_pending_events s = [] then (Err ''No events to finalize'', s)
      else and_then (of_result (ok_or ''Failed to get Merkle root'' (get_root_hex L (rs_merkle_tree s)))) (\<lambda>mroot.
        let ep = epoch_of (em_current_epoch (rs_epoch_manager s)) mroot now (length (rs_pending_events s)) (rs_key_manager s)
        in and_then (on_network (store_merkle_root L D (rs_dht_initialized s) ep)) (\<lambda>_.
           and_then (on_chain (submit_epoch ops (rs_contract s) ep mock_private_key)) (\<lambda>tx_hash s1.
             (Ok tx_hash, s1\<lparr>rs_merkle_tree := new_merkle_tree, rs_pending_events := [],
                             rs_epoch_manager := advance_epoch later (rs_epoch_manager s1)\<rparr>)))) s)"

definition epoch_add_event ::
  "rep_lib \<Rightarrow> 'd dht_ops \<Rightarrow> ('w, 'c) chain_ops \<Rightarrow> u64 \<Rightarrow> u64 \<Rightarrow> u64 \<Rightarrow> reputation_event \<Rightarrow> (('d, 'c) epoch_system, string, string option) act" where
  "epoch_add_event L D ops t1 t2 t3 e0 s =
     and_then (of_result (sign_reputation_event L (rs_key_manager s) (e0\<lparr>re_epoch := Some (em_current_epoch (rs_epoch_manager s))\<rparr>))) (\<lambda>e.
     and_then (\<lambda>s. (Ok (), s\<lparr>rs_pending_events := rs_pending_events s @ [e]\<rparr>)) (\<lambda>_.
     and_then (on_tree (add_event L e)) (\<lambda>_.
     and_then (on_network (store_reputation_event L D (rs_dht_initialized s) e)) (\<lambda>_ s1.
       if should_finalize_epoch t1 (length (rs_pending_events s1)) (rs_epoch_manager s1)
       then and_then (finalize_current_epoch L D ops t2 t3) (\<lambda>tx_hash. ret (Some tx_hash)) s1
       else (Ok None, s1))))) s"

definition get_epoch_status :: "u64 \<Rightarrow> ('d, 'c) epoch_system \<Rightarrow> u64 \<times> usize \<times> u64 \<times> bool" where
  "get_epoch_status now s = (em_current_epoch (rs_epoch_manager s), length (rs_pending_events s),
     get_time_until_next_epoch now (rs_epoch_manager s), em_auto_anchor_enabled (rs_epoch_manager s))"

definition system_set_auto_anchor :: "bool \<Rightarrow> ('d, 'c) epoch_system \<Rightarrow> ('d, 'c) epoch_system" where
  "system_set_auto_anchor enabled s = s\<lparr>rs_epoch_manager := set_auto_anchor enabled (rs_epoch_manager s)\<rparr>"

section \<open>Verification\<close>

definition verify_event_signature :: "rep_lib \<Rightarrow> public_key_cache \<Rightarrow> reputation_event \<Rightarrow> (string, bool) result" where
  "verify_event_signature L cache e =
     (case get_peer_key (re_rater_peer_id e) cache of
        Some key \<Rightarrow> verify_reputation_event L key e
      | None \<Rightarrow> Err (''Public key not found for peer: '' @ re_rater_peer_id e))"

definition combine :: "rep_lib \<Rightarrow> nat \<Rightarrow> bytes \<Rightarrow> bytes \<Rightarrow> bytes" where
  "combine L index current sibling = sha256 (rl_crypto L) (if index mod 2 = 0 then current @ sibling else sibling @ current)"

fun walk_proof :: "rep_lib \<Rightarrow> bytes \<Rightarrow> nat \<Rightarrow> string list \<Rightarrow> (string, bytes) result" where
  "walk_proof L current index [] = Ok current"
| "walk_proof L current index (p # ps) = rbind (decode_bytes32 ''Invalid proof hash hex: '' ''Proof hash must be 32 bytes'' p)
     (\<lambda>sibling. walk_proof L (combine L index current sibling) (index div 2) ps)"

definition verify_event_against_merkle_root :: "rep_lib \<Rightarrow> reputation_event \<Rightarrow> string \<Rightarrow> merkle_proof \<Rightarrow> (string, bool) result" where
  "verify_event_against_merkle_root L e merkle_root proof =
     rbind (hash_event L e) (\<lambda>leaf.
     rbind (decode_bytes32 ''Invalid merkle root hex: '' ''Merkle root must be 32 bytes'' merkle_root) (\<lambda>expected.
     rbind (walk_proof L leaf (mp_leaf_index proof) (mp_proof_hashes proof)) (\<lambda>h. Ok (h = expected))))"

definition verify_epoch_integrity :: "reputation_epoch \<Rightarrow> reputation_event list \<Rightarrow> (string, bool) result" where
  "verify_epoch_integrity ep events =
     (if list_ex (\<lambda>e. re_epoch e \<noteq> Some (ep_epoch_id ep)) events then Ok False
      else Ok (length events = ep_event_count ep))"

section \<open>Scores with time decay\<close>

record rep_score_cfg =
  sc_half_life_secs :: u64
  sc_grace_period_secs :: u64
  sc_base_score :: f64
  sc_min_score :: f64
  sc_max_score :: f64
  sc_pos_weight :: f64
  sc_neg_weight :: f64
  sc_max_events :: usize
  sc_min_events_confident :: usize

definition default_rep_score_cfg :: rep_score_cfg where
  "default_rep_score_cfg = \<lparr>sc_half_life_secs = 7 * 24 * 3600, sc_grace_period_secs = 3600, sc_base_score = F_Fin (1 / 2),
     sc_min_score = F_Fin 0, sc_max_score = F_Fin 1, sc_pos_weight = F_Fin 1, sc_neg_weight = F_Fin (3 / 2),
     sc_max_events = 1000, sc_min_events_confident = 5\<rparr>"

record rep_score_result =
  sr_score :: f64
  sr_event_cnt :: usize
  sr_pos_sum :: f64
  sr_neg_sum :: f64
  sr_confident :: bool
  sr_oldest_ts :: "u64 option"
  sr_newest_ts :: "u64 option"
  sr_avg_decay :: f64

definition LN_2 :: f64 where
  "LN_2 = f64_of_rat (693147180559945309417232121458 / 10 ^ 30)"

text \<open>The two transcendental functions; their precision is unspecified.\<close>

record f64_math =
  fm_exp :: "f64 \<Rightarrow> f64"
  fm_tanh :: "f64 \<Rightarrow> f64"

definition clamp01 :: "f64 \<Rightarrow> f64" where
  "clamp01 x = (if f64_lt x (F_Fin 0) then F_Fin 0 else if f64_lt (F_Fin 1) x then F_Fin 1 else x)"

definition calc_decay :: "f64_math \<Rightarrow> rep_score_cfg \<Rightarrow> u64 \<Rightarrow> u64 \<Rightarrow> f64" where
  "calc_decay M cfg event_ts cur_ts =
     (if cur_ts \<le> event_ts then F_Fin 1
      else let age = cur_ts - event_ts
           in if age \<le> sc_grace_period_secs cfg then F_Fin 1
              else let effective_age = age - sc_grace_period_secs cfg;
                       x = f64_div (f64_neg (f64_of_u64 effective_age)) (f64_of_u64 (sc_half_life_secs cfg))
                   in clamp01 (fm_exp M (f64_mul x LN_2)))"

definition calc_weighted_impact :: "f64_math \<Rightarrow> rep_score_cfg \<Rightarrow> reputation_event \<Rightarrow> u64 \<Rightarrow> f64" where
  "calc_weighted_impact M cfg e cur_ts =
     (let weight = (if f64_le (F_Fin 0) (re_impact e) then sc_pos_weight cfg else sc_neg_weight cfg)
      in f64_mul (f64_mul (re_impact e) weight) (calc_decay M cfg (re_timestamp e) cur_ts))"

text \<open>The events a score counts: those about the peer, newest first, at most \<open>max_events\<close>.\<close>

definition counted_events :: "rep_score_cfg \<Rightarrow> string \<Rightarrow> reputation_event list \<Rightarrow> reputation_event list" where
  "counted_events cfg peer events =
     take (sc_max_events cfg) (sort_by (\<lambda>a b. re_timestamp b \<le> re_timestamp a) (filter (\<lambda>e. re_peer_id e = peer) events))"

definition score_step :: "f64_math \<Rightarrow> rep_score_cfg \<Rightarrow> u64 \<Rightarrow> f64 \<times> f64 \<times> f64 \<Rightarrow> reputation_event \<Rightarrow> f64 \<times> f64 \<times> f64" where
  "score_step M cfg cur_ts = (\<lambda>(pos, neg, dec) e.
     let impact = calc_weighted_impact M cfg e cur_ts;
         dec' = f64_add dec (calc_decay M cfg (re_timestamp e) cur_ts)
     in if f64_le (F_Fin 0) impact then (f64_add pos impact, neg, dec') else (pos, f64_add neg (f64_abs impact), dec'))"

definition calc_score_at :: "f64_math \<Rightarrow> rep_score_cfg \<Rightarrow> string \<Rightarrow> reputation_event list \<Rightarrow> u64 \<Rightarrow> rep_score_result option" where
  "calc_score_at M cfg peer events cur_ts =
     (let es = counted_events cfg peer events
      in if es = [] then Some \<lparr>sr_score = sc_base_score cfg, sr_event_cnt = 0, sr_pos_sum = F_Fin 0, sr_neg_sum = F_Fin 0,
             sr_confident = False, sr_oldest_ts = None, sr_newest_ts = None, sr_avg_decay = F_Fin 1\<rparr>
         else let (pos, neg, dec) = foldl (score_step M cfg cur_ts) (F_Fin 0, F_Fin 0, F_Fin 0) es;
                  total = f64_sub pos neg;
                  adj = f64_mul (fm_tanh M (f64_div total (F_Fin 100))) (F_Fin (1 / 2));
                  cnt = length es
              in map_option (\<lambda>score. \<lparr>sr_score = score, sr_event_cnt = cnt, sr_pos_sum = pos, sr_neg_sum = neg,
                     sr_confident = (sc_min_events_confident cfg \<le> cnt), sr_oldest_ts = Some (re_timestamp (List.last es)),
                     sr_newest_ts = Some (re_timestamp (hd es)),
                     sr_avg_decay = (if 0 < cnt then f64_div dec (f64_of_u64 cnt) else F_Fin 1)\<rparr>)
                   (f64_clamp (f64_add (sc_base_score cfg) adj) (sc_min_score cfg) (sc_max_score cfg)))"

fun collect_scores :: "(string \<Rightarrow> 'r option) \<Rightarrow> string list \<Rightarrow> (string \<rightharpoonup> 'r) \<Rightarrow> (string \<rightharpoonup> 'r) option" where
  "collect_scores f [] m = Some m"
| "collect_scores f (p # ps) m = (case f p of None \<Rightarrow> None | Some r \<Rightarrow> collect_scores f ps (m(p \<mapsto> r)))"

definition calc_batch :: "f64_math \<Rightarrow> rep_score_cfg \<Rightarrow> u64 \<Rightarrow> string list \<Rightarrow> reputation_event list \<Rightarrow> (string \<rightharpoonup> rep_score_result) option" where
  "calc_batch M cfg cur_ts peers events = collect_scores (\<lambda>p. calc_score_at M cfg p events cur_ts) peers Map.empty"

text \<open>Strings are ordered by their bytes.\<close>

fun bytes_le :: "string \<Rightarrow> string \<Rightarrow> bool" where
  "bytes_le [] _ = True"
| "bytes_le (_ # _) [] = False"
| "bytes_le (a # as) (b # bs) = ((of_char a :: nat) < of_char b \<or> a = b \<and> bytes_le as bs)"

definition extract_peer_ids :: "reputation_event list \<Rightarrow> string list" where
  "extract_peer_ids events = remdups_adj (sort_by bytes_le (map re_peer_id events))"

definition calc_all :: "f64_math \<Rightarrow> rep_score_cfg \<Rightarrow> u64 \<Rightarrow> reputation_event list \<Rightarrow> (string \<rightharpoonup> rep_score_result) option" where
  "calc_all M cfg cur_ts events = calc_batch M cfg cur_ts (extract_peer_ids events) events"

section \<open>The built-in test suite\<close>

record test_result =
  tr_name :: string
  tr_passed :: bool
  tr_message :: string

record test_results =
  ts_tests :: "test_result list"
  ts_passed :: usize
  ts_failed :: usize

definition new_test_results :: test_results where
  "new_test_results = \<lparr>ts_tests = [], ts_passed = 0, ts_failed = 0\<rparr>"

definition add_test :: "string \<Rightarrow> bool \<Rightarrow> string \<Rightarrow> test_results \<Rightarrow> test_results" where
  "add_test name passed message r =
     (let r1 = r\<lparr>ts_tests := ts_tests r @ [\<lparr>tr_name = name, tr_passed = passed, tr_message = message\<rparr>]\<rparr>
      in if passed then r1\<lparr>ts_passed := wadd64 (ts_passed r1) 1\<rparr> else r1\<lparr>ts_failed := wadd64 (ts_failed r1) 1\<rparr>)"

definition is_success :: "test_results \<Rightarrow> bool" where
  "is_success r = (ts_failed r = 0)"

definition json_text :: "string \<Rightarrow> string" where
  "json_text s = [CHR ''{'', CHR 0x22] @ ''test'' @ [CHR 0x22, CHR '':'', CHR 0x22] @ s @ [CHR 0x22, CHR ''}'']"

text \<open>\<open>t\<close> gives the readings of the clock, in the order they are taken.\<close>

definition run_integration_test ::
  "rep_lib \<Rightarrow> 'd dht_ops \<Rightarrow> ('w, 'c) chain_ops \<Rightarrow> (nat \<Rightarrow> u64) \<Rightarrow> bytes \<Rightarrow> 'd \<Rightarrow> 'c \<Rightarrow> public_key_cache \<Rightarrow> test_results" where
  "run_integration_test L D ops t key d ch cache =
     (let s0 = new_epoch_system L key (t 0) 98765 60 5 d ch;
          results1 = add_test ''System Creation'' True ''ReputationSystemWithEpochs created successfully'' new_test_results;
          event1 = new_reputation_event (t 1) ''test-event-1'' ''peer-1'' ''rater-1'' FileTransferSuccess (json_text ''data1'') (F_Fin (1 / 2));
          event2 = new_reputation_event (t 2) ''test-event-2'' ''peer-2'' ''rater-2'' FileTransferFailure (json_text ''data2'') (f64_of_rat (- 3 / 10));
          (result1, s1) = epoch_add_event L D ops (t 3) (t 4) (t 5) event1 s0;
          (result2, s2) = epoch_add_event L D ops (t 6) (t 7) (t 8) event2 s1;
          results2 = add_test ''Add Events'' (is_ok result1 \<and> is_ok result2) ''Events added successfully'' results1;
          pending_count = length (rs_pending_events s2);
          results3 = add_test ''Pending Events'' (pending_count = 2) (''Expected 2 pending events, got '' @ show_nat pending_count) results2;
          signature_verified = list_all (\<lambda>e. is_ok (verify_event_signature L cache e)) (rs_pending_events s2);
          results4 = add_test ''Signature Verification'' signature_verified ''All event signatures verified'' results3;
          (finalize_result, s3) = finalize_current_epoch L D ops (t 9) (t 10) s2;
          results5 = add_test ''Epoch Finalization'' (is_ok finalize_result) ''Epoch finalized successfully'' results4;
          (current_epoch, pending, _, _) = get_epoch_status (t 11) s3
      in add_test ''Epoch Advancement'' (current_epoch = 1 \<and> pending = 0) ''Epoch advanced and cleared'' results5)"

fun add_all :: "rep_lib \<Rightarrow> 'd dht_ops \<Rightarrow> ('w, 'c) chain_ops \<Rightarrow> (nat \<Rightarrow> u64) \<Rightarrow> nat \<Rightarrow> reputation_event list \<Rightarrow> (('d, 'c) epoch_system, string, unit) act" where
  "add_all L D ops t n [] = ret ()"
| "add_all L D ops t n (e # es) = and_then (epoch_add_event L D ops (t n) (t (n + 1)) (t (n + 2)) e) (\<lambda>_. add_all L D ops t (n + 3) es)"

record performance_results =
  pr_event_count :: usize
  pr_add_duration_ms :: u64
  pr_finalize_duration_ms :: u64
  pr_total_duration_ms :: u64
  pr_events_per_second :: u64

definition run_performance_test ::
  "rep_lib \<Rightarrow> 'd dht_ops \<Rightarrow> ('w, 'c) chain_ops \<Rightarrow> (nat \<Rightarrow> u64) \<Rightarrow> nat \<times> nat \<times> nat \<Rightarrow> bytes \<Rightarrow> 'd \<Rightarrow> 'c \<Rightarrow> usize \<Rightarrow> (string, performance_results) result" where
  "run_performance_test L D ops t durations key d ch event_count =
     (let s0 = new_epoch_system L key (t 0) 98765 3600 (wadd64 event_count 1) d ch;
          events = map (\<lambda>i. new_reputation_event (t (Suc i)) (''perf-event-'' @ show_nat i) (''peer-'' @ show_nat (i mod 10)) ''test-rater''
                      FileTransferSuccess (json_text (''data'' @ show_nat i)) (f64_of_rat (1 / 10))) [0 ..< event_count];
          (add_duration, finalize_duration, total_duration) = durations
      in fst (and_then (add_all L D ops t (event_count + 1) events) (\<lambda>_.
              and_then (finalize_current_epoch L D ops (t (4 * event_count + 1)) (t (4 * event_count + 2))) (\<lambda>_.
                ret \<lparr>pr_event_count = event_count, pr_add_duration_ms = as_millis_u64 add_duration,
                  pr_finalize_duration_ms = as_millis_u64 finalize_duration, pr_total_duration_ms = as_millis_u64 total_duration,
                  pr_events_per_second = f64_to_u64 (f64_div (f64_of_u64 event_count) (secs_f64 total_duration))\<rparr>)) s0))"

section \<open>Inclusion proofs\<close>

text \<open>
  What \<open>rs_merkle\<close> documents about the root: adjacent hashes are concatenated and hashed, a last
  one without a partner is carried over to the next level, until one is left.
\<close>

fun merkle_level :: "(bytes \<Rightarrow> bytes) \<Rightarrow> bytes list \<Rightarrow> bytes list" where
  "merkle_level h (a # b # xs) = h (a @ b) # merkle_level h xs"
| "merkle_level h xs = xs"

lemma length_merkle_level: "length (merkle_level h xs) = (length xs + 1) div 2"
  by (induction h xs rule: merkle_level.induct) auto

function tree_root :: "(bytes \<Rightarrow> bytes) \<Rightarrow> bytes list \<Rightarrow> bytes option" where
  "tree_root h [] = None"
| "tree_root h [x] = Some x"
| "tree_root h (x # y # zs) = tree_root h (merkle_level h (x # y # zs))"
  by pat_completeness auto
termination by (relation "measure (\<lambda>(h, xs). length xs)") (auto simp: length_merkle_level)

definition rs_merkle_ok :: "rep_lib \<Rightarrow> bool" where
  "rs_merkle_ok L \<longleftrightarrow> (\<forall>xs. rl_merkle_root L xs = tree_root (sha256 (rl_crypto L)) xs)"

definition sha256_len :: "rep_lib \<Rightarrow> bool" where
  "sha256_len L \<longleftrightarrow> (\<forall>b. length (sha256 (rl_crypto L) b) = 32)"

text \<open>
  The byte strings that are hashed: for the inner nodes of a full tree of height \<open>k\<close>, and in a walk along a proof.
  Soundness assumes that no two of these collide, not that the hash has no collision at all.
\<close>

fun level_inputs :: "bytes list \<Rightarrow> bytes set" where
  "level_inputs (a # b # xs) = insert (a @ b) (level_inputs xs)"
| "level_inputs xs = {}"

primrec tree_inputs :: "(bytes \<Rightarrow> bytes) \<Rightarrow> nat \<Rightarrow> bytes list \<Rightarrow> bytes set" where
  "tree_inputs h 0 xs = {}"
| "tree_inputs h (Suc k) xs = level_inputs xs \<union> tree_inputs h k (merkle_level h xs)"

definition pair_input :: "nat \<Rightarrow> bytes \<Rightarrow> bytes \<Rightarrow> bytes" where
  "pair_input i x s = (if even i then x @ s else s @ x)"

fun walk_inputs :: "rep_lib \<Rightarrow> bytes \<Rightarrow> nat \<Rightarrow> string list \<Rightarrow> bytes set" where
  "walk_inputs L x i [] = {}"
| "walk_inputs L x i (p # ps) =
     (case hex_decode p of None \<Rightarrow> {} | Some s \<Rightarrow> insert (pair_input i x s) (walk_inputs L (combine L i x s) (i div 2) ps))"

lemma combine_pair: "combine L i x s = sha256 (rl_crypto L) (pair_input i x s)"
  by (simp add: combine_def pair_input_def even_iff_mod_2_eq_zero)

text \<open>The siblings on the way from leaf \<open>i\<close> of a full tree of height \<open>k\<close> to its root.\<close>

primrec audit_path :: "(bytes \<Rightarrow> bytes) \<Rightarrow> nat \<Rightarrow> bytes list \<Rightarrow> nat \<Rightarrow> bytes list" where
  "audit_path h 0 xs i = []"
| "audit_path h (Suc k) xs i = xs ! (if even i then i + 1 else i - 1) # audit_path h k (merkle_level h xs) (i div 2)"

lemma level_nth: "even (length xs) \<Longrightarrow> 2 * j + 1 < length xs \<Longrightarrow> merkle_level h xs ! j = h (xs ! (2 * j) @ xs ! (2 * j + 1))"
proof (induction h xs arbitrary: j rule: merkle_level.induct)
  case (1 h a b xs)
  then show ?case by (cases j) auto
qed auto

lemma level_parent:
  assumes "length xs = 2 ^ Suc k" "i < 2 ^ Suc k"
  shows "merkle_level h xs ! (i div 2) = h (pair_input i (xs ! i) (xs ! (if even i then i + 1 else i - 1)))"
proof -
  have "i div 2 < 2 ^ k" using assms(2) by simp
  then have "2 * (i div 2) + 1 < length xs" using assms(1) by simp
  from level_nth [OF _ this, of h] assms show ?thesis by (cases "even i") (auto simp: pair_input_def elim!: oddE)
qed

lemma tree_root_level: "2 \<le> length xs \<Longrightarrow> tree_root h xs = tree_root h (merkle_level h xs)"
  by (cases "(h, xs)" rule: tree_root.cases) auto

lemma level_full: "length xs = 2 ^ Suc k \<Longrightarrow> length (merkle_level h xs) = 2 ^ k"
  by (simp add: length_merkle_level)

lemma level_lengths:
  assumes "sha256_len L"
  shows "even (length xs) \<Longrightarrow> \<forall>x \<in> set (merkle_level (sha256 (rl_crypto L)) xs). length x = 32"
  using assms by (induction "sha256 (rl_crypto L)" xs rule: merkle_level.induct) (auto simp: sha256_len_def)

lemma level_inputs_nth: "even (length xs) \<Longrightarrow> 2 * j + 1 < length xs \<Longrightarrow> xs ! (2 * j) @ xs ! (2 * j + 1) \<in> level_inputs xs"
proof (induction xs arbitrary: j rule: level_inputs.induct)
  case (1 a b xs)
  then show ?case by (cases j) auto
qed auto

lemma level_inputs_pair:
  assumes "length xs = 2 ^ Suc k" "i < 2 ^ Suc k"
  shows "pair_input i (xs ! i) (xs ! (if even i then i + 1 else i - 1)) \<in> level_inputs xs"
proof -
  have "i div 2 < 2 ^ k" using assms(2) by simp
  then have "2 * (i div 2) + 1 < length xs" using assms(1) by simp
  from level_inputs_nth [OF _ this] assms show ?thesis by (cases "even i") (auto simp: pair_input_def elim!: oddE)
qed

lemma decode_bytes32_encode: "length b = 32 \<Longrightarrow> decode_bytes32 w l (hex_encode b) = Ok b"
  by (simp add: decode_bytes32_def decode_hex_def)

lemma decode_bytes32_Ok: "decode_bytes32 w l s = Inr b \<Longrightarrow> length b = 32"
  by (auto simp: decode_bytes32_def rbind_Inr split: if_splits)

text \<open>A walk along siblings that ends at the root of a full tree started at the leaf it claims.\<close>

lemma walk_sound:
  assumes inj: "inj_on (sha256 (rl_crypto L)) S" and "sha256_len L"
  shows "\<lbrakk>walk_proof L x i ps = Inr r; tree_root (sha256 (rl_crypto L)) xs = Some r; length xs = 2 ^ length ps; i < 2 ^ length ps;
          length x = 32; \<forall>y \<in> set xs. length y = 32; walk_inputs L x i ps \<subseteq> S; tree_inputs (sha256 (rl_crypto L)) (length ps) xs \<subseteq> S\<rbrakk>
         \<Longrightarrow> xs ! i = x"
proof (induction ps arbitrary: x i xs)
  case Nil
  then show ?case by (cases xs) auto
next
  case (Cons p ps)
  let ?h = "sha256 (rl_crypto L)" and ?s = "xs ! (if even i then i + 1 else i - 1)"
  have len: "\<And>b. length (?h b) = 32" using assms(2) unfolding sha256_len_def by blast
  from Cons.prems(1) obtain s where s: "hex_decode p = Some s" "length s = 32" and w: "walk_proof L (combine L i x s) (i div 2) ps = Inr r"
    by (auto simp: rbind_Inr decode_bytes32_def decode_hex_def split: if_splits)
  have in_S: "pair_input i x s \<in> S" "pair_input i (xs ! i) ?s \<in> S"
    using Cons.prems(3,4,7,8) s level_inputs_pair [of xs "length ps" i] by auto
  have xs2: "2 \<le> length xs" using Cons.prems(3) by simp
  have "merkle_level ?h xs ! (i div 2) = combine L i x s"
  proof (rule Cons.IH [OF w])
    show "tree_root ?h (merkle_level ?h xs) = Some r" using Cons.prems(2) tree_root_level [OF xs2] by simp
    show "length (merkle_level ?h xs) = 2 ^ length ps" using Cons.prems(3) level_full by simp
    show "i div 2 < 2 ^ length ps" using Cons.prems(4) by simp
    show "length (combine L i x s) = 32" by (simp add: combine_def len)
    show "\<forall>y\<in>set (merkle_level ?h xs). length y = 32" using level_lengths [OF assms(2), of xs] Cons.prems(3) by simp
    show "walk_inputs L (combine L i x s) (i div 2) ps \<subseteq> S" using Cons.prems(7) s by simp
    show "tree_inputs ?h (length ps) (merkle_level ?h xs) \<subseteq> S" using Cons.prems(8) by simp
  qed
  moreover have "merkle_level ?h xs ! (i div 2) = ?h (pair_input i (xs ! i) ?s)"
    using level_parent Cons.prems(3,4) by simp
  ultimately have "pair_input i (xs ! i) ?s = pair_input i x s"
    using inj in_S by (simp add: combine_pair inj_on_eq_iff)
  moreover have "length (xs ! i) = 32" "odd i \<Longrightarrow> length (xs ! (i - 1)) = 32"
    using Cons.prems(3,4,6) by (auto intro!: bspec [OF Cons.prems(6)] nth_mem)
  ultimately show ?case using Cons.prems(5) s by (cases "even i") (auto simp: pair_input_def)
qed

lemma walk_length: "sha256_len L \<Longrightarrow> walk_proof L x i ps = Inr r \<Longrightarrow> length x = 32 \<Longrightarrow> length r = 32"
  by (induction L x i ps rule: walk_proof.induct) (auto simp: rbind_Inr combine_def sha256_len_def)

text \<open>And the walk along the siblings of a leaf ends at the root.\<close>

lemma walk_complete:
  assumes "sha256_len L"
  shows "\<lbrakk>length xs = 2 ^ k; i < 2 ^ k; \<forall>y \<in> set xs. length y = 32\<rbrakk> \<Longrightarrow>
    \<exists>r. tree_root (sha256 (rl_crypto L)) xs = Some r \<and>
        walk_proof L (xs ! i) i (map hex_encode (audit_path (sha256 (rl_crypto L)) k xs i)) = Inr r"
proof (induction k arbitrary: xs i)
  case 0
  then obtain x where "xs = [x]" by (auto simp: length_Suc_conv)
  with 0 show ?case by simp
next
  case (Suc k)
  let ?h = "sha256 (rl_crypto L)" and ?s = "xs ! (if even i then i + 1 else i - 1)"
  have len: "\<And>b. length (?h b) = 32" using assms unfolding sha256_len_def by blast
  have "length (merkle_level ?h xs) = 2 ^ k" "i div 2 < 2 ^ k" "\<forall>y\<in>set (merkle_level ?h xs). length y = 32"
    using Suc.prems level_full level_lengths [OF assms, of xs] by simp_all
  from Suc.IH [OF this] obtain r where r: "tree_root ?h (merkle_level ?h xs) = Some r"
    "walk_proof L (merkle_level ?h xs ! (i div 2)) (i div 2) (map hex_encode (audit_path ?h k (merkle_level ?h xs) (i div 2))) = Inr r"
    by blast
  have "(if even i then i + 1 else i - 1) < length xs" using Suc.prems by (auto elim!: evenE)
  then have "length ?s = 32" using Suc.prems(3) nth_mem by blast
  moreover have "combine L i (xs ! i) ?s = merkle_level ?h xs ! (i div 2)"
    using level_parent [OF Suc.prems(1,2), of ?h] by (simp add: combine_pair)
  moreover have "2 \<le> length xs" using Suc.prems(1) by simp
  ultimately show ?case using r tree_root_level [of xs ?h] by (simp add: decode_bytes32_encode)
qed

lemma hash_events_nth:
  "hash_events L es = Inr hs \<Longrightarrow> length hs = length es \<and> (\<forall>i < length es. hash_event L (es ! i) = Inr (hs ! i))"
proof (induction es arbitrary: hs)
  case (Cons e es)
  then obtain h hs' where h: "hash_event L e = Inr h" "hash_events L es = Inr hs'" "hs = h # hs'" by (auto simp: rbind_Inr)
  have "hash_event L ((e # es) ! i) = Inr (hs ! i)" if "i < length (e # es)" for i
    using that h Cons.IH [OF h(2)] by (cases i) auto
  with h Cons.IH [OF h(2)] show ?case by simp
qed simp

lemma hash_event_Ok: "hash_event L e = Inr h \<longleftrightarrow> (\<exists>b. rl_json L (event_payload e) = Inr b \<and> h = sha256 (rl_crypto L) b)"
  by (auto simp: hash_event_def rbind_Inr)

lemma hash_events_snoc:
  "hash_events L es = Inr hs \<Longrightarrow> hash_event L e = Inr h \<Longrightarrow> hash_events L (es @ [e]) = Inr (hs @ [h])"
  by (induction es arbitrary: hs) (auto simp: rbind_Inr)

lemma hash_events_lengths: "sha256_len L \<Longrightarrow> hash_events L es = Inr hs \<Longrightarrow> \<forall>h \<in> set hs. length h = 32"
  by (induction es arbitrary: hs) (auto simp: rbind_Inr hash_event_Ok sha256_len_def)

definition event_json :: "rep_lib \<Rightarrow> reputation_event \<Rightarrow> bytes" where
  "event_json L e = (case rl_json L (event_payload e) of Inr b \<Rightarrow> b | Inl _ \<Rightarrow> [])"

text \<open>
  C23: In a full tree an inclusion proof that verifies proves inclusion: if the number of the events \<open>es\<close> is two to the number of
  hashes in the proof, the position \<open>i\<close> in the proof is that of one of them and
  the hash has no collision among the strings that are hashed for the tree and the proof, an event
  accepted at position \<open>i\<close> against the root has the same signed content as the event at position \<open>i\<close>. The code does not check the
  first two conditions; without them it is not so (\<open>carried_leaf_other_position\<close>).
\<close>

theorem merkle_inclusion_sound:
  assumes "rs_merkle_ok L" "sha256_len L"
    and "hash_events L es = Ok hs" "length es = 2 ^ length (mp_proof_hashes proof)" "mp_leaf_index proof < length es"
    and "rl_merkle_root L hs = Some r"
    and "inj_on (sha256 (rl_crypto L)) ({event_json L e, event_json L (es ! mp_leaf_index proof)}
           \<union> walk_inputs L (sha256 (rl_crypto L) (event_json L e)) (mp_leaf_index proof) (mp_proof_hashes proof)
           \<union> tree_inputs (sha256 (rl_crypto L)) (length (mp_proof_hashes proof)) hs)"
    and "verify_event_against_merkle_root L e (hex_encode r) proof = Ok True"
  shows "rl_json L (event_payload e) = rl_json L (event_payload (es ! mp_leaf_index proof))"
proof -
  let ?i = "mp_leaf_index proof" and ?h = "sha256 (rl_crypto L)"
  from assms(8) obtain leaf expected where v: "hash_event L e = Inr leaf" "hex_decode (hex_encode r) = Some expected"
    "walk_proof L leaf ?i (mp_proof_hashes proof) = Inr expected"
    by (auto simp: verify_event_against_merkle_root_def rbind_Inr decode_bytes32_def decode_hex_def split: if_splits)
  then have w: "walk_proof L leaf ?i (mp_proof_hashes proof) = Inr r" by simp
  from v(1) obtain b where b: "rl_json L (event_payload e) = Inr b" "leaf = ?h b" by (auto simp: hash_event_Ok)
  note hs = hash_events_nth [OF assms(3)]
  have root: "tree_root ?h hs = Some r" using assms(1,6) by (simp add: rs_merkle_ok_def)
  have "hs ! ?i = leaf"
    by (rule walk_sound [OF assms(7,2) w root])
      (use assms(2,4,5) hs b hash_events_lengths [OF assms(2,3)] in \<open>auto simp: sha256_len_def event_json_def\<close>)
  moreover from hs assms(5) obtain b' where b': "rl_json L (event_payload (es ! ?i)) = Inr b'" "hs ! ?i = ?h b'"
    by (fastforce simp: hash_event_Ok)
  ultimately have "?h b' = ?h b" using b by simp
  then have "b' = b" using inj_onD [OF assms(7), of b' b] b b' by (simp add: event_json_def)
  with b b' show ?thesis by simp
qed

text \<open>A hash for the witnesses: padded to 32 bytes, without a collision among short strings.\<close>

definition toy_sha :: "bytes \<Rightarrow> bytes" where
  "toy_sha b = take 32 (rev b @ replicate 32 (CHR ''z''))"

definition toy_rep_lib :: rep_lib where
  "toy_rep_lib = \<lparr>rl_crypto = toy_crypto\<lparr>sha256 := toy_sha\<rparr>,
     rl_json = (\<lambda>p. case p of SignableEvent eid _ _ _ _ _ _ \<Rightarrow> Ok eid | _ \<Rightarrow> Ok ''{}''),
     rl_merkle_root = tree_root toy_sha, rl_parse_events = (\<lambda>b. None), rl_parse_event = (\<lambda>b. None), rl_parse_verdict = (\<lambda>b. None)\<rparr>"

lemma toy_rep_lib_ok: "rs_merkle_ok toy_rep_lib" "sha256_len toy_rep_lib" "crypto_ok (rl_crypto toy_rep_lib)"
  by (auto simp: rs_merkle_ok_def sha256_len_def toy_rep_lib_def toy_sha_def crypto_ok_def toy_crypto_def)

definition toy_event :: "string \<Rightarrow> reputation_event" where
  "toy_event eid = new_reputation_event 0 eid ''p'' ''r'' FileShared [] (F_Fin 5)"

lemmas toy_rep_simps = toy_rep_lib_def toy_event_def new_reputation_event_def event_payload_def hash_event_def event_json_def
  toy_crypto_def toy_sha_def

text \<open>The second of two events, with its only sibling.\<close>

theorem merkle_inclusion_sound_witness:
  "rl_json toy_rep_lib (event_payload (toy_event ''b'')) = rl_json toy_rep_lib (event_payload ([toy_event ''a'', toy_event ''b''] ! 1))"
proof -
  let ?hs = "[toy_sha ''a'', toy_sha ''b'']" and ?p = "\<lparr>mp_leaf_index = 1, mp_proof_hashes = [hex_encode (toy_sha ''a'')], mp_total_leaves = 2\<rparr>"
  have sha: "sha256 (rl_crypto toy_rep_lib) = toy_sha" by (simp add: toy_rep_lib_def)
  have json: "event_json toy_rep_lib (toy_event x) = x" for x by (simp add: toy_rep_simps)
  have walk: "walk_inputs toy_rep_lib (toy_sha ''b'') 1 [hex_encode (toy_sha ''a'')] = {toy_sha ''a'' @ toy_sha ''b''}"
    by (simp add: pair_input_def)
  have hashes: "hash_events toy_rep_lib [toy_event ''a'', toy_event ''b''] = Ok ?hs" by (simp add: toy_rep_simps)
  have root: "rl_merkle_root toy_rep_lib ?hs = Some (toy_sha (toy_sha ''a'' @ toy_sha ''b''))" by (simp add: toy_rep_lib_def)
  have inj: "inj_on toy_sha ({''b'', ''b''} \<union> {toy_sha ''a'' @ toy_sha ''b''} \<union> {toy_sha ''a'' @ toy_sha ''b''})"
    by (simp add: toy_sha_def inj_on_def numeral_eq_Suc)
  have "length (toy_sha x) = 32" for x by (simp add: toy_sha_def)
  then have ok: "verify_event_against_merkle_root toy_rep_lib (toy_event ''b'') (hex_encode (toy_sha (toy_sha ''a'' @ toy_sha ''b''))) ?p = Ok True"
    using hashes by (auto simp: verify_event_against_merkle_root_def decode_bytes32_encode combine_def sha rbind_Inr hash_event_Ok)
  show ?thesis
    using merkle_inclusion_sound [OF toy_rep_lib_ok(1,2) hashes _ _ root _ ok] inj by (simp add: sha json walk numeral_eq_Suc)
qed

text \<open>
  In a tree over three events the last one is carried to the next level: with the hash of the other two as its only sibling it is
  accepted at position 1, where another event is.
\<close>

theorem carried_leaf_other_position:
  assumes "rs_merkle_ok L" "sha256_len L" "hash_events L [e0, e1, e2] = Ok hs" "rl_merkle_root L hs = Some r"
  shows "verify_event_against_merkle_root L e2 (hex_encode r)
    \<lparr>mp_leaf_index = 1, mp_proof_hashes = [hex_encode (sha256 (rl_crypto L) (hs ! 0 @ hs ! 1))], mp_total_leaves = n\<rparr> = Ok True"
proof -
  let ?h = "sha256 (rl_crypto L)"
  from assms(3) obtain a b c where hs: "hs = [a, b, c]" and c: "hash_event L e2 = Inr c" by (auto simp: rbind_Inr)
  have len: "length (?h x) = 32" for x using assms(2) by (simp add: sha256_len_def)
  have r: "r = ?h (?h (a @ b) @ c)" using assms(1,4) by (simp add: rs_merkle_ok_def hs)
  show ?thesis unfolding hs r using c
    by (simp add: verify_event_against_merkle_root_def decode_bytes32_encode combine_def len)
qed

text \<open>
  Every event of a full tree has a proof that verifies: the siblings on its way to the root.
\<close>

theorem merkle_inclusion_complete:
  assumes "rs_merkle_ok L" "sha256_len L"
    and "hash_events L es = Ok hs" "length es = 2 ^ k" "i < length es"
  shows "\<exists>r. rl_merkle_root L hs = Some r \<and>
    verify_event_against_merkle_root L (es ! i) (hex_encode r)
      \<lparr>mp_leaf_index = i, mp_proof_hashes = map hex_encode (audit_path (sha256 (rl_crypto L)) k hs i), mp_total_leaves = length es\<rparr> = Ok True"
proof -
  note hs = hash_events_nth [OF assms(3)] and lens = hash_events_lengths [OF assms(2,3)]
  from walk_complete [OF assms(2), of hs k i] hs lens assms(4,5) obtain r
    where r: "tree_root (sha256 (rl_crypto L)) hs = Some r"
      "walk_proof L (hs ! i) i (map hex_encode (audit_path (sha256 (rl_crypto L)) k hs i)) = Inr r" by auto
  have "length (hs ! i) = 32" using lens hs assms(5) by (metis nth_mem)
  have len: "length r = 32" using walk_length [OF assms(2) r(2)] \<open>length (hs ! i) = 32\<close> by simp
  have "verify_event_against_merkle_root L (es ! i) (hex_encode r)
      \<lparr>mp_leaf_index = i, mp_proof_hashes = map hex_encode (audit_path (sha256 (rl_crypto L)) k hs i), mp_total_leaves = length es\<rparr> = Ok True"
    using hs assms(5) r(2) len by (simp add: verify_event_against_merkle_root_def decode_bytes32_encode)
  with r(1) assms(1) show ?thesis by (auto simp: rs_merkle_ok_def)
qed

theorem merkle_inclusion_complete_witness:
  "\<exists>r. verify_event_against_merkle_root toy_rep_lib ([toy_event ''a'', toy_event ''b''] ! 0) (hex_encode r)
      \<lparr>mp_leaf_index = 0, mp_proof_hashes = map hex_encode (audit_path (sha256 (rl_crypto toy_rep_lib)) 1 [toy_sha ''a'', toy_sha ''b''] 0),
       mp_total_leaves = length [toy_event ''a'', toy_event ''b'']\<rparr> = Ok True"
proof -
  have "hash_events toy_rep_lib [toy_event ''a'', toy_event ''b''] = Ok [toy_sha ''a'', toy_sha ''b'']" by (simp add: toy_rep_simps)
  from merkle_inclusion_complete [OF toy_rep_lib_ok(1,2) this, of 1 0] show ?thesis by auto
qed

text \<open>
  In a tree that is not full the verifier rejects valid proofs: of three events the last one is carried over to
  the second level, where it is a right child, but the verifier goes by the parity of its index on the
  first level and puts it on the left. The proof the library gives is rejected unless the two
  hashes are equal.
\<close>

theorem carried_leaf_rejected:
  assumes "rs_merkle_ok L" "sha256_len L" "hash_events L [e1, e2, e3] = Ok [h1, h2, h3]"
    and "h3 \<noteq> sha256 (rl_crypto L) (h1 @ h2)"
    and "inj_on (sha256 (rl_crypto L)) {sha256 (rl_crypto L) (h1 @ h2) @ h3, h3 @ sha256 (rl_crypto L) (h1 @ h2)}"
  shows "\<exists>r. rl_merkle_root L [h1, h2, h3] = Some r \<and> r = combine L 1 h3 (sha256 (rl_crypto L) (h1 @ h2)) \<and>
    verify_event_against_merkle_root L e3 (hex_encode r)
      \<lparr>mp_leaf_index = 2, mp_proof_hashes = [hex_encode (sha256 (rl_crypto L) (h1 @ h2))], mp_total_leaves = 3\<rparr> = Ok False"
proof -
  let ?h = "sha256 (rl_crypto L)"
  have root: "rl_merkle_root L [h1, h2, h3] = Some (?h (?h (h1 @ h2) @ h3))" using assms(1) by (simp add: rs_merkle_ok_def)
  have len: "length (?h b) = 32" for b using assms(2) by (simp add: sha256_len_def)
  have h3: "hash_event L e3 = Inr h3" "length h3 = 32"
    using hash_events_nth [OF assms(3)] hash_events_lengths [OF assms(2,3)] by (fastforce, simp)
  have "?h (h1 @ h2) @ h3 \<noteq> h3 @ ?h (h1 @ h2)" using assms(4) h3 len by (simp add: append_eq_append_conv)
  then have "?h (h3 @ ?h (h1 @ h2)) \<noteq> ?h (?h (h1 @ h2) @ h3)" using inj_on_eq_iff [OF assms(5)] by (metis insertCI)
  then show ?thesis
    by (simp add: root verify_event_against_merkle_root_def h3 len decode_bytes32_encode combine_def)
qed

theorem carried_leaf_rejected_witness:
  "\<exists>r. verify_event_against_merkle_root toy_rep_lib (toy_event ''c'') (hex_encode r)
      \<lparr>mp_leaf_index = 2, mp_proof_hashes = [hex_encode (toy_sha (toy_sha ''a'' @ toy_sha ''b''))], mp_total_leaves = 3\<rparr> = Ok False"
proof -
  have sha: "sha256 (rl_crypto toy_rep_lib) = toy_sha" by (simp add: toy_rep_lib_def)
  have h: "hash_events toy_rep_lib [toy_event ''a'', toy_event ''b'', toy_event ''c''] = Ok [toy_sha ''a'', toy_sha ''b'', toy_sha ''c'']"
    by (simp add: toy_rep_simps)
  have ne: "toy_sha ''c'' \<noteq> toy_sha (toy_sha ''a'' @ toy_sha ''b'')" by (simp add: toy_sha_def numeral_eq_Suc)
  have inj: "inj_on toy_sha {toy_sha (toy_sha ''a'' @ toy_sha ''b'') @ toy_sha ''c'', toy_sha ''c'' @ toy_sha (toy_sha ''a'' @ toy_sha ''b'')}"
    by (simp add: toy_sha_def numeral_eq_Suc inj_on_def)
  show ?thesis using carried_leaf_rejected [OF toy_rep_lib_ok(1,2) h] ne inj unfolding sha by blast
qed

section \<open>Signatures\<close>

lemma check_signature_own:
  "crypto_ok (rl_crypto L) \<Longrightarrow>
     check_signature L (ed25519_public (rl_crypto L) k) m (ed25519_sign (rl_crypto L) k m) = Ok True"
  by (simp add: check_signature_def crypto_okD)

lemma sign_reputation_event_Ok:
  "sign_reputation_event L k e0 = Inr e \<longleftrightarrow>
     (\<exists>b. rl_json L (event_payload e) = Inr b \<and>
        e = e0\<lparr>re_rater_peer_id := nk_peer_id k, re_signature := hex_encode (ed25519_sign (rl_crypto L) (nk_signing_key k) b)\<rparr>)"
  by (auto simp: sign_reputation_event_def rbind_Inr event_payload_def)

text \<open>
  A signed event verifies with the key of its rater, and still does after its epoch was changed: the
  signature covers every field the Merkle tree hashes but not the epoch, by which \<open>verify_epoch_integrity\<close> decides
  that events belong to an epoch.
\<close>

theorem event_signature_ignores_epoch:
  assumes "crypto_ok (rl_crypto L)" "sign_reputation_event L (new_key_manager L key) e0 = Ok e"
    and "cache = add_peer_key (nk_peer_id (new_key_manager L key)) (get_verifying_key L (new_key_manager L key)) old"
  shows "verify_event_signature L cache e = Ok True \<and>
    verify_event_signature L cache (e\<lparr>re_epoch := Some n\<rparr>) = Ok True \<and>
    hash_event L (e\<lparr>re_epoch := Some n\<rparr>) = hash_event L e \<and>
    verify_epoch_integrity (epoch_of n mroot now 1 k) [e\<lparr>re_epoch := Some n\<rparr>] = Ok True"
proof (intro conjI)
  from assms(2) obtain b where e: "rl_json L (event_payload e) = Inr b" "re_rater_peer_id e = nk_peer_id (new_key_manager L key)"
    "re_signature e = hex_encode (ed25519_sign (rl_crypto L) key b)"
    by (auto simp: sign_reputation_event_Ok new_key_manager_def)
  have pay: "event_payload (e\<lparr>re_epoch := x\<rparr>) = event_payload e" for x by (simp add: event_payload_def)
  show "verify_event_signature L cache e = Ok True" "verify_event_signature L cache (e\<lparr>re_epoch := Some n\<rparr>) = Ok True"
    using e check_signature_own [OF assms(1)]
    by (simp_all add: assms(3) verify_event_signature_def verify_reputation_event_def add_peer_key_def get_peer_key_def pay decode_hex_def
        get_verifying_key_def new_key_manager_def)
  show "hash_event L (e\<lparr>re_epoch := Some n\<rparr>) = hash_event L e" by (simp add: hash_event_def pay)
  show "verify_epoch_integrity (epoch_of n mroot now 1 k) [e\<lparr>re_epoch := Some n\<rparr>] = Ok True"
    by (simp add: verify_epoch_integrity_def epoch_of_def)
qed

theorem event_signature_ignores_epoch_witness:
  "\<exists>e. re_epoch e = Some 3 \<and> verify_event_signature toy_rep_lib
      (add_peer_key (nk_peer_id (new_key_manager toy_rep_lib ''k'')) (get_verifying_key toy_rep_lib (new_key_manager toy_rep_lib ''k'')) Map.empty)
      (e\<lparr>re_epoch := Some 4\<rparr>) = Ok True"
proof -
  let ?e0 = "(toy_event ''a'')\<lparr>re_epoch := Some 3\<rparr>"
  obtain e where e: "sign_reputation_event toy_rep_lib (new_key_manager toy_rep_lib ''k'') ?e0 = Ok e" "re_epoch e = Some 3"
    by (auto simp: sign_reputation_event_def event_payload_def toy_rep_lib_def)
  from event_signature_ignores_epoch [OF toy_rep_lib_ok(3) e(1) refl] e(2) show ?thesis by blast
qed

text \<open>
  A payment promise that was created verifies with the key of the downloader; it is valid exactly if
  no field is empty or zero and its deadline has not passed; and a change of the amount leaves a
  signature for other bytes, so that it verifies only if the signature scheme accepts it for those.
\<close>

theorem payment_promise_round_trip:
  assumes "crypto_ok (rl_crypto L)" "new_transaction_message L uuid from to amount file_hash deadline key = Ok m"
  shows "verify_transaction_signature L (ed25519_public (rl_crypto L) key) m = Ok True \<and>
    (validate_transaction_message now m = Ok () \<longleftrightarrow>
      from \<noteq> [] \<and> to \<noteq> [] \<and> amount \<noteq> 0 \<and> file_hash \<noteq> [] \<and> uuid \<noteq> [] \<and> deadline \<noteq> 0 \<and> now \<le> deadline) \<and>
    (verify_transaction_signature L pk (m\<lparr>tm_amount := amount'\<rparr>) = Ok True \<longleftrightarrow>
      (\<exists>b b'. rl_json L (message_payload m) = Ok b \<and> rl_json L (message_payload (m\<lparr>tm_amount := amount'\<rparr>)) = Ok b' \<and>
        ed25519_verify (rl_crypto L) pk b' (ed25519_sign (rl_crypto L) key b)))"
proof (intro conjI)
  from assms(2) obtain b where m: "rl_json L (message_payload m) = Inr b"
    "m = \<lparr>tm_from = from, tm_to = to, tm_amount = amount, tm_file_hash = file_hash, tm_nonce = uuid, tm_deadline = deadline,
          tm_downloader_signature = hex_encode (ed25519_sign (rl_crypto L) key b)\<rparr>"
    by (auto simp: new_transaction_message_def sign_transaction_message_def rbind_Inr message_payload_def)
  have sig: "tm_downloader_signature m = hex_encode (ed25519_sign (rl_crypto L) key b)" using m(2) by simp
  show "verify_transaction_signature L (ed25519_public (rl_crypto L) key) m = Ok True"
    using m(1) sig check_signature_own [OF assms(1)] by (simp add: verify_transaction_signature_def decode_hex_def)
  show "validate_transaction_message now m = Ok () \<longleftrightarrow>
      from \<noteq> [] \<and> to \<noteq> [] \<and> amount \<noteq> 0 \<and> file_hash \<noteq> [] \<and> uuid \<noteq> [] \<and> deadline \<noteq> 0 \<and> now \<le> deadline"
    unfolding m(2) by (simp add: validate_transaction_message_def message_is_expired_def not_less)
  show "verify_transaction_signature L pk (m\<lparr>tm_amount := amount'\<rparr>) = Ok True \<longleftrightarrow>
      (\<exists>b b'. rl_json L (message_payload m) = Ok b \<and> rl_json L (message_payload (m\<lparr>tm_amount := amount'\<rparr>)) = Ok b' \<and>
        ed25519_verify (rl_crypto L) pk b' (ed25519_sign (rl_crypto L) key b))"
    using m(1) sig crypto_okD(7) [OF assms(1)]
    by (cases "rl_json L (message_payload (m\<lparr>tm_amount := amount'\<rparr>))")
      (simp_all add: verify_transaction_signature_def decode_hex_def check_signature_def)
qed

theorem payment_promise_round_trip_witness:
  "\<exists>m. verify_transaction_signature toy_rep_lib (ed25519_public (rl_crypto toy_rep_lib) ''k'') m = Ok True \<and>
       validate_transaction_message 5 m = Ok () \<and> validate_transaction_message 11 m \<noteq> Ok ()"
proof -
  obtain m where m: "new_transaction_message toy_rep_lib ''n'' ''f'' ''t'' 1 ''h'' 10 ''k'' = Ok m"
    by (auto simp: new_transaction_message_def sign_transaction_message_def message_payload_def toy_rep_lib_def)
  from payment_promise_round_trip [OF toy_rep_lib_ok(3) m, of 5] payment_promise_round_trip [OF toy_rep_lib_ok(3) m, of 11]
  show ?thesis by auto
qed

section \<open>The life of an epoch\<close>

text \<open>The leaves of the tree are the hashes of the pending events.\<close>

definition epoch_inv :: "rep_lib \<Rightarrow> ('d, 'c) epoch_system \<Rightarrow> bool" where
  "epoch_inv L s \<longleftrightarrow> mt_events (rs_merkle_tree s) = rs_pending_events s \<and>
     hash_events L (rs_pending_events s) = Inr (mt_leaves (rs_merkle_tree s))"

inductive epoch_step :: "rep_lib \<Rightarrow> 'd dht_ops \<Rightarrow> ('w, 'c) chain_ops \<Rightarrow> ('d, 'c) epoch_system \<Rightarrow> ('d, 'c) epoch_system \<Rightarrow> bool"
  for L D ops where
  "epoch_step L D ops s (snd (epoch_add_event L D ops t1 t2 t3 e s))"
| "epoch_step L D ops s (snd (finalize_current_epoch L D ops t1 t2 s))"
| "epoch_step L D ops s (system_set_auto_anchor b s)"
| "epoch_step L D ops s (set_dht_service s)"
| "epoch_step L D ops s (system_set_contract_address a s)"

text \<open>What the two operations may change, by the result they return.\<close>

lemma on_network_core [simp]:
  "on_network m s = (r, s') \<Longrightarrow> s' = s\<lparr>rs_network := rs_network s'\<rparr>"
  "on_chain n s = (q, s'') \<Longrightarrow> s'' = s\<lparr>rs_chain := rs_chain s''\<rparr>"
  by (auto simp: on_network_def on_chain_def split: prod.splits)

lemma finalize_cases:
  assumes "finalize_current_epoch L D ops now later s = (r, s')"
  obtains (err) e where "r = Inl e" "rs_pending_events s' = rs_pending_events s" "rs_merkle_tree s' = rs_merkle_tree s"
      "rs_epoch_manager s' = rs_epoch_manager s"
    | (ok) tx mroot d ch ep where "r = Inr tx" "rs_pending_events s \<noteq> []" "get_root_hex L (rs_merkle_tree s) = Some mroot"
      "ep = epoch_of (em_current_epoch (rs_epoch_manager s)) mroot now (length (rs_pending_events s)) (rs_key_manager s)"
      "store_merkle_root L D (rs_dht_initialized s) ep (rs_network s) = (Inr (), d)"
      "submit_epoch ops (rs_contract s) ep mock_private_key (rs_chain s) = (Inr tx, ch)"
      "s' = s\<lparr>rs_network := d, rs_chain := ch, rs_merkle_tree := new_merkle_tree, rs_pending_events := [],
              rs_epoch_manager := advance_epoch later (rs_epoch_manager s)\<rparr>"
proof (cases "rs_pending_events s = []")
  case True
  then show ?thesis using assms err by (auto simp: finalize_current_epoch_def)
next
  case pend: False
  show ?thesis
  proof (cases "get_root_hex L (rs_merkle_tree s)")
    case None
    then show ?thesis using assms pend err by (auto simp: finalize_current_epoch_def)
  next
    case (Some mroot)
    define ep where "ep = epoch_of (em_current_epoch (rs_epoch_manager s)) mroot now (length (rs_pending_events s)) (rs_key_manager s)"
    obtain r1 d where st: "store_merkle_root L D (rs_dht_initialized s) ep (rs_network s) = (r1, d)" by fastforce
    obtain r2 ch where su: "submit_epoch ops (rs_contract s) ep mock_private_key (rs_chain s) = (r2, ch)" by fastforce
    have net: "on_network (store_merkle_root L D (rs_dht_initialized s) ep) s = (r1, s\<lparr>rs_network := d\<rparr>)"
      by (simp add: on_network_def st)
    have chn: "on_chain (submit_epoch ops (rs_contract s) ep mock_private_key) (s\<lparr>rs_network := d\<rparr>) = (r2, s\<lparr>rs_network := d, rs_chain := ch\<rparr>)"
      by (simp add: on_chain_def su)
    have f: "finalize_current_epoch L D ops now later s =
      and_then (on_network (store_merkle_root L D (rs_dht_initialized s) ep)) (\<lambda>_.
           and_then (on_chain (submit_epoch ops (rs_contract s) ep mock_private_key)) (\<lambda>tx_hash s1.
             (Ok tx_hash, s1\<lparr>rs_merkle_tree := new_merkle_tree, rs_pending_events := [],
                             rs_epoch_manager := advance_epoch later (rs_epoch_manager s1)\<rparr>))) s"
      using pend Some by (simp add: finalize_current_epoch_def ep_def Let_def)
    show ?thesis
    proof (cases r1)
      case (Inl e)
      with net f assms show ?thesis by (intro err) (auto simp: and_then_Err)
    next
      case r1: (Inr u)
      show ?thesis
      proof (cases r2)
        case (Inl e)
        with r1 net chn f assms show ?thesis by (intro err) (auto simp: and_then_Err and_then_Ok)
      next
        case (Inr tx)
        with r1 net chn f assms have "r = Inr tx" "s' = s\<lparr>rs_network := d, rs_chain := ch, rs_merkle_tree := new_merkle_tree, rs_pending_events := [],
              rs_epoch_manager := advance_epoch later (rs_epoch_manager s)\<rparr>"
          by (simp_all add: and_then_Ok)
        with ok [OF _ pend Some ep_def] st su r1 Inr show ?thesis by simp
      qed
    qed
  qed
qed

lemma finalize_inv: "epoch_inv L s \<Longrightarrow> epoch_inv L (snd (finalize_current_epoch L D ops t1 t2 s))"
  by (cases "finalize_current_epoch L D ops t1 t2 s"; cases rule: finalize_cases [of L D ops t1 t2 s], assumption)
    (auto simp: epoch_inv_def new_merkle_tree_def)

text \<open>What adding an event has done before the epoch may be finalized.\<close>

lemma add_event_prefix:
  assumes "epoch_inv L s" "epoch_add_event L D ops t1 t2 t3 e0 s = (r, s')"
  obtains (unsigned) x where "r = Inl x" "s' = s"
    | (stored) x e hs d where "r = Inl x" "s' = s\<lparr>rs_pending_events := rs_pending_events s @ [e], rs_merkle_tree := \<lparr>mt_events = rs_pending_events s @ [e], mt_leaves = hs\<rparr>, rs_network := d\<rparr>"
      "hash_events L (rs_pending_events s @ [e]) = Inr hs"
    | (added) e hs d s1 where "hash_events L (rs_pending_events s @ [e]) = Inr hs"
      "s1 = s\<lparr>rs_pending_events := rs_pending_events s @ [e], rs_merkle_tree := \<lparr>mt_events = rs_pending_events s @ [e], mt_leaves = hs\<rparr>, rs_network := d\<rparr>"
      "(r, s') = (if should_finalize_epoch t1 (length (rs_pending_events s1)) (rs_epoch_manager s1)
         then and_then (finalize_current_epoch L D ops t2 t3) (\<lambda>tx_hash. ret (Some tx_hash)) s1 else (Ok None, s1))"
proof (cases "sign_reputation_event L (rs_key_manager s) (e0\<lparr>re_epoch := Some (em_current_epoch (rs_epoch_manager s))\<rparr>)")
  case (Inl x)
  then have "epoch_add_event L D ops t1 t2 t3 e0 s = (Inl x, s)" by (simp add: epoch_add_event_def)
  with assms(2) have "r = Inl x" "s' = s" by simp_all
  then show ?thesis by (rule unsigned)
next
  case sg: (Inr e)
  obtain b where b: "rl_json L (event_payload e) = Inr b" using sg by (auto simp: sign_reputation_event_Ok)
  define hs where "hs = mt_leaves (rs_merkle_tree s) @ [sha256 (rl_crypto L) b]"
  have hs: "hash_events L (rs_pending_events s @ [e]) = Inr hs"
    using assms(1) b unfolding hs_def epoch_inv_def by (intro hash_events_snoc) (simp_all add: hash_event_Ok)
  obtain r1 d where st: "store_reputation_event L D (rs_dht_initialized s) e (rs_network s) = (r1, d)" by fastforce
  let ?s0 = "s\<lparr>rs_pending_events := rs_pending_events s @ [e], rs_merkle_tree := \<lparr>mt_events = rs_pending_events s @ [e], mt_leaves = hs\<rparr>\<rparr>"
  have tree: "on_tree (add_event L e) (s\<lparr>rs_pending_events := rs_pending_events s @ [e]\<rparr>) = (Ok (), ?s0)"
    using assms(1) hs by (simp add: on_tree_def add_event_def rebuild_tree_def epoch_inv_def)
  have net: "on_network (store_reputation_event L D (rs_dht_initialized s) e) ?s0 = (r1, ?s0\<lparr>rs_network := d\<rparr>)"
    by (simp add: on_network_def st)
  have run: "epoch_add_event L D ops t1 t2 t3 e0 s = and_then (on_network (store_reputation_event L D (rs_dht_initialized s) e)) (\<lambda>_ s1.
       if should_finalize_epoch t1 (length (rs_pending_events s1)) (rs_epoch_manager s1)
       then and_then (finalize_current_epoch L D ops t2 t3) (\<lambda>tx_hash. ret (Some tx_hash)) s1
       else (Ok None, s1)) ?s0"
    using sg tree by (simp add: epoch_add_event_def and_then_Ok)
  show ?thesis
  proof (cases r1)
    case (Inl x)
    with run net assms(2) have "r = Inl x" "s' = ?s0\<lparr>rs_network := d\<rparr>" by (simp_all add: and_then_Err)
    with hs show ?thesis by (intro stored) simp_all
  next
    case (Inr u)
    with run net assms(2) have "(r, s') = (if should_finalize_epoch t1 (length (rs_pending_events (?s0\<lparr>rs_network := d\<rparr>))) (rs_epoch_manager (?s0\<lparr>rs_network := d\<rparr>))
       then and_then (finalize_current_epoch L D ops t2 t3) (\<lambda>tx_hash. ret (Some tx_hash)) (?s0\<lparr>rs_network := d\<rparr>) else (Ok None, ?s0\<lparr>rs_network := d\<rparr>))"
      by (simp add: and_then_Ok)
    with hs show ?thesis by (intro added [OF hs refl]) simp_all
  qed
qed

lemma snd_and_then_ret [simp]: "snd (and_then m (\<lambda>x. ret (f x)) s) = snd (m s)"
  by (cases "m s"; cases "fst (m s)") (auto simp: and_then_def)

lemma add_event_inv: "epoch_inv L s \<Longrightarrow> epoch_inv L (snd (epoch_add_event L D ops t1 t2 t3 e0 s))"
proof -
  assume inv: "epoch_inv L s"
  obtain r s' where run: "epoch_add_event L D ops t1 t2 t3 e0 s = (r, s')" by fastforce
  from inv run show ?thesis
  proof (cases rule: add_event_prefix)
    case (added e hs d s1)
    have "epoch_inv L s1" using added(1,2) by (simp add: epoch_inv_def)
    from finalize_inv [OF this, of D ops t2 t3] added(3) \<open>epoch_inv L s1\<close> have "epoch_inv L (snd (r, s'))"
      by (simp only: if_split snd_conv snd_and_then_ret) (metis snd_and_then_ret snd_conv)
    with run show ?thesis by simp
  qed (use inv run in \<open>simp_all add: epoch_inv_def\<close>)
qed

interpretation epochs: invariant_machine "epoch_step L D ops" "epoch_inv L"
proof
  fix s t
  assume "epoch_step L D ops s t" "epoch_inv L s"
  then show "epoch_inv L t"
    by (cases rule: epoch_step.cases)
      (simp_all add: add_event_inv finalize_inv, simp_all add: epoch_inv_def system_set_auto_anchor_def set_dht_service_def system_set_contract_address_def)
qed

lemma new_epoch_system_inv: "epoch_inv L (new_epoch_system L key now network duration max_events d ch)"
  by (simp add: epoch_inv_def new_epoch_system_def new_merkle_tree_def)

lemma submit_epoch_Ok:
  assumes "submit_epoch ops c ep pk ch = (Inr tx, ch')"
  obtains wallet address mroot ch1 where "co_wallet ops (strip_0x pk) = Inr wallet" "get_contract ops c = Inr address"
    "hex_decode (strip_0x (ep_merkle_root ep)) = Some mroot"
    "co_submit ops address wallet (rc_chain_id c) (ep_epoch_id ep) mroot (ep_timestamp ep) (ep_event_count ep) ch = (Inr tx, ch1)"
    "co_confirm ops tx ch1 = (Inr (), ch')"
proof -
  from assms obtain w where w: "co_wallet ops (strip_0x pk) = Inr w" by (cases "co_wallet ops (strip_0x pk)") (auto simp: submit_epoch_def)
  from assms w obtain u where p: "get_provider ops c = Inr u" by (cases "get_provider ops c") (auto simp: submit_epoch_def)
  from assms w p obtain a where a: "get_contract ops c = Inr a" by (cases "get_contract ops c") (auto simp: submit_epoch_def)
  let ?dec = "decode_bytes32 ''Invalid merkle root hex: '' ''Merkle root must be 32 bytes'' (strip_0x (ep_merkle_root ep))"
  from assms w p a obtain m where m: "?dec = Inr m" by (cases ?dec) (auto simp: submit_epoch_def)
  have m': "hex_decode (strip_0x (ep_merkle_root ep)) = Some m"
    using m by (auto simp: decode_bytes32_def decode_hex_def rbind_Inr split: if_splits)
  from assms w p a m show ?thesis
    by (auto simp: submit_epoch_def and_then_eq_Ok split: prod.splits intro!: that [OF w a m'])
qed

lemma mock_key_not_hex: "hex_decode (strip_0x mock_private_key) = None"
  by (simp add: mock_private_key_def strip_0x_def strip_prefix_def hex_value_def)

lemma finalize_stuck:
  assumes "co_wallet ops (strip_0x mock_private_key) = Inl x" "finalize_current_epoch L D ops t1 t2 s = (r, s')"
  shows "(\<exists>e. r = Inl e) \<and> rs_pending_events s' = rs_pending_events s \<and> rs_epoch_manager s' = rs_epoch_manager s"
  using assms(2)
proof (cases rule: finalize_cases)
  case (ok tx mroot d ch ep)
  from ok(6) assms(1) show ?thesis by (auto elim: submit_epoch_Ok)
qed auto

lemma step_stuck:
  assumes wallet: "co_wallet ops (strip_0x mock_private_key) = Inl x" and "epoch_step L D ops s t" "epoch_inv L s"
  shows "(\<exists>es. rs_pending_events t = rs_pending_events s @ es) \<and>
    em_current_epoch (rs_epoch_manager t) = em_current_epoch (rs_epoch_manager s)"
  using assms(2)
proof (cases rule: epoch_step.cases)
  case (1 t1 t2 t3 e0)
  obtain r s' where run: "epoch_add_event L D ops t1 t2 t3 e0 s = (r, s')" by fastforce
  from assms(3) run show ?thesis
  proof (cases rule: add_event_prefix)
    case (added e hs d s1)
    have "rs_pending_events s' = rs_pending_events s1 \<and> rs_epoch_manager s' = rs_epoch_manager s1"
    proof (cases "should_finalize_epoch t1 (length (rs_pending_events s1)) (rs_epoch_manager s1)")
      case True
      then have "s' = snd (finalize_current_epoch L D ops t2 t3 s1)" using added(3) by (metis snd_and_then_ret snd_conv)
      then show ?thesis using finalize_stuck [OF wallet, of L D t2 t3 s1] by (cases "finalize_current_epoch L D ops t2 t3 s1") auto
    qed (use added(3) in simp)
    with added(2) 1 run show ?thesis by simp
  qed (use 1 run in simp_all)
next
  case (2 t1 t2)
  then show ?thesis using finalize_stuck [OF wallet, of L D t1 t2 s] by (cases "finalize_current_epoch L D ops t1 t2 s") auto
qed (simp_all add: system_set_auto_anchor_def set_auto_anchor_def set_dht_service_def system_set_contract_address_def)

lemma run_stuck:
  assumes wallet: "co_wallet ops (strip_0x mock_private_key) = Inl x" and "(epoch_step L D ops)\<^sup>*\<^sup>* s t" "epoch_inv L s"
  shows "(\<exists>es. rs_pending_events t = rs_pending_events s @ es) \<and>
    em_current_epoch (rs_epoch_manager t) = em_current_epoch (rs_epoch_manager s)"
  using assms(2)
proof (induction rule: rtranclp_induct)
  case (step t u)
  have "epoch_inv L t" by (rule epochs.run_inv [OF step.hyps(1) assms(3)])
  from step_stuck [OF wallet step.hyps(2) this] step.IH show ?case by auto
qed simp

text \<open>
  C24: No epoch is ever finalized: the private key is the text \<open>mock_private_key\<close>, which is no
  hexadecimal number, so every submission fails. Whatever operations run, the epoch stays 0 and no event
  leaves the list of pending events, which only grows.
\<close>

theorem no_epoch_finalized:
  assumes "\<And>k. hex_decode k = None \<Longrightarrow> \<exists>e. co_wallet ops k = Err e"
    and "(epoch_step L D ops)\<^sup>*\<^sup>* (new_epoch_system L key t0 network duration max_events d0 ch0) s" "(epoch_step L D ops)\<^sup>*\<^sup>* s t"
  shows "(\<exists>es. rs_pending_events t = rs_pending_events s @ es) \<and> em_current_epoch (rs_epoch_manager t) = 0 \<and>
    (\<exists>e. fst (finalize_current_epoch L D ops now later t) = Err e)"
proof -
  from assms(1) [OF mock_key_not_hex] obtain x where wallet: "co_wallet ops (strip_0x mock_private_key) = Inl x" by blast
  have inv: "epoch_inv L s" using epochs.run_inv [OF assms(2) new_epoch_system_inv] .
  have "em_current_epoch (rs_epoch_manager s) = 0"
    using run_stuck [OF wallet assms(2) new_epoch_system_inv] by (simp add: new_epoch_system_def new_epoch_manager_def)
  with run_stuck [OF wallet assms(3) inv] finalize_stuck [OF wallet, of L D now later t] show ?thesis
    by (cases "finalize_current_epoch L D ops now later t") auto
qed

text \<open>A DHT that accepts everything and remembers nothing, and a chain that accepts wallets from hexadecimal keys.\<close>

definition deaf_dht :: "unit dht_ops" where
  "deaf_dht = \<lparr>dh_publish_file = (\<lambda>m d. (Ok (), d)), dh_search_metadata = (\<lambda>k t d. (Ok None, d)), dh_get_value = (\<lambda>k d. (Ok None, d))\<rparr>"

definition toy_chain :: "(string \<Rightarrow> bool) \<Rightarrow> (string, nat) chain_ops" where
  "toy_chain accepts = \<lparr>co_wallet = (\<lambda>k. if accepts k then Ok k else Err ''key''), co_provider = (\<lambda>u. Ok ()), co_address = (\<lambda>a. Ok a),
     co_submit = (\<lambda>a w n i r t c ch. (Ok ''tx'', Suc ch)), co_confirm = (\<lambda>tx ch. (Ok (), ch)),
     co_get_epoch = (\<lambda>a i ch. Err ''not found''), co_verify_proof = (\<lambda>a h p i ch. Ok True)\<rparr>"

theorem no_epoch_finalized_witness:
  "\<exists>e. fst (finalize_current_epoch toy_rep_lib deaf_dht (toy_chain (\<lambda>k. hex_decode k \<noteq> None)) 1 2
       (snd (epoch_add_event toy_rep_lib deaf_dht (toy_chain (\<lambda>k. hex_decode k \<noteq> None)) 0 0 0 (toy_event ''a'')
         (new_epoch_system toy_rep_lib ''k'' 0 1 60 5 () 0)))) = Err e"
proof -
  let ?ops = "toy_chain (\<lambda>k. hex_decode k \<noteq> None)" and ?s = "new_epoch_system toy_rep_lib ''k'' 0 1 60 5 () 0"
  have "epoch_step toy_rep_lib deaf_dht ?ops ?s (snd (epoch_add_event toy_rep_lib deaf_dht ?ops 0 0 0 (toy_event ''a'') ?s))"
    by (rule epoch_step.intros(1))
  then have "(epoch_step toy_rep_lib deaf_dht ?ops)\<^sup>*\<^sup>* ?s (snd (epoch_add_event toy_rep_lib deaf_dht ?ops 0 0 0 (toy_event ''a'') ?s))"
    by (rule r_into_rtranclp)
  from no_epoch_finalized [OF _ rtranclp.rtrancl_refl this] show ?thesis by (fastforce simp: toy_chain_def)
qed

text \<open>
  A clock that steps back by less than the length of \<open>u64\<close> minus the epoch ends the epoch at once: the elapsed time
  wraps around to a huge number, and the time until the next epoch is reported as 0.
\<close>

theorem clock_step_back_finalizes:
  assumes "em_auto_anchor_enabled m" "now < em_last_epoch_time m" "em_last_epoch_time m < 2 ^ 64"
    and "em_epoch_duration_seconds m + (em_last_epoch_time m - now) \<le> 2 ^ 64"
  shows "should_finalize_epoch now n m \<and> get_time_until_next_epoch now m = 0"
  using assms by (simp add: should_finalize_epoch_def get_time_until_next_epoch_def wsub64_def Let_def)

theorem clock_step_back_finalizes_witness:
  "should_finalize_epoch 999 1 (new_epoch_manager 1000 3600 100) \<and> get_time_until_next_epoch 999 (new_epoch_manager 1000 3600 100) = 0"
  using clock_step_back_finalizes [of "new_epoch_manager 1000 3600 100" 999 1] by (simp add: new_epoch_manager_def)

section \<open>Reputation data in the network\<close>

text \<open>A DHT that answers a search by what was published under exactly that key.\<close>

definition search_by_key :: "'d dht_ops \<Rightarrow> bool" where
  "search_by_key D \<longleftrightarrow> (\<forall>m k t d r d'. dh_publish_file D m d = (r, d') \<longrightarrow> k \<noteq> md_merkle_root m \<longrightarrow>
     fst (dh_search_metadata D k t d') = fst (dh_search_metadata D k t d))"

text \<open>
  A stored event is not found again: it is published under \<open>reputation:PEER:ID\<close> but searched
  for under \<open>reputation:PEER\<close>. For peer identifiers without a colon, storing an event changes the result
  of no retrieval.
\<close>

theorem stored_event_not_found:
  assumes "search_by_key D" "CHR '':'' \<notin> set peer"
    and "store_reputation_event L D b e d = (r, d')"
  shows "fst (retrieve_reputation_events L D b' peer d') = fst (retrieve_reputation_events L D b' peer d)"
proof -
  have key: "''reputation:'' @ peer \<noteq> event_key e" using assms(2) by (auto simp: event_key_def)
  have "fst (dh_search_metadata D (''reputation:'' @ peer) 5000 d') = fst (dh_search_metadata D (''reputation:'' @ peer) 5000 d)"
  proof (cases "b \<and> (\<exists>s. rl_json L (WholeEvent e) = Inr s)")
    case True
    then obtain s where "dh_publish_file D (event_metadata e s) d = (r, d')"
      using assms(3) by (auto simp: store_reputation_event_def with_dht_def)
    then show ?thesis using assms(1) key unfolding search_by_key_def by (simp add: event_metadata_def)
  next
    case False
    then have "d' = d" using assms(3)
      by (cases "rl_json L (WholeEvent e)") (auto simp: store_reputation_event_def with_dht_def split: if_splits)
    then show ?thesis by simp
  qed
  then show ?thesis
    by (auto simp: retrieve_reputation_events_def with_dht_def split: prod.splits sum.splits option.splits)
qed

definition toy_dht :: "(string \<rightharpoonup> file_metadata) dht_ops" where
  "toy_dht = \<lparr>dh_publish_file = (\<lambda>m d. (Ok (), d(md_merkle_root m \<mapsto> m))), dh_search_metadata = (\<lambda>k t d. (Ok (d k), d)),
     dh_get_value = (\<lambda>k d. (Ok None, d))\<rparr>"

lemma toy_dht_by_key: "search_by_key toy_dht"
  by (simp add: search_by_key_def toy_dht_def)

theorem stored_event_not_found_witness:
  "fst (retrieve_reputation_events toy_rep_lib toy_dht True ''p''
     (snd (store_reputation_event toy_rep_lib toy_dht True (toy_event ''a'') Map.empty))) = Ok []"
proof -
  obtain r d' where st: "store_reputation_event toy_rep_lib toy_dht True (toy_event ''a'') Map.empty = (r, d')" by fastforce
  have "fst (retrieve_reputation_events toy_rep_lib toy_dht True ''p'' Map.empty) = Ok []"
    by (simp add: retrieve_reputation_events_def with_dht_def toy_dht_def)
  with stored_event_not_found [OF toy_dht_by_key _ st, of "''p''" True] st show ?thesis by simp
qed

text \<open>
  The key of a verdict is ambiguous: the separator may occur in the identifiers, so verdicts of different issuers
  about different targets share a key, and the later overwrites the earlier.
\<close>

theorem verdict_keys_clash:
  "dht_key_for_verdict L (a @ ''||'' @ b) c = dht_key_for_verdict L a (b @ ''||'' @ c)"
  by (simp add: dht_key_for_verdict_def)

section \<open>Scores\<close>

lemma newest_first_preorder: "preorder_on_set (\<lambda>a b. re_timestamp b \<le> re_timestamp a) A"
  by (auto simp: preorder_on_set_def)

lemma counted_events_sorted: "sorted_wrt (\<lambda>a b. re_timestamp b \<le> re_timestamp a) (counted_events cfg peer events)"
  unfolding counted_events_def by (intro sorted_wrt_take sort_by_sorted newest_first_preorder)

lemma counted_events_newest:
  assumes "e \<in> set events" "re_peer_id e = peer" "e \<notin> set (counted_events cfg peer events)" "c \<in> set (counted_events cfg peer events)"
  shows "re_timestamp e \<le> re_timestamp c"
proof -
  let ?s = "sort_by (\<lambda>a b. re_timestamp b \<le> re_timestamp a) (filter (\<lambda>e. re_peer_id e = peer) events)"
  have "e \<in> set ?s" using assms(1,2) by simp
  then have "e \<in> set (drop (sc_max_events cfg) ?s)"
    using assms(3) unfolding counted_events_def by (metis Un_iff append_take_drop_id set_append)
  from sorted_take_le [OF sort_by_sorted [OF newest_first_preorder] _ this] assms(4) show ?thesis
    unfolding counted_events_def by blast
qed

lemma length_counted: "length (counted_events cfg peer events) = min (length (filter (\<lambda>e. re_peer_id e = peer) events)) (sc_max_events cfg)"
  by (simp add: counted_events_def)

lemma f64_clamp_between:
  assumes "a \<le> b"
  obtains y where "f64_clamp x (F_Fin a) (F_Fin b) = Some y" "x \<noteq> F_NaN \<Longrightarrow> f64_in a b y" "x = F_NaN \<Longrightarrow> y = F_NaN"
  using assms by (cases x) (auto simp: f64_clamp_def f64_le_def not_less)

lemma f64_add_not_NaN: "f64_add (F_Fin a) (f64_of_rat b) \<noteq> F_NaN"
  by (simp add: f64_of_rat_def Let_def)

lemma f64_of_rat_not_NaN [simp]: "f64_of_rat q \<noteq> F_NaN"
  by (simp add: f64_of_rat_def Let_def)

text \<open>
  A score is computed from the newest events about the peer, at most \<open>max_events\<close> of them, and events about other
  peers do not matter. It lies between the configured bounds, without panic, as long as the sums of
  positive and negative impacts are finite.
\<close>

theorem score_sound:
  assumes "sc_min_score cfg = F_Fin lo" "sc_max_score cfg = F_Fin hi" "f64_in lo hi (sc_base_score cfg)"
    and tanh: "\<And>x. x \<noteq> F_NaN \<Longrightarrow> f64_in (- 1) 1 (fm_tanh M x)"
  shows "\<exists>r. calc_score_at M cfg peer events now = Some r \<and>
    calc_score_at M cfg peer (filter (\<lambda>e. re_peer_id e = peer) events) now = Some r \<and>
    sr_event_cnt r = min (length (filter (\<lambda>e. re_peer_id e = peer) events)) (sc_max_events cfg) \<and>
    (f64_is_finite (sr_pos_sum r) \<and> f64_is_finite (sr_neg_sum r) \<longrightarrow> f64_in lo hi (sr_score r)) \<and>
    (\<forall>e \<in> set events. re_peer_id e = peer \<longrightarrow> e \<in> set (counted_events cfg peer events) \<or>
       (\<forall>c \<in> set (counted_events cfg peer events). re_timestamp e \<le> re_timestamp c))"
proof -
  let ?es = "counted_events cfg peer events"
  have loc: "calc_score_at M cfg peer (filter (\<lambda>e. re_peer_id e = peer) events) now = calc_score_at M cfg peer events now"
    by (simp add: calc_score_at_def counted_events_def)
  have newest: "\<forall>e \<in> set events. re_peer_id e = peer \<longrightarrow> e \<in> set ?es \<or> (\<forall>c \<in> set ?es. re_timestamp e \<le> re_timestamp c)"
    using counted_events_newest by blast
  have le: "lo \<le> hi" using assms(3) by (auto simp: f64_in_iff)
  show ?thesis
  proof (cases "?es = []")
    case True
    then have "min (length (filter (\<lambda>e. re_peer_id e = peer) events)) (sc_max_events cfg) = 0" using length_counted by (metis list.size(3))
    with True loc newest assms(3) show ?thesis by (simp add: calc_score_at_def)
  next
    case False
    obtain pos neg dec where f: "foldl (score_step M cfg now) (F_Fin 0, F_Fin 0, F_Fin 0) ?es = (pos, neg, dec)" by (metis prod_cases3)
    define x where "x = f64_add (sc_base_score cfg) (f64_mul (fm_tanh M (f64_div (f64_sub pos neg) (F_Fin 100))) (F_Fin (1 / 2)))"
    obtain y where y: "f64_clamp x (F_Fin lo) (F_Fin hi) = Some y" "x \<noteq> F_NaN \<Longrightarrow> f64_in lo hi y" using f64_clamp_between [OF le] by metis
    have x: "x \<noteq> F_NaN" if "f64_is_finite pos" "f64_is_finite neg"
    proof -
      have "f64_sub pos neg \<noteq> F_NaN" using that by (cases pos; cases neg) (auto simp: f64_sub_def)
      then have "f64_div (f64_sub pos neg) (F_Fin 100) \<noteq> F_NaN" by (cases "f64_sub pos neg") auto
      from tanh [OF this] assms(3) show ?thesis by (auto simp: x_def f64_in_iff f64_add_not_NaN)
    qed
    from False y f assms(1,2) obtain r where "calc_score_at M cfg peer events now = Some r" "sr_event_cnt r = length ?es"
      "sr_score r = y" "sr_pos_sum r = pos" "sr_neg_sum r = neg"
      by (simp add: calc_score_at_def x_def Let_def)
    with loc newest x y(2) show ?thesis by (simp add: length_counted)
  qed
qed

definition toy_math :: f64_math where
  "toy_math = \<lparr>fm_exp = (\<lambda>x. F_Fin 0), fm_tanh = (\<lambda>x. F_Fin 0)\<rparr>"

theorem score_sound_witness:
  "\<exists>r. calc_score_at toy_math default_rep_score_cfg ''p'' [toy_event ''a'', toy_event ''b''] 5 = Some r \<and> sr_event_cnt r = 2"
  using score_sound [of default_rep_score_cfg 0 1 toy_math "''p''" "[toy_event ''a'', toy_event ''b'']" 5]
  by (auto simp: default_rep_score_cfg_def toy_math_def toy_event_def new_reputation_event_def)

lemma bytes_le_total: "bytes_le a b \<or> bytes_le b a"
proof (induction a b rule: bytes_le.induct)
  case (3 a as b bs)
  have "a = b" if "(of_char a :: nat) = of_char b" using that by simp
  with 3 show ?case by (auto simp: not_less_iff_gr_or_eq)
qed auto

lemma bytes_le_trans: "bytes_le a b \<Longrightarrow> bytes_le b c \<Longrightarrow> bytes_le a c"
proof (induction a b arbitrary: c rule: bytes_le.induct)
  case (3 a as b bs)
  then show ?case by (cases c) auto
qed auto

lemma bytes_le_antisym: "bytes_le a b \<Longrightarrow> bytes_le b a \<Longrightarrow> a = b"
proof (induction a b rule: bytes_le.induct)
  case (1 b)
  then show ?case by (cases b) auto
qed auto

lemma sorted_wrt_remdups_adj: "sorted_wrt P xs \<Longrightarrow> sorted_wrt P (remdups_adj xs)"
  by (induction xs rule: remdups_adj.induct) auto

lemma sorted_remdups_adj_distinct:
  "sorted_wrt bytes_le xs \<Longrightarrow> distinct (remdups_adj xs)"
proof (induction xs rule: remdups_adj.induct)
  case (3 x y xs)
  have "x \<notin> set (y # xs)" if "x \<noteq> y"
  proof
    assume "x \<in> set (y # xs)"
    then have "bytes_le y x" using 3(3) that by auto
    with 3(3) that show False using bytes_le_antisym by auto
  qed
  with 3 show ?case by auto
qed auto

lemma collect_scores_iff:
  "collect_scores f ps m = Some m' \<longleftrightarrow> (\<forall>p \<in> set ps. f p \<noteq> None) \<and> m' = (\<lambda>p. if p \<in> set ps then f p else m p)"
proof (induction ps arbitrary: m)
  case (Cons p ps)
  show ?case
  proof (cases "f p")
    case (Some r)
    have "(\<lambda>q. if q \<in> set ps then f q else (m(p \<mapsto> r)) q) = (\<lambda>q. if q \<in> set (p # ps) then f q else m q)"
      by (rule ext) (simp add: Some)
    with Cons Some show ?thesis by simp
  qed auto
qed auto

text \<open>
  Scoring all peers gives a score to exactly the peers some event is about, each computed from all
  events, and the peers are visited in the order of their identifiers, each once.
\<close>

theorem calc_all_covers:
  "distinct (extract_peer_ids events) \<and> sorted_wrt bytes_le (extract_peer_ids events) \<and>
   set (extract_peer_ids events) = re_peer_id ` set events \<and>
   (calc_all M cfg now events = Some m \<longleftrightarrow>
      (\<forall>p \<in> re_peer_id ` set events. calc_score_at M cfg p events now \<noteq> None) \<and>
      m = (\<lambda>p. if p \<in> re_peer_id ` set events then calc_score_at M cfg p events now else None))"
proof -
  have srt: "sorted_wrt bytes_le (sort_by bytes_le (map re_peer_id events))"
    by (rule sort_by_sorted) (use bytes_le_total bytes_le_trans in \<open>auto simp: preorder_on_set_def\<close>)
  have "sorted_wrt bytes_le (extract_peer_ids events)"
    unfolding extract_peer_ids_def using srt by (rule sorted_wrt_remdups_adj)
  moreover have set: "set (extract_peer_ids events) = re_peer_id ` set events" by (simp add: extract_peer_ids_def)
  moreover have "distinct (extract_peer_ids events)" unfolding extract_peer_ids_def by (rule sorted_remdups_adj_distinct [OF srt])
  ultimately show ?thesis by (simp add: calc_all_def calc_batch_def collect_scores_iff)
qed

lemma add_without_dht:
  assumes "epoch_inv L s" "\<not> rs_dht_initialized s"
  shows "\<exists>x. fst (epoch_add_event L D ops t1 t2 t3 e0 s) = Inl x"
proof (cases "sign_reputation_event L (rs_key_manager s) (e0\<lparr>re_epoch := Some (em_current_epoch (rs_epoch_manager s))\<rparr>)")
  case (Inr e)
  have "fst (on_network (store_reputation_event L D False e) s1) = Inl no_dht" for s1 :: "('a, 'b) epoch_system"
    by (simp add: on_network_def store_reputation_event_def with_dht_def)
  then show ?thesis using assms(2) Inr
    by (auto simp: epoch_add_event_def and_then_def split: prod.splits sum.splits) (metis Inl_not_Inr fst_conv)+
qed (simp add: epoch_add_event_def)

lemma add_test_failed:
  "1 \<le> ts_failed r \<Longrightarrow> ts_failed r \<le> n \<Longrightarrow> n < 100 \<Longrightarrow>
     1 \<le> ts_failed (add_test name b msg r) \<and> ts_failed (add_test name b msg r) \<le> Suc n"
  by (simp add: add_test_def Let_def wadd64_no_overflow)

text \<open>
  The built-in integration test never succeeds: its system has no DHT service, so no event can be added.
\<close>

theorem integration_test_fails: "\<not> is_success (run_integration_test L D ops t key d ch cache)"
proof -
  have "\<not> rs_dht_initialized (new_epoch_system L key (t 0) 98765 60 5 d ch)" by (simp add: new_epoch_system_def)
  from add_without_dht [OF new_epoch_system_inv this]
  have add: "\<not> is_ok (fst (epoch_add_event L D ops t1 t2 t3 e (new_epoch_system L key (t 0) 98765 60 5 d ch)))" for t1 t2 t3 e
    by (metis is_ok_simps(2))
  let ?r2 = "add_test ''Add Events'' False ''Events added successfully''
    (add_test ''System Creation'' True ''ReputationSystemWithEpochs created successfully'' new_test_results)"
  have f: "ts_failed ?r2 = 1" by (simp add: add_test_def new_test_results_def Let_def wadd64_def)
  have "1 \<le> ts_failed (add_test n4 b4 m4 (add_test n3 b3 m3 (add_test n2 b2 m2 (add_test n1 b1 m1 ?r2))))" for n1 b1 m1 n2 b2 m2 n3 b3 m3 n4 b4 m4
    using add_test_failed [of _ 4 n4 b4 m4] add_test_failed [of _ 3 n3 b3 m3] add_test_failed [of _ 2 n2 b2 m2] add_test_failed [of ?r2 1 n1 b1 m1] f
    by simp
  then show ?thesis
    by (simp add: run_integration_test_def Let_def add is_success_def split_beta Suc_le_eq)
qed

end
