(* ===== verification/ChunkNetwork.thy ===== *)
theory ChunkNetwork
  imports ChunkManager DhtModels Actions Interfaces "HOL-Library.AList"
begin

text \<open>
  Chunk downloads over the network: \<^verbatim>\<open>src-tauri/src/p2p_chunk_network.rs\<close>. The state of a download and
  its file next to the temporary file, the verification of chunks and of the Merkle root, the service
  that recovers interrupted downloads, the hooks the multi-source download calls, the search for
  damaged chunks, and the coordinator that spreads chunks over peers.

  Parameters (record \<open>chunk_net_lib\<close>): SHA-256, the root \<open>rs_merkle\<close> computes, the JSON of a state and of a manifest. The listing
  of a directory, the seeders the DHT knows and random numbers are arguments, as are clock readings.

  Shown: what the coordinator assigns is bounded per peer, goes to known peers that were not banned, and no
  chunk is assigned twice, in every state its operations can reach; verification marks exactly the
  chunks with the right content; the state file is replaced atomically and read back. Defects are
  theorems: a verified chunk that arrives again is counted twice, a chunk found damaged stays in the
  byte counter, a recovery that fails is active for ever, and a download whose hashes do not match its
  root is reported complete.
\<close>

section \<open>Data\<close>

definition NET_CHUNK_SIZE :: u64 where "NET_CHUNK_SIZE = 256 * 1024"
definition META_EXT :: string where "META_EXT = ''.chiral.chunk.meta.json''"

datatype chunk_net_err =
    CnNotFound
  | CnIoErr io_error
  | CnHashMismatch u32 string string
  | CnMerkleInvalid
  | CnNoProviders
  | CnManifestMissing
  | CnParseErr string

fun show_chunk_net_err :: "(io_error \<Rightarrow> string) \<Rightarrow> chunk_net_err \<Rightarrow> string" where
  "show_chunk_net_err io CnNotFound = ''not found''"
| "show_chunk_net_err io (CnIoErr e) = ''io error: '' @ io e"
| "show_chunk_net_err io (CnHashMismatch i e g) = ''chunk '' @ show_nat i @ '' hash mismatch: '' @ e @ '' != '' @ g"
| "show_chunk_net_err io CnMerkleInvalid = ''merkle root invalid''"
| "show_chunk_net_err io CnNoProviders = ''no providers found''"
| "show_chunk_net_err io CnManifestMissing = ''manifest missing''"
| "show_chunk_net_err io (CnParseErr e) = ''parse error: '' @ e"

datatype net_chunk_state = NPending | NDownloaded | NVerified | NFailed

record net_chunk_meta =
  cmt_idx :: u32
  cmt_offset :: u64
  cmt_size :: u32
  cmt_hash :: string
  cmt_state :: net_chunk_state

definition new_chunk_meta :: "u32 \<Rightarrow> u64 \<Rightarrow> u32 \<Rightarrow> string \<Rightarrow> net_chunk_meta" where
  "new_chunk_meta idx offset sz hash = \<lparr>cmt_idx = idx, cmt_offset = offset, cmt_size = sz, cmt_hash = hash, cmt_state = NPending\<rparr>"

definition net_offset_for :: "u32 \<Rightarrow> u64" where
  "net_offset_for idx = wmul64 idx NET_CHUNK_SIZE"

definition net_size_for :: "u32 \<Rightarrow> u64 \<Rightarrow> u32" where
  "net_size_for idx file_size = min (sat_sub file_size (net_offset_for idx)) NET_CHUNK_SIZE mod 2 ^ 32"

record net_state =
  ns_version :: u32
  ns_merkle_root :: string
  ns_file_name :: string
  ns_file_size :: u64
  ns_tmp_path :: string
  ns_dst_path :: string
  ns_chunks :: "net_chunk_meta list"
  ns_verified_bytes :: u64
  ns_providers :: "string list"
  ns_manifest_json :: "string option"
  ns_encrypted :: bool
  ns_updated_at :: u64

record chunk_net_lib =
  nl_sha256 :: "bytes \<Rightarrow> bytes"
  nl_merkle_root :: "bytes list \<Rightarrow> bytes option"
  nl_to_json :: "net_state \<Rightarrow> bytes option"
  nl_from_json :: "bytes \<Rightarrow> net_state option"
  nl_manifest_to_json :: "file_manifest \<Rightarrow> string option"
  nl_manifest_from_json :: "string \<Rightarrow> file_manifest option"

definition new_net_state :: "u64 \<Rightarrow> string \<Rightarrow> string \<Rightarrow> u64 \<Rightarrow> string \<Rightarrow> string \<Rightarrow> net_state" where
  "new_net_state now merkle_root fname file_size tmp_path dst_path =
     \<lparr>ns_version = 1, ns_merkle_root = merkle_root, ns_file_name = fname, ns_file_size = file_size, ns_tmp_path = tmp_path,
      ns_dst_path = dst_path, ns_chunks = [], ns_verified_bytes = 0, ns_providers = [], ns_manifest_json = None,
      ns_encrypted = False, ns_updated_at = now\<rparr>"

definition init_from_manifest :: "chunk_net_lib \<Rightarrow> file_manifest \<Rightarrow> net_state \<Rightarrow> net_state" where
  "init_from_manifest L m s = s\<lparr>ns_chunks := map (\<lambda>c. new_chunk_meta (ci_index c) (net_offset_for (ci_index c)) (ci_size c mod 2 ^ 32) (ci_hash c)) (fm_chunks m),
     ns_manifest_json := nl_manifest_to_json L m\<rparr>"

definition net_chunk_count :: "u64 \<Rightarrow> u32" where
  "net_chunk_count file_size = (wsub64 (wadd64 file_size NET_CHUNK_SIZE) 1 div NET_CHUNK_SIZE) mod 2 ^ 32"

definition net_init_chunks :: "net_state \<Rightarrow> net_state" where
  "net_init_chunks s = s\<lparr>ns_chunks :=
     (if ns_file_size s = 0 then []
      else map (\<lambda>idx. new_chunk_meta idx (net_offset_for idx) (net_size_for idx (ns_file_size s)) []) [0 ..< net_chunk_count (ns_file_size s)])\<rparr>"

section \<open>Marking chunks\<close>

definition net_set_chunk :: "u32 \<Rightarrow> net_chunk_state \<Rightarrow> net_state \<Rightarrow> net_state" where
  "net_set_chunk idx st s = s\<lparr>ns_chunks := (ns_chunks s)[idx := (ns_chunks s ! idx)\<lparr>cmt_state := st\<rparr>]\<rparr>"

definition net_mark_downloaded :: "u64 \<Rightarrow> u32 \<Rightarrow> net_state \<Rightarrow> net_state" where
  "net_mark_downloaded now idx s =
     (if idx < length (ns_chunks s) then (net_set_chunk idx NDownloaded s)\<lparr>ns_updated_at := now\<rparr> else s)"

definition net_mark_verified :: "u64 \<Rightarrow> u32 \<Rightarrow> net_state \<Rightarrow> net_state" where
  "net_mark_verified now idx s =
     (if idx < length (ns_chunks s) \<and> cmt_state (ns_chunks s ! idx) = NDownloaded
      then (net_set_chunk idx NVerified s)\<lparr>ns_verified_bytes := wadd64 (ns_verified_bytes s) (cmt_size (ns_chunks s ! idx)), ns_updated_at := now\<rparr>
      else s)"

definition net_mark_failed :: "u64 \<Rightarrow> u32 \<Rightarrow> net_state \<Rightarrow> net_state" where
  "net_mark_failed now idx s =
     (if idx < length (ns_chunks s)
      then (net_set_chunk idx NFailed s)\<lparr>ns_verified_bytes :=
              (if cmt_state (ns_chunks s ! idx) = NVerified then sat_sub (ns_verified_bytes s) (cmt_size (ns_chunks s ! idx)) else ns_verified_bytes s),
              ns_updated_at := now\<rparr>
      else s)"

definition net_wanted :: "net_chunk_meta \<Rightarrow> bool" where
  "net_wanted c = (cmt_state c = NPending \<or> cmt_state c = NFailed)"

definition net_pending_chunks :: "net_state \<Rightarrow> u32 list" where
  "net_pending_chunks s = map cmt_idx (filter net_wanted (ns_chunks s))"

definition net_is_complete :: "net_state \<Rightarrow> bool" where
  "net_is_complete s = (ns_chunks s = [] \<or> list_all (\<lambda>c. cmt_state c = NVerified) (ns_chunks s))"

definition net_progress :: "net_state \<Rightarrow> f32" where
  "net_progress s = (if ns_file_size s = 0 then F_Fin 1 else f32_div (f32_of_u64 (ns_verified_bytes s)) (f32_of_u64 (ns_file_size s)))"

definition add_provider :: "u64 \<Rightarrow> string \<Rightarrow> net_state \<Rightarrow> net_state" where
  "add_provider now peer s =
     (if peer \<in> set (ns_providers s) then s else s\<lparr>ns_providers := ns_providers s @ [peer], ns_updated_at := now\<rparr>)"

section \<open>Hashes\<close>

fun decode_leaves :: "string list \<Rightarrow> (chunk_net_err, bytes list) result" where
  "decode_leaves [] = Ok []"
| "decode_leaves (h # hs) =
     (case hex_decode h of
        None \<Rightarrow> Err (CnParseErr ''hex'')
      | Some b \<Rightarrow> if length b \<noteq> 32 then Err (CnParseErr ''invalid hash len'')
                  else rbind (decode_leaves hs) (\<lambda>bs. Ok (b # bs)))"

definition compute_merkle_root :: "chunk_net_lib \<Rightarrow> string list \<Rightarrow> (chunk_net_err, string) result" where
  "compute_merkle_root L chunk_hashes =
     (if chunk_hashes = [] then Err CnManifestMissing
      else rbind (decode_leaves chunk_hashes) (\<lambda>leaves.
           rbind (ok_or CnMerkleInvalid (nl_merkle_root L leaves)) (\<lambda>r. Ok (hex_encode r))))"

definition verify_merkle_root :: "chunk_net_lib \<Rightarrow> string \<Rightarrow> string list \<Rightarrow> (chunk_net_err, bool) result" where
  "verify_merkle_root L merkle_root chunk_hashes = rbind (compute_merkle_root L chunk_hashes) (\<lambda>computed. Ok (computed = merkle_root))"

definition hash_chunk :: "chunk_net_lib \<Rightarrow> bytes \<Rightarrow> string" where
  "hash_chunk L b = hex_encode (nl_sha256 L b)"

definition verify_chunk_hash :: "chunk_net_lib \<Rightarrow> bytes \<Rightarrow> string \<Rightarrow> bool" where
  "verify_chunk_hash L b expected = (hash_chunk L b = expected)"

section \<open>The state file\<close>

definition net_meta_path :: "path \<Rightarrow> path" where
  "net_meta_path tmp = with_file_name tmp ((case file_name tmp of Some n \<Rightarrow> n | None \<Rightarrow> ''download'') @ META_EXT)"

definition net_persist :: "io_env \<Rightarrow> chunk_net_lib \<Rightarrow> net_state \<Rightarrow> (disk, chunk_net_err, unit) act" where
  "net_persist env L s d =
     (let p = net_meta_path (path_of_string (ns_tmp_path s));
          tmp_meta = with_extension p ''tmp''
      in case nl_to_json L s of
           None \<Rightarrow> (Err (CnParseErr ''json''), d)
         | Some json \<Rightarrow> (case write_rename env tmp_meta p json d of (r, d') \<Rightarrow> (map_err CnIoErr r, d')))"

text \<open>\<open>read_to_string\<close> rejects a file that is not UTF-8.\<close>

definition net_load :: "io_env \<Rightarrow> chunk_net_lib \<Rightarrow> path \<Rightarrow> disk \<Rightarrow> (chunk_net_err, net_state) result" where
  "net_load env L tmp d =
     (let p = net_meta_path tmp
      in rbind (map_err CnIoErr (fs_read env p d)) (\<lambda>json.
           if \<not> utf8_valid json then Err (CnIoErr (OtherIo (IoRead p)))
           else ok_or (CnParseErr ''json'') (nl_from_json L json)))"

definition net_remove_meta :: "io_env \<Rightarrow> path \<Rightarrow> disk \<Rightarrow> disk" where
  "net_remove_meta env tmp d = snd (fs_remove env (net_meta_path tmp) d)"

text \<open>\<open>trim_end_matches\<close> and \<open>trim_start_matches\<close> with a string drop it as often as it occurs; the number of bytes bounds how often.\<close>

primrec trim_end_str :: "nat \<Rightarrow> string \<Rightarrow> string \<Rightarrow> string" where
  "trim_end_str 0 pat s = s"
| "trim_end_str (Suc n) pat s = (if ends_with pat s then trim_end_str n pat (take (length s - length pat) s) else s)"

primrec trim_start_str :: "nat \<Rightarrow> string \<Rightarrow> string \<Rightarrow> string" where
  "trim_start_str 0 pat s = s"
| "trim_start_str (Suc n) pat s = (if starts_with pat s then trim_start_str n pat (drop (length pat) s) else s)"

definition is_meta_entry :: "path \<Rightarrow> string \<Rightarrow> bool" where
  "is_meta_entry dir name = (file_extension name = Some ''json'' \<and>
     str_contains ''.chiral.chunk.meta'' (path_to_string (dir @ [name])))"

definition net_scan_entry :: "io_env \<Rightarrow> chunk_net_lib \<Rightarrow> path \<Rightarrow> disk \<Rightarrow> net_state list \<Rightarrow> string \<Rightarrow> net_state list" where
  "net_scan_entry env L dir d acc name =
     (if is_meta_entry dir name
      then case net_load env L (path_join dir (trim_end_str (length name) META_EXT name)) d of
             Inr s \<Rightarrow> if \<not> net_is_complete s then acc @ [s] else acc
           | Inl _ \<Rightarrow> acc
      else acc)"

text \<open>\<open>entries\<close> are the names read from the directory, up to the first error; \<open>None\<close> when it cannot be opened.\<close>

definition net_scan_incomplete :: "io_env \<Rightarrow> chunk_net_lib \<Rightarrow> path \<Rightarrow> string list option \<Rightarrow> disk \<Rightarrow> net_state list" where
  "net_scan_incomplete env L dir entries d = (case entries of None \<Rightarrow> [] | Some ns \<Rightarrow> foldl (net_scan_entry env L dir d) [] ns)"

section \<open>Verification\<close>

definition verify_chunk_from_disk :: "io_env \<Rightarrow> chunk_net_lib \<Rightarrow> path \<Rightarrow> net_chunk_meta \<Rightarrow> disk \<Rightarrow> (chunk_net_err, bool) result" where
  "verify_chunk_from_disk env L file c d =
     (if cmt_hash c = [] then Ok True
      else case d file of
             None \<Rightarrow> Err (CnIoErr NotFound)
           | Some content \<Rightarrow>
               if io_fails env (IoOpen file) then Err (CnIoErr (OtherIo (IoOpen file)))
               else if io_fails env (IoSeek file (cmt_offset c)) then Err (CnIoErr (OtherIo (IoSeek file (cmt_offset c))))
               else if io_fails env (IoRead file) then Err (CnIoErr (OtherIo (IoRead file)))
               else case read_exact (cmt_offset c) (cmt_size c) content of
                      None \<Rightarrow> Err (CnIoErr (OtherIo (IoRead file)))
                    | Some buf \<Rightarrow> Ok (verify_chunk_hash L buf (cmt_hash c)))"

record net_verify_result =
  vq_verified :: u32
  vq_failed :: u32

definition failed_indices :: "io_env \<Rightarrow> chunk_net_lib \<Rightarrow> path \<Rightarrow> disk \<Rightarrow> net_state \<Rightarrow> u32 list" where
  "failed_indices env L tmp d s =
     map cmt_idx (filter (\<lambda>c. cmt_state c = NDownloaded \<and> verify_chunk_from_disk env L tmp c d \<noteq> Ok True) (ns_chunks s))"

text \<open>\<open>clock\<close> is the reading when a chunk is marked; the counters have 32 bits.\<close>

definition verify_all_chunks :: "io_env \<Rightarrow> chunk_net_lib \<Rightarrow> (u32 \<Rightarrow> u64) \<Rightarrow> disk \<Rightarrow> net_state \<Rightarrow> net_verify_result \<times> net_state" where
  "verify_all_chunks env L clock d s =
     (let tmp = path_of_string (ns_tmp_path s);
          downloaded = filter (\<lambda>c. cmt_state c = NDownloaded) (ns_chunks s);
          failed_idxs = failed_indices env L tmp d s;
          to_verify = map cmt_idx (filter (\<lambda>c. cmt_state c = NDownloaded \<and> cmt_idx c \<notin> set failed_idxs) (ns_chunks s));
          s1 = foldl (\<lambda>t i. net_mark_failed (clock i) i t) s failed_idxs;
          s2 = foldl (\<lambda>t i. net_mark_verified (clock i) i t) s1 to_verify
      in (\<lparr>vq_verified = length (filter (\<lambda>c. verify_chunk_from_disk env L tmp c d = Ok True) downloaded) mod 2 ^ 32,
           vq_failed = length failed_idxs mod 2 ^ 32\<rparr>, s2))"

section \<open>Providers\<close>

text \<open>\<open>seeders\<close> is what the DHT service returns for the file.\<close>

definition query_providers :: "string list \<Rightarrow> (chunk_net_err, string list) result" where
  "query_providers seeders = (if seeders = [] then Err CnNoProviders else Ok seeders)"

definition add_new_provider :: "net_state \<times> usize \<Rightarrow> string \<Rightarrow> net_state \<times> usize" where
  "add_new_provider = (\<lambda>(s, added) p. if p \<in> set (ns_providers s) then (s, added) else (s\<lparr>ns_providers := ns_providers s @ [p]\<rparr>, added + 1))"

definition refresh_providers :: "u64 \<Rightarrow> string list \<Rightarrow> net_state \<Rightarrow> (chunk_net_err, usize) result \<times> net_state" where
  "refresh_providers now seeders s =
     (case query_providers seeders of
        Inl e \<Rightarrow> (Err e, s)
      | Inr ps \<Rightarrow> (let (s1, added) = foldl add_new_provider (s, 0) ps
                   in (Ok added, if 0 < added then s1\<lparr>ns_updated_at := now\<rparr> else s1)))"

definition announce_provider :: "(string \<Rightarrow> (io_error, unit) result) \<Rightarrow> string \<Rightarrow> (chunk_net_err, unit) result" where
  "announce_provider announce_torrent merkle_root = map_err CnIoErr (announce_torrent merkle_root)"

section \<open>The recovery service\<close>

record net_svc =
  nv_active :: "string set"
  nv_disk :: disk

definition manifest_hashes :: "file_manifest \<Rightarrow> string list" where
  "manifest_hashes m = map ci_hash (fm_chunks m)"

text \<open>The check of the root, when there is a manifest that can be read.\<close>

definition check_manifest :: "chunk_net_lib \<Rightarrow> net_state \<Rightarrow> (chunk_net_err, bool) result" where
  "check_manifest L s =
     (case Option.bind (ns_manifest_json s) (nl_manifest_from_json L) of
        None \<Rightarrow> Ok True
      | Some m \<Rightarrow> verify_merkle_root L (ns_merkle_root s) (manifest_hashes m))"

definition recover_chunks :: "io_env \<Rightarrow> chunk_net_lib \<Rightarrow> (u32 \<Rightarrow> u64) \<Rightarrow> u64 \<Rightarrow> string list \<Rightarrow> net_state \<Rightarrow> (net_svc, chunk_net_err, net_state) act" where
  "recover_chunks env L clock now seeders s0 v =
     (let s1 = snd (refresh_providers now seeders s0);
          s2 = snd (verify_all_chunks env L clock (nv_disk v) s1)
      in case net_persist env L s2 (nv_disk v) of
           (Inl e, d) \<Rightarrow> (Err e, v\<lparr>nv_disk := d\<rparr>)
         | (Inr _, d) \<Rightarrow> (Ok s2, v\<lparr>nv_disk := d\<rparr>))"

text \<open>The check and the entry are two critical sections: \<open>start_recovery\<close> is the one after the other.\<close>

definition enter_recovery :: "io_env \<Rightarrow> chunk_net_lib \<Rightarrow> (u32 \<Rightarrow> u64) \<Rightarrow> u64 \<Rightarrow> string list \<Rightarrow> net_state \<Rightarrow> (net_svc, chunk_net_err, net_state) act" where
  "enter_recovery env L clock now seeders s v =
     (let v1 = v\<lparr>nv_active := insert (ns_merkle_root s) (nv_active v)\<rparr>
      in case check_manifest L s of
           Inl e \<Rightarrow> (Err e, v1)
         | Inr False \<Rightarrow> (Err CnMerkleInvalid, v1\<lparr>nv_active := nv_active v1 - {ns_merkle_root s}\<rparr>)
         | Inr True \<Rightarrow> recover_chunks env L clock now seeders s v1)"

definition start_recovery :: "io_env \<Rightarrow> chunk_net_lib \<Rightarrow> (u32 \<Rightarrow> u64) \<Rightarrow> u64 \<Rightarrow> string list \<Rightarrow> net_state \<Rightarrow> (net_svc, chunk_net_err, net_state) act" where
  "start_recovery env L clock now seeders s v =
     (if ns_merkle_root s \<in> nv_active v then (Ok s, v) else enter_recovery env L clock now seeders s v)"

definition complete_recovery :: "string \<Rightarrow> net_svc \<Rightarrow> net_svc" where
  "complete_recovery merkle_root v = v\<lparr>nv_active := nv_active v - {merkle_root}\<rparr>"

definition recovery_is_active :: "string \<Rightarrow> net_svc \<Rightarrow> bool" where
  "recovery_is_active merkle_root v = (merkle_root \<in> nv_active v)"

definition from_file_metadata :: "chunk_net_lib \<Rightarrow> u64 \<Rightarrow> file_metadata \<Rightarrow> string \<Rightarrow> string \<Rightarrow> net_state" where
  "from_file_metadata L now m tmp_path dst_path =
     (let s0 = (new_net_state now (md_merkle_root m) (md_file_name m) (md_file_size m) tmp_path dst_path)\<lparr>ns_encrypted := md_is_encrypted m\<rparr>;
          s1 = (case md_manifest m of
                  None \<Rightarrow> net_init_chunks s0
                | Some j \<Rightarrow> (case nl_manifest_from_json L j of
                              Some mf \<Rightarrow> (init_from_manifest L mf s0)\<lparr>ns_manifest_json := Some j\<rparr>
                            | None \<Rightarrow> net_init_chunks s0))
      in foldl (\<lambda>s p. add_provider now p s) s1 (md_seeders m))"

section \<open>Hooks of the download\<close>

definition on_download_start ::
  "io_env \<Rightarrow> chunk_net_lib \<Rightarrow> u64 \<Rightarrow> string \<Rightarrow> string \<Rightarrow> u64 \<Rightarrow> string \<Rightarrow> string \<Rightarrow> file_manifest option \<Rightarrow> (disk, chunk_net_err, net_state) act" where
  "on_download_start env L now merkle_root fname file_size tmp_path dst_path manifest =
     (let s0 = new_net_state now merkle_root fname file_size tmp_path dst_path;
          s1 = (case manifest of Some m \<Rightarrow> init_from_manifest L m s0 | None \<Rightarrow> net_init_chunks s0)
      in and_do (net_persist env L s1) (ret s1))"

text \<open>The hooks that load the state, change it and write it back.\<close>

definition update_stored :: "io_env \<Rightarrow> chunk_net_lib \<Rightarrow> string \<Rightarrow> (net_state \<Rightarrow> net_state) \<Rightarrow> (disk, chunk_net_err, net_state) act" where
  "update_stored env L tmp_path f d =
     (case net_load env L (path_of_string tmp_path) d of
        Inl e \<Rightarrow> (Err e, d)
      | Inr s \<Rightarrow> and_do (net_persist env L (f s)) (ret (f s)) d)"

definition complete_chunk_state :: "u32 \<Rightarrow> string \<Rightarrow> net_state \<Rightarrow> net_state" where
  "complete_chunk_state idx hash s =
     (if idx < length (ns_chunks s)
      then let c = (ns_chunks s ! idx)\<lparr>cmt_state := NDownloaded\<rparr>
           in s\<lparr>ns_chunks := (ns_chunks s)[idx := if hash \<noteq> [] then c\<lparr>cmt_hash := hash\<rparr> else c]\<rparr>
      else s)"

definition on_chunk_complete :: "io_env \<Rightarrow> chunk_net_lib \<Rightarrow> u64 \<Rightarrow> string \<Rightarrow> u32 \<Rightarrow> string \<Rightarrow> (disk, chunk_net_err, unit) act" where
  "on_chunk_complete env L now tmp_path idx hash =
     and_do (update_stored env L tmp_path (\<lambda>s. (complete_chunk_state idx hash s)\<lparr>ns_updated_at := now\<rparr>)) (ret ())"

definition on_chunk_verified :: "io_env \<Rightarrow> chunk_net_lib \<Rightarrow> u64 \<Rightarrow> string \<Rightarrow> u32 \<Rightarrow> (disk, chunk_net_err, unit) act" where
  "on_chunk_verified env L now tmp_path idx = and_do (update_stored env L tmp_path (net_mark_verified now idx)) (ret ())"

definition on_download_complete :: "io_env \<Rightarrow> chunk_net_lib \<Rightarrow> string \<Rightarrow> (disk, chunk_net_err, unit) act" where
  "on_download_complete env L tmp_path d =
     (case net_load env L (path_of_string tmp_path) d of
        Inl e \<Rightarrow> (Err e, d)
      | Inr s \<Rightarrow> (case check_manifest L s of
                    Inl e \<Rightarrow> (Err e, d)
                  | Inr matches \<Rightarrow> (Ok (), net_remove_meta env (path_of_string tmp_path) d)))"

definition default_chunks_dir :: path where
  "default_chunks_dir = path_of_string ''./chunks''"

definition chunk_file_index :: "string \<Rightarrow> u32 option" where
  "chunk_file_index name =
     (if starts_with ''chunk_'' name \<and> ends_with ''.dat'' name
      then let t = trim_start_str (length name) ''chunk_'' name in parse_u32 (trim_end_str (length t) ''.dat'' t)
      else None)"

definition found_chunk :: "net_state \<Rightarrow> string \<Rightarrow> net_state" where
  "found_chunk s name =
     (case chunk_file_index name of
        Some idx \<Rightarrow> if idx < length (ns_chunks s) \<and> cmt_state (ns_chunks s ! idx) = NPending then net_set_chunk idx NDownloaded s else s
      | None \<Rightarrow> s)"

text \<open>\<open>listing\<close> is \<open>None\<close> for a directory that does not exist, and otherwise its entries or the error of reading it.\<close>

definition load_existing_chunks ::
  "io_env \<Rightarrow> chunk_net_lib \<Rightarrow> (path \<Rightarrow> (io_error, string list) result option) \<Rightarrow> string \<Rightarrow> path \<Rightarrow> (disk, chunk_net_err, net_state) act" where
  "load_existing_chunks env L listing tmp_path chunks_dir d =
     (case net_load env L (path_of_string tmp_path) d of
        Inl e \<Rightarrow> (Err e, d)
      | Inr s \<Rightarrow> (case listing (path_join chunks_dir (ns_merkle_root s)) of
                    Some (Inl e) \<Rightarrow> (Err (CnIoErr e), d)
                  | Some (Inr names) \<Rightarrow> (let s1 = foldl found_chunk s names in and_do (net_persist env L s1) (ret s1) d)
                  | None \<Rightarrow> and_do (net_persist env L s) (ret s) d))"

section \<open>Damaged chunks\<close>

record corruption_report =
  cq_total_checked :: u32
  cq_verified_ok :: u32
  cq_corrupted :: "u32 list"
  cq_missing :: "u32 list"

definition net_chunk_path :: "path \<Rightarrow> net_state \<Rightarrow> net_chunk_meta \<Rightarrow> path" where
  "net_chunk_path chunks_dir s c = path_join (path_join chunks_dir (ns_merkle_root s)) (''chunk_'' @ show_nat (cmt_idx c) @ ''.dat'')"

definition check_chunk :: "io_env \<Rightarrow> chunk_net_lib \<Rightarrow> path \<Rightarrow> disk \<Rightarrow> net_state \<Rightarrow> corruption_report \<Rightarrow> net_chunk_meta \<Rightarrow> corruption_report" where
  "check_chunk env L chunks_dir d s r c =
     (let p = net_chunk_path chunks_dir s c
      in if cmt_hash c = [] then r
         else if \<not> fs_exists env p d
         then if cmt_state c = NDownloaded \<or> cmt_state c = NVerified then r\<lparr>cq_missing := cq_missing r @ [cmt_idx c]\<rparr> else r
         else let r1 = r\<lparr>cq_total_checked := wadd32 (cq_total_checked r) 1\<rparr>
              in case fs_read env p d of
                   Inr b \<Rightarrow> if verify_chunk_hash L b (cmt_hash c) then r1\<lparr>cq_verified_ok := wadd32 (cq_verified_ok r1) 1\<rparr>
                            else r1\<lparr>cq_corrupted := cq_corrupted r1 @ [cmt_idx c]\<rparr>
                 | Inl _ \<Rightarrow> r1\<lparr>cq_corrupted := cq_corrupted r1 @ [cmt_idx c]\<rparr>)"

definition detect_corruption :: "io_env \<Rightarrow> chunk_net_lib \<Rightarrow> path \<Rightarrow> disk \<Rightarrow> net_state \<Rightarrow> corruption_report" where
  "detect_corruption env L chunks_dir d s =
     foldl (check_chunk env L chunks_dir d s) \<lparr>cq_total_checked = 0, cq_verified_ok = 0, cq_corrupted = [], cq_missing = []\<rparr> (ns_chunks s)"

definition mark_one_corrupted :: "u32 \<times> net_state \<Rightarrow> u32 \<Rightarrow> u32 \<times> net_state" where
  "mark_one_corrupted = (\<lambda>(marked, s) idx. if idx < length (ns_chunks s) then (wadd32 marked 1, net_set_chunk idx NFailed s) else (marked, s))"

definition mark_corrupted_for_redownload :: "u64 \<Rightarrow> u32 list \<Rightarrow> net_state \<Rightarrow> u32 \<times> net_state" where
  "mark_corrupted_for_redownload now corrupted s =
     (let (marked, s1) = foldl mark_one_corrupted (0, s) corrupted
      in (marked, if 0 < marked then s1\<lparr>ns_updated_at := now\<rparr> else s1))"

definition check_and_fix_corruption :: "io_env \<Rightarrow> chunk_net_lib \<Rightarrow> u64 \<Rightarrow> string \<Rightarrow> path \<Rightarrow> (disk, chunk_net_err, corruption_report) act" where
  "check_and_fix_corruption env L now tmp_path chunks_dir d =
     (case net_load env L (path_of_string tmp_path) d of
        Inl e \<Rightarrow> (Err e, d)
      | Inr s \<Rightarrow>
          let r = detect_corruption env L chunks_dir d s
          in if cq_corrupted r \<noteq> [] \<or> cq_missing r \<noteq> []
             then and_do (net_persist env L (snd (mark_corrupted_for_redownload now (cq_corrupted r @ cq_missing r) s))) (ret r) d
             else (Ok r, d))"

section \<open>Commands\<close>

record net_recovery_info =
  nr_merkle_root :: string
  nr_file_name :: string
  nr_file_size :: u64
  nr_progress :: f32
  nr_pending_chunks :: usize
  nr_verified_chunks :: usize
  nr_failed_chunks :: usize
  nr_provider_count :: usize
  nr_is_complete :: bool

definition count_in :: "net_chunk_state \<Rightarrow> net_state \<Rightarrow> usize" where
  "count_in st s = length (filter (\<lambda>c. cmt_state c = st) (ns_chunks s))"

definition net_recovery_info_from :: "net_state \<Rightarrow> net_recovery_info" where
  "net_recovery_info_from s = \<lparr>nr_merkle_root = ns_merkle_root s, nr_file_name = ns_file_name s, nr_file_size = ns_file_size s,
     nr_progress = net_progress s, nr_pending_chunks = count_in NPending s, nr_verified_chunks = count_in NVerified s,
     nr_failed_chunks = count_in NFailed s, nr_provider_count = length (ns_providers s), nr_is_complete = net_is_complete s\<rparr>"

definition p2p_chunk_scan :: "io_env \<Rightarrow> chunk_net_lib \<Rightarrow> string \<Rightarrow> string list option \<Rightarrow> disk \<Rightarrow> net_recovery_info list" where
  "p2p_chunk_scan env L dl_dir entries d = map net_recovery_info_from (net_scan_incomplete env L (path_of_string dl_dir) entries d)"

definition p2p_chunk_get_state :: "io_env \<Rightarrow> chunk_net_lib \<Rightarrow> string \<Rightarrow> disk \<Rightarrow> (chunk_net_err, net_recovery_info option) result" where
  "p2p_chunk_get_state env L tmp_path d =
     (case net_load env L (path_of_string tmp_path) d of
        Inr s \<Rightarrow> Ok (Some (net_recovery_info_from s))
      | Inl e \<Rightarrow> (case e of CnIoErr _ \<Rightarrow> Ok None | _ \<Rightarrow> Err e))"

definition p2p_chunk_verify :: "io_env \<Rightarrow> chunk_net_lib \<Rightarrow> (u32 \<Rightarrow> u64) \<Rightarrow> string \<Rightarrow> (disk, chunk_net_err, net_verify_result) act" where
  "p2p_chunk_verify env L clock tmp_path d =
     (case net_load env L (path_of_string tmp_path) d of
        Inl e \<Rightarrow> (Err e, d)
      | Inr s \<Rightarrow> (let (r, s1) = verify_all_chunks env L clock d s in and_do (net_persist env L s1) (ret r) d))"

definition p2p_chunk_remove :: "io_env \<Rightarrow> string \<Rightarrow> disk \<Rightarrow> disk" where
  "p2p_chunk_remove env tmp_path d = net_remove_meta env (path_of_string tmp_path) d"

definition p2p_chunk_check_corruption :: "io_env \<Rightarrow> chunk_net_lib \<Rightarrow> u64 \<Rightarrow> string \<Rightarrow> (disk, chunk_net_err, corruption_report) act" where
  "p2p_chunk_check_corruption env L now tmp_path = check_and_fix_corruption env L now tmp_path default_chunks_dir"

definition recover_one ::
  "io_env \<Rightarrow> chunk_net_lib \<Rightarrow> (path \<Rightarrow> (io_error, string list) result option) \<Rightarrow> net_recovery_info list \<times> disk \<Rightarrow> net_state \<Rightarrow> net_recovery_info list \<times> disk" where
  "recover_one env L listing = (\<lambda>(acc, d) s.
     case load_existing_chunks env L listing (ns_tmp_path s) default_chunks_dir d of
       (Inr s1, d') \<Rightarrow> (acc @ [net_recovery_info_from s1], d')
     | (Inl _, d') \<Rightarrow> (acc, d'))"

definition p2p_chunk_startup_recovery ::
  "io_env \<Rightarrow> chunk_net_lib \<Rightarrow> (path \<Rightarrow> (io_error, string list) result option) \<Rightarrow> string \<Rightarrow> string list option \<Rightarrow> disk \<Rightarrow> net_recovery_info list \<times> disk" where
  "p2p_chunk_startup_recovery env L listing dl_dir entries d =
     foldl (recover_one env L listing) ([], d) (net_scan_incomplete env L (path_of_string dl_dir) entries d)"

definition p2p_chunk_report_result :: "io_env \<Rightarrow> chunk_net_lib \<Rightarrow> u64 \<Rightarrow> string \<Rightarrow> u32 \<Rightarrow> bool \<Rightarrow> (disk, chunk_net_err, unit) act" where
  "p2p_chunk_report_result env L now tmp_path idx success =
     and_do (update_stored env L tmp_path (\<lambda>s. if success then net_mark_downloaded now idx s else net_mark_failed now idx s)) (ret ())"

section \<open>Statistics of a peer\<close>

text \<open>From here on the readings of the clock within one call are one argument.\<close>

record peer_stats =
  pst_peer_id :: string
  pst_chunks_completed :: u32
  pst_chunks_failed :: u32
  pst_bytes_downloaded :: u64
  pst_avg_speed :: f64
  pst_last_active :: u64
  pst_consecutive_fails :: u32
  pst_is_banned :: bool

definition new_peer_stats :: "u64 \<Rightarrow> string \<Rightarrow> peer_stats" where
  "new_peer_stats now peer = \<lparr>pst_peer_id = peer, pst_chunks_completed = 0, pst_chunks_failed = 0, pst_bytes_downloaded = 0,
     pst_avg_speed = F_Fin 0, pst_last_active = now, pst_consecutive_fails = 0, pst_is_banned = False\<rparr>"

definition speed_ema :: "f64 \<Rightarrow> f64 \<Rightarrow> f64" where
  "speed_ema avg speed =
     (if f64_eq avg (F_Fin 0) then speed
      else f64_add (f64_mul avg (f64_sub (F_Fin 1) (f64_of_rat (3 / 10)))) (f64_mul speed (f64_of_rat (3 / 10))))"

definition peer_record_success :: "u64 \<Rightarrow> u64 \<Rightarrow> u64 \<Rightarrow> peer_stats \<Rightarrow> peer_stats" where
  "peer_record_success now bytes duration_ms p =
     (let p1 = p\<lparr>pst_chunks_completed := wadd32 (pst_chunks_completed p) 1, pst_bytes_downloaded := wadd64 (pst_bytes_downloaded p) bytes,
                 pst_consecutive_fails := 0, pst_last_active := now\<rparr>
      in if 0 < duration_ms
         then p1\<lparr>pst_avg_speed := speed_ema (pst_avg_speed p) (f64_div (f64_mul (f64_of_u64 bytes) (F_Fin 1000)) (f64_of_u64 duration_ms))\<rparr>
         else p1)"

definition peer_record_failure :: "u64 \<Rightarrow> peer_stats \<Rightarrow> peer_stats" where
  "peer_record_failure now p =
     (let p1 = p\<lparr>pst_chunks_failed := wadd32 (pst_chunks_failed p) 1, pst_consecutive_fails := wadd32 (pst_consecutive_fails p) 1, pst_last_active := now\<rparr>
      in if 5 \<le> pst_consecutive_fails p1 then p1\<lparr>pst_is_banned := True\<rparr> else p1)"

definition stats_score :: "peer_stats \<Rightarrow> f64" where
  "stats_score p =
     (if pst_is_banned p then F_Fin 0
      else let total = wadd32 (pst_chunks_completed p) (pst_chunks_failed p);
               reliability = (if 0 < total then f64_div (f64_of_u64 (pst_chunks_completed p)) (f64_of_u64 total) else F_Fin (1 / 2));
               speed_score = f64_min (f64_div (pst_avg_speed p) (f64_mul (F_Fin 1024) (F_Fin 1024))) (F_Fin 1)
           in f64_add (f64_mul reliability (f64_of_rat (6 / 10))) (f64_mul speed_score (f64_of_rat (4 / 10))))"

section \<open>The coordinator\<close>

text \<open>
  The map of assignments is an association list with one entry per chunk. Only the order in which timed out chunks are
  handled depends on its iteration order, and is an argument there.
\<close>

record chunk_assignment =
  ca_chunk_idx :: u32
  ca_peer_id :: string
  ca_assigned_at :: u64
  ca_attempts :: u32

record coordinator =
  mc_state :: net_state
  mc_peer_stats :: "string \<rightharpoonup> peer_stats"
  mc_assignments :: "(u32 \<times> chunk_assignment) list"
  mc_max_concurrent_per_peer :: usize
  mc_max_retries :: u32
  mc_chunk_timeout_ms :: u64

definition new_coordinator :: "u64 \<Rightarrow> net_state \<Rightarrow> coordinator" where
  "new_coordinator now s = \<lparr>mc_state = s, mc_peer_stats = foldl (\<lambda>m p. m(p \<mapsto> new_peer_stats now p)) Map.empty (ns_providers s),
     mc_assignments = [], mc_max_concurrent_per_peer = 4, mc_max_retries = 3, mc_chunk_timeout_ms = 30000\<rparr>"

definition coord_add_peer :: "u64 \<Rightarrow> string \<Rightarrow> coordinator \<Rightarrow> coordinator" where
  "coord_add_peer now peer c =
     (if peer \<in> dom (mc_peer_stats c) then c
      else c\<lparr>mc_peer_stats := (mc_peer_stats c)(peer \<mapsto> new_peer_stats now peer), mc_state := add_provider now peer (mc_state c)\<rparr>)"

definition coord_remove_peer :: "string \<Rightarrow> coordinator \<Rightarrow> coordinator" where
  "coord_remove_peer peer c = c\<lparr>mc_peer_stats := hm_remove (mc_peer_stats c) peer,
     mc_state := (mc_state c)\<lparr>ns_providers := filter (\<lambda>p. p \<noteq> peer) (ns_providers (mc_state c))\<rparr>,
     mc_assignments := filter (\<lambda>(i, a). ca_peer_id a \<noteq> peer) (mc_assignments c)\<rparr>"

definition count_assigned :: "string \<Rightarrow> coordinator \<Rightarrow> nat" where
  "count_assigned peer c = length (filter (\<lambda>(i, a). ca_peer_id a = peer) (mc_assignments c))"

text \<open>\<open>ks\<close> is the iteration order of the map of peers.\<close>

definition peer_available :: "coordinator \<Rightarrow> string \<Rightarrow> bool" where
  "peer_available c peer =
     (case mc_peer_stats c peer of None \<Rightarrow> False
      | Some p \<Rightarrow> \<not> pst_is_banned p \<and> count_assigned peer c < mc_max_concurrent_per_peer c)"

definition coord_available_peers :: "string list \<Rightarrow> coordinator \<Rightarrow> (string \<times> f64) list" where
  "coord_available_peers ks c =
     sort_by (\<lambda>a b. f64_desc (snd a) (snd b))
       (map (\<lambda>k. (k, stats_score (the (mc_peer_stats c k)))) (filter (peer_available c) ks))"

fun pick_weighted :: "f64 \<Rightarrow> (string \<times> f64) list \<Rightarrow> string option" where
  "pick_weighted r [] = None"
| "pick_weighted r ((peer, score) # ps) = (if f64_le r score then Some peer else pick_weighted (f64_sub r score) ps)"

text \<open>\<open>u\<close> is the number drawn, at least 0 and less than 1.\<close>

definition select_peer_for_chunk :: "string list \<Rightarrow> f64 \<Rightarrow> u32 \<Rightarrow> coordinator \<Rightarrow> string option" where
  "select_peer_for_chunk ks u idx c =
     (if map_of (mc_assignments c) idx \<noteq> None then None
      else case coord_available_peers ks c of
             [] \<Rightarrow> None
           | (first, _) # _ \<Rightarrow>
               let peers = coord_available_peers ks c;
                   total = f64_sum (map snd peers)
               in if f64_le total (F_Fin 0) then Some first
                  else (case pick_weighted (f64_mul u total) peers of Some p \<Rightarrow> Some p | None \<Rightarrow> Some first))"

definition assign_chunk :: "u64 \<Rightarrow> u32 \<Rightarrow> string \<Rightarrow> coordinator \<Rightarrow> bool \<times> coordinator" where
  "assign_chunk now idx peer c =
     (if map_of (mc_assignments c) idx \<noteq> None then (False, c)
      else (True, c\<lparr>mc_assignments := AList.update idx \<lparr>ca_chunk_idx = idx, ca_peer_id = peer, ca_assigned_at = now, ca_attempts = 0\<rparr> (mc_assignments c)\<rparr>))"

definition update_stats :: "(peer_stats \<Rightarrow> peer_stats) \<Rightarrow> string \<Rightarrow> coordinator \<Rightarrow> coordinator" where
  "update_stats f peer c =
     (case mc_peer_stats c peer of None \<Rightarrow> c | Some p \<Rightarrow> c\<lparr>mc_peer_stats := (mc_peer_stats c)(peer \<mapsto> f p)\<rparr>)"

definition complete_chunk :: "u64 \<Rightarrow> u32 \<Rightarrow> u64 \<Rightarrow> u64 \<Rightarrow> coordinator \<Rightarrow> coordinator" where
  "complete_chunk now idx bytes duration_ms c =
     (case map_of (mc_assignments c) idx of
        None \<Rightarrow> c
      | Some a \<Rightarrow>
          let c1 = update_stats (peer_record_success now bytes duration_ms) (ca_peer_id a) (c\<lparr>mc_assignments := filter (\<lambda>(i, a). i \<noteq> idx) (mc_assignments c)\<rparr>)
          in c1\<lparr>mc_state := net_mark_downloaded now idx (mc_state c1)\<rparr>)"

definition fail_chunk :: "string list \<Rightarrow> f64 \<Rightarrow> u64 \<Rightarrow> u32 \<Rightarrow> coordinator \<Rightarrow> bool \<times> coordinator" where
  "fail_chunk ks u now idx c =
     (case map_of (mc_assignments c) idx of
        None \<Rightarrow> (False, c)
      | Some a \<Rightarrow>
          let c1 = update_stats (peer_record_failure now) (ca_peer_id a) (c\<lparr>mc_assignments := filter (\<lambda>(i, a). i \<noteq> idx) (mc_assignments c)\<rparr>);
              attempts = wadd32 (ca_attempts a) 1
          in case (if attempts < mc_max_retries c1 then select_peer_for_chunk ks u idx c1 else None) of
               Some new_peer \<Rightarrow>
                 (True, c1\<lparr>mc_assignments := AList.update idx \<lparr>ca_chunk_idx = idx, ca_peer_id = new_peer, ca_assigned_at = now, ca_attempts = attempts\<rparr> (mc_assignments c1)\<rparr>)
             | None \<Rightarrow> (False, c1\<lparr>mc_state := net_mark_failed now idx (mc_state c1)\<rparr>))"

text \<open>\<open>keys\<close> is the order in which the assignments are visited.\<close>

definition check_timeouts :: "u32 list \<Rightarrow> string list \<Rightarrow> (u32 \<Rightarrow> f64) \<Rightarrow> u64 \<Rightarrow> coordinator \<Rightarrow> u32 list \<times> coordinator" where
  "check_timeouts keys ks u now c =
     (let timeout_secs = mc_chunk_timeout_ms c div 1000;
          timed_out = filter (\<lambda>i. case map_of (mc_assignments c) i of None \<Rightarrow> False | Some a \<Rightarrow> timeout_secs < sat_sub now (ca_assigned_at a)) keys
      in (timed_out, foldl (\<lambda>c i. snd (fail_chunk ks (u i) now i c)) c timed_out))"

definition coord_pending_chunks :: "coordinator \<Rightarrow> u32 list" where
  "coord_pending_chunks c = map cmt_idx (filter (\<lambda>m. net_wanted m \<and> map_of (mc_assignments c) (cmt_idx m) = None) (ns_chunks (mc_state c)))"

definition assign_one ::
  "string list \<Rightarrow> (u32 \<Rightarrow> f64) \<Rightarrow> u64 \<Rightarrow> chunk_assignment list \<times> coordinator \<Rightarrow> u32 \<Rightarrow> chunk_assignment list \<times> coordinator" where
  "assign_one ks u now = (\<lambda>(acc, c) idx.
     case select_peer_for_chunk ks (u idx) idx c of
       None \<Rightarrow> (acc, c)
     | Some peer \<Rightarrow>
         (let (done, c1) = assign_chunk now idx peer c
          in if done then (case map_of (mc_assignments c1) idx of Some a \<Rightarrow> (acc @ [a], c1) | None \<Rightarrow> (acc, c1)) else (acc, c1)))"

definition assign_pending :: "string list \<Rightarrow> (u32 \<Rightarrow> f64) \<Rightarrow> u64 \<Rightarrow> coordinator \<Rightarrow> chunk_assignment list \<times> coordinator" where
  "assign_pending ks u now c = foldl (assign_one ks u now) ([], c) (coord_pending_chunks c)"

record coordinator_progress =
  cp_total_chunks :: u32
  cp_verified_chunks :: u32
  cp_downloaded_chunks :: u32
  cp_pending_chunks :: u32
  cp_failed_chunks :: u32
  cp_in_flight_chunks :: u32
  cp_active_peers :: u32
  cp_total_peers :: u32
  cp_avg_speed :: f64
  cp_progress_pct :: f64

definition progress_info :: "string list \<Rightarrow> coordinator \<Rightarrow> coordinator_progress" where
  "progress_info ks c =
     (let s = mc_state c; total = length (ns_chunks s) mod 2 ^ 32; verified = count_in NVerified s mod 2 ^ 32; ps = hm_values (mc_peer_stats c) ks
      in \<lparr>cp_total_chunks = total, cp_verified_chunks = verified, cp_downloaded_chunks = count_in NDownloaded s mod 2 ^ 32,
          cp_pending_chunks = count_in NPending s mod 2 ^ 32, cp_failed_chunks = count_in NFailed s mod 2 ^ 32,
          cp_in_flight_chunks = length (mc_assignments c) mod 2 ^ 32,
          cp_active_peers = length (filter (\<lambda>p. \<not> pst_is_banned p \<and> 0 < pst_chunks_completed p) ps) mod 2 ^ 32,
          cp_total_peers = card (dom (mc_peer_stats c)) mod 2 ^ 32,
          cp_avg_speed = f64_sum (map pst_avg_speed (filter (\<lambda>p. \<not> pst_is_banned p) ps)),
          cp_progress_pct = (if 0 < total then f64_mul (f64_div (f64_of_u64 verified) (f64_of_u64 total)) (F_Fin 100) else F_Fin 100)\<rparr>)"

definition coord_is_complete :: "coordinator \<Rightarrow> bool" where
  "coord_is_complete c = net_is_complete (mc_state c)"

record chunk_fetch_request =
  cf_merkle_root :: string
  cf_chunk_idx :: u32
  cf_chunk_hash :: string
  cf_chunk_size :: u32
  cf_peer_id :: string

text \<open>Both queries of the progress build a coordinator from the stored state.\<close>

definition p2p_chunk_get_progress :: "io_env \<Rightarrow> chunk_net_lib \<Rightarrow> string list \<Rightarrow> u64 \<Rightarrow> string \<Rightarrow> disk \<Rightarrow> (chunk_net_err, coordinator_progress) result" where
  "p2p_chunk_get_progress env L ks now tmp_path d =
     rbind (net_load env L (path_of_string tmp_path) d) (\<lambda>s. Ok (progress_info ks (new_coordinator now s)))"

definition fetch_request :: "net_state \<Rightarrow> chunk_assignment \<Rightarrow> chunk_fetch_request option" where
  "fetch_request s a =
     (if ca_chunk_idx a < length (ns_chunks s)
      then Some \<lparr>cf_merkle_root = ns_merkle_root s, cf_chunk_idx = ca_chunk_idx a, cf_chunk_hash = cmt_hash (ns_chunks s ! ca_chunk_idx a),
                 cf_chunk_size = cmt_size (ns_chunks s ! ca_chunk_idx a), cf_peer_id = ca_peer_id a\<rparr>
      else None)"

definition p2p_chunk_assign_pending ::
  "io_env \<Rightarrow> chunk_net_lib \<Rightarrow> string list \<Rightarrow> (u32 \<Rightarrow> f64) \<Rightarrow> u64 \<Rightarrow> string \<Rightarrow> disk \<Rightarrow> (chunk_net_err, chunk_fetch_request list) result" where
  "p2p_chunk_assign_pending env L ks u now tmp_path d =
     rbind (net_load env L (path_of_string tmp_path) d) (\<lambda>s.
       Ok (List.map_filter (fetch_request s) (fst (assign_pending ks u now (new_coordinator now s)))))"

section \<open>Invariant of the coordinator\<close>

definition assignment_ok :: "coordinator \<Rightarrow> u32 \<times> chunk_assignment \<Rightarrow> bool" where
  "assignment_ok c = (\<lambda>(i, a). ca_chunk_idx a = i \<and> ca_peer_id a \<in> dom (mc_peer_stats c) \<and>
     (ca_attempts a = 0 \<or> ca_attempts a < mc_max_retries c))"

definition coord_ok :: "coordinator \<Rightarrow> bool" where
  "coord_ok c \<longleftrightarrow> distinct (map fst (mc_assignments c)) \<and> list_all (assignment_ok c) (mc_assignments c) \<and>
     (\<forall>p. count_assigned p c \<le> mc_max_concurrent_per_peer c)"

text \<open>
  A caller of \<open>assign_chunk\<close> picks the peer itself; the coordinator does so through \<open>select_peer_for_chunk\<close>, which returns available peers only
  (\<open>select_peer_available\<close>). The function does not check it.
\<close>

inductive coord_step :: "coordinator \<Rightarrow> coordinator \<Rightarrow> bool" where
  step_add_peer: "coord_step c (coord_add_peer now p c)"
| step_remove_peer: "coord_step c (coord_remove_peer p c)"
| step_assign: "coord_step c (snd (assign_pending ks u now c))"
| step_assign_chunk: "peer_available c p \<Longrightarrow> coord_step c (snd (assign_chunk now i p c))"
| step_complete: "coord_step c (complete_chunk now i bytes ms c)"
| step_fail: "coord_step c (snd (fail_chunk ks r now i c))"
| step_timeouts: "coord_step c (snd (check_timeouts keys ks u now c))"

lemma coord_okI:
  assumes "distinct (map fst (mc_assignments c))"
    and "\<And>i a. (i, a) \<in> set (mc_assignments c) \<Longrightarrow> assignment_ok c (i, a)"
    and "\<And>p. count_assigned p c \<le> mc_max_concurrent_per_peer c"
  shows "coord_ok c"
  using assms by (auto simp: coord_ok_def list_all_iff)

lemma coord_okD:
  assumes "coord_ok c"
  shows "distinct (map fst (mc_assignments c))"
    and "(i, a) \<in> set (mc_assignments c) \<Longrightarrow> assignment_ok c (i, a)"
    and "count_assigned p c \<le> mc_max_concurrent_per_peer c"
  using assms by (auto simp: coord_ok_def list_all_iff)

lemma length_filter_filter: "length (filter Q (filter P xs)) \<le> length (filter Q xs)"
  by (induction xs) auto

text \<open>The chunks a coordinator keeps may only shrink, and the peers they name stay known.\<close>

lemma coord_ok_filter:
  assumes "coord_ok c" "mc_assignments c' = filter P (mc_assignments c)"
    and "\<And>i a. (i, a) \<in> set (mc_assignments c) \<Longrightarrow> P (i, a) \<Longrightarrow> ca_peer_id a \<in> dom (mc_peer_stats c) \<Longrightarrow> ca_peer_id a \<in> dom (mc_peer_stats c')"
    and "mc_max_retries c' = mc_max_retries c" "mc_max_concurrent_per_peer c' = mc_max_concurrent_per_peer c"
  shows "coord_ok c'"
proof (rule coord_okI)
  show "distinct (map fst (mc_assignments c'))"
    using coord_okD(1) [OF assms(1)] by (simp add: assms(2) distinct_map_filter)
next
  fix i a assume "(i, a) \<in> set (mc_assignments c')"
  then have m: "(i, a) \<in> set (mc_assignments c)" "P (i, a)" by (simp_all add: assms(2))
  with coord_okD(2) [OF assms(1) m(1)] assms(3) [OF m] assms(4) show "assignment_ok c' (i, a)"
    by (simp add: assignment_ok_def)
next
  fix p
  have "count_assigned p c' \<le> count_assigned p c"
    unfolding count_assigned_def assms(2) by (rule length_filter_filter)
  with coord_okD(3) [OF assms(1), of p] assms(5) show "count_assigned p c' \<le> mc_max_concurrent_per_peer c'" by simp
qed

lemma coord_ok_cong:
  assumes "coord_ok c" "mc_assignments c' = mc_assignments c" "dom (mc_peer_stats c) \<subseteq> dom (mc_peer_stats c')"
    and "mc_max_retries c' = mc_max_retries c" "mc_max_concurrent_per_peer c' = mc_max_concurrent_per_peer c"
  shows "coord_ok c'"
  using assms(2-5) by (intro coord_ok_filter [OF assms(1), of _ "\<lambda>_. True"]) auto

lemma update_stats_fields [simp]:
  "mc_assignments (update_stats f p c) = mc_assignments c"
  "dom (mc_peer_stats (update_stats f p c)) = dom (mc_peer_stats c)"
  "mc_max_retries (update_stats f p c) = mc_max_retries c"
  "mc_max_concurrent_per_peer (update_stats f p c) = mc_max_concurrent_per_peer c"
  "mc_state (update_stats f p c) = mc_state c"
  by (auto simp: update_stats_def split: option.splits)

section \<open>Choosing a peer\<close>

lemma pick_weighted_mem: "pick_weighted r ps = Some p \<Longrightarrow> p \<in> fst ` set ps"
  by (induction r ps rule: pick_weighted.induct) (auto split: if_splits)

lemma coord_available_peers_mem: "fst ` set (coord_available_peers ks c) = {p \<in> set ks. peer_available c p}"
  by (auto simp: coord_available_peers_def image_image)

lemma select_peer_available:
  assumes "select_peer_for_chunk ks r idx c = Some p"
  shows "p \<in> set ks \<and> peer_available c p \<and> map_of (mc_assignments c) idx = None"
proof -
  from assms have free: "map_of (mc_assignments c) idx = None" by (auto simp: select_peer_for_chunk_def split: if_splits)
  from assms have "p \<in> fst ` set (coord_available_peers ks c)"
    by (auto simp: select_peer_for_chunk_def Let_def split: if_splits list.splits option.splits dest!: pick_weighted_mem)
  with free show ?thesis by (simp add: coord_available_peers_mem)
qed

lemma select_peer_None:
  "select_peer_for_chunk ks r idx c = None \<longleftrightarrow> map_of (mc_assignments c) idx \<noteq> None \<or> (\<forall>p \<in> set ks. \<not> peer_available c p)"
proof -
  have "coord_available_peers ks c = [] \<longleftrightarrow> (\<forall>p \<in> set ks. \<not> peer_available c p)"
    using coord_available_peers_mem [of ks c] by (metis (mono_tags, lifting) empty_Collect_eq image_is_empty set_empty)
  then show ?thesis
    by (auto simp: select_peer_for_chunk_def Let_def split: if_splits list.splits option.splits)
qed

lemma update_fresh: "map_of al k = None \<Longrightarrow> AList.update k v al = al @ [(k, v)]"
  by (induction al) (auto split: if_splits)

lemma count_assigned_snoc:
  "count_assigned p (c\<lparr>mc_assignments := mc_assignments c @ [(i, a)]\<rparr>) = count_assigned p c + (if ca_peer_id a = p then 1 else 0)"
  by (simp add: count_assigned_def)

lemma coord_ok_assign:
  assumes "coord_ok c" "map_of (mc_assignments c) i = None" "peer_available c p" "n = 0 \<or> n < mc_max_retries c"
  shows "coord_ok (c\<lparr>mc_assignments := AList.update i \<lparr>ca_chunk_idx = i, ca_peer_id = p, ca_assigned_at = now, ca_attempts = n\<rparr> (mc_assignments c)\<rparr>)"
    (is "coord_ok ?c")
proof (rule coord_okI)
  from assms(3) obtain st where st: "mc_peer_stats c p = Some st" "count_assigned p c < mc_max_concurrent_per_peer c"
    by (auto simp: peer_available_def split: option.splits)
  show "distinct (map fst (mc_assignments ?c))"
    using coord_okD(1) [OF assms(1)] by (simp add: distinct_update)
  show "assignment_ok ?c (j, a)" if "(j, a) \<in> set (mc_assignments ?c)" for j a
    using that coord_okD(2) [OF assms(1), of j a] assms(4) st(1) by (auto simp: update_fresh [OF assms(2)] assignment_ok_def)
  show "count_assigned q ?c \<le> mc_max_concurrent_per_peer ?c" for q
    using coord_okD(3) [OF assms(1), of q] st(2) by (auto simp: update_fresh [OF assms(2)] count_assigned_snoc)
qed

lemma map_of_filter_key: "map_of (filter (\<lambda>(i, a). i \<noteq> k) al) k = None"
  by (induction al) auto

section \<open>Every operation keeps the invariant\<close>

lemma add_peer_ok: "coord_ok c \<Longrightarrow> coord_ok (coord_add_peer now p c)"
  unfolding coord_add_peer_def by (cases "p \<in> dom (mc_peer_stats c)") (auto intro: coord_ok_cong)

lemma remove_peer_ok: "coord_ok c \<Longrightarrow> coord_ok (coord_remove_peer p c)"
  by (rule coord_ok_filter [where P = "\<lambda>(i, a). ca_peer_id a \<noteq> p"]) (auto simp: coord_remove_peer_def)

lemma assign_one_ok: "coord_ok (snd ac) \<Longrightarrow> coord_ok (snd (assign_one ks u now ac idx))"
  by (cases ac) (auto simp: assign_one_def assign_chunk_def coord_ok_assign dest: select_peer_available split: option.splits)

lemma assign_pending_ok: "coord_ok c \<Longrightarrow> coord_ok (snd (assign_pending ks u now c))"
proof -
  assume c: "coord_ok c"
  have "coord_ok (snd ac) \<Longrightarrow> coord_ok (snd (foldl (assign_one ks u now) ac is))" for ac "is"
    by (induction "is" arbitrary: ac) (simp_all add: assign_one_ok)
  with c show ?thesis by (simp add: assign_pending_def)
qed

lemma coord_ok_state [simp]: "coord_ok (c\<lparr>mc_state := s\<rparr>) = coord_ok c"
  by (simp add: coord_ok_def assignment_ok_def count_assigned_def)

lemma drop_chunk_ok: "coord_ok c \<Longrightarrow> coord_ok (update_stats f p (c\<lparr>mc_assignments := filter (\<lambda>(i, a). i \<noteq> idx) (mc_assignments c)\<rparr>))"
  by (rule coord_ok_filter [where P = "\<lambda>(i, a). i \<noteq> idx"]) auto

lemma complete_chunk_ok: "coord_ok c \<Longrightarrow> coord_ok (complete_chunk now i bytes ms c)"
  by (cases "map_of (mc_assignments c) i")
    (auto simp: complete_chunk_def Let_def drop_chunk_ok)

lemma fail_chunk_ok:
  assumes "coord_ok c"
  shows "coord_ok (snd (fail_chunk ks r now i c))"
proof (cases "map_of (mc_assignments c) i")
  case None
  with assms show ?thesis by (simp add: fail_chunk_def)
next
  case (Some a)
  define c1 where "c1 = update_stats (peer_record_failure now) (ca_peer_id a) (c\<lparr>mc_assignments := filter (\<lambda>(j, a). j \<noteq> i) (mc_assignments c)\<rparr>)"
  have c1: "coord_ok c1" using assms by (simp add: c1_def drop_chunk_ok)
  show ?thesis
    using c1 select_peer_available [of ks r i c1]
    by (auto simp: fail_chunk_def Some Let_def c1_def [symmetric] coord_ok_assign split: option.splits if_splits)
qed

lemma check_timeouts_ok: "coord_ok c \<Longrightarrow> coord_ok (snd (check_timeouts keys ks u now c))"
proof -
  assume c: "coord_ok c"
  have "coord_ok c \<Longrightarrow> coord_ok (foldl (\<lambda>c i. snd (fail_chunk ks (u i) now i c)) c is)" for c "is"
    by (induction "is" arbitrary: c) (simp_all add: fail_chunk_ok)
  with c show ?thesis by (simp add: check_timeouts_def Let_def)
qed

lemma assign_chunk_ok: "peer_available c p \<Longrightarrow> coord_ok c \<Longrightarrow> coord_ok (snd (assign_chunk now i p c))"
  by (simp add: assign_chunk_def coord_ok_assign)

lemma coord_step_ok: "coord_step c c' \<Longrightarrow> coord_ok c \<Longrightarrow> coord_ok c'"
  by (cases rule: coord_step.cases)
    (auto intro: add_peer_ok remove_peer_ok assign_pending_ok assign_chunk_ok complete_chunk_ok fail_chunk_ok check_timeouts_ok)

text \<open>No operation changes the limits.\<close>

definition same_limits :: "coordinator \<Rightarrow> coordinator \<Rightarrow> bool" where
  "same_limits c c' \<longleftrightarrow> mc_max_concurrent_per_peer c' = mc_max_concurrent_per_peer c \<and> mc_max_retries c' = mc_max_retries c \<and>
     mc_chunk_timeout_ms c' = mc_chunk_timeout_ms c"

lemma same_limits_trans: "same_limits a b \<Longrightarrow> same_limits b c \<Longrightarrow> same_limits a c"
  by (simp add: same_limits_def)

lemma same_limits_update: "same_limits (update_stats f p c) d = same_limits c d" "same_limits d (update_stats f p c) = same_limits d c"
  by (auto simp: same_limits_def update_stats_def split: option.splits)

lemma same_limits_fields [simp]:
  "same_limits c c" "same_limits d (c\<lparr>mc_assignments := al\<rparr>) = same_limits d c" "same_limits d (c\<lparr>mc_state := s\<rparr>) = same_limits d c"
  "same_limits d (c\<lparr>mc_peer_stats := m\<rparr>) = same_limits d c"
  by (auto simp: same_limits_def)

lemma foldl_same_limits: "(\<And>c i. same_limits (g c) (g (f c i))) \<Longrightarrow> same_limits (g c) (g (foldl f c is))"
  by (induction "is" arbitrary: c) (auto intro: same_limits_trans)

lemma fail_chunk_limits: "same_limits c (snd (fail_chunk ks r now i c))"
  by (auto simp: fail_chunk_def Let_def same_limits_update split: option.splits)

lemma assign_one_limits: "same_limits (snd ac) (snd (assign_one ks u now ac i))"
  by (cases ac) (auto simp: assign_one_def assign_chunk_def split: option.splits)

lemma coord_step_limits:
  assumes "coord_step c c'"
  shows "same_limits c c'"
  using assms
proof (cases rule: coord_step.cases)
  case (step_assign ks u now)
  then show ?thesis using foldl_same_limits [of snd "assign_one ks u now" "([], c)"] assign_one_limits by (simp add: assign_pending_def)
next
  case (step_timeouts keys ks u now)
  then show ?thesis using foldl_same_limits [of id "\<lambda>c i. snd (fail_chunk ks (u i) now i c)" c] fail_chunk_limits by (simp add: check_timeouts_def Let_def)
qed (auto simp: coord_add_peer_def coord_remove_peer_def complete_chunk_def assign_chunk_def Let_def same_limits_update fail_chunk_limits split: option.splits)

interpretation coordination: progress_machine coord_step coord_ok same_limits
  by unfold_locales (auto intro: coord_step_ok same_limits_trans coord_step_limits)

lemma new_coordinator_ok: "coord_ok (new_coordinator now s)"
  by (rule coord_okI) (simp_all add: new_coordinator_def count_assigned_def)

text \<open>
  C25: Whatever peers join and leave, whatever chunks complete, fail or time out and whatever chunks are assigned to available peers, the coordinator of a download
  keeps at most one assignment for a chunk, at most four for a peer, only for peers it knows, and none that was
  retried three times.
\<close>

theorem coordinator_sound:
  assumes "coord_step\<^sup>*\<^sup>* (new_coordinator now s) c"
  shows "distinct (map fst (mc_assignments c)) \<and> (\<forall>p. count_assigned p c \<le> 4) \<and>
    (\<forall>i a. map_of (mc_assignments c) i = Some a \<longrightarrow>
       ca_chunk_idx a = i \<and> ca_peer_id a \<in> dom (mc_peer_stats c) \<and> ca_attempts a < 3)"
proof -
  have ok: "coord_ok c" by (rule coordination.run_inv [OF assms new_coordinator_ok])
  have lim: "mc_max_concurrent_per_peer c = 4" "mc_max_retries c = 3"
    using coordination.run_advances [OF assms new_coordinator_ok] by (simp_all add: same_limits_def new_coordinator_def)
  have "assignment_ok c (i, a)" if "map_of (mc_assignments c) i = Some a" for i a
    using coord_okD(2) [OF ok map_of_SomeD [OF that]] .
  with coord_okD(1) [OF ok] coord_okD(3) [OF ok] lim show ?thesis
    by (fastforce simp: assignment_ok_def)
qed

definition one_chunk :: net_state where
  "one_chunk = (new_net_state 0 ''r'' ''f'' 5 ''t'' ''d'')\<lparr>ns_chunks := [new_chunk_meta 0 0 5 ''h''], ns_providers := [''a'']\<rparr>"

definition assigned_once :: coordinator where
  "assigned_once = snd (assign_pending [''a''] (\<lambda>_. F_Fin 0) 7 (new_coordinator 7 one_chunk))"

lemma assigned_once_value:
  "assigned_once = \<lparr>mc_state = one_chunk, mc_peer_stats = [''a'' \<mapsto> new_peer_stats 7 ''a''],
     mc_assignments = [(0, \<lparr>ca_chunk_idx = 0, ca_peer_id = ''a'', ca_assigned_at = 7, ca_attempts = 0\<rparr>)],
     mc_max_concurrent_per_peer = 4, mc_max_retries = 3, mc_chunk_timeout_ms = 30000\<rparr>"
  by (simp add: assigned_once_def assign_pending_def assign_one_def assign_chunk_def new_coordinator_def one_chunk_def new_net_state_def
      new_chunk_meta_def coord_pending_chunks_def net_wanted_def select_peer_for_chunk_def coord_available_peers_def peer_available_def
      count_assigned_def sort_by_def new_peer_stats_def Let_def split: option.splits)

theorem coordinator_sound_witness:
  "map_of (mc_assignments assigned_once) 0 = Some \<lparr>ca_chunk_idx = 0, ca_peer_id = ''a'', ca_assigned_at = 7, ca_attempts = 0\<rparr> \<and>
   count_assigned ''a'' assigned_once \<le> 4"
proof -
  have "coord_step\<^sup>*\<^sup>* (new_coordinator 7 one_chunk) assigned_once"
    unfolding assigned_once_def by (rule r_into_rtranclp) (rule step_assign)
  from coordinator_sound [OF this] have "count_assigned ''a'' assigned_once \<le> 4" by blast
  then show ?thesis by (simp add: assigned_once_value)
qed

section \<open>What one round assigns\<close>

definition fresh_assignment :: "u64 \<Rightarrow> u32 \<Rightarrow> string \<Rightarrow> chunk_assignment" where
  "fresh_assignment now i p = \<lparr>ca_chunk_idx = i, ca_peer_id = p, ca_assigned_at = now, ca_attempts = 0\<rparr>"

definition with_assigned :: "coordinator \<Rightarrow> chunk_assignment list \<Rightarrow> coordinator" where
  "with_assigned c new = c\<lparr>mc_assignments := mc_assignments c @ map (\<lambda>a. (ca_chunk_idx a, a)) new\<rparr>"

lemma with_assigned_simps [simp]:
  "with_assigned c [] = c" "with_assigned (with_assigned c a) b = with_assigned c (a @ b)"
  "mc_state (with_assigned c a) = mc_state c" "mc_peer_stats (with_assigned c a) = mc_peer_stats c"
  "mc_max_concurrent_per_peer (with_assigned c a) = mc_max_concurrent_per_peer c"
  by (simp_all add: with_assigned_def)

lemma assign_one_cases:
  "(\<exists>p. p \<in> set ks \<and> peer_available c p \<and> map_of (mc_assignments c) i = None \<and>
      assign_one ks u now (acc, c) i = (acc @ [fresh_assignment now i p], with_assigned c [fresh_assignment now i p])) \<or>
   assign_one ks u now (acc, c) i = (acc, c) \<and> (map_of (mc_assignments c) i \<noteq> None \<or> (\<forall>p \<in> set ks. \<not> peer_available c p))"
proof (cases "select_peer_for_chunk ks (u i) i c")
  case None
  then have "map_of (mc_assignments c) i \<noteq> None \<or> (\<forall>p \<in> set ks. \<not> peer_available c p)" by (simp only: select_peer_None)
  with None show ?thesis by (auto simp: assign_one_def)
next
  case (Some p)
  with select_peer_available [OF this] show ?thesis
    by (auto simp: assign_one_def assign_chunk_def with_assigned_def fresh_assignment_def update_fresh map_add_def)
qed

lemma peer_available_less: "peer_available (with_assigned c new) p \<Longrightarrow> peer_available c p"
  by (auto simp: peer_available_def count_assigned_def with_assigned_def split: option.splits)

lemma assign_round:
  "\<exists>new. foldl (assign_one ks u now) (acc, c) is = (acc @ new, with_assigned c new) \<and>
     (\<forall>a \<in> set new. \<exists>i \<in> set is. \<exists>p \<in> set ks. a = fresh_assignment now i p \<and> peer_available c p) \<and>
     (\<forall>i \<in> set is. map_of (mc_assignments (with_assigned c new)) i = None \<longrightarrow> (\<forall>p \<in> set ks. \<not> peer_available (with_assigned c new) p))"
proof (induction "is" arbitrary: acc c)
  case Nil
  then show ?case by (intro exI [of _ "[]"]) simp
next
  case (Cons i "is")
  consider p where "p \<in> set ks" "peer_available c p"
      "assign_one ks u now (acc, c) i = (acc @ [fresh_assignment now i p], with_assigned c [fresh_assignment now i p])"
    | "assign_one ks u now (acc, c) i = (acc, c)" "map_of (mc_assignments c) i \<noteq> None \<or> (\<forall>p \<in> set ks. \<not> peer_available c p)"
    using assign_one_cases [of ks c i u now acc] by blast
  then show ?case
  proof cases
    case 1
    let ?a = "fresh_assignment now i p"
    obtain new where new: "foldl (assign_one ks u now) (acc @ [?a], with_assigned c [?a]) is = ((acc @ [?a]) @ new, with_assigned (with_assigned c [?a]) new)"
      "\<forall>a \<in> set new. \<exists>i \<in> set is. \<exists>p \<in> set ks. a = fresh_assignment now i p \<and> peer_available (with_assigned c [?a]) p"
      "\<forall>i \<in> set is. map_of (mc_assignments (with_assigned (with_assigned c [?a]) new)) i = None \<longrightarrow>
         (\<forall>p \<in> set ks. \<not> peer_available (with_assigned (with_assigned c [?a]) new) p)"
      using Cons.IH by blast
    have own: "map_of (mc_assignments (with_assigned c (?a # new))) i \<noteq> None"
      by (simp add: with_assigned_def map_of_eq_None_iff fresh_assignment_def)
    show ?thesis
      using 1 new own peer_available_less by (intro exI [of _ "?a # new"]) (auto, blast+)
  next
    case 2
    obtain new where new: "foldl (assign_one ks u now) (acc, c) is = (acc @ new, with_assigned c new)"
      "\<forall>a \<in> set new. \<exists>i \<in> set is. \<exists>p \<in> set ks. a = fresh_assignment now i p \<and> peer_available c p"
      "\<forall>i \<in> set is. map_of (mc_assignments (with_assigned c new)) i = None \<longrightarrow> (\<forall>p \<in> set ks. \<not> peer_available (with_assigned c new) p)"
      using Cons.IH by blast
    have "map_of (mc_assignments (with_assigned c new)) i \<noteq> None \<or> (\<forall>p \<in> set ks. \<not> peer_available (with_assigned c new) p)"
      using 2(2) peer_available_less [of c new] by (auto simp: with_assigned_def map_of_eq_None_iff)
    with 2 new show ?thesis by (intro exI [of _ new]) auto
  qed
qed

text \<open>
  A round of assignments adds to what is assigned, hands out chunks that are missing and that nobody has, to peers
  that are not banned, and is work-conserving: a missing chunk is left over only when every peer is banned or
  at its limit.
\<close>

theorem assign_pending_conserving:
  assumes "hm_order (mc_peer_stats c) ks"
    and "assign_pending ks u now c = (new, c')"
  shows "c' = with_assigned c new \<and>
    (\<forall>a \<in> set new. ca_chunk_idx a \<in> set (coord_pending_chunks c) \<and> (\<exists>p. mc_peer_stats c (ca_peer_id a) = Some p \<and> \<not> pst_is_banned p)) \<and>
    (coord_pending_chunks c' \<noteq> [] \<longrightarrow>
       (\<forall>peer p. mc_peer_stats c peer = Some p \<longrightarrow> pst_is_banned p \<or> mc_max_concurrent_per_peer c \<le> count_assigned peer c'))"
proof -
  from assign_round [of ks u now "[]" c "coord_pending_chunks c"] assms(2)
  have c': "c' = with_assigned c new"
    and new: "\<forall>a \<in> set new. \<exists>i \<in> set (coord_pending_chunks c). \<exists>p \<in> set ks. a = fresh_assignment now i p \<and> peer_available c p"
    and left: "\<forall>i \<in> set (coord_pending_chunks c). map_of (mc_assignments c') i = None \<longrightarrow> (\<forall>p \<in> set ks. \<not> peer_available c' p)"
    by (auto simp: assign_pending_def)
  have sub: "set (coord_pending_chunks c') \<subseteq> {i \<in> set (coord_pending_chunks c). map_of (mc_assignments c') i = None}"
    by (auto simp: c' coord_pending_chunks_def with_assigned_def map_of_eq_None_iff)
  have full: "pst_is_banned p \<or> mc_max_concurrent_per_peer c \<le> count_assigned peer c'"
    if "coord_pending_chunks c' \<noteq> []" "mc_peer_stats c peer = Some p" for peer p
  proof -
    from that(1) obtain i where "i \<in> set (coord_pending_chunks c')" by (cases "coord_pending_chunks c'") auto
    with sub left have "\<forall>p \<in> set ks. \<not> peer_available c' p" by blast
    moreover have "peer \<in> set ks" using hm_order_member [OF assms(1), of peer] that(2) by simp
    ultimately show ?thesis using that(2) by (auto simp: peer_available_def c')
  qed
  have given: "ca_chunk_idx a \<in> set (coord_pending_chunks c) \<and> (\<exists>p. mc_peer_stats c (ca_peer_id a) = Some p \<and> \<not> pst_is_banned p)"
    if "a \<in> set new" for a
    using bspec [OF new that] by (auto simp: fresh_assignment_def peer_available_def split: option.splits)
  show ?thesis using c' given full by blast
qed

theorem assign_pending_conserving_witness:
  "fst (assign_pending [''a''] (\<lambda>_. F_Fin 0) 7 (new_coordinator 7 one_chunk)) = [fresh_assignment 7 0 ''a''] \<and>
   assigned_once = with_assigned (new_coordinator 7 one_chunk) [fresh_assignment 7 0 ''a'']"
proof -
  have order: "hm_order (mc_peer_stats (new_coordinator 7 one_chunk)) [''a'']"
    by (auto simp: hm_order_def new_coordinator_def one_chunk_def)
  obtain new c' where ap: "assign_pending [''a''] (\<lambda>_. F_Fin 0) 7 (new_coordinator 7 one_chunk) = (new, c')" by force
  then have c': "c' = assigned_once" by (simp add: assigned_once_def)
  from assign_pending_conserving [OF order ap] have eq: "assigned_once = with_assigned (new_coordinator 7 one_chunk) new" by (simp add: c')
  then have "map (\<lambda>a. (ca_chunk_idx a, a)) new = [(0, fresh_assignment 7 0 ''a'')]"
    by (simp add: with_assigned_def assigned_once_value new_coordinator_def fresh_assignment_def)
  then have "new = [fresh_assignment 7 0 ''a'']" by auto
  with eq ap show ?thesis by simp
qed

text \<open>
  Each call of the command builds its coordinator from the stored state, in which assignments are not kept. So every
  call gives out the first missing chunk, however often it was given out before.
\<close>

theorem every_call_assigns_first:
  assumes "net_load env L (path_of_string tmp) d = Ok s" and "ns_providers s \<noteq> []" and "set ks = set (ns_providers s)"
    and "i < length (ns_chunks s)" "net_wanted (ns_chunks s ! i)" "cmt_idx (ns_chunks s ! i) = i" "\<forall>j < i. \<not> net_wanted (ns_chunks s ! j)"
    and "p2p_chunk_assign_pending env L ks u now tmp d = Ok requests"
  shows "i \<in> set (map cf_chunk_idx requests)"
proof -
  let ?c = "new_coordinator now s"
  have dom: "mc_peer_stats ?c = (\<lambda>p. if p \<in> set (ns_providers s) then Some (new_peer_stats now p) else None)"
  proof -
    have "foldl (\<lambda>m p. m(p \<mapsto> new_peer_stats now p)) m ps = (\<lambda>p. if p \<in> set ps then Some (new_peer_stats now p) else m p)" for m :: "string \<rightharpoonup> peer_stats" and ps
      by (induction ps arbitrary: m) auto
    then show ?thesis by (simp add: new_coordinator_def)
  qed
  have avail: "peer_available ?c (hd (ns_providers s))"
    using assms(2) by (simp add: peer_available_def dom count_assigned_def) (simp add: new_coordinator_def new_peer_stats_def)
  have "filter net_wanted (ns_chunks s) = (ns_chunks s ! i) # filter net_wanted (drop (Suc i) (ns_chunks s))"
  proof -
    have "filter net_wanted (take i (ns_chunks s)) = []" using assms(4,7) by (auto simp: filter_empty_conv in_set_conv_nth)
    then show ?thesis using assms(4,5) by (metis (no_types, lifting) filter.simps(2) id_take_nth_drop filter_append append_Nil)
  qed
  then obtain rest where pending: "coord_pending_chunks ?c = i # rest"
    using assms(6) by (simp add: coord_pending_chunks_def new_coordinator_def)
  obtain p where one: "assign_one ks u now ([], ?c) i = ([fresh_assignment now i p], with_assigned ?c [fresh_assignment now i p])"
    using assign_one_cases [of ks ?c i u now "[]"] avail assms(2,3) by (auto simp: new_coordinator_def)
  obtain new where "fst (assign_pending ks u now ?c) = fresh_assignment now i p # new"
    using assign_round [of ks u now "[fresh_assignment now i p]" "with_assigned ?c [fresh_assignment now i p]" rest] one
    by (auto simp: assign_pending_def pending)
  then show ?thesis
    using assms(1,4,8) by (auto simp: p2p_chunk_assign_pending_def List.map_filter_simps fetch_request_def fresh_assignment_def)
qed

section \<open>Verification\<close>

lemma net_set_chunk_nth: "i < length (ns_chunks s) \<Longrightarrow>
    ns_chunks (net_set_chunk j st s) ! i = (if i = j then (ns_chunks s ! i)\<lparr>cmt_state := st\<rparr> else ns_chunks s ! i)"
  by (auto simp: net_set_chunk_def nth_list_update)

lemma net_set_chunk_length [simp]: "length (ns_chunks (net_set_chunk j st s)) = length (ns_chunks s)"
  by (simp add: net_set_chunk_def)

lemma net_mark_length [simp]:
  "length (ns_chunks (net_mark_failed now j s)) = length (ns_chunks s)"
  "length (ns_chunks (net_mark_verified now j s)) = length (ns_chunks s)"
  by (simp_all add: net_mark_failed_def net_mark_verified_def)

lemma net_mark_failed_nth: "i < length (ns_chunks s) \<Longrightarrow>
    ns_chunks (net_mark_failed now j s) ! i = (if i = j then (ns_chunks s ! i)\<lparr>cmt_state := NFailed\<rparr> else ns_chunks s ! i)"
  by (auto simp: net_mark_failed_def net_set_chunk_nth)

lemma net_mark_verified_nth: "i < length (ns_chunks s) \<Longrightarrow>
    ns_chunks (net_mark_verified now j s) ! i =
      (if i = j \<and> cmt_state (ns_chunks s ! i) = NDownloaded then (ns_chunks s ! i)\<lparr>cmt_state := NVerified\<rparr> else ns_chunks s ! i)"
  by (auto simp: net_mark_verified_def net_set_chunk_nth)

lemma mark_all_failed:
  "length (ns_chunks (foldl (\<lambda>t i. net_mark_failed (clock i) i t) s is)) = length (ns_chunks s) \<and>
   (i < length (ns_chunks s) \<longrightarrow> ns_chunks (foldl (\<lambda>t i. net_mark_failed (clock i) i t) s is) ! i =
      (if i \<in> set is then (ns_chunks s ! i)\<lparr>cmt_state := NFailed\<rparr> else ns_chunks s ! i))"
  by (induction "is" arbitrary: s) (auto simp: net_mark_failed_nth)

lemma mark_all_verified:
  "length (ns_chunks (foldl (\<lambda>t i. net_mark_verified (clock i) i t) s is)) = length (ns_chunks s) \<and>
   (i < length (ns_chunks s) \<longrightarrow> ns_chunks (foldl (\<lambda>t i. net_mark_verified (clock i) i t) s is) ! i =
      (if i \<in> set is \<and> cmt_state (ns_chunks s ! i) = NDownloaded then (ns_chunks s ! i)\<lparr>cmt_state := NVerified\<rparr> else ns_chunks s ! i))"
  by (induction "is" arbitrary: s) (auto simp: net_mark_verified_nth)

definition numbered :: "net_state \<Rightarrow> bool" where
  "numbered s \<longleftrightarrow> map cmt_idx (ns_chunks s) = [0 ..< length (ns_chunks s)]"

lemma numbered_nth: "numbered s \<Longrightarrow> i < length (ns_chunks s) \<Longrightarrow> cmt_idx (ns_chunks s ! i) = i"
  by (metis add_0 diff_zero length_upt nth_map nth_upt numbered_def)

lemma numbered_filter:
  assumes "numbered s" "i < length (ns_chunks s)"
  shows "i \<in> set (map cmt_idx (filter P (ns_chunks s))) \<longleftrightarrow> P (ns_chunks s ! i)"
proof
  assume "i \<in> set (map cmt_idx (filter P (ns_chunks s)))"
  then obtain j where "j < length (ns_chunks s)" "P (ns_chunks s ! j)" "i = cmt_idx (ns_chunks s ! j)"
    by (auto simp: in_set_conv_nth)
  with numbered_nth [OF assms(1), of j] show "P (ns_chunks s ! i)" by simp
next
  assume "P (ns_chunks s ! i)"
  with assms(2) have "ns_chunks s ! i \<in> set (filter P (ns_chunks s))" by simp
  then show "i \<in> set (map cmt_idx (filter P (ns_chunks s)))" using numbered_nth [OF assms] by force
qed

lemma net_init_chunks_numbered: "numbered (net_init_chunks s)"
  by (simp add: numbered_def net_init_chunks_def new_chunk_meta_def comp_def)

text \<open>A chunk with a hash passes exactly when its bytes can be read and have the hash.\<close>

lemma verify_chunk_hashed:
  assumes "cmt_hash c \<noteq> []"
  shows "verify_chunk_from_disk env L p c d = Ok True \<longleftrightarrow>
    (\<exists>content buf. d p = Some content \<and> read_exact (cmt_offset c) (cmt_size c) content = Some buf \<and> hash_chunk L buf = cmt_hash c \<and>
       \<not> io_fails env (IoOpen p) \<and> \<not> io_fails env (IoSeek p (cmt_offset c)) \<and> \<not> io_fails env (IoRead p))"
  using assms by (auto simp: verify_chunk_from_disk_def verify_chunk_hash_def split: option.splits)

text \<open>
  Verifying a stored download decides exactly the chunks that were downloaded: one whose bytes can be read and have the
  expected hash is verified, one that cannot be read or has another hash is failed, and no other chunk changes.
\<close>

theorem net_verify_exact:
  assumes "numbered s" "i < length (ns_chunks s)" "verify_all_chunks env L clock d s = (r, t)" "cmt_hash (ns_chunks s ! i) \<noteq> []"
  shows "length (ns_chunks t) = length (ns_chunks s) \<and>
    ns_chunks t ! i =
      (if cmt_state (ns_chunks s ! i) \<noteq> NDownloaded then ns_chunks s ! i
       else (ns_chunks s ! i)\<lparr>cmt_state :=
         if \<exists>content buf. d (path_of_string (ns_tmp_path s)) = Some content \<and>
              read_exact (cmt_offset (ns_chunks s ! i)) (cmt_size (ns_chunks s ! i)) content = Some buf \<and>
              hash_chunk L buf = cmt_hash (ns_chunks s ! i) \<and>
              \<not> io_fails env (IoOpen (path_of_string (ns_tmp_path s))) \<and>
              \<not> io_fails env (IoSeek (path_of_string (ns_tmp_path s)) (cmt_offset (ns_chunks s ! i))) \<and>
              \<not> io_fails env (IoRead (path_of_string (ns_tmp_path s)))
         then NVerified else NFailed\<rparr>)"
proof -
  let ?tmp = "path_of_string (ns_tmp_path s)"
  let ?c = "ns_chunks s ! i"
  define bad where "bad = failed_indices env L ?tmp d s"
  define good where "good = map cmt_idx (filter (\<lambda>c. cmt_state c = NDownloaded \<and> cmt_idx c \<notin> set bad) (ns_chunks s))"
  define s1 where "s1 = foldl (\<lambda>t i. net_mark_failed (clock i) i t) s bad"
  have t: "t = foldl (\<lambda>t i. net_mark_verified (clock i) i t) s1 good"
    using assms(3) by (simp add: verify_all_chunks_def Let_def bad_def good_def s1_def)
  have in_bad: "i \<in> set bad \<longleftrightarrow> cmt_state ?c = NDownloaded \<and> verify_chunk_from_disk env L ?tmp ?c d \<noteq> Ok True"
    unfolding bad_def failed_indices_def by (rule numbered_filter [OF assms(1,2)])
  have in_good: "i \<in> set good \<longleftrightarrow> cmt_state ?c = NDownloaded \<and> i \<notin> set bad"
    unfolding good_def numbered_filter [OF assms(1,2)] by (simp add: numbered_nth [OF assms(1,2)])
  have s1: "length (ns_chunks s1) = length (ns_chunks s)" "ns_chunks s1 ! i = (if i \<in> set bad then ?c\<lparr>cmt_state := NFailed\<rparr> else ?c)"
    using mark_all_failed [of clock s bad i] assms(2) by (simp_all add: s1_def)
  have t1: "length (ns_chunks t) = length (ns_chunks s)"
      "ns_chunks t ! i = (if i \<in> set good \<and> cmt_state (ns_chunks s1 ! i) = NDownloaded then (ns_chunks s1 ! i)\<lparr>cmt_state := NVerified\<rparr> else ns_chunks s1 ! i)"
    using mark_all_verified [of clock s1 good i] assms(2) by (simp_all add: t s1(1))
  show ?thesis
    unfolding verify_chunk_hashed [OF assms(4), symmetric] using t1 in_good in_bad by (simp add: s1(2))
qed

definition id_lib :: chunk_net_lib where
  "id_lib = \<lparr>nl_sha256 = \<lambda>b. b, nl_merkle_root = \<lambda>ls. if ls = [] then None else Some (hd ls), nl_to_json = \<lambda>_. Some ''{}'',
     nl_from_json = \<lambda>_. None, nl_manifest_to_json = \<lambda>_. None, nl_manifest_from_json = \<lambda>_. None\<rparr>"

definition ready_state :: net_state where
  "ready_state = (new_net_state 0 ''r'' ''f'' 2 ''/t'' ''/d'')\<lparr>ns_chunks := [(new_chunk_meta 0 0 2 ''6162'')\<lparr>cmt_state := NDownloaded\<rparr>]\<rparr>"

theorem net_verify_exact_witness:
  "ns_chunks (snd (verify_all_chunks no_faults id_lib (\<lambda>_. 7) [path_of_string ''/t'' \<mapsto> ''ab''] ready_state)) ! 0 =
     (new_chunk_meta 0 0 2 ''6162'')\<lparr>cmt_state := NVerified\<rparr>"
proof -
  let ?v = "verify_all_chunks no_faults id_lib (\<lambda>_. 7) [path_of_string ''/t'' \<mapsto> ''ab''] ready_state"
  have s: "numbered ready_state" "ns_tmp_path ready_state = ''/t''"
      "ns_chunks ready_state = [(new_chunk_meta 0 0 2 ''6162'')\<lparr>cmt_state := NDownloaded\<rparr>]"
    by (simp_all add: numbered_def ready_state_def new_net_state_def new_chunk_meta_def)
  have hash: "hash_chunk id_lib ''ab'' = ''6162''" unfolding hash_chunk_def id_lib_def by code_simp
  have v: "?v = (fst ?v, snd ?v)" by simp
  from net_verify_exact [OF s(1) _ v, of 0] hash show ?thesis
    by (simp add: s new_chunk_meta_def read_exact_def)
qed

text \<open>A chunk whose hash is not known passes without being read, whatever the disk holds; without a manifest no hash is known.\<close>

theorem unhashed_chunk_passes:
  assumes "cmt_hash c = []"
  shows "verify_chunk_from_disk env L p c d = Ok True"
  using assms by (simp add: verify_chunk_from_disk_def)

lemma no_manifest_no_hash: "c \<in> set (ns_chunks (net_init_chunks s)) \<Longrightarrow> cmt_hash c = []"
  by (auto simp: net_init_chunks_def new_chunk_meta_def split: if_splits)

section \<open>The byte counter\<close>

definition net_bytes :: "net_chunk_meta list \<Rightarrow> nat" where
  "net_bytes cs = sum_list (map cmt_size (filter (\<lambda>c. cmt_state c = NVerified) cs))"

definition counted :: "net_state \<Rightarrow> bool" where
  "counted s \<longleftrightarrow> ns_verified_bytes s = net_bytes (ns_chunks s) \<and> sum_list (map cmt_size (ns_chunks s)) < 2 ^ 64"

lemma net_bytes_update:
  assumes "i < length cs"
  shows "net_bytes (cs[i := c]) + (if cmt_state (cs ! i) = NVerified then cmt_size (cs ! i) else 0)
       = net_bytes cs + (if cmt_state c = NVerified then cmt_size c else 0)"
  using assms
proof (induction cs arbitrary: i)
  case (Cons x xs)
  show ?case
  proof (cases i)
    case (Suc j)
    with Cons.prems Cons.IH [of j] show ?thesis by (auto simp: net_bytes_def)
  qed (simp add: net_bytes_def)
qed simp

lemma net_bytes_le: "net_bytes cs \<le> sum_list (map cmt_size cs)"
  by (induction cs) (auto simp: net_bytes_def)

lemma set_state_sizes: "map cmt_size (cs[i := (cs ! i)\<lparr>cmt_state := st\<rparr>]) = map cmt_size cs"
  by (cases "i < length cs") (simp_all add: map_update list_update_same_conv list_update_beyond)

lemma mark_verified_counted: "counted s \<Longrightarrow> counted (net_mark_verified now i s)"
proof (cases "i < length (ns_chunks s) \<and> cmt_state (ns_chunks s ! i) = NDownloaded")
  case True
  assume c: "counted s"
  let ?cs = "(ns_chunks s)[i := (ns_chunks s ! i)\<lparr>cmt_state := NVerified\<rparr>]"
  have b: "net_bytes ?cs = ns_verified_bytes s + cmt_size (ns_chunks s ! i)"
    using net_bytes_update [of i "ns_chunks s" "(ns_chunks s ! i)\<lparr>cmt_state := NVerified\<rparr>"] True c by (simp add: counted_def)
  have "net_bytes ?cs < 2 ^ 64" using net_bytes_le [of ?cs] c by (simp add: set_state_sizes counted_def)
  with b c True show ?thesis by (simp add: counted_def net_mark_verified_def net_set_chunk_def set_state_sizes wadd64_no_overflow)
qed (auto simp: net_mark_verified_def)

lemma mark_failed_counted:
  assumes "counted s"
  shows "counted (net_mark_failed now i s)"
proof (cases "i < length (ns_chunks s)")
  case True
  with net_bytes_update [OF True, of "(ns_chunks s ! i)\<lparr>cmt_state := NFailed\<rparr>"] assms show ?thesis
    by (auto simp: counted_def net_mark_failed_def net_set_chunk_def set_state_sizes sat_sub_def)
qed (use assms in \<open>simp add: net_mark_failed_def\<close>)

lemma mark_downloaded_counted:
  assumes "counted s" "i < length (ns_chunks s) \<longrightarrow> cmt_state (ns_chunks s ! i) \<noteq> NVerified"
  shows "counted (net_mark_downloaded now i s)"
proof (cases "i < length (ns_chunks s)")
  case True
  with net_bytes_update [OF True, of "(ns_chunks s ! i)\<lparr>cmt_state := NDownloaded\<rparr>"] assms show ?thesis
    by (auto simp: counted_def net_mark_downloaded_def net_set_chunk_def set_state_sizes)
qed (use assms in \<open>simp add: net_mark_downloaded_def\<close>)

lemma foldl_counted: "(\<And>s x. counted s \<Longrightarrow> counted (f s x)) \<Longrightarrow> counted s \<Longrightarrow> counted (foldl f s xs)"
  by (induction xs arbitrary: s) auto

lemma verify_all_counted: "counted s \<Longrightarrow> counted (snd (verify_all_chunks env L clock d s))"
  by (simp add: verify_all_chunks_def Let_def foldl_counted mark_verified_counted mark_failed_counted)

text \<open>
  The state a chunk is in is not looked at when it arrives: a verified chunk that arrives again goes through verification
  again and is counted again, so the progress of a file can pass 1.
\<close>

theorem verified_chunk_counted_twice:
  assumes "counted s" "i < length (ns_chunks s)" "cmt_state (ns_chunks s ! i) = NVerified" "0 < cmt_size (ns_chunks s ! i)"
    and "ns_verified_bytes s + cmt_size (ns_chunks s ! i) < 2 ^ 64" "t = net_mark_verified t2 i (net_mark_downloaded t1 i s)"
  shows "ns_chunks t = ns_chunks s \<and> ns_verified_bytes t = ns_verified_bytes s + cmt_size (ns_chunks s ! i) \<and> \<not> counted t"
proof -
  have chunks: "(ns_chunks s)[i := (ns_chunks s ! i)\<lparr>cmt_state := NVerified\<rparr>] = ns_chunks s"
    using assms(2,3) by (simp add: list_update_same_conv)
  have "ns_chunks t = ns_chunks s" "ns_verified_bytes t = ns_verified_bytes s + cmt_size (ns_chunks s ! i)"
    using assms(2,5) chunks by (simp_all add: assms(6) net_mark_verified_def net_mark_downloaded_def net_set_chunk_def wadd64_no_overflow)
  with assms(1,4) show ?thesis by (simp add: counted_def)
qed

theorem verified_chunk_counted_twice_witness:
  "ns_verified_bytes (net_mark_verified 4 0 (net_mark_downloaded 3 0 (net_mark_verified 2 0 ready_state))) = 4 \<and>
   ns_file_size ready_state = 2"
proof -
  let ?s = "net_mark_verified 2 0 ready_state"
  have s: "ns_chunks ?s = [(new_chunk_meta 0 0 2 ''6162'')\<lparr>cmt_state := NVerified\<rparr>]" "ns_verified_bytes ?s = 2"
    by (simp_all add: ready_state_def new_net_state_def net_mark_verified_def net_set_chunk_def new_chunk_meta_def wadd64_def)
  have "counted ?s" by (simp add: counted_def s net_bytes_def new_chunk_meta_def)
  from verified_chunk_counted_twice [OF this _ _ _ _ refl, of 0 4 3] show ?thesis
    by (simp add: s new_chunk_meta_def) (simp add: ready_state_def new_net_state_def)
qed

text \<open>A verified chunk that is found damaged is set to be fetched again, but stays in the counter.\<close>

theorem damaged_chunk_stays_counted:
  assumes "counted s" "i < length (ns_chunks s)" "cmt_state (ns_chunks s ! i) = NVerified" "0 < cmt_size (ns_chunks s ! i)"
    and "t = snd (mark_corrupted_for_redownload now [i] s)"
  shows "cmt_state (ns_chunks t ! i) = NFailed \<and> ns_verified_bytes t = ns_verified_bytes s \<and> \<not> counted t"
proof -
  have t: "ns_chunks t = (ns_chunks s)[i := (ns_chunks s ! i)\<lparr>cmt_state := NFailed\<rparr>]" "ns_verified_bytes t = ns_verified_bytes s"
    using assms(2) by (simp_all add: assms(5) mark_corrupted_for_redownload_def mark_one_corrupted_def net_set_chunk_def wadd32_def)
  with net_bytes_update [OF assms(2), of "(ns_chunks s ! i)\<lparr>cmt_state := NFailed\<rparr>"] assms(1-4) show ?thesis
    by (simp add: counted_def)
qed

section \<open>The state file\<close>

lemma net_meta_tmp_distinct: "with_extension (net_meta_path p) ''tmp'' \<noteq> net_meta_path p"
proof -
  let ?n = "(case file_name p of Some n \<Rightarrow> n | None \<Rightarrow> ''download'') @ ''.chiral.chunk.meta''"
  have name: "last (net_meta_path p) = ?n @ CHR ''.'' # ''json''" by (simp add: net_meta_path_def META_EXT_def with_file_name_def)
  have fn: "file_name (net_meta_path p) = Some (?n @ CHR ''.'' # ''json'')"
    using name by (simp add: file_name_def net_meta_path_def META_EXT_def with_file_name_def)
  have "file_stem (?n @ CHR ''.'' # ''json'') = ?n" by (rule file_stem_append) simp_all
  with fn have "last (with_extension (net_meta_path p) ''tmp'') = ?n @ ''.tmp''" by (simp add: with_extension_def)
  with name show ?thesis by auto
qed

text \<open>After a success the stored state is the one written, after a failure the one before; no other file but the temporary one is touched.\<close>

theorem net_persist_atomic:
  assumes "nl_to_json L s = Some b" "nl_from_json L b = Some s" "utf8_valid b" "p = net_meta_path (path_of_string (ns_tmp_path s))"
    and "net_persist env L s d = (r, d')" "\<not> io_fails env (IoRead p)"
  shows "(r = Ok () \<longrightarrow> net_load env L (path_of_string (ns_tmp_path s)) d' = Ok s) \<and> (r \<noteq> Ok () \<longrightarrow> d' p = d p) \<and>
    (\<forall>q. q \<noteq> p \<and> q \<noteq> with_extension p ''tmp'' \<longrightarrow> d' q = d q)"
proof -
  have ne: "with_extension p ''tmp'' \<noteq> p" unfolding assms(4) by (rule net_meta_tmp_distinct)
  obtain w where w: "write_rename env (with_extension p ''tmp'') p b d = (w, d')" "r = map_err CnIoErr w"
    using assms(1,5) by (auto simp: net_persist_def assms(4) Let_def split: prod.splits)
  have other: "d' q = d q" if "q \<noteq> p" "q \<noteq> with_extension p ''tmp''" for q
    using write_rename_other [OF ne that(2,1), of env b d] w(1) by simp
  show ?thesis
  proof (cases w)
    case (Inl e)
    with write_rename_err [OF ne w(1) [unfolded Inl], of p] ne w(2) other show ?thesis by auto
  next
    case (Inr u)
    from write_rename_ok [OF ne w(1) [unfolded Inr]] have "d' p = Some b" by simp
    with assms(2,3,4,6) Inr w(2) other show ?thesis by (auto simp: net_load_def fs_read_def Let_def)
  qed
qed

section \<open>Recovery that fails\<close>

text \<open>
  Only a root that does not match releases the entry of the active recoveries. After every other error the download counts
  as being recovered, and each later attempt reports success without having looked at a byte.
\<close>

theorem failed_recovery_blocks:
  assumes "ns_merkle_root s \<notin> nv_active v" "start_recovery env L clock now seeders s v = (Err e, v')" "e \<noteq> CnMerkleInvalid"
    and "ns_merkle_root t = ns_merkle_root s"
  shows "recovery_is_active (ns_merkle_root s) v' \<and> start_recovery env' L' clock' now' seeders' t v' = (Ok t, v')"
proof -
  have "ns_merkle_root s \<in> nv_active v'"
    using assms(1-3) by (auto simp: start_recovery_def enter_recovery_def recover_chunks_def Let_def split: sum.splits bool.splits prod.splits)
  with assms(4) show ?thesis by (simp add: recovery_is_active_def start_recovery_def)
qed

definition manifest_lib :: "string list \<Rightarrow> net_state \<Rightarrow> chunk_net_lib" where
  "manifest_lib hs s = id_lib\<lparr>nl_from_json := \<lambda>_. Some s, nl_manifest_from_json := \<lambda>_. Some \<lparr>fm_merkle_root = ''r'',
     fm_chunks = map (toy_info 0) hs, fm_encrypted_key_bundle = None\<rparr>\<rparr>"

definition with_manifest :: net_state where
  "with_manifest = ready_state\<lparr>ns_manifest_json := Some ''m''\<rparr>"

theorem failed_recovery_blocks_witness:
  "let v = \<lparr>nv_active = {}, nv_disk = Map.empty\<rparr>; L = manifest_lib [] with_manifest;
       v' = snd (start_recovery no_faults L (\<lambda>_. 1) 2 [] with_manifest v)
   in fst (start_recovery no_faults L (\<lambda>_. 1) 2 [] with_manifest v) = Err CnManifestMissing \<and>
      start_recovery no_faults L (\<lambda>_. 3) 4 [] with_manifest v' = (Ok with_manifest, v')"
proof -
  let ?v = "\<lparr>nv_active = {}, nv_disk = Map.empty\<rparr>"
  let ?L = "manifest_lib [] with_manifest"
  let ?r = "start_recovery no_faults ?L (\<lambda>_. 1) 2 [] with_manifest ?v"
  have r: "?r = (Err CnManifestMissing, snd ?r)"
    by (simp add: start_recovery_def enter_recovery_def check_manifest_def with_manifest_def manifest_lib_def verify_merkle_root_def
        compute_merkle_root_def manifest_hashes_def Let_def)
  have "start_recovery no_faults ?L (\<lambda>_. 3) 4 [] with_manifest (snd ?r) = (Ok with_manifest, snd ?r)"
    using failed_recovery_blocks [OF _ r _ refl, of no_faults ?L "\<lambda>_. 3" 4 "[]"] by simp
  then show ?thesis unfolding Let_def using arg_cong [OF r, of fst] by simp
qed

text \<open>Two tasks may both find a download inactive before either enters it: the second entry is not refused.\<close>

theorem entry_not_exclusive:
  assumes "check_manifest L s = Ok True" "net_persist env L (snd (verify_all_chunks env L clock (nv_disk v) (snd (refresh_providers now seeders s)))) (nv_disk v) = (Ok (), d)"
    and "recovery_is_active (ns_merkle_root s) v"
  shows "fst (enter_recovery env L clock now seeders s v) = Ok (snd (verify_all_chunks env L clock (nv_disk v) (snd (refresh_providers now seeders s))))"
  using assms by (simp add: enter_recovery_def recover_chunks_def Let_def)

text \<open>
  The end of a download does not use the result of the check of the Merkle root: a download whose chunk hashes do not
  give the root it was requested by is reported complete and its state is removed, as for one that matches.
\<close>

theorem mismatch_reported_complete:
  assumes "net_load env L (path_of_string tmp) d = Ok s" "ns_manifest_json s = Some j" "nl_manifest_from_json L j = Some m"
    and "compute_merkle_root L (manifest_hashes m) = Ok h" "h \<noteq> ns_merkle_root s" "\<not> io_fails env (IoRemove (net_meta_path (path_of_string tmp)))"
  shows "fst (on_download_complete env L tmp d) = Ok () \<and>
    snd (on_download_complete env L tmp d) (net_meta_path (path_of_string tmp)) = None"
proof -
  have "check_manifest L s = Ok False" using assms(2-5) by (simp add: check_manifest_def verify_merkle_root_def)
  with assms(1,6) show ?thesis
    by (auto simp: on_download_complete_def net_remove_meta_def fs_remove_def split: option.splits)
qed

theorem mismatch_reported_complete_witness:
  "fst (on_download_complete no_faults (manifest_lib [replicate 32 (CHR 0x00)] with_manifest) ''/t'' [net_meta_path (path_of_string ''/t'') \<mapsto> ''{}'']) = Ok ()"
proof -
  let ?L = "manifest_lib [replicate 32 (CHR 0x00)] with_manifest"
  let ?d = "[net_meta_path (path_of_string ''/t'') \<mapsto> ''{}'']"
  have "utf8_valid ''{}''" by code_simp
  then have load: "net_load no_faults ?L (path_of_string ''/t'') ?d = Ok with_manifest"
    by (simp add: net_load_def fs_read_def manifest_lib_def)
  have dec: "hex_decode (replicate 64 (CHR ''0'')) = Some (replicate 32 (CHR 0x00))" by code_simp
  have enc: "hex_encode (replicate 32 (CHR 0x00)) = replicate 64 (CHR ''0'')" by code_simp
  have root: "compute_merkle_root ?L (manifest_hashes (the (nl_manifest_from_json ?L ''m''))) = Ok (replicate 64 (CHR ''0''))"
    by (simp only: manifest_hashes_def compute_merkle_root_def)
      (simp add: manifest_lib_def id_lib_def toy_info_def dec enc del: replicate_Suc)
  have "replicate 64 (CHR ''0'') \<noteq> ns_merkle_root with_manifest"
    by (rule notI, drule arg_cong [where f = length]) (simp add: with_manifest_def ready_state_def new_net_state_def)
  with mismatch_reported_complete [OF load _ _ root, of "''m''"] show ?thesis
    by (simp add: with_manifest_def manifest_lib_def)
qed

end
