(* ===== verification/Bandwidth.thy ===== *)
theory Bandwidth
  imports F64 Actions Interfaces
begin

text \<open>
  The bandwidth limiter shared by uploads and downloads: \<^verbatim>\<open>src-tauri/src/bandwidth.rs\<close>. Token buckets, the loop in which a transfer waits for its
  tokens, usage counters and the events for the front end.

  An \<open>Instant\<close> is a number of nanoseconds and is an argument where the code reads the clock; event timestamps (milliseconds) are
  arguments too. Of the event bus only its presence matters to the code, and of the application handle too; the controller
  keeps the events that were emitted.

  Shown: the tokens of a bucket stay between 0 and two seconds' worth, in every state the operations can reach, and nothing panics; a grant
  never exceeds the burst; an empty bucket grants a request once it had the time; counters add up. Defects are theorems:
  a request above two seconds' worth waits for ever, and because a bucket that has too little is emptied, a
  request that is woken exactly when it was told to be can wait for ever as well.
\<close>

section \<open>Token buckets\<close>

record token_bucket =
  tb_limit_bytes_per_sec :: "f64 option"
  tb_tokens :: f64
  tb_capacity :: f64
  tb_last_refill :: nat
  tb_limit_kbps_value :: u64

definition bucket_unlimited :: "nat \<Rightarrow> token_bucket" where
  "bucket_unlimited now = \<lparr>tb_limit_bytes_per_sec = None, tb_tokens = F_Inf False, tb_capacity = F_Inf False,
     tb_last_refill = now, tb_limit_kbps_value = 0\<rparr>"

definition limit_kbps :: "token_bucket \<Rightarrow> u64" where
  "limit_kbps b = tb_limit_kbps_value b"

definition available_tokens :: "token_bucket \<Rightarrow> f64" where
  "available_tokens b = tb_tokens b"

definition set_limit :: "nat \<Rightarrow> u64 \<Rightarrow> token_bucket \<Rightarrow> token_bucket" where
  "set_limit now kbps b =
     (if kbps = 0
      then b\<lparr>tb_limit_kbps_value := 0, tb_limit_bytes_per_sec := None, tb_tokens := F_Inf False, tb_capacity := F_Inf False, tb_last_refill := now\<rparr>
      else let l = f64_mul (f64_of_u64 kbps) (F_Fin 1024); cap = f64_mul l (F_Fin 2)
           in b\<lparr>tb_limit_kbps_value := kbps, tb_limit_bytes_per_sec := Some l, tb_capacity := cap,
                tb_tokens := f64_min (tb_tokens b) cap, tb_last_refill := now\<rparr>)"

definition refill :: "nat \<Rightarrow> f64 \<Rightarrow> token_bucket \<Rightarrow> token_bucket" where
  "refill now l b =
     (let elapsed = secs_f64 (now - tb_last_refill b)
      in if f64_le elapsed (F_Fin 0) then b
         else b\<lparr>tb_tokens := f64_min (f64_add (tb_tokens b) (f64_mul elapsed l)) (tb_capacity b), tb_last_refill := now\<rparr>)"

text \<open>
  \<open>Duration::from_secs_f64\<close> rounds to the nearest nanosecond, a tie to the even one; it panics on a value that is negative,
  not finite or too large.
\<close>

fun duration_from_secs :: "f64 \<Rightarrow> (string, nat) result" where
  "duration_from_secs (F_Fin q) = (if 0 \<le> q \<and> q < 2 ^ 64 then Ok (nat (rhe (q * 10 ^ 9))) else Err ''from_secs_f64'')"
| "duration_from_secs _ = Err ''from_secs_f64''"

text \<open>\<open>Err\<close> is a panic, \<open>Ok None\<close> a grant, and \<open>Ok (Some d)\<close> asks to wait \<open>d\<close> nanoseconds; \<open>f64::EPSILON\<close> is \<open>2\<close> to the \<open>-52\<close>.\<close>

definition consume :: "nat \<Rightarrow> usize \<Rightarrow> (token_bucket, string, nat option) act" where
  "consume now bytes b =
     (case tb_limit_bytes_per_sec b of
        None \<Rightarrow> (Ok None, b)
      | Some l \<Rightarrow>
          if f64_le l (F_Fin (1 / 2 ^ 52)) then (Ok None, b)
          else let b1 = refill now l b; required = f64_of_u64 bytes
               in if f64_le required (tb_tokens b1) then (Ok None, b1\<lparr>tb_tokens := f64_sub (tb_tokens b1) required\<rparr>)
                  else let deficit = f64_sub required (tb_tokens b1); b2 = b1\<lparr>tb_tokens := F_Fin 0\<rparr>; wait_secs = f64_div deficit l
                       in if f64_le wait_secs (F_Fin 0) then (Ok None, b2)
                          else (rbind (duration_from_secs wait_secs) (\<lambda>d. Ok (Some d)), b2))"

section \<open>Events\<close>

record limits_changed_event =
  lc_upload_limit_kbps :: u64
  lc_download_limit_kbps :: u64
  lc_previous_upload_limit_kbps :: u64
  lc_previous_download_limit_kbps :: u64
  lc_timestamp :: u64

record throttled_event =
  th_transfer_id :: "string option"
  th_direction :: string
  th_requested_bytes :: usize
  th_available_tokens :: f64
  th_wait_duration_ms :: u64
  th_timestamp :: u64

record throttle_released_event =
  tr_transfer_id :: "string option"
  tr_direction :: string
  tr_waited_ms :: u64
  tr_timestamp :: u64

record bandwidth_usage_event =
  bu_upload_bytes_used :: u64
  bu_download_bytes_used :: u64
  bu_upload_limit_kbps :: u64
  bu_download_limit_kbps :: u64
  bu_upload_utilization_percent :: f64
  bu_download_utilization_percent :: f64
  bu_period_seconds :: u64
  bu_timestamp :: u64

datatype bandwidth_event =
    LimitsChanged limits_changed_event
  | Throttled throttled_event
  | ThrottleReleased throttle_released_event
  | UsageStats bandwidth_usage_event

fun bandwidth_event_type :: "bandwidth_event \<Rightarrow> string" where
  "bandwidth_event_type (LimitsChanged _) = ''limits_changed''"
| "bandwidth_event_type (Throttled _) = ''throttled''"
| "bandwidth_event_type (ThrottleReleased _) = ''throttle_released''"
| "bandwidth_event_type (UsageStats _) = ''usage_stats''"

section \<open>The controller\<close>

record bw_inner =
  bi_upload :: token_bucket
  bi_download :: token_bucket
  bi_upload_bytes_used :: u64
  bi_download_bytes_used :: u64
  bi_stats_last_reset :: nat

record bandwidth_controller =
  bc_inner :: bw_inner
  bc_event_bus :: bool
  bc_app_handle :: bool
  bc_emitted :: "(string \<times> bandwidth_event) list"

definition new_bw_inner :: "nat \<Rightarrow> bw_inner" where
  "new_bw_inner now = \<lparr>bi_upload = bucket_unlimited now, bi_download = bucket_unlimited now, bi_upload_bytes_used = 0,
     bi_download_bytes_used = 0, bi_stats_last_reset = now\<rparr>"

definition new_bandwidth_controller :: "nat \<Rightarrow> bandwidth_controller" where
  "new_bandwidth_controller now = \<lparr>bc_inner = new_bw_inner now, bc_event_bus = False, bc_app_handle = False, bc_emitted = []\<rparr>"

definition with_event_bus :: "nat \<Rightarrow> bandwidth_controller" where
  "with_event_bus now = \<lparr>bc_inner = new_bw_inner now, bc_event_bus = True, bc_app_handle = False, bc_emitted = []\<rparr>"

definition set_event_bus :: "bandwidth_controller \<Rightarrow> bandwidth_controller" where
  "set_event_bus c = c\<lparr>bc_event_bus := True\<rparr>"

definition set_app_handle :: "bandwidth_controller \<Rightarrow> bandwidth_controller" where
  "set_app_handle c = c\<lparr>bc_app_handle := True\<rparr>"

definition emit_bandwidth_event :: "bandwidth_event \<Rightarrow> bandwidth_controller \<Rightarrow> bandwidth_controller" where
  "emit_bandwidth_event e c =
     (if bc_app_handle c then c\<lparr>bc_emitted := bc_emitted c @ [(''bandwidth:'' @ bandwidth_event_type e, e)]\<rparr> else c)"

text \<open>What is emitted only if there is an event bus.\<close>

definition bus_emit :: "bandwidth_event \<Rightarrow> bandwidth_controller \<Rightarrow> bandwidth_controller" where
  "bus_emit e c = (if bc_event_bus c then emit_bandwidth_event e c else c)"

definition set_limits :: "nat \<Rightarrow> nat \<Rightarrow> u64 \<Rightarrow> u64 \<Rightarrow> u64 \<Rightarrow> bandwidth_controller \<Rightarrow> bandwidth_controller" where
  "set_limits t1 t2 ts upload_kbps download_kbps c =
     (let i = bc_inner c; prev_upload = limit_kbps (bi_upload i); prev_download = limit_kbps (bi_download i);
          c1 = c\<lparr>bc_inner := i\<lparr>bi_upload := set_limit t1 upload_kbps (bi_upload i), bi_download := set_limit t2 download_kbps (bi_download i)\<rparr>\<rparr>
      in bus_emit (LimitsChanged \<lparr>lc_upload_limit_kbps = upload_kbps, lc_download_limit_kbps = download_kbps,
           lc_previous_upload_limit_kbps = prev_upload, lc_previous_download_limit_kbps = prev_download, lc_timestamp = ts\<rparr>) c1)"

definition get_limits :: "bandwidth_controller \<Rightarrow> u64 \<times> u64" where
  "get_limits c = (limit_kbps (bi_upload (bc_inner c)), limit_kbps (bi_download (bc_inner c)))"

definition is_limited :: "bandwidth_controller \<Rightarrow> bool \<times> bool" where
  "is_limited c = (tb_limit_bytes_per_sec (bi_upload (bc_inner c)) \<noteq> None, tb_limit_bytes_per_sec (bi_download (bc_inner c)) \<noteq> None)"

datatype bw_direction = DirUpload | DirDownload

fun direction_as_str :: "bw_direction \<Rightarrow> string" where
  "direction_as_str DirUpload = ''upload''"
| "direction_as_str DirDownload = ''download''"

fun bucket_of :: "bw_direction \<Rightarrow> bw_inner \<Rightarrow> token_bucket" where
  "bucket_of DirUpload i = bi_upload i"
| "bucket_of DirDownload i = bi_download i"

fun set_bucket :: "bw_direction \<Rightarrow> token_bucket \<Rightarrow> bw_inner \<Rightarrow> bw_inner" where
  "set_bucket DirUpload b i = i\<lparr>bi_upload := b\<rparr>"
| "set_bucket DirDownload b i = i\<lparr>bi_download := b\<rparr>"

fun track_usage :: "bw_direction \<Rightarrow> usize \<Rightarrow> bw_inner \<Rightarrow> bw_inner" where
  "track_usage DirUpload bytes i = i\<lparr>bi_upload_bytes_used := wadd64 (bi_upload_bytes_used i) bytes\<rparr>"
| "track_usage DirDownload bytes i = i\<lparr>bi_download_bytes_used := wadd64 (bi_download_bytes_used i) bytes\<rparr>"

text \<open>
  The loop of a waiting transfer. Each pass is one critical section; \<open>wakes\<close> are the readings of the two clocks in the passes. The
  result says whether the transfer was throttled, and is \<open>None\<close> while it still waits.
\<close>

fun acquire_loop :: "bw_direction \<Rightarrow> usize \<Rightarrow> string option \<Rightarrow> (nat \<times> u64) list \<Rightarrow> bool \<Rightarrow> (bandwidth_controller, string, bool option) act" where
  "acquire_loop dir bytes tid [] was_throttled c = (Ok None, c)"
| "acquire_loop dir bytes tid ((now, ts) # wakes) was_throttled c =
     (let b = bucket_of dir (bc_inner c); tokens = available_tokens b
      in case consume now bytes b of
           (Inl p, b1) \<Rightarrow> (Err p, c\<lparr>bc_inner := set_bucket dir b1 (bc_inner c)\<rparr>)
         | (Inr r, b1) \<Rightarrow>
             (let c1 = c\<lparr>bc_inner := set_bucket dir b1 (bc_inner c)\<rparr>
              in case r of
                   None \<Rightarrow> (Ok (Some was_throttled), c1)
                 | Some delay \<Rightarrow>
                     if delay = 0 then (Ok (Some was_throttled), c1)
                     else acquire_loop dir bytes tid wakes True
                       (if was_throttled then c1
                        else bus_emit (Throttled \<lparr>th_transfer_id = tid, th_direction = direction_as_str dir, th_requested_bytes = bytes,
                               th_available_tokens = tokens, th_wait_duration_ms = as_millis_u64 delay, th_timestamp = ts\<rparr>) c1)))"

definition acquire_bandwidth ::
  "bw_direction \<Rightarrow> usize \<Rightarrow> string option \<Rightarrow> nat \<Rightarrow> (nat \<times> u64) list \<Rightarrow> nat \<Rightarrow> u64 \<Rightarrow> (bandwidth_controller, string, unit option) act" where
  "acquire_bandwidth dir bytes tid started wakes ended ts c =
     (if bytes = 0 then (Ok (Some ()), c)
      else case acquire_loop dir bytes tid wakes False c of
             (Inl p, c1) \<Rightarrow> (Err p, c1)
           | (Inr None, c1) \<Rightarrow> (Ok None, c1)
           | (Inr (Some was_throttled), c1) \<Rightarrow>
               (let c2 = c1\<lparr>bc_inner := track_usage dir bytes (bc_inner c1)\<rparr>
                in (Ok (Some ()), if was_throttled
                      then bus_emit (ThrottleReleased \<lparr>tr_transfer_id = tid, tr_direction = direction_as_str dir,
                             tr_waited_ms = as_millis_u64 (ended - started), tr_timestamp = ts\<rparr>) c2
                      else c2)))"

section \<open>Usage\<close>

text \<open>The elapsed time and the new start are two readings of the clock.\<close>

definition get_and_reset_usage :: "nat \<Rightarrow> nat \<Rightarrow> bandwidth_controller \<Rightarrow> (u64 \<times> u64 \<times> u64) \<times> bandwidth_controller" where
  "get_and_reset_usage t1 t2 c =
     (let i = bc_inner c
      in ((bi_upload_bytes_used i, bi_download_bytes_used i, (t1 - bi_stats_last_reset i) div 10 ^ 9),
          c\<lparr>bc_inner := i\<lparr>bi_upload_bytes_used := 0, bi_download_bytes_used := 0, bi_stats_last_reset := t2\<rparr>\<rparr>))"

definition utilization :: "u64 \<Rightarrow> u64 \<Rightarrow> u64 \<Rightarrow> f64" where
  "utilization used kbps period =
     (if 0 < kbps \<and> 0 < period
      then f64_mul (f64_div (f64_of_u64 used) (f64_of_u64 (wmul64 (wmul64 kbps 1024) period))) (F_Fin 100)
      else F_Fin 0)"

definition emit_usage_stats :: "nat \<Rightarrow> nat \<Rightarrow> u64 \<Rightarrow> bandwidth_controller \<Rightarrow> bandwidth_controller" where
  "emit_usage_stats t1 t2 ts c =
     (case get_and_reset_usage t1 t2 c of
        ((upload, download, period), c1) \<Rightarrow>
          let (upload_limit, download_limit) = get_limits c1
          in bus_emit (UsageStats \<lparr>bu_upload_bytes_used = upload, bu_download_bytes_used = download, bu_upload_limit_kbps = upload_limit,
               bu_download_limit_kbps = download_limit, bu_upload_utilization_percent = utilization upload upload_limit period,
               bu_download_utilization_percent = utilization download download_limit period, bu_period_seconds = period, bu_timestamp = ts\<rparr>) c1)"

section \<open>The bucket invariant\<close>

text \<open>
  Limits below four terabytes per second, for which the arithmetic on limits is exact. \<open>bucket_ok L b\<close>: the bucket has the limit \<open>L\<close>
  in bytes per second.
\<close>

definition rate_of :: "u64 \<Rightarrow> rat" where
  "rate_of kbps = of_nat kbps * 1024"

definition bucket_ok :: "token_bucket \<Rightarrow> bool" where
  "bucket_ok b \<longleftrightarrow> (if tb_limit_kbps_value b = 0
     then tb_limit_bytes_per_sec b = None \<and> tb_tokens b = F_Inf False \<and> tb_capacity b = F_Inf False
     else tb_limit_kbps_value b \<le> 2 ^ 42 \<and> tb_limit_bytes_per_sec b = Some (F_Fin (rate_of (tb_limit_kbps_value b))) \<and>
          tb_capacity b = F_Fin (2 * rate_of (tb_limit_kbps_value b)) \<and>
          f64_in 0 (2 * rate_of (tb_limit_kbps_value b)) (tb_tokens b))"

lemma exact_scaled:
  assumes "kbps \<le> 2 ^ 42" "n \<le> 2048"
  shows "f64_exact (of_nat (kbps * n))"
proof (rule f64_exact_nat)
  have "kbps * n \<le> 2 ^ 42 * 2048" using assms by (rule mult_le_mono)
  then show "kbps * n \<le> 2 ^ 53" by simp
qed

lemma rate_exact:
  assumes "kbps \<le> 2 ^ 42"
  shows "f64_of_u64 kbps = F_Fin (of_nat kbps)" "f64_exact (rate_of kbps)" "f64_exact (2 * rate_of kbps)"
proof -
  show "f64_of_u64 kbps = F_Fin (of_nat kbps)" by (rule f64_of_u64_exact) (use assms in simp)
  show "f64_exact (rate_of kbps)" using exact_scaled [OF assms, of 1024] by (simp add: rate_of_def)
  show "f64_exact (2 * rate_of kbps)" using exact_scaled [OF assms, of 2048] by (simp add: rate_of_def mult.commute)
qed

lemma rate_pos: "0 < kbps \<Longrightarrow> 1024 \<le> rate_of kbps"
  by (cases kbps) (simp_all add: rate_of_def)

lemma min_capacity_in: "0 \<le> c \<Longrightarrow> \<not> f64_lt x (F_Fin 0) \<Longrightarrow> f64_in 0 c (f64_min x (F_Fin c))"
  by (cases x) (auto simp: f64_min_def)

lemma set_limit_ok:
  assumes "bucket_ok b" "kbps \<le> 2 ^ 42"
  shows "bucket_ok (set_limit now kbps b)"
proof (cases "kbps = 0")
  case False
  have l: "f64_mul (f64_of_u64 kbps) (F_Fin 1024) = F_Fin (rate_of kbps)"
    using rate_exact [OF assms(2)] by (simp add: f64_of_rat_exact rate_of_def)
  have cap: "f64_mul (F_Fin (rate_of kbps)) (F_Fin 2) = F_Fin (2 * rate_of kbps)"
    using rate_exact [OF assms(2)] by (simp add: f64_of_rat_exact mult.commute)
  have "\<not> f64_lt (tb_tokens b) (F_Fin 0)"
    using assms(1) by (auto simp: bucket_ok_def f64_in_iff split: if_splits)
  with False assms(2) l cap rate_pos [of kbps] show ?thesis
    by (simp add: bucket_ok_def set_limit_def Let_def min_capacity_in)
qed (simp add: bucket_ok_def set_limit_def)

lemma secs_nonneg: "f64_nonneg_ext (secs_f64 ns)"
proof -
  have "f64_of_u64 (10 ^ 9) = F_Fin (10 ^ 9)" using f64_of_u64_exact [of "10 ^ 9"] by simp
  moreover obtain q where "f64_of_u64 (ns mod 10 ^ 9) = F_Fin q" "0 \<le> q"
    using f64_of_u64_in [of "ns mod 10 ^ 9" "10 ^ 9"] by (auto simp: f64_in_iff)
  ultimately have "f64_nonneg_ext (f64_div (f64_of_u64 (ns mod 10 ^ 9)) (f64_of_u64 (10 ^ 9)))"
    by (simp add: f64_of_rat_nonneg)
  then show ?thesis unfolding secs_f64_def by (rule f64_add_nonneg [OF f64_of_u64_nonneg])
qed

lemma nonneg_ext_not_lt: "f64_nonneg_ext x \<Longrightarrow> \<not> f64_lt x (F_Fin 0)"
  by (cases x) (auto simp: f64_nonneg_ext_def f64_nonneg_def)

lemma add_not_negative:
  assumes "0 \<le> t" "f64_nonneg_ext y \<or> y = F_NaN"
  shows "\<not> f64_lt (f64_add (F_Fin t) y) (F_Fin 0)"
proof (cases "y = F_NaN")
  case False
  then have "f64_nonneg_ext (f64_add (F_Fin t) y)" using assms by (intro f64_add_nonneg) (simp_all add: f64_nonneg_ext_def)
  then show ?thesis by (rule nonneg_ext_not_lt)
qed simp

lemma refill_ok:
  assumes "bucket_ok b" "tb_limit_bytes_per_sec b = Some l"
  shows "bucket_ok (refill now l b)"
proof -
  let ?r = "rate_of (tb_limit_kbps_value b)"
  from assms have k: "tb_limit_kbps_value b \<noteq> 0" and l: "l = F_Fin ?r" by (auto simp: bucket_ok_def split: if_splits)
  from assms(1) k obtain t where t: "tb_tokens b = F_Fin t" "0 \<le> t" by (auto simp: bucket_ok_def f64_in_iff)
  have "f64_nonneg_ext (f64_mul (secs_f64 (now - tb_last_refill b)) l) \<or> f64_mul (secs_f64 (now - tb_last_refill b)) l = F_NaN"
    using secs_nonneg [of "now - tb_last_refill b"] rate_pos [of "tb_limit_kbps_value b"] k unfolding l
    by (cases "secs_f64 (now - tb_last_refill b)") (auto simp: f64_nonneg_ext_def f64_of_rat_nonneg [unfolded f64_nonneg_ext_def])
  then have "\<not> f64_lt (f64_add (F_Fin t) (f64_mul (secs_f64 (now - tb_last_refill b)) l)) (F_Fin 0)"
    by (rule add_not_negative [OF t(2)])
  with assms k t rate_pos [of "tb_limit_kbps_value b"] show ?thesis
    by (auto simp: refill_def bucket_ok_def Let_def intro!: min_capacity_in)
qed

lemma refill_fields [simp]:
  "tb_limit_kbps_value (refill now l b) = tb_limit_kbps_value b" "tb_limit_bytes_per_sec (refill now l b) = tb_limit_bytes_per_sec b"
  "tb_capacity (refill now l b) = tb_capacity b"
  by (simp_all add: refill_def Let_def)

section \<open>Consuming tokens\<close>

lemma consume_unlimited: "bucket_ok b \<Longrightarrow> tb_limit_kbps_value b = 0 \<Longrightarrow> consume now bytes b = (Ok None, b)"
  by (simp add: bucket_ok_def consume_def)

text \<open>What a limited bucket does, with the tokens \<open>t\<close> it has after the refill.\<close>

lemma consume_limited:
  assumes "bucket_ok b" "tb_limit_kbps_value b \<noteq> 0" "bytes \<le> 2 ^ 53"
  obtains t where "0 \<le> t" "t \<le> 2 * rate_of (tb_limit_kbps_value b)"
    "tb_tokens (refill now (F_Fin (rate_of (tb_limit_kbps_value b))) b) = F_Fin t"
    "consume now bytes b =
      (let b1 = refill now (F_Fin (rate_of (tb_limit_kbps_value b))) b
       in if of_nat bytes \<le> t then (Ok None, b1\<lparr>tb_tokens := f64_of_rat (t - of_nat bytes)\<rparr>)
          else let wait = f64_div (f64_of_rat (of_nat bytes - t)) (F_Fin (rate_of (tb_limit_kbps_value b)))
               in if f64_le wait (F_Fin 0) then (Ok None, b1\<lparr>tb_tokens := F_Fin 0\<rparr>)
                  else (rbind (duration_from_secs wait) (\<lambda>d. Ok (Some d)), b1\<lparr>tb_tokens := F_Fin 0\<rparr>))"
proof -
  let ?r = "rate_of (tb_limit_kbps_value b)"
  let ?b1 = "refill now (F_Fin ?r) b"
  have l: "tb_limit_bytes_per_sec b = Some (F_Fin ?r)" using assms(1,2) by (simp add: bucket_ok_def)
  from refill_ok [OF assms(1) l, of now] assms(2) obtain t where t: "tb_tokens ?b1 = F_Fin t" "0 \<le> t" "t \<le> 2 * ?r"
    by (auto simp: bucket_ok_def f64_in_iff)
  have r: "1024 \<le> ?r" using assms(2) by (intro rate_pos) simp
  have n: "f64_of_u64 bytes = F_Fin (of_nat bytes)" by (rule f64_of_u64_exact [OF assms(3)])
  have "\<not> ?r \<le> 1 / 2 ^ 52" using r by simp
  then have "consume now bytes b =
      (let b1 = refill now (F_Fin ?r) b
       in if of_nat bytes \<le> t then (Ok None, b1\<lparr>tb_tokens := f64_of_rat (t - of_nat bytes)\<rparr>)
          else let wait = f64_div (f64_of_rat (of_nat bytes - t)) (F_Fin ?r)
               in if f64_le wait (F_Fin 0) then (Ok None, b1\<lparr>tb_tokens := F_Fin 0\<rparr>)
                  else (rbind (duration_from_secs wait) (\<lambda>d. Ok (Some d)), b1\<lparr>tb_tokens := F_Fin 0\<rparr>))"
    by (auto simp: consume_def l n t(1) Let_def f64_le_def f64_sub_def le_less)
  with t that show thesis by blast
qed

lemma wait_finite:
  assumes "0 \<le> t" "\<not> of_nat bytes \<le> t" "bytes \<le> 2 ^ 53" "1024 \<le> r"
  shows "f64_in 0 (of_nat bytes) (f64_of_rat (of_nat bytes - t))"
    and "f64_in 0 (of_nat bytes) (f64_div (f64_of_rat (of_nat bytes - t)) (F_Fin r))"
proof -
  show d: "f64_in 0 (of_nat bytes) (f64_of_rat (of_nat bytes - t))"
    by (rule f64_of_rat_in) (use assms in \<open>auto simp: f64_exact_nat\<close>)
  have "of_nat bytes / r \<le> (of_nat bytes :: rat)" using assms(4) by (simp add: divide_le_eq mult_le_cancel_left1)
  with d show "f64_in 0 (of_nat bytes) (f64_div (f64_of_rat (of_nat bytes - t)) (F_Fin r))"
    by (intro f64_div_in) (use assms in \<open>auto simp: f64_exact_nat\<close>)
qed

lemma duration_ok: "f64_in 0 (of_nat n) x \<Longrightarrow> n \<le> 2 ^ 53 \<Longrightarrow> \<exists>d. duration_from_secs x = Ok d"
proof -
  assume x: "f64_in 0 (of_nat n) x" and n: "n \<le> 2 ^ 53"
  then obtain q where q: "x = F_Fin q" "0 \<le> q" "q \<le> of_nat n" by (auto simp: f64_in_iff)
  have "(of_nat n :: rat) \<le> of_nat (2 ^ 53)" using n by (simp only: of_nat_le_iff)
  also have "\<dots> < 2 ^ 64" by simp
  finally show ?thesis using q by simp
qed

lemma consume_ok:
  assumes "bucket_ok b" "bytes \<le> 2 ^ 53"
  shows "\<exists>r b'. consume now bytes b = (Ok r, b') \<and> bucket_ok b' \<and> tb_limit_kbps_value b' = tb_limit_kbps_value b"
proof (cases "tb_limit_kbps_value b = 0")
  case True
  with assms show ?thesis by (simp add: consume_unlimited)
next
  case False
  let ?r = "rate_of (tb_limit_kbps_value b)"
  let ?b1 = "refill now (F_Fin ?r) b"
  from consume_limited [OF assms(1) False assms(2)] obtain t where t: "0 \<le> t" "t \<le> 2 * ?r"
    and c: "consume now bytes b = (let b1 = ?b1
       in if of_nat bytes \<le> t then (Ok None, b1\<lparr>tb_tokens := f64_of_rat (t - of_nat bytes)\<rparr>)
          else let wait = f64_div (f64_of_rat (of_nat bytes - t)) (F_Fin ?r)
               in if f64_le wait (F_Fin 0) then (Ok None, b1\<lparr>tb_tokens := F_Fin 0\<rparr>)
                  else (rbind (duration_from_secs wait) (\<lambda>d. Ok (Some d)), b1\<lparr>tb_tokens := F_Fin 0\<rparr>))" by blast
  have k: "tb_limit_kbps_value b \<le> 2 ^ 42" using assms(1) False by (simp add: bucket_ok_def)
  have r: "1024 \<le> ?r" using False by (intro rate_pos) simp
  have l: "tb_limit_bytes_per_sec b = Some (F_Fin ?r)" using assms(1) False by (simp add: bucket_ok_def)
  have ok: "bucket_ok (?b1\<lparr>tb_tokens := x\<rparr>)" if "f64_in 0 (2 * ?r) x" for x
    using refill_ok [OF assms(1) l, of now] False that by (simp add: bucket_ok_def)
  show ?thesis
  proof (cases "of_nat bytes \<le> t")
    case True
    have "f64_in 0 (2 * ?r) (f64_of_rat (t - of_nat bytes))"
      by (rule f64_of_rat_in) (use True t rate_exact(3) [OF k] in auto)
    with ok True c show ?thesis by (auto simp: Let_def)
  next
    case f: False
    have "f64_in 0 (2 * ?r) (F_Fin 0)" using r by simp
    moreover obtain d where "duration_from_secs (f64_div (f64_of_rat (of_nat bytes - t)) (F_Fin ?r)) = Ok d"
      using duration_ok [OF wait_finite(2) [OF t(1) f assms(2) r] assms(2)] by blast
    ultimately show ?thesis using ok f c by (auto simp: Let_def)
  qed
qed

section \<open>Requests that are never granted\<close>

lemma f64_exact_inverse_power: "k \<le> 1000 \<Longrightarrow> f64_exact (1 / 2 ^ k)"
proof -
  assume k: "k \<le> 1000"
  have "round_rat (of_int 1 * 2 powi (- int k)) = of_int 1 * 2 powi (- int k)"
    by (rule round_to_scaled_int) (use k in simp_all)
  then have "round_rat (1 / 2 ^ k) = 1 / 2 ^ k" by (simp add: power_int_minus inverse_eq_divide)
  moreover have "(1 :: rat) / 2 ^ k \<le> 1" by simp
  then have "\<bar>1 / 2 ^ k :: rat\<bar> < 2 ^ 1024" using order.strict_trans1 [of "1 / 2 ^ k" "1 :: rat" "2 ^ 1024"] by simp
  ultimately show ?thesis by (simp add: f64_exact_def)
qed

text \<open>Up to one gigabyte per second a byte that is missing costs at least a nanosecond.\<close>

lemma duration_positive:
  assumes "1 / 2 ^ 30 \<le> q" "q < 2 ^ 64"
  shows "\<exists>d. duration_from_secs (F_Fin q) = Ok d \<and> 0 < d"
proof -
  have "rhe (1 / 2 ^ 30 * 10 ^ 9) \<le> rhe (q * 10 ^ 9)" using assms(1) by (intro rhe_mono) simp
  moreover have "\<lfloor>1953125 / 2097152 :: rat\<rfloor> = 0" by (rule floor_unique) simp_all
  then have "rhe (1 / 2 ^ 30 * 10 ^ 9) = 1" by (simp add: rhe_def Let_def)
  moreover have "0 \<le> q" using assms(1) by (rule order_trans [rotated]) simp
  ultimately show ?thesis using assms(2) by auto
qed

lemma consume_above_burst:
  assumes "bucket_ok b" "0 < tb_limit_kbps_value b" "tb_limit_kbps_value b \<le> 2 ^ 20" "2048 * tb_limit_kbps_value b < bytes" "bytes \<le> 2 ^ 53"
  shows "\<exists>d b'. consume now bytes b = (Ok (Some d), b') \<and> 0 < d \<and> bucket_ok b' \<and> tb_limit_kbps_value b' = tb_limit_kbps_value b"
proof -
  let ?k = "tb_limit_kbps_value b"
  let ?r = "rate_of ?k"
  have k: "?k \<noteq> 0" using assms(2) by simp
  have r: "1024 \<le> ?r" using assms(2) by (rule rate_pos)
  obtain t where t: "0 \<le> t" "t \<le> 2 * ?r"
    and c: "consume now bytes b = (let b1 = refill now (F_Fin ?r) b
       in if of_nat bytes \<le> t then (Ok None, b1\<lparr>tb_tokens := f64_of_rat (t - of_nat bytes)\<rparr>)
          else let wait = f64_div (f64_of_rat (of_nat bytes - t)) (F_Fin ?r)
               in if f64_le wait (F_Fin 0) then (Ok None, b1\<lparr>tb_tokens := F_Fin 0\<rparr>)
                  else (rbind (duration_from_secs wait) (\<lambda>d. Ok (Some d)), b1\<lparr>tb_tokens := F_Fin 0\<rparr>))"
    using consume_limited [OF assms(1) k assms(5)] by blast
  have "(of_nat (2048 * ?k + 1) :: rat) \<le> of_nat bytes" using assms(4) by (simp only: of_nat_le_iff)
  then have n: "2 * ?r + 1 \<le> of_nat bytes" by (simp add: rate_of_def)
  then have f: "\<not> of_nat bytes \<le> t" and one: "1 \<le> of_nat bytes - t" using t(2) by linarith+
  have "f64_in 1 (of_nat bytes) (f64_of_rat (of_nat bytes - t))"
    by (rule f64_of_rat_in) (use one t(1) assms(5) in \<open>auto simp: f64_exact_nat\<close>)
  then obtain p where p: "f64_of_rat (of_nat bytes - t) = F_Fin p" "1 \<le> p" "p \<le> of_nat bytes" by (auto simp: f64_in_iff)
  have "(of_nat ?k :: rat) \<le> of_nat (2 ^ 20)" using assms(3) by (simp only: of_nat_le_iff)
  then have "?r \<le> 2 ^ 30" by (simp add: rate_of_def)
  then have "?r \<le> p * 2 ^ 30" using p(2) by (simp add: order_trans [of _ "2 ^ 30"])
  then have low: "1 / 2 ^ 30 \<le> p / ?r" using r by (simp add: field_simps)
  have "p / ?r \<le> p" using r p(2) by (simp add: divide_le_eq mult_le_cancel_left1)
  then have high: "p / ?r \<le> of_nat bytes" using p(3) by linarith
  have "f64_in (1 / 2 ^ 30) (of_nat bytes) (f64_of_rat (p / ?r))"
    by (rule f64_of_rat_in [OF low high]) (use assms(5) f64_exact_inverse_power [of 30] in \<open>auto simp: f64_exact_nat\<close>)
  then obtain q where q: "f64_of_rat (p / ?r) = F_Fin q" "1 / 2 ^ 30 \<le> q" "q \<le> of_nat bytes" by (auto simp: f64_in_iff)
  have "(of_nat bytes :: rat) \<le> of_nat (2 ^ 53)" using assms(5) by (simp only: of_nat_le_iff)
  then have "q < 2 ^ 64" using q(3) order.strict_trans1 [of q "2 ^ 53" "2 ^ 64"] by simp
  then obtain d where d: "duration_from_secs (F_Fin q) = Ok d" "0 < d" using duration_positive [OF q(2)] by blast
  have "0 < q" using q(2) by (rule less_le_trans [rotated]) simp
  then have "consume now bytes b = (Ok (Some d), (refill now (F_Fin ?r) b)\<lparr>tb_tokens := F_Fin 0\<rparr>)"
    using c f p(1) q(1) d r by (simp add: Let_def f64_le_def)
  with consume_ok [OF assms(1,5), of now] d show ?thesis by auto
qed

lemma bucket_of_set [simp]: "bucket_of dir (set_bucket dir b i) = b"
  by (cases dir) simp_all

lemma bus_emit_inner [simp]: "bc_inner (bus_emit e c) = bc_inner c"
  by (simp add: bus_emit_def emit_bandwidth_event_def)

text \<open>
  A request above the burst of two seconds is never granted: whenever the transfer is woken and however long
  that takes, it is told to wait again, because a bucket never holds more than its burst.
\<close>

theorem request_above_burst_starves:
  assumes "bucket_ok (bucket_of dir (bc_inner c))" "kbps = tb_limit_kbps_value (bucket_of dir (bc_inner c))"
    and "0 < kbps" "kbps \<le> 2 ^ 20" "2048 * kbps < bytes" "bytes \<le> 2 ^ 53"
  shows "fst (acquire_bandwidth dir bytes tid started wakes ended ts c) = Ok None"
proof -
  have "fst (acquire_loop dir bytes tid wakes thr c) = Ok None"
    if "bucket_ok (bucket_of dir (bc_inner c))" "tb_limit_kbps_value (bucket_of dir (bc_inner c)) = kbps" for thr c
    using that
  proof (induction wakes arbitrary: thr c)
    case (Cons w wakes)
    obtain now ts where w: "w = (now, ts)" by (cases w)
    from consume_above_burst [OF Cons.prems(1), of bytes now] Cons.prems(2) assms(3-6) obtain d b'
      where c: "consume now bytes (bucket_of dir (bc_inner c)) = (Ok (Some d), b')" "0 < d" "bucket_ok b'" "tb_limit_kbps_value b' = kbps"
      by auto
    then show ?case using Cons.IH by (simp add: w Let_def)
  qed simp
  from this [OF assms(1) assms(2) [symmetric]] assms(5) show ?thesis
    by (auto simp: acquire_bandwidth_def split: prod.splits sum.splits option.splits dest: arg_cong [where f = fst])
qed

theorem request_above_burst_starves_witness:
  "fst (acquire_bandwidth DirDownload 8192 None 0 [(0, 0), (10 ^ 12, 1), (10 ^ 15, 2)] (10 ^ 15) 3
     (set_limits 0 0 0 0 3 (new_bandwidth_controller 0))) = Ok None"
proof -
  let ?c = "set_limits 0 0 0 0 3 (new_bandwidth_controller 0)"
  have b: "bucket_of DirDownload (bc_inner ?c) = set_limit 0 3 (bucket_unlimited 0)"
    by (simp add: set_limits_def new_bandwidth_controller_def new_bw_inner_def Let_def)
  have ok: "bucket_ok (set_limit 0 3 (bucket_unlimited 0))" by (rule set_limit_ok) (simp_all add: bucket_ok_def bucket_unlimited_def)
  have k: "3 = tb_limit_kbps_value (set_limit 0 3 (bucket_unlimited 0))" by (simp add: set_limit_def Let_def)
  show ?thesis
    by (rule request_above_burst_starves [where kbps = 3]) (simp_all only: b ok k [symmetric], simp_all)
qed

section \<open>Waking exactly on time\<close>

lemma half_second: "secs_f64 (5 * 10 ^ 8) = F_Fin (1 / 2)"
proof -
  have n: "f64_of_u64 0 = F_Fin 0" "f64_of_u64 (5 * 10 ^ 8) = F_Fin (5 * 10 ^ 8)" "f64_of_u64 (10 ^ 9) = F_Fin (10 ^ 9)"
    using f64_of_u64_exact [of 0] f64_of_u64_exact [of "5 * 10 ^ 8"] f64_of_u64_exact [of "10 ^ 9"] by simp_all
  have "f64_of_rat (1 / 2) = F_Fin (1 / 2)" using f64_exact_inverse_power [of 1] by (intro f64_of_rat_exact) simp
  moreover have "(5 * 10 ^ 8) div 10 ^ 9 = (0 :: nat)" "(5 * 10 ^ 8) mod 10 ^ 9 = (5 * 10 ^ 8 :: nat)" by simp_all
  ultimately show ?thesis unfolding secs_f64_def by (simp only: n f64_div.simps f64_add.simps) simp
qed

lemma half_rate_exact: "kbps \<le> 2 ^ 42 \<Longrightarrow> f64_of_rat (rate_of kbps / 2) = F_Fin (rate_of kbps / 2)"
  using exact_scaled [of kbps 512] by (intro f64_of_rat_exact) (simp add: rate_of_def mult.commute)

text \<open>
  A bucket that has half of what is asked for when it is asked, or gets it by the refill: it is emptied, and the transfer is
  told to wait for half a second.
\<close>

lemma consume_half:
  assumes "bucket_ok b" "tb_limit_kbps_value b = kbps" "0 < kbps" "kbps \<le> 2 ^ 42"
    and "tb_tokens b = F_Fin (rate_of kbps / 2) \<and> now = tb_last_refill b \<or> tb_tokens b = F_Fin 0 \<and> now = tb_last_refill b + 5 * 10 ^ 8"
  shows "consume now (1024 * kbps) b = (Ok (Some (5 * 10 ^ 8)), b\<lparr>tb_tokens := F_Fin 0, tb_last_refill := now\<rparr>)"
proof -
  let ?r = "rate_of kbps"
  have r: "1024 \<le> ?r" using assms(3) by (rule rate_pos)
  have l: "tb_limit_bytes_per_sec b = Some (F_Fin ?r)" "tb_capacity b = F_Fin (2 * ?r)" using assms(1-3) by (auto simp: bucket_ok_def)
  have half: "f64_of_rat (1 / 2) = F_Fin (1 / 2)" using f64_exact_inverse_power [of 1] by (intro f64_of_rat_exact) simp
  have ref: "refill now (F_Fin ?r) b = b\<lparr>tb_tokens := F_Fin (?r / 2), tb_last_refill := now\<rparr>"
    using assms(5)
  proof
    assume "tb_tokens b = F_Fin (rate_of kbps / 2) \<and> now = tb_last_refill b"
    moreover have "f64_of_u64 0 = F_Fin 0" using f64_of_u64_exact [of 0] by simp
    then have "secs_f64 0 = F_Fin 0"
      using f64_of_u64_exact [of "10 ^ 9"] f64_of_rat_exact [of 0] by (simp add: secs_f64_def)
    ultimately show ?thesis by (simp add: refill_def Let_def f64_le_def)
  next
    assume t: "tb_tokens b = F_Fin 0 \<and> now = tb_last_refill b + 5 * 10 ^ 8"
    then have "secs_f64 (now - tb_last_refill b) = F_Fin (1 / 2)" using half_second by simp
    with t half_rate_exact [OF assms(4)] l(2) r show ?thesis by (simp add: refill_def Let_def f64_le_def f64_min_def)
  qed
  have n: "f64_of_u64 (1024 * kbps) = F_Fin ?r"
    using f64_of_u64_exact [of "1024 * kbps"] assms(4) by (simp add: rate_of_def mult.commute)
  have "rhe (1 / 2 * 10 ^ 9) = 5 * 10 ^ 8" using rhe_of_int [of "5 * 10 ^ 8"] by simp
  then have "duration_from_secs (F_Fin (1 / 2)) = Ok (5 * 10 ^ 8)" by simp
  then show ?thesis
    using r half half_rate_exact [OF assms(4)] by (simp add: consume_def l ref n Let_def f64_le_def f64_sub_def)
qed

text \<open>
  A transfer that asks for one second's worth while the bucket holds half of it, and is woken each time exactly
  when it was told to be, waits for ever: what the bucket holds is thrown away at each attempt, so at each attempt half is missing.
\<close>

theorem exact_waking_starves:
  assumes "bucket_ok (bucket_of dir (bc_inner c))" "kbps = tb_limit_kbps_value (bucket_of dir (bc_inner c))" "0 < kbps"
    and "tb_tokens (bucket_of dir (bc_inner c)) = F_Fin (rate_of kbps / 2)" "t0 = tb_last_refill (bucket_of dir (bc_inner c))"
    and "wakes = map (\<lambda>k. (t0 + k * (5 * 10 ^ 8), ts k)) [0..<n]"
  shows "fst (acquire_bandwidth dir (1024 * kbps) tid started wakes ended te c) = Ok None"
proof -
  have k: "kbps \<le> 2 ^ 42" using assms(1-3) by (auto simp: bucket_ok_def)
  have loop: "fst (acquire_loop dir (1024 * kbps) tid (map (\<lambda>k. (t0 + k * (5 * 10 ^ 8), ts k)) [m..<n]) thr c) = Ok None"
    if "bucket_ok (bucket_of dir (bc_inner c))" "tb_limit_kbps_value (bucket_of dir (bc_inner c)) = kbps"
      "m = 0 \<and> tb_tokens (bucket_of dir (bc_inner c)) = F_Fin (rate_of kbps / 2) \<and> tb_last_refill (bucket_of dir (bc_inner c)) = t0 \<or>
       0 < m \<and> tb_tokens (bucket_of dir (bc_inner c)) = F_Fin 0 \<and> tb_last_refill (bucket_of dir (bc_inner c)) + 5 * 10 ^ 8 = t0 + m * (5 * 10 ^ 8)" for m thr c
    using that
  proof (induction "n - m" arbitrary: m thr c)
    case (Suc d)
    let ?b = "bucket_of dir (bc_inner c)"
    have step: "consume (t0 + m * (5 * 10 ^ 8)) (1024 * kbps) ?b =
        (Ok (Some (5 * 10 ^ 8)), ?b\<lparr>tb_tokens := F_Fin 0, tb_last_refill := t0 + m * (5 * 10 ^ 8)\<rparr>)"
      by (rule consume_half [OF Suc.prems(1,2) assms(3) k]) (use Suc.prems(3) in auto)
    have "bucket_ok (?b\<lparr>tb_tokens := F_Fin 0, tb_last_refill := t0 + m * (5 * 10 ^ 8)\<rparr>)"
      using consume_ok [OF Suc.prems(1), of "1024 * kbps" "t0 + m * (5 * 10 ^ 8)"] step k by simp
    moreover have "[m..<n] = m # [Suc m..<n]" "n - Suc m = d" using Suc.hyps(2) by (simp_all add: upt_conv_Cons)
    ultimately show ?case using Suc.hyps(1) [of "Suc m"] Suc.prems(2) step by (simp add: Let_def)
  qed simp
  have "fst (acquire_loop dir (1024 * kbps) tid wakes False c) = Ok None"
    unfolding assms(6) by (rule loop) (use assms in auto)
  with assms(3) show ?thesis
    by (auto simp: acquire_bandwidth_def split: prod.splits sum.splits option.splits dest: arg_cong [where f = fst])
qed

section \<open>Requests that are granted\<close>

lemma mul_Fin_exact: "f64_mul x y = F_Fin z \<Longrightarrow> f64_exact z"
  by (cases "(x, y)" rule: f64_mul.cases) (auto simp: f64_of_rat_def f64_exact_def Let_def split: if_splits)

text \<open>A request within the burst is granted when the bucket was left alone for the time its bytes take.\<close>

lemma idle_bucket_grants:
  assumes "bucket_ok b" "bytes \<le> 2048 * tb_limit_kbps_value b" "0 < tb_limit_kbps_value b"
    and "f64_le (f64_of_u64 bytes) (f64_mul (secs_f64 (now - tb_last_refill b)) (F_Fin (rate_of (tb_limit_kbps_value b))))"
    and "tb_tokens b = F_Fin 0" "0 < bytes"
  shows "fst (consume now bytes b) = Ok None"
proof -
  let ?r = "rate_of (tb_limit_kbps_value b)"
  let ?new = "f64_mul (secs_f64 (now - tb_last_refill b)) (F_Fin ?r)"
  have k: "tb_limit_kbps_value b \<le> 2 ^ 42" using assms(1,3) by (auto simp: bucket_ok_def)
  have small: "bytes \<le> 2 ^ 53" using assms(2) k by simp
  have n: "f64_of_u64 bytes = F_Fin (of_nat bytes)" by (rule f64_of_u64_exact [OF small])
  have l: "tb_limit_bytes_per_sec b = Some (F_Fin ?r)" "tb_capacity b = F_Fin (2 * ?r)" using assms(1,3) by (auto simp: bucket_ok_def)
  have "(of_nat bytes :: rat) \<le> of_nat (2048 * tb_limit_kbps_value b)" using assms(2) by (simp only: of_nat_le_iff)
  then have burst: "of_nat bytes \<le> 2 * ?r" by (simp add: rate_of_def)
  have new: "f64_add (F_Fin 0) ?new = ?new"
    using mul_Fin_exact [of "secs_f64 (now - tb_last_refill b)" "F_Fin ?r"] by (cases ?new) (auto simp: f64_of_rat_exact)
  have tokens: "f64_le (f64_of_u64 bytes) (f64_min ?new (F_Fin (2 * ?r)))"
    using assms(4) burst unfolding n by (cases ?new) (auto simp: f64_min_def f64_le_def)
  have "\<not> f64_le (secs_f64 (now - tb_last_refill b)) (F_Fin 0)"
  proof
    assume z: "f64_le (secs_f64 (now - tb_last_refill b)) (F_Fin 0)"
    then have "secs_f64 (now - tb_last_refill b) = F_Fin 0"
      using secs_nonneg [of "now - tb_last_refill b"]
      by (cases "secs_f64 (now - tb_last_refill b)") (auto simp: f64_le_def f64_nonneg_ext_def f64_nonneg_def)
    with assms(4,6) n show False using f64_of_rat_exact [of 0] by (simp add: f64_le_def)
  qed
  with tokens new assms(5) have "f64_le (f64_of_u64 bytes) (tb_tokens (refill now (F_Fin ?r) b))"
    by (simp add: refill_def Let_def l(2))
  then show ?thesis by (auto simp: consume_def l Let_def)
qed

definition half_full :: bandwidth_controller where
  "half_full = (new_bandwidth_controller 0)\<lparr>bc_inner := (new_bw_inner 0)\<lparr>bi_upload := (set_limit 0 3 (bucket_unlimited 0))\<lparr>tb_tokens := F_Fin 1536\<rparr>\<rparr>\<rparr>"

lemma three_kb: "set_limit 0 3 (bucket_unlimited 0) = \<lparr>tb_limit_bytes_per_sec = Some (F_Fin 3072), tb_tokens = F_Fin 6144,
    tb_capacity = F_Fin 6144, tb_last_refill = 0, tb_limit_kbps_value = 3\<rparr>"
  using f64_of_u64_exact [of 3] by (simp add: set_limit_def bucket_unlimited_def f64_of_rat_exact f64_min_def Let_def)

theorem exact_waking_starves_witness:
  "fst (acquire_bandwidth DirUpload 3072 None 0 (map (\<lambda>k. (k * (5 * 10 ^ 8), 0)) [0..<100]) 9 9 half_full) = Ok None"
proof -
  have b: "bucket_of DirUpload (bc_inner half_full) = \<lparr>tb_limit_bytes_per_sec = Some (F_Fin 3072), tb_tokens = F_Fin 1536,
    tb_capacity = F_Fin 6144, tb_last_refill = 0, tb_limit_kbps_value = 3\<rparr>"
    by (simp add: half_full_def three_kb)
  show ?thesis
    using exact_waking_starves [of DirUpload half_full 3 0 "map (\<lambda>k. (k * (5 * 10 ^ 8), 0)) [0..<100]" "\<lambda>_. 0" 100 None 0 9 9]
    unfolding b by (simp add: bucket_ok_def rate_of_def)
qed

section \<open>All operations together\<close>

definition controller_ok :: "bandwidth_controller \<Rightarrow> bool" where
  "controller_ok c \<longleftrightarrow> bucket_ok (bi_upload (bc_inner c)) \<and> bucket_ok (bi_download (bc_inner c))"

text \<open>A pass of a waiting transfer is one step: others may act between two passes.\<close>

inductive bw_step :: "bandwidth_controller \<Rightarrow> bandwidth_controller \<Rightarrow> bool" where
  step_limits: "u \<le> 2 ^ 42 \<Longrightarrow> d \<le> 2 ^ 42 \<Longrightarrow> bw_step c (set_limits t1 t2 ts u d c)"
| step_pass: "bytes \<le> 2 ^ 53 \<Longrightarrow> bw_step c (snd (acquire_loop dir bytes tid [(now, ts)] thr c))"
| step_usage: "bw_step c (c\<lparr>bc_inner := track_usage dir bytes (bc_inner c)\<rparr>)"
| step_reset: "bw_step c (snd (get_and_reset_usage t1 t2 c))"
| step_stats: "bw_step c (emit_usage_stats t1 t2 ts c)"
| step_emit: "bw_step c (bus_emit e c)"
| step_handle: "bw_step c (set_app_handle c)"
| step_bus: "bw_step c (set_event_bus c)"

lemma controller_ok_bucket: "controller_ok c \<longleftrightarrow> (\<forall>dir. bucket_ok (bucket_of dir (bc_inner c)))"
  unfolding controller_ok_def by (metis (full_types) bucket_of.simps bw_direction.exhaust)

lemma set_bucket_other: "d \<noteq> dir \<Longrightarrow> bucket_of d (set_bucket dir b i) = bucket_of d i"
  by (cases d; cases dir) simp_all

lemma track_usage_bucket [simp]: "bucket_of d (track_usage dir bytes i) = bucket_of d i"
  by (cases d; cases dir) simp_all

lemma pass_ok:
  assumes "controller_ok c" "bytes \<le> 2 ^ 53"
  shows "\<exists>r. fst (acquire_loop dir bytes tid [(now, ts)] thr c) = Ok r" and "controller_ok (snd (acquire_loop dir bytes tid [(now, ts)] thr c))"
proof -
  have "bucket_ok (bucket_of dir (bc_inner c))" using assms(1) by (simp add: controller_ok_bucket)
  from consume_ok [OF this assms(2), of now] obtain r b' where b: "consume now bytes (bucket_of dir (bc_inner c)) = (Ok r, b')" "bucket_ok b'" by blast
  then have "bucket_ok (bucket_of d (set_bucket dir b' (bc_inner c)))" for d
    using assms(1) by (cases "d = dir") (simp_all add: set_bucket_other controller_ok_bucket)
  with b(1) show "\<exists>r. fst (acquire_loop dir bytes tid [(now, ts)] thr c) = Ok r" "controller_ok (snd (acquire_loop dir bytes tid [(now, ts)] thr c))"
    by (auto simp: controller_ok_bucket Let_def split: option.splits)
qed

lemma bw_step_ok:
  assumes "bw_step c c'" "controller_ok c"
  shows "controller_ok c'"
  using assms
proof (cases rule: bw_step.cases)
  case step_pass
  then show ?thesis using pass_ok(2) assms(2) by simp
next
  case step_usage
  then show ?thesis using assms(2) by (simp add: controller_ok_bucket)
qed (auto simp: controller_ok_def set_limits_def set_limit_ok get_and_reset_usage_def emit_usage_stats_def set_app_handle_def
    set_event_bus_def Let_def split: prod.splits)

interpretation limiter: invariant_machine bw_step controller_ok
  by unfold_locales (rule bw_step_ok)

lemma new_controller_ok: "controller_ok (new_bandwidth_controller now)" "controller_ok (with_event_bus now)"
  by (simp_all add: controller_ok_def new_bandwidth_controller_def with_event_bus_def new_bw_inner_def bucket_ok_def bucket_unlimited_def)

text \<open>
  C27: In every state the limiter can reach, with any number of transfers passing in any order, an attempt never panics, a limited
  bucket holds between nothing and two seconds' worth, and what is granted at once is at most two seconds' worth.
\<close>

theorem grants_bounded:
  assumes "bw_step\<^sup>*\<^sup>* (new_bandwidth_controller t0) c" "bytes \<le> 2 ^ 53" "kbps = tb_limit_kbps_value (bucket_of dir (bc_inner c))"
    and "0 < kbps" "kbps \<le> 2 ^ 20" "acquire_loop dir bytes tid [(now, ts)] thr c = (r, c')"
  shows "f64_in 0 (of_nat (2048 * kbps)) (tb_tokens (bucket_of dir (bc_inner c))) \<and> r \<noteq> Err p \<and> (r = Ok (Some thr) \<longrightarrow> bytes \<le> 2048 * kbps)"
proof -
  have ok: "controller_ok c" by (rule limiter.run_inv [OF assms(1) new_controller_ok(1)])
  then have b: "bucket_ok (bucket_of dir (bc_inner c))" by (simp add: controller_ok_bucket)
  have "f64_in 0 (of_nat (2048 * kbps)) (tb_tokens (bucket_of dir (bc_inner c)))"
    using b assms(3,4) by (simp add: bucket_ok_def rate_of_def mult.commute)
  moreover have "r \<noteq> Err p" using pass_ok(1) [OF ok assms(2), of dir tid now ts thr] assms(6) by auto
  moreover have "bytes \<le> 2048 * kbps" if "r = Ok (Some thr)"
  proof (rule ccontr)
    assume "\<not> bytes \<le> 2048 * kbps"
    with consume_above_burst [OF b, of bytes now] assms(2-5) obtain d b'
      where "consume now bytes (bucket_of dir (bc_inner c)) = (Ok (Some d), b')" "0 < d" by auto
    then show False using assms(6) that by (auto simp: Let_def split: if_splits)
  qed
  ultimately show ?thesis by blast
qed

lemma limits_reached: "bw_step\<^sup>*\<^sup>* (new_bandwidth_controller 0) (set_limits 0 0 0 3 0 (new_bandwidth_controller 0))"
  by (rule r_into_rtranclp, rule step_limits) simp_all

theorem grants_bounded_witness:
  "fst (acquire_loop DirUpload 5000 None [(0, 0)] False (set_limits 0 0 0 3 0 (new_bandwidth_controller 0))) = Ok (Some False) \<and>
   (5000 :: nat) \<le> 2048 * 3"
proof -
  let ?c = "set_limits 0 0 0 3 0 (new_bandwidth_controller 0)"
  let ?p = "acquire_loop DirUpload 5000 None [(0, 0)] False ?c"
  have b: "bucket_of DirUpload (bc_inner ?c) = set_limit 0 3 (bucket_unlimited 0)"
    by (simp add: set_limits_def new_bandwidth_controller_def new_bw_inner_def Let_def)
  have z: "f64_of_u64 0 = F_Fin 0" using f64_of_u64_exact [of 0] by simp
  have "secs_f64 0 = F_Fin 0" using f64_of_u64_exact [of "10 ^ 9"] f64_of_rat_exact [of 0] z by (simp add: secs_f64_def)
  then have "fst (consume 0 5000 (set_limit 0 3 (bucket_unlimited 0))) = Ok None"
    using f64_of_u64_exact [of 5000] by (simp add: consume_def three_kb refill_def Let_def f64_le_def)
  then have granted: "fst ?p = Ok (Some False)" unfolding acquire_loop.simps b Let_def by (auto split: prod.splits)
  have p: "?p = (fst ?p, snd ?p)" by simp
  have k: "3 = tb_limit_kbps_value (bucket_of DirUpload (bc_inner ?c))" unfolding b by (simp add: three_kb)
  from grants_bounded [OF limits_reached _ k _ _ p] granted show ?thesis by simp
qed

section \<open>Usage\<close>

definition bytes_used :: "bw_direction \<Rightarrow> bw_inner \<Rightarrow> u64" where
  "bytes_used dir i = (case dir of DirUpload \<Rightarrow> bi_upload_bytes_used i | DirDownload \<Rightarrow> bi_download_bytes_used i)"

lemma used_simps [simp]:
  "bytes_used d (set_bucket dir b i) = bytes_used d i"
  "bytes_used d (track_usage dir bytes i) = (if d = dir then wadd64 (bytes_used d i) bytes else bytes_used d i)"
  by (cases d; cases dir; simp add: bytes_used_def)+

lemma acquire_loop_used: "bytes_used d (bc_inner (snd (acquire_loop dir bytes tid wakes thr c))) = bytes_used d (bc_inner c)"
  by (induction dir bytes tid wakes thr c rule: acquire_loop.induct) (auto simp: Let_def split: prod.splits sum.splits option.splits)

text \<open>A transfer that got its bandwidth is counted once, in its own direction; one that waits is not counted.\<close>

theorem usage_counted:
  assumes "acquire_bandwidth dir bytes tid started wakes ended ts c = (r, c')" "bytes < 2 ^ 64" "bytes_used d (bc_inner c) < 2 ^ 64"
  shows "bytes_used d (bc_inner c') = (if d = dir \<and> r = Ok (Some ()) then wadd64 (bytes_used d (bc_inner c)) bytes else bytes_used d (bc_inner c))"
proof (cases "bytes = 0")
  case True
  with assms show ?thesis by (auto simp: acquire_bandwidth_def wadd64_def)
next
  case False
  obtain s c1 where l: "acquire_loop dir bytes tid wakes False c = (s, c1)" by fastforce
  have "bytes_used d (bc_inner c1) = bytes_used d (bc_inner c)" using acquire_loop_used [of d dir bytes tid wakes False c] l by simp
  with assms(1) False l show ?thesis
    by (auto simp: acquire_bandwidth_def Let_def split: sum.splits option.splits)
qed

end
