(* ===== verification/DownloadPersistence.thy ===== *)
theory DownloadPersistence
  imports FileSystem Actions Interfaces "HOL-Library.Sublist"
begin

text \<open>
  Storage of a download that can be paused: \<^verbatim>\<open>src-tauri/src/download_persistence.rs\<close> (destination
  checks, metadata and part files, the writer with its fsync policy) and \<^verbatim>\<open>src-tauri/src/download_paths.rs\<close> (where downloads go).

  Parameters: \<open>canonicalize\<close> of the operating system, free space, whether two paths are on different
  file systems, and the JSON of the metadata. How much of a buffer \<open>write\<close> accepts is an argument.

  Shown: which destinations are accepted, by their canonical path if they exist and by their text if not; metadata are replaced atomically
  and read back; on a crash less than an interval of what the writer wrote is lost, besides what an earlier writer left unsynced, and the part
  file is what was written; finalizing moves exactly the part file, on one file system or across two. Defects are theorems: a new file
  behind a symbolic link leaves the sandbox, files that differ in their extension share their part
  file, a longer part file left behind keeps its end, and finalizing across file systems is not atomic.
\<close>

section \<open>Metadata and errors\<close>

definition PERSIST_METADATA_VERSION :: u32 where "PERSIST_METADATA_VERSION = 1"
definition DEFAULT_FSYNC_INTERVAL :: u64 where "DEFAULT_FSYNC_INTERVAL = 8 * 1024 * 1024"

record part_metadata =
  pm_version :: u32
  pm_download_id :: string
  pm_url :: string
  pm_etag :: "string option"
  pm_expected_size :: u64
  pm_bytes_downloaded :: u64
  pm_last_modified :: "string option"
  pm_sha256_final :: "string option"

datatype persistence_error =
    PsIo io_error
  | PsInvalidData
  | PsDiskFull u64 u64
  | PsUnsupportedVersion u32
  | PsPathTraversal path path
  | PsLockFailed path
  | PsCorruptedMetadata
  | PsPartSizeMismatch u64 u64

record persistence_config =
  pf_downloads_root :: path
  pf_fsync_interval :: u64
  pf_strict_validation :: bool

definition default_persistence_config :: persistence_config where
  "default_persistence_config = \<lparr>pf_downloads_root = path_of_string ''downloads'', pf_fsync_interval = DEFAULT_FSYNC_INTERVAL, pf_strict_validation = True\<rparr>"

section \<open>Destinations\<close>

definition is_absolute :: "path \<Rightarrow> bool" where
  "is_absolute p = (p \<noteq> [] \<and> hd p = ''/'')"

definition normalize_step :: "path \<Rightarrow> string \<Rightarrow> path" where
  "normalize_step acc c = (if c = ''..'' then butlast acc else if c = ''.'' then acc else acc @ [c])"

definition normalize_path :: "path \<Rightarrow> path" where
  "normalize_path p = foldl normalize_step [] p"

text \<open>
  \<open>canon\<close> is the canonical path of something that exists. The directory is created first, so the root is canonicalized
  after that.
\<close>

definition validate_destination_path ::
  "io_env \<Rightarrow> (path \<Rightarrow> (io_error, path) result) \<Rightarrow> persistence_config \<Rightarrow> path \<Rightarrow> (persistence_error, path) result" where
  "validate_destination_path env canon cfg dest =
     rbind (map_err PsIo (fs_mkdir env (pf_downloads_root cfg))) (\<lambda>_.
     rbind (map_err PsIo (canon (pf_downloads_root cfg))) (\<lambda>canonical_root.
       let normalized = (case canon dest of
             Inr c \<Rightarrow> c
           | Inl _ \<Rightarrow> if is_absolute dest then normalize_path dest else normalize_path (canonical_root @ dest))
       in if \<not> prefix canonical_root normalized then Err (PsPathTraversal normalized canonical_root) else Ok normalized))"

definition get_temp_paths :: "path \<Rightarrow> path \<times> path" where
  "get_temp_paths destination = (with_extension destination ''part'', with_extension destination ''meta.json'')"

definition preflight_storage_check ::
  "io_env \<Rightarrow> (path \<Rightarrow> u64) \<Rightarrow> path \<Rightarrow> u64 \<Rightarrow> u64 \<Rightarrow> (persistence_error, u64) result" where
  "preflight_storage_check env space destination expected_size already =
     (let p = (case parent destination of Some q \<Rightarrow> q | None \<Rightarrow> destination)
      in rbind (map_err PsIo (fs_mkdir env p)) (\<lambda>_.
           if io_fails env (IoSpace p) then Err (PsIo (OtherIo (IoSpace p)))
           else let available = space p; needed = sat_sub expected_size already
                in if available < needed then Err (PsDiskFull needed available) else Ok available))"

section \<open>Locks\<close>

text \<open>The files, the paths that have an entry in the registry of mutexes, and the files locked with the operating system.\<close>

record persist_world =
  wo_disk :: disk
  wo_mutexes :: "path set"
  wo_locked :: "path set"

text \<open>The entry in the registry is made and never locked; the advisory lock of the open file excludes others.\<close>

definition acquire_part_lock :: "io_env \<Rightarrow> path \<Rightarrow> (persist_world, persistence_error, unit) act" where
  "acquire_part_lock env part_path w =
     (let w1 = w\<lparr>wo_mutexes := insert part_path (wo_mutexes w)\<rparr>
      in if io_fails env (IoOpen part_path) then (Err (PsIo (OtherIo (IoOpen part_path))), w1)
         else let w2 = (if wo_disk w1 part_path = None then w1\<lparr>wo_disk := (wo_disk w1)(part_path \<mapsto> [])\<rparr> else w1)
              in if io_fails env (IoLock part_path) \<or> part_path \<in> wo_locked w2 then (Err (PsLockFailed part_path), w2)
                 else (Ok (), w2\<lparr>wo_locked := insert part_path (wo_locked w2)\<rparr>))"

section \<open>Metadata files\<close>

definition write_metadata_atomic ::
  "io_env \<Rightarrow> (part_metadata \<Rightarrow> bytes option) \<Rightarrow> path \<Rightarrow> part_metadata \<Rightarrow> (disk, persistence_error, unit) act" where
  "write_metadata_atomic env to_json meta_path m d =
     (let temp_path = with_extension meta_path ''meta.json.tmp''
      in case to_json m of
           None \<Rightarrow> (Err PsInvalidData, d)
         | Some json \<Rightarrow>
             case fs_write env temp_path json d of
               (Inl e, d1) \<Rightarrow> (Err (PsIo e), d1)
             | (Inr _, d1) \<Rightarrow>
                 if io_fails env (IoFlush temp_path) then (Err (PsIo (OtherIo (IoFlush temp_path))), d1)
                 else (case fs_rename env temp_path meta_path d1 of (r, d2) \<Rightarrow> (map_err PsIo r, d2)))"

definition read_metadata ::
  "io_env \<Rightarrow> (bytes \<Rightarrow> part_metadata option) \<Rightarrow> path \<Rightarrow> disk \<Rightarrow> (persistence_error, part_metadata) result" where
  "read_metadata env from_json meta_path d =
     rbind (map_err PsIo (fs_read env meta_path d)) (\<lambda>b.
     rbind (ok_or PsCorruptedMetadata (from_json b)) (\<lambda>m.
       if pm_version m \<noteq> PERSIST_METADATA_VERSION then Err (PsUnsupportedVersion (pm_version m)) else Ok m))"

definition validate_part_file :: "io_env \<Rightarrow> path \<Rightarrow> part_metadata \<Rightarrow> disk \<Rightarrow> (persistence_error, unit) result" where
  "validate_part_file env part_path m d =
     rbind (map_err PsIo (fs_len env part_path d)) (\<lambda>actual.
       if actual \<noteq> pm_bytes_downloaded m then Err (PsPartSizeMismatch (pm_bytes_downloaded m) actual) else Ok ())"

text \<open>A file removed if it exists.\<close>

definition remove_existing :: "io_env \<Rightarrow> path \<Rightarrow> (disk, persistence_error, unit) act" where
  "remove_existing env p d =
     (if fs_exists env p d then (case fs_remove env p d of (r, d1) \<Rightarrow> (map_err PsIo r, d1)) else (Ok (), d))"

text \<open>
  Moving the part file into place. \<open>cross p q\<close>: a rename from \<open>p\<close> to \<open>q\<close> fails because they are on different file systems. Copying creates the
  destination first; a failed copy leaves a prefix of it.
\<close>

definition stream_copy :: "io_env \<Rightarrow> path \<Rightarrow> path \<Rightarrow> (disk, persistence_error, unit) act" where
  "stream_copy env src dst d =
     (case d src of
        None \<Rightarrow> (Err (PsIo NotFound), d)
      | Some content \<Rightarrow>
          if io_fails env (IoOpen src) then (Err (PsIo (OtherIo (IoOpen src))), d)
          else case fs_write env dst content d of
                 (Inl e, d1) \<Rightarrow> (Err (PsIo e), d1)
               | (Inr _, d1) \<Rightarrow>
                   if io_fails env (IoFlush dst) then (Err (PsIo (OtherIo (IoFlush dst))), d1)
                   else (case fs_remove env src d1 of (r, d2) \<Rightarrow> (map_err PsIo r, d2)))"

definition finalize_download ::
  "io_env \<Rightarrow> (path \<Rightarrow> path \<Rightarrow> bool) \<Rightarrow> path \<Rightarrow> path \<Rightarrow> path \<Rightarrow> (disk, persistence_error, unit) act" where
  "finalize_download env cross part_path destination meta_path d =
     and_do (of_result (map_err PsIo (fs_len env part_path d)))
       (and_do (if cross part_path destination then stream_copy env part_path destination
                else (\<lambda>d. case fs_rename env part_path destination d of (r, d1) \<Rightarrow> (map_err PsIo r, d1)))
         (remove_existing env meta_path)) d"

definition cleanup_artifacts :: "io_env \<Rightarrow> path \<Rightarrow> path \<Rightarrow> (disk, persistence_error, unit) act" where
  "cleanup_artifacts env part_path meta_path = and_do (remove_existing env part_path) (remove_existing env meta_path)"

section \<open>The writer\<close>

text \<open>
  The open part file with its position, what of it is known to be on stable storage, and the counters.
\<close>

record part_file_writer =
  pw_path :: path
  pw_position :: u64
  pw_durable :: bytes
  pw_bytes_written_since_fsync :: u64
  pw_total_bytes_written :: u64
  pw_fsync_interval :: u64

definition new_part_file_writer :: "io_env \<Rightarrow> path \<Rightarrow> bytes \<Rightarrow> u64 \<Rightarrow> u64 \<Rightarrow> (persistence_error, part_file_writer) result" where
  "new_part_file_writer env p durable fsync_interval resume_offset =
     (if 0 < resume_offset \<and> io_fails env (IoSeek p resume_offset) then Err (PsIo (OtherIo (IoSeek p resume_offset)))
      else Ok \<lparr>pw_path = p, pw_position = resume_offset, pw_durable = durable, pw_bytes_written_since_fsync = 0,
               pw_total_bytes_written = resume_offset, pw_fsync_interval = fsync_interval\<rparr>)"

definition file_content :: "disk \<Rightarrow> path \<Rightarrow> bytes" where
  "file_content d p = (case d p of None \<Rightarrow> [] | Some b \<Rightarrow> b)"

definition writer_fsync :: "io_env \<Rightarrow> (part_file_writer \<times> disk, persistence_error, unit) act" where
  "writer_fsync env = (\<lambda>(w, d).
     if io_fails env (IoFlush (pw_path w)) then (Err (PsIo (OtherIo (IoFlush (pw_path w)))), (w, d))
     else (Ok (), (w\<lparr>pw_durable := file_content d (pw_path w), pw_bytes_written_since_fsync := 0\<rparr>, d)))"

text \<open>\<open>n\<close> is how many bytes the call accepts.\<close>

definition writer_write :: "io_env \<Rightarrow> nat \<Rightarrow> bytes \<Rightarrow> (part_file_writer \<times> disk, persistence_error, usize) act" where
  "writer_write env n data = (\<lambda>(w, d).
     if io_fails env (IoWrite (pw_path w)) then (Err (PsIo (OtherIo (IoWrite (pw_path w)))), (w, d))
     else let b = take n data; written = length b;
              d1 = d(pw_path w \<mapsto> write_at (pw_position w) b (file_content d (pw_path w)));
              w1 = w\<lparr>pw_position := pw_position w + written,
                     pw_bytes_written_since_fsync := wadd64 (pw_bytes_written_since_fsync w) written,
                     pw_total_bytes_written := wadd64 (pw_total_bytes_written w) written\<rparr>
          in if pw_fsync_interval w1 \<le> pw_bytes_written_since_fsync w1
             then and_do (writer_fsync env) (ret written) (w1, d1)
             else (Ok written, (w1, d1)))"

definition writer_finalize :: "io_env \<Rightarrow> (part_file_writer \<times> disk, persistence_error, unit) act" where
  "writer_finalize env = (\<lambda>(w, d). if 0 < pw_bytes_written_since_fsync w then writer_fsync env (w, d) else (Ok (), (w, d)))"

text \<open>Dropping a writer tries to sync; its counter is not reset, as the writer is gone.\<close>

definition writer_drop :: "io_env \<Rightarrow> part_file_writer \<Rightarrow> disk \<Rightarrow> bytes" where
  "writer_drop env w d =
     (if 0 < pw_bytes_written_since_fsync w \<and> \<not> io_fails env (IoFlush (pw_path w)) then file_content d (pw_path w) else pw_durable w)"

section \<open>Where downloads go\<close>

text \<open>
  \<open>home\<close> is the home directory, if there is one. Paths are kept as text here, as the code returns their text: \<open>Path::join\<close> puts a slash
  between its parts, unless the second one is absolute.
\<close>

definition str_join :: "string \<Rightarrow> string \<Rightarrow> string" where
  "str_join a b = (if starts_with ''/'' b then b else if a = [] \<or> ends_with ''/'' a then a @ b else a @ ''/'' @ b)"

definition expand_tilde :: "string option \<Rightarrow> string \<Rightarrow> string" where
  "expand_tilde home p =
     (if starts_with ''~/'' p \<or> p = ''~''
      then case home of Some h \<Rightarrow> str_join h (if starts_with ''~/'' p then drop 2 p else []) | None \<Rightarrow> p
      else p)"

text \<open>\<open>app_dir\<close> is the application's directory, when there is one; \<open>storage_path\<close> reads the field of the settings' JSON.\<close>

definition load_storage_path_from_settings ::
  "io_env \<Rightarrow> (bytes \<Rightarrow> string option) \<Rightarrow> path option \<Rightarrow> disk \<Rightarrow> string option" where
  "load_storage_path_from_settings env storage_path app_dir d =
     (case app_dir of
        None \<Rightarrow> None
      | Some dir \<Rightarrow>
          let f = path_join dir ''settings.json''
          in if \<not> fs_exists env f d then None
             else case fs_read env f d of
                    Inl _ \<Rightarrow> None
                  | Inr b \<Rightarrow> if \<not> utf8_valid b then None
                            else (case storage_path b of Some s \<Rightarrow> if trim s = [] then None else Some s | None \<Rightarrow> None))"

definition get_default_download_directory :: "string option \<Rightarrow> string" where
  "get_default_download_directory home = expand_tilde home ''~/Downloads/Chiral-Network-Storage''"

definition get_download_directory :: "io_env \<Rightarrow> (bytes \<Rightarrow> string option) \<Rightarrow> string option \<Rightarrow> path option \<Rightarrow> disk \<Rightarrow> string" where
  "get_download_directory env storage_path home app_dir d =
     (case load_storage_path_from_settings env storage_path app_dir d of
        Some s \<Rightarrow> expand_tilde home s
      | None \<Rightarrow> get_default_download_directory home)"

definition get_download_directory_opt ::
  "io_env \<Rightarrow> (bytes \<Rightarrow> string option) \<Rightarrow> string option \<Rightarrow> path option option \<Rightarrow> disk \<Rightarrow> string" where
  "get_download_directory_opt env storage_path home app d =
     (case app of
        None \<Rightarrow> get_default_download_directory home
      | Some app_dir \<Rightarrow>
          (case load_storage_path_from_settings env storage_path app_dir d of
             Some s \<Rightarrow> expand_tilde home s
           | None \<Rightarrow> get_default_download_directory home))"

definition path_extension :: "path \<Rightarrow> string option" where
  "path_extension p = Option.bind (file_name p) file_extension"

text \<open>The directory that is created.\<close>

definition directory_to_create :: "path \<Rightarrow> path option" where
  "directory_to_create p = (if path_extension p \<noteq> None then parent p else Some p)"

definition ensure_directory_exists :: "io_env \<Rightarrow> string \<Rightarrow> (string, path) result" where
  "ensure_directory_exists env s =
     rbind (ok_or ''Invalid path'' (directory_to_create (path_of_string s))) (\<lambda>p.
     rbind (map_err (\<lambda>_. ''Failed to create directory: '') (fs_mkdir env p)) (\<lambda>_. Ok p))"

section \<open>The sandbox\<close>


lemma normalize_plain: "''..'' \<notin> set p \<Longrightarrow> ''.'' \<notin> set p \<Longrightarrow> foldl normalize_step acc p = acc @ p"
  by (induction p arbitrary: acc) (auto simp: normalize_step_def)


lemma normalize_path_plain: "''..'' \<notin> set p \<Longrightarrow> ''.'' \<notin> set p \<Longrightarrow> normalize_path p = p"
  by (simp add: normalize_path_def normalize_plain)







text \<open>
  The sandbox can be left: a new file in a directory under the root that is a symbolic link to a directory elsewhere is accepted, since
  only the text of its path is looked at. What is written to it is written outside.
\<close>

theorem symlink_leaves_sandbox:
  assumes "fs_mkdir env (pf_downloads_root cfg) = Ok ()" "canon (pf_downloads_root cfg) = Ok base" "is_absolute base" "''..'' \<notin> set base" "''.'' \<notin> set base"
    and "canon (base @ [link]) = Ok outside" "\<not> prefix base outside" "canon (base @ [link, name]) = Err e"
    and "link \<noteq> ''..''" "link \<noteq> ''.''" "name \<noteq> ''..''" "name \<noteq> ''.''"
  shows "validate_destination_path env canon cfg (base @ [link, name]) = Ok (base @ [link, name]) \<and>
    validate_destination_path env canon cfg (base @ [link]) = Err (PsPathTraversal outside base)"
proof -
  have "is_absolute (base @ [link, name])" using assms(3) by (auto simp: is_absolute_def)
  moreover have "normalize_path (base @ [link, name]) = base @ [link, name]"
    using assms(4,5,9-12) by (intro normalize_path_plain) auto
  ultimately show ?thesis using assms by (simp add: validate_destination_path_def Let_def)
qed

theorem symlink_leaves_sandbox_witness:
  "validate_destination_path no_faults
     (\<lambda>p. if p = [''/'', ''dl''] then Ok p else if p = [''/'', ''dl'', ''up''] then Ok [''/'', ''etc''] else Err NotFound)
     (default_persistence_config\<lparr>pf_downloads_root := [''/'', ''dl'']\<rparr>) [''/'', ''dl'', ''up'', ''cron''] = Ok [''/'', ''dl'', ''up'', ''cron'']"
  using symlink_leaves_sandbox [of no_faults "default_persistence_config\<lparr>pf_downloads_root := [''/'', ''dl'']\<rparr>"
      "\<lambda>p. if p = [''/'', ''dl''] then Ok p else if p = [''/'', ''dl'', ''up''] then Ok [''/'', ''etc''] else Err NotFound"
      "[''/'', ''dl'']" "''up''" "[''/'', ''etc'']" "''cron''" NotFound]
  by (simp add: fs_mkdir_def is_absolute_def)

text \<open>The root is a component like the others: too many parent components turn an absolute path into a relative one.\<close>

lemma normalize_pops_root: "normalize_path [''/'', ''..'', ''etc''] = [''etc'']"
  by (simp add: normalize_path_def normalize_step_def)

section \<open>Names of the temporary files\<close>

text \<open>Files that differ in their extension only have the same part file and the same metadata file.\<close>

theorem extensions_share_files:
  assumes "stem \<noteq> []" "CHR ''.'' \<notin> set e1" "CHR ''.'' \<notin> set e2" "stem @ CHR ''.'' # e1 \<noteq> ''..''" "stem @ CHR ''.'' # e2 \<noteq> ''..''"
  shows "get_temp_paths (dir @ [stem @ CHR ''.'' # e1]) = get_temp_paths (dir @ [stem @ CHR ''.'' # e2])"
proof -
  have "stem @ CHR ''.'' # e \<noteq> ''/''" for e using assms(1) by (cases stem) auto
  then have "file_name (dir @ [stem @ CHR ''.'' # e]) = Some (stem @ CHR ''.'' # e)" if "stem @ CHR ''.'' # e \<noteq> ''..''" for e
    using that by (simp add: file_name_def)
  then show ?thesis using assms by (simp add: get_temp_paths_def with_extension_def file_stem_append)
qed

section \<open>Space\<close>

lemma preflight_exact:
  assumes "parent destination = Some p" "fs_mkdir env p = Ok ()" "\<not> io_fails env (IoSpace p)"
  shows "preflight_storage_check env space destination expected already =
    (if expected \<le> already + space p then Ok (space p) else Err (PsDiskFull (expected - already) (space p)))"
  using assms by (auto simp: preflight_storage_check_def Let_def sat_sub_def)

section \<open>Metadata\<close>

text \<open>A path that ends in a name with the extension \<open>meta.json\<close> differs from its temporary path.\<close>

lemma meta_temp_distinct:
  assumes "file_name p = Some n" "ends_with ''.json'' n"
  shows "with_extension p ''meta.json.tmp'' \<noteq> p"
proof
  assume eq: "with_extension p ''meta.json.tmp'' = p"
  have "last p = n" using assms(1) by (auto simp: file_name_def split: if_splits)
  moreover have "with_extension p ''meta.json.tmp'' = butlast p @ [file_stem n @ ''.meta.json.tmp'']" using assms(1) by (simp add: with_extension_def)
  ultimately have "n = file_stem n @ ''.meta.json.tmp''" using eq by (metis last_snoc)
  then have "last n = last (file_stem n @ ''.meta.json.tmp'')" by simp
  then have "last n = CHR ''p''" by simp
  moreover obtain pre where "n = pre @ ''.json''" using assms(2) unfolding ends_with_def by (metis append_take_drop_id)
  then have "last n = CHR ''n''" by simp
  ultimately show False by simp
qed

text \<open>
  Metadata are replaced atomically: after a success they read back as written, after a failure at any step the file holds what it held, and no other
  file but the temporary one is touched. (Assumed: decoding undoes encoding for these metadata.)
\<close>

theorem metadata_atomic:
  assumes "to_json m = Some b" "from_json b = Some m" "pm_version m = 1" "file_name p = Some n" "ends_with ''.json'' n"
    and "write_metadata_atomic env to_json p m d = (r, d')" "\<not> io_fails env (IoRead p)"
  shows "(r = Ok () \<longrightarrow> read_metadata env from_json p d' = Ok m) \<and> (r \<noteq> Ok () \<longrightarrow> d' p = d p) \<and>
    (\<forall>q. q \<noteq> p \<and> q \<noteq> with_extension p ''meta.json.tmp'' \<longrightarrow> d' q = d q)"
proof -
  have ne: "with_extension p ''meta.json.tmp'' \<noteq> p" by (rule meta_temp_distinct [OF assms(4,5)])
  let ?t = "with_extension p ''meta.json.tmp''"
  obtain w d1 where w: "fs_write env ?t b d = (w, d1)" by fastforce
  have frame: "d1 q = d q" if "q \<noteq> ?t" for q using fs_write_other [OF that, of env b d] w by simp
  show ?thesis
  proof (cases "is_ok w \<and> \<not> io_fails env (IoFlush ?t)")
    case False
    then have "r \<noteq> Ok ()" "d' = d1" using assms(1,6) w by (auto simp: write_metadata_atomic_def Let_def split: sum.splits if_splits)
    with frame ne show ?thesis by auto
  next
    case True
    then have held: "d1 ?t = Some b" using w by (auto simp: fs_write_def is_ok_def split: if_splits)
    obtain x d2 where x: "fs_rename env ?t p d1 = (x, d2)" by fastforce
    have res: "r = map_err PsIo x" "d' = d2" using True assms(1,6) w x by (auto simp: write_metadata_atomic_def Let_def is_ok_iff)
    have "x = Ok () \<and> d2 = (d1(?t := None))(p \<mapsto> b) \<or> (\<exists>e. x = Err e) \<and> d2 = d1"
      using x held by (auto simp: fs_rename_def split: if_splits)
    then show ?thesis
      using res frame ne assms(2,3,7)
      by (auto simp: read_metadata_def fs_read_def PERSIST_METADATA_VERSION_def)
  qed
qed

theorem metadata_atomic_witness:
  "let m = \<lparr>pm_version = 1, pm_download_id = ''i'', pm_url = ''u'', pm_etag = None, pm_expected_size = 5, pm_bytes_downloaded = 2,
             pm_last_modified = None, pm_sha256_final = None\<rparr>
   in read_metadata no_faults (\<lambda>_. Some m) [''f.meta.json''] (snd (write_metadata_atomic no_faults (\<lambda>_. Some ''{}'') [''f.meta.json''] m Map.empty)) = Ok m"
proof -
  let ?m = "\<lparr>pm_version = 1, pm_download_id = ''i'', pm_url = ''u'', pm_etag = None, pm_expected_size = 5, pm_bytes_downloaded = 2,
             pm_last_modified = None, pm_sha256_final = None\<rparr>"
  let ?run = "write_metadata_atomic no_faults (\<lambda>_. Some ''{}'') [''f.meta.json''] ?m Map.empty"
  have ok: "fst ?run = Ok ()" by (simp add: write_metadata_atomic_def fs_write_def fs_rename_def Let_def)
  have run: "?run = (fst ?run, snd ?run)" by simp
  have name: "file_name [''f.meta.json''] = Some ''f.meta.json''" "ends_with ''.json'' ''f.meta.json''"
    by (simp_all add: file_name_def ends_with_def)
  from metadata_atomic [of "\<lambda>_. Some ''{}''" ?m "''{}''" "\<lambda>_. Some ?m", OF refl refl _ name run] ok show ?thesis by simp
qed

section \<open>The writer\<close>

text \<open>
  \<open>writer_ok p iv u content (w, d)\<close>: the part file at \<open>p\<close> has the given content, the writer stands at its end, and all but fewer bytes
  than the interval \<open>iv\<close>, and \<open>u\<close> bytes that were there before and not on stable storage, are on stable storage.
\<close>

definition writer_ok :: "path \<Rightarrow> u64 \<Rightarrow> nat \<Rightarrow> bytes \<Rightarrow> part_file_writer \<times> disk \<Rightarrow> bool" where
  "writer_ok p iv u content = (\<lambda>(w, d). pw_path w = p \<and> pw_fsync_interval w = iv \<and> d p = Some content \<and> pw_position w = length content \<and>
     pw_total_bytes_written w = length content \<and> length content < 2 ^ 64 \<and>
     pw_bytes_written_since_fsync w < iv \<and> pw_bytes_written_since_fsync w + u \<le> length content \<and>
     length content - (pw_bytes_written_since_fsync w + u) \<le> length (pw_durable w) \<and>
     take (length content - (pw_bytes_written_since_fsync w + u)) (pw_durable w) = take (length content - (pw_bytes_written_since_fsync w + u)) content)"

lemma write_at_length: "write_at (length c) b c = c @ b"
  by (simp add: write_at_def)

lemma writer_write_ok:
  assumes "writer_ok p iv u c (w, d)" "length c + length data < 2 ^ 64" "writer_write env n data (w, d) = (r, s)"
  shows "r = Ok (length (take n data)) \<and> (writer_ok p iv 0 (c @ take n data) s \<or> writer_ok p iv u (c @ take n data) s \<and>
      pw_bytes_written_since_fsync (fst s) = pw_bytes_written_since_fsync w + length (take n data)) \<or> (\<exists>e. r = Err e)"
proof -
  let ?b = "take n data"
  have len: "length c + length ?b < 2 ^ 64" using assms(2) by simp
  let ?w = "w\<lparr>pw_position := length (c @ ?b), pw_bytes_written_since_fsync := pw_bytes_written_since_fsync w + length ?b,
      pw_total_bytes_written := length (c @ ?b)\<rparr>"
  let ?d = "d(pw_path w \<mapsto> c @ ?b)"
  have upd: "wadd64 (pw_bytes_written_since_fsync w) (length ?b) = pw_bytes_written_since_fsync w + length ?b"
      "wadd64 (pw_total_bytes_written w) (length ?b) = length (c @ ?b)"
    using assms(1) len by (auto simp: writer_ok_def intro!: wadd64_no_overflow)
  have pos: "pw_position w + length ?b = length (c @ ?b)" "file_content d (pw_path w) = c" "pw_position w = length c"
    using assms(1) by (auto simp: writer_ok_def file_content_def)
  have run: "writer_write env n data (w, d) =
     (if io_fails env (IoWrite (pw_path w)) then (Err (PsIo (OtherIo (IoWrite (pw_path w)))), (w, d))
      else if pw_fsync_interval w \<le> pw_bytes_written_since_fsync w + length ?b then and_do (writer_fsync env) (ret (length ?b)) (?w, ?d)
      else (Ok (length ?b), (?w, ?d)))"
    unfolding writer_write_def prod.case Let_def upd pos write_at_length by simp
  show ?thesis
  proof (cases "pw_fsync_interval w \<le> pw_bytes_written_since_fsync w + length ?b")
    case True
    have "writer_ok p iv 0 (c @ ?b) (?w\<lparr>pw_durable := file_content ?d (pw_path w), pw_bytes_written_since_fsync := 0\<rparr>, ?d)"
      using assms(1) len by (auto simp: writer_ok_def file_content_def)
    with True show ?thesis using assms(3) unfolding run by (auto simp: writer_fsync_def and_then_def split: if_splits)
  next
    case False
    have "take (length c - (pw_bytes_written_since_fsync w + u)) (pw_durable w) = take (length c - (pw_bytes_written_since_fsync w + u)) (c @ ?b)"
      using assms(1) by (simp add: writer_ok_def)
    moreover have "length (c @ ?b) - (pw_bytes_written_since_fsync w + length ?b + u) = length c - (pw_bytes_written_since_fsync w + u)" by simp
    ultimately have "writer_ok p iv u (c @ ?b) (?w, ?d)"
      using assms(1) False len by (simp add: writer_ok_def del: length_take)
    with False show ?thesis using assms(3) unfolding run by (auto split: if_splits)
  qed
qed

fun run_writes :: "io_env \<Rightarrow> (nat \<times> bytes) list \<Rightarrow> (part_file_writer \<times> disk, persistence_error, unit) act" where
  "run_writes env [] = ret ()"
| "run_writes env ((n, data) # ws) = and_do (writer_write env n data) (run_writes env ws)"

definition accepted :: "(nat \<times> bytes) list \<Rightarrow> bytes" where
  "accepted ws = concat (map (\<lambda>(n, b). take n b) ws)"

lemma accepted_simps [simp]: "accepted [] = []" "accepted ((n, b) # ws) = take n b @ accepted ws"
  by (simp_all add: accepted_def)

lemma run_writes_ok:
  assumes "writer_ok p iv u c s" "length c + sum_list (map (length \<circ> snd) ws) < 2 ^ 64" "run_writes env ws s = (Ok x, s')"
  shows "writer_ok p iv 0 (c @ accepted ws) s' \<or> writer_ok p iv u (c @ accepted ws) s' \<and>
    pw_bytes_written_since_fsync (fst s') = pw_bytes_written_since_fsync (fst s) + length (accepted ws)"
  using assms
proof (induction ws arbitrary: u c s)
  case (Cons y ws)
  obtain n b where x: "y = (n, b)" by (cases y)
  obtain w d where s: "s = (w, d)" by (cases s)
  from Cons.prems(3) obtain k s1 where k: "writer_write env n b (w, d) = (Inr k, s1)" "run_writes env ws s1 = (Ok x, s')"
    by (auto simp: x s and_then_eq_Ok)
  have len: "length (c @ take n b) + sum_list (map (length \<circ> snd) ws) < 2 ^ 64" using Cons.prems(2) by (simp add: x comp_def)
  have "writer_ok p iv 0 (c @ take n b) s1 \<or> writer_ok p iv u (c @ take n b) s1 \<and>
      pw_bytes_written_since_fsync (fst s1) = pw_bytes_written_since_fsync w + length (take n b)"
    using writer_write_ok [OF Cons.prems(1) [unfolded s] _ k(1)] Cons.prems(2) by (auto simp: x)
  then show ?case using Cons.IH [OF _ len k(2)] by (auto simp: x s)
qed simp

text \<open>
  C30: A part file that is continued where it ends is, after any writes that succeed, what it was followed by what was accepted, and the writer counts it. Of
  the bytes on disk fewer than the fsync interval, and those that an earlier writer left unsynced, may be lost; once
  the writer has accepted a whole interval, fewer than the interval. (\<open>m\<close> bytes of the old content were on stable storage when the writer was made.)
\<close>

theorem part_file_durable:
  assumes "d p = Some old" "new_part_file_writer env p durable interval (length old) = Ok w" "0 < interval"
    and "m \<le> length old" "m \<le> length durable" "take m durable = take m old"
    and "length old + sum_list (map (length \<circ> snd) ws) < 2 ^ 64" "run_writes env ws (w, d) = (Ok u, (w', d'))"
  shows "d' (pw_path w') = Some (old @ accepted ws) \<and> pw_total_bytes_written w' = length (old @ accepted ws) \<and>
    (\<exists>k. k \<le> length (pw_durable w') \<and> take k (pw_durable w') = take k (old @ accepted ws) \<and>
       length (old @ accepted ws) < k + interval + (length old - m) \<and>
       (interval \<le> length (accepted ws) \<longrightarrow> length (old @ accepted ws) < k + interval))"
proof -
  have w: "w = \<lparr>pw_path = p, pw_position = length old, pw_durable = durable, pw_bytes_written_since_fsync = 0,
      pw_total_bytes_written = length old, pw_fsync_interval = interval\<rparr>"
    using assms(2) by (simp add: new_part_file_writer_def split: if_splits)
  have "writer_ok p interval (length old - m) old (w, d)" using assms(1,3-7) by (simp add: w writer_ok_def)
  from run_writes_ok [OF this assms(7,8)] obtain v where v: "writer_ok p interval v (old @ accepted ws) (w', d')" "v \<le> length old - m"
    "v = 0 \<or> pw_bytes_written_since_fsync w' = length (accepted ws)" by (auto simp: w)
  let ?k = "length (old @ accepted ws) - (pw_bytes_written_since_fsync w' + v)"
  from v have "?k \<le> length (pw_durable w')" "take ?k (pw_durable w') = take ?k (old @ accepted ws)"
    "length (old @ accepted ws) < ?k + interval + (length old - m)"
    "interval \<le> length (accepted ws) \<longrightarrow> length (old @ accepted ws) < ?k + interval" by (auto simp: writer_ok_def)
  with v(1) show ?thesis unfolding writer_ok_def prod.case by blast
qed

text \<open>Of the four bytes left by an earlier writer two are on stable storage.\<close>

theorem part_file_durable_witness:
  "let w = \<lparr>pw_path = [''p''], pw_position = 4, pw_durable = ''ab'', pw_bytes_written_since_fsync = 0, pw_total_bytes_written = 4, pw_fsync_interval = 4\<rparr>;
       s = snd (run_writes no_faults [(9, ''cd''), (2, ''efg''), (9, ''hij'')] (w, [[''p''] \<mapsto> ''abxy'']))
   in snd s [''p''] = Some ''abxycdefhij'' \<and> pw_durable (fst s) = ''abxycdef''"
proof -
  let ?w = "\<lparr>pw_path = [''p''], pw_position = 4, pw_durable = ''ab'', pw_bytes_written_since_fsync = 0, pw_total_bytes_written = 4, pw_fsync_interval = 4\<rparr>"
  let ?d = "[[''p''] \<mapsto> ''abxy'']"
  let ?ws = "[(9, ''cd''), (2, ''efg''), (9, ''hij'')]"
  have run: "run_writes no_faults ?ws (?w, ?d) = (Ok (), (\<lparr>pw_path = [''p''], pw_position = 11, pw_durable = ''abxycdef'',
      pw_bytes_written_since_fsync = 3, pw_total_bytes_written = 11, pw_fsync_interval = 4\<rparr>, ?d([''p''] \<mapsto> ''abxycdefhij'')))"
    by (simp add: and_then_def writer_write_def writer_fsync_def file_content_def write_at_def wadd64_def Let_def)
  have new: "new_part_file_writer no_faults [''p''] ''ab'' 4 (length ''abxy'') = Ok ?w" by (simp add: new_part_file_writer_def)
  have "(?d([''p''] \<mapsto> ''abxycdefhij'')) [''p''] = Some (''abxy'' @ accepted ?ws)"
    using part_file_durable [OF _ new _ _ _ _ _ run, of 2] by simp
  then show ?thesis unfolding Let_def run by simp
qed

text \<open>
  A writer that is made over an unsynced end starts counting at nought: it can leave more than an interval of the file unsynced.
\<close>

lemma unsynced_end_uncounted:
  assumes "new_part_file_writer env p durable interval (length old) = Ok w" "d p = Some old" "length old + length data < 2 ^ 64"
    and "length data < interval" "\<not> io_fails env (IoWrite p)" "writer_write env (length data) data (w, d) = (r, (w', d'))"
  shows "r = Ok (length data) \<and> pw_durable w' = durable \<and> d' p = Some (old @ data)"
  using assms by (auto simp: new_part_file_writer_def writer_write_def file_content_def write_at_def wadd64_def Let_def split: if_splits)

text \<open>
  A writer that starts at the beginning does not shorten the file: of a longer part file left behind, the end remains, and the length no longer
  says how much was downloaded.
\<close>

theorem stale_end_remains:
  assumes "new_part_file_writer env p x interval 0 = Ok w" "d p = Some old" "length data < length old" "0 < length data" "length data < interval"
    and "length data < 2 ^ 64" "\<not> io_fails env (IoWrite p)" "writer_write env (length data) data (w, d) = (r, (w', d'))"
  shows "r = Ok (length data) \<and> d' p = Some (data @ drop (length data) old) \<and>
    (\<forall>m. pm_bytes_downloaded m = pw_total_bytes_written w' \<longrightarrow> \<not> io_fails env (IoStat p) \<longrightarrow>
       validate_part_file env p m d' = Err (PsPartSizeMismatch (length data) (length old)))"
proof -
  have w: "w = \<lparr>pw_path = p, pw_position = 0, pw_durable = x, pw_bytes_written_since_fsync = 0,
      pw_total_bytes_written = 0, pw_fsync_interval = interval\<rparr>"
    using assms(1) by (simp add: new_part_file_writer_def)
  show ?thesis
    using assms(2-8) by (auto simp: w writer_write_def file_content_def write_at_def wadd64_def Let_def validate_part_file_def fs_len_def)
qed

section \<open>Finalizing\<close>

text \<open>
  Finalizing moves exactly the part file: after a success the destination has its content, part file and metadata are gone and no
  other file changed, on one file system and across two. On one file system a failure leaves the destination either as it was or complete.
\<close>

theorem finalize_download_exact:
  assumes "d part = Some content" "finalize_download env cross part dest meta d = (r, d')" "part \<noteq> dest" "part \<noteq> meta" "dest \<noteq> meta"
    and "\<not> io_fails env (IoStat meta)"
  shows "(r = Ok () \<longrightarrow> d' = (d(part := None, meta := None))(dest \<mapsto> content)) \<and>
    (r \<noteq> Ok () \<longrightarrow> \<not> cross part dest \<longrightarrow> d' dest = d dest \<or> d' dest = Some content)"
proof -
  have rm: "remove_existing env meta e = (x, e') \<Longrightarrow> x = Ok () \<and> e' = e(meta := None) \<or> x \<noteq> Ok () \<and> e' = e" for e e' x
    using assms(6) by (auto simp: remove_existing_def fs_exists_def fs_remove_def fun_upd_idem split: option.splits if_splits)
  obtain x y where len: "fs_len env part d = x" by blast
  show ?thesis
  proof (cases "is_ok x")
    case False
    then have "r \<noteq> Ok () \<and> d' = d" using assms(2) len by (cases x) (auto simp: finalize_download_def and_then_def)
    then show ?thesis by simp
  next
    case True
    obtain y e where move: "(if cross part dest then stream_copy env part dest
        else (\<lambda>d. case fs_rename env part dest d of (r, d1) \<Rightarrow> (map_err PsIo r, d1))) d = (y, e)" by fastforce
    have fin: "(r, d') = (case y of Inl er \<Rightarrow> (Err er, e) | Inr _ \<Rightarrow> remove_existing env meta e)"
      using assms(2) len True move by (cases x) (auto simp: finalize_download_def and_then_def split: sum.splits)
    have moved: "y = Ok () \<Longrightarrow> e = (d(part := None))(dest \<mapsto> content)"
      using move assms(1,3)
      by (auto simp: stream_copy_def fs_rename_def fs_write_def fs_remove_def fun_upd_twist split: if_splits option.splits sum.splits prod.splits)
    have kept: "\<not> cross part dest \<Longrightarrow> y \<noteq> Ok () \<Longrightarrow> e = d"
      using move assms(1) by (auto simp: fs_rename_def split: if_splits)
    show ?thesis
      using fin moved kept rm [of e r d'] assms(3-5) by (cases y) (auto simp: fun_upd_twist)
  qed
qed

theorem finalize_download_exact_witness:
  "snd (finalize_download no_faults (\<lambda>_ _. True) [''f.part''] [''f''] [''f.meta''] [[''f.part''] \<mapsto> ''ab'', [''f.meta''] \<mapsto> ''{}'']) = [[''f''] \<mapsto> ''ab'']"
proof -
  let ?d = "[[''f.part''] \<mapsto> ''ab'', [''f.meta''] \<mapsto> ''{}'']"
  let ?run = "finalize_download no_faults (\<lambda>_ _. True) [''f.part''] [''f''] [''f.meta''] ?d"
  have ok: "fst ?run = Ok ()"
    by (simp add: finalize_download_def fs_len_def stream_copy_def fs_write_def fs_remove_def remove_existing_def fs_exists_def and_then_def)
  have run: "?run = (fst ?run, snd ?run)" by simp
  from finalize_download_exact [OF _ run, of "''ab''"] ok show ?thesis by (auto simp: fun_eq_iff)
qed

text \<open>Across file systems the destination is overwritten in place: a copy that fails leaves a part of the new content where the old file was.\<close>

theorem cross_copy_not_atomic:
  assumes "d part = Some content" "cross part dest" "\<not> io_fails env (IoStat part)" "\<not> io_fails env (IoOpen part)" "part \<noteq> dest"
    and "io_fails env (IoWrite dest)" "io_short env dest = Some n"
  shows "finalize_download env cross part dest meta d = (Err (PsIo (OtherIo (IoWrite dest))), d(dest \<mapsto> take n content))"
  using assms by (simp add: finalize_download_def fs_len_def stream_copy_def fs_write_def and_then_def)

lemma cleanup_removes:
  assumes "\<not> io_fails env (IoStat part)" "\<not> io_fails env (IoStat meta)" "cleanup_artifacts env part meta d = (Ok u, d')"
  shows "d' = d(part := None, meta := None)"
proof -
  have rm: "remove_existing env q e = (Ok v, e') \<Longrightarrow> e' = e(q := None)" if "\<not> io_fails env (IoStat q)" for q e e' v
    using that by (auto simp: remove_existing_def fs_exists_def fs_remove_def fun_upd_idem split: option.splits if_splits)
  from assms(3) obtain v e where "remove_existing env part d = (Inr v, e)" "remove_existing env meta e = (Ok u, d')"
    by (auto simp: cleanup_artifacts_def and_then_eq_Ok)
  with rm assms(1,2) show ?thesis by simp
qed

section \<open>Directories\<close>

text \<open>A directory whose name has a dot is taken for a file: only its parent is created.\<close>

theorem dotted_directory_missing:
  assumes "\<not> io_fails env (IoMkdir [''/'', ''data''])"
  shows "ensure_directory_exists env ''/data/v1.2'' = Ok [''/'', ''data'']"
proof -
  have "path_of_string ''/data/v1.2'' = [''/'', ''data'', ''v1.2'']" by code_simp
  moreover have "path_extension [''/'', ''data'', ''v1.2''] = Some ''2''" by code_simp
  ultimately show ?thesis using assms by (simp add: ensure_directory_exists_def directory_to_create_def parent_def fs_mkdir_def)
qed

lemma expand_tilde_plain: "\<not> starts_with ''~/'' p \<Longrightarrow> p \<noteq> ''~'' \<Longrightarrow> expand_tilde home p = p"
  by (simp add: expand_tilde_def)

lemma default_directory: "h \<noteq> [] \<Longrightarrow> \<not> ends_with ''/'' h \<Longrightarrow> get_default_download_directory (Some h) = h @ ''/Downloads/Chiral-Network-Storage''"
  by (simp add: get_default_download_directory_def expand_tilde_def str_join_def starts_with_def)

end
