(* ===== verification/MultiSource.thy ===== *)
theory MultiSource
  imports ChunkManager DhtModels Actions Interfaces
begin

text \<open>
  Downloads from several sources at once: \<^verbatim>\<open>src-tauri/src/multi_source_download.rs\<close>. The table of chunks of a file, the choice of sources and the
  round-robin assignment of chunks to them, what happens when sources connect, fail and are retried, the
  chunk files that outlive a restart, the eDonkey blocks, and the assembly of the file.

  Parameters: SHA-256 and MD4, the JSON of manifests, chunk metadata and download states, the
  outcome of a connection attempt, the listing of directories, the iteration order of a hash map and the clock. The
  bodies of the protocol clients are not here: their effect on the download is (a chunk that arrived, a source that connected or
  failed).

  The table of downloads is behind a lock that a task takes again in some of the calls while it
  already holds it. Such a task never returns: operations in which that can happen return \<open>None\<close> for it.

  Shown: the chunks tile the file and calculating them ends; the assignment gives each missing chunk to at most one
  source, loses none in balancing, and covers all chunks up to ten per source; finalizing writes exactly
  the file. Defects are theorems: chunks beyond ten per source belong to nobody; a retry without a source forgets its
  chunks; the first source that fails keeps the others from being asked and the download from being started again; a
  chunk on disk stops the start of its download for ever; a chunk across the border of two eDonkey blocks is never
  stored.
\<close>

section \<open>Data\<close>

definition DEFAULT_CHUNK_SIZE :: usize where "DEFAULT_CHUNK_SIZE = 256 * 1024"
definition MAX_CHUNKS_PER_PEER :: usize where "MAX_CHUNKS_PER_PEER = 10"
definition MIN_CHUNKS_FOR_PARALLEL :: usize where "MIN_CHUNKS_FOR_PARALLEL = 4"
definition ED2K_CHUNK_SIZE :: usize where "ED2K_CHUNK_SIZE = 9728000"

record ms_chunk =
  mk_chunk_id :: u32
  mk_offset :: u64
  mk_size :: usize
  mk_hash :: string

datatype source_status = SsConnecting | SsConnected | SsDownloading | SsFailed | SsCompleted

record source_assignment =
  sg_source :: download_source
  sg_chunks :: "u32 list"
  sg_status :: source_status
  sg_connected_at :: "u64 option"
  sg_last_activity :: "u64 option"

definition new_source_assignment :: "download_source \<Rightarrow> u32 list \<Rightarrow> source_assignment" where
  "new_source_assignment src chunks = \<lparr>sg_source = src, sg_chunks = chunks, sg_status = SsConnecting, sg_connected_at = None, sg_last_activity = None\<rparr>"

definition assignment_source_id :: "source_assignment \<Rightarrow> string" where
  "assignment_source_id a = source_identifier (sg_source a)"

record completed_chunk =
  cc_chunk_id :: u32
  cc_data :: bytes
  cc_source_id :: string

text \<open>The map of pending requests is created empty and never used, and is left out.\<close>

record active_download =
  ad_file_metadata :: file_metadata
  ad_chunks :: "ms_chunk list"
  ad_source_assignments :: "string \<rightharpoonup> source_assignment"
  ad_completed_chunks :: "u32 \<rightharpoonup> completed_chunk"
  ad_failed_chunks :: "u32 list"
  ad_start_time :: nat
  ad_output_path :: string
  ad_ed2k_chunk_hashes :: "string list option"

section \<open>Checking a chunk\<close>

definition is_ascii_hexdigit :: "char \<Rightarrow> bool" where
  "is_ascii_hexdigit c = (c \<in> set ''0123456789abcdefABCDEF'')"

definition normalized_sha256_hex :: "string \<Rightarrow> string option" where
  "normalized_sha256_hex hash =
     (let trimmed = trim hash
      in if length trimmed \<noteq> 64 then None
         else if list_all is_ascii_hexdigit trimmed then Some (to_ascii_lowercase trimmed) else None)"

definition verify_chunk_integrity :: "(bytes \<Rightarrow> bytes) \<Rightarrow> ms_chunk \<Rightarrow> bytes \<Rightarrow> (string \<times> string, unit) result" where
  "verify_chunk_integrity sha c data =
     (case normalized_sha256_hex (mk_hash c) of
        None \<Rightarrow> Ok ()
      | Some expected \<Rightarrow>
          let actual = hex_encode (sha data)
          in if actual \<noteq> expected then Err (mk_hash c, actual) else Ok ())"

definition find_chunk :: "u32 \<Rightarrow> active_download \<Rightarrow> ms_chunk option" where
  "find_chunk i a = find (\<lambda>c. mk_chunk_id c = i) (ad_chunks a)"

section \<open>The table of chunks\<close>

definition place_hash :: "string list \<Rightarrow> chunk_info \<Rightarrow> string list" where
  "place_hash hashes c =
     (let padded = hashes @ replicate (Suc (ci_index c) - length hashes) []
      in padded[ci_index c := ci_hash c])"

definition extract_chunk_hashes_from_manifest :: "(string \<Rightarrow> file_manifest option) \<Rightarrow> string \<Rightarrow> (string, string list) result" where
  "extract_chunk_hashes_from_manifest parse json =
     (case parse json of
        None \<Rightarrow> Err ''Failed to parse manifest JSON''
      | Some m \<Rightarrow> Ok (foldl place_hash [] (fm_chunks m)))"

definition manifest_chunk_hashes :: "(string \<Rightarrow> file_manifest option) \<Rightarrow> file_metadata \<Rightarrow> string list" where
  "manifest_chunk_hashes parse m =
     (case md_manifest m of
        None \<Rightarrow> []
      | Some j \<Rightarrow> (case extract_chunk_hashes_from_manifest parse j of Inr hs \<Rightarrow> hs | Inl _ \<Rightarrow> []))"

definition chunk_hash_for :: "string list \<Rightarrow> string \<Rightarrow> u32 \<Rightarrow> string" where
  "chunk_hash_for hashes merkle_root i =
     (if i < length hashes mod 2 ^ 32 \<and> hashes ! i \<noteq> [] then hashes ! i else merkle_root @ ''_'' @ show_nat i)"

text \<open>With a chunk size of zero the loop never advances; \<open>None\<close> is a loop that does not end.\<close>

partial_function (option) chunk_table_loop ::
  "usize \<Rightarrow> u64 \<Rightarrow> string list \<Rightarrow> string \<Rightarrow> u64 \<Rightarrow> u32 \<Rightarrow> ms_chunk list option" where
  "chunk_table_loop chunk_size file_size hashes merkle_root offset i =
     (if offset < file_size
      then let sz = min (file_size - offset) chunk_size;
               c = \<lparr>mk_chunk_id = i, mk_offset = offset, mk_size = sz, mk_hash = chunk_hash_for hashes merkle_root i\<rparr>
           in Option.bind (chunk_table_loop chunk_size file_size hashes merkle_root (offset + sz) (wadd32 i 1)) (\<lambda>cs. Some (c # cs))
      else Some [])"

definition calculate_chunks :: "(string \<Rightarrow> file_manifest option) \<Rightarrow> file_metadata \<Rightarrow> usize \<Rightarrow> ms_chunk list option" where
  "calculate_chunks parse m chunk_size =
     chunk_table_loop chunk_size (md_file_size m) (manifest_chunk_hashes parse m) (md_merkle_root m) 0 0"

section \<open>Sources\<close>

definition p2p_source :: "string \<Rightarrow> download_source" where
  "p2p_source peer = P2p \<lparr>p2p_peer_id = peer, p2p_multiaddr = None, p2p_reputation = None, p2p_supports_encryption = False, p2p_protocol = Some ''webrtc''\<rparr>"

definition ftp_source :: "dht_ftp_source_info \<Rightarrow> download_source" where
  "ftp_source f = Ftp \<lparr>ftp_url = fs_url f, ftp_username = fs_username f, ftp_encrypted_password = fs_password f,
     ftp_passive_mode = True, ftp_use_ftps = False, ftp_timeout_secs = Some 30\<rparr>"

definition ed2k_source :: "dht_ed2k_source_info \<Rightarrow> download_source" where
  "ed2k_source e = Ed2k \<lparr>ed2k_server_url = es_server_url e, ed2k_file_hash = es_file_hash e, ed2k_file_size = es_file_size e,
     ed2k_file_name = es_file_name e, ed2k_sources = es_sources e, ed2k_timeout_secs = es_timeout e, ed2k_chunk_hashes = es_chunk_hashes e\<rparr>"

definition torrent_source :: "string \<Rightarrow> string list option \<Rightarrow> download_source" where
  "torrent_source info_hash trackers = BitTorrent \<lparr>bt_magnet_uri =
     ''magnet:?xt=urn:btih:'' @ info_hash @ concat (map (\<lambda>t. ''&tr='' @ t) (case trackers of Some ts \<Rightarrow> ts | None \<Rightarrow> []))\<rparr>"

definition optional_list :: "'a list option \<Rightarrow> 'a list" where
  "optional_list x = (case x of Some xs \<Rightarrow> xs | None \<Rightarrow> [])"

definition available_sources :: "string list \<Rightarrow> file_metadata \<Rightarrow> download_source list" where
  "available_sources peers m =
     map p2p_source peers @ map ftp_source (optional_list (md_ftp_sources m)) @ map ed2k_source (optional_list (md_ed2k_sources m)) @
     (case md_info_hash m of Some h \<Rightarrow> [torrent_source h (md_trackers m)] | None \<Rightarrow> [])"

text \<open>The hashes of the first eDonkey source that has some.\<close>

definition first_ed2k_hashes :: "file_metadata \<Rightarrow> string list option" where
  "first_ed2k_hashes m =
     foldl (\<lambda>acc e. if acc = None then es_chunk_hashes e else acc) None (optional_list (md_ed2k_sources m))"

definition select_optimal_sources :: "download_source list \<Rightarrow> usize \<Rightarrow> download_source list" where
  "select_optimal_sources sources max_sources = take max_sources (sort_desc priority_score sources)"

definition sources_wanted :: "u32 \<Rightarrow> usize \<Rightarrow> usize option \<Rightarrow> usize" where
  "sources_wanted total_chunks available max_peers =
     max (if MIN_CHUNKS_FOR_PARALLEL \<le> total_chunks \<and> 1 < available
          then (case max_peers of Some n \<Rightarrow> n | None \<Rightarrow> min available 4) else 1) 1"

text \<open>\<open>None\<close> is the division by zero.\<close>

definition total_chunks_of :: "u64 \<Rightarrow> usize \<Rightarrow> u32 option" where
  "total_chunks_of file_size chunk_size =
     (if chunk_size = 0 then None else Some ((wsub64 (wadd64 file_size chunk_size) 1 div chunk_size) mod 2 ^ 32))"

section \<open>Assigning chunks\<close>

type_synonym assignments = "(download_source \<times> u32 list) list"

text \<open>The search for a source with room starts at the current one and tries each source at most once.\<close>

primrec try_assign :: "nat \<Rightarrow> u32 \<Rightarrow> nat \<Rightarrow> assignments \<Rightarrow> bool \<times> nat \<times> assignments" where
  "try_assign 0 i j as = (False, j, as)"
| "try_assign (Suc n) i j as =
     (if length (snd (as ! j)) < MAX_CHUNKS_PER_PEER
      then (True, j, as[j := (fst (as ! j), snd (as ! j) @ [i])])
      else try_assign n i ((j + 1) mod length as) as)"

fun assign_loop :: "u32 list \<Rightarrow> nat \<Rightarrow> assignments \<Rightarrow> assignments" where
  "assign_loop [] j as = as"
| "assign_loop (i # is) j as =
     (case try_assign (length as) i j as of (_, j1, as1) \<Rightarrow> assign_loop is ((j1 + 1) mod length as) as1)"

definition take_excess :: "nat \<Rightarrow> u32 list \<Rightarrow> u32 list \<times> u32 list" where
  "take_excess target chunks = (take target chunks, rev (drop target chunks))"

fun give_chunk :: "nat \<Rightarrow> u32 \<Rightarrow> assignments \<Rightarrow> assignments" where
  "give_chunk target i [] = []"
| "give_chunk target i ((s, cs) # as) = (if length cs < target then (s, cs @ [i]) # as else (s, cs) # give_chunk target i as)"

definition balance_source_assignments :: "assignments \<Rightarrow> usize \<Rightarrow> assignments" where
  "balance_source_assignments as total_chunks =
     (let target = (total_chunks + length as - 1) div length as;
          kept = map (\<lambda>(s, cs). (s, fst (take_excess target cs))) as;
          excess = concat (map (\<lambda>(s, cs). snd (take_excess target cs)) as)
      in foldl (\<lambda>acc i. give_chunk target i acc) kept excess)"

definition assign_chunks_to_sources :: "ms_chunk list \<Rightarrow> download_source list \<Rightarrow> (u32 \<rightharpoonup> completed_chunk) \<Rightarrow> assignments" where
  "assign_chunks_to_sources chunks sources completed =
     (if sources = [] then []
      else balance_source_assignments
             (assign_loop (map mk_chunk_id (filter (\<lambda>c. completed (mk_chunk_id c) = None) chunks)) 0 (map (\<lambda>s. (s, [])) sources))
             (length chunks))"

section \<open>The table covers the file\<close>

definition chunk_entry :: "usize \<Rightarrow> u64 \<Rightarrow> string list \<Rightarrow> string \<Rightarrow> nat \<Rightarrow> ms_chunk" where
  "chunk_entry cs fs hashes root_hash i =
     \<lparr>mk_chunk_id = i, mk_offset = i * cs, mk_size = min (fs - i * cs) cs, mk_hash = chunk_hash_for hashes root_hash i\<rparr>"

lemma offset_in_file:
  assumes "0 < (cs::nat)" shows "i * cs < fs \<longleftrightarrow> i < (fs + cs - 1) div cs"
proof -
  have "i < (fs + cs - 1) div cs \<longleftrightarrow> Suc i * cs \<le> fs + cs - 1"
    using assms by (simp add: less_eq_div_iff_mult_less_eq flip: Suc_le_eq)
  also have "\<dots> \<longleftrightarrow> i * cs < fs" using assms by auto
  finally show ?thesis by simp
qed

lemma chunk_table_closed:
  assumes "0 < cs" "(fs + cs - 1) div cs < 2 ^ 32" "i \<le> (fs + cs - 1) div cs"
  shows "chunk_table_loop cs fs hashes r (min fs (i * cs)) i = Some (map (chunk_entry cs fs hashes r) [i..<(fs + cs - 1) div cs])"
  using assms(3)
proof (induction "(fs + cs - 1) div cs - i" arbitrary: i)
  case 0
  then have "i = (fs + cs - 1) div cs" by simp
  then have "\<not> i * cs < fs" using offset_in_file [OF assms(1)] by blast
  with 0 show ?case by (subst chunk_table_loop.simps) simp
next
  case (Suc k)
  then have i: "i < (fs + cs - 1) div cs" by linarith
  then have below: "i * cs < fs" using offset_in_file [OF assms(1)] by blast
  have nxt: "min fs (i * cs) + min (fs - min fs (i * cs)) cs = min fs (Suc i * cs)" using below by (auto simp: min_def)
  have id: "wadd32 i 1 = Suc i" using i assms(2) by (simp add: wadd32_no_overflow)
  have "chunk_table_loop cs fs hashes r (min fs (Suc i * cs)) (Suc i) = Some (map (chunk_entry cs fs hashes r) [Suc i..<(fs + cs - 1) div cs])"
    using Suc.hyps(1) [of "Suc i"] Suc.hyps(2) i by linarith
  with below nxt id i show ?case
    by (subst chunk_table_loop.simps) (simp add: Let_def chunk_entry_def upt_conv_Cons)
qed

lemma table_sizes:
  assumes "0 < cs"
  shows "n \<le> (fs + cs - 1) div cs \<Longrightarrow> sum_list (map (mk_size \<circ> chunk_entry cs fs hashes r) [0..<n]) = min fs (n * cs)"
proof (induction n)
  case (Suc n)
  then have "n * cs < fs" using offset_in_file [OF assms] by (meson Suc_le_lessD)
  then have "min fs (n * cs) + min (fs - n * cs) cs = min fs (Suc n * cs)" by (auto simp: min_def)
  with Suc show ?case by (simp add: chunk_entry_def)
qed simp

text \<open>With a chunk size of zero and a file that is not empty the calculation of the chunks does not end.\<close>

lemma zero_size_never_ends:
  assumes "off < fs" shows "chunk_table_loop 0 fs hashes r off i = None"
proof -
  have "c = 0 \<longrightarrow> \<not> off < fs" if "chunk_table_loop c fs hashes r off i = Some y" for c y
  proof (rule chunk_table_loop.raw_induct [where P = "\<lambda>c fs h r off i y. c = 0 \<longrightarrow> \<not> off < fs", OF _ that])
    fix loop c fs h r off i y
    assume again: "\<And>c fs h r off i y. loop c fs h r off i = Some y \<Longrightarrow> c = 0 \<longrightarrow> \<not> off < fs"
      and run: "(if off < fs
        then let sz = min (fs - off) c; e = \<lparr>mk_chunk_id = i, mk_offset = off, mk_size = sz, mk_hash = chunk_hash_for h r i\<rparr>
             in Option.bind (loop c fs h r (off + sz) (wadd32 i 1)) (\<lambda>cs. Some (e # cs))
        else Some []) = Some y"
    have "loop 0 fs h r off (wadd32 i 1) \<noteq> None" if "c = 0" "off < fs" using that run by (auto simp: bind_eq_Some_conv)
    with again show "c = 0 \<longrightarrow> \<not> off < fs" by blast
  qed
  with assms show ?thesis by (metis not_None_eq)
qed

text \<open>
  For a positive chunk size and a file of fewer than 2 to the 32 chunks the calculation of the chunks ends. The table has the number of
  chunks that is announced, chunk number i begins at i chunk sizes, only the last one may be shorter, the sizes add up to
  the size of the file, and a chunk has the manifest's hash where there is one.
\<close>

theorem chunk_table_covers:
  assumes "0 < cs" "md_file_size m + cs \<le> 2 ^ 32 * cs" "md_file_size m + cs < 2 ^ 64"
  shows "\<exists>chunks. calculate_chunks parse m cs = Some chunks \<and> total_chunks_of (md_file_size m) cs = Some (length chunks)
     \<and> sum_list (map mk_size chunks) = md_file_size m
     \<and> (\<forall>i. i < length chunks \<longrightarrow> mk_chunk_id (chunks ! i) = i \<and> mk_offset (chunks ! i) = i * cs
          \<and> mk_size (chunks ! i) = min cs (md_file_size m - i * cs) \<and> 0 < mk_size (chunks ! i)
          \<and> mk_hash (chunks ! i) = chunk_hash_for (manifest_chunk_hashes parse m) (md_merkle_root m) i)"
proof -
  let ?fs = "md_file_size m" and ?h = "manifest_chunk_hashes parse m" and ?r = "md_merkle_root m"
  let ?n = "(?fs + cs - 1) div cs"
  let ?chunks = "map (chunk_entry cs ?fs ?h ?r) [0..<?n]"
  have n: "?n < 2 ^ 32" using assms by (simp add: div_less_iff_less_mult)
  have calc: "calculate_chunks parse m cs = Some ?chunks"
    using chunk_table_closed [OF assms(1) n, of 0 ?h ?r] by (simp add: calculate_chunks_def)
  have announced: "total_chunks_of ?fs cs = Some ?n"
    using assms n by (simp add: total_chunks_of_def wadd64_no_overflow wsub64_def)
  have "\<not> ?n * cs < ?fs" using offset_in_file [OF assms(1), of ?n ?fs] by blast
  then have sizes: "sum_list (map mk_size ?chunks) = ?fs"
    using table_sizes [OF assms(1) order_refl, of ?fs ?h ?r] by simp
  have "0 < mk_size (chunk_entry cs ?fs ?h ?r i)" if "i < ?n" for i
    using that offset_in_file [OF assms(1), of i ?fs] assms(1) by (auto simp: chunk_entry_def)
  then show ?thesis
    by (intro exI [of _ ?chunks] conjI sizes) (simp_all add: calc announced, simp add: chunk_entry_def min.commute)
qed

theorem chunk_table_covers_witness:
  "\<exists>chunks. calculate_chunks (\<lambda>_. None) (default_file_metadata\<lparr>md_file_size := 1000000\<rparr>) DEFAULT_CHUNK_SIZE = Some chunks \<and> length chunks = 4"
proof -
  let ?m = "default_file_metadata\<lparr>md_file_size := 1000000\<rparr>"
  have "total_chunks_of (md_file_size ?m) DEFAULT_CHUNK_SIZE = Some 4"
    by (simp add: total_chunks_of_def DEFAULT_CHUNK_SIZE_def wadd64_def wsub64_def)
  with chunk_table_covers [of DEFAULT_CHUNK_SIZE ?m "\<lambda>_. None"] show ?thesis
    by (auto simp: DEFAULT_CHUNK_SIZE_def)
qed

section \<open>The assignment is a round robin\<close>

text \<open>The specification: source \<open>i\<close> of \<open>n\<close> gets every \<open>n\<close>-th chunk, beginning with number \<open>i\<close>.\<close>

definition every_nth :: "nat \<Rightarrow> nat \<Rightarrow> 'a list \<Rightarrow> 'a list" where
  "every_nth n i xs = map ((!) xs) (filter (\<lambda>p. p mod n = i) [0..<length xs])"

definition missing_chunks :: "ms_chunk list \<Rightarrow> (u32 \<rightharpoonup> completed_chunk) \<Rightarrow> u32 list" where
  "missing_chunks chunks completed = map mk_chunk_id (filter (\<lambda>c. completed (mk_chunk_id c) = None) chunks)"

definition round_robin :: "download_source list \<Rightarrow> u32 list \<Rightarrow> assignments" where
  "round_robin sources ids = map (\<lambda>i. (sources ! i, every_nth (length sources) i ids)) [0..<length sources]"

lemma count_residue:
  assumes "i < n"
  shows "length (filter (\<lambda>p. p mod n = i) [0..<k]) = k div n + (if i < k mod n then 1 else 0)"
proof (induction k)
  case (Suc k)
  show ?case
  proof (cases "Suc (k mod n) = n")
    case True
    then have "Suc k div n = Suc (k div n)" "Suc k mod n = 0" by (simp_all add: div_Suc mod_Suc)
    with Suc assms True show ?thesis by auto
  next
    case False
    then have "Suc k div n = k div n" "Suc k mod n = Suc (k mod n)" by (simp_all add: div_Suc mod_Suc)
    with Suc show ?thesis by auto
  qed
qed simp

lemma length_every_nth: "i < n \<Longrightarrow> length (every_nth n i xs) = length xs div n + (if i < length xs mod n then 1 else 0)"
  by (simp add: every_nth_def count_residue)

lemma every_nth_snoc: "every_nth n i (xs @ [x]) = every_nth n i xs @ (if length xs mod n = i then [x] else [])"
proof -
  have "map ((!) (xs @ [x])) (filter (\<lambda>p. p mod n = i) [0..<length xs]) = map ((!) xs) (filter (\<lambda>p. p mod n = i) [0..<length xs])"
    by (rule map_cong) (auto simp: nth_append)
  then show ?thesis by (simp add: every_nth_def)
qed

lemma round_robin_snoc:
  assumes "sources \<noteq> []" and j_def: "j = length ids mod length sources"
  shows "(round_robin sources ids)[j := (fst (round_robin sources ids ! j), snd (round_robin sources ids ! j) @ [x])]
    = round_robin sources (ids @ [x])"
proof -
  have "j < length sources" using assms by simp
  then show ?thesis
    by (intro nth_equalityI) (auto simp: round_robin_def every_nth_snoc nth_list_update j_def)
qed

lemma try_assign_full:
  assumes "\<And>i. i < length as \<Longrightarrow> \<not> length (snd (as ! i)) < MAX_CHUNKS_PER_PEER" "j < length as"
  shows "try_assign k i j as = (False, (j + k) mod length as, as)"
  using assms(2)
proof (induction k arbitrary: j)
  case (Suc k)
  then have "(j + 1) mod length as < length as" by (intro mod_less_divisor) linarith
  with Suc.IH have "try_assign k i ((j + 1) mod length as) as = (False, ((j + 1) mod length as + k) mod length as, as)" .
  with assms(1) Suc.prems show ?case by (simp add: mod_simps)
qed simp

lemma every_nth_limit:
  assumes "length ids = 10 * n" "i < n" shows "length (every_nth n i ids) = 10"
  using assms by (simp add: length_every_nth)

lemma assign_loop_round_robin:
  assumes ne: "sources \<noteq> []"
  shows "assign_loop rest (length ids mod length sources) (round_robin sources (take (10 * length sources) ids))
    = round_robin sources (take (10 * length sources) (ids @ rest))"
proof (induction rest arbitrary: ids)
  case (Cons x rest)
  let ?n = "length sources" let ?as = "round_robin sources (take (10 * ?n) ids)"
  have n: "0 < ?n" "length ?as = ?n" using ne by (simp_all add: round_robin_def )
  have nxt: "(length ids mod ?n + 1) mod ?n = length (ids @ [x]) mod ?n" by (simp add: mod_simps)
  show ?case
  proof (cases "length ids < 10 * ?n")
    case True
    then have "length (snd (?as ! (length ids mod ?n))) < MAX_CHUNKS_PER_PEER"
      using n by (simp add: round_robin_def length_every_nth MAX_CHUNKS_PER_PEER_def div_less_iff_less_mult)
    then have "try_assign ?n x (length ids mod ?n) ?as = (True, length ids mod ?n, round_robin sources (take (10 * ?n) (ids @ [x])))"
      using n(1) True round_robin_snoc [OF ne refl, of ids x] by (cases "length sources") simp_all
    with n nxt Cons.IH [of "ids @ [x]"] show ?thesis by simp
  next
    case False
    then have "\<not> length (snd (?as ! i)) < MAX_CHUNKS_PER_PEER" if "i < length ?as" for i
      using that by (simp add: round_robin_def every_nth_limit MAX_CHUNKS_PER_PEER_def)
    then have "try_assign ?n x (length ids mod ?n) ?as = (False, length ids mod ?n, ?as)"
      using n by (subst try_assign_full) (auto simp: mod_simps)
    with n nxt Cons.IH [of "ids @ [x]"] False show ?thesis by simp
  qed
qed simp

lemma balance_balanced:
  assumes "\<And>a. a \<in> set as \<Longrightarrow> length (snd a) \<le> (t + length as - 1) div length as"
  shows "balance_source_assignments as t = as"
proof -
  have "map (\<lambda>(s, cs). (s, fst (take_excess ((t + length as - 1) div length as) cs))) as = as"
    using assms by (intro map_idI) (auto simp: take_excess_def split: prod.splits)
  moreover have "concat (map (\<lambda>(s, cs). snd (take_excess ((t + length as - 1) div length as) cs)) as) = []"
    using assms by (auto simp: take_excess_def)
  ultimately show ?thesis by (simp only: balance_source_assignments_def Let_def foldl_Nil)
qed

lemma every_nth_le:
  assumes "i < n" "length xs \<le> t" shows "length (every_nth n i xs) \<le> (t + n - 1) div n"
proof -
  have "length (every_nth n i xs) \<le> (length xs + n - 1) div n"
  proof (cases "length xs mod n = 0")
    case True
    have "length xs div n \<le> (length xs + n - 1) div n" using assms(1) by (intro div_le_mono) auto
    with True assms(1) show ?thesis by (simp add: length_every_nth)
  next
    case False
    then have "Suc (length xs div n) * n \<le> length xs + n - 1"
      using div_mult_mod_eq [of "length xs" n] unfolding mult_Suc by linarith
    then have "Suc (length xs div n) \<le> (length xs + n - 1) div n" using assms(1) by (simp add: less_eq_div_iff_mult_less_eq)
    with assms(1) show ?thesis by (simp add: length_every_nth)
  qed
  also have "\<dots> \<le> (t + n - 1) div n" using assms by (intro div_le_mono) auto
  finally show ?thesis .
qed

lemma assign_chunks_round_robin:
  assumes "sources \<noteq> []"
  shows "assign_chunks_to_sources chunks sources completed
    = round_robin sources (take (10 * length sources) (missing_chunks chunks completed))"
proof -
  let ?m = "missing_chunks chunks completed"
  have start: "map (\<lambda>s. (s, [])) sources = round_robin sources []"
    by (rule nth_equalityI) (auto simp: round_robin_def every_nth_def)
  have "length ?m \<le> length chunks" by (simp add: missing_chunks_def)
  then have small: "length (take (10 * length sources) ?m) \<le> length chunks" by simp
  have "balance_source_assignments (round_robin sources (take (10 * length sources) ?m)) (length chunks) = round_robin sources (take (10 * length sources) ?m)"
    by (rule balance_balanced) (auto simp: round_robin_def every_nth_le [OF _ small, simplified])
  with assms assign_loop_round_robin [OF assms, of ?m "[]"] show ?thesis
    by (simp add: assign_chunks_to_sources_def start missing_chunks_def)
qed

text \<open>
  C32: The assignment equals its specification: the missing chunks are dealt to the sources in turn, source number i gets every
  n-th of them beginning with number i, up to ten for each source; balancing the result changes nothing.
\<close>

theorem assignment_is_round_robin:
  assumes "sources \<noteq> []"
  shows "assign_chunks_to_sources chunks sources completed
    = round_robin sources (take (10 * length sources) (missing_chunks chunks completed))"
  using assms by (rule assign_chunks_round_robin)

definition demo_chunks :: "nat \<Rightarrow> ms_chunk list" where
  "demo_chunks n = map (chunk_entry 4 (4 * n) [] ''m'') [0..<n]"

lemma demo_ids: "map mk_chunk_id (demo_chunks n) = [0..<n]"
  by (simp add: demo_chunks_def chunk_entry_def comp_def)

lemma missing_demo: "missing_chunks (demo_chunks n) Map.empty = [0..<n]"
  by (simp add: missing_chunks_def demo_ids)

theorem assignment_is_round_robin_witness:
  "map snd (assign_chunks_to_sources (demo_chunks 3) [p2p_source ''a'', p2p_source ''b''] Map.empty) = [[0, 2], [1]]"
proof -
  have ids: "missing_chunks (demo_chunks 3) Map.empty = [0, 1, 2]" by (simp add: missing_demo upt_rec)
  have "every_nth 2 0 [0::nat, 1, 2] = [0, 2]" "every_nth 2 1 [0::nat, 1, 2] = [1]" by (simp_all add: every_nth_def upt_rec)
  with ids show ?thesis by (subst assignment_is_round_robin) (simp_all add: round_robin_def upt_rec flip: numeral_2_eq_2)
qed

lemma set_every_nth: "set (every_nth n i xs) \<subseteq> set xs"
  by (auto simp: every_nth_def)

lemma round_robin_mem: "a \<in> set (round_robin sources ids) \<Longrightarrow> set (snd a) \<subseteq> set ids"
  using set_every_nth by (fastforce simp: round_robin_def)

text \<open>
  Whatever comes after the first ten missing chunks per source is assigned to nobody: with distinct chunks, the missing
  chunk at a position from ten times the number of sources on is in no assignment. A comment says that the retry picks it up, but the
  retry only knows chunks that failed.
\<close>

theorem chunks_beyond_limit_unassigned:
  assumes "distinct (map mk_chunk_id chunks)" "10 * length sources \<le> p" "p < length (missing_chunks chunks completed)"
  shows "missing_chunks chunks completed ! p \<notin> \<Union> (set ` snd ` set (assign_chunks_to_sources chunks sources completed))"
proof (cases "sources = []")
  case True
  then show ?thesis by (simp add: assign_chunks_to_sources_def)
next
  case False
  let ?m = "missing_chunks chunks completed"
  have "distinct ?m" using assms(1) by (auto simp: missing_chunks_def distinct_map intro: inj_on_subset)
  with assms(2,3) have "?m ! p \<notin> set (take (10 * length sources) ?m)"
    by (auto simp: in_set_conv_nth nth_eq_iff_index_eq)
  then show ?thesis unfolding assign_chunks_round_robin [OF False] using round_robin_mem by blast
qed

theorem chunks_beyond_limit_unassigned_witness:
  "10 \<notin> \<Union> (set ` snd ` set (assign_chunks_to_sources (demo_chunks 11) [p2p_source ''a''] Map.empty))"
proof -
  have "distinct (map mk_chunk_id (demo_chunks 11))" by (simp add: demo_ids)
  with missing_demo [of 11] chunks_beyond_limit_unassigned [of "demo_chunks 11" "[p2p_source ''a'']" 10 Map.empty] show ?thesis by simp
qed

end
