(* ===== verification/MultiSourceService.thy ===== *)
theory MultiSourceService
  imports MultiSource
begin

text \<open>
  The service around the table of downloads of \<^verbatim>\<open>src-tauri/src/multi_source_download.rs\<close>: commands, connections to sources, the
  chunks that arrive from FTP, HTTP, eDonkey and BitTorrent, the chunk files on disk, the assembly of the
  file, the monitor, retries and cancelling.

  The service is the record \<open>ms_service\<close>. The network is a record \<open>ms_net\<close> of outcomes; what a spawned task does when something
  arrives is a definition of its own, so that arrivals can come in any order. The task that writes a chunk to disk after it
  arrived is run at once. Clock readings \<open>now\<close> are in milliseconds. Events of the transfer event bus repeat the internal events and are left out.

  The table of downloads is behind a read-write lock which is not re-entrant. Some functions call others that take the
  lock while they hold it; such a call never returns. The argument \<open>held\<close> of a definition says that the
  caller holds the lock, and \<open>None\<close> is a call that does not return.

  Shown: chunks that arrive over FTP, HTTP and eDonkey are stored only when they have the expected hash, in every order of
  events, and then assembling writes exactly the file. Defects are theorems of their own.
\<close>

section \<open>State\<close>

datatype ms_command =
    MsStart string string "usize option" "usize option"
  | MsCancel string
  | MsRetry string

record ms_progress =
  mp_file_hash :: string
  mp_file_name :: string
  mp_total_size :: u64
  mp_downloaded_size :: u64
  mp_total_chunks :: u32
  mp_completed_chunks :: u32
  mp_active_sources :: usize
  mp_download_speed_bps :: f64
  mp_eta_seconds :: "u32 option"
  mp_source_assignments :: "source_assignment list"

datatype ms_event =
    MvDownloadStarted string usize
  | MvPeerConnected string string
  | MvPeerFailed string string string
  | MvChunkCompleted string u32 string
  | MvChunkFailed string u32 string string
  | MvProgress string ms_progress
  | MvDownloadCompleted string string u64 f64
  | MvDownloadFailed string string

text \<open>Background tasks that were spawned: the monitor, a wave of FTP chunks, eDonkey blocks, a torrent.\<close>

datatype ms_task =
    TaskMonitor string
  | TaskFtp string string "ms_chunk list"
  | TaskEd2k string string "(u32 \<times> ms_chunk list) list"
  | TaskTorrent string string path

record ms_service =
  mz_downloads :: "string \<rightharpoonup> active_download"
  mz_store :: manager_state
  mz_ed2k_clients :: "string set"
  mz_commands :: "ms_command list"
  mz_events :: "ms_event list"
  mz_tasks :: "ms_task list"

text \<open>The metadata file of a chunk, and what a reader finds in a JSON document (\<open>None\<close> for a field that is missing or of another type).\<close>

record chunk_file_meta =
  cf_chunk_id :: u32
  cf_size :: usize
  cf_stored_at :: u64
  cf_file_hash :: string
  cf_source_type :: "string option"

record chunk_meta_json =
  cj_file_hash :: "string option"
  cj_chunk_id :: "u64 option"
  cj_size :: "u64 option"

record ms_saved =
  sd_file_hash :: string
  sd_file_metadata :: file_metadata
  sd_chunks :: "ms_chunk list"
  sd_source_assignments :: "source_assignment list"
  sd_completed_chunk_ids :: "u32 list"
  sd_failed_chunks :: "u32 list"
  sd_start_time_unix :: u64
  sd_output_path :: string
  sd_ed2k_chunk_hashes :: "string list option"
  sd_saved_at :: u64

text \<open>
  The libraries and the host: file system, text of an I/O error, SHA-256, MD4, JSON, the listing of a directory (\<open>None\<close> when it does
  not exist), and the chunk manager.
\<close>

record ms_env =
  me_io :: io_env
  me_show_io :: "io_error \<Rightarrow> string"
  me_sha :: "bytes \<Rightarrow> bytes"
  me_md4 :: "bytes \<Rightarrow> bytes"
  me_parse_manifest :: "string \<Rightarrow> file_manifest option"
  me_meta_json :: "chunk_file_meta \<Rightarrow> bytes"
  me_parse_meta :: "bytes \<Rightarrow> chunk_meta_json option"
  me_saved_json :: "ms_saved \<Rightarrow> (string, bytes) result"
  me_parse_saved :: "bytes \<Rightarrow> ms_saved option"
  me_listing :: "path \<Rightarrow> disk \<Rightarrow> (io_error, string list) result option"
  me_manager :: chunk_manager

abbreviation mz_disk :: "ms_service \<Rightarrow> disk" where
  "mz_disk s \<equiv> ms_disk (mz_store s)"

definition set_disk :: "disk \<Rightarrow> ms_service \<Rightarrow> ms_service" where
  "set_disk d s = s\<lparr>mz_store := (mz_store s)\<lparr>ms_disk := d\<rparr>\<rparr>"

definition ms_emit :: "ms_event \<Rightarrow> ms_service \<Rightarrow> ms_service" where
  "ms_emit e s = s\<lparr>mz_events := mz_events s @ [e]\<rparr>"

definition send_command :: "ms_command \<Rightarrow> ms_service \<Rightarrow> ms_service" where
  "send_command c s = s\<lparr>mz_commands := mz_commands s @ [c]\<rparr>"

definition spawn_task :: "ms_task \<Rightarrow> ms_service \<Rightarrow> ms_service" where
  "spawn_task t s = s\<lparr>mz_tasks := mz_tasks s @ [t]\<rparr>"

text \<open>\<open>if let Some(download) = downloads.get_mut(file_hash)\<close>, and the same for the assignment of a source.\<close>

definition upd_download :: "string \<Rightarrow> (active_download \<Rightarrow> active_download) \<Rightarrow> ms_service \<Rightarrow> ms_service" where
  "upd_download h f s = (case mz_downloads s h of None \<Rightarrow> s | Some a \<Rightarrow> s\<lparr>mz_downloads := (mz_downloads s)(h \<mapsto> f a)\<rparr>)"

definition upd_assignment :: "string \<Rightarrow> (source_assignment \<Rightarrow> source_assignment) \<Rightarrow> active_download \<Rightarrow> active_download" where
  "upd_assignment sid f a = (case ad_source_assignments a sid of None \<Rightarrow> a
     | Some g \<Rightarrow> a\<lparr>ad_source_assignments := (ad_source_assignments a)(sid \<mapsto> f g)\<rparr>)"

definition put_assignment :: "string \<Rightarrow> download_source \<Rightarrow> u32 list \<Rightarrow> active_download \<Rightarrow> active_download" where
  "put_assignment sid src ids a = a\<lparr>ad_source_assignments := (ad_source_assignments a)(sid \<mapsto> new_source_assignment src ids)\<rparr>"

definition push_failed :: "u32 list \<Rightarrow> active_download \<Rightarrow> active_download" where
  "push_failed ids a = a\<lparr>ad_failed_chunks := ad_failed_chunks a @ ids\<rparr>"

definition complete_chunk_in :: "u32 \<Rightarrow> bytes \<Rightarrow> string \<Rightarrow> active_download \<Rightarrow> active_download" where
  "complete_chunk_in i data sid a =
     a\<lparr>ad_completed_chunks := (ad_completed_chunks a)(i \<mapsto> \<lparr>cc_chunk_id = i, cc_data = data, cc_source_id = sid\<rparr>)\<rparr>"

definition all_complete :: "active_download \<Rightarrow> bool" where
  "all_complete a = (card (dom (ad_completed_chunks a)) = length (ad_chunks a))"

section \<open>Sources that connect and fail\<close>

definition on_source_connected :: "u64 \<Rightarrow> string \<Rightarrow> string \<Rightarrow> ms_service \<Rightarrow> ms_service" where
  "on_source_connected now_ms h sid s =
     (let now_secs = now_ms div 1000
      in ms_emit (MvPeerConnected h sid)
           (upd_download h (upd_assignment sid (\<lambda>g. g\<lparr>sg_status := SsConnected, sg_connected_at := Some now_secs, sg_last_activity := Some now_secs\<rparr>)) s))"

definition chunks_of_source :: "string \<Rightarrow> string \<Rightarrow> ms_service \<Rightarrow> u32 list" where
  "chunks_of_source h sid s =
     (case mz_downloads s h of None \<Rightarrow> []
      | Some a \<Rightarrow> (case ad_source_assignments a sid of None \<Rightarrow> [] | Some g \<Rightarrow> sg_chunks g))"

definition on_source_failed :: "string \<Rightarrow> string \<Rightarrow> string \<Rightarrow> ms_service \<Rightarrow> ms_service" where
  "on_source_failed h sid error s =
     (let reassign = chunks_of_source h sid s;
          s1 = upd_download h (\<lambda>a. push_failed reassign (upd_assignment sid (\<lambda>g. g\<lparr>sg_status := SsFailed\<rparr>) a)) s;
          s2 = ms_emit (MvPeerFailed h sid error) s1
      in if reassign = [] then s2 else send_command (MsRetry h) s2)"

text \<open>A chunk of a download is checked on behalf of the WebRTC service.\<close>

definition verify_chunk_for_download :: "ms_env \<Rightarrow> string \<Rightarrow> u32 \<Rightarrow> bytes \<Rightarrow> ms_service \<Rightarrow> (unit, unit) result \<times> ms_service" where
  "verify_chunk_for_download E h i data s =
     (case mz_downloads s h of
        None \<Rightarrow> (Ok (), s)
      | Some a \<Rightarrow>
          (case find_chunk i a of
             None \<Rightarrow> (Ok (), s)
           | Some c \<Rightarrow>
               (case verify_chunk_integrity (me_sha E) c data of
                  Inl _ \<Rightarrow> (Err (), upd_download h (push_failed [i]) s)
                | Inr _ \<Rightarrow> (Ok (), s))))"

section \<open>Assembling the file\<close>

fun assemble_chunks :: "ms_env \<Rightarrow> path \<Rightarrow> (u32 \<rightharpoonup> completed_chunk) \<Rightarrow> ms_chunk list \<Rightarrow> disk \<Rightarrow> (string, unit) result \<times> disk" where
  "assemble_chunks E p done [] d = (Ok (), d)"
| "assemble_chunks E p done (c # cs) d =
     (case done (mk_chunk_id c) of
        None \<Rightarrow> (Err (''Missing chunk '' @ show_nat (mk_chunk_id c) @ '' during finalization''), d)
      | Some cc \<Rightarrow>
          if io_fails (me_io E) (IoSeek p (mk_offset c))
          then (Err (''Failed to seek output file: '' @ me_show_io E (OtherIo (IoSeek p (mk_offset c)))), d)
          else case write_all_at (me_io E) p (mk_offset c) (cc_data cc) d of
                 (False, d1) \<Rightarrow> (Err (''Failed to write chunk '' @ show_nat (mk_chunk_id c) @ '': '' @ me_show_io E (OtherIo (IoWrite p))), d1)
               | (True, d1) \<Rightarrow> assemble_chunks E p done cs d1)"

definition write_assembled :: "ms_env \<Rightarrow> active_download \<Rightarrow> disk \<Rightarrow> (string, unit) result \<times> disk" where
  "write_assembled E a d =
     (let p = path_of_string (ad_output_path a);
          n = md_file_size (ad_file_metadata a)
      in case (case parent p of None \<Rightarrow> Ok () | Some q \<Rightarrow> fs_mkdir (me_io E) q) of
           Inl e \<Rightarrow> (Err (''Failed to create output directory: '' @ me_show_io E e), d)
         | Inr _ \<Rightarrow>
             if io_fails (me_io E) (IoOpen p) then (Err (''Failed to create output file: '' @ me_show_io E (OtherIo (IoOpen p))), d)
             else if io_fails (me_io E) (IoSetLen p n)
             then (Err (''Failed to set output file size: '' @ me_show_io E (OtherIo (IoSetLen p n))), d(p \<mapsto> []))
             else case assemble_chunks E p (ad_completed_chunks a) (ad_chunks a) (d(p \<mapsto> replicate n (CHR 0x00))) of
                    (Inl e, d1) \<Rightarrow> (Err e, d1)
                  | (Inr _, d1) \<Rightarrow>
                      if io_fails (me_io E) (IoFlush p) then (Err (''Failed to flush output file: '' @ me_show_io E (OtherIo (IoFlush p))), d1)
                      else (Ok (), d1))"

text \<open>The download is removed from the table first, whether or not the assembly succeeds.\<close>

definition finalize_download_static :: "ms_env \<Rightarrow> string \<Rightarrow> ms_service \<Rightarrow> (string, unit) result \<times> ms_service" where
  "finalize_download_static E h s =
     (case mz_downloads s h of
        None \<Rightarrow> (Err ''Download not found'', s)
      | Some a \<Rightarrow>
          (case write_assembled E a (mz_disk s) of
             (r, d) \<Rightarrow> (r, set_disk d (s\<lparr>mz_downloads := hm_remove (mz_downloads s) h\<rparr>))))"

definition state_path :: "string \<Rightarrow> path" where
  "state_path h = path_join [''downloads''] (h @ ''.state'')"

definition remove_download_state :: "ms_env \<Rightarrow> string \<Rightarrow> ms_service \<Rightarrow> (string, unit) result \<times> ms_service" where
  "remove_download_state E h s =
     (if fs_exists (me_io E) (state_path h) (mz_disk s)
      then case fs_remove (me_io E) (state_path h) (mz_disk s) of
             (Inl e, d) \<Rightarrow> (Err (''Failed to remove download state file: '' @ me_show_io E e), set_disk d s)
           | (Inr _, d) \<Rightarrow> (Ok (), set_disk d s)
      else (Ok (), s))"

definition finalize_ms_download :: "ms_env \<Rightarrow> string \<Rightarrow> ms_service \<Rightarrow> (string, unit) result \<times> ms_service" where
  "finalize_ms_download E h s =
     (case finalize_download_static E h s of
        (Inl e, s1) \<Rightarrow> (Err e, s1)
      | (Inr _, s1) \<Rightarrow> (Ok (), snd (remove_download_state E h s1)))"

section \<open>Chunk files\<close>

definition chunks_dir_of :: "string \<Rightarrow> path" where
  "chunks_dir_of h = path_join [''chunks''] h"

definition dat_path :: "string \<Rightarrow> u32 \<Rightarrow> path" where
  "dat_path h i = path_join (chunks_dir_of h) (''chunk_'' @ show_nat i @ ''.dat'')"

definition meta_file_path :: "string \<Rightarrow> u32 \<Rightarrow> path" where
  "meta_file_path h i = path_join (chunks_dir_of h) (''chunk_'' @ show_nat i @ ''.meta'')"

text \<open>What a task does with a chunk that arrived: write it and its metadata, and give it to the chunk manager. All failures are ignored.\<close>

definition persist_chunk :: "ms_env \<Rightarrow> u64 \<Rightarrow> string option \<Rightarrow> string \<Rightarrow> u32 \<Rightarrow> bytes \<Rightarrow> ms_service \<Rightarrow> ms_service" where
  "persist_chunk E now kind h i data s =
     (case fs_write (me_io E) (dat_path h i) data (mz_disk s) of
        (Inl _, d) \<Rightarrow> set_disk d s
      | (Inr _, d) \<Rightarrow>
          let meta = \<lparr>cf_chunk_id = i, cf_size = length data, cf_stored_at = now div 1000, cf_file_hash = h, cf_source_type = kind\<rparr>;
              s1 = set_disk (snd (fs_write (me_io E) (meta_file_path h i) (me_meta_json E meta) d)) s
          in s1\<lparr>mz_store := snd (save_chunk (me_io E) (me_manager E) (hex_encode (me_sha E data)) data (mz_store s1))\<rparr>)"

definition store_verified_chunk ::
  "ms_env \<Rightarrow> u64 \<Rightarrow> string \<Rightarrow> ms_chunk \<Rightarrow> bytes \<Rightarrow> string \<Rightarrow> ms_service \<Rightarrow> (string, unit) result \<times> ms_service" where
  "store_verified_chunk E now h c data sid s =
     (case mz_downloads s h of
        None \<Rightarrow> (Err (''Active download not found for file '' @ h), s)
      | Some a \<Rightarrow>
          let a1 = complete_chunk_in (mk_chunk_id c) data sid a;
              s1 = persist_chunk E now None h (mk_chunk_id c) data (s\<lparr>mz_downloads := (mz_downloads s)(h \<mapsto> a1)\<rparr>);
              s2 = ms_emit (MvChunkCompleted h (mk_chunk_id c) sid) s1
          in if all_complete a1 then finalize_download_static E h s2 else (Ok (), s2))"

definition chunk_exists_on_disk :: "ms_env \<Rightarrow> string \<Rightarrow> u32 \<Rightarrow> disk \<Rightarrow> bool" where
  "chunk_exists_on_disk E h i d \<longleftrightarrow> fs_exists (me_io E) (dat_path h i) d \<and> fs_exists (me_io E) (meta_file_path h i) d"

text \<open>Reading the two files of a chunk, up to the point where the table of downloads is consulted.\<close>

definition read_chunk_files :: "ms_env \<Rightarrow> string \<Rightarrow> u32 \<Rightarrow> disk \<Rightarrow> (string, bytes) result" where
  "read_chunk_files E h i d =
     (if \<not> chunk_exists_on_disk E h i d then Err (''Chunk '' @ show_nat i @ '' not found on disk for file '' @ h)
      else case fs_read_to_string (me_io E) (meta_file_path h i) d of
        Inl e \<Rightarrow> Err (''Failed to read chunk metadata: '' @ me_show_io E e)
      | Inr content \<Rightarrow>
          (case me_parse_meta E content of
             None \<Rightarrow> Err ''Failed to parse chunk metadata''
           | Some j \<Rightarrow>
               rbind (ok_or ''Missing file_hash in metadata'' (cj_file_hash j)) (\<lambda>file_hash.
               rbind (ok_or ''Missing chunk_id in metadata'' (cj_chunk_id j)) (\<lambda>chunk_id.
               rbind (ok_or ''Missing size in metadata'' (cj_size j)) (\<lambda>sz.
               if file_hash \<noteq> h then Err ''File hash mismatch in metadata''
               else if chunk_id mod 2 ^ 32 \<noteq> i then Err ''Chunk ID mismatch in metadata''
               else case fs_read (me_io E) (dat_path h i) d of
                      Inl e \<Rightarrow> Err (''Failed to read chunk data: '' @ me_show_io E e)
                    | Inr data \<Rightarrow> if length data \<noteq> sz then Err ''Chunk size mismatch'' else Ok data)))))"

definition load_chunk_from_disk :: "ms_env \<Rightarrow> bool \<Rightarrow> string \<Rightarrow> u32 \<Rightarrow> ms_service \<Rightarrow> (string, bytes) result option" where
  "load_chunk_from_disk E held h i s =
     (case read_chunk_files E h i (mz_disk s) of
        Inl e \<Rightarrow> Some (Err e)
      | Inr data \<Rightarrow>
          if held then None
          else Some (case mz_downloads s h of
             None \<Rightarrow> Ok data
           | Some a \<Rightarrow> (case find_chunk i a of
                None \<Rightarrow> Ok data
              | Some c \<Rightarrow> if hex_encode (me_sha E data) \<noteq> mk_hash c then Err ''Chunk hash mismatch'' else Ok data)))"

definition chunk_id_of_meta :: "string \<Rightarrow> u32 option" where
  "chunk_id_of_meta name =
     (if ends_with ''.meta'' name \<and> starts_with ''chunk_'' name
      then Option.bind (Option.bind (strip_prefix ''chunk_'' name) (strip_suffix ''.meta'')) parse_u32 else None)"

definition scan_existing_chunks :: "ms_env \<Rightarrow> string \<Rightarrow> disk \<Rightarrow> (string, u32 list) result" where
  "scan_existing_chunks E h d =
     (case me_listing E (chunks_dir_of h) d of
        None \<Rightarrow> Ok []
      | Some (Inl e) \<Rightarrow> Err (''Failed to read chunks directory: '' @ me_show_io E e)
      | Some (Inr names) \<Rightarrow> Ok (sort (filter (\<lambda>i. fs_exists (me_io E) (dat_path h i) d) (List.map_filter chunk_id_of_meta names))))"

text \<open>The loop holds the write lock of the table.\<close>

fun load_each :: "ms_env \<Rightarrow> string \<Rightarrow> ms_service \<Rightarrow> u32 list \<Rightarrow> active_download \<Rightarrow> usize \<Rightarrow> (active_download \<times> usize) option" where
  "load_each E h s [] a n = Some (a, n)"
| "load_each E h s (i # is) a n =
     (if ad_completed_chunks a i \<noteq> None then load_each E h s is a n
      else case load_chunk_from_disk E True h i s of
             None \<Rightarrow> None
           | Some (Inl _) \<Rightarrow> load_each E h s is a n
           | Some (Inr data) \<Rightarrow> load_each E h s is (complete_chunk_in i data ''disk'' a) (n + 1))"

definition load_existing_chunks_into_download :: "ms_env \<Rightarrow> string \<Rightarrow> ms_service \<Rightarrow> ((string, usize) result \<times> ms_service) option" where
  "load_existing_chunks_into_download E h s =
     (case scan_existing_chunks E h (mz_disk s) of
        Inl e \<Rightarrow> Some (Err e, s)
      | Inr ids \<Rightarrow>
          if ids = [] then Some (Ok 0, s)
          else case mz_downloads s h of
                 None \<Rightarrow> Some (Err (''Active download not found for file '' @ h), s)
               | Some a \<Rightarrow>
                   (case load_each E h s ids a 0 of
                      None \<Rightarrow> None
                    | Some (a1, n) \<Rightarrow> Some (Ok n, s\<lparr>mz_downloads := (mz_downloads s)(h \<mapsto> a1)\<rparr>)))"

section \<open>FTP\<close>

text \<open>What becomes of one chunk of a wave: the task has no connection and gets none, the transfer fails, or data arrives.\<close>

datatype ftp_outcome = FtpNoConnection string | FtpTransferFailed string | FtpData bytes

definition chunk_refused :: "string \<Rightarrow> u32 \<Rightarrow> string \<Rightarrow> string \<Rightarrow> ms_service \<Rightarrow> ms_service" where
  "chunk_refused h i sid error s = ms_emit (MvChunkFailed h i sid error) (upd_download h (push_failed [i]) s)"

definition ftp_chunk_stored :: "ms_env \<Rightarrow> u64 \<Rightarrow> string \<Rightarrow> string \<Rightarrow> ms_chunk \<Rightarrow> bytes \<Rightarrow> ms_service \<Rightarrow> ms_service" where
  "ftp_chunk_stored E now h url c data s =
     (let store = (\<lambda>a. upd_assignment url (\<lambda>g. g\<lparr>sg_last_activity := Some (now div 1000)\<rparr>) (complete_chunk_in (mk_chunk_id c) data url a));
          complete = (case mz_downloads s h of None \<Rightarrow> False | Some a \<Rightarrow> all_complete (store a));
          s1 = ms_emit (MvChunkCompleted h (mk_chunk_id c) url) (persist_chunk E now None h (mk_chunk_id c) data (upd_download h store s))
      in if complete then snd (finalize_download_static E h s1) else s1)"

definition ftp_chunk_task :: "ms_env \<Rightarrow> u64 \<Rightarrow> string \<Rightarrow> string \<Rightarrow> ms_chunk \<Rightarrow> ftp_outcome \<Rightarrow> ms_service \<Rightarrow> ms_service" where
  "ftp_chunk_task E now h url c outcome s =
     (case outcome of
        FtpNoConnection _ \<Rightarrow> s
      | FtpTransferFailed e \<Rightarrow> chunk_refused h (mk_chunk_id c) url e s
      | FtpData data \<Rightarrow>
          if length data \<noteq> mk_size c
          then send_command (MsRetry h) (chunk_refused h (mk_chunk_id c) url ''Chunk size mismatch'' s)
          else case verify_chunk_integrity (me_sha E) c data of
                 Inl _ \<Rightarrow> send_command (MsRetry h) (chunk_refused h (mk_chunk_id c) url ''Chunk hash mismatch'' s)
               | Inr _ \<Rightarrow> ftp_chunk_stored E now h url c data s)"

text \<open>When all tasks of a wave are done.\<close>

definition ftp_wave_done :: "string \<Rightarrow> string \<Rightarrow> ms_service \<Rightarrow> ms_service" where
  "ftp_wave_done h url s =
     (case mz_downloads s h of
        None \<Rightarrow> s
      | Some a \<Rightarrow> (case ad_source_assignments a url of
          None \<Rightarrow> s
        | Some g \<Rightarrow> if list_all (\<lambda>i. ad_completed_chunks a i \<noteq> None) (sg_chunks g)
                    then upd_download h (upd_assignment url (\<lambda>g. g\<lparr>sg_status := SsCompleted\<rparr>)) s else s))"

definition chunk_infos :: "string \<Rightarrow> u32 list \<Rightarrow> ms_service \<Rightarrow> ms_chunk list" where
  "chunk_infos h ids s = (case mz_downloads s h of None \<Rightarrow> [] | Some a \<Rightarrow> List.map_filter (\<lambda>i. find_chunk i a) ids)"

text \<open>\<open>url_path\<close> is \<open>Url::parse\<close> and the path of the result.\<close>

definition parse_ftp_remote_path :: "(string \<Rightarrow> (string, string) result) \<Rightarrow> string \<Rightarrow> (string, string) result" where
  "parse_ftp_remote_path url_path url =
     (case url_path url of
        Inl e \<Rightarrow> Err (''Invalid FTP URL: '' @ e)
      | Inr p \<Rightarrow> if p = [] \<or> p = ''/'' then Err ''No file path specified in FTP URL'' else Ok p)"

definition start_ftp_chunk_downloads ::
  "(string \<Rightarrow> (string, string) result) \<Rightarrow> string \<Rightarrow> string \<Rightarrow> u32 list \<Rightarrow> ms_service \<Rightarrow> ms_service" where
  "start_ftp_chunk_downloads url_path h url ids s =
     (let chunks = chunk_infos h ids s
      in if chunks = [] then s
         else let s1 = upd_download h (upd_assignment url (\<lambda>g. g\<lparr>sg_status := SsDownloading\<rparr>)) s
              in case parse_ftp_remote_path url_path url of
                   Inl e \<Rightarrow> on_source_failed h url (''Invalid FTP path: '' @ e) s1
                 | Inr _ \<Rightarrow> spawn_task (TaskFtp h url chunks) s1)"

section \<open>eDonkey blocks\<close>

definition ed2k_fallback_hash :: "ms_env \<Rightarrow> string \<Rightarrow> u32 \<Rightarrow> string" where
  "ed2k_fallback_hash E file_hash block = hex_encode (me_md4 E (file_hash @ rev (be_bytes 4 block)))"

definition expected_block_hash :: "ms_env \<Rightarrow> string \<Rightarrow> string \<Rightarrow> u32 \<Rightarrow> ms_service \<Rightarrow> string" where
  "expected_block_hash E h ed2k_hash block s =
     (case mz_downloads s h of
        None \<Rightarrow> ed2k_fallback_hash E ed2k_hash block
      | Some a \<Rightarrow> (case ad_ed2k_chunk_hashes a of
          None \<Rightarrow> ed2k_fallback_hash E ed2k_hash block
        | Some hs \<Rightarrow> if block < length hs then hs ! block else ed2k_fallback_hash E ed2k_hash block))"

definition map_our_chunk_to_ed2k_chunk :: "ms_chunk \<Rightarrow> u32 \<times> u64" where
  "map_our_chunk_to_ed2k_chunk c = (mk_offset c div ED2K_CHUNK_SIZE mod 2 ^ 32, mk_offset c mod ED2K_CHUNK_SIZE)"

definition map_ed2k_chunk_to_our_chunks :: "u32 \<Rightarrow> u64 \<Rightarrow> u32 list" where
  "map_ed2k_chunk_to_our_chunks block total_size =
     (let first = block * ED2K_CHUNK_SIZE; end_offset = min (first + ED2K_CHUNK_SIZE) total_size
      in [first div 256000 mod 2 ^ 32 ..< (end_offset + 256000 - 1) div 256000 mod 2 ^ 32])"

text \<open>The blocks in ascending order, each with its chunks in ascending order.\<close>

definition group_chunks_by_ed2k_chunk :: "ms_chunk list \<Rightarrow> (u32 \<times> ms_chunk list) list" where
  "group_chunks_by_ed2k_chunk cs =
     (let block = (\<lambda>c. fst (map_our_chunk_to_ed2k_chunk c))
      in map (\<lambda>b. (b, sort_key mk_chunk_id (filter (\<lambda>c. block c = b) cs))) (sort (remdups (map block cs))))"

text \<open>
  The chunks of a block that arrived, one after the other, under the write lock. The block has at least its full
  length here, so that the slice cannot panic.
\<close>

definition extract_chunk :: "ms_env \<Rightarrow> string \<Rightarrow> bytes \<Rightarrow> active_download \<times> (ms_chunk \<times> bytes) list \<Rightarrow> ms_chunk \<Rightarrow> active_download \<times> (ms_chunk \<times> bytes) list" where
  "extract_chunk E server block = (\<lambda>(a, extracted) c.
     let start = mk_offset c mod ED2K_CHUNK_SIZE;
         stop = min (start + mk_size c) (length block);
         data = drop start (take stop block)
     in case verify_chunk_integrity (me_sha E) c data of
          Inl _ \<Rightarrow> (push_failed [mk_chunk_id c] a, extracted)
        | Inr _ \<Rightarrow> (complete_chunk_in (mk_chunk_id c) data server a, extracted @ [(c, data)]))"

definition store_extracted :: "ms_env \<Rightarrow> u64 \<Rightarrow> string \<Rightarrow> string \<Rightarrow> ms_service \<Rightarrow> ms_chunk \<times> bytes \<Rightarrow> ms_service" where
  "store_extracted E now h server s = (\<lambda>(c, data).
     persist_chunk E now (Some ''ed2k'') h (mk_chunk_id c) data (ms_emit (MvChunkCompleted h (mk_chunk_id c) server) s))"

definition block_extracted :: "ms_env \<Rightarrow> u64 \<Rightarrow> string \<Rightarrow> string \<Rightarrow> bytes \<Rightarrow> ms_chunk list \<Rightarrow> ms_service \<Rightarrow> ms_service" where
  "block_extracted E now h server block cs s =
     (case mz_downloads s h of
        None \<Rightarrow> s
      | Some a \<Rightarrow>
          (case foldl (extract_chunk E server block) (a, []) cs of
             (a1, extracted) \<Rightarrow>
               let s1 = foldl (store_extracted E now h server) (s\<lparr>mz_downloads := (mz_downloads s)(h \<mapsto> a1)\<rparr>) extracted
               in if all_complete a1 then snd (finalize_download_static E h s1) else s1))"

text \<open>
  The task of one block takes the client of the server out of the pool first; another task that comes before it is put back finds
  none. \<open>reply\<close> is the answer of the client.
\<close>

definition take_client :: "string \<Rightarrow> ms_service \<Rightarrow> bool \<times> ms_service" where
  "take_client server s = (server \<in> mz_ed2k_clients s, s\<lparr>mz_ed2k_clients := mz_ed2k_clients s - {server}\<rparr>)"

definition return_client :: "string \<Rightarrow> ms_service \<Rightarrow> ms_service" where
  "return_client server s = s\<lparr>mz_ed2k_clients := insert server (mz_ed2k_clients s)\<rparr>"

definition block_failed :: "string \<Rightarrow> ms_chunk list \<Rightarrow> ms_service \<Rightarrow> ms_service" where
  "block_failed h cs = upd_download h (push_failed (map mk_chunk_id cs))"

definition block_arrived ::
  "ms_env \<Rightarrow> u64 \<Rightarrow> string \<Rightarrow> string \<Rightarrow> string \<Rightarrow> ms_chunk list \<Rightarrow> (string, bytes) result \<Rightarrow> ms_service \<Rightarrow> ms_service" where
  "block_arrived E now h server expected cs reply s =
     return_client server
       (case reply of
          Inl _ \<Rightarrow> block_failed h cs s
        | Inr block \<Rightarrow>
            if length block \<noteq> ED2K_CHUNK_SIZE \<and> length block < ED2K_CHUNK_SIZE then block_failed h cs s
            else if \<not> eq_ignore_ascii_case (hex_encode (me_md4 E block)) expected then block_failed h cs s
            else block_extracted E now h server block cs s)"

definition ed2k_block_task ::
  "ms_env \<Rightarrow> u64 \<Rightarrow> (string \<Rightarrow> u32 \<Rightarrow> string \<Rightarrow> (string, bytes) result) \<Rightarrow> string \<Rightarrow> string \<Rightarrow> string \<Rightarrow> u32 \<times> ms_chunk list \<Rightarrow> ms_service \<Rightarrow> ms_service" where
  "ed2k_block_task E now fetch h server ed2k_hash = (\<lambda>(block, cs) s.
     case take_client server s of
       (False, s1) \<Rightarrow> block_failed h cs s1
     | (True, s1) \<Rightarrow>
         let expected = expected_block_hash E h ed2k_hash block s1
         in block_arrived E now h server expected cs (fetch ed2k_hash block expected) s1)"

definition start_ed2k_chunk_downloads :: "string \<Rightarrow> ed2k_source_info \<Rightarrow> u32 list \<Rightarrow> ms_service \<Rightarrow> ms_service" where
  "start_ed2k_chunk_downloads h info ids s =
     (let chunks = chunk_infos h ids s
      in if chunks = [] then s else spawn_task (TaskEd2k h (ed2k_server_url info) (group_chunks_by_ed2k_chunk chunks)) s)"

section \<open>A file that BitTorrent downloaded\<close>

definition torrent_slice :: "ms_chunk \<Rightarrow> bytes \<Rightarrow> bytes option" where
  "torrent_slice c file =
     (let stop = min (min (mk_offset c + mk_size c) u64_max) (length file)
      in if mk_offset c \<le> stop then Some (drop (mk_offset c) (take stop file)) else None)"

definition ingest_one :: "ms_env \<Rightarrow> u64 \<Rightarrow> string \<Rightarrow> string \<Rightarrow> ms_chunk \<Rightarrow> bytes \<Rightarrow> ms_service \<Rightarrow> ms_service" where
  "ingest_one E now h sid c data s =
     ms_emit (MvChunkCompleted h (mk_chunk_id c) sid)
       (persist_chunk E now None h (mk_chunk_id c) data
         (upd_download h (\<lambda>a. upd_assignment sid (\<lambda>g. g\<lparr>sg_last_activity := Some now\<rparr>) (complete_chunk_in (mk_chunk_id c) data sid a)) s))"

fun ingest_chunks :: "ms_env \<Rightarrow> u64 \<Rightarrow> string \<Rightarrow> string \<Rightarrow> bytes \<Rightarrow> ms_chunk list \<Rightarrow> ms_service \<Rightarrow> (string, unit) result \<times> ms_service" where
  "ingest_chunks E now h sid file [] s = (Ok (), s)"
| "ingest_chunks E now h sid file (c # cs) s =
     (case torrent_slice c file of
        None \<Rightarrow> (Err (''Chunk '' @ show_nat (mk_chunk_id c) @ '' range out of bounds''), s)
      | Some data \<Rightarrow> ingest_chunks E now h sid file cs (ingest_one E now h sid c data s))"

definition ingest_file_chunks :: "ms_env \<Rightarrow> u64 \<Rightarrow> string \<Rightarrow> string \<Rightarrow> bytes \<Rightarrow> ms_service \<Rightarrow> (string, unit) result \<times> ms_service" where
  "ingest_file_chunks E now h sid file s =
     (case mz_downloads s h of
        None \<Rightarrow> (Err ''Download not found while ingesting completed file'', s)
      | Some a \<Rightarrow>
          (case ingest_chunks E now h sid file (ad_chunks a) s of
             (Inl e, s1) \<Rightarrow> (Err e, s1)
           | (Inr _, s1) \<Rightarrow>
               (case finalize_download_static E h (upd_download h (upd_assignment sid (\<lambda>g. g\<lparr>sg_status := SsCompleted\<rparr>)) s1) of
                  (Inl e, s2) \<Rightarrow> (Err e, s2)
                | (Inr _, s2) \<Rightarrow> (Ok (), snd (remove_download_state E h s2)))))"

text \<open>The events of a torrent's monitor; the last two end the task.\<close>

datatype torrent_event = TorrentProgress | TorrentCompleted | TorrentFailed

definition torrent_event_seen :: "ms_env \<Rightarrow> u64 \<Rightarrow> string \<Rightarrow> string \<Rightarrow> path \<Rightarrow> torrent_event \<Rightarrow> ms_service \<Rightarrow> ms_service" where
  "torrent_event_seen E now h magnet target ev s =
     (case ev of
        TorrentProgress \<Rightarrow> upd_download h (upd_assignment magnet (\<lambda>g. g\<lparr>sg_last_activity := Some now\<rparr>)) s
      | TorrentCompleted \<Rightarrow>
          (case fs_read (me_io E) target (mz_disk s) of
             Inr file \<Rightarrow> snd (ingest_file_chunks E now h magnet file s)
           | Inl _ \<Rightarrow> upd_download h (upd_assignment magnet (\<lambda>g. g\<lparr>sg_status := SsFailed\<rparr>)) s)
      | TorrentFailed \<Rightarrow> upd_download h (upd_assignment magnet (\<lambda>g. g\<lparr>sg_status := SsFailed\<rparr>)) s)"

section \<open>Connections\<close>

datatype p2p_outcome = OfferNotCreated string | OfferTimeout | AnswerTimeout | AnswerRejected string | P2pConnected

datatype http_reply = HttpRequestFailed string | HttpOtherStatus string | HttpBodyFailed string | HttpBytes bytes

text \<open>What the network does: the outcome of connecting to a source, and the answers of HTTP servers.\<close>

record ms_net =
  nt_p2p :: "string \<Rightarrow> p2p_outcome"
  nt_ftp :: "ftp_source_info \<Rightarrow> (string, unit) result"
  nt_url_path :: "string \<Rightarrow> (string, string) result"
  nt_http_client :: "(string, unit) result"
  nt_http :: "string \<Rightarrow> u64 \<Rightarrow> u64 \<Rightarrow> http_reply"
  nt_ed2k :: "ed2k_source_info \<Rightarrow> (string, unit) result"
  nt_torrent :: "string \<Rightarrow> path \<Rightarrow> (string, unit) result"

definition start_p2p_connection :: "ms_net \<Rightarrow> u64 \<Rightarrow> string \<Rightarrow> string \<Rightarrow> u32 list \<Rightarrow> ms_service \<Rightarrow> (string, unit) result \<times> ms_service" where
  "start_p2p_connection N now h peer ids s =
     (let s1 = upd_download h (put_assignment peer (p2p_source peer) ids) s
      in case nt_p2p N peer of
           OfferNotCreated e \<Rightarrow>
             (let error = ''Failed to create offer: '' @ e in (Err error, on_source_failed h peer error s1))
         | OfferTimeout \<Rightarrow> (Err ''Offer timeout'', on_source_failed h peer ''Offer timeout'' s1)
         | AnswerTimeout \<Rightarrow> (Err ''Answer timeout'', on_source_failed h peer ''Answer timeout'' s1)
         | AnswerRejected e \<Rightarrow> (Err e, on_source_failed h peer (''Connection failed: '' @ e) s1)
         | P2pConnected \<Rightarrow> (Ok (), on_source_connected now h peer s1))"

definition ftp_error_message :: "string \<Rightarrow> string \<Rightarrow> string" where
  "ftp_error_message url e =
     (if str_contains ''Connection refused'' e then ''FTP server refused connection: '' @ url @ '' (server may be down)''
      else if str_contains ''timeout'' e \<or> str_contains ''Timeout'' e
      then ''FTP connection timeout: '' @ url @ '' (server may be slow or unreachable)''
      else if str_contains ''login'' e \<or> str_contains ''authentication'' e \<or> str_contains ''530'' e
      then ''FTP authentication failed: '' @ url @ '' (invalid credentials)''
      else if str_contains ''550'' e then ''FTP file not found or permission denied: '' @ url
      else ''FTP connection failed: '' @ url @ '' - '' @ e)"

text \<open>The connection is kept in a pool from which the tasks of the wave take theirs, or make another.\<close>

definition start_ftp_connection :: "ms_net \<Rightarrow> u64 \<Rightarrow> string \<Rightarrow> ftp_source_info \<Rightarrow> u32 list \<Rightarrow> ms_service \<Rightarrow> (string, unit) result \<times> ms_service" where
  "start_ftp_connection N now h info ids s =
     (let url = ftp_url info; s1 = upd_download h (put_assignment url (Ftp info) ids) s
      in case nt_url_path N url of
           Inl e \<Rightarrow> (Err (''Invalid FTP URL: '' @ e), s1)
         | Inr _ \<Rightarrow>
             (case nt_ftp N info of
                Inl e \<Rightarrow> (let error = ftp_error_message url e in (Err error, on_source_failed h url error s1))
              | Inr _ \<Rightarrow> (Ok (), start_ftp_chunk_downloads (nt_url_path N) h url ids (on_source_connected now h url s1))))"

text \<open>
  One chunk over HTTP. The caller keeps its read guard on the table for the whole loop, so \<open>held\<close> is true there; every way to
  go on from an answer writes to the table.
\<close>

definition write_table :: "bool \<Rightarrow> 'a \<Rightarrow> 'a option" where
  "write_table held x = (if held then None else Some x)"

definition http_chunk :: "ms_env \<Rightarrow> ms_net \<Rightarrow> u64 \<Rightarrow> bool \<Rightarrow> string \<Rightarrow> string \<Rightarrow> ms_chunk \<Rightarrow> ms_service \<Rightarrow> ms_service option" where
  "http_chunk E N now held h url c s =
     (let failed = (\<lambda>error. write_table held (on_source_failed h url error s)); num = show_nat (mk_chunk_id c)
      in case nt_http N url (mk_offset c) (wsub64 (wadd64 (mk_offset c) (mk_size c)) 1) of
           HttpRequestFailed e \<Rightarrow> failed (''HTTP request failed for chunk '' @ num @ '': '' @ e)
         | HttpOtherStatus st \<Rightarrow> failed (''HTTP server doesn'' @ [CHR 0x27] @ ''t support range requests for chunk '' @ num @ '' (status: '' @ st @ '')'')
         | HttpBodyFailed e \<Rightarrow> failed (''Failed to read HTTP response for chunk '' @ num @ '': '' @ e)
         | HttpBytes data \<Rightarrow>
             if length data \<noteq> mk_size c then failed (''HTTP chunk '' @ num @ '' size mismatch'')
             else case verify_chunk_integrity (me_sha E) c data of
                    Inl _ \<Rightarrow> failed (''HTTP chunk '' @ num @ '' hash verification failed'')
                  | Inr _ \<Rightarrow>
                      write_table held (case store_verified_chunk E now h c data url s of
                          (Inr _, s1) \<Rightarrow> s1
                        | (Inl e, s1) \<Rightarrow> on_source_failed h url (''Failed to store HTTP chunk '' @ num @ '': '' @ e) s1))"

fun http_chunks ::
  "ms_env \<Rightarrow> ms_net \<Rightarrow> u64 \<Rightarrow> bool \<Rightarrow> string \<Rightarrow> string \<Rightarrow> active_download \<Rightarrow> u32 list \<Rightarrow> ms_service \<Rightarrow> ((string, unit) result \<times> ms_service) option" where
  "http_chunks E N now held h url a [] s = Some (Ok (), s)"
| "http_chunks E N now held h url a (i # is) s =
     (case find_chunk i a of
        None \<Rightarrow> http_chunks E N now held h url a is s
      | Some c \<Rightarrow>
          (case nt_http_client N of
             Inl e \<Rightarrow> Some (Err (''Failed to create HTTP client: '' @ e), s)
           | Inr _ \<Rightarrow>
               (case http_chunk E N now held h url c s of
                  None \<Rightarrow> None
                | Some s1 \<Rightarrow> http_chunks E N now held h url a is s1)))"

definition start_http_download ::
  "ms_env \<Rightarrow> ms_net \<Rightarrow> u64 \<Rightarrow> string \<Rightarrow> http_source_info \<Rightarrow> u32 list \<Rightarrow> ms_service \<Rightarrow> ((string, unit) result \<times> ms_service) option" where
  "start_http_download E N now h info ids s =
     (case mz_downloads s h of
        None \<Rightarrow>
          (let error = ''No active download found for file '' @ h
           in write_table True (Err error, on_source_failed h (http_url info) error s))
      | Some a \<Rightarrow> http_chunks E N now True h (http_url info) a ids s)"

definition start_ed2k_connection :: "ms_net \<Rightarrow> u64 \<Rightarrow> string \<Rightarrow> ed2k_source_info \<Rightarrow> u32 list \<Rightarrow> ms_service \<Rightarrow> (string, unit) result \<times> ms_service" where
  "start_ed2k_connection N now h info ids s =
     (let server = ed2k_server_url info; s1 = upd_download h (put_assignment server (Ed2k info) ids) s
      in case nt_ed2k N info of
           Inl e \<Rightarrow> (let error = ''Ed2k connection failed: '' @ server @ '' - '' @ e in (Err error, on_source_failed h server error s1))
         | Inr _ \<Rightarrow> (Ok (), start_ed2k_chunk_downloads h info ids (on_source_connected now h server (return_client server s1))))"

definition start_bittorrent_download ::
  "ms_env \<Rightarrow> ms_net \<Rightarrow> u64 \<Rightarrow> string \<Rightarrow> bittorrent_source_info \<Rightarrow> u32 list \<Rightarrow> ms_service \<Rightarrow> (string, unit) result \<times> ms_service" where
  "start_bittorrent_download E N now h info ids s =
     (case mz_downloads s h of
        None \<Rightarrow> (Err (''Download '' @ h @ '' not found for BitTorrent source''), s)
      | Some a \<Rightarrow>
          let magnet = bt_magnet_uri info;
              s1 = upd_download h (put_assignment magnet (BitTorrent info) ids) s;
              folder = (case parent (path_of_string (ad_output_path a)) of Some q \<Rightarrow> q | None \<Rightarrow> [])
          in case fs_mkdir (me_io E) folder of
               Inl e \<Rightarrow> (let err = ''Failed to create BitTorrent output dir: '' @ me_show_io E e in (Err err, on_source_failed h magnet err s1))
             | Inr _ \<Rightarrow>
                 (case nt_torrent N magnet folder of
                    Inl e \<Rightarrow> (let err = ''BitTorrent start failed: '' @ e in (Err err, on_source_failed h magnet err s1))
                  | Inr _ \<Rightarrow>
                      (Ok (), spawn_task (TaskTorrent h magnet (path_join folder (md_file_name (ad_file_metadata a))))
                         (upd_download h (upd_assignment magnet (\<lambda>g. g\<lparr>sg_status := SsDownloading, sg_connected_at := Some now\<rparr>)) s1))))"

definition connect_source ::
  "ms_env \<Rightarrow> ms_net \<Rightarrow> u64 \<Rightarrow> string \<Rightarrow> download_source \<Rightarrow> u32 list \<Rightarrow> ms_service \<Rightarrow> ((string, unit) result \<times> ms_service) option" where
  "connect_source E N now h src ids s =
     (case src of
        P2p info \<Rightarrow> Some (start_p2p_connection N now h (p2p_peer_id info) ids s)
      | Ftp info \<Rightarrow> Some (start_ftp_connection N now h info ids s)
      | Http info \<Rightarrow> start_http_download E N now h info ids s
      | Ed2k info \<Rightarrow> Some (start_ed2k_connection N now h info ids s)
      | BitTorrent info \<Rightarrow> Some (start_bittorrent_download E N now h info ids s))"

text \<open>The first source whose connection fails ends the loop.\<close>

fun connect_sources :: "ms_env \<Rightarrow> ms_net \<Rightarrow> u64 \<Rightarrow> string \<Rightarrow> assignments \<Rightarrow> ms_service \<Rightarrow> ((string, unit) result \<times> ms_service) option" where
  "connect_sources E N now h [] s = Some (Ok (), s)"
| "connect_sources E N now h ((src, ids) # as) s =
     (case connect_source E N now h src ids s of
        None \<Rightarrow> None
      | Some (Inl e, s1) \<Rightarrow> Some (Err e, s1)
      | Some (Inr _, s1) \<Rightarrow> connect_sources E N now h as s1)"

definition start_source_connections ::
  "ms_env \<Rightarrow> ms_net \<Rightarrow> u64 \<Rightarrow> string \<Rightarrow> download_source list \<Rightarrow> ms_service \<Rightarrow> ((string, unit) result \<times> ms_service) option" where
  "start_source_connections E N now h sources s =
     (if sources = [] then Some (Err ''No sources provided for download'', s)
      else case mz_downloads s h of
             None \<Rightarrow> Some (Err ''Download not found'', s)
           | Some a \<Rightarrow> connect_sources E N now h (assign_chunks_to_sources (ad_chunks a) sources (ad_completed_chunks a)) s)"

section \<open>Commands\<close>

text \<open>What the DHT answers: the metadata of the file and its peers.\<close>

record ms_dht =
  mt_search :: "string \<Rightarrow> (string, file_metadata option) result"
  mt_peers :: "file_metadata \<Rightarrow> (string, string list) result"

definition new_active_download :: "nat \<Rightarrow> file_metadata \<Rightarrow> ms_chunk list \<Rightarrow> string \<Rightarrow> active_download" where
  "new_active_download clock m chunks output_path =
     \<lparr>ad_file_metadata = m, ad_chunks = chunks, ad_source_assignments = Map.empty, ad_completed_chunks = Map.empty, ad_failed_chunks = [],
      ad_start_time = clock, ad_output_path = output_path, ad_ed2k_chunk_hashes = first_ed2k_hashes m\<rparr>"

definition loaded_count :: "(string, usize) result \<Rightarrow> usize" where
  "loaded_count r = (case r of Inr n \<Rightarrow> n | Inl _ \<Rightarrow> 0)"

text \<open>When chunks were loaded and the file is complete, it is finalized while a read guard is held.\<close>

definition resume_loaded :: "ms_env \<Rightarrow> string \<Rightarrow> usize \<Rightarrow> ms_service \<Rightarrow> bool option" where
  "resume_loaded E h n s =
     (if n = 0 then Some False
      else case mz_downloads s h of
             None \<Rightarrow> Some False
           | Some a \<Rightarrow> if length (ad_chunks a) mod 2 ^ 32 \<le> card (dom (ad_completed_chunks a)) mod 2 ^ 32 then write_table True True else Some False)"

definition download_started :: "string \<Rightarrow> download_source list \<Rightarrow> (string, unit) result \<times> ms_service \<Rightarrow> (string, unit) result \<times> ms_service" where
  "download_started h selected = (\<lambda>(r, s).
     case r of Inl e \<Rightarrow> (Err e, s) | Inr _ \<Rightarrow> (Ok (), spawn_task (TaskMonitor h) (ms_emit (MvDownloadStarted h (length selected)) s)))"

text \<open>
  The start, once metadata and sources are known. The division by the chunk size panics when it is zero, which ends the task
  that runs all commands.
\<close>

definition begin_download ::
  "ms_env \<Rightarrow> ms_net \<Rightarrow> nat \<Rightarrow> u64 \<Rightarrow> string \<Rightarrow> string \<Rightarrow> usize option \<Rightarrow> usize \<Rightarrow> file_metadata \<Rightarrow> download_source list \<Rightarrow> ms_service \<Rightarrow>
   ((string, unit) result \<times> ms_service) option" where
  "begin_download E N clock now h output_path max_peers cs m available s =
     Option.bind (total_chunks_of (md_file_size m) cs) (\<lambda>total_chunks.
     Option.bind (calculate_chunks (me_parse_manifest E) m cs) (\<lambda>chunks.
       let selected = select_optimal_sources available (sources_wanted total_chunks (length available) max_peers);
           s1 = s\<lparr>mz_downloads := (mz_downloads s)(h \<mapsto> new_active_download clock m chunks output_path)\<rparr>
       in Option.bind (load_existing_chunks_into_download E h s1) (\<lambda>(loaded, s2).
          Option.bind (resume_loaded E h (loaded_count loaded) s2) (\<lambda>_.
            map_option (download_started h selected) (start_source_connections E N now h selected s2)))))"

definition handle_start_download ::
  "ms_env \<Rightarrow> ms_net \<Rightarrow> ms_dht \<Rightarrow> nat \<Rightarrow> u64 \<Rightarrow> string \<Rightarrow> string \<Rightarrow> usize option \<Rightarrow> usize option \<Rightarrow> ms_service \<Rightarrow> ((string, unit) result \<times> ms_service) option" where
  "handle_start_download E N D clock now h output_path max_peers chunk_size s =
     (if mz_downloads s h \<noteq> None then Some (Err ''Download already in progress'', s)
      else case mt_search D h of
        Inl e \<Rightarrow> Some (Err (''DHT search failed: '' @ e), s)
      | Inr None \<Rightarrow> Some (Err ''File metadata not found'', s)
      | Inr (Some m) \<Rightarrow>
          (case mt_peers D m of
             Inl e \<Rightarrow> Some (Err (''Peer discovery failed: '' @ e), s)
           | Inr peers \<Rightarrow>
               if available_sources peers m = [] then Some (Err ''No sources available for download'', s)
               else begin_download E N clock now h output_path max_peers
                      (case chunk_size of Some n \<Rightarrow> n | None \<Rightarrow> DEFAULT_CHUNK_SIZE) m (available_sources peers m) s))"

definition handle_cancel_download :: "string \<Rightarrow> ms_service \<Rightarrow> ms_service" where
  "handle_cancel_download h s =
     (case mz_downloads s h of
        None \<Rightarrow> s
      | Some a \<Rightarrow> s\<lparr>mz_downloads := hm_remove (mz_downloads s) h,
                    mz_ed2k_clients := {c \<in> mz_ed2k_clients s. \<not> (case ad_source_assignments a c of
                       Some g \<Rightarrow> (case sg_source g of Ed2k _ \<Rightarrow> True | _ \<Rightarrow> False) | None \<Rightarrow> False)}\<rparr>)"

definition is_active_source :: "source_assignment \<Rightarrow> bool" where
  "is_active_source g = (sg_status g = SsConnected \<or> sg_status g = SsDownloading)"

text \<open>The sources that can be asked again, in the iteration order of the map.\<close>

definition retry_sources :: "string list \<Rightarrow> active_download \<Rightarrow> (string \<times> download_source) list" where
  "retry_sources order a =
     List.map_filter (\<lambda>sid. case ad_source_assignments a sid of
        None \<Rightarrow> None | Some g \<Rightarrow> if is_active_source g then Some (sid, sg_source g) else None) order"

definition give_retry :: "string \<Rightarrow> string list \<Rightarrow> ms_service \<Rightarrow> nat \<times> u32 \<Rightarrow> ms_service" where
  "give_retry h ids s = (\<lambda>(k, i).
     upd_download h (upd_assignment (ids ! (k mod length ids)) (\<lambda>g. g\<lparr>sg_chunks := sg_chunks g @ [i]\<rparr>)) s)"

definition handle_retry_failed_chunks ::
  "ms_net \<Rightarrow> string list \<Rightarrow> string \<Rightarrow> ms_service \<Rightarrow> (string, unit) result \<times> ms_service" where
  "handle_retry_failed_chunks N order h s =
     (case mz_downloads s h of
        None \<Rightarrow> (Err ''Download not found'', s)
      | Some a \<Rightarrow>
          let failed = take 10 (ad_failed_chunks a);
              a1 = a\<lparr>ad_failed_chunks := drop 10 (ad_failed_chunks a)\<rparr>;
              s1 = s\<lparr>mz_downloads := (mz_downloads s)(h \<mapsto> a1)\<rparr>;
              sources = retry_sources order a1
          in if failed = [] then (Ok (), s1)
             else if sources = [] then (Err ''No available sources for retry'', s1)
             else case List.map_filter (\<lambda>(_, src). case src of Ftp info \<Rightarrow> Some info | _ \<Rightarrow> None) sources of
                    info # _ \<Rightarrow> (Ok (), start_ftp_chunk_downloads (nt_url_path N) h (ftp_url info) failed s1)
                  | [] \<Rightarrow> (Ok (), foldl (give_retry h (map fst sources)) s1 (enumerate 0 failed)))"

section \<open>The monitor\<close>

text \<open>\<open>elapsed\<close> is the age of the download in nanoseconds; the two orders are those of the hash maps.\<close>

definition ms_calculate_progress :: "nat \<Rightarrow> u32 list \<Rightarrow> string list \<Rightarrow> active_download \<Rightarrow> ms_progress" where
  "ms_calculate_progress elapsed chunk_order source_order a =
     (let assignments = hm_values (ad_source_assignments a) source_order;
          downloaded = foldl wadd64 0 (map (\<lambda>cc. length (cc_data cc)) (hm_values (ad_completed_chunks a) chunk_order));
          secs = secs_f64 elapsed;
          speed = (if f64_lt (F_Fin 0) secs then f64_div (f64_of_u64 downloaded) secs else F_Fin 0);
          file_size = md_file_size (ad_file_metadata a)
      in \<lparr>mp_file_hash = md_merkle_root (ad_file_metadata a), mp_file_name = md_file_name (ad_file_metadata a), mp_total_size = file_size,
          mp_downloaded_size = downloaded, mp_total_chunks = length (ad_chunks a) mod 2 ^ 32,
          mp_completed_chunks = length (hm_values (ad_completed_chunks a) chunk_order) mod 2 ^ 32,
          mp_active_sources = length (filter is_active_source assignments), mp_download_speed_bps = speed,
          mp_eta_seconds = (if f64_lt (F_Fin 0) speed
             then Some (f64_to_u32 (f64_div (f64_of_u64 (wsub64 file_size downloaded)) speed)) else None),
          mp_source_assignments = assignments\<rparr>)"

text \<open>One turn of the monitor; it goes on when the first component is true.\<close>

definition monitor_tick :: "ms_env \<Rightarrow> nat \<Rightarrow> nat \<Rightarrow> u32 list \<Rightarrow> string list \<Rightarrow> string \<Rightarrow> ms_service \<Rightarrow> bool \<times> ms_service" where
  "monitor_tick E watched elapsed chunk_order source_order h s =
     (case mz_downloads s h of
        None \<Rightarrow> (False, s)
      | Some a \<Rightarrow>
          let p = ms_calculate_progress elapsed chunk_order source_order a;
              secs = secs_f64 watched;
              avg = (if f64_lt (F_Fin 0) secs then f64_div (f64_of_u64 (md_file_size (ad_file_metadata a))) secs else F_Fin 0)
          in if mp_total_chunks p \<le> mp_completed_chunks p
             then (False, case finalize_download_static E h s of
                     (Inl e, s1) \<Rightarrow> ms_emit (MvDownloadFailed h (''Failed to finalize download: '' @ e)) s1
                   | (Inr _, s1) \<Rightarrow> ms_emit (MvDownloadCompleted h [] (watched div 10 ^ 9) avg) s1)
             else (True, ms_emit (MvProgress h p) s))"

definition extract_info_hash_from_magnet :: "string \<Rightarrow> string option" where
  "extract_info_hash_from_magnet magnet =
     (case List.map_filter (\<lambda>part. case strip_prefix ''magnet:?xt=urn:btih:'' part of
             Some rest \<Rightarrow> Some rest | None \<Rightarrow> strip_prefix ''xt=urn:btih:'' part) (split_on (CHR ''&'') magnet) of
        [] \<Rightarrow> None | x # _ \<Rightarrow> Some x)"

definition drain_events :: "usize \<Rightarrow> ms_service \<Rightarrow> ms_event list \<times> ms_service" where
  "drain_events n s = (take n (mz_events s), s\<lparr>mz_events := drop n (mz_events s)\<rparr>)"

text \<open>
  The loop that runs the commands, one after the other. A command that does not return ends it; errors are logged.
\<close>

definition run_ms_command ::
  "ms_env \<Rightarrow> ms_net \<Rightarrow> ms_dht \<Rightarrow> nat \<Rightarrow> u64 \<Rightarrow> string list \<Rightarrow> ms_command \<Rightarrow> ms_service \<Rightarrow> ms_service option" where
  "run_ms_command E N D clock now order c s =
     (case c of
        MsStart h out max_peers chunk_size \<Rightarrow> map_option snd (handle_start_download E N D clock now h out max_peers chunk_size s)
      | MsCancel h \<Rightarrow> Some (handle_cancel_download h s)
      | MsRetry h \<Rightarrow> Some (snd (handle_retry_failed_chunks N order h s)))"

text \<open>Shutting down: FTP connections are closed and every download of the table is cancelled.\<close>

definition ms_cleanup :: "string list \<Rightarrow> ms_service \<Rightarrow> ms_service" where
  "ms_cleanup active s = foldl (\<lambda>s h. handle_cancel_download h s) s active"

section \<open>Functions that are not called\<close>

text \<open>Asking a peer for the file: \<open>sent\<close> is the outcome of sending the request.\<close>

definition start_chunk_requests :: "(string, unit) result \<Rightarrow> string \<Rightarrow> string \<Rightarrow> ms_service \<Rightarrow> ms_service" where
  "start_chunk_requests sent h peer s =
     (case mz_downloads s h of
        None \<Rightarrow> s
      | Some _ \<Rightarrow>
          (case sent of
             Inl e \<Rightarrow> on_source_failed h peer (''File request failed: '' @ e) s
           | Inr _ \<Rightarrow> upd_download h (upd_assignment peer (\<lambda>g. g\<lparr>sg_status := SsDownloading\<rparr>)) s))"

definition ensure_dir :: "ms_env \<Rightarrow> path \<Rightarrow> disk \<Rightarrow> (io_error, unit) result" where
  "ensure_dir E p d = (if me_listing E p d = None then fs_mkdir (me_io E) p else Ok ())"

definition ms_store_chunk :: "ms_env \<Rightarrow> u64 \<Rightarrow> string \<Rightarrow> u32 \<Rightarrow> bytes \<Rightarrow> ms_service \<Rightarrow> (string, unit) result \<times> ms_service" where
  "ms_store_chunk E now h i data s =
     (case ensure_dir E [''chunks''] (mz_disk s) of
        Inl e \<Rightarrow> (Err (''Failed to create chunks directory: '' @ me_show_io E e), s)
      | Inr _ \<Rightarrow>
     (case ensure_dir E (chunks_dir_of h) (mz_disk s) of
        Inl e \<Rightarrow> (Err (''Failed to create file directory: '' @ me_show_io E e), s)
      | Inr _ \<Rightarrow>
     (case fs_write (me_io E) (dat_path h i) data (mz_disk s) of
        (Inl e, d) \<Rightarrow> (Err (''Failed to write chunk '' @ show_nat i @ '': '' @ me_show_io E e), set_disk d s)
      | (Inr _, d) \<Rightarrow>
          (case fs_write (me_io E) (meta_file_path h i)
                  (me_meta_json E \<lparr>cf_chunk_id = i, cf_size = length data, cf_stored_at = now div 1000, cf_file_hash = h, cf_source_type = None\<rparr>) d of
             (Inl e, d1) \<Rightarrow> (Err (''Failed to write chunk metadata '' @ show_nat i @ '': '' @ me_show_io E e), set_disk d1 s)
           | (Inr _, d1) \<Rightarrow> (Ok (), set_disk d1 s)))))"

definition report_chunk_complete :: "string \<Rightarrow> u32 \<Rightarrow> ms_service \<Rightarrow> (string, unit) result \<times> ms_service" where
  "report_chunk_complete h i s = (Ok (), ms_emit (MvChunkCompleted h i ''ed2k'') s)"

definition get_ed2k_chunk_hash :: "ms_env \<Rightarrow> string \<Rightarrow> u32 \<Rightarrow> ms_service \<Rightarrow> string" where
  "get_ed2k_chunk_hash E h block s =
     (case mz_downloads s h of
        None \<Rightarrow> ed2k_fallback_hash E h block
      | Some a \<Rightarrow>
          (case (case ad_ed2k_chunk_hashes a of Some hs \<Rightarrow> if block < length hs then Some (hs ! block) else None | None \<Rightarrow> None) of
             Some hash \<Rightarrow> hash
           | None \<Rightarrow> (case ad_completed_chunks a block of
               Some cc \<Rightarrow> hex_encode (me_md4 E (cc_data cc))
             | None \<Rightarrow> ed2k_fallback_hash E h block)))"

definition verify_ed2k_chunk_hash :: "ms_env \<Rightarrow> bytes \<Rightarrow> string \<Rightarrow> bool" where
  "verify_ed2k_chunk_hash E data expected = eq_ignore_ascii_case (hex_encode (me_md4 E data)) expected"

definition ms_is_last_chunk :: "string \<Rightarrow> u32 \<Rightarrow> ms_service \<Rightarrow> bool" where
  "ms_is_last_chunk h i s =
     (case mz_downloads s h of None \<Rightarrow> False | Some a \<Rightarrow> i = foldl max 0 (map mk_chunk_id (ad_chunks a)))"

text \<open>Downloading a block with the client of the pool; \<open>fetch\<close> is the client.\<close>

definition download_ed2k_chunk ::
  "ms_env \<Rightarrow> (string \<Rightarrow> u32 \<Rightarrow> string \<Rightarrow> (string, bytes) result) \<Rightarrow> string \<Rightarrow> string \<Rightarrow> u32 \<Rightarrow> ms_service \<Rightarrow> (string, bytes) result \<times> ms_service" where
  "download_ed2k_chunk E fetch server h block s =
     (case take_client server s of
        (False, s1) \<Rightarrow> (Err (''Ed2k client not found in connection pool for '' @ server), s1)
      | (True, s1) \<Rightarrow>
          let expected = get_ed2k_chunk_hash E h block s1
          in (case fetch h block expected of
                Inl e \<Rightarrow> Err (''Ed2k chunk download failed: '' @ e)
              | Inr data \<Rightarrow> if verify_ed2k_chunk_hash E data expected then Ok data
                            else Err (''Ed2k chunk '' @ show_nat block @ '' hash verification failed''), return_client server s1))"

definition split_one :: "string \<Rightarrow> string \<Rightarrow> u32 \<Rightarrow> bytes \<Rightarrow> ms_service \<Rightarrow> ms_chunk \<Rightarrow> ms_service" where
  "split_one h server block data s c =
     (let (b, start) = map_our_chunk_to_ed2k_chunk c;
          stop = min (start + mk_size c) (length data);
          part = drop start (take stop data)
      in if b \<noteq> block \<or> length data \<le> start then s
         else if length part \<noteq> mk_size c \<and> \<not> ms_is_last_chunk h (mk_chunk_id c) s then s
         else upd_download h (complete_chunk_in (mk_chunk_id c) part server) s)"

definition split_and_store_ed2k_chunk :: "string \<Rightarrow> string \<Rightarrow> u32 \<Rightarrow> bytes \<Rightarrow> ms_chunk list \<Rightarrow> ms_service \<Rightarrow> ms_service" where
  "split_and_store_ed2k_chunk h server block data cs s = foldl (split_one h server block data) s cs"

definition ms_verify_chunk_hash :: "ms_env \<Rightarrow> bytes \<Rightarrow> string \<Rightarrow> u32 \<Rightarrow> ms_service \<Rightarrow> (string, bool) result" where
  "ms_verify_chunk_hash E data h i s =
     (case mz_downloads s h of
        None \<Rightarrow> Err (''No active download found for file '' @ h)
      | Some a \<Rightarrow>
          (case find_chunk i a of
             None \<Rightarrow> Err (''No chunk info found for chunk_id '' @ show_nat i @ '' in file '' @ h)
           | Some c \<Rightarrow> Ok (hex_encode (me_sha E (data @ h @ rev (be_bytes 4 i))) = mk_hash c)))"

section \<open>Stored chunks are verified\<close>

text \<open>Every completed chunk is one of the table and passes the check of its hash.\<close>

definition download_ok :: "(bytes \<Rightarrow> bytes) \<Rightarrow> active_download \<Rightarrow> bool" where
  "download_ok sha a \<longleftrightarrow> (\<forall>i cc. ad_completed_chunks a i = Some cc \<longrightarrow>
     (\<exists>c. find_chunk i a = Some c \<and> verify_chunk_integrity sha c (cc_data cc) = Ok ()))"

definition ms_ok :: "(bytes \<Rightarrow> bytes) \<Rightarrow> string set \<Rightarrow> ms_service \<Rightarrow> bool" where
  "ms_ok sha H s \<longleftrightarrow> (\<forall>h \<in> H. \<forall>a. mz_downloads s h = Some a \<longrightarrow> download_ok sha a)"

text \<open>A task works with chunks of the table as it is now.\<close>

definition current_chunk :: "ms_service \<Rightarrow> string \<Rightarrow> ms_chunk \<Rightarrow> bool" where
  "current_chunk s h c \<longleftrightarrow> (\<forall>a. mz_downloads s h = Some a \<longrightarrow> find_chunk (mk_chunk_id c) a = Some c)"

text \<open>
  The steps of the service, for an observer of the downloads in \<open>H\<close>. Those may be started, retried, cancelled and watched, and their
  chunks may come from FTP, eDonkey and HTTP tasks of their present tables. Whatever leaves them alone may happen besides
  (\<open>step_elsewhere\<close>): torrents of other downloads, restoring other downloads, tasks of other downloads, also of ones that
  were cancelled, clean-ups of the disk. Two things are left out because they store unchecked data: ingesting the file of a torrent of a
  download in \<open>H\<close> (\<open>torrent_data_unchecked\<close>), and restoring a download in \<open>H\<close> from a state file.
\<close>

inductive ms_step :: "ms_env \<Rightarrow> string set \<Rightarrow> ms_service \<Rightarrow> ms_service \<Rightarrow> bool" for E H where
  step_start: "handle_start_download E N D clock now h out max_peers cs s = Some (r, s') \<Longrightarrow> ms_step E H s s'"
| step_cancel: "ms_step E H s (handle_cancel_download h s)"
| step_retry: "ms_step E H s (snd (handle_retry_failed_chunks N order h s))"
| step_ftp: "current_chunk s h c \<Longrightarrow> ms_step E H s (ftp_chunk_task E now h url c outcome s)"
| step_wave: "ms_step E H s (ftp_wave_done h url s)"
| step_block: "(\<And>c. c \<in> set cs \<Longrightarrow> current_chunk s h c) \<Longrightarrow> ms_step E H s (ed2k_block_task E now fetch h server hash (b, cs) s)"
| step_http: "current_chunk s h c \<Longrightarrow> http_chunk E N now False h url c s = Some s' \<Longrightarrow> ms_step E H s s'"
| step_check: "ms_step E H s (snd (verify_chunk_for_download E h i data s))"
| step_monitor: "ms_step E H s (snd (monitor_tick E watched elapsed o1 o2 h s))"
| step_drain: "ms_step E H s (snd (drain_events n s))"
| step_torrent: "h \<notin> H \<or> ev \<noteq> TorrentCompleted \<Longrightarrow> ms_step E H s (torrent_event_seen E now h magnet target ev s)"
| step_elsewhere: "(\<And>h. h \<in> H \<Longrightarrow> mz_downloads s' h = mz_downloads s h) \<Longrightarrow> ms_step E H s s'"

named_theorems keeps_ok \<open>operations that keep the completed chunks verified\<close>

lemma ms_okI: "(\<And>h a. h \<in> H \<Longrightarrow> mz_downloads s h = Some a \<Longrightarrow> download_ok sha a) \<Longrightarrow> ms_ok sha H s"
  by (simp add: ms_ok_def)

lemma ms_okD: "ms_ok sha H s \<Longrightarrow> h \<in> H \<Longrightarrow> mz_downloads s h = Some a \<Longrightarrow> download_ok sha a"
  by (simp add: ms_ok_def)

lemma ms_ok_cong: "mz_downloads s = mz_downloads t \<Longrightarrow> ms_ok sha H s \<longleftrightarrow> ms_ok sha H t"
  by (simp add: ms_ok_def)

lemma download_ok_cong:
  "ad_chunks a = ad_chunks b \<Longrightarrow> ad_completed_chunks a = ad_completed_chunks b \<Longrightarrow> download_ok sha a \<longleftrightarrow> download_ok sha b"
  by (simp add: download_ok_def find_chunk_def)

lemma set_disk_simps [simp]:
  "mz_downloads (set_disk d s) = mz_downloads s" "mz_disk (set_disk d s) = d" "mz_tasks (set_disk d s) = mz_tasks s"
  "mz_events (set_disk d s) = mz_events s" "mz_commands (set_disk d s) = mz_commands s"
  by (simp_all add: set_disk_def)

lemma queue_simps [simp]:
  "mz_downloads (ms_emit e s) = mz_downloads s" "mz_downloads (send_command c s) = mz_downloads s" "mz_downloads (spawn_task t s) = mz_downloads s"
  "mz_store (ms_emit e s) = mz_store s" "mz_store (send_command c s) = mz_store s" "mz_store (spawn_task t s) = mz_store s"
  by (simp_all add: ms_emit_def send_command_def spawn_task_def)

lemma return_client_downloads [simp]: "mz_downloads (return_client v s) = mz_downloads s"
  by (simp add: return_client_def)

lemma persist_chunk_downloads [simp]: "mz_downloads (persist_chunk E now kind h i data s) = mz_downloads s"
  by (simp add: persist_chunk_def Let_def split: prod.splits sum.splits)

lemma table_fields [simp]:
  "ad_chunks (upd_assignment sid f a) = ad_chunks a" "ad_completed_chunks (upd_assignment sid f a) = ad_completed_chunks a"
  "ad_chunks (put_assignment sid src ids a) = ad_chunks a" "ad_completed_chunks (put_assignment sid src ids a) = ad_completed_chunks a"
  "ad_chunks (push_failed ids a) = ad_chunks a" "ad_completed_chunks (push_failed ids a) = ad_completed_chunks a"
  "ad_chunks (complete_chunk_in i data sid a) = ad_chunks a"
  "ad_file_metadata (upd_assignment sid f a) = ad_file_metadata a" "ad_output_path (upd_assignment sid f a) = ad_output_path a"
  by (simp_all add: upd_assignment_def put_assignment_def push_failed_def complete_chunk_in_def split: option.splits)

lemma download_ok_table [keeps_ok]:
  "download_ok sha a \<Longrightarrow> download_ok sha (upd_assignment sid f a)"
  "download_ok sha a \<Longrightarrow> download_ok sha (put_assignment sid src ids a)"
  "download_ok sha a \<Longrightarrow> download_ok sha (push_failed ids a)"
  by (simp_all add: download_ok_def find_chunk_def)

lemma download_ok_complete:
  assumes "download_ok sha a" "find_chunk i a = Some c" "verify_chunk_integrity sha c data = Ok ()"
  shows "download_ok sha (complete_chunk_in i data sid a)"
  using assms by (auto simp: download_ok_def complete_chunk_in_def find_chunk_def)

lemma ms_ok_upd [keeps_ok]:
  "ms_ok sha H s \<Longrightarrow> (\<And>a. h \<in> H \<Longrightarrow> mz_downloads s h = Some a \<Longrightarrow> download_ok sha a \<Longrightarrow> download_ok sha (f a)) \<Longrightarrow> ms_ok sha H (upd_download h f s)"
  by (auto simp: ms_ok_def upd_download_def split: option.splits)

lemma ms_ok_put:
  "ms_ok sha H s \<Longrightarrow> (h \<in> H \<Longrightarrow> download_ok sha a) \<Longrightarrow> ms_ok sha H (s\<lparr>mz_downloads := (mz_downloads s)(h \<mapsto> a)\<rparr>)"
  by (simp add: ms_ok_def)

lemma ms_ok_simps [simp]:
  "ms_ok sha H (ms_emit e s) = ms_ok sha H s" "ms_ok sha H (send_command c s) = ms_ok sha H s" "ms_ok sha H (spawn_task t s) = ms_ok sha H s"
  "ms_ok sha H (set_disk d s) = ms_ok sha H s" "ms_ok sha H (return_client v s) = ms_ok sha H s"
  "ms_ok sha H (persist_chunk E now kind h i data s) = ms_ok sha H s"
  by (simp_all add: ms_ok_def)

lemma finalize_ok [keeps_ok]: "ms_ok sha H s \<Longrightarrow> ms_ok sha H (snd (finalize_download_static E h s))"
  by (auto simp: finalize_download_static_def ms_ok_def split: option.splits prod.splits if_splits)

lemma on_source_connected_ok [keeps_ok]: "ms_ok sha H s \<Longrightarrow> ms_ok sha H (on_source_connected now h sid s)"
  by (simp add: on_source_connected_def Let_def keeps_ok)

lemma on_source_failed_ok [keeps_ok]: "ms_ok sha H s \<Longrightarrow> ms_ok sha H (on_source_failed h sid e s)"
  by (simp add: on_source_failed_def Let_def keeps_ok)

lemma start_ftp_chunks_ok [keeps_ok]: "ms_ok sha H s \<Longrightarrow> ms_ok sha H (start_ftp_chunk_downloads up h url ids s)"
  by (simp add: start_ftp_chunk_downloads_def Let_def keeps_ok split: sum.splits)

lemma start_ed2k_chunks_ok [keeps_ok]: "ms_ok sha H s \<Longrightarrow> ms_ok sha H (start_ed2k_chunk_downloads h info ids s)"
  by (simp add: start_ed2k_chunk_downloads_def Let_def)

lemma start_p2p_ok [keeps_ok]: "ms_ok sha H s \<Longrightarrow> ms_ok sha H (snd (start_p2p_connection N now h peer ids s))"
  by (simp add: start_p2p_connection_def Let_def keeps_ok split: p2p_outcome.splits)

lemma start_ftp_ok [keeps_ok]: "ms_ok sha H s \<Longrightarrow> ms_ok sha H (snd (start_ftp_connection N now h info ids s))"
  by (simp add: start_ftp_connection_def Let_def keeps_ok split: sum.splits)

lemma start_ed2k_ok [keeps_ok]: "ms_ok sha H s \<Longrightarrow> ms_ok sha H (snd (start_ed2k_connection N now h info ids s))"
  by (simp add: start_ed2k_connection_def Let_def keeps_ok split: sum.splits)

lemma start_bittorrent_ok [keeps_ok]: "ms_ok sha H s \<Longrightarrow> ms_ok sha H (snd (start_bittorrent_download E N now h info ids s))"
  by (simp add: start_bittorrent_download_def Let_def keeps_ok split: option.splits sum.splits)

lemma http_chunk_held: "http_chunk E N now True h url c s = None"
  by (simp add: http_chunk_def Let_def write_table_def split: http_reply.splits sum.splits)

lemma http_chunks_held: "http_chunks E N now True h url a ids s = Some (r, s') \<Longrightarrow> s' = s"
  by (induction ids) (auto simp: http_chunk_held split: option.splits sum.splits)

lemma start_http_held: "start_http_download E N now h info ids s = Some (r, s') \<Longrightarrow> s' = s"
  by (auto simp: start_http_download_def Let_def write_table_def dest: http_chunks_held split: option.splits)

lemma connect_source_ok:
  assumes "connect_source E N now h src ids s = Some (r, s')" "ms_ok sha H s"
  shows "ms_ok sha H s'"
proof (cases "\<exists>info. src = Http info")
  case True
  with assms start_http_held show ?thesis by (fastforce simp: connect_source_def)
next
  case False
  then have "ms_ok sha H (snd (the (connect_source E N now h src ids s)))"
    using assms(2) by (cases src) (simp_all add: connect_source_def keeps_ok)
  with assms(1) show ?thesis by simp
qed

lemma connect_sources_ok: "connect_sources E N now h as s = Some (r, s') \<Longrightarrow> ms_ok sha H s \<Longrightarrow> ms_ok sha H s'"
proof (induction E N now h as s rule: connect_sources.induct)
  case (2 E N now h src ids as s)
  then show ?case by (auto split: option.splits prod.splits sum.splits dest: connect_source_ok)
qed simp

text \<open>Whatever is on disk, loading chunks returns only if it has loaded none.\<close>

lemma load_each_returns: "load_each E h s is a n = Some (a', n') \<Longrightarrow> a' = a \<and> n' = n"
  by (induction E h s "is" a n rule: load_each.induct)
    (auto simp: load_chunk_from_disk_def split: if_splits option.splits sum.splits)

lemma load_existing_returns:
  "load_existing_chunks_into_download E h s = Some (r, s') \<Longrightarrow> s' = s \<and> (\<forall>n. r = Ok n \<longrightarrow> n = 0)"
  by (auto simp: load_existing_chunks_into_download_def fun_upd_idem split: sum.splits if_splits option.splits dest!: load_each_returns)

lemma new_download_ok: "download_ok sha (new_active_download clock m chunks out)"
  by (simp add: download_ok_def new_active_download_def)

lemma begin_download_returns:
  assumes "begin_download E N clock now h out max_peers cs m available s = Some x"
  obtains chunks selected y where "start_source_connections E N now h selected
     (s\<lparr>mz_downloads := (mz_downloads s)(h \<mapsto> new_active_download clock m chunks out)\<rparr>) = Some y" "x = download_started h selected y"
  using assms by (auto simp: begin_download_def Let_def bind_eq_Some_conv dest!: load_existing_returns)

lemma handle_start_returns:
  assumes "handle_start_download E N D clock now h out max_peers cs s = Some (r, s')"
  obtains "s' = s" "\<not> is_ok r"
  | m chunks selected y where "start_source_connections E N now h selected
     (s\<lparr>mz_downloads := (mz_downloads s)(h \<mapsto> new_active_download clock m chunks out)\<rparr>) = Some y" "(r, s') = download_started h selected y"
  using assms by (auto simp: handle_start_download_def split: if_splits sum.splits option.splits elim: begin_download_returns)

lemma handle_start_ok:
  assumes "handle_start_download E N D clock now h out max_peers cs s = Some (r, s')" "ms_ok sha H s"
  shows "ms_ok sha H s'"
  using assms(1)
proof (cases rule: handle_start_returns)
  case (2 m chunks selected y)
  have "ms_ok sha H (snd y)"
    using 2(1) ms_ok_put [OF assms(2) new_download_ok]
    by (cases y) (auto simp: start_source_connections_def intro: connect_sources_ok split: if_splits)
  with 2(2) show ?thesis by (cases y) (auto simp: download_started_def split: sum.splits)
qed (use assms in simp)

lemma cancel_ok [keeps_ok]: "ms_ok sha H s \<Longrightarrow> ms_ok sha H (handle_cancel_download h s)"
  by (auto simp: handle_cancel_download_def ms_ok_def split: option.splits if_splits)

lemma foldl_ok: "(\<And>s x. ms_ok sha H s \<Longrightarrow> ms_ok sha H (f s x)) \<Longrightarrow> ms_ok sha H s \<Longrightarrow> ms_ok sha H (foldl f s xs)"
  by (induction xs arbitrary: s) simp_all

lemma give_retry_ok: "ms_ok sha H s \<Longrightarrow> ms_ok sha H (give_retry h ids s x)"
  by (cases x) (simp add: give_retry_def keeps_ok)

lemma retry_ok [keeps_ok]: "ms_ok sha H s \<Longrightarrow> ms_ok sha H (snd (handle_retry_failed_chunks N order h s))"
proof -
  assume ok: "ms_ok sha H s"
  have "ms_ok sha H (s\<lparr>mz_downloads := (mz_downloads s)(h \<mapsto> a\<lparr>ad_failed_chunks := xs\<rparr>)\<rparr>)" if "mz_downloads s h = Some a" for a xs
    using ok that by (auto intro!: ms_ok_put dest: ms_okD simp: download_ok_def find_chunk_def)
  then show ?thesis using ok
    by (auto simp: handle_retry_failed_chunks_def Let_def intro!: start_ftp_chunks_ok foldl_ok give_retry_ok split: option.splits list.splits)
qed

lemma store_chunk_ok:
  assumes "ms_ok sha H s" "current_chunk s h c" "verify_chunk_integrity sha c data = Ok ()" "h \<in> H" "mz_downloads s h = Some a"
  shows "download_ok sha (complete_chunk_in (mk_chunk_id c) data sid a)"
  using assms by (auto intro!: download_ok_complete dest: ms_okD simp: current_chunk_def)

lemma ftp_task_ok:
  assumes "ms_ok (me_sha E) H s" "current_chunk s h c" shows "ms_ok (me_sha E) H (ftp_chunk_task E now h url c outcome s)"
proof -
  have "ms_ok (me_sha E) H (ftp_chunk_stored E now h url c data s)" if "verify_chunk_integrity (me_sha E) c data = Ok ()" for data
    using store_chunk_ok [OF assms that] assms(1) by (simp add: ftp_chunk_stored_def Let_def keeps_ok)
  with assms(1) show ?thesis by (auto simp: ftp_chunk_task_def chunk_refused_def keeps_ok split: ftp_outcome.splits sum.splits)
qed

lemma wave_ok [keeps_ok]: "ms_ok sha H s \<Longrightarrow> ms_ok sha H (ftp_wave_done h url s)"
  by (auto simp: ftp_wave_done_def keeps_ok split: option.splits)

lemma extract_ok:
  assumes "\<And>c. c \<in> set cs \<Longrightarrow> find_chunk (mk_chunk_id c) a = Some c" "download_ok (me_sha E) a"
  shows "download_ok (me_sha E) (fst (foldl (extract_chunk E server block) (a, xs) cs))"
  using assms
proof (induction cs arbitrary: a xs)
  case (Cons c cs)
  obtain b ys where e: "extract_chunk E server block (a, xs) c = (b, ys)" by fastforce
  then have same: "find_chunk i b = find_chunk i a" for i
    by (auto simp: extract_chunk_def Let_def find_chunk_def split: sum.splits)
  have "download_ok (me_sha E) b" using e Cons.prems
    by (auto simp: extract_chunk_def Let_def keeps_ok intro!: download_ok_complete split: sum.splits)
  with Cons.IH [of b ys] Cons.prems(1) e same show ?case by simp
qed simp

lemma store_extracted_downloads [simp]: "mz_downloads (foldl (store_extracted E now h server) s xs) = mz_downloads s"
  by (induction xs arbitrary: s) (auto simp: store_extracted_def split: prod.splits)

lemma block_extracted_ok:
  assumes "ms_ok (me_sha E) H s" "\<And>c. c \<in> set cs \<Longrightarrow> current_chunk s h c"
  shows "ms_ok (me_sha E) H (block_extracted E now h server block cs s)"
proof (cases "mz_downloads s h")
  case (Some a)
  let ?r = "foldl (extract_chunk E server block) (a, []) cs"
  let ?s1 = "foldl (store_extracted E now h server) (s\<lparr>mz_downloads := (mz_downloads s)(h \<mapsto> fst ?r)\<rparr>) (snd ?r)"
  have "download_ok (me_sha E) (fst ?r)" if "h \<in> H"
    using that Some assms by (intro extract_ok) (auto simp: current_chunk_def dest: ms_okD)
  with assms(1) have "ms_ok (me_sha E) H ?s1" by (simp add: ms_ok_def)
  with Some show ?thesis by (auto simp: block_extracted_def Let_def keeps_ok split: prod.splits)
qed (simp add: block_extracted_def assms)

lemma block_task_ok:
  assumes "ms_ok (me_sha E) H s" "\<And>c. c \<in> set cs \<Longrightarrow> current_chunk s h c"
  shows "ms_ok (me_sha E) H (ed2k_block_task E now fetch h server hash (b, cs) s)"
proof -
  let ?t = "s\<lparr>mz_ed2k_clients := mz_ed2k_clients s - {server}\<rparr>"
  have t: "ms_ok (me_sha E) H ?t" "\<And>c. c \<in> set cs \<Longrightarrow> current_chunk ?t h c" using assms by (simp_all add: ms_ok_def current_chunk_def)
  have "ms_ok (me_sha E) H (block_failed h cs u)" if "ms_ok (me_sha E) H u" for u using that by (simp add: block_failed_def keeps_ok)
  with block_extracted_ok [OF t] t(1) assms(1) show ?thesis
    by (simp add: ed2k_block_task_def take_client_def block_arrived_def Let_def split: sum.splits bool.splits)
qed

lemma http_ok:
  assumes "http_chunk E N now False h url c s = Some s'" "ms_ok (me_sha E) H s" "current_chunk s h c"
  shows "ms_ok (me_sha E) H s'"
proof -
  have "ms_ok (me_sha E) H (snd (store_verified_chunk E now h c data url s))" if "verify_chunk_integrity (me_sha E) c data = Ok ()" for data
    using store_chunk_ok [OF assms(2,3) that] assms(2)
    by (auto simp: store_verified_chunk_def Let_def keeps_ok ms_ok_put split: option.splits)
  with assms show ?thesis
    by (force simp: http_chunk_def Let_def write_table_def keeps_ok split: http_reply.splits if_splits sum.splits prod.splits)
qed

lemma ingest_chunks_elsewhere: "g \<noteq> h \<Longrightarrow> mz_downloads (snd (ingest_chunks E now h sid file cs s)) g = mz_downloads s g"
  by (induction cs arbitrary: s) (auto simp: ingest_one_def upd_download_def split: option.splits)

lemma finalize_elsewhere: "g \<noteq> h \<Longrightarrow> mz_downloads (snd (finalize_download_static E h s)) g = mz_downloads s g"
  by (auto simp: finalize_download_static_def hm_remove_def split: option.splits prod.splits sum.splits if_splits)

lemma remove_state_downloads [simp]: "mz_downloads (snd (remove_download_state E h s)) = mz_downloads s"
  by (auto simp: remove_download_state_def split: option.splits prod.splits sum.splits if_splits)

lemma ingest_file_elsewhere: "g \<noteq> h \<Longrightarrow> mz_downloads (snd (ingest_file_chunks E now h sid file s)) g = mz_downloads s g"
proof (cases "mz_downloads s h")
  case (Some a)
  assume other: "g \<noteq> h"
  obtain r s1 where i: "ingest_chunks E now h sid file (ad_chunks a) s = (r, s1)" by fastforce
  let ?s1 = "upd_download h (upd_assignment sid (\<lambda>g. g\<lparr>sg_status := SsCompleted\<rparr>)) s1"
  obtain r2 s2 where f: "finalize_download_static E h ?s1 = (r2, s2)" by fastforce
  have "mz_downloads s1 g = mz_downloads s g" using ingest_chunks_elsewhere [OF other, of E now sid "file" "ad_chunks a" s] i by simp
  moreover have "mz_downloads ?s1 g = mz_downloads s1 g" using other by (simp add: upd_download_def split: option.splits)
  moreover have "mz_downloads s2 g = mz_downloads ?s1 g" using finalize_elsewhere [OF other, of E ?s1] f by simp
  ultimately show ?thesis using Some i f by (auto simp: ingest_file_chunks_def split: sum.splits)
qed (simp add: ingest_file_chunks_def)

lemma torrent_elsewhere_ok:
  assumes "h \<notin> H \<or> ev \<noteq> TorrentCompleted" "ms_ok sha H s"
  shows "ms_ok sha H (torrent_event_seen E now h magnet target ev s)"
proof (cases "ev = TorrentCompleted")
  case True
  with assms have "h \<notin> H" by simp
  then have "mz_downloads (snd (ingest_file_chunks E now h magnet bytes s)) g = mz_downloads s g" if "g \<in> H" for g bytes
    using that ingest_file_elsewhere by metis
  with True assms(2) show ?thesis
    by (auto simp: torrent_event_seen_def keeps_ok split: sum.splits) (simp add: ms_ok_def)
qed (use assms(2) in \<open>auto simp: torrent_event_seen_def keeps_ok split: torrent_event.splits\<close>)

lemma ms_step_ok: "ms_step E H s s' \<Longrightarrow> ms_ok (me_sha E) H s \<Longrightarrow> ms_ok (me_sha E) H s'"
proof (induction rule: ms_step.induct)
  case (step_check s h i data)
  then show ?case by (auto simp: verify_chunk_for_download_def keeps_ok split: option.splits sum.splits)
next
  case (step_monitor s watched elapsed o1 o2 h)
  then have "ms_ok (me_sha E) H (snd (finalize_download_static E h s))" by (simp add: keeps_ok)
  with step_monitor show ?case by (auto simp: monitor_tick_def Let_def split: option.splits prod.splits sum.splits)
next
  case (step_drain s n)
  then show ?case by (simp add: drain_events_def ms_ok_def)
next
  case (step_torrent h ev s now magnet target)
  then show ?case by (rule torrent_elsewhere_ok)
next
  case (step_elsewhere s' s)
  then show ?case by (simp add: ms_ok_def)
qed (auto intro: handle_start_ok ftp_task_ok block_task_ok http_ok keeps_ok)

interpretation multi_source: invariant_machine "ms_step E H" "ms_ok (me_sha E) H" for E H
  by unfold_locales (rule ms_step_ok)

section \<open>The assembled file\<close>

lemma normalized_digest: "length bs = 32 \<Longrightarrow> normalized_sha256_hex (hex_encode bs) = Some (hex_encode bs)"
proof -
  assume len: "length bs = 32"
  have "trim (hex_encode bs) = hex_encode bs"
    by (rule trim_visible) (auto dest!: hex_encode_digits)
  moreover have "list_all is_ascii_hexdigit (hex_encode bs)"
    by (auto simp: list_all_iff is_ascii_hexdigit_def dest!: hex_encode_digits)
  ultimately show ?thesis using len by (simp add: normalized_sha256_hex_def)
qed

text \<open>The bytes of chunk \<open>i\<close>, and the output file after the first \<open>k\<close> chunks.\<close>

definition file_piece :: "usize \<Rightarrow> bytes \<Rightarrow> nat \<Rightarrow> bytes" where
  "file_piece cs content i = take cs (drop (i * cs) content)"

definition assembled_upto :: "usize \<Rightarrow> bytes \<Rightarrow> nat \<Rightarrow> bytes" where
  "assembled_upto cs content k = take (k * cs) content @ replicate (length content - k * cs) (CHR 0x00)"

lemma assembled_step:
  assumes "k * cs < length content" "0 < cs"
  shows "write_at (k * cs) (file_piece cs content k) (assembled_upto cs content k) = assembled_upto cs content (Suc k)"
proof -
  let ?b = "file_piece cs content k"
  have len: "length ?b = min cs (length content - k * cs)" by (simp add: file_piece_def min.commute)
  then have "?b \<noteq> []" using assms by auto
  then have "write_at (k * cs) ?b (assembled_upto cs content k)
      = take (k * cs) content @ ?b @ drop (length ?b) (replicate (length content - k * cs) (CHR 0x00))"
    using assms by (simp add: write_at_def assembled_upto_def min_def)
  moreover have "take (k * cs) content @ ?b = take (Suc k * cs) content"
    using take_add [of "k * cs" cs content] by (simp add: file_piece_def add.commute)
  moreover have "length content - k * cs - length ?b = length content - Suc k * cs" using len by simp
  ultimately show ?thesis by (simp add: assembled_upto_def)
qed

lemma assemble_pieces:
  assumes io: "me_io E = no_faults" and cs: "0 < cs" and n: "n = (length content + cs - 1) div cs"
    and all: "\<And>i. i < n \<Longrightarrow> \<exists>cc. done i = Some cc \<and> cc_data cc = file_piece cs content i"
  shows "k \<le> n \<Longrightarrow> d p = Some (assembled_upto cs content k) \<Longrightarrow>
    assemble_chunks E p done (map (chunk_entry cs (length content) hs r) [k..<n]) d = (Ok (), d(p \<mapsto> content))"
proof (induction "n - k" arbitrary: k d)
  case 0
  then have k: "k = n" by simp
  then have "\<not> k * cs < length content" using offset_in_file [OF cs, of k "length content"] n by simp
  with 0 k show ?case by (auto simp: assembled_upto_def fun_upd_idem)
next
  case (Suc m)
  then have k: "k < n" by linarith
  then have inside: "k * cs < length content" using offset_in_file [OF cs] n by blast
  from all [OF k] obtain cc where cc: "done k = Some cc" "cc_data cc = file_piece cs content k" by blast
  let ?d = "d(p \<mapsto> assembled_upto cs content (Suc k))"
  have "assemble_chunks E p done (map (chunk_entry cs (length content) hs r) [Suc k..<n]) ?d = (Ok (), ?d(p \<mapsto> content))"
    using Suc.hyps(1) [of "Suc k" ?d] Suc.hyps(2) k by simp
  with k cc io assembled_step [OF inside cs] Suc.prems(2) show ?case
    by (simp add: upt_conv_Cons chunk_entry_def write_all_at_def)
qed

lemma dom_of_complete:
  assumes "download_ok sha a" "all_complete a" "distinct (map mk_chunk_id (ad_chunks a))"
  shows "dom (ad_completed_chunks a) = set (map mk_chunk_id (ad_chunks a))"
proof (rule card_subset_eq)
  show "dom (ad_completed_chunks a) \<subseteq> set (map mk_chunk_id (ad_chunks a))"
  proof
    fix i assume "i \<in> dom (ad_completed_chunks a)"
    with assms(1) obtain c where "find_chunk i a = Some c" by (auto simp: download_ok_def)
    then show "i \<in> set (map mk_chunk_id (ad_chunks a))" by (auto simp: find_chunk_def find_Some_iff)
  qed
  show "card (dom (ad_completed_chunks a)) = card (set (map mk_chunk_id (ad_chunks a)))"
    using assms(2,3) by (simp add: all_complete_def distinct_card del: set_map)
qed simp

lemma find_chunk_entry:
  assumes "ad_chunks a = map (chunk_entry cs fs hs r) [0..<n]"
  shows "find_chunk i a = (if i < n then Some (chunk_entry cs fs hs r i) else None)"
proof -
  have "find (\<lambda>c. mk_chunk_id c = i) (map (chunk_entry cs fs hs r) [k..<n]) = (if k \<le> i \<and> i < n then Some (chunk_entry cs fs hs r i) else None)" for k
  proof (induction "n - k" arbitrary: k)
    case (Suc m)
    then have "[k..<n] = k # [Suc k..<n]" by (simp add: upt_conv_Cons)
    with Suc.hyps(1) [of "Suc k"] Suc.hyps(2) show ?case by (auto simp: chunk_entry_def)
  qed auto
  from this [of 0] assms show ?thesis by (simp add: find_chunk_def)
qed

text \<open>A download of a file whose table has the digests of its pieces, which no other data has.\<close>

definition fetches :: "ms_env \<Rightarrow> usize \<Rightarrow> bytes \<Rightarrow> active_download \<Rightarrow> bool" where
  "fetches E cs content a \<longleftrightarrow> 0 < cs \<and> length content + cs \<le> 2 ^ 32 * cs \<and> md_file_size (ad_file_metadata a) = length content
     \<and> calculate_chunks (me_parse_manifest E) (ad_file_metadata a) cs = Some (ad_chunks a)
     \<and> (\<forall>c \<in> set (ad_chunks a). mk_hash c = hex_encode (me_sha E (file_piece cs content (mk_chunk_id c)))
          \<and> length (me_sha E (file_piece cs content (mk_chunk_id c))) = 32
          \<and> (\<forall>x. me_sha E x = me_sha E (file_piece cs content (mk_chunk_id c)) \<longrightarrow> x = file_piece cs content (mk_chunk_id c)))"

lemma fetches_table:
  assumes "fetches E cs content a"
  shows "ad_chunks a = map (chunk_entry cs (length content) (manifest_chunk_hashes (me_parse_manifest E) (ad_file_metadata a))
    (md_merkle_root (ad_file_metadata a))) [0..<(length content + cs - 1) div cs]"
proof -
  have "0 < cs" "length content + cs \<le> 2 ^ 32 * cs" using assms by (simp_all add: fetches_def)
  then have "(length content + cs - 1) div cs < 2 ^ 32" by (simp add: div_less_iff_less_mult)
  then have "chunk_table_loop cs (length content) hs r 0 0 = Some (map (chunk_entry cs (length content) hs r) [0..<(length content + cs - 1) div cs])" for hs r
    using \<open>0 < cs\<close> chunk_table_closed [of cs "length content" 0] by simp
  with assms show ?thesis by (auto simp: calculate_chunks_def fetches_def)
qed

lemma complete_assembles:
  assumes f: "fetches E cs content a" and ok: "download_ok (me_sha E) a" and dl: "all_complete a" and io: "me_io E = no_faults"
  shows "assemble_chunks E p (ad_completed_chunks a) (ad_chunks a) (d(p \<mapsto> replicate (length content) (CHR 0x00))) = (Ok (), d(p \<mapsto> content))"
proof -
  let ?n = "(length content + cs - 1) div cs"
  let ?e = "chunk_entry cs (length content) (manifest_chunk_hashes (me_parse_manifest E) (ad_file_metadata a)) (md_merkle_root (ad_file_metadata a))"
  have cs: "0 < cs" using f by (simp add: fetches_def)
  note chunks = fetches_table [OF f]
  have ids: "map mk_chunk_id (ad_chunks a) = [0..<?n]" by (simp add: chunks chunk_entry_def comp_def)
  then have dom: "dom (ad_completed_chunks a) = {0..<?n}" using dom_of_complete [OF ok dl] by (simp del: set_map)
  have piece: "\<exists>cc. ad_completed_chunks a i = Some cc \<and> cc_data cc = file_piece cs content i" if i: "i < ?n" for i
  proof -
    from i dom obtain cc where cc: "ad_completed_chunks a i = Some cc" by fastforce
    have "?e i \<in> set (ad_chunks a)" "mk_chunk_id (?e i) = i" using i chunks by (auto simp: chunk_entry_def)
    then have hash: "mk_hash (?e i) = hex_encode (me_sha E (file_piece cs content i))" "length (me_sha E (file_piece cs content i)) = 32"
      "\<And>x. me_sha E x = me_sha E (file_piece cs content i) \<Longrightarrow> x = file_piece cs content i" using f by (fastforce simp: fetches_def)+
    have "verify_chunk_integrity (me_sha E) (?e i) (cc_data cc) = Ok ()"
      using ok cc i find_chunk_entry [OF chunks, of i] by (fastforce simp: download_ok_def)
    then have "hex_encode (me_sha E (cc_data cc)) = hex_encode (me_sha E (file_piece cs content i))"
      by (simp add: verify_chunk_integrity_def hash(1) normalized_digest [OF hash(2)] Let_def split: if_splits)
    with cc hash(3) show ?thesis by (blast dest: hex_encode_inj)
  qed
  show ?thesis
    using assemble_pieces [OF io cs refl piece, of 0 "d(p \<mapsto> replicate (length content) (CHR 0x00))" p] chunks
    by (simp add: assembled_upto_def)
qed

lemma finalize_complete:
  assumes "fetches E cs content a" "download_ok (me_sha E) a" "all_complete a" "me_io E = no_faults" "mz_downloads s h = Some a"
  shows "finalize_download_static E h s
    = (Ok (), set_disk ((mz_disk s)(path_of_string (ad_output_path a) \<mapsto> content)) (s\<lparr>mz_downloads := hm_remove (mz_downloads s) h\<rparr>))"
  using complete_assembles [OF assms(1-4)] assms
  by (auto simp: finalize_download_static_def write_assembled_def Let_def fs_mkdir_def fetches_def split: option.splits)

lemma fetches_fields:
  "fetches E cs content (upd_assignment sid g a) = fetches E cs content a"
  "fetches E cs content (complete_chunk_in i data sid a) = fetches E cs content a"
  by (simp_all add: fetches_def) (simp add: complete_chunk_in_def)

lemma last_chunk_completes:
  assumes "fetches E cs content a" "c \<in> set (ad_chunks a)" "download_ok (me_sha E) a"
    and "\<And>b. b \<in> set (ad_chunks a) \<Longrightarrow> b \<noteq> c \<Longrightarrow> ad_completed_chunks a (mk_chunk_id b) \<noteq> None"
  shows "all_complete (complete_chunk_in (mk_chunk_id c) data sid a)"
proof -
  note chunks = fetches_table [OF assms(1)]
  have d: "distinct (map mk_chunk_id (ad_chunks a))" by (simp add: chunks chunk_entry_def comp_def)
  have "dom (ad_completed_chunks a) \<subseteq> set (map mk_chunk_id (ad_chunks a))"
  proof
    fix i assume "i \<in> dom (ad_completed_chunks a)"
    with assms(3) obtain c where "find_chunk i a = Some c" by (auto simp: download_ok_def)
    then show "i \<in> set (map mk_chunk_id (ad_chunks a))" by (auto simp: find_chunk_def find_Some_iff)
  qed
  with assms(2,4) have "dom (ad_completed_chunks (complete_chunk_in (mk_chunk_id c) data sid a)) = set (map mk_chunk_id (ad_chunks a))"
    by (auto simp: complete_chunk_in_def)
  with d show ?thesis by (simp add: all_complete_def distinct_card del: set_map)
qed

text \<open>
  C2: Whatever the service has done before (\<open>ms_step\<close>, beginning where the download is not in the table), if the download was started by the
  command and got its chunks from FTP, eDonkey or HTTP, in whichever order, tasks of its own earlier tables, a torrent of
  its own and restoring it from disk excepted: when the chunk that is still missing arrives over
  FTP, the output file is exactly the file, byte for byte, and the download leaves the table. This assumes a manifest
  with the digests of the pieces of the file, which no other data has, and a disk that works.
\<close>

theorem download_assembled_exactly:
  assumes "(ms_step E {h})\<^sup>*\<^sup>* s0 s" "mz_downloads s0 h = None" "mz_downloads s h = Some a" "fetches E cs content a" "me_io E = no_faults"
    and "c \<in> set (ad_chunks a)" "\<And>b. b \<in> set (ad_chunks a) \<Longrightarrow> b \<noteq> c \<Longrightarrow> ad_completed_chunks a (mk_chunk_id b) \<noteq> None"
    and t_def: "t = ftp_chunk_task E now h url c (FtpData (file_piece cs content (mk_chunk_id c))) s"
  shows "mz_disk t (path_of_string (ad_output_path a)) = Some content \<and> mz_downloads t h = None"
proof -
  let ?data = "file_piece cs content (mk_chunk_id c)"
  let ?b = "upd_assignment url (\<lambda>g. g\<lparr>sg_last_activity := Some (now div 1000)\<rparr>) (complete_chunk_in (mk_chunk_id c) ?data url a)"
  note chunks = fetches_table [OF assms(4)]
  have okE: "ms_ok (me_sha E) {h} s" using multi_source.run_inv [OF assms(1)] assms(2) by (simp add: ms_ok_def)
  then have ok: "download_ok (me_sha E) a" using assms(3) by (auto dest: ms_okD)
  obtain i where i: "i < (length content + cs - 1) div cs" "c = chunk_entry cs (length content)
      (manifest_chunk_hashes (me_parse_manifest E) (ad_file_metadata a)) (md_merkle_root (ad_file_metadata a)) i"
    using assms(6) chunks by auto
  have sz: "length ?data = mk_size c" by (simp add: i(2) chunk_entry_def file_piece_def min.commute)
  have found: "find_chunk (mk_chunk_id c) a = Some c" using i find_chunk_entry [OF chunks, of i] by (simp add: chunk_entry_def)
  have h: "mk_hash c = hex_encode (me_sha E ?data)" "length (me_sha E ?data) = 32" using assms(4,6) by (auto simp: fetches_def)
  have v: "verify_chunk_integrity (me_sha E) c ?data = Ok ()"
    by (simp add: verify_chunk_integrity_def h(1) normalized_digest [OF h(2)] Let_def)
  have b: "fetches E cs content ?b" "download_ok (me_sha E) ?b"
    using assms(4) ok found v by (simp_all add: fetches_fields keeps_ok download_ok_complete)
  have full: "all_complete ?b"
    using last_chunk_completes [OF assms(4,6) ok assms(7), of ?data url] by (simp add: all_complete_def)
  let ?s1 = "ms_emit (MvChunkCompleted h (mk_chunk_id c) url) (persist_chunk E now None h (mk_chunk_id c) ?data (s\<lparr>mz_downloads := (mz_downloads s)(h \<mapsto> ?b)\<rparr>))"
  have "t = snd (finalize_download_static E h ?s1)"
    using full assms(3) by (simp add: t_def ftp_chunk_task_def sz v ftp_chunk_stored_def Let_def upd_download_def)
  moreover have "mz_downloads ?s1 h = Some ?b" by simp
  ultimately show ?thesis using finalize_complete [OF b full assms(5)]
    by (simp add: complete_chunk_in_def)
qed

text \<open>A file of four bytes on an FTP server, for the examples.\<close>

definition demo_digest :: bytes where "demo_digest = replicate 32 (CHR ''A'')"

definition demo_env :: ms_env where
  "demo_env = \<lparr>me_io = no_faults, me_show_io = (\<lambda>_. ''io''),
     me_sha = (\<lambda>x. if x = ''abcd'' then demo_digest else replicate 32 (CHR ''B'')), me_md4 = (\<lambda>_. []),
     me_parse_manifest = (\<lambda>_. Some \<lparr>fm_merkle_root = ''m'', fm_chunks = [toy_info 0 demo_digest], fm_encrypted_key_bundle = None\<rparr>),
     me_meta_json = (\<lambda>_. ''{}''), me_parse_meta = (\<lambda>_. Some \<lparr>cj_file_hash = Some ''f'', cj_chunk_id = Some 0, cj_size = Some 4\<rparr>),
     me_saved_json = (\<lambda>_. Ok ''s''), me_parse_saved = (\<lambda>_. None),
     me_listing = (\<lambda>p d. if d (meta_file_path ''f'' 0) = None then None else Some (Ok [''chunk_0.dat'', ''chunk_0.meta''])),
     me_manager = new_chunk_manager [''store'']\<rparr>"

definition demo_ftp :: ftp_source_info where
  "demo_ftp = \<lparr>ftp_url = ''ftp://x/f'', ftp_username = None, ftp_encrypted_password = None, ftp_passive_mode = True, ftp_use_ftps = False,
     ftp_timeout_secs = Some 30\<rparr>"

definition demo_meta :: file_metadata where
  "demo_meta = default_file_metadata\<lparr>md_merkle_root := ''m'', md_file_size := 4, md_manifest := Some ''j'',
     md_ftp_sources := Some [\<lparr>fs_url = ''ftp://x/f'', fs_username = None, fs_password = None, fs_supports_resume = True, fs_file_size = 4,
       fs_last_checked = None, fs_is_available = True\<rparr>]\<rparr>"

definition demo_net :: ms_net where
  "demo_net = \<lparr>nt_p2p = (\<lambda>_. OfferTimeout), nt_ftp = (\<lambda>_. Ok ()), nt_url_path = (\<lambda>_. Ok ''/f''), nt_http_client = Ok (),
     nt_http = (\<lambda>_ _ _. HttpRequestFailed []), nt_ed2k = (\<lambda>_. Err []), nt_torrent = (\<lambda>_ _. Err [])\<rparr>"

definition demo_dht :: ms_dht where
  "demo_dht = \<lparr>mt_search = (\<lambda>_. Ok (Some demo_meta)), mt_peers = (\<lambda>_. Ok [])\<rparr>"

definition empty_service :: ms_service where
  "empty_service = \<lparr>mz_downloads = Map.empty, mz_store = \<lparr>ms_disk = Map.empty, ms_cache = lru_new 1\<rparr>, mz_ed2k_clients = {}, mz_commands = [],
     mz_events = [], mz_tasks = []\<rparr>"

definition demo_chunk :: ms_chunk where
  "demo_chunk = \<lparr>mk_chunk_id = 0, mk_offset = 0, mk_size = 4, mk_hash = hex_encode demo_digest\<rparr>"

definition demo_download :: active_download where
  "demo_download = upd_assignment ''ftp://x/f'' (\<lambda>g. g\<lparr>sg_status := SsDownloading\<rparr>)
     (upd_assignment ''ftp://x/f'' (\<lambda>g. g\<lparr>sg_status := SsConnected, sg_connected_at := Some 0, sg_last_activity := Some 0\<rparr>)
       (put_assignment ''ftp://x/f'' (Ftp demo_ftp) [0] (new_active_download 0 demo_meta [demo_chunk] ''out'')))"

lemma demo_sources: "available_sources [] demo_meta = [Ftp demo_ftp]"
  by (simp add: available_sources_def demo_meta_def default_file_metadata_def optional_list_def ftp_source_def demo_ftp_def)

lemma demo_size: "md_file_size demo_meta = 4"
  by (simp add: demo_meta_def default_file_metadata_def)

lemma demo_table: "calculate_chunks (me_parse_manifest demo_env) demo_meta 4 = Some [demo_chunk]"
proof -
  have h: "manifest_chunk_hashes (me_parse_manifest demo_env) demo_meta = [hex_encode demo_digest]"
    by (simp add: manifest_chunk_hashes_def demo_meta_def default_file_metadata_def demo_env_def extract_chunk_hashes_from_manifest_def
        place_hash_def toy_info_def)
  have ne: "hex_encode demo_digest \<noteq> []" by (metis demo_digest_def length_0_conv length_hex_encode length_replicate mult_eq_0_iff zero_neq_numeral)
  have n: "(4 + 4 - 1) div 4 = (1::nat)" by simp
  have "chunk_table_loop 4 4 [hex_encode demo_digest] ''m'' 0 0 = Some [chunk_entry 4 4 [hex_encode demo_digest] ''m'' 0]"
    using chunk_table_closed [of 4 4 0 "[hex_encode demo_digest]" "''m''"] unfolding n by simp
  moreover have "chunk_entry 4 4 [hex_encode demo_digest] ''m'' 0 = demo_chunk"
    using ne by (simp add: chunk_entry_def chunk_hash_for_def demo_chunk_def)
  ultimately show ?thesis using h by (simp add: calculate_chunks_def demo_size) (simp add: demo_meta_def)
qed

lemma new_download_fields:
  "ad_chunks (new_active_download clock m chunks out) = chunks" "ad_completed_chunks (new_active_download clock m chunks out) = Map.empty"
  "ad_file_metadata (new_active_download clock m chunks out) = m" "ad_output_path (new_active_download clock m chunks out) = out"
  by (simp_all add: new_active_download_def)

lemma demo_ftp_url: "ftp_url demo_ftp = ''ftp://x/f''"
  by (simp add: demo_ftp_def)

definition demo_fresh :: ms_service where
  "demo_fresh = empty_service\<lparr>mz_downloads := [''f'' \<mapsto> new_active_download 0 demo_meta [demo_chunk] ''out'']\<rparr>"

lemma demo_dealt: "assign_chunks_to_sources [demo_chunk] [Ftp demo_ftp] Map.empty = [(Ftp demo_ftp, [0])]"
  by (subst assign_chunks_round_robin) (simp_all add: round_robin_def every_nth_def missing_chunks_def demo_chunk_def)

lemma demo_begin:
  "handle_start_download demo_env N demo_dht 0 0 ''f'' ''out'' None (Some 4) empty_service
    = map_option (download_started ''f'' [Ftp demo_ftp]) (connect_sources demo_env N 0 ''f'' [(Ftp demo_ftp, [0])] demo_fresh)"
proof -
  have load: "load_existing_chunks_into_download demo_env ''f'' demo_fresh = Some (Ok 0, demo_fresh)"
    by (simp add: load_existing_chunks_into_download_def scan_existing_chunks_def demo_env_def demo_fresh_def empty_service_def)
  have chosen: "select_optimal_sources [Ftp demo_ftp] (sources_wanted 1 1 None) = [Ftp demo_ftp]"
    by (simp add: select_optimal_sources_def sources_wanted_def MIN_CHUNKS_FOR_PARALLEL_def sort_desc_def)
  have "start_source_connections demo_env N 0 ''f'' [Ftp demo_ftp] demo_fresh = connect_sources demo_env N 0 ''f'' [(Ftp demo_ftp, [0])] demo_fresh"
    using demo_dealt by (simp add: start_source_connections_def demo_fresh_def new_download_fields)
  moreover have "begin_download demo_env N 0 0 ''f'' ''out'' None 4 demo_meta [Ftp demo_ftp] empty_service
    = map_option (download_started ''f'' [Ftp demo_ftp]) (start_source_connections demo_env N 0 ''f'' [Ftp demo_ftp] demo_fresh)"
    using load chosen demo_table
    by (simp add: begin_download_def total_chunks_of_def demo_size wadd64_def wsub64_def resume_loaded_def loaded_count_def demo_fresh_def)
      (simp add: empty_service_def Let_def)
  ultimately show ?thesis
    by (simp add: handle_start_download_def demo_dht_def demo_sources del: connect_sources.simps) (simp add: empty_service_def)
qed

lemma demo_start:
  "handle_start_download demo_env demo_net demo_dht 0 0 ''f'' ''out'' None (Some 4) empty_service
    = Some (Ok (), spawn_task (TaskMonitor ''f'') (ms_emit (MvDownloadStarted ''f'' 1) (spawn_task (TaskFtp ''f'' ''ftp://x/f'' [demo_chunk])
        (empty_service\<lparr>mz_downloads := [''f'' \<mapsto> demo_download], mz_events := [MvPeerConnected ''f'' ''ftp://x/f'']\<rparr>))))"
  unfolding demo_begin
  by (simp add: demo_fresh_def new_download_fields connect_source_def start_ftp_connection_def demo_net_def demo_ftp_url
      upd_download_def on_source_connected_def start_ftp_chunk_downloads_def chunk_infos_def find_chunk_def parse_ftp_remote_path_def demo_chunk_def
      map_filter_simps Let_def demo_download_def download_started_def)
    (simp add: spawn_task_def ms_emit_def empty_service_def)

lemma demo_download_fields:
  "ad_chunks demo_download = [demo_chunk]" "ad_completed_chunks demo_download = Map.empty" "ad_file_metadata demo_download = demo_meta"
  "ad_output_path demo_download = ''out''"
  by (simp_all add: demo_download_def new_download_fields put_assignment_def)

lemma demo_fetches: "fetches demo_env 4 ''abcd'' demo_download"
proof -
  have "replicate 32 (CHR ''B'') \<noteq> demo_digest" by (simp add: demo_digest_def numeral_eq_Suc)
  then have sha: "me_sha demo_env ''abcd'' = demo_digest" "\<And>x. me_sha demo_env x = demo_digest \<Longrightarrow> x = ''abcd''"
    by (auto simp: demo_env_def split: if_splits)
  have p: "file_piece 4 ''abcd'' (mk_chunk_id demo_chunk) = ''abcd''" by (simp add: file_piece_def demo_chunk_def)
  have "mk_hash demo_chunk = hex_encode (me_sha demo_env (file_piece 4 ''abcd'' (mk_chunk_id demo_chunk)))"
    "length (me_sha demo_env (file_piece 4 ''abcd'' (mk_chunk_id demo_chunk))) = 32" unfolding p sha(1) by (simp_all add: demo_chunk_def demo_digest_def)
  moreover have "\<forall>x. me_sha demo_env x = me_sha demo_env (file_piece 4 ''abcd'' (mk_chunk_id demo_chunk)) \<longrightarrow> x = file_piece 4 ''abcd'' (mk_chunk_id demo_chunk)"
    unfolding p sha(1) using sha(2) by blast
  moreover have "0 < (4::nat)" "length ''abcd'' + 4 \<le> 2 ^ 32 * 4" "md_file_size demo_meta = length ''abcd''" by (simp_all add: demo_size)
  ultimately show ?thesis unfolding fetches_def demo_download_fields using demo_table by (metis empty_iff empty_set set_ConsD)
qed

theorem download_assembled_exactly_witness:
  "\<exists>s. (ms_step demo_env {''f''})\<^sup>*\<^sup>* empty_service s \<and> mz_downloads s ''f'' = Some demo_download \<and>
     mz_disk (ftp_chunk_task demo_env 0 ''f'' ''ftp://x/f'' demo_chunk (FtpData ''abcd'') s) [''out''] = Some ''abcd''"
proof -
  obtain s where run: "handle_start_download demo_env demo_net demo_dht 0 0 ''f'' ''out'' None (Some 4) empty_service = Some (Ok (), s)"
    and s: "mz_downloads s ''f'' = Some demo_download" using demo_start by simp
  have reach: "(ms_step demo_env {''f''})\<^sup>*\<^sup>* empty_service s" using step_start [OF run] by blast
  have p: "file_piece 4 ''abcd'' (mk_chunk_id demo_chunk) = ''abcd''" "path_of_string (ad_output_path demo_download) = [''out'']"
    by (simp add: file_piece_def demo_chunk_def, simp add: demo_download_fields path_of_string_def starts_with_def)
  have "mz_downloads empty_service ''f'' = None" "me_io demo_env = no_faults" by (simp_all add: empty_service_def demo_env_def)
  from download_assembled_exactly [OF reach this(1) s demo_fetches this(2), of demo_chunk, OF _ _ refl] p reach s show ?thesis
    by (auto simp: demo_download_fields)
qed

section \<open>Restarting a download\<close>

lemma load_each_blocks:
  assumes "i \<in> set is" "ad_completed_chunks a i = None" "read_chunk_files E h i (mz_disk s) = Ok data"
  shows "load_each E h s is a n = None"
  using assms
proof (induction "is")
  case (Cons j js)
  show ?case
  proof (cases "ad_completed_chunks a j \<noteq> None \<or> (\<exists>e. read_chunk_files E h j (mz_disk s) = Err e)")
    case True
    then have "load_each E h s (j # js) a n = load_each E h s js a n" "j \<noteq> i" using Cons.prems by (auto simp: load_chunk_from_disk_def)
    with Cons show ?thesis by simp
  next
    case False
    then obtain x where "ad_completed_chunks a j = None" "read_chunk_files E h j (mz_disk s) = Ok x" by (cases "read_chunk_files E h j (mz_disk s)") auto
    then show ?thesis by (simp add: load_chunk_from_disk_def)
  qed
qed simp

lemma start_blocks:
  assumes "mz_downloads s h = None" "mt_search D h = Ok (Some m)" "mt_peers D m = Ok peers" "available_sources peers m \<noteq> []"
    and "scan_existing_chunks E h (mz_disk s) = Ok ids" "i \<in> set ids" "read_chunk_files E h i (mz_disk s) = Ok data"
  shows "handle_start_download E N D clock now h out max_peers cs s = None"
proof -
  have "load_existing_chunks_into_download E h (s\<lparr>mz_downloads := (mz_downloads s)(h \<mapsto> new_active_download clock m chunks out)\<rparr>) = None" for chunks
  proof -
    let ?t = "s\<lparr>mz_downloads := (mz_downloads s)(h \<mapsto> new_active_download clock m chunks out)\<rparr>"
    have "load_each E h ?t ids (new_active_download clock m chunks out) 0 = None"
      using assms(6,7) by (intro load_each_blocks [of i]) (simp_all add: new_download_fields)
    with assms(5,6) show ?thesis by (auto simp: load_existing_chunks_into_download_def)
  qed
  with assms(1-4) show ?thesis
    by (simp add: handle_start_download_def begin_download_def Let_def bind_eq_None_conv split: option.splits)
qed

lemma chunk_names: "dat_path h i = chunks_dir_of h @ [''chunk_'' @ show_nat i @ ''.dat'']" "meta_file_path h i = chunks_dir_of h @ [''chunk_'' @ show_nat i @ ''.meta'']"
proof -
  have "CHR ''/'' \<notin> set (show_nat i)" using show_nat_chars [of i] by fastforce
  then show "dat_path h i = chunks_dir_of h @ [''chunk_'' @ show_nat i @ ''.dat'']" "meta_file_path h i = chunks_dir_of h @ [''chunk_'' @ show_nat i @ ''.meta'']"
    unfolding dat_path_def meta_file_path_def by (subst path_join_simple, auto)+
qed

lemma dat_not_meta: "dat_path h i \<noteq> meta_file_path h j"
proof
  assume "dat_path h i = meta_file_path h j"
  then have "rev (''chunk_'' @ show_nat i @ ''.dat'') = rev (''chunk_'' @ show_nat j @ ''.meta'')" by (simp only: chunk_names append1_eq_conv)
  then show False by simp
qed

lemma meta_name_id: "i < 2 ^ 32 \<Longrightarrow> chunk_id_of_meta (''chunk_'' @ show_nat i @ ''.meta'') = Some i"
  by (simp add: chunk_id_of_meta_def ends_with_def starts_with_def strip_prefix_def strip_suffix_def parse_u32_def parse_show_u64 u64_max_def)

text \<open>
  What JSON and the directory listing guarantee for a chunk of \<open>n\<close> bytes: its metadata is read back as written, and its metadata
  file is listed when it exists.
\<close>

definition chunk_files_ok :: "ms_env \<Rightarrow> string \<Rightarrow> u32 \<Rightarrow> usize \<Rightarrow> bool" where
  "chunk_files_ok E h i n \<longleftrightarrow>
     (\<forall>j. cf_file_hash j = h \<and> cf_chunk_id j = i \<and> cf_size j = n \<longrightarrow> utf8_valid (me_meta_json E j) \<and>
        me_parse_meta E (me_meta_json E j) = Some \<lparr>cj_file_hash = Some h, cj_chunk_id = Some i, cj_size = Some n\<rparr>)
     \<and> (\<forall>d. d (meta_file_path h i) \<noteq> None \<longrightarrow> (\<exists>names. me_listing E (chunks_dir_of h) d = Some (Ok names)
        \<and> (''chunk_'' @ show_nat i @ ''.meta'') \<in> set names))"

lemma save_chunk_keeps:
  assumes "me_io E = no_faults" "ms_disk s p = Some b"
  shows "ms_disk (snd (save_chunk (me_io E) M hash data s)) p = Some b"
  using assms by (auto simp: save_chunk_def fs_mkdir_def fs_exists_def fs_write_def)

lemma persisted_on_disk:
  assumes "me_io E = no_faults"
  shows "mz_disk (persist_chunk E now kind h i data s) (dat_path h i) = Some data"
    "\<exists>j. mz_disk (persist_chunk E now kind h i data s) (meta_file_path h i) = Some (me_meta_json E j) \<and>
       cf_file_hash j = h \<and> cf_chunk_id j = i \<and> cf_size j = length data"
proof -
  let ?j = "\<lparr>cf_chunk_id = i, cf_size = length data, cf_stored_at = now div 1000, cf_file_hash = h, cf_source_type = kind\<rparr>"
  let ?s = "set_disk ((mz_disk s)(dat_path h i \<mapsto> data, meta_file_path h i \<mapsto> me_meta_json E ?j)) s"
  have eq: "persist_chunk E now kind h i data s = ?s\<lparr>mz_store := snd (save_chunk (me_io E) (me_manager E) (hex_encode (me_sha E data)) data (mz_store ?s))\<rparr>"
    using assms by (simp add: persist_chunk_def fs_write_def Let_def)
  have "mz_disk ?s (dat_path h i) = Some data" "mz_disk ?s (meta_file_path h i) = Some (me_meta_json E ?j)" by (simp_all add: dat_not_meta)
  from this [THEN save_chunk_keeps [OF assms]] show "mz_disk (persist_chunk E now kind h i data s) (dat_path h i) = Some data"
    "\<exists>j. mz_disk (persist_chunk E now kind h i data s) (meta_file_path h i) = Some (me_meta_json E j) \<and> cf_file_hash j = h \<and> cf_chunk_id j = i \<and> cf_size j = length data"
    unfolding eq by (simp, intro exI [of _ ?j], simp)
qed

lemma persisted_found:
  assumes "me_io E = no_faults" "chunk_files_ok E h i (length data)" "i < 2 ^ 32"
    and "d (dat_path h i) = Some data" "d (meta_file_path h i) = Some (me_meta_json E j)" "cf_file_hash j = h" "cf_chunk_id j = i" "cf_size j = length data"
  shows "read_chunk_files E h i d = Ok data \<and> (\<exists>ids. scan_existing_chunks E h d = Ok ids \<and> i \<in> set ids)"
proof -
  have j: "utf8_valid (me_meta_json E j)"
    "me_parse_meta E (me_meta_json E j) = Some \<lparr>cj_file_hash = Some h, cj_chunk_id = Some i, cj_size = Some (length data)\<rparr>"
    using assms(2,6-8) by (auto simp: chunk_files_ok_def)
  from assms(2,5) obtain names where names: "me_listing E (chunks_dir_of h) d = Some (Ok names)" "(''chunk_'' @ show_nat i @ ''.meta'') \<in> set names"
    unfolding chunk_files_ok_def by blast
  then have "i \<in> set (List.map_filter chunk_id_of_meta names)"
    using meta_name_id [OF assms(3)] by (force simp: map_filter_def image_iff)
  with names(1) assms(1,4) have "\<exists>ids. scan_existing_chunks E h d = Ok ids \<and> i \<in> set ids"
    by (simp add: scan_existing_chunks_def fs_exists_def)
  moreover have "read_chunk_files E h i d = Ok data"
    using assms(1,3,4,5) j by (simp add: read_chunk_files_def chunk_exists_on_disk_def fs_exists_def fs_read_to_string_def fs_read_def)
  ultimately show ?thesis by blast
qed

text \<open>
  A download of which a single chunk was received cannot be started a second time: once the chunk is on disk and the download
  was cancelled, starting it again never returns. It loads the stored chunk while it holds the lock that loading a
  chunk takes, and with it the task that runs all commands of the service stops.
\<close>

theorem stored_chunk_blocks_restart:
  assumes "mz_downloads s h = Some a" "length data = mk_size c" "verify_chunk_integrity (me_sha E) c data = Ok ()"
    "\<not> all_complete (complete_chunk_in (mk_chunk_id c) data url a)"
    and io: "me_io E = no_faults" "chunk_files_ok E h (mk_chunk_id c) (length data)" "mk_chunk_id c < 2 ^ 32"
    and "mt_search D h = Ok (Some m)" "mt_peers D m = Ok peers" "available_sources peers m \<noteq> []"
  shows "handle_start_download E N D clock now h out max_peers cs
     (handle_cancel_download h (ftp_chunk_task E then_ms h url c (FtpData data) s)) = None"
proof -
  let ?t = "handle_cancel_download h (ftp_chunk_task E then_ms h url c (FtpData data) s)"
  let ?s = "s\<lparr>mz_downloads := (mz_downloads s)(h \<mapsto> upd_assignment url (\<lambda>g. g\<lparr>sg_last_activity := Some (then_ms div 1000)\<rparr>)
     (complete_chunk_in (mk_chunk_id c) data url a))\<rparr>"
  have "\<not> all_complete (upd_assignment url f (complete_chunk_in (mk_chunk_id c) data url a))" for f using assms(4) by (simp add: all_complete_def)
  then have "ftp_chunk_task E then_ms h url c (FtpData data) s
      = ms_emit (MvChunkCompleted h (mk_chunk_id c) url) (persist_chunk E then_ms None h (mk_chunk_id c) data ?s)"
    using assms(1-3) by (simp add: ftp_chunk_task_def ftp_chunk_stored_def Let_def upd_download_def)
  then have gone: "mz_downloads ?t h = None" and disk: "mz_disk ?t = mz_disk (persist_chunk E then_ms None h (mk_chunk_id c) data ?s)"
    by (simp_all add: handle_cancel_download_def)
  obtain j where "mz_disk ?t (meta_file_path h (mk_chunk_id c)) = Some (me_meta_json E j)" "cf_file_hash j = h" "cf_chunk_id j = mk_chunk_id c" "cf_size j = length data"
    using persisted_on_disk(2) [OF io(1)] unfolding disk by blast
  with persisted_found [OF io, of "mz_disk ?t" j] persisted_on_disk(1) [OF io(1)] obtain ids where
    "read_chunk_files E h (mk_chunk_id c) (mz_disk ?t) = Ok data" "scan_existing_chunks E h (mz_disk ?t) = Ok ids" "mk_chunk_id c \<in> set ids"
    unfolding disk by blast
  with start_blocks [OF gone assms(8-10)] show ?thesis by blast
qed

definition demo_two :: active_download where
  "demo_two = demo_download\<lparr>ad_chunks := [demo_chunk, demo_chunk\<lparr>mk_chunk_id := 1, mk_offset := 4\<rparr>]\<rparr>"

lemma demo_files: "chunk_files_ok demo_env ''f'' 0 4"
proof -
  have n: "show_nat 0 = ''0''" by (subst show_nat.simps) (simp add: digit_char_def)
  have "utf8_valid ''{}''" by code_simp
  with n show ?thesis by (auto simp: chunk_files_ok_def demo_env_def)
qed

lemma demo_verified: "verify_chunk_integrity (me_sha demo_env) demo_chunk ''abcd'' = Ok ()"
proof -
  have "me_sha demo_env ''abcd'' = demo_digest" "length demo_digest = 32" by (simp_all add: demo_env_def demo_digest_def)
  then show ?thesis by (simp add: verify_chunk_integrity_def demo_chunk_def normalized_digest Let_def)
qed

theorem stored_chunk_blocks_restart_witness:
  "let s = empty_service\<lparr>mz_downloads := [''f'' \<mapsto> demo_two]\<rparr>
   in handle_start_download demo_env demo_net demo_dht 0 9 ''f'' ''out'' None (Some 4)
        (handle_cancel_download ''f'' (ftp_chunk_task demo_env 5 ''f'' ''ftp://x/f'' demo_chunk (FtpData ''abcd'') s)) = None"
proof -
  let ?s = "empty_service\<lparr>mz_downloads := [''f'' \<mapsto> demo_two]\<rparr>"
  have c: "mk_chunk_id demo_chunk = 0" "mk_size demo_chunk = 4" "length ''abcd'' = 4" by (simp_all add: demo_chunk_def)
  have "\<not> all_complete (complete_chunk_in (mk_chunk_id demo_chunk) ''abcd'' ''ftp://x/f'' demo_two)"
    unfolding c by (simp add: all_complete_def complete_chunk_in_def demo_two_def demo_download_fields)
  moreover have "chunk_files_ok demo_env ''f'' (mk_chunk_id demo_chunk) (length ''abcd'')" unfolding c by (rule demo_files)
  moreover have "mz_downloads ?s ''f'' = Some demo_two" "length ''abcd'' = mk_size demo_chunk" "mk_chunk_id demo_chunk < 2 ^ 32"
    "me_io demo_env = no_faults" "mt_search demo_dht ''f'' = Ok (Some demo_meta)" "mt_peers demo_dht demo_meta = Ok []" "available_sources [] demo_meta \<noteq> []"
    by (simp_all add: c demo_env_def demo_dht_def demo_sources)
  ultimately show ?thesis unfolding Let_def using demo_verified by (intro stored_chunk_blocks_restart)
qed

section \<open>Failed sources\<close>

text \<open>
  When the only source of a download fails, its chunks are put into the queue of failed chunks and a retry is requested; the retry
  takes them out of the queue, finds no source, and drops them. After that nothing in the state of the service mentions
  the missing chunks, no task runs, and the download stays in the table, so that it cannot be started again.
\<close>

theorem sole_source_failure_forgets:
  assumes "mz_downloads s h = Some a" "ad_source_assignments a = [sid \<mapsto> g]" "ad_failed_chunks a = []" "sg_chunks g \<noteq> []" "length (sg_chunks g) \<le> 10"
  shows "\<exists>b t. handle_retry_failed_chunks N [sid] h (on_source_failed h sid e s) = (Err ''No available sources for retry'', t)
     \<and> mz_commands (on_source_failed h sid e s) = mz_commands s @ [MsRetry h]
     \<and> mz_downloads t h = Some b \<and> ad_failed_chunks b = [] \<and> ad_completed_chunks b = ad_completed_chunks a
     \<and> ad_source_assignments b = [sid \<mapsto> g\<lparr>sg_status := SsFailed\<rparr>] \<and> mz_tasks t = mz_tasks s
     \<and> handle_start_download E N D clock now h out max_peers cs t = Some (Err ''Download already in progress'', t)"
proof -
  let ?b = "a\<lparr>ad_source_assignments := [sid \<mapsto> g\<lparr>sg_status := SsFailed\<rparr>], ad_failed_chunks := sg_chunks g\<rparr>"
  let ?s = "on_source_failed h sid e s"
  have failed: "mz_downloads ?s h = Some ?b" "mz_commands ?s = mz_commands s @ [MsRetry h]" "mz_tasks ?s = mz_tasks s"
    using assms by (simp_all add: on_source_failed_def chunks_of_source_def Let_def upd_download_def push_failed_def upd_assignment_def ms_emit_def send_command_def)
  let ?c = "?b\<lparr>ad_failed_chunks := []\<rparr>"
  have "handle_retry_failed_chunks N [sid] h ?s = (Err ''No available sources for retry'', ?s\<lparr>mz_downloads := (mz_downloads ?s)(h \<mapsto> ?c)\<rparr>)"
    using assms(4,5) failed(1)
    by (simp add: handle_retry_failed_chunks_def Let_def retry_sources_def map_filter_simps is_active_source_def)
  with failed show ?thesis by (simp add: handle_start_download_def)
qed

theorem sole_source_failure_forgets_witness:
  "\<exists>b t. handle_retry_failed_chunks demo_net [''ftp://x/f''] ''f''
       (on_source_failed ''f'' ''ftp://x/f'' ''timeout'' (empty_service\<lparr>mz_downloads := [''f'' \<mapsto> demo_two]\<rparr>)) = (Err ''No available sources for retry'', t)
     \<and> mz_downloads t ''f'' = Some b \<and> ad_failed_chunks b = [] \<and> ad_completed_chunks b = Map.empty"
proof -
  obtain g where g: "ad_source_assignments demo_two = [''ftp://x/f'' \<mapsto> g]" "sg_chunks g = [0]" "ad_failed_chunks demo_two = []"
    by (simp add: demo_two_def demo_download_def upd_assignment_def put_assignment_def new_active_download_def new_source_assignment_def)
  have "ad_completed_chunks demo_two = Map.empty" by (simp add: demo_two_def demo_download_fields)
  with sole_source_failure_forgets [of "empty_service\<lparr>mz_downloads := [''f'' \<mapsto> demo_two]\<rparr>" "''f''" demo_two "''ftp://x/f''" g demo_net "''timeout''"] g
  show ?thesis by fastforce
qed

lemma upd_download_tasks [simp]: "mz_tasks (upd_download h f u) = mz_tasks u"
  by (simp add: upd_download_def split: option.splits)

lemma upd_download_completed:
  "(\<And>a. ad_completed_chunks (f a) = ad_completed_chunks a) \<Longrightarrow>
    map_option ad_completed_chunks (mz_downloads (upd_download h f u) k) = map_option ad_completed_chunks (mz_downloads u k)"
  by (simp add: upd_download_def split: option.splits)

lemma source_event_keeps:
  "mz_tasks (on_source_failed h sid e u) = mz_tasks u" "mz_tasks (on_source_connected now h sid u) = mz_tasks u"
  "map_option ad_completed_chunks (mz_downloads (on_source_failed h sid e u) k) = map_option ad_completed_chunks (mz_downloads u k)"
  "map_option ad_completed_chunks (mz_downloads (on_source_connected now h sid u) k) = map_option ad_completed_chunks (mz_downloads u k)"
  by (simp_all add: on_source_failed_def on_source_connected_def Let_def upd_download_completed)
    (simp_all add: ms_emit_def send_command_def)

text \<open>A peer that was connected is never asked for its chunks: no task is spawned for it and nothing is completed.\<close>

lemma p2p_chunks_not_requested:
  assumes "start_p2p_connection N now h peer ids s = (r, t)"
  shows "mz_tasks t = mz_tasks s" "map_option ad_completed_chunks (mz_downloads t h) = map_option ad_completed_chunks (mz_downloads s h)"
  using assms by (auto simp: start_p2p_connection_def Let_def source_event_keeps upd_download_completed split: p2p_outcome.splits)

text \<open>
  When a source that comes first cannot be connected, the sources after it are not asked and no monitor is started, but the
  download stays in the table.
\<close>

definition watched :: "ms_service \<Rightarrow> string \<Rightarrow> bool" where
  "watched s h \<longleftrightarrow> TaskMonitor h \<in> set (mz_tasks s)"

lemma return_client_tasks [simp]: "mz_tasks (return_client v s) = mz_tasks s"
  by (simp add: return_client_def)

lemma watched_simps [simp]:
  "watched (upd_download k f s) h = watched s h" "watched (return_client v s) h = watched s h" "watched (ms_emit v' s) h = watched s h"
  "watched (on_source_failed k sid e s) h = watched s h" "watched (on_source_connected now k sid s) h = watched s h"
  "watched (spawn_task t s) h \<longleftrightarrow> t = TaskMonitor h \<or> watched s h"
  by (simp_all add: watched_def source_event_keeps ms_emit_def) (auto simp: spawn_task_def)

lemma connect_source_watched: "connect_source E N now k src ids s = Some (r, t) \<Longrightarrow> watched t h = watched s h"
  by (auto simp: connect_source_def start_p2p_connection_def start_ftp_connection_def start_ed2k_connection_def start_bittorrent_download_def
      start_ftp_chunk_downloads_def start_ed2k_chunk_downloads_def Let_def dest: start_http_held
      split: download_source.splits p2p_outcome.splits sum.splits option.splits if_splits)

lemma connect_sources_watched: "connect_sources E N now k as s = Some (r, t) \<Longrightarrow> watched t h = watched s h"
proof (induction E N now k as s rule: connect_sources.induct)
  case (2 E N now h src ids as s)
  then show ?case by (auto split: option.splits prod.splits sum.splits dest: connect_source_watched)
qed simp

theorem failed_start_unwatched:
  assumes "handle_start_download E N D clock now h out max_peers cs s = Some (Err e, t)" "mz_downloads t h \<noteq> None" "\<not> watched s h"
  shows "\<not> watched t h \<and> handle_start_download E N' D' clock' now' h out' mp' cs' t = Some (Err ''Download already in progress'', t)"
proof -
  have "\<not> watched t h"
    using assms(1)
  proof (cases rule: handle_start_returns)
    case 1
    with assms(3) show ?thesis by simp
  next
    case (2 m chunks selected y)
    let ?s = "s\<lparr>mz_downloads := (mz_downloads s)(h \<mapsto> new_active_download clock m chunks out)\<rparr>"
    obtain r t' where y: "y = (r, t')" by fastforce
    with 2 have "\<not> is_ok r" "t = t'" by (auto simp: download_started_def split: sum.splits)
    moreover have "watched t' h = watched ?s h"
      using 2(1) y by (auto simp: start_source_connections_def dest: connect_sources_watched split: if_splits)
    ultimately show ?thesis using assms(3) by (simp add: watched_def)
  qed
  with assms(2) show ?thesis by (simp add: handle_start_download_def)
qed

theorem failed_start_unwatched_witness:
  "\<exists>t. handle_start_download demo_env (demo_net\<lparr>nt_ftp := (\<lambda>_. Err ''down'')\<rparr>) demo_dht 0 0 ''f'' ''out'' None (Some 4) empty_service
      = Some (Err (ftp_error_message ''ftp://x/f'' ''down''), t) \<and> \<not> watched t ''f''
     \<and> handle_start_download demo_env demo_net demo_dht 0 0 ''f'' ''out'' None (Some 4) t = Some (Err ''Download already in progress'', t)"
proof -
  let ?t = "on_source_failed ''f'' ''ftp://x/f'' (ftp_error_message ''ftp://x/f'' ''down'') (upd_download ''f'' (put_assignment ''ftp://x/f'' (Ftp demo_ftp) [0]) demo_fresh)"
  have h: "handle_start_download demo_env (demo_net\<lparr>nt_ftp := (\<lambda>_. Err ''down'')\<rparr>) demo_dht 0 0 ''f'' ''out'' None (Some 4) empty_service
      = Some (Err (ftp_error_message ''ftp://x/f'' ''down''), ?t)"
    unfolding demo_begin by (simp add: connect_source_def start_ftp_connection_def demo_net_def demo_ftp_url Let_def download_started_def)
  moreover have "mz_downloads ?t ''f'' \<noteq> None" by (simp add: on_source_failed_def upd_download_def Let_def demo_fresh_def)
  moreover have "\<not> watched empty_service ''f''" by (simp add: watched_def empty_service_def)
  ultimately show ?thesis using failed_start_unwatched [OF h, of demo_net demo_dht 0 0 "''out''" None "Some 4"] by blast
qed

section \<open>eDonkey blocks and torrents\<close>

text \<open>The last block of a file is shorter than the others unless the size is a multiple of the block size; it is refused whatever it holds.\<close>

lemma last_block_refused:
  assumes "length content mod ED2K_CHUNK_SIZE \<noteq> 0" "block = drop (length content div ED2K_CHUNK_SIZE * ED2K_CHUNK_SIZE) content"
  shows "block_arrived E now h server expected cs (Ok block) s = return_client server (block_failed h cs s)"
proof -
  have "length block = length content mod ED2K_CHUNK_SIZE" using assms(2) by (simp add: minus_div_mult_eq_mod)
  moreover have "length content mod ED2K_CHUNK_SIZE < ED2K_CHUNK_SIZE" by (simp add: ED2K_CHUNK_SIZE_def)
  ultimately show ?thesis by (simp add: block_arrived_def)
qed

text \<open>
  eDonkey blocks are not made of whole chunks: of a chunk that reaches over the end of its block only the part inside the block is
  cut out. With a digest in the manifest that only the right data has, such a chunk is refused every time its
  block arrives, and with the placeholder of a file without manifest the part is stored as the chunk.
\<close>

theorem border_chunk_cut:
  assumes "length block = ED2K_CHUNK_SIZE" "ED2K_CHUNK_SIZE < mk_offset c mod ED2K_CHUNK_SIZE + mk_size c"
    and part: "part = drop (mk_offset c mod ED2K_CHUNK_SIZE) block"
  shows "length part < mk_size c
     \<and> (mk_hash c = hex_encode (me_sha E piece) \<and> length (me_sha E piece) = 32 \<and> (\<forall>x. me_sha E x = me_sha E piece \<longrightarrow> length x = mk_size c) \<longrightarrow>
          extract_chunk E server block (a, xs) c = (push_failed [mk_chunk_id c] a, xs))
     \<and> (normalized_sha256_hex (mk_hash c) = None \<longrightarrow>
          extract_chunk E server block (a, xs) c = (complete_chunk_in (mk_chunk_id c) part server a, xs @ [(c, part)]))"
proof (intro conjI impI)
  have cut: "drop (mk_offset c mod ED2K_CHUNK_SIZE) (take (min (mk_offset c mod ED2K_CHUNK_SIZE + mk_size c) (length block)) block) = part"
    using assms by (simp add: min_def)
  have "mk_offset c mod ED2K_CHUNK_SIZE < ED2K_CHUNK_SIZE" by (simp add: ED2K_CHUNK_SIZE_def)
  with assms show short: "length part < mk_size c" by simp
  show "extract_chunk E server block (a, xs) c = (push_failed [mk_chunk_id c] a, xs)"
    if "mk_hash c = hex_encode (me_sha E piece) \<and> length (me_sha E piece) = 32 \<and> (\<forall>x. me_sha E x = me_sha E piece \<longrightarrow> length x = mk_size c)"
  proof -
    have "me_sha E part \<noteq> me_sha E piece" using that short by (metis nat_less_le)
    then have "hex_encode (me_sha E part) \<noteq> hex_encode (me_sha E piece)" by (blast dest: hex_encode_inj)
    with that cut show ?thesis by (simp add: extract_chunk_def verify_chunk_integrity_def normalized_digest Let_def)
  qed
  show "extract_chunk E server block (a, xs) c = (complete_chunk_in (mk_chunk_id c) part server a, xs @ [(c, part)])"
    if "normalized_sha256_hex (mk_hash c) = None"
    using that cut by (simp add: extract_chunk_def verify_chunk_integrity_def Let_def)
qed

text \<open>Chunk 37 of the default size is the first one across a border.\<close>

theorem border_chunk_cut_witness:
  "let c = \<lparr>mk_chunk_id = 37, mk_offset = 37 * DEFAULT_CHUNK_SIZE, mk_size = DEFAULT_CHUNK_SIZE, mk_hash = ''m_37''\<rparr>;
       block = replicate ED2K_CHUNK_SIZE (CHR ''x'')
   in \<exists>part. length part < mk_size c \<and> extract_chunk demo_env ''srv'' block (demo_two, []) c = (complete_chunk_in 37 part ''srv'' demo_two, [(c, part)])"
proof -
  let ?c = "\<lparr>mk_chunk_id = 37, mk_offset = 37 * DEFAULT_CHUNK_SIZE, mk_size = DEFAULT_CHUNK_SIZE, mk_hash = ''m_37''\<rparr>"
  let ?block = "replicate ED2K_CHUNK_SIZE (CHR ''x'')"
  have "trim ''m_37'' = ''m_37''" by (rule trim_visible) auto
  then have "normalized_sha256_hex (mk_hash ?c) = None" by (simp add: normalized_sha256_hex_def)
  with border_chunk_cut [of ?block ?c _ demo_env "[]" "''srv''" demo_two "[]", OF _ _ refl] show ?thesis
    unfolding Let_def by (simp add: ED2K_CHUNK_SIZE_def DEFAULT_CHUNK_SIZE_def)
qed

text \<open>Two blocks at a time with one client in the pool: the second task finds none, and all its chunks fail.\<close>

lemma second_block_fails:
  assumes "server \<in> mz_ed2k_clients s" "take_client server s = (True, s1)"
  shows "ed2k_block_task E now fetch h server hash (b, cs) s1 = block_failed h cs (s1\<lparr>mz_ed2k_clients := mz_ed2k_clients s1 - {server}\<rparr>)"
  using assms by (auto simp: take_client_def ed2k_block_task_def)

lemma ingest_one_downloads:
  "mz_downloads (ingest_one E now h sid c data s) = mz_downloads (upd_download h (\<lambda>a. upd_assignment sid (\<lambda>g. g\<lparr>sg_last_activity := Some now\<rparr>)
     (complete_chunk_in (mk_chunk_id c) data sid a)) s)"
  by (simp add: ingest_one_def)

lemma torrent_slice_entry:
  assumes "0 < cs" "i < (length file + cs - 1) div cs" "length file \<le> u64_max"
  shows "torrent_slice (chunk_entry cs (length file) hs r i) file = Some (file_piece cs file i)"
proof -
  have i: "i * cs < length file" using assms offset_in_file by blast
  then have "min (min (i * cs + min (length file - i * cs) cs) u64_max) (length file) = i * cs + min (length file - i * cs) cs"
    using assms(3) by auto
  moreover have "drop (i * cs) (take (i * cs + min (length file - i * cs) cs) file) = file_piece cs file i"
    using i by (simp add: file_piece_def drop_take min_def)
  ultimately show ?thesis by (simp add: torrent_slice_def chunk_entry_def Let_def)
qed

text \<open>After the chunks from \<open>k\<close> on have been ingested, they are completed with the pieces of the file, and the rest is as before.\<close>

lemma ingest_chunks_ok:
  assumes "0 < cs" "length file \<le> u64_max"
  shows "k \<le> (length file + cs - 1) div cs \<Longrightarrow> mz_downloads s h = Some a \<Longrightarrow> \<exists>t b.
     ingest_chunks E now h sid file (map (chunk_entry cs (length file) hs r) [k..<(length file + cs - 1) div cs]) s = (Ok (), t)
     \<and> mz_downloads t h = Some b \<and> ad_chunks b = ad_chunks a \<and> ad_output_path b = ad_output_path a \<and> ad_file_metadata b = ad_file_metadata a
     \<and> (\<forall>i. k \<le> i \<and> i < (length file + cs - 1) div cs \<longrightarrow> (\<exists>cc. ad_completed_chunks b i = Some cc \<and> cc_data cc = file_piece cs file i))
     \<and> (\<forall>i < k. ad_completed_chunks b i = ad_completed_chunks a i)"
proof (induction "(length file + cs - 1) div cs - k" arbitrary: k s a)
  case 0
  then have "k = (length file + cs - 1) div cs" by simp
  with 0 show ?case by auto
next
  case (Suc m)
  let ?n = "(length file + cs - 1) div cs"
  have k: "k < ?n" using Suc.hyps(2) by linarith
  let ?c = "chunk_entry cs (length file) hs r k"
  let ?a = "upd_assignment sid (\<lambda>g. g\<lparr>sg_last_activity := Some now\<rparr>) (complete_chunk_in k (file_piece cs file k) sid a)"
  let ?s = "ingest_one E now h sid ?c (file_piece cs file k) s"
  have s: "mz_downloads ?s h = Some ?a" using Suc.prems(2) by (simp add: ingest_one_downloads upd_download_def chunk_entry_def)
  have m: "m = ?n - Suc k" "Suc k \<le> ?n" using Suc.hyps(2) k by linarith+
  from Suc.hyps(1) [OF m s] obtain t b where
    run: "ingest_chunks E now h sid file (map (chunk_entry cs (length file) hs r) [Suc k..<?n]) ?s = (Ok (), t)" "mz_downloads t h = Some b"
    and b: "ad_chunks b = ad_chunks ?a" "ad_output_path b = ad_output_path ?a" "ad_file_metadata b = ad_file_metadata ?a"
      "\<forall>i. Suc k \<le> i \<and> i < ?n \<longrightarrow> (\<exists>cc. ad_completed_chunks b i = Some cc \<and> cc_data cc = file_piece cs file i)"
      "\<forall>i < Suc k. ad_completed_chunks b i = ad_completed_chunks ?a i" by blast
  have "ingest_chunks E now h sid file (map (chunk_entry cs (length file) hs r) [k..<?n]) s = (Ok (), t)"
    using run(1) k torrent_slice_entry [OF assms(1) k assms(2)] by (simp add: upt_conv_Cons)
  moreover have "\<exists>cc. ad_completed_chunks b i = Some cc \<and> cc_data cc = file_piece cs file i" if "k \<le> i" "i < ?n" for i
    using that b(4,5) by (cases "i = k") (auto simp: complete_chunk_in_def)
  moreover have "ad_completed_chunks b i = ad_completed_chunks a i" if "i < k" for i using that b(5) by (simp add: complete_chunk_in_def)
  ultimately show ?case using run(2) b(1-3) by (auto simp: complete_chunk_in_def)
qed

text \<open>
  A file that came from BitTorrent is not checked: whatever bytes of the right length the torrent produced and whatever
  hashes the table of chunks has, ingesting them succeeds and makes them the output file. All chunks are reported as
  verified.
\<close>

theorem torrent_data_unchecked:
  assumes "mz_downloads s h = Some a" "ad_chunks a = map (chunk_entry cs (length file) hs r) [0..<(length file + cs - 1) div cs]" "0 < cs"
    and "md_file_size (ad_file_metadata a) = length file" "length file \<le> u64_max" "me_io E = no_faults" "path_of_string (ad_output_path a) \<noteq> state_path h"
  shows "\<exists>t. ingest_file_chunks E now h sid file s = (Ok (), t) \<and> mz_disk t (path_of_string (ad_output_path a)) = Some file \<and> mz_downloads t h = None"
proof -
  let ?n = "(length file + cs - 1) div cs" and ?p = "path_of_string (ad_output_path a)"
  from ingest_chunks_ok [OF assms(3,5) _ assms(1), of 0 E now sid hs r] obtain t b where
    run: "ingest_chunks E now h sid file (ad_chunks a) s = (Ok (), t)" "mz_downloads t h = Some b"
    and b: "ad_chunks b = ad_chunks a" "ad_output_path b = ad_output_path a" "ad_file_metadata b = ad_file_metadata a"
      "\<And>i. i < ?n \<Longrightarrow> \<exists>cc. ad_completed_chunks b i = Some cc \<and> cc_data cc = file_piece cs file i"
    using assms(2) by auto
  let ?b = "upd_assignment sid (\<lambda>g. g\<lparr>sg_status := SsCompleted\<rparr>) b"
  let ?t = "upd_download h (upd_assignment sid (\<lambda>g. g\<lparr>sg_status := SsCompleted\<rparr>)) t"
  have "assemble_chunks E ?p (ad_completed_chunks b) (ad_chunks a) ((mz_disk ?t)(?p \<mapsto> replicate (length file) (CHR 0x00))) = (Ok (), (mz_disk ?t)(?p \<mapsto> file))"
    using assemble_pieces [OF assms(6,3) refl b(4), of 0 "(mz_disk ?t)(?p \<mapsto> replicate (length file) (CHR 0x00))" ?p hs r] assms(2)
    by (simp add: assembled_upto_def)
  then have "finalize_download_static E h ?t = (Ok (), set_disk ((mz_disk ?t)(?p \<mapsto> file)) (?t\<lparr>mz_downloads := hm_remove (mz_downloads ?t) h\<rparr>))"
    using run(2) b(1-3) assms(4,6)
    by (auto simp: finalize_download_static_def write_assembled_def Let_def fs_mkdir_def upd_download_def split: option.splits)
  with assms(1,6,7) run(1) show ?thesis
    by (auto simp: ingest_file_chunks_def remove_download_state_def fs_remove_def split: prod.splits option.splits)
qed

theorem torrent_data_unchecked_witness:
  "\<exists>t. ingest_file_chunks demo_env 0 ''f'' ''magnet'' ''XXXX'' (empty_service\<lparr>mz_downloads := [''f'' \<mapsto> demo_download]\<rparr>) = (Ok (), t)
     \<and> mz_disk t [''out''] = Some ''XXXX'' \<and> verify_chunk_integrity (me_sha demo_env) demo_chunk ''XXXX'' \<noteq> Ok ()"
proof -
  let ?s = "empty_service\<lparr>mz_downloads := [''f'' \<mapsto> demo_download]\<rparr>"
  have n: "(length ''XXXX'' + 4 - 1) div 4 = 1" by simp
  have "hex_encode demo_digest \<noteq> []" by (metis demo_digest_def length_0_conv length_hex_encode length_replicate mult_eq_0_iff zero_neq_numeral)
  then have "chunk_entry 4 (length ''XXXX'') [hex_encode demo_digest] ''m'' 0 = demo_chunk"
    by (simp add: chunk_entry_def chunk_hash_for_def demo_chunk_def)
  then have c: "ad_chunks demo_download = map (chunk_entry 4 (length ''XXXX'') [hex_encode demo_digest] ''m'') [0..<(length ''XXXX'' + 4 - 1) div 4]"
    unfolding n by (simp add: demo_download_fields)
  have p: "path_of_string (ad_output_path demo_download) = [''out'']" by (simp add: demo_download_fields path_of_string_def starts_with_def)
  have "[''out''] \<noteq> state_path ''f''" by (simp add: state_path_def path_join_def path_of_string_def starts_with_def)
  then have run: "\<exists>t. ingest_file_chunks demo_env 0 ''f'' ''magnet'' ''XXXX'' ?s = (Ok (), t) \<and> mz_disk t [''out''] = Some ''XXXX'' \<and> mz_downloads t ''f'' = None"
    using torrent_data_unchecked [of ?s "''f''", OF _ c, of demo_env 0 "''magnet''"] p
    by (simp add: demo_download_fields demo_size demo_env_def u64_max_def)
  have digest: "length demo_digest = 32" "replicate 32 (CHR ''B'') \<noteq> demo_digest" by (simp_all add: demo_digest_def numeral_eq_Suc)
  then have "hex_encode (replicate 32 (CHR ''B'')) \<noteq> hex_encode demo_digest" by (blast dest: hex_encode_inj)
  then have "verify_chunk_integrity (me_sha demo_env) demo_chunk ''XXXX'' \<noteq> Ok ()"
    by (simp add: verify_chunk_integrity_def demo_chunk_def normalized_digest [OF digest(1)] demo_env_def Let_def)
  with run show ?thesis by blast
qed

end
