(* ===== verification/MultiSourceStore.thy ===== *)
theory MultiSourceStore
  imports MultiSourceService
begin

text \<open>
  What \<^verbatim>\<open>src-tauri/src/multi_source_download.rs\<close> keeps across restarts: the state files of downloads, removing old chunk
  files and state files, and removing duplicate chunks.

  Iteration orders of hash maps and the age of a file are arguments; listings of directories are those of \<open>ms_env\<close>.

  Shown: a saved download is restored with its table, its queue, what serde keeps of its metadata and the chunks whose files are intact. Defects are theorems: chunks are
  restored without a look at their hash, loading the saved states deletes the state file of a download that is active, and
  removing duplicates takes chunks away from downloads that still need them.
\<close>

section \<open>Saving and loading downloads\<close>

definition saved_of :: "u64 \<Rightarrow> u64 \<Rightarrow> string list \<Rightarrow> u32 list \<Rightarrow> string \<Rightarrow> active_download \<Rightarrow> ms_saved" where
  "saved_of now_secs elapsed source_order chunk_order h a =
     \<lparr>sd_file_hash = h, sd_file_metadata = ad_file_metadata a, sd_chunks = ad_chunks a,
      sd_source_assignments = hm_values (ad_source_assignments a) source_order, sd_completed_chunk_ids = chunk_order,
      sd_failed_chunks = ad_failed_chunks a, sd_start_time_unix = sat_sub now_secs elapsed, sd_output_path = ad_output_path a,
      sd_ed2k_chunk_hashes = ad_ed2k_chunk_hashes a, sd_saved_at = now_secs\<rparr>"

text \<open>
  What the derived (de)serialisers keep of the metadata: the data of the file and the passwords of FTP sources are skipped, and the price is what
  the decimal text of it parses to.
\<close>

definition persisted_ftp :: "dht_ftp_source_info \<Rightarrow> dht_ftp_source_info" where
  "persisted_ftp f = f\<lparr>fs_password := None\<rparr>"

definition persisted_metadata :: "f64 \<Rightarrow> file_metadata \<Rightarrow> file_metadata" where
  "persisted_metadata price m = m\<lparr>md_file_data := [], md_ftp_sources := map_option (map persisted_ftp) (md_ftp_sources m), md_price := price\<rparr>"

definition persisted :: "f64 \<Rightarrow> ms_saved \<Rightarrow> ms_saved" where
  "persisted price st = st\<lparr>sd_file_metadata := persisted_metadata price (sd_file_metadata st)\<rparr>"

text \<open>\<open>todo\<close> lists the downloads in the order of the map, each with its age and the orders of its own maps.\<close>

fun save_each :: "ms_env \<Rightarrow> u64 \<Rightarrow> (string \<times> u64 \<times> string list \<times> u32 list) list \<Rightarrow> ms_service \<Rightarrow> (string, unit) result \<times> ms_service" where
  "save_each E now_secs [] s = (Ok (), s)"
| "save_each E now_secs ((h, elapsed, sources, chunks) # todo) s =
     (case mz_downloads s h of
        None \<Rightarrow> save_each E now_secs todo s
      | Some a \<Rightarrow>
          (case me_saved_json E (saved_of now_secs elapsed sources chunks h a) of
             Inl e \<Rightarrow> (Err (''Failed to serialize download state: '' @ e), s)
           | Inr json \<Rightarrow>
               (case fs_write (me_io E) (state_path h) json (mz_disk s) of
                  (Inl e, d) \<Rightarrow> (Err (''Failed to write download state file: '' @ me_show_io E e), set_disk d s)
                | (Inr _, d) \<Rightarrow> save_each E now_secs todo (set_disk d s))))"

definition save_download_state ::
  "ms_env \<Rightarrow> u64 \<Rightarrow> (string \<times> u64 \<times> string list \<times> u32 list) list \<Rightarrow> ms_service \<Rightarrow> (string, unit) result \<times> ms_service" where
  "save_download_state E now_secs todo s =
     (case ensure_dir E [''downloads''] (mz_disk s) of
        Inl e \<Rightarrow> (Err (''Failed to create downloads directory: '' @ me_show_io E e), s)
      | Inr _ \<Rightarrow> save_each E now_secs todo s)"

definition restore_assignment :: "(string \<rightharpoonup> source_assignment) \<Rightarrow> source_assignment \<Rightarrow> (string \<rightharpoonup> source_assignment)" where
  "restore_assignment m g = m(source_identifier (sg_source g) \<mapsto> g)"

definition restore_chunk :: "ms_env \<Rightarrow> string \<Rightarrow> ms_service \<Rightarrow> (u32 \<rightharpoonup> completed_chunk) \<Rightarrow> u32 \<Rightarrow> (u32 \<rightharpoonup> completed_chunk)" where
  "restore_chunk E h s m i =
     (case load_chunk_from_disk E False h i s of
        Some (Inr data) \<Rightarrow> m(i \<mapsto> \<lparr>cc_chunk_id = i, cc_data = data, cc_source_id = ''persisted''\<rparr>)
      | _ \<Rightarrow> m)"

definition restored_download :: "ms_env \<Rightarrow> nat \<Rightarrow> string \<Rightarrow> ms_service \<Rightarrow> ms_saved \<Rightarrow> active_download" where
  "restored_download E clock h s st =
     \<lparr>ad_file_metadata = sd_file_metadata st, ad_chunks = sd_chunks st,
      ad_source_assignments = foldl restore_assignment Map.empty (sd_source_assignments st),
      ad_completed_chunks = foldl (restore_chunk E h s) Map.empty (sd_completed_chunk_ids st), ad_failed_chunks = sd_failed_chunks st,
      ad_start_time = clock, ad_output_path = sd_output_path st, ad_ed2k_chunk_hashes = sd_ed2k_chunk_hashes st\<rparr>"

definition load_download_state :: "ms_env \<Rightarrow> nat \<Rightarrow> path \<Rightarrow> string \<Rightarrow> ms_service \<Rightarrow> (string, unit) result \<times> ms_service" where
  "load_download_state E clock p h s =
     (case fs_read_to_string (me_io E) p (mz_disk s) of
        Inl e \<Rightarrow> (Err (''Failed to read state file: '' @ me_show_io E e), s)
      | Inr content \<Rightarrow>
          (case me_parse_saved E content of
             None \<Rightarrow> (Err ''Failed to parse state file'', s)
           | Some st \<Rightarrow>
               if sd_file_hash st \<noteq> h then (Err ''File hash mismatch in state file'', s)
               else if mz_downloads s h \<noteq> None then (Err ''Download already active'', s)
               else (Ok (), s\<lparr>mz_downloads := (mz_downloads s)(h \<mapsto> restored_download E clock h s st)\<rparr>)))"

text \<open>A state that cannot be loaded is taken for corrupted and deleted.\<close>

definition load_state_entry :: "ms_env \<Rightarrow> nat \<Rightarrow> string list \<times> ms_service \<Rightarrow> string \<Rightarrow> string list \<times> ms_service" where
  "load_state_entry E clock = (\<lambda>(loaded, s) name.
     if ends_with ''.state'' name
     then let h = (case strip_suffix ''.state'' name of Some h \<Rightarrow> h | None \<Rightarrow> name); p = [''downloads'', name]
          in case load_download_state E clock p h s of
               (Inr _, s1) \<Rightarrow> (loaded @ [h], s1)
             | (Inl _, s1) \<Rightarrow> (loaded, set_disk (snd (fs_remove (me_io E) p (mz_disk s1))) s1)
     else (loaded, s))"

definition load_download_states :: "ms_env \<Rightarrow> nat \<Rightarrow> ms_service \<Rightarrow> (string, string list) result \<times> ms_service" where
  "load_download_states E clock s =
     (case me_listing E [''downloads''] (mz_disk s) of
        None \<Rightarrow> (Ok [], s)
      | Some (Inl e) \<Rightarrow> (Err (''Failed to read downloads directory: '' @ me_show_io E e), s)
      | Some (Inr names) \<Rightarrow> (case foldl (load_state_entry E clock) ([], s) names of (loaded, s1) \<Rightarrow> (Ok loaded, s1)))"

definition clean_state_entry :: "ms_env \<Rightarrow> nat \<times> ms_service \<Rightarrow> string \<Rightarrow> nat \<times> ms_service" where
  "clean_state_entry E = (\<lambda>(n, s) name.
     case (if ends_with ''.state'' name then strip_suffix ''.state'' name else None) of
       None \<Rightarrow> (n, s)
     | Some h \<Rightarrow>
         if mz_downloads s h \<noteq> None then (n, s)
         else case fs_remove (me_io E) [''downloads'', name] (mz_disk s) of
                (Inr _, d) \<Rightarrow> (n + 1, set_disk d s)
              | (Inl _, d) \<Rightarrow> (n, set_disk d s))"

definition cleanup_old_download_states :: "ms_env \<Rightarrow> ms_service \<Rightarrow> (string, nat) result \<times> ms_service" where
  "cleanup_old_download_states E s =
     (case me_listing E [''downloads''] (mz_disk s) of
        None \<Rightarrow> (Ok 0, s)
      | Some (Inl e) \<Rightarrow> (Err (''Failed to read downloads directory: '' @ me_show_io E e), s)
      | Some (Inr names) \<Rightarrow> (case foldl (clean_state_entry E) (0, s) names of (n, s1) \<Rightarrow> (Ok n, s1)))"

section \<open>Removing chunk files\<close>

definition replace_all :: "string \<Rightarrow> string \<Rightarrow> string \<Rightarrow> string" where
  "replace_all pat rep s = (case fold (\<lambda>c (out, buf). let b = buf @ [c] in
       if ends_with pat b then (out @ take (length b - length pat) b @ rep, []) else (out, b)) s ([], []) of (out, buf) \<Rightarrow> out @ buf)"

definition remove_both :: "ms_env \<Rightarrow> path \<Rightarrow> path \<Rightarrow> disk \<Rightarrow> disk" where
  "remove_both E p q d = snd (fs_remove (me_io E) q (snd (fs_remove (me_io E) p d)))"

text \<open>\<open>age\<close> is the age of the metadata file in seconds, \<open>None\<close> when the file system does not tell it (then the file counts as fresh), and \<open>Err\<close>
  when its metadata cannot be read.\<close>

definition clean_chunk_entry ::
  "ms_env \<Rightarrow> (path \<Rightarrow> (io_error, u64 option) result) \<Rightarrow> u64 option \<Rightarrow> path \<Rightarrow> nat \<times> disk \<Rightarrow> string \<Rightarrow> nat \<times> disk" where
  "clean_chunk_entry E age max_age dir = (\<lambda>(n, d) name.
     if \<not> ends_with ''.meta'' name then (n, d)
     else let meta = dir @ [name]; dat = path_join dir (replace_all ''.meta'' ''.dat'' name)
          in if \<not> fs_exists (me_io E) dat d then (n + 1, snd (fs_remove (me_io E) meta d))
             else let old = (case max_age of None \<Rightarrow> False
                    | Some m \<Rightarrow> (case age meta of Inl _ \<Rightarrow> True | Inr None \<Rightarrow> False | Inr (Some a) \<Rightarrow> m < a))
                  in if old \<or> \<not> is_ok (rbind (fs_read_to_string (me_io E) meta d) (\<lambda>c. ok_or NotFound (me_parse_meta E c)))
                     then (n + 1, remove_both E meta dat d) else (n, d))"

definition cleanup_file_chunks ::
  "ms_env \<Rightarrow> (path \<Rightarrow> (io_error, u64 option) result) \<Rightarrow> path \<Rightarrow> u64 option \<Rightarrow> disk \<Rightarrow> (string, nat) result \<times> disk" where
  "cleanup_file_chunks E age dir max_age d =
     (case me_listing E dir d of
        Some (Inr names) \<Rightarrow> (case foldl (clean_chunk_entry E age max_age dir) (0, d) names of (n, d1) \<Rightarrow> (Ok n, d1))
      | Some (Inl e) \<Rightarrow> (Err (''Failed to read file chunks directory: '' @ me_show_io E e), d)
      | None \<Rightarrow> (Err ''Failed to read file chunks directory'', d))"

text \<open>\<open>dirs\<close> are the directories below the chunk directory; an empty one is removed, which is not visible on a disk of files.\<close>

fun cleanup_dirs ::
  "ms_env \<Rightarrow> (path \<Rightarrow> (io_error, u64 option) result) \<Rightarrow> u64 option \<Rightarrow> string list \<Rightarrow> nat \<Rightarrow> ms_service \<Rightarrow> (string, nat) result \<times> ms_service" where
  "cleanup_dirs E age max_age [] n s = (Ok n, s)"
| "cleanup_dirs E age max_age (h # hs) n s =
     (if mz_downloads s h \<noteq> None then cleanup_dirs E age max_age hs n s
      else case cleanup_file_chunks E age [''chunks'', h] max_age (mz_disk s) of
             (Inl e, d) \<Rightarrow> (Err e, set_disk d s)
           | (Inr k, d) \<Rightarrow> cleanup_dirs E age max_age hs (n + k) (set_disk d s))"

definition cleanup_chunks ::
  "ms_env \<Rightarrow> (path \<Rightarrow> (io_error, u64 option) result) \<Rightarrow> (string \<Rightarrow> bool) \<Rightarrow> u64 option \<Rightarrow> ms_service \<Rightarrow> (string, nat) result \<times> ms_service" where
  "cleanup_chunks E age is_dir max_age_days s =
     (case me_listing E [''chunks''] (mz_disk s) of
        None \<Rightarrow> (Ok 0, s)
      | Some (Inl e) \<Rightarrow> (Err (''Failed to read chunks directory: '' @ me_show_io E e), s)
      | Some (Inr names) \<Rightarrow>
          cleanup_dirs E age (map_option (\<lambda>days. wmul64 (wmul64 (wmul64 days 24) 60) 60) max_age_days) (filter is_dir names) 0 s)"

text \<open>The first file with a content hash is kept. The result is the list of the others.\<close>

definition note_chunk :: "ms_env \<Rightarrow> disk \<Rightarrow> (string \<rightharpoonup> path) \<times> path list \<Rightarrow> path \<Rightarrow> (string \<rightharpoonup> path) \<times> path list" where
  "note_chunk E d = (\<lambda>(seen, dups) p.
     case fs_read (me_io E) p d of
       Inl _ \<Rightarrow> (seen, dups)
     | Inr data \<Rightarrow> let hash = hex_encode (me_sha E data)
         in if seen hash \<noteq> None then (seen, dups @ [p]) else (seen(hash \<mapsto> p), dups))"

definition drop_duplicate :: "ms_env \<Rightarrow> nat \<times> disk \<Rightarrow> path \<Rightarrow> nat \<times> disk" where
  "drop_duplicate E = (\<lambda>(n, d) p.
     case fs_remove (me_io E) p d of
       (r, d1) \<Rightarrow> (if is_ok r then n + 1 else n, snd (fs_remove (me_io E) (with_extension p ''meta'') d1)))"

text \<open>\<open>files\<close> are the data files of all directories in the order in which they are listed.\<close>

definition deduplicate_chunks :: "ms_env \<Rightarrow> path list \<Rightarrow> disk \<Rightarrow> nat \<times> disk" where
  "deduplicate_chunks E files d = foldl (drop_duplicate E) (0, d) (snd (foldl (note_chunk E d) (Map.empty, []) files))"

section \<open>What is restored\<close>

lemma restore_chunks_apply:
  "foldl (restore_chunk E h s) m is i =
     (case load_chunk_from_disk E False h i s of
        Some (Inr data) \<Rightarrow> if i \<in> set is then Some \<lparr>cc_chunk_id = i, cc_data = data, cc_source_id = ''persisted''\<rparr> else m i
      | _ \<Rightarrow> m i)"
  by (induction "is" arbitrary: m) (auto simp: restore_chunk_def split: option.splits sum.splits)

lemma load_inactive: "mz_downloads s h = None \<Longrightarrow> load_chunk_from_disk E False h i s = Some (read_chunk_files E h i (mz_disk s))"
  by (simp add: load_chunk_from_disk_def split: sum.splits)

lemma saved_fields [simp]:
  "sd_file_hash (saved_of now el so co h a) = h" "sd_file_metadata (saved_of now el so co h a) = ad_file_metadata a"
  "sd_chunks (saved_of now el so co h a) = ad_chunks a" "sd_failed_chunks (saved_of now el so co h a) = ad_failed_chunks a"
  "sd_output_path (saved_of now el so co h a) = ad_output_path a" "sd_completed_chunk_ids (saved_of now el so co h a) = co"
  "sd_ed2k_chunk_hashes (saved_of now el so co h a) = ad_ed2k_chunk_hashes a"
  by (simp_all add: saved_of_def)

text \<open>
  C33: A download that was saved is restored by the next run of the program, if the disk works and the text of its state parses to what the serialiser
  keeps of it: the table of chunks, the queue of failed chunks and the output path are those that were saved, the metadata are
  those that were saved without the data of the file and the passwords of its FTP sources (and with the price that was parsed), and a chunk is completed exactly when it
  was completed before and its two files on disk are intact, with the data of its file. The hash of the data is not compared with the table.
\<close>

theorem saved_download_restored:
  assumes "mz_downloads s h = Some a" "hm_order (ad_completed_chunks a) ids" "me_io E = no_faults" "me_listing E [''downloads''] (mz_disk s) \<noteq> None"
    and json: "me_saved_json E (saved_of now el so ids h a) = Ok json" "me_parse_saved E json = Some (persisted price (saved_of now el so ids h a))" "utf8_valid json"
    and saved: "save_download_state E now [(h, el, so, ids)] s = (r, s1)"
    and run: "load_download_state E clock (state_path h) h (s1\<lparr>mz_downloads := Map.empty\<rparr>) = (r', s2)"
  shows "r = Ok () \<and> r' = Ok () \<and> (\<exists>b. mz_downloads s2 h = Some b \<and> ad_chunks b = ad_chunks a \<and> ad_failed_chunks b = ad_failed_chunks a
     \<and> ad_output_path b = ad_output_path a \<and> ad_file_metadata b = persisted_metadata price (ad_file_metadata a)
     \<and> (\<forall>i. ad_completed_chunks b i = (case read_chunk_files E h i (mz_disk s1) of
           Inr data \<Rightarrow> if ad_completed_chunks a i \<noteq> None then Some \<lparr>cc_chunk_id = i, cc_data = data, cc_source_id = ''persisted''\<rparr> else None
         | Inl _ \<Rightarrow> None)))"
proof -
  have s1: "r = Ok ()" "s1 = set_disk ((mz_disk s)(state_path h \<mapsto> json)) s"
    using saved assms(1,3,4) json(1) by (auto simp: save_download_state_def ensure_dir_def fs_write_def)
  let ?t = "s1\<lparr>mz_downloads := Map.empty\<rparr>"
  let ?b = "restored_download E clock h ?t (persisted price (saved_of now el so ids h a))"
  have "mz_disk ?t (state_path h) = Some json" using s1(2) by simp
  then have "load_download_state E clock (state_path h) h ?t = (Ok (), ?t\<lparr>mz_downloads := (mz_downloads ?t)(h \<mapsto> ?b)\<rparr>)"
    using json(2,3) assms(3) by (simp add: load_download_state_def persisted_def fs_read_to_string_def fs_read_def)
  then have s2: "r' = Ok ()" "mz_downloads s2 h = Some ?b" using run by auto
  have ids: "i \<in> set ids \<longleftrightarrow> ad_completed_chunks a i \<noteq> None" for i using assms(2) by (auto simp: hm_order_def)
  have "load_chunk_from_disk E False h i ?t = Some (read_chunk_files E h i (mz_disk s1))" for i using load_inactive [of ?t h E i] by simp
  then have "ad_completed_chunks ?b i = (case read_chunk_files E h i (mz_disk s1) of
      Inr data \<Rightarrow> if ad_completed_chunks a i \<noteq> None then Some \<lparr>cc_chunk_id = i, cc_data = data, cc_source_id = ''persisted''\<rparr> else None
    | Inl _ \<Rightarrow> None)" for i
    using ids by (simp add: restored_download_def persisted_def restore_chunks_apply split: sum.splits)
  with s1(1) s2 show ?thesis by (simp add: restored_download_def persisted_def)
qed

definition demo_disk :: disk where
  "demo_disk = [dat_path ''f'' 0 \<mapsto> ''WXYZ'', meta_file_path ''f'' 0 \<mapsto> ''{}'']"

definition demo_saved :: active_download where
  "demo_saved = complete_chunk_in 0 ''abcd'' ''ftp://x/f'' (demo_two\<lparr>ad_file_metadata := demo_meta\<lparr>md_file_data := ''abcd'',
     md_ftp_sources := map_option (map (\<lambda>f. f\<lparr>fs_password := Some ''pw''\<rparr>)) (md_ftp_sources demo_meta)\<rparr>\<rparr>)"

text \<open>An environment that writes and parses the state of this one download.\<close>

definition saving_env :: ms_env where
  "saving_env = demo_env\<lparr>me_saved_json := (\<lambda>x. if x = saved_of 7 0 [] [0] ''f'' demo_saved then Ok ''s'' else Err ''unknown''),
     me_parse_saved := (\<lambda>json. if json = ''s'' then Some (persisted (F_Fin 0) (saved_of 7 0 [] [0] ''f'' demo_saved)) else None),
     me_listing := (\<lambda>_ _. Some (Ok []))\<rparr>"

theorem saved_download_restored_witness:
  "let E = saving_env; s = set_disk demo_disk (empty_service\<lparr>mz_downloads := [''f'' \<mapsto> demo_saved]\<rparr>);
       s1 = snd (save_download_state E 7 [(''f'', 0, [], [0])] s)
   in \<exists>b. mz_downloads (snd (load_download_state E 0 (state_path ''f'') ''f'' (s1\<lparr>mz_downloads := Map.empty\<rparr>))) ''f'' = Some b
     \<and> ad_chunks b = ad_chunks demo_two \<and> ad_file_metadata b = demo_meta \<and> map_option cc_data (ad_completed_chunks b 0) = Some ''WXYZ''"
proof -
  let ?E = saving_env
  let ?s = "set_disk demo_disk (empty_service\<lparr>mz_downloads := [''f'' \<mapsto> demo_saved]\<rparr>)"
  obtain r s1 where saved: "save_download_state ?E 7 [(''f'', 0, [], [0])] ?s = (r, s1)" by fastforce
  obtain r' s2 where run: "load_download_state ?E 0 (state_path ''f'') ''f'' (s1\<lparr>mz_downloads := Map.empty\<rparr>) = (r', s2)" by fastforce
  have E: "me_io ?E = no_faults" "me_saved_json ?E (saved_of 7 0 [] [0] ''f'' demo_saved) = Ok ''s''"
    "me_parse_saved ?E ''s'' = Some (persisted (F_Fin 0) (saved_of 7 0 [] [0] ''f'' demo_saved))" "me_parse_meta ?E = me_parse_meta demo_env"
    by (simp_all add: saving_env_def) (simp add: demo_env_def)
  have a: "hm_order (ad_completed_chunks demo_saved) [0]" "ad_completed_chunks demo_saved 0 \<noteq> None"
    by (simp_all add: hm_order_def demo_saved_def complete_chunk_in_def demo_two_def demo_download_fields)
  have utf: "utf8_valid ''s''" "utf8_valid ''{}''" by code_simp+
  have paths: "state_path ''f'' \<noteq> dat_path ''f'' 0" "state_path ''f'' \<noteq> meta_file_path ''f'' 0"
    by (simp_all add: chunk_names chunks_dir_of_def state_path_def path_join_def path_of_string_def starts_with_def)
  from saved have "mz_disk s1 = demo_disk(state_path ''f'' \<mapsto> ''s'')"
    using E by (auto simp: save_download_state_def ensure_dir_def fs_write_def saving_env_def)
  then have files: "read_chunk_files ?E ''f'' 0 (mz_disk s1) = Ok ''WXYZ''"
    using paths dat_not_meta [of "''f''" 0 "0"] utf(2) E(1,4)
    by (simp add: read_chunk_files_def chunk_exists_on_disk_def fs_exists_def fs_read_to_string_def fs_read_def demo_disk_def) (simp add: demo_env_def fs_read_def)
  have l: "me_listing ?E [''downloads''] (mz_disk ?s) \<noteq> None" by (simp add: saving_env_def)
  from saved_download_restored [OF _ a(1) E(1) l E(2,3) utf(1) saved run] obtain b where
    "mz_downloads s2 ''f'' = Some b" "ad_chunks b = ad_chunks demo_saved" "ad_file_metadata b = persisted_metadata (F_Fin 0) (ad_file_metadata demo_saved)"
    "ad_completed_chunks b 0 = Some \<lparr>cc_chunk_id = 0, cc_data = ''WXYZ'', cc_source_id = ''persisted''\<rparr>"
    using files a(2) by (auto split: sum.splits)
  moreover have "persisted_metadata (F_Fin 0) (ad_file_metadata demo_saved) = demo_meta"
    by (simp add: persisted_metadata_def demo_saved_def complete_chunk_in_def demo_meta_def default_file_metadata_def persisted_ftp_def)
  ultimately show ?thesis unfolding Let_def saved run snd_conv by (simp add: demo_saved_def)
qed

text \<open>Loading the saved downloads leaves every download alone that is in the table.\<close>

lemma load_state_active: "mz_downloads s h \<noteq> None \<Longrightarrow> mz_downloads (snd (load_download_state E clock p g s)) h = mz_downloads s h"
  by (auto simp: load_download_state_def split: sum.splits option.splits)

lemma load_entry_active: "mz_downloads (snd x) h \<noteq> None \<Longrightarrow> mz_downloads (snd (load_state_entry E clock x name)) h = mz_downloads (snd x) h"
proof -
  assume a: "mz_downloads (snd x) h \<noteq> None"
  show ?thesis
    using load_state_active [OF a, of E clock "[''downloads'', name]"]
    by (auto simp: load_state_entry_def Let_def split: prod.splits sum.splits option.splits) (metis snd_conv)+
qed

lemma load_entries_active: "mz_downloads (snd x) h \<noteq> None \<Longrightarrow> mz_downloads (snd (foldl (load_state_entry E clock) x names)) h = mz_downloads (snd x) h"
  by (induction names arbitrary: x) (simp_all add: load_entry_active)

lemma restoring_elsewhere:
  assumes "load_download_states E clock s = (r, t)" "mz_downloads s h \<noteq> None"
  shows "ms_step E {h} s t"
proof (rule step_elsewhere)
  have "mz_downloads t h = mz_downloads s h"
    using assms load_entries_active [of "([], s)" h E clock] by (auto simp: load_download_states_def split: option.splits sum.splits prod.splits) (metis snd_conv)+
  then show "\<And>g. g \<in> {h} \<Longrightarrow> mz_downloads t g = mz_downloads s g" by simp
qed

text \<open>
  Loading the saved downloads deletes the state file of a download that is active: that the download is active already counts as an error, and a state file
  that cannot be loaded is removed.
\<close>

theorem active_state_deleted:
  assumes "mz_downloads s h \<noteq> None" "me_listing E [''downloads''] (mz_disk s) = Some (Ok [h @ ''.state''])" "me_io E = no_faults"
  shows "\<exists>t. load_download_states E clock s = (Ok [], t) \<and> mz_disk t [''downloads'', h @ ''.state''] = None \<and> mz_downloads t = mz_downloads s"
proof -
  let ?n = "h @ ''.state''" let ?p = "[''downloads'', ?n]"
  have name: "ends_with ''.state'' ?n" "strip_suffix ''.state'' ?n = Some h"
    by (simp_all add: ends_with_def strip_suffix_def strip_prefix_def)
  have "\<exists>e. load_download_state E clock ?p h s = (Err e, s)"
    using assms(1) by (simp add: load_download_state_def split: sum.splits option.splits)
  with name assms(2,3) show ?thesis
    by (auto simp: load_download_states_def load_state_entry_def fs_remove_def Let_def split: option.splits)
qed

theorem active_state_deleted_witness:
  "let s = set_disk [[''downloads'', ''f.state''] \<mapsto> ''s''] (empty_service\<lparr>mz_downloads := [''f'' \<mapsto> demo_two]\<rparr>)
   in \<exists>t. load_download_states (demo_env\<lparr>me_listing := (\<lambda>_ _. Some (Ok [''f.state'']))\<rparr>) 0 s = (Ok [], t) \<and> mz_disk t [''downloads'', ''f.state''] = None"
  using active_state_deleted [of "set_disk [[''downloads'', ''f.state''] \<mapsto> ''s''] (empty_service\<lparr>mz_downloads := [''f'' \<mapsto> demo_two]\<rparr>)" "''f''"
      "demo_env\<lparr>me_listing := (\<lambda>_ _. Some (Ok [''f.state'']))\<rparr>" 0] by (auto simp: demo_env_def)

section \<open>Duplicates\<close>

definition hash_seen :: "ms_env \<Rightarrow> disk \<Rightarrow> (string \<rightharpoonup> path) \<Rightarrow> path \<Rightarrow> bool" where
  "hash_seen E d seen p \<longleftrightarrow> (\<forall>data. d p = Some data \<longrightarrow> seen (hex_encode (me_sha E data)) \<noteq> None)"

lemma note_chunks:
  assumes "me_io E = no_faults" "foldl (note_chunk E d) (seen, dups) files = (seen', dups')"
  shows "(\<forall>p \<in> set files. hash_seen E d seen' p) \<and> (\<forall>x. seen x \<noteq> None \<longrightarrow> seen' x \<noteq> None) \<and> set dups \<subseteq> set dups'"
  using assms(2)
proof (induction files arbitrary: seen dups)
  case (Cons p files)
  obtain seen1 dups1 where n: "note_chunk E d (seen, dups) p = (seen1, dups1)" by fastforce
  with Cons have later: "\<forall>q \<in> set files. hash_seen E d seen' q" "\<forall>x. seen1 x \<noteq> None \<longrightarrow> seen' x \<noteq> None" "set dups1 \<subseteq> set dups'" by auto
  from n assms(1) have "hash_seen E d seen1 p" "\<forall>x. seen x \<noteq> None \<longrightarrow> seen1 x \<noteq> None" "set dups \<subseteq> set dups1"
    by (auto simp: note_chunk_def hash_seen_def fs_read_def Let_def split: option.splits if_splits)
  with later show ?case by (fastforce simp: hash_seen_def)
qed simp

lemma drop_duplicates_keep: "d p = None \<Longrightarrow> snd (foldl (drop_duplicate E) (n, d) ps) p = None"
proof (induction ps arbitrary: n d)
  case (Cons q ps)
  have "fs_remove (me_io E) x d' = (r, d'') \<Longrightarrow> d' p = None \<Longrightarrow> d'' p = None" for x d' d'' r
    by (auto simp: fs_remove_def split: option.splits if_splits)
  then have "snd (drop_duplicate E (n, d) q) p = None" using Cons.prems
    by (auto simp: drop_duplicate_def split: prod.splits) (metis prod.collapse)
  with Cons.IH show ?case by (cases "drop_duplicate E (n, d) q") simp
qed simp

lemma drop_duplicates_removes:
  assumes "me_io E = no_faults" shows "p \<in> set ps \<Longrightarrow> snd (foldl (drop_duplicate E) (n, d) ps) p = None"
proof (induction ps arbitrary: n d)
  case (Cons q ps)
  obtain n1 d1 where q: "drop_duplicate E (n, d) q = (n1, d1)" by fastforce
  show ?case
  proof (cases "p = q")
    case True
    with q assms have "d1 p = None" by (auto simp: drop_duplicate_def fs_remove_def split: option.splits prod.splits if_splits)
    with q drop_duplicates_keep show ?thesis by simp
  next
    case False
    with Cons q show ?thesis by simp
  qed
qed simp

text \<open>
  Removing duplicates compares the data of chunks across downloads: when a chunk of one download has the content of a chunk listed
  before it, also one of another file, its files are deleted, and the download it belongs to cannot load it any more.
\<close>

theorem deduplication_loses_chunk:
  assumes "me_io E = no_faults" "p \<in> set before" "d p = Some data" "d (dat_path h i) = Some data"
  shows "read_chunk_files E h i (snd (deduplicate_chunks E (before @ dat_path h i # after) d)) = Err (''Chunk '' @ show_nat i @ '' not found on disk for file '' @ h)"
proof -
  let ?q = "dat_path h i"
  obtain seen dups where n: "foldl (note_chunk E d) (Map.empty, []) before = (seen, dups)" by fastforce
  then have "hash_seen E d seen p" using note_chunks [OF assms(1) n] assms(2) by blast
  with assms(3,4) assms(1) have "note_chunk E d (seen, dups) ?q = (seen, dups @ [?q])"
    by (auto simp: note_chunk_def hash_seen_def fs_read_def Let_def)
  moreover obtain seen' dups' where rest: "foldl (note_chunk E d) (seen, dups @ [?q]) after = (seen', dups')" by fastforce
  ultimately have "?q \<in> set (snd (foldl (note_chunk E d) (Map.empty, []) (before @ ?q # after)))"
    using n note_chunks [OF assms(1) rest] by simp
  then have "snd (deduplicate_chunks E (before @ ?q # after) d) ?q = None"
    unfolding deduplicate_chunks_def by (rule drop_duplicates_removes [OF assms(1)])
  then show ?thesis by (simp add: read_chunk_files_def chunk_exists_on_disk_def fs_exists_def)
qed

theorem deduplication_loses_chunk_witness:
  "read_chunk_files demo_env ''g'' 5 (snd (deduplicate_chunks demo_env [dat_path ''f'' 0, dat_path ''g'' 5]
      [dat_path ''f'' 0 \<mapsto> ''abcd'', dat_path ''g'' 5 \<mapsto> ''abcd''])) = Err (''Chunk '' @ show_nat 5 @ '' not found on disk for file g'')"
  using deduplication_loses_chunk [of demo_env "dat_path ''f'' 0" "[dat_path ''f'' 0]" "[dat_path ''f'' 0 \<mapsto> ''abcd'', dat_path ''g'' 5 \<mapsto> ''abcd'']" "''abcd''" "''g''" 5 "[]"]
  by (simp add: demo_env_def)

end
