(* ===== verification/TransferEvents.thy ===== *)
theory TransferEvents
  imports F64 Text
begin

text \<open>
  \<open>transfer_events.rs\<close>: the typed events of a transfer's life, the bus that hands them to the front end and the two
  functions that compute what they show.

  The application handle is what the bus emits on; emitting on a channel may fail, which the code logs and ignores. The bus is
  modelled by what its listeners have received: the channel and the event, in order. Timestamps are arguments.
\<close>

section \<open>Supporting types\<close>

datatype transfer_priority = TpLow | TpNormal | TpHigh

definition default_priority :: transfer_priority where
  "default_priority = TpNormal"

datatype event_source = StHttp | StFtp | StP2p | StBitTorrent | StWebRtc | StRelay

record source_info =
  sf_id :: string
  sf_source_type :: event_source
  sf_address :: string
  sf_reputation :: "f64 option"
  sf_estimated_speed_bps :: "f64 option"
  sf_latency_ms :: "u32 option"
  sf_location :: "string option"

record source_summary =
  su_source_id :: string
  su_source_type :: event_source
  su_chunks_provided :: u32
  su_bytes_provided :: u64
  su_average_speed_bps :: f64
  su_connection_duration_seconds :: u64

datatype disconnect_reason =
    DrNetworkError | DrTimeout | DrSourceUnavailable | DrProtocolError | DrUserCanceled | DrCompleted | DrRateLimited
  | DrOther string

datatype pause_reason =
    PrUserRequested | PrNetworkLost | PrDiskFull | PrNoSourcesAvailable | PrRateLimited | PrSystemSuspend | PrOther string

datatype error_category =
    EcNetwork | EcProtocol | EcFilesystem | EcVerification | EcAuthentication | EcNoSources | EcRateLimit | EcUnknown

section \<open>Events\<close>

record queued_event =
  qe_transfer_id :: string
  qe_file_hash :: string
  qe_file_name :: string
  qe_file_size :: u64
  qe_output_path :: string
  qe_priority :: transfer_priority
  qe_queued_at :: u64
  qe_queue_position :: usize
  qe_estimated_sources :: usize

record started_event =
  se_transfer_id :: string
  se_file_hash :: string
  se_file_name :: string
  se_file_size :: u64
  se_total_chunks :: u32
  se_chunk_size :: usize
  se_started_at :: u64
  se_available_sources :: "source_info list"
  se_selected_sources :: "string list"

record source_connected_event =
  sc_transfer_id :: string
  sc_source_id :: string
  sc_source_type :: event_source
  sc_source_info :: source_info
  sc_connected_at :: u64
  sc_assigned_chunks :: "u32 list"

record source_disconnected_event =
  sx_transfer_id :: string
  sx_source_id :: string
  sx_source_type :: event_source
  sx_disconnected_at :: u64
  sx_reason :: disconnect_reason
  sx_chunks_completed :: u32
  sx_will_retry :: bool

record chunk_completed_event =
  ce_transfer_id :: string
  ce_chunk_id :: u32
  ce_chunk_size :: usize
  ce_source_id :: string
  ce_source_type :: event_source
  ce_completed_at :: u64
  ce_download_duration_ms :: u64
  ce_verified :: bool

record chunk_failed_event =
  cq_transfer_id :: string
  cq_chunk_id :: u32
  cq_source_id :: string
  cq_source_type :: event_source
  cq_failed_at :: u64
  cq_error :: string
  cq_retry_count :: u32
  cq_will_retry :: bool
  cq_next_retry_at :: "u64 option"

record progress_event =
  pe_transfer_id :: string
  pe_downloaded_bytes :: u64
  pe_total_bytes :: u64
  pe_completed_chunks :: u32
  pe_total_chunks :: u32
  pe_progress_percentage :: f64
  pe_download_speed_bps :: f64
  pe_upload_speed_bps :: f64
  pe_eta_seconds :: "u32 option"
  pe_active_sources :: usize
  pe_timestamp :: u64

record paused_event =
  pz_transfer_id :: string
  pz_paused_at :: u64
  pz_reason :: pause_reason
  pz_can_resume :: bool
  pz_downloaded_bytes :: u64
  pz_total_bytes :: u64

record resumed_event =
  re_transfer_id :: string
  re_resumed_at :: u64
  re_downloaded_bytes :: u64
  re_remaining_bytes :: u64
  re_active_sources :: usize

record completed_event =
  co_transfer_id :: string
  co_file_hash :: string
  co_file_name :: string
  co_file_size :: u64
  co_output_path :: string
  co_completed_at :: u64
  co_duration_seconds :: u64
  co_average_speed_bps :: f64
  co_total_chunks :: u32
  co_sources_used :: "source_summary list"

record failed_event =
  fe_transfer_id :: string
  fe_file_hash :: string
  fe_failed_at :: u64
  fe_error :: string
  fe_error_category :: error_category
  fe_downloaded_bytes :: u64
  fe_total_bytes :: u64
  fe_retry_possible :: bool

record canceled_event =
  ca_transfer_id :: string
  ca_canceled_at :: u64
  ca_downloaded_bytes :: u64
  ca_total_bytes :: u64
  ca_keep_partial :: bool

record speed_update_event =
  sd_transfer_id :: string
  sd_download_speed_bps :: f64
  sd_upload_speed_bps :: f64
  sd_timestamp :: u64

datatype transfer_event =
    TeQueued queued_event
  | TeStarted started_event
  | TeSourceConnected source_connected_event
  | TeSourceDisconnected source_disconnected_event
  | TeChunkCompleted chunk_completed_event
  | TeChunkFailed chunk_failed_event
  | TeProgress progress_event
  | TePaused paused_event
  | TeResumed resumed_event
  | TeCompleted completed_event
  | TeFailed failed_event
  | TeCanceled canceled_event
  | TeSpeedUpdate speed_update_event

section \<open>The bus\<close>

fun transfer_event_type :: "transfer_event \<Rightarrow> string" where
  "transfer_event_type (TeQueued _) = ''queued''"
| "transfer_event_type (TeStarted _) = ''started''"
| "transfer_event_type (TeSourceConnected _) = ''source_connected''"
| "transfer_event_type (TeSourceDisconnected _) = ''source_disconnected''"
| "transfer_event_type (TeChunkCompleted _) = ''chunk_completed''"
| "transfer_event_type (TeChunkFailed _) = ''chunk_failed''"
| "transfer_event_type (TeProgress _) = ''progress''"
| "transfer_event_type (TePaused _) = ''paused''"
| "transfer_event_type (TeResumed _) = ''resumed''"
| "transfer_event_type (TeCompleted _) = ''completed''"
| "transfer_event_type (TeFailed _) = ''failed''"
| "transfer_event_type (TeCanceled _) = ''canceled''"
| "transfer_event_type (TeSpeedUpdate _) = ''speed_update''"

type_synonym event_log = "(string \<times> transfer_event) list"

text \<open>\<open>AppHandle::emit\<close> on one channel; \<open>fails\<close> says on which channels it fails.\<close>

definition emit_on :: "(string \<Rightarrow> bool) \<Rightarrow> string \<Rightarrow> transfer_event \<Rightarrow> event_log \<Rightarrow> event_log" where
  "emit_on fails ch e l = (if fails ch then l else l @ [(ch, e)])"

definition transfer_emit :: "(string \<Rightarrow> bool) \<Rightarrow> transfer_event \<Rightarrow> event_log \<Rightarrow> event_log" where
  "transfer_emit fails e l = emit_on fails ''transfer:event'' e (emit_on fails (''transfer:'' @ transfer_event_type e) e l)"

definition emit_queued :: "(string \<Rightarrow> bool) \<Rightarrow> queued_event \<Rightarrow> event_log \<Rightarrow> event_log" where
  "emit_queued fails e = transfer_emit fails (TeQueued e)"

definition emit_started :: "(string \<Rightarrow> bool) \<Rightarrow> started_event \<Rightarrow> event_log \<Rightarrow> event_log" where
  "emit_started fails e = transfer_emit fails (TeStarted e)"

definition emit_source_connected :: "(string \<Rightarrow> bool) \<Rightarrow> source_connected_event \<Rightarrow> event_log \<Rightarrow> event_log" where
  "emit_source_connected fails e = transfer_emit fails (TeSourceConnected e)"

definition emit_source_disconnected :: "(string \<Rightarrow> bool) \<Rightarrow> source_disconnected_event \<Rightarrow> event_log \<Rightarrow> event_log" where
  "emit_source_disconnected fails e = transfer_emit fails (TeSourceDisconnected e)"

definition emit_chunk_completed :: "(string \<Rightarrow> bool) \<Rightarrow> chunk_completed_event \<Rightarrow> event_log \<Rightarrow> event_log" where
  "emit_chunk_completed fails e = transfer_emit fails (TeChunkCompleted e)"

definition emit_chunk_failed :: "(string \<Rightarrow> bool) \<Rightarrow> chunk_failed_event \<Rightarrow> event_log \<Rightarrow> event_log" where
  "emit_chunk_failed fails e = transfer_emit fails (TeChunkFailed e)"

definition emit_progress :: "(string \<Rightarrow> bool) \<Rightarrow> progress_event \<Rightarrow> event_log \<Rightarrow> event_log" where
  "emit_progress fails e = transfer_emit fails (TeProgress e)"

definition emit_paused :: "(string \<Rightarrow> bool) \<Rightarrow> paused_event \<Rightarrow> event_log \<Rightarrow> event_log" where
  "emit_paused fails e = transfer_emit fails (TePaused e)"

definition emit_resumed :: "(string \<Rightarrow> bool) \<Rightarrow> resumed_event \<Rightarrow> event_log \<Rightarrow> event_log" where
  "emit_resumed fails e = transfer_emit fails (TeResumed e)"

definition emit_completed :: "(string \<Rightarrow> bool) \<Rightarrow> completed_event \<Rightarrow> event_log \<Rightarrow> event_log" where
  "emit_completed fails e = transfer_emit fails (TeCompleted e)"

definition emit_failed :: "(string \<Rightarrow> bool) \<Rightarrow> failed_event \<Rightarrow> event_log \<Rightarrow> event_log" where
  "emit_failed fails e = transfer_emit fails (TeFailed e)"

definition emit_canceled :: "(string \<Rightarrow> bool) \<Rightarrow> canceled_event \<Rightarrow> event_log \<Rightarrow> event_log" where
  "emit_canceled fails e = transfer_emit fails (TeCanceled e)"

definition emit_speed_update :: "(string \<Rightarrow> bool) \<Rightarrow> speed_update_event \<Rightarrow> event_log \<Rightarrow> event_log" where
  "emit_speed_update fails e = transfer_emit fails (TeSpeedUpdate e)"

lemmas emit_defs = emit_queued_def emit_started_def emit_source_connected_def emit_source_disconnected_def
  emit_chunk_completed_def emit_chunk_failed_def emit_progress_def emit_paused_def emit_resumed_def emit_completed_def
  emit_failed_def emit_canceled_def emit_speed_update_def

section \<open>What progress shows\<close>

definition calculate_progress :: "u64 \<Rightarrow> u64 \<Rightarrow> f64" where
  "calculate_progress downloaded total_bytes =
     (if total_bytes = 0 then F_Fin 0
      else f64_mul (f64_div (f64_of_u64 downloaded) (f64_of_u64 total_bytes)) (F_Fin 100))"

definition calculate_eta :: "u64 \<Rightarrow> f64 \<Rightarrow> u32 option" where
  "calculate_eta remaining speed =
     (if f64_le speed (F_Fin 0) \<or> remaining = 0 then None
      else Some (f64_to_u32 (f64_div (f64_of_u64 remaining) speed)))"

text \<open>
  Whatever channels fail, the listeners of one channel receive its events in the order in which they were emitted, and those
  of the generic channel receive every event.
\<close>

definition on_channel :: "string \<Rightarrow> event_log \<Rightarrow> transfer_event list" where
  "on_channel ch l = map snd (filter (\<lambda>x. fst x = ch) l)"

lemma event_type_not_event: "transfer_event_type e \<noteq> ''event''"
  by (cases e) auto

lemma generic_channel: "\<not> fails ''transfer:event'' \<Longrightarrow> on_channel ''transfer:event'' (transfer_emit fails e l) = on_channel ''transfer:event'' l @ [e]"
  using event_type_not_event [of e] by (auto simp: transfer_emit_def emit_on_def on_channel_def)

lemma generic_channel_all:
  assumes "\<not> fails ''transfer:event''"
  shows "on_channel ''transfer:event'' (fold (transfer_emit fails) es l) = on_channel ''transfer:event'' l @ es"
  using assms by (induction es arbitrary: l) (simp_all add: generic_channel)

lemma progress_in_percent:
  assumes "downloaded \<le> total_bytes" and "total_bytes < 2 ^ 64"
  shows "f64_in 0 100 (calculate_progress downloaded total_bytes)"
proof (cases "total_bytes = 0")
  case False
  then have "f64_in 0 1 (f64_div (f64_of_u64 downloaded) (f64_of_u64 total_bytes))"
    using assms by (intro f64_ratio) auto
  then have "f64_in 0 (1 * 100) (f64_mul (f64_div (f64_of_u64 downloaded) (f64_of_u64 total_bytes)) (F_Fin 100))"
    by (intro f64_mul_in) (simp_all add: f64_in_iff)
  with False show ?thesis by (simp add: calculate_progress_def)
qed (simp add: calculate_progress_def f64_in_iff)

end
