(* ===== verification/Analytics.thy ===== *)
theory Analytics
  imports TransferEvents Actions Interfaces
begin

text \<open>
  \<open>analytics.rs\<close>: counters, moving averages and histories of the transfers, fed by calls and by transfer events.

  Every part of the service's state has a \<open>tokio::sync::Mutex\<close> of its own. Taking such a mutex while it is taken waits, also
  when the same task has taken it, so a function that takes one twice never returns and keeps what it had taken. The state
  therefore has, beside the data, the set of mutexes that are taken; a function is an action that fails with \<open>Hangs l\<close> when it
  waits for a mutex \<open>l\<close> nobody will release, and the mutexes it had taken stay taken. Calls follow one another: a call returns
  or hangs before the next begins. Readings of the clock (seconds) and fresh identifiers are arguments.

  Theorems: the history is never recorded, because recording it takes the mutex of the counters a second time; from
  then on every call that counts bytes hangs; and what a series of transfer events adds to the counters.
\<close>

section \<open>State\<close>

record bandwidth_stats =
  bs_upload_bytes :: u64
  bs_download_bytes :: u64
  bs_last_updated :: u64

record bandwidth_data_point =
  bd_timestamp :: u64
  bd_upload_bytes :: u64
  bd_download_bytes :: u64
  bd_upload_rate_kbps :: f64
  bd_download_rate_kbps :: f64

record performance_metrics =
  pf_avg_download_speed_kbps :: f64
  pf_avg_upload_speed_kbps :: f64
  pf_peak_download_speed_kbps :: f64
  pf_peak_upload_speed_kbps :: f64
  pf_total_connections :: u64
  pf_successful_transfers :: u64
  pf_failed_transfers :: u64
  pf_avg_latency_ms :: f64

record network_activity =
  nt_active_uploads :: usize
  nt_active_downloads :: usize
  nt_queued_downloads :: usize
  nt_completed_uploads :: u64
  nt_completed_downloads :: u64
  nt_total_peers_connected :: usize
  nt_unique_peers_all_time :: u64

record resource_contribution =
  rc_storage_contributed_bytes :: u64
  rc_bandwidth_contributed_bytes :: u64
  rc_files_shared :: usize
  rc_total_seedtime_hours :: f64
  rc_reputation_score :: f64

record contribution_data_point =
  cd_timestamp :: u64
  cd_bandwidth_contributed :: u64
  cd_storage_contributed :: u64
  cd_files_seeded :: usize

record suspicious_alert =
  sa_id :: string
  sa_type :: string
  sa_description :: string
  sa_severity :: string
  sa_timestamp :: u64
  sa_details :: "string \<rightharpoonup> string"

definition MAX_HISTORY_SIZE :: usize where "MAX_HISTORY_SIZE = 1000"
definition HISTORY_INTERVAL_SECONDS :: u64 where "HISTORY_INTERVAL_SECONDS = 60"
definition MAX_ALERTS :: usize where "MAX_ALERTS = 100"
definition ALERT_RETENTION_SECONDS :: u64 where "ALERT_RETENTION_SECONDS = 86400"

text \<open>The mutexes, one for each field of the service.\<close>

datatype an_lock =
    LkBandwidthHistory | LkContributionHistory | LkBandwidth | LkPerformance | LkActivity | LkContribution | LkLastUpdate
  | LkPeers | LkAlerts

record analytics =
  an_bandwidth_history :: "bandwidth_data_point list"
  an_contribution_history :: "contribution_data_point list"
  an_bandwidth :: bandwidth_stats
  an_performance :: performance_metrics
  an_activity :: network_activity
  an_contribution :: resource_contribution
  an_last_update :: u64
  an_peers :: "string set"
  an_alerts :: "suspicious_alert list"
  an_held :: "an_lock set"

definition zero_performance :: performance_metrics where
  "zero_performance = \<lparr>pf_avg_download_speed_kbps = F_Fin 0, pf_avg_upload_speed_kbps = F_Fin 0,
     pf_peak_download_speed_kbps = F_Fin 0, pf_peak_upload_speed_kbps = F_Fin 0, pf_total_connections = 0,
     pf_successful_transfers = 0, pf_failed_transfers = 0, pf_avg_latency_ms = F_Fin 0\<rparr>"

definition new_analytics :: "u64 \<Rightarrow> analytics" where
  "new_analytics now = \<lparr>an_bandwidth_history = [], an_contribution_history = [],
     an_bandwidth = \<lparr>bs_upload_bytes = 0, bs_download_bytes = 0, bs_last_updated = now\<rparr>,
     an_performance = zero_performance,
     an_activity = \<lparr>nt_active_uploads = 0, nt_active_downloads = 0, nt_queued_downloads = 0, nt_completed_uploads = 0,
       nt_completed_downloads = 0, nt_total_peers_connected = 0, nt_unique_peers_all_time = 0\<rparr>,
     an_contribution = \<lparr>rc_storage_contributed_bytes = 0, rc_bandwidth_contributed_bytes = 0, rc_files_shared = 0,
       rc_total_seedtime_hours = F_Fin 0, rc_reputation_score = F_Fin 5\<rparr>,
     an_last_update = now, an_peers = {}, an_alerts = [], an_held = {}\<rparr>"

section \<open>Mutexes\<close>

datatype an_hang = Hangs an_lock

type_synonym 'a an_act = "(analytics, an_hang, 'a) act"

definition lock_m :: "an_lock \<Rightarrow> unit an_act" where
  "lock_m l s = (if l \<in> an_held s then (Err (Hangs l), s) else (Ok (), s\<lparr>an_held := insert l (an_held s)\<rparr>))"

definition unlock_m :: "an_lock \<Rightarrow> unit an_act" where
  "unlock_m l s = (Ok (), s\<lparr>an_held := an_held s - {l}\<rparr>)"

definition modify_m :: "(analytics \<Rightarrow> analytics) \<Rightarrow> unit an_act" where
  "modify_m f s = (Ok (), f s)"

definition read_m :: "(analytics \<Rightarrow> 'a) \<Rightarrow> 'a an_act" where
  "read_m f s = (Ok (f s), s)"

text \<open>The usual shape: one mutex, for one update or for one clone.\<close>

definition update_locked :: "an_lock \<Rightarrow> (analytics \<Rightarrow> analytics) \<Rightarrow> unit an_act" where
  "update_locked l f = and_do (lock_m l) (and_do (modify_m f) (unlock_m l))"

definition clone_locked :: "an_lock \<Rightarrow> (analytics \<Rightarrow> 'a) \<Rightarrow> 'a an_act" where
  "clone_locked l f = and_do (lock_m l) (and_then (read_m f) (\<lambda>x. and_do (unlock_m l) (ret x)))"

definition on_bandwidth :: "(bandwidth_stats \<Rightarrow> bandwidth_stats) \<Rightarrow> analytics \<Rightarrow> analytics" where
  "on_bandwidth f s = s\<lparr>an_bandwidth := f (an_bandwidth s)\<rparr>"

definition on_performance :: "(performance_metrics \<Rightarrow> performance_metrics) \<Rightarrow> analytics \<Rightarrow> analytics" where
  "on_performance f s = s\<lparr>an_performance := f (an_performance s)\<rparr>"

definition on_activity :: "(network_activity \<Rightarrow> network_activity) \<Rightarrow> analytics \<Rightarrow> analytics" where
  "on_activity f s = s\<lparr>an_activity := f (an_activity s)\<rparr>"

definition on_contribution :: "(resource_contribution \<Rightarrow> resource_contribution) \<Rightarrow> analytics \<Rightarrow> analytics" where
  "on_contribution f s = s\<lparr>an_contribution := f (an_contribution s)\<rparr>"

section \<open>History\<close>

text \<open>Keep at most \<open>n\<close> entries, dropping one from the front.\<close>

definition push_limited :: "nat \<Rightarrow> 'a \<Rightarrow> 'a list \<Rightarrow> 'a list" where
  "push_limited n x xs = (let ys = xs @ [x] in if length ys > n then tl ys else ys)"

definition rate_kbps :: "u64 \<Rightarrow> u64 \<Rightarrow> f64 \<Rightarrow> f64" where
  "rate_kbps total_bytes before time_diff =
     f64_div (f64_mul (f64_of_u64 (sat_sub total_bytes before)) (F_Fin 8)) (f64_mul time_diff (F_Fin 1000))"

definition data_point :: "u64 \<Rightarrow> bandwidth_stats \<Rightarrow> bandwidth_data_point list \<Rightarrow> bandwidth_data_point" where
  "data_point now bw hist =
     (let rates = (if hist = [] then (F_Fin 0, F_Fin 0)
        else let p = last hist; dt = f64_of_u64 (wsub64 now (bd_timestamp p)) in
          (rate_kbps (bs_upload_bytes bw) (bd_upload_bytes p) dt, rate_kbps (bs_download_bytes bw) (bd_download_bytes p) dt))
      in \<lparr>bd_timestamp = now, bd_upload_bytes = bs_upload_bytes bw, bd_download_bytes = bs_download_bytes bw,
          bd_upload_rate_kbps = fst rates, bd_download_rate_kbps = snd rates\<rparr>)"

definition maybe_record_history :: "u64 \<Rightarrow> unit an_act" where
  "maybe_record_history now =
     and_do (lock_m LkLastUpdate) (and_then (read_m an_last_update) (\<lambda>last_update.
       if wsub64 now last_update \<ge> HISTORY_INTERVAL_SECONDS
       then and_do (modify_m (\<lambda>s. s\<lparr>an_last_update := now\<rparr>)) (and_do (unlock_m LkLastUpdate)
         (and_then (clone_locked LkBandwidth an_bandwidth) (\<lambda>bw.
          and_then (clone_locked LkContribution an_contribution) (\<lambda>co.
          and_do (update_locked LkBandwidthHistory (\<lambda>s. s\<lparr>an_bandwidth_history :=
              push_limited MAX_HISTORY_SIZE (data_point now bw (an_bandwidth_history s)) (an_bandwidth_history s)\<rparr>))
            (update_locked LkContributionHistory (\<lambda>s. s\<lparr>an_contribution_history :=
              push_limited MAX_HISTORY_SIZE
                \<lparr>cd_timestamp = now, cd_bandwidth_contributed = rc_bandwidth_contributed_bytes co,
                  cd_storage_contributed = rc_storage_contributed_bytes co, cd_files_seeded = rc_files_shared co\<rparr>
                (an_contribution_history s)\<rparr>))))))
       else unlock_m LkLastUpdate))"

section \<open>Recording\<close>

text \<open>The guards of the counters live to the end of both functions, the call of \<open>maybe_record_history\<close> included.\<close>

definition record_upload :: "u64 \<Rightarrow> u64 \<Rightarrow> u64 \<Rightarrow> unit an_act" where
  "record_upload now now' bytes =
     and_do (lock_m LkBandwidth) (and_do (modify_m (on_bandwidth (\<lambda>b. b\<lparr>bs_upload_bytes := wadd64 (bs_upload_bytes b) bytes,
         bs_last_updated := now\<rparr>)))
      (and_do (lock_m LkContribution) (and_do (modify_m (on_contribution (\<lambda>c.
           c\<lparr>rc_bandwidth_contributed_bytes := wadd64 (rc_bandwidth_contributed_bytes c) bytes\<rparr>)))
      (and_do (maybe_record_history now') (and_do (unlock_m LkContribution) (unlock_m LkBandwidth))))))"

definition record_download :: "u64 \<Rightarrow> u64 \<Rightarrow> u64 \<Rightarrow> unit an_act" where
  "record_download now now' bytes =
     and_do (lock_m LkBandwidth) (and_do (modify_m (on_bandwidth (\<lambda>b. b\<lparr>bs_download_bytes := wadd64 (bs_download_bytes b) bytes,
         bs_last_updated := now\<rparr>)))
      (and_do (maybe_record_history now') (unlock_m LkBandwidth)))"

text \<open>A moving average starts with the first value that is not preceded by zero.\<close>

definition moving_avg :: "f64 \<Rightarrow> f64 \<Rightarrow> f64 \<Rightarrow> f64 \<Rightarrow> f64" where
  "moving_avg w_old w_new old v = (if f64_eq old (F_Fin 0) then v else f64_add (f64_mul old w_old) (f64_mul v w_new))"

definition record_transfer :: "u64 \<Rightarrow> u64 \<Rightarrow> bool \<Rightarrow> bool \<Rightarrow> unit an_act" where
  "record_transfer bytes duration_ms is_upload success =
     (if duration_ms = 0 then ret ()
      else let speed = f64_div (f64_of_u64 (wmul64 bytes 8)) (f64_of_u64 duration_ms) in
        update_locked LkPerformance (on_performance (\<lambda>p.
          let p1 = p\<lparr>pf_total_connections := wadd64 (pf_total_connections p) 1\<rparr> in
          if success then
            let p2 = p1\<lparr>pf_successful_transfers := wadd64 (pf_successful_transfers p1) 1\<rparr> in
            if is_upload
            then p2\<lparr>pf_avg_upload_speed_kbps := moving_avg (f64_of_rat (8/10)) (f64_of_rat (2/10)) (pf_avg_upload_speed_kbps p2) speed,
                    pf_peak_upload_speed_kbps := f64_max (pf_peak_upload_speed_kbps p2) speed\<rparr>
            else p2\<lparr>pf_avg_download_speed_kbps := moving_avg (f64_of_rat (8/10)) (f64_of_rat (2/10)) (pf_avg_download_speed_kbps p2) speed,
                    pf_peak_download_speed_kbps := f64_max (pf_peak_download_speed_kbps p2) speed\<rparr>
          else p1\<lparr>pf_failed_transfers := wadd64 (pf_failed_transfers p1) 1\<rparr>)))"

definition record_latency :: "f64 \<Rightarrow> unit an_act" where
  "record_latency ms = update_locked LkPerformance (on_performance (\<lambda>p.
     p\<lparr>pf_avg_latency_ms := moving_avg (f64_of_rat (9/10)) (f64_of_rat (1/10)) (pf_avg_latency_ms p) ms\<rparr>))"

definition update_network_activity :: "usize \<Rightarrow> usize \<Rightarrow> usize \<Rightarrow> unit an_act" where
  "update_network_activity ups downs queued = update_locked LkActivity (on_activity (\<lambda>a.
     a\<lparr>nt_active_uploads := ups, nt_active_downloads := downs, nt_queued_downloads := queued\<rparr>))"

definition record_upload_completed :: "unit an_act" where
  "record_upload_completed = update_locked LkActivity (on_activity (\<lambda>a. a\<lparr>nt_completed_uploads := wadd64 (nt_completed_uploads a) 1\<rparr>))"

definition record_download_completed :: "unit an_act" where
  "record_download_completed =
     update_locked LkActivity (on_activity (\<lambda>a. a\<lparr>nt_completed_downloads := wadd64 (nt_completed_downloads a) 1\<rparr>))"

definition increment_active_downloads :: "unit an_act" where
  "increment_active_downloads =
     update_locked LkActivity (on_activity (\<lambda>a. a\<lparr>nt_active_downloads := wadd64 (nt_active_downloads a) 1\<rparr>))"

definition decrement_active_downloads :: "unit an_act" where
  "decrement_active_downloads =
     update_locked LkActivity (on_activity (\<lambda>a. a\<lparr>nt_active_downloads := sat_sub (nt_active_downloads a) 1\<rparr>))"

definition increment_active_uploads :: "unit an_act" where
  "increment_active_uploads =
     update_locked LkActivity (on_activity (\<lambda>a. a\<lparr>nt_active_uploads := wadd64 (nt_active_uploads a) 1\<rparr>))"

definition decrement_active_uploads :: "unit an_act" where
  "decrement_active_uploads =
     update_locked LkActivity (on_activity (\<lambda>a. a\<lparr>nt_active_uploads := sat_sub (nt_active_uploads a) 1\<rparr>))"

definition increment_queued_downloads :: "unit an_act" where
  "increment_queued_downloads =
     update_locked LkActivity (on_activity (\<lambda>a. a\<lparr>nt_queued_downloads := wadd64 (nt_queued_downloads a) 1\<rparr>))"

definition decrement_queued_downloads :: "unit an_act" where
  "decrement_queued_downloads =
     update_locked LkActivity (on_activity (\<lambda>a. a\<lparr>nt_queued_downloads := sat_sub (nt_queued_downloads a) 1\<rparr>))"

definition record_peer_connected :: "string \<Rightarrow> unit an_act" where
  "record_peer_connected peer =
     and_do (lock_m LkPeers) (and_then (read_m (\<lambda>s. peer \<notin> an_peers s)) (\<lambda>is_new.
       and_do (modify_m (\<lambda>s. s\<lparr>an_peers := insert peer (an_peers s)\<rparr>))
        (and_do (lock_m LkActivity) (and_do (modify_m (\<lambda>s. on_activity (\<lambda>a.
            a\<lparr>nt_total_peers_connected := card (an_peers s),
              nt_unique_peers_all_time := (if is_new then wadd64 (nt_unique_peers_all_time a) 1 else nt_unique_peers_all_time a)\<rparr>) s))
        (and_do (unlock_m LkActivity) (unlock_m LkPeers))))))"

definition update_storage_contribution :: "u64 \<Rightarrow> usize \<Rightarrow> unit an_act" where
  "update_storage_contribution bytes files = update_locked LkContribution (on_contribution (\<lambda>c.
     c\<lparr>rc_storage_contributed_bytes := bytes, rc_files_shared := files\<rparr>))"

definition add_seedtime_hours :: "f64 \<Rightarrow> unit an_act" where
  "add_seedtime_hours h = update_locked LkContribution (on_contribution (\<lambda>c.
     c\<lparr>rc_total_seedtime_hours := f64_add (rc_total_seedtime_hours c) h\<rparr>))"

section \<open>Reading and resetting\<close>

definition get_bandwidth_stats :: "bandwidth_stats an_act" where
  "get_bandwidth_stats = clone_locked LkBandwidth an_bandwidth"

text \<open>The newest entries first.\<close>

definition newest :: "usize option \<Rightarrow> 'a list \<Rightarrow> 'a list" where
  "newest limit xs = take (case limit of Some n \<Rightarrow> n | None \<Rightarrow> MAX_HISTORY_SIZE) (rev xs)"

definition get_bandwidth_history :: "usize option \<Rightarrow> bandwidth_data_point list an_act" where
  "get_bandwidth_history limit = clone_locked LkBandwidthHistory (\<lambda>s. newest limit (an_bandwidth_history s))"

definition get_performance_metrics :: "performance_metrics an_act" where
  "get_performance_metrics = clone_locked LkPerformance an_performance"

definition get_network_activity :: "network_activity an_act" where
  "get_network_activity = clone_locked LkActivity an_activity"

definition get_resource_contribution :: "resource_contribution an_act" where
  "get_resource_contribution = clone_locked LkContribution an_contribution"

definition get_contribution_history :: "usize option \<Rightarrow> contribution_data_point list an_act" where
  "get_contribution_history limit = clone_locked LkContributionHistory (\<lambda>s. newest limit (an_contribution_history s))"

definition reset_stats :: "u64 \<Rightarrow> unit an_act" where
  "reset_stats now =
     and_do (update_locked LkBandwidth (\<lambda>s. s\<lparr>an_bandwidth := \<lparr>bs_upload_bytes = 0, bs_download_bytes = 0, bs_last_updated = now\<rparr>\<rparr>))
      (and_do (update_locked LkPerformance (\<lambda>s. s\<lparr>an_performance := zero_performance\<rparr>))
       (and_do (update_locked LkBandwidthHistory (\<lambda>s. s\<lparr>an_bandwidth_history := []\<rparr>))
         (update_locked LkContributionHistory (\<lambda>s. s\<lparr>an_contribution_history := []\<rparr>))))"

section \<open>Transfer events\<close>

definition kbps_of :: "f64 \<Rightarrow> f64" where
  "kbps_of bps = f64_div bps (F_Fin 1000)"

definition raise_peaks :: "f64 \<Rightarrow> f64 \<Rightarrow> performance_metrics \<Rightarrow> performance_metrics" where
  "raise_peaks down up p = p\<lparr>pf_peak_download_speed_kbps := f64_max (pf_peak_download_speed_kbps p) down,
     pf_peak_upload_speed_kbps := f64_max (pf_peak_upload_speed_kbps p) up\<rparr>"

definition handle_progress_event :: "u64 \<Rightarrow> u64 \<Rightarrow> progress_event \<Rightarrow> unit an_act" where
  "handle_progress_event now now' e =
     and_do (record_download now now' (pe_downloaded_bytes e))
       (let down = kbps_of (pe_download_speed_bps e); up = kbps_of (pe_upload_speed_bps e) in
        update_locked LkPerformance (on_performance (\<lambda>p. raise_peaks down up
          (p\<lparr>pf_avg_download_speed_kbps := moving_avg (f64_of_rat (9/10)) (f64_of_rat (1/10)) (pf_avg_download_speed_kbps p) down,
             pf_avg_upload_speed_kbps := moving_avg (f64_of_rat (9/10)) (f64_of_rat (1/10)) (pf_avg_upload_speed_kbps p) up\<rparr>))))"

definition handle_completed_event :: "completed_event \<Rightarrow> unit an_act" where
  "handle_completed_event e =
     and_do record_download_completed
      (and_do (update_locked LkPerformance (on_performance (\<lambda>p.
          let p1 = p\<lparr>pf_successful_transfers := wadd64 (pf_successful_transfers p) 1\<rparr>;
              speed = kbps_of (co_average_speed_bps e) in
          if f64_lt (F_Fin 0) speed
          then p1\<lparr>pf_avg_download_speed_kbps := moving_avg (f64_of_rat (8/10)) (f64_of_rat (2/10)) (pf_avg_download_speed_kbps p1) speed,
                  pf_peak_download_speed_kbps := f64_max (pf_peak_download_speed_kbps p1) speed\<rparr>
          else p1)))
       (update_locked LkActivity (on_activity (\<lambda>a.
          a\<lparr>nt_active_downloads := sat_sub (nt_active_downloads a) 1,
            nt_completed_downloads := wadd64 (nt_completed_downloads a) 1\<rparr>))))"

definition handle_failed_event :: "failed_event \<Rightarrow> unit an_act" where
  "handle_failed_event e =
     and_do (update_locked LkPerformance (on_performance (\<lambda>p. p\<lparr>pf_failed_transfers := wadd64 (pf_failed_transfers p) 1\<rparr>)))
       (update_locked LkActivity (on_activity (\<lambda>a. a\<lparr>nt_active_downloads := sat_sub (nt_active_downloads a) 1\<rparr>)))"

fun handle_transfer_event :: "u64 \<Rightarrow> u64 \<Rightarrow> transfer_event \<Rightarrow> unit an_act" where
  "handle_transfer_event now now' (TeProgress e) = handle_progress_event now now' e"
| "handle_transfer_event now now' (TeCompleted e) = handle_completed_event e"
| "handle_transfer_event now now' (TeFailed e) = handle_failed_event e"
| "handle_transfer_event now now' (TeStarted e) = update_locked LkActivity (on_activity (\<lambda>a.
     a\<lparr>nt_active_downloads := wadd64 (nt_active_downloads a) 1, nt_queued_downloads := sat_sub (nt_queued_downloads a) 1\<rparr>))"
| "handle_transfer_event now now' (TePaused e) =
     update_locked LkActivity (on_activity (\<lambda>a. a\<lparr>nt_active_downloads := sat_sub (nt_active_downloads a) 1\<rparr>))"
| "handle_transfer_event now now' (TeResumed e) =
     update_locked LkActivity (on_activity (\<lambda>a. a\<lparr>nt_active_downloads := wadd64 (nt_active_downloads a) 1\<rparr>))"
| "handle_transfer_event now now' (TeCanceled e) =
     update_locked LkActivity (on_activity (\<lambda>a. a\<lparr>nt_active_downloads := sat_sub (nt_active_downloads a) 1\<rparr>))"
| "handle_transfer_event now now' (TeQueued e) =
     update_locked LkActivity (on_activity (\<lambda>a. a\<lparr>nt_queued_downloads := wadd64 (nt_queued_downloads a) 1\<rparr>))"
| "handle_transfer_event now now' (TeSourceConnected e) = record_peer_connected (sc_source_id e)"
| "handle_transfer_event now now' (TeSpeedUpdate e) =
     update_locked LkPerformance (on_performance (raise_peaks (kbps_of (sd_download_speed_bps e)) (kbps_of (sd_upload_speed_bps e))))"
| "handle_transfer_event now now' (TeSourceDisconnected e) = ret ()"
| "handle_transfer_event now now' (TeChunkCompleted e) = ret ()"
| "handle_transfer_event now now' (TeChunkFailed e) = ret ()"

text \<open>\<open>TransferEventBus::emit_with_analytics\<close>: the front end first, then the counters.\<close>

definition emit_with_analytics ::
    "(string \<Rightarrow> bool) \<Rightarrow> u64 \<Rightarrow> u64 \<Rightarrow> transfer_event \<Rightarrow> event_log \<times> analytics \<Rightarrow> (an_hang, unit) result \<times> event_log \<times> analytics" where
  "emit_with_analytics fails now now' e s =
     (case handle_transfer_event now now' e (snd s) of (r, a) \<Rightarrow> (r, transfer_emit fails e (fst s), a))"

section \<open>Alerts\<close>

text \<open>Expired alerts are dropped from the front while the oldest has expired.\<close>

definition get_suspicious_alerts :: "u64 \<Rightarrow> suspicious_alert list an_act" where
  "get_suspicious_alerts now =
     and_do (lock_m LkAlerts)
      (and_do (modify_m (\<lambda>s. s\<lparr>an_alerts := dropWhile (\<lambda>a. sat_sub now (sa_timestamp a) > ALERT_RETENTION_SECONDS) (an_alerts s)\<rparr>))
       (and_then (read_m an_alerts) (\<lambda>x. and_do (unlock_m LkAlerts) (ret x))))"

definition add_suspicious_alert ::
    "string \<Rightarrow> u64 \<Rightarrow> string \<Rightarrow> string \<Rightarrow> string \<Rightarrow> (string \<rightharpoonup> string) \<Rightarrow> unit an_act" where
  "add_suspicious_alert uuid now ty descr severity details =
     update_locked LkAlerts (\<lambda>s. let xs = an_alerts s @ [\<lparr>sa_id = uuid, sa_type = ty, sa_description = descr, sa_severity = severity,
         sa_timestamp = now, sa_details = details\<rparr>] in s\<lparr>an_alerts := drop (length xs - MAX_ALERTS) xs\<rparr>)"

text \<open>\<open>{:.2}\<close> of a number that is not negative: the nearest multiple of a hundredth, the even one of two.\<close>

definition two_digits :: "nat \<Rightarrow> string" where
  "two_digits n = (if n < 10 then ''0'' @ show_nat n else show_nat n)"

fun fmt_2 :: "f64 \<Rightarrow> string" where
  "fmt_2 (F_Fin r) = (let n = nat (rhe (100 * r)) in show_nat (n div 100) @ ''.'' @ two_digits (n mod 100))"
| "fmt_2 (F_Inf neg) = (if neg then ''-inf'' else ''inf'')"
| "fmt_2 F_NaN = ''NaN''"

definition failure_rate_alert :: "string \<Rightarrow> u64 \<Rightarrow> performance_metrics \<Rightarrow> unit an_act" where
  "failure_rate_alert uuid now p =
     (if pf_total_connections p > 0
      then let rate = f64_div (f64_of_u64 (pf_failed_transfers p)) (f64_of_u64 (pf_total_connections p));
               txt = fmt_2 (f64_mul rate (F_Fin 100)) @ ''%'' in
        if f64_lt (F_Fin (1/2)) rate
        then add_suspicious_alert uuid now ''High Failure Rate'' (''Transfer failure rate is '' @ txt @ '' (expected < 50%)'') ''medium''
               [''failureRate'' \<mapsto> txt, ''totalConnections'' \<mapsto> show_nat (pf_total_connections p),
                ''failedTransfers'' \<mapsto> show_nat (pf_failed_transfers p)]
        else ret ()
      else ret ())"

definition concurrency_alert :: "string \<Rightarrow> u64 \<Rightarrow> network_activity \<Rightarrow> unit an_act" where
  "concurrency_alert uuid now a =
     (let n = wadd64 (nt_active_uploads a) (nt_active_downloads a) in
      if n > 20
      then add_suspicious_alert uuid now ''High Concurrent Activity'' (''Detected '' @ show_nat n @ '' concurrent transfers'') ''low''
             [''activeUploads'' \<mapsto> show_nat (nt_active_uploads a), ''activeDownloads'' \<mapsto> show_nat (nt_active_downloads a)]
      else ret ())"

definition volume_alert :: "string \<Rightarrow> u64 \<Rightarrow> bandwidth_stats \<Rightarrow> unit an_act" where
  "volume_alert uuid now b =
     (if bs_upload_bytes b > 10000000000 \<or> bs_download_bytes b > 10000000000
      then add_suspicious_alert uuid now ''Unusual Upload Volume'' ''File > 1GB uploaded unusually fast'' ''high''
             [''uploadBytes'' \<mapsto> show_nat (bs_upload_bytes b), ''downloadBytes'' \<mapsto> show_nat (bs_download_bytes b)]
      else ret ())"

text \<open>The three guards live to the end.\<close>

definition check_suspicious_patterns :: "string \<Rightarrow> string \<Rightarrow> string \<Rightarrow> u64 \<Rightarrow> unit an_act" where
  "check_suspicious_patterns u1 u2 u3 now =
     and_do (lock_m LkPerformance) (and_do (lock_m LkBandwidth) (and_do (lock_m LkActivity)
      (and_then (read_m an_performance) (\<lambda>p. and_then (read_m an_bandwidth) (\<lambda>b. and_then (read_m an_activity) (\<lambda>a.
        and_do (failure_rate_alert u1 now p) (and_do (concurrency_alert u2 now a) (and_do (volume_alert u3 now b)
         (and_do (unlock_m LkActivity) (and_do (unlock_m LkBandwidth) (unlock_m LkPerformance)))))))))))"

section \<open>The service as a machine\<close>

text \<open>Any public function may be called next; its effect is the state it leaves, also when it hangs.\<close>

inductive an_step :: "analytics \<Rightarrow> analytics \<Rightarrow> bool" where
  an_upload: "an_step s (snd (record_upload now now' b s))"
| an_download: "an_step s (snd (record_download now now' b s))"
| an_transfer: "an_step s (snd (record_transfer b ms up ok s))"
| an_latency: "an_step s (snd (record_latency x s))"
| an_network: "an_step s (snd (update_network_activity n m k s))"
| an_upload_done: "an_step s (snd (record_upload_completed s))"
| an_download_done: "an_step s (snd (record_download_completed s))"
| an_inc_down: "an_step s (snd (increment_active_downloads s))"
| an_dec_down: "an_step s (snd (decrement_active_downloads s))"
| an_inc_up: "an_step s (snd (increment_active_uploads s))"
| an_dec_up: "an_step s (snd (decrement_active_uploads s))"
| an_inc_queued: "an_step s (snd (increment_queued_downloads s))"
| an_dec_queued: "an_step s (snd (decrement_queued_downloads s))"
| an_peer: "an_step s (snd (record_peer_connected p s))"
| an_storage: "an_step s (snd (update_storage_contribution b k s))"
| an_seedtime: "an_step s (snd (add_seedtime_hours x s))"
| an_get_stats: "an_step s (snd (get_bandwidth_stats s))"
| an_get_history: "an_step s (snd (get_bandwidth_history lm s))"
| an_get_performance: "an_step s (snd (get_performance_metrics s))"
| an_get_activity: "an_step s (snd (get_network_activity s))"
| an_get_contribution: "an_step s (snd (get_resource_contribution s))"
| an_get_contributions: "an_step s (snd (get_contribution_history lm s))"
| an_reset: "an_step s (snd (reset_stats now s))"
| an_event: "an_step s (snd (handle_transfer_event now now' e s))"
| an_get_alerts: "an_step s (snd (get_suspicious_alerts now s))"
| an_add_alert: "an_step s (snd (add_suspicious_alert u now ty d sev det s))"
| an_check: "an_step s (snd (check_suspicious_patterns u1 u2 u3 now s))"

definition no_history :: "analytics \<Rightarrow> bool" where
  "no_history s \<longleftrightarrow> an_bandwidth_history s = [] \<and> an_contribution_history s = []"

text \<open>
  What every function keeps: a mutex that was taken before the call is still taken after it, and the histories stay empty.
\<close>

definition calm :: "'a an_act \<Rightarrow> bool" where
  "calm m \<longleftrightarrow> (\<forall>s. an_held s \<subseteq> an_held (snd (m s)) \<and> (no_history s \<longrightarrow> no_history (snd (m s))))"

definition calm_update :: "(analytics \<Rightarrow> analytics) \<Rightarrow> bool" where
  "calm_update f \<longleftrightarrow> (\<forall>s. an_held (f s) = an_held s \<and> (no_history s \<longrightarrow> no_history (f s)))"

lemma lock_simps [simp]:
  "l \<notin> an_held s \<Longrightarrow> lock_m l s = (Inr (), s\<lparr>an_held := insert l (an_held s)\<rparr>)"
  "l \<in> an_held s \<Longrightarrow> lock_m l s = (Inl (Hangs l), s)"
  "unlock_m l s = (Inr (), s\<lparr>an_held := an_held s - {l}\<rparr>)"
  "modify_m f s = (Inr (), f s)" "read_m g s = (Inr (g s), s)"
  by (simp_all add: lock_m_def unlock_m_def modify_m_def read_m_def)

lemma on_held [simp]:
  "an_held (on_bandwidth f s) = an_held s" "an_held (on_performance g s) = an_held s"
  "an_held (on_activity h s) = an_held s" "an_held (on_contribution k s) = an_held s"
  by (simp_all add: on_bandwidth_def on_performance_def on_activity_def on_contribution_def)

lemma calm_on [simp]:
  "calm_update (on_bandwidth f)" "calm_update (on_performance g)" "calm_update (on_activity h)" "calm_update (on_contribution k)"
  by (simp_all add: calm_update_def no_history_def on_bandwidth_def on_performance_def on_activity_def on_contribution_def)

lemma update_locked_free:
  assumes "l \<notin> an_held s" "an_held (f (s\<lparr>an_held := insert l (an_held s)\<rparr>)) = insert l (an_held s)"
  shows "update_locked l f s = (Inr (), (f (s\<lparr>an_held := insert l (an_held s)\<rparr>))\<lparr>an_held := an_held s\<rparr>)"
  using assms by (simp add: update_locked_def and_then_def)

lemma update_locked_taken: "l \<in> an_held s \<Longrightarrow> update_locked l f s = (Inl (Hangs l), s)"
  by (simp add: update_locked_def and_then_def)

lemma calm_update_locked [simp]: "calm_update f \<Longrightarrow> calm (update_locked l f)"
proof -
  assume f: "calm_update f"
  have "an_held s \<subseteq> an_held (snd (update_locked l f s)) \<and> (no_history s \<longrightarrow> no_history (snd (update_locked l f s)))" for s
  proof (cases "l \<in> an_held s")
    case True
    then show ?thesis by (simp add: update_locked_taken)
  next
    case False
    with f show ?thesis by (auto simp: update_locked_free calm_update_def no_history_def)
  qed
  then show ?thesis by (simp add: calm_def)
qed

lemma clone_locked_free: "l \<notin> an_held s \<Longrightarrow> clone_locked l g s = (Inr (g (s\<lparr>an_held := insert l (an_held s)\<rparr>)), s)"
  by (simp add: clone_locked_def and_then_def)

lemma clone_locked_taken: "l \<in> an_held s \<Longrightarrow> clone_locked l g s = (Inl (Hangs l), s)"
  by (simp add: clone_locked_def and_then_def)

lemma calm_clone_locked [simp]: "calm (clone_locked l g)"
  unfolding calm_def
proof
  fix s
  show "an_held s \<subseteq> an_held (snd (clone_locked l g s)) \<and> (no_history s \<longrightarrow> no_history (snd (clone_locked l g s)))"
    by (cases "l \<in> an_held s") (simp_all add: clone_locked_free clone_locked_taken)
qed

lemma calm_ret [simp]: "calm (ret x)"
  by (simp add: calm_def)

lemma calmD: "calm m \<Longrightarrow> m s = (r, t) \<Longrightarrow> an_held s \<subseteq> an_held t \<and> (no_history s \<longrightarrow> no_history t)"
  unfolding calm_def by (metis snd_conv)

lemma calm_then:
  assumes "calm m" "\<And>x. calm (f x)"
  shows "calm (and_then m f)"
  unfolding calm_def
proof
  fix s
  obtain r t where m: "m s = (r, t)" by (cases "m s")
  note mt = calmD [OF assms(1) m]
  show "an_held s \<subseteq> an_held (snd (and_then m f s)) \<and> (no_history s \<longrightarrow> no_history (snd (and_then m f s)))"
  proof (cases r)
    case (Inl e)
    with m mt show ?thesis by (simp add: and_then_def)
  next
    case (Inr x)
    have "an_held t \<subseteq> an_held (snd (f x t)) \<and> (no_history t \<longrightarrow> no_history (snd (f x t)))"
      using assms(2) [of x] by (simp add: calm_def)
    with Inr m mt show ?thesis by (auto simp: and_then_def)
  qed
qed

text \<open>Recording the history while the counters are taken: the interval has not passed, or the call hangs.\<close>

lemma history_under_lock:
  assumes "LkBandwidth \<in> an_held s" "LkLastUpdate \<notin> an_held s"
  shows "maybe_record_history now s =
     (if HISTORY_INTERVAL_SECONDS \<le> wsub64 now (an_last_update s)
      then (Inl (Hangs LkBandwidth), s\<lparr>an_last_update := now\<rparr>) else (Inr (), s))"
  using assms by (simp add: maybe_record_history_def and_then_def clone_locked_taken)

lemma history_hangs: "LkLastUpdate \<in> an_held s \<Longrightarrow> maybe_record_history now s = (Inl (Hangs LkLastUpdate), s)"
  by (simp add: maybe_record_history_def and_then_def)

lemmas history_simps = history_under_lock history_hangs

lemma calm_record: "calm (record_upload now now' b)" "calm (record_download now now' b)"
proof -
  have "an_held s \<subseteq> an_held (snd (record_upload now now' b s)) \<and> (no_history s \<longrightarrow> no_history (snd (record_upload now now' b s)))" for s
    by (cases "LkBandwidth \<in> an_held s"; cases "LkContribution \<in> an_held s"; cases "LkLastUpdate \<in> an_held s")
      (auto simp: record_upload_def and_then_def history_simps no_history_def on_bandwidth_def on_contribution_def)
  then show "calm (record_upload now now' b)" by (simp add: calm_def)
  have "an_held s \<subseteq> an_held (snd (record_download now now' b s)) \<and> (no_history s \<longrightarrow> no_history (snd (record_download now now' b s)))" for s
    by (cases "LkBandwidth \<in> an_held s"; cases "LkLastUpdate \<in> an_held s")
      (auto simp: record_download_def and_then_def history_simps no_history_def on_bandwidth_def)
  then show "calm (record_download now now' b)" by (simp add: calm_def)
qed

lemma calm_peer: "calm (record_peer_connected p)"
proof -
  have "an_held s \<subseteq> an_held (snd (record_peer_connected p s)) \<and> (no_history s \<longrightarrow> no_history (snd (record_peer_connected p s)))" for s
    by (cases "LkPeers \<in> an_held s"; cases "LkActivity \<in> an_held s")
      (auto simp: record_peer_connected_def and_then_def no_history_def on_activity_def)
  then show ?thesis by (simp add: calm_def)
qed

lemma calm_alerts: "calm (add_suspicious_alert u now ty d sev det)" "calm (get_suspicious_alerts now)"
proof -
  show "calm (add_suspicious_alert u now ty d sev det)"
    unfolding add_suspicious_alert_def by (intro calm_update_locked) (simp add: calm_update_def no_history_def Let_def)
  have "an_held s \<subseteq> an_held (snd (get_suspicious_alerts now s)) \<and> (no_history s \<longrightarrow> no_history (snd (get_suspicious_alerts now s)))" for s
    by (cases "LkAlerts \<in> an_held s") (auto simp: get_suspicious_alerts_def and_then_def no_history_def)
  then show "calm (get_suspicious_alerts now)" by (simp add: calm_def)
qed

text \<open>Alerts are added while three mutexes are taken, which stay taken; the alerts' own is not among them.\<close>

definition level :: "unit an_act \<Rightarrow> bool" where
  "level m \<longleftrightarrow> (\<forall>s. an_held (snd (m s)) = an_held s \<and> (no_history s \<longrightarrow> no_history (snd (m s))))"

lemma level_alert: "level (add_suspicious_alert u now ty d sev det)"
  unfolding level_def
proof
  fix s
  show "an_held (snd (add_suspicious_alert u now ty d sev det s)) = an_held s
      \<and> (no_history s \<longrightarrow> no_history (snd (add_suspicious_alert u now ty d sev det s)))"
    by (cases "LkAlerts \<in> an_held s")
      (simp_all add: add_suspicious_alert_def update_locked_free update_locked_taken Let_def no_history_def)
qed

lemma level_alerts: "level (failure_rate_alert u now p)" "level (concurrency_alert u now a)" "level (volume_alert u now b)"
  using level_alert by (simp_all add: failure_rate_alert_def concurrency_alert_def volume_alert_def Let_def level_def)

lemma level_then:
  assumes "level m" "level n"
  shows "level (and_do m n)"
  using assms by (auto simp: level_def and_then_def split: prod.splits sum.splits) (metis snd_conv)+

lemma calm_check: "calm (check_suspicious_patterns u1 u2 u3 now)"
proof -
  have "an_held s \<subseteq> an_held (snd (check_suspicious_patterns u1 u2 u3 now s))
      \<and> (no_history s \<longrightarrow> no_history (snd (check_suspicious_patterns u1 u2 u3 now s)))" for s
  proof (cases "{LkPerformance, LkBandwidth, LkActivity} \<inter> an_held s = {}")
    case True
    define t where "t = s\<lparr>an_held := {LkActivity, LkBandwidth, LkPerformance} \<union> an_held s\<rparr>"
    define m where "m = and_do (failure_rate_alert u1 now (an_performance s))
      (and_do (concurrency_alert u2 now (an_activity s)) (volume_alert u3 now (an_bandwidth s)))"
    have lev: "level m" unfolding m_def by (intro level_then level_alerts)
    have eq: "check_suspicious_patterns u1 u2 u3 now s
        = and_do m (and_do (unlock_m LkActivity) (and_do (unlock_m LkBandwidth) (unlock_m LkPerformance))) t"
      using True by (simp add: check_suspicious_patterns_def m_def t_def and_then_assoc) (simp add: and_then_def split: prod.splits sum.splits)
    obtain r u where mu: "m t = (r, u)" by (cases "m t")
    have "no_history t = no_history s" by (simp add: t_def no_history_def)
    then have u: "an_held u = an_held t" "no_history s \<longrightarrow> no_history u"
      using lev [unfolded level_def, rule_format, of t] mu by simp_all
    then show ?thesis unfolding eq using True mu by (cases r) (auto simp: and_then_def t_def no_history_def)
  next
    case False
    then show ?thesis
      by (cases "LkPerformance \<in> an_held s"; cases "LkBandwidth \<in> an_held s"; cases "LkActivity \<in> an_held s")
        (auto simp: check_suspicious_patterns_def and_then_def no_history_def)
  qed
  then show ?thesis by (simp add: calm_def)
qed

lemma calm_event: "calm (handle_transfer_event now now' e)"
proof -
  have perf: "calm (handle_progress_event now now' p)" for p
    unfolding handle_progress_event_def Let_def by (intro calm_then calm_record calm_update_locked calm_on)
  have comp: "calm (handle_completed_event c)" for c
    unfolding handle_completed_event_def record_download_completed_def by (intro calm_then calm_update_locked calm_on)
  have "calm (handle_failed_event f)" for f
    unfolding handle_failed_event_def by (intro calm_then calm_update_locked calm_on)
  with perf comp show ?thesis by (cases e) (simp_all add: calm_peer)
qed

lemma calm_transfer: "calm (record_transfer b ms up ok)"
  by (simp add: record_transfer_def Let_def)

lemma calm_reset: "calm (reset_stats now)"
  unfolding reset_stats_def by (intro calm_then calm_update_locked) (simp_all add: calm_update_def no_history_def)

lemmas single_lock_defs = record_latency_def update_network_activity_def record_upload_completed_def record_download_completed_def
  increment_active_downloads_def decrement_active_downloads_def increment_active_uploads_def decrement_active_uploads_def
  increment_queued_downloads_def decrement_queued_downloads_def update_storage_contribution_def add_seedtime_hours_def
  get_bandwidth_stats_def get_bandwidth_history_def get_performance_metrics_def get_network_activity_def
  get_resource_contribution_def get_contribution_history_def

lemmas calm_facts = calm_event calm_transfer calm_reset calm_check calm_peer calm_record calm_alerts

lemma calm_leaves: "calm m \<Longrightarrow> an_held s \<subseteq> an_held (snd (m s)) \<and> (no_history s \<longrightarrow> no_history (snd (m s)))"
  by (simp add: calm_def)

lemma step_calm: "an_step s t \<Longrightarrow> an_held s \<subseteq> an_held t \<and> (no_history s \<longrightarrow> no_history t)"
  by (induction rule: an_step.induct) (rule calm_leaves, simp add: single_lock_defs calm_facts)+

interpretation history_less: invariant_machine an_step no_history
  by unfold_locales (use step_calm in blast)

interpretation stuck_mutex: invariant_machine an_step "\<lambda>s. l \<in> an_held s" for l
  by unfold_locales (use step_calm in blast)

section \<open>Properties\<close>

lemma new_no_history: "no_history (new_analytics now)"
  by (simp add: no_history_def new_analytics_def)

lemma hung_calls:
  assumes "LkBandwidth \<in> an_held s"
  shows "record_upload now now' b s = (Err (Hangs LkBandwidth), s)" "record_download now now' b s = (Err (Hangs LkBandwidth), s)"
    "handle_transfer_event now now' (TeProgress e) s = (Err (Hangs LkBandwidth), s)"
    "get_bandwidth_stats s = (Err (Hangs LkBandwidth), s)" "reset_stats now s = (Err (Hangs LkBandwidth), s)"
  using assms
  by (simp_all add: record_upload_def record_download_def handle_progress_event_def and_then_def get_bandwidth_stats_def
      clone_locked_taken reset_stats_def update_locked_taken)

text \<open>
  The histories of bandwidth and of contributions stay empty whatever functions are called in whatever order and however
  much time passes: the code that appends to them is reached only with the mutex of the counters taken, and begins by taking it
  again.
\<close>

theorem history_never_recorded:
  assumes "an_step\<^sup>*\<^sup>* (new_analytics now) s"
  shows "an_bandwidth_history s = [] \<and> an_contribution_history s = []"
  using history_less.run_inv [OF assms new_no_history] by (simp add: no_history_def)

theorem history_never_recorded_witness:
  "an_bandwidth_history (snd (record_upload 61 61 5 (new_analytics 0))) = []
   \<and> an_contribution_history (snd (record_upload 61 61 5 (new_analytics 0))) = []"
  by (rule history_never_recorded [of 0], rule r_into_rtranclp, rule an_upload)

text \<open>
  Counting bytes a minute after the history was last due never returns, and it keeps the mutex of the counters: whatever is
  called after that, in whatever order, counting uploads or downloads, handling a progress event, reading the counters and
  resetting them all hang.
\<close>

theorem counting_hangs_forever:
  assumes "{LkBandwidth, LkLastUpdate} \<inter> an_held s = {}" "60 \<le> wsub64 now' (an_last_update s)"
    "an_step\<^sup>*\<^sup>* (snd (record_download now now' b s)) t"
  shows "fst (record_download now now' b s) = Err (Hangs LkBandwidth)
    \<and> fst (record_upload n1 n2 c t) = Err (Hangs LkBandwidth) \<and> fst (record_download n1 n2 c t) = Err (Hangs LkBandwidth)
    \<and> fst (handle_transfer_event n1 n2 (TeProgress e) t) = Err (Hangs LkBandwidth)
    \<and> fst (get_bandwidth_stats t) = Err (Hangs LkBandwidth) \<and> fst (reset_stats n1 t) = Err (Hangs LkBandwidth)"
proof -
  let ?u = "(on_bandwidth (\<lambda>b'. b'\<lparr>bs_download_bytes := wadd64 (bs_download_bytes b') b, bs_last_updated := now\<rparr>)
    (s\<lparr>an_held := insert LkBandwidth (an_held s)\<rparr>))\<lparr>an_last_update := now'\<rparr>"
  have r: "record_download now now' b s = (Err (Hangs LkBandwidth), ?u)"
    using assms(1,2)
    by (simp add: record_download_def and_then_def history_under_lock HISTORY_INTERVAL_SECONDS_def on_bandwidth_def)
  have "LkBandwidth \<in> an_held t"
    using stuck_mutex.run_inv [OF assms(3), of LkBandwidth] by (simp add: r on_bandwidth_def)
  with r show ?thesis by (simp add: hung_calls del: handle_transfer_event.simps)
qed

theorem counting_hangs_forever_witness:
  "fst (record_download 60 60 7 (new_analytics 0)) = Err (Hangs LkBandwidth)
   \<and> fst (get_bandwidth_stats (snd (record_download 60 60 7 (new_analytics 0)))) = Err (Hangs LkBandwidth)"
  using counting_hangs_forever [of "new_analytics 0" 60 60 7 "snd (record_download 60 60 7 (new_analytics 0))"]
  by (simp add: new_analytics_def wsub64_def)

section \<open>What events add up to\<close>

fun run_events :: "(u64 \<times> u64 \<times> transfer_event) list \<Rightarrow> unit an_act" where
  "run_events [] = ret ()"
| "run_events ((now, now', e) # es) = and_do (handle_transfer_event now now' e) (run_events es)"

fun bytes_reported :: "transfer_event \<Rightarrow> u64" where
  "bytes_reported (TeProgress p) = pe_downloaded_bytes p"
| "bytes_reported _ = 0"

fun is_completed :: "transfer_event \<Rightarrow> bool" where
  "is_completed (TeCompleted _) = True"
| "is_completed _ = False"

fun is_failed :: "transfer_event \<Rightarrow> bool" where
  "is_failed (TeFailed _) = True"
| "is_failed _ = False"

definition an_counts :: "analytics \<Rightarrow> nat \<times> nat \<times> nat \<times> nat" where
  "an_counts s = (bs_download_bytes (an_bandwidth s) mod 2 ^ 64, nt_completed_downloads (an_activity s) mod 2 ^ 64,
     pf_successful_transfers (an_performance s) mod 2 ^ 64, pf_failed_transfers (an_performance s) mod 2 ^ 64)"

text \<open>One event, all mutexes free and the interval not over: the event is handled and the mutexes are free again.\<close>

lemma update_free:
  "an_held s = {} \<Longrightarrow> update_locked LkActivity (on_activity f) s = (Inr (), on_activity f s)"
  "an_held s = {} \<Longrightarrow> update_locked LkPerformance (on_performance g) s = (Inr (), on_performance g s)"
  by (simp_all add: update_locked_free on_activity_def on_performance_def)

lemma record_download_free:
  assumes "an_held s = {}" "wsub64 now' (an_last_update s) < 60"
  shows "record_download now now' b s =
    (Inr (), on_bandwidth (\<lambda>b'. b'\<lparr>bs_download_bytes := wadd64 (bs_download_bytes b') b, bs_last_updated := now\<rparr>) s)"
  using assms by (simp add: record_download_def and_then_def history_under_lock HISTORY_INTERVAL_SECONDS_def on_bandwidth_def)

lemma record_peer_free:
  assumes "an_held s = {}"
  shows "\<exists>t. record_peer_connected p s = (Inr (), t) \<and> an_held t = {} \<and> an_last_update t = an_last_update s \<and> an_counts t = an_counts s"
  using assms by (simp add: record_peer_connected_def and_then_def on_activity_def an_counts_def)

definition event_counts :: "transfer_event \<Rightarrow> nat \<times> nat \<times> nat \<times> nat \<Rightarrow> nat \<times> nat \<times> nat \<times> nat" where
  "event_counts e c = (case c of (d, k, sf, ff) \<Rightarrow>
     ((d + bytes_reported e) mod 2 ^ 64, (k + 2 * of_bool (is_completed e)) mod 2 ^ 64,
      (sf + of_bool (is_completed e)) mod 2 ^ 64, (ff + of_bool (is_failed e)) mod 2 ^ 64))"

lemma event_free:
  assumes "an_held s = {}" "wsub64 now' (an_last_update s) < 60"
  shows "\<exists>t. handle_transfer_event now now' e s = (Inr (), t) \<and> an_held t = {} \<and> an_last_update t = an_last_update s
    \<and> an_counts t = event_counts e (an_counts s)"
proof (cases e)
  case (TeSourceConnected c)
  with record_peer_free [OF assms(1)] show ?thesis by (simp add: event_counts_def an_counts_def)
qed (use assms in \<open>simp_all add: handle_progress_event_def handle_completed_event_def handle_failed_event_def
       record_download_completed_def and_then_def update_free record_download_free Let_def\<close>,
     simp_all add: an_counts_def event_counts_def on_activity_def on_performance_def on_bandwidth_def wadd64_def raise_peaks_def
       mod_simps Let_def)

lemma events_free:
  assumes "an_held s = {}" "\<forall>x \<in> set es. wsub64 (fst (snd x)) (an_last_update s) < 60"
  shows "\<exists>t. run_events es s = (Inr (), t) \<and> an_counts t = fold (\<lambda>x. event_counts (snd (snd x))) es (an_counts s)"
  using assms
proof (induction es arbitrary: s)
  case (Cons x es)
  obtain now now' e where x: "x = (now, now', e)" by (cases x)
  with Cons.prems obtain t where t: "handle_transfer_event now now' e s = (Inr (), t)" "an_held t = {}"
      "an_last_update t = an_last_update s" "an_counts t = event_counts e (an_counts s)"
    using event_free [of s now' now e] by auto
  with Cons.IH [of t] Cons.prems x show ?case by (simp add: and_then_def)
qed simp

lemma fold_event_counts:
  "fold (\<lambda>x. event_counts (snd (snd x))) es (d mod 2 ^ 64, k mod 2 ^ 64, sf mod 2 ^ 64, ff mod 2 ^ 64) =
   ((d + sum_list (map (bytes_reported \<circ> snd \<circ> snd) es)) mod 2 ^ 64,
    (k + 2 * length (filter (is_completed \<circ> snd \<circ> snd) es)) mod 2 ^ 64,
    (sf + length (filter (is_completed \<circ> snd \<circ> snd) es)) mod 2 ^ 64,
    (ff + length (filter (is_failed \<circ> snd \<circ> snd) es)) mod 2 ^ 64)"
proof (induction es arbitrary: d k sf ff)
  case (Cons x es)
  let ?e = "snd (snd x)"
  have "event_counts ?e (d mod 2 ^ 64, k mod 2 ^ 64, sf mod 2 ^ 64, ff mod 2 ^ 64) =
    ((d + bytes_reported ?e) mod 2 ^ 64, (k + 2 * of_bool (is_completed ?e)) mod 2 ^ 64,
     (sf + of_bool (is_completed ?e)) mod 2 ^ 64, (ff + of_bool (is_failed ?e)) mod 2 ^ 64)"
    by (simp add: event_counts_def mod_simps)
  with Cons.IH show ?case by (simp add: add.assoc)
qed simp

text \<open>
  A series of transfer events within a minute of the service's start is handled without waiting. Every completed transfer
  is counted once among the successful transfers and twice among the completed downloads, and the bytes downloaded are the sum of what
  the progress events report, each of which already reports all the bytes of its transfer so far.
\<close>

theorem events_add_up:
  assumes "\<forall>x \<in> set es. start \<le> fst (snd x) \<and> fst (snd x) < start + 60"
  shows "\<exists>t. run_events es (new_analytics start) = (Ok (), t)
    \<and> bs_download_bytes (an_bandwidth t) mod 2 ^ 64 = sum_list (map (bytes_reported \<circ> snd \<circ> snd) es) mod 2 ^ 64
    \<and> pf_successful_transfers (an_performance t) mod 2 ^ 64 = length (filter (is_completed \<circ> snd \<circ> snd) es) mod 2 ^ 64
    \<and> nt_completed_downloads (an_activity t) mod 2 ^ 64 = 2 * length (filter (is_completed \<circ> snd \<circ> snd) es) mod 2 ^ 64
    \<and> pf_failed_transfers (an_performance t) mod 2 ^ 64 = length (filter (is_failed \<circ> snd \<circ> snd) es) mod 2 ^ 64"
proof -
  let ?s = "new_analytics start"
  have "an_held ?s = {}" "\<forall>x \<in> set es. wsub64 (fst (snd x)) (an_last_update ?s) < 60"
    using assms by (auto simp: new_analytics_def wsub64_def)
  then obtain t where t: "run_events es ?s = (Ok (), t)" "an_counts t = fold (\<lambda>x. event_counts (snd (snd x))) es (an_counts ?s)"
    using events_free by blast
  have "an_counts ?s = (0 mod 2 ^ 64, 0 mod 2 ^ 64, 0 mod 2 ^ 64, 0 mod 2 ^ 64)"
    by (simp add: an_counts_def new_analytics_def zero_performance_def)
  with t(2) have "an_counts t = fold (\<lambda>x. event_counts (snd (snd x))) es (0 mod 2 ^ 64, 0 mod 2 ^ 64, 0 mod 2 ^ 64, 0 mod 2 ^ 64)"
    by simp
  from this [unfolded fold_event_counts] t(1) show ?thesis by (simp add: an_counts_def)
qed

definition demo_completed :: transfer_event where
  "demo_completed = TeCompleted \<lparr>co_transfer_id = ''t'', co_file_hash = ''h'', co_file_name = ''f'', co_file_size = 8, co_output_path = ''f'',
     co_completed_at = 0, co_duration_seconds = 1, co_average_speed_bps = F_Fin 8, co_total_chunks = 1, co_sources_used = []\<rparr>"

definition demo_progress :: "u64 \<Rightarrow> transfer_event" where
  "demo_progress n = TeProgress \<lparr>pe_transfer_id = ''t'', pe_downloaded_bytes = n, pe_total_bytes = 8, pe_completed_chunks = 0,
     pe_total_chunks = 1, pe_progress_percentage = F_Fin 50, pe_download_speed_bps = F_Fin 4, pe_upload_speed_bps = F_Fin 0,
     pe_eta_seconds = None, pe_active_sources = 1, pe_timestamp = 0\<rparr>"

theorem events_add_up_witness:
  "\<exists>t. run_events [(1, 1, demo_progress 4), (2, 2, demo_progress 8), (3, 3, demo_completed)] (new_analytics 0) = (Ok (), t)
    \<and> bs_download_bytes (an_bandwidth t) mod 2 ^ 64 = 12 \<and> nt_completed_downloads (an_activity t) mod 2 ^ 64 = 2"
proof -
  have "\<forall>x \<in> set [(1, 1, demo_progress 4), (2, 2, demo_progress 8), (3, 3, demo_completed)]. (0::nat) \<le> fst (snd x) \<and> fst (snd x) < 0 + (60::nat)"
    by simp
  from events_add_up [OF this] show ?thesis by (auto simp: demo_progress_def demo_completed_def simp del: run_events.simps)
qed

text \<open>
  Pausing and then canceling one of two running transfers leaves no transfer counted as active, although the other still runs.
\<close>

lemma paused_and_canceled:
  assumes "an_held s = {}" "nt_active_downloads (an_activity s) = 2"
  shows "\<exists>t. and_do (handle_transfer_event n1 n1' (TePaused p)) (handle_transfer_event n2 n2' (TeCanceled c)) s = (Ok (), t)
    \<and> nt_active_downloads (an_activity t) = 0"
  using assms by (simp add: and_then_def update_free) (simp add: on_activity_def sat_sub_def)

end
