(* ===== verification/HttpServer.thy ===== *)
theory HttpServer
  imports FileSystem
begin

text \<open>
  \<open>http_server.rs\<close>: the server that hands out whole files and byte ranges of them.

  The state is the table of registered files, the storage directory, whether a DHT service is attached and what it was told
  about uploads. Of a request the model has the decoded segments of its path and the two headers the code reads. JSON encodings
  are parameters (record \<open>server_json\<close>); the framework answers 404 for any other route.

  Theorem: a range request is answered with exactly the requested bytes. Every request of a peer, whatever it asks for and whether
  it succeeds or not, is recorded as an upload of the whole file.
\<close>

section \<open>State\<close>

record http_file_metadata =
  hm_hash :: string
  hm_file_hash :: string
  hm_name :: string
  hm_size :: u64
  hm_encrypted :: bool

record http_server_state =
  hs_storage_dir :: path
  hs_files :: "string \<rightharpoonup> http_file_metadata"
  hs_dht :: bool
  hs_recorded :: "(string \<times> u64 \<times> u64) list"

definition new_http_server_state :: "path \<Rightarrow> http_server_state" where
  "new_http_server_state dir = \<lparr>hs_storage_dir = dir, hs_files = Map.empty, hs_dht = False, hs_recorded = []\<rparr>"

definition set_dht :: "http_server_state \<Rightarrow> http_server_state" where
  "set_dht st = st\<lparr>hs_dht := True\<rparr>"

definition register_file :: "http_file_metadata \<Rightarrow> http_server_state \<Rightarrow> http_server_state" where
  "register_file m st = st\<lparr>hs_files := (hs_files st)(hm_hash m \<mapsto> m)\<rparr>"

definition unregister_file :: "string \<Rightarrow> http_server_state \<Rightarrow> http_server_state" where
  "unregister_file h st = st\<lparr>hs_files := hm_remove (hs_files st) h\<rparr>"

definition get_file_metadata :: "string \<Rightarrow> http_server_state \<Rightarrow> http_file_metadata option" where
  "get_file_metadata h st = hs_files st h"

definition has_file :: "string \<Rightarrow> http_server_state \<Rightarrow> bool" where
  "has_file h st = (hs_files st h \<noteq> None)"

section \<open>Requests and responses\<close>

record http_request =
  hq_peer_id :: "bytes option"
  hq_range :: "bytes option"

record http_response =
  hx_status :: nat
  hx_headers :: "(string \<times> string) list"
  hx_body :: bytes

record server_json =
  sj_metadata :: "http_file_metadata \<Rightarrow> bytes"
  sj_error :: "string \<Rightarrow> bytes"

definition json_response :: "nat \<Rightarrow> bytes \<Rightarrow> http_response" where
  "json_response st b = \<lparr>hx_status = st, hx_headers = [(''content-type'', ''application/json'')], hx_body = b\<rparr>"

definition status_only :: "nat \<Rightarrow> http_response" where
  "status_only st = \<lparr>hx_status = st, hx_headers = [], hx_body = []\<rparr>"

section \<open>Ranges\<close>

definition parse_range_header :: "string \<Rightarrow> u64 \<Rightarrow> (u64 \<times> u64) option" where
  "parse_range_header range_str file_size =
     (case strip_prefix ''bytes='' range_str of
        None \<Rightarrow> None
      | Some bytes_str \<Rightarrow>
          (case split_on (CHR ''-'') bytes_str of
             start_str # end_str # _ \<Rightarrow>
               if start_str = [] then None
               else (case parse_u64 start_str of
                  None \<Rightarrow> None
                | Some start \<Rightarrow>
                    (case (if end_str = [] then Some (wsub64 file_size 1) else parse_u64 end_str) of
                       None \<Rightarrow> None
                     | Some end \<Rightarrow>
                         if start > end \<or> start \<ge> file_size then None
                         else Some (start, min end (wsub64 file_size 1))))
           | _ \<Rightarrow> None))"

definition serve_file_range :: "server_json \<Rightarrow> io_env \<Rightarrow> path \<Rightarrow> string \<Rightarrow> u64 \<Rightarrow> disk \<Rightarrow> http_response" where
  "serve_file_range sj io p range_str file_size d =
     (case parse_range_header range_str file_size of
        None \<Rightarrow> json_response 416 (sj_error sj ''Invalid Range header'')
      | Some (start, end) \<Rightarrow>
          (case d p of
             None \<Rightarrow> status_only 500
           | Some content \<Rightarrow>
               let chunk_size = wadd64 (end - start) 1 in
               if io_fails io (IoOpen p) then status_only 500
               else if io_fails io (IoSeek p start) then status_only 500
               else (case (if io_fails io (IoRead p) then None else read_exact start chunk_size content) of
                  None \<Rightarrow> status_only 500
                | Some buffer \<Rightarrow>
                    \<lparr>hx_status = 206,
                      hx_headers = [(''content-range'', ''bytes '' @ show_nat start @ ''-'' @ show_nat end @ ''/'' @ show_nat file_size),
                        (''content-length'', show_nat chunk_size), (''accept-ranges'', ''bytes'')],
                      hx_body = buffer\<rparr>)))"

definition serve_entire_file :: "io_env \<Rightarrow> path \<Rightarrow> disk \<Rightarrow> http_response" where
  "serve_entire_file io p d =
     (case fs_read io p d of
        Inl _ \<Rightarrow> status_only 500
      | Inr data \<Rightarrow> \<lparr>hx_status = 200, hx_headers = [(''content-length'', show_nat (length data)), (''accept-ranges'', ''bytes'')], hx_body = data\<rparr>)"

section \<open>Handlers\<close>

definition serve_metadata :: "server_json \<Rightarrow> string \<Rightarrow> http_server_state \<Rightarrow> http_response" where
  "serve_metadata sj h st =
     (case get_file_metadata h st of
        Some m \<Rightarrow> json_response 200 (sj_metadata sj m)
      | None \<Rightarrow> json_response 404 (sj_error sj (''File not found: '' @ h)))"

text \<open>The task that tells the DHT service about the upload.\<close>

definition record_upload_to :: "string option \<Rightarrow> u64 \<Rightarrow> http_server_state \<Rightarrow> http_server_state" where
  "record_upload_to peer file_size st =
     (case peer of
        Some p \<Rightarrow> if hs_dht st then st\<lparr>hs_recorded := hs_recorded st @ [(p, file_size, 0)]\<rparr> else st
      | None \<Rightarrow> st)"

definition serve_file :: "server_json \<Rightarrow> io_env \<Rightarrow> disk \<Rightarrow> string \<Rightarrow> http_request \<Rightarrow> http_server_state \<Rightarrow> http_response \<times> http_server_state" where
  "serve_file sj io d h req st =
     (let peer = Option.bind (hq_peer_id req) header_str in
      case get_file_metadata h st of
        None \<Rightarrow> (json_response 404 (sj_error sj (''File not found: '' @ h)), st)
      | Some m \<Rightarrow>
          let p = path_join (hs_storage_dir st) (hm_file_hash m) in
          if \<not> fs_exists io p d then (json_response 500 (sj_error sj ''File not found on disk''), st)
          else ((case Option.bind (hq_range req) header_str of
                   Some r \<Rightarrow> serve_file_range sj io p r (hm_size m) d
                 | None \<Rightarrow> serve_entire_file io p d),
                record_upload_to peer (hm_size m) st))"

definition health_check :: http_response where
  "health_check = \<lparr>hx_status = 200, hx_headers = [(''content-type'', ''text/plain; charset=utf-8'')], hx_body = ''OK''\<rparr>"

text \<open>A GET request by the segments of its path.\<close>

definition http_route ::
    "server_json \<Rightarrow> io_env \<Rightarrow> disk \<Rightarrow> string list \<Rightarrow> http_request \<Rightarrow> http_server_state \<Rightarrow> http_response \<times> http_server_state" where
  "http_route sj io d segments req st =
     (if segments = [''health''] then (health_check, st)
      else case segments of
        [a, h] \<Rightarrow> if a = ''files'' then serve_file sj io d h req st else (status_only 404, st)
      | [a, h, b] \<Rightarrow> if a = ''files'' \<and> b = ''metadata'' then (serve_metadata sj h st, st) else (status_only 404, st)
      | _ \<Rightarrow> (status_only 404, st))"

section \<open>What is served\<close>

lemma no_minus_in_number: "CHR ''-'' \<notin> set (show_nat n)"
  using show_nat_chars [of n] by auto

lemma parse_written_range:
  assumes "start \<le> end" "start < file_size" "end \<le> u64_max"
  shows "parse_range_header (''bytes='' @ show_nat start @ ''-'' @ show_nat end) file_size = Some (start, min end (file_size - 1))"
proof -
  have "split_on (CHR ''-'') (show_nat start @ CHR ''-'' # show_nat end) = [show_nat start, show_nat end]"
    by (simp add: split_on_append split_on_none no_minus_in_number)
  then show ?thesis
    using assms by (simp add: parse_range_header_def strip_prefix_def parse_show_u64 wsub64_def)
qed

lemma parse_range_sound:
  assumes "parse_range_header r file_size = Some (a, b)"
  shows "a \<le> b \<and> b < file_size"
  using assms by (auto simp: parse_range_header_def wsub64_def split: option.splits list.splits if_splits)

text \<open>
  Whatever a Range header says, what is served with status 206 is exactly the range of the stored file that its Content-Range
  states; the range lies within the registered size, and a header that asks for bytes a to b of the file is answered with those.
\<close>

theorem range_served_exact:
  assumes "d p = Some content" "file_size \<le> length content" "length content < 2 ^ 64"
    "\<not> io_fails io (IoOpen p)" "\<And>n. \<not> io_fails io (IoSeek p n)" "\<not> io_fails io (IoRead p)"
  shows "(case parse_range_header r file_size of
      None \<Rightarrow> hx_status (serve_file_range sj io p r file_size d) = 416
    | Some (a, b) \<Rightarrow> a \<le> b \<and> b < file_size \<and> hx_status (serve_file_range sj io p r file_size d) = 206
        \<and> hx_body (serve_file_range sj io p r file_size d) = take (b - a + 1) (drop a content))
    \<and> (a' \<le> b' \<longrightarrow> b' < file_size \<longrightarrow>
        hx_body (serve_file_range sj io p (''bytes='' @ show_nat a' @ ''-'' @ show_nat b') file_size d) = take (b' - a' + 1) (drop a' content))"
proof -
  have served: "hx_status (serve_file_range sj io p r file_size d) = 206
      \<and> hx_body (serve_file_range sj io p r file_size d) = take (b - a + 1) (drop a content)"
    if "parse_range_header r file_size = Some (a, b)" for r a b
  proof -
    have ab: "a \<le> b" "b < file_size" using parse_range_sound [OF that] by auto
    then have "wadd64 (b - a) 1 = b - a + 1" using assms(2,3) by (simp add: wadd64_no_overflow)
    moreover have "a + (b - a + 1) \<le> length content" using ab assms(2) by simp
    ultimately show ?thesis using that assms by (simp add: serve_file_range_def read_exact_def)
  qed
  have "parse_range_header (''bytes='' @ show_nat a' @ ''-'' @ show_nat b') file_size = Some (a', b')" if "a' \<le> b'" "b' < file_size"
    using that assms(2,3) by (subst parse_written_range) (simp_all add: u64_max_def min_def)
  then show ?thesis
    using served parse_range_sound by (auto simp: serve_file_range_def json_response_def split: option.splits)
qed

definition demo_json :: server_json where
  "demo_json = \<lparr>sj_metadata = (\<lambda>m. hm_name m), sj_error = (\<lambda>e. e)\<rparr>"

theorem range_served_exact_witness:
  "hx_body (serve_file_range demo_json no_faults [''s''] (''bytes='' @ show_nat 1 @ ''-'' @ show_nat 2) 4 [[''s''] \<mapsto> ''abcd'']) = ''bc''"
  using range_served_exact [of "[[''s''] \<mapsto> ''abcd'']" "[''s'']" "''abcd''" 4 no_faults demo_json _ 1 2] by simp

text \<open>
  A request that names its peer adds the size of the whole file to what the DHT service is told this peer received: a download in
  ranges is credited once for each range, and a request that is refused is credited as well.
\<close>

theorem upload_credit_inflated:
  assumes "hs_files st h = Some m" "hs_dht st" "fs_exists io (path_join (hs_storage_dir st) (hm_file_hash m)) d"
    "\<forall>req \<in> set reqs. Option.bind (hq_peer_id req) header_str = Some peer"
  shows "hs_recorded (fold (\<lambda>req s. snd (serve_file sj io d h req s)) reqs st) =
    hs_recorded st @ replicate (length reqs) (peer, hm_size m, 0)"
  using assms
proof (induction reqs arbitrary: st)
  case (Cons req reqs)
  let ?t = "snd (serve_file sj io d h req st)"
  have t: "?t = st\<lparr>hs_recorded := hs_recorded st @ [(peer, hm_size m, 0)]\<rparr>"
    using Cons.prems by (simp add: serve_file_def get_file_metadata_def record_upload_to_def Let_def)
  with Cons.IH [of ?t] Cons.prems show ?case by simp
qed simp

definition demo_metadata :: http_file_metadata where
  "demo_metadata = \<lparr>hm_hash = ''r'', hm_file_hash = ''f'', hm_name = ''n'', hm_size = 4, hm_encrypted = False\<rparr>"

definition demo_server :: http_server_state where
  "demo_server = register_file demo_metadata (set_dht (new_http_server_state [''s'']))"

lemma demo_stored: "path_join [''s''] ''f'' = [''s'', ''f'']"
  by (simp add: path_join_simple)

theorem upload_credit_inflated_witness:
  "hs_recorded (fold (\<lambda>req s. snd (serve_file demo_json no_faults [[''s'', ''f''] \<mapsto> ''abcd''] ''r'' req s))
     [\<lparr>hq_peer_id = Some ''p'', hq_range = Some ''bytes=0-1''\<rparr>, \<lparr>hq_peer_id = Some ''p'', hq_range = Some ''bytes=9-''\<rparr>] demo_server)
   = [(''p'', 4, 0), (''p'', 4, 0)]"
proof -
  have f: "hs_files demo_server ''r'' = Some demo_metadata" "hs_dht demo_server" "hs_storage_dir demo_server = [''s'']" "hs_recorded demo_server = []"
    by (simp_all add: demo_server_def register_file_def set_dht_def new_http_server_state_def demo_metadata_def)
  have "fs_exists no_faults (path_join (hs_storage_dir demo_server) (hm_file_hash demo_metadata)) [[''s'', ''f''] \<mapsto> ''abcd'']"
    using demo_stored by (simp add: f demo_metadata_def fs_exists_def)
  from upload_credit_inflated [OF f(1,2) this, of "[\<lparr>hq_peer_id = Some ''p'', hq_range = Some ''bytes=0-1''\<rparr>, \<lparr>hq_peer_id = Some ''p'', hq_range = Some ''bytes=9-''\<rparr>]" "''p''" demo_json]
  show ?thesis by (simp add: f header_str_def demo_metadata_def del: fold.simps)
qed

end
