(* ===== verification/HttpDownload.thy ===== *)
theory HttpDownload
  imports HttpServer TransferEvents
begin

text \<open>
  \<open>http_download.rs\<close>: the client that fetches a file in ranges of 256 KiB, with retries, in one go or from an offset, with or
  without events.

  The network is a function \<open>he_get\<close> from the address, the request and the number of the attempt to what the HTTP library reports.
  Tasks for the ranges run concurrently; a task's result only depends on the answers to its own requests. In the version with
  events the tasks share two counters and the bus: they run in an order that is an argument, each of them as a whole. Clock
  readings come from a function of the number of readings so far. The text of an I/O error at the end of a message is left out.

  Theorems, in \<open>HttpTransfer\<close>: against the program's own server the client writes exactly the file, and resuming completes a prefix.
\<close>

section \<open>Data\<close>

datatype http_download_status = HdFetchingMetadata | HdDownloading | HdAssembling | HdCompleted | HdFailed

record http_progress =
  hp_file_hash :: string
  hp_chunks_total :: usize
  hp_chunks_downloaded :: usize
  hp_bytes_downloaded :: u64
  hp_bytes_total :: u64
  hp_status :: http_download_status

record client_metadata =
  cl_hash :: string
  cl_name :: string
  cl_size :: u64
  cl_encrypted :: bool

record byte_range =
  br_start :: u64
  br_end :: u64
  br_index :: usize

definition HTTP_CHUNK_SIZE :: u64 where "HTTP_CHUNK_SIZE = 256 * 1024"
definition MAX_CONCURRENT_CHUNKS :: usize where "MAX_CONCURRENT_CHUNKS = 5"
definition MAX_CHUNK_RETRIES :: u32 where "MAX_CHUNK_RETRIES = 3"
definition RETRY_DELAY_MS :: u64 where "RETRY_DELAY_MS = 1000"

record http_download_config =
  hg_transfer_id :: string
  hg_file_name :: string
  hg_priority :: transfer_priority

record http_client =
  hc_peer_id :: "string option"
  hc_event_bus :: bool

definition new_http_client :: http_client where
  "new_http_client = \<lparr>hc_peer_id = None, hc_event_bus = False\<rparr>"

definition new_with_peer_id :: "string option \<Rightarrow> http_client" where
  "new_with_peer_id p = \<lparr>hc_peer_id = p, hc_event_bus = False\<rparr>"

definition new_with_event_bus :: http_client where
  "new_with_event_bus = \<lparr>hc_peer_id = None, hc_event_bus = True\<rparr>"

definition new_with_peer_id_and_event_bus :: "string option \<Rightarrow> http_client" where
  "new_with_peer_id_and_event_bus p = \<lparr>hc_peer_id = p, hc_event_bus = True\<rparr>"

text \<open>
  What the HTTP library reports of a request: an error that \<open>is_timeout\<close>, \<open>is_connect\<close> or \<open>is_request\<close> (the flag) or another one, or a
  status and then the body or the failure to read it.
\<close>

datatype net_answer = SendError bool string | Answer nat "(string, bytes) result"

record http_env =
  he_io :: io_env
  he_get :: "string \<Rightarrow> http_request \<Rightarrow> nat \<Rightarrow> net_answer"
  he_parse_metadata :: "bytes \<Rightarrow> (string, client_metadata) result"
  he_status_text :: "nat \<Rightarrow> string"
  he_clock :: "nat \<Rightarrow> u64"
  he_elapsed :: "nat \<Rightarrow> nat"
  he_emit_fails :: "string \<Rightarrow> bool"

record http_state =
  hd_disk :: disk
  hd_progress :: "http_progress list"
  hd_log :: event_log
  hd_ticks :: nat
  hd_done_bytes :: u64
  hd_done_chunks :: u64

type_synonym 'a http_act = "http_state \<Rightarrow> (string, 'a) result \<times> http_state"

section \<open>Free file names\<close>

definition unique_candidate :: "path \<Rightarrow> nat \<Rightarrow> path" where
  "unique_candidate p n =
     (let par = (case parent p of Some q \<Rightarrow> q | None \<Rightarrow> []);
          stem = (case file_name p of Some f \<Rightarrow> file_stem f | None \<Rightarrow> ''file'');
          ext = Option.bind (file_name p) file_extension
      in path_join par (case ext of
           Some e \<Rightarrow> stem @ '' ('' @ show_nat n @ '').'' @ e
         | None \<Rightarrow> stem @ '' ('' @ show_nat n @ '')''))"

function unique_from :: "io_env \<Rightarrow> disk \<Rightarrow> path \<Rightarrow> nat \<Rightarrow> path" where
  "unique_from io d p counter =
     (let new_path = unique_candidate p counter in
      if \<not> fs_exists io new_path d then new_path
      else if counter + 1 > 1000 then new_path
      else unique_from io d p (counter + 1))"
  by pat_completeness auto
termination by (relation "measure (\<lambda>(io, d, p, c). 1000 - c)") auto

declare unique_from.simps [simp del]

definition get_unique_filepath :: "io_env \<Rightarrow> path \<Rightarrow> disk \<Rightarrow> path" where
  "get_unique_filepath io p d = (if \<not> fs_exists io p d then p else unique_from io d p 1)"

section \<open>Ranges\<close>

text \<open>\<open>None\<close> is a loop that does not end: near the largest number the end of a range wraps around.\<close>

partial_function (option) ranges_loop :: "u64 \<Rightarrow> u64 \<Rightarrow> usize \<Rightarrow> byte_range list option" where
  "ranges_loop file_size offset i =
     (if offset < file_size
      then let e = min (wsub64 (wadd64 offset HTTP_CHUNK_SIZE) 1) (file_size - 1)
           in Option.bind (ranges_loop file_size (wadd64 e 1) (i + 1)) (\<lambda>rs. Some (\<lparr>br_start = offset, br_end = e, br_index = i\<rparr> # rs))
      else Some [])"

definition calculate_ranges :: "u64 \<Rightarrow> byte_range list option" where
  "calculate_ranges file_size = ranges_loop file_size 0 0"

definition calculate_ranges_from_offset :: "u64 \<Rightarrow> u64 \<Rightarrow> byte_range list option" where
  "calculate_ranges_from_offset start_offset file_size = ranges_loop file_size start_offset (start_offset div HTTP_CHUNK_SIZE)"

section \<open>Requests\<close>

definition file_url :: "string \<Rightarrow> string \<Rightarrow> string" where
  "file_url seeder_url file_hash = seeder_url @ ''/files/'' @ file_hash"

definition range_request :: "http_client \<Rightarrow> byte_range \<Rightarrow> http_request" where
  "range_request c r = \<lparr>hq_peer_id = hc_peer_id c, hq_range = Some (''bytes='' @ show_nat (br_start r) @ ''-'' @ show_nat (br_end r))\<rparr>"

definition status_ok :: "nat \<Rightarrow> bool" where
  "status_ok st = (200 \<le> st \<and> st < 300)"

definition is_client_error :: "nat \<Rightarrow> bool" where
  "is_client_error st = (400 \<le> st \<and> st < 500)"

definition fetch_metadata :: "http_env \<Rightarrow> http_client \<Rightarrow> string \<Rightarrow> string \<Rightarrow> (string, client_metadata) result" where
  "fetch_metadata E c seeder_url file_hash =
     (let url = file_url seeder_url file_hash @ ''/metadata'' in
      case he_get E url \<lparr>hq_peer_id = hc_peer_id c, hq_range = None\<rparr> 0 of
        SendError _ e \<Rightarrow> Err (''Failed to fetch metadata from '' @ url @ '': '' @ e)
      | Answer st body \<Rightarrow>
          if \<not> status_ok st then Err (''Metadata request failed: '' @ he_status_text E st @ '' ('' @ url @ '')'')
          else case rbind body (he_parse_metadata E) of
                 Inl e \<Rightarrow> Err (''Failed to parse metadata from '' @ url @ '': '' @ e)
               | Inr m \<Rightarrow> Ok m)"

section \<open>One chunk\<close>

definition expected_size :: "byte_range \<Rightarrow> usize" where
  "expected_size r = wadd64 (wsub64 (br_end r) (br_start r)) 1"

text \<open>What one attempt comes to: the data, or an error and whether the loop goes on.\<close>

datatype attempt_outcome = ChunkData bytes | RetryAfter string | GiveUp string

definition attempt_chunk :: "http_env \<Rightarrow> http_client \<Rightarrow> string \<Rightarrow> byte_range \<Rightarrow> nat \<Rightarrow> attempt_outcome" where
  "attempt_chunk E c url r attempt =
     (case he_get E url (range_request c r) attempt of
        SendError retryable e \<Rightarrow>
          let err = ''Failed to download chunk '' @ show_nat (br_index r) @ '': '' @ e in
          if retryable then RetryAfter err else GiveUp err
      | Answer st body \<Rightarrow>
          if st \<noteq> 206
          then let err = ''Chunk '' @ show_nat (br_index r) @ '' request failed: expected 206 Partial Content, got '' @ he_status_text E st in
               if is_client_error st then GiveUp err else RetryAfter err
          else case body of
                 Inl e \<Rightarrow> RetryAfter (''Failed to read chunk '' @ show_nat (br_index r) @ '' data: '' @ e)
               | Inr data \<Rightarrow>
                   if length data \<noteq> expected_size r
                   then RetryAfter (''Chunk '' @ show_nat (br_index r) @ '' size mismatch: expected '' @ show_nat (expected_size r)
                     @ '', got '' @ show_nat (length data))
                   else ChunkData data)"

definition exhausted :: "byte_range \<Rightarrow> string" where
  "exhausted r = ''Chunk '' @ show_nat (br_index r) @ '' download failed after '' @ show_nat (MAX_CHUNK_RETRIES + 1) @ '' attempts''"

definition final_error :: "byte_range \<Rightarrow> string option \<Rightarrow> string" where
  "final_error r last_error = (case last_error of Some e \<Rightarrow> e | None \<Rightarrow> exhausted r)"

fun chunk_attempts :: "http_env \<Rightarrow> http_client \<Rightarrow> string \<Rightarrow> byte_range \<Rightarrow> nat list \<Rightarrow> string option \<Rightarrow> (string, bytes) result" where
  "chunk_attempts E c url r [] last_error = Err (final_error r last_error)"
| "chunk_attempts E c url r (a # as) last_error =
     (case attempt_chunk E c url r a of
        ChunkData data \<Rightarrow> Ok data
      | RetryAfter e \<Rightarrow> chunk_attempts E c url r as (Some e)
      | GiveUp e \<Rightarrow> Err (final_error r (Some e)))"

definition chunk_task :: "http_env \<Rightarrow> http_client \<Rightarrow> string \<Rightarrow> byte_range \<Rightarrow> (string, bytes) result" where
  "chunk_task E c url r = chunk_attempts E c url r [0 ..< MAX_CHUNK_RETRIES + 1] None"

section \<open>All chunks\<close>

definition send_progress :: "bool \<Rightarrow> http_progress \<Rightarrow> http_state \<Rightarrow> http_state" where
  "send_progress tx p s = (if tx then s\<lparr>hd_progress := hd_progress s @ [p]\<rparr> else s)"

definition progress_msg :: "string \<Rightarrow> usize \<Rightarrow> usize \<Rightarrow> u64 \<Rightarrow> u64 \<Rightarrow> http_download_status \<Rightarrow> http_progress" where
  "progress_msg h total_chunks chunks bytes total_bytes st = \<lparr>hp_file_hash = h, hp_chunks_total = total_chunks, hp_chunks_downloaded = chunks,
     hp_bytes_downloaded = bytes, hp_bytes_total = total_bytes, hp_status = st\<rparr>"

text \<open>The tasks are awaited in the order in which they were spawned; the first failure ends the wait.\<close>

fun await_chunks ::
    "bool \<Rightarrow> string \<Rightarrow> usize \<Rightarrow> u64 \<Rightarrow> (usize \<times> (string, bytes) result) list \<Rightarrow> u64 \<Rightarrow> u64 \<Rightarrow> (usize \<times> bytes) list \<Rightarrow> (usize \<times> bytes) list http_act" where
  "await_chunks tx h total_chunks file_size [] n b acc s = (Ok acc, s)"
| "await_chunks tx h total_chunks file_size ((i, r) # rs) n b acc s =
     (case r of
        Inl e \<Rightarrow> (Err (''Chunk download failed: '' @ e), s)
      | Inr data \<Rightarrow>
          let n' = wadd64 n 1; b' = wadd64 b (length data) in
          await_chunks tx h total_chunks file_size rs n' b' (acc @ [(i, data)])
            (send_progress tx (progress_msg h total_chunks n' b' file_size HdDownloading) s))"

definition in_order :: "(usize \<times> bytes) list \<Rightarrow> bytes list" where
  "in_order results = map snd (sort_key fst results)"

definition download_chunks_with_ranges ::
    "http_env \<Rightarrow> http_client \<Rightarrow> string \<Rightarrow> string \<Rightarrow> byte_range list \<Rightarrow> bool \<Rightarrow> u64 \<Rightarrow> bytes list http_act" where
  "download_chunks_with_ranges E c seeder_url h ranges tx file_size s =
     (let url = file_url seeder_url h;
          results = map (\<lambda>r. (br_index r, chunk_task E c url r)) ranges in
      case await_chunks tx h (length ranges) file_size results 0 0 [] s of
        (Inl e, s') \<Rightarrow> (Err e, s')
      | (Inr rs, s') \<Rightarrow> (Ok (in_order rs), s'))"

section \<open>Writing the file\<close>

text \<open>Write the pieces one after the other from a position; a piece is named by its number in an error.\<close>

fun write_pieces :: "io_env \<Rightarrow> path \<Rightarrow> u64 \<Rightarrow> bytes list \<Rightarrow> disk \<Rightarrow> bool \<times> disk" where
  "write_pieces io p off [] d = (True, d)"
| "write_pieces io p off (x # xs) d =
     (case write_all_at io p off x d of
        (False, d') \<Rightarrow> (False, d')
      | (True, d') \<Rightarrow> write_pieces io p (off + length x) xs d')"

definition assemble_file :: "http_env \<Rightarrow> bytes list \<Rightarrow> path \<Rightarrow> unit http_act" where
  "assemble_file E chunks output_path s =
     (let io = he_io E in
      case (case parent output_path of None \<Rightarrow> Ok () | Some par \<Rightarrow> fs_mkdir io par) of
        Inl e \<Rightarrow> (Err ''Failed to create parent directory'', s)
      | Inr _ \<Rightarrow>
          let p = get_unique_filepath io output_path (hd_disk s) in
          if io_fails io (IoOpen p) then (Err (''Failed to create output file at '' @ path_to_string p), s)
          else case write_pieces io p 0 chunks ((hd_disk s)(p \<mapsto> [])) of
                 (False, d) \<Rightarrow> (Err (''Failed to write chunk to '' @ path_to_string p), s\<lparr>hd_disk := d\<rparr>)
               | (True, d) \<Rightarrow>
                   if io_fails io (IoFlush p) then (Err (''Failed to flush file '' @ path_to_string p), s\<lparr>hd_disk := d\<rparr>)
                   else (Ok (), s\<lparr>hd_disk := d\<rparr>))"

section \<open>Whole downloads\<close>

text \<open>Outer \<open>None\<close>: the calculation of the ranges does not end.\<close>

definition download_file ::
    "http_env \<Rightarrow> http_client \<Rightarrow> string \<Rightarrow> string \<Rightarrow> path \<Rightarrow> bool \<Rightarrow> http_state \<Rightarrow> ((string, unit) result \<times> http_state) option" where
  "download_file E c seeder_url h output_path tx s =
     (let s0 = send_progress tx (progress_msg h 0 0 0 0 HdFetchingMetadata) s in
      case fetch_metadata E c seeder_url h of
        Inl e \<Rightarrow> Some (Err e, s0)
      | Inr m \<Rightarrow> map_option (\<lambda>ranges.
          let n = length ranges; sz = cl_size m;
              s1 = send_progress tx (progress_msg h n 0 0 sz HdDownloading) s0 in
          case download_chunks_with_ranges E c seeder_url h ranges tx sz s1 of
            (Inl e, s2) \<Rightarrow> (Err e, s2)
          | (Inr chunks, s2) \<Rightarrow>
              let s3 = send_progress tx (progress_msg h n n sz sz HdAssembling) s2 in
              case assemble_file E chunks output_path s3 of
                (Inl e, s4) \<Rightarrow> (Err e, s4)
              | (Inr _, s4) \<Rightarrow> (Ok (), send_progress tx (progress_msg h n n sz sz HdCompleted) s4))
          (calculate_ranges (cl_size m)))"

text \<open>The file is opened to append, so everything is written at its end, wherever that is.\<close>

definition append_to :: "http_env \<Rightarrow> path \<Rightarrow> bytes list \<Rightarrow> http_state \<Rightarrow> bool \<times> http_state" where
  "append_to E p chunks s =
     (let n = (case hd_disk s p of Some b \<Rightarrow> length b | None \<Rightarrow> 0) in
      case write_pieces (he_io E) p n chunks (hd_disk s) of (ok, d) \<Rightarrow> (ok, s\<lparr>hd_disk := d\<rparr>))"

definition can_append :: "http_env \<Rightarrow> path \<Rightarrow> http_state \<Rightarrow> bool" where
  "can_append E p s = (hd_disk s p \<noteq> None \<and> \<not> io_fails (he_io E) (IoOpen p))"

definition resume_download_from_offset ::
    "http_env \<Rightarrow> http_client \<Rightarrow> string \<Rightarrow> string \<Rightarrow> path \<Rightarrow> u64 \<Rightarrow> u64 \<Rightarrow> bool \<Rightarrow> http_state \<Rightarrow> ((string, unit) result \<times> http_state) option" where
  "resume_download_from_offset E c seeder_url h output_path already total_size tx s =
     (if sat_sub total_size already = 0
      then let n = total_size div HTTP_CHUNK_SIZE in
        Some (Ok (), send_progress tx (progress_msg h n n total_size total_size HdCompleted) s)
      else if \<not> can_append E output_path s then Some (Err ''Failed to open file for resume'', s)
      else map_option (\<lambda>ranges.
        let n = length ranges;
            s1 = send_progress tx (progress_msg h n 0 already total_size HdDownloading) s in
        case download_chunks_with_ranges E c seeder_url h ranges tx total_size s1 of
          (Inl e, s2) \<Rightarrow> (Err e, s2)
        | (Inr chunks, s2) \<Rightarrow>
            (case append_to E output_path chunks s2 of
               (False, s3) \<Rightarrow> (Err ''Failed to write chunk to file'', s3)
             | (True, s3) \<Rightarrow> (Ok (), send_progress tx (progress_msg h n n total_size total_size HdCompleted) s3)))
        (calculate_ranges_from_offset already total_size))"

section \<open>With events\<close>

definition event_bus_of :: "http_client \<Rightarrow> bool" where
  "event_bus_of c = hc_event_bus c"

text \<open>Emit an event that needs one reading of the clock, if there is a bus.\<close>

definition emit_at :: "http_env \<Rightarrow> bool \<Rightarrow> (u64 \<Rightarrow> transfer_event) \<Rightarrow> http_state \<Rightarrow> http_state" where
  "emit_at E bus mk s =
     (if bus then s\<lparr>hd_log := transfer_emit (he_emit_fails E) (mk (he_clock E (hd_ticks s))) (hd_log s), hd_ticks := hd_ticks s + 1\<rparr> else s)"

definition chunk_failed :: "http_download_config \<Rightarrow> byte_range \<Rightarrow> string \<Rightarrow> string \<Rightarrow> u32 \<Rightarrow> bool \<Rightarrow> u64 option \<Rightarrow> u64 \<Rightarrow> transfer_event" where
  "chunk_failed g r src err n again next_at t = TeChunkFailed \<lparr>cq_transfer_id = hg_transfer_id g, cq_chunk_id = br_index r mod 2 ^ 32,
     cq_source_id = src, cq_source_type = StHttp, cq_failed_at = t, cq_error = err, cq_retry_count = n, cq_will_retry = again,
     cq_next_retry_at = next_at\<rparr>"

definition retry_delay :: "nat \<Rightarrow> u64" where
  "retry_delay attempt = RETRY_DELAY_MS * min (2 ^ (attempt - 1)) 4"

definition retry_event :: "http_env \<Rightarrow> bool \<Rightarrow> http_download_config \<Rightarrow> string \<Rightarrow> byte_range \<Rightarrow> nat \<Rightarrow> http_state \<Rightarrow> http_state" where
  "retry_event E bus g src r attempt s =
     (if attempt > 0
      then let s1 = emit_at E bus (chunk_failed g r src
             (''Retrying chunk '' @ show_nat (br_index r) @ '' (attempt '' @ show_nat attempt @ '')'') (attempt - 1)
             (attempt < MAX_CHUNK_RETRIES) (Some (wadd64 (he_clock E (hd_ticks s + 1)) (retry_delay attempt)))) s
        in if bus then s1\<lparr>hd_ticks := hd_ticks s1 + 1\<rparr> else s1
      else s)"

definition transfer_speed :: "u64 \<Rightarrow> nat \<Rightarrow> f64" where
  "transfer_speed bytes elapsed_ns = (let secs = secs_f64 elapsed_ns in
     if f64_lt (F_Fin 0) secs then f64_div (f64_of_u64 bytes) secs else F_Fin 0)"

definition chunk_arrived ::
    "http_env \<Rightarrow> bool \<Rightarrow> http_download_config \<Rightarrow> string \<Rightarrow> string \<Rightarrow> usize \<Rightarrow> u64 \<Rightarrow> bool \<Rightarrow> byte_range \<Rightarrow> bytes \<Rightarrow> http_state \<Rightarrow> http_state" where
  "chunk_arrived E bus g src h total_chunks file_size tx r data s =
     (let duration = as_millis_u64 (he_elapsed E (hd_ticks s));
          b = wadd64 (hd_done_bytes s) (length data); n = wadd64 (hd_done_chunks s) 1;
          s1 = s\<lparr>hd_ticks := hd_ticks s + 1, hd_done_bytes := b, hd_done_chunks := n\<rparr>;
          s2 = emit_at E bus (\<lambda>t. TeChunkCompleted \<lparr>ce_transfer_id = hg_transfer_id g, ce_chunk_id = br_index r mod 2 ^ 32,
                 ce_chunk_size = length data, ce_source_id = src, ce_source_type = StHttp, ce_completed_at = t,
                 ce_download_duration_ms = duration, ce_verified = True\<rparr>) s1;
          s3 = (if bus \<and> (n mod 5 = 0 \<or> n = total_chunks)
                then let speed = transfer_speed b (he_elapsed E (hd_ticks s2)) in
                  emit_at E bus (\<lambda>t. TeProgress \<lparr>pe_transfer_id = hg_transfer_id g, pe_downloaded_bytes = b, pe_total_bytes = file_size,
                    pe_completed_chunks = n mod 2 ^ 32, pe_total_chunks = total_chunks mod 2 ^ 32,
                    pe_progress_percentage = calculate_progress b file_size, pe_download_speed_bps = speed, pe_upload_speed_bps = F_Fin 0,
                    pe_eta_seconds = calculate_eta (sat_sub file_size b) speed, pe_active_sources = 1, pe_timestamp = t\<rparr>)
                    (s2\<lparr>hd_ticks := hd_ticks s2 + 1\<rparr>)
                else s2)
      in send_progress tx (progress_msg h total_chunks n b file_size HdDownloading) s3)"

definition chunk_given_up ::
    "http_env \<Rightarrow> bool \<Rightarrow> http_download_config \<Rightarrow> string \<Rightarrow> byte_range \<Rightarrow> string option \<Rightarrow> bytes http_act" where
  "chunk_given_up E bus g src r last_error s =
     (let e = final_error r last_error in
      (Err e, emit_at E bus (chunk_failed g r src e MAX_CHUNK_RETRIES False None) s))"

fun chunk_attempts_ev ::
    "http_env \<Rightarrow> http_client \<Rightarrow> bool \<Rightarrow> http_download_config \<Rightarrow> string \<Rightarrow> string \<Rightarrow> string \<Rightarrow> usize \<Rightarrow> u64 \<Rightarrow> bool \<Rightarrow> byte_range \<Rightarrow> nat list \<Rightarrow>
     string option \<Rightarrow> bytes http_act" where
  "chunk_attempts_ev E c bus g src url h total_chunks file_size tx r [] last_error s = chunk_given_up E bus g src r last_error s"
| "chunk_attempts_ev E c bus g src url h total_chunks file_size tx r (a # as) last_error s =
     (let s1 = retry_event E bus g src r a s in
      case attempt_chunk E c url r a of
        ChunkData data \<Rightarrow> (Ok data, chunk_arrived E bus g src h total_chunks file_size tx r data s1)
      | RetryAfter e \<Rightarrow> chunk_attempts_ev E c bus g src url h total_chunks file_size tx r as (Some e) s1
      | GiveUp e \<Rightarrow> chunk_given_up E bus g src r (Some e) (emit_at E bus (chunk_failed g r src e a False None) s1))"

text \<open>The tasks, in the order in which they run; \<open>results\<close> holds what has been returned.\<close>

fun run_tasks ::
    "(byte_range \<Rightarrow> bytes http_act) \<Rightarrow> byte_range list \<Rightarrow> (usize \<rightharpoonup> (string, bytes) result) \<Rightarrow> http_state \<Rightarrow> (usize \<rightharpoonup> (string, bytes) result) \<times> http_state" where
  "run_tasks f [] results s = (results, s)"
| "run_tasks f (r # rs) results s = (case f r s of (x, s') \<Rightarrow> run_tasks f rs (results(br_index r \<mapsto> x)) s')"

fun collect_results :: "byte_range list \<Rightarrow> (usize \<rightharpoonup> (string, bytes) result) \<Rightarrow> (string, (usize \<times> bytes) list) result" where
  "collect_results [] results = Ok []"
| "collect_results (r # rs) results =
     (case results (br_index r) of
        Some (Inr data) \<Rightarrow> rbind (collect_results rs results) (\<lambda>xs. Ok ((br_index r, data) # xs))
      | Some (Inl e) \<Rightarrow> Err e
      | None \<Rightarrow> Err ''Download task failed'')"

definition download_chunks_with_events ::
    "http_env \<Rightarrow> http_client \<Rightarrow> bool \<Rightarrow> http_download_config \<Rightarrow> byte_range list \<Rightarrow> string \<Rightarrow> string \<Rightarrow> byte_range list \<Rightarrow> bool \<Rightarrow> u64 \<Rightarrow> bytes list http_act" where
  "download_chunks_with_events E c bus g schedule seeder_url h ranges tx file_size s =
     (let url = file_url seeder_url h; src = ''http-'' @ seeder_url;
          task = (\<lambda>r. chunk_attempts_ev E c bus g src url h (length ranges) file_size tx r [0 ..< MAX_CHUNK_RETRIES + 1] None);
          (results, s') = run_tasks task schedule Map.empty (s\<lparr>hd_done_bytes := 0, hd_done_chunks := 0\<rparr>) in
      (case collect_results ranges results of Inl e \<Rightarrow> Err e | Inr rs \<Rightarrow> Ok (in_order rs), s'))"

definition transfer_failed :: "http_download_config \<Rightarrow> string \<Rightarrow> string \<Rightarrow> error_category \<Rightarrow> u64 \<Rightarrow> u64 \<Rightarrow> bool \<Rightarrow> u64 \<Rightarrow> transfer_event" where
  "transfer_failed g h e cat downloaded total_bytes retry t = TeFailed \<lparr>fe_transfer_id = hg_transfer_id g, fe_file_hash = h, fe_failed_at = t,
     fe_error = e, fe_error_category = cat, fe_downloaded_bytes = downloaded, fe_total_bytes = total_bytes, fe_retry_possible = retry\<rparr>"

definition source_gone :: "http_download_config \<Rightarrow> string \<Rightarrow> disconnect_reason \<Rightarrow> u32 \<Rightarrow> u64 \<Rightarrow> transfer_event" where
  "source_gone g src reason n t = TeSourceDisconnected \<lparr>sx_transfer_id = hg_transfer_id g, sx_source_id = src, sx_source_type = StHttp,
     sx_disconnected_at = t, sx_reason = reason, sx_chunks_completed = n, sx_will_retry = False\<rparr>"

definition http_source_info_of :: "string \<Rightarrow> string \<Rightarrow> source_info" where
  "http_source_info_of src seeder_url = \<lparr>sf_id = src, sf_source_type = StHttp, sf_address = seeder_url, sf_reputation = None,
     sf_estimated_speed_bps = None, sf_latency_ms = None, sf_location = None\<rparr>"

definition source_connected :: "http_download_config \<Rightarrow> string \<Rightarrow> string \<Rightarrow> u32 list \<Rightarrow> u64 \<Rightarrow> transfer_event" where
  "source_connected g src seeder_url chunks t = TeSourceConnected \<lparr>sc_transfer_id = hg_transfer_id g, sc_source_id = src, sc_source_type = StHttp,
     sc_source_info = http_source_info_of src seeder_url, sc_connected_at = t, sc_assigned_chunks = chunks\<rparr>"

text \<open>Whole seconds since the start, and the average over them (over one second when less has passed).\<close>

definition average_speed :: "u64 \<Rightarrow> u64 \<Rightarrow> f64" where
  "average_speed bytes secs = (if secs > 0 then f64_div (f64_of_u64 bytes) (f64_of_u64 secs) else f64_of_u64 bytes)"

definition transfer_completed ::
    "http_download_config \<Rightarrow> string \<Rightarrow> path \<Rightarrow> u64 \<Rightarrow> u64 \<Rightarrow> f64 \<Rightarrow> u32 \<Rightarrow> source_summary list \<Rightarrow> u64 \<Rightarrow> transfer_event" where
  "transfer_completed g h output_path size_bytes secs speed n used t = TeCompleted \<lparr>co_transfer_id = hg_transfer_id g, co_file_hash = h,
     co_file_name = hg_file_name g, co_file_size = size_bytes, co_output_path = path_to_string output_path, co_completed_at = t,
     co_duration_seconds = secs, co_average_speed_bps = speed, co_total_chunks = n, co_sources_used = used\<rparr>"

definition used_source :: "string \<Rightarrow> u32 \<Rightarrow> u64 \<Rightarrow> f64 \<Rightarrow> u64 \<Rightarrow> source_summary" where
  "used_source src n bytes speed secs = \<lparr>su_source_id = src, su_source_type = StHttp, su_chunks_provided = n, su_bytes_provided = bytes,
     su_average_speed_bps = speed, su_connection_duration_seconds = secs\<rparr>"

definition download_file_with_events ::
    "http_env \<Rightarrow> http_client \<Rightarrow> (byte_range list \<Rightarrow> byte_range list) \<Rightarrow> string \<Rightarrow> string \<Rightarrow> path \<Rightarrow> http_download_config \<Rightarrow> bool \<Rightarrow> http_state \<Rightarrow>
     ((string, unit) result \<times> http_state) option" where
  "download_file_with_events E c schedule seeder_url h output_path g tx s =
     (let bus = event_bus_of c; src = ''http-'' @ seeder_url;
          s0 = send_progress tx (progress_msg h 0 0 0 0 HdFetchingMetadata) s in
      case fetch_metadata E c seeder_url h of
        Inl e \<Rightarrow> Some (Err e, emit_at E bus (transfer_failed g h e EcNetwork 0 0 True) s0)
      | Inr m \<Rightarrow> map_option (\<lambda>ranges.
          let n = length ranges mod 2 ^ 32; sz = cl_size m;
              s1 = emit_at E bus (\<lambda>t. TeStarted \<lparr>se_transfer_id = hg_transfer_id g, se_file_hash = h, se_file_name = hg_file_name g,
                     se_file_size = sz, se_total_chunks = n, se_chunk_size = HTTP_CHUNK_SIZE, se_started_at = t,
                     se_available_sources = [http_source_info_of src seeder_url], se_selected_sources = [src]\<rparr>) s0;
              s2 = emit_at E bus (source_connected g src seeder_url [0..<n]) s1;
              s3 = send_progress tx (progress_msg h n 0 0 sz HdDownloading) s2 in
          case download_chunks_with_events E c bus g (schedule ranges) seeder_url h ranges tx sz s3 of
            (Inl e, s4) \<Rightarrow> (Err e, emit_at E bus (source_gone g src DrNetworkError 0)
                             (emit_at E bus (transfer_failed g h e EcNetwork 0 sz True) s4))
          | (Inr chunks, s4) \<Rightarrow>
              let s5 = send_progress tx (progress_msg h n n sz sz HdAssembling) s4 in
              case assemble_file E chunks output_path s5 of
                (Inl e, s6) \<Rightarrow> (Err e, emit_at E bus (transfer_failed g h e EcFilesystem sz sz False) s6)
              | (Inr _, s6) \<Rightarrow>
                  let secs = he_elapsed E (hd_ticks s6) div 10 ^ 9; speed = average_speed sz secs;
                      s7 = send_progress tx (progress_msg h n n sz sz HdCompleted) (s6\<lparr>hd_ticks := hd_ticks s6 + 1\<rparr>);
                      s8 = emit_at E bus (source_gone g src DrCompleted n) s7;
                      s9 = emit_at E bus (transfer_completed g h output_path sz secs speed n [used_source src n sz speed secs]) s8
                  in (Ok (), s9))
          (calculate_ranges (cl_size m)))"

definition resume_download_with_events ::
    "http_env \<Rightarrow> http_client \<Rightarrow> (byte_range list \<Rightarrow> byte_range list) \<Rightarrow> string \<Rightarrow> string \<Rightarrow> path \<Rightarrow> u64 \<Rightarrow> u64 \<Rightarrow> http_download_config \<Rightarrow> bool \<Rightarrow>
     http_state \<Rightarrow> ((string, unit) result \<times> http_state) option" where
  "resume_download_with_events E c schedule seeder_url h output_path already total_size g tx s =
     (let bus = event_bus_of c; src = ''http-'' @ seeder_url; remaining = sat_sub total_size already in
      if remaining = 0
      then let n = total_size div HTTP_CHUNK_SIZE;
               s1 = emit_at E bus (transfer_completed g h output_path total_size 0 (F_Fin 0) (n mod 2 ^ 32) []) s in
        Some (Ok (), send_progress tx (progress_msg h n n total_size total_size HdCompleted) s1)
      else map_option (\<lambda>ranges.
        let n = length ranges mod 2 ^ 32; before = (already div HTTP_CHUNK_SIZE) mod 2 ^ 32;
            s1 = emit_at E bus (\<lambda>t. TeResumed \<lparr>re_transfer_id = hg_transfer_id g, re_resumed_at = t, re_downloaded_bytes = already,
                   re_remaining_bytes = remaining, re_active_sources = 1\<rparr>) s;
            s2 = emit_at E bus (source_connected g src seeder_url (map (\<lambda>r. br_index r mod 2 ^ 32) ranges)) s1 in
        if \<not> can_append E output_path s2
        then (Err ''Failed to open file for resume'',
              emit_at E bus (transfer_failed g h ''Failed to open file for resume'' EcFilesystem already total_size True) s2)
        else
          let s3 = send_progress tx (progress_msg h (n + before) before already total_size HdDownloading) s2 in
          case download_chunks_with_events E c bus g (schedule ranges) seeder_url h ranges tx total_size s3 of
            (Inl e, s4) \<Rightarrow> (Err e, emit_at E bus (source_gone g src DrNetworkError 0)
                             (emit_at E bus (transfer_failed g h e EcNetwork already total_size True) s4))
          | (Inr chunks, s4) \<Rightarrow>
              (case append_to E output_path chunks s4 of
                 (False, s5) \<Rightarrow> (Err ''Failed to write chunk to file'',
                    emit_at E bus (transfer_failed g h ''Failed to write chunk to file'' EcFilesystem already total_size False) s5)
               | (True, s5) \<Rightarrow>
                   if io_fails (he_io E) (IoFlush output_path)
                   then (Err ''Failed to flush file'',
                         emit_at E bus (transfer_failed g h ''Failed to flush file'' EcFilesystem total_size total_size False) s5)
                   else
                     let secs = he_elapsed E (hd_ticks s5) div 10 ^ 9; speed = average_speed remaining secs;
                         s6 = send_progress tx (progress_msg h (n + before) (n + before) total_size total_size HdCompleted)
                                (s5\<lparr>hd_ticks := hd_ticks s5 + 1\<rparr>);
                         s7 = emit_at E bus (source_gone g src DrCompleted n) s6;
                         s8 = emit_at E bus (transfer_completed g h output_path total_size secs speed (wadd32 n before)
                                [used_source src n remaining speed secs]) s7
                     in (Ok (), s8)))
        (calculate_ranges_from_offset already total_size))"

end
