(* ===== verification/HttpTransfer.thy ===== *)
theory HttpTransfer
  imports HttpDownload Actions
begin

text \<open>
  The HTTP client against the HTTP server of the program: what a download leaves on the client's disk, how resuming completes a
  file, that the version with events returns what the plain one does, and which name the completed event gives.
\<close>

section \<open>Ranges tile the file\<close>

definition range_slice :: "bytes \<Rightarrow> byte_range \<Rightarrow> bytes" where
  "range_slice content r = take (br_end r - br_start r + 1) (drop (br_start r) content)"

definition range_in :: "nat \<Rightarrow> byte_range \<Rightarrow> bool" where
  "range_in n r \<longleftrightarrow> br_start r \<le> br_end r \<and> br_end r < n"

lemma ranges_tile:
  assumes "length content + HTTP_CHUNK_SIZE \<le> 2 ^ 64" "off \<le> length content"
  shows "\<exists>rs. ranges_loop (length content) off i = Some rs \<and> concat (map (range_slice content) rs) = drop off content
    \<and> map br_index rs = [i..<i + length rs] \<and> list_all (range_in (length content)) rs"
  using assms(2)
proof (induction "length content - off" arbitrary: off i rule: less_induct)
  case less
  show ?case
  proof (cases "off < length content")
    case False
    then show ?thesis using less.prems by (subst ranges_loop.simps) simp
  next
    case True
    define e where "e = min (off + HTTP_CHUNK_SIZE - 1) (length content - 1)"
    have cs: "0 < HTTP_CHUNK_SIZE" by (simp add: HTTP_CHUNK_SIZE_def)
    have e: "min (wsub64 (wadd64 off HTTP_CHUNK_SIZE) 1) (length content - 1) = e" "off \<le> e" "e < length content"
      using assms(1) True cs by (auto simp: e_def wadd64_no_overflow wsub64_def)
    have nxt: "wadd64 e 1 = e + 1" using e(3) assms(1) cs by (simp add: wadd64_no_overflow)
    have lt: "length content - (e + 1) < length content - off" and le: "e + 1 \<le> length content" using e(2,3) by linarith+
    obtain rs where rs: "ranges_loop (length content) (e + 1) (i + 1) = Some rs" "concat (map (range_slice content) rs) = drop (e + 1) content"
        "map br_index rs = [i + 1..<i + 1 + length rs]" "list_all (range_in (length content)) rs"
      using less.hyps [OF lt le, of "i + 1"] by blast
    let ?r = "\<lparr>br_start = off, br_end = e, br_index = i\<rparr>"
    have "ranges_loop (length content) off i = Some (?r # rs)"
      using True by (subst ranges_loop.simps) (simp only: e nxt rs(1) Let_def if_True bind.bind_lunit)
    moreover have "range_slice content ?r @ drop (e + 1) content = drop off content"
    proof -
      have "drop (e + 1) content = drop (e - off + 1) (drop off content)" using e(2) by simp
      then show ?thesis unfolding range_slice_def by (simp only: byte_range.simps append_take_drop_id)
    qed
    moreover have "range_in (length content) ?r" using e by (simp add: range_in_def)
    moreover have "map br_index (?r # rs) = [i..<i + length (?r # rs)]"
      using rs(3) by (simp add: upt_conv_Cons del: upt_Suc)
    ultimately show ?thesis using rs by (intro exI [of _ "?r # rs"]) (simp del: upt_Suc)
  qed
qed

section \<open>The server answers the client\<close>

definition server_get :: "server_json \<Rightarrow> io_env \<Rightarrow> disk \<Rightarrow> string \<Rightarrow> http_server_state \<Rightarrow> string \<Rightarrow> http_request \<Rightarrow> nat \<Rightarrow> net_answer" where
  "server_get sj io d base st url req attempt =
     (case strip_prefix base url of
        None \<Rightarrow> SendError False ''unknown host''
      | Some p \<Rightarrow> let resp = fst (http_route sj io d (tl (split_on (CHR ''/'') p)) req st) in Answer (hx_status resp) (Ok (hx_body resp)))"

text \<open>A server that holds \<open>content\<close> under \<open>h\<close>, reached by the client, with encodings that agree.\<close>

definition http_serves :: "http_env \<Rightarrow> server_json \<Rightarrow> io_env \<Rightarrow> disk \<Rightarrow> string \<Rightarrow> http_server_state \<Rightarrow> string \<Rightarrow> bytes \<Rightarrow> bool" where
  "http_serves E sj io d base st h content \<longleftrightarrow>
     he_get E = server_get sj io d base st \<and> CHR ''/'' \<notin> set h \<and> length content + HTTP_CHUNK_SIZE \<le> 2 ^ 64
     \<and> (case hs_files st h of
          None \<Rightarrow> False
        | Some m \<Rightarrow>
            let p = path_join (hs_storage_dir st) (hm_file_hash m) in
            hm_size m = length content \<and> d p = Some content
            \<and> \<not> io_fails io (IoStat p) \<and> \<not> io_fails io (IoOpen p) \<and> \<not> io_fails io (IoRead p) \<and> list_all (\<lambda>n. \<not> io_fails io (IoSeek p n)) [0..<length content]
            \<and> (case he_parse_metadata E (sj_metadata sj m) of Inl _ \<Rightarrow> False | Inr cm \<Rightarrow> cl_size cm = hm_size m))"

lemma http_serves_cases:
  assumes "http_serves E sj io d base st h content"
  obtains m p cm where "hs_files st h = Some m" "p = path_join (hs_storage_dir st) (hm_file_hash m)" "hm_size m = length content" "d p = Some content"
    "\<not> io_fails io (IoStat p)" "\<not> io_fails io (IoOpen p)" "\<not> io_fails io (IoRead p)" "\<forall>n < length content. \<not> io_fails io (IoSeek p n)"
    "he_parse_metadata E (sj_metadata sj m) = Inr cm" "cl_size cm = length content"
  using assms by (auto simp: http_serves_def Let_def list_all_iff split: option.splits sum.splits)

lemma route_segments:
  assumes "CHR ''/'' \<notin> set h"
  shows "tl (split_on (CHR ''/'') (''/files/'' @ h)) = [''files'', h]"
    "tl (split_on (CHR ''/'') (''/files/'' @ h @ ''/metadata'')) = [''files'', h, ''metadata'']"
  using assms by (simp_all add: split_on_none split_on_append)

lemma range_header_visible: "header_str (''bytes='' @ show_nat a @ ''-'' @ show_nat b) = Some (''bytes='' @ show_nat a @ ''-'' @ show_nat b)"
proof -
  have "\<forall>c \<in> set (show_nat n). 32 \<le> (of_char c :: nat) \<and> (of_char c :: nat) < 127" for n
    using show_nat_chars [of n] by auto
  then show ?thesis by (auto simp: header_str_def)
qed

lemma served_range:
  assumes S: "http_serves E sj io d base st h content" and r: "range_in (length content) r"
  shows "he_get E (file_url base h) (range_request c r) k = Answer 206 (Ok (range_slice content r))"
proof -
  obtain m p cm where m: "hs_files st h = Some m" "p = path_join (hs_storage_dir st) (hm_file_hash m)" "hm_size m = length content"
      "d p = Some content" and io: "\<not> io_fails io (IoStat p)" "\<not> io_fails io (IoOpen p)" "\<not> io_fails io (IoRead p)"
      "\<forall>n < length content. \<not> io_fails io (IoSeek p n)" and cm: "he_parse_metadata E (sj_metadata sj m) = Inr cm" "cl_size cm = length content"
    using S by (rule http_serves_cases)
  have get: "he_get E = server_get sj io d base st" and h: "CHR ''/'' \<notin> set h" and small: "length content < 2 ^ 64"
    using S by (auto simp: http_serves_def HTTP_CHUNK_SIZE_def)
  have ab: "br_start r \<le> br_end r" "br_end r < length content" using r by (auto simp: range_in_def)
  have "parse_range_header (''bytes='' @ show_nat (br_start r) @ ''-'' @ show_nat (br_end r)) (length content) = Some (br_start r, br_end r)"
    using ab small by (subst parse_written_range) (auto simp: u64_max_def min_def)
  moreover have "wadd64 (br_end r - br_start r) 1 = br_end r - br_start r + 1" using ab small by (simp add: wadd64_no_overflow)
  ultimately have "serve_file_range sj io p (''bytes='' @ show_nat (br_start r) @ ''-'' @ show_nat (br_end r)) (length content) d =
     \<lparr>hx_status = 206, hx_headers = hx_headers (serve_file_range sj io p (''bytes='' @ show_nat (br_start r) @ ''-'' @ show_nat (br_end r)) (length content) d),
      hx_body = range_slice content r\<rparr>"
    using m io ab by (simp add: serve_file_range_def read_exact_def range_slice_def)
  then have "hx_status (serve_file_range sj io p (''bytes='' @ show_nat (br_start r) @ ''-'' @ show_nat (br_end r)) (length content) d) = 206"
      "hx_body (serve_file_range sj io p (''bytes='' @ show_nat (br_start r) @ ''-'' @ show_nat (br_end r)) (length content) d) = range_slice content r"
    by (metis http_response.select_convs)+
  with m io show ?thesis
    using route_segments(1) [OF h] range_header_visible [of "br_start r" "br_end r"]
    by (simp add: get server_get_def file_url_def http_route_def serve_file_def get_file_metadata_def range_request_def fs_exists_def Let_def)
qed

lemma served_metadata:
  assumes S: "http_serves E sj io d base st h content"
  shows "\<exists>cm. fetch_metadata E c base h = Ok cm \<and> cl_size cm = length content"
proof -
  obtain m p cm where m: "hs_files st h = Some m" "p = path_join (hs_storage_dir st) (hm_file_hash m)" "hm_size m = length content"
      "d p = Some content" and io: "\<not> io_fails io (IoStat p)" "\<not> io_fails io (IoOpen p)" "\<not> io_fails io (IoRead p)"
      "\<forall>n < length content. \<not> io_fails io (IoSeek p n)" and cm: "he_parse_metadata E (sj_metadata sj m) = Inr cm" "cl_size cm = length content"
    using S by (rule http_serves_cases)
  have get: "he_get E = server_get sj io d base st" and h: "CHR ''/'' \<notin> set h" using S by (auto simp: http_serves_def)
  show ?thesis
    using route_segments(2) [OF h] m cm
    by (simp add: fetch_metadata_def get server_get_def file_url_def http_route_def serve_metadata_def get_file_metadata_def json_response_def
        status_ok_def Let_def)
qed

section \<open>Results of the tasks\<close>

lemma served_attempt:
  assumes "http_serves E sj io d base st h content" "range_in (length content) r"
  shows "attempt_chunk E c (file_url base h) r k = ChunkData (range_slice content r)"
proof -
  have ab: "br_start r \<le> br_end r" "br_end r < length content" and small: "length content < 2 ^ 64"
    using assms by (auto simp: range_in_def http_serves_def HTTP_CHUNK_SIZE_def)
  then have "expected_size r = length (range_slice content r)"
    by (simp add: expected_size_def range_slice_def wsub64_def wadd64_no_overflow)
  then show ?thesis by (simp add: attempt_chunk_def served_range [OF assms])
qed

lemma served_task:
  assumes "http_serves E sj io d base st h content" "range_in (length content) r"
  shows "chunk_task E c (file_url base h) r = Ok (range_slice content r)"
  by (simp add: chunk_task_def upt_conv_Cons MAX_CHUNK_RETRIES_def served_attempt [OF assms])

lemma send_progress_disk [simp]: "hd_disk (send_progress tx m s) = hd_disk s"
  by (simp add: send_progress_def)

lemma await_all_ok:
  "\<exists>s'. await_chunks tx h n fs (map (\<lambda>r. (f r, Inr (g r))) rs) k b acc s = (Inr (acc @ map (\<lambda>r. (f r, g r)) rs), s') \<and> hd_disk s' = hd_disk s"
proof (induction rs arbitrary: k b acc s)
  case (Cons r rs)
  show ?case
    using Cons.IH [where acc = "acc @ [(f r, g r)]" and k = "wadd64 k 1" and b = "wadd64 b (length (g r))"
        and s = "send_progress tx (progress_msg h n (wadd64 k 1) (wadd64 b (length (g r))) fs HdDownloading) s"]
    by (simp add: Let_def)
qed simp

lemma in_order_sorted: "sorted (map fst xs) \<Longrightarrow> in_order xs = map snd xs"
  by (simp add: in_order_def sorted_sort_id sort_key_id_if_sorted)

lemma served_chunks:
  assumes S: "http_serves E sj io d base st h content" and off: "off \<le> length content"
  shows "\<exists>rs chunks s'. ranges_loop (length content) off i = Some rs \<and> concat chunks = drop off content
    \<and> download_chunks_with_ranges E c base h rs tx fs s = (Ok chunks, s') \<and> hd_disk s' = hd_disk s"
proof -
  have "length content + HTTP_CHUNK_SIZE \<le> 2 ^ 64" using S by (simp add: http_serves_def)
  from ranges_tile [OF this off] obtain rs where rs: "ranges_loop (length content) off i = Some rs"
      "concat (map (range_slice content) rs) = drop off content" "map br_index rs = [i..<i + length rs]" "list_all (range_in (length content)) rs"
    by blast
  have tasks: "map (\<lambda>r. (br_index r, chunk_task E c (file_url base h) r)) rs = map (\<lambda>r. (br_index r, Inr (range_slice content r))) rs"
    using rs(4) served_task [OF S] by (auto simp: list_all_iff)
  obtain s' where s': "await_chunks tx h (length rs) fs (map (\<lambda>r. (br_index r, Inr (range_slice content r))) rs) 0 0 [] s
      = (Inr (map (\<lambda>r. (br_index r, range_slice content r)) rs), s')" "hd_disk s' = hd_disk s"
    using await_all_ok [of tx h "length rs" fs br_index "range_slice content" rs 0 0 "[]" s] by auto
  have "in_order (map (\<lambda>r. (br_index r, range_slice content r)) rs) = map (range_slice content) rs"
    using rs(3) by (subst in_order_sorted) (simp_all add: comp_def)
  with s' rs(2) have "concat (map (range_slice content) rs) = drop off content
      \<and> download_chunks_with_ranges E c base h rs tx fs s = (Ok (map (range_slice content) rs), s') \<and> hd_disk s' = hd_disk s"
    by (simp add: download_chunks_with_ranges_def tasks)
  with rs(1) show ?thesis by blast
qed

section \<open>Writing\<close>

lemma write_pieces_ok:
  assumes "\<not> io_fails io (IoWrite p)"
  shows "d p = Some b \<Longrightarrow> write_pieces io p (length b) xs d = (True, d(p \<mapsto> b @ concat xs))"
proof (induction xs arbitrary: b d)
  case Nil
  then show ?case by (simp add: fun_upd_idem)
next
  case (Cons x xs)
  have w: "write_at (length b) x b = b @ x" by (simp add: write_at_def)
  have "write_pieces io p (length (b @ x)) xs (d(p \<mapsto> b @ x)) = (True, d(p \<mapsto> (b @ x) @ concat xs))"
    by (subst Cons.IH) (simp_all only: fun_upd_same fun_upd_upd)
  moreover have "write_all_at io p (length b) x d = (True, d(p \<mapsto> b @ x))"
    using Cons.prems assms w by (simp add: write_all_at_def)
  ultimately show ?case by (simp only: write_pieces.simps prod.case bool.case length_append append_assoc concat.simps)
qed

text \<open>The disk of the client accepts the output file under a free name.\<close>

definition can_write :: "http_env \<Rightarrow> path \<Rightarrow> http_state \<Rightarrow> bool" where
  "can_write E out s \<longleftrightarrow> (let io = he_io E; p = get_unique_filepath io out (hd_disk s) in
     (case parent out of None \<Rightarrow> True | Some q \<Rightarrow> \<not> io_fails io (IoMkdir q))
     \<and> \<not> io_fails io (IoOpen p) \<and> \<not> io_fails io (IoWrite p) \<and> \<not> io_fails io (IoFlush p))"

lemma assembled_when:
  assumes "can_write E out s" "hd_disk t = hd_disk s" "p = get_unique_filepath (he_io E) out (hd_disk s)"
  shows "assemble_file E chunks out t = (Ok (), t\<lparr>hd_disk := (hd_disk s)(p \<mapsto> concat chunks)\<rparr>)"
proof -
  have io: "\<not> io_fails (he_io E) (IoOpen p)" "\<not> io_fails (he_io E) (IoWrite p)" "\<not> io_fails (he_io E) (IoFlush p)"
    using assms(1,3) by (auto simp: can_write_def Let_def)
  have "write_pieces (he_io E) p 0 chunks ((hd_disk s)(p \<mapsto> [])) = (True, (hd_disk s)(p \<mapsto> concat chunks))"
    using write_pieces_ok [OF io(2), of "(hd_disk s)(p \<mapsto> [])" "[]" chunks] by (simp only: fun_upd_same fun_upd_upd list.size append_Nil)
  with assms io show ?thesis by (auto simp: assemble_file_def fs_mkdir_def can_write_def Let_def split: option.splits)
qed

section \<open>Free names\<close>

text \<open>
  The name chosen is free, or all thousand numbered names are taken; then the last of them is overwritten.
\<close>

lemma unique_from_free:
  assumes "c \<le> 1000"
  shows "\<not> fs_exists io (unique_from io d p c) d
    \<or> (unique_from io d p c = unique_candidate p 1000 \<and> (\<forall>n. c \<le> n \<and> n \<le> 1000 \<longrightarrow> fs_exists io (unique_candidate p n) d))"
  using assms
proof (induction io d p c rule: unique_from.induct)
  case (1 io d p c)
  note step = unique_from.simps [of io d p c, unfolded Let_def]
  show ?case
  proof (cases "fs_exists io (unique_candidate p c) d \<and> c < 1000")
    case False
    then show ?thesis using 1(2) by (auto simp: step)
  next
    case True
    then have eq: "unique_from io d p c = unique_from io d p (c + 1)" by (simp add: step)
    have "(\<forall>n. c + 1 \<le> n \<and> n \<le> 1000 \<longrightarrow> fs_exists io (unique_candidate p n) d) \<longrightarrow> (\<forall>n. c \<le> n \<and> n \<le> 1000 \<longrightarrow> fs_exists io (unique_candidate p n) d)"
      using True by (metis Suc_eq_plus1 Suc_leI le_neq_implies_less)
    moreover have "\<not> fs_exists io (unique_from io d p (c + 1)) d
        \<or> unique_from io d p (c + 1) = unique_candidate p 1000 \<and> (\<forall>n. c + 1 \<le> n \<and> n \<le> 1000 \<longrightarrow> fs_exists io (unique_candidate p n) d)"
      by (rule 1(1) [OF refl]) (use True in simp_all)
    ultimately show ?thesis unfolding eq by blast
  qed
qed

lemma unique_from_candidate: "c \<le> 1000 \<Longrightarrow> \<exists>n. 1 \<le> c \<longrightarrow> n \<in> {1..1000} \<and> unique_from io d p c = unique_candidate p n"
proof (induction io d p c rule: unique_from.induct)
  case (1 io d p c)
  note step = unique_from.simps [of io d p c, unfolded Let_def]
  show ?case
  proof (cases "fs_exists io (unique_candidate p c) d \<and> c < 1000")
    case True
    then have eq: "unique_from io d p c = unique_from io d p (c + 1)" by (simp add: step)
    have "\<exists>n. 1 \<le> c + 1 \<longrightarrow> n \<in> {1..1000} \<and> unique_from io d p (c + 1) = unique_candidate p n"
      by (rule 1(1) [OF refl]) (use True in simp_all)
    then show ?thesis unfolding eq by auto
  qed (use 1(2) in \<open>auto simp: step intro!: exI [of _ c]\<close>)
qed

lemma unique_path_free:
  "\<not> fs_exists io (get_unique_filepath io p d) d \<or> (\<forall>n. 1 \<le> n \<and> n \<le> 1000 \<longrightarrow> fs_exists io (unique_candidate p n) d)"
  using unique_from_free [of 1 io d p] by (auto simp: get_unique_filepath_def)

lemma free_name:
  assumes "\<And>q. \<not> io_fails io (IoStat q)" "d out = None \<or> (\<exists>n \<in> {1..1000}. d (unique_candidate out n) = None)" "p = get_unique_filepath io out d"
  shows "d p = None" "p = out \<or> (\<exists>n \<in> {1..1000}. p = unique_candidate out n)" "d out = None \<Longrightarrow> p = out"
proof -
  have e: "fs_exists io q d \<longleftrightarrow> d q \<noteq> None" for q using assms(1) by (simp add: fs_exists_def)
  show "d p = None" using unique_path_free [of io out d] assms(2,3) unfolding e by (auto simp: get_unique_filepath_def e)
  show "p = out \<or> (\<exists>n \<in> {1..1000}. p = unique_candidate out n)"
    using unique_from_candidate [of 1 io d out] by (auto simp: assms(3) get_unique_filepath_def)
  show "p = out" if "d out = None" using that by (simp add: assms(3) get_unique_filepath_def e)
qed

section \<open>Downloads are exact\<close>

text \<open>
  C35: Downloading a file from the program's own server ends, succeeds, and changes the disk of the client at one place, where no file was: the output path,
  or when that is taken one of its thousand numbered variants, holds exactly the file the server stores. This is if one of these names is free and
  the calls of the client's file system work.
\<close>

theorem http_download_exact:
  assumes "http_serves E sj io d base st h content" "can_write E out s" "\<And>q. \<not> io_fails (he_io E) (IoStat q)"
    and "hd_disk s out = None \<or> (\<exists>n \<in> {1..1000}. hd_disk s (unique_candidate out n) = None)"
  shows "\<exists>p s'. download_file E c base h out tx s = Some (Ok (), s') \<and> hd_disk s' = (hd_disk s)(p \<mapsto> content) \<and>
    hd_disk s p = None \<and> (p = out \<or> (\<exists>n \<in> {1..1000}. p = unique_candidate out n)) \<and> (hd_disk s out = None \<longrightarrow> p = out)"
proof -
  obtain cm where cm: "fetch_metadata E c base h = Ok cm" "cl_size cm = length content" using served_metadata [OF assms(1)] by blast
  define s0 where "s0 = send_progress tx (progress_msg h 0 0 0 0 HdFetchingMetadata) s"
  from served_chunks [OF assms(1), of 0 0] obtain rs where rs: "ranges_loop (length content) 0 0 = Some rs" by blast
  define s1 where "s1 = send_progress tx (progress_msg h (length rs) 0 0 (length content) HdDownloading) s0"
  from served_chunks [OF assms(1), of 0 0 c tx "length content" s1] rs obtain chunks s2 where ch: "concat chunks = content"
      "download_chunks_with_ranges E c base h rs tx (length content) s1 = (Ok chunks, s2)" "hd_disk s2 = hd_disk s1" by auto
  define s3 where "s3 = send_progress tx (progress_msg h (length rs) (length rs) (length content) (length content) HdAssembling) s2"
  have disk: "hd_disk s3 = hd_disk s" using ch by (simp add: s3_def s1_def s0_def)
  have asm: "assemble_file E chunks out s3 = (Ok (), s3\<lparr>hd_disk := (hd_disk s)(get_unique_filepath (he_io E) out (hd_disk s) \<mapsto> content)\<rparr>)"
    using assembled_when [OF assms(2) disk refl] ch(1) by simp
  then obtain s' where run: "download_file E c base h out tx s = Some (Ok (), s')" "hd_disk s' = (hd_disk s)(get_unique_filepath (he_io E) out (hd_disk s) \<mapsto> content)"
    by (simp add: download_file_def cm calculate_ranges_def rs Let_def s0_def [symmetric] s1_def [symmetric] ch s3_def [symmetric])
  let ?p = "get_unique_filepath (he_io E) out (hd_disk s)"
  have "hd_disk s ?p = None" "?p = out \<or> (\<exists>n \<in> {1..1000}. ?p = unique_candidate out n)" "hd_disk s out = None \<longrightarrow> ?p = out"
    using free_name [OF assms(3,4) refl] by simp_all
  with run show ?thesis by (intro exI [of _ ?p] exI [of _ s']) (simp only: simp_thms)
qed

definition demo_http_env :: "disk \<Rightarrow> http_env" where
  "demo_http_env d = \<lparr>he_io = no_faults, he_get = server_get demo_json no_faults d ''http://s'' demo_server,
     he_parse_metadata = (\<lambda>b. Inr \<lparr>cl_hash = ''r'', cl_name = b, cl_size = 4, cl_encrypted = False\<rparr>), he_status_text = show_nat,
     he_clock = id, he_elapsed = id, he_emit_fails = (\<lambda>_. False)\<rparr>"

definition demo_http_state :: "disk \<Rightarrow> http_state" where
  "demo_http_state d = \<lparr>hd_disk = d, hd_progress = [], hd_log = [], hd_ticks = 0, hd_done_bytes = 0, hd_done_chunks = 0\<rparr>"

lemma demo_serves: "http_serves (demo_http_env [[''s'', ''f''] \<mapsto> ''abcd'']) demo_json no_faults [[''s'', ''f''] \<mapsto> ''abcd''] ''http://s'' demo_server ''r'' ''abcd''"
  using demo_stored
  by (simp add: http_serves_def demo_http_env_def demo_server_def register_file_def set_dht_def new_http_server_state_def demo_metadata_def HTTP_CHUNK_SIZE_def)

lemma demo_can_write: "he_io E = no_faults \<Longrightarrow> can_write E out s"
  by (simp add: can_write_def Let_def split: option.splits)

theorem http_download_exact_witness:
  "\<exists>s'. download_file (demo_http_env [[''s'', ''f''] \<mapsto> ''abcd'']) new_http_client ''http://s'' ''r'' [''out''] True (demo_http_state Map.empty) = Some (Ok (), s')
    \<and> hd_disk s' = [[''out''] \<mapsto> ''abcd'']"
proof -
  let ?E = "demo_http_env [[''s'', ''f''] \<mapsto> ''abcd'']" and ?s = "demo_http_state Map.empty"
  have io: "he_io ?E = no_faults" by (simp add: demo_http_env_def)
  have "\<not> io_fails (he_io ?E) (IoStat q)" for q by (simp add: io)
  from http_download_exact [OF demo_serves demo_can_write [OF io] this, where out = "[''out'']" and s = ?s and c = new_http_client and tx = True]
  show ?thesis by (auto simp: demo_http_state_def)
qed

section \<open>Resuming\<close>

text \<open>
  Resuming at an offset appends the rest of the file from that offset to whatever the local file holds, and reports success. The
  result is the file exactly if the local file was its prefix of that length.
\<close>

theorem resume_appends_rest:
  assumes "http_serves E sj io d base st h content" "off < length content" "hd_disk s out = Some old"
    "\<not> io_fails (he_io E) (IoOpen out)" "\<not> io_fails (he_io E) (IoWrite out)"
  shows "\<exists>s'. resume_download_from_offset E c base h out off (length content) tx s = Some (Ok (), s')
    \<and> hd_disk s' = (hd_disk s)(out \<mapsto> old @ drop off content)
    \<and> (hd_disk s' out = Some content \<longleftrightarrow> old = take off content)"
proof -
  let ?i = "off div HTTP_CHUNK_SIZE"
  from served_chunks [OF assms(1), of off ?i] assms(2) obtain rs where rs: "ranges_loop (length content) off ?i = Some rs" by fastforce
  define s1 where "s1 = send_progress tx (progress_msg h (length rs) 0 off (length content) HdDownloading) s"
  from served_chunks [OF assms(1), of off ?i c tx "length content" s1] assms(2) rs obtain chunks s2 where ch: "concat chunks = drop off content"
      "download_chunks_with_ranges E c base h rs tx (length content) s1 = (Ok chunks, s2)" "hd_disk s2 = hd_disk s1" by auto
  have disk: "hd_disk s2 = hd_disk s" using ch(3) by (simp add: s1_def)
  have app: "append_to E out chunks s2 = (True, s2\<lparr>hd_disk := (hd_disk s)(out \<mapsto> old @ drop off content)\<rparr>)"
    using write_pieces_ok [where io = "he_io E" and p = out and d = "hd_disk s" and b = old and xs = chunks] assms(3,5) ch(1)
    by (simp add: append_to_def disk)
  have "old @ drop off content = content \<longleftrightarrow> old = take off content" by (metis append_same_eq append_take_drop_id)
  with assms(2-4) show ?thesis
    by (simp add: resume_download_from_offset_def sat_sub_def can_append_def calculate_ranges_from_offset_def rs Let_def s1_def [symmetric] ch(2) app)
qed

theorem resume_appends_rest_witness:
  "\<exists>s'. resume_download_from_offset (demo_http_env [[''s'', ''f''] \<mapsto> ''abcd'']) new_http_client ''http://s'' ''r'' [''out''] 2 4 False
       (demo_http_state [[''out''] \<mapsto> ''abc'']) = Some (Ok (), s') \<and> hd_disk s' [''out''] = Some ''abccd''"
proof -
  let ?E = "demo_http_env [[''s'', ''f''] \<mapsto> ''abcd'']"
  have len: "length ''abcd'' = 4" by simp
  have "he_io ?E = no_faults" by (simp add: demo_http_env_def)
  then obtain s' where "resume_download_from_offset ?E new_http_client ''http://s'' ''r'' [''out''] 2 4 False
       (demo_http_state [[''out''] \<mapsto> ''abc'']) = Some (Ok (), s')" "hd_disk s' = (hd_disk (demo_http_state [[''out''] \<mapsto> ''abc'']))([''out''] \<mapsto> ''abc'' @ drop 2 ''abcd'')"
    using resume_appends_rest [OF demo_serves, of 2 "demo_http_state [[''out''] \<mapsto> ''abc'']" "[''out'']" "''abc''" new_http_client False, unfolded len]
    by (auto simp: demo_http_state_def)
  then show ?thesis by simp
qed

section \<open>The version with events\<close>

lemma attempts_same: "fst (chunk_attempts_ev E c bus g src url h n fs tx r as le s) = chunk_attempts E c url r as le"
  by (induction as arbitrary: le s) (auto simp: Let_def chunk_given_up_def split: attempt_outcome.splits)

lemma run_tasks_results:
  assumes "\<And>r s. fst (f r s) = g r"
  shows "fst (run_tasks f rs results s) = fold (\<lambda>r m. m(br_index r \<mapsto> g r)) rs results"
proof (induction rs arbitrary: results s)
  case (Cons r rs)
  obtain x s' where f: "f r s = (x, s')" by (cases "f r s")
  with assms [of r s] have "x = g r" by simp
  with Cons.IH f show ?case by simp
qed simp

lemma fold_results:
  assumes "r0 \<in> R" "set rs \<subseteq> R" "inj_on br_index R"
  shows "fold (\<lambda>r m. m(br_index r \<mapsto> g r)) rs results (br_index r0) = (if r0 \<in> set rs then Some (g r0) else results (br_index r0))"
  using assms(2)
proof (induction rs arbitrary: results)
  case (Cons r rs)
  have "br_index r = br_index r0 \<longleftrightarrow> r = r0" using assms(1,3) Cons.prems by (auto simp: inj_on_eq_iff)
  with Cons show ?case by auto
qed simp

lemma collect_tasks:
  assumes "\<And>r. r \<in> set rs \<Longrightarrow> results (br_index r) = Some (g r)"
  shows "map_err (\<lambda>e. ''Chunk download failed: '' @ e) (rbind (collect_results rs results) (\<lambda>xs. Ok (acc @ xs)))
    = fst (await_chunks tx h n fs (map (\<lambda>r. (br_index r, g r)) rs) k b acc s)"
  using assms
proof (induction rs arbitrary: k b acc s)
  case (Cons r rs)
  show ?case
  proof (cases "g r")
    case (Inl e)
    with Cons.prems show ?thesis by (simp add: rbind_def)
  next
    case (Inr x)
    have "results (br_index r) = Some (Inr x)" using Cons.prems [of r] Inr by simp
    with Cons.IH [where acc = "acc @ [(br_index r, x)]" and k = "wadd64 k 1" and b = "wadd64 b (length x)"
        and s = "send_progress tx (progress_msg h n (wadd64 k 1) (wadd64 b (length x)) fs HdDownloading) s"] Cons.prems Inr
    show ?thesis by (auto simp: Let_def rbind_def split: sum.splits)
  qed
qed (simp add: rbind_def)

lemma events_same_result_helper:
  assumes "set schedule = set ranges" "distinct (map br_index ranges)"
  shows "fst (download_chunks_with_ranges E c base h ranges tx fs s) =
    map_err (\<lambda>e. ''Chunk download failed: '' @ e) (fst (download_chunks_with_events E c bus g schedule base h ranges tx' fs' s'))"
proof -
  let ?url = "file_url base h"
  define task where "task = (\<lambda>r. chunk_attempts_ev E c bus g (''http-'' @ base) ?url h (length ranges) fs' tx' r [0 ..< MAX_CHUNK_RETRIES + 1] None)"
  define results where "results = fst (run_tasks task schedule Map.empty (s'\<lparr>hd_done_bytes := 0, hd_done_chunks := 0\<rparr>))"
  have "fst (task r t) = chunk_task E c ?url r" for r t by (simp add: task_def attempts_same chunk_task_def)
  then have res: "results = fold (\<lambda>r m. m(br_index r \<mapsto> chunk_task E c ?url r)) schedule Map.empty"
    unfolding results_def by (rule run_tasks_results)
  have inj: "inj_on br_index (set ranges)" using assms(2) by (simp add: distinct_map)
  have all: "results (br_index r) = Some (chunk_task E c ?url r)" if "r \<in> set ranges" for r
    unfolding res using fold_results [of r "set ranges" schedule] inj assms(1) that by simp
  have "fst (download_chunks_with_events E c bus g schedule base h ranges tx' fs' s')
      = (case collect_results ranges results of Inl e \<Rightarrow> Err e | Inr rs \<Rightarrow> Ok (in_order rs))"
    by (simp only: download_chunks_with_events_def Let_def task_def results_def case_prod_beta fst_conv)
  moreover have "map_err (\<lambda>e. ''Chunk download failed: '' @ e) (rbind (collect_results ranges results) (\<lambda>xs. Ok ([] @ xs)))
      = fst (await_chunks tx h (length ranges) fs (map (\<lambda>r. (br_index r, chunk_task E c ?url r)) ranges) 0 0 [] s)"
    by (rule collect_tasks) (rule all)
  ultimately show ?thesis
    by (auto simp: download_chunks_with_ranges_def Let_def rbind_def split: prod.splits sum.splits)
qed

text \<open>
  The download of the chunks with events returns what the plain one does, in whatever order its tasks run: the same chunks in
  the same order, or the error of the first range that failed, which the plain one reports with a prefix.
\<close>

theorem events_same_result:
  assumes "set schedule = set ranges" "distinct (map br_index ranges)"
  shows "fst (download_chunks_with_ranges E c base h ranges tx fs s) =
    map_err (\<lambda>e. ''Chunk download failed: '' @ e) (fst (download_chunks_with_events E c bus g schedule base h ranges tx' fs' s'))"
  using assms by (rule events_same_result_helper)

theorem events_same_result_witness:
  "fst (download_chunks_with_ranges (demo_http_env Map.empty) new_http_client ''http://s'' ''x'' [\<lparr>br_start = 0, br_end = 3, br_index = 0\<rparr>] False 4 (demo_http_state Map.empty)) =
   map_err (\<lambda>e. ''Chunk download failed: '' @ e)
     (fst (download_chunks_with_events (demo_http_env Map.empty) new_http_client True \<lparr>hg_transfer_id = ''t'', hg_file_name = ''n'', hg_priority = TpNormal\<rparr>
        [\<lparr>br_start = 0, br_end = 3, br_index = 0\<rparr>] ''http://s'' ''x'' [\<lparr>br_start = 0, br_end = 3, br_index = 0\<rparr>] True 4 (demo_http_state Map.empty)))"
  by (rule events_same_result) simp_all

section \<open>The name in the completed event\<close>

lemma emit_at_disk [simp]: "hd_disk (emit_at E bus mk s) = hd_disk s"
  by (simp add: emit_at_def)

lemma chunk_arrived_disk [simp]: "hd_disk (chunk_arrived E bus g src h n fs tx r x s) = hd_disk s"
  by (simp add: chunk_arrived_def Let_def)

lemma attempts_disk: "hd_disk (snd (chunk_attempts_ev E c bus g src url h n fs tx r as le s)) = hd_disk s"
  by (induction as arbitrary: le s) (auto simp: Let_def chunk_given_up_def retry_event_def split: attempt_outcome.splits)

lemma run_tasks_disk:
  assumes "\<And>r s. hd_disk (snd (f r s)) = hd_disk s"
  shows "hd_disk (snd (run_tasks f rs results s)) = hd_disk s"
proof (induction rs arbitrary: results s)
  case (Cons r rs)
  show ?case using Cons.IH assms [of r s] by (simp add: case_prod_beta)
qed simp

lemma with_events_disk: "hd_disk (snd (download_chunks_with_events E c bus g schedule base h ranges tx fs s)) = hd_disk s"
  unfolding download_chunks_with_events_def Let_def case_prod_beta snd_conv
  by (subst run_tasks_disk) (simp_all add: attempts_disk)

lemma served_chunks_with_events:
  assumes "http_serves E sj io d base st h content" "set order = set rs" "ranges_loop (length content) 0 0 = Some rs"
  shows "\<exists>chunks s'. concat chunks = content \<and> download_chunks_with_events E c bus g order base h rs tx fs s = (Ok chunks, s')
    \<and> hd_disk s' = hd_disk s"
proof -
  have small: "length content + HTTP_CHUNK_SIZE \<le> 2 ^ 64" using assms(1) by (simp add: http_serves_def)
  have d: "distinct (map br_index rs)" using ranges_tile [OF small le0, of 0] unfolding assms(3) by fastforce
  from served_chunks [OF assms(1) le0, of 0 c tx fs s] assms(3) obtain chunks s2 where ch: "concat chunks = content"
      "download_chunks_with_ranges E c base h rs tx fs s = (Ok chunks, s2)" by auto
  let ?ev = "download_chunks_with_events E c bus g order base h rs tx fs s"
  note same = events_same_result_helper [OF assms(2) d, of E c base h tx fs s bus g tx fs s, unfolded ch(2) fst_conv]
  have "fst ?ev = Ok chunks" using same [symmetric] by (simp only: map_err_Inr_iff)
  then have "?ev = (Ok chunks, snd ?ev)" by (simp only: prod_eq_iff fst_conv snd_conv)
  with ch(1) with_events_disk [of E c bus g order base h rs tx fs s] show ?thesis by (intro exI conjI)
qed

text \<open>
  When the output path is taken, the file is written under another name, but the completed event names the output path, where the
  old file still is.
\<close>

theorem completed_names_other_file:
  assumes "http_serves E sj io d base st h content" "can_write E out s" "\<And>rs. set (schedule rs) = set rs" "hc_event_bus c"
    "\<not> he_emit_fails E ''transfer:event''" "fs_exists (he_io E) out (hd_disk s)"
    "\<not> fs_exists (he_io E) (get_unique_filepath (he_io E) out (hd_disk s)) (hd_disk s)"
  shows "\<exists>s' e es. download_file_with_events E c schedule base h out g tx s = Some (Ok (), s')
    \<and> on_channel ''transfer:event'' (hd_log s') = es @ [TeCompleted e] \<and> co_output_path e = path_to_string out
    \<and> hd_disk s' (get_unique_filepath (he_io E) out (hd_disk s)) = Some content \<and> hd_disk s' out = hd_disk s out"
proof -
  let ?p = "get_unique_filepath (he_io E) out (hd_disk s)"
  obtain cm where cm: "fetch_metadata E c base h = Ok cm" "cl_size cm = length content" using served_metadata [OF assms(1)] by blast
  from served_chunks [OF assms(1), of 0 0] obtain rs where rs: "ranges_loop (length content) 0 0 = Some rs" by blast
  have neq: "?p \<noteq> out" using assms(6,7) by metis
  have ev: "\<exists>chunks s'. concat chunks = content \<and> download_chunks_with_events E c True g (schedule rs) base h rs tx (length content) t = (Ok chunks, s')
    \<and> hd_disk s' = hd_disk t" for t by (rule served_chunks_with_events [OF assms(1) assms(3) [of rs] rs])
  have bus: "event_bus_of c = True" using assms(4) by (simp add: event_bus_of_def)
  have log: "on_channel ''transfer:event'' (hd_log (emit_at E True mk t)) = on_channel ''transfer:event'' (hd_log t) @ [mk (he_clock E (hd_ticks t))]" for mk t
    using assms(5) by (simp add: emit_at_def generic_channel)
  define n where "n = length rs mod 2 ^ 32"
  define s3 where "s3 = send_progress tx (progress_msg h n 0 0 (length content) HdDownloading)
    (emit_at E True (source_connected g (''http-'' @ base) base [0..<n])
      (emit_at E True (\<lambda>t. TeStarted \<lparr>se_transfer_id = hg_transfer_id g, se_file_hash = h, se_file_name = hg_file_name g,
         se_file_size = length content, se_total_chunks = n, se_chunk_size = HTTP_CHUNK_SIZE, se_started_at = t,
         se_available_sources = [http_source_info_of (''http-'' @ base) base], se_selected_sources = [''http-'' @ base]\<rparr>)
       (send_progress tx (progress_msg h 0 0 0 0 HdFetchingMetadata) s)))"
  obtain chunks s4 where s4: "concat chunks = content"
      "download_chunks_with_events E c True g (schedule rs) base h rs tx (length content) s3 = (Ok chunks, s4)" "hd_disk s4 = hd_disk s3"
    using ev by blast
  define s5 where "s5 = send_progress tx (progress_msg h n n (length content) (length content) HdAssembling) s4"
  have "hd_disk s5 = hd_disk s" using s4(3) by (simp add: s5_def s3_def)
  from assembled_when [OF assms(2) this refl, of chunks] s4(1)
  have asm: "assemble_file E chunks out s5 = (Ok (), s5\<lparr>hd_disk := (hd_disk s)(?p \<mapsto> content)\<rparr>)" by simp
  show ?thesis
    unfolding download_file_with_events_def Let_def cm calculate_ranges_def rs bus sum.case option.map n_def [symmetric] s3_def [symmetric] s4(2) prod.case
      s5_def [symmetric] asm
    using neq by (simp add: log transfer_completed_def)
qed

theorem completed_names_other_file_witness:
  "\<exists>s' e es. download_file_with_events (demo_http_env [[''s'', ''f''] \<mapsto> ''abcd'']) new_with_event_bus (\<lambda>rs. rs) ''http://s'' ''r'' [''out'']
       \<lparr>hg_transfer_id = ''t'', hg_file_name = ''n'', hg_priority = TpNormal\<rparr> False (demo_http_state [[''out''] \<mapsto> ''old'']) = Some (Ok (), s')
    \<and> on_channel ''transfer:event'' (hd_log s') = es @ [TeCompleted e] \<and> co_output_path e = ''out'' \<and> hd_disk s' [''out''] = Some ''old''"
proof -
  let ?E = "demo_http_env [[''s'', ''f''] \<mapsto> ''abcd'']" and ?s = "demo_http_state [[''out''] \<mapsto> ''old'']"
  have io: "he_io ?E = no_faults" by (simp add: demo_http_env_def)
  have taken: "fs_exists no_faults [''out''] [[''out''] \<mapsto> ''old'']" by (simp add: fs_exists_def)
  have "unique_candidate [''out''] 1 = [''out (1)'']"
    by (simp add: unique_candidate_def parent_def file_name_def file_stem_def file_extension_def show_nat.simps digit_char_def path_join_simple Let_def)
  then have free: "get_unique_filepath no_faults [''out''] [[''out''] \<mapsto> ''old''] = [''out (1)'']"
    using taken by (simp add: get_unique_filepath_def unique_from.simps [of no_faults _ _ "Suc 0"] fs_exists_def Let_def)
  have "hc_event_bus new_with_event_bus" "\<not> he_emit_fails ?E ''transfer:event''" by (simp_all add: new_with_event_bus_def demo_http_env_def)
  with completed_names_other_file [OF demo_serves demo_can_write [OF io], where out = "[''out'']" and s = ?s and schedule = "\<lambda>rs. rs" and c = new_with_event_bus
      and g = "\<lparr>hg_transfer_id = ''t'', hg_file_name = ''n'', hg_priority = TpNormal\<rparr>" and tx = False]
  show ?thesis unfolding io using taken free by (simp add: demo_http_state_def fs_exists_def path_to_string_def) blast
qed

end
