(* ===== verification/ProtocolTraits.thy ===== *)
theory ProtocolTraits
  imports FileSystem F64 Actions
begin

text \<open>
  \<open>protocols/traits.rs\<close> and \<open>protocols/options.rs\<close>: what a protocol handler is, the options and reports of the unified download
  and upload interface, and the legacy manager of simple handlers.

  A handler is a trait object: its methods are the fields of a record, and those that do something are operations on the world
  the handlers share, of which the program itself only uses the disk. Theorems about the users of handlers hold for every handler,
  or name what they need of it.
\<close>

section \<open>Handlers\<close>

record download_options =
  do_output_path :: path
  do_max_peers :: "usize option"
  do_chunk_size :: "usize option"
  do_encryption :: bool
  do_bandwidth_limit :: "u64 option"

definition default_download_options :: download_options where
  "default_download_options = \<lparr>do_output_path = path_of_string ''.'', do_max_peers = None, do_chunk_size = None,
     do_encryption = False, do_bandwidth_limit = None\<rparr>"

record seed_options =
  so_announce_dht :: bool
  so_enable_encryption :: bool
  so_upload_slots :: "usize option"

definition default_seed_options :: seed_options where
  "default_seed_options = \<lparr>so_announce_dht = True, so_enable_encryption = False, so_upload_slots = None\<rparr>"

datatype proto_status = PsFetchingMetadata | PsDownloading | PsPaused | PsAssembling | PsCompleted | PsFailed | PsCancelled

record download_progress =
  dg_downloaded_bytes :: u64
  dg_total_bytes :: u64
  dg_download_speed :: f64
  dg_eta_seconds :: "u64 option"
  dg_active_peers :: usize
  dg_status :: proto_status

record seeding_info =
  se_identifier :: string
  se_file_path :: path
  se_protocol :: string
  se_active_peers :: usize
  se_bytes_uploaded :: u64

record download_handle =
  dh_identifier :: string
  dh_protocol :: string
  dh_started_at :: u64

record protocol_capabilities =
  supports_seeding :: bool
  supports_pause_resume :: bool
  supports_multi_source :: bool
  supports_encryption :: bool
  supports_dht :: bool

definition default_capabilities :: protocol_capabilities where
  "default_capabilities = \<lparr>supports_seeding = False, supports_pause_resume = True, supports_multi_source = False,
     supports_encryption = False, supports_dht = False\<rparr>"

datatype protocol_error =
    PeNetworkError string
  | PeFileNotFound string
  | PePermissionDenied string
  | PeInvalidIdentifier string
  | PeProtocolSpecific string
  | PeTimeout string
  | PeNotSupported
  | PeInternal string
  | PeDownloadNotFound string
  | PeAlreadyExists string

fun show_protocol_error :: "protocol_error \<Rightarrow> string" where
  "show_protocol_error (PeNetworkError m) = ''Network error: '' @ m"
| "show_protocol_error (PeFileNotFound m) = ''File not found: '' @ m"
| "show_protocol_error (PePermissionDenied m) = ''Permission denied: '' @ m"
| "show_protocol_error (PeInvalidIdentifier m) = ''Invalid identifier: '' @ m"
| "show_protocol_error (PeProtocolSpecific m) = ''Protocol error: '' @ m"
| "show_protocol_error (PeTimeout m) = ''Timeout: '' @ m"
| "show_protocol_error PeNotSupported = ''Operation not supported''"
| "show_protocol_error (PeInternal m) = ''Internal error: '' @ m"
| "show_protocol_error (PeDownloadNotFound m) = ''Download not found: '' @ m"
| "show_protocol_error (PeAlreadyExists m) = ''Already exists: '' @ m"

text \<open>The world the handlers act on: the disk, and whatever else they use (\<open>'x\<close>).\<close>

record proto_world =
  pw_disk :: disk

type_synonym ('x, 'a) proto_act = "('x proto_world_scheme, protocol_error, 'a) act"

record 'x protocol_handler =
  ph_name :: string
  ph_supports :: "string \<Rightarrow> bool"
  ph_capabilities :: protocol_capabilities
  ph_download :: "string \<Rightarrow> download_options \<Rightarrow> ('x, download_handle) proto_act"
  ph_seed :: "path \<Rightarrow> seed_options \<Rightarrow> ('x, seeding_info) proto_act"
  ph_stop_seeding :: "string \<Rightarrow> ('x, unit) proto_act"
  ph_pause_download :: "string \<Rightarrow> ('x, unit) proto_act"
  ph_resume_download :: "string \<Rightarrow> ('x, unit) proto_act"
  ph_cancel_download :: "string \<Rightarrow> ('x, unit) proto_act"
  ph_get_download_progress :: "string \<Rightarrow> ('x, download_progress) proto_act"
  ph_list_seeding :: "('x, seeding_info list) proto_act"

text \<open>\<open>handlers.iter().find(|h| h.name() == name)\<close> and \<open>find(|h| h.supports(identifier))\<close>.\<close>

definition handler_named :: "string \<Rightarrow> 'x protocol_handler list \<Rightarrow> 'x protocol_handler option" where
  "handler_named n hs = List.find (\<lambda>h. ph_name h = n) hs"

definition handler_supporting :: "string \<Rightarrow> 'x protocol_handler list \<Rightarrow> 'x protocol_handler option" where
  "handler_supporting ident hs = List.find (\<lambda>h. ph_supports h ident) hs"

section \<open>Simple handlers\<close>

record 'x simple_handler =
  sh_name :: string
  sh_supports :: "string \<Rightarrow> bool"
  sh_download :: "string \<Rightarrow> ('x proto_world_scheme, string, unit) act"
  sh_seed :: "string \<Rightarrow> ('x proto_world_scheme, string, string) act"

record 'x simple_manager =
  sm_handlers :: "'x simple_handler list"

definition new_simple_manager :: "'x simple_manager" where
  "new_simple_manager = \<lparr>sm_handlers = []\<rparr>"

definition simple_register :: "'x simple_handler \<Rightarrow> 'x simple_manager \<Rightarrow> 'x simple_manager" where
  "simple_register h m = m\<lparr>sm_handlers := sm_handlers m @ [h]\<rparr>"

fun simple_download_with :: "'x simple_handler list \<Rightarrow> string \<Rightarrow> ('x proto_world_scheme, string, unit) act" where
  "simple_download_with [] ident = fail (''No protocol handler found for: '' @ ident)"
| "simple_download_with (h # hs) ident = (if sh_supports h ident then sh_download h ident else simple_download_with hs ident)"

definition simple_download :: "'x simple_manager \<Rightarrow> string \<Rightarrow> ('x proto_world_scheme, string, unit) act" where
  "simple_download m ident = simple_download_with (sm_handlers m) ident"

definition simple_seed :: "'x simple_manager \<Rightarrow> string \<Rightarrow> ('x proto_world_scheme, string, string) act" where
  "simple_seed m p = (case sm_handlers m of h # _ \<Rightarrow> sh_seed h p
     | [] \<Rightarrow> fail (''No protocol handler available for: '' @ p))"

section \<open>Options and reports\<close>

record detection_preferences =
  dp_prefer_fastest :: bool
  dp_prefer_most_reliable :: bool
  dp_preferred_protocols :: "string list"
  dp_banned_protocols :: "string list"
  dp_require_seeding :: bool
  dp_require_encryption :: bool
  dp_require_pause_resume :: bool

definition default_preferences :: detection_preferences where
  "default_preferences = \<lparr>dp_prefer_fastest = False, dp_prefer_most_reliable = False, dp_preferred_protocols = [],
     dp_banned_protocols = [], dp_require_seeding = False, dp_require_encryption = False, dp_require_pause_resume = False\<rparr>"

record file_transfer_options =
  fo_output_path :: "path option"
  fo_protocol :: "string option"
  fo_enable_multi_source :: bool
  fo_max_connections :: "usize option"
  fo_chunk_size :: "usize option"
  fo_encryption :: bool
  fo_bandwidth_limit :: "u64 option"
  fo_detection_preferences :: "detection_preferences option"
  fo_protocol_specific :: "string \<rightharpoonup> string"
  fo_announce_dht :: bool
  fo_upload_slots :: "usize option"

definition default_transfer_options :: file_transfer_options where
  "default_transfer_options = \<lparr>fo_output_path = None, fo_protocol = None, fo_enable_multi_source = True,
     fo_max_connections = Some 50, fo_chunk_size = Some (256 * 1024), fo_encryption = False, fo_bandwidth_limit = None,
     fo_detection_preferences = None, fo_protocol_specific = Map.empty, fo_announce_dht = True, fo_upload_slots = Some 4\<rparr>"

definition optimized_for_speed :: file_transfer_options where
  "optimized_for_speed = default_transfer_options\<lparr>fo_enable_multi_source := True, fo_max_connections := Some 100,
     fo_chunk_size := Some (512 * 1024), fo_encryption := False\<rparr>"

definition optimized_for_privacy :: file_transfer_options where
  "optimized_for_privacy = default_transfer_options\<lparr>fo_enable_multi_source := False, fo_max_connections := Some 10,
     fo_encryption := True, fo_detection_preferences := Some (default_preferences\<lparr>dp_require_encryption := True\<rparr>)\<rparr>"

definition optimized_for_bandwidth :: file_transfer_options where
  "optimized_for_bandwidth = default_transfer_options\<lparr>fo_enable_multi_source := False, fo_max_connections := Some 5,
     fo_chunk_size := Some (64 * 1024), fo_bandwidth_limit := Some (512 * 1024)\<rparr>"

record transfer_result =
  xr_transfer_id :: string
  xr_protocols :: "string list"
  xr_identifier :: string
  xr_output_path :: "path option"
  xr_bytes_transferred :: u64
  xr_duration_seconds :: f64
  xr_average_speed :: f64
  xr_success :: bool
  xr_error :: "string option"
  xr_started_at :: u64
  xr_completed_at :: u64

datatype transfer_status =
  XsInitializing | XsConnecting | XsDownloading | XsUploading | XsPaused | XsAssembling | XsCompleted | XsFailed | XsCancelled | XsQueued

fun show_transfer_status :: "transfer_status \<Rightarrow> string" where
  "show_transfer_status XsInitializing = ''Initializing''"
| "show_transfer_status XsConnecting = ''Connecting''"
| "show_transfer_status XsDownloading = ''Downloading''"
| "show_transfer_status XsUploading = ''Uploading''"
| "show_transfer_status XsPaused = ''Paused''"
| "show_transfer_status XsAssembling = ''Assembling''"
| "show_transfer_status XsCompleted = ''Completed''"
| "show_transfer_status XsFailed = ''Failed''"
| "show_transfer_status XsCancelled = ''Cancelled''"
| "show_transfer_status XsQueued = ''Queued''"

text \<open>What a handler reports under its name: the three fields of the JSON object.\<close>

record protocol_stat =
  pi_speed :: f64
  pi_peers :: usize
  pi_status :: proto_status

record transfer_progress =
  tg_transfer_id :: string
  tg_identifier :: string
  tg_status :: transfer_status
  tg_active_protocols :: "string list"
  tg_bytes_transferred :: u64
  tg_total_bytes :: u64
  tg_percentage :: f64
  tg_current_speed :: f64
  tg_eta_seconds :: "u64 option"
  tg_active_connections :: usize
  tg_total_sources :: usize
  tg_output_path :: "path option"
  tg_started_at :: u64
  tg_protocol_info :: "string \<rightharpoonup> protocol_stat"

text \<open>The quotient in percent, which \<open>TransferProgress\<close> and the manager compute alike.\<close>

definition percent_of :: "u64 \<Rightarrow> u64 \<Rightarrow> f64" where
  "percent_of part whole =
     (if whole = 0 then F_Fin 0 else f64_mul (f64_div (f64_of_u64 part) (f64_of_u64 whole)) (F_Fin 100))"

definition calculate_percentage :: "transfer_progress \<Rightarrow> f64" where
  "calculate_percentage p = percent_of (tg_bytes_transferred p) (tg_total_bytes p)"

definition progress_is_complete :: "transfer_progress \<Rightarrow> bool" where
  "progress_is_complete p = (tg_status p = XsCompleted)"

definition progress_is_active :: "transfer_progress \<Rightarrow> bool" where
  "progress_is_active p = (tg_status p \<in> {XsDownloading, XsUploading, XsConnecting})"

definition progress_has_failed :: "transfer_progress \<Rightarrow> bool" where
  "progress_has_failed p = (tg_status p = XsFailed)"

section \<open>Laws\<close>

lemma handler_named_Some: "handler_named n hs = Some h \<Longrightarrow> h \<in> set hs \<and> ph_name h = n"
  by (auto simp: handler_named_def find_Some_iff)

lemma handler_named_None: "handler_named n hs = None \<longleftrightarrow> n \<notin> ph_name ` set hs"
  by (auto simp: handler_named_def find_None_iff)

lemma handler_named_unique:
  "distinct (map ph_name hs) \<Longrightarrow> h \<in> set hs \<Longrightarrow> handler_named (ph_name h) hs = Some h"
  by (induction hs) (auto simp: handler_named_def)

end
