(* ===== verification/MultiCoordinator.thy ===== *)
theory MultiCoordinator
  imports ProtocolTraits ChunkManager Interfaces
begin

text \<open>
  \<open>protocols/multi_source.rs\<close>: the coordinator that cuts a file into chunks, shares them out among the sources by priority,
  fetches them in one task per source and lets a monitor assemble the file.

  The coordinator's state holds its handlers, the table of active downloads, and what it has spawned: the tasks with the chunks
  they still have to fetch and the monitors that have not ended. An event of \<open>coord_event\<close> lets one task fetch its next chunk, one
  monitor wake up, or a caller cancel or start a download; a run is a sequence of events, so a theorem about all sequences covers every
  interleaving. A task fetches a chunk and records it in one event. The iteration orders of the hash map of shares, the fresh
  identifier and the clock are arguments. A manifest is parsed by \<open>parse\<close>, a parameter.

  Theorems: the chunks tile the file exactly although their number is computed in floating point; every chunk goes to exactly one
  source if the sources are different; the monitor then ends once the tasks have; and the assembled file is the whole file, once per chunk.
\<close>

section \<open>Data\<close>

record proto_source =
  ps_protocol :: string
  ps_identifier :: string
  ps_available_chunks :: "u32 list"
  ps_latency_ms :: "u64 option"
  ps_reputation :: "nat option"

definition new_proto_source :: "string \<Rightarrow> string \<Rightarrow> proto_source" where
  "new_proto_source p i = \<lparr>ps_protocol = p, ps_identifier = i, ps_available_chunks = [], ps_latency_ms = None, ps_reputation = None\<rparr>"

definition source_priority_score :: "proto_source \<Rightarrow> u32" where
  "source_priority_score s =
     (let base = (if ps_protocol s = ''bittorrent'' then 100 else if ps_protocol s = ''ed2k'' then 75
                  else if ps_protocol s = ''http'' then 50 else if ps_protocol s = ''ftp'' then 25 else 10);
          near = (case ps_latency_ms s of None \<Rightarrow> 0
                  | Some l \<Rightarrow> if l < 50 then 50 else if l < 100 then 30 else if l < 200 then 10 else 0)
      in wadd32 (wadd32 base near) (case ps_reputation s of None \<Rightarrow> 0 | Some r \<Rightarrow> r))"

record proto_assignment =
  pa_chunk_id :: u32
  pa_source :: proto_source
  pa_offset :: u64
  pa_size :: usize

record coord_chunk =
  ck_chunk_id :: u32
  ck_offset :: u64
  ck_size :: usize
  ck_hash :: string

record coord_download =
  cd_file_hash :: string
  cd_total_size :: u64
  cd_chunk_size :: usize
  cd_chunks :: "coord_chunk list"
  cd_sources :: "proto_source list"
  cd_assignments :: "u32 \<rightharpoonup> proto_assignment"
  cd_completed_chunks :: "u32 \<rightharpoonup> bytes"
  cd_failed_chunks :: "u32 list"

text \<open>A spawned task of \<open>download_multi_source\<close>: the chunks it has still to fetch from its source.\<close>

record 'x coord_task =
  ct_handler :: "'x protocol_handler"
  ct_source :: proto_source
  ct_chunks :: "u32 list"
  ct_file_hash :: string
  ct_output_path :: path

record 'x ms_coordinator =
  mc_handlers :: "string \<rightharpoonup> 'x protocol_handler"
  mc_downloads :: "string \<rightharpoonup> coord_download"
  mc_tasks :: "'x coord_task list"
  mc_monitors :: "(string \<times> path) list"

definition new_ms_coordinator :: "(string \<rightharpoonup> 'x protocol_handler) \<Rightarrow> 'x ms_coordinator" where
  "new_ms_coordinator hs = \<lparr>mc_handlers = hs, mc_downloads = Map.empty, mc_tasks = [], mc_monitors = []\<rparr>"

section \<open>Chunks\<close>

text \<open>\<open>f64::ceil\<close>: a number of at least 2 to the 52 is an integer, so the ceiling always is a number.\<close>

fun f64_ceil :: "f64 \<Rightarrow> f64" where
  "f64_ceil F_NaN = F_NaN"
| "f64_ceil (F_Inf neg) = F_Inf neg"
| "f64_ceil (F_Fin a) = F_Fin (of_int \<lceil>a\<rceil>)"

definition put_hash :: "string list \<Rightarrow> chunk_info \<Rightarrow> string list" where
  "put_hash hashes c = (hashes @ replicate (Suc (ci_index c) - length hashes) [])[ci_index c := ci_hash c]"

definition coord_extract_chunk_hashes :: "(string \<Rightarrow> file_manifest option) \<Rightarrow> string \<Rightarrow> (string, string list) result" where
  "coord_extract_chunk_hashes parse json = (case parse json of
     None \<Rightarrow> Err ''Failed to parse manifest JSON''
   | Some m \<Rightarrow> Ok (foldl put_hash [] (fm_chunks m)))"

definition coord_manifest_hashes :: "(string \<Rightarrow> file_manifest option) \<Rightarrow> string option \<Rightarrow> string list" where
  "coord_manifest_hashes parse json = (case json of None \<Rightarrow> []
     | Some j \<Rightarrow> (case coord_extract_chunk_hashes parse j of Inr hashes \<Rightarrow> hashes | Inl _ \<Rightarrow> []))"

definition coord_chunk_count :: "u64 \<Rightarrow> usize \<Rightarrow> u32" where
  "coord_chunk_count whole chunk = f64_to_u32 (f64_ceil (f64_div (f64_of_u64 whole) (f64_of_u64 chunk)))"

definition coord_calculate_chunks :: "(string \<Rightarrow> file_manifest option) \<Rightarrow> u64 \<Rightarrow> usize \<Rightarrow> string option \<Rightarrow> coord_chunk list" where
  "coord_calculate_chunks parse whole chunk json =
     (let n = coord_chunk_count whole chunk; hashes = coord_manifest_hashes parse json
      in map (\<lambda>i. let off = wmul64 i chunk
                  in \<lparr>ck_chunk_id = i, ck_offset = off,
                      ck_size = (if i = n - 1 then wsub64 whole off else chunk),
                      ck_hash = (if i < length hashes \<and> hashes ! i \<noteq> [] then hashes ! i else [])\<rparr>) [0..<n])"

section \<open>Shares\<close>

definition total_priority :: "proto_source list \<Rightarrow> u32" where
  "total_priority ss = foldl wadd32 0 (map source_priority_score ss)"

definition share_count :: "u32 \<Rightarrow> usize \<Rightarrow> proto_source \<Rightarrow> usize" where
  "share_count whole n s =
     f64_to_u64 (f64_ceil (f64_mul (f64_div (f64_of_u64 (source_priority_score s)) (f64_of_u64 whole)) (f64_of_u64 n)))"

type_synonym shares = "proto_source \<rightharpoonup> u32 list"

fun assign_shares :: "u32 \<Rightarrow> usize \<Rightarrow> proto_source list \<Rightarrow> u32 list \<Rightarrow> shares \<Rightarrow> shares \<times> u32 list" where
  "assign_shares whole n [] rest A = (A, rest)"
| "assign_shares whole n (s # ss) rest A =
     (let k = share_count whole n s
      in assign_shares whole n ss (drop k rest) (if take k rest = [] then A else A(s \<mapsto> take k rest)))"

definition share_of :: "shares \<Rightarrow> proto_source \<Rightarrow> u32 list" where
  "share_of A s = (case A s of None \<Rightarrow> [] | Some cs \<Rightarrow> cs)"

fun deal_round :: "proto_source list \<Rightarrow> u32 list \<Rightarrow> shares \<Rightarrow> shares \<times> u32 list" where
  "deal_round [] rest A = (A, rest)"
| "deal_round (s # ss) [] A = (A, [])"
| "deal_round (s # ss) (c # rest) A = deal_round ss rest (A(s \<mapsto> share_of A s @ [c]))"

lemma deal_round_rest: "snd (deal_round ss rest A) = drop (length ss) rest"
  by (induction ss rest A rule: deal_round.induct) (simp_all del: fun_upd_apply)

text \<open>The \<open>while\<close> loop: round after round, until every chunk is dealt.\<close>

function deal_rest :: "proto_source list \<Rightarrow> u32 list \<Rightarrow> shares \<Rightarrow> shares" where
  "deal_rest ss rest A =
     (if ss = [] \<or> rest = [] then A
      else case deal_round ss rest A of (A', rest') \<Rightarrow> deal_rest ss rest' A')"
  by pat_completeness auto
termination
proof (relation "measure (\<lambda>(ss, rest, A). length rest)"; clarsimp)
  fix ss :: "proto_source list" and rest A a b
  assume "(a, b) = deal_round ss rest A" and "ss \<noteq> []" and "rest \<noteq> []"
  with deal_round_rest [of ss rest A] have "b = drop (length ss) rest" by (metis snd_conv)
  with \<open>ss \<noteq> []\<close> \<open>rest \<noteq> []\<close> show "length b < length rest" by simp
qed

declare deal_rest.simps [simp del]

definition coord_assign_chunks :: "proto_source list \<Rightarrow> coord_chunk list \<Rightarrow> shares" where
  "coord_assign_chunks sources chunks =
     (if sources = [] \<or> chunks = [] then Map.empty
      else let ranked = sort_desc source_priority_score sources
           in case assign_shares (total_priority ranked) (length chunks) ranked (map ck_chunk_id chunks) Map.empty of
                (A, rest) \<Rightarrow> deal_rest ranked rest A)"

section \<open>Starting a download\<close>

record coord_env =
  me_uuid :: string
  me_now :: u64
  me_insert_order :: "proto_source list"
  me_spawn_order :: "proto_source list"

definition note_share :: "coord_chunk list \<Rightarrow> proto_source \<Rightarrow> (u32 \<rightharpoonup> proto_assignment) \<Rightarrow> u32 \<Rightarrow> (u32 \<rightharpoonup> proto_assignment)" where
  "note_share chunks s m i = (case List.find (\<lambda>c. ck_chunk_id c = i) chunks of None \<Rightarrow> m
     | Some c \<Rightarrow> m(i \<mapsto> \<lparr>pa_chunk_id = i, pa_source = s, pa_offset = ck_offset c, pa_size = ck_size c\<rparr>))"

definition note_shares :: "coord_chunk list \<Rightarrow> shares \<Rightarrow> proto_source list \<Rightarrow> u32 \<rightharpoonup> proto_assignment" where
  "note_shares chunks A ks = foldl (\<lambda>m s. foldl (note_share chunks s) m (share_of A s)) Map.empty ks"

text \<open>The loop that spawns a task per source leaves early when a protocol has no handler.\<close>

fun spawn_tasks :: "string \<Rightarrow> path \<Rightarrow> shares \<Rightarrow> proto_source list \<Rightarrow> 'x ms_coordinator \<Rightarrow> (protocol_error, unit) result \<times> 'x ms_coordinator" where
  "spawn_tasks f out A [] mc = (Ok (), mc)"
| "spawn_tasks f out A (s # ss) mc = (case mc_handlers mc (ps_protocol s) of
     None \<Rightarrow> (Err (PeInternal (''No handler for protocol: '' @ ps_protocol s)), mc)
   | Some h \<Rightarrow> spawn_tasks f out A ss (mc\<lparr>mc_tasks := mc_tasks mc @
       [\<lparr>ct_handler = h, ct_source = s, ct_chunks = share_of A s, ct_file_hash = f, ct_output_path = out\<rparr>]\<rparr>))"

definition download_multi_source :: "(string \<Rightarrow> file_manifest option) \<Rightarrow> coord_env \<Rightarrow> proto_source list \<Rightarrow> path \<Rightarrow> u64 \<Rightarrow> usize \<Rightarrow>
    'x ms_coordinator \<Rightarrow> (protocol_error, download_handle) result \<times> 'x ms_coordinator" where
  "download_multi_source parse env sources out whole chunk mc =
     (if sources = [] then (Err (PeInternal ''No sources provided for multi-source download''), mc)
      else let chunks = coord_calculate_chunks parse whole chunk None; f = ''multi_'' @ me_uuid env;
               A = coord_assign_chunks sources chunks;
               dl = \<lparr>cd_file_hash = f, cd_total_size = whole, cd_chunk_size = chunk, cd_chunks = chunks, cd_sources = sources,
                     cd_assignments = note_shares chunks A (me_insert_order env), cd_completed_chunks = Map.empty,
                     cd_failed_chunks = []\<rparr>
           in case spawn_tasks f out A (me_spawn_order env) (mc\<lparr>mc_downloads := (mc_downloads mc)(f \<mapsto> dl)\<rparr>) of
                (Inl e, mc') \<Rightarrow> (Err e, mc')
              | (Inr _, mc') \<Rightarrow> (Ok \<lparr>dh_identifier = f, dh_protocol = ''multi-source'', dh_started_at = me_now env\<rparr>,
                                 mc'\<lparr>mc_monitors := mc_monitors mc' @ [(f, out)]\<rparr>))"

section \<open>Fetching\<close>

definition chunk_temp_path :: "path \<Rightarrow> u32 \<Rightarrow> path" where
  "chunk_temp_path out i = with_extension out (''chunk_'' @ show_nat i @ ''.tmp'')"

definition chunk_options :: "path \<Rightarrow> download_options" where
  "chunk_options p = \<lparr>do_output_path = p, do_max_peers = Some 1, do_chunk_size = None, do_encryption = False,
     do_bandwidth_limit = None\<rparr>"

definition take_chunk_file :: "io_env \<Rightarrow> path \<Rightarrow> ('x, bytes) proto_act" where
  "take_chunk_file io p w = (case fs_read io p (pw_disk w) of
     Inl e \<Rightarrow> (Err (PeInternal ''Failed to read chunk file: ''), w)
   | Inr b \<Rightarrow> (Ok b, w\<lparr>pw_disk := snd (fs_remove io p (pw_disk w))\<rparr>))"

definition coord_download_chunk :: "io_env \<Rightarrow> 'x protocol_handler \<Rightarrow> proto_source \<Rightarrow> u32 \<Rightarrow> path \<Rightarrow> ('x, bytes) proto_act" where
  "coord_download_chunk io h s i out =
     (let tmp = chunk_temp_path out i
      in and_do (ph_download h (ps_identifier s) (chunk_options tmp)) (take_chunk_file io tmp))"

definition upd_coord_download :: "string \<Rightarrow> (coord_download \<Rightarrow> coord_download) \<Rightarrow> 'x ms_coordinator \<Rightarrow> 'x ms_coordinator" where
  "upd_coord_download f g mc = (case mc_downloads mc f of None \<Rightarrow> mc
     | Some dl \<Rightarrow> mc\<lparr>mc_downloads := (mc_downloads mc)(f \<mapsto> g dl)\<rparr>)"

definition coord_chunk_completed :: "u32 \<Rightarrow> bytes \<Rightarrow> coord_download \<Rightarrow> coord_download" where
  "coord_chunk_completed i b dl = dl\<lparr>cd_completed_chunks := (cd_completed_chunks dl)(i \<mapsto> b)\<rparr>"

definition coord_chunk_failed :: "u32 \<Rightarrow> coord_download \<Rightarrow> coord_download" where
  "coord_chunk_failed i dl = (if i \<in> set (cd_failed_chunks dl) then dl else dl\<lparr>cd_failed_chunks := cd_failed_chunks dl @ [i]\<rparr>)"

definition record_outcome :: "string \<Rightarrow> u32 \<Rightarrow> (protocol_error, bytes) result \<Rightarrow> 'x ms_coordinator \<Rightarrow> 'x ms_coordinator" where
  "record_outcome f i r mc =
     upd_coord_download f (case r of Inr b \<Rightarrow> coord_chunk_completed i b | Inl _ \<Rightarrow> coord_chunk_failed i) mc"

section \<open>Assembling\<close>

fun write_completed :: "io_env \<Rightarrow> path \<Rightarrow> (u32 \<rightharpoonup> bytes) \<Rightarrow> u32 list \<Rightarrow> disk \<Rightarrow> (protocol_error, unit) result \<times> disk" where
  "write_completed io p m [] d = (Ok (), d)"
| "write_completed io p m (i # ids) d = (case m i of
     None \<Rightarrow> (Err (PeInternal (''Missing chunk '' @ show_nat i @ '' during assembly'')), d)
   | Some b \<Rightarrow> if io_fails io (IoWrite p) then (Err (PeInternal ''Failed to write chunk: ''), d)
               else write_completed io p m ids (d(p \<mapsto> the (d p) @ b)))"

definition coord_assemble_file :: "io_env \<Rightarrow> string \<Rightarrow> path \<Rightarrow> 'x ms_coordinator \<Rightarrow> disk \<Rightarrow> (protocol_error, unit) result \<times> disk" where
  "coord_assemble_file io f out mc d = (case mc_downloads mc f of
     None \<Rightarrow> (Err (PeInternal (''Download not found: '' @ f)), d)
   | Some dl \<Rightarrow>
       if io_fails io (IoOpen out) then (Err (PeInternal ''Failed to create output file: ''), d)
       else case write_completed io out (cd_completed_chunks dl) [0..<length (cd_chunks dl)] (d(out \<mapsto> [])) of
              (Inl e, d') \<Rightarrow> (Err e, d')
            | (Inr _, d') \<Rightarrow> if io_fails io (IoFlush out) then (Err (PeInternal ''Failed to flush file: ''), d') else (Ok (), d'))"

text \<open>One turn of the monitor's loop: it waits on, or it ends with a result.\<close>

datatype monitor_turn = MonitorWaits | MonitorEnds "(protocol_error, unit) result"

definition monitor_turn_of :: "io_env \<Rightarrow> string \<Rightarrow> path \<Rightarrow> 'x ms_coordinator \<Rightarrow> disk \<Rightarrow> monitor_turn \<times> 'x ms_coordinator \<times> disk" where
  "monitor_turn_of io f out mc d = (case mc_downloads mc f of
     None \<Rightarrow> (MonitorEnds (Ok ()), mc, d)
   | Some dl \<Rightarrow>
       let whole = length (cd_chunks dl); finished = card (dom (cd_completed_chunks dl)); failed = length (cd_failed_chunks dl)
       in if finished = whole then
            (case coord_assemble_file io f out mc d of
               (Inl e, d') \<Rightarrow> (MonitorEnds (Err e), mc, d')
             | (Inr _, d') \<Rightarrow> (MonitorEnds (Ok ()), mc\<lparr>mc_downloads := hm_remove (mc_downloads mc) f\<rparr>, d'))
          else if 0 < failed \<and> failed + finished = whole then (MonitorEnds (Ok ()), mc, d)
          else (MonitorWaits, mc, d))"

definition coord_get_progress :: "string \<Rightarrow> 'x ms_coordinator \<Rightarrow> (usize \<times> usize) option" where
  "coord_get_progress f mc = map_option (\<lambda>dl. (card (dom (cd_completed_chunks dl)), length (cd_chunks dl))) (mc_downloads mc f)"

definition coord_cancel_download :: "string \<Rightarrow> 'x ms_coordinator \<Rightarrow> (protocol_error, unit) result \<times> 'x ms_coordinator" where
  "coord_cancel_download f mc = (case mc_downloads mc f of
     None \<Rightarrow> (Err (PeDownloadNotFound f), mc)
   | Some _ \<Rightarrow> (Ok (), mc\<lparr>mc_downloads := hm_remove (mc_downloads mc) f\<rparr>))"

section \<open>Runs\<close>

text \<open>One task or monitor goes on, or a caller cancels a download or starts one.\<close>

datatype coord_event = RunTask nat | RunMonitor nat | CancelCall string
  | StartCall "string \<Rightarrow> file_manifest option" coord_env "proto_source list" path u64 usize

definition drop_nth :: "nat \<Rightarrow> 'a list \<Rightarrow> 'a list" where
  "drop_nth i xs = take i xs @ drop (Suc i) xs"

text \<open>A task without chunks left ends; otherwise it fetches its next chunk and records the outcome.\<close>

definition run_task :: "io_env \<Rightarrow> nat \<Rightarrow> 'x ms_coordinator \<Rightarrow> 'x proto_world_scheme \<Rightarrow> 'x ms_coordinator \<times> 'x proto_world_scheme" where
  "run_task io j mc w =
     (let t = mc_tasks mc ! j
      in case ct_chunks t of
           [] \<Rightarrow> (mc\<lparr>mc_tasks := drop_nth j (mc_tasks mc)\<rparr>, w)
         | i # ids \<Rightarrow> (case coord_download_chunk io (ct_handler t) (ct_source t) i (ct_output_path t) w of
             (r, w') \<Rightarrow> (record_outcome (ct_file_hash t) i r (mc\<lparr>mc_tasks := (mc_tasks mc)[j := t\<lparr>ct_chunks := ids\<rparr>]\<rparr>), w')))"

definition run_monitor :: "io_env \<Rightarrow> nat \<Rightarrow> 'x ms_coordinator \<Rightarrow> 'x proto_world_scheme \<Rightarrow> 'x ms_coordinator \<times> 'x proto_world_scheme" where
  "run_monitor io j mc w = (case mc_monitors mc ! j of (f, out) \<Rightarrow>
     case monitor_turn_of io f out mc (pw_disk w) of
       (MonitorWaits, mc', d) \<Rightarrow> (mc', w\<lparr>pw_disk := d\<rparr>)
     | (MonitorEnds _, mc', d) \<Rightarrow> (mc'\<lparr>mc_monitors := drop_nth j (mc_monitors mc')\<rparr>, w\<lparr>pw_disk := d\<rparr>))"

fun mcoord_step :: "io_env \<Rightarrow> 'x ms_coordinator \<times> 'x proto_world_scheme \<Rightarrow> coord_event \<Rightarrow> 'x ms_coordinator \<times> 'x proto_world_scheme" where
  "mcoord_step io (mc, w) (RunTask j) = (if j < length (mc_tasks mc) then run_task io j mc w else (mc, w))"
| "mcoord_step io (mc, w) (RunMonitor j) = (if j < length (mc_monitors mc) then run_monitor io j mc w else (mc, w))"
| "mcoord_step io (mc, w) (CancelCall f) = (snd (coord_cancel_download f mc), w)"
| "mcoord_step io (mc, w) (StartCall parse env sources out whole chunk) = (snd (download_multi_source parse env sources out whole chunk mc), w)"

definition coord_run :: "io_env \<Rightarrow> 'x ms_coordinator \<times> 'x proto_world_scheme \<Rightarrow> coord_event list \<Rightarrow> 'x ms_coordinator \<times> 'x proto_world_scheme" where
  "coord_run io = foldl (mcoord_step io)"

section \<open>The chunks tile the file\<close>

lemma power_two_above: "0 < (n :: nat) \<Longrightarrow> \<exists>j. n \<le> 2 ^ j \<and> 2 ^ j < 2 * n"
proof -
  assume n: "0 < n"
  let ?j = "LEAST j. n \<le> 2 ^ j"
  have le: "n \<le> 2 ^ ?j" by (rule LeastI [of _ n]) (simp add: less_imp_le)
  have "2 ^ ?j < 2 * n"
  proof (cases ?j)
    case 0
    with n show ?thesis by simp
  next
    case (Suc i)
    then have "\<not> n \<le> 2 ^ i" using not_less_Least [of i "\<lambda>j. n \<le> 2 ^ j"] by simp
    with Suc show ?thesis by simp
  qed
  with le show ?thesis by blast
qed

lemma exact_above_int:
  assumes "k * 2 ^ j < 2 ^ 53" "j \<le> 52"
  shows "f64_exact (of_nat k + 1 / 2 ^ j)"
proof -
  have eq: "(of_nat k + 1 / 2 ^ j :: rat) = of_int (int (k * 2 ^ j + 1)) * 2 powi (- int j)"
    by (simp add: power_int_minus field_simps)
  have "k * 2 ^ j + 1 \<le> 2 ^ 53" using assms(1) by simp
  then have "int (k * 2 ^ j + 1) \<le> int (2 ^ 53)" by (simp only: of_nat_le_iff)
  then have r: "round_rat (of_nat k + 1 / 2 ^ j) = of_nat k + 1 / 2 ^ j"
    unfolding eq using assms(2) by (intro round_to_scaled_int) (simp_all only: of_nat_0_less_iff, simp_all)
  have "k < 2 ^ 53" using assms(1) by (metis le_less_trans mult.right_neutral mult_le_mono2 one_le_numeral one_le_power)
  then have "(of_nat k :: rat) < of_nat (2 ^ 53)" by (simp only: of_nat_less_iff)
  moreover have "1 / 2 ^ j \<le> (1 :: rat)" by simp
  ultimately have "of_nat k + 1 / 2 ^ j < (of_nat (2 ^ 53) + 1 :: rat)" by linarith
  also have "\<dots> < 2 ^ 1024" by simp
  finally have "\<bar>of_nat k + 1 / 2 ^ j :: rat\<bar> < 2 ^ 1024" by simp
  with r show ?thesis by (simp add: f64_exact_def)
qed

lemma ceil_div_exact:
  assumes "0 < c" "c \<le> 2 ^ 52" "0 < t" "t \<le> 2 ^ 52"
  shows "f64_ceil (f64_div (f64_of_u64 t) (f64_of_u64 c)) = F_Fin (of_nat (Suc ((t - 1) div c)))"
proof -
  let ?k = "(t - 1) div c" and ?q = "of_nat t / of_nat c :: rat"
  obtain j where j: "c \<le> 2 ^ j" "2 ^ j < 2 * c" using power_two_above [OF assms(1)] by blast
  have kc: "?k * c \<le> t - 1" "t - 1 < Suc ?k * c"
    using assms(1) by (simp, metis add.commute assms(1) dividend_less_times_div mult.commute mult_Suc)
  have "?k * 2 ^ j \<le> ?k * (2 * c)" using j(2) by (simp add: less_imp_le)
  also have "\<dots> = 2 * (?k * c)" by simp
  also have "\<dots> < 2 * 2 ^ 52" using kc(1) assms(3,4) by linarith
  also have "\<dots> = 2 ^ 53" by simp
  finally have "?k * 2 ^ j < 2 ^ 53" .
  moreover have "(2 :: nat) ^ j < 2 ^ 53" using j(2) assms(2) by simp
  then have "j < 53" by (rule power_less_imp_less_exp [rotated]) simp
  then have "j \<le> 52" by simp
  ultimately have e: "f64_exact (of_nat ?k + 1 / 2 ^ j)" by (rule exact_above_int)
  have "Suc ?k \<le> 2 ^ 53"
    using div_le_dividend [of "t - 1" c] assms(4) by (simp del: div_le_dividend)
  then have e': "f64_exact (of_nat (Suc ?k))" by (rule f64_exact_nat)
  have lower: "of_nat ?k + 1 / 2 ^ j \<le> ?q"
  proof -
    have "?k * c + 1 \<le> t" using kc(1) assms(3) by linarith
    then have "(of_nat ?k * of_nat c + 1 :: rat) \<le> of_nat t" by (metis of_nat_1 of_nat_add of_nat_le_iff of_nat_mult)
    then have "(of_nat ?k * of_nat c + 1) / of_nat c \<le> ?q" by (rule divide_right_mono) simp
    then have "of_nat ?k + 1 / of_nat c \<le> ?q" using assms(1) by (simp add: add_divide_distrib)
    moreover have "1 / 2 ^ j \<le> 1 / (of_nat c :: rat)"
    proof (rule divide_left_mono)
      show "of_nat c \<le> (2 :: rat) ^ j" using j(1) by (metis of_nat_le_iff of_nat_numeral of_nat_power)
    qed (use assms(1) in simp_all)
    ultimately show ?thesis by linarith
  qed
  have upper: "?q \<le> of_nat (Suc ?k)"
  proof -
    have "t \<le> Suc ?k * c" using kc(2) assms(3) by simp
    then have "(of_nat t :: rat) \<le> of_nat (Suc ?k) * of_nat c" by (metis of_nat_le_iff of_nat_mult)
    then show ?thesis using assms(1) by (simp add: divide_le_eq)
  qed
  have "f64_in (of_nat ?k + 1 / 2 ^ j) (of_nat (Suc ?k)) (f64_of_rat ?q)" by (rule f64_of_rat_in [OF lower upper e e'])
  then obtain r where r: "f64_of_rat ?q = F_Fin r" "of_nat ?k + 1 / 2 ^ j \<le> r" "r \<le> of_nat (Suc ?k)"
    by (auto simp: f64_in_iff)
  have "0 < 1 / (2 :: rat) ^ j" by simp
  with r(2) have "of_nat ?k < r" by linarith
  with r(3) have "\<lceil>r\<rceil> = int (Suc ?k)" by (intro ceiling_unique) simp_all
  with r(1) assms show ?thesis by (simp add: f64_of_u64_exact)
qed

lemma coord_chunk_count_exact:
  assumes "0 < c" "c \<le> 2 ^ 52" "t \<le> 2 ^ 52" "(t + c - 1) div c \<le> u32_max"
  shows "coord_chunk_count t c = (t + c - 1) div c"
proof (cases "t = 0")
  case True
  with assms(1,2) show ?thesis by (simp add: coord_chunk_count_def f64_of_u64_exact f64_of_rat_exact f64_to_u32_def)
next
  case False
  then have split: "t + c - 1 = (t - 1) + c" using assms(1) by simp
  have eq: "(t + c - 1) div c = Suc ((t - 1) div c)" unfolding split using assms(1) by simp
  have "u32_max \<le> u64_max" by (simp add: u32_max_def u64_max_def)
  then have "min (min (Suc ((t - 1) div c)) u64_max) u32_max = Suc ((t - 1) div c)" using assms(4) unfolding eq by simp
  moreover have "f64_ceil (f64_div (f64_of_u64 t) (f64_of_u64 c)) = F_Fin (of_nat (Suc ((t - 1) div c)))"
    using False assms by (intro ceil_div_exact) simp_all
  ultimately show ?thesis unfolding eq by (simp only: coord_chunk_count_def f64_to_u32_def f64_to_u64.simps floor_of_nat nat_int)
qed

lemma take_pieces: "concat (map (\<lambda>i. take c (drop (i * c) xs)) [0..<n]) = take (n * c) xs"
proof (induction n)
  case (Suc n)
  have "take (Suc n * c) xs = take (n * c) xs @ take c (drop (n * c) xs)"
    by (simp add: take_add add.commute [of c])
  with Suc show ?case by simp
qed simp

lemma ceil_pieces:
  assumes "0 < (c :: nat)"
  shows "t \<le> (t + c - 1) div c * c" "i < (t + c - 1) div c \<Longrightarrow> i * c < t"
proof -
  have "t + c - 1 < Suc ((t + c - 1) div c) * c"
    by (metis assms dividend_less_times_div mult.commute mult_Suc_right)
  then show "t \<le> (t + c - 1) div c * c" using assms by simp
  assume "i < (t + c - 1) div c"
  then have "Suc i * c \<le> (t + c - 1) div c * c" by (simp only: Suc_leI mult_le_mono1)
  also have "\<dots> \<le> t + c - 1" by simp
  finally show "i * c < t" using assms by simp
qed

lemma coord_chunks_nth:
  assumes "0 < c" "c \<le> 2 ^ 52" "t \<le> 2 ^ 52" "(t + c - 1) div c \<le> u32_max"
  defines "n \<equiv> (t + c - 1) div c"
  shows "length (coord_calculate_chunks parse t c json) = n"
    and "i < n \<Longrightarrow> ck_chunk_id (coord_calculate_chunks parse t c json ! i) = i"
    and "i < n \<Longrightarrow> ck_offset (coord_calculate_chunks parse t c json ! i) = i * c"
    and "i < n \<Longrightarrow> ck_size (coord_calculate_chunks parse t c json ! i) = min c (t - i * c)"
proof -
  have n: "coord_chunk_count t c = n" unfolding n_def by (rule coord_chunk_count_exact [OF assms(1-4)])
  show "length (coord_calculate_chunks parse t c json) = n" by (simp add: coord_calculate_chunks_def n Let_def)
  assume i: "i < n"
  then show "ck_chunk_id (coord_calculate_chunks parse t c json ! i) = i" by (simp add: coord_calculate_chunks_def n Let_def)
  have lt: "i * c < t" using i unfolding n_def by (rule ceil_pieces(2) [OF assms(1)])
  then have off: "wmul64 i c = i * c" using assms(3) by (intro wmul64_no_overflow) simp
  with i show "ck_offset (coord_calculate_chunks parse t c json ! i) = i * c" by (simp add: coord_calculate_chunks_def n Let_def)
  have "(if i = n - 1 then t - i * c else c) = min c (t - i * c)"
  proof (cases "i = n - 1")
    case True
    with i have "n * c = i * c + c" by (metis Suc_diff_1 add.commute gr_implies_not0 mult_Suc neq0_conv)
    moreover have "t \<le> n * c" using ceil_pieces(1) [OF assms(1)] unfolding n_def .
    ultimately show ?thesis using True by simp
  next
    case False
    with i have "Suc i < n" by simp
    then have "Suc i * c < t" unfolding n_def by (rule ceil_pieces(2) [OF assms(1)])
    with False show ?thesis by simp
  qed
  moreover have "ck_size (coord_calculate_chunks parse t c json ! i) = (if i = n - 1 then wsub64 t (wmul64 i c) else c)"
    using i by (simp add: coord_calculate_chunks_def n Let_def)
  ultimately show "ck_size (coord_calculate_chunks parse t c json ! i) = min c (t - i * c)"
    using lt by (simp only: off wsub64_def less_imp_le if_True)
qed

text \<open>
  C38: The chunks of the coordinator tile the file. For a file and a chunk size of at most 2 to the 52 bytes the number of chunks,
  which the code computes as a quotient of two floating-point numbers rounded up, is exactly the number of pieces: the chunks are
  numbered from 0, cutting the content of any file of that size along them and putting the pieces together gives it back, no
  chunk is empty and none is larger than the chunk size.
\<close>

theorem coordinator_chunks_tile:
  assumes "0 < chunk" "chunk \<le> 2 ^ 52" "length content \<le> 2 ^ 52" "(length content + chunk - 1) div chunk \<le> u32_max"
  shows "map ck_chunk_id (coord_calculate_chunks parse (length content) chunk json) = [0..<(length content + chunk - 1) div chunk]
    \<and> concat (map (\<lambda>c. take (ck_size c) (drop (ck_offset c) content)) (coord_calculate_chunks parse (length content) chunk json)) = content
    \<and> list_all (\<lambda>c. 0 < ck_size c \<and> ck_size c \<le> chunk) (coord_calculate_chunks parse (length content) chunk json)"
proof -
  let ?n = "(length content + chunk - 1) div chunk" and ?cs = "coord_calculate_chunks parse (length content) chunk json"
  note nth = coord_chunks_nth [OF assms, where parse = parse and json = json]
  have pieces: "map (\<lambda>c. take (ck_size c) (drop (ck_offset c) content)) ?cs = map (\<lambda>i. take chunk (drop (i * chunk) content)) [0..<?n]"
    by (rule nth_equalityI) (simp_all add: nth min_def)
  have "map ck_chunk_id ?cs = [0..<?n]" by (rule nth_equalityI) (simp_all add: nth)
  moreover have "concat (map (\<lambda>c. take (ck_size c) (drop (ck_offset c) content)) ?cs) = content"
    unfolding pieces take_pieces using ceil_pieces(1) [OF assms(1)] by simp
  moreover have "list_all (\<lambda>c. 0 < ck_size c \<and> ck_size c \<le> chunk) ?cs"
    using assms(1) ceil_pieces(2) [OF assms(1)] by (simp add: list_all_length nth)
  ultimately show ?thesis by blast
qed

theorem coordinator_chunks_tile_witness:
  "map ck_chunk_id (coord_calculate_chunks Map.empty (length ''chiral'') 4 None) = [0..<(length ''chiral'' + 4 - 1) div 4]
    \<and> concat (map (\<lambda>c. take (ck_size c) (drop (ck_offset c) ''chiral'')) (coord_calculate_chunks Map.empty (length ''chiral'') 4 None)) = ''chiral''
    \<and> list_all (\<lambda>c. 0 < ck_size c \<and> ck_size c \<le> 4) (coord_calculate_chunks Map.empty (length ''chiral'') 4 None)"
  by (rule coordinator_chunks_tile) (simp_all add: u32_max_def)

section \<open>The chunks are shared out\<close>

text \<open>All the chunks that a set of sources holds.\<close>

definition shared :: "proto_source set \<Rightarrow> shares \<Rightarrow> u32 multiset" where
  "shared S A = (\<Sum>s \<in> S. mset (share_of A s))"

lemma shared_empty [simp]: "shared S Map.empty = {#}"
  by (simp add: shared_def share_of_def)

lemma shared_upd:
  assumes "finite S" "s \<in> S"
  shows "shared S (A(s \<mapsto> cs)) + mset (share_of A s) = shared S A + mset cs"
proof -
  have "(\<Sum>x \<in> S - {s}. mset (share_of (A(s \<mapsto> cs)) x)) = (\<Sum>x \<in> S - {s}. mset (share_of A x))"
    by (rule sum.cong) (auto simp: share_of_def)
  then show ?thesis using assms
    by (simp add: shared_def sum.remove [OF assms] share_of_def ac_simps)
qed

lemma assign_shares_shared:
  assumes "finite S" "set ss \<subseteq> S" "distinct ss" "\<forall>s \<in> set ss. A s = None" "assign_shares whole n ss rest A = (A', rest')"
  shows "shared S A' + mset rest' = shared S A + mset rest \<and> dom A' \<subseteq> dom A \<union> set ss"
  using assms
proof (induction whole n ss rest A rule: assign_shares.induct)
  case (2 whole n s ss rest A)
  let ?k = "share_count whole n s"
  let ?B = "if take ?k rest = [] then A else A(s \<mapsto> take ?k rest)"
  have step: "assign_shares whole n ss (drop ?k rest) ?B = (A', rest')" using "2.prems"(5) by (simp add: Let_def)
  have "share_of A s = []" using "2.prems"(4) by (simp add: share_of_def)
  with shared_upd [of S s A "take ?k rest"] "2.prems"(1,2) have "shared S ?B = shared S A + mset (take ?k rest)" by auto
  moreover have "mset (take ?k rest) + mset (drop ?k rest) = mset rest" by (metis append_take_drop_id mset_append)
  moreover have fresh: "\<forall>s' \<in> set ss. ?B s' = None" using "2.prems"(3,4) by auto
  moreover have "set ss \<subseteq> S" "distinct ss" using "2.prems"(2,3) by auto
  ultimately have "shared S A' + mset rest' = shared S A + mset rest" "dom A' \<subseteq> dom ?B \<union> set ss"
    using "2.IH" [OF refl "2.prems"(1) _ _ fresh step] by (auto simp: add.assoc)
  moreover have "dom ?B \<union> set ss \<subseteq> dom A \<union> set (s # ss)" by auto
  ultimately show ?case by (intro conjI) (assumption, rule subset_trans)
qed simp_all

lemma deal_round_shared:
  assumes "finite S" "set ss \<subseteq> S" "deal_round ss rest A = (A', rest')"
  shows "shared S A' + mset rest' = shared S A + mset rest \<and> dom A' \<subseteq> dom A \<union> set ss"
  using assms
proof (induction ss rest A rule: deal_round.induct)
  case (3 s ss c rest A)
  have "shared S (A(s \<mapsto> share_of A s @ [c])) = shared S A + {#c#}"
    using shared_upd [of S s A "share_of A s @ [c]"] "3.prems"(1,2) by simp
  with "3.IH" [OF "3.prems"(1)] "3.prems"(2,3)
  show ?case
    by (auto simp del: fun_upd_apply)
qed auto

lemma deal_rest_shared:
  assumes "finite S" "set ss \<subseteq> S" "ss \<noteq> []"
  shows "shared S (deal_rest ss rest A) = shared S A + mset rest \<and> dom (deal_rest ss rest A) \<subseteq> dom A \<union> set ss"
  using assms
proof (induction ss rest A rule: deal_rest.induct)
  case (1 ss rest A)
  show ?case
  proof (cases "rest = []")
    case True
    then show ?thesis by (simp add: deal_rest.simps)
  next
    case False
    obtain B more where deal: "deal_round ss rest A = (B, more)" by fastforce
    have "shared S (deal_rest ss more B) = shared S B + mset more \<and> dom (deal_rest ss more B) \<subseteq> dom B \<union> set ss"
      using "1.IH" [OF _ deal [symmetric] "1.prems"] False "1.prems"(3) by auto
    moreover have "deal_rest ss rest A = deal_rest ss more B"
      using False "1.prems"(3) deal by (simp add: deal_rest.simps [of ss rest])
    ultimately show ?thesis using deal_round_shared [OF "1.prems"(1,2) deal] by auto
  qed
qed

lemma chunks_shared:
  assumes "distinct sources" "sources \<noteq> []"
  shows "shared (set sources) (coord_assign_chunks sources chunks) = mset (map ck_chunk_id chunks)
    \<and> dom (coord_assign_chunks sources chunks) \<subseteq> set sources"
proof (cases "chunks = []")
  case True
  then show ?thesis by (simp add: coord_assign_chunks_def)
next
  case False
  let ?r = "sort_desc source_priority_score sources"
  have "distinct ?r" using assms(1) by (metis sort_desc_mset mset_eq_imp_distinct_iff)
  obtain A rest where A: "assign_shares (total_priority ?r) (length chunks) ?r (map ck_chunk_id chunks) Map.empty = (A, rest)"
    by fastforce
  have "coord_assign_chunks sources chunks = deal_rest ?r rest A"
    using assms(2) False A by (simp add: coord_assign_chunks_def Let_def)
  with assign_shares_shared [OF _ _ \<open>distinct ?r\<close> _ A, of "set sources"] deal_rest_shared [of "set sources" ?r rest A] assms(2)
  show ?thesis by (simp add: subset_iff) blast
qed

text \<open>
  The coordinator gives every chunk to exactly one source. Whatever the priorities and however the floating-point shares are
  rounded, the chunks that the different sources get together are the chunks of the file, each once, and nobody else gets any;
  the loop that deals the chunks left over ends.
\<close>

theorem every_chunk_shared_once:
  assumes "distinct sources" "sources \<noteq> []"
  shows "(\<Sum>s \<in> set sources. mset (share_of (coord_assign_chunks sources chunks) s)) = mset (map ck_chunk_id chunks)
    \<and> dom (coord_assign_chunks sources chunks) \<subseteq> set sources"
  using chunks_shared [OF assms] by (simp add: shared_def)

theorem every_chunk_shared_once_witness:
  "(\<Sum>s \<in> set [new_proto_source ''http'' ''h'', new_proto_source ''ftp'' ''f''].
      mset (share_of (coord_assign_chunks [new_proto_source ''http'' ''h'', new_proto_source ''ftp'' ''f'']
        (coord_calculate_chunks Map.empty 6 4 None)) s)) = mset (map ck_chunk_id (coord_calculate_chunks Map.empty 6 4 None))
    \<and> dom (coord_assign_chunks [new_proto_source ''http'' ''h'', new_proto_source ''ftp'' ''f'']
        (coord_calculate_chunks Map.empty 6 4 None)) \<subseteq> set [new_proto_source ''http'' ''h'', new_proto_source ''ftp'' ''f'']"
  by (rule every_chunk_shared_once) (simp_all add: new_proto_source_def)

section \<open>Runs of the coordinator\<close>

text \<open>
  The chunks a download's tasks have still to fetch; and the ledger of a download: they, the failed and the completed chunks are
  together the chunks of the file, each once.
\<close>

definition pending_of :: "string \<Rightarrow> 'x coord_task list \<Rightarrow> u32 list" where
  "pending_of f ts = concat (map ct_chunks (filter (\<lambda>t. ct_file_hash t = f) ts))"

definition entry_ledger :: "nat \<Rightarrow> u32 list \<Rightarrow> coord_download \<Rightarrow> bool" where
  "entry_ledger n pend dl \<longleftrightarrow> length (cd_chunks dl) = n \<and> finite (dom (cd_completed_chunks dl)) \<and>
     mset pend + mset (cd_failed_chunks dl) + mset_set (dom (cd_completed_chunks dl)) = mset [0..<n]"

definition coord_ledger :: "string \<Rightarrow> nat \<Rightarrow> 'x ms_coordinator \<Rightarrow> bool" where
  "coord_ledger f n mc = (case mc_downloads mc f of None \<Rightarrow> True | Some dl \<Rightarrow> entry_ledger n (pending_of f (mc_tasks mc)) dl)"

lemma mset_upto_once: "add_mset i M = mset [0..<n] \<Longrightarrow> i \<notin># M"
proof
  assume "add_mset i M = mset [0..<n]" "i \<in># M"
  then have "add_mset i M = mset_set {0..<n}" by simp
  then have "count (add_mset i M) i \<le> 1" by (simp only: count_mset_set') simp
  with \<open>i \<in># M\<close> show False by (simp add: not_in_iff [symmetric])
qed

lemma pending_update:
  assumes "j < length ts" "ct_file_hash t = ct_file_hash (ts ! j)"
  shows "mset (pending_of f (ts[j := t])) + (if ct_file_hash t = f then mset (ct_chunks (ts ! j)) else {#})
    = mset (pending_of f ts) + (if ct_file_hash t = f then mset (ct_chunks t) else {#})"
  using assms
proof (induction ts arbitrary: j)
  case (Cons a ts)
  show ?case
  proof (cases j)
    case 0
    with Cons.prems show ?thesis by (simp add: pending_of_def)
  next
    case (Suc i)
    with Cons.IH [of i] Cons.prems show ?thesis by (simp add: pending_of_def split: if_splits)
  qed
qed simp

lemma pending_drop:
  assumes "j < length ts" "ct_chunks (ts ! j) = []"
  shows "pending_of f (drop_nth j ts) = pending_of f ts"
  using assms
proof (induction ts arbitrary: j)
  case (Cons a ts)
  then show ?case by (cases j) (auto simp: pending_of_def drop_nth_def)
qed simp

lemma entry_ledger_completed:
  assumes "entry_ledger n pend dl" "mset pend = add_mset i (mset pend')"
  shows "entry_ledger n pend' (coord_chunk_completed i b dl)"
proof -
  have eq: "add_mset i (mset pend' + mset (cd_failed_chunks dl) + mset_set (dom (cd_completed_chunks dl))) = mset [0..<n]"
    using assms by (simp add: entry_ledger_def)
  from mset_upto_once [OF this] assms(1) have "i \<notin> dom (cd_completed_chunks dl)" by (simp add: entry_ledger_def)
  then have "mset_set (dom ((cd_completed_chunks dl)(i \<mapsto> b))) = add_mset i (mset_set (dom (cd_completed_chunks dl)))"
    using assms(1) by (simp add: entry_ledger_def)
  with eq assms(1) show ?thesis by (simp add: entry_ledger_def coord_chunk_completed_def)
qed

lemma entry_ledger_failed:
  assumes "entry_ledger n pend dl" "mset pend = add_mset i (mset pend')"
  shows "entry_ledger n pend' (coord_chunk_failed i dl)"
proof -
  have eq: "add_mset i (mset pend' + mset (cd_failed_chunks dl) + mset_set (dom (cd_completed_chunks dl))) = mset [0..<n]"
    using assms by (simp add: entry_ledger_def)
  from mset_upto_once [OF this] have "i \<notin> set (cd_failed_chunks dl)" by simp
  with eq assms(1) show ?thesis by (simp add: entry_ledger_def coord_chunk_failed_def)
qed

lemma entry_ledger_cong: "mset pend = mset pend' \<Longrightarrow> entry_ledger n pend dl = entry_ledger n pend' dl"
  by (simp add: entry_ledger_def)

lemma record_outcome_simps:
  "mc_tasks (record_outcome f i r mc) = mc_tasks mc" "mc_monitors (record_outcome f i r mc) = mc_monitors mc"
  "mc_downloads (record_outcome f i r mc) g =
     (if g = f then map_option (case r of Inr b \<Rightarrow> coord_chunk_completed i b | Inl _ \<Rightarrow> coord_chunk_failed i) (mc_downloads mc f) else mc_downloads mc g)"
  by (auto simp: record_outcome_def upd_coord_download_def split: option.splits)

lemma run_task_ledger:
  assumes "coord_ledger f n mc" "j < length (mc_tasks mc)"
  shows "coord_ledger f n (fst (run_task io j mc w))"
proof (cases "ct_chunks (mc_tasks mc ! j)")
  case Nil
  with assms show ?thesis by (simp add: run_task_def coord_ledger_def pending_drop split: option.splits)
next
  case (Cons i ids)
  let ?t = "mc_tasks mc ! j"
  obtain r w' where r: "coord_download_chunk io (ct_handler ?t) (ct_source ?t) i (ct_output_path ?t) w = (r, w')" by fastforce
  have mc: "fst (run_task io j mc w) = record_outcome (ct_file_hash ?t) i r (mc\<lparr>mc_tasks := (mc_tasks mc)[j := ?t\<lparr>ct_chunks := ids\<rparr>]\<rparr>)"
    by (simp add: run_task_def Cons r Let_def)
  have upd: "mset (pending_of f ((mc_tasks mc)[j := ?t\<lparr>ct_chunks := ids\<rparr>])) + (if ct_file_hash ?t = f then add_mset i (mset ids) else {#})
    = mset (pending_of f (mc_tasks mc)) + (if ct_file_hash ?t = f then mset ids else {#})"
    using pending_update [OF assms(2), of "?t\<lparr>ct_chunks := ids\<rparr>" f] Cons by (simp split: if_splits)
  show ?thesis
  proof (cases "ct_file_hash ?t = f")
    case True
    with upd have p: "mset (pending_of f (mc_tasks mc)) = add_mset i (mset (pending_of f ((mc_tasks mc)[j := ?t\<lparr>ct_chunks := ids\<rparr>])))"
      by simp
    with True assms(1) show ?thesis unfolding mc coord_ledger_def
      by (auto simp: record_outcome_simps intro: entry_ledger_completed entry_ledger_failed split: option.splits sum.splits)
  next
    case False
    with upd have "mset (pending_of f ((mc_tasks mc)[j := ?t\<lparr>ct_chunks := ids\<rparr>])) = mset (pending_of f (mc_tasks mc))" by simp
    with False assms(1) show ?thesis unfolding mc coord_ledger_def
      by (auto simp: record_outcome_simps split: option.splits dest: entry_ledger_cong)
  qed
qed

lemma monitor_turn_frame:
  assumes "monitor_turn_of io f out mc d = (turn, mc', d')"
  shows "mc_tasks mc' = mc_tasks mc" "mc_downloads mc' g = mc_downloads mc g \<or> mc_downloads mc' g = None"
  using assms by (auto simp: monitor_turn_of_def Let_def split: option.splits if_splits prod.splits sum.splits)

lemma run_monitor_frame:
  "mc_tasks (fst (run_monitor io j mc w)) = mc_tasks mc"
  "mc_downloads (fst (run_monitor io j mc w)) g = mc_downloads mc g \<or> mc_downloads (fst (run_monitor io j mc w)) g = None"
  by (auto simp: run_monitor_def monitor_turn_frame split: prod.splits monitor_turn.splits dest: monitor_turn_frame)

text \<open>The identifiers of downloads are drawn at random: a later start draws another one.\<close>

fun other_start :: "string \<Rightarrow> coord_event \<Rightarrow> bool" where
  "other_start f (StartCall parse env sources out whole chunk) = (''multi_'' @ me_uuid env \<noteq> f)"
| "other_start f _ = True"

lemma spawn_tasks_frame:
  "mc_downloads (snd (spawn_tasks g out A ss mc)) = mc_downloads mc \<and>
    filter (\<lambda>t. ct_file_hash t \<noteq> g) (mc_tasks (snd (spawn_tasks g out A ss mc))) = filter (\<lambda>t. ct_file_hash t \<noteq> g) (mc_tasks mc)"
  by (induction ss arbitrary: mc) (auto split: option.splits)

lemma start_frame:
  assumes "''multi_'' @ me_uuid env \<noteq> f"
  shows "mc_downloads (snd (download_multi_source parse env sources out whole chunk mc)) f = mc_downloads mc f"
    and "filter (\<lambda>t. ct_file_hash t = f) (mc_tasks (snd (download_multi_source parse env sources out whole chunk mc)))
      = filter (\<lambda>t. ct_file_hash t = f) (mc_tasks mc)"
proof -
  let ?g = "''multi_'' @ me_uuid env" and ?mc = "snd (download_multi_source parse env sources out whole chunk mc)"
  have split: "filter (\<lambda>t. ct_file_hash t = f) ts = filter (\<lambda>t. ct_file_hash t = f) (filter (\<lambda>t. ct_file_hash t \<noteq> ?g) ts)" for ts :: "'a coord_task list"
    using assms by (simp only: filter_filter) (rule filter_cong; auto)
  obtain dl where mc: "?mc = mc \<or> mc_downloads ?mc = (mc_downloads mc)(?g \<mapsto> dl) \<and>
      filter (\<lambda>t. ct_file_hash t \<noteq> ?g) (mc_tasks ?mc) = filter (\<lambda>t. ct_file_hash t \<noteq> ?g) (mc_tasks mc)"
  proof (cases "sources = []")
    case False
    let ?chunks = "coord_calculate_chunks parse whole chunk None"
    let ?A = "coord_assign_chunks sources ?chunks"
    let ?dl = "\<lparr>cd_file_hash = ?g, cd_total_size = whole, cd_chunk_size = chunk, cd_chunks = ?chunks, cd_sources = sources,
      cd_assignments = note_shares ?chunks ?A (me_insert_order env), cd_completed_chunks = Map.empty, cd_failed_chunks = []\<rparr>"
    obtain r mc1 where "spawn_tasks ?g out ?A (me_spawn_order env) (mc\<lparr>mc_downloads := (mc_downloads mc)(?g \<mapsto> ?dl)\<rparr>) = (r, mc1)" by fastforce
    with False spawn_tasks_frame [of ?g out ?A "me_spawn_order env" "mc\<lparr>mc_downloads := (mc_downloads mc)(?g \<mapsto> ?dl)\<rparr>"] that [of ?dl] show ?thesis
      by (cases r) (simp_all add: download_multi_source_def Let_def)
  qed (use that in \<open>simp add: download_multi_source_def\<close>)
  then show "mc_downloads ?mc f = mc_downloads mc f" using assms by auto
  from mc have "filter (\<lambda>t. ct_file_hash t \<noteq> ?g) (mc_tasks ?mc) = filter (\<lambda>t. ct_file_hash t \<noteq> ?g) (mc_tasks mc)" by (elim disjE) simp_all
  then show "filter (\<lambda>t. ct_file_hash t = f) (mc_tasks ?mc) = filter (\<lambda>t. ct_file_hash t = f) (mc_tasks mc)"
    by (subst (1 2) split) (simp only:)
qed

lemma coord_step_ledger:
  assumes "coord_ledger f n (fst s)" "other_start f e"
  shows "coord_ledger f n (fst (mcoord_step io s e))"
proof -
  obtain mc w where s: "s = (mc, w)" by fastforce
  show ?thesis
  proof (cases e)
    case (RunTask j)
    with assms s run_task_ledger [of f n mc j io w] show ?thesis by simp
  next
    case (RunMonitor j)
    with assms s run_monitor_frame (1) [of io j mc w] run_monitor_frame(2) [of io j mc w f] show ?thesis
      by (auto simp: coord_ledger_def split: option.splits)
  next
    case (CancelCall g)
    with assms s show ?thesis by (auto simp: coord_ledger_def coord_cancel_download_def split: option.splits)
  next
    case (StartCall parse env sources out whole chunk)
    with assms s show ?thesis by (auto simp: coord_ledger_def pending_of_def start_frame split: option.splits)
  qed
qed

lemma coord_run_ledger: "coord_ledger f n (fst s) \<Longrightarrow> list_all (other_start f) es \<Longrightarrow> coord_ledger f n (fst (coord_run io s es))"
  by (induction es arbitrary: s) (auto simp: coord_run_def coord_step_ledger)

lemma spawn_tasks_ok:
  assumes "spawn_tasks f out A ss mc = (Inr u, mc')"
  shows "mc' = mc\<lparr>mc_tasks := mc_tasks mc @ map (\<lambda>s. \<lparr>ct_handler = the (mc_handlers mc (ps_protocol s)), ct_source = s,
    ct_chunks = share_of A s, ct_file_hash = f, ct_output_path = out\<rparr>) ss\<rparr>"
  using assms
proof (induction ss arbitrary: mc)
  case (Cons s ss)
  then obtain h where "mc_handlers mc (ps_protocol s) = Some h" by (auto split: option.splits)
  with Cons.IH [of "mc\<lparr>mc_tasks := mc_tasks mc @ [\<lparr>ct_handler = h, ct_source = s, ct_chunks = share_of A s, ct_file_hash = f,
    ct_output_path = out\<rparr>]\<rparr>"] Cons.prems show ?case by simp
qed simp

text \<open>What a successful start adds to the state.\<close>

lemma started_state:
  assumes "download_multi_source parse env sources out whole chunk mc = (Inr h, mc')"
  defines "f \<equiv> ''multi_'' @ me_uuid env" and "chunks \<equiv> coord_calculate_chunks parse whole chunk None"
  shows "dh_identifier h = f"
    and "mc_tasks mc' = mc_tasks mc @ map (\<lambda>s. \<lparr>ct_handler = the (mc_handlers mc (ps_protocol s)), ct_source = s,
      ct_chunks = share_of (coord_assign_chunks sources chunks) s, ct_file_hash = f, ct_output_path = out\<rparr>) (me_spawn_order env)"
    and "mc_monitors mc' = mc_monitors mc @ [(f, out)]"
    and "\<exists>dl. mc_downloads mc' = (mc_downloads mc)(f \<mapsto> dl) \<and> cd_chunks dl = chunks \<and> cd_completed_chunks dl = Map.empty
      \<and> cd_failed_chunks dl = []"
    and "sources \<noteq> []"
  using assms by (auto simp: download_multi_source_def Let_def dest!: spawn_tasks_ok split: if_splits prod.splits sum.splits)

lemma order_shared:
  assumes "hm_order A ks" "dom A \<subseteq> S" "finite S"
  shows "mset (concat (map (share_of A) ks)) = shared S A"
proof -
  have "mset (concat (map (share_of A) ks)) = (\<Sum>s \<leftarrow> ks. mset (share_of A s))"
    by (simp add: mset_concat comp_def)
  also have "\<dots> = (\<Sum>s \<in> dom A. mset (share_of A s))"
    using assms(1) by (simp add: hm_order_def sum_list_distinct_conv_sum_set)
  also have "\<dots> = (\<Sum>s \<in> S. mset (share_of A s))"
    using assms(2,3) by (intro sum.mono_neutral_left) (auto simp: share_of_def split: option.splits)
  finally show ?thesis by (simp add: shared_def)
qed

lemma coord_chunks_ids: "map ck_chunk_id (coord_calculate_chunks parse t c json) = [0..<coord_chunk_count t c]"
  by (simp add: coord_calculate_chunks_def Let_def comp_def)

lemma started_ledger:
  assumes start: "download_multi_source parse env sources out whole chunk mc = (Inr h, mc')"
    and "distinct sources" "hm_order (coord_assign_chunks sources (coord_calculate_chunks parse whole chunk None)) (me_spawn_order env)"
    and fresh: "pending_of (''multi_'' @ me_uuid env) (mc_tasks mc) = []"
  shows "coord_ledger (''multi_'' @ me_uuid env) (coord_chunk_count whole chunk) mc'"
proof -
  let ?A = "coord_assign_chunks sources (coord_calculate_chunks parse whole chunk None)" and ?f = "''multi_'' @ me_uuid env"
  note st = started_state [OF start]
  have "pending_of ?f (mc_tasks mc') = concat (map (share_of ?A) (me_spawn_order env))"
    using fresh by (simp add: st(2) pending_of_def comp_def)
  moreover have "mset (concat (map (share_of ?A) (me_spawn_order env))) = mset [0..<coord_chunk_count whole chunk]"
    using order_shared [OF assms(3), of "set sources"] chunks_shared [OF assms(2) st(5), of "coord_calculate_chunks parse whole chunk None"]
    by (simp only: coord_chunks_ids) simp
  moreover have "length (coord_calculate_chunks parse whole chunk None) = coord_chunk_count whole chunk"
    by (metis coord_chunks_ids length_map length_upt diff_zero)
  moreover obtain dl where "mc_downloads mc' ?f = Some dl" "cd_chunks dl = coord_calculate_chunks parse whole chunk None"
    "cd_completed_chunks dl = Map.empty" "cd_failed_chunks dl = []" using st(4) by auto
  ultimately show ?thesis by (simp add: coord_ledger_def entry_ledger_def)
qed

text \<open>
  C37: The monitor of a multi-source download whose sources are all different does not wait for ever. Whatever the tasks and the monitors of all downloads do in the
  meantime and in which order, whatever is cancelled and started (under other identifiers, which are drawn at random), once the tasks of the
  download have no chunk left to fetch, the next turn of its monitor ends: all chunks are there and the file is assembled, or the failures are
  reported. It never waits for a chunk that no task fetches.
\<close>

theorem monitor_ends_after_tasks:
  assumes "download_multi_source parse env sources out whole chunk mc = (Inr h, mc')" "distinct sources"
    and "hm_order (coord_assign_chunks sources (coord_calculate_chunks parse whole chunk None)) (me_spawn_order env)"
    and "pending_of (dh_identifier h) (mc_tasks mc) = []"
    and "coord_run io (mc', w) events = (mc'', w')" "list_all (other_start (dh_identifier h)) events" "pending_of (dh_identifier h) (mc_tasks mc'') = []"
  shows "fst (monitor_turn_of io (dh_identifier h) out mc'' d) \<noteq> MonitorWaits"
proof -
  let ?f = "dh_identifier h" and ?n = "coord_chunk_count whole chunk"
  have f: "?f = ''multi_'' @ me_uuid env" by (rule started_state(1) [OF assms(1)])
  have "coord_ledger ?f ?n (fst (coord_run io (mc', w) events))"
    using started_ledger [OF assms(1-3)] assms(4,6) unfolding f by (intro coord_run_ledger) simp_all
  then have led: "coord_ledger ?f ?n mc''" using assms(5) by simp
  show ?thesis
  proof (cases "mc_downloads mc'' ?f")
    case None
    then show ?thesis by (simp add: monitor_turn_of_def)
  next
    case (Some dl)
    with led assms(7) have "length (cd_chunks dl) = ?n"
      and sum: "mset (cd_failed_chunks dl) + mset_set (dom (cd_completed_chunks dl)) = mset [0..<?n]"
      by (auto simp: coord_ledger_def entry_ledger_def)
    moreover from sum have "length (cd_failed_chunks dl) + card (dom (cd_completed_chunks dl)) = ?n"
      by (metis size_union size_mset size_mset_set length_upt diff_zero)
    ultimately show ?thesis using Some by (auto simp: monitor_turn_of_def Let_def split: prod.splits sum.splits)
  qed
qed

section \<open>What is assembled\<close>

text \<open>A handler that does what the trait says: it puts the file named by the identifier at the path asked for.\<close>

definition delivers :: "'x protocol_handler \<Rightarrow> string \<Rightarrow> bytes \<Rightarrow> bool" where
  "delivers h ident content \<longleftrightarrow> (\<forall>opts w. \<exists>hd w'. ph_download h ident opts w = (Inr hd, w') \<and>
     pw_disk w' = (pw_disk w)(do_output_path opts \<mapsto> content))"

definition all_whole :: "string \<Rightarrow> bytes \<Rightarrow> 'x ms_coordinator \<Rightarrow> bool" where
  "all_whole f content mc \<longleftrightarrow>
     (\<forall>t \<in> set (mc_tasks mc). ct_file_hash t = f \<longrightarrow> delivers (ct_handler t) (ps_identifier (ct_source t)) content) \<and>
     (\<forall>dl. mc_downloads mc f = Some dl \<longrightarrow> cd_failed_chunks dl = [] \<and>
        (\<forall>i b. cd_completed_chunks dl i = Some b \<longrightarrow> b = content))"

lemma delivered_chunk:
  assumes "delivers h (ps_identifier s) content"
  shows "fst (coord_download_chunk no_faults h s i out w) = Inr content"
proof -
  obtain hd w' where "ph_download h (ps_identifier s) (chunk_options (chunk_temp_path out i)) w = (Inr hd, w')"
    "pw_disk w' = (pw_disk w)(chunk_temp_path out i \<mapsto> content)"
    using assms unfolding delivers_def by (metis chunk_options_def download_options.select_convs(1))
  then show ?thesis by (simp add: coord_download_chunk_def Let_def and_then_Ok take_chunk_file_def fs_read_def)
qed

lemma set_drop_nth: "set (drop_nth j xs) \<subseteq> set xs"
  by (auto simp: drop_nth_def dest: in_set_takeD in_set_dropD)

lemma run_task_whole:
  assumes "all_whole f content mc" "j < length (mc_tasks mc)"
  shows "all_whole f content (fst (run_task no_faults j mc w))"
proof (cases "ct_chunks (mc_tasks mc ! j)")
  case Nil
  with assms(1) set_drop_nth [of j "mc_tasks mc"] show ?thesis by (auto simp: run_task_def all_whole_def)
next
  case (Cons i ids)
  let ?t = "mc_tasks mc ! j"
  obtain r w' where r: "coord_download_chunk no_faults (ct_handler ?t) (ct_source ?t) i (ct_output_path ?t) w = (r, w')" by fastforce
  have mc: "fst (run_task no_faults j mc w) =
      record_outcome (ct_file_hash ?t) i r (mc\<lparr>mc_tasks := (mc_tasks mc)[j := ?t\<lparr>ct_chunks := ids\<rparr>]\<rparr>)"
    by (simp add: run_task_def Cons r Let_def)
  have t: "?t \<in> set (mc_tasks mc)" using assms(2) by simp
  then have "ct_file_hash ?t = f \<Longrightarrow> r = Inr content"
    using assms(1) delivered_chunk [of "ct_handler ?t" "ct_source ?t" content i "ct_output_path ?t" w] r by (auto simp: all_whole_def)
  then have "all_whole f content (record_outcome (ct_file_hash ?t) i r mc)"
    using assms(1) by (auto simp: all_whole_def record_outcome_simps coord_chunk_completed_def split: if_splits)
  moreover have "u \<in> set ((mc_tasks mc)[j := ?t\<lparr>ct_chunks := ids\<rparr>]) \<Longrightarrow> ct_file_hash u = f \<Longrightarrow>
      delivers (ct_handler u) (ps_identifier (ct_source u)) content" for u
    using assms(1) t set_update_subset_insert [of "mc_tasks mc" j "?t\<lparr>ct_chunks := ids\<rparr>"] by (auto simp: all_whole_def)
  ultimately show ?thesis unfolding mc by (simp add: all_whole_def record_outcome_simps)
qed

lemma coord_step_whole:
  assumes "all_whole f content (fst s)" "other_start f e"
  shows "all_whole f content (fst (mcoord_step no_faults s e))"
proof -
  obtain mc w where s: "s = (mc, w)" by fastforce
  show ?thesis
  proof (cases e)
    case (RunTask j)
    with assms s run_task_whole [of f content mc j w] show ?thesis by simp
  next
    case (RunMonitor j)
    with assms s run_monitor_frame(1) [of no_faults j mc w] run_monitor_frame(2) [of no_faults j mc w f] show ?thesis
      by (auto simp: all_whole_def)
  next
    case (CancelCall g)
    with assms s show ?thesis by (auto simp: all_whole_def coord_cancel_download_def split: option.splits)
  next
    case (StartCall parse env sources out whole chunk)
    let ?mc = "snd (download_multi_source parse env sources out whole chunk mc)"
    have "set (filter (\<lambda>t. ct_file_hash t = f) (mc_tasks ?mc)) = set (filter (\<lambda>t. ct_file_hash t = f) (mc_tasks mc))"
      using start_frame(2) [of env f parse sources out whole chunk mc] StartCall assms(2) by simp
    then have "t \<in> set (mc_tasks ?mc) \<Longrightarrow> ct_file_hash t = f \<Longrightarrow> t \<in> set (mc_tasks mc)" for t by auto
    with assms s StartCall show ?thesis by (auto simp: all_whole_def start_frame(1))
  qed
qed

lemma coord_run_whole: "all_whole f content (fst s) \<Longrightarrow> list_all (other_start f) es \<Longrightarrow> all_whole f content (fst (coord_run no_faults s es))"
  by (induction es arbitrary: s) (auto simp: coord_run_def coord_step_whole)

lemma write_completed_whole:
  assumes "\<forall>i \<in> set ids. m i = Some content" "d p = Some pre"
  shows "write_completed no_faults p m ids d = (Inr (), d(p \<mapsto> pre @ concat (replicate (length ids) content)))"
  using assms
proof (induction ids arbitrary: d pre)
  case (Cons i ids)
  from Cons.IH [of "d(p \<mapsto> pre @ content)" "pre @ content"] Cons.prems show ?case by (simp del: fun_upd_apply add: fun_upd_same)
qed (simp add: fun_upd_idem)

text \<open>
  The assembled file is not the file. When every handler does what it is asked for, a multi-source download whose sources all
  offer the same file ends by writing that file once per chunk: each task asks its handler for the whole file and stores what it
  gets as its chunk, and the assembly puts these together. With more than one chunk a file that is not empty is always wrong.
\<close>

theorem assembled_file_repeated:
  assumes start: "download_multi_source parse env sources out whole chunk mc = (Inr h, mc')" "distinct sources"
    and order: "hm_order (coord_assign_chunks sources (coord_calculate_chunks parse whole chunk None)) (me_spawn_order env)"
    and fresh: "\<forall>t \<in> set (mc_tasks mc). ct_file_hash t \<noteq> dh_identifier h"
    and deliver: "\<forall>s \<in> set (me_spawn_order env). delivers (the (mc_handlers mc (ps_protocol s))) (ps_identifier s) content"
    and run: "coord_run no_faults (mc', w) events = (mc'', w')" "pending_of (dh_identifier h) (mc_tasks mc'') = []" "list_all (other_start (dh_identifier h)) events"
    and active: "mc_downloads mc'' (dh_identifier h) \<noteq> None"
  shows "\<exists>mc3 d'. monitor_turn_of no_faults (dh_identifier h) out mc'' d = (MonitorEnds (Ok ()), mc3, d')
    \<and> d' out = Some (concat (replicate (coord_chunk_count whole chunk) content))"
proof -
  let ?f = "dh_identifier h" and ?n = "coord_chunk_count whole chunk"
  note st = started_state [OF start(1)]
  have f: "?f = ''multi_'' @ me_uuid env" by (rule st(1))
  have "pending_of ?f (mc_tasks mc) = []" using fresh by (auto simp: pending_of_def)
  then have "coord_ledger ?f ?n mc''"
    using started_ledger [OF start order] run(1,3) coord_run_ledger [of ?f ?n "(mc', w)" events no_faults] unfolding f by simp
  moreover have "all_whole ?f content mc'"
    using st(4) deliver fresh unfolding f by (auto simp: all_whole_def st(2))
  then have "all_whole ?f content mc''" using run(1,3) coord_run_whole [of ?f content "(mc', w)" events] by simp
  moreover obtain dl where dl: "mc_downloads mc'' ?f = Some dl" using active by blast
  ultimately have len: "length (cd_chunks dl) = ?n" and fin: "finite (dom (cd_completed_chunks dl))"
    and sum: "mset_set (dom (cd_completed_chunks dl)) = mset_set {0..<?n}" and same: "\<And>i b. cd_completed_chunks dl i = Some b \<Longrightarrow> b = content"
    using run(2) by (auto simp: coord_ledger_def entry_ledger_def all_whole_def)
  have dom: "dom (cd_completed_chunks dl) = {0..<?n}" using sum fin by (metis finite_atLeastLessThan finite_set_mset_mset_set)
  have full: "\<forall>i \<in> set [0..<length (cd_chunks dl)]. cd_completed_chunks dl i = Some content"
  proof
    fix i assume "i \<in> set [0..<length (cd_chunks dl)]"
    then have "i \<in> dom (cd_completed_chunks dl)" by (simp add: dom len)
    then obtain b where b: "cd_completed_chunks dl i = Some b" by blast
    with same show "cd_completed_chunks dl i = Some content" by simp
  qed
  have "card (dom (cd_completed_chunks dl)) = length (cd_chunks dl)" by (simp add: dom len)
  moreover have "coord_assemble_file no_faults ?f out mc'' d = (Inr (), d(out \<mapsto> concat (replicate ?n content)))"
    using write_completed_whole [OF full, of "d(out \<mapsto> [])" out "[]"] by (simp add: coord_assemble_file_def dl len)
  ultimately show ?thesis by (simp add: monitor_turn_of_def dl)
qed

text \<open>An instance: one source, a file of two bytes, and chunks for a file of six.\<close>

definition demo_handler :: "unit protocol_handler" where
  "demo_handler = \<lparr>ph_name = ''http'', ph_supports = \<lambda>_. True, ph_capabilities = default_capabilities,
     ph_download = \<lambda>i opts w. (Inr \<lparr>dh_identifier = i, dh_protocol = ''http'', dh_started_at = 0\<rparr>,
       w\<lparr>pw_disk := (pw_disk w)(do_output_path opts \<mapsto> ''ab'')\<rparr>),
     ph_seed = \<lambda>_ _. fail PeNotSupported, ph_stop_seeding = \<lambda>_. fail PeNotSupported, ph_pause_download = \<lambda>_. fail PeNotSupported,
     ph_resume_download = \<lambda>_. fail PeNotSupported, ph_cancel_download = \<lambda>_. fail PeNotSupported,
     ph_get_download_progress = \<lambda>_. fail PeNotSupported, ph_list_seeding = fail PeNotSupported\<rparr>"

definition demo_source :: proto_source where
  "demo_source = new_proto_source ''http'' ''u''"

definition coord_demo_env :: coord_env where
  "coord_demo_env = \<lparr>me_uuid = ''1'', me_now = 0, me_insert_order = [demo_source], me_spawn_order = [demo_source]\<rparr>"

definition demo_coord :: "unit ms_coordinator" where
  "demo_coord = new_ms_coordinator [''http'' \<mapsto> demo_handler]"

definition demo_start :: "(protocol_error, download_handle) result \<times> unit ms_coordinator" where
  "demo_start = download_multi_source Map.empty coord_demo_env [demo_source] [''o''] 6 4 demo_coord"

lemma demo_chunk_count: "coord_chunk_count 6 4 = 2"
  by (simp add: coord_chunk_count_exact u32_max_def)

lemma demo_shares: "coord_assign_chunks [demo_source] (coord_calculate_chunks Map.empty 6 4 None) = [demo_source \<mapsto> [0, 1]]"
proof -
  have ids: "map ck_chunk_id (coord_calculate_chunks Map.empty 6 4 None) = [0, 1]"
    by (simp add: coord_chunks_ids demo_chunk_count upt_rec)
  then have len: "length (coord_calculate_chunks Map.empty 6 4 None) = 2" by (metis length_map length_Cons list.size(3) One_nat_def Suc_1)
  then have ne: "coord_calculate_chunks Map.empty 6 4 None \<noteq> []" by auto
  have rank: "sort_desc source_priority_score [demo_source] = [demo_source]" by (simp add: sort_desc_def)
  have score: "source_priority_score demo_source = 50" by (simp add: source_priority_score_def demo_source_def new_proto_source_def wadd32_def)
  then have whole: "total_priority [demo_source] = 50" by (simp add: total_priority_def wadd32_def)
  have "share_count 50 2 demo_source = 2"
    by (simp add: share_count_def score f64_of_u64_exact f64_of_rat_exact u64_max_def)
  with ne len ids show ?thesis
    by (simp add: coord_assign_chunks_def rank whole Let_def deal_rest.simps)
qed

lemma demo_delivers: "delivers demo_handler ident ''ab''"
  by (simp add: delivers_def demo_handler_def)

lemma demo_started_state:
  "mc_tasks (snd demo_start) = [\<lparr>ct_handler = demo_handler, ct_source = demo_source, ct_chunks = [0, 1], ct_file_hash = ''multi_1'',
     ct_output_path = [''o'']\<rparr>]" "mc_downloads (snd demo_start) ''multi_1'' \<noteq> None"
  by (simp_all add: demo_start_def download_multi_source_def Let_def coord_demo_env_def demo_coord_def new_ms_coordinator_def demo_shares
      share_of_def) (simp_all add: demo_source_def new_proto_source_def)

lemma demo_started:
  "\<exists>h. download_multi_source Map.empty coord_demo_env [demo_source] [''o''] 6 4 demo_coord = (Inr h, snd demo_start) \<and> dh_identifier h = ''multi_1''"
  by (simp add: demo_start_def download_multi_source_def Let_def coord_demo_env_def demo_coord_def new_ms_coordinator_def demo_source_def
      new_proto_source_def)

lemma run_task_tasks:
  "mc_tasks (fst (run_task io j mc w)) = (case ct_chunks (mc_tasks mc ! j) of [] \<Rightarrow> drop_nth j (mc_tasks mc)
     | i # ids \<Rightarrow> (mc_tasks mc)[j := (mc_tasks mc ! j)\<lparr>ct_chunks := ids\<rparr>])"
  "mc_downloads (fst (run_task io j mc w)) f = None \<longleftrightarrow> mc_downloads mc f = None"
  by (auto simp: run_task_def Let_def record_outcome_simps split: list.splits prod.splits)

definition demo_run :: "unit ms_coordinator \<times> proto_world" where
  "demo_run = coord_run no_faults (snd demo_start, \<lparr>pw_disk = Map.empty\<rparr>) [RunTask 0, RunTask 0]"

lemma demo_run_end:
  "pending_of ''multi_1'' (mc_tasks (fst demo_run)) = []" "mc_downloads (fst demo_run) ''multi_1'' \<noteq> None"
proof -
  have step: "mcoord_step no_faults (mc, w) (RunTask 0) = run_task no_faults 0 mc w" if "mc_tasks mc \<noteq> []"
    for mc :: "unit ms_coordinator" and w using that by simp
  let ?one = "run_task no_faults 0 (snd demo_start) \<lparr>pw_disk = Map.empty\<rparr>"
  have one: "mc_tasks (fst ?one) = [\<lparr>ct_handler = demo_handler, ct_source = demo_source, ct_chunks = [1], ct_file_hash = ''multi_1'',
     ct_output_path = [''o'']\<rparr>]" "mc_downloads (fst ?one) ''multi_1'' \<noteq> None"
    using demo_started_state(2) by (simp_all add: run_task_tasks demo_started_state(1))
  have run: "demo_run = run_task no_faults 0 (fst ?one) (snd ?one)"
    using step [of "snd demo_start"] step [of "fst ?one" "snd ?one"] one(1) demo_started_state(1)
    by (simp add: demo_run_def coord_run_def del: mcoord_step.simps)
  show "pending_of ''multi_1'' (mc_tasks (fst demo_run)) = []"
    unfolding run by (subst run_task_tasks(1)) (simp add: one(1) pending_of_def)
  show "mc_downloads (fst demo_run) ''multi_1'' \<noteq> None" using one(2) unfolding run by (subst run_task_tasks(2))
qed

theorem assembled_file_repeated_witness:
  "\<exists>mc3 d'. monitor_turn_of no_faults ''multi_1'' [''o''] (fst demo_run) Map.empty = (MonitorEnds (Ok ()), mc3, d')
    \<and> d' [''o''] = Some ''abab''"
proof -
  obtain h where h: "download_multi_source Map.empty coord_demo_env [demo_source] [''o''] 6 4 demo_coord = (Inr h, snd demo_start)"
    "dh_identifier h = ''multi_1''" using demo_started by blast
  have "\<exists>mc3 d'. monitor_turn_of no_faults (dh_identifier h) [''o''] (fst demo_run) Map.empty = (MonitorEnds (Ok ()), mc3, d')
    \<and> d' [''o''] = Some (concat (replicate (coord_chunk_count 6 4) ''ab''))"
  proof (rule assembled_file_repeated [OF h(1)])
    show "coord_run no_faults (snd demo_start, \<lparr>pw_disk = Map.empty\<rparr>) [RunTask 0, RunTask 0] = (fst demo_run, snd demo_run)"
      by (simp add: demo_run_def)
    show "hm_order (coord_assign_chunks [demo_source] (coord_calculate_chunks Map.empty 6 4 None)) (me_spawn_order coord_demo_env)"
      by (simp add: demo_shares hm_order_def coord_demo_env_def)
    show "\<forall>s \<in> set (me_spawn_order coord_demo_env). delivers (the (mc_handlers demo_coord (ps_protocol s))) (ps_identifier s) ''ab''"
      by (simp add: coord_demo_env_def demo_coord_def new_ms_coordinator_def demo_source_def new_proto_source_def demo_delivers)
  qed (simp_all add: h(2) demo_run_end demo_coord_def new_ms_coordinator_def)
  then show ?thesis by (simp add: h(2) demo_chunk_count numeral_2_eq_2)
qed

theorem monitor_ends_after_tasks_witness:
  "fst (monitor_turn_of no_faults ''multi_1'' [''o''] (fst demo_run) Map.empty) \<noteq> MonitorWaits"
proof -
  obtain h where h: "download_multi_source Map.empty coord_demo_env [demo_source] [''o''] 6 4 demo_coord = (Inr h, snd demo_start)"
    "dh_identifier h = ''multi_1''" using demo_started by blast
  have "fst (monitor_turn_of no_faults (dh_identifier h) [''o''] (fst demo_run) Map.empty) \<noteq> MonitorWaits"
  proof (rule monitor_ends_after_tasks [OF h(1)])
    show "coord_run no_faults (snd demo_start, \<lparr>pw_disk = Map.empty\<rparr>) [RunTask 0, RunTask 0] = (fst demo_run, snd demo_run)"
      by (simp add: demo_run_def)
    show "hm_order (coord_assign_chunks [demo_source] (coord_calculate_chunks Map.empty 6 4 None)) (me_spawn_order coord_demo_env)"
      by (simp add: demo_shares hm_order_def coord_demo_env_def)
    show "pending_of (dh_identifier h) (mc_tasks demo_coord) = []"
      by (simp add: pending_of_def demo_coord_def new_ms_coordinator_def)
  qed (simp_all add: h(2) demo_run_end)
  then show ?thesis by (simp add: h(2))
qed

end
