(* ===== verification/ProtocolManager.thy ===== *)
theory ProtocolManager
  imports MultiCoordinator
begin

text \<open>
  \<open>protocols/mod.rs\<close>, \<open>protocols/api.rs\<close>, \<open>protocols/detection.rs\<close> and \<open>protocols/seeding.rs\<close>: the manager that finds the handler for an
  identifier, starts, pauses and cancels transfers through it and keeps the registry of the files being seeded.

  An operation acts on the manager and on the world its handlers share. A hash map that an operation iterates is iterated in an
  order that is an argument. Registering a handler builds a new coordinator; the tasks and monitors of the one it replaces run on
  with their own table, so the manager keeps it among the detached ones. The texts of I/O errors are left out of the messages.

  Theorems: the detected protocol is the best one that is allowed; for the four protocols with default preferences it is the
  handler \<open>get_best_handler\<close> returns; seeding a file registers exactly the protocols that seeded it; the reported progress of every
  transfer is nought, whatever has been transferred; cancelling an upload leaves the file seeding; a ban in the options of a
  download has no effect.
\<close>

section \<open>Data\<close>

record seeding_entry =
  sn_file_path :: path
  sn_file_hash :: string
  sn_file_size :: u64
  sn_protocols :: "string \<rightharpoonup> seeding_info"
  sn_started_at :: u64
  sn_total_uploaded :: u64

record active_transfer =
  at_transfer_id :: string
  at_identifier :: string
  at_protocols :: "string list"
  at_status :: transfer_status
  at_output_path :: "path option"
  at_started_at :: u64
  at_is_download :: bool
  at_bytes_transferred :: u64
  at_total_bytes :: u64
  at_current_speed :: f64
  at_active_connections :: usize
  at_protocol_handles :: "string \<rightharpoonup> string"

record 'x protocol_manager =
  pm_handlers :: "'x protocol_handler list"
  pm_simple_handlers :: "'x simple_handler list"
  pm_seeding :: "string \<rightharpoonup> seeding_entry"
  pm_preferences :: detection_preferences
  pm_coordinator :: "'x ms_coordinator"
  pm_detached :: "'x ms_coordinator list"
  pm_transfers :: "string \<rightharpoonup> active_transfer"

type_synonym ('x, 'a) pm_act = "('x protocol_manager \<times> 'x proto_world_scheme, protocol_error, 'a) act"

text \<open>The environment of one call: system calls, SHA-256, the clock, a fresh identifier, the order of the map of handlers.\<close>

record pm_env =
  pe_io :: io_env
  pe_sha256 :: "bytes \<Rightarrow> bytes"
  pe_now :: u64
  pe_uuid :: string
  pe_detect_order :: "string list"
  pe_coord :: coord_env
  pe_parse :: "string \<Rightarrow> file_manifest option"

definition on_world :: "('x, 'a) proto_act \<Rightarrow> ('x, 'a) pm_act" where
  "on_world a s = (case s of (m, w) \<Rightarrow> case a w of (r, w') \<Rightarrow> (r, (m, w')))"

definition new_protocol_manager :: "'x protocol_manager" where
  "new_protocol_manager = \<lparr>pm_handlers = [], pm_simple_handlers = [], pm_seeding = Map.empty, pm_preferences = default_preferences,
     pm_coordinator = new_ms_coordinator Map.empty, pm_detached = [], pm_transfers = Map.empty\<rparr>"

text \<open>The map from names to handlers: a later handler of the same name replaces an earlier one.\<close>

definition handler_map :: "'x protocol_handler list \<Rightarrow> string \<rightharpoonup> 'x protocol_handler" where
  "handler_map hs = foldl (\<lambda>m h. m(ph_name h \<mapsto> h)) Map.empty hs"

definition rebuild_multi_source :: "'x protocol_manager \<Rightarrow> 'x protocol_manager" where
  "rebuild_multi_source m = m\<lparr>pm_coordinator := new_ms_coordinator (handler_map (pm_handlers m)),
     pm_detached := pm_detached m @ [pm_coordinator m]\<rparr>"

definition pm_register :: "'x protocol_handler \<Rightarrow> 'x protocol_manager \<Rightarrow> 'x protocol_manager" where
  "pm_register h m = rebuild_multi_source (m\<lparr>pm_handlers := pm_handlers m @ [h]\<rparr>)"

definition find_handler :: "'x protocol_manager \<Rightarrow> string \<Rightarrow> 'x protocol_handler option" where
  "find_handler m ident = handler_supporting ident (pm_handlers m)"

definition find_simple_handler :: "'x protocol_manager \<Rightarrow> string \<Rightarrow> 'x simple_handler option" where
  "find_simple_handler m ident = List.find (\<lambda>h. sh_supports h ident) (pm_simple_handlers m)"

section \<open>Detection\<close>

definition DEFAULT_PRIORITY :: "string list" where
  "DEFAULT_PRIORITY = [''bittorrent'', ''ed2k'', ''http'', ''ftp'']"

definition meets_requirements :: "detection_preferences \<Rightarrow> protocol_capabilities \<Rightarrow> bool" where
  "meets_requirements p caps \<longleftrightarrow> (dp_require_seeding p \<longrightarrow> supports_seeding caps) \<and> (dp_require_encryption p \<longrightarrow> supports_encryption caps)
     \<and> (dp_require_pause_resume p \<longrightarrow> supports_pause_resume caps)"

definition detection_allows :: "detection_preferences \<Rightarrow> string \<Rightarrow> string \<Rightarrow> 'x protocol_handler \<Rightarrow> bool" where
  "detection_allows p ident n h \<longleftrightarrow> ph_supports h ident \<and> n \<notin> set (dp_banned_protocols p) \<and> meets_requirements p (ph_capabilities h)"

definition detect_all :: "detection_preferences \<Rightarrow> string \<Rightarrow> (string \<rightharpoonup> 'x protocol_handler) \<Rightarrow> string list \<Rightarrow> string list" where
  "detect_all p ident hm ks = filter (\<lambda>n. case hm n of None \<Rightarrow> False | Some h \<Rightarrow> detection_allows p ident n h) ks"

definition first_among :: "string list \<Rightarrow> string list \<Rightarrow> string option" where
  "first_among available names = List.find (\<lambda>n. n \<in> set available) names"

definition detect_best :: "detection_preferences \<Rightarrow> string \<Rightarrow> (string \<rightharpoonup> 'x protocol_handler) \<Rightarrow> string list \<Rightarrow> string option" where
  "detect_best p ident hm ks =
     (let available = detect_all p ident hm ks
      in if available = [] then None
         else case first_among available (dp_preferred_protocols p) of
                Some n \<Rightarrow> Some n
              | None \<Rightarrow> (case first_among available DEFAULT_PRIORITY of Some n \<Rightarrow> Some n | None \<Rightarrow> Some (hd available)))"

definition detect_protocols :: "pm_env \<Rightarrow> 'x protocol_manager \<Rightarrow> string \<Rightarrow> string list" where
  "detect_protocols env m ident = detect_all (pm_preferences m) ident (handler_map (pm_handlers m)) (pe_detect_order env)"

definition detect_best_protocol :: "pm_env \<Rightarrow> 'x protocol_manager \<Rightarrow> string \<Rightarrow> string option" where
  "detect_best_protocol env m ident = detect_best (pm_preferences m) ident (handler_map (pm_handlers m)) (pe_detect_order env)"

definition detect_best_protocol_with_preferences :: "pm_env \<Rightarrow> string \<Rightarrow> detection_preferences \<Rightarrow> 'x protocol_manager \<Rightarrow> string option \<times> 'x protocol_manager" where
  "detect_best_protocol_with_preferences env ident p m =
     (let m' = m\<lparr>pm_preferences := p\<rparr> in (detect_best_protocol env m' ident, m'))"

definition list_protocols :: "'x protocol_manager \<Rightarrow> (string \<times> protocol_capabilities) list" where
  "list_protocols m = map (\<lambda>h. (ph_name h, ph_capabilities h)) (pm_handlers m)"

definition get_capabilities :: "'x protocol_manager \<Rightarrow> string \<Rightarrow> protocol_capabilities option" where
  "get_capabilities m n = map_option ph_capabilities (handler_named n (pm_handlers m))"

fun best_in_order :: "'x protocol_handler list \<Rightarrow> string \<Rightarrow> string list \<Rightarrow> (protocol_error, 'x protocol_handler) result" where
  "best_in_order hs ident [] = Err (PeInvalidIdentifier (''No handler supports: '' @ ident))"
| "best_in_order hs ident (n # ns) = (case handler_named n hs of None \<Rightarrow> best_in_order hs ident ns
     | Some h \<Rightarrow> if ph_supports h ident then Ok h else best_in_order hs ident ns)"

definition get_best_handler :: "'x protocol_manager \<Rightarrow> string \<Rightarrow> (protocol_error, 'x protocol_handler) result" where
  "get_best_handler m ident = best_in_order (pm_handlers m) ident [''bittorrent'', ''ed2k'', ''http'', ''ftp'']"

section \<open>Downloading through one or several handlers\<close>

definition discover_sources :: "'x protocol_manager \<Rightarrow> string \<Rightarrow> (protocol_error, proto_source list) result" where
  "discover_sources m ident =
     (let sources = map (\<lambda>h. new_proto_source (ph_name h) ident) (filter (\<lambda>h. ph_supports h ident) (pm_handlers m))
      in if sources = [] then Err (PeInvalidIdentifier (''No sources found for: '' @ ident)) else Ok sources)"

definition start_coordinated :: "pm_env \<Rightarrow> proto_source list \<Rightarrow> path \<Rightarrow> u64 \<Rightarrow> usize \<Rightarrow> ('x, download_handle) pm_act" where
  "start_coordinated env sources out whole chunk s = (case s of (m, w) \<Rightarrow>
     case download_multi_source (pe_parse env) (pe_coord env) sources out whole chunk (pm_coordinator m) of
       (r, mc) \<Rightarrow> (r, (m\<lparr>pm_coordinator := mc\<rparr>, w)))"

definition pm_download :: "pm_env \<Rightarrow> string \<Rightarrow> download_options \<Rightarrow> ('x, download_handle) pm_act" where
  "pm_download env ident opts s =
     and_then (of_result (discover_sources (fst s) ident)) (\<lambda>sources.
       if 1 < length sources \<and> 1 < (case do_max_peers opts of None \<Rightarrow> 1 | Some n \<Rightarrow> n) \<and> do_chunk_size opts \<noteq> None
       then start_coordinated env sources (do_output_path opts) (10 * 1024 * 1024)
              (case do_chunk_size opts of None \<Rightarrow> 256 * 1024 | Some c \<Rightarrow> c)
       else case find_handler (fst s) ident of
              None \<Rightarrow> fail (PeInvalidIdentifier (''No handler found for: '' @ ident))
            | Some h \<Rightarrow> on_world (ph_download h ident opts)) s"

definition pm_seed :: "string \<Rightarrow> path \<Rightarrow> seed_options \<Rightarrow> ('x, seeding_info) pm_act" where
  "pm_seed n p opts s = (case handler_named n (pm_handlers (fst s)) of
     None \<Rightarrow> fail (PeInvalidIdentifier (''Unknown protocol: '' @ n))
   | Some h \<Rightarrow> on_world (ph_seed h p opts)) s"

fun upload_each :: "'x protocol_handler list \<Rightarrow> path \<Rightarrow> seed_options \<Rightarrow> string list \<Rightarrow> (string \<rightharpoonup> seeding_info) \<Rightarrow>
    'x proto_world_scheme \<Rightarrow> (string \<rightharpoonup> seeding_info) \<times> 'x proto_world_scheme" where
  "upload_each hs p opts [] res w = (res, w)"
| "upload_each hs p opts (n # ns) res w = (case handler_named n hs of
     None \<Rightarrow> upload_each hs p opts ns res w
   | Some h \<Rightarrow> (case ph_seed h p opts w of
       (Inl e, w') \<Rightarrow> upload_each hs p opts ns res w'
     | (Inr i, w') \<Rightarrow> upload_each hs p opts ns (res(n \<mapsto> i)) w'))"

definition seeded_or_error :: "(string \<rightharpoonup> seeding_info) \<Rightarrow> (protocol_error, string \<rightharpoonup> seeding_info) result" where
  "seeded_or_error res = (if dom res = {} then Err (PeInternal ''Failed to seed on any protocol'') else Ok res)"

definition pm_upload :: "path \<Rightarrow> string list \<Rightarrow> seed_options \<Rightarrow> ('x, string \<rightharpoonup> seeding_info) pm_act" where
  "pm_upload p names opts s = (case s of (m, w) \<Rightarrow>
     case upload_each (pm_handlers m) p opts names Map.empty w of (res, w') \<Rightarrow> (seeded_or_error res, (m, w')))"

text \<open>The legacy interface.\<close>

definition download_simple :: "string \<Rightarrow> 'x protocol_manager \<times> 'x proto_world_scheme \<Rightarrow> (string, unit) result \<times> 'x protocol_manager \<times> 'x proto_world_scheme" where
  "download_simple ident s = (case s of (m, w) \<Rightarrow>
     case find_handler m ident of
       Some h \<Rightarrow> (case ph_download h ident default_download_options w of
         (Inl e, w') \<Rightarrow> (Err (show_protocol_error e), (m, w')) | (Inr _, w') \<Rightarrow> (Ok (), (m, w')))
     | None \<Rightarrow> (case find_simple_handler m ident of
         Some h \<Rightarrow> (case sh_download h ident w of (r, w') \<Rightarrow> (r, (m, w')))
       | None \<Rightarrow> (Err (''No handler found for: '' @ ident), (m, w))))"

fun seed_first :: "'x protocol_handler list \<Rightarrow> string \<Rightarrow> 'x proto_world_scheme \<Rightarrow> string option \<times> 'x proto_world_scheme" where
  "seed_first [] p w = (None, w)"
| "seed_first (h # hs) p w =
     (if supports_seeding (ph_capabilities h)
      then case ph_seed h (path_of_string p) default_seed_options w of
             (Inr i, w') \<Rightarrow> (Some (se_identifier i), w') | (Inl _, w') \<Rightarrow> seed_first hs p w'
      else seed_first hs p w)"

fun seed_first_simple :: "'x simple_handler list \<Rightarrow> string \<Rightarrow> 'x proto_world_scheme \<Rightarrow> string option \<times> 'x proto_world_scheme" where
  "seed_first_simple [] p w = (None, w)"
| "seed_first_simple (h # hs) p w = (case sh_seed h p w of (Inr i, w') \<Rightarrow> (Some i, w') | (Inl _, w') \<Rightarrow> seed_first_simple hs p w')"

definition seed_simple :: "string \<Rightarrow> 'x protocol_manager \<times> 'x proto_world_scheme \<Rightarrow> (string, string) result \<times> 'x protocol_manager \<times> 'x proto_world_scheme" where
  "seed_simple p s = (case s of (m, w) \<Rightarrow>
     case seed_first (pm_handlers m) p w of
       (Some i, w') \<Rightarrow> (Ok i, (m, w'))
     | (None, w') \<Rightarrow> (case seed_first_simple (pm_simple_handlers m) p w' of
         (Some i, w'') \<Rightarrow> (Ok i, (m, w''))
       | (None, w'') \<Rightarrow> (Err (''No handler available to seed: '' @ p), (m, w''))))"

section \<open>Seeding\<close>

definition add_seeding :: "pm_env \<Rightarrow> string \<Rightarrow> path \<Rightarrow> string \<Rightarrow> seeding_info \<Rightarrow> ('x, unit) pm_act" where
  "add_seeding env fh p n i s = (case s of (m, w) \<Rightarrow>
     case fs_len (pe_io env) p (pw_disk w) of
       Inl e \<Rightarrow> (Err (PeInternal ''metadata''), (m, w))
     | Inr len \<Rightarrow>
         let entry = (case pm_seeding m fh of Some en \<Rightarrow> en
               | None \<Rightarrow> \<lparr>sn_file_path = p, sn_file_hash = fh, sn_file_size = len, sn_protocols = Map.empty,
                          sn_started_at = pe_now env, sn_total_uploaded = 0\<rparr>)
         in (Ok (), (m\<lparr>pm_seeding := (pm_seeding m)(fh \<mapsto> entry\<lparr>sn_protocols := (sn_protocols entry)(n \<mapsto> i)\<rparr>)\<rparr>, w)))"

definition remove_seeding :: "string \<Rightarrow> 'x protocol_manager \<Rightarrow> 'x protocol_manager" where
  "remove_seeding fh m = m\<lparr>pm_seeding := hm_remove (pm_seeding m) fh\<rparr>"

definition list_seeding_files :: "'x protocol_manager \<Rightarrow> string list \<Rightarrow> seeding_entry list" where
  "list_seeding_files m ks = hm_values (pm_seeding m) ks"

definition update_seeding_stats :: "string \<Rightarrow> u64 \<Rightarrow> 'x protocol_manager \<Rightarrow> 'x protocol_manager" where
  "update_seeding_stats fh delta m = (case pm_seeding m fh of None \<Rightarrow> m
     | Some en \<Rightarrow> m\<lparr>pm_seeding := (pm_seeding m)(fh \<mapsto> en\<lparr>sn_total_uploaded := wadd64 (sn_total_uploaded en) delta\<rparr>)\<rparr>)"

definition calculate_file_hash :: "pm_env \<Rightarrow> path \<Rightarrow> disk \<Rightarrow> (protocol_error, string) result" where
  "calculate_file_hash env p d = (case fs_read (pe_io env) p d of
     Inl e \<Rightarrow> Err (PeFileNotFound ''read'') | Inr b \<Rightarrow> Ok (hex_encode (pe_sha256 env b)))"

fun seed_each :: "pm_env \<Rightarrow> string \<Rightarrow> path \<Rightarrow> seed_options \<Rightarrow> string list \<Rightarrow> (string \<rightharpoonup> seeding_info) \<Rightarrow> ('x, string \<rightharpoonup> seeding_info) pm_act" where
  "seed_each env fh p opts [] res s = (Ok res, s)"
| "seed_each env fh p opts (n # ns) res s = (case handler_named n (pm_handlers (fst s)) of
     None \<Rightarrow> seed_each env fh p opts ns res s
   | Some h \<Rightarrow>
       if \<not> supports_seeding (ph_capabilities h) then seed_each env fh p opts ns res s
       else case on_world (ph_seed h p opts) s of
              (Inl e, s') \<Rightarrow> seed_each env fh p opts ns res s'
            | (Inr i, s') \<Rightarrow> (case add_seeding env fh p n i s' of
                (Inl e, s'') \<Rightarrow> (Err e, s'')
              | (Inr _, s'') \<Rightarrow> seed_each env fh p opts ns (res(n \<mapsto> i)) s''))"

definition seed_file_multi_protocol :: "pm_env \<Rightarrow> path \<Rightarrow> string list \<Rightarrow> seed_options \<Rightarrow> ('x, string \<rightharpoonup> seeding_info) pm_act" where
  "seed_file_multi_protocol env p names opts s =
     (if \<not> fs_exists (pe_io env) p (pw_disk (snd s)) then (Err (PeFileNotFound (path_to_string p)), s)
      else and_then (of_result (calculate_file_hash env p (pw_disk (snd s)))) (\<lambda>fh.
             and_then (seed_each env fh p opts names Map.empty) (\<lambda>res. of_result (seeded_or_error res))) s)"

fun stop_each :: "'x protocol_handler list \<Rightarrow> (string \<rightharpoonup> seeding_info) \<Rightarrow> string list \<Rightarrow> 'x proto_world_scheme \<Rightarrow> 'x proto_world_scheme" where
  "stop_each hs ps [] w = w"
| "stop_each hs ps (n # ns) w = stop_each hs ps ns
     (case (ps n, handler_named n hs) of (Some i, Some h) \<Rightarrow> snd (ph_stop_seeding h (se_identifier i) w) | _ \<Rightarrow> w)"

definition stop_seeding_all :: "string list \<Rightarrow> string \<Rightarrow> ('x, unit) pm_act" where
  "stop_seeding_all ks fh s = (case s of (m, w) \<Rightarrow>
     case pm_seeding m fh of
       None \<Rightarrow> (Err (PeDownloadNotFound ''File not found in seeding registry''), (m, w))
     | Some en \<Rightarrow> (Ok (), (remove_seeding fh m, stop_each (pm_handlers m) (sn_protocols en) ks w)))"

section \<open>Transfers\<close>

definition filter_protocols_by_preferences :: "'x protocol_manager \<Rightarrow> string list \<Rightarrow> detection_preferences \<Rightarrow> string list" where
  "filter_protocols_by_preferences m names p = filter (\<lambda>n. case handler_named n (pm_handlers m) of
     None \<Rightarrow> False | Some h \<Rightarrow> meets_requirements p (ph_capabilities h)) names"

definition register_active_transfer :: "active_transfer \<Rightarrow> 'x protocol_manager \<Rightarrow> 'x protocol_manager" where
  "register_active_transfer t m = m\<lparr>pm_transfers := (pm_transfers m)(at_transfer_id t \<mapsto> t)\<rparr>"

definition get_active_transfer :: "string \<Rightarrow> 'x protocol_manager \<Rightarrow> active_transfer option" where
  "get_active_transfer tid m = pm_transfers m tid"

definition remove_active_transfer :: "string \<Rightarrow> 'x protocol_manager \<Rightarrow> 'x protocol_manager" where
  "remove_active_transfer tid m = m\<lparr>pm_transfers := hm_remove (pm_transfers m) tid\<rparr>"

definition upd_transfer :: "string \<Rightarrow> (active_transfer \<Rightarrow> active_transfer) \<Rightarrow> 'x protocol_manager \<Rightarrow> 'x protocol_manager" where
  "upd_transfer tid g m = (case pm_transfers m tid of None \<Rightarrow> m
     | Some t \<Rightarrow> m\<lparr>pm_transfers := (pm_transfers m)(tid \<mapsto> g t)\<rparr>)"

definition update_transfer_status :: "string \<Rightarrow> transfer_status \<Rightarrow> 'x protocol_manager \<Rightarrow> 'x protocol_manager" where
  "update_transfer_status tid st m = upd_transfer tid (\<lambda>t. t\<lparr>at_status := st\<rparr>) m"

definition transfer_download_options :: "file_transfer_options \<Rightarrow> download_options" where
  "transfer_download_options fo = \<lparr>do_output_path = (case fo_output_path fo of None \<Rightarrow> [] | Some p \<Rightarrow> p), do_max_peers = fo_max_connections fo,
     do_chunk_size = fo_chunk_size fo, do_encryption = fo_encryption fo, do_bandwidth_limit = fo_bandwidth_limit fo\<rparr>"

definition start_single_protocol_download :: "string \<Rightarrow> string \<Rightarrow> file_transfer_options \<Rightarrow> string \<Rightarrow> ('x, unit) pm_act" where
  "start_single_protocol_download ident n opts tid s = (case handler_named n (pm_handlers (fst s)) of
     None \<Rightarrow> (Err (PeInvalidIdentifier (''Protocol not found: '' @ n)), s)
   | Some h \<Rightarrow> and_then (on_world (ph_download h ident (transfer_download_options opts))) (\<lambda>handle s'. case s' of (m, w) \<Rightarrow>
       (Ok (), (upd_transfer tid (\<lambda>t. t\<lparr>at_protocol_handles := (at_protocol_handles t)(n \<mapsto> dh_identifier handle), at_status := XsDownloading\<rparr>) m, w))) s)"

definition start_multi_source_download :: "string \<Rightarrow> string list \<Rightarrow> file_transfer_options \<Rightarrow> string \<Rightarrow> ('x, unit) pm_act" where
  "start_multi_source_download ident names opts tid = (case names of
     [] \<Rightarrow> fail (PeInternal ''No protocols available for download'')
   | n # _ \<Rightarrow> start_single_protocol_download ident n opts tid)"

definition select_protocols :: "pm_env \<Rightarrow> 'x protocol_manager \<Rightarrow> string \<Rightarrow> file_transfer_options \<Rightarrow> (protocol_error, string list) result" where
  "select_protocols env m ident opts = (case fo_protocol opts of
     Some n \<Rightarrow> Ok [n]
   | None \<Rightarrow>
       let detected = detect_protocols env m ident
       in if detected = [] then Err (PeInvalidIdentifier (''No protocol handler found for: '' @ ident))
          else Ok (case fo_detection_preferences opts of None \<Rightarrow> detected | Some p \<Rightarrow> filter_protocols_by_preferences m detected p))"

definition started_result :: "pm_env \<Rightarrow> string list \<Rightarrow> string \<Rightarrow> path option \<Rightarrow> transfer_result" where
  "started_result env names ident out = \<lparr>xr_transfer_id = pe_uuid env, xr_protocols = names, xr_identifier = ident, xr_output_path = out,
     xr_bytes_transferred = 0, xr_duration_seconds = F_Fin 0, xr_average_speed = F_Fin 0, xr_success = True, xr_error = None,
     xr_started_at = pe_now env, xr_completed_at = pe_now env\<rparr>"

definition initial_transfer :: "pm_env \<Rightarrow> string \<Rightarrow> string list \<Rightarrow> path \<Rightarrow> active_transfer" where
  "initial_transfer env ident names out = \<lparr>at_transfer_id = pe_uuid env, at_identifier = ident, at_protocols = names,
     at_status = XsInitializing, at_output_path = Some out, at_started_at = pe_now env, at_is_download = True, at_bytes_transferred = 0,
     at_total_bytes = 0, at_current_speed = F_Fin 0, at_active_connections = 0, at_protocol_handles = Map.empty\<rparr>"

definition pm_download_file :: "pm_env \<Rightarrow> string \<Rightarrow> file_transfer_options \<Rightarrow> ('x, transfer_result) pm_act" where
  "pm_download_file env ident opts s = (case fo_output_path opts of
     None \<Rightarrow> (Err (PeInvalidIdentifier ''Output path is required for downloads''), s)
   | Some out \<Rightarrow> (case select_protocols env (fst s) ident opts of
       Inl e \<Rightarrow> (Err e, s)
     | Inr names \<Rightarrow>
         if names = [] then (Err (PeInvalidIdentifier ''No suitable protocol found after applying preferences''), s)
         else let s' = (register_active_transfer (initial_transfer env ident names out) (fst s), snd s)
              in and_do (if fo_enable_multi_source opts \<and> 1 < length names
                         then start_multi_source_download ident names opts (pe_uuid env)
                         else start_single_protocol_download ident (hd names) opts (pe_uuid env))
                   (ret (started_result env names ident (Some out))) s'))"

text \<open>\<open>ks\<close> is the iteration order of the map of what was seeded: its first entry gives the identifier.\<close>

definition upload_file :: "pm_env \<Rightarrow> string list \<Rightarrow> path \<Rightarrow> file_transfer_options \<Rightarrow> ('x, transfer_result) pm_act" where
  "upload_file env ks p opts s =
     (if \<not> fs_exists (pe_io env) p (pw_disk (snd s)) then (Err (PeFileNotFound (''File not found: '' @ path_to_string p)), s)
      else let names = (case fo_protocol opts of Some n \<Rightarrow> [n]
                 | None \<Rightarrow> map fst (filter (\<lambda>(n, caps). supports_seeding caps) (list_protocols (fst s))))
           in if names = [] then (Err PeNotSupported, s)
              else and_then (seed_file_multi_protocol env p names \<lparr>so_announce_dht = fo_announce_dht opts,
                     so_enable_encryption = fo_encryption opts, so_upload_slots = fo_upload_slots opts\<rparr>) (\<lambda>res s'. case s' of (m, w) \<Rightarrow>
                let ident = (case hm_values res ks of [] \<Rightarrow> [] | i # _ \<Rightarrow> se_identifier i);
                    t = \<lparr>at_transfer_id = pe_uuid env, at_identifier = ident, at_protocols = names, at_status = XsUploading,
                         at_output_path = Some p, at_started_at = pe_now env, at_is_download = False, at_bytes_transferred = 0,
                         at_total_bytes = 0, at_current_speed = F_Fin 0, at_active_connections = 0,
                         at_protocol_handles = map_option se_identifier \<circ> res\<rparr>
                in (Ok (started_result env names ident None), (register_active_transfer t m, w))) s)"

text \<open>The loops that call a method of the handler of every protocol of a transfer, and only log its errors.\<close>

fun call_each :: "('x protocol_handler \<Rightarrow> string \<Rightarrow> ('x, unit) proto_act) \<Rightarrow> 'x protocol_handler list \<Rightarrow> (string \<rightharpoonup> string) \<Rightarrow> string list \<Rightarrow>
    'x proto_world_scheme \<Rightarrow> 'x proto_world_scheme" where
  "call_each op hs handles [] w = w"
| "call_each op hs handles (n # ns) w = call_each op hs handles ns
     (case (handles n, handler_named n hs) of (Some i, Some h) \<Rightarrow> snd (op h i w) | _ \<Rightarrow> w)"

definition transfer_not_found :: "string \<Rightarrow> protocol_error" where
  "transfer_not_found tid = PeDownloadNotFound (''Transfer not found: '' @ tid)"

definition pause_transfer :: "string list \<Rightarrow> string \<Rightarrow> ('x, unit) pm_act" where
  "pause_transfer ks tid s = (case s of (m, w) \<Rightarrow> case get_active_transfer tid m of
     None \<Rightarrow> (Err (transfer_not_found tid), s)
   | Some t \<Rightarrow> (Ok (), (update_transfer_status tid XsPaused m,
       call_each ph_pause_download (pm_handlers m) (at_protocol_handles t) ks w)))"

definition resume_transfer :: "string list \<Rightarrow> string \<Rightarrow> ('x, unit) pm_act" where
  "resume_transfer ks tid s = (case s of (m, w) \<Rightarrow> case get_active_transfer tid m of
     None \<Rightarrow> (Err (transfer_not_found tid), s)
   | Some t \<Rightarrow> (Ok (), (update_transfer_status tid XsDownloading m,
       call_each ph_resume_download (pm_handlers m) (at_protocol_handles t) ks w)))"

definition cancel_transfer :: "string list \<Rightarrow> string \<Rightarrow> ('x, unit) pm_act" where
  "cancel_transfer ks tid s = (case s of (m, w) \<Rightarrow> case get_active_transfer tid m of
     None \<Rightarrow> (Err (transfer_not_found tid), s)
   | Some t \<Rightarrow> (Ok (), (remove_active_transfer tid m,
       call_each ph_cancel_download (pm_handlers m) (at_protocol_handles t) ks w)))"

fun ask_each :: "'x protocol_handler list \<Rightarrow> (string \<rightharpoonup> string) \<Rightarrow> string list \<Rightarrow> usize \<times> (string \<rightharpoonup> protocol_stat) \<Rightarrow>
    'x proto_world_scheme \<Rightarrow> (usize \<times> (string \<rightharpoonup> protocol_stat)) \<times> 'x proto_world_scheme" where
  "ask_each hs handles [] acc w = (acc, w)"
| "ask_each hs handles (n # ns) acc w = (case (handles n, handler_named n hs) of
     (Some i, Some h) \<Rightarrow> (case ph_get_download_progress h i w of
       (Inr g, w') \<Rightarrow> ask_each hs handles ns (wadd64 (fst acc) (dg_active_peers g), (snd acc)(n \<mapsto>
         \<lparr>pi_speed = dg_download_speed g, pi_peers = dg_active_peers g, pi_status = dg_status g\<rparr>)) w'
     | (Inl _, w') \<Rightarrow> ask_each hs handles ns acc w')
   | _ \<Rightarrow> ask_each hs handles ns acc w)"

definition transfer_eta :: "active_transfer \<Rightarrow> u64 option" where
  "transfer_eta t = (if f64_lt (F_Fin 0) (at_current_speed t) \<and> 0 < at_total_bytes t
     then Some (f64_to_u64 (f64_div (f64_of_u64 (sat_sub (at_total_bytes t) (at_bytes_transferred t))) (at_current_speed t)))
     else None)"

definition get_transfer_progress :: "string list \<Rightarrow> string \<Rightarrow> ('x, transfer_progress) pm_act" where
  "get_transfer_progress ks tid s = (case s of (m, w) \<Rightarrow> case get_active_transfer tid m of
     None \<Rightarrow> (Err (transfer_not_found tid), s)
   | Some t \<Rightarrow> (case ask_each (pm_handlers m) (at_protocol_handles t) ks (0, Map.empty) w of ((conns, info), w') \<Rightarrow>
       (Ok \<lparr>tg_transfer_id = tid, tg_identifier = at_identifier t, tg_status = at_status t, tg_active_protocols = at_protocols t,
            tg_bytes_transferred = at_bytes_transferred t, tg_total_bytes = at_total_bytes t,
            tg_percentage = percent_of (at_bytes_transferred t) (at_total_bytes t), tg_current_speed = at_current_speed t,
            tg_eta_seconds = transfer_eta t, tg_active_connections = conns,
            tg_total_sources = card (dom (at_protocol_handles t)), tg_output_path = at_output_path t,
            tg_started_at = at_started_at t, tg_protocol_info = info\<rparr>, (m, w'))))"

fun list_each :: "(string \<Rightarrow> string list) \<Rightarrow> string list \<Rightarrow> 'x protocol_manager \<times> 'x proto_world_scheme \<Rightarrow>
    transfer_progress list \<times> 'x protocol_manager \<times> 'x proto_world_scheme" where
  "list_each ord [] s = ([], s)"
| "list_each ord (tid # tids) s = (case get_transfer_progress (ord tid) tid s of
     (Inl _, s') \<Rightarrow> list_each ord tids s'
   | (Inr g, s') \<Rightarrow> (case list_each ord tids s' of (gs, s'') \<Rightarrow> (g # gs, s'')))"

definition list_transfers :: "(string \<Rightarrow> string list) \<Rightarrow> string list \<Rightarrow> 'x protocol_manager \<times> 'x proto_world_scheme \<Rightarrow>
    transfer_progress list \<times> 'x protocol_manager \<times> 'x proto_world_scheme" where
  "list_transfers ord ks s = list_each ord ks s"

section \<open>Detection finds the best protocol\<close>

text \<open>How early a protocol comes in the user's preferences followed by the default ones.\<close>

definition position :: "string list \<Rightarrow> string \<Rightarrow> nat" where
  "position xs n = length (takeWhile (\<lambda>x. x \<noteq> n) xs)"

definition protocol_rank :: "detection_preferences \<Rightarrow> string \<Rightarrow> nat" where
  "protocol_rank p n = position (dp_preferred_protocols p @ DEFAULT_PRIORITY) n"

lemma position_le: "position xs n \<le> length xs"
  by (simp add: position_def length_takeWhile_le)

lemma first_among_Some:
  "first_among av xs = Some n \<Longrightarrow> n \<in> set av \<and> (\<forall>m \<in> set av. position xs n \<le> position xs m)"
  by (induction xs) (auto simp: first_among_def position_def split: if_splits)

lemma first_among_None: "first_among av xs = None \<Longrightarrow> m \<in> set av \<Longrightarrow> position xs m = length xs"
  by (induction xs) (auto simp: first_among_def position_def split: if_splits)

lemma first_among_append:
  "first_among av (xs @ ys) = (case first_among av xs of Some n \<Rightarrow> Some n | None \<Rightarrow> first_among av ys)"
  by (induction xs) (auto simp: first_among_def)

lemma detect_best_alt:
  "detect_best p ident hm ks = (let av = detect_all p ident hm ks in if av = [] then None
     else case first_among av (dp_preferred_protocols p @ DEFAULT_PRIORITY) of Some n \<Rightarrow> Some n | None \<Rightarrow> Some (hd av))"
  by (auto simp: detect_best_def Let_def first_among_append split: option.splits)

lemma detect_best_rank:
  "detect_best p ident hm ks = Some n \<Longrightarrow>
     n \<in> set (detect_all p ident hm ks) \<and> (\<forall>m \<in> set (detect_all p ident hm ks). protocol_rank p n \<le> protocol_rank p m)"
  by (auto simp: detect_best_alt Let_def protocol_rank_def first_among_None position_le dest: first_among_Some
      split: if_splits option.splits)

lemma detect_best_None: "detect_best p ident hm ks = None \<longleftrightarrow> detect_all p ident hm ks = []"
  by (auto simp: detect_best_alt Let_def split: option.splits)

lemma set_detect_all:
  "hm_order hm ks \<Longrightarrow> n \<in> set (detect_all p ident hm ks) \<longleftrightarrow> (\<exists>h. hm n = Some h \<and> detection_allows p ident n h)"
  by (auto simp: detect_all_def hm_order_def split: option.splits)

text \<open>
  C39: The detector finds the best protocol. Whatever the order in which the handlers are visited: when it returns a protocol, that
  protocol has a handler that supports the identifier, is not banned and has the required capabilities, and no other such protocol
  comes before it in the user's list followed by the default order; it returns none only when there is no such protocol.
\<close>

theorem detected_protocol_best:
  assumes "hm_order (handler_map (pm_handlers m)) (pe_detect_order env)"
  shows "case detect_best_protocol env m ident of
      None \<Rightarrow> \<not> (\<exists>n h. handler_map (pm_handlers m) n = Some h \<and> detection_allows (pm_preferences m) ident n h)
    | Some n \<Rightarrow> (\<exists>h. handler_map (pm_handlers m) n = Some h \<and> detection_allows (pm_preferences m) ident n h) \<and>
        \<not> (\<exists>n' h'. handler_map (pm_handlers m) n' = Some h' \<and> detection_allows (pm_preferences m) ident n' h' \<and>
               protocol_rank (pm_preferences m) n' < protocol_rank (pm_preferences m) n)"
proof (cases "detect_best_protocol env m ident")
  case None
  then have "detect_all (pm_preferences m) ident (handler_map (pm_handlers m)) (pe_detect_order env) = []"
    by (simp add: detect_best_protocol_def detect_best_None)
  with None set_detect_all [OF assms, of _ "pm_preferences m" ident] show ?thesis by (simp flip: empty_set)
next
  case (Some n)
  with detect_best_rank [of "pm_preferences m" ident "handler_map (pm_handlers m)" "pe_detect_order env" n]
    set_detect_all [OF assms, of _ "pm_preferences m" ident] show ?thesis
    by (fastforce simp: detect_best_protocol_def not_less)
qed

text \<open>The map of handlers is the list when names differ.\<close>

lemma handler_map_snoc: "handler_map (hs @ [h]) = (handler_map hs)(ph_name h \<mapsto> h)"
  by (simp add: handler_map_def)

lemma handler_map_None: "n \<notin> ph_name ` set hs \<Longrightarrow> handler_map hs n = None"
  by (induction hs rule: rev_induct) (auto simp: handler_map_snoc handler_map_def [of "[]"])

lemma handler_map_named: "distinct (map ph_name hs) \<Longrightarrow> handler_map hs n = handler_named n hs"
proof (induction hs rule: rev_induct)
  case Nil
  then show ?case by (simp add: handler_map_def handler_named_def)
next
  case (snoc h hs)
  then have "ph_name h \<notin> ph_name ` set hs" by auto
  then have "handler_named (ph_name h) hs = None" by (simp add: handler_named_None)
  moreover have "handler_named n (hs @ [h]) = (case handler_named n hs of None \<Rightarrow> if ph_name h = n then Some h else None | Some g \<Rightarrow> Some g)"
    by (induction hs) (auto simp: handler_named_def)
  ultimately show ?case using snoc by (auto simp: handler_map_snoc split: option.splits)
qed

lemma best_in_order_first:
  assumes "\<And>n. n \<in> set av \<longleftrightarrow> (\<exists>h. handler_named n hs = Some h \<and> ph_supports h ident)"
  shows "first_among av ns = (case best_in_order hs ident ns of Inl _ \<Rightarrow> None | Inr h \<Rightarrow> Some (ph_name h))"
proof (induction ns)
  case (Cons n ns)
  show ?case
  proof (cases "handler_named n hs")
    case None
    with assms Cons show ?thesis by (simp add: first_among_def)
  next
    case (Some h)
    with assms Cons handler_named_Some [OF Some] show ?thesis by (simp add: first_among_def)
  qed
qed (simp add: first_among_def)

text \<open>
  The two ways to the best handler agree. For handlers of the four known protocols under different names and without preferences,
  the name that detection returns, for any order of visiting the handlers, is the name of the handler \<open>get_best_handler\<close> returns,
  and detection finds nothing exactly when that is an error.
\<close>

theorem best_handler_agrees:
  assumes "distinct (map ph_name (pm_handlers m))" "ph_name ` set (pm_handlers m) \<subseteq> set DEFAULT_PRIORITY"
    and "pm_preferences m = default_preferences" "hm_order (handler_map (pm_handlers m)) (pe_detect_order env)"
  shows "detect_best_protocol env m ident = (case get_best_handler m ident of Inl _ \<Rightarrow> None | Inr h \<Rightarrow> Some (ph_name h))"
proof -
  let ?av = "detect_all default_preferences ident (handler_map (pm_handlers m)) (pe_detect_order env)"
  have allows: "detection_allows default_preferences ident n h = ph_supports h ident" for n and h :: "'a protocol_handler"
    by (simp add: detection_allows_def default_preferences_def meets_requirements_def)
  have av: "n \<in> set ?av \<longleftrightarrow> (\<exists>h. handler_named n (pm_handlers m) = Some h \<and> ph_supports h ident)" for n
    using set_detect_all [OF assms(4), of n default_preferences ident] by (simp add: allows handler_map_named [OF assms(1)])
  then have "set ?av \<subseteq> set DEFAULT_PRIORITY" using assms(2) handler_named_Some by fastforce
  then have "first_among ?av DEFAULT_PRIORITY = None \<Longrightarrow> ?av = []"
    by (auto simp: first_among_def find_None_iff) (metis list.set_intros(1) neq_Nil_conv subsetD)
  moreover have "?av = [] \<Longrightarrow> first_among ?av DEFAULT_PRIORITY = None" by (simp add: first_among_def find_None_iff)
  ultimately have "detect_best_protocol env m ident = first_among ?av DEFAULT_PRIORITY"
    by (auto simp: detect_best_protocol_def detect_best_alt assms(3) Let_def default_preferences_def split: option.splits)
  with best_in_order_first [OF av, of DEFAULT_PRIORITY] show ?thesis by (simp add: get_best_handler_def DEFAULT_PRIORITY_def)
qed

text \<open>Preferences given for one detection stay for all later ones.\<close>

lemma preferences_stay:
  "detect_best_protocol env (snd (detect_best_protocol_with_preferences env ident p m)) ident' = detect_best p ident' (handler_map (pm_handlers m)) (pe_detect_order env)"
  by (simp add: detect_best_protocol_with_preferences_def detect_best_protocol_def Let_def)

section \<open>An instance\<close>

definition demo_seed_info :: seeding_info where
  "demo_seed_info = \<lparr>se_identifier = ''magnet'', se_file_path = [''f''], se_protocol = ''http'', se_active_peers = 0, se_bytes_uploaded = 0\<rparr>"

definition demo_seeder :: "unit protocol_handler" where
  "demo_seeder = demo_handler\<lparr>ph_capabilities := default_capabilities\<lparr>supports_seeding := True\<rparr>,
     ph_seed := \<lambda>p opts w. (Inr demo_seed_info, w), ph_stop_seeding := \<lambda>i w. (Inr (), w)\<rparr>"

definition demo_manager :: "unit protocol_manager" where
  "demo_manager = pm_register (demo_handler\<lparr>ph_name := ''ftp''\<rparr>) (pm_register demo_seeder new_protocol_manager)"

definition demo_pm_env :: pm_env where
  "demo_pm_env = \<lparr>pe_io = no_faults, pe_sha256 = \<lambda>b. b, pe_now = 7, pe_uuid = ''t'', pe_detect_order = [''ftp'', ''http''],
     pe_coord = coord_demo_env, pe_parse = Map.empty\<rparr>"

definition demo_world :: proto_world where
  "demo_world = \<lparr>pw_disk = [[''f''] \<mapsto> ''data'']\<rparr>"

lemma demo_manager_handlers [simp]:
  "pm_handlers demo_manager = [demo_seeder, demo_handler\<lparr>ph_name := ''ftp''\<rparr>]" "pm_preferences demo_manager = default_preferences"
  "pm_seeding demo_manager = Map.empty" "pm_transfers demo_manager = Map.empty"
  by (simp_all add: demo_manager_def pm_register_def rebuild_multi_source_def new_protocol_manager_def)

lemma demo_seeder_name [simp]: "ph_name demo_seeder = ''http''"
  by (simp add: demo_seeder_def demo_handler_def)

lemma demo_detect_order: "hm_order (handler_map (pm_handlers demo_manager)) (pe_detect_order demo_pm_env)"
  by (auto simp: handler_map_def hm_order_def demo_pm_env_def split: if_splits)

theorem detected_protocol_best_witness:
  "case detect_best_protocol demo_pm_env demo_manager ''u'' of
      None \<Rightarrow> \<not> (\<exists>n h. handler_map (pm_handlers demo_manager) n = Some h \<and> detection_allows (pm_preferences demo_manager) ''u'' n h)
    | Some n \<Rightarrow> (\<exists>h. handler_map (pm_handlers demo_manager) n = Some h \<and> detection_allows (pm_preferences demo_manager) ''u'' n h) \<and>
        \<not> (\<exists>n' h'. handler_map (pm_handlers demo_manager) n' = Some h' \<and> detection_allows (pm_preferences demo_manager) ''u'' n' h' \<and>
               protocol_rank (pm_preferences demo_manager) n' < protocol_rank (pm_preferences demo_manager) n)"
  by (rule detected_protocol_best [OF demo_detect_order])

theorem best_handler_agrees_witness: "detect_best_protocol demo_pm_env demo_manager ''u'' = Some ''http''"
proof -
  have "detect_best_protocol demo_pm_env demo_manager ''u'' =
      (case get_best_handler demo_manager ''u'' of Inl _ \<Rightarrow> None | Inr h \<Rightarrow> Some (ph_name h))"
    by (rule best_handler_agrees [OF _ _ _ demo_detect_order]) (simp_all add: DEFAULT_PRIORITY_def)
  then show ?thesis by (simp add: get_best_handler_def handler_named_def) (simp add: demo_seeder_def demo_handler_def)
qed

section \<open>The registry of seeded files\<close>

lemma on_world_fst: "on_world a s = (r, s') \<Longrightarrow> fst s' = fst s"
  by (auto simp: on_world_def split: prod.splits)

text \<open>What a run of the seeding loop adds to the results, it adds to the entry of the file, and nothing else changes.\<close>

definition registered :: "'x protocol_manager \<Rightarrow> string \<Rightarrow> string \<rightharpoonup> seeding_info" where
  "registered m fh = (case pm_seeding m fh of None \<Rightarrow> Map.empty | Some en \<Rightarrow> sn_protocols en)"

definition same_but_entry :: "string \<Rightarrow> 'x protocol_manager \<Rightarrow> 'x protocol_manager \<Rightarrow> bool" where
  "same_but_entry fh m m' \<longleftrightarrow> (\<exists>e. m' = m\<lparr>pm_seeding := (pm_seeding m)(fh := e)\<rparr>)"

lemma same_but_entryI: "same_but_entry fh m m" "same_but_entry fh m m' \<Longrightarrow> same_but_entry fh m' m'' \<Longrightarrow> same_but_entry fh m m''"
proof -
  have "m = m\<lparr>pm_seeding := (pm_seeding m)(fh := pm_seeding m fh)\<rparr>" by simp
  then show "same_but_entry fh m m" unfolding same_but_entry_def by blast
  show "same_but_entry fh m m' \<Longrightarrow> same_but_entry fh m' m'' \<Longrightarrow> same_but_entry fh m m''" by (auto simp: same_but_entry_def)
qed

definition seed_growth :: "string \<Rightarrow> string list \<Rightarrow> 'x protocol_manager \<Rightarrow> 'x protocol_manager \<Rightarrow> (string \<rightharpoonup> seeding_info) \<Rightarrow>
    (string \<rightharpoonup> seeding_info) \<Rightarrow> bool" where
  "seed_growth fh ns m m' res res' \<longleftrightarrow> (\<exists>new. res' = res ++ new \<and> same_but_entry fh m m' \<and>
     registered m' fh = registered m fh ++ new \<and>
     dom new \<subseteq> {n \<in> set ns. \<exists>h. handler_named n (pm_handlers m) = Some h \<and> supports_seeding (ph_capabilities h)})"

lemma same_but_entry_handlers: "same_but_entry fh m m' \<Longrightarrow> pm_handlers m' = pm_handlers m"
  by (auto simp: same_but_entry_def)

lemma growth_skip: "seed_growth fh ns m m' res res' \<Longrightarrow> seed_growth fh (n # ns) m m' res res'"
  by (fastforce simp: seed_growth_def)

lemma growth_add:
  assumes "seed_growth fh ns m1 m' (res(n \<mapsto> i)) res'" "handler_named n (pm_handlers m) = Some h" "supports_seeding (ph_capabilities h)"
    and "same_but_entry fh m m1" "registered m1 fh = (registered m fh)(n \<mapsto> i)"
  shows "seed_growth fh (n # ns) m m' res res'"
proof -
  from assms(1) obtain new where new: "res' = res(n \<mapsto> i) ++ new" "same_but_entry fh m1 m'" "registered m' fh = registered m1 fh ++ new"
    "dom new \<subseteq> {n \<in> set ns. \<exists>h. handler_named n (pm_handlers m1) = Some h \<and> supports_seeding (ph_capabilities h)}"
    by (auto simp: seed_growth_def)
  have "res' = res ++ ([n \<mapsto> i] ++ new)" "registered m' fh = registered m fh ++ ([n \<mapsto> i] ++ new)"
    using new(1,3) assms(5) by (simp_all add: map_add_upd_left map_add_assoc)
  moreover have "same_but_entry fh m m'" using assms(4) new(2) by (rule same_but_entryI(2))
  moreover have "dom ([n \<mapsto> i] ++ new) \<subseteq>
      {k \<in> set (n # ns). \<exists>h. handler_named k (pm_handlers m) = Some h \<and> supports_seeding (ph_capabilities h)}"
    using new(4) assms(2,3) same_but_entry_handlers [OF assms(4)] by auto
  ultimately show ?thesis unfolding seed_growth_def by blast
qed

lemma add_seeding_entry:
  assumes "add_seeding env fh p n i s = (Inr u, s')"
  shows "same_but_entry fh (fst s) (fst s')" "registered (fst s') fh = (registered (fst s) fh)(n \<mapsto> i)"
  using assms by (auto simp: add_seeding_def registered_def same_but_entry_def Let_def split: prod.splits sum.splits option.splits)

lemma seed_each_growth: "seed_each env fh p opts ns res s = (Inr res', s') \<Longrightarrow> seed_growth fh ns (fst s) (fst s') res res'"
proof (induction ns arbitrary: res s)
  case Nil
  then show ?case unfolding seed_growth_def by (intro exI [of _ Map.empty]) (simp add: same_but_entryI)
next
  case (Cons n ns)
  show ?case
  proof (cases "\<exists>h. handler_named n (pm_handlers (fst s)) = Some h \<and> supports_seeding (ph_capabilities h)")
    case False
    with Cons.prems have "seed_each env fh p opts ns res s = (Inr res', s')" by (auto split: option.splits if_splits)
    from growth_skip [OF Cons.IH [OF this]] show ?thesis .
  next
    case True
    then obtain h where h: "handler_named n (pm_handlers (fst s)) = Some h" "supports_seeding (ph_capabilities h)" by blast
    obtain r s1 where w: "on_world (ph_seed h p opts) s = (r, s1)" by (rule prod.exhaust)
    have same: "fst s1 = fst s" by (rule on_world_fst [OF w])
    show ?thesis
    proof (cases r)
      case (Inl e)
      with Cons.prems h w have "seed_each env fh p opts ns res s1 = (Inr res', s')" by simp
      from Cons.IH [OF this] same show ?thesis by (simp add: growth_skip)
    next
      case (Inr i)
      with Cons.prems h w obtain s2 where s2: "add_seeding env fh p n i s1 = (Inr (), s2)"
        "seed_each env fh p opts ns (res(n \<mapsto> i)) s2 = (Inr res', s')" by (auto split: prod.splits sum.splits)
      from growth_add [OF Cons.IH [OF s2(2)] h] add_seeding_entry [OF s2(1)] same show ?thesis by simp
    qed
  qed
qed

text \<open>The hash under which a file is registered.\<close>

definition content_hash :: "pm_env \<Rightarrow> path \<Rightarrow> disk \<Rightarrow> string" where
  "content_hash env p d = hex_encode (pe_sha256 env (the (d p)))"

lemma seeded_registered:
  assumes "seed_file_multi_protocol env p names opts s = (Inr res, s')"
  shows "seed_growth (content_hash env p (pw_disk (snd s))) names (fst s) (fst s') Map.empty res \<and> res \<noteq> Map.empty"
proof -
  from assms obtain fh where "calculate_file_hash env p (pw_disk (snd s)) = Inr fh"
    and each: "seed_each env fh p opts names Map.empty s = (Inr res, s')" and ne: "dom res \<noteq> {}"
    by (auto simp: seed_file_multi_protocol_def and_then_eq_Ok seeded_or_error_def split: if_splits)
  then have "fh = content_hash env p (pw_disk (snd s))"
    by (auto simp: calculate_file_hash_def content_hash_def fs_read_def split: option.splits if_splits)
  with seed_each_growth [OF each] ne show ?thesis by auto
qed

text \<open>
  Seeding a file on several protocols registers what was seeded. When the operation succeeds, the entry of the file, found
  under the hash of its content, has exactly the protocols it had before and those that the operation reports, with the
  information their handlers gave; all of these are protocols that were asked for and can seed; and no other entry, no handler and
  no transfer of the manager changes.
\<close>

theorem seeding_registers_results:
  assumes "seed_file_multi_protocol env p names opts (m, w) = (Inr res, (m', w'))"
  shows "res \<noteq> Map.empty \<and> (\<exists>en. pm_seeding m' (content_hash env p (pw_disk w)) = Some en \<and>
      sn_protocols en = registered m (content_hash env p (pw_disk w)) ++ res \<and>
      m' = m\<lparr>pm_seeding := (pm_seeding m)(content_hash env p (pw_disk w) \<mapsto> en)\<rparr>)
    \<and> dom res \<subseteq> {n \<in> set names. \<exists>h. handler_named n (pm_handlers m) = Some h \<and> supports_seeding (ph_capabilities h)}"
proof -
  let ?fh = "content_hash env p (pw_disk w)"
  from seeded_registered [OF assms] have res: "res \<noteq> Map.empty" "same_but_entry ?fh m m'" "registered m' ?fh = registered m ?fh ++ res"
    "dom res \<subseteq> {n \<in> set names. \<exists>h. handler_named n (pm_handlers m) = Some h \<and> supports_seeding (ph_capabilities h)}"
    by (auto simp: seed_growth_def)
  from res(2) obtain e where e: "m' = m\<lparr>pm_seeding := (pm_seeding m)(?fh := e)\<rparr>" by (auto simp: same_but_entry_def)
  with res(1,3) obtain en where "e = Some en" by (cases e) (auto simp: registered_def)
  with res e show ?thesis by (auto simp: registered_def)
qed

definition demo_seeded :: "unit protocol_manager" where
  "demo_seeded = fst (snd (seed_file_multi_protocol demo_pm_env [''f''] [''http''] default_seed_options (demo_manager, demo_world)))"

lemma demo_seed: "seed_file_multi_protocol demo_pm_env [''f''] [''http''] default_seed_options (demo_manager, demo_world)
    = (Inr [''http'' \<mapsto> demo_seed_info], (demo_seeded, demo_world))"
proof -
  have "handler_named ''http'' (pm_handlers demo_manager) = Some demo_seeder" by (simp add: handler_named_def)
  moreover have "supports_seeding (ph_capabilities demo_seeder)" "ph_seed demo_seeder p opts w = (Inr demo_seed_info, w)" for p opts w
    by (simp_all add: demo_seeder_def)
  ultimately show ?thesis
    by (simp add: demo_seeded_def seed_file_multi_protocol_def demo_pm_env_def demo_world_def fs_exists_def calculate_file_hash_def
        fs_read_def and_then_def on_world_def add_seeding_def fs_len_def seeded_or_error_def Let_def)
qed

theorem seeding_registers_results_witness:
  "[''http'' \<mapsto> demo_seed_info] \<noteq> Map.empty \<and> (\<exists>en. pm_seeding demo_seeded (content_hash demo_pm_env [''f''] (pw_disk demo_world)) = Some en \<and>
      sn_protocols en = registered demo_manager (content_hash demo_pm_env [''f''] (pw_disk demo_world)) ++ [''http'' \<mapsto> demo_seed_info] \<and>
      demo_seeded = demo_manager\<lparr>pm_seeding := (pm_seeding demo_manager)(content_hash demo_pm_env [''f''] (pw_disk demo_world) \<mapsto> en)\<rparr>)
    \<and> dom [''http'' \<mapsto> demo_seed_info] \<subseteq>
      {n \<in> set [''http'']. \<exists>h. handler_named n (pm_handlers demo_manager) = Some h \<and> supports_seeding (ph_capabilities h)}"
  by (rule seeding_registers_results [OF demo_seed])

section \<open>Transfers\<close>

text \<open>Every call on the manager, every event of its coordinator, and whatever else happens in the world.\<close>

inductive pm_step :: "'x protocol_manager \<times> 'x proto_world_scheme \<Rightarrow> 'x protocol_manager \<times> 'x proto_world_scheme \<Rightarrow> bool" where
  PmRegister: "pm_step (m, w) (pm_register h m, w)"
| PmDownload: "pm_step s (snd (pm_download env ident opts s))"
| PmSeed: "pm_step s (snd (pm_seed n p sopts s))"
| PmUpload: "pm_step s (snd (pm_upload p names sopts s))"
| PmDownloadSimple: "pm_step s (snd (download_simple ident s))"
| PmSeedSimple: "pm_step s (snd (seed_simple ident s))"
| PmSeedFile: "pm_step s (snd (seed_file_multi_protocol env p names sopts s))"
| PmStopSeeding: "pm_step s (snd (stop_seeding_all ks fh s))"
| PmSeedingStats: "pm_step (m, w) (update_seeding_stats fh delta m, w)"
| PmPreferences: "pm_step (m, w) (snd (detect_best_protocol_with_preferences env ident p m), w)"
| PmDownloadFile: "pm_step s (snd (pm_download_file env ident fopts s))"
| PmUploadFile: "pm_step s (snd (upload_file env ks p fopts s))"
| PmPause: "pm_step s (snd (pause_transfer ks tid s))"
| PmResume: "pm_step s (snd (resume_transfer ks tid s))"
| PmCancel: "pm_step s (snd (cancel_transfer ks tid s))"
| PmProgress: "pm_step s (snd (get_transfer_progress ks tid s))"
| PmList: "pm_step s (snd (list_transfers ord ks s))"
| PmCoordinator: "mcoord_step io (pm_coordinator m, w) e = (mc, w') \<Longrightarrow> pm_step (m, w) (m\<lparr>pm_coordinator := mc\<rparr>, w')"
| PmWorld: "pm_step (m, w) (m, w')"

definition unmeasured :: "active_transfer \<Rightarrow> bool" where
  "unmeasured t \<longleftrightarrow> at_bytes_transferred t = 0 \<and> at_total_bytes t = 0 \<and> at_current_speed t = F_Fin 0"

definition all_unmeasured :: "'x protocol_manager \<times> 'x proto_world_scheme \<Rightarrow> bool" where
  "all_unmeasured s \<longleftrightarrow> (\<forall>tid t. pm_transfers (fst s) tid = Some t \<longrightarrow> unmeasured t)"

lemma all_unmeasured_cong: "pm_transfers (fst s') = pm_transfers (fst s) \<Longrightarrow> all_unmeasured s \<Longrightarrow> all_unmeasured s'"
  by (simp add: all_unmeasured_def)

text \<open>The operations that leave the table of transfers alone.\<close>

lemma on_world_manager [simp]: "fst (snd (on_world a s)) = fst s"
  by (simp add: on_world_def split: prod.splits)

lemma pm_download_transfers: "pm_transfers (fst (snd (pm_download env ident opts s))) = pm_transfers (fst s)"
  by (cases "discover_sources (fst s) ident") (auto simp: pm_download_def start_coordinated_def split: prod.splits option.splits)

lemma pm_seed_transfers: "pm_transfers (fst (snd (pm_seed n p opts s))) = pm_transfers (fst s)"
  by (auto simp: pm_seed_def split: option.splits)

lemma pm_upload_transfers: "pm_transfers (fst (snd (pm_upload p names opts s))) = pm_transfers (fst s)"
  by (auto simp: pm_upload_def split: prod.splits)

lemma simple_transfers:
  "pm_transfers (fst (snd (download_simple ident s))) = pm_transfers (fst s)"
  "pm_transfers (fst (snd (seed_simple ident s))) = pm_transfers (fst s)"
  by (auto simp: download_simple_def seed_simple_def split: prod.splits option.splits sum.splits)

lemma add_seeding_transfers: "add_seeding env fh p n i s = (r, s') \<Longrightarrow> pm_transfers (fst s') = pm_transfers (fst s)"
  by (auto simp: add_seeding_def Let_def split: prod.splits sum.splits)

lemma seed_each_transfers: "pm_transfers (fst (snd (seed_each env fh p opts ns res s))) = pm_transfers (fst s)"
proof (induction ns arbitrary: res s)
  case (Cons n ns)
  then show ?case by (auto split: option.splits prod.splits sum.splits dest!: on_world_fst add_seeding_transfers)
qed simp

lemma seed_file_transfers: "pm_transfers (fst (snd (seed_file_multi_protocol env p names opts s))) = pm_transfers (fst s)"
  using seed_each_transfers [of env _ p opts names Map.empty s]
  by (auto simp: seed_file_multi_protocol_def and_then_def split: prod.splits sum.splits) (metis fst_conv snd_conv)+

lemma stop_seeding_transfers: "pm_transfers (fst (snd (stop_seeding_all ks fh s))) = pm_transfers (fst s)"
  by (auto simp: stop_seeding_all_def remove_seeding_def split: prod.splits option.splits)

lemma progress_transfers: "fst (snd (get_transfer_progress ks tid s)) = fst s"
  by (auto simp: get_transfer_progress_def split: prod.splits option.splits)

lemma list_each_transfers: "fst (snd (list_each ord tids s)) = fst s"
proof (induction tids arbitrary: s)
  case (Cons tid tids)
  have "fst s' = fst s" if "get_transfer_progress (ord tid) tid s = (r, s')" for r s'
    using that progress_transfers [of "ord tid" tid s] by simp
  moreover have "fst (snd (case list_each ord tids s' of (gs, s'') \<Rightarrow> (g # gs, s''))) = fst s'"
    for g and s' :: "'a protocol_manager \<times> 'a proto_world_scheme"
    using Cons.IH [of s'] by (auto split: prod.splits)
  ultimately show ?case using Cons.IH by (auto split: prod.splits sum.splits)
qed simp

lemmas quiet_operations = pm_download_transfers pm_seed_transfers pm_upload_transfers simple_transfers seed_file_transfers
  stop_seeding_transfers progress_transfers list_each_transfers

lemma upd_transfer_unmeasured:
  assumes "all_unmeasured (m, w)" "\<And>t. unmeasured t \<Longrightarrow> unmeasured (g t)"
  shows "all_unmeasured (upd_transfer tid g m, w')"
  using assms by (auto simp: all_unmeasured_def upd_transfer_def split: option.splits)

lemma start_single_unmeasured:
  assumes "all_unmeasured s"
  shows "all_unmeasured (snd (start_single_protocol_download ident n opts tid s))"
proof (cases "handler_named n (pm_handlers (fst s))")
  case None
  with assms show ?thesis by (simp add: start_single_protocol_download_def)
next
  case (Some h)
  obtain r m w where w: "on_world (ph_download h ident (transfer_download_options opts)) s = (r, (m, w))" by (metis prod.exhaust)
  with assms on_world_fst [OF w] have "all_unmeasured (m, w)" by (simp add: all_unmeasured_def)
  then show ?thesis using Some w
    by (auto simp: start_single_protocol_download_def and_then_def unmeasured_def split: sum.splits intro: upd_transfer_unmeasured)
qed

text \<open>A download over several protocols is one over the first of them.\<close>

lemma download_file_first:
  assumes "fo_output_path opts = Some out" "select_protocols env (fst s) ident opts = Inr names" "names \<noteq> []"
  shows "pm_download_file env ident opts s = and_do (start_single_protocol_download ident (hd names) opts (pe_uuid env))
    (ret (started_result env names ident (Some out))) (register_active_transfer (initial_transfer env ident names out) (fst s), snd s)"
  using assms by (cases names) (simp_all add: pm_download_file_def start_multi_source_download_def)

lemma register_unmeasured: "all_unmeasured s \<Longrightarrow> unmeasured t \<Longrightarrow> all_unmeasured (register_active_transfer t (fst s), w)"
  by (auto simp: all_unmeasured_def register_active_transfer_def)

lemma download_file_unmeasured:
  assumes "all_unmeasured s"
  shows "all_unmeasured (snd (pm_download_file env ident opts s))"
proof (cases "fo_output_path opts")
  case None
  with assms show ?thesis by (simp add: pm_download_file_def)
next
  case (Some out)
  show ?thesis
  proof (cases "select_protocols env (fst s) ident opts")
    case (Inl e)
    with Some assms show ?thesis by (simp add: pm_download_file_def)
  next
    case (Inr names)
    have "all_unmeasured (register_active_transfer (initial_transfer env ident names out) (fst s), snd s)"
      using assms by (intro register_unmeasured) (simp_all add: unmeasured_def initial_transfer_def)
    note started = start_single_unmeasured [OF this, of ident "hd names" opts "pe_uuid env"]
    show ?thesis
    proof (cases "names = []")
      case True
      with Some Inr assms show ?thesis by (simp add: pm_download_file_def)
    next
      case False
      from started show ?thesis
        unfolding download_file_first [OF Some Inr False] by (auto simp: and_then_def split: prod.splits sum.splits)
    qed
  qed
qed

lemma upload_file_unmeasured:
  assumes "all_unmeasured s"
  shows "all_unmeasured (snd (upload_file env ks p opts s))"
proof -
  have seed: "pm_transfers (fst s') = pm_transfers (fst s)" if "seed_file_multi_protocol env p names so s = (r, s')" for names so r s'
    using seed_file_transfers [of env p names so s] that by simp
  show ?thesis using assms
    by (auto simp: upload_file_def Let_def and_then_def all_unmeasured_def register_active_transfer_def unmeasured_def
        split: prod.splits sum.splits if_splits dest!: seed)
qed

lemma pm_step_unmeasured: "pm_step s t \<Longrightarrow> all_unmeasured s \<Longrightarrow> all_unmeasured t"
proof (induction rule: pm_step.induct)
  case (PmPause s ks tid)
  then show ?case by (auto simp: pause_transfer_def update_transfer_status_def unmeasured_def intro!: upd_transfer_unmeasured split: prod.splits option.splits)
next
  case (PmResume s ks tid)
  then show ?case by (auto simp: resume_transfer_def update_transfer_status_def unmeasured_def intro!: upd_transfer_unmeasured split: prod.splits option.splits)
next
  case (PmCancel s ks tid)
  then show ?case by (auto simp: cancel_transfer_def remove_active_transfer_def all_unmeasured_def split: prod.splits option.splits)
next
  case (PmSeedingStats m w fh delta)
  then show ?case by (auto simp: update_seeding_stats_def all_unmeasured_def split: option.splits)
next
  case (PmDownloadFile s env ident fopts)
  then show ?case by (rule download_file_unmeasured)
next
  case (PmUploadFile s env ks p fopts)
  then show ?case by (rule upload_file_unmeasured)
qed (simp_all add: all_unmeasured_def quiet_operations pm_register_def rebuild_multi_source_def detect_best_protocol_with_preferences_def
  Let_def list_transfers_def)

interpretation transfer_table: invariant_machine pm_step all_unmeasured
  by unfold_locales (rule pm_step_unmeasured)

text \<open>
  The progress of a transfer is always nought. After any sequence of calls on a new manager, events of its coordinator and
  events in the world, a query for the progress of any transfer reports nought bytes of nought, nought per cent, no speed and no
  remaining time, even where the handlers report how far they are: nothing ever writes what they report into the transfer.
\<close>

theorem progress_always_zero:
  assumes "pm_step\<^sup>*\<^sup>* (new_protocol_manager, w) s" "get_transfer_progress ks tid s = (Inr g, s')"
  shows "tg_bytes_transferred g = 0 \<and> tg_total_bytes g = 0 \<and> tg_percentage g = F_Fin 0 \<and> tg_current_speed g = F_Fin 0 \<and>
    tg_eta_seconds g = None"
proof -
  have "all_unmeasured (new_protocol_manager, w)" by (simp add: all_unmeasured_def new_protocol_manager_def)
  with assms(1) have "all_unmeasured s" by (rule transfer_table.run_inv)
  with assms(2) show ?thesis
    by (auto simp: get_transfer_progress_def get_active_transfer_def all_unmeasured_def unmeasured_def percent_of_def transfer_eta_def
        split: prod.splits option.splits)
qed

definition demo_options :: file_transfer_options where
  "demo_options = default_transfer_options\<lparr>fo_output_path := Some [''o'']\<rparr>"

definition demo_downloading :: "unit protocol_manager \<times> proto_world" where
  "demo_downloading = snd (pm_download_file demo_pm_env ''u'' demo_options (demo_manager, demo_world))"

lemma demo_reached: "pm_step\<^sup>*\<^sup>* (new_protocol_manager, demo_world) demo_downloading"
proof -
  have "pm_step (new_protocol_manager, demo_world) (pm_register demo_seeder new_protocol_manager, demo_world)" by (rule PmRegister)
  moreover have "pm_step (pm_register demo_seeder new_protocol_manager, demo_world) (demo_manager, demo_world)"
    unfolding demo_manager_def by (rule PmRegister)
  moreover have "pm_step (demo_manager, demo_world) demo_downloading" unfolding demo_downloading_def by (rule PmDownloadFile)
  ultimately show ?thesis by (meson converse_rtranclp_into_rtranclp rtranclp.rtrancl_refl)
qed

lemma demo_selected: "select_protocols demo_pm_env demo_manager ''u'' demo_options = Inr [''ftp'', ''http'']"
  by (simp add: select_protocols_def demo_options_def default_transfer_options_def detect_protocols_def detect_all_def demo_pm_env_def
      handler_map_def detection_allows_def default_preferences_def meets_requirements_def)
    (simp add: demo_seeder_def demo_handler_def)

lemma demo_transfer:
  "pm_transfers (fst demo_downloading) ''t'' = Some ((initial_transfer demo_pm_env ''u'' [''ftp'', ''http''] [''o''])
     \<lparr>at_protocol_handles := [''ftp'' \<mapsto> ''u''], at_status := XsDownloading\<rparr>)"
proof -
  have out: "fo_output_path demo_options = Some [''o'']" by (simp add: demo_options_def)
  have "handler_named ''ftp'' (pm_handlers demo_manager) = Some (demo_handler\<lparr>ph_name := ''ftp''\<rparr>)" by (simp add: handler_named_def)
  moreover have "ph_download (demo_handler\<lparr>ph_name := ''ftp''\<rparr>) ''u'' opts w = (Inr \<lparr>dh_identifier = ''u'', dh_protocol = ''http'', dh_started_at = 0\<rparr>,
       w\<lparr>pw_disk := (pw_disk w)(do_output_path opts \<mapsto> ''ab'')\<rparr>)" for opts w by (simp add: demo_handler_def)
  moreover have "pm_download_file demo_pm_env ''u'' demo_options (demo_manager, demo_world) =
    and_do (start_single_protocol_download ''u'' ''ftp'' demo_options (pe_uuid demo_pm_env)) (ret (started_result demo_pm_env [''ftp'', ''http''] ''u'' (Some [''o''])))
    (register_active_transfer (initial_transfer demo_pm_env ''u'' [''ftp'', ''http''] [''o'']) demo_manager, demo_world)"
    using download_file_first [OF out, of demo_pm_env "(demo_manager, demo_world)" "''u''" "[''ftp'', ''http'']"] demo_selected by simp
  ultimately show ?thesis
    by (simp add: demo_downloading_def start_single_protocol_download_def and_then_def on_world_def upd_transfer_def
        register_active_transfer_def initial_transfer_def demo_pm_env_def)
qed

theorem progress_always_zero_witness:
  "\<exists>g s'. get_transfer_progress [''ftp''] ''t'' demo_downloading = (Inr g, s') \<and> tg_bytes_transferred g = 0 \<and> tg_total_bytes g = 0 \<and>
    tg_percentage g = F_Fin 0 \<and> tg_current_speed g = F_Fin 0 \<and> tg_eta_seconds g = None"
proof -
  obtain m w where mw: "demo_downloading = (m, w)" by fastforce
  have "\<exists>g s'. get_transfer_progress [''ftp''] ''t'' demo_downloading = (Inr g, s')"
    using demo_transfer unfolding mw by (auto simp: get_transfer_progress_def get_active_transfer_def split: prod.splits)
  then obtain g s' where g: "get_transfer_progress [''ftp''] ''t'' demo_downloading = (Inr g, s')" by blast
  with progress_always_zero [OF demo_reached g] show ?thesis by blast
qed

section \<open>What the interface does not do\<close>

lemma uploaded_state:
  assumes "upload_file env ks p opts s = (Inr r, s')"
  shows "xr_transfer_id r = pe_uuid env" "pm_transfers (fst s') (pe_uuid env) \<noteq> None"
    "registered (fst s') (content_hash env p (pw_disk (snd s))) \<noteq> Map.empty"
proof -
  from assms obtain names so res s1 where seed: "seed_file_multi_protocol env p names so s = (Inr res, s1)"
    and r: "xr_transfer_id r = pe_uuid env" and t: "\<exists>t. fst s' = register_active_transfer t (fst s1) \<and> at_transfer_id t = pe_uuid env"
    by (auto simp: upload_file_def Let_def and_then_eq_Ok started_result_def split: if_splits prod.splits) (metis fst_conv active_transfer.select_convs(1))+
  show "xr_transfer_id r = pe_uuid env" by (rule r)
  show "pm_transfers (fst s') (pe_uuid env) \<noteq> None" using t by (auto simp: register_active_transfer_def)
  have "registered (fst s') fh = registered (fst s1) fh" for fh using t by (auto simp: registered_def register_active_transfer_def)
  with seeded_registered [OF seed] show "registered (fst s') (content_hash env p (pw_disk (snd s))) \<noteq> Map.empty"
    by (auto simp: seed_growth_def)
qed

text \<open>
  A cancelled upload goes on seeding. Cancelling the transfer that a successful upload returned succeeds and forgets the
  transfer, but the file stays in the registry of seeded files with its protocols: the handlers are told to cancel a download, which
  an upload is not, and are never told to stop seeding.
\<close>

theorem cancelled_upload_still_seeded:
  assumes "upload_file env ks p opts s = (Inr r, s')"
  shows "\<exists>s''. cancel_transfer ks' (xr_transfer_id r) s' = (Inr (), s'') \<and> pm_transfers (fst s'') (xr_transfer_id r) = None \<and>
    registered (fst s'') (content_hash env p (pw_disk (snd s))) \<noteq> Map.empty"
proof -
  obtain m w where s': "s' = (m, w)" by fastforce
  from uploaded_state [OF assms] s' show ?thesis
    by (auto simp: cancel_transfer_def get_active_transfer_def remove_active_transfer_def registered_def)
qed

text \<open>
  The options of a download cannot ban or prefer a protocol. Whatever lists of banned and of preferred protocols the options
  carry, the download does the same: the filter that applies them only looks at the required capabilities.
\<close>

theorem banned_protocols_ignored:
  "pm_download_file env ident (opts\<lparr>fo_detection_preferences := Some (p\<lparr>dp_banned_protocols := banned, dp_preferred_protocols := preferred\<rparr>)\<rparr>) s
    = pm_download_file env ident (opts\<lparr>fo_detection_preferences := Some p\<rparr>) s"
proof -
  have same: "transfer_download_options (opts\<lparr>fo_detection_preferences := q\<rparr>) = transfer_download_options opts" for q
    by (simp add: transfer_download_options_def)
  have start: "start_single_protocol_download i n (opts\<lparr>fo_detection_preferences := q\<rparr>) tid = start_single_protocol_download i n opts tid"
    for i n q tid unfolding start_single_protocol_download_def same ..
  have "meets_requirements (p\<lparr>dp_banned_protocols := banned, dp_preferred_protocols := preferred\<rparr>) = meets_requirements p"
    by (rule ext) (simp add: meets_requirements_def)
  then have select: "select_protocols env (fst s) ident (opts\<lparr>fo_detection_preferences := Some (p\<lparr>dp_banned_protocols := banned, dp_preferred_protocols := preferred\<rparr>)\<rparr>)
      = select_protocols env (fst s) ident (opts\<lparr>fo_detection_preferences := Some p\<rparr>)"
    by (simp add: select_protocols_def filter_protocols_by_preferences_def Let_def split: option.split)
  show ?thesis unfolding pm_download_file_def start_multi_source_download_def start select
    by (simp split: option.split sum.split)
qed

text \<open>A download whose handler refuses it stays in the table, as initializing and without a handle, although the caller gets the error.\<close>

lemma failed_start_stays:
  assumes "fo_output_path opts = Some out" "select_protocols env m ident opts = Inr names" "names \<noteq> []"
    and "handler_named (hd names) (pm_handlers m) = Some h" "ph_download h ident (transfer_download_options opts) w = (Inl e, w')"
  shows "\<exists>m'. pm_download_file env ident opts (m, w) = (Inl e, (m', w')) \<and> pm_transfers m' (pe_uuid env) = Some (initial_transfer env ident names out)"
  using download_file_first [OF assms(1), of env "(m, w)" ident names] assms(2-5)
  by (simp add: start_single_protocol_download_def and_then_def on_world_def register_active_transfer_def initial_transfer_def)

text \<open>Resuming a paused upload calls it a download.\<close>

lemma resumed_upload_downloads:
  assumes "pm_transfers m tid = Some t" "resume_transfer ks tid (m, w) = (Inr u, (m', w'))"
  shows "pm_transfers m' tid = Some (t\<lparr>at_status := XsDownloading\<rparr>)"
  using assms by (auto simp: resume_transfer_def get_active_transfer_def update_transfer_status_def upd_transfer_def)

definition demo_upload :: "(protocol_error, transfer_result) result \<times> unit protocol_manager \<times> proto_world" where
  "demo_upload = upload_file demo_pm_env [''http''] [''f''] demo_options (demo_manager, demo_world)"

theorem cancelled_upload_still_seeded_witness:
  "\<exists>r s' s''. upload_file demo_pm_env [''http''] [''f''] demo_options (demo_manager, demo_world) = (Inr r, s') \<and>
    cancel_transfer [''http''] (xr_transfer_id r) s' = (Inr (), s'') \<and> pm_transfers (fst s'') (xr_transfer_id r) = None \<and>
    registered (fst s'') (content_hash demo_pm_env [''f''] (pw_disk (snd (demo_manager, demo_world)))) \<noteq> Map.empty"
proof -
  have "handler_named ''http'' (pm_handlers demo_manager) = Some demo_seeder" by (simp add: handler_named_def)
  moreover have "supports_seeding (ph_capabilities demo_seeder)" "ph_seed demo_seeder p opts w = (Inr demo_seed_info, w)" for p opts w
    by (simp_all add: demo_seeder_def)
  moreover have "map fst (filter (\<lambda>(n, caps). supports_seeding caps) (list_protocols demo_manager)) = [''http'']"
    using calculation(2) by (simp add: list_protocols_def) (simp add: demo_handler_def default_capabilities_def)
  ultimately have "\<exists>r s'. upload_file demo_pm_env [''http''] [''f''] demo_options (demo_manager, demo_world) = (Inr r, s')"
    by (simp add: upload_file_def demo_options_def default_transfer_options_def seed_file_multi_protocol_def demo_pm_env_def demo_world_def
        fs_exists_def calculate_file_hash_def fs_read_def and_then_def on_world_def add_seeding_def fs_len_def seeded_or_error_def Let_def)
  then obtain r s' where up: "upload_file demo_pm_env [''http''] [''f''] demo_options (demo_manager, demo_world) = (Inr r, s')" by blast
  from cancelled_upload_still_seeded [OF up, of "[''http'']"] up show ?thesis by blast
qed

end
