(* ===== verification/Ed2kClient.thy ===== *)
theory Ed2kClient
  imports MultiSource FileSystem F64 Actions Interfaces
begin

text \<open>
  \<open>ed2k_client.rs\<close>: the eDonkey client, its packets and hashes, and the server that hands out blocks of shared files to peers.

  A TCP stream is what the other side will still send, how that ends (closed, an error, or silence until a timeout), whether
  writes fail, and what was written. MD4 is a parameter of 16 bytes. A \<open>read\<close> may return fewer bytes than asked for, so the
  sizes of such reads are an argument. The server's accept loop handles one connection at a time, each connection runs in a task
  of its own; a run of the server is a sequence of events. The texts of I/O errors are left out.

  Theorems, at the end: packets and block requests survive the way over the wire; a block fetched from the program's own server is
  the block of the shared file; the sizes of chunks add up; the server admits at most 60 connections of an address in a minute and
  has at most 100 open; hashes are those of the chunks only if every read fills its buffer; what the client sends to ask for a
  chunk and to offer files is no packet.
\<close>

section \<open>Streams and little-endian integers\<close>

definition le_bytes :: "nat \<Rightarrow> nat \<Rightarrow> bytes" where
  "le_bytes k n = rev (be_bytes k n)"

definition le_value :: "bytes \<Rightarrow> nat" where
  "le_value bs = be_value (rev bs)"

datatype ed2k_client_error =
    EcConnection string
  | EcProtocol string
  | EcHashMismatch
  | EcTimeout
  | EcIo
  | EcHex

datatype stream_end = EndClosed | EndError | EndSilent

record tcp_stream =
  ts_in :: bytes
  ts_end :: stream_end
  ts_broken :: bool
  ts_out :: bytes

type_synonym 'a tcp_act = "(tcp_stream, ed2k_client_error, 'a) act"

definition tcp_write :: "bytes \<Rightarrow> unit tcp_act" where
  "tcp_write b s = (if ts_broken s then (Err EcIo, s) else (Ok (), s\<lparr>ts_out := ts_out s @ b\<rparr>))"

text \<open>\<open>read_exact\<close> under a timeout: a stream that ends too early is an I/O error, silence is a timeout.\<close>

definition tcp_read_exact :: "nat \<Rightarrow> bytes tcp_act" where
  "tcp_read_exact n s =
     (if n \<le> length (ts_in s) then (Ok (take n (ts_in s)), s\<lparr>ts_in := drop n (ts_in s)\<rparr>)
      else (Err (if ts_end s = EndSilent then EcTimeout else EcIo), s\<lparr>ts_in := []\<rparr>))"

section \<open>Packets\<close>

definition OP_LOGINREQUEST :: nat where "OP_LOGINREQUEST = 0x01"
definition OP_OFFERFILES :: nat where "OP_OFFERFILES = 0x15"
definition OP_GETSOURCES :: nat where "OP_GETSOURCES = 0x19"
definition OP_FOUNDSOURCES :: nat where "OP_FOUNDSOURCES = 0x42"
definition OP_REQUESTPARTS :: nat where "OP_REQUESTPARTS = 0x47"
definition OP_SENDINGPART :: nat where "OP_SENDINGPART = 0x46"

definition HEADER_SIZE :: usize where "HEADER_SIZE = 6"
definition ED2K_PROTOCOL :: nat where "ED2K_PROTOCOL = 0xE3"
definition ED2K_DEFAULT_PORT :: nat where "ED2K_DEFAULT_PORT = 4661"

record packet_header =
  hd_protocol :: nat
  hd_size :: u32
  hd_opcode :: nat

definition new_packet_header :: "nat \<Rightarrow> u32 \<Rightarrow> packet_header" where
  "new_packet_header opcode payload_size = \<lparr>hd_protocol = ED2K_PROTOCOL, hd_size = wadd32 payload_size 1, hd_opcode = opcode\<rparr>"

definition header_to_bytes :: "packet_header \<Rightarrow> bytes" where
  "header_to_bytes h = [char_of (hd_protocol h)] @ le_bytes 4 (hd_size h) @ [char_of (hd_opcode h)]"

definition header_from_bytes :: "bytes \<Rightarrow> (ed2k_client_error, packet_header) result" where
  "header_from_bytes b =
     (if length b < HEADER_SIZE then Err (EcProtocol ''Incomplete packet header'')
      else if (of_char (b ! 0) :: nat) \<noteq> ED2K_PROTOCOL then Err (EcProtocol ''Invalid protocol byte'')
      else Ok \<lparr>hd_protocol = of_char (b ! 0), hd_size = le_value (take 4 (drop 1 b)), hd_opcode = of_char (b ! 5)\<rparr>)"

record block_request =
  bq_file_hash :: bytes
  bq_start_offset :: u64
  bq_end_offset :: u64

definition request_to_bytes :: "block_request \<Rightarrow> bytes" where
  "request_to_bytes r = bq_file_hash r @ le_bytes 8 (bq_start_offset r) @ le_bytes 8 (bq_end_offset r)"

definition request_from_bytes :: "bytes \<Rightarrow> (ed2k_client_error, block_request) result" where
  "request_from_bytes b =
     (if length b < 32 then Err (EcProtocol ''Incomplete block request'')
      else Ok \<lparr>bq_file_hash = take 16 b, bq_start_offset = le_value (take 8 (drop 16 b)), bq_end_offset = le_value (take 8 (drop 24 b))\<rparr>)"

definition send_packet :: "nat \<Rightarrow> bytes \<Rightarrow> unit tcp_act" where
  "send_packet opcode payload =
     and_do (tcp_write (header_to_bytes (new_packet_header opcode (length payload mod 2 ^ 32))))
       (if payload = [] then ret () else tcp_write payload)"

definition receive_packet :: "(nat \<times> bytes) tcp_act" where
  "receive_packet =
     and_then (tcp_read_exact HEADER_SIZE) (\<lambda>hb. and_then (of_result (header_from_bytes hb)) (\<lambda>h.
       let n = sat_sub (hd_size h) 1
       in if n = 0 then ret (hd_opcode h, []) else and_then (tcp_read_exact n) (\<lambda>payload. ret (hd_opcode h, payload))))"

section \<open>The client\<close>

record ed2k_file_info =
  ef_file_hash :: string
  ef_file_size :: u64
  ef_file_name :: "string option"
  ef_sources :: "string list"
  ef_chunk_hashes :: "string list"

record ed2k_server_info =
  ev_name :: string
  ev_description :: "string option"
  ev_users :: u32
  ev_files :: u32

record ed2k_search_result =
  er_file_hash :: string
  er_file_name :: string
  er_file_size :: u64
  er_source_count :: u32

record ed2k_config =
  eg_server_url :: string
  eg_timeout_secs :: u64
  eg_client_id :: "string option"

record ed2k_client =
  ec_config :: ed2k_config
  ec_connection :: "tcp_stream option"
  ec_shared_files :: "string \<rightharpoonup> ed2k_file_info"
  ec_client_id :: "u32 option"

type_synonym 'a ed2k_act = "(ed2k_client, ed2k_client_error, 'a) act"

definition default_ed2k_config :: ed2k_config where
  "default_ed2k_config = \<lparr>eg_server_url = [], eg_timeout_secs = 30, eg_client_id = None\<rparr>"

definition ed2k_with_config :: "ed2k_config \<Rightarrow> ed2k_client" where
  "ed2k_with_config cfg = \<lparr>ec_config = cfg, ec_connection = None, ec_shared_files = Map.empty, ec_client_id = None\<rparr>"

definition new_ed2k_client :: "string \<Rightarrow> ed2k_client" where
  "new_ed2k_client url = ed2k_with_config (default_ed2k_config\<lparr>eg_server_url := url\<rparr>)"

text \<open>\<open>trim_start_matches\<close> removes every leading copy of the prefix; \<open>parse::<u16>\<close>.\<close>

function trim_start_all :: "string \<Rightarrow> string \<Rightarrow> string" where
  "trim_start_all pre s = (if pre \<noteq> [] \<and> starts_with pre s then trim_start_all pre (drop (length pre) s) else s)"
  by pat_completeness auto
termination
proof (relation "measure (\<lambda>(pre, s). length s)")
  fix pre s :: string
  assume "pre \<noteq> [] \<and> starts_with pre s"
  then have "pre \<noteq> []" "length pre \<le> length s" by (auto simp: starts_with_def) (metis length_take min.cobounded1)
  then show "((pre, drop (length pre) s), (pre, s)) \<in> measure (\<lambda>(pre, s). length s)" by (cases s) auto
qed simp

declare trim_start_all.simps [simp del]

definition parse_u16 :: "string \<Rightarrow> nat option" where
  "parse_u16 s = (case parse_u64 s of None \<Rightarrow> None | Some n \<Rightarrow> if n < 2 ^ 16 then Some n else None)"

definition parse_server_url :: "string \<Rightarrow> (ed2k_client_error, string \<times> nat) result" where
  "parse_server_url url =
     (if \<not> starts_with ''ed2k://'' url then Err (EcProtocol ''Invalid ed2k URL - must start with ed2k://'')
      else let parts = filter (\<lambda>p. p \<noteq> []) (split_on (CHR ''|'') (trim_end_matches {CHR ''/''} (trim_start_all ''ed2k://'' url)))
           in if length parts < 3 \<or> parts ! 0 \<noteq> ''server''
              then Err (EcProtocol ''Invalid server URL format - expected ed2k://|server|IP|PORT|/'')
              else case parse_u16 (parts ! 2) of None \<Rightarrow> Err (EcProtocol ''Invalid port number'') | Some port \<Rightarrow> Ok (parts ! 1, port))"

text \<open>An operation on the server connection of the client; the stream stays connected.\<close>

definition on_connection :: "string \<Rightarrow> 'a tcp_act \<Rightarrow> 'a ed2k_act" where
  "on_connection message a c = (case ec_connection c of
     None \<Rightarrow> (Err (EcConnection message), c)
   | Some s \<Rightarrow> (case a s of (r, s') \<Rightarrow> (r, c\<lparr>ec_connection := Some s'\<rparr>)))"

definition generate_client_hash :: "(bytes \<Rightarrow> bytes) \<Rightarrow> u64 \<Rightarrow> bytes" where
  "generate_client_hash md4 now = md4 (le_bytes 8 now @ ''chiral-network-ed2k-client'')"

definition write_string_tag :: "nat \<Rightarrow> string \<Rightarrow> bytes" where
  "write_string_tag tag value = [CHR 0x02, char_of tag] @ le_bytes 2 (length value mod 2 ^ 16) @ value"

definition write_int_tag :: "nat \<Rightarrow> u32 \<Rightarrow> bytes" where
  "write_int_tag tag value = [CHR 0x03, char_of tag] @ le_bytes 4 value"

definition login_payload :: "(bytes \<Rightarrow> bytes) \<Rightarrow> u64 \<Rightarrow> bytes" where
  "login_payload md4 now = generate_client_hash md4 now @ le_bytes 4 0 @ le_bytes 2 4662 @ le_bytes 4 3
     @ write_string_tag 0x01 ''Chiral Network'' @ write_int_tag 0x11 0x3C @ write_int_tag 0x20 1"

definition send_login :: "(bytes \<Rightarrow> bytes) \<Rightarrow> u64 \<Rightarrow> unit ed2k_act" where
  "send_login md4 now =
     and_then (on_connection ''Not connected'' (and_do (send_packet OP_LOGINREQUEST (login_payload md4 now)) receive_packet)) (\<lambda>(opcode, payload) c.
       if opcode = 0x32 then (Ok (), if 4 \<le> length payload then c\<lparr>ec_client_id := Some (le_value (take 4 payload))\<rparr> else c)
       else if opcode = 0x38 then (Ok (), c)
       else (Err (EcProtocol ''Unexpected response to login''), c))"

text \<open>What the network answers to a connection attempt: nothing in time, a refusal, or a stream.\<close>

datatype connect_answer = ConnectTimeout | ConnectRefused string | ConnectStream tcp_stream

definition connect_stream :: "connect_answer \<Rightarrow> (ed2k_client_error, tcp_stream) result" where
  "connect_stream a = (case a of ConnectTimeout \<Rightarrow> Err EcTimeout | ConnectRefused m \<Rightarrow> Err (EcConnection m) | ConnectStream s \<Rightarrow> Ok s)"

definition ed2k_connect :: "(bytes \<Rightarrow> bytes) \<Rightarrow> u64 \<Rightarrow> (string \<Rightarrow> connect_answer) \<Rightarrow> unit ed2k_act" where
  "ed2k_connect md4 now net c =
     and_then (of_result (parse_server_url (eg_server_url (ec_config c)))) (\<lambda>(ip, port).
       and_then (of_result (connect_stream (net (ip @ '':'' @ show_nat port)))) (\<lambda>s c'.
         send_login md4 now (c'\<lparr>ec_connection := Some s\<rparr>))) c"

definition ed2k_disconnect :: "bool \<Rightarrow> unit ed2k_act" where
  "ed2k_disconnect shutdown_ok c = (case ec_connection c of
     None \<Rightarrow> (Ok (), c)
   | Some _ \<Rightarrow> (if shutdown_ok then Ok () else Err EcIo, c\<lparr>ec_connection := None\<rparr>))"

definition ed2k_is_connected :: "ed2k_client \<Rightarrow> bool" where
  "ed2k_is_connected c = (ec_connection c \<noteq> None)"

section \<open>Hashes and chunks\<close>

definition compute_md4_hash :: "(bytes \<Rightarrow> bytes) \<Rightarrow> bytes \<Rightarrow> string" where
  "compute_md4_hash md4 b = hex_encode (md4 b)"

definition verify_md4_hash :: "(bytes \<Rightarrow> bytes) \<Rightarrow> bytes \<Rightarrow> string \<Rightarrow> bool" where
  "verify_md4_hash md4 b expected = eq_ignore_ascii_case (compute_md4_hash md4 b) expected"

function split_into_chunks :: "bytes \<Rightarrow> bytes list" where
  "split_into_chunks b = (if b = [] then [] else take ED2K_CHUNK_SIZE b # split_into_chunks (drop ED2K_CHUNK_SIZE b))"
  by pat_completeness auto
termination by (relation "measure length") (simp_all add: ED2K_CHUNK_SIZE_def)

declare split_into_chunks.simps [simp del]

text \<open>The loop over the chunks of an open file: each read returns what it returns, at least a byte before the end.\<close>

fun hash_reads :: "(bytes \<Rightarrow> bytes) \<Rightarrow> nat \<Rightarrow> nat list \<Rightarrow> bytes \<Rightarrow> string list" where
  "hash_reads md4 0 reads b = []"
| "hash_reads md4 (Suc k) reads b =
     (let n = min (min (case reads of [] \<Rightarrow> ED2K_CHUNK_SIZE | r # _ \<Rightarrow> max 1 r) ED2K_CHUNK_SIZE) (length b)
      in if n = 0 then [] else compute_md4_hash md4 (take n b) # hash_reads md4 k (tl reads) (drop n b))"

definition get_chunk_count :: "u64 \<Rightarrow> usize" where
  "get_chunk_count n = wsub64 (wadd64 n ED2K_CHUNK_SIZE) 1 div ED2K_CHUNK_SIZE"

definition compute_chunk_hashes_from_file :: "(bytes \<Rightarrow> bytes) \<Rightarrow> nat list \<Rightarrow> bytes \<Rightarrow> string list" where
  "compute_chunk_hashes_from_file md4 reads b = hash_reads md4 (get_chunk_count (length b)) reads b"

definition open_file :: "io_env \<Rightarrow> path \<Rightarrow> disk \<Rightarrow> (ed2k_client_error, bytes) result" where
  "open_file io p d = (case d p of None \<Rightarrow> Err EcIo
     | Some b \<Rightarrow> if io_fails io (IoOpen p) \<or> io_fails io (IoStat p) \<or> io_fails io (IoRead p) then Err EcIo else Ok b)"

definition compute_chunk_hashes :: "(bytes \<Rightarrow> bytes) \<Rightarrow> io_env \<Rightarrow> nat list \<Rightarrow> path \<Rightarrow> disk \<Rightarrow> (ed2k_client_error, string list) result" where
  "compute_chunk_hashes md4 io reads p d = rbind (open_file io p d) (\<lambda>b. Ok (compute_chunk_hashes_from_file md4 reads b))"

definition concat_hashes :: "string list \<Rightarrow> (ed2k_client_error, bytes) result" where
  "concat_hashes hs = (if list_all (\<lambda>h. hex_decode h \<noteq> None) hs then Ok (concat (map (\<lambda>h. the (hex_decode h)) hs)) else Err EcHex)"

definition compute_file_hash :: "(bytes \<Rightarrow> bytes) \<Rightarrow> io_env \<Rightarrow> nat list \<Rightarrow> path \<Rightarrow> disk \<Rightarrow> (ed2k_client_error, string) result" where
  "compute_file_hash md4 io reads p d = rbind (open_file io p d) (\<lambda>b.
     if length b \<le> ED2K_CHUNK_SIZE then Ok (compute_md4_hash md4 b)
     else rbind (concat_hashes (compute_chunk_hashes_from_file md4 reads b)) (\<lambda>bs. Ok (compute_md4_hash md4 bs)))"

definition validate_file :: "(bytes \<Rightarrow> bytes) \<Rightarrow> io_env \<Rightarrow> nat list \<Rightarrow> path \<Rightarrow> disk \<Rightarrow> string \<Rightarrow> (ed2k_client_error, bool) result" where
  "validate_file md4 io reads p d expected = rbind (compute_file_hash md4 io reads p d) (\<lambda>h. Ok (eq_ignore_ascii_case h expected))"

definition validate_ed2k_chunk :: "(bytes \<Rightarrow> bytes) \<Rightarrow> bytes \<Rightarrow> string \<Rightarrow> bool" where
  "validate_ed2k_chunk md4 b expected = verify_md4_hash md4 b expected"

definition get_chunk_size :: "usize \<Rightarrow> u64 \<Rightarrow> usize" where
  "get_chunk_size i n =
     (if get_chunk_count n \<le> i then 0
      else if i = get_chunk_count n - 1 then (if n mod ED2K_CHUNK_SIZE = 0 then ED2K_CHUNK_SIZE else n mod ED2K_CHUNK_SIZE)
      else ED2K_CHUNK_SIZE)"

definition create_file_info :: "(bytes \<Rightarrow> bytes) \<Rightarrow> io_env \<Rightarrow> nat list \<Rightarrow> nat list \<Rightarrow> path \<Rightarrow> disk \<Rightarrow> (ed2k_client_error, ed2k_file_info) result" where
  "create_file_info md4 io reads reads' p d = (case fs_len io p d of Inl _ \<Rightarrow> Err EcIo
     | Inr n \<Rightarrow> rbind (compute_file_hash md4 io reads p d) (\<lambda>h.
         rbind (if ED2K_CHUNK_SIZE < n then compute_chunk_hashes md4 io reads' p d else Ok []) (\<lambda>hs.
           Ok \<lparr>ef_file_hash = h, ef_file_size = n, ef_file_name = file_name p, ef_sources = [], ef_chunk_hashes = hs\<rparr>)))"

text \<open>
  The download of a chunk: the request, then reads of at most 8192 bytes until the chunk is full or the stream is closed; what
  the last read returned beyond the chunk is lost. \<open>reads\<close> gives how much each read returns.
\<close>

definition hash_of_16 :: "string \<Rightarrow> string \<Rightarrow> (ed2k_client_error, bytes) result" where
  "hash_of_16 message h = (case hex_decode h of None \<Rightarrow> Err EcHex
     | Some b \<Rightarrow> if length b \<noteq> 16 then Err (EcProtocol message) else Ok b)"

definition ed2k_chunk_request :: "bytes \<Rightarrow> u32 \<Rightarrow> bytes" where
  "ed2k_chunk_request hash i = [CHR 0x58] @ hash @ le_bytes 4 i"

function ed2k_read_chunk :: "nat list \<Rightarrow> bytes \<Rightarrow> bytes tcp_act" where
  "ed2k_read_chunk reads got s =
     (if ED2K_CHUNK_SIZE \<le> length got then (Ok got, s)
      else if ts_in s = [] then (case ts_end s of EndClosed \<Rightarrow> (Ok got, s) | EndError \<Rightarrow> (Err EcIo, s) | EndSilent \<Rightarrow> (Err EcTimeout, s))
      else let n = min (min (case reads of [] \<Rightarrow> 8192 | r # _ \<Rightarrow> max 1 r) 8192) (length (ts_in s));
               k = min n (ED2K_CHUNK_SIZE - length got)
           in ed2k_read_chunk (tl reads) (got @ take k (ts_in s)) (s\<lparr>ts_in := drop n (ts_in s)\<rparr>))"
  by pat_completeness auto
termination
  by (relation "measure (\<lambda>(reads, got, s). length (ts_in s))") (auto simp: min_def split: list.splits)

declare ed2k_read_chunk.simps [simp del]

definition ed2k_download_chunk :: "(bytes \<Rightarrow> bytes) \<Rightarrow> nat list \<Rightarrow> string \<Rightarrow> u32 \<Rightarrow> string \<Rightarrow> bytes ed2k_act" where
  "ed2k_download_chunk md4 reads fh i expected =
     on_connection ''Not connected to server''
       (and_then (of_result (hash_of_16 ''File hash must be 16 bytes (MD4)'' fh)) (\<lambda>hash.
          and_do (tcp_write (ed2k_chunk_request hash i)) (and_then (ed2k_read_chunk reads []) (\<lambda>b.
            if verify_md4_hash md4 b expected then ret b else fail EcHashMismatch))))"

section \<open>Offering files and finding sources\<close>

definition offer_entry :: "u32 option \<Rightarrow> ed2k_file_info \<Rightarrow> bytes \<Rightarrow> bytes" where
  "offer_entry cid f hash = hash @ le_bytes 4 (case cid of None \<Rightarrow> 0 | Some i \<Rightarrow> i) @ le_bytes 2 ED2K_DEFAULT_PORT @ le_bytes 4 2
     @ (case ef_file_name f of None \<Rightarrow> [] | Some n \<Rightarrow> write_string_tag 0x01 n) @ write_int_tag 0x02 (ef_file_size f mod 2 ^ 32)"

text \<open>The loop fills the packet and the table of shared files as it goes; a bad hash ends it at once.\<close>

fun offer_each :: "ed2k_file_info list \<Rightarrow> bytes \<Rightarrow> ed2k_client \<Rightarrow> (ed2k_client_error, bytes) result \<times> ed2k_client" where
  "offer_each [] packet c = (Ok packet, c)"
| "offer_each (f # fs) packet c = (case hex_decode (ef_file_hash f) of
     None \<Rightarrow> (Err (EcProtocol ''Invalid hash''), c)
   | Some hash \<Rightarrow> if length hash \<noteq> 16 then (Err (EcProtocol ''Hash must be 16 bytes''), c)
       else offer_each fs (packet @ offer_entry (ec_client_id c) f hash)
              (c\<lparr>ec_shared_files := (ec_shared_files c)(ef_file_hash f \<mapsto> f)\<rparr>))"

definition offer_files :: "ed2k_file_info list \<Rightarrow> unit ed2k_act" where
  "offer_files fs c = (case ec_connection c of
     None \<Rightarrow> (Err (EcConnection ''Not connected to server''), c)
   | Some _ \<Rightarrow> and_then (offer_each fs (char_of OP_OFFERFILES # le_bytes 4 (length fs mod 2 ^ 32)))
       (\<lambda>packet. on_connection ''Not connected to server'' (tcp_write packet)) c)"

text \<open>\<open>ks\<close> is the iteration order of the shared files that remain.\<close>

definition remove_shared_file :: "string list \<Rightarrow> string \<Rightarrow> unit ed2k_act" where
  "remove_shared_file ks fh c =
     (let c' = c\<lparr>ec_shared_files := hm_remove (ec_shared_files c) fh\<rparr>
      in if ec_connection c' \<noteq> None \<and> dom (ec_shared_files c') \<noteq> {} then offer_files (hm_values (ec_shared_files c') ks) c'
         else (Ok (), c'))"

definition get_shared_files :: "string list \<Rightarrow> ed2k_client \<Rightarrow> ed2k_file_info list" where
  "get_shared_files ks c = hm_values (ec_shared_files c) ks"

definition show_source :: "bytes \<Rightarrow> string" where
  "show_source b = show_nat (of_char (b ! 0)) @ ''.'' @ show_nat (of_char (b ! 1)) @ ''.'' @ show_nat (of_char (b ! 2)) @ ''.''
     @ show_nat (of_char (b ! 3)) @ '':'' @ show_nat (le_value (take 2 (drop 4 b)))"

fun parse_sources :: "nat \<Rightarrow> bytes \<Rightarrow> string list" where
  "parse_sources 0 b = []"
| "parse_sources (Suc k) b = (if length b < 6 then [] else show_source (take 6 b) # parse_sources k (drop 6 b))"

definition parse_found_sources :: "bytes \<Rightarrow> bytes \<Rightarrow> (ed2k_client_error, string list) result" where
  "parse_found_sources hash payload =
     (if length payload < 17 then Err (EcProtocol ''Invalid FOUNDSOURCES payload'')
      else if take 16 payload \<noteq> hash then Err (EcProtocol ''File hash mismatch in response'')
      else Ok (parse_sources (of_char (payload ! 16)) (drop 17 payload)))"

definition get_sources :: "string \<Rightarrow> (string list) ed2k_act" where
  "get_sources fh = on_connection ''Not connected to server''
     (and_then (of_result (hash_of_16 ''Hash must be 16 bytes (MD4)'' fh)) (\<lambda>hash.
        and_do (send_packet OP_GETSOURCES hash) (and_then receive_packet (\<lambda>(opcode, payload).
          if opcode \<noteq> OP_FOUNDSOURCES then fail (EcProtocol ''Expected OP_FOUNDSOURCES'')
          else of_result (parse_found_sources hash payload)))))"

definition ed2k_get_file_info :: "string \<Rightarrow> ed2k_file_info ed2k_act" where
  "ed2k_get_file_info fh c = (case ec_shared_files c fh of
     Some info \<Rightarrow> (Ok info, c)
   | None \<Rightarrow> and_then (get_sources fh) (\<lambda>sources.
       ret \<lparr>ef_file_hash = fh, ef_file_size = 0, ef_file_name = None, ef_sources = sources, ef_chunk_hashes = []\<rparr>) c)"

definition get_server_info :: "ed2k_server_info ed2k_act" where
  "get_server_info = ret \<lparr>ev_name = ''ED2K Server'', ev_description = Some ''Connected ED2K server'', ev_users = 0, ev_files = 0\<rparr>"

definition ed2k_search :: "string \<Rightarrow> (ed2k_search_result list) ed2k_act" where
  "ed2k_search q = ret []"

section \<open>Blocks from peers\<close>

definition request_block_from_peer :: "string \<Rightarrow> u64 \<Rightarrow> u64 \<Rightarrow> unit tcp_act" where
  "request_block_from_peer fh start_off end_off =
     and_then (of_result (hash_of_16 ''File hash must be 16 bytes'' fh)) (\<lambda>hash.
       send_packet OP_REQUESTPARTS (request_to_bytes \<lparr>bq_file_hash = hash, bq_start_offset = start_off, bq_end_offset = end_off\<rparr>))"

definition download_block_from_peer :: "string \<Rightarrow> u64 \<Rightarrow> usize \<Rightarrow> bytes tcp_act" where
  "download_block_from_peer fh start_off block_size =
     and_do (request_block_from_peer fh start_off (wadd64 start_off block_size)) (and_then receive_packet (\<lambda>(opcode, payload).
       if opcode \<noteq> OP_SENDINGPART then fail (EcProtocol ''Expected OP_SENDINGPART'')
       else if length payload < 32 then fail (EcProtocol ''Invalid SENDINGPART payload'')
       else ret (drop 32 payload)))"

section \<open>The peer server\<close>

definition MAX_PART_SIZE :: u64 where "MAX_PART_SIZE = 10 * 1024 * 1024"
definition MAX_CONCURRENT_CONNECTIONS :: usize where "MAX_CONCURRENT_CONNECTIONS = 100"
definition MAX_REQUESTS_PER_IP_PER_MINUTE :: u32 where "MAX_REQUESTS_PER_IP_PER_MINUTE = 60"
definition BANDWIDTH_LIMIT_BYTES_PER_SEC :: u64 where "BANDWIDTH_LIMIT_BYTES_PER_SEC = 1048576"

record upload_stats =
  us_total_bytes_uploaded :: u64
  us_active_connections :: usize
  us_rejected_connections :: u64
  us_requests_served :: u64

record rate_limit_entry =
  rl_request_count :: u32
  rl_window_start :: u64

text \<open>The addresses are of any type; \<open>pv_open\<close> counts the connection tasks that have not ended.\<close>

record 'ip peer_server =
  pv_port :: nat
  pv_shared_files :: "string \<rightharpoonup> path"
  pv_listening :: bool
  pv_active_connections :: usize
  pv_stats :: upload_stats
  pv_rate_limits :: "'ip \<rightharpoonup> rate_limit_entry"
  pv_open :: nat

definition new_peer_server :: "nat \<Rightarrow> 'ip peer_server" where
  "new_peer_server port = \<lparr>pv_port = port, pv_shared_files = Map.empty, pv_listening = False, pv_active_connections = 0,
     pv_stats = \<lparr>us_total_bytes_uploaded = 0, us_active_connections = 0, us_rejected_connections = 0, us_requests_served = 0\<rparr>,
     pv_rate_limits = Map.empty, pv_open = 0\<rparr>"

definition get_upload_stats :: "'ip peer_server \<Rightarrow> upload_stats" where
  "get_upload_stats v = (pv_stats v)\<lparr>us_active_connections := pv_active_connections v\<rparr>"

definition share_file :: "string \<Rightarrow> path \<Rightarrow> 'ip peer_server \<Rightarrow> 'ip peer_server" where
  "share_file fh p v = v\<lparr>pv_shared_files := (pv_shared_files v)(fh \<mapsto> p)\<rparr>"

definition unshare_file :: "string \<Rightarrow> 'ip peer_server \<Rightarrow> 'ip peer_server" where
  "unshare_file fh v = v\<lparr>pv_shared_files := hm_remove (pv_shared_files v) fh\<rparr>"

definition check_rate_limit :: "u64 \<Rightarrow> 'ip \<Rightarrow> ('ip \<rightharpoonup> rate_limit_entry) \<Rightarrow> bool \<times> ('ip \<rightharpoonup> rate_limit_entry)" where
  "check_rate_limit now ip limits =
     (let window = now div 60;
          old = (case limits ip of None \<Rightarrow> \<lparr>rl_request_count = 0, rl_window_start = window\<rparr> | Some e \<Rightarrow> e);
          entry = (if rl_window_start old \<noteq> window then \<lparr>rl_request_count = 0, rl_window_start = window\<rparr> else old)
      in if MAX_REQUESTS_PER_IP_PER_MINUTE \<le> rl_request_count entry then (True, limits(ip \<mapsto> entry))
         else let limits' = limits(ip \<mapsto> entry\<lparr>rl_request_count := wadd32 (rl_request_count entry) 1\<rparr>)
              in (False, if 1000 < card (dom limits') then hm_retain (\<lambda>e. rl_window_start e = window) limits' else limits'))"

text \<open>How long the throttle sleeps, if it does.\<close>

definition throttle_sleep :: "usize \<Rightarrow> f64 \<Rightarrow> f64 option" where
  "throttle_sleep sent elapsed =
     (let rate = f64_div (f64_of_u64 sent) (f64_max elapsed (f64_of_rat (1 / 1000))); limit = f64_of_u64 BANDWIDTH_LIMIT_BYTES_PER_SEC
      in if f64_lt limit rate
         then let pause = f64_sub (f64_div (f64_of_u64 sent) limit) elapsed in if f64_lt (F_Fin 0) pause then Some pause else None
         else None)"

definition read_file_chunk :: "io_env \<Rightarrow> disk \<Rightarrow> path \<Rightarrow> u64 \<Rightarrow> u64 \<Rightarrow> (ed2k_client_error, bytes) result" where
  "read_file_chunk io d p start_off end_off = rbind (open_file io p d) (\<lambda>b.
     if length b \<le> start_off \<or> length b < end_off then Err (EcProtocol ''Requested offset exceeds file size'')
     else if MAX_PART_SIZE < end_off - start_off then Err (EcProtocol ''Chunk size exceeds maximum'')
     else case read_exact start_off (end_off - start_off) b of None \<Rightarrow> Err EcIo | Some part \<Rightarrow> Ok part)"

text \<open>
  The answer to a request, if there is one: the payload, and what it adds to the statistics. The check that the hash has the
  format of a hash comes right after it was encoded and always passes.
\<close>

definition part_answer :: "io_env \<Rightarrow> disk \<Rightarrow> (string \<rightharpoonup> path) \<Rightarrow> bytes \<Rightarrow> (ed2k_client_error, (bytes \<times> nat) option) result" where
  "part_answer io d files payload =
     (if length payload < 32 then Err (EcProtocol ''Invalid REQUESTPARTS payload'')
      else let start_off = le_value (take 8 (drop 16 payload)); end_off = le_value (take 8 (drop 24 payload))
           in if end_off \<le> start_off then Ok None
              else if MAX_PART_SIZE < end_off - start_off then Ok None
              else case files (hex_encode (take 16 payload)) of
                     None \<Rightarrow> Ok None
                   | Some p \<Rightarrow> rbind (read_file_chunk io d p start_off end_off) (\<lambda>part.
                       Ok (Some (take 16 payload @ le_bytes 8 start_off @ le_bytes 8 end_off @ part, length part))))"

definition count_served :: "nat \<Rightarrow> upload_stats \<Rightarrow> upload_stats" where
  "count_served n st = st\<lparr>us_total_bytes_uploaded := wadd64 (us_total_bytes_uploaded st) n, us_requests_served := wadd64 (us_requests_served st) 1\<rparr>"

definition handle_request_parts :: "io_env \<Rightarrow> disk \<Rightarrow> (string \<rightharpoonup> path) \<Rightarrow> bytes \<Rightarrow> upload_stats \<Rightarrow>
    tcp_stream \<Rightarrow> (ed2k_client_error, unit) result \<times> upload_stats \<times> tcp_stream" where
  "handle_request_parts io d files payload st s = (case part_answer io d files payload of
     Inl e \<Rightarrow> (Err e, st, s)
   | Inr None \<Rightarrow> (Ok (), st, s)
   | Inr (Some (answer, n)) \<Rightarrow> (case send_packet OP_SENDINGPART answer s of
       (Inl e, s') \<Rightarrow> (Err e, st, s')
     | (Inr _, s') \<Rightarrow> (Ok (), count_served n st, s')))"

text \<open>A connection is served for at most \<open>turns\<close> packets before its overall timeout.\<close>

fun handle_peer_connection :: "nat \<Rightarrow> io_env \<Rightarrow> disk \<Rightarrow> (string \<rightharpoonup> path) \<Rightarrow> upload_stats \<Rightarrow> tcp_stream \<Rightarrow>
    (ed2k_client_error, unit) result \<times> upload_stats \<times> tcp_stream" where
  "handle_peer_connection 0 io d files st s = (Ok (), st, s)"
| "handle_peer_connection (Suc turns) io d files st s = (case receive_packet s of
     (Inl _, s') \<Rightarrow> (Ok (), st, s')
   | (Inr (opcode, payload), s') \<Rightarrow>
       if opcode = OP_REQUESTPARTS
       then (case handle_request_parts io d files payload st s' of
               (Inl e, st', s'') \<Rightarrow> (Err e, st', s'')
             | (Inr _, st', s'') \<Rightarrow> handle_peer_connection turns io d files st' s'')
       else handle_peer_connection turns io d files st s')"

text \<open>
  Events of the server: it is started (or the port is taken), a connection arrives at a time, a connection task has answered a request
  with a number of bytes, a connection task ends, the server is stopped.
\<close>

datatype 'ip server_event = Starts bool | Arrives 'ip u64 | Serves nat | Ends | Stops

definition count_rejected :: "'ip peer_server \<Rightarrow> 'ip peer_server" where
  "count_rejected v = v\<lparr>pv_stats := (pv_stats v)\<lparr>us_rejected_connections := wadd64 (us_rejected_connections (pv_stats v)) 1\<rparr>\<rparr>"

definition accept_connection :: "'ip \<Rightarrow> u64 \<Rightarrow> 'ip peer_server \<Rightarrow> bool \<times> 'ip peer_server" where
  "accept_connection ip now v = (case check_rate_limit now ip (pv_rate_limits v) of (limited, limits) \<Rightarrow>
     let v' = v\<lparr>pv_rate_limits := limits\<rparr>
     in if limited then (False, count_rejected v')
        else if MAX_CONCURRENT_CONNECTIONS \<le> pv_active_connections v' then (False, count_rejected v')
        else (True, v'\<lparr>pv_active_connections := wadd64 (pv_active_connections v') 1, pv_open := Suc (pv_open v')\<rparr>))"

definition connection_ends :: "'ip peer_server \<Rightarrow> 'ip peer_server" where
  "connection_ends v = v\<lparr>pv_active_connections := sat_sub (pv_active_connections v) 1, pv_open := pv_open v - 1\<rparr>"

definition start_server :: "bool \<Rightarrow> 'ip peer_server \<Rightarrow> (ed2k_client_error, unit) result \<times> 'ip peer_server" where
  "start_server bind_ok v = (if bind_ok then (Ok (), v\<lparr>pv_listening := True\<rparr>)
     else (Err (EcConnection ''Failed to bind''), v))"

definition stop_server :: "'ip peer_server \<Rightarrow> 'ip peer_server" where
  "stop_server v = v\<lparr>pv_listening := False\<rparr>"

fun server_step :: "'ip peer_server \<Rightarrow> 'ip server_event \<Rightarrow> 'ip peer_server" where
  "server_step v (Starts bind_ok) = snd (start_server bind_ok v)"
| "server_step v (Arrives ip now) = (if pv_listening v then snd (accept_connection ip now v) else v)"
| "server_step v (Serves n) = (if 0 < pv_open v then v\<lparr>pv_stats := count_served n (pv_stats v)\<rparr> else v)"
| "server_step v Ends = (if 0 < pv_open v then connection_ends v else v)"
| "server_step v Stops = stop_server v"

section \<open>Packets survive the wire\<close>

lemma length_le_bytes [simp]: "length (le_bytes k n) = k"
  by (simp add: le_bytes_def)

lemma le_value_bytes: "le_value (le_bytes k n) = n mod 256 ^ k"
  by (simp add: le_bytes_def le_value_def be_value_bytes)

lemma of_char_byte: "n < 256 \<Longrightarrow> (of_char (char_of n :: char) :: nat) = n"
  by (simp add: of_char_of)

definition packet_bytes :: "nat \<Rightarrow> bytes \<Rightarrow> bytes" where
  "packet_bytes opcode payload = header_to_bytes (new_packet_header opcode (length payload mod 2 ^ 32)) @ payload"

lemma length_header [simp]: "length (header_to_bytes h) = HEADER_SIZE"
  by (simp add: header_to_bytes_def HEADER_SIZE_def)

lemma header_round_trip:
  assumes "opcode < 256" "hd_size h < 2 ^ 32" "hd_protocol h = ED2K_PROTOCOL" "hd_opcode h = opcode"
  shows "header_from_bytes (header_to_bytes h) = Inr h"
proof -
  have nth5: "header_to_bytes h ! 5 = char_of (hd_opcode h)" by (simp add: header_to_bytes_def nth_append)
  have "take 4 (drop 1 (header_to_bytes h)) = le_bytes 4 (hd_size h)" by (simp add: header_to_bytes_def)
  moreover have "header_to_bytes h ! 0 = char_of (hd_protocol h)" by (simp add: header_to_bytes_def)
  ultimately show ?thesis using assms nth5
    by (simp add: header_from_bytes_def le_value_bytes of_char_byte ED2K_PROTOCOL_def)
qed

lemma send_packet_ok:
  "\<not> ts_broken s \<Longrightarrow> send_packet opcode payload s = (Inr (), s\<lparr>ts_out := ts_out s @ packet_bytes opcode payload\<rparr>)"
  by (simp add: send_packet_def and_then_def tcp_write_def packet_bytes_def)

lemma receive_packet_header:
  assumes "ts_in s = header_to_bytes h @ payload @ rest" "hd_size h = Suc (length payload)" "hd_size h < 2 ^ 32"
    and "hd_protocol h = ED2K_PROTOCOL" "hd_opcode h < 256"
  shows "receive_packet s = (Inr (hd_opcode h, payload), s\<lparr>ts_in := rest\<rparr>)"
proof -
  have h: "header_from_bytes (header_to_bytes h) = Inr h" using assms(3-5) by (intro header_round_trip) simp_all
  have "tcp_read_exact HEADER_SIZE s = (Inr (header_to_bytes h), s\<lparr>ts_in := payload @ rest\<rparr>)"
    using assms(1) by (simp add: tcp_read_exact_def)
  moreover have "tcp_read_exact (length payload) (s\<lparr>ts_in := payload @ rest\<rparr>) = (Inr payload, s\<lparr>ts_in := rest\<rparr>)"
    by (simp add: tcp_read_exact_def)
  ultimately show ?thesis by (simp add: receive_packet_def and_then_def h assms(2) sat_sub_def Let_def)
qed

lemma receive_packet_ok:
  assumes "opcode < 256" "length payload < 2 ^ 32 - 1" "ts_in s = packet_bytes opcode payload @ rest"
  shows "receive_packet s = (Inr (opcode, payload), s\<lparr>ts_in := rest\<rparr>)"
proof -
  let ?h = "new_packet_header opcode (length payload mod 2 ^ 32)"
  have "hd_size ?h = Suc (length payload)" using assms(2) by (simp add: new_packet_header_def wadd32_def)
  moreover have "hd_opcode ?h = opcode" "hd_protocol ?h = ED2K_PROTOCOL" by (simp_all add: new_packet_header_def)
  ultimately show ?thesis using receive_packet_header [of s ?h payload rest] assms unfolding packet_bytes_def by simp
qed

text \<open>
  A packet arrives as it was sent. What \<open>send_packet\<close> writes, \<open>receive_packet\<close> reads back: the operation code and the payload,
  whatever bytes it has, up to its largest length of 2 to the 32 minus 2; and what follows on the stream is untouched.
\<close>

theorem packet_round_trip:
  assumes "opcode < 256" "length payload < 2 ^ 32 - 1" "send_packet opcode payload s = (Inr (), s')" "ts_out s = []"
  shows "receive_packet (t\<lparr>ts_in := ts_out s' @ rest\<rparr>) = (Inr (opcode, payload), t\<lparr>ts_in := rest\<rparr>)"
proof -
  have "\<not> ts_broken s" using assms(3) by (auto simp: send_packet_def and_then_def tcp_write_def)
  with assms(3,4) have "ts_out s' = packet_bytes opcode payload" by (auto simp: send_packet_ok)
  then show ?thesis using receive_packet_ok [OF assms(1,2), of "t\<lparr>ts_in := ts_out s' @ rest\<rparr>" rest] by simp
qed

definition fresh_stream :: tcp_stream where
  "fresh_stream = \<lparr>ts_in = [], ts_end = EndClosed, ts_broken = False, ts_out = []\<rparr>"

theorem packet_round_trip_witness:
  "receive_packet (fresh_stream\<lparr>ts_in := ts_out (snd (send_packet 70 ''abc'' fresh_stream)) @ ''x''\<rparr>) = (Inr (70, ''abc''), fresh_stream\<lparr>ts_in := ''x''\<rparr>)"
proof (rule packet_round_trip)
  show "send_packet 70 ''abc'' fresh_stream = (Inr (), snd (send_packet 70 ''abc'' fresh_stream))"
    by (simp add: send_packet_ok fresh_stream_def)
qed (simp_all add: fresh_stream_def)

lemma request_round_trip:
  assumes "length (bq_file_hash r) = 16" "bq_start_offset r < 2 ^ 64" "bq_end_offset r < 2 ^ 64"
  shows "request_from_bytes (request_to_bytes r) = Inr r"
proof -
  have "take 8 (drop 16 (request_to_bytes r)) = le_bytes 8 (bq_start_offset r)" "take 8 (drop 24 (request_to_bytes r)) = le_bytes 8 (bq_end_offset r)"
    "take 16 (request_to_bytes r) = bq_file_hash r" using assms(1) by (simp_all add: request_to_bytes_def)
  with assms show ?thesis by (simp add: request_from_bytes_def le_value_bytes) (simp add: request_to_bytes_def)
qed

section \<open>Blocks from the own server\<close>

lemma length_request: "length (bq_file_hash r) = 16 \<Longrightarrow> length (request_to_bytes r) = 32"
  by (simp add: request_to_bytes_def)

lemma hash_of_16_encoded: "length hash = 16 \<Longrightarrow> hash_of_16 m (hex_encode hash) = Inr hash"
  by (simp add: hash_of_16_def)

lemma part_answer_ok:
  assumes "length hash = 16" "files (hex_encode hash) = Some p" "d p = Some content"
    and "\<not> io_fails io (IoOpen p)" "\<not> io_fails io (IoStat p)" "\<not> io_fails io (IoRead p)"
    and "0 < n" "n \<le> MAX_PART_SIZE" "a + n \<le> length content" "length content < 2 ^ 64"
  shows "part_answer io d files (request_to_bytes \<lparr>bq_file_hash = hash, bq_start_offset = a, bq_end_offset = a + n\<rparr>)
    = Inr (Some (hash @ le_bytes 8 a @ le_bytes 8 (a + n) @ take n (drop a content), n))"
proof -
  let ?b = "request_to_bytes \<lparr>bq_file_hash = hash, bq_start_offset = a, bq_end_offset = a + n\<rparr>"
  have parts: "take 16 ?b = hash" "take 8 (drop 16 ?b) = le_bytes 8 a" "take 8 (drop 24 ?b) = le_bytes 8 (a + n)"
    using assms(1) by (simp_all add: request_to_bytes_def)
  have "a < 2 ^ 64" "a + n < 2 ^ 64" using assms(9,10) by simp_all
  then have "le_value (take 8 (drop 16 ?b)) = a" "le_value (take 8 (drop 24 ?b)) = a + n" unfolding parts by (simp_all add: le_value_bytes)
  with assms parts length_request [of "\<lparr>bq_file_hash = hash, bq_start_offset = a, bq_end_offset = a + n\<rparr>"] show ?thesis
    by (simp add: part_answer_def read_file_chunk_def open_file_def read_exact_def)
qed

text \<open>The answer of a peer is taken as the block whatever hash and offsets it names.\<close>

lemma block_from_answer:
  assumes "length hash = 16" "\<not> ts_broken c" "ts_in c = packet_bytes OP_SENDINGPART payload @ rest"
    and "32 \<le> length payload" "length payload < 2 ^ 32 - 1"
  shows "fst (download_block_from_peer (hex_encode hash) a n c) = Inr (drop 32 payload)"
proof -
  let ?r = "request_to_bytes \<lparr>bq_file_hash = hash, bq_start_offset = a, bq_end_offset = wadd64 a n\<rparr>"
  have "receive_packet (c\<lparr>ts_out := ts_out c @ packet_bytes OP_REQUESTPARTS ?r\<rparr>)
      = (Inr (OP_SENDINGPART, payload), c\<lparr>ts_out := ts_out c @ packet_bytes OP_REQUESTPARTS ?r, ts_in := rest\<rparr>)"
    using assms by (intro receive_packet_ok) (simp_all add: OP_SENDINGPART_def)
  then show ?thesis using assms
    by (simp add: download_block_from_peer_def request_block_from_peer_def and_then_def hash_of_16_encoded send_packet_ok)
qed

lemma request_block_ok:
  "length hash = 16 \<Longrightarrow> \<not> ts_broken c \<Longrightarrow> request_block_from_peer (hex_encode hash) a b c
    = (Inr (), c\<lparr>ts_out := ts_out c @ packet_bytes OP_REQUESTPARTS (request_to_bytes \<lparr>bq_file_hash = hash, bq_start_offset = a, bq_end_offset = b\<rparr>)\<rparr>)"
  by (simp add: request_block_from_peer_def and_then_def hash_of_16_encoded send_packet_ok)

lemma handle_no_input: "ts_in s = [] \<Longrightarrow> handle_peer_connection k io d files st s = (Inr (), st, s)"
  by (cases k) (auto simp: receive_packet_def and_then_def tcp_read_exact_def HEADER_SIZE_def)

lemma handle_one_request:
  assumes "part_answer io d files payload = Inr (Some (answer, n))" "length payload < 2 ^ 32 - 1"
    and "ts_in s = packet_bytes OP_REQUESTPARTS payload @ rest" "\<not> ts_broken s"
  shows "handle_peer_connection (Suc k) io d files st s =
    handle_peer_connection k io d files (count_served n st) (s\<lparr>ts_in := rest, ts_out := ts_out s @ packet_bytes OP_SENDINGPART answer\<rparr>)"
proof -
  have "receive_packet s = (Inr (OP_REQUESTPARTS, payload), s\<lparr>ts_in := rest\<rparr>)"
    using assms by (intro receive_packet_ok) (simp_all add: OP_REQUESTPARTS_def)
  with assms show ?thesis by (simp add: handle_request_parts_def send_packet_ok)
qed

text \<open>
  C26: A block fetched from the program's own server is that block of the shared file. If the server shares the file under the hash,
  the file can be read, and the block is not empty, at most 10 MiB and inside the file, then after the client's request has reached
  the server and the server's output has come back, the client returns exactly those bytes, and the server has counted them.
\<close>

theorem block_served_exactly:
  assumes "length hash = 16" "files (hex_encode hash) = Some p" "d p = Some content"
    and "\<not> io_fails io (IoOpen p)" "\<not> io_fails io (IoStat p)" "\<not> io_fails io (IoRead p)"
    and "0 < n" "n \<le> MAX_PART_SIZE" "a + n \<le> length content" "length content < 2 ^ 64"
    and "\<not> ts_broken c" "ts_out c = []" "\<not> ts_broken s" "ts_out s = []"
    and "handle_peer_connection (Suc k) io d files st
           (s\<lparr>ts_in := ts_out (snd (request_block_from_peer (hex_encode hash) a (wadd64 a n) c))\<rparr>) = (r, st', s')"
  shows "fst (download_block_from_peer (hex_encode hash) a n (c\<lparr>ts_in := ts_out s'\<rparr>)) = Inr (take n (drop a content))
    \<and> us_total_bytes_uploaded st' = wadd64 (us_total_bytes_uploaded st) n"
proof -
  let ?q = "\<lparr>bq_file_hash = hash, bq_start_offset = a, bq_end_offset = a + n\<rparr>"
  let ?answer = "hash @ le_bytes 8 a @ le_bytes 8 (a + n) @ take n (drop a content)"
  have w: "wadd64 a n = a + n" using assms(9,10) by (simp add: wadd64_def)
  have sent: "ts_out (snd (request_block_from_peer (hex_encode hash) a (wadd64 a n) c)) = packet_bytes OP_REQUESTPARTS (request_to_bytes ?q)"
    using assms(1,11,12) by (simp add: request_block_ok w)
  have pa: "part_answer io d files (request_to_bytes ?q) = Inr (Some (?answer, n))" using assms(1-10) by (rule part_answer_ok)
  have "st' = count_served n st"
    and out: "ts_out s' = packet_bytes OP_SENDINGPART ?answer"
    using assms(15) handle_one_request [OF pa, of "s\<lparr>ts_in := packet_bytes OP_REQUESTPARTS (request_to_bytes ?q)\<rparr>" "[]" k st] assms(1,13,14)
    by (simp_all add: sent length_request handle_no_input)
  moreover have "fst (download_block_from_peer (hex_encode hash) a n (c\<lparr>ts_in := ts_out s'\<rparr>)) = Inr (drop 32 ?answer)"
    using assms(1,8,9,11) by (intro block_from_answer [of _ _ _ "[]"]) (simp_all add: out MAX_PART_SIZE_def)
  ultimately show ?thesis using assms(1) by (simp add: count_served_def)
qed

definition shared_disk :: disk where "shared_disk = [[''f''] \<mapsto> ''hello world'']"

definition zero_hash :: bytes where "zero_hash = replicate 16 (CHR 0x00)"

theorem block_served_exactly_witness:
  "fst (download_block_from_peer (hex_encode zero_hash) 6 5 (fresh_stream\<lparr>ts_in := ts_out (snd (snd (handle_peer_connection 1 no_faults shared_disk
     [hex_encode zero_hash \<mapsto> [''f'']] (pv_stats (new_peer_server 0 :: nat peer_server))
     (fresh_stream\<lparr>ts_in := ts_out (snd (request_block_from_peer (hex_encode zero_hash) 6 (wadd64 6 5) fresh_stream))\<rparr>))))\<rparr>)) = Inr ''world''"
proof -
  let ?x = "handle_peer_connection (Suc 0) no_faults shared_disk [hex_encode zero_hash \<mapsto> [''f'']] (pv_stats (new_peer_server 0 :: nat peer_server))
     (fresh_stream\<lparr>ts_in := ts_out (snd (request_block_from_peer (hex_encode zero_hash) 6 (wadd64 6 5) fresh_stream))\<rparr>)"
  have "fst (download_block_from_peer (hex_encode zero_hash) 6 5 (fresh_stream\<lparr>ts_in := ts_out (snd (snd ?x))\<rparr>)) = Inr (take 5 (drop 6 ''hello world''))
     \<and> us_total_bytes_uploaded (fst (snd ?x)) = wadd64 (us_total_bytes_uploaded (pv_stats (new_peer_server 0 :: nat peer_server))) 5"
    by (rule block_served_exactly [where p = "[''f'']" and r = "fst ?x" and s = fresh_stream and io = no_faults and d = shared_disk
          and k = 0 and files = "[hex_encode zero_hash \<mapsto> [''f'']]"])
       (simp_all add: zero_hash_def shared_disk_def no_faults_def fresh_stream_def MAX_PART_SIZE_def)
  then show ?thesis by simp
qed

text \<open>
  The client takes any part for the one it asked for. Whatever hash and offsets the answer carries, its bytes are returned as the
  requested block: neither the hash, nor the offsets, nor the length is compared with the request.
\<close>

theorem foreign_part_accepted:
  assumes "length hash = 16" "\<not> ts_broken c" "length other = 16" "length part < 2 ^ 31"
    and "ts_in c = packet_bytes OP_SENDINGPART (other @ le_bytes 8 x @ le_bytes 8 y @ part)"
  shows "fst (download_block_from_peer (hex_encode hash) a n c) = Inr part"
  using block_from_answer [OF assms(1,2), of _ "[]" a n] assms(3-5) by simp

theorem foreign_part_accepted_witness:
  "fst (download_block_from_peer (hex_encode zero_hash) 0 100
     (fresh_stream\<lparr>ts_in := packet_bytes OP_SENDINGPART (replicate 16 (CHR ''x'') @ le_bytes 8 7 @ le_bytes 8 9 @ ''zz'')\<rparr>)) = Inr ''zz''"
  by (rule foreign_part_accepted [where other = "replicate 16 (CHR ''x'')" and x = 7 and y = 9]) (simp_all add: zero_hash_def fresh_stream_def)

section \<open>Chunks and their hashes\<close>

text \<open>The arithmetic of chunk sizes, for any size \<open>c\<close> of a chunk.\<close>

lemma ceil_div_step:
  fixes m c :: nat
  assumes "0 < c" "c < m"
  shows "(m + c - 1) div c = Suc ((m - c + c - 1) div c)"
proof -
  have "m + c - 1 = (m - c + c - 1) + c" using assms by simp
  then show ?thesis using assms(1) by (simp only: div_add_self2)
qed

lemma ceil_div_one:
  fixes m c :: nat
  assumes "0 < m" "m \<le> c"
  shows "(m + c - 1) div c = 1"
  using assms by (intro div_nat_eqI) simp_all

lemma chunk_size_pos [simp]: "0 < ED2K_CHUNK_SIZE"
  by (simp add: ED2K_CHUNK_SIZE_def)

lemma chunk_count_exact: "n + ED2K_CHUNK_SIZE \<le> 2 ^ 64 - 1 \<Longrightarrow> get_chunk_count n = (n + ED2K_CHUNK_SIZE - 1) div ED2K_CHUNK_SIZE"
  using chunk_size_pos unfolding get_chunk_count_def wadd64_def wsub64_def by (simp add: Suc_le_eq)

lemma split_length: "length (split_into_chunks b) = (length b + ED2K_CHUNK_SIZE - 1) div ED2K_CHUNK_SIZE"
proof (induction b rule: split_into_chunks.induct)
  case (1 b)
  show ?case
  proof (cases "length b \<le> ED2K_CHUNK_SIZE")
    case True
    then have "split_into_chunks b = (if b = [] then [] else [take ED2K_CHUNK_SIZE b])"
      by (simp add: split_into_chunks.simps [of b] split_into_chunks.simps [of "[]"])
    then show ?thesis using True ceil_div_one [of "length b" ED2K_CHUNK_SIZE] by simp
  next
    case False
    then have "b \<noteq> []" by auto
    with 1 False ceil_div_step [OF chunk_size_pos, of "length b"] show ?thesis by (simp add: split_into_chunks.simps [of b])
  qed
qed

lemma split_concat: "concat (split_into_chunks b) = b"
  by (induction b rule: split_into_chunks.induct) (subst split_into_chunks.simps, simp)

lemma split_nth: "i < length (split_into_chunks b) \<Longrightarrow> split_into_chunks b ! i = take ED2K_CHUNK_SIZE (drop (i * ED2K_CHUNK_SIZE) b)"
proof (induction b arbitrary: i rule: split_into_chunks.induct)
  case (1 b)
  then have "b \<noteq> []" by (auto simp: split_into_chunks.simps [of "[]"])
  with 1 show ?case by (cases i) (simp_all add: split_into_chunks.simps [of b] add.commute)
qed

lemma chunk_size_min:
  assumes "n + ED2K_CHUNK_SIZE \<le> 2 ^ 64 - 1" "i < get_chunk_count n"
  shows "get_chunk_size i n = min ED2K_CHUNK_SIZE (n - i * ED2K_CHUNK_SIZE)"
proof -
  define c where "c = ED2K_CHUNK_SIZE"
  have c: "0 < c" by (simp add: c_def)
  have k: "get_chunk_count n = (n + c - 1) div c" using chunk_count_exact [OF assms(1)] by (simp add: c_def)
  have n: "n = n div c * c + n mod c" "n mod c < c" using c by simp_all
  have k': "get_chunk_count n = (if n mod c = 0 then n div c else Suc (n div c))"
  proof (cases "n mod c = 0")
    case True
    then have "n + c - 1 = (c - 1) + n div c * c" using n(1) c by simp
    then have "(n + c - 1) div c = n div c + (c - 1) div c" using c by (simp only: div_mult_self1)
    then show ?thesis using True c by (simp add: k)
  next
    case False
    have "n + c - 1 = (n mod c - 1) + Suc (n div c) * c" using False c n(1) by simp
    then have "(n + c - 1) div c = Suc (n div c) + (n mod c - 1) div c" using c by (simp only: div_mult_self1)
    moreover have "(n mod c - 1) div c = 0" using n(2) by simp
    ultimately show ?thesis using False by (simp add: k)
  qed
  show ?thesis
  proof (cases "i = get_chunk_count n - 1")
    case True
    have "n - i * c = (if n mod c = 0 then c else n mod c)"
    proof (cases "n mod c = 0")
      case True
      with \<open>i = get_chunk_count n - 1\<close> assms(2) k' have "n div c = Suc i" by simp
      then have "n = Suc i * c" using n(1) True by simp
      then show ?thesis using True by simp
    next
      case False
      with \<open>i = get_chunk_count n - 1\<close> k' have "i = n div c" by simp
      then show ?thesis using False by (simp add: minus_div_mult_eq_mod)
    qed
    with True assms(2) n(2) show ?thesis unfolding get_chunk_size_def c_def [symmetric] by (simp add: min_def)
  next
    case False
    with assms(2) k' have "Suc i \<le> n div c" by (auto split: if_splits)
    then have "Suc i * c \<le> n" using n(1) mult_le_mono1 [of "Suc i" "n div c" c] by linarith
    with False assms(2) show ?thesis unfolding get_chunk_size_def c_def [symmetric] by (simp add: min_def)
  qed
qed

text \<open>
  The chunks of a file. The pieces of \<open>split_into_chunks\<close> put together are the data, there are \<open>get_chunk_count\<close> of them, and the
  \<open>i\<close>-th has the length \<open>get_chunk_size\<close> gives for it; so the sizes of the chunks of a file add up to its size. This needs sizes that
  do not overflow when a chunk is added.
\<close>

theorem chunk_layout:
  assumes "length b + ED2K_CHUNK_SIZE \<le> 2 ^ 64 - 1"
  shows "concat (split_into_chunks b) = b \<and>
    map length (split_into_chunks b) = map (\<lambda>i. get_chunk_size i (length b)) [0..<get_chunk_count (length b)] \<and>
    sum_list (map (\<lambda>i. get_chunk_size i (length b)) [0..<get_chunk_count (length b)]) = length b"
proof -
  have len: "length (split_into_chunks b) = get_chunk_count (length b)" using split_length chunk_count_exact [OF assms] by simp
  have sizes: "map length (split_into_chunks b) = map (\<lambda>i. get_chunk_size i (length b)) [0..<get_chunk_count (length b)]"
    by (rule nth_equalityI) (simp_all add: len split_nth chunk_size_min [OF assms])
  have "sum_list (map length (split_into_chunks b)) = length b" using length_concat [of "split_into_chunks b"] by (simp add: split_concat)
  with sizes show ?thesis by (simp add: split_concat)
qed

theorem chunk_layout_witness: "sum_list (map (\<lambda>i. get_chunk_size i (length ''abc'')) [0..<get_chunk_count (length ''abc'')]) = length ''abc''"
  using chunk_layout [of "''abc''"] by (simp add: ED2K_CHUNK_SIZE_def)

lemma hash_reads_full:
  assumes "list_all (\<lambda>r. ED2K_CHUNK_SIZE \<le> r) reads" "length (split_into_chunks b) \<le> k"
  shows "hash_reads md4 k reads b = map (compute_md4_hash md4) (split_into_chunks b)"
  using assms
proof (induction k arbitrary: reads b)
  case 0
  then show ?case by simp
next
  case (Suc k)
  show ?case
  proof (cases "b = []")
    case True
    then show ?thesis by (simp add: split_into_chunks.simps [of "[]"])
  next
    case False
    have "min (case reads of [] \<Rightarrow> ED2K_CHUNK_SIZE | r # _ \<Rightarrow> max 1 r) ED2K_CHUNK_SIZE = ED2K_CHUNK_SIZE"
      using Suc.prems(1) chunk_size_pos by (auto split: list.splits simp: min_def simp del: chunk_size_pos)
    moreover have "list_all (\<lambda>r. ED2K_CHUNK_SIZE \<le> r) (tl reads)" using Suc.prems(1) by (cases reads) simp_all
    ultimately show ?thesis using False Suc.IH [of "tl reads" "drop ED2K_CHUNK_SIZE b"] Suc.prems(2)
      by (simp add: split_into_chunks.simps [of b] Let_def) (auto simp: min_def)
  qed
qed

text \<open>The hash of a file as the protocol defines it.\<close>

definition ed2k_hash :: "(bytes \<Rightarrow> bytes) \<Rightarrow> bytes \<Rightarrow> bytes" where
  "ed2k_hash md4 b = (if length b \<le> ED2K_CHUNK_SIZE then md4 b else md4 (concat (map md4 (split_into_chunks b))))"

lemma concat_hashes_encoded: "concat_hashes (map (compute_md4_hash md4) cs) = Inr (concat (map md4 cs))"
  by (simp add: concat_hashes_def compute_md4_hash_def list_all_iff comp_def)

text \<open>
  The hash of a file is the eDonkey hash. If the file can be read and every read fills its buffer, \<open>compute_file_hash\<close> returns the
  MD4 hash of the data of a file of at most one chunk, and the MD4 hash of the hashes of the chunks of a larger one; the hashes of
  \<open>compute_chunk_hashes\<close> are those of the chunks.
\<close>

theorem file_hash_exact:
  assumes "open_file io p d = Inr b" "length b + ED2K_CHUNK_SIZE \<le> 2 ^ 64 - 1" "list_all (\<lambda>r. ED2K_CHUNK_SIZE \<le> r) reads"
  shows "compute_file_hash md4 io reads p d = Inr (hex_encode (ed2k_hash md4 b)) \<and>
    compute_chunk_hashes md4 io reads p d = Inr (map (compute_md4_hash md4) (split_into_chunks b))"
proof -
  have "compute_chunk_hashes_from_file md4 reads b = map (compute_md4_hash md4) (split_into_chunks b)"
    unfolding compute_chunk_hashes_from_file_def chunk_count_exact [OF assms(2)] using assms(3) by (rule hash_reads_full) (simp add: split_length)
  then show ?thesis using assms(1)
    by (simp add: compute_file_hash_def compute_chunk_hashes_def ed2k_hash_def concat_hashes_encoded) (simp add: compute_md4_hash_def)
qed

theorem file_hash_exact_witness:
  "compute_file_hash (take 16) no_faults [] [''f''] shared_disk = Inr (hex_encode (ed2k_hash (take 16) ''hello world''))"
  using file_hash_exact [of no_faults "[''f'']" shared_disk "''hello world''" "[]" "take 16"]
  by (simp add: open_file_def shared_disk_def no_faults_def ED2K_CHUNK_SIZE_def)

lemma hash_reads_prefix:
  assumes "list_all (\<lambda>r. r \<le> m) reads" "k \<le> length reads" "1 \<le> m"
    and "length b = length b'" "take (k * m) b = take (k * m) b'"
  shows "hash_reads md4 k reads b = hash_reads md4 k reads b'"
  using assms
proof (induction k arbitrary: reads b b')
  case 0
  then show ?case by simp
next
  case (Suc k)
  then obtain r rs where reads: "reads = r # rs" by (cases reads) auto
  let ?n = "min (min (max 1 r) ED2K_CHUNK_SIZE) (length b)"
  have n: "?n \<le> m" using Suc.prems(1,3) reads by (auto simp: min_def)
  have "take ?n (take (Suc k * m) b) = take ?n (take (Suc k * m) b')" using Suc.prems(5) by simp
  then have head: "take ?n b = take ?n b'" using n by (simp add: min_absorb1 trans_le_add1)
  have "take (k * m) (drop ?n (take (Suc k * m) b)) = take (k * m) (drop ?n (take (Suc k * m) b'))" using Suc.prems(5) by simp
  then have "take (k * m) (drop ?n b) = take (k * m) (drop ?n b')" using n by (simp add: drop_take min_absorb1)
  then have "hash_reads md4 k rs (drop ?n b) = hash_reads md4 k rs (drop ?n b')"
    using Suc.prems reads by (intro Suc.IH) simp_all
  with head Suc.prems(4) show ?case by (simp add: reads Let_def) (simp add: min_def ED2K_CHUNK_SIZE_def)
qed

text \<open>
  A file that is read in smaller pieces is hashed only in part. If no read returns more than 2 MiB, as is the default limit of the
  runtime's files, then two files of the same length over one chunk that agree in the first 2 MiB per chunk have the same hash,
  however they differ after that: the loop makes one read per chunk and never comes to the rest.
\<close>

theorem unread_tail_unhashed:
  assumes "open_file io p d = Inr b" "open_file io p d' = Inr b'" "length b = length b'" "ED2K_CHUNK_SIZE < length b"
    and "list_all (\<lambda>r. r \<le> 2097152) reads" "get_chunk_count (length b) \<le> length reads"
    and "take (get_chunk_count (length b) * 2097152) b = take (get_chunk_count (length b) * 2097152) b'"
  shows "compute_file_hash md4 io reads p d = compute_file_hash md4 io reads p d'"
proof -
  have "compute_chunk_hashes_from_file md4 reads b = compute_chunk_hashes_from_file md4 reads b'"
    using assms(3,5-7) hash_reads_prefix [of 2097152 reads "get_chunk_count (length b)" b b' md4] by (simp add: compute_chunk_hashes_from_file_def)
  with assms(1-4) show ?thesis by (simp add: compute_file_hash_def)
qed

definition one_byte_over :: "char \<Rightarrow> bytes" where
  "one_byte_over x = replicate 4194304 (CHR ''a'') @ replicate 5533697 x"

definition one_file :: "bytes \<Rightarrow> disk" where
  "one_file b = [[''f''] \<mapsto> b]"

theorem unread_tail_unhashed_witness:
  "compute_file_hash (take 16) no_faults [2097152, 2097152] [''f''] (one_file (one_byte_over (CHR ''x'')))
    = compute_file_hash (take 16) no_faults [2097152, 2097152] [''f''] (one_file (one_byte_over (CHR ''y'')))"
proof (rule unread_tail_unhashed)
  have len: "length (one_byte_over x) = 9728001" for x by (simp add: one_byte_over_def)
  have chunks: "get_chunk_count 9728001 = 2" by (simp add: get_chunk_count_def wadd64_def wsub64_def ED2K_CHUNK_SIZE_def)
  have opened: "open_file no_faults [''f''] (one_file b) = Inr b" for b by (simp add: open_file_def one_file_def no_faults_def)
  show "open_file no_faults [''f''] (one_file (one_byte_over (CHR ''x''))) = Inr (one_byte_over (CHR ''x''))"
    "open_file no_faults [''f''] (one_file (one_byte_over (CHR ''y''))) = Inr (one_byte_over (CHR ''y''))" by (rule opened)+
  show "length (one_byte_over (CHR ''x'')) = length (one_byte_over (CHR ''y''))" by (simp add: len)
  show "ED2K_CHUNK_SIZE < length (one_byte_over (CHR ''x''))" by (simp add: len ED2K_CHUNK_SIZE_def)
  show "get_chunk_count (length (one_byte_over (CHR ''x''))) \<le> length [2097152 :: nat, 2097152]" by (simp add: len chunks)
  show "take (get_chunk_count (length (one_byte_over (CHR ''x''))) * 2097152) (one_byte_over (CHR ''x''))
      = take (get_chunk_count (length (one_byte_over (CHR ''x''))) * 2097152) (one_byte_over (CHR ''y''))"
    by (simp only: len chunks) (simp add: one_byte_over_def)
qed simp

section \<open>Limits of the server\<close>

lemma accept_open:
  assumes "accept_connection ip now v = (ok, v')"
  shows "pv_open v' = pv_open v + of_bool ok \<and> pv_active_connections v' = (if ok then wadd64 (pv_active_connections v) 1 else pv_active_connections v)
    \<and> (ok \<longrightarrow> pv_active_connections v < MAX_CONCURRENT_CONNECTIONS) \<and> pv_listening v' = pv_listening v
    \<and> pv_rate_limits v' = snd (check_rate_limit now ip (pv_rate_limits v)) \<and> (ok \<longrightarrow> \<not> fst (check_rate_limit now ip (pv_rate_limits v)))"
  using assms by (auto simp: accept_connection_def count_rejected_def Let_def not_le split: prod.splits if_splits)

definition connections_ok :: "'ip peer_server \<Rightarrow> bool" where
  "connections_ok v \<longleftrightarrow> pv_active_connections v = pv_open v \<and> pv_open v \<le> MAX_CONCURRENT_CONNECTIONS"

lemma connections_ok_step:
  assumes "connections_ok v"
  shows "connections_ok (server_step v e)"
proof (cases e)
  case (Arrives ip now)
  obtain ok v' where "accept_connection ip now v = (ok, v')" by fastforce
  with assms accept_open [OF this] Arrives show ?thesis
    by (auto simp: connections_ok_def wadd64_def MAX_CONCURRENT_CONNECTIONS_def)
qed (use assms in \<open>auto simp: connections_ok_def connection_ends_def start_server_def stop_server_def sat_sub_def\<close>)

text \<open>
  The server never has more than 100 connections open. Whatever starts, stops, arrivals, answers and ends of connections follow
  each other, the counter of active connections is the number of connection tasks that have not ended, and it is at most 100.
\<close>

theorem open_connections_bounded:
  "pv_open (foldl server_step (new_peer_server port) evs) \<le> 100 \<and>
   us_active_connections (get_upload_stats (foldl server_step (new_peer_server port) evs)) = pv_open (foldl server_step (new_peer_server port) evs)"
proof -
  have "connections_ok (foldl server_step v evs)" if "connections_ok v" for v :: "'a peer_server"
    using that by (induction evs arbitrary: v) (simp_all add: connections_ok_step)
  then have "connections_ok (foldl server_step (new_peer_server port) evs)" by (simp add: connections_ok_def new_peer_server_def)
  then show ?thesis by (simp add: connections_ok_def get_upload_stats_def MAX_CONCURRENT_CONNECTIONS_def)
qed

text \<open>How many connections an address has left in a window.\<close>

definition quota :: "('ip \<rightharpoonup> rate_limit_entry) \<Rightarrow> 'ip \<Rightarrow> u64 \<Rightarrow> nat" where
  "quota limits ip w = (case limits ip of None \<Rightarrow> 60 | Some e \<Rightarrow> if rl_window_start e = w then 60 - rl_request_count e else 60)"

lemma quota_le: "quota limits ip w \<le> 60"
  by (simp add: quota_def split: option.splits)

lemma quota_retain: "quota (hm_retain (\<lambda>e. rl_window_start e = w) limits) ip w = quota limits ip w"
  by (auto simp: quota_def hm_retain_def split: option.splits)

lemma quota_check:
  assumes "now div 60 = w" "check_rate_limit now ip limits = (limited, limits')"
  shows "quota limits' j w = (if j = ip \<and> \<not> limited then quota limits j w - 1 else quota limits j w) \<and> (\<not> limited \<longrightarrow> 0 < quota limits ip w)"
  using assms
  by (auto simp: check_rate_limit_def Let_def quota_retain MAX_REQUESTS_PER_IP_PER_MINUTE_def wadd32_def split: if_splits option.splits)
     (auto simp: quota_def)

lemma window_check:
  assumes "check_rate_limit now ip limits = (limited, limits')" "limits' j = Some e" "\<And>e. limits j = Some e \<Longrightarrow> rl_window_start e \<le> now div 60"
  shows "rl_window_start e \<le> now div 60"
  using assms
  by (auto simp: check_rate_limit_def Let_def hm_retain_def split: if_splits option.splits)

text \<open>The arrivals of a run, and those of them that were admitted, with address and time.\<close>

fun arrival_times :: "'ip server_event list \<Rightarrow> u64 list" where
  "arrival_times [] = []"
| "arrival_times (Arrives ip now # es) = now # arrival_times es"
| "arrival_times (_ # es) = arrival_times es"

fun admitted :: "'ip peer_server \<Rightarrow> 'ip server_event list \<Rightarrow> ('ip \<times> u64) list" where
  "admitted v [] = []"
| "admitted v (e # es) = (case e of
     Arrives ip now \<Rightarrow> if pv_listening v \<and> fst (accept_connection ip now v) then (ip, now) # admitted (server_step v e) es else admitted (server_step v e) es
   | _ \<Rightarrow> admitted (server_step v e) es)"

lemma admitted_times: "(ip, t) \<in> set (admitted v es) \<Longrightarrow> t \<in> set (arrival_times es)"
  by (induction es arbitrary: v) (auto split: server_event.splits if_splits)

lemma other_event_limits:
  "(\<And>ip now. e \<noteq> Arrives ip now) \<Longrightarrow> pv_rate_limits (server_step v e) = pv_rate_limits v \<and> arrival_times (e # es) = arrival_times es
    \<and> admitted v (e # es) = admitted (server_step v e) es"
  by (cases e) (auto simp: start_server_def stop_server_def connection_ends_def)

text \<open>From a table whose windows are not in the future, an address is admitted in a window no more often than its quota.\<close>

lemma admitted_quota:
  assumes "sorted (t0 # arrival_times es)" "\<And>e. pv_rate_limits v ip = Some e \<Longrightarrow> rl_window_start e \<le> t0 div 60"
  shows "length (filter (\<lambda>(j, t). j = ip \<and> t div 60 = w) (admitted v es)) \<le> quota (pv_rate_limits v) ip w"
  using assms
proof (induction es arbitrary: v t0)
  case Nil
  then show ?case by simp
next
  case (Cons e es)
  show ?case
  proof (cases "\<exists>j now. e = Arrives j now \<and> pv_listening v")
    case False
    then have same: "pv_rate_limits (server_step v e) = pv_rate_limits v" "admitted v (e # es) = admitted (server_step v e) es"
      using other_event_limits [of e v es] by (cases e; auto)+
    have "sorted (t0 # arrival_times es)" using Cons.prems(1) by (cases e) auto
    with Cons.IH [of t0 "server_step v e"] Cons.prems(2) show ?thesis by (simp only: same)
  next
    case True
    then obtain j now where e: "e = Arrives j now" "pv_listening v" by blast
    obtain ok v' where acc: "accept_connection j now v = (ok, v')" by fastforce
    obtain limited limits' where check: "check_rate_limit now j (pv_rate_limits v) = (limited, limits')" by fastforce
    have v': "server_step v e = v'" "pv_rate_limits v' = limits'" "ok \<longrightarrow> \<not> limited" using e acc check accept_open [OF acc] by simp_all
    have le: "t0 div 60 \<le> now div 60" using Cons.prems(1) e by (simp add: div_le_mono)
    then have old: "rl_window_start x \<le> now div 60" if "pv_rate_limits v ip = Some x" for x using Cons.prems(2) that by fastforce
    have new: "rl_window_start x \<le> now div 60" if "limits' ip = Some x" for x using window_check [OF check that] old by blast
    have IH: "length (filter (\<lambda>(j, t). j = ip \<and> t div 60 = w) (admitted v' es)) \<le> quota limits' ip w"
      using Cons.IH [of now v'] Cons.prems(1) e new v' by simp
    have adm: "admitted v (e # es) = (if ok then [(j, now)] else []) @ admitted v' es" using e acc v' by simp
    consider "now div 60 = w" | "now div 60 < w" | "w < now div 60" by linarith
    then show ?thesis
    proof cases
      case 1
      with IH quota_check [OF 1 check, of ip] v'(3) show ?thesis unfolding adm by (auto split: if_splits) linarith+
    next
      case 2
      then have "quota (pv_rate_limits v) ip w = 60" using old by (fastforce simp: quota_def split: option.splits)
      with 2 IH quota_le [of limits' ip w] show ?thesis unfolding adm by simp
    next
      case 3
      have "t div 60 \<noteq> w" if "(i, t) \<in> set (admitted v' es)" for i t
      proof -
        have "now \<le> t" using Cons.prems(1) e admitted_times [OF that] by simp
        then show ?thesis using 3 div_le_mono [of now t 60] by simp
      qed
      then have "filter (\<lambda>(j, t). j = ip \<and> t div 60 = w) (admitted v' es) = []" by (auto simp: filter_empty_conv)
      with 3 show ?thesis unfolding adm by simp
    qed
  qed
qed

text \<open>
  C19: The rate limit holds. If the clock does not go back, the server admits at most 60 connections of one address in one minute,
  counting the clock's minutes, whatever other addresses connect and however often the table is cleaned up in between.
\<close>

theorem rate_limit_holds:
  assumes "sorted (arrival_times evs)"
  shows "length (filter (\<lambda>(j, t). j = ip \<and> t div 60 = w) (admitted (new_peer_server port) evs)) \<le> 60"
proof -
  have "length (filter (\<lambda>(j, t). j = ip \<and> t div 60 = w) (admitted (new_peer_server port) evs)) \<le> quota (pv_rate_limits (new_peer_server port)) ip w"
    using assms by (intro admitted_quota [of 0]) (simp_all add: new_peer_server_def)
  then show ?thesis using quota_le [of "pv_rate_limits (new_peer_server port)" ip w] by linarith
qed

theorem rate_limit_holds_witness:
  "length (filter (\<lambda>(j, t). j = (1::nat) \<and> t div 60 = 0) (admitted (new_peer_server 4662) [Starts True, Arrives 1 5, Arrives 2 6, Arrives 1 70])) \<le> 60"
  by (rule rate_limit_holds) simp

text \<open>
  The rate limit is on connections, not on requests. On one admitted connection every request of a block is answered, however many
  there are, as long as the connection lasts: the counter per address and minute is not touched again.
\<close>

theorem requests_not_limited:
  assumes "part_answer io d files payload = Inr (Some (answer, n))" "length payload < 2 ^ 32 - 1" "\<not> ts_broken s"
    and "ts_in s = concat (replicate k (packet_bytes OP_REQUESTPARTS payload))"
  shows "handle_peer_connection k io d files st s =
    (Inr (), (count_served n ^^ k) st, s\<lparr>ts_in := [], ts_out := ts_out s @ concat (replicate k (packet_bytes OP_SENDINGPART answer))\<rparr>)"
  using assms(3,4)
proof (induction k arbitrary: st s)
  case 0
  then show ?case by simp
next
  case (Suc k)
  then have "ts_in s = packet_bytes OP_REQUESTPARTS payload @ concat (replicate k (packet_bytes OP_REQUESTPARTS payload))" by simp
  with Suc handle_one_request [OF assms(1,2) this] show ?case by (simp add: funpow_swap1)
qed

definition ed2k_sample_request :: bytes where
  "ed2k_sample_request = request_to_bytes \<lparr>bq_file_hash = zero_hash, bq_start_offset = 6, bq_end_offset = 6 + 5\<rparr>"

definition sample_answer :: bytes where
  "sample_answer = zero_hash @ le_bytes 8 6 @ le_bytes 8 (6 + 5) @ take 5 (drop 6 ''hello world'')"

theorem requests_not_limited_witness:
  "handle_peer_connection 3 no_faults shared_disk [hex_encode zero_hash \<mapsto> [''f'']] (pv_stats (new_peer_server 0 :: nat peer_server))
     (fresh_stream\<lparr>ts_in := concat (replicate 3 (packet_bytes OP_REQUESTPARTS ed2k_sample_request))\<rparr>)
    = (Inr (), (count_served 5 ^^ 3) (pv_stats (new_peer_server 0 :: nat peer_server)),
       fresh_stream\<lparr>ts_in := concat (replicate 3 (packet_bytes OP_REQUESTPARTS ed2k_sample_request)), ts_in := [],
         ts_out := ts_out (fresh_stream\<lparr>ts_in := concat (replicate 3 (packet_bytes OP_REQUESTPARTS ed2k_sample_request))\<rparr>)
           @ concat (replicate 3 (packet_bytes OP_SENDINGPART sample_answer))\<rparr>)"
proof (rule requests_not_limited)
  have len: "length zero_hash = 16" by (simp add: zero_hash_def)
  show "part_answer no_faults shared_disk [hex_encode zero_hash \<mapsto> [''f'']] ed2k_sample_request = Inr (Some (sample_answer, 5))"
    unfolding ed2k_sample_request_def sample_answer_def
    by (rule part_answer_ok) (simp_all add: len shared_disk_def no_faults_def MAX_PART_SIZE_def)
  show "length ed2k_sample_request < 2 ^ 32 - 1" by (simp add: ed2k_sample_request_def length_request len)
qed (simp_all add: fresh_stream_def)

section \<open>Server links and sources\<close>

lemma trim_start_none: "\<not> starts_with pre s \<Longrightarrow> trim_start_all pre s = s"
  by (simp add: trim_start_all.simps [of pre s])

text \<open>
  The address of a server comes out of its link. For an address that is not empty and has no bar in it, and every 16-bit port,
  parsing the link \<open>ed2k://|server|address|port|/\<close> gives the address and the port the client then connects to.
\<close>

theorem server_link_round_trip:
  assumes "ip \<noteq> []" "CHR ''|'' \<notin> set ip" "port < 2 ^ 16"
  shows "parse_server_url (ed2k_server_link ip (show_nat port)) = Inr (ip, port)"
proof -
  let ?rest = "''|server|'' @ ip @ ''|'' @ show_nat port @ ''|''"
  have link: "ed2k_server_link ip (show_nat port) = ''ed2k://'' @ ?rest @ ''/''" by (simp add: ed2k_server_link_def)
  have "trim_start_all ''ed2k://'' (''ed2k://'' @ ?rest @ ''/'') = ?rest @ ''/''"
    by (subst trim_start_all.simps) (simp add: starts_with_def trim_start_none)
  moreover have "trim_end_matches {CHR ''/''} (?rest @ ''/'') = ?rest" by (rule trim_end_matches_append) auto
  moreover have "split_on (CHR ''|'') ?rest = [[], ''server'', ip, show_nat port, []]"
    using split_on_append [of "CHR ''|''" "[]" "''server|'' @ ip @ ''|'' @ show_nat port @ ''|''"]
      split_on_append [of "CHR ''|''" "''server''" "ip @ ''|'' @ show_nat port @ ''|''"]
      split_on_append [OF assms(2), of "show_nat port @ ''|''"] split_on_append [OF show_nat_no_bar [of port], of "[]"] by simp
  ultimately show ?thesis unfolding link parse_server_url_def using assms(1,3)
    by (simp add: Let_def parse_u16_def parse_show_u64 u64_max_def) (simp add: starts_with_def)
qed

theorem server_link_round_trip_witness: "parse_server_url (ed2k_server_link ''1.2.3.4'' (show_nat 4661)) = Inr (''1.2.3.4'', 4661)"
  by (rule server_link_round_trip) simp_all

lemma parse_sources_concat: "list_all (\<lambda>s. length s = 6) srcs \<Longrightarrow> parse_sources (length srcs) (concat srcs @ rest) = map show_source srcs"
  by (induction srcs) simp_all

text \<open>
  All sources a server names are found. If the server answers with the hash that was asked for, a count and as many sources of six
  bytes, \<open>get_sources\<close> returns the address and port of each, in order; trailing bytes do not matter.
\<close>

theorem sources_found:
  assumes "length hash = 16" "ec_connection c = Some s" "\<not> ts_broken s" "list_all (\<lambda>x. length x = 6) srcs" "length srcs < 256" "length extra < 2 ^ 16"
    and "ts_in s = packet_bytes OP_FOUNDSOURCES (hash @ [char_of (length srcs)] @ concat srcs @ extra) @ rest"
  shows "fst (get_sources (hex_encode hash) c) = Inr (map show_source srcs)"
proof -
  let ?p = "hash @ [char_of (length srcs)] @ concat srcs @ extra"
  have "sum_list (map length srcs) = 6 * length srcs" using assms(4) by (induction srcs) simp_all
  then have len: "length ?p < 2 ^ 32 - 1" using assms(1,5,6) by (simp add: length_concat)
  have "receive_packet (s\<lparr>ts_out := ts_out s @ packet_bytes OP_GETSOURCES hash\<rparr>)
      = (Inr (OP_FOUNDSOURCES, ?p), s\<lparr>ts_out := ts_out s @ packet_bytes OP_GETSOURCES hash, ts_in := rest\<rparr>)"
    using len assms(7) by (intro receive_packet_ok) (simp_all add: OP_FOUNDSOURCES_def)
  moreover have "parse_found_sources hash ?p = Inr (map show_source srcs)"
    using assms(1,4,5) by (simp add: parse_found_sources_def nth_append of_char_byte parse_sources_concat)
  ultimately show ?thesis using assms(1-3)
    by (simp add: get_sources_def on_connection_def and_then_def hash_of_16_encoded send_packet_ok)
qed

definition client_with :: "tcp_stream \<Rightarrow> ed2k_client" where
  "client_with s = (new_ed2k_client ''ed2k://|server|1.2.3.4|4661|/'')\<lparr>ec_connection := Some s\<rparr>"

theorem sources_found_witness:
  "fst (get_sources (hex_encode zero_hash) (client_with (fresh_stream\<lparr>ts_in :=
     packet_bytes OP_FOUNDSOURCES (zero_hash @ [char_of (length [''abcdef''])] @ concat [''abcdef''] @ []) @ []\<rparr>))) = Inr (map show_source [''abcdef''])"
  by (rule sources_found [where extra = "[]" and rest = "[]" and s = "fresh_stream\<lparr>ts_in :=
        packet_bytes OP_FOUNDSOURCES (zero_hash @ [char_of (length [''abcdef''])] @ concat [''abcdef''] @ []) @ []\<rparr>"]) (simp_all add: client_with_def fresh_stream_def zero_hash_def)

section \<open>What is sent without a header\<close>

lemma foreign_first_byte:
  assumes "ts_in s = x # b" "5 \<le> length b" "(of_char x :: nat) \<noteq> ED2K_PROTOCOL"
  shows "fst (receive_packet s) = Inl (EcProtocol ''Invalid protocol byte'')"
  using assms by (simp add: receive_packet_def and_then_def tcp_read_exact_def header_from_bytes_def HEADER_SIZE_def numeral_eq_Suc)

lemma offer_each_grows:
  "offer_each fs packet c = (Inr packet', c') \<Longrightarrow> (\<exists>x. packet' = packet @ x \<and> length fs \<le> length x) \<and> ec_connection c' = ec_connection c"
proof (induction fs arbitrary: packet c)
  case (Cons f fs)
  then obtain hash where hash: "length hash = 16" and rest: "offer_each fs (packet @ offer_entry (ec_client_id c) f hash)
      (c\<lparr>ec_shared_files := (ec_shared_files c)(ef_file_hash f \<mapsto> f)\<rparr>) = (Inr packet', c')"
    by (auto split: option.splits if_splits)
  have "1 \<le> length (offer_entry (ec_client_id c) f hash)" using hash by (simp add: offer_entry_def)
  with Cons.IH [OF rest] show ?case by auto
qed simp

text \<open>
  Requests for chunks and offers of files are not packets. What \<open>download_chunk\<close> and \<open>offer_files\<close> write begins with an operation
  code and not with the protocol byte and a length: the program's own \<open>receive_packet\<close> refuses both.
\<close>

theorem requests_are_no_packets:
  assumes "fs \<noteq> []" "offer_files fs c = (Inr (), c')" "ec_connection c = Some s" "ts_out s = []" "ec_connection c' = Some s'"
  shows "fst (receive_packet (t\<lparr>ts_in := ts_out s'\<rparr>)) = Inl (EcProtocol ''Invalid protocol byte'') \<and>
    (length hash = 16 \<longrightarrow> fst (receive_packet (t\<lparr>ts_in := ed2k_chunk_request hash i\<rparr>)) = Inl (EcProtocol ''Invalid protocol byte''))"
proof -
  obtain packet c1 where off: "offer_each fs (char_of OP_OFFERFILES # le_bytes 4 (length fs mod 2 ^ 32)) c = (Inr packet, c1)"
    using assms(2,3) by (auto simp: offer_files_def and_then_def split: prod.splits sum.splits)
  then obtain x where x: "packet = char_of OP_OFFERFILES # le_bytes 4 (length fs mod 2 ^ 32) @ x" "length fs \<le> length x" "ec_connection c1 = Some s"
    using offer_each_grows [OF off] assms(3) by auto
  have "ts_out s' = packet"
    using assms off x(3) by (auto simp: offer_files_def and_then_def on_connection_def tcp_write_def split: if_splits)
  moreover have "1 \<le> length x" using assms(1) x(2) by (cases fs) simp_all
  ultimately show ?thesis using x(1)
    by (auto intro!: foreign_first_byte simp: ed2k_chunk_request_def of_char_byte OP_OFFERFILES_def ED2K_PROTOCOL_def)
qed

definition sample_info :: ed2k_file_info where
  "sample_info = \<lparr>ef_file_hash = hex_encode zero_hash, ef_file_size = 11, ef_file_name = Some ''f'', ef_sources = [], ef_chunk_hashes = []\<rparr>"

lemma offer_one:
  assumes "hex_decode (ef_file_hash f) = Some hash" "length hash = 16" "ec_connection c = Some s" "\<not> ts_broken s"
  shows "offer_files [f] c = (Inr (), c\<lparr>ec_shared_files := (ec_shared_files c)(ef_file_hash f \<mapsto> f),
    ec_connection := Some (s\<lparr>ts_out := ts_out s @ char_of OP_OFFERFILES # le_bytes 4 1 @ offer_entry (ec_client_id c) f hash\<rparr>)\<rparr>)"
  using assms by (simp add: offer_files_def and_then_def on_connection_def tcp_write_def)

theorem requests_are_no_packets_witness:
  "fst (receive_packet (fresh_stream\<lparr>ts_in := ts_out (the (ec_connection (snd (offer_files [sample_info] (client_with fresh_stream)))))\<rparr>))
    = Inl (EcProtocol ''Invalid protocol byte'')"
proof -
  have "offer_files [sample_info] (client_with fresh_stream) = (Inr (), snd (offer_files [sample_info] (client_with fresh_stream)))
      \<and> ec_connection (snd (offer_files [sample_info] (client_with fresh_stream))) \<noteq> None"
    using offer_one [of sample_info zero_hash "client_with fresh_stream" fresh_stream]
    by (simp add: sample_info_def client_with_def fresh_stream_def) (simp add: zero_hash_def)
  then obtain c' s' where "offer_files [sample_info] (client_with fresh_stream) = (Inr (), c')" "ec_connection c' = Some s'" by force
  with requests_are_no_packets [of "[sample_info]" "client_with fresh_stream" c' fresh_stream s' fresh_stream zero_hash 0]
  show ?thesis by (simp add: client_with_def fresh_stream_def)
qed

text \<open>
  A failed offer leaves files marked as shared. If a file in the list has a hash that is not hexadecimal, \<open>offer_files\<close> fails and
  nothing is sent, but the files before it are in the table of shared files from then on, though no server was told of them.
\<close>

theorem failed_offer_still_shares:
  assumes "ec_connection c = Some s" "list_all (\<lambda>f. \<exists>hash. hex_decode (ef_file_hash f) = Some hash \<and> length hash = 16) fs"
    and "hex_decode (ef_file_hash bad) = None" "offer_files (fs @ bad # rest) c = (r, c')"
  shows "r = Inl (EcProtocol ''Invalid hash'') \<and> ec_connection c' = Some s \<and> (\<forall>f \<in> set fs. ef_file_hash f \<in> dom (ec_shared_files c'))"
proof -
  have each: "fst (offer_each (fs @ bad # rest) packet c) = Inl (EcProtocol ''Invalid hash'') \<and>
      ec_connection (snd (offer_each (fs @ bad # rest) packet c)) = ec_connection c \<and>
      dom (ec_shared_files (snd (offer_each (fs @ bad # rest) packet c))) = ef_file_hash ` set fs \<union> dom (ec_shared_files c)" for packet c
    using assms(2)
  proof (induction fs arbitrary: packet c)
    case (Cons f fs)
    then obtain hash where "hex_decode (ef_file_hash f) = Some hash" "length hash = 16" by auto
    with Cons show ?case by simp
  qed (simp add: assms(3))
  obtain e c1 where "offer_each (fs @ bad # rest) (char_of OP_OFFERFILES # le_bytes 4 (length (fs @ bad # rest) mod 2 ^ 32)) c = (e, c1)"
    by fastforce
  with each [of "char_of OP_OFFERFILES # le_bytes 4 (length (fs @ bad # rest) mod 2 ^ 32)" c] assms(1,4) show ?thesis
    by (auto simp: offer_files_def and_then_def)
qed

theorem failed_offer_still_shares_witness:
  "hex_encode zero_hash \<in> dom (ec_shared_files (snd (offer_files ([sample_info] @ sample_info\<lparr>ef_file_hash := ''zz''\<rparr> # []) (client_with fresh_stream))))"
proof -
  have "hex_decode ''zz'' = None" by code_simp
  then show ?thesis
    using failed_offer_still_shares [of "client_with fresh_stream" fresh_stream "[sample_info]" "sample_info\<lparr>ef_file_hash := ''zz''\<rparr>" "[]" _
        "snd (offer_files ([sample_info] @ sample_info\<lparr>ef_file_hash := ''zz''\<rparr> # []) (client_with fresh_stream))", OF _ _ _ surjective_pairing]
    by (simp add: client_with_def sample_info_def zero_hash_def)
qed

text \<open>
  The server is not told that the last file is gone. Removing the only shared file empties the table and writes nothing to the
  server, which goes on naming the client as a source; the offer that replaces the old one is sent only while files remain.
\<close>

theorem last_file_not_withdrawn:
  assumes "dom (ec_shared_files c) \<subseteq> {fh}"
  shows "remove_shared_file ks fh c = (Inr (), c\<lparr>ec_shared_files := Map.empty\<rparr>)"
proof -
  have "hm_remove (ec_shared_files c) fh = Map.empty" using assms by (auto simp: hm_remove_def fun_eq_iff dom_def)
  then show ?thesis by (simp add: remove_shared_file_def)
qed

theorem last_file_not_withdrawn_witness:
  "remove_shared_file [''a''] ''a'' ((client_with fresh_stream)\<lparr>ec_shared_files := [''a'' \<mapsto> sample_info]\<rparr>)
    = (Inr (), (client_with fresh_stream)\<lparr>ec_shared_files := [''a'' \<mapsto> sample_info], ec_shared_files := Map.empty\<rparr>)"
  by (rule last_file_not_withdrawn) simp

text \<open>Sizes of 4 GiB and more are cut to 32 bits in an offer, and an offer without a name still announces two tags.\<close>

lemma offer_size_cut: "offer_entry cid (f\<lparr>ef_file_size := ef_file_size f mod 2 ^ 32\<rparr>) hash = offer_entry cid f hash"
  by (simp add: offer_entry_def)

end
