(* ===== verification/Storage.thy ===== *)
theory Storage
  imports FileSystem F64 "HOL-Library.Sublist"
begin

text \<open>
  \<open>storage_manager.rs\<close> and \<open>blockstore_manager.rs\<close>: how much the program stores, and the clean-up when it is too much.

  The file system is a tree of directories and files with their metadata; the order of the entries of a directory is the order in
  which \<open>read_dir\<close> lists them. Any call may fail: \<open>IoStat\<close> for metadata and the tests for existence, \<open>IoReadDir\<close> for opening a
  directory, \<open>IoOpen\<close> for reading one of its entries, \<open>IoRemove\<close> for a removal. Clock readings are arguments, in nanoseconds. There
  are no symbolic links. Texts of log messages are left out, among them the formatting of sizes.

  Theorems, at the end: the usage is the sum of the sizes of the files; a clean-up only removes files, and only from the three
  directories it is given; downloads go in the order of their last access and no more than needed; blocks of the last seven days
  are kept and the reports of the blockstore are exact. The report of a clean-up counts what could not be removed, temporary files
  of running transfers are removed, and with a threshold below ten per cent nothing is ever freed beyond them.
\<close>

section \<open>The tree of files\<close>

record file_meta =
  fm_size :: u64
  fm_modified :: nat
  fm_accessed :: nat

datatype fs_node = FsFile file_meta | FsDir file_meta "(string \<times> fs_node) list"

fun node_meta :: "fs_node \<Rightarrow> file_meta" where
  "node_meta (FsFile m) = m"
| "node_meta (FsDir m es) = m"

fun node_at :: "fs_node \<Rightarrow> path \<Rightarrow> fs_node option" where
  "node_at t [] = Some t"
| "node_at (FsFile m) (n # p) = None"
| "node_at (FsDir m es) (n # p) = (case map_of es n of None \<Rightarrow> None | Some t \<Rightarrow> node_at t p)"

text \<open>The tree with the node at a path replaced, or removed if there is no new one.\<close>

fun put_at :: "fs_node option \<Rightarrow> path \<Rightarrow> fs_node \<Rightarrow> fs_node" where
  "put_at new [] t = (case new of None \<Rightarrow> t | Some t' \<Rightarrow> t')"
| "put_at new (n # p) (FsFile m) = FsFile m"
| "put_at new (n # p) (FsDir m es) =
     FsDir m (if p = [] \<and> new = None then filter (\<lambda>(k, _). k \<noteq> n) es else map (\<lambda>(k, t). (k, if k = n then put_at new p t else t)) es)"

record storage_env =
  se_io :: io_env
  se_temp_clock :: "path \<Rightarrow> nat"
  se_part_clock :: "path \<Rightarrow> nat"
  se_block_clock :: "nat \<Rightarrow> nat"
  se_elapsed_ms :: "u64 option"
  se_space :: "path \<Rightarrow> u64"
  se_partly :: "fs_node \<Rightarrow> fs_node"

definition stat_node :: "storage_env \<Rightarrow> path \<Rightarrow> fs_node \<Rightarrow> fs_node option" where
  "stat_node E p t = (if io_fails (se_io E) (IoStat p) then None else node_at t p)"

definition node_exists :: "storage_env \<Rightarrow> path \<Rightarrow> fs_node \<Rightarrow> bool" where
  "node_exists E p t = (stat_node E p t \<noteq> None)"

text \<open>The names of a directory whose entries can be read (\<open>entries.flatten()\<close>).\<close>

definition read_dir :: "storage_env \<Rightarrow> path \<Rightarrow> fs_node \<Rightarrow> (io_error, string list) result" where
  "read_dir E p t = (case node_at t p of
     Some (FsDir m es) \<Rightarrow> if io_fails (se_io E) (IoReadDir p) then Err (OtherIo (IoReadDir p))
       else Ok (filter (\<lambda>n. \<not> io_fails (se_io E) (IoOpen (p @ [n]))) (map fst es))
   | _ \<Rightarrow> Err (OtherIo (IoReadDir p)))"

definition remove_file :: "storage_env \<Rightarrow> path \<Rightarrow> fs_node \<Rightarrow> (io_error, unit) result \<times> fs_node" where
  "remove_file E p t = (case node_at t p of
     Some (FsFile m) \<Rightarrow> if io_fails (se_io E) (IoRemove p) then (Err (OtherIo (IoRemove p)), t) else (Ok (), put_at None p t)
   | _ \<Rightarrow> (Err (OtherIo (IoRemove p)), t))"

definition secs_ns :: "nat \<Rightarrow> nat" where
  "secs_ns s = s * 1000000000"

section \<open>Usage\<close>

record storage_config =
  sg_max_storage_size_gb :: u64
  sg_auto_cleanup :: bool
  sg_cleanup_threshold :: u64
  sg_cache_size_mb :: u64
  sg_download_path :: path
  sg_blockstore_path :: path
  sg_temp_path :: path
  sg_chunk_storage_path :: path

record storage_usage =
  su_total_bytes :: u64
  su_downloads_bytes :: u64
  su_blockstore_bytes :: u64
  su_temp_bytes :: u64
  su_chunk_storage_bytes :: u64
  su_available_bytes :: u64

definition usage_percentage :: "storage_usage \<Rightarrow> u64 \<Rightarrow> f64" where
  "usage_percentage u max_gb = f64_mul (f64_div (f64_of_u64 (su_total_bytes u)) (f64_of_u64 (wmul64 max_gb (2 ^ 30)))) (f64_of_u64 100)"

definition needs_cleanup :: "storage_usage \<Rightarrow> u64 \<Rightarrow> u64 \<Rightarrow> bool" where
  "needs_cleanup u max_gb threshold = f64_le (f64_of_u64 threshold) (usage_percentage u max_gb)"

text \<open>The loop over the entries of a directory: entries that cannot be read or have no metadata are skipped.\<close>

fun size_entries :: "storage_env \<Rightarrow> path \<Rightarrow> (string \<times> fs_node) list \<Rightarrow> u64 \<Rightarrow> (io_error, u64) result" where
  "size_entries E p [] acc = Ok acc"
| "size_entries E p ((n, FsFile m) # es) acc =
     (if io_fails (se_io E) (IoOpen (p @ [n])) \<or> io_fails (se_io E) (IoStat (p @ [n])) then size_entries E p es acc
      else size_entries E p es (wadd64 acc (fm_size m)))"
| "size_entries E p ((n, FsDir m ds) # es) acc =
     (if io_fails (se_io E) (IoOpen (p @ [n])) \<or> io_fails (se_io E) (IoStat (p @ [n])) then size_entries E p es acc
      else if io_fails (se_io E) (IoReadDir (p @ [n])) then Err (OtherIo (IoReadDir (p @ [n])))
      else case size_entries E (p @ [n]) ds 0 of Inl e \<Rightarrow> Err e | Inr k \<Rightarrow> size_entries E p es (wadd64 acc k))"

definition calculate_directory_size_sync :: "storage_env \<Rightarrow> path \<Rightarrow> fs_node \<Rightarrow> (io_error, u64) result" where
  "calculate_directory_size_sync E p t = (case stat_node E p t of
     None \<Rightarrow> Ok 0
   | Some (FsFile m) \<Rightarrow> Ok (fm_size m)
   | Some (FsDir m es) \<Rightarrow> if io_fails (se_io E) (IoReadDir p) then Err (OtherIo (IoReadDir p)) else size_entries E p es 0)"

text \<open>A relative path of one component has the empty path as its parent, which the system call does not find.\<close>

definition get_available_space :: "storage_env \<Rightarrow> path \<Rightarrow> fs_node \<Rightarrow> (io_error, u64) result" where
  "get_available_space E p t =
     (let check = (if node_exists E p t then Some p else parent p)
      in case check of None \<Rightarrow> Err NotFound
         | Some q \<Rightarrow> if io_fails (se_io E) (IoSpace q) then Err (OtherIo (IoSpace q)) else Ok (se_space E q))"

definition calculate_usage :: "storage_env \<Rightarrow> storage_config \<Rightarrow> fs_node \<Rightarrow> (io_error, storage_usage) result" where
  "calculate_usage E c t =
     rbind (calculate_directory_size_sync E (sg_download_path c) t) (\<lambda>dl.
     rbind (calculate_directory_size_sync E (sg_blockstore_path c) t) (\<lambda>bs.
     rbind (calculate_directory_size_sync E (sg_temp_path c) t) (\<lambda>tmp.
     rbind (calculate_directory_size_sync E (sg_chunk_storage_path c) t) (\<lambda>ch.
     rbind (get_available_space E (sg_download_path c) t) (\<lambda>free.
       Ok \<lparr>su_total_bytes = wadd64 (wadd64 (wadd64 dl bs) tmp) ch, su_downloads_bytes = dl, su_blockstore_bytes = bs,
           su_temp_bytes = tmp, su_chunk_storage_bytes = ch, su_available_bytes = free\<rparr>)))))"

section \<open>The blockstore\<close>

record blockstore_manager =
  bm_blockstore_path :: path
  bm_cache_limit_mb :: u64

record blockstore_stats =
  bs_total_bytes :: u64
  bs_file_count :: usize
  bs_path :: path
  bs_exists :: bool
  bs_exceeds_limit :: bool
  bs_cache_limit_mb :: u64

record block_report =
  bt_bytes_freed :: u64
  bt_files_deleted :: usize
  bt_errors :: "io_error list"
  bt_method :: string

definition bs_usage_percentage :: "blockstore_stats \<Rightarrow> f64" where
  "bs_usage_percentage s = f64_mul (f64_div (f64_of_u64 (bs_total_bytes s)) (f64_of_u64 (wmul64 (bs_cache_limit_mb s) (2 ^ 20)))) (f64_of_u64 100)"

text \<open>Here an entry that cannot be read ends the loop with an error; the same loop counts files.\<close>

fun block_entries :: "storage_env \<Rightarrow> path \<Rightarrow> (file_meta \<Rightarrow> nat) \<Rightarrow> (string \<times> fs_node) list \<Rightarrow> u64 \<Rightarrow> (io_error, u64) result" where
  "block_entries E p f [] acc = Ok acc"
| "block_entries E p f ((n, FsFile m) # es) acc =
     (if io_fails (se_io E) (IoOpen (p @ [n])) then Err (OtherIo (IoOpen (p @ [n])))
      else if io_fails (se_io E) (IoStat (p @ [n])) then block_entries E p f es acc
      else block_entries E p f es (wadd64 acc (f m)))"
| "block_entries E p f ((n, FsDir m ds) # es) acc =
     (if io_fails (se_io E) (IoOpen (p @ [n])) then Err (OtherIo (IoOpen (p @ [n])))
      else if io_fails (se_io E) (IoStat (p @ [n])) then block_entries E p f es acc
      else if io_fails (se_io E) (IoReadDir (p @ [n])) then Err (OtherIo (IoReadDir (p @ [n])))
      else case block_entries E (p @ [n]) f ds 0 of Inl e \<Rightarrow> Err e | Inr k \<Rightarrow> block_entries E p f es (wadd64 acc k))"

definition block_total :: "storage_env \<Rightarrow> path \<Rightarrow> (file_meta \<Rightarrow> nat) \<Rightarrow> fs_node \<Rightarrow> (io_error, u64) result" where
  "block_total E p f t = (case stat_node E p t of
     None \<Rightarrow> Ok 0
   | Some (FsFile m) \<Rightarrow> Ok (f m)
   | Some (FsDir m es) \<Rightarrow> if io_fails (se_io E) (IoReadDir p) then Err (OtherIo (IoReadDir p)) else block_entries E p f es 0)"

definition calculate_directory_size :: "storage_env \<Rightarrow> path \<Rightarrow> fs_node \<Rightarrow> (io_error, u64) result" where
  "calculate_directory_size E p t = block_total E p fm_size t"

definition count_files :: "storage_env \<Rightarrow> path \<Rightarrow> fs_node \<Rightarrow> (io_error, usize) result" where
  "count_files E p t = block_total E p (\<lambda>_. 1) t"

definition get_block_stats :: "storage_env \<Rightarrow> blockstore_manager \<Rightarrow> fs_node \<Rightarrow> (io_error, blockstore_stats) result" where
  "get_block_stats E b t =
     (let p = bm_blockstore_path b; present = node_exists E p t
      in rbind (if present then calculate_directory_size E p t else Ok 0) (\<lambda>n.
         rbind (if present then count_files E p t else Ok 0) (\<lambda>k.
           Ok \<lparr>bs_total_bytes = n, bs_file_count = k, bs_path = p, bs_exists = present,
               bs_exceeds_limit = (wmul64 (bm_cache_limit_mb b) (2 ^ 20) < n), bs_cache_limit_mb = bm_cache_limit_mb b\<rparr>)))"

definition clear_blockstore :: "storage_env \<Rightarrow> blockstore_manager \<Rightarrow> fs_node \<Rightarrow> (io_error, block_report) result \<times> fs_node" where
  "clear_blockstore E b t =
     (let p = bm_blockstore_path b; report = \<lparr>bt_bytes_freed = 0, bt_files_deleted = 0, bt_errors = [], bt_method = ''clear_all''\<rparr>
      in if \<not> node_exists E p t then (Ok report, t)
         else case calculate_directory_size E p t of
           Inl e \<Rightarrow> (Err e, t)
         | Inr n \<Rightarrow> if io_fails (se_io E) (IoRemove p)
             then (Ok (report\<lparr>bt_errors := [OtherIo (IoRemove p)]\<rparr>), put_at (Some (se_partly E (the (node_at t p)))) p t)
             else (Ok (report\<lparr>bt_bytes_freed := n\<rparr>), put_at None p t))"

text \<open>The walk over a directory: what it deletes, and the entries that are left, a directory that became empty being removed.\<close>

fun walk_entries :: "storage_env \<Rightarrow> nat \<Rightarrow> nat \<Rightarrow> path \<Rightarrow> (string \<times> fs_node) list \<Rightarrow> block_report \<Rightarrow>
    (io_error, unit) result \<times> block_report \<times> (string \<times> fs_node) list" where
  "walk_entries E max_age now p [] r = (Ok (), r, [])"
| "walk_entries E max_age now p ((n, FsFile m) # es) r =
     (if io_fails (se_io E) (IoOpen (p @ [n])) then (Err (OtherIo (IoOpen (p @ [n]))), r, (n, FsFile m) # es)
      else if \<not> io_fails (se_io E) (IoStat (p @ [n])) \<and> fm_modified m \<le> now \<and> max_age < now - fm_modified m
      then if io_fails (se_io E) (IoRemove (p @ [n]))
           then (case walk_entries E max_age now p es (r\<lparr>bt_errors := bt_errors r @ [OtherIo (IoRemove (p @ [n]))]\<rparr>) of
                   (x, r', es') \<Rightarrow> (x, r', (n, FsFile m) # es'))
           else walk_entries E max_age now p es
                  (r\<lparr>bt_bytes_freed := wadd64 (bt_bytes_freed r) (fm_size m), bt_files_deleted := wadd64 (bt_files_deleted r) 1\<rparr>)
      else (case walk_entries E max_age now p es r of (x, r', es') \<Rightarrow> (x, r', (n, FsFile m) # es')))"
| "walk_entries E max_age now p ((n, FsDir m ds) # es) r =
     (if io_fails (se_io E) (IoOpen (p @ [n])) then (Err (OtherIo (IoOpen (p @ [n]))), r, (n, FsDir m ds) # es)
      else if io_fails (se_io E) (IoStat (p @ [n]))
      then (case walk_entries E max_age now p es r of (x, r', es') \<Rightarrow> (x, r', (n, FsDir m ds) # es'))
      else if io_fails (se_io E) (IoReadDir (p @ [n])) then (Err (OtherIo (IoReadDir (p @ [n]))), r, (n, FsDir m ds) # es)
      else case walk_entries E max_age now (p @ [n]) ds r of
             (Inl e, r', ds') \<Rightarrow> (Err e, r', (n, FsDir m ds') # es)
           | (Inr _, r', ds') \<Rightarrow> (case walk_entries E max_age now p es r' of
               (x, r'', es') \<Rightarrow> (x, r'', if ds' = [] \<and> \<not> io_fails (se_io E) (IoRemove (p @ [n])) then es' else (n, FsDir m ds') # es')))"

definition walk_and_delete_old_files :: "storage_env \<Rightarrow> path \<Rightarrow> nat \<Rightarrow> nat \<Rightarrow> block_report \<Rightarrow> fs_node \<Rightarrow>
    (io_error, unit) result \<times> block_report \<times> fs_node" where
  "walk_and_delete_old_files E p max_age now r t = (case stat_node E p t of
     Some (FsDir m es) \<Rightarrow>
       if io_fails (se_io E) (IoReadDir p) then (Err (OtherIo (IoReadDir p)), r, t)
       else (case walk_entries E max_age now p es r of (x, r', es') \<Rightarrow> (x, r', put_at (Some (FsDir m es')) p t))
   | Some (FsFile m) \<Rightarrow> (Err (OtherIo (IoReadDir p)), r, t)
   | None \<Rightarrow> (Ok (), r, t))"

definition cleanup_old_blocks :: "storage_env \<Rightarrow> blockstore_manager \<Rightarrow> u64 \<Rightarrow> fs_node \<Rightarrow> block_report \<times> fs_node" where
  "cleanup_old_blocks E b days t =
     (let p = bm_blockstore_path b;
          report = \<lparr>bt_bytes_freed = 0, bt_files_deleted = 0, bt_errors = [], bt_method = ''cleanup_old_blocks (>'' @ show_nat days @ '' days)''\<rparr>
      in if \<not> node_exists E p t then (report, t)
         else case walk_and_delete_old_files E p (secs_ns (wmul64 days 86400)) (se_block_clock E days) report t of
           (Inl e, r, t') \<Rightarrow> (r\<lparr>bt_errors := bt_errors r @ [e]\<rparr>, t')
         | (Inr _, r, t') \<Rightarrow> (r, t'))"

definition blocks_need_cleanup :: "storage_env \<Rightarrow> blockstore_manager \<Rightarrow> fs_node \<Rightarrow> (io_error, bool) result" where
  "blocks_need_cleanup E b t = rbind (get_block_stats E b t) (\<lambda>s. Ok (bs_exceeds_limit s))"

definition join_reports :: "block_report \<Rightarrow> block_report \<Rightarrow> block_report" where
  "join_reports r r' = \<lparr>bt_bytes_freed = wadd64 (bt_bytes_freed r) (bt_bytes_freed r'), bt_files_deleted = wadd64 (bt_files_deleted r) (bt_files_deleted r'),
     bt_errors = bt_errors r @ bt_errors r', bt_method = bt_method r @ '', '' @ bt_method r'\<rparr>"

text \<open>The two later rounds, over an age in days.\<close>

definition another_round :: "storage_env \<Rightarrow> blockstore_manager \<Rightarrow> u64 \<Rightarrow> block_report \<times> fs_node \<Rightarrow> (io_error, block_report) result \<times> fs_node" where
  "another_round E b days x = (case x of (r, t) \<Rightarrow> (case blocks_need_cleanup E b t of
     Inl e \<Rightarrow> (Err e, t)
   | Inr False \<Rightarrow> (Ok r, t)
   | Inr True \<Rightarrow> (case cleanup_old_blocks E b days t of (r', t') \<Rightarrow> (Ok (join_reports r r'), t'))))"

definition auto_cleanup_if_needed :: "storage_env \<Rightarrow> blockstore_manager \<Rightarrow> fs_node \<Rightarrow> (io_error, block_report option) result \<times> fs_node" where
  "auto_cleanup_if_needed E b t = (case blocks_need_cleanup E b t of
     Inl e \<Rightarrow> (Err e, t)
   | Inr False \<Rightarrow> (Ok None, t)
   | Inr True \<Rightarrow> (case another_round E b 14 (cleanup_old_blocks E b 30 t) of
       (Inl e, t1) \<Rightarrow> (Err e, t1)
     | (Inr r, t1) \<Rightarrow> (case another_round E b 7 (r, t1) of
         (Inl e, t2) \<Rightarrow> (Err e, t2)
       | (Inr r', t2) \<Rightarrow> (Ok (Some r'), t2))))"

section \<open>The clean-up\<close>

record cleanup_report =
  cp_files_deleted :: usize
  cp_bytes_freed :: u64
  cp_duration_ms :: u64
  cp_errors :: "(string \<times> io_error) list"
  cp_downloads_freed :: u64
  cp_temp_freed :: u64
  cp_orphaned_freed :: u64

definition new_cleanup_report :: cleanup_report where
  "new_cleanup_report = \<lparr>cp_files_deleted = 0, cp_bytes_freed = 0, cp_duration_ms = 0, cp_errors = [], cp_downloads_freed = 0,
     cp_temp_freed = 0, cp_orphaned_freed = 0\<rparr>"

definition add_error :: "string \<Rightarrow> io_error \<Rightarrow> cleanup_report \<Rightarrow> cleanup_report" where
  "add_error message e r = r\<lparr>cp_errors := cp_errors r @ [(message, e)]\<rparr>"

record cleanup_file =
  cx_path :: path
  cx_size :: u64
  cx_modified :: nat
  cx_accessed :: nat

definition file_info_from_path :: "storage_env \<Rightarrow> path \<Rightarrow> fs_node \<Rightarrow> cleanup_file option" where
  "file_info_from_path E p t = (case stat_node E p t of None \<Rightarrow> None
     | Some nd \<Rightarrow> let m = node_meta nd in Some \<lparr>cx_path = p, cx_size = fm_size m, cx_modified = fm_modified m, cx_accessed = fm_accessed m\<rparr>)"

definition is_older_than :: "nat \<Rightarrow> nat \<Rightarrow> cleanup_file \<Rightarrow> bool" where
  "is_older_than now age f = (cx_modified f \<le> now \<and> age < now - cx_modified f)"

text \<open>A file is counted as freed before it is removed, and whether that succeeds is only logged.\<close>

definition count_and_remove :: "storage_env \<Rightarrow> cleanup_file \<Rightarrow> u64 \<times> fs_node \<Rightarrow> u64 \<times> fs_node" where
  "count_and_remove E f x = (wadd64 (fst x) (cx_size f), snd (remove_file E (cx_path f) (snd x)))"

definition remove_if :: "storage_env \<Rightarrow> path \<Rightarrow> (cleanup_file \<Rightarrow> bool) \<Rightarrow> u64 \<times> fs_node \<Rightarrow> u64 \<times> fs_node" where
  "remove_if E p ok x = (case file_info_from_path E p (snd x) of None \<Rightarrow> x | Some f \<Rightarrow> if ok f then count_and_remove E f x else x)"

text \<open>The common shape of the three sweeps over a directory.\<close>

definition sweep :: "storage_env \<Rightarrow> path \<Rightarrow> (path \<Rightarrow> u64 \<times> fs_node \<Rightarrow> u64 \<times> fs_node) \<Rightarrow> fs_node \<Rightarrow> (io_error, u64) result \<times> fs_node" where
  "sweep E dir step t =
     (if \<not> node_exists E dir t then (Ok 0, t)
      else case read_dir E dir t of
        Inl e \<Rightarrow> (Err e, t)
      | Inr ns \<Rightarrow> (case fold (\<lambda>n. step (dir @ [n])) ns (0, t) of (freed, t') \<Rightarrow> (Ok freed, t')))"

definition entry_extension :: "path \<Rightarrow> string option" where
  "entry_extension p = (case file_name p of None \<Rightarrow> None | Some n \<Rightarrow> file_extension n)"

definition orphaned_temp_step :: "storage_env \<Rightarrow> path \<Rightarrow> u64 \<times> fs_node \<Rightarrow> u64 \<times> fs_node" where
  "orphaned_temp_step E p x =
     (let x1 = (if entry_extension p = Some ''tmp'' then remove_if E p (\<lambda>_. True) x else x)
      in if entry_extension p = Some ''bitmap'' \<and> \<not> node_exists E (with_extension p ''tmp'') (snd x1) then remove_if E p (\<lambda>_. True) x1 else x1)"

definition cleanup_orphaned_temp_files :: "storage_env \<Rightarrow> storage_config \<Rightarrow> fs_node \<Rightarrow> (io_error, u64) result \<times> fs_node" where
  "cleanup_orphaned_temp_files E c t = sweep E (sg_temp_path c) (orphaned_temp_step E) t"

definition cleanup_old_temp_files :: "storage_env \<Rightarrow> storage_config \<Rightarrow> nat \<Rightarrow> fs_node \<Rightarrow> (io_error, u64) result \<times> fs_node" where
  "cleanup_old_temp_files E c age t = sweep E (sg_temp_path c) (\<lambda>p. remove_if E p (is_older_than (se_temp_clock E p) age)) t"

text \<open>\<open>str::replace\<close> with the empty string.\<close>

function str_delete :: "string \<Rightarrow> string \<Rightarrow> string" where
  "str_delete pat s = (if s = [] then [] else if pat \<noteq> [] \<and> starts_with pat s then str_delete pat (drop (length pat) s)
     else hd s # str_delete pat (tl s))"
  by pat_completeness auto
termination by (relation "measure (\<lambda>(pat, s). length s)") auto

declare str_delete.simps [simp del]

definition orphaned_part_step :: "storage_env \<Rightarrow> path \<Rightarrow> u64 \<times> fs_node \<Rightarrow> u64 \<times> fs_node" where
  "orphaned_part_step E p x =
     (let stale = is_older_than (se_part_clock E p) (secs_ns (7 * 86400));
          x1 = (if entry_extension p = Some ''part'' \<and> \<not> node_exists E (with_extension p ''part.meta.json'') (snd x) then remove_if E p stale x else x)
      in if ends_with ''.meta.json'' (path_to_string p) \<and> \<not> node_exists E (path_of_string (str_delete ''.meta.json'' (path_to_string p))) (snd x1)
         then remove_if E p stale x1 else x1)"

definition cleanup_orphaned_part_files :: "storage_env \<Rightarrow> storage_config \<Rightarrow> fs_node \<Rightarrow> (io_error, u64) result \<times> fs_node" where
  "cleanup_orphaned_part_files E c t = sweep E (sg_download_path c) (orphaned_part_step E) t"

definition completed_download :: "storage_env \<Rightarrow> fs_node \<Rightarrow> path \<Rightarrow> cleanup_file option" where
  "completed_download E t p =
     (let n = (case file_name p of None \<Rightarrow> [] | Some n \<Rightarrow> n)
      in if ends_with ''.part'' n \<or> ends_with ''.meta.json'' n then None
         else case stat_node E p t of Some (FsFile m) \<Rightarrow> file_info_from_path E p t | _ \<Rightarrow> None)"

fun remove_lru :: "storage_env \<Rightarrow> u64 \<Rightarrow> cleanup_file list \<Rightarrow> u64 \<times> fs_node \<Rightarrow> u64 \<times> fs_node" where
  "remove_lru E needed [] x = x"
| "remove_lru E needed (f # fs) x = (if needed \<le> fst x then x else remove_lru E needed fs (count_and_remove E f x))"

definition cleanup_old_downloads :: "storage_env \<Rightarrow> storage_config \<Rightarrow> u64 \<Rightarrow> fs_node \<Rightarrow> (io_error, u64) result \<times> fs_node" where
  "cleanup_old_downloads E c needed t =
     (let dir = sg_download_path c
      in if \<not> node_exists E dir t then (Ok 0, t)
         else case read_dir E dir t of
           Inl e \<Rightarrow> (Err e, t)
         | Inr ns \<Rightarrow> (case remove_lru E needed (sort_key cx_accessed (List.map_filter (\<lambda>n. completed_download E t (dir @ [n])) ns)) (0, t) of
             (freed, t') \<Rightarrow> (Ok freed, t')))"

definition cleanup_blockstore :: "storage_env \<Rightarrow> storage_config \<Rightarrow> fs_node \<Rightarrow> u64 \<times> fs_node" where
  "cleanup_blockstore E c t =
     (case auto_cleanup_if_needed E \<lparr>bm_blockstore_path = sg_blockstore_path c, bm_cache_limit_mb = sg_cache_size_mb c\<rparr> t of
        (Inr (Some r), t') \<Rightarrow> (bt_bytes_freed r, t')
      | (_, t') \<Rightarrow> (0, t'))"

text \<open>A step of the clean-up: it runs while too little was freed, and its failure is noted in the report.\<close>

type_synonym cleanup_state = "cleanup_report \<times> u64 \<times> fs_node"

definition cleanup_step :: "bool \<Rightarrow> (cleanup_state \<Rightarrow> (io_error, u64) result \<times> fs_node) \<Rightarrow> (u64 \<Rightarrow> cleanup_report \<Rightarrow> cleanup_report) \<Rightarrow> string \<Rightarrow>
    cleanup_state \<Rightarrow> cleanup_state" where
  "cleanup_step run work note message s = (if \<not> run then s else (case s of (r, freed, t) \<Rightarrow> (case work s of
     (Inl e, t') \<Rightarrow> (add_error message e r, freed, t')
   | (Inr n, t') \<Rightarrow> (note n r, wadd64 freed n, t'))))"

definition temp_note :: "u64 \<Rightarrow> cleanup_report \<Rightarrow> cleanup_report" where
  "temp_note n r = r\<lparr>cp_temp_freed := wadd64 (cp_temp_freed r) n\<rparr>"

definition bytes_to_free :: "storage_config \<Rightarrow> storage_usage \<Rightarrow> u64" where
  "bytes_to_free c u =
     (let target_percentage = max (wsub64 (sg_cleanup_threshold c) 10) 50;
          max_bytes = wmul64 (sg_max_storage_size_gb c) (2 ^ 30);
          target_bytes = f64_to_u64 (f64_div (f64_mul (f64_of_u64 max_bytes) (f64_of_u64 target_percentage)) (f64_of_u64 100))
      in sat_sub (su_total_bytes u) target_bytes)"

definition free_orphaned_temp :: "storage_env \<Rightarrow> storage_config \<Rightarrow> cleanup_state \<Rightarrow> cleanup_state" where
  "free_orphaned_temp E c = cleanup_step True (\<lambda>(r, f, t). cleanup_orphaned_temp_files E c t) temp_note ''Failed to clean temp files''"

definition free_old_temp :: "storage_env \<Rightarrow> storage_config \<Rightarrow> u64 \<Rightarrow> cleanup_state \<Rightarrow> cleanup_state" where
  "free_old_temp E c need s =
     cleanup_step (fst (snd s) < need) (\<lambda>(r, f, t). cleanup_old_temp_files E c (secs_ns 86400) t) temp_note ''Failed to clean old temp files'' s"

definition free_parts :: "storage_env \<Rightarrow> storage_config \<Rightarrow> u64 \<Rightarrow> cleanup_state \<Rightarrow> cleanup_state" where
  "free_parts E c need s =
     cleanup_step (fst (snd s) < need) (\<lambda>(r, f, t). cleanup_orphaned_part_files E c t)
       (\<lambda>n r. r\<lparr>cp_orphaned_freed := wadd64 (cp_orphaned_freed r) n\<rparr>) ''Failed to clean orphaned files'' s"

definition free_downloads :: "storage_env \<Rightarrow> storage_config \<Rightarrow> u64 \<Rightarrow> cleanup_state \<Rightarrow> cleanup_state" where
  "free_downloads E c need s =
     cleanup_step (fst (snd s) < need) (\<lambda>(r, f, t). cleanup_old_downloads E c (need - f) t)
       (\<lambda>n r. r\<lparr>cp_downloads_freed := wadd64 (cp_downloads_freed r) n\<rparr>) ''Failed to clean downloads'' s"

definition free_blocks :: "storage_env \<Rightarrow> storage_config \<Rightarrow> u64 \<Rightarrow> cleanup_state \<Rightarrow> cleanup_state" where
  "free_blocks E c need s =
     cleanup_step (fst (snd s) < need) (\<lambda>(r, f, t). case cleanup_blockstore E c t of (n, t') \<Rightarrow> (Ok n, t')) (\<lambda>n r. r) ''Failed to clean blockstore'' s"

definition perform_cleanup :: "storage_env \<Rightarrow> storage_config \<Rightarrow> storage_usage \<Rightarrow> fs_node \<Rightarrow> cleanup_report \<times> fs_node" where
  "perform_cleanup E c u t =
     (let need = bytes_to_free c u;
          s = free_blocks E c need (free_downloads E c need (free_parts E c need (free_old_temp E c need (free_orphaned_temp E c (new_cleanup_report, 0, t)))))
      in case s of (r, freed, t') \<Rightarrow>
           (r\<lparr>cp_bytes_freed := freed, cp_duration_ms := (case se_elapsed_ms E of None \<Rightarrow> cp_duration_ms r | Some ms \<Rightarrow> ms)\<rparr>, t'))"

definition check_and_cleanup :: "storage_env \<Rightarrow> storage_config \<Rightarrow> fs_node \<Rightarrow> (io_error, cleanup_report option) result \<times> fs_node" where
  "check_and_cleanup E c t = (case calculate_usage E c t of
     Inl e \<Rightarrow> (Err e, t)
   | Inr u \<Rightarrow> if sg_auto_cleanup c \<and> needs_cleanup u (sg_max_storage_size_gb c) (sg_cleanup_threshold c)
       then (case perform_cleanup E c u t of (r, t') \<Rightarrow> (Ok (Some r), t')) else (Ok None, t))"

definition force_cleanup :: "storage_env \<Rightarrow> storage_config \<Rightarrow> fs_node \<Rightarrow> (io_error, cleanup_report) result \<times> fs_node" where
  "force_cleanup E c t = (case calculate_usage E c t of
     Inl e \<Rightarrow> (Err e, t)
   | Inr u \<Rightarrow> (case perform_cleanup E c u t of (r, t') \<Rightarrow> (Ok r, t')))"

section \<open>Lemmas on trees\<close>

fun entries_weight :: "(file_meta \<Rightarrow> nat) \<Rightarrow> (string \<times> fs_node) list \<Rightarrow> nat" where
  "entries_weight f [] = 0"
| "entries_weight f ((n, FsFile m) # es) = f m + entries_weight f es"
| "entries_weight f ((n, FsDir m ds) # es) = entries_weight f ds + entries_weight f es"

fun node_weight :: "(file_meta \<Rightarrow> nat) \<Rightarrow> fs_node \<Rightarrow> nat" where
  "node_weight f (FsFile m) = f m"
| "node_weight f (FsDir m es) = entries_weight f es"

definition weight_at :: "(file_meta \<Rightarrow> nat) \<Rightarrow> path \<Rightarrow> fs_node \<Rightarrow> nat" where
  "weight_at f p t = (case node_at t p of None \<Rightarrow> 0 | Some nd \<Rightarrow> node_weight f nd)"

text \<open>Names in a directory are unique, and neither the root nor the parent.\<close>

definition plain_name :: "string \<Rightarrow> bool" where
  "plain_name n \<longleftrightarrow> n \<noteq> ''/'' \<and> n \<noteq> ''..''"

fun wf_entries :: "(string \<times> fs_node) list \<Rightarrow> bool" where
  "wf_entries [] = True"
| "wf_entries ((n, FsFile m) # es) = (plain_name n \<and> n \<notin> fst ` set es \<and> wf_entries es)"
| "wf_entries ((n, FsDir m ds) # es) = (plain_name n \<and> n \<notin> fst ` set es \<and> wf_entries ds \<and> wf_entries es)"

fun wf_node :: "fs_node \<Rightarrow> bool" where
  "wf_node (FsFile m) = True"
| "wf_node (FsDir m es) = wf_entries es"

lemma wf_entries_iff: "wf_entries es \<longleftrightarrow> distinct (map fst es) \<and> (\<forall>x \<in> set es. plain_name (fst x) \<and> wf_node (snd x))"
  by (induction es rule: wf_entries.induct) auto

lemma wf_entries_Cons: "wf_entries (x # es) \<longleftrightarrow> plain_name (fst x) \<and> wf_node (snd x) \<and> fst x \<notin> fst ` set es \<and> wf_entries es"
  by (cases x; cases "snd x") auto

lemma wf_node_at: "wf_node t \<Longrightarrow> node_at t p = Some s \<Longrightarrow> wf_node s"
proof (induction t p rule: node_at.induct)
  case (3 m es n p)
  then show ?case by (auto simp: wf_entries_iff split: option.splits dest: map_of_SomeD)
qed auto

definition files_at :: "fs_node \<Rightarrow> path \<rightharpoonup> file_meta" where
  "files_at t p = (case node_at t p of Some (FsFile m) \<Rightarrow> Some m | _ \<Rightarrow> None)"

lemma map_of_drop: "map_of (filter (\<lambda>(k, _). k \<noteq> n) es) k = (if k = n then None else map_of es k)"
  by (induction es) auto

lemma map_of_change: "map_of (map (\<lambda>(k, t). (k, if k = n then f t else t)) es) k = (if k = n then map_option f (map_of es n) else map_of es k)"
  by (induction es) auto

lemma files_at_simps [simp]:
  "files_at (FsFile m) [] = Some m" "files_at (FsDir m es) [] = None" "files_at (FsFile m) (n # p) = None"
  "files_at (FsDir m es) (n # p) = (case map_of es n of None \<Rightarrow> None | Some t \<Rightarrow> files_at t p)"
  by (auto simp: files_at_def split: option.splits)

lemma files_at_put:
  "p \<noteq> [] \<Longrightarrow> files_at (put_at new p t) q = (if prefix p q \<and> node_at t p \<noteq> None
     then (case new of None \<Rightarrow> None | Some s \<Rightarrow> files_at s (drop (length p) q)) else files_at t q)"
proof (induction new p t arbitrary: q rule: put_at.induct)
  case (3 new n p m es)
  show ?case
  proof (cases q)
    case (Cons k q')
    show ?thesis
    proof (cases "p = [] \<and> new = None")
      case True
      then show ?thesis using Cons by (auto simp: map_of_drop split: option.splits)
    next
      case False
      show ?thesis
      proof (cases "k = n \<and> map_of es n \<noteq> None")
        case True
        then obtain s where s: "map_of es n = Some s" by auto
        have put: "files_at (put_at new (n # p) (FsDir m es)) q = files_at (put_at new p s) q'"
          using False Cons True s by (auto simp: map_of_change)
        show ?thesis
        proof (cases "p = []")
          case p: True
          with False obtain s' where "new = Some s'" by auto
          with put Cons True s p show ?thesis by simp
        next
          case p: False
          have "(n, s) \<in> set es" using s by (rule map_of_SomeD)
          with "3.IH" False p have "files_at (put_at new p s) q' = (if prefix p q' \<and> node_at s p \<noteq> None
            then (case new of None \<Rightarrow> None | Some s \<Rightarrow> files_at s (drop (length p) q')) else files_at s q')" by blast
          with put Cons True s show ?thesis by (cases new) auto
        qed
      next
        case none: False
        then show ?thesis using False Cons by (auto simp: map_of_change)
      qed
    qed
  qed simp
qed simp_all

lemma wf_put:
  assumes "wf_node t" "\<And>s. new = Some s \<Longrightarrow> wf_node s"
  shows "wf_node (put_at new p t)"
  using assms(1)
proof (induction p arbitrary: t)
  case Nil
  then show ?case using assms(2) by (cases new) auto
next
  case (Cons n p)
  show ?case
  proof (cases t)
    case (FsDir m es)
    have "map fst (map (\<lambda>(k, t). (k, if k = n then put_at new p t else t)) es) = map fst es" by (induction es) auto
    then show ?thesis using Cons FsDir by (auto simp: wf_entries_iff distinct_map_filter simp del: map_map)
  qed simp
qed

text \<open>A tree that lost files at most, all of them as \<open>D\<close> allows; unique names stay unique.\<close>

definition trims :: "(path \<Rightarrow> file_meta \<Rightarrow> bool) \<Rightarrow> fs_node \<Rightarrow> fs_node \<Rightarrow> bool" where
  "trims D t t' \<longleftrightarrow> (wf_node t \<longrightarrow> wf_node t' \<and> (\<forall>p m. files_at t' p = Some m \<longrightarrow> files_at t p = Some m)
     \<and> (\<forall>p m. files_at t p = Some m \<longrightarrow> files_at t' p = Some m \<or> files_at t' p = None \<and> D p m))"

lemma trims_refl [simp, intro]: "trims D t t"
  by (simp add: trims_def)

lemma trims_trans [trans]:
  assumes "trims D t t1" "trims D t1 t2"
  shows "trims D t t2"
  unfolding trims_def
proof (intro impI conjI allI)
  assume wf: "wf_node t"
  then have wf1: "wf_node t1" using assms(1) by (simp add: trims_def)
  then show "wf_node t2" using assms(2) by (simp add: trims_def)
  have sub2: "files_at t1 p = Some m" if "files_at t2 p = Some m" for p m using that wf1 assms(2) by (simp add: trims_def)
  then show "files_at t p = Some m" if "files_at t2 p = Some m" for p m using that wf assms(1) by (simp add: trims_def)
  show "files_at t2 p = Some m \<or> files_at t2 p = None \<and> D p m" if "files_at t p = Some m" for p m
  proof (cases "files_at t1 p")
    case None
    then have "files_at t2 p = None" using sub2 [of p] by (cases "files_at t2 p") auto
    moreover have "files_at t1 p = Some m \<or> files_at t1 p = None \<and> D p m" using that wf assms(1) by (simp add: trims_def)
    ultimately show ?thesis using None by simp
  next
    case (Some m')
    then have "m' = m" using that wf assms(1) by (auto simp: trims_def)
    with Some wf1 assms(2) show ?thesis by (auto simp: trims_def)
  qed
qed

lemma trims_mono: "trims D t t' \<Longrightarrow> (\<And>p m. D p m \<Longrightarrow> D' p m) \<Longrightarrow> trims D' t t'"
  unfolding trims_def by blast

lemma trims_fold: "(\<And>x y. x \<in> set xs \<Longrightarrow> trims D (snd y) (snd (f x y))) \<Longrightarrow> trims D (snd y) (snd (fold f xs y))"
proof (induction xs arbitrary: y)
  case (Cons x xs)
  have "trims D (snd y) (snd (f x y))" using Cons.prems by simp
  also have "trims D (snd (f x y)) (snd (fold f xs (f x y)))" using Cons.prems by (intro Cons.IH) simp
  finally show ?case by simp
qed simp

lemma file_no_deeper: "files_at t p = Some m \<Longrightarrow> prefix p q \<Longrightarrow> files_at t q \<noteq> None \<Longrightarrow> q = p"
proof (induction p arbitrary: t q)
  case Nil
  then show ?case by (cases t; cases q) (auto simp: files_at_def)
next
  case (Cons n p)
  then obtain q' where "q = n # q'" "prefix p q'" by (cases q) auto
  with Cons show ?case by (cases t) (auto split: option.splits)
qed

lemma remove_file_files:
  "p \<noteq> [] \<Longrightarrow> files_at (snd (remove_file E p t)) = (if io_fails (se_io E) (IoRemove p) then files_at t else (files_at t)(p := None))"
proof -
  assume p: "p \<noteq> []"
  show ?thesis
  proof (cases "files_at t p")
    case None
    then show ?thesis by (auto simp: remove_file_def files_at_def fun_eq_iff split: option.splits fs_node.splits)
  next
    case (Some m)
    then have nd: "node_at t p = Some (FsFile m)" by (auto simp: files_at_def split: option.splits fs_node.splits)
    have "files_at (put_at None p t) q = ((files_at t)(p := None)) q" for q
      using file_no_deeper [OF Some, of q] by (cases "files_at t q") (auto simp: files_at_put [OF p] nd)
    with nd show ?thesis by (auto simp: remove_file_def)
  qed
qed

lemma remove_file_wf: "wf_node t \<Longrightarrow> wf_node (snd (remove_file E p t))"
  by (auto simp: remove_file_def intro: wf_put split: option.splits fs_node.splits)

lemma remove_file_trims:
  assumes "p \<noteq> []" "\<And>m. files_at t p = Some m \<Longrightarrow> D p m"
  shows "trims D t (snd (remove_file E p t))"
  using assms remove_file_wf [of t E p] unfolding trims_def by (auto simp: remove_file_files)

section \<open>What the clean-up may remove\<close>

lemma count_and_remove_trims:
  assumes "cx_path f \<noteq> []" "\<And>m. files_at (snd x) (cx_path f) = Some m \<Longrightarrow> D (cx_path f) m"
  shows "trims D (snd x) (snd (count_and_remove E f x))"
  using remove_file_trims [OF assms(1), of "snd x" D E] assms(2) by (simp add: count_and_remove_def)

lemma file_info_file: "file_info_from_path E p t = Some f \<Longrightarrow> files_at t p = Some m \<Longrightarrow>
    f = \<lparr>cx_path = p, cx_size = fm_size m, cx_modified = fm_modified m, cx_accessed = fm_accessed m\<rparr>"
  by (auto simp: file_info_from_path_def stat_node_def files_at_def Let_def split: if_splits option.splits fs_node.splits)

lemma file_info_path: "file_info_from_path E p t = Some f \<Longrightarrow> cx_path f = p"
  by (auto simp: file_info_from_path_def Let_def split: option.splits)

definition meta_file :: "path \<Rightarrow> file_meta \<Rightarrow> cleanup_file" where
  "meta_file p m = \<lparr>cx_path = p, cx_size = fm_size m, cx_modified = fm_modified m, cx_accessed = fm_accessed m\<rparr>"

lemma remove_if_trims:
  assumes "p \<noteq> []" "\<And>m. files_at (snd x) p = Some m \<Longrightarrow> ok (meta_file p m) \<Longrightarrow> D p m"
  shows "trims D (snd x) (snd (remove_if E p ok x))"
proof (cases "file_info_from_path E p (snd x)")
  case None
  then show ?thesis by (simp add: remove_if_def)
next
  case (Some f)
  note path = file_info_path [OF Some]
  show ?thesis
  proof (cases "ok f")
    case True
    have "trims D (snd x) (snd (count_and_remove E f x))"
    proof (rule count_and_remove_trims)
      fix m
      assume m: "files_at (snd x) (cx_path f) = Some m"
      with Some path have "f = meta_file p m" by (simp add: file_info_file meta_file_def)
      with m True assms(2) path show "D (cx_path f) m" by simp
    qed (use assms(1) path in simp)
    with Some True show ?thesis by (simp add: remove_if_def)
  next
    case False
    with Some show ?thesis by (simp add: remove_if_def)
  qed
qed

lemma sweep_trims:
  assumes "\<And>n x. trims D (snd x) (snd (step (dir @ [n]) x))"
  shows "trims D t (snd (sweep E dir step t))"
proof -
  have "trims D t (snd (fold (\<lambda>n. step (dir @ [n])) ns (0, t)))" for ns
    using trims_fold [of ns D "\<lambda>n. step (dir @ [n])" "(0, t)"] assms by simp
  then show ?thesis by (auto simp: sweep_def split: sum.splits prod.splits) (metis snd_conv)
qed

text \<open>What each step may take: a file and its metadata.\<close>

definition temp_file_ok :: "storage_env \<Rightarrow> storage_config \<Rightarrow> path \<Rightarrow> file_meta \<Rightarrow> bool" where
  "temp_file_ok E c p m \<longleftrightarrow> p \<noteq> [] \<and> butlast p = sg_temp_path c \<and>
     (entry_extension p = Some ''tmp'' \<or> entry_extension p = Some ''bitmap'' \<or> secs_ns 86400 < se_temp_clock E p - fm_modified m)"

definition stale_part_ok :: "storage_env \<Rightarrow> storage_config \<Rightarrow> path \<Rightarrow> file_meta \<Rightarrow> bool" where
  "stale_part_ok E c p m \<longleftrightarrow> p \<noteq> [] \<and> butlast p = sg_download_path c \<and> secs_ns (7 * 86400) < se_part_clock E p - fm_modified m \<and>
     (entry_extension p = Some ''part'' \<or> ends_with ''.meta.json'' (path_to_string p))"

definition download_removable :: "storage_config \<Rightarrow> path \<Rightarrow> bool" where
  "download_removable c p \<longleftrightarrow> p \<noteq> [] \<and> butlast p = sg_download_path c \<and> \<not> ends_with ''.part'' (last p) \<and> \<not> ends_with ''.meta.json'' (last p)"

definition block_ok :: "storage_env \<Rightarrow> path \<Rightarrow> path \<Rightarrow> file_meta \<Rightarrow> bool" where
  "block_ok E b p m \<longleftrightarrow> prefix b p \<and> (\<exists>days \<in> {30, 14, 7}. secs_ns (days * 86400) < se_block_clock E days - fm_modified m)"

lemma orphaned_temp_trims: "trims (temp_file_ok E c) t (snd (cleanup_orphaned_temp_files E c t))"
  unfolding cleanup_orphaned_temp_files_def
proof (rule sweep_trims)
  fix n and x :: "u64 \<times> fs_node"
  let ?p = "sg_temp_path c @ [n]"
  have "trims (temp_file_ok E c) (snd y) (snd (remove_if E ?p (\<lambda>_. True) y))"
    if "entry_extension ?p = Some ''tmp'' \<or> entry_extension ?p = Some ''bitmap''" for y
    using that by (intro remove_if_trims) (auto simp: temp_file_ok_def)
  then show "trims (temp_file_ok E c) (snd x) (snd (orphaned_temp_step E ?p x))"
    by (auto simp: orphaned_temp_step_def Let_def)
qed

lemma old_temp_trims: "trims (temp_file_ok E c) t (snd (cleanup_old_temp_files E c (secs_ns 86400) t))"
  unfolding cleanup_old_temp_files_def
  by (rule sweep_trims, rule remove_if_trims) (auto simp: temp_file_ok_def is_older_than_def meta_file_def)

lemma orphaned_part_trims: "trims (stale_part_ok E c) t (snd (cleanup_orphaned_part_files E c t))"
  unfolding cleanup_orphaned_part_files_def
proof (rule sweep_trims)
  fix n and x :: "u64 \<times> fs_node"
  let ?p = "sg_download_path c @ [n]"
  let ?rm = "remove_if E ?p (is_older_than (se_part_clock E ?p) (secs_ns (7 * 86400)))"
  have rm: "trims (stale_part_ok E c) (snd y) (snd (?rm y))" if "entry_extension ?p = Some ''part'' \<or> ends_with ''.meta.json'' (path_to_string ?p)" for y
    using that by (intro remove_if_trims) (auto simp: stale_part_ok_def is_older_than_def meta_file_def)
  then have "trims (stale_part_ok E c) (snd x) (snd (?rm (?rm x)))" if "entry_extension ?p = Some ''part''" using that by (blast intro: trims_trans)
  then show "trims (stale_part_ok E c) (snd x) (snd (orphaned_part_step E ?p x))"
    unfolding orphaned_part_step_def Let_def using rm by auto
qed

lemma completed_download_path:
  "completed_download E t p = Some f \<Longrightarrow> file_name p = Some n \<Longrightarrow> cx_path f = p \<and> \<not> ends_with ''.part'' n \<and> \<not> ends_with ''.meta.json'' n"
  by (auto simp: completed_download_def Let_def file_info_path split: if_splits option.splits fs_node.splits)

lemma remove_lru_trims:
  assumes "\<And>f. f \<in> set fs \<Longrightarrow> cx_path f \<noteq> [] \<and> (\<forall>m. D (cx_path f) m)"
  shows "trims D (snd x) (snd (remove_lru E needed fs x))"
  using assms
proof (induction fs arbitrary: x)
  case (Cons f fs)
  have "trims D (snd x) (snd (count_and_remove E f x))" using Cons.prems by (intro count_and_remove_trims) auto
  also have "trims D (snd (count_and_remove E f x)) (snd (remove_lru E needed fs (count_and_remove E f x)))"
    using Cons.prems by (intro Cons.IH) simp
  finally show ?case by simp
qed simp

lemma completed_download_ok:
  assumes "completed_download E t (sg_download_path c @ [n]) = Some f"
    and "plain_name n"
  shows "cx_path f = sg_download_path c @ [n] \<and> download_removable c (cx_path f)"
  using completed_download_path [OF assms(1), of n] assms(2) by (auto simp: file_name_def download_removable_def plain_name_def)

lemma read_dir_plain: "wf_node t \<Longrightarrow> read_dir E p t = Inr ns \<Longrightarrow> n \<in> set ns \<Longrightarrow> plain_name n"
  by (auto simp: read_dir_def wf_entries_iff dest: wf_node_at split: option.splits fs_node.splits if_splits) (metis fst_conv wf_entries_iff wf_node.simps(2) wf_node_at)

lemma trims_wf: "(wf_node t \<Longrightarrow> trims D t t') \<Longrightarrow> trims D t t'"
  by (auto simp: trims_def)

lemma old_downloads_trims: "trims (\<lambda>p m. download_removable c p) t (snd (cleanup_old_downloads E c needed t))"
proof (rule trims_wf)
  assume wf: "wf_node t"
  show ?thesis
  proof (cases "read_dir E (sg_download_path c) t")
    case (Inr ns)
    let ?fs = "sort_key cx_accessed (List.map_filter (\<lambda>n. completed_download E t (sg_download_path c @ [n])) ns)"
    have "cx_path f \<noteq> [] \<and> (\<forall>m :: file_meta. download_removable c (cx_path f))" if "f \<in> set ?fs" for f
    proof -
      from that obtain n where n: "n \<in> set ns" "completed_download E t (sg_download_path c @ [n]) = Some f"
        by (auto simp: List.map_filter_def)
      with completed_download_ok [OF n(2) read_dir_plain [OF wf Inr n(1)]]
      show ?thesis by (auto simp: download_removable_def)
    qed
    then have "trims (\<lambda>p m. download_removable c p) t (snd (remove_lru E needed ?fs (0, t)))"
      using remove_lru_trims [of ?fs "\<lambda>p m. download_removable c p" "(0, t)" E needed] by simp
    with Inr show ?thesis by (auto simp: cleanup_old_downloads_def Let_def split: prod.splits)
  qed (simp add: cleanup_old_downloads_def Let_def)
qed

text \<open>What a walk over the blocks does to a directory: old files go, and directories that have become empty may go.\<close>

inductive walked :: "(file_meta \<Rightarrow> bool) \<Rightarrow> (string \<times> fs_node) list \<Rightarrow> (string \<times> fs_node) list \<Rightarrow> bool" for old where
  walked_refl: "walked old es es"
| walked_keep: "walked old es es' \<Longrightarrow> walked old (x # es) (x # es')"
| walked_file: "old m \<Longrightarrow> walked old es es' \<Longrightarrow> walked old ((n, FsFile m) # es) es'"
| walked_dir: "walked old ds ds' \<Longrightarrow> walked old es es' \<Longrightarrow> walked old ((n, FsDir m ds) # es) ((n, FsDir m ds') # es')"
| walked_empty: "walked old ds [] \<Longrightarrow> walked old es es' \<Longrightarrow> walked old ((n, FsDir m ds) # es) es'"

definition old_block :: "nat \<Rightarrow> nat \<Rightarrow> file_meta \<Rightarrow> bool" where
  "old_block max_age now m \<longleftrightarrow> max_age < now - fm_modified m"

lemma walk_walked: "walk_entries E max_age now p es r = (x, r', es') \<Longrightarrow> walked (old_block max_age now) es es'"
proof (induction E max_age now p es r arbitrary: x r' es' rule: walk_entries.induct)
  case (2 E max_age now p n m es r)
  then show ?case by (auto simp: old_block_def intro: walked.intros split: if_splits prod.splits)
next
  case (3 E max_age now p n m ds es r)
  show ?case
  proof (cases "io_fails (se_io E) (IoOpen (p @ [n])) \<or> io_fails (se_io E) (IoStat (p @ [n])) \<or> io_fails (se_io E) (IoReadDir (p @ [n]))")
    case True
    with 3 show ?thesis by (auto intro: walked.intros split: if_splits prod.splits)
  next
    case False
    obtain y s ds' where dir: "walk_entries E max_age now (p @ [n]) ds r = (y, s, ds')" by (metis prod_cases3)
    with False "3.IH"(2) have ds: "walked (old_block max_age now) ds ds'" by blast
    show ?thesis
    proof (cases y)
      case (Inl e)
      with 3 False dir ds show ?thesis by (auto intro: walked.intros)
    next
      case (Inr u)
      obtain z s' es'' where "walk_entries E max_age now p es s = (z, s', es'')" by (metis prod_cases3)
      moreover from this have "walked (old_block max_age now) es es''" using "3.IH"(3) [of y "(s, ds')" u s ds'] False dir Inr by simp
      ultimately show ?thesis using "3.prems" False dir Inr ds by (auto intro: walked.intros split: if_splits)
    qed
  qed
qed (auto intro: walked.intros)

lemma walked_names: "walked old es es' \<Longrightarrow> fst ` set es' \<subseteq> fst ` set es"
  by (induction rule: walked.induct) auto

lemma walked_wf: "walked old es es' \<Longrightarrow> wf_entries es \<Longrightarrow> wf_entries es'"
proof (induction rule: walked.induct)
  case (walked_keep es es' x)
  then show ?case using walked_names [OF walked_keep.hyps] unfolding wf_entries_Cons by blast
next
  case (walked_dir ds ds' es es' n m)
  then show ?case using walked_names [OF walked_dir.hyps(2)] by auto
qed auto

text \<open>The file below an entry of a directory.\<close>

definition entry_file :: "(string \<times> fs_node) list \<Rightarrow> string \<Rightarrow> path \<Rightarrow> file_meta option" where
  "entry_file es n p = (case map_of es n of None \<Rightarrow> None | Some t \<Rightarrow> files_at t p)"

lemma entry_file_simps [simp]:
  "entry_file [] k q = None" "entry_file ((n, nd) # es) k q = (if k = n then files_at nd q else entry_file es k q)"
  by (simp_all add: entry_file_def)

lemma files_at_dir: "files_at (FsDir m es) p = (case p of [] \<Rightarrow> None | n # q \<Rightarrow> entry_file es n q)"
  by (cases p) (simp_all add: entry_file_def)

lemma entry_file_absent: "k \<notin> fst ` set es \<Longrightarrow> entry_file es k q = None"
  by (simp add: entry_file_def map_of_eq_None_iff [THEN iffD2])

lemma walked_absent: "walked old es es' \<Longrightarrow> k \<notin> fst ` set es \<Longrightarrow> entry_file es' k q = None"
  using walked_names by (blast intro: entry_file_absent)

lemma walked_new: "walked old es es' \<Longrightarrow> wf_entries es \<Longrightarrow> entry_file es' k q = Some fm \<Longrightarrow> entry_file es k q = Some fm"
proof (induction arbitrary: k q rule: walked.induct)
  case (walked_keep es es' x)
  then show ?case by (cases x) (auto simp: wf_entries_iff split: if_splits)
next
  case (walked_file m es es' n)
  then show ?case using walked_absent [OF walked_file.hyps(2)] by auto
next
  case (walked_dir ds ds' es es' n m)
  then show ?case by (auto simp: files_at_dir split: if_splits list.splits)
next
  case (walked_empty ds es es' n m)
  then show ?case using walked_absent [OF walked_empty.hyps(2)] by auto
qed auto

lemma walked_old: "walked old es es' \<Longrightarrow> wf_entries es \<Longrightarrow> entry_file es k q = Some fm \<Longrightarrow> \<not> old fm \<Longrightarrow> entry_file es' k q = Some fm"
proof (induction arbitrary: k q rule: walked.induct)
  case (walked_keep es es' x)
  then show ?case by (cases x) (auto simp: wf_entries_iff split: if_splits)
next
  case (walked_file m es es' n)
  then show ?case by (cases q) (auto split: if_splits)
next
  case (walked_dir ds ds' es es' n m)
  then show ?case by (auto simp: files_at_dir split: if_splits list.splits)
next
  case (walked_empty ds es es' n m)
  then show ?case by (auto simp: files_at_dir split: if_splits list.splits)
qed auto

lemma walk_trims:
  assumes "walk_and_delete_old_files E b max_age now r t = (x, r', t')"
  shows "trims (\<lambda>p m. prefix b p \<and> old_block max_age now m) t t'"
proof (cases "\<exists>m es. stat_node E b t = Some (FsDir m es) \<and> \<not> io_fails (se_io E) (IoReadDir b)")
  case False
  then have "t' = t" using assms by (auto simp: walk_and_delete_old_files_def split: option.splits fs_node.splits if_splits)
  then show ?thesis by simp
next
  case True
  then obtain m es where dir: "stat_node E b t = Some (FsDir m es)" "\<not> io_fails (se_io E) (IoReadDir b)" by blast
  then have at: "node_at t b = Some (FsDir m es)" by (auto simp: stat_node_def split: if_splits)
  obtain y s es' where walk: "walk_entries E max_age now b es r = (y, s, es')" by (metis prod_cases3)
  with assms dir have t': "t' = put_at (Some (FsDir m es')) b t" by (simp add: walk_and_delete_old_files_def)
  note w = walk_walked [OF walk]
  show ?thesis
  proof (rule trims_wf)
    assume wf: "wf_node t"
    then have wfe: "wf_entries es" using wf_node_at [OF wf at] by simp
    have files: "files_at t' q = (if prefix b q then files_at (FsDir m es') (drop (length b) q) else files_at t q)" for q
      using at by (cases b) (simp_all add: t' files_at_put)
    have below: "files_at t (b @ q) = files_at (FsDir m es) q" for q
      using at by (induction t b rule: node_at.induct) (auto split: option.splits)
    have "wf_node t'" using wf walked_wf [OF w wfe] by (auto simp: t' intro: wf_put)
    moreover have "files_at t q = Some fm" if "files_at t' q = Some fm" for q fm
      using that walked_new [OF w wfe] below by (auto simp: files files_at_dir prefix_def split: if_splits list.splits)
    moreover have "files_at t' q = Some fm \<or> files_at t' q = None \<and> prefix b q \<and> old_block max_age now fm" if fm: "files_at t q = Some fm" for q fm
    proof (cases "prefix b q")
      case True
      then obtain q' where q: "q = b @ q'" by (auto simp: prefix_def)
      then obtain k u where k: "q' = k # u" "entry_file es k u = Some fm" using fm below by (auto simp: files_at_dir split: list.splits)
      have "entry_file es' k u = None \<or> entry_file es' k u = Some fm" using walked_new [OF w wfe, of k u] k(2) by (cases "entry_file es' k u") auto
      moreover have "old_block max_age now fm" if "entry_file es' k u \<noteq> Some fm" using walked_old [OF w wfe k(2)] that by blast
      ultimately show ?thesis by (auto simp: files q files_at_dir k(1))
    qed (use fm files in simp)
    ultimately show ?thesis by (simp add: trims_def)
  qed
qed

lemma old_blocks_trims:
  assumes "days \<in> {30, 14, 7}"
  shows "trims (block_ok E (bm_blockstore_path b)) t (snd (cleanup_old_blocks E b days t))"
proof -
  let ?age = "secs_ns (wmul64 days 86400)"
  have age: "?age = secs_ns (days * 86400)" using assms by (auto simp: wmul64_def)
  have "trims (block_ok E (bm_blockstore_path b)) t t'"
    if "walk_and_delete_old_files E (bm_blockstore_path b) ?age (se_block_clock E days) r t = (x, r', t')" for r x r' t'
    using walk_trims [OF that] by (rule trims_mono) (use assms in \<open>auto simp: block_ok_def old_block_def age\<close>)
  then show ?thesis unfolding cleanup_old_blocks_def Let_def by (auto split: prod.splits sum.splits)
qed

lemma another_round_trims:
  assumes "days \<in> {30, 14, 7}" "another_round E b days (r, t) = (x, t')"
  shows "trims (block_ok E (bm_blockstore_path b)) t t'"
  using assms(2) old_blocks_trims [OF assms(1), of E b t]
  by (auto simp: another_round_def split: sum.splits bool.splits prod.splits)

lemma auto_cleanup_trims: "trims (block_ok E (bm_blockstore_path b)) t (snd (auto_cleanup_if_needed E b t))"
proof -
  obtain r t0 where first: "cleanup_old_blocks E b 30 t = (r, t0)" by fastforce
  have t0: "trims (block_ok E (bm_blockstore_path b)) t t0" using old_blocks_trims [of 30 E b t] first by simp
  obtain x t1 where second: "another_round E b 14 (r, t0) = (x, t1)" by fastforce
  have "trims (block_ok E (bm_blockstore_path b)) t0 t1" using second by (rule another_round_trims [rotated]) simp
  with t0 have t1: "trims (block_ok E (bm_blockstore_path b)) t t1" by (rule trims_trans)
  have "trims (block_ok E (bm_blockstore_path b)) t t2" if "another_round E b 7 (r', t1) = (y, t2)" for r' y t2
    using trims_trans [OF t1 another_round_trims [OF _ that]] by simp
  with t1 show ?thesis by (auto simp: auto_cleanup_if_needed_def first second split: sum.splits bool.splits prod.splits)
qed

lemma blockstore_trims: "trims (block_ok E (sg_blockstore_path c)) t (snd (cleanup_blockstore E c t))"
  using auto_cleanup_trims [of E "\<lparr>bm_blockstore_path = sg_blockstore_path c, bm_cache_limit_mb = sg_cache_size_mb c\<rparr>" t]
  by (auto simp: cleanup_blockstore_def split: prod.splits sum.splits option.splits)

definition removable :: "storage_env \<Rightarrow> storage_config \<Rightarrow> path \<Rightarrow> file_meta \<Rightarrow> bool" where
  "removable E c p m \<longleftrightarrow> temp_file_ok E c p m \<or> stale_part_ok E c p m \<or> download_removable c p \<or> block_ok E (sg_blockstore_path c) p m"

lemma cleanup_step_trims:
  assumes "\<And>r f t. trims D t (snd (work (r, f, t)))"
  shows "trims D (snd (snd s)) (snd (snd (cleanup_step run work note message s)))"
proof -
  obtain r f t where s: "s = (r, f, t)" by (cases s)
  show ?thesis using assms [of t r f] unfolding s by (auto simp: cleanup_step_def split: prod.splits sum.splits)
qed

lemma perform_cleanup_trims: "trims (removable E c) t (snd (perform_cleanup E c u t))"
proof -
  have ok: "trims (removable E c) t (snd (cleanup_orphaned_temp_files E c t))" "trims (removable E c) t (snd (cleanup_old_temp_files E c (secs_ns 86400) t))"
    "trims (removable E c) t (snd (cleanup_orphaned_part_files E c t))" "trims (removable E c) t (snd (cleanup_old_downloads E c needed t))"
    "trims (removable E c) t (snd (cleanup_blockstore E c t))" for t needed
    by (rule trims_mono, rule orphaned_temp_trims old_temp_trims orphaned_part_trims old_downloads_trims blockstore_trims, simp add: removable_def)+
  have steps: "trims (removable E c) (snd (snd s)) (snd (snd (free_orphaned_temp E c s)))" "trims (removable E c) (snd (snd s)) (snd (snd (free_old_temp E c need s)))"
    "trims (removable E c) (snd (snd s)) (snd (snd (free_parts E c need s)))" "trims (removable E c) (snd (snd s)) (snd (snd (free_downloads E c need s)))"
    "trims (removable E c) (snd (snd s)) (snd (snd (free_blocks E c need s)))" for s need
    unfolding free_orphaned_temp_def free_old_temp_def free_parts_def free_downloads_def free_blocks_def
    by (rule cleanup_step_trims, use ok in \<open>simp add: case_prod_unfold\<close>)+
  let ?n = "bytes_to_free c u" and ?s = "(new_cleanup_report, 0, t)"
  have "trims (removable E c) t (snd (snd (free_blocks E c ?n (free_downloads E c ?n (free_parts E c ?n (free_old_temp E c ?n (free_orphaned_temp E c ?s)))))))"
    using trims_trans [OF steps(1) [of ?s] trims_trans [OF steps(2) trims_trans [OF steps(3) trims_trans [OF steps(4) steps(5)]]]] by simp
  then show ?thesis by (simp add: perform_cleanup_def Let_def case_prod_unfold)
qed

text \<open>
  C34: A clean-up takes only what it may. Whatever calls fail, a clean-up leaves the files it does not remove as they were, adds none,
  and a file it removes is a temporary file by its extension or older than a day, a part or metadata file of a download older than a
  week, another file of the download directory, or a block older than at least seven days at the time of its round; of the
  first three kinds only files that lie directly in the directory.
\<close>

theorem cleanup_takes_only_removable:
  assumes "wf_node t" "force_cleanup E c t = (r, t') \<or> check_and_cleanup E c t = (r', t')"
  shows "wf_node t' \<and> (\<forall>p m. files_at t' p = Some m \<longrightarrow> files_at t p = Some m) \<and>
    (\<forall>p m. files_at t p = Some m \<longrightarrow> files_at t' p = Some m \<or> files_at t' p = None \<and> removable E c p m)"
proof -
  have "trims (removable E c) t t'"
    using assms(2) perform_cleanup_trims [of E c t]
    by (auto simp: force_cleanup_def check_and_cleanup_def case_prod_unfold split: sum.splits if_splits)
  with assms(1) show ?thesis by (simp add: trims_def)
qed

section \<open>Sizes\<close>

definition io_calm :: "storage_env \<Rightarrow> bool" where
  "io_calm E \<longleftrightarrow> (\<forall>op. \<not> io_fails (se_io E) op)"

lemma mod_add_mid: "(a + (b mod M + c)) mod M = (a + (b + c)) mod (M :: nat)"
  by (metis mod_add_left_eq mod_add_right_eq)

lemma size_entries_exact: "io_calm E \<Longrightarrow> acc < 2 ^ 64 \<Longrightarrow> size_entries E p es acc = Inr ((acc + entries_weight fm_size es) mod 2 ^ 64)"
proof (induction E p es acc rule: size_entries.induct)
  case (3 E p n m ds es acc)
  then show ?case by (simp add: io_calm_def wadd64_def mod_simps add.assoc mod_add_mid)
qed (simp_all add: io_calm_def wadd64_def mod_simps add.assoc)

lemma block_entries_exact: "io_calm E \<Longrightarrow> acc < 2 ^ 64 \<Longrightarrow> block_entries E p f es acc = Inr ((acc + entries_weight f es) mod 2 ^ 64)"
proof (induction E p f es acc rule: block_entries.induct)
  case (3 E p f n m ds es acc)
  then show ?case by (simp add: io_calm_def wadd64_def mod_simps add.assoc mod_add_mid)
qed (simp_all add: io_calm_def wadd64_def mod_simps add.assoc)

lemma directory_size_exact:
  assumes "io_calm E" "weight_at fm_size p t < 2 ^ 64"
  shows "calculate_directory_size_sync E p t = Inr (weight_at fm_size p t)"
  using assms(1) size_entries_exact [OF assms(1), of 0 p] assms(2)
  by (auto simp: calculate_directory_size_sync_def stat_node_def weight_at_def io_calm_def split: option.splits fs_node.splits)

lemma block_total_exact:
  assumes "io_calm E" "weight_at f p t < 2 ^ 64"
  shows "block_total E p f t = Inr (weight_at f p t)"
  using assms(1) block_entries_exact [OF assms(1), of 0 p f] assms(2)
  by (auto simp: block_total_def stat_node_def weight_at_def io_calm_def split: option.splits fs_node.splits)

text \<open>
  The usage is what is stored. If nothing fails and the total is below 2 to the 64, \<open>calculate_usage\<close> gives for each directory the sum
  of the sizes of all files below it, at any depth, and as the total the sum of the four; the blockstore's own count agrees.
\<close>

theorem usage_is_sum:
  assumes "io_calm E" "parent (sg_download_path c) \<noteq> None \<or> node_at t (sg_download_path c) \<noteq> None"
    and "weight_at fm_size (sg_download_path c) t + weight_at fm_size (sg_blockstore_path c) t + weight_at fm_size (sg_temp_path c) t
      + weight_at fm_size (sg_chunk_storage_path c) t < 2 ^ 64"
  shows "\<exists>u. calculate_usage E c t = Inr u \<and> su_downloads_bytes u = weight_at fm_size (sg_download_path c) t \<and>
    su_blockstore_bytes u = weight_at fm_size (sg_blockstore_path c) t \<and> su_temp_bytes u = weight_at fm_size (sg_temp_path c) t \<and>
    su_total_bytes u = weight_at fm_size (sg_download_path c) t + weight_at fm_size (sg_blockstore_path c) t + weight_at fm_size (sg_temp_path c) t
      + weight_at fm_size (sg_chunk_storage_path c) t \<and>
    calculate_directory_size E (sg_blockstore_path c) t = Inr (su_blockstore_bytes u)"
proof -
  have "\<exists>n. get_available_space E (sg_download_path c) t = Inr n"
    using assms(1,2) by (auto simp: get_available_space_def node_exists_def stat_node_def io_calm_def Let_def split: option.splits)
  then obtain n where "get_available_space E (sg_download_path c) t = Inr n" ..
  with assms show ?thesis
    by (simp add: calculate_usage_def directory_size_exact calculate_directory_size_def block_total_exact wadd64_def)
qed

section \<open>The reports of the blockstore\<close>

text \<open>A counter that went from \<open>a\<close> to \<open>a'\<close> by what a weight lost.\<close>

definition bumped :: "nat \<Rightarrow> nat \<Rightarrow> nat \<Rightarrow> nat \<Rightarrow> bool" where
  "bumped a a' w w' \<longleftrightarrow> (\<exists>k. w = w' + k \<and> a' = (a + k) mod 2 ^ 64)"

lemma bumped_refl: "a < 2 ^ 64 \<Longrightarrow> bumped a a w w"
  by (auto simp: bumped_def intro: exI [of _ 0])

lemma bumped_keep: "bumped a a' w w' \<Longrightarrow> bumped a a' (x + w) (x + w')"
  by (auto simp: bumped_def)

lemma bumped_keep_right: "bumped a a' w w' \<Longrightarrow> bumped a a' (w + x) (w' + x)"
  by (auto simp: bumped_def)

lemma bumped_keep_Suc: "bumped a a' w w' \<Longrightarrow> bumped a a' (Suc w) (Suc w')"
  by (auto simp: bumped_def)

lemma bumped_bump: "bumped (wadd64 a x) a' w w' \<Longrightarrow> bumped a a' (x + w) w'"
  unfolding bumped_def wadd64_def by (metis add.assoc add.commute mod_add_left_eq)

lemma bumped_Suc: "bumped (wadd64 a (Suc 0)) a' w w' \<Longrightarrow> bumped a a' (Suc w) w'"
  using bumped_bump [of a "Suc 0" a' w w'] by simp

lemma wadd64_lt [simp]: "wadd64 a b < 2 ^ 64"
  by (simp add: wadd64_def)

lemma bumped_both: "bumped a b v v' \<Longrightarrow> bumped b c w w' \<Longrightarrow> bumped a c (v + w) (v' + w')"
  unfolding bumped_def by (auto simp: mod_simps add.assoc)

lemma bumped_seq: "bumped a b w w1 \<Longrightarrow> bumped b c w1 w2 \<Longrightarrow> bumped a c w w2"
  unfolding bumped_def by (auto simp: mod_simps add.assoc) (metis add.commute)

lemma bumped_lt: "bumped a a' w w' \<Longrightarrow> a' < 2 ^ 64"
  by (auto simp: bumped_def)

lemma bumped_exact: "bumped 0 a w w' \<Longrightarrow> w < 2 ^ 64 \<Longrightarrow> w = w' + a"
  by (auto simp: bumped_def)

lemma walk_account:
  "walk_entries E max_age now p es r = (x, r', es') \<Longrightarrow> bt_bytes_freed r < 2 ^ 64 \<Longrightarrow> bt_files_deleted r < 2 ^ 64 \<Longrightarrow>
   bumped (bt_bytes_freed r) (bt_bytes_freed r') (entries_weight fm_size es) (entries_weight fm_size es') \<and>
   bumped (bt_files_deleted r) (bt_files_deleted r') (entries_weight (\<lambda>_. 1) es) (entries_weight (\<lambda>_. 1) es')"
proof (induction E max_age now p es r arbitrary: x r' es' rule: walk_entries.induct)
  case (1 E max_age now p r)
  then show ?case by (simp add: bumped_refl)
next
  case (2 E max_age now p n m es r)
  let ?gone = "\<not> io_fails (se_io E) (IoStat (p @ [n])) \<and> fm_modified m \<le> now \<and> max_age < now - fm_modified m"
  show ?case
  proof (cases "\<not> io_fails (se_io E) (IoOpen (p @ [n])) \<and> ?gone \<and> \<not> io_fails (se_io E) (IoRemove (p @ [n]))")
    case True
    with 2 show ?thesis by (auto intro!: bumped_bump bumped_Suc simp: wadd64_lt [simplified])
  next
    case False
    then consider "io_fails (se_io E) (IoOpen (p @ [n]))" | "\<not> io_fails (se_io E) (IoOpen (p @ [n]))" "\<not> ?gone"
      | "\<not> io_fails (se_io E) (IoOpen (p @ [n]))" ?gone "io_fails (se_io E) (IoRemove (p @ [n]))" by blast
    then show ?thesis
      by cases (use 2 in \<open>auto simp: bumped_refl intro!: bumped_keep bumped_keep_Suc split: prod.splits\<close>)
  qed
next
  case (3 E max_age now p n m ds es r)
  show ?case
  proof (cases "io_fails (se_io E) (IoOpen (p @ [n])) \<or> io_fails (se_io E) (IoStat (p @ [n])) \<or> io_fails (se_io E) (IoReadDir (p @ [n]))")
    case True
    then consider "io_fails (se_io E) (IoOpen (p @ [n]))" | "\<not> io_fails (se_io E) (IoOpen (p @ [n]))" "io_fails (se_io E) (IoStat (p @ [n]))"
      | "\<not> io_fails (se_io E) (IoOpen (p @ [n]))" "\<not> io_fails (se_io E) (IoStat (p @ [n]))" "io_fails (se_io E) (IoReadDir (p @ [n]))" by blast
    then show ?thesis by cases (use 3 in \<open>auto simp: bumped_refl intro!: bumped_keep bumped_keep_Suc split: prod.splits\<close>)
  next
    case False
    obtain y s ds' where dir: "walk_entries E max_age now (p @ [n]) ds r = (y, s, ds')" by (metis prod_cases3)
    with False "3.IH"(2) "3.prems" have ds: "bumped (bt_bytes_freed r) (bt_bytes_freed s) (entries_weight fm_size ds) (entries_weight fm_size ds') \<and>
        bumped (bt_files_deleted r) (bt_files_deleted s) (entries_weight (\<lambda>_. 1) ds) (entries_weight (\<lambda>_. 1) ds')" by blast
    show ?thesis
    proof (cases y)
      case (Inl e)
      with 3 False dir ds show ?thesis by (auto intro!: bumped_keep_right)
    next
      case (Inr u)
      obtain z s' es'' where rest: "walk_entries E max_age now p es s = (z, s', es'')" by (metis prod_cases3)
      have es: "bumped (bt_bytes_freed s) (bt_bytes_freed s') (entries_weight fm_size es) (entries_weight fm_size es'') \<and>
          bumped (bt_files_deleted s) (bt_files_deleted s') (entries_weight (\<lambda>_. 1) es) (entries_weight (\<lambda>_. 1) es'')"
        using "3.IH"(3) [of y "(s, ds')" u s ds' z s' es''] False dir Inr rest bumped_lt [OF ds [THEN conjunct1]] bumped_lt [OF ds [THEN conjunct2]] by simp
      have r': "r' = s'" "entries_weight f es' = entries_weight f ds' + entries_weight f es''" for f
        using "3.prems"(1) False dir Inr rest by (auto split: if_splits)
      with ds es show ?thesis by (auto intro: bumped_both)
    qed
  qed
qed

lemma node_at_put_same: "node_at t p \<noteq> None \<Longrightarrow> node_at (put_at (Some s) p t) p = Some s"
proof (induction "Some s" p t rule: put_at.induct)
  case (3 n p m es)
  then obtain t where t: "map_of es n = Some t" "node_at t p \<noteq> None" by (auto split: option.splits)
  with 3(1) [of "(n, t)" n t] map_of_SomeD [OF t(1)] show ?case by (auto simp: map_of_change)
qed simp_all

lemma old_blocks_account:
  assumes "cleanup_old_blocks E b days t = (r, t')"
  shows "bumped 0 (bt_bytes_freed r) (weight_at fm_size (bm_blockstore_path b) t) (weight_at fm_size (bm_blockstore_path b) t') \<and>
    bumped 0 (bt_files_deleted r) (weight_at (\<lambda>_. 1) (bm_blockstore_path b) t) (weight_at (\<lambda>_. 1) (bm_blockstore_path b) t')"
proof -
  let ?p = "bm_blockstore_path b"
  let ?r0 = "\<lparr>bt_bytes_freed = 0, bt_files_deleted = 0, bt_errors = [], bt_method = ''cleanup_old_blocks (>'' @ show_nat days @ '' days)''\<rparr>"
  have walk: "bumped 0 (bt_bytes_freed r') (weight_at fm_size ?p t) (weight_at fm_size ?p t') \<and>
      bumped 0 (bt_files_deleted r') (weight_at (\<lambda>_. 1) ?p t) (weight_at (\<lambda>_. 1) ?p t')"
    if w: "walk_and_delete_old_files E ?p age now ?r0 t = (x, r', t')" for age now x r' t'
  proof (cases "\<exists>m es. stat_node E ?p t = Some (FsDir m es) \<and> \<not> io_fails (se_io E) (IoReadDir ?p)")
    case True
    then obtain m es where dir: "stat_node E ?p t = Some (FsDir m es)" "\<not> io_fails (se_io E) (IoReadDir ?p)" by blast
    then have at: "node_at t ?p = Some (FsDir m es)" by (auto simp: stat_node_def split: if_splits)
    obtain y s es' where walk: "walk_entries E age now ?p es ?r0 = (y, s, es')" by (metis prod_cases3)
    with w dir have "r' = s" "t' = put_at (Some (FsDir m es')) ?p t" by (simp_all add: walk_and_delete_old_files_def)
    with walk_account [OF walk] at show ?thesis by (simp add: weight_at_def node_at_put_same)
  next
    case False
    then have "r' = ?r0" "t' = t" using w by (auto simp: walk_and_delete_old_files_def split: option.splits fs_node.splits if_splits)
    then show ?thesis by (simp add: bumped_refl)
  qed
  show ?thesis
    using assms walk unfolding cleanup_old_blocks_def Let_def
    by (auto simp: bumped_refl split: if_splits prod.splits sum.splits)
qed

lemma bumped_join: "bumped 0 a w w1 \<Longrightarrow> bumped 0 b w1 w2 \<Longrightarrow> bumped 0 (wadd64 a b) w w2"
  unfolding bumped_def wadd64_def by (auto simp: mod_simps add.commute)

lemma another_round_account:
  assumes "another_round E b days (r, t1) = (Inr r', t')" "bumped 0 (bt_bytes_freed r) (weight_at fm_size (bm_blockstore_path b) t) (weight_at fm_size (bm_blockstore_path b) t1) \<and>
    bumped 0 (bt_files_deleted r) (weight_at (\<lambda>_. 1) (bm_blockstore_path b) t) (weight_at (\<lambda>_. 1) (bm_blockstore_path b) t1)"
  shows "bumped 0 (bt_bytes_freed r') (weight_at fm_size (bm_blockstore_path b) t) (weight_at fm_size (bm_blockstore_path b) t') \<and>
    bumped 0 (bt_files_deleted r') (weight_at (\<lambda>_. 1) (bm_blockstore_path b) t) (weight_at (\<lambda>_. 1) (bm_blockstore_path b) t')"
proof -
  obtain r1 t2 where round: "cleanup_old_blocks E b days t1 = (r1, t2)" by fastforce
  from assms(1) round consider "r' = r" "t' = t1" | "r' = join_reports r r1" "t' = t2"
    by (auto simp: another_round_def split: sum.splits bool.splits)
  then show ?thesis using assms(2) old_blocks_account [OF round] by cases (auto simp: join_reports_def intro: bumped_join)
qed

text \<open>
  The report on the blockstore is exact. Whatever calls fail during the automatic clean-up, if it returns a report then the bytes
  and files it says it freed are exactly what the blockstore lost.
\<close>

theorem block_report_exact:
  assumes "auto_cleanup_if_needed E b t = (Inr (Some r), t')"
    and "weight_at fm_size (bm_blockstore_path b) t < 2 ^ 64" "weight_at (\<lambda>_. 1) (bm_blockstore_path b) t < 2 ^ 64"
  shows "weight_at fm_size (bm_blockstore_path b) t = weight_at fm_size (bm_blockstore_path b) t' + bt_bytes_freed r \<and>
    weight_at (\<lambda>_. 1) (bm_blockstore_path b) t = weight_at (\<lambda>_. 1) (bm_blockstore_path b) t' + bt_files_deleted r"
proof -
  obtain r0 t0 where first: "cleanup_old_blocks E b 30 t = (r0, t0)" by fastforce
  obtain x t1 where second: "another_round E b 14 (r0, t0) = (x, t1)" by fastforce
  obtain r1 where r1: "x = Inr r1" "another_round E b 7 (r1, t1) = (Inr r, t')"
    using assms(1) first second by (auto simp: auto_cleanup_if_needed_def split: sum.splits bool.splits prod.splits)
  have "bumped 0 (bt_bytes_freed r) (weight_at fm_size (bm_blockstore_path b) t) (weight_at fm_size (bm_blockstore_path b) t') \<and>
    bumped 0 (bt_files_deleted r) (weight_at (\<lambda>_. 1) (bm_blockstore_path b) t) (weight_at (\<lambda>_. 1) (bm_blockstore_path b) t')"
    using another_round_account [OF r1(2) another_round_account [OF second [unfolded r1(1)] old_blocks_account [OF first]]] .
  then show ?thesis using bumped_exact assms(2,3) by blast
qed

section \<open>Least recently used downloads\<close>

lemma remove_lru_split:
  assumes "io_calm E" "fst x + sum_list (map cx_size fs) < 2 ^ 64" "\<And>f. f \<in> set fs \<Longrightarrow> cx_path f \<noteq> []"
  shows "\<exists>gone kept. gone @ kept = fs \<and> fst (remove_lru E needed fs x) = fst x + sum_list (map cx_size gone) \<and>
    (kept = [] \<or> needed \<le> fst x + sum_list (map cx_size gone)) \<and> (gone = [] \<or> fst x + sum_list (map cx_size (butlast gone)) < needed) \<and>
    files_at (snd (remove_lru E needed fs x)) = files_at (snd x) |` (- cx_path ` set gone)"
  using assms
proof (induction fs arbitrary: x)
  case Nil
  then show ?case by (simp add: restrict_map_def)
next
  case (Cons f fs)
  show ?case
  proof (cases "needed \<le> fst x")
    case True
    then show ?thesis by (intro exI [of _ "[]"] exI [of _ "f # fs"]) (simp add: restrict_map_def)
  next
    case False
    let ?y = "count_and_remove E f x"
    have fst: "fst ?y = fst x + cx_size f" using Cons.prems(2) by (simp add: count_and_remove_def wadd64_def)
    have "files_at (snd ?y) = (files_at (snd x))(cx_path f := None)"
      using Cons.prems(1,3) by (simp add: count_and_remove_def remove_file_files io_calm_def)
    then have snd: "files_at (snd ?y) = files_at (snd x) |` (- {cx_path f})" by (auto simp: restrict_map_def fun_eq_iff)
    have room: "fst ?y + sum_list (map cx_size fs) < 2 ^ 64" using Cons.prems(2) fst by simp
    have paths: "cx_path g \<noteq> []" if "g \<in> set fs" for g using Cons.prems(3) that by simp
    obtain gone kept where IH: "gone @ kept = fs"
      "fst (remove_lru E needed fs ?y) = fst x + cx_size f + sum_list (map cx_size gone)"
      "kept = [] \<or> needed \<le> fst x + cx_size f + sum_list (map cx_size gone)"
      "gone = [] \<or> fst x + cx_size f + sum_list (map cx_size (butlast gone)) < needed"
      "files_at (snd (remove_lru E needed fs ?y)) = files_at (snd ?y) |` (- cx_path ` set gone)"
      using Cons.IH [OF Cons.prems(1) room paths] unfolding fst by blast
    have eq: "remove_lru E needed (f # fs) x = remove_lru E needed fs ?y" using False by simp
    have files: "files_at (snd (remove_lru E needed fs ?y)) = files_at (snd x) |` (- cx_path ` set (f # gone))"
      unfolding IH(5) snd by (auto simp: restrict_map_def fun_eq_iff)
    have before: "fst x + sum_list (map cx_size (butlast (f # gone))) < needed" using IH(4) False by (cases gone) (simp_all add: add.assoc)
    have bytes: "fst x + sum_list (map cx_size (f # gone)) = fst x + cx_size f + sum_list (map cx_size gone)" by simp
    show ?thesis
      unfolding eq by (rule exI [of _ "f # gone"], rule exI [of _ kept], unfold bytes) (use IH(1-3) files before in simp)
  qed
qed

text \<open>
  C36: Downloads go least recently used first, and no more than needed. If no call fails, the files removed are a prefix of the completed
  downloads in the order of their last access; the report is the sum of their sizes; files are kept only when enough was freed, and
  before the last removal it was not enough. All other files stay.
\<close>

theorem least_recent_downloads_go:
  assumes "io_calm E" "wf_node t" "read_dir E (sg_download_path c) t = Inr ns" "cleanup_old_downloads E c needed t = (Inr freed, t')"
    and "sum_list (map cx_size (List.map_filter (\<lambda>n. completed_download E t (sg_download_path c @ [n])) ns)) < 2 ^ 64"
  shows "\<exists>gone kept. gone @ kept = sort_key cx_accessed (List.map_filter (\<lambda>n. completed_download E t (sg_download_path c @ [n])) ns) \<and>
    freed = sum_list (map cx_size gone) \<and> (kept = [] \<or> needed \<le> freed) \<and> (gone = [] \<or> sum_list (map cx_size (butlast gone)) < needed) \<and>
    files_at t' = files_at t |` (- cx_path ` set gone)"
proof -
  let ?fs = "sort_key cx_accessed (List.map_filter (\<lambda>n. completed_download E t (sg_download_path c @ [n])) ns)"
  have "mset (map cx_size ?fs) = mset (map cx_size (List.map_filter (\<lambda>n. completed_download E t (sg_download_path c @ [n])) ns))" by simp
  then have "sum_list (map cx_size ?fs) < 2 ^ 64" using assms(5) by (metis sum_mset_sum_list)
  moreover have "cx_path f \<noteq> []" if f: "f \<in> set ?fs" for f
  proof -
    from f obtain n where n: "n \<in> set ns" "completed_download E t (sg_download_path c @ [n]) = Some f" by (auto simp: List.map_filter_def)
    then show ?thesis using completed_download_ok [OF n(2) read_dir_plain [OF assms(2,3) n(1)]] by simp
  qed
  moreover have "node_exists E (sg_download_path c) t"
    using assms(1,3) by (auto simp: node_exists_def stat_node_def io_calm_def read_dir_def split: option.splits)
  with assms(3,4) have "remove_lru E needed ?fs (0, t) = (freed, t')"
    by (auto simp: cleanup_old_downloads_def Let_def split: prod.splits)
  ultimately obtain gone kept where "gone @ kept = ?fs" "freed = sum_list (map cx_size gone)" "kept = [] \<or> needed \<le> sum_list (map cx_size gone)"
    "gone = [] \<or> sum_list (map cx_size (butlast gone)) < needed" "files_at t' = files_at t |` (- cx_path ` set gone)"
    using remove_lru_split [OF assms(1), of "(0, t)" ?fs needed] by auto
  then show ?thesis by blast
qed

text \<open>
  What could not be removed counts as freed. If every removal fails, the clean-up of downloads leaves the tree as it is and still
  reports as many bytes as it was asked for whenever there are downloads of that size, so that the steps after it are skipped.
\<close>

theorem failed_removals_counted:
  assumes "\<And>p. io_fails (se_io E) (IoRemove p)" "cleanup_old_downloads E c needed t = (Inr freed, t')" "node_exists E (sg_download_path c) t"
    and "read_dir E (sg_download_path c) t = Inr ns"
    and "needed \<le> sum_list (map cx_size (List.map_filter (\<lambda>n. completed_download E t (sg_download_path c @ [n])) ns))"
    and "sum_list (map cx_size (List.map_filter (\<lambda>n. completed_download E t (sg_download_path c @ [n])) ns)) < 2 ^ 64"
  shows "t' = t \<and> needed \<le> freed"
proof -
  let ?fs = "sort_key cx_accessed (List.map_filter (\<lambda>n. completed_download E t (sg_download_path c @ [n])) ns)"
  have "snd (remove_lru E needed fs x) = snd x \<and> (needed \<le> fst x + sum_list (map cx_size fs) \<longrightarrow> fst x + sum_list (map cx_size fs) < 2 ^ 64 \<longrightarrow>
      needed \<le> fst (remove_lru E needed fs x))" for fs x
    using assms(1)
    by (induction fs arbitrary: x) (auto simp: count_and_remove_def remove_file_def wadd64_def add.assoc split: option.splits fs_node.splits)
  moreover have "mset (map cx_size ?fs) = mset (map cx_size (List.map_filter (\<lambda>n. completed_download E t (sg_download_path c @ [n])) ns))" by simp
  then have "sum_list (map cx_size ?fs) = sum_list (map cx_size (List.map_filter (\<lambda>n. completed_download E t (sg_download_path c @ [n])) ns))"
    by (metis sum_mset_sum_list)
  moreover have "remove_lru E needed ?fs (0, t) = (freed, t')"
    using assms(2-4) by (auto simp: cleanup_old_downloads_def Let_def split: prod.splits)
  ultimately show ?thesis using assms(5,6) by (metis add_0 fst_conv snd_conv)
qed

section \<open>Temporary files, thresholds\<close>

lemma node_at_append_None: "node_at t p = None \<Longrightarrow> node_at t (p @ q) = None"
  by (induction t p rule: node_at.induct) (auto split: option.splits)

lemma files_at_append: "node_at t p = Some s \<Longrightarrow> files_at t (p @ q) = files_at s q"
  by (induction t p rule: node_at.induct) (auto split: option.splits)

lemma orphaned_temp_step_trims: "p \<noteq> [] \<Longrightarrow> trims (\<lambda>_ _. True) (snd x) (snd (orphaned_temp_step E p x))"
  by (auto simp: orphaned_temp_step_def Let_def intro!: remove_if_trims trims_trans [OF remove_if_trims remove_if_trims])

lemma remove_if_gone:
  assumes "io_calm E" "p \<noteq> []"
  shows "files_at (snd (remove_if E p (\<lambda>_. True) x)) p = None"
proof (cases "file_info_from_path E p (snd x)")
  case None
  with assms(1) have "files_at (snd x) p = None" by (auto simp: file_info_from_path_def stat_node_def io_calm_def files_at_def Let_def split: option.splits)
  with None show ?thesis by (simp add: remove_if_def)
next
  case (Some f)
  with assms show ?thesis by (simp add: remove_if_def count_and_remove_def file_info_path [OF Some] remove_file_files io_calm_def)
qed

text \<open>
  Temporary files of running transfers are removed. If no call fails, the first step of every clean-up leaves no file with the
  extension \<open>tmp\<close> directly in the temporary directory, whether or not a transfer is writing it and however new it is.
\<close>

theorem all_temp_files_go:
  assumes "io_calm E" "wf_node t" "cleanup_orphaned_temp_files E c t = (Inr freed, t')" "entry_extension p = Some ''tmp''"
    and "p = sg_temp_path c @ [n]"
  shows "files_at t' p = None"
proof -
  let ?step = "\<lambda>n. orphaned_temp_step E (sg_temp_path c @ [n])"
  have gone: "files_at (snd (fold ?step ns x)) p = None" if "wf_node (snd x)" "n \<in> set ns \<or> files_at (snd x) p = None" for ns x
    using that
  proof (induction ns arbitrary: x)
    case (Cons k ns)
    have tr: "trims (\<lambda>_ _. True) (snd x) (snd (?step k x))" by (rule orphaned_temp_step_trims) simp
    have "files_at (snd (?step k x)) p = None" if "k = n"
      using assms(1,4,5) that by (simp add: orphaned_temp_step_def Let_def remove_if_gone)
    moreover have "files_at (snd (?step k x)) p = None" if "files_at (snd x) p = None"
      using tr Cons.prems(1) that by (cases "files_at (snd (?step k x)) p") (auto simp: trims_def)
    ultimately show ?case using Cons.IH [of "?step k x"] Cons.prems tr by (auto simp: trims_def)
  qed auto
  show ?thesis
  proof (cases "node_exists E (sg_temp_path c) t")
    case False
    then have "node_at t (sg_temp_path c) = None" using assms(1) by (simp add: node_exists_def stat_node_def io_calm_def)
    then have "node_at t p = None" unfolding assms(5) by (rule node_at_append_None)
    then show ?thesis using assms(3) False by (auto simp: cleanup_orphaned_temp_files_def sweep_def files_at_def)
  next
    case True
    then obtain ns where ns: "read_dir E (sg_temp_path c) t = Inr ns" "fold ?step ns (0, t) = (freed, t')"
      using assms(3) by (auto simp: cleanup_orphaned_temp_files_def sweep_def split: sum.splits prod.splits)
    then obtain m es where dir: "node_at t (sg_temp_path c) = Some (FsDir m es)" "ns = map fst es"
      using assms(1) by (auto simp: read_dir_def io_calm_def split: option.splits fs_node.splits)
    have "files_at t p = entry_file es n []" unfolding assms(5) files_at_append [OF dir(1)] by (simp add: files_at_dir)
    then have "n \<in> set ns \<or> files_at t p = None" using entry_file_absent [of n es "[]"] dir(2) by (cases "n \<in> fst ` set es") simp_all
    then show ?thesis using gone [of "(0, t)" ns] assms(2) ns(2) by simp
  qed
qed

lemma f64_exact_pow2: "k < 1024 \<Longrightarrow> f64_exact (2 ^ k)"
proof -
  assume k: "k < 1024"
  have "round_rat (of_int 1 * 2 powi int k) = of_int 1 * 2 powi int k" by (rule round_to_scaled_int) simp_all
  moreover have "(2 :: rat) ^ k < 2 ^ 1024" using k by (intro power_strict_increasing) simp_all
  ultimately show ?thesis by (simp add: f64_exact_def power_int_def)
qed

lemma f64_of_u64_between:
  assumes "2 ^ i \<le> n" "n \<le> 2 ^ j" "j < 1024"
  shows "f64_in (2 ^ i) (2 ^ j) (f64_of_u64 n)"
proof -
  have "i \<le> j" using le_trans [OF assms(1,2)] by simp
  moreover have "(2 ^ i :: rat) \<le> of_nat n" "of_nat n \<le> (2 ^ j :: rat)"
    using assms(1,2) by (metis of_nat_le_iff of_nat_numeral of_nat_power)+
  ultimately show ?thesis unfolding f64_of_u64_def using assms(3) by (intro f64_of_rat_in f64_exact_pow2) simp_all
qed

text \<open>
  With a threshold below ten per cent almost nothing is freed. The subtraction of ten wraps around, the target becomes the largest
  number there is, and the clean-up takes nothing to be needed beyond its first step, however much is stored.
\<close>

theorem small_threshold_frees_nothing:
  assumes "sg_cleanup_threshold c < 10" "1 \<le> sg_max_storage_size_gb c" "sg_max_storage_size_gb c < 2 ^ 34" "su_total_bytes u < 2 ^ 64"
  shows "bytes_to_free c u = 0"
proof -
  let ?pct = "max (wsub64 (sg_cleanup_threshold c) 10) 50" and ?max = "wmul64 (sg_max_storage_size_gb c) (2 ^ 30)"
  have pct: "2 ^ 63 \<le> ?pct" "?pct \<le> 2 ^ 64" using assms(1) by (simp_all add: wsub64_def)
  have "sg_max_storage_size_gb c * 2 ^ 30 < 2 ^ 34 * 2 ^ 30" using assms(3) by (intro mult_strict_right_mono) simp_all
  then have bytes: "2 ^ 30 \<le> ?max" "?max \<le> 2 ^ 64" using assms(2) by (simp_all add: wmul64_def)
  obtain a where a: "f64_of_u64 ?max = F_Fin a" "2 ^ 30 \<le> a" "a \<le> 2 ^ 64" using f64_of_u64_between [OF bytes] by (auto simp: f64_in_iff)
  obtain b where b: "f64_of_u64 ?pct = F_Fin b" "2 ^ 63 \<le> b" "b \<le> 2 ^ 64" using f64_of_u64_between [OF pct] by (auto simp: f64_in_iff)
  have "(2 :: rat) ^ 30 * 2 ^ 63 \<le> a * b" "a * b \<le> (2 :: rat) ^ 64 * 2 ^ 64" using a b by (intro mult_mono; simp)+
  then have "f64_in (2 ^ 93) (2 ^ 128) (f64_of_rat (a * b))" by (intro f64_of_rat_in f64_exact_pow2) simp_all
  then obtain d where d: "f64_mul (F_Fin a) (F_Fin b) = F_Fin d" "2 ^ 93 \<le> d" "d \<le> 2 ^ 128" by (auto simp: f64_in_iff)
  have "f64_of_u64 100 = F_Fin 100" using f64_of_u64_exact [of 100] by simp
  moreover have "f64_in (2 ^ 86) (2 ^ 128) (f64_of_rat (d / 100))" using d(2,3) by (intro f64_of_rat_in f64_exact_pow2) (simp_all add: field_simps)
  ultimately obtain e where e: "f64_div (F_Fin d) (f64_of_u64 100) = F_Fin e" "2 ^ 86 \<le> e" by (auto simp: f64_in_iff)
  have "int u64_max \<le> \<lfloor>e\<rfloor>" using e(2) by (simp add: le_floor_iff u64_max_def)
  then have "u64_max \<le> nat \<lfloor>e\<rfloor>" by linarith
  then have "f64_to_u64 (F_Fin e) = u64_max" by simp
  then show ?thesis using assms(4) unfolding bytes_to_free_def Let_def a(1) b(1) d(1) e(1) by (simp add: sat_sub_def u64_max_def)
qed

text \<open>No report ever names a deleted file.\<close>

lemma no_files_deleted: "cp_files_deleted (fst (perform_cleanup E c u t)) = 0"
proof -
  have step: "cp_files_deleted (fst (cleanup_step run work upd message s)) = cp_files_deleted (fst s)"
    if "\<And>n r. cp_files_deleted (upd n r) = cp_files_deleted r" for run work upd message s
    using that by (auto simp: cleanup_step_def add_error_def split: prod.splits sum.splits)
  have "cp_files_deleted (fst (free_orphaned_temp E c s)) = cp_files_deleted (fst s)" "cp_files_deleted (fst (free_old_temp E c need s)) = cp_files_deleted (fst s)"
    "cp_files_deleted (fst (free_parts E c need s)) = cp_files_deleted (fst s)" "cp_files_deleted (fst (free_downloads E c need s)) = cp_files_deleted (fst s)"
    "cp_files_deleted (fst (free_blocks E c need s)) = cp_files_deleted (fst s)" for s need
    unfolding free_orphaned_temp_def free_old_temp_def free_parts_def free_downloads_def free_blocks_def
    by (rule step, simp add: temp_note_def)+
  then show ?thesis by (simp add: perform_cleanup_def Let_def case_prod_unfold new_cleanup_report_def)
qed

section \<open>Witnesses\<close>

definition meta_of :: "u64 \<Rightarrow> nat \<Rightarrow> file_meta" where
  "meta_of n time = \<lparr>fm_size = n, fm_modified = time, fm_accessed = time\<rparr>"

definition sample_tree :: fs_node where
  "sample_tree = FsDir (meta_of 0 0) [(''dl'', FsDir (meta_of 0 0) [(''a.iso'', FsFile (meta_of 5 7)), (''b.iso'', FsFile (meta_of 6 3))]),
     (''tmp'', FsDir (meta_of 0 0) [(''x.tmp'', FsFile (meta_of 4 9))]), (''blocks'', FsDir (meta_of 0 0) [(''old'', FsFile (meta_of 2000000 1))])]"

definition sample_storage :: storage_config where
  "sample_storage = \<lparr>sg_max_storage_size_gb = 1, sg_auto_cleanup = True, sg_cleanup_threshold = 5, sg_cache_size_mb = 1, sg_download_path = [''dl''],
     sg_blockstore_path = [''blocks''], sg_temp_path = [''tmp''], sg_chunk_storage_path = [''chunks'']\<rparr>"

definition sample_storage_env :: "io_env \<Rightarrow> storage_env" where
  "sample_storage_env io = \<lparr>se_io = io, se_temp_clock = (\<lambda>_. 10), se_part_clock = (\<lambda>_. 10), se_block_clock = (\<lambda>_. secs_ns (40 * 86400)),
     se_elapsed_ms = None, se_space = (\<lambda>_. 100), se_partly = (\<lambda>t. t)\<rparr>"

lemmas sample_defs = sample_tree_def sample_storage_def sample_storage_env_def meta_of_def

lemma sample_calm: "io_calm (sample_storage_env no_faults)"
  by (simp add: io_calm_def sample_storage_env_def)

lemma sample_wf: "wf_node sample_tree"
  by (simp add: sample_tree_def plain_name_def)

theorem cleanup_takes_only_removable_witness:
  "wf_node (snd (force_cleanup (sample_storage_env no_faults) sample_storage sample_tree))"
  using cleanup_takes_only_removable [OF sample_wf, of "sample_storage_env no_faults" sample_storage
      "fst (force_cleanup (sample_storage_env no_faults) sample_storage sample_tree)"] by simp

theorem usage_is_sum_witness: "\<exists>u. calculate_usage (sample_storage_env no_faults) sample_storage sample_tree = Inr u \<and> su_total_bytes u = 2000015"
proof -
  have "weight_at fm_size [''dl''] sample_tree = 11" "weight_at fm_size [''blocks''] sample_tree = 2000000" "weight_at fm_size [''tmp''] sample_tree = 4"
    "weight_at fm_size [''chunks''] sample_tree = 0" by (simp_all add: weight_at_def sample_tree_def meta_of_def)
  then show ?thesis using usage_is_sum [OF sample_calm, of sample_storage sample_tree]
    by (auto simp: sample_storage_def sample_tree_def parent_def)
qed

theorem least_recent_downloads_go_witness:
  "\<exists>gone kept. gone @ kept = sort_key cx_accessed (List.map_filter (\<lambda>n. completed_download (sample_storage_env no_faults) sample_tree ([''dl''] @ [n])) [''a.iso'', ''b.iso'']) \<and>
    6 = sum_list (map cx_size gone) \<and> (kept = [] \<or> 3 \<le> (6 :: nat)) \<and> (gone = [] \<or> sum_list (map cx_size (butlast gone)) < 3) \<and>
    files_at (snd (cleanup_old_downloads (sample_storage_env no_faults) sample_storage 3 sample_tree)) = files_at sample_tree |` (- cx_path ` set gone)"
proof -
  let ?E = "sample_storage_env no_faults"
  have files: "List.map_filter (\<lambda>n. completed_download ?E sample_tree ([''dl''] @ [n])) [''a.iso'', ''b.iso''] =
    [\<lparr>cx_path = [''dl'', ''a.iso''], cx_size = 5, cx_modified = 7, cx_accessed = 7\<rparr>, \<lparr>cx_path = [''dl'', ''b.iso''], cx_size = 6, cx_modified = 3, cx_accessed = 3\<rparr>]"
    by (simp add: List.map_filter_def completed_download_def file_name_def ends_with_def stat_node_def file_info_from_path_def sample_defs)
  have dir: "read_dir ?E (sg_download_path sample_storage) sample_tree = Inr [''a.iso'', ''b.iso'']"
    by (simp add: read_dir_def sample_defs)
  have path: "sg_download_path sample_storage = [''dl'']" by (simp add: sample_storage_def)
  have there: "node_exists ?E [''dl''] sample_tree" by (simp add: node_exists_def stat_node_def sample_defs)
  have "fst (cleanup_old_downloads ?E sample_storage 3 sample_tree) = Inr 6"
    unfolding cleanup_old_downloads_def Let_def path
    by (simp only: there dir [unfolded path] files not_True_eq_False if_False sum.case) (simp add: count_and_remove_def wadd64_def case_prod_unfold)
  then have "cleanup_old_downloads ?E sample_storage 3 sample_tree = (Inr 6, snd (cleanup_old_downloads ?E sample_storage 3 sample_tree))" by (simp add: prod_eq_iff)
  from least_recent_downloads_go [OF sample_calm sample_wf dir this] show ?thesis unfolding path files by simp
qed

theorem failed_removals_counted_witness:
  "snd (cleanup_old_downloads (sample_storage_env \<lparr>io_fails = (\<lambda>op. \<exists>p. op = IoRemove p), io_short = (\<lambda>_. None)\<rparr>) sample_storage 3 sample_tree) = sample_tree"
proof -
  let ?E = "sample_storage_env \<lparr>io_fails = (\<lambda>op. \<exists>p. op = IoRemove p), io_short = (\<lambda>_. None)\<rparr>"
  have files: "List.map_filter (\<lambda>n. completed_download ?E sample_tree ([''dl''] @ [n])) [''a.iso'', ''b.iso''] =
    [\<lparr>cx_path = [''dl'', ''a.iso''], cx_size = 5, cx_modified = 7, cx_accessed = 7\<rparr>, \<lparr>cx_path = [''dl'', ''b.iso''], cx_size = 6, cx_modified = 3, cx_accessed = 3\<rparr>]"
    by (simp add: List.map_filter_def completed_download_def file_name_def ends_with_def stat_node_def file_info_from_path_def sample_defs)
  have dir: "read_dir ?E (sg_download_path sample_storage) sample_tree = Inr [''a.iso'', ''b.iso'']" by (simp add: read_dir_def sample_defs)
  have path: "sg_download_path sample_storage = [''dl'']" by (simp add: sample_storage_def)
  have there: "node_exists ?E [''dl''] sample_tree" by (simp add: node_exists_def stat_node_def sample_defs)
  have "fst (cleanup_old_downloads ?E sample_storage 3 sample_tree) = Inr 6"
    unfolding cleanup_old_downloads_def Let_def path
    by (simp only: there dir [unfolded path] files not_True_eq_False if_False sum.case) (simp add: count_and_remove_def wadd64_def case_prod_unfold)
  then have res: "cleanup_old_downloads ?E sample_storage 3 sample_tree = (Inr 6, snd (cleanup_old_downloads ?E sample_storage 3 sample_tree))" by (simp add: prod_eq_iff)
  have "snd (cleanup_old_downloads ?E sample_storage 3 sample_tree) = sample_tree \<and> 3 \<le> (6 :: nat)"
  proof (rule failed_removals_counted [OF _ res _ dir])
    show "io_fails (se_io ?E) (IoRemove p)" for p by (simp add: sample_storage_env_def)
    show "node_exists ?E (sg_download_path sample_storage) sample_tree" unfolding path by (rule there)
  qed (simp_all only: path files, simp_all)
  then show ?thesis ..
qed

theorem small_threshold_frees_nothing_witness:
  "bytes_to_free sample_storage \<lparr>su_total_bytes = 2000015, su_downloads_bytes = 11, su_blockstore_bytes = 2000000, su_temp_bytes = 4,
     su_chunk_storage_bytes = 0, su_available_bytes = 100\<rparr> = 0"
  by (rule small_threshold_frees_nothing) (simp_all add: sample_storage_def)

theorem all_temp_files_go_witness:
  "files_at (snd (cleanup_orphaned_temp_files (sample_storage_env no_faults) sample_storage sample_tree)) [''tmp'', ''x.tmp''] = None"
proof -
  have "\<exists>n. fst (cleanup_orphaned_temp_files (sample_storage_env no_faults) sample_storage sample_tree) = Inr n"
    by (auto simp: cleanup_orphaned_temp_files_def sweep_def read_dir_def sample_defs case_prod_unfold)
  then obtain n where "cleanup_orphaned_temp_files (sample_storage_env no_faults) sample_storage sample_tree
      = (Inr n, snd (cleanup_orphaned_temp_files (sample_storage_env no_faults) sample_storage sample_tree))" by (metis prod.collapse)
  moreover have "entry_extension [''tmp'', ''x.tmp''] = Some ''tmp''" by (simp add: entry_extension_def file_name_def file_extension_def file_stem_def)
  ultimately show ?thesis by (rule all_temp_files_go [OF sample_calm sample_wf]) (simp add: sample_storage_def)
qed

theorem block_report_exact_witness:
  "\<exists>r. fst (auto_cleanup_if_needed (sample_storage_env no_faults) \<lparr>bm_blockstore_path = [''blocks''], bm_cache_limit_mb = 1\<rparr> sample_tree) = Inr (Some r) \<and>
    bt_bytes_freed r = 2000000"
proof -
  let ?E = "sample_storage_env no_faults" and ?b = "\<lparr>bm_blockstore_path = [''blocks''], bm_cache_limit_mb = 1\<rparr>"
  have need: "blocks_need_cleanup ?E ?b sample_tree = Inr True"
    by (simp add: blocks_need_cleanup_def get_block_stats_def Let_def node_exists_def stat_node_def calculate_directory_size_def count_files_def block_total_def
        wadd64_def wmul64_def sample_defs)
  let ?t = "snd (cleanup_old_blocks ?E ?b 30 sample_tree)"
  have after: "node_at ?t [''blocks''] = Some (FsDir (meta_of 0 0) [])"
    by (simp add: cleanup_old_blocks_def Let_def node_exists_def stat_node_def walk_and_delete_old_files_def secs_ns_def wmul64_def sample_defs)
  then have small: "blocks_need_cleanup ?E ?b ?t = Inr False"
    by (simp add: blocks_need_cleanup_def get_block_stats_def Let_def node_exists_def stat_node_def calculate_directory_size_def count_files_def block_total_def
        wmul64_def sample_storage_env_def)
  obtain r t where r: "cleanup_old_blocks ?E ?b 30 sample_tree = (r, t)" by fastforce
  then have t: "?t = t" by simp
  have "another_round ?E ?b days (r, t) = (Inr r, t)" for days using small unfolding t by (simp add: another_round_def)
  then have res: "auto_cleanup_if_needed ?E ?b sample_tree = (Inr (Some r), t)" unfolding auto_cleanup_if_needed_def need r by simp
  have "weight_at fm_size [''blocks''] sample_tree = 2000000" "weight_at (\<lambda>_. 1) [''blocks''] sample_tree = 1" "weight_at fm_size [''blocks''] t = 0"
    using after unfolding t by (simp_all add: weight_at_def) (simp_all add: sample_tree_def meta_of_def)
  with block_report_exact [OF res] have "bt_bytes_freed r = 2000000" by simp
  with res show ?thesis by simp
qed

end
