(* ===== verification/Keystore.thy ===== *)
theory Keystore
  imports FileSystem Actions
begin

text \<open>
  \<open>keystore.rs\<close>: accounts with private keys, two-factor secrets and file keys, encrypted with keys derived from a password or with
  a private key, and kept in one JSON file.

  AES-256 in counter mode, PBKDF2 and the JSON codec are parameters; random salts and initialisation vectors, the time and the data
  directory are arguments. A keystore in memory and the disk are the state; every operation that changes accounts saves the whole
  keystore.

  Theorems, at the end: what was stored under a password or a private key is read back with it; addresses stay unique; a wrong
  password is noticed only if what it decrypts to is not UTF-8; adding an account again drops its file keys; a failed save can
  destroy the file; a short private key panics.
\<close>

section \<open>Parameters and data\<close>

record keystore_crypto =
  kc_ctr :: "bytes \<Rightarrow> bytes \<Rightarrow> bytes \<Rightarrow> bytes"
  kc_pbkdf2 :: "string \<Rightarrow> bytes \<Rightarrow> nat \<Rightarrow> bytes option"

text \<open>What the code relies on: counter mode is its own inverse and keeps the length.\<close>

definition ctr_ok :: "keystore_crypto \<Rightarrow> bool" where
  "ctr_ok C \<longleftrightarrow> (\<forall>k iv b. kc_ctr C k iv (kc_ctr C k iv b) = b \<and> length (kc_ctr C k iv b) = length b)"

datatype keystore_error =
    KsNoDirectories
  | KsMkdir io_error
  | KsRead io_error
  | KsParse
  | KsSerialize
  | KsWrite io_error
  | KsAccountNotFound
  | KsDerive
  | KsBadSalt
  | KsBadIv
  | KsBadIvLength
  | KsBadCiphertext
  | KsBadUtf8
  | KsWrongPassword
  | KsKeyNotFound
  | KsBadKeyFormat
  | KsBadKeyLength
  | KsBadPrivateKey
  | KsPanicked

record encrypted_file_key =
  fk_encrypted_key :: string
  fk_key_iv :: string
  fk_file_hash :: string
  fk_created_at :: u64

record encrypted_keystore =
  ka_address :: string
  ka_encrypted_private_key :: string
  ka_salt :: string
  ka_iv :: string
  ka_encrypted_two_fa_secret :: "string option"
  ka_two_fa_iv :: "string option"
  ka_file_encryption_keys :: "string \<rightharpoonup> encrypted_file_key"

type_synonym keystore = "encrypted_keystore list"

record keystore_env =
  ke_io :: io_env
  ke_data_dir :: "path option"
  ke_to_json :: "keystore \<Rightarrow> bytes option"
  ke_from_json :: "bytes \<Rightarrow> keystore option"

type_synonym keystore_state = "keystore \<times> disk"

type_synonym 'a keystore_act = "(keystore_state, keystore_error, 'a) act"

section \<open>Encryption\<close>

definition derive_key :: "keystore_crypto \<Rightarrow> string \<Rightarrow> bytes \<Rightarrow> (keystore_error, bytes) result" where
  "derive_key C password salt = ok_or KsDerive (kc_pbkdf2 C password salt 100000)"

definition encrypt_private_key :: "keystore_crypto \<Rightarrow> bytes \<Rightarrow> bytes \<Rightarrow> string \<Rightarrow> string \<Rightarrow> (keystore_error, string \<times> string \<times> string) result" where
  "encrypt_private_key C salt iv private_key password =
     rbind (derive_key C password salt) (\<lambda>key. Ok (hex_encode (kc_ctr C key iv private_key), hex_encode salt, hex_encode iv))"

definition encrypt_data :: "keystore_crypto \<Rightarrow> bytes \<Rightarrow> string \<Rightarrow> string \<Rightarrow> string \<Rightarrow> (keystore_error, string \<times> string) result" where
  "encrypt_data C iv secret password salt_hex =
     rbind (ok_or KsBadSalt (hex_decode salt_hex)) (\<lambda>salt. rbind (derive_key C password salt) (\<lambda>key.
       Ok (hex_encode (kc_ctr C key iv secret), hex_encode iv)))"

definition try_decrypt :: "keystore_crypto \<Rightarrow> string \<Rightarrow> string \<Rightarrow> string \<Rightarrow> string \<Rightarrow> (string \<Rightarrow> bytes \<Rightarrow> bytes option) \<Rightarrow> (keystore_error, string) result" where
  "try_decrypt C encrypted_hex salt_hex iv_hex password derive =
     rbind (ok_or KsBadSalt (hex_decode salt_hex)) (\<lambda>salt.
     rbind (ok_or KsBadIv (hex_decode iv_hex)) (\<lambda>iv.
     rbind (ok_or KsBadCiphertext (hex_decode encrypted_hex)) (\<lambda>ciphertext.
     rbind (ok_or KsDerive (derive password salt)) (\<lambda>key.
       if length iv \<noteq> 16 then Err KsBadIvLength
       else let plain = kc_ctr C key iv ciphertext in if utf8_valid plain then Ok plain else Err KsBadUtf8))))"

definition ks_decrypt_data :: "keystore_crypto \<Rightarrow> string \<Rightarrow> string \<Rightarrow> string \<Rightarrow> string \<Rightarrow> (keystore_error, string) result" where
  "ks_decrypt_data C encrypted_hex salt_hex iv_hex password =
     (case try_decrypt C encrypted_hex salt_hex iv_hex password (\<lambda>p s. kc_pbkdf2 C p s 100000) of
        Inr plain \<Rightarrow> Ok plain
      | Inl _ \<Rightarrow> try_decrypt C encrypted_hex salt_hex iv_hex password (\<lambda>p s. kc_pbkdf2 C p s 4096))"

definition decrypt_private_key :: "keystore_crypto \<Rightarrow> string \<Rightarrow> string \<Rightarrow> string \<Rightarrow> string \<Rightarrow> (keystore_error, string) result" where
  "decrypt_private_key C encrypted salt iv password = ks_decrypt_data C encrypted salt iv password"

section \<open>The file\<close>

definition get_keystore_path :: "keystore_env \<Rightarrow> (keystore_error, path) result" where
  "get_keystore_path E = (case ke_data_dir E of
     None \<Rightarrow> Err KsNoDirectories
   | Some dir \<Rightarrow> (case fs_mkdir (ke_io E) dir of Inl e \<Rightarrow> Err (KsMkdir e) | Inr _ \<Rightarrow> Ok (path_join dir ''keystore.json'')))"

definition load_keystore :: "keystore_env \<Rightarrow> disk \<Rightarrow> (keystore_error, keystore) result" where
  "load_keystore E d =
     rbind (get_keystore_path E) (\<lambda>p.
       if \<not> fs_exists (ke_io E) p d then Ok []
       else case fs_read (ke_io E) p d of
              Inl e \<Rightarrow> Err (KsRead e)
            | Inr b \<Rightarrow> ok_or KsParse (ke_from_json E b))"

definition save_keystore :: "keystore_env \<Rightarrow> unit keystore_act" where
  "save_keystore E s = (case s of (ks, d) \<Rightarrow> (case get_keystore_path E of
     Inl e \<Rightarrow> (Err e, s)
   | Inr p \<Rightarrow> (case ke_to_json E ks of
       None \<Rightarrow> (Err KsSerialize, s)
     | Some b \<Rightarrow> (case fs_write (ke_io E) p b d of
         (Inl e, d') \<Rightarrow> (Err (KsWrite e), (ks, d'))
       | (Inr _, d') \<Rightarrow> (Ok (), (ks, d'))))))"

section \<open>Accounts\<close>

definition find_account :: "string \<Rightarrow> keystore \<Rightarrow> (keystore_error, encrypted_keystore) result" where
  "find_account address ks = ok_or KsAccountNotFound (find (\<lambda>a. ka_address a = address) ks)"

text \<open>\<open>iter_mut().find\<close>: the first account with the address is changed in place.\<close>

fun change_account :: "string \<Rightarrow> (encrypted_keystore \<Rightarrow> encrypted_keystore) \<Rightarrow> keystore \<Rightarrow> keystore" where
  "change_account address f [] = []"
| "change_account address f (a # ks) = (if ka_address a = address then f a # ks else a # change_account address f ks)"

definition add_account :: "keystore_env \<Rightarrow> keystore_crypto \<Rightarrow> bytes \<Rightarrow> bytes \<Rightarrow> string \<Rightarrow> string \<Rightarrow> string \<Rightarrow> unit keystore_act" where
  "add_account E C salt iv address private_key password =
     and_then (of_result (encrypt_private_key C salt iv private_key password)) (\<lambda>(encrypted, salt_hex, iv_hex) (ks, d).
       save_keystore E (filter (\<lambda>a. ka_address a \<noteq> address) ks @
         [\<lparr>ka_address = address, ka_encrypted_private_key = encrypted, ka_salt = salt_hex, ka_iv = iv_hex,
           ka_encrypted_two_fa_secret = None, ka_two_fa_iv = None, ka_file_encryption_keys = Map.empty\<rparr>], d))"

definition get_account :: "keystore_crypto \<Rightarrow> string \<Rightarrow> string \<Rightarrow> keystore \<Rightarrow> (keystore_error, string) result" where
  "get_account C address password ks =
     rbind (find_account address ks) (\<lambda>a. decrypt_private_key C (ka_encrypted_private_key a) (ka_salt a) (ka_iv a) password)"

definition is_2fa_enabled :: "string \<Rightarrow> keystore \<Rightarrow> (keystore_error, bool) result" where
  "is_2fa_enabled address ks = rbind (find_account address ks) (\<lambda>a. Ok (ka_encrypted_two_fa_secret a \<noteq> None))"

definition get_2fa_secret :: "keystore_crypto \<Rightarrow> string \<Rightarrow> string \<Rightarrow> keystore \<Rightarrow> (keystore_error, string option) result" where
  "get_2fa_secret C address password ks =
     rbind (find_account address ks) (\<lambda>a. case (ka_encrypted_two_fa_secret a, ka_two_fa_iv a) of
       (Some secret, Some iv) \<Rightarrow> rbind (ks_decrypt_data C secret (ka_salt a) iv password) (\<lambda>plain. Ok (Some plain))
     | _ \<Rightarrow> Ok None)"

definition set_2fa_secret :: "keystore_env \<Rightarrow> keystore_crypto \<Rightarrow> bytes \<Rightarrow> string \<Rightarrow> string \<Rightarrow> string \<Rightarrow> unit keystore_act" where
  "set_2fa_secret E C iv address secret password s =
     and_then (of_result (rbind (find_account address (fst s)) (\<lambda>a. encrypt_data C iv secret password (ka_salt a)))) (\<lambda>(encrypted, iv_hex) (ks, d).
       save_keystore E (change_account address (\<lambda>a. a\<lparr>ka_encrypted_two_fa_secret := Some encrypted, ka_two_fa_iv := Some iv_hex\<rparr>) ks, d)) s"

definition remove_2fa_secret :: "keystore_env \<Rightarrow> keystore_crypto \<Rightarrow> string \<Rightarrow> string \<Rightarrow> unit keystore_act" where
  "remove_2fa_secret E C address password s =
     and_then (of_result (rbind (find_account address (fst s)) (\<lambda>a. case (ka_encrypted_two_fa_secret a, ka_two_fa_iv a) of
         (Some secret, Some iv) \<Rightarrow> (case ks_decrypt_data C secret (ka_salt a) iv password of Inl _ \<Rightarrow> Err KsWrongPassword | Inr _ \<Rightarrow> Ok ())
       | _ \<Rightarrow> Ok ()))) (\<lambda>_ (ks, d).
       save_keystore E (change_account address (\<lambda>a. a\<lparr>ka_encrypted_two_fa_secret := None, ka_two_fa_iv := None\<rparr>) ks, d)) s"

definition remove_account :: "keystore_env \<Rightarrow> string \<Rightarrow> unit keystore_act" where
  "remove_account E address s = (case s of (ks, d) \<Rightarrow> save_keystore E (filter (\<lambda>a. ka_address a \<noteq> address) ks, d))"

definition list_accounts :: "keystore \<Rightarrow> string list" where
  "list_accounts ks = map ka_address ks"

section \<open>File keys\<close>

definition add_file_key :: "string \<Rightarrow> encrypted_file_key \<Rightarrow> encrypted_keystore \<Rightarrow> encrypted_keystore" where
  "add_file_key file_hash k a = a\<lparr>ka_file_encryption_keys := (ka_file_encryption_keys a)(file_hash \<mapsto> k)\<rparr>"

definition store_file_encryption_key :: "keystore_env \<Rightarrow> keystore_crypto \<Rightarrow> bytes \<Rightarrow> u64 \<Rightarrow> string \<Rightarrow> string \<Rightarrow> bytes \<Rightarrow> string \<Rightarrow> unit keystore_act" where
  "store_file_encryption_key E C iv now address file_hash key password s =
     and_then (of_result (rbind (find_account address (fst s)) (\<lambda>a. encrypt_data C iv (hex_encode key) password (ka_salt a)))) (\<lambda>(encrypted, iv_hex) (ks, d).
       save_keystore E (change_account address
         (add_file_key file_hash \<lparr>fk_encrypted_key = encrypted, fk_key_iv = iv_hex, fk_file_hash = file_hash, fk_created_at = now\<rparr>) ks, d)) s"

definition find_file_key :: "string \<Rightarrow> string \<Rightarrow> keystore \<Rightarrow> (keystore_error, encrypted_keystore \<times> encrypted_file_key) result" where
  "find_file_key address file_hash ks =
     rbind (find_account address ks) (\<lambda>a. rbind (ok_or KsKeyNotFound (ka_file_encryption_keys a file_hash)) (\<lambda>k. Ok (a, k)))"

definition get_file_encryption_key :: "keystore_crypto \<Rightarrow> string \<Rightarrow> string \<Rightarrow> string \<Rightarrow> keystore \<Rightarrow> (keystore_error, bytes) result" where
  "get_file_encryption_key C address file_hash password ks =
     rbind (find_file_key address file_hash ks) (\<lambda>(a, k).
     rbind (ks_decrypt_data C (fk_encrypted_key k) (ka_salt a) (fk_key_iv k) password) (\<lambda>plain.
     rbind (ok_or KsBadKeyFormat (hex_decode plain)) (\<lambda>key. if length key = 32 then Ok key else Err KsBadKeyLength)))"

text \<open>\<open>keys\<close> is the iteration order of the map.\<close>

definition list_file_encryption_keys :: "string list \<Rightarrow> string \<Rightarrow> keystore \<Rightarrow> (keystore_error, string list) result" where
  "list_file_encryption_keys keys address ks =
     rbind (find_account address ks) (\<lambda>a. Ok (filter (\<lambda>k. k \<in> dom (ka_file_encryption_keys a)) keys))"

text \<open>The first 32 bytes of the private key; slicing a shorter one panics before the length is checked.\<close>

definition private_key_bytes :: "string \<Rightarrow> (keystore_error, bytes) result" where
  "private_key_bytes private_key =
     rbind (ok_or KsBadPrivateKey (hex_decode (strip_many [''0x''] (length private_key) private_key))) (\<lambda>b.
       if length b < 32 then Err KsPanicked else Ok (take 32 b))"

definition store_file_encryption_key_with_private_key ::
    "keystore_env \<Rightarrow> keystore_crypto \<Rightarrow> bytes \<Rightarrow> u64 \<Rightarrow> string \<Rightarrow> string \<Rightarrow> bytes \<Rightarrow> string \<Rightarrow> unit keystore_act" where
  "store_file_encryption_key_with_private_key E C iv now address file_hash key private_key s =
     and_then (of_result (rbind (find_account address (fst s)) (\<lambda>a. private_key_bytes private_key))) (\<lambda>wrap (ks, d).
       save_keystore E (change_account address (add_file_key file_hash
         \<lparr>fk_encrypted_key = hex_encode (kc_ctr C wrap iv key), fk_key_iv = hex_encode iv, fk_file_hash = file_hash, fk_created_at = now\<rparr>) ks, d)) s"

definition get_file_encryption_key_with_private_key :: "keystore_crypto \<Rightarrow> string \<Rightarrow> string \<Rightarrow> string \<Rightarrow> keystore \<Rightarrow> (keystore_error, bytes) result" where
  "get_file_encryption_key_with_private_key C address file_hash private_key ks =
     rbind (find_file_key address file_hash ks) (\<lambda>(a, k).
     rbind (private_key_bytes private_key) (\<lambda>wrap.
     rbind (ok_or KsBadIv (hex_decode (fk_key_iv k))) (\<lambda>iv.
       if length iv \<noteq> 16 then Err KsBadIvLength
       else rbind (ok_or KsBadCiphertext (hex_decode (fk_encrypted_key k))) (\<lambda>ciphertext.
         if length ciphertext = 32 then Ok (kc_ctr C wrap iv ciphertext) else Err KsBadKeyLength))))"

section \<open>Lemmas\<close>

lemma ctr_okD: "ctr_ok C \<Longrightarrow> kc_ctr C k iv (kc_ctr C k iv b) = b" "ctr_ok C \<Longrightarrow> length (kc_ctr C k iv b) = length b"
  by (auto simp: ctr_ok_def)

lemma save_keystore_memory: "fst (snd (save_keystore E (ks, d))) = ks"
  by (auto simp: save_keystore_def split: sum.splits option.splits prod.splits)

lemma decrypts_own:
  assumes "ctr_ok C" "kc_pbkdf2 C password salt 100000 = Some key" "length iv = 16" "utf8_valid plain"
  shows "ks_decrypt_data C (hex_encode (kc_ctr C key iv plain)) (hex_encode salt) (hex_encode iv) password = Inr plain"
  using assms by (simp add: ks_decrypt_data_def try_decrypt_def ok_or_def ctr_okD)

lemma find_change_same: "find (\<lambda>a. ka_address a = address) ks = Some a \<Longrightarrow> ka_address (f a) = address \<Longrightarrow>
    find (\<lambda>a. ka_address a = address) (change_account address f ks) = Some (f a)"
  by (induction ks) (auto split: if_splits)

lemma find_change_other:
  assumes "other \<noteq> address" "\<And>a. ka_address (f a) = ka_address a"
  shows "find (\<lambda>a. ka_address a = other) (change_account address f ks) = find (\<lambda>a. ka_address a = other) ks"
  by (induction ks) (use assms in auto)

lemma change_addresses: "(\<And>a. ka_address (f a) = ka_address a) \<Longrightarrow> map ka_address (change_account address f ks) = map ka_address ks"
  by (induction ks) auto

lemma find_filter_other:
  "find (\<lambda>a. ka_address a = address) (filter (\<lambda>a. ka_address a \<noteq> address) ks @ [x]) = (if ka_address x = address then Some x else None)"
  by (induction ks) auto

lemma find_filter_keeps:
  "other \<noteq> address \<Longrightarrow> find (\<lambda>a. ka_address a = other) (filter (\<lambda>a. ka_address a \<noteq> address) ks) = find (\<lambda>a. ka_address a = other) ks"
  by (induction ks) auto

lemma find_append: "find P (xs @ ys) = (case find P xs of None \<Rightarrow> find P ys | Some x \<Rightarrow> Some x)"
  by (induction xs) auto

lemma find_address: "find (\<lambda>a. ka_address a = address) ks = Some a \<Longrightarrow> ka_address a = address"
  by (auto simp: find_Some_iff)

section \<open>What is stored is read back\<close>

text \<open>
  A private key comes back with its password, and other accounts are untouched. After \<open>add_account\<close>, whether or not the keystore could
  be saved, the account in memory opens with the password it was added with and gives the same private key; the private keys of
  all other accounts are what they were, for every password.
\<close>

theorem account_round_trip:
  assumes "ctr_ok C" "kc_pbkdf2 C password salt 100000 \<noteq> None" "length iv = 16" "utf8_valid private_key"
    and "add_account E C salt iv address private_key password (ks, d) = (r, (ks', d'))"
  shows "get_account C address password ks' = Inr private_key \<and> (other \<noteq> address \<longrightarrow> get_account C other any ks' = get_account C other any ks)"
proof -
  from assms(2) obtain key where key: "kc_pbkdf2 C password salt 100000 = Some key" by blast
  let ?a = "\<lparr>ka_address = address, ka_encrypted_private_key = hex_encode (kc_ctr C key iv private_key), ka_salt = hex_encode salt, ka_iv = hex_encode iv,
    ka_encrypted_two_fa_secret = None, ka_two_fa_iv = None, ka_file_encryption_keys = Map.empty\<rparr>"
  have "save_keystore E (filter (\<lambda>a. ka_address a \<noteq> address) ks @ [?a], d) = (r, (ks', d'))"
    using assms(5) key by (simp add: add_account_def encrypt_private_key_def derive_key_def ok_or_def)
  then have ks': "ks' = filter (\<lambda>a. ka_address a \<noteq> address) ks @ [?a]" using save_keystore_memory [of E _ d] by (metis fst_conv snd_conv)
  have "get_account C address password ks' = Inr private_key"
    using assms(1,3,4) key by (simp add: ks' get_account_def find_account_def find_filter_other ok_or_def decrypt_private_key_def decrypts_own)
  moreover have "get_account C other any ks' = get_account C other any ks" if "other \<noteq> address"
    using that by (simp add: ks' get_account_def find_account_def find_append find_filter_keeps split: option.splits)
  ultimately show ?thesis by blast
qed

definition toy_keystore_crypto :: keystore_crypto where
  "toy_keystore_crypto = \<lparr>kc_ctr = (\<lambda>k iv b. b), kc_pbkdf2 = (\<lambda>p s n. Some p)\<rparr>"

definition toy_keystore_env :: "io_env \<Rightarrow> keystore_env" where
  "toy_keystore_env io = \<lparr>ke_io = io, ke_data_dir = Some [''data''], ke_to_json = (\<lambda>ks. Some ''{}''), ke_from_json = (\<lambda>b. if b = ''{}'' then Some [] else None)\<rparr>"

lemma toy_ctr_ok: "ctr_ok toy_keystore_crypto"
  by (simp add: ctr_ok_def toy_keystore_crypto_def)

definition sixteen :: bytes where "sixteen = replicate 16 (CHR ''i'')"

theorem account_round_trip_witness:
  "get_account toy_keystore_crypto ''0xa'' ''pw'' (fst (snd (add_account (toy_keystore_env no_faults) toy_keystore_crypto ''salt'' sixteen ''0xa'' ''secret'' ''pw'' ([], Map.empty))))
    = Inr ''secret''"
proof -
  obtain r ks' d' where res: "add_account (toy_keystore_env no_faults) toy_keystore_crypto ''salt'' sixteen ''0xa'' ''secret'' ''pw'' ([], Map.empty) = (r, (ks', d'))"
    by (metis prod_cases3)
  have "kc_pbkdf2 toy_keystore_crypto ''pw'' ''salt'' 100000 \<noteq> None" "length sixteen = 16" "utf8_valid ''secret''"
    by (simp add: toy_keystore_crypto_def, simp add: sixteen_def, code_simp)
  from account_round_trip [OF toy_ctr_ok this res, of "''0xb''" "[]"] res show ?thesis by simp
qed

text \<open>
  A file key comes back with the private key it was stored with. After \<open>store_file_encryption_key_with_private_key\<close> the key is
  found under the account and the hash it was stored under, with the same private key, whether or not the keystore could be saved.
\<close>

theorem file_key_round_trip:
  assumes "ctr_ok C" "length iv = 16" "length key = 32" "find_account address ks = Inr a" "private_key_bytes private_key = Inr wrap"
    and "store_file_encryption_key_with_private_key E C iv now address file_hash key private_key (ks, d) = (r, (ks', d'))"
  shows "get_file_encryption_key_with_private_key C address file_hash private_key ks' = Inr key"
proof -
  let ?k = "\<lparr>fk_encrypted_key = hex_encode (kc_ctr C wrap iv key), fk_key_iv = hex_encode iv, fk_file_hash = file_hash, fk_created_at = now\<rparr>"
  have a: "find (\<lambda>a. ka_address a = address) ks = Some a" using assms(4) by (auto simp: find_account_def ok_or_def split: option.splits)
  have "save_keystore E (change_account address (add_file_key file_hash ?k) ks, d) = (r, (ks', d'))"
    using assms(4-6) by (simp add: store_file_encryption_key_with_private_key_def)
  then have ks': "ks' = change_account address (add_file_key file_hash ?k) ks" using save_keystore_memory [of E _ d] by (metis fst_conv snd_conv)
  have "find (\<lambda>a. ka_address a = address) ks' = Some (add_file_key file_hash ?k a)"
    unfolding ks' using a by (rule find_change_same) (use find_address [OF a] in \<open>simp add: add_file_key_def\<close>)
  then show ?thesis using assms(1-3,5)
    by (simp add: get_file_encryption_key_with_private_key_def find_file_key_def find_account_def ok_or_def add_file_key_def ctr_okD)
qed

theorem file_key_round_trip_witness:
  "get_file_encryption_key_with_private_key toy_keystore_crypto ''0xa'' ''h'' (hex_encode (replicate 32 (CHR ''p'')))
     (fst (snd (store_file_encryption_key_with_private_key (toy_keystore_env no_faults) toy_keystore_crypto sixteen 5 ''0xa'' ''h'' (replicate 32 (CHR ''k''))
       (hex_encode (replicate 32 (CHR ''p'')))
       ([\<lparr>ka_address = ''0xa'', ka_encrypted_private_key = [], ka_salt = [], ka_iv = [], ka_encrypted_two_fa_secret = None, ka_two_fa_iv = None, ka_file_encryption_keys = Map.empty\<rparr>], Map.empty))))
    = Inr (replicate 32 (CHR ''k''))"
proof -
  let ?a = "\<lparr>ka_address = ''0xa'', ka_encrypted_private_key = [], ka_salt = [], ka_iv = [], ka_encrypted_two_fa_secret = None, ka_two_fa_iv = None, ka_file_encryption_keys = Map.empty\<rparr>"
  obtain r ks' d' where res: "store_file_encryption_key_with_private_key (toy_keystore_env no_faults) toy_keystore_crypto sixteen 5 ''0xa'' ''h'' (replicate 32 (CHR ''k''))
       (hex_encode (replicate 32 (CHR ''p''))) ([?a], Map.empty) = (r, (ks', d'))" by (metis prod_cases3)
  have "find_account ''0xa'' [?a] = Inr ?a" by (simp add: find_account_def ok_or_def)
  moreover have "private_key_bytes (hex_encode (replicate 32 (CHR ''p''))) = Inr (replicate 32 (CHR ''p''))" by code_simp
  ultimately have "get_file_encryption_key_with_private_key toy_keystore_crypto ''0xa'' ''h'' (hex_encode (replicate 32 (CHR ''p''))) ks' = Inr (replicate 32 (CHR ''k''))"
    by (rule file_key_round_trip [OF toy_ctr_ok _ _ _ _ res, rotated 2]) (simp_all add: sixteen_def)
  with res show ?thesis by simp
qed

section \<open>Addresses\<close>

inductive keystore_step :: "keystore_env \<Rightarrow> keystore_crypto \<Rightarrow> keystore_state \<Rightarrow> keystore_state \<Rightarrow> bool" for E C where
  step_add: "add_account E C salt iv address private_key password s = (r, s') \<Longrightarrow> keystore_step E C s s'"
| step_set_2fa: "set_2fa_secret E C iv address secret password s = (r, s') \<Longrightarrow> keystore_step E C s s'"
| step_remove_2fa: "remove_2fa_secret E C address password s = (r, s') \<Longrightarrow> keystore_step E C s s'"
| step_remove: "remove_account E address s = (r, s') \<Longrightarrow> keystore_step E C s s'"
| step_store: "store_file_encryption_key E C iv now address file_hash key password s = (r, s') \<Longrightarrow> keystore_step E C s s'"
| step_store_with: "store_file_encryption_key_with_private_key E C iv now address file_hash key private_key s = (r, s') \<Longrightarrow> keystore_step E C s s'"

lemma save_after: "and_then (of_result x) (\<lambda>y (ks, d). save_keystore E (f y ks, d)) s = (r, s') \<Longrightarrow> fst s' = fst s \<or> (\<exists>y. fst s' = f y (fst s))"
  using save_keystore_memory by (cases x; cases s) (auto, metis fst_conv snd_conv)

lemma keystore_step_distinct: "keystore_step E C s s' \<Longrightarrow> distinct (map ka_address (fst s)) \<Longrightarrow> distinct (map ka_address (fst s'))"
proof (induction rule: keystore_step.induct)
  case (step_add salt iv address private_key password s r s')
  have "fst s' = fst s \<or> (\<exists>y. fst s' = (\<lambda>(encrypted, salt_hex, iv_hex) ks. filter (\<lambda>a. ka_address a \<noteq> address) ks @
         [\<lparr>ka_address = address, ka_encrypted_private_key = encrypted, ka_salt = salt_hex, ka_iv = iv_hex,
           ka_encrypted_two_fa_secret = None, ka_two_fa_iv = None, ka_file_encryption_keys = Map.empty\<rparr>]) y (fst s))"
    using step_add.hyps unfolding add_account_def by (intro save_after [of "encrypt_private_key C salt iv private_key password" E _ s r]) (simp add: case_prod_unfold)
  then show ?case using step_add.prems by (auto simp: distinct_map_filter)
next
  case (step_set_2fa iv address secret password s r s')
  then have "fst s' = fst s \<or> (\<exists>y. fst s' = change_account address (\<lambda>a. a\<lparr>ka_encrypted_two_fa_secret := Some (fst y), ka_two_fa_iv := Some (snd y)\<rparr>) (fst s))"
    unfolding set_2fa_secret_def by (intro save_after) (simp add: case_prod_unfold)
  then show ?case using step_set_2fa.prems by (auto simp: change_addresses)
next
  case (step_remove_2fa address password s r s')
  then have "fst s' = fst s \<or> (\<exists>y :: unit. fst s' = change_account address (\<lambda>a. a\<lparr>ka_encrypted_two_fa_secret := None, ka_two_fa_iv := None\<rparr>) (fst s))"
    unfolding remove_2fa_secret_def by (intro save_after) (simp add: case_prod_unfold)
  then show ?case using step_remove_2fa.prems by (auto simp: change_addresses)
next
  case (step_remove address s r s')
  then have "fst s' = filter (\<lambda>a. ka_address a \<noteq> address) (fst s)" using save_keystore_memory
    by (cases s) (auto simp: remove_account_def, metis fst_conv snd_conv)
  then show ?case using step_remove.prems by (simp add: distinct_map_filter)
next
  case (step_store iv now address file_hash key password s r s')
  then have "fst s' = fst s \<or> (\<exists>y. fst s' = change_account address (add_file_key file_hash
      \<lparr>fk_encrypted_key = fst y, fk_key_iv = snd y, fk_file_hash = file_hash, fk_created_at = now\<rparr>) (fst s))"
    unfolding store_file_encryption_key_def by (intro save_after) (simp add: case_prod_unfold)
  then show ?case using step_store.prems by (auto simp: change_addresses add_file_key_def)
next
  case (step_store_with iv now address file_hash key private_key s r s')
  then have "fst s' = fst s \<or> (\<exists>y. fst s' = change_account address (add_file_key file_hash
      \<lparr>fk_encrypted_key = hex_encode (kc_ctr C y iv key), fk_key_iv = hex_encode iv, fk_file_hash = file_hash, fk_created_at = now\<rparr>) (fst s))"
    unfolding store_file_encryption_key_with_private_key_def by (intro save_after) (simp add: case_prod_unfold)
  then show ?case using step_store_with.prems by (auto simp: change_addresses add_file_key_def)
qed

text \<open>
  No two accounts have the same address. Whatever operations are carried out on an empty keystore, and whichever saves fail, the
  addresses of the accounts are distinct, so that looking an account up by its address finds the one there is.
\<close>

theorem addresses_unique:
  assumes "(keystore_step E C)\<^sup>*\<^sup>* ([], d) s"
  shows "distinct (list_accounts (fst s))"
  using assms by (induction rule: rtranclp_induct) (auto simp: list_accounts_def keystore_step_distinct)

theorem addresses_unique_witness:
  "distinct (list_accounts (fst (snd (add_account (toy_keystore_env no_faults) toy_keystore_crypto ''salt'' sixteen ''0xa'' ''secret'' ''pw'' ([], Map.empty)))))"
  by (rule addresses_unique [where d = Map.empty and E = "toy_keystore_env no_faults" and C = toy_keystore_crypto])
     (rule r_into_rtranclp, rule step_add, rule surjective_pairing)

section \<open>What goes wrong\<close>

text \<open>
  A wrong password need not be noticed. There is no check of a password: whatever key is derived from it, the decrypted bytes are
  accepted if they happen to be UTF-8. Then the two-factor secret is removed as if the password had been right.
\<close>

theorem wrong_password_disables_2fa:
  assumes "find_account address ks = Inr a" "ka_encrypted_two_fa_secret a = Some (hex_encode secret)" "ka_two_fa_iv a = Some (hex_encode iv)"
    and "hex_decode (ka_salt a) = Some salt" "length iv = 16" "kc_pbkdf2 C password salt 100000 = Some key" "utf8_valid (kc_ctr C key iv secret)"
    and "remove_2fa_secret E C address password (ks, d) = (r, (ks', d'))"
  shows "is_2fa_enabled address ks' = Inr False"
proof -
  let ?f = "\<lambda>a. a\<lparr>ka_encrypted_two_fa_secret := None, ka_two_fa_iv := None\<rparr>"
  have a: "find (\<lambda>a. ka_address a = address) ks = Some a" using assms(1) by (auto simp: find_account_def ok_or_def split: option.splits)
  have "ks_decrypt_data C (hex_encode secret) (ka_salt a) (hex_encode iv) password = Inr (kc_ctr C key iv secret)"
    using assms(4-7) by (simp add: ks_decrypt_data_def try_decrypt_def ok_or_def)
  then have "save_keystore E (change_account address ?f ks, d) = (r, (ks', d'))" using assms(1-3,8) by (simp add: remove_2fa_secret_def)
  then have "ks' = change_account address ?f ks" using save_keystore_memory [of E _ d] by (metis fst_conv snd_conv)
  moreover have "find (\<lambda>a. ka_address a = address) (change_account address ?f ks) = Some (?f a)"
    using a by (rule find_change_same) (use find_address [OF a] in simp)
  ultimately show ?thesis by (simp add: is_2fa_enabled_def find_account_def ok_or_def)
qed

definition account_with_2fa :: encrypted_keystore where
  "account_with_2fa = \<lparr>ka_address = ''0xa'', ka_encrypted_private_key = [], ka_salt = [], ka_iv = [], ka_encrypted_two_fa_secret = Some (hex_encode ''otp''),
     ka_two_fa_iv = Some (hex_encode sixteen), ka_file_encryption_keys = [''h'' \<mapsto> \<lparr>fk_encrypted_key = [], fk_key_iv = [], fk_file_hash = ''h'', fk_created_at = 0\<rparr>]\<rparr>"

theorem wrong_password_disables_2fa_witness:
  "is_2fa_enabled ''0xa'' (fst (snd (remove_2fa_secret (toy_keystore_env no_faults) toy_keystore_crypto ''0xa'' ''not the password'' ([account_with_2fa], Map.empty)))) = Inr False"
proof -
  obtain r ks' d' where res: "remove_2fa_secret (toy_keystore_env no_faults) toy_keystore_crypto ''0xa'' ''not the password'' ([account_with_2fa], Map.empty) = (r, (ks', d'))"
    by (metis prod_cases3)
  have "is_2fa_enabled ''0xa'' ks' = Inr False"
  proof (rule wrong_password_disables_2fa [OF _ _ _ _ _ _ _ res])
    show "find_account ''0xa'' [account_with_2fa] = Inr account_with_2fa" by (simp add: find_account_def account_with_2fa_def ok_or_def)
    show "ka_encrypted_two_fa_secret account_with_2fa = Some (hex_encode ''otp'')" "ka_two_fa_iv account_with_2fa = Some (hex_encode sixteen)"
      "hex_decode (ka_salt account_with_2fa) = Some []" "length sixteen = 16" by (simp_all add: account_with_2fa_def sixteen_def)
    show "kc_pbkdf2 toy_keystore_crypto ''not the password'' [] 100000 = Some ''not the password''" by (simp add: toy_keystore_crypto_def)
    show "utf8_valid (kc_ctr toy_keystore_crypto ''not the password'' sixteen ''otp'')" by (simp add: toy_keystore_crypto_def)
  qed
  with res show ?thesis by simp
qed

text \<open>
  Adding an account again loses its file keys. When an account that is already in the keystore is added once more, for instance to
  change its password, its two-factor secret and all its file keys are gone, and the files they belong to cannot be decrypted.
\<close>

theorem readding_loses_file_keys:
  assumes "kc_pbkdf2 C password salt 100000 \<noteq> None" "add_account E C salt iv address private_key password (ks, d) = (r, (ks', d'))"
  shows "get_file_encryption_key_with_private_key C address file_hash any ks' = Inl KsKeyNotFound \<and> is_2fa_enabled address ks' = Inr False"
proof -
  obtain key where key: "kc_pbkdf2 C password salt 100000 = Some key" using assms(1) by blast
  let ?a = "\<lparr>ka_address = address, ka_encrypted_private_key = hex_encode (kc_ctr C key iv private_key), ka_salt = hex_encode salt, ka_iv = hex_encode iv,
    ka_encrypted_two_fa_secret = None, ka_two_fa_iv = None, ka_file_encryption_keys = Map.empty\<rparr>"
  have "save_keystore E (filter (\<lambda>a. ka_address a \<noteq> address) ks @ [?a], d) = (r, (ks', d'))"
    using assms(2) key by (simp add: add_account_def encrypt_private_key_def derive_key_def ok_or_def)
  then have "ks' = filter (\<lambda>a. ka_address a \<noteq> address) ks @ [?a]" using save_keystore_memory [of E _ d] by (metis fst_conv snd_conv)
  then show ?thesis
    by (simp add: get_file_encryption_key_with_private_key_def find_file_key_def find_account_def find_filter_other ok_or_def is_2fa_enabled_def)
qed

theorem readding_loses_file_keys_witness:
  "get_file_encryption_key_with_private_key toy_keystore_crypto ''0xa'' ''h'' ''any''
     (fst (snd (add_account (toy_keystore_env no_faults) toy_keystore_crypto ''salt'' sixteen ''0xa'' ''secret'' ''new pw'' ([account_with_2fa], Map.empty)))) = Inl KsKeyNotFound"
proof -
  obtain r ks' d' where res: "add_account (toy_keystore_env no_faults) toy_keystore_crypto ''salt'' sixteen ''0xa'' ''secret'' ''new pw'' ([account_with_2fa], Map.empty) = (r, (ks', d'))"
    by (metis prod_cases3)
  have "kc_pbkdf2 toy_keystore_crypto ''new pw'' ''salt'' 100000 \<noteq> None" by (simp add: toy_keystore_crypto_def)
  from readding_loses_file_keys [OF this res, of "''h''" "''any''"] res show ?thesis by simp
qed

text \<open>
  A failed save can destroy the keystore. The file is written in place: when the write fails after a part of the data that does not
  parse, every later attempt to load the keystore fails, and all accounts are lost. The accounts in memory are those that were to
  be saved.
\<close>

theorem failed_save_destroys:
  assumes "get_keystore_path E = Inr p" "ke_to_json E ks = Some b" "io_fails (ke_io E) (IoWrite p)" "io_short (ke_io E) p = Some n"
    and "ke_from_json E' (take n b) = None" "get_keystore_path E' = Inr p" "\<not> io_fails (ke_io E') (IoStat p)" "\<not> io_fails (ke_io E') (IoRead p)"
    and "save_keystore E (ks, d) = (r, (ks', d'))"
  shows "r \<noteq> Inr () \<and> ks' = ks \<and> load_keystore E' d' = Inl KsParse"
proof -
  have "r = Inl (KsWrite (OtherIo (IoWrite p)))" "ks' = ks" "d' = d(p \<mapsto> take n b)"
    using assms(1-4,9) by (auto simp: save_keystore_def fs_write_def)
  then show ?thesis using assms(5-8) by (simp add: load_keystore_def fs_exists_def fs_read_def ok_or_def)
qed

definition broken_write :: io_env where
  "broken_write = \<lparr>io_fails = (\<lambda>op. \<exists>p. op = IoWrite p), io_short = (\<lambda>_. Some 0)\<rparr>"

theorem failed_save_destroys_witness:
  "load_keystore (toy_keystore_env no_faults) (snd (snd (save_keystore (toy_keystore_env broken_write) ([account_with_2fa], Map.empty)))) = Inl KsParse"
proof -
  obtain r ks' d' where res: "save_keystore (toy_keystore_env broken_write) ([account_with_2fa], Map.empty) = (r, (ks', d'))" by (metis prod_cases3)
  have "r \<noteq> Inr () \<and> ks' = [account_with_2fa] \<and> load_keystore (toy_keystore_env no_faults) d' = Inl KsParse"
  proof (rule failed_save_destroys [where n = 0 and b = "''{}''", OF _ _ _ _ _ _ _ _ res])
    show "get_keystore_path (toy_keystore_env broken_write) = Inr [''data'', ''keystore.json'']"
      by (simp add: get_keystore_path_def toy_keystore_env_def fs_mkdir_def broken_write_def path_join_simple)
    show "get_keystore_path (toy_keystore_env no_faults) = Inr [''data'', ''keystore.json'']"
      by (simp add: get_keystore_path_def toy_keystore_env_def fs_mkdir_def path_join_simple)
  qed (simp_all add: toy_keystore_env_def broken_write_def)
  with res show ?thesis by simp
qed

text \<open>The length of a private key is checked only after the slice that panics.\<close>

lemma short_private_key_panics:
  "hex_decode (strip_many [''0x''] (length private_key) private_key) = Some b \<Longrightarrow> length b < 32 \<Longrightarrow> find_file_key address file_hash ks = Inr x \<Longrightarrow>
   get_file_encryption_key_with_private_key C address file_hash private_key ks = Inl KsPanicked"
  by (cases x) (simp add: get_file_encryption_key_with_private_key_def private_key_bytes_def ok_or_def)

end
