(* ===== verification/FileTransfer.thy ===== *)
theory FileTransfer
  imports Keystore Encryption TransferEvents
begin

text \<open>
  \<open>file_transfer.rs\<close>: the service that keeps uploaded files in a storage directory, encrypted or not, hands them out again with
  retries, and counts its attempts.

  The service is a loop over commands; a command is handled as a whole before the next. Its state is the keystore, the disk, the
  metrics, what it has sent on its event channel and on the event bus. The JSON codec of the two kinds of metadata is a parameter,
  random values and times are arguments, and every attempt of a download meets its own faults. A full event channel only delays.

  Theorems, at the end: an unencrypted upload comes back byte for byte; an encrypted upload never comes back, because its key is kept
  under the wrong hash; a download makes at most three attempts and the metrics count each exactly; a hash that is an absolute path
  gives away any file; a private key that is too short stops the service.
\<close>

section \<open>Data\<close>

record encrypted_file_metadata =
  em_original_file_hash :: string
  em_encrypted_file_hash :: string
  em_encryption_info :: encryption_info
  em_encrypted_key_bundle :: "encrypted_aes_key_bundle option"
  em_recipient_public_key :: "string option"

text \<open>The metadata file of every stored file; \<open>store_file_data\<close> leaves the last entry out.\<close>

record stored_metadata =
  sd_file_name :: string
  sd_file_size :: u64
  sd_uploaded_at :: u64
  sd_is_encrypted :: "bool option"

text \<open>What the code looks at in a parsed metadata file: a name that is a string, the presence of a name and a size, a Boolean flag.\<close>

record parsed_metadata =
  pm_file_name :: "string option option"
  pm_has_size :: bool
  pm_is_encrypted :: "bool option"

record file_codec =
  fc_meta :: "stored_metadata \<Rightarrow> bytes"
  fc_parse_meta :: "bytes \<Rightarrow> parsed_metadata option"
  fc_encmeta :: "encrypted_file_metadata \<Rightarrow> bytes option"
  fc_parse_encmeta :: "bytes \<Rightarrow> encrypted_file_metadata option"

datatype file_command =
    UploadFile string string "string option" "string option"
  | DownloadFile string string "string option" "string option"
  | GetStoredFiles

datatype file_transfer_error =
    FtRead io_error
  | FtEncrypt encryption_error
  | FtReadEncrypted io_error
  | FtBadRecipientKey
  | FtRecipientKeyLength
  | FtEncryptKey encryption_error
  | FtSerialize
  | FtWrite io_error
  | FtNotFound
  | FtReadMetadata io_error
  | FtParseMetadata
  | FtNoEncryptionMetadata
  | FtNoKey
  | FtNoAccount
  | FtDecrypt encryption_error
  | FtReadDir io_error
  | FtPanicked

datatype attempt_status = AtRetrying | AtSuccess | AtFailed

record download_attempt =
  da_file_hash :: string
  da_attempt :: u32
  da_max_attempts :: u32
  da_status :: attempt_status
  da_duration_ms :: u64
  da_timestamp :: u64

record attempt_metrics =
  dm_total_success :: u64
  dm_total_failures :: u64
  dm_total_retries :: u64
  dm_recent_attempts :: "download_attempt list"

text \<open>The text of an error event says which command failed and why.\<close>

datatype transfer_message = UploadFailedMsg file_transfer_error | DownloadFailedMsg file_transfer_error

datatype file_transfer_event =
    FileUploaded string string
  | FileDownloaded string
  | FileNotFoundEvent string
  | FileError transfer_message
  | AttemptEvent download_attempt

definition MAX_DOWNLOAD_ATTEMPTS :: u32 where "MAX_DOWNLOAD_ATTEMPTS = 3"
definition BASE_BACKOFF_MS :: u64 where "BASE_BACKOFF_MS = 250"
definition MAX_BACKOFF_MS :: u64 where "MAX_BACKOFF_MS = 1500"

definition empty_metrics :: attempt_metrics where
  "empty_metrics = \<lparr>dm_total_success = 0, dm_total_failures = 0, dm_total_retries = 0, dm_recent_attempts = []\<rparr>"

definition record_attempt :: "download_attempt \<Rightarrow> attempt_metrics \<Rightarrow> attempt_metrics" where
  "record_attempt a m =
     (let m1 = (case da_status a of
            AtRetrying \<Rightarrow> m\<lparr>dm_total_retries := min (dm_total_retries m + 1) u64_max\<rparr>
          | AtSuccess \<Rightarrow> m\<lparr>dm_total_success := min (dm_total_success m + 1) u64_max\<rparr>
          | AtFailed \<Rightarrow> m\<lparr>dm_total_failures := min (dm_total_failures m + 1) u64_max\<rparr>)
      in m1\<lparr>dm_recent_attempts := take 20 (a # dm_recent_attempts m1)\<rparr>)"

definition backoff_delay :: "u32 \<Rightarrow> u64" where
  "backoff_delay attempt = (if attempt \<le> 1 then 0 else min (min (BASE_BACKOFF_MS * 2 ^ min (attempt - 1) 4) u64_max) MAX_BACKOFF_MS)"

section \<open>Storing a file\<close>

definition ft_file_hash :: "crypto \<Rightarrow> bytes \<Rightarrow> string" where
  "ft_file_hash C b = hex_encode (sha256 C b)"

text \<open>The random values and the time of an upload.\<close>

record upload_random =
  ur_key :: bytes
  ur_key_iv :: bytes
  ur_nonce :: bytes
  ur_salt :: bytes
  ur_ephemeral :: bytes
  ur_bundle_nonce :: bytes
  ur_now :: u64

record transfer_params =
  tp_crypto :: crypto
  tp_keystore_crypto :: keystore_crypto
  tp_keystore_env :: keystore_env
  tp_codec :: file_codec
  tp_storage_dir :: path
  tp_encryption :: bool
  tp_render :: "transfer_message \<Rightarrow> string"

type_synonym 'a transfer_act = "(keystore_state, file_transfer_error, 'a) act"

definition ft_disk_act :: "('e \<Rightarrow> file_transfer_error) \<Rightarrow> (disk \<Rightarrow> ('e, 'a) result \<times> disk) \<Rightarrow> 'a transfer_act" where
  "ft_disk_act err f s = (case f (snd s) of (r, d) \<Rightarrow> (map_err err r, (fst s, d)))"

definition ft_disk_get :: "('e \<Rightarrow> file_transfer_error) \<Rightarrow> (disk \<Rightarrow> ('e, 'a) result) \<Rightarrow> 'a transfer_act" where
  "ft_disk_get err f s = (map_err err (f (snd s)), s)"

definition key_bundle :: "crypto \<Rightarrow> upload_random \<Rightarrow> string option \<Rightarrow> (file_transfer_error, encrypted_aes_key_bundle option \<times> string option) result" where
  "key_bundle C R recipient = (case recipient of
     None \<Rightarrow> Ok (None, None)
   | Some pk_hex \<Rightarrow>
       rbind (ok_or FtBadRecipientKey (hex_decode (strip_many [''0x''] (length pk_hex) pk_hex))) (\<lambda>pk.
         if length pk \<noteq> 32 then Err FtRecipientKeyLength
         else rbind (map_err FtEncryptKey (encrypt_aes_key C (ur_ephemeral R) (ur_bundle_nonce R) (ur_key R) pk)) (\<lambda>b. Ok (Some b, Some pk_hex))))"

text \<open>
  The key goes into the keystore under the hash of the original file; a failure is only logged, but a private key that is too
  short panics.
\<close>

definition remember_key :: "transfer_params \<Rightarrow> upload_random \<Rightarrow> string \<Rightarrow> string option \<Rightarrow> string option \<Rightarrow> unit transfer_act" where
  "remember_key P R file_hash account private_key s = (case (account, private_key) of
     (Some a, Some pk) \<Rightarrow> (case store_file_encryption_key_with_private_key (tp_keystore_env P) (tp_keystore_crypto P) (ur_key_iv R) (ur_now R) a file_hash (ur_key R) pk s of
         (Inl KsPanicked, s') \<Rightarrow> (Err FtPanicked, s')
       | (_, s') \<Rightarrow> (Ok (), s'))
   | _ \<Rightarrow> (Ok (), s))"

definition store_encrypted :: "transfer_params \<Rightarrow> io_env \<Rightarrow> upload_random \<Rightarrow> string \<Rightarrow> string option \<Rightarrow> string option \<Rightarrow> string option \<Rightarrow> bytes \<Rightarrow>
    (string \<times> encrypted_file_metadata option) transfer_act" where
  "store_encrypted P io R file_path recipient account private_key data =
     (let C = tp_crypto P; dir = tp_storage_dir P; original = ft_file_hash C data; temp = path_join dir (original @ ''.enc'')
      in and_do (remember_key P R original account private_key)
         (and_then (ft_disk_act FtEncrypt (encrypt_file C io (ur_nonce R) (ur_salt R) (path_of_string file_path) temp (ur_key R))) (\<lambda>res.
          and_then (ft_disk_get FtReadEncrypted (fs_read io temp)) (\<lambda>encrypted.
          and_then (of_result (key_bundle C R recipient)) (\<lambda>(bundle, pk).
            let hash = ft_file_hash C encrypted;
                meta = \<lparr>em_original_file_hash = original, em_encrypted_file_hash = hash, em_encryption_info = er_info res,
                        em_encrypted_key_bundle = bundle, em_recipient_public_key = pk\<rparr>
            in and_then (of_result (ok_or FtSerialize (fc_encmeta (tp_codec P) meta))) (\<lambda>json.
               and_do (ft_disk_act FtWrite (fs_write io (path_join dir (hash @ ''.encmeta'')) json))
               (and_do (ft_disk_act FtWrite (fs_write io (path_join dir hash) encrypted))
               (\<lambda>s. (Ok (hash, Some meta), (fst s, snd (fs_remove io temp (snd s))))))))))))"

definition store_plain :: "transfer_params \<Rightarrow> io_env \<Rightarrow> bytes \<Rightarrow> (string \<times> encrypted_file_metadata option) transfer_act" where
  "store_plain P io data =
     (let hash = ft_file_hash (tp_crypto P) data
      in and_do (ft_disk_act FtWrite (fs_write io (path_join (tp_storage_dir P) hash) data)) (ret (hash, None)))"

definition handle_upload_file :: "transfer_params \<Rightarrow> io_env \<Rightarrow> upload_random \<Rightarrow> string \<Rightarrow> string \<Rightarrow> string option \<Rightarrow> string option \<Rightarrow> string option \<Rightarrow>
    (string \<times> encrypted_file_metadata option) transfer_act" where
  "handle_upload_file P io R file_path name recipient account private_key =
     and_then (ft_disk_get FtRead (fs_read io (path_of_string file_path))) (\<lambda>data.
     and_then (if tp_encryption P then store_encrypted P io R file_path recipient account private_key data else store_plain P io data) (\<lambda>(hash, meta).
     and_do (ft_disk_act FtWrite (fs_write io (path_join (tp_storage_dir P) (hash @ ''.meta''))
               (fc_meta (tp_codec P) \<lparr>sd_file_name = name, sd_file_size = length data, sd_uploaded_at = ur_now R, sd_is_encrypted = Some (tp_encryption P)\<rparr>)))
       (ret (hash, meta))))"

section \<open>Handing a file out\<close>

definition stored_encrypted :: "transfer_params \<Rightarrow> io_env \<Rightarrow> string \<Rightarrow> disk \<Rightarrow> (file_transfer_error, bool) result" where
  "stored_encrypted P io hash d =
     (let p = path_join (tp_storage_dir P) (hash @ ''.meta'')
      in if \<not> fs_exists io p d then Ok False
         else rbind (map_err FtReadMetadata (fs_read_to_string io p d)) (\<lambda>b. rbind (ok_or FtParseMetadata (fc_parse_meta (tp_codec P) b)) (\<lambda>m.
           Ok (pm_is_encrypted m = Some True))))"

definition decryption_key :: "transfer_params \<Rightarrow> keystore \<Rightarrow> string \<Rightarrow> string option \<Rightarrow> string option \<Rightarrow> (file_transfer_error, bytes) result" where
  "decryption_key P ks hash account private_key = (case (account, private_key) of
     (Some a, Some pk) \<Rightarrow> (case get_file_encryption_key_with_private_key (tp_keystore_crypto P) a hash pk ks of
         Inl KsPanicked \<Rightarrow> Err FtPanicked
       | Inl _ \<Rightarrow> Err FtNoKey
       | Inr key \<Rightarrow> Ok key)
   | _ \<Rightarrow> Err FtNoAccount)"

definition fetch_encrypted :: "transfer_params \<Rightarrow> io_env \<Rightarrow> string \<Rightarrow> string option \<Rightarrow> string option \<Rightarrow> bytes transfer_act" where
  "fetch_encrypted P io hash account private_key s =
     (let dir = tp_storage_dir P; p = path_join dir (hash @ ''.encmeta''); temp = path_join dir (hash @ ''.dec'')
      in if \<not> fs_exists io p (snd s) then (Err FtNoEncryptionMetadata, s)
         else and_then (of_result (map_err FtReadMetadata (fs_read_to_string io p (snd s)))) (\<lambda>b.
              and_then (of_result (ok_or FtParseMetadata (fc_parse_encmeta (tp_codec P) b))) (\<lambda>meta.
              and_then (of_result (decryption_key P (fst s) hash account private_key)) (\<lambda>key.
              and_do (ft_disk_act FtDecrypt (decrypt_file (tp_crypto P) io (path_join dir hash) temp key (em_encryption_info meta)))
              (and_then (ft_disk_get FtRead (fs_read io temp)) (\<lambda>plain s'. (Ok plain, (fst s', snd (fs_remove io temp (snd s'))))))))) s)"

definition write_output :: "io_env \<Rightarrow> string \<Rightarrow> bytes \<Rightarrow> unit transfer_act" where
  "write_output io output_path data = ft_disk_act FtWrite (fs_write io (path_of_string output_path) data)"

definition handle_download_file :: "transfer_params \<Rightarrow> io_env \<Rightarrow> string \<Rightarrow> string \<Rightarrow> string option \<Rightarrow> string option \<Rightarrow> unit transfer_act" where
  "handle_download_file P io hash output_path account private_key s =
     (let p = path_join (tp_storage_dir P) hash
      in if \<not> fs_exists io p (snd s) then (Err FtNotFound, s)
         else and_then (of_result (stored_encrypted P io hash (snd s))) (\<lambda>enc.
              and_then (if enc then fetch_encrypted P io hash account private_key else ft_disk_get FtRead (fs_read io p)) (\<lambda>data.
                write_output io output_path data)) s)"

text \<open>
  The key of the uploader, or the bundle for this user; a private key that is too short panics in the keystore.
\<close>

definition bundle_key :: "crypto \<Rightarrow> encrypted_file_metadata \<Rightarrow> string option \<Rightarrow> string option \<Rightarrow> (file_transfer_error, bytes option) result" where
  "bundle_key C meta private_key user_public_key = (case (em_encrypted_key_bundle meta, private_key, user_public_key) of
     (Some bundle, Some pk_hex, Some user_pk) \<Rightarrow>
       if em_recipient_public_key meta \<noteq> Some user_pk then Ok None
       else (case hex_decode (strip_many [''0x''] (length pk_hex) pk_hex) of
          None \<Rightarrow> Ok None
        | Some b \<Rightarrow> if length b \<noteq> 32 then Ok None
                    else (case decrypt_aes_key C bundle b of Inr k \<Rightarrow> Ok (Some k) | Inl Panicked \<Rightarrow> Err FtPanicked | Inl _ \<Rightarrow> Ok None))
   | _ \<Rightarrow> Ok None)"

definition get_decryption_key_for_file :: "transfer_params \<Rightarrow> encrypted_file_metadata \<Rightarrow> keystore \<Rightarrow> string option \<Rightarrow> string option \<Rightarrow> string option \<Rightarrow>
    (file_transfer_error, bytes option) result" where
  "get_decryption_key_for_file P meta ks account private_key user_public_key = (case (account, private_key) of
     (Some a, Some pk) \<Rightarrow> (case get_file_encryption_key_with_private_key (tp_keystore_crypto P) a (em_original_file_hash meta) pk ks of
         Inr k \<Rightarrow> Ok (Some k)
       | Inl KsPanicked \<Rightarrow> Err FtPanicked
       | Inl _ \<Rightarrow> bundle_key (tp_crypto P) meta private_key user_public_key)
   | _ \<Rightarrow> bundle_key (tp_crypto P) meta private_key user_public_key)"

section \<open>Retries\<close>

record transfer_state =
  fv_keys :: keystore_state
  fv_metrics :: attempt_metrics
  fv_events :: "file_transfer_event list"
  fv_bus :: "event_log option"
  fv_queue :: "file_command list"
  fv_running :: bool

definition emit_attempt :: "download_attempt \<Rightarrow> transfer_state \<Rightarrow> transfer_state" where
  "emit_attempt a v = v\<lparr>fv_metrics := record_attempt a (fv_metrics v), fv_events := fv_events v @ [AttemptEvent a]\<rparr>"

text \<open>
  The faults, the duration and the timestamp of each attempt. A panic ends the task there: the attempt is not recorded.
\<close>

type_synonym attempts = "u32 \<Rightarrow> io_env \<times> u64 \<times> u64"

function retry_download :: "transfer_params \<Rightarrow> attempts \<Rightarrow> string \<Rightarrow> string \<Rightarrow> string option \<Rightarrow> string option \<Rightarrow> u32 \<Rightarrow> transfer_state \<Rightarrow>
    (file_transfer_error, unit) result \<times> transfer_state" where
  "retry_download P att hash output_path account private_key attempt v =
     (case att attempt of (io, ms, time) \<Rightarrow>
      (case handle_download_file P io hash output_path account private_key (fv_keys v) of (r, keys) \<Rightarrow>
       if r = Err FtPanicked then (r, v\<lparr>fv_keys := keys\<rparr>) else
       (let status = (if r = Ok () then AtSuccess else if MAX_DOWNLOAD_ATTEMPTS \<le> attempt then AtFailed else AtRetrying);
            v' = emit_attempt \<lparr>da_file_hash = hash, da_attempt = attempt, da_max_attempts = MAX_DOWNLOAD_ATTEMPTS, da_status = status,
                   da_duration_ms = ms, da_timestamp = time\<rparr> (v\<lparr>fv_keys := keys\<rparr>)
        in if status = AtRetrying then retry_download P att hash output_path account private_key (attempt + 1) v' else (r, v'))))"
  by pat_completeness auto
termination
  by (relation "measure (\<lambda>(P, att, hash, output_path, account, private_key, attempt, v). 4 - attempt)")
     (auto simp: MAX_DOWNLOAD_ATTEMPTS_def split: if_splits)

declare retry_download.simps [simp del]

definition download_with_retries :: "transfer_params \<Rightarrow> attempts \<Rightarrow> string \<Rightarrow> string \<Rightarrow> string option \<Rightarrow> string option \<Rightarrow> transfer_state \<Rightarrow>
    (file_transfer_error, unit) result \<times> transfer_state" where
  "download_with_retries P att hash output_path account private_key = retry_download P att hash output_path account private_key 1"

section \<open>The service\<close>

text \<open>What a command meets: its faults and random values, the attempts of a download, clock readings, and channels of the bus that fail.\<close>

record command_env =
  cv_io :: io_env
  cv_random :: upload_random
  cv_attempts :: attempts
  cv_start_ms :: u64
  cv_end_ms :: u64
  cv_bus_fails :: "string \<Rightarrow> bool"

definition on_bus :: "(event_log \<Rightarrow> event_log) \<Rightarrow> transfer_state \<Rightarrow> transfer_state" where
  "on_bus f v = v\<lparr>fv_bus := map_option f (fv_bus v)\<rparr>"

definition send_event :: "file_transfer_event \<Rightarrow> transfer_state \<Rightarrow> transfer_state" where
  "send_event e v = v\<lparr>fv_events := fv_events v @ [e]\<rparr>"

definition local_started :: "command_env \<Rightarrow> string \<Rightarrow> string \<Rightarrow> started_event" where
  "local_started N hash output_path = \<lparr>se_transfer_id = hash, se_file_hash = hash, se_file_name = output_path, se_file_size = 0, se_total_chunks = 0,
     se_chunk_size = 0, se_started_at = cv_start_ms N,
     se_available_sources = [\<lparr>sf_id = ''local-storage'', sf_source_type = StP2p, sf_address = ''local'', sf_reputation = Some (F_Fin 1),
        sf_estimated_speed_bps = None, sf_latency_ms = None, sf_location = None\<rparr>],
     se_selected_sources = [''local-storage'']\<rparr>"

definition local_completed :: "command_env \<Rightarrow> string \<Rightarrow> string \<Rightarrow> completed_event" where
  "local_completed N hash output_path =
     (let secs = wsub64 (cv_end_ms N) (cv_start_ms N) div 1000
      in \<lparr>co_transfer_id = hash, co_file_hash = hash, co_file_name = output_path, co_file_size = 0, co_output_path = output_path,
          co_completed_at = cv_end_ms N, co_duration_seconds = secs, co_average_speed_bps = F_Fin 0, co_total_chunks = 0,
          co_sources_used = [\<lparr>su_source_id = ''local-storage'', su_source_type = StP2p, su_chunks_provided = 1, su_bytes_provided = 0,
             su_average_speed_bps = F_Fin 0, su_connection_duration_seconds = secs\<rparr>]\<rparr>)"

definition local_failed :: "command_env \<Rightarrow> string \<Rightarrow> string \<Rightarrow> failed_event" where
  "local_failed N hash message = \<lparr>fe_transfer_id = hash, fe_file_hash = hash, fe_failed_at = cv_end_ms N, fe_error = message,
     fe_error_category = EcUnknown, fe_downloaded_bytes = 0, fe_total_bytes = 0, fe_retry_possible = True\<rparr>"

definition run_upload :: "transfer_params \<Rightarrow> command_env \<Rightarrow> string \<Rightarrow> string \<Rightarrow> string option \<Rightarrow> string option \<Rightarrow> transfer_state \<Rightarrow> transfer_state" where
  "run_upload P N file_path name account private_key v =
     (case handle_upload_file P (cv_io N) (cv_random N) file_path name None account private_key (fv_keys v) of (r, keys) \<Rightarrow>
      (let v1 = v\<lparr>fv_keys := keys\<rparr>
       in case r of
            Inr (hash, meta) \<Rightarrow> send_event (FileUploaded hash name) v1
          | Inl e \<Rightarrow> if e = FtPanicked then v1\<lparr>fv_running := False\<rparr> else send_event (FileError (UploadFailedMsg e)) v1))"

definition run_download :: "transfer_params \<Rightarrow> command_env \<Rightarrow> string \<Rightarrow> string \<Rightarrow> string option \<Rightarrow> string option \<Rightarrow> transfer_state \<Rightarrow> transfer_state" where
  "run_download P N hash output_path account private_key v =
     (case download_with_retries P (cv_attempts N) hash output_path account private_key
             (on_bus (emit_started (cv_bus_fails N) (local_started N hash output_path)) v) of
        (Inr _, v1) \<Rightarrow> on_bus (emit_completed (cv_bus_fails N) (local_completed N hash output_path)) (send_event (FileDownloaded output_path) v1)
      | (Inl e, v1) \<Rightarrow>
          if e = FtPanicked then v1\<lparr>fv_running := False\<rparr>
          else on_bus (emit_failed (cv_bus_fails N) (local_failed N hash (tp_render P (DownloadFailedMsg e))))
                 (send_event (FileError (DownloadFailedMsg e)) v1))"

definition ft_run_command :: "transfer_params \<Rightarrow> command_env \<Rightarrow> file_command \<Rightarrow> transfer_state \<Rightarrow> transfer_state" where
  "ft_run_command P N cmd v = (case cmd of
     UploadFile file_path name account private_key \<Rightarrow> run_upload P N file_path name account private_key v
   | DownloadFile hash output_path account private_key \<Rightarrow> run_download P N hash output_path account private_key v
   | GetStoredFiles \<Rightarrow> v)"

text \<open>
  One round of the loop. When the task has panicked its receiver is gone: commands still in the queue are never handled and new ones
  are refused.
\<close>

definition service_round :: "transfer_params \<Rightarrow> command_env \<Rightarrow> transfer_state \<Rightarrow> transfer_state" where
  "service_round P N v = (case fv_queue v of
     [] \<Rightarrow> v
   | cmd # rest \<Rightarrow> if fv_running v then ft_run_command P N cmd (v\<lparr>fv_queue := rest\<rparr>) else v)"

definition run_file_transfer_service :: "transfer_params \<Rightarrow> command_env list \<Rightarrow> transfer_state \<Rightarrow> transfer_state" where
  "run_file_transfer_service P Ns v = fold (service_round P) Ns v"

definition ft_send_command :: "file_command \<Rightarrow> transfer_state \<Rightarrow> bool \<times> transfer_state" where
  "ft_send_command cmd v = (if fv_running v then (True, v\<lparr>fv_queue := fv_queue v @ [cmd]\<rparr>) else (False, v))"

definition upload_file_with_account :: "string \<Rightarrow> string \<Rightarrow> string option \<Rightarrow> string option \<Rightarrow> transfer_state \<Rightarrow> bool \<times> transfer_state" where
  "upload_file_with_account file_path name account private_key = ft_send_command (UploadFile file_path name account private_key)"

definition download_file_with_account :: "string \<Rightarrow> string \<Rightarrow> string option \<Rightarrow> string option \<Rightarrow> transfer_state \<Rightarrow> bool \<times> transfer_state" where
  "download_file_with_account hash output_path account private_key = ft_send_command (DownloadFile hash output_path account private_key)"

text \<open>A new service; the test for the directory and its creation may fail.\<close>

definition new_with_storage_dir :: "io_env \<Rightarrow> path \<Rightarrow> bool \<Rightarrow> bool \<Rightarrow> keystore_state \<Rightarrow> (io_error, transfer_state) result" where
  "new_with_storage_dir io dir present app_handle keys =
     rbind (if present then Ok () else fs_mkdir io dir) (\<lambda>_.
       Ok \<lparr>fv_keys = keys, fv_metrics = empty_metrics, fv_events = [], fv_bus = (if app_handle then Some [] else None), fv_queue = [], fv_running = True\<rparr>)"

section \<open>Direct access\<close>

definition ft_drain_events :: "nat \<Rightarrow> transfer_state \<Rightarrow> file_transfer_event list \<times> transfer_state" where
  "ft_drain_events limit v = (take limit (fv_events v), v\<lparr>fv_events := drop limit (fv_events v)\<rparr>)"

definition download_metrics_snapshot :: "transfer_state \<Rightarrow> attempt_metrics" where
  "download_metrics_snapshot v = fv_metrics v"

definition store_file_data :: "transfer_params \<Rightarrow> io_env \<Rightarrow> u64 \<Rightarrow> string \<Rightarrow> string \<Rightarrow> bytes \<Rightarrow> disk \<Rightarrow> disk" where
  "store_file_data P io now hash name data d =
     (case fs_write io (path_join (tp_storage_dir P) hash) data d of
        (Inl _, d1) \<Rightarrow> d1
      | (Inr _, d1) \<Rightarrow> snd (fs_write io (path_join (tp_storage_dir P) (hash @ ''.meta''))
          (fc_meta (tp_codec P) \<lparr>sd_file_name = name, sd_file_size = length data, sd_uploaded_at = now, sd_is_encrypted = None\<rparr>) d1))"

definition get_file_data :: "transfer_params \<Rightarrow> io_env \<Rightarrow> string \<Rightarrow> disk \<Rightarrow> bytes option" where
  "get_file_data P io hash d = (case fs_read io (path_join (tp_storage_dir P) hash) d of Inl _ \<Rightarrow> None | Inr b \<Rightarrow> Some b)"

text \<open>The names in the directory, in the order \<open>read_dir\<close> gives them; a file with no name or size in its metadata is passed over.\<close>

fun stored_entries :: "transfer_params \<Rightarrow> io_env \<Rightarrow> disk \<Rightarrow> string list \<Rightarrow> (file_transfer_error, (string \<times> string) list) result" where
  "stored_entries P io d [] = Ok []"
| "stored_entries P io d (n # ns) =
     (if file_extension n \<noteq> Some ''meta'' then stored_entries P io d ns
      else rbind (map_err FtReadMetadata (fs_read_to_string io (tp_storage_dir P @ [n]) d)) (\<lambda>b.
           rbind (ok_or FtParseMetadata (fc_parse_meta (tp_codec P) b)) (\<lambda>m.
           rbind (stored_entries P io d ns) (\<lambda>rest.
             Ok ((case pm_file_name m of Some (Some name) \<Rightarrow> if pm_has_size m then [(file_stem n, name)] else [] | _ \<Rightarrow> []) @ rest)))))"

definition get_stored_files :: "transfer_params \<Rightarrow> io_env \<Rightarrow> string list \<Rightarrow> disk \<Rightarrow> (file_transfer_error, (string \<times> string) list) result" where
  "get_stored_files P io names d =
     (if io_fails io (IoReadDir (tp_storage_dir P)) then Err (FtReadDir (OtherIo (IoReadDir (tp_storage_dir P))))
      else stored_entries P io d names)"

section \<open>What is stored comes back\<close>

text \<open>What the code relies on: reading a metadata file back gives the flag that was written, in UTF-8.\<close>

definition codec_ok :: "file_codec \<Rightarrow> bool" where
  "codec_ok J \<longleftrightarrow> (\<forall>m. utf8_valid (fc_meta J m) \<and> (\<exists>p. fc_parse_meta J (fc_meta J m) = Some p \<and> pm_is_encrypted p = sd_is_encrypted m))"

lemma codec_okD: "codec_ok J \<Longrightarrow> utf8_valid (fc_meta J m)" "codec_ok J \<Longrightarrow> \<exists>p. fc_parse_meta J (fc_meta J m) = Some p \<and> pm_is_encrypted p = sd_is_encrypted m"
  by (auto simp: codec_ok_def)

lemma hash_paths:
  assumes "b \<noteq> []"
  shows "path_join dir (hex_encode b) = dir @ [hex_encode b]" "path_join dir (hex_encode b @ ''.meta'') = dir @ [hex_encode b @ ''.meta'']"
    "path_join dir (hex_encode b @ ''.encmeta'') = dir @ [hex_encode b @ ''.encmeta'']" "path_join dir (hex_encode b @ ''.enc'') = dir @ [hex_encode b @ ''.enc'']"
proof -
  have ne: "hex_encode b \<noteq> []" "hex_encode b \<noteq> ''.''" using assms by (cases b; simp)+
  show "path_join dir (hex_encode b) = dir @ [hex_encode b]" using ne hex_no_slash by (simp add: path_join_simple)
  show "path_join dir (hex_encode b @ ''.meta'') = dir @ [hex_encode b @ ''.meta'']"
    "path_join dir (hex_encode b @ ''.encmeta'') = dir @ [hex_encode b @ ''.encmeta'']" "path_join dir (hex_encode b @ ''.enc'') = dir @ [hex_encode b @ ''.enc'']"
    using ne hex_no_slash [of b] by (simp_all add: path_join_simple)
qed

lemma fs_write_Ok: "fs_write io p b d = (Inr u, d') \<longleftrightarrow> \<not> io_fails io (IoWrite p) \<and> d' = d(p \<mapsto> b)"
  by (auto simp: fs_write_def)

lemma fs_read_Ok: "fs_read io p d = Inr b \<longleftrightarrow> d p = Some b \<and> \<not> io_fails io (IoRead p)"
  by (auto simp: fs_read_def split: option.splits)

lemma ft_disk_act_Ok: "ft_disk_act err f s = (Inr x, s') \<longleftrightarrow> f (snd s) = (Inr x, snd s') \<and> fst s' = fst s"
  by (cases s, cases s') (auto simp: ft_disk_act_def split: prod.splits)

lemma ft_disk_get_Ok: "ft_disk_get err f s = (Inr x, s') \<longleftrightarrow> f (snd s) = Inr x \<and> s' = s"
  by (auto simp: ft_disk_get_def)

text \<open>After an upload the metadata file of the returned hash says whether the file is encrypted.\<close>

lemma uploaded_meta:
  assumes "handle_upload_file P io R file_path name recipient account private_key s = (Inr (hash, meta), s')"
  shows "\<exists>m. snd s' (path_join (tp_storage_dir P) (hash @ ''.meta'')) = Some (fc_meta (tp_codec P) m) \<and> sd_is_encrypted m = Some (tp_encryption P)"
  using assms by (force simp: handle_upload_file_def and_then_eq_Ok ft_disk_act_Ok fs_write_Ok)

lemma stored_flag_iff:
  assumes "codec_ok (tp_codec P)" "d (path_join (tp_storage_dir P) (hash @ ''.meta'')) = Some (fc_meta (tp_codec P) m)" "sd_is_encrypted m = Some e"
    "stored_encrypted P io hash d = Inr e'"
  shows "e' = (e \<and> \<not> io_fails io (IoStat (path_join (tp_storage_dir P) (hash @ ''.meta''))))"
  using codec_okD [OF assms(1), of m] assms(2-4)
  by (auto simp: stored_encrypted_def fs_exists_def fs_read_to_string_def fs_read_def Let_def split: if_splits)

lemma plain_upload:
  assumes "\<not> tp_encryption P" "handle_upload_file P io R file_path name recipient account private_key (ks, d) = (Inr (hash, meta), s')"
    "d (path_of_string file_path) = Some data" "sha256 (tp_crypto P) data \<noteq> []"
  shows "hash = ft_file_hash (tp_crypto P) data \<and> meta = None \<and> fst s' = ks \<and> snd s' (path_join (tp_storage_dir P) hash) = Some data"
proof -
  have "handle_upload_file P io R file_path name recipient account private_key (ks, d) = (Inr (hash, meta), (fst s', snd s'))" using assms(2) by simp
  with assms(1,3,4) show ?thesis
    by (auto simp: handle_upload_file_def store_plain_def and_then_eq_Ok ft_disk_act_Ok ft_disk_get_Ok fs_write_Ok fs_read_Ok Let_def ft_file_hash_def hash_paths)
qed

text \<open>
  C28: A file uploaded without encryption comes back byte for byte, whatever fails. When an upload reports a hash, whatever file
  calls met faults, and the two files of that hash are untouched since, then a download that reports success has put exactly the
  uploaded bytes at the output path; and if no call of the download fails, it does report success.
\<close>

theorem plain_upload_download:
  assumes "codec_ok (tp_codec P)" "\<not> tp_encryption P" "d (path_of_string file_path) = Some data" "sha256 (tp_crypto P) data \<noteq> []"
    and "handle_upload_file P io R file_path name recipient account private_key (ks, d) = (Inr (hash, meta), (ks1, d1))"
    and "d2 (path_join (tp_storage_dir P) hash) = d1 (path_join (tp_storage_dir P) hash)"
    and "d2 (path_join (tp_storage_dir P) (hash @ ''.meta'')) = d1 (path_join (tp_storage_dir P) (hash @ ''.meta''))"
  shows "handle_download_file P no_faults hash output_path account' private_key' (ks2, d2) = (Inr (), (ks2, d2(path_of_string output_path \<mapsto> data))) \<and>
    (fst (handle_download_file P io' hash output_path account' private_key' (ks2, d2)) = Inr () \<longrightarrow>
     snd (snd (handle_download_file P io' hash output_path account' private_key' (ks2, d2))) (path_of_string output_path) = Some data)"
proof -
  have data: "d2 (path_join (tp_storage_dir P) hash) = Some data" using plain_upload [OF assms(2,5,3,4)] assms(6) by auto
  obtain m where m: "d2 (path_join (tp_storage_dir P) (hash @ ''.meta'')) = Some (fc_meta (tp_codec P) m)" "sd_is_encrypted m = Some False"
    using uploaded_meta [OF assms(5)] assms(2,7) by auto
  note flag = codec_okD [OF assms(1), of m]
  have "snd s3 (path_of_string output_path) = Some data" if "handle_download_file P io' hash output_path account' private_key' (ks2, d2) = (Inr (), s3)" for s3
    using that data stored_flag_iff [OF assms(1) _ m(2), of d2 hash io'] m(1) by (auto simp: handle_download_file_def and_then_eq_Ok ft_disk_act_Ok ft_disk_get_Ok
        fs_write_Ok fs_read_Ok write_output_def Let_def split: if_splits)
  moreover have "handle_download_file P no_faults hash output_path account' private_key' (ks2, d2) = (Inr (), (ks2, d2(path_of_string output_path \<mapsto> data)))"
    using data m flag by (auto simp: handle_download_file_def stored_encrypted_def fs_exists_def fs_read_to_string_def fs_read_def fs_write_def
        write_output_def ft_disk_act_def ft_disk_get_def and_then_def Let_def)
  ultimately show ?thesis by (metis prod.collapse)
qed

definition toy_file_codec :: file_codec where
  "toy_file_codec = \<lparr>fc_meta = (\<lambda>m. case sd_is_encrypted m of None \<Rightarrow> ''n'' | Some True \<Rightarrow> ''t'' | Some False \<Rightarrow> ''f''),
     fc_parse_meta = (\<lambda>b. Some \<lparr>pm_file_name = Some (Some ''name''), pm_has_size = True,
        pm_is_encrypted = (if b = ''n'' then None else Some (b = ''t''))\<rparr>),
     fc_encmeta = (\<lambda>m. Some ''e''),
     fc_parse_encmeta = (\<lambda>b. Some \<lparr>em_original_file_hash = [], em_encrypted_file_hash = [],
        em_encryption_info = \<lparr>ei_method = ''AES-256-GCM'', ei_key_fingerprint = [], ei_nonce = [], ei_salt = []\<rparr>,
        em_encrypted_key_bundle = None, em_recipient_public_key = None\<rparr>)\<rparr>"

lemma toy_codec_ok: "codec_ok toy_file_codec"
proof -
  have "utf8_valid ''n''" "utf8_valid ''t''" "utf8_valid ''f''" by code_simp+
  then show ?thesis by (auto simp: codec_ok_def toy_file_codec_def split: option.splits bool.splits)
qed

definition toy_params :: "bool \<Rightarrow> transfer_params" where
  "toy_params enc = \<lparr>tp_crypto = toy_crypto\<lparr>aead_encrypt := (\<lambda>k n m. Some (m @ ''+'')), aead_decrypt := (\<lambda>k n c. Some (butlast c))\<rparr>, tp_keystore_crypto = toy_keystore_crypto, tp_keystore_env = toy_keystore_env no_faults, tp_codec = toy_file_codec,
     tp_storage_dir = [''s''], tp_encryption = enc, tp_render = (\<lambda>_. ''failed'')\<rparr>"

definition toy_random :: upload_random where
  "toy_random = \<lparr>ur_key = replicate 32 (CHR ''k''), ur_key_iv = sixteen, ur_nonce = replicate 12 (CHR ''n''), ur_salt = ''salt'', ur_ephemeral = ''e'',
     ur_bundle_nonce = replicate 12 (CHR ''b''), ur_now = 7\<rparr>"

theorem plain_upload_download_witness:
  "\<exists>hash ks d. handle_upload_file (toy_params False) no_faults toy_random ''in'' ''name'' None None None ([], [[''in''] \<mapsto> ''data'']) = (Inr (hash, None), (ks, d)) \<and>
     handle_download_file (toy_params False) no_faults hash ''out'' None None (ks, d) = (Inr (), (ks, d([''out''] \<mapsto> ''data'')))"
proof -
  let ?u = "handle_upload_file (toy_params False) no_faults toy_random ''in'' ''name'' None None None ([], [[''in''] \<mapsto> ''data''])"
  have paths: "path_of_string ''in'' = [''in'']" "path_of_string ''out'' = [''out'']" by code_simp+
  have ok: "\<exists>hash ks d. ?u = (Inr (hash, None), (ks, d))"
    by (simp add: handle_upload_file_def store_plain_def toy_params_def paths ft_disk_act_def ft_disk_get_def fs_read_def fs_write_def and_then_def Let_def)
  then obtain hash ks d where u: "?u = (Inr (hash, None), (ks, d))" by blast
  have "codec_ok (tp_codec (toy_params False))" "\<not> tp_encryption (toy_params False)" "sha256 (tp_crypto (toy_params False)) ''data'' \<noteq> []"
    using toy_codec_ok by (simp_all add: toy_params_def toy_crypto_def)
  from plain_upload_download [OF this(1,2) _ this(3) u refl refl, of "''out''" None None ks no_faults] u paths show ?thesis by auto
qed

section \<open>An encrypted file never comes back\<close>

definition keys_known :: "keystore \<Rightarrow> string set" where
  "keys_known ks = (\<Union>a \<in> set ks. dom (ka_file_encryption_keys a))"

lemma change_account_keys: "keys_known (change_account address (add_file_key h k) ks) \<subseteq> insert h (keys_known ks)"
  by (induction ks) (auto simp: keys_known_def add_file_key_def split: if_splits)

lemma remember_key_keys:
  assumes "remember_key P R h account private_key (ks, d) = (r, (ks1, d1))"
  shows "keys_known ks1 \<subseteq> insert h (keys_known ks)"
proof (cases "account = None \<or> private_key = None")
  case True
  with assms show ?thesis by (auto simp: remember_key_def split: option.splits)
next
  case False
  then obtain a pk where some: "account = Some a" "private_key = Some pk" by auto
  let ?s = "store_file_encryption_key_with_private_key (tp_keystore_env P) (tp_keystore_crypto P) (ur_key_iv R) (ur_now R) a h (ur_key R) pk (ks, d)"
  have "ks1 = fst (snd ?s)" using assms some by (auto simp: remember_key_def split: prod.splits sum.splits keystore_error.splits)
  moreover have "keys_known (fst (snd ?s)) \<subseteq> insert h (keys_known ks)"
    using change_account_keys [of a h] save_keystore_memory
    by (cases "rbind (find_account a (fst (ks, d))) (\<lambda>_. private_key_bytes pk)") (auto simp: store_file_encryption_key_with_private_key_def)
  ultimately show ?thesis by simp
qed

lemma encrypted_upload:
  assumes "tp_encryption P" "handle_upload_file P io R file_path name recipient account private_key (ks, d) = (Inr (hash, meta), (ks1, d1))"
  shows "\<exists>m. meta = Some m \<and> keys_known ks1 \<subseteq> insert (em_original_file_hash m) (keys_known ks)"
  using assms by (auto simp: handle_upload_file_def store_encrypted_def and_then_eq_Ok ft_disk_act_Ok ft_disk_get_Ok Let_def dest!: remember_key_keys)

lemma no_decryption_key: "hash \<notin> keys_known ks \<Longrightarrow> \<exists>e. decryption_key P ks hash account private_key = Inl e"
  by (auto simp: decryption_key_def get_file_encryption_key_with_private_key_def find_file_key_def find_account_def keys_known_def find_Some_iff
      ok_or_def split: option.splits sum.splits keystore_error.splits prod.splits)

lemma no_key_no_download:
  assumes "codec_ok (tp_codec P)" "d (path_join (tp_storage_dir P) (hash @ ''.meta'')) = Some (fc_meta (tp_codec P) m)" "sd_is_encrypted m = Some True"
    "\<not> io_fails io (IoStat (path_join (tp_storage_dir P) (hash @ ''.meta'')))" "hash \<notin> keys_known ks"
  shows "\<exists>e. handle_download_file P io hash output_path account private_key (ks, d) = (Inl e, (ks, d))"
proof -
  obtain e where e: "decryption_key P ks hash account private_key = Inl e" using no_decryption_key [OF assms(5)] by blast
  have fetch: "\<exists>e. fetch_encrypted P io hash account private_key (ks, d) = (Inl e, (ks, d))"
    using e by (auto simp: fetch_encrypted_def Let_def and_then_def split: sum.splits)
  show ?thesis
  proof (cases "stored_encrypted P io hash d")
    case (Inr enc)
    with stored_flag_iff [OF assms(1) _ assms(3) Inr] assms(2,4) have enc by simp
    with Inr fetch show ?thesis by (auto simp: handle_download_file_def Let_def and_then_def)
  qed (auto simp: handle_download_file_def Let_def)
qed

lemma retries_never_succeed:
  assumes "\<And>k. \<exists>e. handle_download_file P (fst (att k)) hash output_path account private_key keys = (Inl e, keys)" "fv_keys v = keys"
  shows "fst (retry_download P att hash output_path account private_key k v) \<noteq> Inr () \<and> fv_keys (snd (retry_download P att hash output_path account private_key k v)) = keys"
  using assms(2)
proof (induction "4 - k" arbitrary: k v rule: less_induct)
  case less
  obtain e where e: "handle_download_file P (fst (att k)) hash output_path account private_key keys = (Inl e, keys)" using assms(1) by blast
  obtain io ms time where a: "att k = (io, ms, time)" by (cases "att k")
  show ?case
    using e a less.prems less.hyps [of "k + 1"]
    by (subst (1 2) retry_download.simps) (auto simp: Let_def emit_attempt_def MAX_DOWNLOAD_ATTEMPTS_def)
qed

text \<open>
  C40: A file that was uploaded with encryption can never be downloaded again. The key is kept under the hash of the original file and
  looked up under the hash of the encrypted one. If an encrypted upload reports a hash, which differs from the hash of the
  original and under which no key was kept before, then every later download of it fails, whatever account and private key are
  given and whatever else fails, and leaves keystore and disk as they were, as long as the metadata file is there.
\<close>

theorem encrypted_upload_undownloadable:
  assumes "codec_ok (tp_codec P)" "tp_encryption P"
    and "handle_upload_file P io R file_path name recipient account private_key (ks, d) = (Inr (hash, Some meta), (ks1, d1))"
    and "hash \<noteq> em_original_file_hash meta" "hash \<notin> keys_known ks"
    and "d2 (path_join (tp_storage_dir P) (hash @ ''.meta'')) = d1 (path_join (tp_storage_dir P) (hash @ ''.meta''))"
    and "\<And>k. \<not> io_fails (fst (att k)) (IoStat (path_join (tp_storage_dir P) (hash @ ''.meta'')))"
    and "fv_keys v = (ks1, d2)"
  shows "fst (download_with_retries P att hash output_path account' private_key' v) \<noteq> Inr () \<and>
    fv_keys (snd (download_with_retries P att hash output_path account' private_key' v)) = (ks1, d2)"
proof -
  obtain m where m: "d2 (path_join (tp_storage_dir P) (hash @ ''.meta'')) = Some (fc_meta (tp_codec P) m)" "sd_is_encrypted m = Some True"
    using uploaded_meta [OF assms(3)] assms(2,6) by auto
  have "hash \<notin> keys_known ks1" using encrypted_upload [OF assms(2,3)] assms(4,5) by auto
  then have "\<exists>e. handle_download_file P (fst (att k)) hash output_path account' private_key' (ks1, d2) = (Inl e, (ks1, d2))" for k
    using no_key_no_download [OF assms(1) _ m(2) assms(7)] m(1) by blast
  from retries_never_succeed [of P att, OF this assms(8)] show ?thesis unfolding download_with_retries_def by blast
qed

definition toy_service :: "keystore_state \<Rightarrow> transfer_state" where
  "toy_service keys = \<lparr>fv_keys = keys, fv_metrics = empty_metrics, fv_events = [], fv_bus = None, fv_queue = [], fv_running = True\<rparr>"

lemma toy_encrypted_upload:
  "case fst (handle_upload_file (toy_params True) no_faults toy_random ''in'' ''name'' None None None ([], [[''in''] \<mapsto> ''data''])) of
     Inr (hash, Some m) \<Rightarrow> hash \<noteq> em_original_file_hash m | _ \<Rightarrow> False"
  by code_simp

theorem encrypted_upload_undownloadable_witness:
  "\<exists>hash m ks d. handle_upload_file (toy_params True) no_faults toy_random ''in'' ''name'' None None None ([], [[''in''] \<mapsto> ''data'']) = (Inr (hash, Some m), (ks, d)) \<and>
     fst (download_with_retries (toy_params True) (\<lambda>_. (no_faults, 0, 0)) hash ''out'' None None (toy_service (ks, d))) \<noteq> Inr ()"
proof -
  obtain hash m ks d where u: "handle_upload_file (toy_params True) no_faults toy_random ''in'' ''name'' None None None ([], [[''in''] \<mapsto> ''data'']) = (Inr (hash, Some m), (ks, d))"
    "hash \<noteq> em_original_file_hash m"
    using toy_encrypted_upload
    by (cases "handle_upload_file (toy_params True) no_faults toy_random ''in'' ''name'' None None None ([], [[''in''] \<mapsto> ''data''])") (auto split: sum.splits option.splits)
  have "codec_ok (tp_codec (toy_params True))" "tp_encryption (toy_params True)" using toy_codec_ok by (simp_all add: toy_params_def)
  from encrypted_upload_undownloadable [where ?d2.0 = d and att = "\<lambda>_. (no_faults, 0, 0)" and v = "toy_service (ks, d)", OF this u] u
  show ?thesis by (auto simp: keys_known_def toy_service_def)
qed

section \<open>Attempts\<close>

lemma record_attempt_totals:
  assumes "dm_total_retries m \<le> u64_max" "dm_total_success m \<le> u64_max" "dm_total_failures m \<le> u64_max"
  shows "dm_total_retries (record_attempt a m) = min (dm_total_retries m + of_bool (da_status a = AtRetrying)) u64_max"
    and "dm_total_success (record_attempt a m) = min (dm_total_success m + of_bool (da_status a = AtSuccess)) u64_max"
    and "dm_total_failures (record_attempt a m) = min (dm_total_failures m + of_bool (da_status a = AtFailed)) u64_max"
  using assms by (cases "da_status a"; simp add: record_attempt_def Let_def)+

lemma saturates_once: "min (min (x + a) M + c) M = min (x + (a + c)) (M :: nat)"
  by (simp add: min_def)

lemma fold_attempts:
  assumes "dm_total_retries m \<le> u64_max" "dm_total_success m \<le> u64_max" "dm_total_failures m \<le> u64_max"
  shows "dm_total_retries (fold record_attempt as m) = min (dm_total_retries m + count_list (map da_status as) AtRetrying) u64_max \<and>
    dm_total_success (fold record_attempt as m) = min (dm_total_success m + count_list (map da_status as) AtSuccess) u64_max \<and>
    dm_total_failures (fold record_attempt as m) = min (dm_total_failures m + count_list (map da_status as) AtFailed) u64_max"
  using assms
proof (induction as arbitrary: m)
  case (Cons a as)
  note t = record_attempt_totals [OF Cons.prems, of a]
  have "dm_total_retries (record_attempt a m) \<le> u64_max" "dm_total_success (record_attempt a m) \<le> u64_max" "dm_total_failures (record_attempt a m) \<le> u64_max"
    by (simp_all add: t)
  from Cons.IH [OF this, unfolded t saturates_once] show ?case by (cases "da_status a"; simp)
qed simp

lemma fold_recent: "length (dm_recent_attempts m) \<le> 20 \<Longrightarrow> dm_recent_attempts (fold record_attempt as m) = take 20 (rev as @ dm_recent_attempts m)"
proof (induction as arbitrary: m)
  case (Cons a as)
  have r: "dm_recent_attempts (record_attempt a m) = take 20 (a # dm_recent_attempts m)"
    by (cases "da_status a"; simp add: record_attempt_def Let_def)
  have "take 20 (rev as @ take 20 xs) = take 20 (rev as @ xs)" for xs :: "download_attempt list"
    by (simp only: take_append take_take) simp
  from Cons.IH [of "record_attempt a m", unfolded r this] show ?case by simp
qed simp

lemma retry_attempts:
  assumes "retry_download P att hash output_path account private_key k v = (r, v')" "r \<noteq> Inl FtPanicked" "k \<le> 3"
  shows "\<exists>as n. k + n \<le> 3 \<and> map da_attempt as = [k..<k + n + 1] \<and>
    map da_status as = replicate n AtRetrying @ [if r = Inr () then AtSuccess else AtFailed] \<and> (r \<noteq> Inr () \<longrightarrow> k + n = 3) \<and>
    fv_events v' = fv_events v @ map AttemptEvent as \<and> fv_metrics v' = fold record_attempt as (fv_metrics v)"
  using assms
proof (induction "4 - k" arbitrary: k v rule: less_induct)
  case less
  obtain io ms time where a: "att k = (io, ms, time)" by (cases "att k")
  obtain r1 keys where h: "handle_download_file P io hash output_path account private_key (fv_keys v) = (r1, keys)" by (meson surj_pair)
  let ?a = "\<lambda>st. \<lparr>da_file_hash = hash, da_attempt = k, da_max_attempts = MAX_DOWNLOAD_ATTEMPTS, da_status = st, da_duration_ms = ms, da_timestamp = time\<rparr>"
  let ?v = "\<lambda>st. emit_attempt (?a st) (v\<lparr>fv_keys := keys\<rparr>)"
  have v: "fv_events (?v st) = fv_events v @ [AttemptEvent (?a st)]" "fv_metrics (?v st) = record_attempt (?a st) (fv_metrics v)" for st
    by (simp_all add: emit_attempt_def)
  note step = less.prems(1) [unfolded retry_download.simps [of P att hash output_path account private_key k]]
  consider "r1 = Inr ()" | "r1 \<noteq> Inr ()" "k = 3" | "r1 \<noteq> Inr ()" "k < 3" using less.prems(3) by linarith
  then show ?case
  proof cases
    case 1
    with step a h have "r = Inr ()" "v' = ?v AtSuccess" by (simp_all add: Let_def)
    with less.prems(3) v show ?thesis by (intro exI [of _ "[?a AtSuccess]"] exI [of _ 0]) simp
  next
    case 2
    with step a h less.prems(2) have "r = r1" "v' = ?v AtFailed" by (auto simp: Let_def MAX_DOWNLOAD_ATTEMPTS_def split: if_splits)
    with 2 v show ?thesis by (intro exI [of _ "[?a AtFailed]"] exI [of _ 0]) simp
  next
    case 3
    with step a h less.prems(2) have "retry_download P att hash output_path account private_key (k + 1) (?v AtRetrying) = (r, v')"
      by (auto simp: Let_def MAX_DOWNLOAD_ATTEMPTS_def split: if_splits)
    moreover have lt: "4 - (k + 1) < 4 - k" "k + 1 \<le> 3" using 3 by simp_all
    ultimately obtain as n where as: "k + 1 + n \<le> 3" "map da_attempt as = [k + 1..<k + 1 + n + 1]"
      "map da_status as = replicate n AtRetrying @ [if r = Inr () then AtSuccess else AtFailed]" "r \<noteq> Inr () \<longrightarrow> k + 1 + n = 3"
      "fv_events v' = fv_events (?v AtRetrying) @ map AttemptEvent as" "fv_metrics v' = fold record_attempt as (fv_metrics (?v AtRetrying))"
      using less.hyps [OF lt(1) _ less.prems(2) lt(2)] by blast
    then show ?thesis using v by (intro exI [of _ "?a AtRetrying # as"] exI [of _ "n + 1"]) (simp add: upt_conv_Cons del: upt_Suc)
  qed
qed

text \<open>
  C31: A download makes one to three attempts, and every attempt is accounted for exactly once. Unless it panics, the attempts
  are numbered from one; all but the last are reported as retrying, the last as a success exactly if the download returns Ok, as a
  failure only if it was the third. The events sent are those attempts in order, the totals grow by exactly their numbers (up to the
  largest value), and the recent list has the latest first and never more than twenty.
\<close>

theorem attempts_accounted:
  assumes "download_with_retries P att hash output_path account private_key v = (r, v')" "r \<noteq> Inl FtPanicked"
    and "dm_total_retries (fv_metrics v) \<le> u64_max" "dm_total_success (fv_metrics v) \<le> u64_max" "dm_total_failures (fv_metrics v) \<le> u64_max"
    and "length (dm_recent_attempts (fv_metrics v)) \<le> 20"
  shows "\<exists>as n. 1 \<le> n \<and> n \<le> 3 \<and> map da_attempt as = [1..<n + 1] \<and>
    map da_status as = replicate (n - 1) AtRetrying @ [if r = Inr () then AtSuccess else AtFailed] \<and> (r \<noteq> Inr () \<longrightarrow> n = 3) \<and>
    fv_events v' = fv_events v @ map AttemptEvent as \<and>
    dm_total_retries (fv_metrics v') = min (dm_total_retries (fv_metrics v) + (n - 1)) u64_max \<and>
    dm_total_success (fv_metrics v') = min (dm_total_success (fv_metrics v) + of_bool (r = Inr ())) u64_max \<and>
    dm_total_failures (fv_metrics v') = min (dm_total_failures (fv_metrics v) + of_bool (r \<noteq> Inr ())) u64_max \<and>
    dm_recent_attempts (fv_metrics v') = take 20 (rev as @ dm_recent_attempts (fv_metrics v))"
proof -
  obtain as n where as: "1 + n \<le> 3" "map da_attempt as = [1..<1 + n + 1]"
      "map da_status as = replicate n AtRetrying @ [if r = Inr () then AtSuccess else AtFailed]" "r \<noteq> Inr () \<longrightarrow> 1 + n = 3"
      "fv_events v' = fv_events v @ map AttemptEvent as" "fv_metrics v' = fold record_attempt as (fv_metrics v)"
    using retry_attempts [OF assms(1) [unfolded download_with_retries_def] assms(2)] by auto
  have count: "count_list (replicate i x) y = (if x = y then i else 0)" for i and x y :: attempt_status by (induction i) auto
  note totals = fold_attempts [OF assms(3-5), of as, unfolded as(3), folded as(6)]
  show ?thesis
    using as totals fold_recent [OF assms(6), of as]
    by (intro exI [of _ as] exI [of _ "1 + n"]) (auto simp: count simp del: upt_Suc)
qed

theorem attempts_accounted_witness:
  "\<exists>as n. n \<le> (3 :: nat) \<and> map da_attempt as = [1..<n + 1] \<and>
     fv_events (snd (download_with_retries (toy_params False) (\<lambda>_. (no_faults, 0, 0)) ''h'' ''out'' None None (toy_service ([], Map.empty)))) = map AttemptEvent as"
proof -
  let ?d = "download_with_retries (toy_params False) (\<lambda>_. (no_faults, 0, 0)) ''h'' ''out'' None None (toy_service ([], Map.empty))"
  obtain r v where d: "?d = (r, v)" by (cases ?d)
  have "fst ?d = Inl FtNotFound"
    by (simp add: download_with_retries_def retry_download.simps handle_download_file_def fs_exists_def toy_service_def MAX_DOWNLOAD_ATTEMPTS_def emit_attempt_def Let_def)
  with d have "r \<noteq> Inl FtPanicked" by simp
  have fresh: "dm_total_retries (fv_metrics (toy_service k)) \<le> u64_max" "dm_total_success (fv_metrics (toy_service k)) \<le> u64_max"
    "dm_total_failures (fv_metrics (toy_service k)) \<le> u64_max" "length (dm_recent_attempts (fv_metrics (toy_service k))) \<le> 20" "fv_events (toy_service k) = []" for k
    by (simp_all add: toy_service_def empty_metrics_def)
  from attempts_accounted [OF d \<open>r \<noteq> Inl FtPanicked\<close> fresh(1-4)] obtain as n
    where "n \<le> 3" "map da_attempt as = [1..<n + 1]" "fv_events v = [] @ map AttemptEvent as" unfolding fresh(5) by blast
  then show ?thesis unfolding d snd_conv append_Nil by blast
qed

section \<open>Limits of the service\<close>

text \<open>
  A hash that is an absolute path gives away any file. The storage directory is not consulted: a download of an absolute path with
  no metadata file beside it copies that file to the output, for everyone, and so does reading file data.
\<close>

theorem absolute_hash_escapes:
  assumes "starts_with ''/'' hash" "d (path_of_string hash) = Some b" "d (path_of_string (hash @ ''.meta'')) = None"
  shows "handle_download_file P no_faults hash output_path account private_key (ks, d) = (Inr (), (ks, d(path_of_string output_path \<mapsto> b))) \<and>
    get_file_data P no_faults hash d = Some b"
proof -
  have "starts_with ''/'' (hash @ ''.meta'')" using assms(1) by (cases hash) (auto simp: starts_with_def)
  with assms show ?thesis
    by (simp add: handle_download_file_def get_file_data_def stored_encrypted_def path_join_def fs_exists_def fs_read_def fs_write_def write_output_def
        ft_disk_act_def ft_disk_get_def and_then_def Let_def)
qed

theorem absolute_hash_escapes_witness:
  "get_file_data (toy_params False) no_faults ''/etc/shadow'' [[''/'', ''etc'', ''shadow''] \<mapsto> ''secret''] = Some ''secret''"
proof -
  have "starts_with ''/'' ''/etc/shadow''" "path_of_string ''/etc/shadow'' = [''/'', ''etc'', ''shadow'']"
    "path_of_string (''/etc/shadow'' @ ''.meta'') = [''/'', ''etc'', ''shadow.meta'']" by code_simp+
  then show ?thesis
    using absolute_hash_escapes [of "''/etc/shadow''" "[[''/'', ''etc'', ''shadow''] \<mapsto> ''secret'']" "''secret''" "toy_params False" "''out''" None None "[]"] by simp
qed

text \<open>
  One command can stop the service for good. An encrypted upload of a readable file for a known account with a private key of fewer
  than 32 bytes panics inside the task; from then on every command in the queue is left there, whatever happens, and every new one is
  refused.
\<close>

theorem short_key_stops_service:
  assumes "tp_encryption P" "fv_running v" "fv_keys v = (ks, d)" "fv_queue v = UploadFile file_path name (Some a) (Some private_key) # rest"
    and "fs_read (cv_io N) (path_of_string file_path) d = Inr data" "find_account a ks = Inr acc" "private_key_bytes private_key = Inl KsPanicked"
  shows "fv_queue (run_file_transfer_service P (N # Ns) v) = rest \<and> fv_events (run_file_transfer_service P (N # Ns) v) = fv_events v \<and>
    fst (ft_send_command cmd (run_file_transfer_service P (N # Ns) v)) = False"
proof -
  have stuck: "\<not> fv_running w \<Longrightarrow> fold (service_round P) Ns w = w" for w
    by (induction Ns) (auto simp: service_round_def split: list.splits)
  have "store_file_encryption_key_with_private_key (tp_keystore_env P) (tp_keystore_crypto P) iv now a h key private_key (ks, d) = (Inl KsPanicked, (ks, d))" for iv now h key
    using assms(6,7) by (simp add: store_file_encryption_key_with_private_key_def fail_def)
  then have "handle_upload_file P (cv_io N) (cv_random N) file_path name None (Some a) (Some private_key) (ks, d) = (Inl FtPanicked, (ks, d))"
    using assms(1,5) by (simp add: handle_upload_file_def store_encrypted_def remember_key_def ft_disk_get_def and_then_def Let_def)
  then have one: "service_round P N v = v\<lparr>fv_queue := rest, fv_keys := (ks, d), fv_running := False\<rparr>"
    using assms(2-4) by (simp add: service_round_def ft_run_command_def run_upload_def Let_def)
  show ?thesis by (simp add: run_file_transfer_service_def one stuck ft_send_command_def)
qed

definition toy_account :: encrypted_keystore where
  "toy_account = \<lparr>ka_address = ''0xa'', ka_encrypted_private_key = [], ka_salt = [], ka_iv = [], ka_encrypted_two_fa_secret = None, ka_two_fa_iv = None,
     ka_file_encryption_keys = Map.empty\<rparr>"

definition toy_command_env :: command_env where
  "toy_command_env = \<lparr>cv_io = no_faults, cv_random = toy_random, cv_attempts = (\<lambda>_. (no_faults, 0, 0)), cv_start_ms = 0, cv_end_ms = 0, cv_bus_fails = (\<lambda>_. False)\<rparr>"

theorem short_key_stops_service_witness:
  "fst (ft_send_command GetStoredFiles (run_file_transfer_service (toy_params True) [toy_command_env]
     ((toy_service ([toy_account], [[''in''] \<mapsto> ''data'']))\<lparr>fv_queue := [UploadFile ''in'' ''name'' (Some ''0xa'') (Some ''0xab'')]\<rparr>))) = False"
proof -
  let ?v = "(toy_service ([toy_account], [[''in''] \<mapsto> ''data'']))\<lparr>fv_queue := [UploadFile ''in'' ''name'' (Some ''0xa'') (Some ''0xab'')]\<rparr>"
  have "tp_encryption (toy_params True)" "fv_running ?v" "fv_keys ?v = ([toy_account], [[''in''] \<mapsto> ''data''])"
    "fv_queue ?v = [UploadFile ''in'' ''name'' (Some ''0xa'') (Some ''0xab'')]" by (simp_all add: toy_params_def toy_service_def)
  moreover have "path_of_string ''in'' = [''in'']" by code_simp
  then have "fs_read (cv_io toy_command_env) (path_of_string ''in'') [[''in''] \<mapsto> ''data''] = Inr ''data''" by (simp add: toy_command_env_def fs_read_def)
  moreover have "find_account ''0xa'' [toy_account] = Inr toy_account" by (simp add: find_account_def toy_account_def)
  moreover have "private_key_bytes ''0xab'' = Inl KsPanicked" by code_simp
  ultimately show ?thesis using short_key_stops_service [where Ns = "[]" and N = toy_command_env and P = "toy_params True"] by blast
qed

end
