(* ===== verification/Spec2Isabelle.thy ===== *)
theory Spec2Isabelle
  imports PeerSelection ConnectionRetry PeerCache DownloadRestart ControlPlane
    ChunkScheduler PaymentCheckpoint DownloadRecovery StreamAuth Reassembly Reputation ChunkNetwork
    Bandwidth DownloadPersistence MultiSourceStore Analytics HttpTransfer ProtocolManager Ed2kClient Storage FileTransfer
begin

text \<open>
  \<^bold>\<open>Chiral Network: the transfer core of the backend\<close>

  Chiral Network is a peer-to-peer file sharing program: a Tauri application whose Rust backend
  (\<^verbatim>\<open>src-tauri/src\<close>) cuts files into encrypted, content-addressed chunks, finds peers through a
  DHT, downloads chunks from several peers and protocols at once, charges for the data
  served, and resumes interrupted downloads. This development models the parts of the backend
  that decide whether a file arrives intact and is paid for, and proves them correct, or
  proves where they are not.

  \<^bold>\<open>The parts and how they interact.\<close> A sender runs the chunk manager, which splits and encrypts a
  file (encryption) and stores the chunks. A receiver learns the file's metadata (DHT data
  model), ranks the sources it knows (download sources), asks peers for chunks (chunk
  scheduler), pays at checkpoints (payment checkpoints), checks and orders what arrives over
  an authenticated stream (stream authentication), writes it into place (reassembly), and
  keeps a record from which an interrupted download continues (download recovery). Around it,
  peers are scored and chosen (peer selection) and remembered across restarts (peer cache),
  connections are retried with a back-off (connection retry), whole files are fetched over HTTP with
  pause and resume (download restart), and seeders grant leases for resuming in signed tokens
  (control plane). Several sources of different protocols serve one file at a time (multi-source download),
  chunks are requested from peers in parallel (chunk network), transfers share a bandwidth limit (bandwidth), files
  under construction are kept in a part file (download persistence), and what peers say of each other is anchored in Merkle roots
  (reputation).

  \<^bold>\<open>Theories.\<close> In the order in which they build on each other:

  \<^item> \<open>Prelude\<close>: unsigned integers with the wrap-around of a build without overflow checks,
    \<open>Result\<close>, hash maps as partial functions with the iteration order as an argument.
  \<^item> \<open>F64\<close>: IEEE doubles and singles as rationals with infinities and a not-a-number, rounding to
    nearest even, monotone and idempotent. The sign of zero is not kept.
  \<^item> \<open>Interfaces\<close>: the contracts shared by components, as locales. \<open>invariant_machine\<close> and
    \<open>progress_machine\<close> (services whose calls keep an invariant) are interpreted on the
    scheduler, the payment service, the download record, the resume permits, the peer metrics,
    the download restart service, the epochs of the reputation system, the chunk coordinator, the bandwidth limiter, the
    multi-source service and the analytics service; \<open>keyed_service\<close> on the payment service, the peer metrics and the
    connection manager; \<open>bounded_cache\<close> on the LRU cache; \<open>scored_choice\<close> on the choice of a source. (\<open>restart_effects\<close>, on what a
    worker does to the state, stands with the download restart service.)
    Also here: stable sorting with a comparison.
  \<^item> \<open>Actions\<close>: fallible operations on a state, composed the way the \<open>?\<close> operator does, with triples that
    have a postcondition for either way of returning.
  \<^item> \<open>Text\<close>: byte strings, hexadecimal, big-endian numbers, decimal numbers, splitting, trimming, UTF-8.
  \<^item> \<open>FileSystem\<close>: paths, and a disk on which every system call may fail and a failed write may
    leave a prefix.
  \<^item> \<open>ChunkScheduler\<close> (\<^verbatim>\<open>chunk_scheduler.rs\<close>): the record \<open>chunk_scheduler\<close> is the struct; one
    definition per method; \<open>exec_cmd\<close> and \<open>run_command\<close> are the Tauri commands on the global
    scheduler. Shown: the request ledger is consistent in every reachable state, what
    \<open>get_next_requests\<close> hands out and that it hands out as much as possible, the load of
    a peer, no overdue request survives; two defects of the counters.
  \<^item> \<open>PaymentCheckpoint\<close> (\<^verbatim>\<open>payment_checkpoint.rs\<close>): the service, one definition per method, with
    doubles for prices. Shown: the session invariant, pauses last until paid, the exact
    effect of a payment, a transaction is accepted once, the doubling schedule, failed
    payments are final; the amount asked in upfront mode, which is not what the documents say.
  \<^item> \<open>Encryption\<close> (\<^verbatim>\<open>encryption.rs\<close>): password, ECIES and signature functions over a record \<open>crypto\<close> of
    third-party primitives with their documented laws (\<open>crypto_ok\<close>, which a concrete toy
    instance satisfies). Shown: round trips; a panic on malformed nonces.
  \<^item> \<open>ChunkManager\<close> (\<^verbatim>\<open>manager.rs\<close>): LRU cache, chunk store, chunking, reassembly. Shown: the
    cache refines a bounded list of pairs in order of use, chunking and reassembly round
    trip whatever short reads and evictions happen, reassembly only returns chunks with the
    manifest's hashes; a half-written chunk is never repaired.
  \<^item> \<open>DownloadSource\<close> (\<^verbatim>\<open>download_source.rs\<close>, \<^verbatim>\<open>download_scheduler.rs\<close>): sources, scores, host extraction,
    the task table. Shown: the best source is chosen, hosts are extracted.
  \<^item> \<open>DhtModels\<close> (\<^verbatim>\<open>dht/models.rs\<close>): file metadata and the eDonkey link parser. Shown: links parse
    to the fields they were built from.
  \<^item> \<open>DownloadRecovery\<close> (\<^verbatim>\<open>p2p_download_recovery.rs\<close>): the persisted download record, verification,
    planning, the commands. Shown: the chunk table tiles the file, the byte counter is exact under every
    sequence of operations in which the table is not initialised again over verified chunks, verification is exact, persisting is
    atomic; a chunk without a hash is stuck for ever.
  \<^item> \<open>StreamAuth\<close> (\<^verbatim>\<open>stream_auth.rs\<close>): sessions, message authentication, key exchange. Shown: which
    messages are accepted, chunk frames round trip, both ends agree on the key and when the
    responder can finish; one-way streams are rejected, one bad response spoils an exchange.
  \<^item> \<open>Reassembly\<close> (\<^verbatim>\<open>reassembly.rs\<close>): chunks written in any order build the file, a write is recorded,
    finalizing is exact; a concurrent save of the bitmap is lost.
  \<^item> \<open>PeerSelection\<close> (\<^verbatim>\<open>peer_selection.rs\<close>): metrics of peers, scores, selection. Shown: scores stay in the
    unit interval and counters add up under all calls, a selection is the best one; penalties are
    overwritten.
  \<^item> \<open>ConnectionRetry\<close> (\<^verbatim>\<open>connection_retry.rs\<close>): configuration, trackers, manager, the two retry loops
    (partial functions into \<open>option\<close>, so that not returning is \<open>None\<close>), health of the DHT connections. Shown:
    when the loops return and with what, that they are equivalent, bounds of the delay; attempts are
    counted twice, and a race loses a tracker.
  \<^item> \<open>PeerCache\<close> (\<^verbatim>\<open>peer_cache.rs\<close>): ranking, limit, saving and loading. Shown: the best hundred are kept,
    saving is atomic and loading undoes it.
  \<^item> \<open>DownloadRestart\<close> (\<^verbatim>\<open>download_restart.rs\<close>): the worker as a composition of actions on the table of
    downloads and the disk, given the answers of the server and the events of the stream (record
    \<open>http_server\<close>, datatype \<open>stream_event\<close>). Shown: downloads complete exactly, also across a pause; completed
    means verified; every worker has a cancellation token of its own, so a pause stops no other download; two defects of resuming.
  \<^item> \<open>ControlPlane\<close> (\<^verbatim>\<open>control_plane/\<close>): handshake, key cache, signed tokens, lease renewal. Shown: issued
    tokens are accepted, what acceptance implies, which keys are served, when a lease is renewed; tokens
    cannot be verified for as long as their lease lasts.
  \<^item> \<open>Reputation\<close> (\<^verbatim>\<open>reputation.rs\<close>): Merkle trees and proofs, signed events, epochs that are finalized on chain, verdicts
    in the DHT, trust scores. Shown: in a full tree an accepted inclusion proof is of the leaf at its position,
    scores use the newest events only; a carried leaf is rejected at its position and accepted at another, with the key the code uses
    no epoch is ever finalized.
  \<^item> \<open>ChunkNetwork\<close> (\<^verbatim>\<open>p2p_chunk_network.rs\<close>): the coordinator that assigns chunks to peers, the persisted download
    and its verification. Shown: the coordinator's invariant, assigning loses no chunk and respects the limits, verification is
    exact; a mismatch in the final hash is reported as completion.
  \<^item> \<open>Bandwidth\<close> (\<^verbatim>\<open>bandwidth.rs\<close>): token buckets with doubles. Shown: grants never exceed the burst; a request above the burst
    waits for ever, as does one that is woken exactly in time.
  \<^item> \<open>DownloadPersistence\<close> (\<^verbatim>\<open>download_persistence.rs\<close>, \<^verbatim>\<open>download_paths.rs\<close>): the sandbox of destinations, part files and their metadata,
    finalizing, the download directory. Shown: which destinations are accepted, part files are durable up to the fsync
    interval and what an earlier writer left unsynced, finalizing is exact; a symbolic link leaves the sandbox.
  \<^item> \<open>MultiSource\<close>, \<open>MultiSourceService\<close>, \<open>MultiSourceStore\<close> (\<^verbatim>\<open>multi_source_download.rs\<close>): the chunk table and the assignment of chunks to
    sources; the service with its commands, connections and arriving chunks; what it keeps on disk. The table of chunks is calculated by
    a partial function, since with a chunk size of zero the loop does not end. The lock of the table is not re-entrant: a call
    that takes it again is \<open>None\<close>. Shown: the table covers the file, the assignment is a round robin, a
    download whose chunks came from FTP, eDonkey and HTTP is assembled exactly whatever else the service does (\<open>ms_step\<close> says which steps are
    excluded), a saved download is restored but for what serde skips; restarting a download with a stored
    chunk never returns, chunks beyond ten per source are lost, and more defects.
  \<^item> \<open>TransferEvents\<close> (\<^verbatim>\<open>transfer_events.rs\<close>): the typed events and the bus, which is what its listeners received. Shown: what
    the generic channel delivers, progress is a percentage.
  \<^item> \<open>Analytics\<close> (\<^verbatim>\<open>analytics.rs\<close>): the counters with the set of mutexes that are taken; a call that waits for ever is an
    error value and keeps its mutexes. Shown: what events add up to; the histories are never written, and a call
    a minute after the start blocks the counters for ever.
  \<^item> \<open>HttpServer\<close> (\<^verbatim>\<open>http_server.rs\<close>), \<open>HttpDownload\<close> (\<^verbatim>\<open>http_download.rs\<close>), \<open>HttpTransfer\<close>: the server of files and byte ranges, the
    client that fetches a file in ranges with retries, and both together. Shown: ranges are served exactly; the client against the
    server writes exactly the file under a name that was free, as long as there is one among the thousand it tries; the version with events returns the same; what resuming does to a file of the wrong
    length; the credit of an upload and the name of the finished file are wrong.
  \<^item> \<open>ProtocolTraits\<close> (\<^verbatim>\<open>protocols/traits.rs\<close>, \<^verbatim>\<open>options.rs\<close>), \<open>MultiCoordinator\<close> (\<^verbatim>\<open>multi_source.rs\<close>), \<open>ProtocolManager\<close> (\<^verbatim>\<open>mod.rs\<close>,
    \<^verbatim>\<open>api.rs\<close>, \<^verbatim>\<open>detection.rs\<close>, \<^verbatim>\<open>seeding.rs\<close>): handlers as records of functions on a shared world, the coordinator of downloads over several
    protocols with its tasks and monitors, and the manager of transfers and seeded files. The chunks tile the file although they
    are counted in floating point, each is given to one of the sources if these are different, the monitor then ends once the tasks have; detection returns the best
    allowed protocol. The assembled file is the file once per chunk, reported progress is always nought, a cancelled upload goes on
    seeding, and bans in the options of a download have no effect.
  \<^item> \<open>Ed2kClient\<close> (\<^verbatim>\<open>ed2k_client.rs\<close>): packets, hashes, the eDonkey client and the server of blocks. Shown: packets and server links
    survive the way; a block fetched from the own server is the block of the shared file; chunks and hashes are those of the
    protocol if every read fills its buffer, and with the reads of the runtime's files they are not; the server keeps its limits on
    connections. A foreign part is accepted, and requests for chunks and offers are no packets.
  \<^item> \<open>Storage\<close> (\<^verbatim>\<open>storage_manager.rs\<close>, \<^verbatim>\<open>blockstore_manager.rs\<close>): a tree of files with sizes and times, its usage, and the clean-up by age
    and last access. Shown: what may be removed and that nothing else changes, whatever calls fail; the usage and the report of
    the blockstore are exact; downloads go least recently used first. Failed removals count as freed, and temporary files of running
    transfers are removed.
  \<^item> \<open>Keystore\<close> (\<^verbatim>\<open>keystore.rs\<close>): accounts, two-factor secrets and file keys. What was stored comes back with its password or
    private key, addresses stay unique. A wrong password is not noticed for certain, adding an account again drops its file
    keys, a failed save can destroy the file.
  \<^item> \<open>FileTransfer\<close> (\<^verbatim>\<open>file_transfer.rs\<close>): the service that stores files and hands them out. Shown: an unencrypted file comes back byte
    for byte, attempts and metrics are accounted for exactly. An encrypted file never comes back, an absolute path as hash gives away
    any file, a short private key stops the service.

  \<^bold>\<open>What spans components\<close> stands below, in this theory.

  \<^bold>\<open>Conventions.\<close> A struct is a record, an enum a datatype, an operation a function that returns
  the result and the new state. Every \<open>Err\<close>, early return and panic is a value; error strings
  are constructors. Clock readings, random values and hash-map iteration orders are
  arguments, so a theorem holds for all of them. A mutex or file lock makes its section
  atomic; where two sections use different locks they are separate definitions that can be
  interleaved. No definition needs fuel: every loop of the modelled code runs over a list or
  over the remaining bytes of a file, except the retry loops and the loop over a chunk table, which are partial functions; how many packets the
  eDonkey server reads from a connection before its overall timeout is an argument.
  Log output is left out.

  \<^bold>\<open>Bounds.\<close> \<open>u32\<close>, \<open>u64\<close> and \<open>usize\<close> are natural numbers with the reduction modulo the width
  written out where the code can overflow. \<open>small_file\<close> in \<open>DownloadRecovery\<close> is the exact
  condition that the 32-bit chunk count does not wrap (just under a pebibyte).

  \<^bold>\<open>Not modelled.\<close> The libp2p event loop (\<^verbatim>\<open>dht.rs\<close>), WebRTC, the BitTorrent and FTP
  transports and their protocol handlers, the HTTP and eDonkey protocol handlers, the Ethereum node, the command shell (\<^verbatim>\<open>main.rs\<close>) and the user interface: network
  and process I/O around third-party code. Worth modelling next, in this order: the protocol
  handlers, the publish path of the DHT.
\<close>

section \<open>From chunks to the finished file\<close>

text \<open>The bytes of chunk \<open>i\<close> of the download record's table.\<close>

definition chunk_slice :: "bytes \<Rightarrow> nat \<Rightarrow> bytes" where
  "chunk_slice content i = take CHUNK_SIZE (drop (i * CHUNK_SIZE) content)"

definition chunk_hash :: "(bytes \<Rightarrow> bytes) \<Rightarrow> bytes \<Rightarrow> nat \<Rightarrow> string" where
  "chunk_hash sha content i = hex_encode (sha (chunk_slice content i))"

text \<open>The arguments of the write command for chunk \<open>i\<close>, and the state of the record once every chunk was received.\<close>

definition chunk_write :: "(bytes \<Rightarrow> bytes) \<Rightarrow> bytes \<Rightarrow> nat \<Rightarrow> chunk_arg" where
  "chunk_write sha content i = (i, offset_for i, chunk_slice content i, Some (chunk_hash sha content i))"

definition received_state ::
  "(bytes \<Rightarrow> bytes) \<Rightarrow> bytes \<Rightarrow> u64 \<Rightarrow> string \<Rightarrow> string \<Rightarrow> string \<Rightarrow> string \<Rightarrow> u32 list \<Rightarrow> dl_state" where
  "received_state sha content now rt fname tmp dst order =
     mark_batch_downloaded now order
       (init_chunks (Some (map (chunk_hash sha content) [0..<chunk_count (length content)]))
         (dl_new now rt fname (length content) tmp dst))"

lemma chunk_slice_length: "length (chunk_slice content i) = min (length content) (Suc i * CHUNK_SIZE) - i * CHUNK_SIZE"
  by (auto simp: chunk_slice_def min_def)

lemma chunk_slice_piece:
  assumes "small_file (length content)" "i < chunk_count (length content)"
  shows "piece_of content (offset_for i, chunk_slice content i)"
    and "read_exact (offset_for i) (length (chunk_slice content i)) content = Some (chunk_slice content i)"
  using init_chunk(1,2) [OF assms]
  by (auto simp: piece_of_def offset_for_def chunk_slice_def read_exact_def min_def)

lemma slices_cover:
  assumes "small_file (length content)" "k < length content"
  shows "k div CHUNK_SIZE < chunk_count (length content)"
    and "k \<in> region (offset_for (k div CHUNK_SIZE), chunk_slice content (k div CHUNK_SIZE))"
proof -
  have "k < chunk_count (length content) * CHUNK_SIZE" using count_covers [OF assms(1)] assms(2) by simp
  then show lt: "k div CHUNK_SIZE < chunk_count (length content)" by (simp add: less_mult_imp_div_less)
  have "k div CHUNK_SIZE * CHUNK_SIZE \<le> k" "k < Suc (k div CHUNK_SIZE) * CHUNK_SIZE"
    using dividend_less_div_times [of CHUNK_SIZE k] by (simp_all add: CHUNK_SIZE_def)
  with assms(2) init_chunk(1) [OF assms(1) lt]
  show "k \<in> region (offset_for (k div CHUNK_SIZE), chunk_slice content (k div CHUNK_SIZE))"
    by (auto simp: region_def offset_for_def chunk_slice_length min_def)
qed

text \<open>Without faults a write with the right checksum succeeds.\<close>

lemma write_chunk_succeeds:
  assumes "CHR ''/'' \<notin> set tid" "cks = Some (hex_encode (sha data))"
  shows "rr_ok (fst (write_chunk_temp no_faults sha parse print saved dir tid i off data cks d))"
  using assms
  by (simp add: write_chunk_temp_def open_create_def write_all_at_def update_bitmap_add_chunk_def replace_bitmap_def
      eq_ignore_ascii_case_def fs_write_def fs_rename_def Let_def)

lemma write_chunks_succeed:
  assumes "CHR ''/'' \<notin> set tid"
  shows "fst (write_chunks_temp no_faults sha parse print saved dir tid (map (chunk_write sha content) order) d)"
proof (induction order arbitrary: d)
  case (Cons i order)
  let ?w = "write_chunk_temp no_faults sha parse print saved dir tid i (offset_for i) (chunk_slice content i) (Some (chunk_hash sha content i)) d"
  have "rr_ok (fst ?w)" by (rule write_chunk_succeeds [OF assms]) (simp add: chunk_hash_def)
  with Cons.IH show ?case by (cases ?w) (simp add: chunk_write_def)
qed simp

lemma batch_download_fold:
  "i < length (dl_chunks s) \<Longrightarrow> dl_chunks (foldl batch_download_one s is) ! i =
     (if i \<in> set is \<and> dc_state (dl_chunks s ! i) = ChPending then (dl_chunks s ! i)\<lparr>dc_state := ChDownloaded\<rparr>
      else dl_chunks s ! i)"
proof (induction "is" arbitrary: s)
  case (Cons k "is")
  from Cons.prems have "i < length (dl_chunks (batch_download_one s k))" by (simp add: batch_download_one_def)
  from Cons.IH [OF this] Cons.prems show ?case by (auto simp: batch_download_one_def nth_list_update)
qed simp

lemma batch_download_keeps: "length (dl_chunks (foldl batch_download_one s is)) = length (dl_chunks s)
    \<and> dl_tmp_path (foldl batch_download_one s is) = dl_tmp_path s \<and> dl_dst_path (foldl batch_download_one s is) = dl_dst_path s"
  by (induction "is" arbitrary: s) (simp_all add: batch_download_one_def set_chunk_def)

lemma verify_all_paths: "dl_tmp_path (snd (verify_all env sha clock d s)) = dl_tmp_path s
    \<and> dl_dst_path (snd (verify_all env sha clock d s)) = dl_dst_path s"
proof -
  have "dl_tmp_path (snd (foldl (verify_one env sha clock tmp d) acc cs)) = dl_tmp_path (snd acc)
      \<and> dl_dst_path (snd (foldl (verify_one env sha clock tmp d) acc cs)) = dl_dst_path (snd acc)" for tmp acc cs
    by (induction cs arbitrary: acc)
      (auto simp: verify_one_def mark_verified_def mark_failed_def set_chunk_def touch_def Let_def split: prod.split)
  then show ?thesis by (simp add: verify_all_def Let_def)
qed

lemma received_state_chunks:
  assumes "small_file (length content)" "set order = {..<chunk_count (length content)}" "i < chunk_count (length content)"
  shows "dl_chunks (received_state sha content now rt fname tmp dst order) ! i =
    \<lparr>dc_idx = i, dc_offset = offset_for i, dc_size = length (chunk_slice content i), dc_hash = Some (chunk_hash sha content i),
     dc_state = ChDownloaded\<rparr>"
proof -
  let ?s = "init_chunks (Some (map (chunk_hash sha content) [0..<chunk_count (length content)])) (dl_new now rt fname (length content) tmp dst)"
  have fs: "dl_file_size (dl_new now rt fname (length content) tmp dst) = length content" by (simp add: dl_new_def)
  have "dl_chunks ?s ! i = chunk_new i (i * CHUNK_SIZE) (length (chunk_slice content i)) (Some (chunk_hash sha content i))"
    using init_chunks_nth [of "dl_new now rt fname (length content) tmp dst" i] assms(1,3)
    by (simp add: fs chunk_slice_length nth_hash_def)
  moreover have "i < length (dl_chunks ?s)" using assms(3) by (simp add: fs)
  ultimately show ?thesis using batch_download_fold [of i ?s order] assms init_chunk(1) [OF assms(1,3)]
    by (simp add: received_state_def mark_batch_downloaded_def chunk_new_def offset_for_def)
qed

lemma received_state_wf:
  assumes "small_file (length content)"
  shows "dl_wf (received_state sha content now rt fname tmp dst order)"
  unfolding received_state_def mark_batch_downloaded_def
  by (simp, intro foldl_wf batch_download_one_wf init_chunks_wf) (use assms in \<open>simp_all add: dl_new_def\<close>)

lemma received_state_keeps:
  "length (dl_chunks (received_state sha content now rt fname tmp dst order)) = chunk_count (length content)"
  "dl_tmp_path (received_state sha content now rt fname tmp dst order) = tmp"
  "dl_dst_path (received_state sha content now rt fname tmp dst order) = dst"
  using batch_download_keeps
  by (simp_all add: received_state_def mark_batch_downloaded_def touch_def) (simp_all add: dl_new_def init_chunks_def)

text \<open>What finalizing does without faults.\<close>

lemma finalize_moves:
  assumes "tp = path_of_string (dl_tmp_path s)" "d tp = Some content"
    and "path_of_string (dl_dst_path s) \<noteq> tp" "path_of_string (dl_dst_path s) \<noteq> meta_path tp"
  shows "fst (finalize no_faults s d) = Ok () \<and> snd (finalize no_faults s d) (path_of_string (dl_dst_path s)) = Some content"
  using assms by (auto simp: finalize_def fs_exists_def fs_rename_def remove_meta_def fs_remove_other Let_def)

section \<open>Properties\<close>

text \<open>
  C1: A download completes with the right file: when the chunks of a file are written by the reassembly
  commands in any order and with any repetitions, each with its hash, and no system call fails,
  then every write succeeds; the download record created for that file, told that its chunks
  were received, verifies every chunk against the temporary file, is complete with progress 1, and
  finalizing puts exactly the file at the destination.
\<close>

theorem download_completes:
  assumes "small_file (length content)" "content \<noteq> []" "set order = {..<chunk_count (length content)}"
    and "CHR ''/'' \<notin> set tid" "path_of_string tmp = temp_file_path dir tid" "d (temp_file_path dir tid) = None"
    and "path_of_string dst \<noteq> path_of_string tmp" "path_of_string dst \<noteq> meta_path (path_of_string tmp)"
    and "write_chunks_temp no_faults sha parse print saved dir tid (map (chunk_write sha content) order) d = (ok, d1)"
    and "verify_all no_faults sha clock d1 (received_state sha content now rt fname tmp dst order) = (res, t)"
  shows "ok \<and> d1 (path_of_string tmp) = Some content \<and> dl_is_complete t \<and> progress t = F_Fin 1 \<and>
    fst (finalize no_faults t d1) = Ok () \<and> snd (finalize no_faults t d1) (path_of_string dst) = Some content"
proof -
  let ?s = "received_state sha content now rt fname tmp dst order" and ?n = "chunk_count (length content)"
  have ok: ok using write_chunks_succeed [OF assms(4), of sha parse print saved dir content order d] assms(9) by simp
  have t: "t = snd (verify_all no_faults sha clock d1 ?s)" using assms(10) by simp
  have ne: "map (chunk_write sha content) order \<noteq> []"
  proof -
    have "0 < ?n" using slices_cover(1) [OF assms(1), of 0] assms(2) by simp
    then have "0 \<in> set order" by (simp add: assms(3))
    then show ?thesis by auto
  qed
  have pieces: "\<And>x. x \<in> set (map (chunk_write sha content) order) \<Longrightarrow> piece_of content (placed x)"
    using chunk_slice_piece(1) [OF assms(1)] assms(3) by (auto simp: chunk_write_def)
  have cover: "{..<length content} \<subseteq> (\<Union>x \<in> set (map (chunk_write sha content) order). region (placed x))"
    using slices_cover [OF assms(1)] assms(3) by (auto simp: chunk_write_def)
  have run: "write_chunks_temp no_faults sha parse print saved dir tid (map (chunk_write sha content) order) d = (True, d1)"
    using assms(9) ok by simp
  have built: "d1 (path_of_string tmp) = Some content"
    unfolding assms(5) by (rule chunks_content [where d = d, OF assms(4,6) ne run pieces cover])
  have wf: "dl_wf t" unfolding t by (rule verify_all_wf [OF received_state_wf [OF assms(1)]])
  have idx: "map dc_idx (dl_chunks ?s) = [0..<length (dl_chunks ?s)]"
    using received_state_wf [OF assms(1), of sha now rt fname tmp dst order] by (simp add: dl_wf_def)
  have "dc_state (dl_chunks t ! i) = ChVerified" if i: "i < ?n" for i
    using verify_all_nth [OF idx, of i no_faults sha clock d1] received_state_chunks [OF assms(1,3) i] built i
      chunk_slice_piece(2) [OF assms(1) i]
    by (simp add: t received_state_keeps fs_exists_def verdict_def verify_chunk_def chunk_hash_def)
  then have complete: "dl_is_complete t"
    by (simp add: dl_is_complete_def list_all_length t verify_all_length received_state_keeps)
  then have "progress t = F_Fin 1" using progress_range [OF wf] complete_iff [OF wf] by auto
  moreover have "dl_tmp_path t = tmp" "dl_dst_path t = dst"
    using verify_all_paths [of no_faults sha clock d1 ?s] by (simp_all add: t received_state_keeps)
  ultimately show ?thesis using ok built complete finalize_moves [of "path_of_string tmp" t d1 content] assms(7,8) by simp
qed

theorem download_completes_witness:
  "\<exists>w v. write_chunks_temp no_faults (\<lambda>b. b) (\<lambda>_. None) (\<lambda>_. []) ''now'' [''/'', ''w''] ''x'' [chunk_write (\<lambda>b. b) ''hello'' 0] Map.empty = (True, w) \<and>
     snd (verify_all no_faults (\<lambda>b. b) (\<lambda>_. 9) w (received_state (\<lambda>b. b) ''hello'' 5 ''r'' ''f'' ''/w/x.tmp'' ''/out'' [0])) = v \<and>
     dl_is_complete v \<and> snd (finalize no_faults v w) (path_of_string ''/out'') = Some ''hello''"
proof -
  let ?w = "write_chunks_temp no_faults (\<lambda>b. b) (\<lambda>_. None) (\<lambda>_. []) ''now'' [''/'', ''w''] ''x'' (map (chunk_write (\<lambda>b. b) ''hello'') [0]) Map.empty"
  let ?v = "verify_all no_faults (\<lambda>b. b) (\<lambda>_. 9) (snd ?w) (received_state (\<lambda>b. b) ''hello'' 5 ''r'' ''f'' ''/w/x.tmp'' ''/out'' [0])"
  have w: "?w = (fst ?w, snd ?w)" and v: "?v = (fst ?v, snd ?v)" by simp_all
  have small: "small_file (length ''hello'')" by (simp add: small_file_def CHUNK_SIZE_def)
  have one: "set [0] = {..<chunk_count (length ''hello'')}"
    by (auto simp: chunk_count_def wadd64_def wsub64_def CHUNK_SIZE_def)
  have p: "path_of_string ''/w/x.tmp'' = temp_file_path [''/'', ''w''] ''x''" "path_of_string ''/out'' \<noteq> path_of_string ''/w/x.tmp''"
    "path_of_string ''/out'' \<noteq> meta_path (path_of_string ''/w/x.tmp'')"
    by code_simp+
  from download_completes [OF small _ one _ p(1) _ p(2,3) w v]
  have "fst ?w" "dl_is_complete (snd ?v)" "snd (finalize no_faults (snd ?v) (snd ?w)) (path_of_string ''/out'') = Some ''hello''"
    by simp_all
  then show ?thesis by (intro exI [of _ "snd ?w"] exI [of _ "snd ?v"]) (simp add: prod_eq_iff del: write_chunks_temp.simps)
qed

end
